(* ===== verification/Prelude.thy ===== *)
theory Prelude
  imports Complex_Main "HOL-Library.Word" "HOL-Library.Sublist" "HOL-Library.List_Lexorder" "HOL-Library.Char_ord"
begin

text \<open>
  Shared vocabulary of the development: the error type of the kernel (gctrl-core), results of
  fallible operations with explicit state, the string operations of Rust's standard library that
  the kernel uses (strings are UTF-8 byte lists), decimal rendering, and the two interfaces many
  components share: the text codec of an enum (as\_str / from\_str) and a table of rows with a
  sync flag.
\<close>

named_theorems db_simps \<open>unfolding of the state-passing combinators\<close>

section \<open>Types\<close>

text \<open>Instants are their RFC 3339 UTC text, the form every TEXT column stores.\<close>
type_synonym timestamp = string
text \<open>Amounts of money: exact rationals stand for f64 (rounding, NaN and infinities are not modelled).\<close>
type_synonym f64 = rat
type_synonym u32 = "32 word"
type_synonym u64 = "64 word"

text \<open>What rusqlite and duckdb report when a statement fails.\<close>
datatype sql_error = UniqueViolation | ForeignKeyViolation | NoRows | BadColumn | OutOfRange

text \<open>
  GctlError::Storage carries a message: the kernel's own text, or a prefix followed by the text of
  a rusqlite error, which is represented by the error itself. Other carries the text of an anyhow
  error.
\<close>
datatype gctl_error = Storage string | StorageSql string sql_error | Other string

section \<open>Fallible operations on a state\<close>

type_synonym ('s, 'a) db = "'s \<Rightarrow> (gctl_error + 'a) \<times> 's"

definition ret :: "'a \<Rightarrow> ('s, 'a) db" where
  "ret x = (\<lambda>s. (Inr x, s))"

definition throw :: "gctl_error \<Rightarrow> ('s, 'a) db" where
  "throw e = (\<lambda>s. (Inl e, s))"

text \<open>Rust's question mark: an error returns at once and keeps what was already written.\<close>
definition bind :: "('s, 'a) db \<Rightarrow> ('a \<Rightarrow> ('s, 'b) db) \<Rightarrow> ('s, 'b) db" where
  "bind m f = (\<lambda>s. case m s of (Inl e, s') \<Rightarrow> (Inl e, s') | (Inr x, s') \<Rightarrow> f x s')"

lemma ret_apply [simp, db_simps]: "ret x s = (Inr x, s)"
  by (simp add: ret_def)

lemma throw_apply [simp, db_simps]: "throw e s = (Inl e, s)"
  by (simp add: throw_def)

lemma bind_Inl [simp]: "m s = (Inl e, s') \<Longrightarrow> bind m f s = (Inl e, s')"
  by (simp add: bind_def)

lemma bind_Inr [simp]: "m s = (Inr x, s') \<Longrightarrow> bind m f s = f x s'"
  by (simp add: bind_def)

lemma bind_assoc: "bind (bind m f) g = bind m (\<lambda>x. bind (f x) g)"
  by (rule ext) (simp add: bind_def split: prod.splits sum.splits)

lemma bind_InrD:
  "bind m f s = (Inr y, s'') \<Longrightarrow> \<exists>x s'. m s = (Inr x, s') \<and> f x s' = (Inr y, s'')"
  by (auto simp: bind_def split: prod.splits sum.splits)

text \<open>Running a list of operations one after the other, stopping at the first error.\<close>
fun for_each :: "('x \<Rightarrow> ('s, unit) db) \<Rightarrow> 'x list \<Rightarrow> ('s, unit) db" where
  "for_each f [] = ret ()"
| "for_each f (x # xs) = bind (f x) (\<lambda>_. for_each f xs)"

subsection \<open>Frames\<close>

text \<open>An operation keeps a part of the state, whether it succeeds or fails.\<close>

named_theorems frame_intros \<open>operations that keep a part of the state\<close>

definition frame :: "('s \<Rightarrow> 'v) \<Rightarrow> ('s, 'a) db \<Rightarrow> bool" where
  "frame f m \<longleftrightarrow> (\<forall>s. f (snd (m s)) = f s)"

lemma frameD: "frame f m \<Longrightarrow> m s = (r, s') \<Longrightarrow> f s' = f s"
  unfolding frame_def by (metis snd_conv)

lemma frame_ret [frame_intros]: "frame f (ret x)"
  and frame_throw [frame_intros]: "frame f (throw e)"
  by (simp_all add: frame_def)

lemma frame_bind [frame_intros]: "frame f m \<Longrightarrow> (\<And>x. frame f (g x)) \<Longrightarrow> frame f (bind m g)"
  by (auto simp: frame_def bind_def split: prod.splits sum.splits) (metis snd_conv)+

lemma frame_state: "(\<And>s. frame f (m s)) \<Longrightarrow> frame f (\<lambda>s. m s s)"
  by (simp add: frame_def)

lemma frame_if [frame_intros]: "frame f m \<Longrightarrow> frame f m' \<Longrightarrow> frame f (if b then m else m')"
  by simp

lemma frame_case_option [frame_intros]:
  "frame f m \<Longrightarrow> (\<And>x. frame f (g x)) \<Longrightarrow> frame f (case y of None \<Rightarrow> m | Some x \<Rightarrow> g x)"
  by (cases y) simp_all

lemma frame_for_each [frame_intros]: "(\<And>x. frame f (g x)) \<Longrightarrow> frame f (for_each g xs)"
  by (induction xs) (simp_all add: frame_ret frame_bind)

section \<open>Rows of a table\<close>

text \<open>UPDATE t SET .. WHERE p and the number of rows it reports; DELETE FROM t WHERE p.\<close>

definition update_where :: "('r \<Rightarrow> bool) \<Rightarrow> ('r \<Rightarrow> 'r) \<Rightarrow> 'r list \<Rightarrow> 'r list" where
  "update_where p f rows = map (\<lambda>r. if p r then f r else r) rows"

definition count_where :: "('r \<Rightarrow> bool) \<Rightarrow> 'r list \<Rightarrow> nat" where
  "count_where p rows = length (filter p rows)"

definition delete_where :: "('r \<Rightarrow> bool) \<Rightarrow> 'r list \<Rightarrow> 'r list" where
  "delete_where p rows = filter (\<lambda>r. \<not> p r) rows"

text \<open>ORDER BY k ASC / DESC; rows with equal keys keep their insertion order.\<close>

definition order_asc :: "('r \<Rightarrow> 'k::linorder) \<Rightarrow> 'r list \<Rightarrow> 'r list" where
  "order_asc k rows = sort_key k rows"

definition order_desc :: "('r \<Rightarrow> 'k::linorder) \<Rightarrow> 'r list \<Rightarrow> 'r list" where
  "order_desc k rows = rev (sort_key k (rev rows))"

text \<open>An optional equality filter of a dynamic query, and an optional LIMIT.\<close>

definition opt_eq :: "'a option \<Rightarrow> 'a \<Rightarrow> bool" where
  "opt_eq flt x = (case flt of None \<Rightarrow> True | Some y \<Rightarrow> x = y)"

definition opt_limit :: "nat option \<Rightarrow> 'r list \<Rightarrow> 'r list" where
  "opt_limit mx rows = (case mx of None \<Rightarrow> rows | Some n \<Rightarrow> take n rows)"

lemma opt_eq_simps [simp]: "opt_eq None x" "opt_eq (Some y) x \<longleftrightarrow> x = y"
  by (simp_all add: opt_eq_def)

lemma opt_limit_simps [simp]: "opt_limit None rows = rows" "opt_limit (Some n) rows = take n rows"
  by (simp_all add: opt_limit_def)

lemma update_where_Nil [simp]: "update_where p f [] = []"
  and update_where_Cons [simp]:
    "update_where p f (r # rs) = (if p r then f r else r) # update_where p f rs"
  by (simp_all add: update_where_def)

lemma length_update_where [simp]: "length (update_where p f rows) = length rows"
  by (simp add: update_where_def)

lemma set_update_where: "set (update_where p f rows) = {if p r then f r else r |r. r \<in> set rows}"
  by (auto simp: update_where_def)

lemma map_update_where: "(\<And>r. p r \<Longrightarrow> k (f r) = k r) \<Longrightarrow> map k (update_where p f rows) = map k rows"
  by (auto simp: update_where_def)

lemma update_where_none: "\<forall>r \<in> set rows. \<not> p r \<Longrightarrow> update_where p f rows = rows"
  by (simp add: update_where_def map_idI)

lemma set_delete_where [simp]: "set (delete_where p rows) = {r \<in> set rows. \<not> p r}"
  by (simp add: delete_where_def)

lemma count_where_Cons [simp]: "count_where p (r # rs) = (if p r then 1 else 0) + count_where p rs"
  and count_where_Nil [simp]: "count_where p [] = 0"
  by (simp_all add: count_where_def)

lemma count_where_append [simp]: "count_where p (xs @ ys) = count_where p xs + count_where p ys"
  by (simp add: count_where_def)

lemma count_where_pos: "0 < count_where p rows \<longleftrightarrow> (\<exists>r \<in> set rows. p r)"
  by (induction rows) auto

lemma count_where_0: "count_where p rows = 0 \<longleftrightarrow> (\<forall>r \<in> set rows. \<not> p r)"
  by (induction rows) auto

lemma set_order_asc [simp]: "set (order_asc k rows) = set rows"
  and length_order_asc [simp]: "length (order_asc k rows) = length rows"
  and sorted_order_asc: "sorted (map k (order_asc k rows))"
  by (simp_all add: order_asc_def)

lemma set_order_desc [simp]: "set (order_desc k rows) = set rows"
  and length_order_desc [simp]: "length (order_desc k rows) = length rows"
  by (simp_all add: order_desc_def)

lemma sorted_order_desc: "sorted_wrt (\<lambda>x y. k y \<le> k x) (order_desc k rows)"
  using sorted_sort_key [of k "rev rows"]
  by (simp add: order_desc_def sorted_wrt_rev sorted_map)

subsection \<open>Tables with a primary key\<close>

lemma distinct_key_unique:
  "distinct (map k rows) \<Longrightarrow> r \<in> set rows \<Longrightarrow> r' \<in> set rows \<Longrightarrow> k r = k r' \<Longrightarrow> r = r'"
  by (simp add: distinct_map inj_on_def)

lemma find_key_eq:
  "distinct (map k rows) \<Longrightarrow> r \<in> set rows \<Longrightarrow> find (\<lambda>x. k x = k r) rows = Some r"
  by (induction rows) (auto simp: image_iff)

lemma find_None_key: "find (\<lambda>x. k x = a) rows = None \<longleftrightarrow> a \<notin> k ` set rows"
  by (auto simp: find_None_iff)

lemma find_SomeD: "find p rows = Some r \<Longrightarrow> r \<in> set rows \<and> p r"
  by (induction rows) (auto split: if_splits)

lemma find_append: "find p (xs @ ys) = (case find p xs of None \<Rightarrow> find p ys | Some r \<Rightarrow> Some r)"
  by (induction xs) auto

lemma find_filter_Cons: "find p rows = Some r \<Longrightarrow> \<exists>rest. filter p rows = r # rest"
  by (induction rows) (auto split: if_splits)

lemma filter_key_single:
  "distinct (map k rows) \<Longrightarrow> r \<in> set rows \<Longrightarrow> k r = a \<Longrightarrow> filter (\<lambda>x. k x = a) rows = [r]"
proof (induction rows)
  case (Cons x rows)
  show ?case
  proof (cases "k x = a")
    case True
    with Cons.prems have "\<forall>y \<in> set rows. k y \<noteq> a" by (force simp: image_iff)
    with True Cons.prems show ?thesis by (auto simp: filter_empty_conv)
  next
    case False
    with Cons show ?thesis by auto
  qed
qed simp

lemma distinct_map_filter: "distinct (map k rows) \<Longrightarrow> distinct (map k (filter p rows))"
  by (induction rows) auto

text \<open>An UPDATE of rows a query does not see, before or after.\<close>
lemma filter_update_where_other:
  "(\<And>r. r \<in> set rows \<Longrightarrow> p r \<Longrightarrow> \<not> q r \<and> \<not> q (f r)) \<Longrightarrow>
   filter q (update_where p f rows) = filter q rows"
  by (induction rows) auto

text \<open>Looking a key up after an UPDATE that keeps the key.\<close>
lemma find_update_where:
  assumes "\<And>r. q (f r) = q r"
  shows "find q (update_where p f rows) =
    (case find q rows of None \<Rightarrow> None | Some r \<Rightarrow> Some (if p r then f r else r))"
  using assms by (induction rows) auto

lemma find_update_where_key:
  assumes "\<And>r. k (f r) = k r"
  shows "find (\<lambda>r. k r = a) (update_where (\<lambda>r. k r = b) f rows) =
    (if a = b then map_option f (find (\<lambda>r. k r = a) rows) else find (\<lambda>r. k r = a) rows)"
  using assms by (induction rows) auto

lemma distinct_count_key:
  "distinct (map k rows) \<Longrightarrow> count_where (\<lambda>r. k r = a \<and> q r) rows \<le> 1"
proof (induction rows)
  case (Cons r rs)
  show ?case
  proof (cases "k r = a")
    case True
    with Cons.prems have "\<forall>x \<in> set rs. k x \<noteq> a" by (force simp: image_iff)
    then have "count_where (\<lambda>r. k r = a \<and> q r) rs = 0" by (simp add: count_where_0)
    with True show ?thesis by simp
  next
    case False
    with Cons show ?thesis by simp
  qed
qed simp

lemma count_key_eq_1:
  "distinct (map k rows) \<Longrightarrow>
   count_where (\<lambda>r. k r = a \<and> q r) rows = 1 \<longleftrightarrow> (\<exists>r. find (\<lambda>r. k r = a) rows = Some r \<and> q r)"
proof (induction rows)
  case (Cons r rs)
  show ?case
  proof (cases "k r = a")
    case True
    with Cons.prems have "\<forall>x \<in> set rs. k x \<noteq> a" by (force simp: image_iff)
    then have "count_where (\<lambda>r. k r = a \<and> q r) rs = 0" by (simp add: count_where_0)
    with True show ?thesis by simp
  next
    case False
    with Cons show ?thesis by simp
  qed
qed simp

section \<open>Strings\<close>

text \<open>
  A Rust str is its UTF-8 byte list. White\_space lists the encodings of the characters
  char::is\_whitespace accepts (Unicode White\_Space), so that trim works on bytes.
\<close>

definition bytes :: "nat list \<Rightarrow> string" where
  "bytes ns = map char_of ns"

definition white_space :: "string list" where
  "white_space =
     [bytes [9], bytes [10], bytes [11], bytes [12], bytes [13], bytes [32],
      bytes [194, 133], bytes [194, 160], bytes [225, 154, 128],
      bytes [226, 128, 128], bytes [226, 128, 129], bytes [226, 128, 130], bytes [226, 128, 131],
      bytes [226, 128, 132], bytes [226, 128, 133], bytes [226, 128, 134], bytes [226, 128, 135],
      bytes [226, 128, 136], bytes [226, 128, 137], bytes [226, 128, 138],
      bytes [226, 128, 168], bytes [226, 128, 169], bytes [226, 128, 175],
      bytes [226, 129, 159], bytes [227, 128, 128]]"

definition strip_prefix :: "string \<Rightarrow> string \<Rightarrow> string option" where
  "strip_prefix p s = (if prefix p s then Some (drop (length p) s) else None)"

text \<open>The white-space character a string starts with, as its number of bytes (0 when none).\<close>
definition ws_len :: "string \<Rightarrow> nat" where
  "ws_len s = (case find (\<lambda>w. prefix w s) white_space of None \<Rightarrow> 0 | Some w \<Rightarrow> length w)"

definition ws_len_end :: "string \<Rightarrow> nat" where
  "ws_len_end s = (case find (\<lambda>w. suffix w s) white_space of None \<Rightarrow> 0 | Some w \<Rightarrow> length w)"

lemma white_space_ne: "w \<in> set white_space \<Longrightarrow> 0 < length w"
  by (auto simp: white_space_def bytes_def)

lemma ws_len_le: "ws_len s \<le> length s"
  by (auto simp: ws_len_def find_Some_iff prefix_length_le split: option.splits)

lemma ws_len_end_le: "ws_len_end s \<le> length s"
  by (auto simp: ws_len_end_def find_Some_iff suffix_length_le split: option.splits)

function trim_start :: "string \<Rightarrow> string" where
  "trim_start s = (if ws_len s = 0 then s else trim_start (drop (ws_len s) s))"
  by pat_completeness auto
termination
proof (relation "measure length", goal_cases)
  case (2 s)
  then show ?case using ws_len_le [of s] by simp
qed simp

function trim_end :: "string \<Rightarrow> string" where
  "trim_end s = (if ws_len_end s = 0 then s else trim_end (take (length s - ws_len_end s) s))"
  by pat_completeness auto
termination
proof (relation "measure length", goal_cases)
  case (2 s)
  then show ?case using ws_len_end_le [of s] by simp
qed simp

declare trim_start.simps [simp del] trim_end.simps [simp del]

definition trim :: "string \<Rightarrow> string" where
  "trim s = trim_end (trim_start s)"

lemma trim_start_stop: "ws_len (trim_start s) = 0"
proof (induction s rule: trim_start.induct)
  case (1 s)
  then show ?case by (cases "ws_len s = 0") (simp_all add: trim_start.simps [of s])
qed

lemma trim_end_stop: "ws_len_end (trim_end s) = 0"
proof (induction s rule: trim_end.induct)
  case (1 s)
  then show ?case by (cases "ws_len_end s = 0") (simp_all add: trim_end.simps [of s])
qed

lemma suffix_trim_start: "suffix (trim_start s) s"
proof (induction s rule: trim_start.induct)
  case (1 s)
  then show ?case
    by (cases "ws_len s = 0")
      (auto simp: trim_start.simps [of s] intro: suffix_order.trans suffix_drop)
qed

lemma prefix_trim_end: "prefix (trim_end s) s"
proof (induction s rule: trim_end.induct)
  case (1 s)
  then show ?case
    by (cases "ws_len_end s = 0")
      (auto simp: trim_end.simps [of s] intro: prefix_order.trans take_is_prefix)
qed

fun contains :: "string \<Rightarrow> string \<Rightarrow> bool" where
  "contains p [] = (p = [])"
| "contains p (c # s) = (prefix p (c # s) \<or> contains p s)"

lemma contains_iff_sublist: "contains p s \<longleftrightarrow> sublist p s"
  by (induction s) (auto simp: sublist_Cons_right)

lemma contains_iff: "contains p s \<longleftrightarrow> (\<exists>a b. s = a @ p @ b)"
  by (simp add: contains_iff_sublist sublist_def)

text \<open>str::lines: split at line feeds, drop the carriage return before one, no empty last line.\<close>

fun split_lines :: "string \<Rightarrow> string \<Rightarrow> string list" where
  "split_lines acc [] = (if acc = [] then [] else [rev acc])"
| "split_lines acc (c # s) =
     (if c = CHR 0x0A
      then rev (case acc of [] \<Rightarrow> [] | d # ds \<Rightarrow> if d = CHR 0x0D then ds else acc) # split_lines [] s
      else split_lines (c # acc) s)"

definition lines :: "string \<Rightarrow> string list" where
  "lines s = split_lines [] s"

text \<open>str::split\_once on one ASCII character.\<close>
text \<open>slice::join.\<close>
fun join :: "string \<Rightarrow> string list \<Rightarrow> string" where
  "join sep [] = []"
| "join sep [x] = x"
| "join sep (x # y # zs) = x @ sep @ join sep (y # zs)"

fun split_once :: "char \<Rightarrow> string \<Rightarrow> (string \<times> string) option" where
  "split_once d [] = None"
| "split_once d (c # s) =
     (if c = d then Some ([], s) else map_option (\<lambda>(a, b). (c # a, b)) (split_once d s))"

lemma split_once_eq: "split_once d s = Some (a, b) \<longleftrightarrow> s = a @ d # b \<and> d \<notin> set a"
proof (induction s arbitrary: a)
  case (Cons c s)
  then show ?case by (cases a) (auto split: if_splits)
qed simp

text \<open>str::is\_char\_boundary: byte i does not continue a character.\<close>
definition is_continuation :: "char \<Rightarrow> bool" where
  "is_continuation c \<longleftrightarrow> 128 \<le> (of_char c :: nat) \<and> (of_char c :: nat) < 192"

definition is_char_boundary :: "string \<Rightarrow> nat \<Rightarrow> bool" where
  "is_char_boundary s i \<longleftrightarrow>
     i = 0 \<or> i = length s \<or> (i < length s \<and> \<not> is_continuation (s ! i))"

text \<open>split\_whitespace().count(): the maximal runs of other characters.\<close>
function count_words :: "bool \<Rightarrow> string \<Rightarrow> nat" where
  "count_words in_word s =
     (if s = [] then 0
      else if ws_len s = 0 then (if in_word then 0 else 1) + count_words True (tl s)
      else count_words False (drop (ws_len s) s))"
  by pat_completeness auto
termination
  by (relation "measure (length o snd)") auto

declare count_words.simps [simp del]

text \<open>str::find: the byte index of the first occurrence of a pattern.\<close>
fun str_find :: "string \<Rightarrow> string \<Rightarrow> nat option" where
  "str_find p [] = (if p = [] then Some 0 else None)"
| "str_find p (c # s) = (if prefix p (c # s) then Some 0 else map_option Suc (str_find p s))"

lemma str_find_Some: "str_find p s = Some i \<Longrightarrow> prefix p (drop i s) \<and> (\<forall>j < i. \<not> prefix p (drop j s))"
proof (induction s arbitrary: i)
  case (Cons c s)
  show ?case
  proof (cases "prefix p (c # s)")
    case False
    with Cons.prems obtain k where "str_find p s = Some k" "i = Suc k" by auto
    with Cons.IH [of k] False show ?thesis by (auto simp: less_Suc_eq_0_disj)
  qed (use Cons.prems in simp)
qed (simp split: if_splits)

lemma str_find_first: "prefix p (drop i s) \<Longrightarrow> \<forall>j < i. \<not> prefix p (drop j s) \<Longrightarrow> i \<le> length s \<Longrightarrow> str_find p s = Some i"
proof (induction s arbitrary: i)
  case (Cons c s)
  show ?case
  proof (cases i)
    case (Suc k)
    with Cons.prems have "\<not> prefix p (c # s)" "\<forall>j < k. \<not> prefix p (drop j s)" by (auto dest: spec [of _ 0] spec [of _ "Suc _"])
    with Cons Suc show ?thesis by simp
  qed (use Cons.prems in simp)
qed simp

lemma str_find_line:
  assumes "c \<notin> set a"
  shows "str_find (c # q) (a @ c # r) =
    (if prefix q r then Some (length a) else map_option (\<lambda>i. Suc (length a + i)) (str_find (c # q) r))"
  using assms by (induction a) (auto simp: option.map_comp comp_def)

text \<open>str::split of a character.\<close>
fun split_char :: "char \<Rightarrow> string \<Rightarrow> string list" where
  "split_char d [] = [[]]"
| "split_char d (c # cs) =
     (if c = d then [] # split_char d cs
      else (case split_char d cs of [] \<Rightarrow> [[c]] | w # ws \<Rightarrow> (c # w) # ws))"

lemma split_char_nonempty [simp]: "split_char d s \<noteq> []"
  by (induction s) (simp_all split: list.splits)

lemma split_char_word: "d \<notin> set w \<Longrightarrow> split_char d w = [w]"
  by (induction w) auto

lemma split_char_cons: "d \<notin> set w \<Longrightarrow> split_char d (w @ d # s) = w # split_char d s"
  by (induction w) auto

section \<open>The greatest element\<close>

text \<open>Iterator::max\_by\_key: of several maximal elements the last one.\<close>
definition max_by_key :: "('a \<Rightarrow> 'k::linorder) \<Rightarrow> 'a list \<Rightarrow> 'a option" where
  "max_by_key k xs =
     foldl (\<lambda>m x. case m of None \<Rightarrow> Some x | Some y \<Rightarrow> if k x < k y then Some y else Some x) None xs"

lemma max_by_key_snoc:
  "max_by_key k (xs @ [x]) = (case max_by_key k xs of None \<Rightarrow> Some x
     | Some y \<Rightarrow> if k x < k y then Some y else Some x)"
  by (simp add: max_by_key_def)

lemma max_by_key_None: "max_by_key k xs = None \<longleftrightarrow> xs = []"
  by (induction xs rule: rev_induct) (auto simp: max_by_key_snoc, simp add: max_by_key_def)

lemma max_by_key_max:
  "max_by_key k xs = Some x \<Longrightarrow> x \<in> set xs \<and> (\<forall>y \<in> set xs. k y \<le> k x)"
proof (induction xs arbitrary: x rule: rev_induct)
  case Nil
  then show ?case by (simp add: max_by_key_def)
next
  case (snoc z xs)
  show ?case
  proof (cases "max_by_key k xs")
    case None
    then have "xs = []" by (simp add: max_by_key_None)
    with snoc.prems show ?thesis by (simp add: max_by_key_def)
  next
    case (Some y)
    from snoc.IH [OF this] snoc.prems Some show ?thesis
      by (auto simp: max_by_key_snoc split: if_splits intro: order_trans less_imp_le)
  qed
qed

section \<open>Decimal numbers\<close>

definition digit :: "nat \<Rightarrow> char" where
  "digit n = char_of (48 + n)"

fun show_nat :: "nat \<Rightarrow> string" where
  "show_nat n = (if n < 10 then [digit n] else show_nat (n div 10) @ [digit (n mod 10)])"

declare show_nat.simps [simp del]

definition show_int :: "int \<Rightarrow> string" where
  "show_int i = (if i < 0 then CHR ''-'' # show_nat (nat (- i)) else show_nat (nat i))"

definition digit_val :: "char \<Rightarrow> nat" where
  "digit_val c = of_char c - 48"

definition read_nat :: "string \<Rightarrow> nat" where
  "read_nat s = foldl (\<lambda>a c. a * 10 + digit_val c) 0 s"

text \<open>str::parse of an unsigned integer: one optional plus sign, decimal digits, no overflow.\<close>
definition parse_uint :: "nat \<Rightarrow> string \<Rightarrow> nat option" where
  "parse_uint w s =
     (let ds = (case s of [] \<Rightarrow> s | c # r \<Rightarrow> if c = CHR ''+'' \<and> r \<noteq> [] then r else s)
      in if ds = [] \<or> \<not> list_all (\<lambda>c. c \<in> set ''0123456789'') ds \<or> 2 ^ w \<le> read_nat ds then None
         else Some (read_nat ds))"

lemma of_char_digit: "n < 10 \<Longrightarrow> (of_char (digit n) :: nat) = 48 + n"
  by (simp add: digit_def)

lemma read_show_nat [simp]: "read_nat (show_nat n) = n"
proof (induction n rule: show_nat.induct)
  case (1 n)
  show ?case
  proof (cases "n < 10")
    case True
    then show ?thesis by (simp add: show_nat.simps [of n] read_nat_def digit_val_def of_char_digit)
  next
    case False
    with 1 have "read_nat (show_nat (n div 10)) = n div 10" by simp
    with False show ?thesis
      by (simp add: show_nat.simps [of n] read_nat_def digit_val_def of_char_digit)
  qed
qed

lemma show_nat_inj [simp]: "show_nat m = show_nat n \<longleftrightarrow> m = n"
  by (metis read_show_nat)

lemma show_nat_digits: "\<exists>d < 10. c = digit d" if "c \<in> set (show_nat n)"
  using that
proof (induction n rule: show_nat.induct)
  case (1 n)
  then show ?case
    by (cases "n < 10") (auto simp: show_nat.simps [of n] intro: exI [of _ "n mod 10"])
qed

lemma digit_neq: "d < 10 \<Longrightarrow> digit d \<noteq> c" if "(of_char c :: nat) < 48 \<or> 57 < (of_char c :: nat)"
  using that of_char_digit [of d] by auto

lemma not_in_show_nat: "(of_char c :: nat) < 48 \<or> 57 < (of_char c :: nat) \<Longrightarrow> c \<notin> set (show_nat n)"
  using digit_neq [of c] by (metis show_nat_digits)

section \<open>Interface: the text codec of an enum\<close>

text \<open>
  Every enum the store writes has as\_str and from\_str. What the row mappers rely on: reading back
  what was written gives the same value, and only those texts are accepted.
\<close>

locale str_codec =
  fixes as_str :: "'e \<Rightarrow> string"
    and from_str :: "string \<Rightarrow> 'e option"
  assumes from_as: "from_str (as_str x) = Some x"
    and as_from: "from_str s = Some x \<Longrightarrow> as_str x = s"
begin

lemma as_str_inj: "as_str x = as_str y \<longleftrightarrow> x = y"
  by (metis from_as option.inject)

lemma from_str_iff: "from_str s = Some x \<longleftrightarrow> s = as_str x"
  using from_as as_from by blast

lemma from_str_None: "from_str s = None \<longleftrightarrow> (\<forall>x. s \<noteq> as_str x)"
  using from_str_iff by (metis not_Some_eq)

end

section \<open>Interface: a table with a sync flag\<close>

text \<open>
  The tables replicated to D1 carry a synced column. The push side reads the unsynced rows and
  marks the pushed ids; every kernel write clears the flag again. The contract is stated on the
  row type: mark changes the flag alone.
\<close>

locale sync_table =
  fixes key :: "'r \<Rightarrow> string"
    and synced :: "'r \<Rightarrow> bool"
    and mark :: "'r \<Rightarrow> 'r"
  assumes synced_mark: "synced (mark r)"
    and key_mark: "key (mark r) = key r"
    and mark_idem: "synced r \<Longrightarrow> mark r = r"
begin

lemma marked_rows_synced:
  "\<lbrakk>r \<in> set (update_where (\<lambda>r. key r \<in> ids) mark rows); key r \<in> ids\<rbrakk> \<Longrightarrow> synced r"
  by (auto simp: update_where_def synced_mark key_mark split: if_splits)

lemma unmarked_rows_same:
  "filter (\<lambda>r. key r \<notin> ids) (update_where (\<lambda>r. key r \<in> ids) mark rows) =
   filter (\<lambda>r. key r \<notin> ids) rows"
  by (induction rows) (auto simp: key_mark)

text \<open>What is left to push after marking: exactly the unsynced rows that were not pushed.\<close>
lemma unsynced_after_mark:
  "filter (\<lambda>r. \<not> synced r) (update_where (\<lambda>r. key r \<in> ids) mark rows) =
   filter (\<lambda>r. key r \<notin> ids) (filter (\<lambda>r. \<not> synced r) rows)"
  by (induction rows) (auto simp: synced_mark)

lemma keys_after_mark: "map key (update_where (\<lambda>r. key r \<in> ids) mark rows) = map key rows"
  by (rule map_update_where) (simp add: key_mark)

text \<open>Pushing a whole batch and marking it empties the queue when the batch held every row.\<close>
lemma drained:
  "ids = key ` set (filter (\<lambda>r. \<not> synced r) rows) \<Longrightarrow>
   filter (\<lambda>r. \<not> synced r) (update_where (\<lambda>r. key r \<in> ids) mark rows) = []"
  by (auto simp: unsynced_after_mark filter_empty_conv)

text \<open>A batch of n rows leaves n rows less to push (ids are a primary key).\<close>
lemma count_after_batch:
  assumes "distinct (map key rows)" and "batch \<subseteq> set (filter (\<lambda>r. \<not> synced r) rows)"
  shows "count_where (\<lambda>r. \<not> synced r) (update_where (\<lambda>r. key r \<in> key ` batch) mark rows) =
         count_where (\<lambda>r. \<not> synced r) rows - card batch"
proof -
  let ?u = "filter (\<lambda>r. \<not> synced r) rows"
  have inj: "inj_on key (set rows)" using assms(1) by (simp add: distinct_map)
  have sub: "batch \<subseteq> set rows" using assms(2) by auto
  have d: "distinct ?u" using assms(1) by (simp add: distinct_map)
  have "filter (\<lambda>r. key r \<notin> key ` batch) ?u = filter (\<lambda>r. r \<notin> batch) ?u"
    by (rule filter_cong) (use inj sub in \<open>auto simp: inj_on_def\<close>)
  then have "length (filter (\<lambda>r. key r \<notin> key ` batch) ?u) = card ({r. r \<notin> batch} \<inter> set ?u)"
    using distinct_length_filter [OF d, of "\<lambda>r. r \<notin> batch"] by simp
  also have "{r. r \<notin> batch} \<inter> set ?u = set ?u - batch" by auto
  also have "card (set ?u - batch) = card (set ?u) - card batch"
    by (rule card_Diff_subset) (use assms(2) in \<open>auto intro: finite_subset\<close>)
  also have "card (set ?u) = length ?u" by (rule distinct_card [OF d])
  finally show ?thesis by (simp add: count_where_def unsynced_after_mark)
qed

end

end
