(* ===== verification/Core_Types.thy ===== *)
theory Core_Types
  imports Prelude
begin

text \<open>
  gctrl-core/src/types.rs: the enums of the kernel with their text codecs, the board's issue
  status machine (valid\_transitions, can\_transition\_to, forward\_path\_to) and the claim states of
  an OrchTask. Every codec is an instance of the interface str\_codec, which is what the row mappers
  of the store rely on.
\<close>

section \<open>Session status, provenance, span kinds, vault mounts\<close>

datatype session_status = Sess_Active | Sess_Completed | Sess_Failed | Sess_Cancelled

fun session_status_as_str :: "session_status \<Rightarrow> string" where
  "session_status_as_str Sess_Active = ''active''"
| "session_status_as_str Sess_Completed = ''completed''"
| "session_status_as_str Sess_Failed = ''failed''"
| "session_status_as_str Sess_Cancelled = ''cancelled''"

definition session_status_from_str :: "string \<Rightarrow> session_status option" where
  "session_status_from_str s =
     (if s = ''active'' then Some Sess_Active
      else if s = ''completed'' then Some Sess_Completed
      else if s = ''failed'' then Some Sess_Failed
      else if s = ''cancelled'' then Some Sess_Cancelled
      else None)"

datatype created_by = By_Scheduler | By_OtelIngest | By_Api | By_Unknown

fun created_by_as_str :: "created_by \<Rightarrow> string" where
  "created_by_as_str By_Scheduler = ''scheduler''"
| "created_by_as_str By_OtelIngest = ''otel_ingest''"
| "created_by_as_str By_Api = ''api''"
| "created_by_as_str By_Unknown = ''unknown''"

definition created_by_from_str :: "string \<Rightarrow> created_by option" where
  "created_by_from_str s =
     (if s = ''scheduler'' then Some By_Scheduler
      else if s = ''otel_ingest'' then Some By_OtelIngest
      else if s = ''api'' then Some By_Api
      else if s = ''unknown'' then Some By_Unknown
      else None)"

fun is_internal :: "created_by \<Rightarrow> bool" where
  "is_internal By_Scheduler = True"
| "is_internal By_Api = True"
| "is_internal _ = False"

fun is_external :: "created_by \<Rightarrow> bool" where
  "is_external By_OtelIngest = True"
| "is_external _ = False"

datatype span_status = Span_Ok | Span_Error string | Span_Unset

fun span_status_as_str :: "span_status \<Rightarrow> string" where
  "span_status_as_str Span_Ok = ''ok''"
| "span_status_as_str (Span_Error _) = ''error''"
| "span_status_as_str Span_Unset = ''unset''"

fun error_message :: "span_status \<Rightarrow> string option" where
  "error_message (Span_Error m) = Some m"
| "error_message _ = None"

datatype span_type = Ty_Generation | Ty_Span | Ty_Event

fun span_type_as_str :: "span_type \<Rightarrow> string" where
  "span_type_as_str Ty_Generation = ''generation''"
| "span_type_as_str Ty_Span = ''span''"
| "span_type_as_str Ty_Event = ''event''"

text \<open>SpanType::from\_str is total: any other text is a plain span.\<close>
definition span_type_from_str :: "string \<Rightarrow> span_type" where
  "span_type_from_str s =
     (if s = ''generation'' then Ty_Generation else if s = ''event'' then Ty_Event else Ty_Span)"

datatype vault_mount_kind = Vault_Workspace | Vault_App | Vault_External

fun vault_mount_kind_as_str :: "vault_mount_kind \<Rightarrow> string" where
  "vault_mount_kind_as_str Vault_Workspace = ''workspace''"
| "vault_mount_kind_as_str Vault_App = ''app''"
| "vault_mount_kind_as_str Vault_External = ''external''"

definition vault_mount_kind_from_str :: "string \<Rightarrow> vault_mount_kind option" where
  "vault_mount_kind_from_str s =
     (if s = ''workspace'' then Some Vault_Workspace
      else if s = ''app'' then Some Vault_App
      else if s = ''external'' then Some Vault_External
      else None)"

datatype policy_decision = Allow | Warn string | Deny string

fun is_allowed :: "policy_decision \<Rightarrow> bool" where
  "is_allowed Allow = True"
| "is_allowed (Warn _) = True"
| "is_allowed (Deny _) = False"

section \<open>Issue status\<close>

datatype issue_status = Backlog | Todo | InProgress | InReview | Done | Cancelled

fun issue_status_as_str :: "issue_status \<Rightarrow> string" where
  "issue_status_as_str Backlog = ''backlog''"
| "issue_status_as_str Todo = ''todo''"
| "issue_status_as_str InProgress = ''in_progress''"
| "issue_status_as_str InReview = ''in_review''"
| "issue_status_as_str Done = ''done''"
| "issue_status_as_str Cancelled = ''cancelled''"

definition issue_status_from_str :: "string \<Rightarrow> issue_status option" where
  "issue_status_from_str s =
     (if s = ''backlog'' then Some Backlog
      else if s = ''todo'' then Some Todo
      else if s = ''in_progress'' then Some InProgress
      else if s = ''in_review'' then Some InReview
      else if s = ''done'' then Some Done
      else if s = ''cancelled'' then Some Cancelled
      else None)"

fun is_terminal :: "issue_status \<Rightarrow> bool" where
  "is_terminal Done = True"
| "is_terminal Cancelled = True"
| "is_terminal _ = False"

fun valid_transitions :: "issue_status \<Rightarrow> issue_status list" where
  "valid_transitions Backlog = [Todo, Cancelled]"
| "valid_transitions Todo = [InProgress, Backlog, Cancelled]"
| "valid_transitions InProgress = [InReview, Todo, Cancelled]"
| "valid_transitions InReview = [Done, InProgress, Cancelled]"
| "valid_transitions Done = []"
| "valid_transitions Cancelled = []"

definition can_transition_to :: "issue_status \<Rightarrow> issue_status \<Rightarrow> bool" where
  "can_transition_to from to = (to \<in> set (valid_transitions from))"

definition forward_order :: "issue_status list" where
  "forward_order = [Backlog, Todo, InProgress, InReview, Done]"

text \<open>Iterator::position of a value.\<close>
fun position :: "'a \<Rightarrow> 'a list \<Rightarrow> nat option" where
  "position x [] = None"
| "position x (y # ys) = (if y = x then Some 0 else map_option Suc (position x ys))"

definition forward_path_to :: "issue_status \<Rightarrow> issue_status \<Rightarrow> issue_status list option" where
  "forward_path_to from to =
     (if to = Cancelled then Some [Cancelled]
      else case position from forward_order of
        None \<Rightarrow> None
      | Some from_idx \<Rightarrow>
          (case position to forward_order of
            None \<Rightarrow> None
          | Some to_idx \<Rightarrow>
              if to_idx \<le> from_idx then None
              else Some (take (to_idx - from_idx) (drop (from_idx + 1) forward_order))))"

section \<open>Claim states of an OrchTask\<close>

definition CLAIM_UNCLAIMED :: string where "CLAIM_UNCLAIMED = ''Unclaimed''"
definition CLAIM_CLAIMED :: string where "CLAIM_CLAIMED = ''Claimed''"
definition CLAIM_RUNNING :: string where "CLAIM_RUNNING = ''Running''"
definition CLAIM_RETRY_QUEUED :: string where "CLAIM_RETRY_QUEUED = ''RetryQueued''"
definition CLAIM_RELEASED :: string where "CLAIM_RELEASED = ''Released''"

lemmas claim_defs =
  CLAIM_UNCLAIMED_def CLAIM_CLAIMED_def CLAIM_RUNNING_def CLAIM_RETRY_QUEUED_def CLAIM_RELEASED_def

definition is_nonterminal_claim :: "string \<Rightarrow> bool" where
  "is_nonterminal_claim claim =
     (claim \<in> {CLAIM_UNCLAIMED, CLAIM_CLAIMED, CLAIM_RUNNING, CLAIM_RETRY_QUEUED})"

section \<open>The codecs satisfy their interface\<close>

interpretation session_status_codec: str_codec session_status_as_str session_status_from_str
proof (unfold_locales, goal_cases)
  case (1 x) then show ?case by (cases x) (simp_all add: session_status_from_str_def)
next
  case (2 s x) then show ?case by (auto simp: session_status_from_str_def split: if_splits)
qed

interpretation created_by_codec: str_codec created_by_as_str created_by_from_str
proof (unfold_locales, goal_cases)
  case (1 x) then show ?case by (cases x) (simp_all add: created_by_from_str_def)
next
  case (2 s x) then show ?case by (auto simp: created_by_from_str_def split: if_splits)
qed

interpretation vault_kind_codec: str_codec vault_mount_kind_as_str vault_mount_kind_from_str
proof (unfold_locales, goal_cases)
  case (1 x) then show ?case by (cases x) (simp_all add: vault_mount_kind_from_str_def)
next
  case (2 s x) then show ?case by (auto simp: vault_mount_kind_from_str_def split: if_splits)
qed

interpretation issue_status_codec: str_codec issue_status_as_str issue_status_from_str
proof (unfold_locales, goal_cases)
  case (1 x) then show ?case by (cases x) (simp_all add: issue_status_from_str_def)
next
  case (2 s x) then show ?case by (auto simp: issue_status_from_str_def split: if_splits)
qed

lemma span_type_roundtrip: "span_type_from_str (span_type_as_str t) = t"
  by (cases t) (simp_all add: span_type_from_str_def)

lemma created_by_partition:
  "\<not> (is_internal c \<and> is_external c) \<and> (\<not> is_internal c \<and> \<not> is_external c \<longleftrightarrow> c = By_Unknown)"
  by (cases c) simp_all

section \<open>Moves of the issue status machine\<close>

text \<open>A chain of statuses in which each one is a direct move from the one before.\<close>
fun legal_path :: "issue_status \<Rightarrow> issue_status list \<Rightarrow> bool" where
  "legal_path s [] = True"
| "legal_path s (t # ts) = (can_transition_to s t \<and> legal_path t ts)"

lemma issue_status_all: "(\<forall>s. P s) \<longleftrightarrow>
    P Backlog \<and> P Todo \<and> P InProgress \<and> P InReview \<and> P Done \<and> P Cancelled"
  by (metis issue_status.exhaust)

lemmas status_path_simps =
  forward_path_to_def forward_order_def can_transition_to_def numeral_eq_Suc

text \<open>The forward path ends in its target, and is a chain of direct moves from an open status.\<close>
lemma forward_path_legal:
  "\<forall>s t. \<not> is_terminal s \<longrightarrow> (\<forall>p. forward_path_to s t = Some p \<longrightarrow> legal_path s p \<and> p \<noteq> [] \<and> last p = t)"
  by (simp add: issue_status_all status_path_simps)

lemma forward_path_None_terminal:
  "\<forall>s t. is_terminal s \<longrightarrow> t \<noteq> Cancelled \<longrightarrow> forward_path_to s t = None"
  by (simp add: issue_status_all status_path_simps)

lemma terminal_no_direct_move: "is_terminal s \<longleftrightarrow> (\<forall>t. \<not> can_transition_to s t)"
  by (cases s) (auto simp: can_transition_to_def issue_status_all)

end
