(* ===== verification/Acceptance.thy ===== *)
theory Acceptance
  imports Core_Types
begin

text \<open>
  gctrl-core/src/acceptance.rs: acceptance kinds and statuses, the check parsed from an issue's
  markdown, and the parser of the acceptance\_criteria checklist.
\<close>

datatype acceptance_kind = Acc_Shell | Acc_Test | Acc_Http

fun acceptance_kind_as_str :: "acceptance_kind \<Rightarrow> string" where
  "acceptance_kind_as_str Acc_Shell = ''shell''"
| "acceptance_kind_as_str Acc_Test = ''test''"
| "acceptance_kind_as_str Acc_Http = ''http''"

definition acceptance_kind_from_str :: "string \<Rightarrow> acceptance_kind option" where
  "acceptance_kind_from_str s =
     (if s = ''shell'' then Some Acc_Shell
      else if s = ''test'' then Some Acc_Test
      else if s = ''http'' then Some Acc_Http
      else None)"

datatype acceptance_status = Acc_Pending | Acc_Running | Acc_Pass | Acc_Fail

fun acceptance_status_as_str :: "acceptance_status \<Rightarrow> string" where
  "acceptance_status_as_str Acc_Pending = ''pending''"
| "acceptance_status_as_str Acc_Running = ''running''"
| "acceptance_status_as_str Acc_Pass = ''pass''"
| "acceptance_status_as_str Acc_Fail = ''fail''"

definition acceptance_status_from_str :: "string \<Rightarrow> acceptance_status option" where
  "acceptance_status_from_str s =
     (if s = ''pending'' then Some Acc_Pending
      else if s = ''running'' then Some Acc_Running
      else if s = ''pass'' then Some Acc_Pass
      else if s = ''fail'' then Some Acc_Fail
      else None)"

interpretation acc_kind_codec: str_codec acceptance_kind_as_str acceptance_kind_from_str
proof (unfold_locales, goal_cases)
  case (1 x) then show ?case by (cases x) (simp_all add: acceptance_kind_from_str_def)
next
  case (2 s x) then show ?case by (auto simp: acceptance_kind_from_str_def split: if_splits)
qed

interpretation acc_status_codec: str_codec acceptance_status_as_str acceptance_status_from_str
proof (unfold_locales, goal_cases)
  case (1 x) then show ?case by (cases x) (simp_all add: acceptance_status_from_str_def)
next
  case (2 s x) then show ?case by (auto simp: acceptance_status_from_str_def split: if_splits)
qed

record acceptance_check =
  ck_idx :: nat
  ck_kind :: acceptance_kind
  ck_command :: string

text \<open>The prefix of a checklist line: a bullet, a box with one of the three markers.\<close>
definition strip_checkbox_prefix :: "string \<Rightarrow> string option" where
  "strip_checkbox_prefix s =
     (case (case strip_prefix ''-'' s of Some r \<Rightarrow> Some r
            | None \<Rightarrow> (case strip_prefix ''*'' s of Some r \<Rightarrow> Some r
            | None \<Rightarrow> strip_prefix ''+'' s)) of
        None \<Rightarrow> None
      | Some rest \<Rightarrow>
          (case strip_prefix ''['' (trim_start rest) of
             None \<Rightarrow> None
           | Some [] \<Rightarrow> None
           | Some (marker # chars) \<Rightarrow>
               if marker \<notin> {CHR '' '', CHR ''x'', CHR ''X''} then None
               else map_option trim_start (strip_prefix '']'' chars)))"

text \<open>One iteration of the line loop: None where the source continues.\<close>
definition parse_check_line :: "string \<Rightarrow> (acceptance_kind \<times> string) option" where
  "parse_check_line line =
     (case strip_checkbox_prefix (trim_start line) of
        None \<Rightarrow> None
      | Some after_box \<Rightarrow>
          (case split_once (CHR '':'') after_box of
             None \<Rightarrow> None
           | Some (kind_str, command) \<Rightarrow>
               (case acceptance_kind_from_str (trim kind_str) of
                  None \<Rightarrow> None
                | Some kind \<Rightarrow>
                    (let command = trim command
                     in if command = [] then None else Some (kind, command)))))"

fun parse_lines :: "acceptance_check list \<Rightarrow> string list \<Rightarrow> acceptance_check list" where
  "parse_lines checks [] = checks"
| "parse_lines checks (line # rest) =
     (case parse_check_line line of
        None \<Rightarrow> parse_lines checks rest
      | Some (kind, command) \<Rightarrow>
          parse_lines (checks @ [\<lparr>ck_idx = length checks, ck_kind = kind, ck_command = command\<rparr>]) rest)"

definition parse_acceptance_criteria :: "string \<Rightarrow> acceptance_check list" where
  "parse_acceptance_criteria input = parse_lines [] (lines input)"

text \<open>A checklist is well formed when check i has index i and a command.\<close>
definition checks_wf :: "acceptance_check list \<Rightarrow> bool" where
  "checks_wf cs \<longleftrightarrow> map ck_idx cs = [0..<length cs] \<and> (\<forall>c \<in> set cs. ck_command c \<noteq> [])"

lemma parse_check_line_command: "parse_check_line l = Some (k, c) \<Longrightarrow> c \<noteq> []"
  by (auto simp: parse_check_line_def Let_def split: option.splits if_splits prod.splits)

lemma parse_lines_wf: "checks_wf cs \<Longrightarrow> checks_wf (parse_lines cs ls)"
proof (induction ls arbitrary: cs)
  case (Cons l ls)
  show ?case
  proof (cases "parse_check_line l")
    case None
    with Cons show ?thesis by simp
  next
    case (Some p)
    obtain k c where p: "p = (k, c)" by (cases p)
    with Some have "c \<noteq> []" by (auto dest: parse_check_line_command)
    with Cons.prems have "checks_wf (cs @ [\<lparr>ck_idx = length cs, ck_kind = k, ck_command = c\<rparr>])"
      by (auto simp: checks_wf_def)
    then show ?thesis using Cons.IH Some p by simp
  qed
qed simp

text \<open>The parser keeps exactly the recognised lines, in their order.\<close>
lemma parse_lines_content:
  "map (\<lambda>c. (ck_kind c, ck_command c)) (parse_lines cs ls) =
   map (\<lambda>c. (ck_kind c, ck_command c)) cs @ List.map_filter parse_check_line ls"
  by (induction ls arbitrary: cs) (auto simp: map_filter_simps split: option.splits)

section \<open>Writing a checklist and parsing it back\<close>

text \<open>White-space characters are ASCII controls and the space, or start and end above ASCII.\<close>
lemma white_space_ends:
  "w \<in> set white_space \<Longrightarrow> w \<noteq> [] \<and> \<not> (32 < (of_char (hd w) :: nat) \<and> (of_char (hd w) :: nat) < 128)
     \<and> \<not> (32 < (of_char (last w) :: nat) \<and> (of_char (last w) :: nat) < 128)"
  by (auto simp: white_space_def bytes_def)

definition printable :: "char \<Rightarrow> bool" where
  "printable c \<longleftrightarrow> 32 < (of_char c :: nat) \<and> (of_char c :: nat) < 128"

lemma ws_len_printable: "printable c \<Longrightarrow> ws_len (c # s) = 0"
proof -
  assume c: "printable c"
  have "\<not> prefix w (c # s)" if "w \<in> set white_space" for w
    using white_space_ends [OF that] c by (cases w) (auto simp: printable_def)
  then show ?thesis by (auto simp: ws_len_def find_Some_iff2 dest: find_SomeD split: option.splits)
qed

lemma ws_len_end_printable: "printable c \<Longrightarrow> ws_len_end (s @ [c]) = 0"
proof -
  assume c: "printable c"
  have "\<not> suffix w (s @ [c])" if "w \<in> set white_space" for w
    using white_space_ends [OF that] c by (cases w rule: rev_cases) (auto simp: printable_def)
  then show ?thesis by (auto simp: ws_len_end_def dest: find_SomeD split: option.splits)
qed

lemma trim_start_printable: "printable c \<Longrightarrow> trim_start (c # s) = c # s"
  by (simp add: trim_start.simps [of "c # s"] ws_len_printable)

lemma trim_end_printable: "printable c \<Longrightarrow> trim_end (s @ [c]) = s @ [c]"
  by (simp add: trim_end.simps [of "s @ [c]"] ws_len_end_printable)

lemma trim_printable: "\<lbrakk>s \<noteq> []; printable (hd s); printable (last s)\<rbrakk> \<Longrightarrow> trim s = s"
  using trim_start_printable [of "hd s" "tl s"] trim_end_printable [of "last s" "butlast s"]
  by (simp add: trim_def)

lemma ws_len_space: "ws_len (CHR '' '' # s) = 1"
  by (simp add: ws_len_def white_space_def bytes_def char_of_eq_iff)

lemma trim_start_space: "trim_start (CHR '' '' # s) = trim_start s"
  by (simp add: trim_start.simps [of "CHR '' '' # s"] ws_len_space)

lemma trimmed_no_cr: "trim c = c \<Longrightarrow> c \<noteq> [] \<Longrightarrow> last c \<noteq> CHR 0x0D"
proof
  assume "trim c = c" "c \<noteq> []" "last c = CHR 0x0D"
  have "bytes [13] = [CHR 0x0D]" by (simp add: bytes_def char_of_eq_iff)
  with \<open>c \<noteq> []\<close> \<open>last c = CHR 0x0D\<close> have "suffix (bytes [13]) c" by (metis append_butlast_last_id suffixI)
  moreover have "ws_len_end c = 0" using trim_end_stop \<open>trim c = c\<close> by (metis trim_def)
  moreover have "bytes [13] \<in> set white_space" by (simp add: white_space_def)
  ultimately obtain w where "find (\<lambda>w. suffix w c) white_space = Some w"
    by (cases "find (\<lambda>w. suffix w c) white_space") (auto simp: find_None_iff)
  then show False
    using \<open>ws_len_end c = 0\<close> find_SomeD [of "\<lambda>w. suffix w c" white_space w] white_space_ne [of w]
    by (simp add: ws_len_end_def)
qed

text \<open>A checklist line as the board writes it.\<close>
definition check_line :: "acceptance_kind \<times> string \<Rightarrow> string" where
  "check_line kc = ''- [ ] '' @ acceptance_kind_as_str (fst kc) @ '': '' @ snd kc"

lemma parse_check_line_written:
  assumes "trim c = c" and "c \<noteq> []"
  shows "parse_check_line (check_line (k, c)) = Some (k, c)"
proof -
  have pr: "printable CHR ''-''" "printable CHR ''[''" by (simp_all add: printable_def)
  have kind: "trim (acceptance_kind_as_str k) = acceptance_kind_as_str k"
    "CHR '':'' \<notin> set (acceptance_kind_as_str k)"
    "trim_start (acceptance_kind_as_str k @ x) = acceptance_kind_as_str k @ x" for x
    by (cases k; simp add: trim_printable printable_def trim_start_printable)+
  have "split_once CHR '':'' (acceptance_kind_as_str k @ '': '' @ c) = Some (acceptance_kind_as_str k, CHR '' '' # c)"
    using kind(2) by (simp add: split_once_eq)
  moreover have "trim (CHR '' '' # c) = c" using assms(1) by (simp add: trim_def trim_start_space)
  moreover have "strip_checkbox_prefix (check_line (k, c)) = Some (acceptance_kind_as_str k @ '': '' @ c)"
    using kind(3) [of "'': '' @ c"]
    by (simp add: strip_checkbox_prefix_def check_line_def strip_prefix_def trim_start_space
        trim_start_printable [OF pr(2)])
  moreover have "trim_start (check_line (k, c)) = check_line (k, c)"
    by (simp add: check_line_def trim_start_printable [OF pr(1)])
  ultimately show ?thesis
    using assms(2) kind(1) by (simp add: parse_check_line_def acc_kind_codec.from_as)
qed

lemma split_lines_line:
  "CHR 0x0A \<notin> set x \<Longrightarrow> (x = [] \<longrightarrow> acc = []) \<Longrightarrow> x \<noteq> [] \<longrightarrow> last x \<noteq> CHR 0x0D \<Longrightarrow>
   split_lines acc (x @ CHR 0x0A # rest) = (rev acc @ x) # split_lines [] rest"
proof (induction x arbitrary: acc)
  case (Cons c x)
  then show ?case by (cases "x = []") (auto split: list.splits)
qed simp

lemma lines_written:
  "\<forall>l \<in> set ls. l \<noteq> [] \<and> last l \<noteq> CHR 0x0D \<and> CHR 0x0A \<notin> set l \<Longrightarrow>
   lines (concat (map (\<lambda>l. l @ [CHR 0x0A]) ls)) = ls"
  unfolding lines_def by (induction ls) (simp_all add: split_lines_line)

lemma parse_lines_written:
  "\<forall>kc \<in> set kcs. trim (snd kc) = snd kc \<and> snd kc \<noteq> [] \<Longrightarrow>
   parse_lines cs (map check_line kcs) =
     cs @ map (\<lambda>(i, k, c). \<lparr>ck_idx = i, ck_kind = k, ck_command = c\<rparr>) (zip [length cs..<length cs + length kcs] kcs)"
proof (induction kcs arbitrary: cs)
  case (Cons kc kcs)
  obtain k c where kc: "kc = (k, c)" by (cases kc)
  have "[length cs..<length cs + length (kc # kcs)] = length cs # [Suc (length cs)..<length cs + length (kc # kcs)]"
    by (rule upt_conv_Cons) simp
  then show ?case using Cons by (simp add: kc parse_check_line_written del: upt_Suc)
qed simp

section \<open>Properties\<close>

text \<open>C8: a checklist written line by line parses back to exactly its checks, numbered from 0.\<close>
theorem parse_written_checklist:
  assumes "\<forall>kc \<in> set kcs. trim (snd kc) = snd kc \<and> snd kc \<noteq> [] \<and> CHR 0x0A \<notin> set (snd kc)"
  shows "parse_acceptance_criteria (concat (map (\<lambda>kc. check_line kc @ [CHR 0x0A]) kcs)) =
    map (\<lambda>(i, k, c). \<lparr>ck_idx = i, ck_kind = k, ck_command = c\<rparr>) (zip [0..<length kcs] kcs)"
proof -
  have "l \<noteq> [] \<and> last l \<noteq> CHR 0x0D \<and> CHR 0x0A \<notin> set l" if lin: "l \<in> set (map check_line kcs)" for l
  proof -
    obtain k c where l: "l = check_line (k, c)" and "(k, c) \<in> set kcs" using lin by auto
    with assms have c: "trim c = c" "c \<noteq> []" "CHR 0x0A \<notin> set c" by auto
    moreover have "CHR 0x0A \<notin> set (acceptance_kind_as_str k)" by (cases k) simp_all
    ultimately show ?thesis using trimmed_no_cr [OF c(1,2)] by (simp add: l check_line_def)
  qed
  then have "lines (concat (map (\<lambda>kc. check_line kc @ [CHR 0x0A]) kcs)) = map check_line kcs"
    using lines_written [of "map check_line kcs"] by (simp add: comp_def)
  then show ?thesis
    using assms by (simp add: parse_acceptance_criteria_def parse_lines_written)
qed

theorem parse_written_checklist_witness:
  "parse_acceptance_criteria (check_line (Acc_Shell, ''make'') @ [CHR 0x0A] @ check_line (Acc_Test, ''unit a'') @ [CHR 0x0A]) =
    [\<lparr>ck_idx = 0, ck_kind = Acc_Shell, ck_command = ''make''\<rparr>,
     \<lparr>ck_idx = 1, ck_kind = Acc_Test, ck_command = ''unit a''\<rparr>]"
  using parse_written_checklist [of "[(Acc_Shell, ''make''), (Acc_Test, ''unit a'')]"]
  by (simp add: trim_printable printable_def upt_conv_Cons)

end
