(* ===== verification/Store_Schema.thy ===== *)
theory Store_Schema
  imports Acceptance
begin

text \<open>
  The SQLite schema of gctrl-storage/src/sqlite\_store.rs: one record per table row, the Rust struct
  it is read into, the row mappers, and the store with its tables. The statements of SQL the store
  issues (INSERT with its PRIMARY KEY / UNIQUE constraints, UPDATE, DELETE, single-row SELECT) are
  operations on the row lists. Whether foreign keys are enforced is a property of the SQLite build,
  so it is a field of the store.
\<close>

section \<open>Column values\<close>

datatype json = JNull | JBool bool | JNum int | JStr string | JArr "json list" | JObj "(string \<times> json) list"

text \<open>A TEXT column written by serde\_json::to\_string: the value it renders, or text that does not parse.\<close>
datatype 'a json_col = Json 'a | Malformed

fun json_or :: "'a \<Rightarrow> 'a json_col \<Rightarrow> 'a" where
  "json_or d (Json x) = x"
| "json_or d Malformed = d"

definition i32_ok :: "int \<Rightarrow> bool" where
  "i32_ok n \<longleftrightarrow> - (2 ^ 31) \<le> n \<and> n < 2 ^ 31"

lemma i32_ok_sint [simp]: "i32_ok (sint (w :: u32))"
  using sint_ge [of w] sint_lt [of w] by (simp add: i32_ok_def)

section \<open>Projects\<close>

record board_project =
  bp_id :: string
  bp_name :: string
  bp_key :: string
  bp_counter :: int
  bp_github_repo :: "string option"

text \<open>A row of board\_projects: the struct's columns and the sync contract's.\<close>
record board_project_row = board_project +
  pr_device_id :: string
  pr_updated_at :: timestamp
  pr_synced :: bool

definition project_to_row :: "string \<Rightarrow> timestamp \<Rightarrow> board_project \<Rightarrow> board_project_row" where
  "project_to_row device now p =
     board_project.extend p \<lparr>pr_device_id = device, pr_updated_at = now, pr_synced = False\<rparr>"

text \<open>The row closure of the SELECTs: counter is read as i32.\<close>
definition row_to_project :: "board_project_row \<Rightarrow> board_project option" where
  "row_to_project r = (if i32_ok (bp_counter r) then Some (board_project.truncate r) else None)"

section \<open>Issues\<close>

record board_issue =
  bi_id :: string
  bi_project_id :: string
  bi_title :: string
  bi_description :: "string option"
  bi_status :: issue_status
  bi_priority :: string
  bi_assignee_id :: "string option"
  bi_assignee_name :: "string option"
  bi_assignee_type :: "string option"
  bi_labels :: "string list"
  bi_parent_id :: "string option"
  bi_created_at :: timestamp
  bi_updated_at :: timestamp
  bi_created_by_id :: string
  bi_created_by_name :: string
  bi_created_by_type :: string
  bi_blocked_by :: "string list"
  bi_blocking :: "string list"
  bi_session_ids :: "string list"
  bi_total_cost_usd :: f64
  bi_total_tokens :: u64
  bi_pr_numbers :: "u32 list"
  bi_content_hash :: "string option"
  bi_source_path :: "string option"
  bi_github_issue_number :: "u32 option"
  bi_github_url :: "string option"
  bi_start_date :: "string option"
  bi_due_date :: "string option"
  bi_acceptance_criteria :: "string option"

text \<open>A row of board\_issues: JSON columns hold text that may fail to parse, status is text.\<close>
record board_issue_row =
  ir_id :: string
  ir_project_id :: string
  ir_title :: string
  ir_description :: "string option"
  ir_status :: string
  ir_priority :: string
  ir_assignee_id :: "string option"
  ir_assignee_name :: "string option"
  ir_assignee_type :: "string option"
  ir_labels :: "string list json_col"
  ir_parent_id :: "string option"
  ir_created_at :: timestamp
  ir_updated_at :: timestamp
  ir_created_by_id :: string
  ir_created_by_name :: string
  ir_created_by_type :: string
  ir_blocked_by :: "string list json_col"
  ir_blocking :: "string list json_col"
  ir_session_ids :: "string list json_col"
  ir_total_cost_usd :: f64
  ir_total_tokens :: int
  ir_pr_numbers :: "u32 list json_col"
  ir_content_hash :: "string option"
  ir_source_path :: "string option"
  ir_github_issue_number :: "int option"
  ir_github_url :: "string option"
  ir_start_date :: "string option"
  ir_due_date :: "string option"
  ir_acceptance_criteria :: "string option"
  ir_device_id :: string
  ir_synced :: bool

text \<open>The parameters of insert\_board\_issue's INSERT.\<close>
definition issue_to_row :: "string \<Rightarrow> board_issue \<Rightarrow> board_issue_row" where
  "issue_to_row device issue = \<lparr>
     ir_id = bi_id issue,
     ir_project_id = bi_project_id issue,
     ir_title = bi_title issue,
     ir_description = bi_description issue,
     ir_status = issue_status_as_str (bi_status issue),
     ir_priority = bi_priority issue,
     ir_assignee_id = bi_assignee_id issue,
     ir_assignee_name = bi_assignee_name issue,
     ir_assignee_type = bi_assignee_type issue,
     ir_labels = Json (bi_labels issue),
     ir_parent_id = bi_parent_id issue,
     ir_created_at = bi_created_at issue,
     ir_updated_at = bi_updated_at issue,
     ir_created_by_id = bi_created_by_id issue,
     ir_created_by_name = bi_created_by_name issue,
     ir_created_by_type = bi_created_by_type issue,
     ir_blocked_by = Json (bi_blocked_by issue),
     ir_blocking = Json (bi_blocking issue),
     ir_session_ids = Json (bi_session_ids issue),
     ir_total_cost_usd = bi_total_cost_usd issue,
     ir_total_tokens = sint (bi_total_tokens issue),
     ir_pr_numbers = Json (bi_pr_numbers issue),
     ir_content_hash = bi_content_hash issue,
     ir_source_path = bi_source_path issue,
     ir_github_issue_number = map_option sint (bi_github_issue_number issue),
     ir_github_url = bi_github_url issue,
     ir_start_date = bi_start_date issue,
     ir_due_date = bi_due_date issue,
     ir_acceptance_criteria = bi_acceptance_criteria issue,
     ir_device_id = device, ir_synced = False\<rparr>"

text \<open>row\_to\_board\_issue; rusqlite refuses an integer outside i32 in github\_issue\_number.\<close>
definition row_to_board_issue :: "board_issue_row \<Rightarrow> board_issue option" where
  "row_to_board_issue row =
     (if (case ir_github_issue_number row of None \<Rightarrow> True | Some n \<Rightarrow> i32_ok n) then Some \<lparr>
        bi_id = ir_id row,
        bi_project_id = ir_project_id row,
        bi_title = ir_title row,
        bi_description = ir_description row,
        bi_status = (case issue_status_from_str (ir_status row) of None \<Rightarrow> Backlog | Some st \<Rightarrow> st),
        bi_priority = ir_priority row,
        bi_assignee_id = ir_assignee_id row,
        bi_assignee_name = ir_assignee_name row,
        bi_assignee_type = ir_assignee_type row,
        bi_labels = json_or [] (ir_labels row),
        bi_parent_id = ir_parent_id row,
        bi_created_at = ir_created_at row,
        bi_updated_at = ir_updated_at row,
        bi_created_by_id = ir_created_by_id row,
        bi_created_by_name = ir_created_by_name row,
        bi_created_by_type = ir_created_by_type row,
        bi_blocked_by = json_or [] (ir_blocked_by row),
        bi_blocking = json_or [] (ir_blocking row),
        bi_session_ids = json_or [] (ir_session_ids row),
        bi_total_cost_usd = ir_total_cost_usd row,
        bi_total_tokens = word_of_int (ir_total_tokens row),
        bi_pr_numbers = json_or [] (ir_pr_numbers row),
        bi_content_hash = ir_content_hash row,
        bi_source_path = ir_source_path row,
        bi_github_issue_number = map_option word_of_int (ir_github_issue_number row),
        bi_github_url = ir_github_url row,
        bi_start_date = ir_start_date row,
        bi_due_date = ir_due_date row,
        bi_acceptance_criteria = ir_acceptance_criteria row\<rparr>
      else None)"

text \<open>Every issue survives being written and read back.\<close>
lemma row_issue_roundtrip: "row_to_board_issue (issue_to_row device issue) = Some issue"
  by (cases "bi_github_issue_number issue")
    (simp_all add: row_to_board_issue_def issue_to_row_def issue_status_codec.from_as)

section \<open>Events, comments, tasks, acceptance checks\<close>

record board_event =
  be_id :: string
  be_issue_id :: string
  be_event_type :: string
  be_actor_id :: string
  be_actor_name :: string
  be_actor_type :: string
  be_timestamp :: timestamp
  be_data :: json

record board_event_row =
  er_id :: string
  er_issue_id :: string
  er_type :: string
  er_actor_id :: string
  er_actor_name :: string
  er_actor_type :: string
  er_timestamp :: timestamp
  er_data :: "json option"
  er_device_id :: string
  er_updated_at :: timestamp
  er_synced :: bool

definition row_to_event :: "json \<Rightarrow> board_event_row \<Rightarrow> board_event" where
  "row_to_event d r =
     \<lparr>be_id = er_id r, be_issue_id = er_issue_id r, be_event_type = er_type r,
      be_actor_id = er_actor_id r, be_actor_name = er_actor_name r, be_actor_type = er_actor_type r,
      be_timestamp = er_timestamp r, be_data = d\<rparr>"

record board_comment =
  bc_id :: string
  bc_issue_id :: string
  bc_author_id :: string
  bc_author_name :: string
  bc_author_type :: string
  bc_body :: string
  bc_created_at :: timestamp
  bc_session_id :: "string option"

record board_comment_row = board_comment +
  cr_device_id :: string
  cr_updated_at :: timestamp
  cr_synced :: bool

text \<open>OrchTask, and a row of tasks: the same columns.\<close>
record orch_task =
  tk_id :: string
  tk_issue_id :: "string option"
  tk_project_key :: string
  tk_attempt_ordinal :: int
  tk_agent_kind :: string
  tk_orchestrator_claim :: string
  tk_attempt :: int
  tk_created_at :: timestamp
  tk_updated_at :: timestamp

definition row_to_task :: "orch_task \<Rightarrow> orch_task option" where
  "row_to_task r = (if i32_ok (tk_attempt_ordinal r) \<and> i32_ok (tk_attempt r) then Some r else None)"

record acceptance_check_row =
  ac_id :: string
  ac_issue_id :: string
  ac_check_idx :: int
  ac_kind :: acceptance_kind
  ac_command :: string
  ac_status :: acceptance_status
  ac_last_session_id :: "string option"
  ac_last_run_at :: "timestamp option"
  ac_output :: "string option"
  ac_created_at :: timestamp
  ac_updated_at :: timestamp

record acc_row =
  ar_id :: string
  ar_issue_id :: string
  ar_check_idx :: int
  ar_kind :: string
  ar_command :: string
  ar_status :: string
  ar_last_session_id :: "string option"
  ar_last_run_at :: "timestamp option"
  ar_output :: "string option"
  ar_created_at :: timestamp
  ar_updated_at :: timestamp

definition row_to_acceptance_check :: "acc_row \<Rightarrow> acceptance_check_row" where
  "row_to_acceptance_check r =
     \<lparr>ac_id = ar_id r, ac_issue_id = ar_issue_id r, ac_check_idx = ar_check_idx r,
      ac_kind = (case acceptance_kind_from_str (ar_kind r) of None \<Rightarrow> Acc_Shell | Some k \<Rightarrow> k),
      ac_command = ar_command r,
      ac_status = (case acceptance_status_from_str (ar_status r) of None \<Rightarrow> Acc_Pending | Some st \<Rightarrow> st),
      ac_last_session_id = ar_last_session_id r, ac_last_run_at = ar_last_run_at r,
      ac_output = ar_output r, ac_created_at = ar_created_at r, ac_updated_at = ar_updated_at r\<rparr>"

section \<open>Inbox\<close>

record inbox_message =
  im_id :: string
  im_thread_id :: string
  im_source :: string
  im_kind :: string
  im_urgency :: string
  im_title :: string
  im_body :: "string option"
  im_context :: json
  im_status :: string
  im_requires_action :: bool
  im_payload :: "json option"
  im_duplicate_count :: u32
  im_snoozed_until :: "string option"
  im_expires_at :: "string option"
  im_created_at :: string
  im_updated_at :: string

record inbox_thread =
  it_id :: string
  it_context_type :: string
  it_context_ref :: string
  it_title :: string
  it_project_key :: "string option"
  it_pending_count :: int
  it_latest_urgency :: string
  it_created_at :: string
  it_updated_at :: string

record inbox_action =
  ia_id :: string
  ia_message_id :: string
  ia_thread_id :: string
  ia_actor_id :: string
  ia_actor_name :: string
  ia_action_type :: string
  ia_reason :: "string option"
  ia_metadata :: "json option"
  ia_created_at :: string

section \<open>Memory\<close>

datatype memory_type = Mem_User | Mem_Feedback | Mem_Project | Mem_Reference

fun memory_type_as_str :: "memory_type \<Rightarrow> string" where
  "memory_type_as_str Mem_User = ''user''"
| "memory_type_as_str Mem_Feedback = ''feedback''"
| "memory_type_as_str Mem_Project = ''project''"
| "memory_type_as_str Mem_Reference = ''reference''"

definition memory_type_from_str :: "string \<Rightarrow> memory_type option" where
  "memory_type_from_str s =
     (if s = ''user'' then Some Mem_User
      else if s = ''feedback'' then Some Mem_Feedback
      else if s = ''project'' then Some Mem_Project
      else if s = ''reference'' then Some Mem_Reference
      else None)"

interpretation memory_type_codec: str_codec memory_type_as_str memory_type_from_str
proof (unfold_locales, goal_cases)
  case (1 x) then show ?case by (cases x) (simp_all add: memory_type_from_str_def)
next
  case (2 s x) then show ?case by (auto simp: memory_type_from_str_def split: if_splits)
qed

record memory_entry =
  me_id :: string
  me_memory_type :: memory_type
  me_name :: string
  me_description :: string
  me_body :: string
  me_tags :: "string list"
  me_device_id :: string
  me_created_at :: timestamp
  me_updated_at :: timestamp
  me_synced :: bool

record memory_row =
  mr_id :: string
  mr_type :: string
  mr_name :: string
  mr_description :: string
  mr_body :: string
  mr_tags :: "string list json_col"
  mr_device_id :: string
  mr_created_at :: timestamp
  mr_updated_at :: timestamp
  mr_synced :: bool

definition row_to_memory_entry :: "memory_row \<Rightarrow> memory_entry" where
  "row_to_memory_entry r =
     \<lparr>me_id = mr_id r,
      me_memory_type = (case memory_type_from_str (mr_type r) of None \<Rightarrow> Mem_Reference | Some t \<Rightarrow> t),
      me_name = mr_name r, me_description = mr_description r, me_body = mr_body r,
      me_tags = json_or [] (mr_tags r), me_device_id = mr_device_id r,
      me_created_at = mr_created_at r, me_updated_at = mr_updated_at r, me_synced = mr_synced r\<rparr>"

section \<open>Schedules and their runs\<close>

text \<open>Schedule: health is derived on read, so the row does not carry it.\<close>
record schedule =
  sc_id :: string
  sc_name :: string
  sc_cron :: string
  sc_target_kind :: string
  sc_target_url :: string
  sc_target_method :: string
  sc_body_json :: "json option"
  sc_headers_json :: "json option"
  sc_command :: "string list option"
  sc_cwd :: "string option"
  sc_env_keys :: "string list option"
  sc_timeout_secs :: int
  sc_enabled :: bool
  sc_next_run_at :: "string option"
  sc_last_run_at :: "string option"
  sc_last_status :: "int option"
  sc_last_response :: "string option"
  sc_last_error :: "string option"
  sc_run_count :: int
  sc_failure_count :: int
  sc_app_id :: "string option"
  sc_created_at :: string
  sc_updated_at :: string

record schedule_run =
  sr_id :: string
  sr_schedule_id :: string
  sr_started_at :: string
  sr_finished_at :: "string option"
  sr_status :: string
  sr_fire_kind :: string
  sr_exit_code :: "int option"
  sr_http_status :: "int option"
  sr_response_preview :: "string option"
  sr_error_preview :: "string option"
  sr_duration_ms :: "int option"
  sr_created_at :: string

section \<open>Personas, context entries, app installs, vault mounts\<close>

record persona_definition =
  pd_id :: string
  pd_name :: string
  pd_focus :: string
  pd_prompt_prefix :: string
  pd_owns :: string
  pd_review_focus :: string
  pd_pushes_back :: string
  pd_tools :: "string list"
  pd_key_specs :: "string list"
  pd_source_hash :: "string option"

record persona_row = persona_definition +
  pw_created_at :: timestamp
  pw_updated_at :: timestamp

record persona_review_rule =
  pv_id :: string
  pv_pr_type :: string
  pv_persona_ids :: "string list"

record review_rule_row = persona_review_rule +
  pv_created_at :: timestamp

record context_row =
  cx_id :: string
  cx_kind :: string
  cx_path :: string
  cx_title :: string
  cx_source_type :: string
  cx_source_ref :: "string option"
  cx_word_count :: "32 word"
  cx_content_hash :: string
  cx_tags :: "string list"
  cx_created_at :: timestamp
  cx_updated_at :: timestamp
  cx_synced :: bool

record vault_mount =
  vm_id :: string
  vm_name :: string
  vm_root_path :: string
  vm_kind :: vault_mount_kind
  vm_git_url :: "string option"
  vm_app_id :: "string option"
  vm_last_commit_sha :: "string option"
  vm_last_synced_at :: "timestamp option"
  vm_created_at :: timestamp
  vm_updated_at :: timestamp

record vault_mount_row = vault_mount +
  vw_kind :: string

text \<open>An unknown kind reads as an app's mount; the kind column is \<^verbatim>\<open>vw_kind\<close>.\<close>
definition mount_to_row :: "vault_mount \<Rightarrow> vault_mount_row" where
  "mount_to_row m = vault_mount.extend m \<lparr>vw_kind = vault_mount_kind_as_str (vm_kind m)\<rparr>"

definition row_to_vault_mount :: "vault_mount_row \<Rightarrow> vault_mount" where
  "row_to_vault_mount r = (vault_mount.truncate r)
     \<lparr>vm_kind := (case vault_mount_kind_from_str (vw_kind r) of None \<Rightarrow> Vault_App | Some k \<Rightarrow> k)\<rparr>"

lemma row_mount_roundtrip: "row_to_vault_mount (mount_to_row m) = m"
  by (simp add: row_to_vault_mount_def mount_to_row_def vault_mount.defs vault_kind_codec.from_as)

record app_install =
  ai_name :: string
  ai_version :: string
  ai_source_ref :: string
  ai_manifest_sha :: string
  ai_installed_at :: timestamp
  ai_reloaded_at :: "timestamp option"

record app_binding =
  ab_install_name :: string
  ab_capability :: string
  ab_driver_id :: string
  ab_required :: bool
  ab_resolved_at :: timestamp

section \<open>The store\<close>

record store =
  st_device_id :: string
  st_foreign_keys :: bool
  t_projects :: "board_project_row list"
  t_issues :: "board_issue_row list"
  t_checks :: "acc_row list"
  t_events :: "board_event_row list"
  t_comments :: "board_comment_row list"
  t_tasks :: "orch_task list"
  t_messages :: "inbox_message list"
  t_threads :: "inbox_thread list"
  t_actions :: "inbox_action list"
  t_memories :: "memory_row list"
  t_schedules :: "schedule list"
  t_runs :: "schedule_run list"
  t_personas :: "persona_row list"
  t_rules :: "review_rule_row list"
  t_contexts :: "context_row list"
  t_mounts :: "vault_mount_row list"
  t_installs :: "app_install list"
  t_bindings :: "app_binding list"

text \<open>A fresh database after run\_migrations: every table exists and is empty.\<close>
definition open_with_device :: "bool \<Rightarrow> string \<Rightarrow> store" where
  "open_with_device fk device =
     \<lparr>st_device_id = device, st_foreign_keys = fk, t_projects = [], t_issues = [], t_checks = [],
      t_events = [], t_comments = [], t_tasks = [], t_messages = [], t_threads = [], t_actions = [],
      t_memories = [], t_schedules = [], t_runs = [], t_personas = [], t_rules = [], t_contexts = [], t_mounts = [],
      t_installs = [], t_bindings = []\<rparr>"

section \<open>Statements\<close>

text \<open>
  INSERT fails when a row with a conflicting key is present; the table is then unchanged. The
  first two arguments are the table's selector and its update.
\<close>

definition sql_insert ::
  "('s \<Rightarrow> 'r list) \<Rightarrow> (('r list \<Rightarrow> 'r list) \<Rightarrow> 's \<Rightarrow> 's) \<Rightarrow> ('r \<Rightarrow> 'r \<Rightarrow> bool) \<Rightarrow> string \<Rightarrow> 'r
   \<Rightarrow> ('s, unit) db" where
  "sql_insert table upd conflict msg r =
     (\<lambda>s. if list_ex (conflict r) (table s) then (Inl (StorageSql msg UniqueViolation), s)
          else (Inr (), upd (\<lambda>_. table s @ [r]) s))"

definition sql_update ::
  "('s \<Rightarrow> 'r list) \<Rightarrow> (('r list \<Rightarrow> 'r list) \<Rightarrow> 's \<Rightarrow> 's) \<Rightarrow> ('r \<Rightarrow> bool) \<Rightarrow> ('r \<Rightarrow> 'r) \<Rightarrow> ('s, nat) db" where
  "sql_update table upd p f = (\<lambda>s. (Inr (count_where p (table s)), upd (\<lambda>_. update_where p f (table s)) s))"

definition sql_delete ::
  "('s \<Rightarrow> 'r list) \<Rightarrow> (('r list \<Rightarrow> 'r list) \<Rightarrow> 's \<Rightarrow> 's) \<Rightarrow> ('r \<Rightarrow> bool) \<Rightarrow> ('s, nat) db" where
  "sql_delete table upd p = (\<lambda>s. (Inr (count_where p (table s)), upd (\<lambda>_. delete_where p (table s)) s))"

text \<open>A query that cannot fail, and Connection::query\_row, which fails without a row.\<close>

definition sql_select :: "('s \<Rightarrow> 'a) \<Rightarrow> ('s, 'a) db" where
  "sql_select f = (\<lambda>s. (Inr (f s), s))"

definition query_row :: "string \<Rightarrow> ('s \<Rightarrow> 'a list) \<Rightarrow> ('s, 'a) db" where
  "query_row msg f =
     (\<lambda>s. case f s of [] \<Rightarrow> (Inl (StorageSql msg NoRows), s) | x # _ \<Rightarrow> (Inr x, s))"

lemma sql_insert_ok: "\<not> list_ex (conflict r) (table s) \<Longrightarrow>
    sql_insert table upd conflict msg r s = (Inr (), upd (\<lambda>_. table s @ [r]) s)"
  by (simp add: sql_insert_def)

lemma sql_insert_conflict: "list_ex (conflict r) (table s) \<Longrightarrow>
    sql_insert table upd conflict msg r s = (Inl (StorageSql msg UniqueViolation), s)"
  by (simp add: sql_insert_def)

lemma sql_update_apply [simp, db_simps]:
  "sql_update table upd p f s = (Inr (count_where p (table s)), upd (\<lambda>_. update_where p f (table s)) s)"
  by (simp add: sql_update_def)

lemma sql_delete_apply [simp, db_simps]:
  "sql_delete table upd p s = (Inr (count_where p (table s)), upd (\<lambda>_. delete_where p (table s)) s)"
  by (simp add: sql_delete_def)

lemma sql_select_apply [simp, db_simps]: "sql_select f s = (Inr (f s), s)"
  by (simp add: sql_select_def)

lemma query_row_Nil: "f s = [] \<Longrightarrow> query_row msg f s = (Inl (StorageSql msg NoRows), s)"
  and query_row_Cons: "f s = x # xs \<Longrightarrow> query_row msg f s = (Inr x, s)"
  by (simp_all add: query_row_def)

lemma frame_insert: "(\<And>g s. f (upd g s) = f s) \<Longrightarrow> frame f (sql_insert table upd c msg r)"
  by (simp add: frame_def sql_insert_def)

lemma frame_update: "(\<And>g s. f (upd g s) = f s) \<Longrightarrow> frame f (sql_update table upd p h)"
  by (simp add: frame_def)

lemma frame_delete: "(\<And>g s. f (upd g s) = f s) \<Longrightarrow> frame f (sql_delete table upd p)"
  by (simp add: frame_def)

lemma frame_select: "frame f (sql_select g)"
  by (simp add: frame_def)

lemma frame_query_row: "frame f (query_row msg g)"
  by (simp add: frame_def query_row_def split: list.splits)

lemmas frame_stmts [frame_intros] =
  frame_insert frame_update frame_delete frame_select frame_query_row

lemmas stmt_defs = bind_def sql_insert_def query_row_def

section \<open>A sample issue\<close>

text \<open>A minimal issue, the input of the concrete evaluations below.\<close>
definition sample_issue :: "string \<Rightarrow> issue_status \<Rightarrow> timestamp \<Rightarrow> board_issue" where
  "sample_issue iid st now = \<lparr>
     bi_id = iid, bi_project_id = ''p1'', bi_title = ''t'', bi_description = None, bi_status = st,
     bi_priority = ''none'', bi_assignee_id = None, bi_assignee_name = None, bi_assignee_type = None,
     bi_labels = [], bi_parent_id = None, bi_created_at = now, bi_updated_at = now,
     bi_created_by_id = ''u'', bi_created_by_name = ''u'', bi_created_by_type = ''human'',
     bi_blocked_by = [], bi_blocking = [], bi_session_ids = [], bi_total_cost_usd = 0, bi_total_tokens = 0,
     bi_pr_numbers = [], bi_content_hash = None, bi_source_path = None, bi_github_issue_number = None,
     bi_github_url = None, bi_start_date = None, bi_due_date = None, bi_acceptance_criteria = None\<rparr>"

definition sample_store :: "board_issue list \<Rightarrow> store" where
  "sample_store issues =
     (open_with_device True ''dev'')\<lparr>t_issues := map (issue_to_row ''dev'') issues\<rparr>"

end
