(* ===== verification/Store_Board.thy ===== *)
theory Store_Board
  imports Store_Schema
begin

text \<open>
  Board CRUD of gctrl-storage/src/sqlite\_store.rs: projects, issues, the status change with its
  event trail, scheduling, assignment, events, comments and session links. The readings of the
  clock and the fresh UUIDs an operation makes are its arguments; operations that make several take
  a supply indexed by the call.
\<close>

section \<open>Projects\<close>

definition create_board_project :: "timestamp \<Rightarrow> board_project \<Rightarrow> (store, unit) db" where
  "create_board_project now project =
     (\<lambda>s. sql_insert t_projects t_projects_update (\<lambda>a b. bp_id a = bp_id b \<or> bp_key a = bp_key b) []
        (project_to_row (st_device_id s) now project) s)"

definition get_board_project :: "string \<Rightarrow> (store, board_project option) db" where
  "get_board_project iid =
     sql_select (\<lambda>s. case find (\<lambda>r. bp_id r = iid) (t_projects s) of
        None \<Rightarrow> None | Some r \<Rightarrow> row_to_project r)"

definition list_board_projects :: "(store, board_project list) db" where
  "list_board_projects =
     sql_select (\<lambda>s. List.map_filter row_to_project (order_asc bp_name (t_projects s)))"

definition update_board_project_github_repo :: "timestamp \<Rightarrow> string \<Rightarrow> string \<Rightarrow> (store, unit) db" where
  "update_board_project_github_repo now iid github_repo =
     (\<lambda>s. bind (sql_update t_projects t_projects_update (\<lambda>r. bp_id r = iid)
            (\<lambda>r. r\<lparr>bp_github_repo := Some github_repo, pr_device_id := st_device_id s,
                   pr_updated_at := now, pr_synced := False\<rparr>))
          (\<lambda>_. ret ()) s)"

definition increment_project_counter :: "timestamp \<Rightarrow> string \<Rightarrow> (store, int) db" where
  "increment_project_counter now project_id =
     (\<lambda>s. bind (sql_update t_projects t_projects_update (\<lambda>r. bp_id r = project_id)
            (\<lambda>r. r\<lparr>bp_counter := bp_counter r + 1, pr_device_id := st_device_id s,
                   pr_updated_at := now, pr_synced := False\<rparr>))
          (\<lambda>_. bind (query_row [] (\<lambda>s. map bp_counter (filter (\<lambda>r. bp_id r = project_id) (t_projects s))))
          (\<lambda>counter. if i32_ok counter then ret counter else throw (StorageSql [] BadColumn))) s)"

section \<open>Issues\<close>

definition insert_board_issue :: "board_issue \<Rightarrow> (store, unit) db" where
  "insert_board_issue issue =
     (\<lambda>s. sql_insert t_issues t_issues_update (\<lambda>a b. ir_id a = ir_id b) []
        (issue_to_row (st_device_id s) issue) s)"

definition get_board_issue :: "string \<Rightarrow> (store, board_issue option) db" where
  "get_board_issue iid =
     sql_select (\<lambda>s. case find (\<lambda>r. ir_id r = iid) (t_issues s) of
        None \<Rightarrow> None | Some r \<Rightarrow> row_to_board_issue r)"

definition upsert_board_issue :: "timestamp \<Rightarrow> board_issue \<Rightarrow> (store, bool) db" where
  "upsert_board_issue now issue =
     bind (get_board_issue (bi_id issue)) (\<lambda>existing. case existing of
       Some existing \<Rightarrow>
         if bi_content_hash existing = bi_content_hash issue then ret False
         else (\<lambda>s. bind (sql_update t_issues t_issues_update (\<lambda>r. ir_id r = bi_id issue)
                (\<lambda>r. r\<lparr>ir_title := bi_title issue, ir_description := bi_description issue,
                       ir_status := issue_status_as_str (bi_status issue), ir_priority := bi_priority issue,
                       ir_assignee_id := bi_assignee_id issue, ir_assignee_name := bi_assignee_name issue,
                       ir_assignee_type := bi_assignee_type issue, ir_labels := Json (bi_labels issue),
                       ir_parent_id := bi_parent_id issue, ir_updated_at := now,
                       ir_content_hash := bi_content_hash issue, ir_source_path := bi_source_path issue,
                       ir_acceptance_criteria := bi_acceptance_criteria issue,
                       ir_device_id := st_device_id s, ir_synced := False\<rparr>))
              (\<lambda>_. ret True) s)
     | None \<Rightarrow> bind (insert_board_issue issue) (\<lambda>_. ret True))"

record board_issue_filter =
  bf_project_id :: "string option"
  bf_status :: "string option"
  bf_assignee_id :: "string option"
  bf_label :: "string option"
  bf_limit :: "nat option"

text \<open>The dynamic WHERE of list\_board\_issues; the filter's label is not part of the query.\<close>
definition issue_matches :: "board_issue_filter \<Rightarrow> board_issue_row \<Rightarrow> bool" where
  "issue_matches flt r \<longleftrightarrow>
     opt_eq (bf_project_id flt) (ir_project_id r) \<and> opt_eq (bf_status flt) (ir_status r) \<and>
     opt_eq (map_option Some (bf_assignee_id flt)) (ir_assignee_id r)"

definition list_board_issues :: "board_issue_filter \<Rightarrow> (store, board_issue list) db" where
  "list_board_issues flt =
     sql_select (\<lambda>s. List.map_filter row_to_board_issue
       (opt_limit (bf_limit flt) (order_desc ir_updated_at (filter (issue_matches flt) (t_issues s)))))"

section \<open>Events and comments\<close>

definition insert_event_row :: "board_event_row \<Rightarrow> (store, unit) db" where
  "insert_event_row = sql_insert t_events t_events_update (\<lambda>a b. er_id a = er_id b) []"

definition insert_board_event :: "board_event \<Rightarrow> (store, unit) db" where
  "insert_board_event event =
     (\<lambda>s. insert_event_row
        \<lparr>er_id = be_id event, er_issue_id = be_issue_id event, er_type = be_event_type event,
         er_actor_id = be_actor_id event, er_actor_name = be_actor_name event,
         er_actor_type = be_actor_type event, er_timestamp = be_timestamp event,
         er_data = Some (be_data event), er_device_id = st_device_id s,
         er_updated_at = be_timestamp event, er_synced = False\<rparr> s)"

text \<open>list\_board\_events reads data as a non-null String and drops the rows where that fails.\<close>
definition list_board_events :: "string \<Rightarrow> (store, board_event list) db" where
  "list_board_events issue_id =
     sql_select (\<lambda>s. List.map_filter (\<lambda>r. map_option (\<lambda>d. row_to_event d r) (er_data r))
       (order_asc er_timestamp (filter (\<lambda>r. er_issue_id r = issue_id) (t_events s))))"

definition insert_board_comment :: "board_comment \<Rightarrow> (store, unit) db" where
  "insert_board_comment comment =
     (\<lambda>s. sql_insert t_comments t_comments_update (\<lambda>a b. bc_id a = bc_id b) []
        (board_comment.extend comment
           \<lparr>cr_device_id = st_device_id s, cr_updated_at = bc_created_at comment, cr_synced = False\<rparr>) s)"

definition list_board_comments :: "string \<Rightarrow> (store, board_comment list) db" where
  "list_board_comments issue_id =
     sql_select (\<lambda>s. map board_comment.truncate
       (order_asc bc_created_at (filter (\<lambda>r. bc_issue_id r = issue_id) (t_comments s))))"

section \<open>Changing the status\<close>

text \<open>Who acts, as the three actor columns.\<close>
record actor =
  act_id :: string
  act_name :: string
  act_type :: string

definition transition_error :: "issue_status \<Rightarrow> issue_status \<Rightarrow> gctl_error" where
  "transition_error current target =
     Storage (''invalid transition: '' @ issue_status_as_str current @ '' -> '' @ issue_status_as_str target
       @ '' (allowed: '' @ join '', '' (map issue_status_as_str (valid_transitions current)) @ '')'')"

text \<open>The path of a move: the move itself when it is direct, else the forward chain.\<close>
definition transition_path :: "issue_status \<Rightarrow> issue_status \<Rightarrow> issue_status list option" where
  "transition_path current target =
     (if can_transition_to current target then Some [target] else forward_path_to current target)"

definition status_event ::
  "string \<Rightarrow> string \<Rightarrow> actor \<Rightarrow> timestamp \<Rightarrow> string \<Rightarrow> string \<Rightarrow> string \<Rightarrow> board_event_row" where
  "status_event event_id iid act now prev step_str device =
     \<lparr>er_id = event_id, er_issue_id = iid, er_type = ''status_changed'',
      er_actor_id = act_id act, er_actor_name = act_name act, er_actor_type = act_type act,
      er_timestamp = now, er_data = Some (JObj [(''from'', JStr prev), (''to'', JStr step_str)]),
      er_device_id = device, er_updated_at = now, er_synced = False\<rparr>"

text \<open>The loop over the path: each step is one UPDATE of the issue and one event.\<close>
fun apply_steps ::
  "(nat \<Rightarrow> timestamp) \<Rightarrow> (nat \<Rightarrow> string) \<Rightarrow> string \<Rightarrow> actor \<Rightarrow> nat \<Rightarrow> string \<Rightarrow> issue_status list
   \<Rightarrow> (store, unit) db" where
  "apply_steps now uuid iid act i prev [] = ret ()"
| "apply_steps now uuid iid act i prev (step # rest) =
     (\<lambda>s. bind (sql_update t_issues t_issues_update (\<lambda>r. ir_id r = iid)
            (\<lambda>r. r\<lparr>ir_status := issue_status_as_str step, ir_updated_at := now i,
                   ir_device_id := st_device_id s, ir_synced := False\<rparr>))
          (\<lambda>_. bind (insert_event_row
                 (status_event (uuid i) iid act (now i) prev (issue_status_as_str step) (st_device_id s)))
          (\<lambda>_. apply_steps now uuid iid act (Suc i) (issue_status_as_str step) rest)) s)"

definition update_board_issue_status ::
  "(nat \<Rightarrow> timestamp) \<Rightarrow> (nat \<Rightarrow> string) \<Rightarrow> string \<Rightarrow> string \<Rightarrow> actor \<Rightarrow> (store, unit) db" where
  "update_board_issue_status now uuid iid status act =
     (case issue_status_from_str status of
        None \<Rightarrow> throw (Storage (''invalid status: '' @ status))
      | Some target \<Rightarrow>
          bind (query_row (''issue not found: '' @ iid)
                  (\<lambda>s. map ir_status (filter (\<lambda>r. ir_id r = iid) (t_issues s))))
          (\<lambda>current_str.
             let current = (case issue_status_from_str current_str of None \<Rightarrow> Backlog | Some st \<Rightarrow> st)
             in case transition_path current target of
                  None \<Rightarrow> throw (transition_error current target)
                | Some path \<Rightarrow> apply_steps now uuid iid act 0 current_str path))"

section \<open>Scheduling, assignment, session links\<close>

text \<open>serde\_json of an optional date.\<close>
definition json_opt :: "string option \<Rightarrow> json" where
  "json_opt x = (case x of None \<Rightarrow> JNull | Some t \<Rightarrow> JStr t)"

definition schedule_board_issue ::
  "timestamp \<Rightarrow> string \<Rightarrow> string \<Rightarrow> string option option \<Rightarrow> string option option \<Rightarrow> actor
   \<Rightarrow> (store, unit) db" where
  "schedule_board_issue now event_id iid start_patch due_patch act =
     bind (query_row (''issue not found: '' @ iid)
             (\<lambda>s. map (\<lambda>r. (ir_start_date r, ir_due_date r)) (filter (\<lambda>r. ir_id r = iid) (t_issues s))))
     (\<lambda>(cur_start, cur_due).
        let next_start = (case start_patch of Some v \<Rightarrow> v | None \<Rightarrow> cur_start);
            next_due = (case due_patch of Some v \<Rightarrow> v | None \<Rightarrow> cur_due)
        in if (case (next_start, next_due) of (Some a, Some b) \<Rightarrow> b < a | _ \<Rightarrow> False)
           then throw (Storage ''start_date must be <= due_date'')
           else (\<lambda>s. bind (sql_update t_issues t_issues_update (\<lambda>r. ir_id r = iid)
                  (\<lambda>r. r\<lparr>ir_start_date := next_start, ir_due_date := next_due, ir_updated_at := now,
                         ir_device_id := st_device_id s, ir_synced := False\<rparr>))
                (\<lambda>_. insert_event_row
                  \<lparr>er_id = event_id, er_issue_id = iid, er_type = ''scheduled'',
                   er_actor_id = act_id act, er_actor_name = act_name act, er_actor_type = act_type act,
                   er_timestamp = now,
                   er_data = Some (JObj [(''start_date'', json_opt next_start), (''due_date'', json_opt next_due)]),
                   er_device_id = st_device_id s, er_updated_at = now, er_synced = False\<rparr>) s))"

text \<open>The min/max loop over the scheduled dates of one issue after the other.\<close>
definition min_date :: "string option \<Rightarrow> string \<Rightarrow> string option" where
  "min_date m d = (case m of None \<Rightarrow> Some d | Some x \<Rightarrow> if d < x then Some d else m)"

definition max_date :: "string option \<Rightarrow> string \<Rightarrow> string option" where
  "max_date m d = (case m of None \<Rightarrow> Some d | Some x \<Rightarrow> if x < d then Some d else m)"

definition issue_dates :: "board_issue \<Rightarrow> string list" where
  "issue_dates i = List.map_filter (\<lambda>x. x) [bi_start_date i, bi_due_date i]"

definition gantt_for_project ::
  "string \<Rightarrow> (store, string option \<times> string option \<times> board_issue list) db" where
  "gantt_for_project project_id =
     bind (list_board_issues \<lparr>bf_project_id = Some project_id, bf_status = None, bf_assignee_id = None,
             bf_label = None, bf_limit = None\<rparr>)
     (\<lambda>issues.
        let dates = concat (map issue_dates issues)
        in ret (foldl min_date None dates, foldl max_date None dates, issues))"

definition assign_board_issue :: "timestamp \<Rightarrow> string \<Rightarrow> string \<Rightarrow> string \<Rightarrow> string \<Rightarrow> (store, unit) db" where
  "assign_board_issue now iid assignee_id assignee_name assignee_type =
     (\<lambda>s. bind (sql_update t_issues t_issues_update (\<lambda>r. ir_id r = iid)
            (\<lambda>r. r\<lparr>ir_assignee_id := Some assignee_id, ir_assignee_name := Some assignee_name,
                   ir_assignee_type := Some assignee_type, ir_updated_at := now,
                   ir_device_id := st_device_id s, ir_synced := False\<rparr>))
          (\<lambda>_. ret ()) s)"

definition link_session_to_issue :: "timestamp \<Rightarrow> string \<Rightarrow> string \<Rightarrow> f64 \<Rightarrow> u64 \<Rightarrow> (store, unit) db" where
  "link_session_to_issue now issue_id session_id cost tokens =
     bind (query_row [] (\<lambda>s. map ir_session_ids (filter (\<lambda>r. ir_id r = issue_id) (t_issues s))))
     (\<lambda>current.
        let ids = json_or [] current;
            ids = (if session_id \<in> set ids then ids else ids @ [session_id])
        in (\<lambda>s. bind (sql_update t_issues t_issues_update (\<lambda>r. ir_id r = issue_id)
              (\<lambda>r. r\<lparr>ir_session_ids := Json ids, ir_total_cost_usd := ir_total_cost_usd r + cost,
                     ir_total_tokens := ir_total_tokens r + sint tokens, ir_updated_at := now,
                     ir_device_id := st_device_id s, ir_synced := False\<rparr>))
            (\<lambda>_. ret ()) s))"

section \<open>Sync helpers of the board tables\<close>

definition list_unsynced_board_projects :: "nat \<Rightarrow> (store, board_project list) db" where
  "list_unsynced_board_projects batch_size =
     sql_select (\<lambda>s. List.map_filter row_to_project
       (take batch_size (order_asc pr_updated_at (filter (\<lambda>r. \<not> pr_synced r) (t_projects s)))))"

definition list_unsynced_board_issues :: "nat \<Rightarrow> (store, board_issue list) db" where
  "list_unsynced_board_issues batch_size =
     sql_select (\<lambda>s. List.map_filter row_to_board_issue
       (take batch_size (order_asc ir_updated_at (filter (\<lambda>r. \<not> ir_synced r) (t_issues s)))))"

definition list_unsynced_board_events :: "nat \<Rightarrow> (store, board_event list) db" where
  "list_unsynced_board_events batch_size =
     sql_select (\<lambda>s. map (\<lambda>r. row_to_event (case er_data r of None \<Rightarrow> JNull | Some d \<Rightarrow> d) r)
       (take batch_size (order_asc er_updated_at (filter (\<lambda>r. \<not> er_synced r) (t_events s)))))"

definition list_unsynced_board_comments :: "nat \<Rightarrow> (store, board_comment list) db" where
  "list_unsynced_board_comments batch_size =
     sql_select (\<lambda>s. map board_comment.truncate
       (take batch_size (order_asc cr_updated_at (filter (\<lambda>r. \<not> cr_synced r) (t_comments s)))))"

text \<open>mark\_ids\_synced with its table given by its selector, its update, its key and its flag.\<close>
definition mark_ids_synced ::
  "(store \<Rightarrow> 'r list) \<Rightarrow> (('r list \<Rightarrow> 'r list) \<Rightarrow> store \<Rightarrow> store) \<Rightarrow> ('r \<Rightarrow> string) \<Rightarrow> ('r \<Rightarrow> 'r)
   \<Rightarrow> string list \<Rightarrow> (store, unit) db" where
  "mark_ids_synced table upd key mark ids =
     (if ids = [] then ret ()
      else bind (sql_update table upd (\<lambda>r. key r \<in> set ids) mark) (\<lambda>_. ret ()))"

definition mark_board_projects_synced :: "string list \<Rightarrow> (store, unit) db" where
  "mark_board_projects_synced = mark_ids_synced t_projects t_projects_update bp_id (pr_synced_update (\<lambda>_. True))"

definition mark_board_issues_synced :: "string list \<Rightarrow> (store, unit) db" where
  "mark_board_issues_synced = mark_ids_synced t_issues t_issues_update ir_id (ir_synced_update (\<lambda>_. True))"

definition mark_board_events_synced :: "string list \<Rightarrow> (store, unit) db" where
  "mark_board_events_synced = mark_ids_synced t_events t_events_update er_id (er_synced_update (\<lambda>_. True))"

definition mark_board_comments_synced :: "string list \<Rightarrow> (store, unit) db" where
  "mark_board_comments_synced = mark_ids_synced t_comments t_comments_update bc_id (cr_synced_update (\<lambda>_. True))"

definition count_unsynced_board :: "(store, nat \<times> nat \<times> nat \<times> nat) db" where
  "count_unsynced_board =
     sql_select (\<lambda>s. (count_where (\<lambda>r. \<not> pr_synced r) (t_projects s),
       count_where (\<lambda>r. \<not> ir_synced r) (t_issues s),
       count_where (\<lambda>r. \<not> cr_synced r) (t_comments s),
       count_where (\<lambda>r. \<not> er_synced r) (t_events s)))"


section \<open>Writes and reads\<close>

lemma insert_issue_apply:
  "insert_board_issue i s =
     (if bi_id i \<in> ir_id ` set (t_issues s) then (Inl (StorageSql [] UniqueViolation), s)
      else (Inr (), s\<lparr>t_issues := t_issues s @ [issue_to_row (st_device_id s) i]\<rparr>))"
proof -
  have "list_ex (\<lambda>b. ir_id (issue_to_row (st_device_id s) i) = ir_id b) (t_issues s)
    \<longleftrightarrow> bi_id i \<in> ir_id ` set (t_issues s)"
    by (auto simp: list_ex_iff issue_to_row_def)
  then show ?thesis by (simp add: insert_board_issue_def sql_insert_def)
qed

lemma issue_id_row [simp]: "ir_id (issue_to_row d i) = bi_id i"
  by (simp add: issue_to_row_def)

theorem insert_get_issue:
  assumes "insert_board_issue i s = (Inr (), s')"
  shows "get_board_issue (bi_id i) s' = (Inr (Some i), s')"
proof -
  from assms have new: "bi_id i \<notin> ir_id ` set (t_issues s)"
    and s': "s' = s\<lparr>t_issues := t_issues s @ [issue_to_row (st_device_id s) i]\<rparr>"
    by (auto simp: insert_issue_apply split: if_splits)
  have "find (\<lambda>r. ir_id r = bi_id i) (t_issues s @ [issue_to_row (st_device_id s) i])
      = Some (issue_to_row (st_device_id s) i)"
    using new find_None_key [of ir_id "bi_id i" "t_issues s"] by (simp add: find_append)
  then show ?thesis by (simp add: get_board_issue_def s' row_issue_roundtrip)
qed

section \<open>The status change\<close>

fun status_trail ::
  "(nat \<Rightarrow> timestamp) \<Rightarrow> (nat \<Rightarrow> string) \<Rightarrow> string \<Rightarrow> actor \<Rightarrow> string \<Rightarrow> nat \<Rightarrow> string \<Rightarrow> issue_status list
   \<Rightarrow> board_event_row list" where
  "status_trail now uuid iid act dev i prev [] = []"
| "status_trail now uuid iid act dev i prev (st # rest) =
     status_event (uuid i) iid act (now i) prev (issue_status_as_str st) dev
     # status_trail now uuid iid act dev (Suc i) (issue_status_as_str st) rest"

definition set_status :: "string \<Rightarrow> string \<Rightarrow> timestamp \<Rightarrow> issue_status \<Rightarrow> board_issue_row list \<Rightarrow> board_issue_row list" where
  "set_status dev iid now st = update_where (\<lambda>r. ir_id r = iid)
     (\<lambda>r. r\<lparr>ir_status := issue_status_as_str st, ir_updated_at := now, ir_device_id := dev, ir_synced := False\<rparr>)"

lemma set_status_twice: "set_status dev iid n st (set_status dev iid n' st' rows) = set_status dev iid n st rows"
  by (induction rows) (simp_all add: set_status_def)

lemma event_id_status_event [simp]: "er_id (status_event e iid act n p t d) = e"
  by (simp add: status_event_def)

text \<open>With fresh event ids every step of the loop succeeds.\<close>
lemma apply_steps_ok:
  assumes "\<forall>j < length path. uuid (i + j) \<notin> er_id ` set (t_events s)"
    and "inj_on uuid {i..<i + length path}"
  shows "apply_steps now uuid iid act i prev path s =
    (Inr (), s\<lparr>t_issues := (if path = [] then t_issues s
                 else set_status (st_device_id s) iid (now (i + length path - 1)) (last path) (t_issues s)),
               t_events := t_events s @ status_trail now uuid iid act (st_device_id s) i prev path\<rparr>)"
  using assms
proof (induction path arbitrary: i prev s)
  case Nil
  then show ?case by simp
next
  case (Cons st rest)
  let ?dev = "st_device_id s"
  let ?e = "status_event (uuid i) iid act (now i) prev (issue_status_as_str st) ?dev"
  let ?s1 = "s\<lparr>t_issues := set_status ?dev iid (now i) st (t_issues s), t_events := t_events s @ [?e]\<rparr>"
  from Cons.prems(1) have fresh: "uuid i \<notin> er_id ` set (t_events s)" by force
  have step: "apply_steps now uuid iid act i prev (st # rest) s =
      apply_steps now uuid iid act (Suc i) (issue_status_as_str st) rest ?s1"
    using fresh
    by (auto simp: bind_def insert_event_row_def sql_insert_def set_status_def list_ex_iff)
  have "\<forall>j < length rest. uuid (Suc i + j) \<notin> er_id ` set (t_events ?s1)"
  proof (intro allI impI)
    fix j assume j: "j < length rest"
    with Cons.prems(1) have "uuid (i + Suc j) \<notin> er_id ` set (t_events s)" by force
    moreover have "uuid (Suc i + j) \<noteq> uuid i"
      using inj_onD [OF Cons.prems(2), of "Suc i + j" i] j by auto
    ultimately show "uuid (Suc i + j) \<notin> er_id ` set (t_events ?s1)" by simp
  qed
  moreover have "inj_on uuid {Suc i..<Suc i + length rest}"
    using Cons.prems(2) by (rule inj_on_subset) auto
  ultimately show ?case unfolding step by (subst Cons.IH) (simp_all add: set_status_twice)
qed

lemma transition_path_ne: "transition_path c t = Some p \<Longrightarrow> p \<noteq> [] \<and> last p = t"
  by (cases c; cases t) (auto simp: transition_path_def status_path_simps)

lemma transition_path_legal: "\<not> is_terminal c \<Longrightarrow> transition_path c t = Some p \<Longrightarrow> legal_path c p"
  by (cases c; cases t) (auto simp: transition_path_def status_path_simps)


lemma transition_path_length: "transition_path c t = Some p \<Longrightarrow> length p \<le> 5"
  by (cases c; cases t) (auto simp: transition_path_def status_path_simps)

text \<open>What the issue row says its status is: an unknown text counts as backlog.\<close>
definition current_status :: "board_issue_row \<Rightarrow> issue_status" where
  "current_status r = (case issue_status_from_str (ir_status r) of None \<Rightarrow> Backlog | Some st \<Rightarrow> st)"

definition fresh_ids :: "(nat \<Rightarrow> string) \<Rightarrow> nat \<Rightarrow> store \<Rightarrow> bool" where
  "fresh_ids uuid n s \<longleftrightarrow> (\<forall>j < n. uuid j \<notin> er_id ` set (t_events s)) \<and> inj_on uuid {0..<n}"

lemma find_filter_Nil: "find p rows = None \<longleftrightarrow> filter p rows = []"
  by (auto simp: find_None_iff filter_empty_conv)

lemma update_status_reads:
  assumes "find (\<lambda>r. ir_id r = iid) (t_issues s) = Some r"
    and "issue_status_from_str status = Some target"
  shows "update_board_issue_status now uuid iid status act s =
    (case transition_path (current_status r) target of
       None \<Rightarrow> (Inl (transition_error (current_status r) target), s)
     | Some path \<Rightarrow> apply_steps now uuid iid act 0 (ir_status r) path s)"
  using find_filter_Cons [OF assms(1)] assms(2)
  by (auto simp: update_board_issue_status_def bind_def query_row_def current_status_def Let_def
      split: option.splits)

lemma update_status_ok:
  assumes "find (\<lambda>r. ir_id r = iid) (t_issues s) = Some r"
    and "issue_status_from_str status = Some target"
    and "transition_path (current_status r) target = Some path"
    and "fresh_ids uuid (length path) s"
  shows "update_board_issue_status now uuid iid status act s =
    (Inr (), s\<lparr>t_issues := set_status (st_device_id s) iid (now (length path - 1)) target (t_issues s),
               t_events := t_events s @ status_trail now uuid iid act (st_device_id s) 0 (ir_status r) path\<rparr>)"
proof -
  have "path \<noteq> []" "last path = target" using transition_path_ne [OF assms(3)] by simp_all
  then show ?thesis
    using assms(4)
    by (simp add: update_status_reads [OF assms(1,2)] assms(3) fresh_ids_def
        apply_steps_ok [where i = 0, simplified])
qed

text \<open>A status change never fails half-way for a reason of its own: an error leaves the store as it was.\<close>
lemma update_status_error:
  assumes "update_board_issue_status now uuid iid status act s = (Inl e, s')"
    and "fresh_ids uuid 5 s"
  shows "s' = s \<and>
    (issue_status_from_str status = None \<and> e = Storage (''invalid status: '' @ status)
     \<or> iid \<notin> ir_id ` set (t_issues s) \<and> e = StorageSql (''issue not found: '' @ iid) NoRows
     \<or> (\<exists>r target. find (\<lambda>r. ir_id r = iid) (t_issues s) = Some r \<and> issue_status_from_str status = Some target
          \<and> transition_path (current_status r) target = None
          \<and> e = transition_error (current_status r) target))"
proof (cases "issue_status_from_str status")
  case None
  then show ?thesis using assms(1) by (simp add: update_board_issue_status_def)
next
  case (Some target)
  show ?thesis
  proof (cases "find (\<lambda>r. ir_id r = iid) (t_issues s)")
    case None
    then have "filter (\<lambda>r. ir_id r = iid) (t_issues s) = []" by (simp add: find_filter_Nil)
    then show ?thesis
      using assms(1) None Some
      by (simp add: update_board_issue_status_def bind_def query_row_def find_None_key)
  next
    case (Some r)
    note r = this and t = \<open>issue_status_from_str status = Some target\<close>
    show ?thesis
    proof (cases "transition_path (current_status r) target")
      case None
      then show ?thesis using assms(1) r t by (simp add: update_status_reads)
    next
      case (Some path)
      have "length path \<le> 5" using transition_path_length Some by blast
      then have "fresh_ids uuid (length path) s"
        using assms(2) by (auto simp: fresh_ids_def intro: inj_on_subset)
      then show ?thesis using assms(1) update_status_ok [OF r t Some] by simp
    qed
  qed
qed

text \<open>The from/to pairs of a trail chain from the status before to the target.\<close>
definition trail_moves :: "board_event_row list \<Rightarrow> (json \<times> json) list" where
  "trail_moves es = List.map_filter (\<lambda>e. case er_data e of
      Some (JObj [(_, a), (_, b)]) \<Rightarrow> Some (a, b) | _ \<Rightarrow> None) es"

lemma trail_moves_status_trail:
  "trail_moves (status_trail now uuid iid act dev i prev path) =
     zip (map JStr (prev # map issue_status_as_str path)) (map (JStr \<circ> issue_status_as_str) path)"
  by (induction path arbitrary: i prev) (simp_all add: trail_moves_def status_event_def List.map_filter_simps)

lemma find_set_status:
  "find (\<lambda>r. ir_id r = x) (set_status dev iid n st rows) =
    (if x = iid then map_option (\<lambda>r. r\<lparr>ir_status := issue_status_as_str st, ir_updated_at := n,
                                     ir_device_id := dev, ir_synced := False\<rparr>)
                     (find (\<lambda>r. ir_id r = x) rows)
     else find (\<lambda>r. ir_id r = x) rows)"
  by (simp add: set_status_def find_update_where_key)


section \<open>Counters, dates, upserts, links\<close>

definition bump :: "string \<Rightarrow> timestamp \<Rightarrow> string \<Rightarrow> board_project_row list \<Rightarrow> board_project_row list" where
  "bump dev now pid = update_where (\<lambda>r. bp_id r = pid)
     (\<lambda>r. r\<lparr>bp_counter := bp_counter r + 1, pr_device_id := dev, pr_updated_at := now, pr_synced := False\<rparr>)"

lemma filter_update_same:
  "(\<And>r. q (f r) = q r) \<Longrightarrow> filter q (update_where q f rows) = map f (filter q rows)"
  by (induction rows) auto

lemma increment_counter_apply:
  assumes "find (\<lambda>r. bp_id r = pid) (t_projects s) = Some r"
  shows "increment_project_counter now pid s =
    (if i32_ok (bp_counter r + 1) then Inr (bp_counter r + 1) else Inl (StorageSql [] BadColumn),
     s\<lparr>t_projects := bump (st_device_id s) now pid (t_projects s)\<rparr>)"
proof -
  obtain rest where "filter (\<lambda>r. bp_id r = pid) (t_projects s) = r # rest"
    using find_filter_Cons [OF assms] by blast
  then have "map bp_counter (filter (\<lambda>r. bp_id r = pid) (bump (st_device_id s) now pid (t_projects s)))
      = (bp_counter r + 1) # map (\<lambda>r. bp_counter r + 1) rest"
    by (simp add: bump_def filter_update_same)
  then show ?thesis
    by (simp add: increment_project_counter_def bind_def query_row_def bump_def)
qed

text \<open>Dates of a row in order.\<close>
definition dates_ordered :: "board_issue_row \<Rightarrow> bool" where
  "dates_ordered r = (case (ir_start_date r, ir_due_date r) of (Some a, Some b) \<Rightarrow> a \<le> b | _ \<Rightarrow> True)"

lemma Min_insert_min: "finite S \<Longrightarrow> Min (insert (min x d) S) = Min (insert x (insert d S))"
  by (cases "S = {}") (simp_all add: min.assoc)

lemma Max_insert_max: "finite S \<Longrightarrow> Max (insert (max x d) S) = Max (insert x (insert d S))"
  by (cases "S = {}") (simp_all add: max.assoc)

lemma foldl_min_date_Some: "foldl min_date (Some x) ds = Some (Min (insert x (set ds)))"
proof (induction ds arbitrary: x)
  case (Cons d ds)
  have "min_date (Some x) d = Some (min x d)" by (auto simp: min_date_def min_def)
  then show ?case by (simp add: Cons Min_insert_min del: Min_insert)
qed simp

lemma foldl_max_date_Some: "foldl max_date (Some x) ds = Some (Max (insert x (set ds)))"
proof (induction ds arbitrary: x)
  case (Cons d ds)
  have "max_date (Some x) d = Some (max x d)" by (auto simp: max_date_def max_def)
  then show ?case by (simp add: Cons Max_insert_max del: Max_insert)
qed simp

lemma foldl_min_date: "foldl min_date None ds = (if ds = [] then None else Some (Min (set ds)))"
  and foldl_max_date: "foldl max_date None ds = (if ds = [] then None else Some (Max (set ds)))"
  by (cases ds; simp add: min_date_def max_date_def foldl_min_date_Some foldl_max_date_Some del: Min_insert Max_insert)+

lemma issue_matches_project:
  "issue_matches \<lparr>bf_project_id = Some pid, bf_status = None, bf_assignee_id = None, bf_label = None,
     bf_limit = None\<rparr> = (\<lambda>r. ir_project_id r = pid)"
  by (simp add: fun_eq_iff issue_matches_def)

lemma gantt_apply:
  "gantt_for_project pid s = (Inr (let issues = List.map_filter row_to_board_issue
       (order_desc ir_updated_at (filter (\<lambda>r. ir_project_id r = pid) (t_issues s)));
      ds = concat (map issue_dates issues)
    in (if ds = [] then None else Some (Min (set ds)), if ds = [] then None else Some (Max (set ds)), issues)), s)"
  by (simp add: gantt_for_project_def bind_def list_board_issues_def issue_matches_project Let_def
      foldl_min_date foldl_max_date)

section \<open>The tables keep their keys\<close>

text \<open>Primary keys, the project key, and a status the codec knows on every issue row.\<close>
definition board_wf :: "store \<Rightarrow> bool" where
  "board_wf s \<longleftrightarrow> distinct (map bp_id (t_projects s)) \<and> distinct (map bp_key (t_projects s)) \<and>
     distinct (map ir_id (t_issues s)) \<and> distinct (map er_id (t_events s)) \<and>
     distinct (map bc_id (t_comments s)) \<and>
     (\<forall>r \<in> set (t_issues s). issue_status_from_str (ir_status r) \<noteq> None)"

lemma board_wf_open: "board_wf (open_with_device fk d)"
  by (simp add: board_wf_def open_with_device_def)

lemma distinct_snoc_key: "distinct (map k (rows @ [r])) \<longleftrightarrow> distinct (map k rows) \<and> k r \<notin> k ` set rows"
  by auto

lemma sql_insert_cases:
  "sql_insert table upd conflict msg r s = (res, s') \<Longrightarrow>
   s' = s \<and> res = Inl (StorageSql msg UniqueViolation) \<and> list_ex (conflict r) (table s)
   \<or> s' = upd (\<lambda>_. table s @ [r]) s \<and> res = Inr () \<and> \<not> list_ex (conflict r) (table s)"
  by (auto simp: sql_insert_def split: if_splits)

lemma wf_create_project: "board_wf s \<Longrightarrow> create_board_project now p s = (res, s') \<Longrightarrow> board_wf s'"
  unfolding create_board_project_def
  by (drule sql_insert_cases) (auto simp: board_wf_def list_ex_iff project_to_row_def board_project.defs)

lemma wf_insert_issue: "board_wf s \<Longrightarrow> insert_board_issue i s = (res, s') \<Longrightarrow> board_wf s'"
  by (auto simp: insert_issue_apply board_wf_def issue_to_row_def issue_status_codec.from_as split: if_splits)

lemma wf_insert_event_row: "board_wf s \<Longrightarrow> insert_event_row e s = (res, s') \<Longrightarrow> board_wf s'"
  unfolding insert_event_row_def by (drule sql_insert_cases) (auto simp: board_wf_def list_ex_iff)

lemma wf_insert_comment: "board_wf s \<Longrightarrow> insert_board_comment c s = (res, s') \<Longrightarrow> board_wf s'"
  unfolding insert_board_comment_def
  by (drule sql_insert_cases) (auto simp: board_wf_def list_ex_iff board_comment.defs)

lemma wf_update_issues:
  assumes "board_wf s" and "\<And>r. ir_id (f r) = ir_id r"
    and "\<And>r. issue_status_from_str (ir_status r) \<noteq> None \<Longrightarrow> issue_status_from_str (ir_status (f r)) \<noteq> None"
  shows "board_wf (t_issues_update (\<lambda>_. update_where p f (t_issues s)) s)"
  using assms by (auto simp: board_wf_def map_update_where set_update_where)

lemma wf_update_projects:
  assumes "board_wf s" and "\<And>r. bp_id (f r) = bp_id r" and "\<And>r. bp_key (f r) = bp_key r"
  shows "board_wf (t_projects_update (\<lambda>_. update_where p f (t_projects s)) s)"
  using assms by (auto simp: board_wf_def map_update_where)

lemma wf_apply_steps:
  "board_wf s \<Longrightarrow> apply_steps now uuid iid act i prev path s = (res, s') \<Longrightarrow> board_wf s'"
proof (induction path arbitrary: i prev s)
  case (Cons st rest)
  let ?s1 = "t_issues_update (\<lambda>_. set_status (st_device_id s) iid (now i) st (t_issues s)) s"
  have w1: "board_wf ?s1"
    unfolding set_status_def using Cons.prems(1)
    by (rule wf_update_issues) (simp_all add: issue_status_codec.from_as)
  obtain r2 s2 where ins: "insert_event_row (status_event (uuid i) iid act (now i) prev
      (issue_status_as_str st) (st_device_id s)) ?s1 = (r2, s2)" by fastforce
  have w2: "board_wf s2" using wf_insert_event_row [OF w1 ins] .
  have run: "apply_steps now uuid iid act i prev (st # rest) s =
     (case r2 of Inl e \<Rightarrow> (Inl e, s2)
      | Inr x \<Rightarrow> apply_steps now uuid iid act (Suc i) (issue_status_as_str st) rest s2)"
    using ins by (simp add: bind_def set_status_def)
  show ?case
  proof (cases r2)
    case (Inl e)
    then show ?thesis using Cons.prems(2) w2 unfolding run by simp
  next
    case (Inr u)
    then show ?thesis using Cons.IH [OF w2] Cons.prems(2) unfolding run by simp
  qed
qed simp


lemma wf_frame_events: "board_wf s \<Longrightarrow> insert_event_row e s = (res, s') \<Longrightarrow> t_issues s' = t_issues s"
  unfolding insert_event_row_def by (drule sql_insert_cases) auto

lemma query_row_cases:
  "query_row msg f s = (res, s') \<Longrightarrow> s' = s \<and> (case f s of [] \<Rightarrow> res = Inl (StorageSql msg NoRows) | x # _ \<Rightarrow> res = Inr x)"
  by (auto simp: query_row_def split: list.splits)

lemma wf_update_status:
  "board_wf s \<Longrightarrow> update_board_issue_status now uuid iid status act s = (res, s') \<Longrightarrow> board_wf s'"
  by (auto simp: update_board_issue_status_def bind_def query_row_def Let_def
      split: option.splits list.splits dest: wf_apply_steps)

lemma wf_schedule:
  assumes "board_wf s" and "schedule_board_issue now eid iid sp dp act s = (res, s')"
  shows "board_wf s'"
proof (cases "filter (\<lambda>r. ir_id r = iid) (t_issues s)")
  case Nil
  then show ?thesis using assms by (simp add: schedule_board_issue_def bind_def query_row_def)
next
  case (Cons r rest)
  let ?ns = "case sp of Some v \<Rightarrow> v | None \<Rightarrow> ir_start_date r"
  let ?nd = "case dp of Some v \<Rightarrow> v | None \<Rightarrow> ir_due_date r"
  let ?s1 = "t_issues_update (\<lambda>_. update_where (\<lambda>r. ir_id r = iid)
                  (\<lambda>r. r\<lparr>ir_start_date := ?ns, ir_due_date := ?nd, ir_updated_at := now,
                         ir_device_id := st_device_id s, ir_synced := False\<rparr>) (t_issues s)) s"
  have "board_wf ?s1" by (rule wf_update_issues [OF assms(1)]) simp_all
  then show ?thesis
    using assms Cons wf_insert_event_row
    by (auto simp: schedule_board_issue_def bind_def query_row_def Let_def split: if_splits)
qed

lemma wf_upsert_issue: "board_wf s \<Longrightarrow> upsert_board_issue now i s = (res, s') \<Longrightarrow> board_wf s'"
  by (auto simp: upsert_board_issue_def bind_def get_board_issue_def issue_status_codec.from_as
      split: option.splits if_splits prod.splits sum.splits
      intro!: wf_update_issues dest: wf_insert_issue)

lemma wf_link_session: "board_wf s \<Longrightarrow> link_session_to_issue now iid sid c tk s = (res, s') \<Longrightarrow> board_wf s'"
  by (auto simp: link_session_to_issue_def bind_def query_row_def Let_def split: list.splits
      intro!: wf_update_issues)

lemma wf_assign: "board_wf s \<Longrightarrow> assign_board_issue now iid a b c s = (res, s') \<Longrightarrow> board_wf s'"
  by (auto simp: assign_board_issue_def bind_def intro!: wf_update_issues)

lemma wf_github: "board_wf s \<Longrightarrow> update_board_project_github_repo now iid g s = (res, s') \<Longrightarrow> board_wf s'"
  by (auto simp: update_board_project_github_repo_def bind_def intro!: wf_update_projects)

lemma wf_increment: "board_wf s \<Longrightarrow> increment_project_counter now pid s = (res, s') \<Longrightarrow> board_wf s'"
  by (auto simp: increment_project_counter_def bind_def query_row_def split: list.splits if_splits
      intro!: wf_update_projects)

lemma wf_event: "board_wf s \<Longrightarrow> insert_board_event e s = (res, s') \<Longrightarrow> board_wf s'"
  by (auto simp: insert_board_event_def dest: wf_insert_event_row)

lemma mark_ids_apply:
  "mark_ids_synced table upd key mark ids s =
    (Inr (), if ids = [] then s else upd (\<lambda>_. update_where (\<lambda>r. key r \<in> set ids) mark (table s)) s)"
  by (simp add: mark_ids_synced_def bind_def)

lemma wf_mark_projects: "board_wf s \<Longrightarrow> mark_board_projects_synced ids s = (res, s') \<Longrightarrow> board_wf s'"
  by (auto simp: mark_board_projects_synced_def mark_ids_apply intro!: wf_update_projects split: if_splits)

lemma wf_mark_issues: "board_wf s \<Longrightarrow> mark_board_issues_synced ids s = (res, s') \<Longrightarrow> board_wf s'"
  by (auto simp: mark_board_issues_synced_def mark_ids_apply intro!: wf_update_issues split: if_splits)

lemma wf_mark_events: "board_wf s \<Longrightarrow> mark_board_events_synced ids s = (res, s') \<Longrightarrow> board_wf s'"
  by (auto simp: mark_board_events_synced_def mark_ids_apply board_wf_def map_update_where split: if_splits)

lemma wf_mark_comments: "board_wf s \<Longrightarrow> mark_board_comments_synced ids s = (res, s') \<Longrightarrow> board_wf s'"
  by (auto simp: mark_board_comments_synced_def mark_ids_apply board_wf_def map_update_where split: if_splits)

text \<open>One call of the board API, with whatever arguments, clock and uuids.\<close>
inductive board_step :: "store \<Rightarrow> store \<Rightarrow> bool" where
  "create_board_project now p s = (u, s') \<Longrightarrow> board_step s s'"
| "update_board_project_github_repo now pid g s = (u, s') \<Longrightarrow> board_step s s'"
| "increment_project_counter now pid s = (n, s') \<Longrightarrow> board_step s s'"
| "insert_board_issue i s = (u, s') \<Longrightarrow> board_step s s'"
| "upsert_board_issue now i s = (b, s') \<Longrightarrow> board_step s s'"
| "insert_board_event e s = (u, s') \<Longrightarrow> board_step s s'"
| "insert_board_comment c s = (u, s') \<Longrightarrow> board_step s s'"
| "update_board_issue_status nows uuid iid status act s = (u, s') \<Longrightarrow> board_step s s'"
| "schedule_board_issue now eid iid sp dp act s = (u, s') \<Longrightarrow> board_step s s'"
| "assign_board_issue now iid a b c s = (u, s') \<Longrightarrow> board_step s s'"
| "link_session_to_issue now iid sid cost tk s = (u, s') \<Longrightarrow> board_step s s'"
| "mark_board_projects_synced ids s = (u, s') \<Longrightarrow> board_step s s'"
| "mark_board_issues_synced ids s = (u, s') \<Longrightarrow> board_step s s'"
| "mark_board_events_synced ids s = (u, s') \<Longrightarrow> board_step s s'"
| "mark_board_comments_synced ids s = (u, s') \<Longrightarrow> board_step s s'"

inductive_cases board_stepE: "board_step s s'"

lemma board_step_wf: "board_step s s' \<Longrightarrow> board_wf s \<Longrightarrow> board_wf s'"
  by (induction rule: board_step.induct)
    (blast intro: wf_create_project wf_github wf_increment wf_insert_issue wf_upsert_issue wf_event
       wf_insert_comment wf_update_status wf_schedule wf_assign wf_link_session
       wf_mark_projects wf_mark_issues wf_mark_events wf_mark_comments)+

section \<open>What the board calls leave alone\<close>

lemma insert_issue_frame:
  "(\<And>g s. f (t_issues_update g s) = f s) \<Longrightarrow> frame f (insert_board_issue i)"
  unfolding insert_board_issue_def by (rule frame_state) (intro frame_intros)

lemma insert_event_frame:
  "(\<And>g s. f (t_events_update g s) = f s) \<Longrightarrow> frame f (insert_event_row e)"
  unfolding insert_event_row_def by (intro frame_intros)

lemma apply_steps_frame:
  assumes "\<And>g s. f (t_issues_update g s) = f s" "\<And>g s. f (t_events_update g s) = f s"
  shows "frame f (apply_steps now uuid iid act i prev path)"
proof (induction path arbitrary: i prev)
  case (Cons st rest)
  show ?case
    unfolding apply_steps.simps
    by (rule frame_state) (intro frame_intros insert_event_frame assms Cons)
qed (simp add: frame_ret)

lemma status_change_frame:
  assumes "\<And>g s. f (t_issues_update g s) = f s" "\<And>g s. f (t_events_update g s) = f s"
  shows "frame f (update_board_issue_status now uuid iid status act)"
  unfolding update_board_issue_status_def Let_def
  by (intro frame_intros apply_steps_frame assms)

text \<open>What the board calls do not touch.\<close>
lemma board_step_frame:
  assumes "board_step s s'" and f: "\<And>g s. f (t_projects_update g s) = f s" "\<And>g s. f (t_issues_update g s) = f s"
    "\<And>g s. f (t_events_update g s) = f s" "\<And>g s. f (t_comments_update g s) = f s"
  shows "f s' = f s"
proof -
  note defs = create_board_project_def update_board_project_github_repo_def increment_project_counter_def
    upsert_board_issue_def get_board_issue_def insert_board_event_def insert_board_comment_def
    schedule_board_issue_def assign_board_issue_def link_session_to_issue_def insert_board_issue_def
    insert_event_row_def mark_ids_apply mark_board_projects_synced_def mark_board_issues_synced_def
    mark_board_events_synced_def mark_board_comments_synced_def
  from assms(1) show ?thesis
  proof (cases rule: board_step.cases)
    case (8 nows uuid iid status act u)
    then show ?thesis using frameD [OF status_change_frame [OF f(2,3)]] by blast
  qed (auto simp: defs stmt_defs f Let_def split: if_splits option.splits list.splits prod.splits sum.splits)
qed

section \<open>The board tables keep the sync contract\<close>

interpretation sync_projects: sync_table bp_id pr_synced "pr_synced_update (\<lambda>_. True)"
  by unfold_locales simp_all

interpretation sync_issues: sync_table ir_id ir_synced "ir_synced_update (\<lambda>_. True)"
  by unfold_locales simp_all

interpretation sync_events: sync_table er_id er_synced "er_synced_update (\<lambda>_. True)"
  by unfold_locales simp_all

interpretation sync_comments: sync_table bc_id cr_synced "cr_synced_update (\<lambda>_. True)"
  by unfold_locales simp_all




lemma sample_row [simp]:
  "bi_id (sample_issue iid st now) = iid"
  "ir_id (issue_to_row d (sample_issue iid st now)) = iid"
  "ir_status (issue_to_row d (sample_issue iid st now)) = issue_status_as_str st"
  "ir_start_date (issue_to_row d (sample_issue iid st now)) = None"
  "ir_due_date (issue_to_row d (sample_issue iid st now)) = None"
  "ir_synced (issue_to_row d (sample_issue iid st now)) = False"
  by (simp_all add: sample_issue_def issue_to_row_def)

lemma sample_store_simps [simp]:
  "t_issues (sample_store is) = map (issue_to_row ''dev'') is"
  "t_events (sample_store is) = []" "st_device_id (sample_store is) = ''dev''"
  "t_projects (sample_store is) = []" "t_comments (sample_store is) = []"
  by (simp_all add: sample_store_def open_with_device_def)

definition tick_uuid :: "nat \<Rightarrow> string" where
  "tick_uuid n = ''e'' @ show_nat n"

lemma fresh_tick [simp]: "t_events s = [] \<Longrightarrow> fresh_ids tick_uuid n s"
  by (simp add: fresh_ids_def inj_on_def tick_uuid_def show_nat_inj)

definition sample_actor :: actor where
  "sample_actor = \<lparr>act_id = ''u'', act_name = ''u'', act_type = ''human''\<rparr>"

section \<open>Properties\<close>

text \<open>C5: a status change that the machine allows succeeds; the issue then has the requested status
and is queued for sync, no other issue and no other table changes, and the events appended to the
issue's history record every step of the path in order, each one starting where the last ended.\<close>
theorem status_change_effect:
  assumes "find (\<lambda>r. ir_id r = iid) (t_issues s) = Some r"
    and "issue_status_from_str status = Some target"
    and "transition_path (current_status r) target = Some path"
    and "fresh_ids uuid (length path) s"
  shows "\<exists>s'. update_board_issue_status now uuid iid status act s = (Inr (), s') \<and>
    (\<exists>r'. find (\<lambda>r. ir_id r = iid) (t_issues s') = Some r' \<and> ir_status r' = status \<and> \<not> ir_synced r') \<and>
    (\<forall>x. x \<noteq> iid \<longrightarrow> find (\<lambda>r. ir_id r = x) (t_issues s') = find (\<lambda>r. ir_id r = x) (t_issues s)) \<and>
    (\<exists>rows es. s' = s\<lparr>t_issues := rows, t_events := es\<rparr>) \<and>
    (\<exists>new. t_events s' = t_events s @ new \<and> length new = length path \<and>
       (\<forall>e \<in> set new. er_issue_id e = iid \<and> er_actor_id e = act_id act) \<and>
       trail_moves new = zip (map JStr (ir_status r # map issue_status_as_str path))
                             (map (JStr \<circ> issue_status_as_str) path))"
proof -
  have st: "issue_status_as_str target = status" using assms(2) by (simp add: issue_status_codec.from_str_iff)
  have tr: "length (status_trail now uuid iid act d i p path) = length path \<and>
     (\<forall>e \<in> set (status_trail now uuid iid act d i p path). er_issue_id e = iid \<and> er_actor_id e = act_id act)" for d i p
    by (induction path arbitrary: i p) (simp_all add: status_event_def)
  show ?thesis
    using tr by (simp add: update_status_ok [OF assms] find_set_status assms(1) st trail_moves_status_trail) blast
qed

theorem status_change_effect_witness:
  "\<exists>s'. update_board_issue_status (\<lambda>_. ''t1'') tick_uuid ''i1'' ''done'' sample_actor
      (sample_store [sample_issue ''i1'' Todo ''t0'']) = (Inr (), s') \<and>
    (\<exists>r'. find (\<lambda>r. ir_id r = ''i1'') (t_issues s') = Some r' \<and> ir_status r' = ''done'') \<and>
    trail_moves (t_events s') = [(JStr ''todo'', JStr ''in_progress''), (JStr ''in_progress'', JStr ''in_review''),
      (JStr ''in_review'', JStr ''done'')]"
proof -
  let ?r = "issue_to_row ''dev'' (sample_issue ''i1'' Todo ''t0'')"
  have p: "transition_path (current_status ?r) Done = Some [InProgress, InReview, Done]"
    by (simp add: current_status_def issue_status_from_str_def transition_path_def status_path_simps)
  show ?thesis
    using status_change_effect [of "''i1''" "sample_store [sample_issue ''i1'' Todo ''t0'']" ?r "''done''" Done
        "[InProgress, InReview, Done]" tick_uuid "\<lambda>_. ''t1''" sample_actor]
    by (simp add: p issue_status_from_str_def) blast
qed

lemma sample_path: "transition_path (current_status (issue_to_row d (sample_issue iid Todo now))) Done =
    Some [InProgress, InReview, Done]"
  by (simp add: current_status_def issue_status_from_str_def transition_path_def status_path_simps)

text \<open>every step a status change records on an open issue is a move of the issue machine: the
path it walks is a chain of valid transitions that ends in the requested status.\<close>
theorem status_change_legal:
  assumes "update_board_issue_status now uuid iid status act s = (Inr (), s')"
    and "find (\<lambda>r. ir_id r = iid) (t_issues s) = Some r" and "\<not> is_terminal (current_status r)"
    and "fresh_ids uuid 5 s"
  shows "\<exists>path new. legal_path (current_status r) path \<and> path \<noteq> [] \<and> issue_status_as_str (last path) = status \<and>
    t_events s' = t_events s @ new \<and>
    map snd (trail_moves new) = map (JStr \<circ> issue_status_as_str) path"
proof -
  obtain target where t: "issue_status_from_str status = Some target"
    using assms(1) by (cases "issue_status_from_str status") (simp_all add: update_board_issue_status_def)
  obtain path where p: "transition_path (current_status r) target = Some path"
    using assms(1) by (cases "transition_path (current_status r) target")
      (simp_all add: update_status_reads [OF assms(2) t])
  have "fresh_ids uuid (length path) s"
    using assms(4) transition_path_length [OF p] by (auto simp: fresh_ids_def intro: inj_on_subset)
  from update_status_ok [OF assms(2) t p this] assms(1)
  have ev: "t_events s' = t_events s @ status_trail now uuid iid act (st_device_id s) 0 (ir_status r) path"
    by auto
  have "map snd (trail_moves (status_trail now uuid iid act (st_device_id s) 0 (ir_status r) path)) =
      map (JStr \<circ> issue_status_as_str) path"
    by (simp add: trail_moves_status_trail map_snd_zip_take)
  moreover have "issue_status_as_str target = status" using t by (simp add: issue_status_codec.from_str_iff)
  ultimately show ?thesis
    using ev transition_path_ne [OF p] transition_path_legal [OF assms(3) p] by blast
qed

theorem status_change_legal_witness:
  "\<exists>path new s'. legal_path Todo path \<and> path \<noteq> [] \<and> issue_status_as_str (last path) = ''done'' \<and>
    update_board_issue_status (\<lambda>_. ''t1'') tick_uuid ''i1'' ''done'' sample_actor
      (sample_store [sample_issue ''i1'' Todo ''t0'']) = (Inr (), s') \<and>
    t_events s' = new \<and> map snd (trail_moves new) = map (JStr \<circ> issue_status_as_str) path"
proof -
  let ?s = "sample_store [sample_issue ''i1'' Todo ''t0'']"
  let ?r = "issue_to_row ''dev'' (sample_issue ''i1'' Todo ''t0'')"
  have cur: "current_status ?r = Todo" by (simp add: current_status_def issue_status_from_str_def)
  obtain s' where run: "update_board_issue_status (\<lambda>_. ''t1'') tick_uuid ''i1'' ''done'' sample_actor ?s = (Inr (), s')"
    using update_status_ok [of "''i1''" ?s ?r "''done''" Done "[InProgress, InReview, Done]" tick_uuid]
      sample_path [of "''dev''" "''i1''" "''t0''"] by (auto simp: issue_status_from_str_def)
  from status_change_legal [OF this, of ?r] cur run show ?thesis by auto
qed

text \<open>a rejected status change names its reason and writes nothing.\<close>
theorem status_change_rejected:
  assumes "update_board_issue_status now uuid iid status act s = (Inl e, s')"
    and "fresh_ids uuid 5 s"
  shows "s' = s \<and>
    (issue_status_from_str status = None \<and> e = Storage (''invalid status: '' @ status)
     \<or> iid \<notin> ir_id ` set (t_issues s) \<and> e = StorageSql (''issue not found: '' @ iid) NoRows
     \<or> (\<exists>r target. find (\<lambda>r. ir_id r = iid) (t_issues s) = Some r \<and> issue_status_from_str status = Some target
          \<and> transition_path (current_status r) target = None
          \<and> e = transition_error (current_status r) target))"
  by (rule update_status_error [OF assms])

theorem status_change_rejected_witness:
  "\<exists>e s'. update_board_issue_status (\<lambda>_. ''t1'') tick_uuid ''i1'' ''todo'' sample_actor
      (sample_store [sample_issue ''i1'' Done ''t0'']) = (Inl e, s') \<and>
    s' = sample_store [sample_issue ''i1'' Done ''t0''] \<and> e = transition_error Done Todo"
proof -
  let ?s = "sample_store [sample_issue ''i1'' Done ''t0'']"
  let ?r = "issue_to_row ''dev'' (sample_issue ''i1'' Done ''t0'')"
  have f: "find (\<lambda>r. ir_id r = ''i1'') (t_issues ?s) = Some ?r" by simp
  have cur: "current_status ?r = Done" by (simp add: current_status_def issue_status_from_str_def)
  have t: "issue_status_from_str ''todo'' = Some Todo" by (simp add: issue_status_from_str_def)
  have "transition_path Done Todo = None" by (simp add: transition_path_def status_path_simps)
  then have run: "update_board_issue_status (\<lambda>_. ''t1'') tick_uuid ''i1'' ''todo'' sample_actor ?s =
      (Inl (transition_error Done Todo), ?s)"
    by (simp add: update_status_reads [OF f t] cur)
  from status_change_rejected [OF this] run show ?thesis by simp
qed

text \<open>a finished or cancelled issue accepts exactly one further move, to cancelled, although the
machine lists no transition out of a terminal status.\<close>
theorem terminal_moves:
  assumes "is_terminal current"
  shows "valid_transitions current = [] \<and>
    transition_path current target = (if target = Cancelled then Some [Cancelled] else None)"
  using assms forward_path_None_terminal
  by (cases current) (auto simp: transition_path_def can_transition_to_def forward_path_to_def)

theorem terminal_moves_witness:
  "valid_transitions Done = [] \<and> transition_path Done Cancelled = Some [Cancelled] \<and>
   transition_path Cancelled Cancelled = Some [Cancelled] \<and> transition_path Done Todo = None"
  using terminal_moves [of Done Cancelled] terminal_moves [of Cancelled Cancelled] terminal_moves [of Done Todo]
  by simp

text \<open>C6: whatever sequence of board calls runs on a fresh database, successful or failing, ids and
project keys stay unique in every board table and every issue row holds a status the codec knows.\<close>
theorem board_reachable_wf:
  "board_step\<^sup>*\<^sup>* (open_with_device fk d) s \<Longrightarrow> board_wf s"
  by (induction rule: rtranclp_induct) (auto intro: board_wf_open board_step_wf)

theorem board_reachable_wf_witness:
  "board_wf (snd (insert_board_issue (sample_issue ''i1'' Todo ''t0'') (open_with_device True ''dev''))) \<and>
   length (t_issues (snd (insert_board_issue (sample_issue ''i1'' Todo ''t0'') (open_with_device True ''dev'')))) = 1"
proof -
  let ?s = "open_with_device True ''dev''" and ?i = "sample_issue ''i1'' Todo ''t0''"
  have "board_step ?s (snd (insert_board_issue ?i ?s))" by (rule board_step.intros(4)) (rule prod.collapse [symmetric])
  from board_reachable_wf [OF r_into_rtranclp, OF this] show ?thesis
    by (simp add: insert_issue_apply open_with_device_def)
qed

text \<open>rescheduling an issue never leaves its dates out of order: either the dates are rejected
and nothing changes, or the issue carries the patched dates, in order.\<close>
theorem schedule_dates:
  assumes "find (\<lambda>r. ir_id r = iid) (t_issues s) = Some r"
    and "eid \<notin> er_id ` set (t_events s)"
  shows "let ns = (case sp of Some v \<Rightarrow> v | None \<Rightarrow> ir_start_date r);
             nd = (case dp of Some v \<Rightarrow> v | None \<Rightarrow> ir_due_date r)
    in case schedule_board_issue now eid iid sp dp act s of
      (Inl e, s') \<Rightarrow> s' = s \<and> e = Storage ''start_date must be <= due_date'' \<and> (\<exists>a b. ns = Some a \<and> nd = Some b \<and> b < a)
    | (Inr u, s') \<Rightarrow> \<exists>r'. find (\<lambda>r. ir_id r = iid) (t_issues s') = Some r' \<and> dates_ordered r' \<and>
        ir_start_date r' = ns \<and> ir_due_date r' = nd \<and> ir_status r' = ir_status r \<and>
        length (t_events s') = Suc (length (t_events s))"
proof -
  obtain rest where f: "filter (\<lambda>r. ir_id r = iid) (t_issues s) = r # rest"
    using find_filter_Cons [OF assms(1)] by blast
  have "\<not> list_ex (\<lambda>b. eid = er_id b) (t_events s)" using assms(2) by (auto simp: list_ex_iff)
  then show ?thesis
    using assms(1)
    by (auto simp: schedule_board_issue_def bind_def query_row_def f Let_def insert_event_row_def
        sql_insert_def find_update_where_key dates_ordered_def split: option.splits)
qed

theorem schedule_dates_witness:
  "\<exists>s'. schedule_board_issue ''t1'' ''e1'' ''i1'' (Some (Some ''2025-01-02'')) (Some (Some ''2025-01-09'')) sample_actor
      (sample_store [sample_issue ''i1'' Todo ''t0'']) = (Inr (), s') \<and>
    (\<exists>r'. find (\<lambda>r. ir_id r = ''i1'') (t_issues s') = Some r' \<and> dates_ordered r' \<and>
      ir_start_date r' = Some ''2025-01-02'')"
proof -
  let ?s = "sample_store [sample_issue ''i1'' Todo ''t0'']"
  let ?run = "schedule_board_issue ''t1'' ''e1'' ''i1'' (Some (Some ''2025-01-02'')) (Some (Some ''2025-01-09'')) sample_actor ?s"
  have f: "find (\<lambda>r. ir_id r = ''i1'') (t_issues ?s) = Some (issue_to_row ''dev'' (sample_issue ''i1'' Todo ''t0''))"
    by simp
  have "\<not> ''2025-01-09'' < ''2025-01-02''" by (simp add: less_char_def)
  with schedule_dates [OF f, of "''e1''" "Some (Some ''2025-01-02'')" "Some (Some ''2025-01-09'')" "''t1''" sample_actor]
  show ?thesis by (auto simp: Let_def split: prod.splits sum.splits)
qed

text \<open>issuing a number from a project's counter yields the next one, and a second call a
different one; other projects keep theirs.\<close>
theorem counter_fresh:
  assumes "find (\<lambda>r. bp_id r = pid) (t_projects s) = Some r"
    and "increment_project_counter now pid s = (Inr n, s1)"
    and "increment_project_counter now' pid s1 = (Inr m, s2)"
  shows "n = bp_counter r + 1 \<and> m = n + 1 \<and>
    (\<forall>x. x \<noteq> pid \<longrightarrow> find (\<lambda>r. bp_id r = x) (t_projects s2) = find (\<lambda>r. bp_id r = x) (t_projects s))"
proof -
  have n: "n = bp_counter r + 1" and s1: "t_projects s1 = bump (st_device_id s) now pid (t_projects s)"
    using assms(2) by (auto simp: increment_counter_apply [OF assms(1)] split: if_splits)
  have f1: "find (\<lambda>r. bp_id r = pid) (t_projects s1) = Some (r\<lparr>bp_counter := bp_counter r + 1,
      pr_device_id := st_device_id s, pr_updated_at := now, pr_synced := False\<rparr>)"
    using assms(1) by (simp add: s1 bump_def find_update_where_key)
  have "m = bp_counter r + 1 + 1" and "t_projects s2 = bump (st_device_id s1) now' pid (t_projects s1)"
    using assms(3) by (auto simp: increment_counter_apply [OF f1] split: if_splits)
  with n s1 show ?thesis by (simp add: bump_def find_update_where_key)
qed

text \<open>the span a Gantt chart reports is exactly the earliest and latest scheduled date of the
issues it returns.\<close>
theorem gantt_span:
  assumes "gantt_for_project pid s = (Inr (lo, hi, issues), s')"
  shows "s' = s \<and> (let ds = {d. \<exists>i \<in> set issues. bi_start_date i = Some d \<or> bi_due_date i = Some d} in
     (ds = {} \<longrightarrow> lo = None \<and> hi = None) \<and> (ds \<noteq> {} \<longrightarrow> lo = Some (Min ds) \<and> hi = Some (Max ds)))"
proof -
  define X where "X = List.map_filter row_to_board_issue
    (order_desc ir_updated_at (filter (\<lambda>r. ir_project_id r = pid) (t_issues s)))"
  let ?dates = "concat (map issue_dates X)"
  let ?ds = "{d. \<exists>i \<in> set X. bi_start_date i = Some d \<or> bi_due_date i = Some d}"
  have ds: "?ds = set ?dates"
    by (auto simp: issue_dates_def List.map_filter_simps split: option.splits)
  have res: "s' = s" "issues = X" "lo = (if ?dates = [] then None else Some (Min ?ds))"
      "hi = (if ?dates = [] then None else Some (Max ?ds))"
    using assms unfolding gantt_apply Let_def X_def [symmetric] ds prod.inject sum.inject by blast+
  have ne: "?dates = [] \<longleftrightarrow> ?ds = {}" unfolding ds by (rule set_empty [symmetric])
  show ?thesis unfolding res Let_def ne by (cases "?ds = {}") (simp_all only: refl if_True if_False simp_thms)
qed

text \<open>marking pushed issues takes exactly those out of the sync queue, in any state and order,
and changes nothing else about any row.\<close>
theorem issues_synced_drain:
  "let s' = snd (mark_board_issues_synced ids s) in
    filter (\<lambda>r. \<not> ir_synced r) (t_issues s') =
      filter (\<lambda>r. ir_id r \<notin> set ids) (filter (\<lambda>r. \<not> ir_synced r) (t_issues s)) \<and>
    map (\<lambda>r. r\<lparr>ir_synced := True\<rparr>) (t_issues s') = map (\<lambda>r. r\<lparr>ir_synced := True\<rparr>) (t_issues s) \<and>
    s' = s\<lparr>t_issues := t_issues s'\<rparr>"
proof (cases "ids = []")
  case True
  then show ?thesis by (simp add: mark_board_issues_synced_def mark_ids_apply)
next
  case False
  then have "snd (mark_board_issues_synced ids s) =
      s\<lparr>t_issues := update_where (\<lambda>r. ir_id r \<in> set ids) (ir_synced_update (\<lambda>_. True)) (t_issues s)\<rparr>"
    by (simp add: mark_board_issues_synced_def mark_ids_apply)
  then show ?thesis by (simp add: sync_issues.unsynced_after_mark map_update_where)
qed

end
