(* ===== verification/Store_Acceptance.thy ===== *)
theory Store_Acceptance
  imports Store_Board
begin

text \<open>
  The acceptance checks of an issue (sqlite\_store.rs, Acceptance checks): seeding the rows from the
  parsed checklist, recording an agent's result, listing and the rollup.
\<close>

section \<open>Operations\<close>

text \<open>The natural key of a check.\<close>
definition check_key :: "string \<Rightarrow> int \<Rightarrow> acc_row \<Rightarrow> bool" where
  "check_key issue_id idx r \<longleftrightarrow> ar_issue_id r = issue_id \<and> ar_check_idx r = idx"

definition reset_check :: "timestamp \<Rightarrow> acceptance_check \<Rightarrow> acc_row \<Rightarrow> acc_row" where
  "reset_check now check r =
     r\<lparr>ar_kind := acceptance_kind_as_str (ck_kind check), ar_command := ck_command check,
       ar_status := ''pending'', ar_output := None, ar_last_session_id := None,
       ar_last_run_at := None, ar_updated_at := now\<rparr>"

definition new_check :: "timestamp \<Rightarrow> string \<Rightarrow> string \<Rightarrow> acceptance_check \<Rightarrow> acc_row" where
  "new_check now uid issue_id check =
     \<lparr>ar_id = ''acc-'' @ uid, ar_issue_id = issue_id, ar_check_idx = int (ck_idx check),
      ar_kind = acceptance_kind_as_str (ck_kind check), ar_command = ck_command check,
      ar_status = ''pending'', ar_last_session_id = None, ar_last_run_at = None, ar_output = None,
      ar_created_at = now, ar_updated_at = now\<rparr>"

text \<open>One iteration: the existing row is the first one, and None also when the query fails.\<close>
definition seed_check :: "timestamp \<Rightarrow> string \<Rightarrow> string \<Rightarrow> acceptance_check \<Rightarrow> (store, unit) db" where
  "seed_check now uid issue_id check =
     (\<lambda>s. case find (check_key issue_id (int (ck_idx check))) (t_checks s) of
        Some r \<Rightarrow>
          if ar_kind r = acceptance_kind_as_str (ck_kind check) \<and> ar_command r = ck_command check then ret () s
          else bind (sql_update t_checks t_checks_update (check_key issue_id (int (ck_idx check)))
                 (reset_check now check)) (\<lambda>_. ret ()) s
      | None \<Rightarrow>
          sql_insert t_checks t_checks_update
            (\<lambda>a b. ar_id a = ar_id b \<or> check_key (ar_issue_id a) (ar_check_idx a) b) []
            (new_check now uid issue_id check) s)"

fun seed_loop :: "timestamp \<Rightarrow> (nat \<Rightarrow> string) \<Rightarrow> string \<Rightarrow> nat \<Rightarrow> acceptance_check list \<Rightarrow> (store, unit) db" where
  "seed_loop now uuid issue_id i [] = ret ()"
| "seed_loop now uuid issue_id i (check # rest) =
     bind (seed_check now (uuid i) issue_id check) (\<lambda>_. seed_loop now uuid issue_id (Suc i) rest)"

definition seed_acceptance_checks ::
  "timestamp \<Rightarrow> (nat \<Rightarrow> string) \<Rightarrow> string \<Rightarrow> acceptance_check list \<Rightarrow> (store, unit) db" where
  "seed_acceptance_checks now uuid issue_id checks =
     bind (seed_loop now uuid issue_id 0 checks)
     (\<lambda>_. bind (sql_delete t_checks t_checks_update
            (\<lambda>r. ar_issue_id r = issue_id \<and> int (length checks) \<le> ar_check_idx r))
     (\<lambda>_. ret ()))"

definition upsert_acceptance_result ::
  "timestamp \<Rightarrow> string \<Rightarrow> int \<Rightarrow> acceptance_status \<Rightarrow> string option \<Rightarrow> string option \<Rightarrow> (store, bool) db" where
  "upsert_acceptance_result now issue_id check_idx status output session_id =
     bind (sql_update t_checks t_checks_update (check_key issue_id check_idx)
       (\<lambda>r. r\<lparr>ar_status := acceptance_status_as_str status, ar_output := output,
              ar_last_session_id := session_id, ar_last_run_at := Some now, ar_updated_at := now\<rparr>))
     (\<lambda>rows. ret (0 < rows))"

definition list_acceptance_checks :: "string \<Rightarrow> (store, acceptance_check_row list) db" where
  "list_acceptance_checks issue_id =
     sql_select (\<lambda>s. map row_to_acceptance_check
       (order_asc ar_check_idx (filter (\<lambda>r. ar_issue_id r = issue_id) (t_checks s))))"

record acceptance_rollup =
  ro_total :: nat
  ro_passed :: nat
  ro_failed :: nat
  ro_pending :: nat
  ro_running :: nat
  ro_checks :: "acceptance_check_row list"

definition rollup_step :: "acceptance_rollup \<Rightarrow> acceptance_check_row \<Rightarrow> acceptance_rollup" where
  "rollup_step rollup c =
     (case ac_status c of
        Acc_Pass \<Rightarrow> rollup\<lparr>ro_passed := ro_passed rollup + 1\<rparr>
      | Acc_Fail \<Rightarrow> rollup\<lparr>ro_failed := ro_failed rollup + 1\<rparr>
      | Acc_Pending \<Rightarrow> rollup\<lparr>ro_pending := ro_pending rollup + 1\<rparr>
      | Acc_Running \<Rightarrow> rollup\<lparr>ro_running := ro_running rollup + 1\<rparr>)"

definition acceptance_rollup_of :: "string \<Rightarrow> (store, acceptance_rollup) db" where
  "acceptance_rollup_of issue_id =
     bind (list_acceptance_checks issue_id) (\<lambda>checks.
       let rollup = \<lparr>ro_total = length checks, ro_passed = 0, ro_failed = 0, ro_pending = 0,
                     ro_running = 0, ro_checks = []\<rparr>;
           rollup = foldl rollup_step rollup checks
       in ret (rollup\<lparr>ro_checks := checks\<rparr>))"

section \<open>Looking a check up by its natural key\<close>

definition acc_wf :: "store \<Rightarrow> bool" where
  "acc_wf s \<longleftrightarrow> distinct (map ar_id (t_checks s)) \<and>
     distinct (map (\<lambda>r. (ar_issue_id r, ar_check_idx r)) (t_checks s)) \<and>
     (\<forall>r \<in> set (t_checks s). 0 \<le> ar_check_idx r)"

abbreviation check_at :: "string \<Rightarrow> int \<Rightarrow> store \<Rightarrow> acc_row option" where
  "check_at issue_id idx s \<equiv> find (check_key issue_id idx) (t_checks s)"

lemma check_key_other: "check_key i k r \<Longrightarrow> check_key j l r \<longleftrightarrow> j = i \<and> l = k"
  by (auto simp: check_key_def)

text \<open>What seeding makes of the row found for a check.\<close>
definition seeded :: "timestamp \<Rightarrow> string \<Rightarrow> string \<Rightarrow> acceptance_check \<Rightarrow> acc_row option \<Rightarrow> acc_row" where
  "seeded now uid issue_id check old =
     (case old of
        None \<Rightarrow> new_check now uid issue_id check
      | Some r \<Rightarrow> if ar_kind r = acceptance_kind_as_str (ck_kind check) \<and> ar_command r = ck_command check
          then r else reset_check now check r)"

lemma reset_key [simp]: "check_key i k (reset_check now c r) = check_key i k r"
    "ar_id (reset_check now c r) = ar_id r" "ar_issue_id (reset_check now c r) = ar_issue_id r"
    "ar_check_idx (reset_check now c r) = ar_check_idx r"
  by (simp_all add: reset_check_def check_key_def)

lemma new_key [simp]: "check_key i k (new_check now u iid c) \<longleftrightarrow> i = iid \<and> k = int (ck_idx c)"
    "ar_id (new_check now u iid c) = ''acc-'' @ u" "ar_issue_id (new_check now u iid c) = iid"
    "ar_check_idx (new_check now u iid c) = int (ck_idx c)"
  by (auto simp: new_check_def check_key_def)

text \<open>One iteration: the row of its key becomes the seeded one, every other row stays, and only the
fresh id is added.\<close>
lemma seed_check_effect:
  assumes "acc_wf s" and "''acc-'' @ u \<notin> ar_id ` set (t_checks s)"
  shows "\<exists>s'. seed_check now u iid c s = (Inr (), s') \<and> s' = s\<lparr>t_checks := t_checks s'\<rparr> \<and> acc_wf s' \<and>
    ar_id ` set (t_checks s') \<subseteq> insert (''acc-'' @ u) (ar_id ` set (t_checks s)) \<and>
    (\<forall>i k. check_at i k s' = (if i = iid \<and> k = int (ck_idx c)
       then Some (seeded now u iid c (check_at i k s)) else check_at i k s))"
proof (cases "check_at iid (int (ck_idx c)) s")
  case None
  have nokey: "\<forall>r \<in> set (t_checks s). \<not> check_key iid (int (ck_idx c)) r"
    using None by (simp add: find_None_iff)
  let ?r = "new_check now u iid c"
  have "\<not> list_ex (\<lambda>b. ar_id ?r = ar_id b \<or> check_key (ar_issue_id ?r) (ar_check_idx ?r) b) (t_checks s)"
    using assms(2) nokey by (auto simp: list_ex_iff)
  then have run: "seed_check now u iid c s = (Inr (), s\<lparr>t_checks := t_checks s @ [?r]\<rparr>)"
    using None by (simp add: seed_check_def sql_insert_def)
  have wf: "acc_wf (s\<lparr>t_checks := t_checks s @ [?r]\<rparr>)"
    using assms nokey by (auto simp: acc_wf_def check_key_def)
  show ?thesis
    by (rule exI [of _ "s\<lparr>t_checks := t_checks s @ [?r]\<rparr>"])
      (use run wf None in \<open>auto simp: find_append seeded_def split: option.splits\<close>)
next
  case (Some r)
  show ?thesis
  proof (cases "ar_kind r = acceptance_kind_as_str (ck_kind c) \<and> ar_command r = ck_command c")
    case True
    then have "seed_check now u iid c s = (Inr (), s)" using Some by (simp add: seed_check_def)
    then show ?thesis
      by (intro exI [of _ s]) (use assms(1) Some True in \<open>auto simp: seeded_def\<close>)
  next
    case False
    let ?rows = "update_where (check_key iid (int (ck_idx c))) (reset_check now c) (t_checks s)"
    have run: "seed_check now u iid c s = (Inr (), s\<lparr>t_checks := ?rows\<rparr>)"
      using Some False by (auto simp: seed_check_def bind_def)
    have wf: "acc_wf (s\<lparr>t_checks := ?rows\<rparr>)"
      using assms(1) by (auto simp: acc_wf_def map_update_where set_update_where)
    have look: "find (check_key i k) ?rows = (if i = iid \<and> k = int (ck_idx c)
       then Some (seeded now u iid c (check_at i k s)) else check_at i k s)" for i k
      using Some False find_SomeD [of "check_key i k" "t_checks s"]
      by (auto simp: find_update_where seeded_def check_key_other split: option.splits)
    show ?thesis
      by (rule exI [of _ "s\<lparr>t_checks := ?rows\<rparr>"])
        (use run wf look in \<open>auto simp: set_update_where\<close>)
  qed
qed

section \<open>The whole seeding\<close>

definition fresh_checks :: "(nat \<Rightarrow> string) \<Rightarrow> nat \<Rightarrow> nat \<Rightarrow> store \<Rightarrow> bool" where
  "fresh_checks uuid i n s \<longleftrightarrow>
     (\<forall>j \<in> {i..<i + n}. ''acc-'' @ uuid j \<notin> ar_id ` set (t_checks s)) \<and> inj_on uuid {i..<i + n}"

lemma fresh_checks_step:
  assumes "fresh_checks uuid i (Suc n) s"
    and "ar_id ` set (t_checks s') \<subseteq> insert (''acc-'' @ uuid i) (ar_id ` set (t_checks s))"
  shows "fresh_checks uuid (Suc i) n s'"
proof -
  have "uuid j \<noteq> uuid i" if "j \<in> {Suc i..<Suc i + n}" for j
    using inj_onD [of uuid "{i..<i + Suc n}" j i] assms(1) that by (auto simp: fresh_checks_def)
  then show ?thesis
    using assms unfolding fresh_checks_def by (fastforce intro: inj_on_subset)
qed

text \<open>The checks of a suffix of the list, in the loop that starts at index i.\<close>
lemma seed_loop_effect:
  assumes "acc_wf s" and "fresh_checks uuid i (length cs) s" and "map ck_idx cs = [i..<i + length cs]"
  shows "\<exists>rows. seed_loop now uuid iid i cs s = (Inr (), s\<lparr>t_checks := rows\<rparr>) \<and>
    acc_wf (s\<lparr>t_checks := rows\<rparr>) \<and>
    (\<forall>j k. find (check_key j k) rows = (if j = iid \<and> int i \<le> k \<and> k < int (i + length cs)
       then Some (seeded now (uuid (nat k)) iid (cs ! (nat k - i)) (check_at j k s)) else check_at j k s))"
  using assms
proof (induction cs arbitrary: i s)
  case Nil
  then show ?case by (intro exI [of _ "t_checks s"]) auto
next
  case (Cons c cs)
  have idx: "ck_idx c = i" and rest: "map ck_idx cs = [Suc i..<Suc i + length cs]"
    using Cons.prems(3) upt_conv_Cons [of i "i + length (c # cs)"] by simp_all
  have "''acc-'' @ uuid i \<notin> ar_id ` set (t_checks s)"
    using Cons.prems(2) by (simp add: fresh_checks_def)
  from seed_check_effect [OF Cons.prems(1) this, of now iid c] obtain s1 where
    run1: "seed_check now (uuid i) iid c s = (Inr (), s1)" and s1: "s1 = s\<lparr>t_checks := t_checks s1\<rparr>"
    and wf1: "acc_wf s1"
    and ids: "ar_id ` set (t_checks s1) \<subseteq> insert (''acc-'' @ uuid i) (ar_id ` set (t_checks s))"
    and look1: "\<And>j k. check_at j k s1 = (if j = iid \<and> k = int (ck_idx c)
       then Some (seeded now (uuid i) iid c (check_at j k s)) else check_at j k s)" by blast
  have "fresh_checks uuid (Suc i) (length cs) s1"
    by (rule fresh_checks_step) (use Cons.prems(2) ids in simp_all)
  from Cons.IH [OF wf1 this rest] obtain rows where
    run: "seed_loop now uuid iid (Suc i) cs s1 = (Inr (), s1\<lparr>t_checks := rows\<rparr>)"
    and wf: "acc_wf (s1\<lparr>t_checks := rows\<rparr>)"
    and look: "\<And>j k. find (check_key j k) rows = (if j = iid \<and> int (Suc i) \<le> k \<and> k < int (Suc i + length cs)
       then Some (seeded now (uuid (nat k)) iid (cs ! (nat k - Suc i)) (check_at j k s1)) else check_at j k s1)"
    by blast
  have s2: "s1\<lparr>t_checks := rows\<rparr> = s\<lparr>t_checks := rows\<rparr>" by (subst s1) simp
  have "find (check_key j k) rows = (if j = iid \<and> int i \<le> k \<and> k < int (i + length (c # cs))
       then Some (seeded now (uuid (nat k)) iid ((c # cs) ! (nat k - i)) (check_at j k s)) else check_at j k s)"
    for j k
  proof (cases "k = int i")
    case True
    then show ?thesis by (auto simp: look look1 idx)
  next
    case False
    then have "int i \<le> k \<Longrightarrow> nat k - i = Suc (nat k - Suc i)" by linarith
    with False show ?thesis by (auto simp: look look1 idx)
  qed
  then show ?case
    using run1 run wf by (intro exI [of _ rows]) (simp add: s2)
qed

lemma find_delete_where:
  "find p (delete_where q rows) = find (\<lambda>r. p r \<and> \<not> q r) rows"
  by (induction rows) (auto simp: delete_where_def)

lemma acc_wf_delete: "acc_wf s \<Longrightarrow> acc_wf (s\<lparr>t_checks := delete_where q (t_checks s)\<rparr>)"
  by (auto simp: acc_wf_def delete_where_def distinct_map inj_on_def)

lemma find_check_not: "(\<And>r. check_key i k r \<Longrightarrow> \<not> q r) \<Longrightarrow> find (\<lambda>r. check_key i k r \<and> \<not> q r) rows = find (check_key i k) rows"
  by (rule arg_cong [of _ _ "\<lambda>p. find p rows"]) auto

lemma seed_effect:
  assumes "acc_wf s" and "fresh_checks uuid 0 (length cs) s" and "checks_wf cs"
  shows "\<exists>rows. seed_acceptance_checks now uuid iid cs s = (Inr (), s\<lparr>t_checks := rows\<rparr>) \<and>
    acc_wf (s\<lparr>t_checks := rows\<rparr>) \<and>
    (\<forall>j k. find (check_key j k) rows = (if j \<noteq> iid then check_at j k s
       else if 0 \<le> k \<and> k < int (length cs)
       then Some (seeded now (uuid (nat k)) iid (cs ! nat k) (check_at j k s)) else None))"
proof -
  have "map ck_idx cs = [0..<0 + length cs]" using assms(3) by (simp add: checks_wf_def)
  from seed_loop_effect [OF assms(1,2) this, of now iid] obtain rows where
    run: "seed_loop now uuid iid 0 cs s = (Inr (), s\<lparr>t_checks := rows\<rparr>)"
    and wf: "acc_wf (s\<lparr>t_checks := rows\<rparr>)"
    and look: "\<And>j k. find (check_key j k) rows = (if j = iid \<and> 0 \<le> k \<and> k < int (length cs)
       then Some (seeded now (uuid (nat k)) iid (cs ! nat k) (check_at j k s)) else check_at j k s)" by auto
  let ?q = "\<lambda>r. ar_issue_id r = iid \<and> int (length cs) \<le> ar_check_idx r"
  let ?rows = "delete_where ?q rows"
  have "seed_acceptance_checks now uuid iid cs s = (Inr (), s\<lparr>t_checks := ?rows\<rparr>)"
    by (simp add: seed_acceptance_checks_def bind_def run)
  moreover have "acc_wf (s\<lparr>t_checks := ?rows\<rparr>)" using acc_wf_delete [OF wf, of ?q] by simp
  moreover have "find (check_key j k) ?rows = (if j \<noteq> iid then check_at j k s
       else if 0 \<le> k \<and> k < int (length cs)
       then Some (seeded now (uuid (nat k)) iid (cs ! nat k) (check_at j k s)) else None)" for j k
  proof -
    have neg: "find (check_key iid k) rows = None" if "k < 0"
      using wf that by (force simp: find_None_iff acc_wf_def check_key_def)
    show ?thesis
    proof (cases "j = iid \<and> int (length cs) \<le> k")
      case True
      then have "find (check_key j k) ?rows = None"
        by (auto simp: find_None_iff find_delete_where check_key_def)
      with True show ?thesis by auto
    next
      case False
      then have "find (check_key j k) ?rows = find (check_key j k) rows"
        unfolding find_delete_where by (intro find_check_not) (auto simp: check_key_def)
      with False neg look show ?thesis by auto
    qed
  qed
  ultimately show ?thesis by blast
qed

section \<open>Seeding again, recording, counting\<close>

definition matches :: "acceptance_check \<Rightarrow> acc_row \<Rightarrow> bool" where
  "matches c r \<longleftrightarrow> ar_kind r = acceptance_kind_as_str (ck_kind c) \<and> ar_command r = ck_command c"

lemma seeded_matches: "matches c (seeded now u iid c old)"
  by (auto simp: matches_def seeded_def new_check_def reset_check_def split: option.splits)

lemma seeded_keeps: "matches c r \<Longrightarrow> seeded now u iid c (Some r) = r"
  by (simp add: matches_def seeded_def)

lemma seed_loop_noop:
  "\<forall>c \<in> set cs. \<exists>r. check_at iid (int (ck_idx c)) s = Some r \<and> matches c r \<Longrightarrow>
   seed_loop now uuid iid i cs s = (Inr (), s)"
  by (induction cs arbitrary: i) (auto simp: bind_def seed_check_def matches_def)

lemma delete_where_none: "\<forall>r \<in> set rows. \<not> p r \<Longrightarrow> delete_where p rows = rows"
  by (simp add: delete_where_def)

lemma reseed_noop:
  assumes "checks_wf cs"
    and "\<And>k. check_at iid k s = (if 0 \<le> k \<and> k < int (length cs) then Some (row k) else None)"
    and "\<And>k. 0 \<le> k \<Longrightarrow> k < int (length cs) \<Longrightarrow> matches (cs ! nat k) (row k)"
  shows "seed_acceptance_checks now uuid iid cs s = (Inr (), s)"
proof -
  have idx: "ck_idx (cs ! n) = n" if "n < length cs" for n
    using assms(1) that by (metis checks_wf_def add_0 length_map nth_map nth_upt)
  have "\<exists>r. check_at iid (int (ck_idx c)) s = Some r \<and> matches c r" if c: "c \<in> set cs" for c
  proof -
    obtain n where "n < length cs" "cs ! n = c" using c by (auto simp: in_set_conv_nth)
    then show ?thesis using assms(2,3) [of "int n"] idx [of n] by auto
  qed
  then have loop: "seed_loop now uuid iid 0 cs s = (Inr (), s)" by (simp add: seed_loop_noop)
  have "\<not> int (length cs) \<le> ar_check_idx r" if "r \<in> set (t_checks s)" "ar_issue_id r = iid" for r
  proof -
    have "check_at iid (ar_check_idx r) s \<noteq> None"
      using that by (auto simp: find_None_iff check_key_def)
    then show ?thesis using assms(2) [of "ar_check_idx r"] by (auto split: if_splits)
  qed
  then have "delete_where (\<lambda>r. ar_issue_id r = iid \<and> int (length cs) \<le> ar_check_idx r) (t_checks s) = t_checks s"
    by (intro delete_where_none) auto
  then show ?thesis by (simp add: seed_acceptance_checks_def bind_def loop)
qed

lemma upsert_result_effect:
  "upsert_acceptance_result now iid k st out sid s =
    (Inr (check_at iid k s \<noteq> None), s\<lparr>t_checks := update_where (check_key iid k)
       (\<lambda>r. r\<lparr>ar_status := acceptance_status_as_str st, ar_output := out, ar_last_session_id := sid,
              ar_last_run_at := Some now, ar_updated_at := now\<rparr>) (t_checks s)\<rparr>)"
  by (auto simp: upsert_acceptance_result_def bind_def count_where_pos find_None_iff)

lemma find_map_option:
  "find p (map f rows) = map_option f (find (p \<circ> f) rows)"
  by (induction rows) auto

lemma rollup_counts_foldl:
  "ro_passed (foldl rollup_step ro cs) = ro_passed ro + count_where (\<lambda>c. ac_status c = Acc_Pass) cs \<and>
   ro_failed (foldl rollup_step ro cs) = ro_failed ro + count_where (\<lambda>c. ac_status c = Acc_Fail) cs \<and>
   ro_pending (foldl rollup_step ro cs) = ro_pending ro + count_where (\<lambda>c. ac_status c = Acc_Pending) cs \<and>
   ro_running (foldl rollup_step ro cs) = ro_running ro + count_where (\<lambda>c. ac_status c = Acc_Running) cs \<and>
   ro_total (foldl rollup_step ro cs) = ro_total ro"
  by (induction cs arbitrary: ro) (auto simp: rollup_step_def split: acceptance_status.splits)

lemma count_status_split:
  "length cs = count_where (\<lambda>c. ac_status c = Acc_Pass) cs + count_where (\<lambda>c. ac_status c = Acc_Fail) cs
     + count_where (\<lambda>c. ac_status c = Acc_Pending) cs + count_where (\<lambda>c. ac_status c = Acc_Running) cs"
  by (induction cs) (auto intro: acceptance_status.exhaust)

section \<open>Properties\<close>

text \<open>C7: seeding a checklist leaves exactly its checks as the issue's rows: a check whose kind and
command did not change keeps the row an agent may have filled in, a changed one is reset to pending, a new
one is added, a dropped one is deleted, and the rows of other issues stay.\<close>
theorem seed_preserves_results:
  assumes "acc_wf s" and "fresh_checks uuid 0 (length cs) s" and "checks_wf cs"
  shows "\<exists>rows. seed_acceptance_checks now uuid iid cs s = (Inr (), s\<lparr>t_checks := rows\<rparr>) \<and>
    (\<forall>j k. j \<noteq> iid \<longrightarrow> find (check_key j k) rows = find (check_key j k) (t_checks s)) \<and>
    (\<forall>k. find (check_key iid k) rows \<noteq> None \<longleftrightarrow> 0 \<le> k \<and> k < int (length cs)) \<and>
    (\<forall>n < length cs. \<exists>r. find (check_key iid (int n)) rows = Some r \<and>
       ar_kind r = acceptance_kind_as_str (ck_kind (cs ! n)) \<and> ar_command r = ck_command (cs ! n) \<and>
       (case find (check_key iid (int n)) (t_checks s) of
          Some old \<Rightarrow> if ar_kind old = ar_kind r \<and> ar_command old = ar_command r then r = old
                      else ar_id r = ar_id old \<and> ar_status r = ''pending'' \<and> ar_output r = None
        | None \<Rightarrow> ar_id r = ''acc-'' @ uuid n \<and> ar_status r = ''pending'' \<and> ar_output r = None))"
proof -
  from seed_effect [OF assms, of now iid] obtain rows where
    run: "seed_acceptance_checks now uuid iid cs s = (Inr (), s\<lparr>t_checks := rows\<rparr>)"
    and look: "\<And>j k. find (check_key j k) rows = (if j \<noteq> iid then check_at j k s
       else if 0 \<le> k \<and> k < int (length cs)
       then Some (seeded now (uuid (nat k)) iid (cs ! nat k) (check_at j k s)) else None)" by blast
  have "\<exists>r. find (check_key iid (int n)) rows = Some r \<and>
       ar_kind r = acceptance_kind_as_str (ck_kind (cs ! n)) \<and> ar_command r = ck_command (cs ! n) \<and>
       (case check_at iid (int n) s of
          Some old \<Rightarrow> if ar_kind old = ar_kind r \<and> ar_command old = ar_command r then r = old
                      else ar_id r = ar_id old \<and> ar_status r = ''pending'' \<and> ar_output r = None
        | None \<Rightarrow> ar_id r = ''acc-'' @ uuid n \<and> ar_status r = ''pending'' \<and> ar_output r = None)"
    if "n < length cs" for n
    using that by (auto simp: look seeded_def new_check_def reset_check_def split: option.splits)
  then show ?thesis using run look by (intro exI [of _ rows]) auto
qed

definition sample_checks :: "acceptance_check list" where
  "sample_checks = [\<lparr>ck_idx = 0, ck_kind = Acc_Shell, ck_command = ''make''\<rparr>,
                    \<lparr>ck_idx = 1, ck_kind = Acc_Test, ck_command = ''unit''\<rparr>]"

lemma sample_checks_ok: "checks_wf sample_checks" "length sample_checks = 2"
  by (simp_all add: checks_wf_def sample_checks_def numeral_2_eq_2)

lemma sample_acc_wf: "acc_wf (sample_store [])" "fresh_checks tick_uuid 0 n (sample_store [])"
  by (simp_all add: acc_wf_def sample_store_def open_with_device_def fresh_checks_def inj_on_def tick_uuid_def)

theorem seed_preserves_results_witness:
  "\<exists>rows. seed_acceptance_checks ''t1'' tick_uuid ''i1'' sample_checks (sample_store []) =
      (Inr (), (sample_store [])\<lparr>t_checks := rows\<rparr>) \<and>
    (\<exists>r. find (check_key ''i1'' 1) rows = Some r \<and> ar_command r = ''unit'' \<and> ar_status r = ''pending'')"
proof -
  have none: "find (check_key ''i1'' k) (t_checks (sample_store [])) = None" for k
    by (simp add: sample_store_def open_with_device_def)
  have "(1::int) = int 1" and "(1::nat) < length sample_checks" by (simp_all add: sample_checks_ok)
  with seed_preserves_results [OF sample_acc_wf(1) sample_acc_wf(2) sample_checks_ok(1), of "''t1''" "''i1''"]
  show ?thesis by (fastforce simp: none sample_checks_def)
qed

text \<open>seeding the same checklist again, whatever the clock and the fresh ids, writes nothing: agent
results survive re-promotion.\<close>
theorem reseed_idempotent:
  assumes "acc_wf s" and "fresh_checks uuid 0 (length cs) s" and "checks_wf cs"
    and "seed_acceptance_checks now uuid iid cs s = (Inr (), s')"
  shows "seed_acceptance_checks now' uuid' iid cs s' = (Inr (), s')"
proof -
  from seed_effect [OF assms(1-3), of now iid] assms(4) have
    look: "check_at iid k s' = (if 0 \<le> k \<and> k < int (length cs)
       then Some (seeded now (uuid (nat k)) iid (cs ! nat k) (check_at iid k s)) else None)" for k by auto
  show ?thesis by (rule reseed_noop [OF assms(3) look]) (rule seeded_matches)
qed

theorem reseed_idempotent_witness:
  "\<exists>s'. seed_acceptance_checks ''t1'' tick_uuid ''i1'' sample_checks (sample_store []) = (Inr (), s') \<and>
     seed_acceptance_checks ''t2'' tick_uuid ''i1'' sample_checks s' = (Inr (), s')"
proof -
  obtain s' where "seed_acceptance_checks ''t1'' tick_uuid ''i1'' sample_checks (sample_store []) = (Inr (), s')"
    using seed_effect [OF sample_acc_wf(1) sample_acc_wf(2) sample_checks_ok(1)] by blast
  from reseed_idempotent [OF sample_acc_wf(1) sample_acc_wf(2) sample_checks_ok(1) this] this
  show ?thesis by blast
qed

text \<open>the rollup of an issue counts each of its checks exactly once, under its own status.\<close>
theorem rollup_counts:
  "\<exists>ro. acceptance_rollup_of iid s = (Inr ro, s) \<and>
    ro_total ro = length (ro_checks ro) \<and>
    ro_total ro = ro_passed ro + ro_failed ro + ro_pending ro + ro_running ro \<and>
    ro_passed ro = count_where (\<lambda>c. ac_status c = Acc_Pass) (ro_checks ro) \<and>
    ro_failed ro = count_where (\<lambda>c. ac_status c = Acc_Fail) (ro_checks ro) \<and>
    ro_total ro = count_where (\<lambda>r. ar_issue_id r = iid) (t_checks s)"
proof -
  define cs where "cs = map row_to_acceptance_check
      (order_asc ar_check_idx (filter (\<lambda>r. ar_issue_id r = iid) (t_checks s)))"
  have "length (filter (\<lambda>r. ar_issue_id r = iid) (t_checks s)) = count_where (\<lambda>r. ar_issue_id r = iid) (t_checks s)"
    "length cs = count_where (\<lambda>r. ar_issue_id r = iid) (t_checks s)"
    by (simp_all add: cs_def count_where_def)
  then show ?thesis
    using rollup_counts_foldl count_status_split [of cs]
    by (simp add: acceptance_rollup_of_def list_acceptance_checks_def bind_def Let_def cs_def [symmetric])
qed

end
