(* ===== verification/Store_Tasks.thy ===== *)
theory Store_Tasks
  imports Store_Acceptance
begin

text \<open>
  Tasks and their claims (sqlite\_store.rs, update\_board\_issue\_status\_and\_promote to
  list\_dispatchable\_tasks): promoting an issue to a task, the compare-and-swap on the claim, and
  the dispatch queue of the worker.
\<close>

section \<open>Operations\<close>

text \<open>Collecting the rows of a query with the question mark: one bad row fails the call.\<close>
fun collect_rows :: "('r \<Rightarrow> 'a option) \<Rightarrow> 'r list \<Rightarrow> (gctl_error + 'a list)" where
  "collect_rows f [] = Inr []"
| "collect_rows f (r # rs) =
     (case f r of None \<Rightarrow> Inl (StorageSql [] BadColumn)
      | Some x \<Rightarrow> (case collect_rows f rs of Inl e \<Rightarrow> Inl e | Inr xs \<Rightarrow> Inr (x # xs)))"

text \<open>The loop of find\_nonterminal\_task\_for\_issue.\<close>
fun first_nonterminal :: "orch_task list \<Rightarrow> (gctl_error + orch_task option)" where
  "first_nonterminal [] = Inr None"
| "first_nonterminal (r # rs) =
     (case row_to_task r of None \<Rightarrow> Inl (StorageSql [] BadColumn)
      | Some task \<Rightarrow> if is_nonterminal_claim (tk_orchestrator_claim task) then Inr (Some task)
                     else first_nonterminal rs)"

definition issue_tasks :: "string \<Rightarrow> store \<Rightarrow> orch_task list" where
  "issue_tasks issue_id s =
     order_asc tk_attempt_ordinal (filter (\<lambda>t. tk_issue_id t = Some issue_id) (t_tasks s))"

definition find_nonterminal_task_for_issue :: "string \<Rightarrow> (store, orch_task option) db" where
  "find_nonterminal_task_for_issue issue_id = (\<lambda>s. (first_nonterminal (issue_tasks issue_id s), s))"

text \<open>board\_issues bi JOIN board\_projects bp ON bi.project\_id = bp.id WHERE bi.id = ?1.\<close>
definition issue_project_keys :: "string \<Rightarrow> store \<Rightarrow> string list" where
  "issue_project_keys issue_id s =
     [bp_key bp. bi \<leftarrow> filter (\<lambda>bi. ir_id bi = issue_id) (t_issues s),
                 bp \<leftarrow> filter (\<lambda>bp. bp_id bp = ir_project_id bi) (t_projects s)]"

text \<open>COALESCE(MAX(attempt\_ordinal), 0) + 1.\<close>
definition next_ordinal :: "string \<Rightarrow> store \<Rightarrow> int" where
  "next_ordinal issue_id s =
     (case map tk_attempt_ordinal (filter (\<lambda>t. tk_issue_id t = Some issue_id) (t_tasks s)) of
        [] \<Rightarrow> 0 | x # xs \<Rightarrow> foldl max x xs) + 1"

definition task_id_of :: "string \<Rightarrow> int \<Rightarrow> string" where
  "task_id_of issue_id n = issue_id @ ''.T'' @ show_int n"

definition task_conflict :: "orch_task \<Rightarrow> orch_task \<Rightarrow> bool" where
  "task_conflict a b \<longleftrightarrow> tk_id a = tk_id b \<or>
     (tk_issue_id a \<noteq> None \<and> tk_issue_id a = tk_issue_id b \<and> tk_attempt_ordinal a = tk_attempt_ordinal b)"

definition promote_issue_to_task_inner :: "timestamp \<Rightarrow> string \<Rightarrow> string \<Rightarrow> (store, orch_task) db" where
  "promote_issue_to_task_inner now issue_id agent_kind =
     bind (find_nonterminal_task_for_issue issue_id) (\<lambda>existing. case existing of
       Some task \<Rightarrow> ret task
     | None \<Rightarrow>
         bind (query_row (''issue not found: '' @ issue_id) (issue_project_keys issue_id)) (\<lambda>project_key.
         bind (sql_select (next_ordinal issue_id)) (\<lambda>n.
           if \<not> i32_ok n then throw (StorageSql [] BadColumn)
           else
             let task = \<lparr>tk_id = task_id_of issue_id n, tk_issue_id = Some issue_id,
                   tk_project_key = project_key, tk_attempt_ordinal = n, tk_agent_kind = agent_kind,
                   tk_orchestrator_claim = CLAIM_UNCLAIMED, tk_attempt = 0,
                   tk_created_at = now, tk_updated_at = now\<rparr>
             in bind (sql_insert t_tasks t_tasks_update task_conflict [] task) (\<lambda>_. ret task))))"

definition promote_issue_to_task :: "timestamp \<Rightarrow> string \<Rightarrow> string \<Rightarrow> (store, orch_task) db" where
  "promote_issue_to_task now issue_id agent_kind = promote_issue_to_task_inner now issue_id agent_kind"

text \<open>Each of the calls below takes and releases the connection's lock on its own.\<close>
definition update_board_issue_status_and_promote ::
  "(nat \<Rightarrow> timestamp) \<Rightarrow> (nat \<Rightarrow> string) \<Rightarrow> timestamp \<Rightarrow> (nat \<Rightarrow> string) \<Rightarrow> timestamp \<Rightarrow> string \<Rightarrow> string \<Rightarrow> string
   \<Rightarrow> actor \<Rightarrow> (store, orch_task option) db" where
  "update_board_issue_status_and_promote now uuid now_task uuid_checks now_checks iid status agent_kind act =
     bind (update_board_issue_status now uuid iid status act) (\<lambda>_.
       if status \<noteq> issue_status_as_str InProgress then ret None
       else
         bind (promote_issue_to_task_inner now_task iid agent_kind) (\<lambda>task.
         bind (get_board_issue iid) (\<lambda>issue.
           let checks = (case Option.bind issue bi_acceptance_criteria of
                 None \<Rightarrow> [] | Some text \<Rightarrow> parse_acceptance_criteria text)
           in bind (seed_acceptance_checks now_checks uuid_checks iid checks) (\<lambda>_. ret (Some task)))))"

definition list_tasks_for_issue :: "string \<Rightarrow> (store, orch_task list) db" where
  "list_tasks_for_issue issue_id = (\<lambda>s. (collect_rows row_to_task (issue_tasks issue_id s), s))"

definition update_task_claim :: "timestamp \<Rightarrow> string \<Rightarrow> string \<Rightarrow> (store, unit) db" where
  "update_task_claim now task_id claim =
     bind (sql_update t_tasks t_tasks_update (\<lambda>t. tk_id t = task_id)
            (\<lambda>t. t\<lparr>tk_orchestrator_claim := claim, tk_updated_at := now\<rparr>))
     (\<lambda>updated. if updated = 0 then throw (Storage (''task not found: '' @ task_id)) else ret ())"

definition try_transition_claim :: "timestamp \<Rightarrow> string \<Rightarrow> string \<Rightarrow> string \<Rightarrow> (store, bool) db" where
  "try_transition_claim now task_id from to =
     bind (sql_update t_tasks t_tasks_update (\<lambda>t. tk_id t = task_id \<and> tk_orchestrator_claim t = from)
            (\<lambda>t. t\<lparr>tk_orchestrator_claim := to, tk_updated_at := now\<rparr>))
     (\<lambda>updated. ret (updated = 1))"

text \<open>tasks t INNER JOIN board\_issues i ON i.id = t.issue\_id with the WHERE of the dispatch queue.\<close>
definition dispatchable :: "store \<Rightarrow> orch_task list" where
  "dispatchable s =
     [t. t \<leftarrow> t_tasks s, i \<leftarrow> t_issues s,
         Some (ir_id i) = tk_issue_id t \<and> tk_orchestrator_claim t = ''Unclaimed'' \<and>
         ir_status i = ''in_progress'' \<and> ir_assignee_type i = Some ''agent'']"

definition list_dispatchable_tasks :: "nat \<Rightarrow> (store, orch_task list) db" where
  "list_dispatchable_tasks mx =
     (\<lambda>s. (collect_rows row_to_task (take mx (order_asc tk_created_at (dispatchable s))), s))"

section \<open>Task ids\<close>

lemma show_int_no_T: "CHR ''T'' \<notin> set (show_int n)"
  by (simp add: show_int_def not_in_show_nat)

lemma show_nat_no_minus: "CHR ''-'' \<notin> set (show_nat n)"
  by (simp add: not_in_show_nat)

lemma show_int_inj: "show_int m = show_int n \<longleftrightarrow> m = n"
proof
  assume eq: "show_int m = show_int n"
  have "hd (show_int k) = CHR ''-'' \<longleftrightarrow> k < 0" for k
  proof (cases "k < 0")
    case False
    then have "show_nat (nat k) \<noteq> []" by (subst show_nat.simps) simp
    then have "hd (show_nat (nat k)) \<in> set (show_nat (nat k))" by simp
    then have "hd (show_nat (nat k)) \<noteq> CHR ''-''" using show_nat_no_minus by metis
    with False show ?thesis by (simp add: show_int_def)
  qed (simp add: show_int_def)
  then have "m < 0 \<longleftrightarrow> n < 0" using eq by metis
  then show "m = n" using eq by (auto simp: show_int_def split: if_splits)
qed simp

text \<open>The id of a task determines its issue and its attempt.\<close>
lemma split_at_last_T:
  "a @ CHR ''T'' # x = b @ CHR ''T'' # y \<Longrightarrow> CHR ''T'' \<notin> set x \<Longrightarrow> CHR ''T'' \<notin> set y \<Longrightarrow> a = b \<and> x = y"
proof -
  assume eq: "a @ CHR ''T'' # x = b @ CHR ''T'' # y" and x: "CHR ''T'' \<notin> set x" and y: "CHR ''T'' \<notin> set y"
  have "rev x @ CHR ''T'' # rev a = rev y @ CHR ''T'' # rev b"
    using arg_cong [OF eq, of rev] by simp
  then have "split_once CHR ''T'' (rev x @ CHR ''T'' # rev a) = Some (rev x, rev a) \<and>
     split_once CHR ''T'' (rev x @ CHR ''T'' # rev a) = Some (rev y, rev b)"
    using x y by (simp add: split_once_eq)
  then show ?thesis by (metis Pair_inject option.inject rev_is_rev_conv)
qed

lemma task_id_inj: "task_id_of i m = task_id_of j n \<longleftrightarrow> i = j \<and> m = n"
  using split_at_last_T [of "i @ ''.''" "show_int m" "j @ ''.''" "show_int n"] show_int_no_T
  by (auto simp: task_id_of_def show_int_inj)

section \<open>Interface: a store of claims\<close>

text \<open>
  What the worker relies on: a compare-and-swap on a claim succeeds exactly when the claim is the
  expected one, and then changes that claim alone.
\<close>

locale claim_store =
  fixes cas :: "timestamp \<Rightarrow> string \<Rightarrow> string \<Rightarrow> string \<Rightarrow> 's \<Rightarrow> (gctl_error + bool) \<times> 's"
    and claim :: "'s \<Rightarrow> string \<Rightarrow> string option"
    and ok :: "'s \<Rightarrow> bool"
  assumes cas_result: "ok s \<Longrightarrow> fst (cas now t f g s) = Inr (claim s t = Some f)"
    and cas_claim: "ok s \<Longrightarrow>
      claim (snd (cas now t f g s)) u = (if u = t \<and> claim s t = Some f then Some g else claim s u)"
    and cas_ok: "ok s \<Longrightarrow> ok (snd (cas now t f g s))"
begin

lemma cas_apply:
  "ok s \<Longrightarrow> \<exists>s'. cas now t f g s = (Inr (claim s t = Some f), s') \<and> ok s' \<and>
     (\<forall>u. claim s' u = (if u = t \<and> claim s t = Some f then Some g else claim s u))"
  by (metis cas_claim cas_ok cas_result prod.collapse)

lemma loser_sees_false:
  "ok s \<Longrightarrow> f \<noteq> g \<Longrightarrow> fst (cas now t f g s) = Inr True \<Longrightarrow>
   fst (cas now' t f g' (snd (cas now t f g s))) = Inr False"
  by (simp add: cas_result cas_ok cas_claim)

text \<open>The answers of contenders that try the same move one after the other, in any number.\<close>
fun contend :: "(nat \<Rightarrow> timestamp) \<Rightarrow> string \<Rightarrow> string \<Rightarrow> string \<Rightarrow> nat \<Rightarrow> 's \<Rightarrow> (gctl_error + bool) list" where
  "contend now t f g 0 s = []"
| "contend now t f g (Suc n) s =
     (let (r, s') = cas (now n) t f g s in r # contend now t f g n s')"

lemma contend_lost: "ok s \<Longrightarrow> claim s t \<noteq> Some f \<Longrightarrow> contend now t f g n s = replicate n (Inr False)"
proof (induction n arbitrary: s)
  case (Suc n)
  obtain r s' where run: "cas (now n) t f g s = (r, s')" by fastforce
  with cas_apply [OF Suc.prems(1), of "now n" t f g] Suc.prems(2) have
    "r = Inr False" "ok s'" "claim s' t \<noteq> Some f" by auto
  then show ?case using Suc.IH run by simp
qed simp

lemma one_winner:
  assumes "ok s" and "f \<noteq> g" and "claim s t = Some f"
  shows "contend now t f g (Suc n) s = Inr True # replicate n (Inr False)"
proof -
  obtain r s' where run: "cas (now n) t f g s = (r, s')" by fastforce
  with cas_apply [OF assms(1), of "now n" t f g] assms have
    "r = Inr True" "ok s'" "claim s' t \<noteq> Some f" by auto
  then show ?thesis using contend_lost run by simp
qed

end

section \<open>The tasks table\<close>

abbreviation rows_of :: "string \<Rightarrow> store \<Rightarrow> orch_task list" where
  "rows_of issue_id s \<equiv> filter (\<lambda>t. tk_issue_id t = Some issue_id) (t_tasks s)"

definition claim_states :: "string set" where
  "claim_states = {CLAIM_UNCLAIMED, CLAIM_CLAIMED, CLAIM_RUNNING, CLAIM_RETRY_QUEUED, CLAIM_RELEASED}"

text \<open>Each row is an attempt of its issue, and an issue's attempts are numbered 1, 2, ... in order.\<close>
definition task_wf :: "store \<Rightarrow> bool" where
  "task_wf s \<longleftrightarrow>
     (\<forall>t \<in> set (t_tasks s). (\<exists>i. tk_issue_id t = Some i \<and> tk_id t = task_id_of i (tk_attempt_ordinal t)) \<and>
        i32_ok (tk_attempt_ordinal t) \<and> i32_ok (tk_attempt t) \<and> tk_orchestrator_claim t \<in> claim_states) \<and>
     (\<forall>i. map tk_attempt_ordinal (rows_of i s) = map int [1..<Suc (length (rows_of i s))])"

text \<open>At most one attempt of an issue is live.\<close>
definition one_live :: "store \<Rightarrow> bool" where
  "one_live s \<longleftrightarrow> (\<forall>i. count_where (\<lambda>t. is_nonterminal_claim (tk_orchestrator_claim t)) (rows_of i s) \<le> 1)"

definition claim_of :: "store \<Rightarrow> string \<Rightarrow> string option" where
  "claim_of s tid = map_option tk_orchestrator_claim (find (\<lambda>t. tk_id t = tid) (t_tasks s))"

definition task_keys :: "store \<Rightarrow> bool" where
  "task_keys s \<longleftrightarrow> distinct (map tk_id (t_tasks s))"

lemma distinct_by_class:
  "(\<And>x y. x \<in> set rows \<Longrightarrow> y \<in> set rows \<Longrightarrow> k x = k y \<Longrightarrow> c x = c y) \<Longrightarrow>
   (\<And>a. distinct (map k (filter (\<lambda>x. c x = a) rows))) \<Longrightarrow> distinct (map k rows)"
proof (induction rows)
  case (Cons r rows)
  have "k r \<notin> k ` set rows"
  proof
    assume "k r \<in> k ` set rows"
    then obtain y where y: "y \<in> set rows" "k y = k r" by auto
    with Cons.prems(1) [of y r] have "c y = c r" by simp
    with Cons.prems(2) [of "c r"] y show False by (auto simp: image_iff)
  qed
  moreover have "distinct (map k (filter (\<lambda>x. c x = a) rows))" for a
    using Cons.prems(2) [of a] by (auto split: if_splits)
  ultimately show ?case using Cons by auto
qed simp

lemma task_wf_keys: "task_wf s \<Longrightarrow> task_keys s"
  unfolding task_keys_def
proof (rule distinct_by_class [where c = tk_issue_id])
  assume wf: "task_wf s"
  show "tk_issue_id x = tk_issue_id y" if "x \<in> set (t_tasks s)" "y \<in> set (t_tasks s)" "tk_id x = tk_id y" for x y
    using wf that unfolding task_wf_def by (metis task_id_inj)
  fix a
  show "distinct (map tk_id (filter (\<lambda>x. tk_issue_id x = a) (t_tasks s)))"
  proof (cases a)
    case None
    then have "filter (\<lambda>x. tk_issue_id x = a) (t_tasks s) = []"
      using wf by (auto simp: task_wf_def filter_empty_conv)
    then show ?thesis by simp
  next
    case (Some i)
    have "map tk_id (rows_of i s) = map (task_id_of i \<circ> tk_attempt_ordinal) (rows_of i s)"
      by (rule map_cong) (use wf in \<open>auto simp: task_wf_def\<close>)
    also have "\<dots> = map (task_id_of i) (map int [1..<Suc (length (rows_of i s))])"
      using wf unfolding task_wf_def by (metis map_map)
    finally show ?thesis using Some by (simp add: distinct_map inj_on_def task_id_inj del: upt_Suc)
  qed
qed

lemma cas_rows:
  assumes "task_keys s"
  shows "try_transition_claim now t f g s = (Inr (claim_of s t = Some f),
    s\<lparr>t_tasks := update_where (\<lambda>r. tk_id r = t \<and> tk_orchestrator_claim r = f)
       (\<lambda>r. r\<lparr>tk_orchestrator_claim := g, tk_updated_at := now\<rparr>) (t_tasks s)\<rparr>)"
  using assms count_key_eq_1 [of tk_id "t_tasks s" t "\<lambda>r. tk_orchestrator_claim r = f"]
  by (auto simp: try_transition_claim_def bind_def task_keys_def claim_of_def)

lemma find_update_claim:
  "find (\<lambda>r. tk_id r = u) (update_where (\<lambda>r. tk_id r = t \<and> tk_orchestrator_claim r = f)
       (\<lambda>r. r\<lparr>tk_orchestrator_claim := g, tk_updated_at := now\<rparr>) rows) =
   (case find (\<lambda>r. tk_id r = u) rows of None \<Rightarrow> None
    | Some r \<Rightarrow> Some (if tk_id r = t \<and> tk_orchestrator_claim r = f
                 then r\<lparr>tk_orchestrator_claim := g, tk_updated_at := now\<rparr> else r))"
  by (rule find_update_where) simp

interpretation tasks: claim_store try_transition_claim claim_of task_keys
proof (unfold_locales, goal_cases)
  case (1 s now t f g)
  then show ?case by (simp add: cas_rows)
next
  case (2 s now t f g u)
  show ?case
  proof (cases "find (\<lambda>r. tk_id r = u) (t_tasks s)")
    case None
    with 2 show ?thesis by (auto simp: cas_rows claim_of_def find_update_claim)
  next
    case (Some r)
    then have "tk_id r = u" by (auto dest: find_SomeD)
    with 2 Some show ?thesis by (auto simp: cas_rows claim_of_def find_update_claim)
  qed
next
  case (3 s now t f g)
  then show ?case by (simp add: cas_rows) (simp add: task_keys_def map_update_where)
qed

section \<open>Promotion\<close>

lemma order_asc_id: "sorted (map k rows) \<Longrightarrow> order_asc k rows = rows"
  by (simp add: order_asc_def sort_key_id_if_sorted)

lemma issue_tasks_wf: "task_wf s \<Longrightarrow> issue_tasks i s = rows_of i s"
proof -
  assume "task_wf s"
  then have "map tk_attempt_ordinal (rows_of i s) = map int [1..<Suc (length (rows_of i s))]"
    by (simp add: task_wf_def)
  then have "sorted (map tk_attempt_ordinal (rows_of i s))"
    by (simp add: sorted_map sorted_wrt_map del: upt_Suc)
  then show ?thesis by (simp add: issue_tasks_def order_asc_id)
qed

lemma row_to_task_wf: "task_wf s \<Longrightarrow> t \<in> set (t_tasks s) \<Longrightarrow> row_to_task t = Some t"
  by (simp add: task_wf_def row_to_task_def)

lemma first_nonterminal_find:
  "\<forall>t \<in> set rows. row_to_task t = Some t \<Longrightarrow>
   first_nonterminal rows = Inr (find (\<lambda>t. is_nonterminal_claim (tk_orchestrator_claim t)) rows)"
  by (induction rows) auto

definition live_task :: "string \<Rightarrow> store \<Rightarrow> orch_task option" where
  "live_task i s = find (\<lambda>t. is_nonterminal_claim (tk_orchestrator_claim t)) (rows_of i s)"

lemma find_nonterminal_wf:
  "task_wf s \<Longrightarrow> find_nonterminal_task_for_issue i s = (Inr (live_task i s), s)"
  by (auto simp: find_nonterminal_task_for_issue_def issue_tasks_wf live_task_def
      intro!: first_nonterminal_find row_to_task_wf)

lemma foldl_max: "foldl max x xs = Max (set (x # xs))" for x :: int
  by (metis Max.set_eq_fold foldl_conv_fold max.commute ext fold_cong)

lemma next_ordinal_wf: "task_wf s \<Longrightarrow> next_ordinal i s = int (length (rows_of i s)) + 1"
proof -
  assume wf: "task_wf s"
  let ?n = "length (rows_of i s)"
  have m: "map tk_attempt_ordinal (rows_of i s) = map int [1..<Suc ?n]"
    using wf by (simp add: task_wf_def)
  show ?thesis
  proof (cases "map tk_attempt_ordinal (rows_of i s)")
    case Nil
    then show ?thesis by (simp add: next_ordinal_def)
  next
    case (Cons x xs)
    then have pos: "0 < ?n" by (cases "rows_of i s") auto
    have "set (x # xs) = int ` {1..<Suc ?n}"
      using m unfolding Cons by (metis list.set_map set_upt)
    also have "\<dots> = {1..int ?n}" by (auto simp: image_int_atLeastLessThan)
    finally have "set (x # xs) = {1..int ?n}" .
    moreover have "Max {1..int ?n} = int ?n" using pos by (intro Max_eqI) (auto simp: Suc_le_eq)
    ultimately have "foldl max x xs = int ?n" by (simp only: foldl_max)
    then show ?thesis using Cons by (simp add: next_ordinal_def)
  qed
qed

definition new_task :: "timestamp \<Rightarrow> string \<Rightarrow> string \<Rightarrow> string \<Rightarrow> int \<Rightarrow> orch_task" where
  "new_task now issue_id key kind n =
     \<lparr>tk_id = task_id_of issue_id n, tk_issue_id = Some issue_id, tk_project_key = key,
      tk_attempt_ordinal = n, tk_agent_kind = kind, tk_orchestrator_claim = CLAIM_UNCLAIMED,
      tk_attempt = 0, tk_created_at = now, tk_updated_at = now\<rparr>"

lemma no_task_conflict:
  assumes "task_wf s" and "n = int (length (rows_of i s)) + 1"
  shows "\<not> list_ex (task_conflict (new_task now i key kind n)) (t_tasks s)"
proof
  assume "list_ex (task_conflict (new_task now i key kind n)) (t_tasks s)"
  then obtain t where t: "t \<in> set (t_tasks s)" and "task_conflict (new_task now i key kind n) t"
    by (auto simp: list_ex_iff)
  then have "tk_issue_id t = Some i" "tk_attempt_ordinal t = n"
    using assms(1) t unfolding task_wf_def task_conflict_def new_task_def
    by (auto simp: task_id_inj)
  with t have "n \<in> set (map tk_attempt_ordinal (rows_of i s))" by auto
  also have "\<dots> = int ` {1..<Suc (length (rows_of i s))}"
    using assms(1) unfolding task_wf_def by (metis list.set_map set_upt)
  finally show False using assms(2) by auto
qed

lemma promote_wf:
  assumes "task_wf s"
  shows "promote_issue_to_task now i kind s =
    (let n = int (length (rows_of i s)) + 1 in
     case live_task i s of
       Some t \<Rightarrow> (Inr t, s)
     | None \<Rightarrow> (case issue_project_keys i s of
          [] \<Rightarrow> (Inl (StorageSql (''issue not found: '' @ i) NoRows), s)
        | key # _ \<Rightarrow> if \<not> i32_ok n then (Inl (StorageSql [] BadColumn), s)
            else (Inr (new_task now i key kind n), s\<lparr>t_tasks := t_tasks s @ [new_task now i key kind n]\<rparr>)))"
proof -
  have "sql_insert t_tasks t_tasks_update task_conflict [] (new_task now i key kind (int (length (rows_of i s)) + 1)) s =
      (Inr (), s\<lparr>t_tasks := t_tasks s @ [new_task now i key kind (int (length (rows_of i s)) + 1)]\<rparr>)" for key
    using no_task_conflict [OF assms refl] by (rule sql_insert_ok)
  then show ?thesis
    by (auto simp: promote_issue_to_task_def promote_issue_to_task_inner_def bind_def query_row_def
        find_nonterminal_wf [OF assms] next_ordinal_wf [OF assms] Let_def new_task_def
        split: option.splits list.splits)
qed

lemma task_wf_promote: "task_wf s \<Longrightarrow> promote_issue_to_task now i kind s = (res, s') \<Longrightarrow> task_wf s'"
proof -
  assume wf: "task_wf s" and run: "promote_issue_to_task now i kind s = (res, s')"
  let ?n = "int (length (rows_of i s)) + 1"
  show ?thesis
  proof (cases "s' = s")
    case False
    then obtain key where s': "s' = s\<lparr>t_tasks := t_tasks s @ [new_task now i key kind ?n]\<rparr>" and n: "i32_ok ?n"
      using run unfolding promote_wf [OF wf]
      by (auto simp: Let_def split: option.splits list.splits if_splits)
    have "map tk_attempt_ordinal (rows_of j s') = map int [1..<Suc (length (rows_of j s'))]" for j
      using wf by (auto simp: task_wf_def s' new_task_def)
    moreover have "\<forall>t \<in> set (t_tasks s'). (\<exists>i. tk_issue_id t = Some i \<and> tk_id t = task_id_of i (tk_attempt_ordinal t)) \<and>
        i32_ok (tk_attempt_ordinal t) \<and> i32_ok (tk_attempt t) \<and> tk_orchestrator_claim t \<in> claim_states"
      using wf n by (auto simp: task_wf_def s' new_task_def claim_states_def i32_ok_def)
    ultimately show ?thesis by (simp add: task_wf_def)
  qed (use wf in simp)
qed

lemma live_task_None: "live_task i s = None \<longleftrightarrow> count_where (\<lambda>t. is_nonterminal_claim (tk_orchestrator_claim t)) (rows_of i s) = 0"
  by (auto simp: live_task_def find_None_iff count_where_0)

lemma one_live_promote:
  "task_wf s \<Longrightarrow> one_live s \<Longrightarrow> promote_issue_to_task now i kind s = (res, s') \<Longrightarrow> one_live s'"
  by (auto simp: promote_wf Let_def one_live_def new_task_def live_task_None
      split: option.splits list.splits if_splits)

lemma promote_result_live:
  "task_wf s \<Longrightarrow> promote_issue_to_task now i kind s = (Inr t, s') \<Longrightarrow> live_task i s' = Some t"
  by (auto simp: promote_wf Let_def live_task_def find_append new_task_def is_nonterminal_claim_def
      split: option.splits list.splits if_splits)

section \<open>The dispatch queue\<close>

lemma collect_rows_all:
  "\<forall>r \<in> set rows. f r = Some (g r) \<Longrightarrow> collect_rows f rows = Inr (map g rows)"
  by (induction rows) auto

lemma set_dispatchable:
  "t \<in> set (dispatchable s) \<longleftrightarrow> t \<in> set (t_tasks s) \<and> tk_orchestrator_claim t = ''Unclaimed'' \<and>
     (\<exists>i \<in> set (t_issues s). Some (ir_id i) = tk_issue_id t \<and> ir_status i = ''in_progress'' \<and>
        ir_assignee_type i = Some ''agent'')"
  by (auto simp: dispatchable_def)

lemma dispatch_apply:
  "task_wf s \<Longrightarrow> list_dispatchable_tasks mx s = (Inr (take mx (order_asc tk_created_at (dispatchable s))), s)"
  unfolding list_dispatchable_tasks_def
  by (subst collect_rows_all [where g = "\<lambda>t. t"])
    (auto simp: set_dispatchable row_to_task_wf dest!: in_set_takeD)

section \<open>Steps of the tasks table\<close>

text \<open>A call that can reach the tasks table: promotion, a status change with promotion, a move of a live
claim to one of the five states, or any board call.\<close>
inductive task_step :: "store \<Rightarrow> store \<Rightarrow> bool" where
  promote: "promote_issue_to_task now i kind s = (r, s') \<Longrightarrow> task_step s s'"
| move: "update_board_issue_status_and_promote nows uuid now uuids now' iid status kind act s = (r, s')
    \<Longrightarrow> task_step s s'"
| claim: "try_transition_claim now tid from to s = (r, s') \<Longrightarrow> is_nonterminal_claim from \<Longrightarrow> to \<in> claim_states
    \<Longrightarrow> task_step s s'"
| board: "board_step s s' \<Longrightarrow> task_step s s'"

lemma task_invs_tasks:
  "t_tasks s' = t_tasks s \<Longrightarrow> task_wf s' = task_wf s"
  "t_tasks s' = t_tasks s \<Longrightarrow> one_live s' = one_live s"
  by (simp_all add: task_wf_def one_live_def)

lemma seed_loop_frame:
  "(\<And>g s. f (t_checks_update g s) = f s) \<Longrightarrow> frame f (seed_loop now uuid iid i cs)"
proof (induction cs arbitrary: i)
  case (Cons c cs)
  have "frame f (seed_check now (uuid i) iid c)"
    using Cons.prems by (auto simp: frame_def seed_check_def stmt_defs split: option.splits)
  then show ?case using Cons by (auto intro: frame_bind)
qed (simp add: frame_ret)

lemma seed_frame:
  "(\<And>g s. f (t_checks_update g s) = f s) \<Longrightarrow> frame f (seed_acceptance_checks now uuid iid cs)"
  unfolding seed_acceptance_checks_def by (intro frame_intros seed_loop_frame)

lemma get_issue_frame: "frame f (get_board_issue iid)"
  unfolding get_board_issue_def by (intro frame_intros)

text \<open>The tasks table after a status change with promotion is the one after the promotion, if it ran.\<close>
lemma move_tasks:
  assumes "update_board_issue_status_and_promote nows uuid now uuids now' iid status kind act s = (r, s')"
  shows "t_tasks s' = t_tasks s \<or>
    (\<exists>s1 t s2. t_tasks s1 = t_tasks s \<and> promote_issue_to_task now iid kind s1 = (t, s2) \<and> t_tasks s' = t_tasks s2)"
proof -
  obtain r1 s1 where mv: "update_board_issue_status nows uuid iid status act s = (r1, s1)" by fastforce
  have t1: "t_tasks s1 = t_tasks s" by (rule frameD [OF status_change_frame mv]) simp_all
  show ?thesis
  proof (cases "r1 = Inr () \<and> status = issue_status_as_str InProgress")
    case False
    then have "s' = s1"
      using assms mv by (cases r1) (auto simp: update_board_issue_status_and_promote_def bind_def split: if_splits)
    with t1 show ?thesis by simp
  next
    case True
    obtain r2 s2 where pr: "promote_issue_to_task now iid kind s1 = (r2, s2)" by fastforce
    have "t_tasks s' = t_tasks s2"
    proof (cases r2)
      case (Inl e)
      then show ?thesis
        using assms mv pr True
        by (simp add: update_board_issue_status_and_promote_def promote_issue_to_task_def)
    next
      case (Inr t)
      have "frame t_tasks (bind (get_board_issue iid) (\<lambda>issue.
           let checks = (case Option.bind issue bi_acceptance_criteria of
                 None \<Rightarrow> [] | Some text \<Rightarrow> parse_acceptance_criteria text)
           in bind (seed_acceptance_checks now' uuids iid checks) (\<lambda>_. ret (Some t))))"
        unfolding Let_def by (intro frame_bind get_issue_frame seed_frame frame_ret) simp
      moreover have "bind (get_board_issue iid) (\<lambda>issue.
           let checks = (case Option.bind issue bi_acceptance_criteria of
                 None \<Rightarrow> [] | Some text \<Rightarrow> parse_acceptance_criteria text)
           in bind (seed_acceptance_checks now' uuids iid checks) (\<lambda>_. ret (Some t))) s2 = (r, s')"
        using assms mv pr True Inr
        by (simp add: update_board_issue_status_and_promote_def promote_issue_to_task_def)
      ultimately show ?thesis by (rule frameD)
    qed
    with pr t1 show ?thesis by blast
  qed
qed

lemma rows_of_update_claim:
  "rows_of i (s\<lparr>t_tasks := update_where (\<lambda>r. tk_id r = t \<and> tk_orchestrator_claim r = f)
       (\<lambda>r. r\<lparr>tk_orchestrator_claim := g, tk_updated_at := now\<rparr>) (t_tasks s)\<rparr>) =
   update_where (\<lambda>r. tk_id r = t \<and> tk_orchestrator_claim r = f)
       (\<lambda>r. r\<lparr>tk_orchestrator_claim := g, tk_updated_at := now\<rparr>) (rows_of i s)"
proof -
  have "filter q (update_where p h rows) = update_where p h (filter q rows)"
    if "\<And>r. q (h r) = q r" for q p h and rows :: "orch_task list"
    using that by (induction rows) auto
  then show ?thesis by simp
qed

lemma task_wf_claim:
  assumes "task_wf s" and "g \<in> claim_states" and "try_transition_claim now t f g s = (r, s')"
  shows "task_wf s'"
proof -
  have s': "s' = s\<lparr>t_tasks := update_where (\<lambda>r. tk_id r = t \<and> tk_orchestrator_claim r = f)
       (\<lambda>r. r\<lparr>tk_orchestrator_claim := g, tk_updated_at := now\<rparr>) (t_tasks s)\<rparr>"
    using assms(3) by (simp add: cas_rows [OF task_wf_keys [OF assms(1)]])
  have "map tk_attempt_ordinal (rows_of i s') = map int [1..<Suc (length (rows_of i s'))]" for i
    using assms(1) by (simp only: s' rows_of_update_claim length_update_where)
      (simp add: map_update_where task_wf_def)
  then show ?thesis
    using assms(1,2) by (auto simp: task_wf_def s' set_update_where)
qed

lemma count_update_le:
  "(\<And>r. p r \<Longrightarrow> q (f r) \<Longrightarrow> q r) \<Longrightarrow> count_where q (update_where p f rows) \<le> count_where q rows"
  by (induction rows) (auto simp: le_SucI)

lemma one_live_claim:
  assumes "task_wf s" and "one_live s" and "is_nonterminal_claim f" and "try_transition_claim now t f g s = (r, s')"
  shows "one_live s'"
  unfolding one_live_def
proof
  fix i
  have s': "s' = s\<lparr>t_tasks := update_where (\<lambda>r. tk_id r = t \<and> tk_orchestrator_claim r = f)
       (\<lambda>r. r\<lparr>tk_orchestrator_claim := g, tk_updated_at := now\<rparr>) (t_tasks s)\<rparr>"
    using assms(4) by (simp add: cas_rows [OF task_wf_keys [OF assms(1)]])
  have "count_where (\<lambda>t. is_nonterminal_claim (tk_orchestrator_claim t)) (rows_of i s') \<le>
     count_where (\<lambda>t. is_nonterminal_claim (tk_orchestrator_claim t)) (rows_of i s)"
    unfolding s' rows_of_update_claim by (rule count_update_le) (use assms(3) in auto)
  also have "\<dots> \<le> 1" using assms(2) by (simp add: one_live_def)
  finally show "count_where (\<lambda>t. is_nonterminal_claim (tk_orchestrator_claim t)) (rows_of i s') \<le> 1" .
qed

lemma task_step_inv: "task_step s s' \<Longrightarrow> task_wf s \<and> one_live s \<Longrightarrow> task_wf s' \<and> one_live s'"
proof (induction rule: task_step.induct)
  case (promote now i kind s r s')
  then show ?case using task_wf_promote one_live_promote by blast
next
  case (move nows uuid now uuids now' iid status kind act s r s')
  from move_tasks [OF this(1)] this(2) show ?case
    using task_invs_tasks task_wf_promote one_live_promote by metis
next
  case (claim now tid f g s r s')
  then show ?case using task_wf_claim one_live_claim by blast
next
  case (board s s')
  have "t_tasks s' = t_tasks s" by (rule board_step_frame [OF board(1)]) simp_all
  with board(2) show ?case using task_invs_tasks by metis
qed

lemma task_inv_open: "task_wf (open_with_device fk d)" "one_live (open_with_device fk d)"
  by (simp_all add: task_wf_def one_live_def open_with_device_def)

section \<open>Contenders for one claim\<close>

text \<open>The answers of n workers that try the same move one after the other.\<close>
fun race :: "(nat \<Rightarrow> timestamp) \<Rightarrow> string \<Rightarrow> string \<Rightarrow> string \<Rightarrow> nat \<Rightarrow> store \<Rightarrow> (gctl_error + bool) list" where
  "race now t from to 0 s = []"
| "race now t from to (Suc n) s =
     (let (r, s') = try_transition_claim (now n) t from to s in r # race now t from to n s')"

lemma race_contend: "race now t f g n s = tasks.contend now t f g n s"
  by (induction n arbitrary: s) (simp_all add: Let_def split: prod.splits)

section \<open>A sample board\<close>

definition sample_project :: board_project where
  "sample_project = \<lparr>bp_id = ''p1'', bp_name = ''p'', bp_key = ''P'', bp_counter = 0, bp_github_repo = None\<rparr>"

definition sample_board :: "board_issue list \<Rightarrow> store" where
  "sample_board issues = (sample_store issues)\<lparr>t_projects := [project_to_row ''dev'' ''t0'' sample_project]\<rparr>"

lemma sample_board_simps [simp]:
  "t_issues (sample_board is) = map (issue_to_row ''dev'') is" "t_tasks (sample_board is) = []"
  "t_projects (sample_board is) = [project_to_row ''dev'' ''t0'' sample_project]"
  by (simp_all add: sample_board_def sample_store_def open_with_device_def)

lemma sample_project_row [simp]:
  "bp_id (project_to_row d n sample_project) = ''p1''" "bp_key (project_to_row d n sample_project) = ''P''"
  by (simp_all add: project_to_row_def sample_project_def board_project.defs)

lemma sample_issue_project [simp]: "ir_project_id (issue_to_row d (sample_issue iid st now)) = ''p1''"
  by (simp add: issue_to_row_def sample_issue_def)

lemma sample_task_wf: "task_wf (sample_board is)" "live_task i (sample_board is) = None"
  by (simp_all add: task_wf_def live_task_def)

lemma sample_promote:
  "promote_issue_to_task now ''i1'' kind (sample_board [sample_issue ''i1'' st n]) =
     (Inr (new_task now ''i1'' ''P'' kind 1), (sample_board [sample_issue ''i1'' st n])
        \<lparr>t_tasks := [new_task now ''i1'' ''P'' kind 1]\<rparr>)"
  by (simp add: promote_wf sample_task_wf issue_project_keys_def i32_ok_def)

section \<open>Properties\<close>

text \<open>C4: whatever promotions, status changes, claim moves and board calls run on a fresh database, task
ids are unique, the attempts of an issue are numbered 1, 2, 3, ... without gaps, and at most one attempt of
an issue is live.\<close>
theorem one_live_attempt:
  assumes "task_step\<^sup>*\<^sup>* (open_with_device fk d) s"
  shows "distinct (map tk_id (t_tasks s)) \<and>
    (\<forall>i. map tk_attempt_ordinal (filter (\<lambda>t. tk_issue_id t = Some i) (t_tasks s)) =
       map int [1..<Suc (count_where (\<lambda>t. tk_issue_id t = Some i) (t_tasks s))]) \<and>
    (\<forall>i. count_where (\<lambda>t. tk_issue_id t = Some i \<and> is_nonterminal_claim (tk_orchestrator_claim t)) (t_tasks s) \<le> 1)"
proof -
  have "task_wf s \<and> one_live s"
    using assms by (induction rule: rtranclp_induct) (auto simp: task_inv_open dest: task_step_inv)
  moreover from this have "task_keys s" by (simp add: task_wf_keys)
  ultimately show ?thesis
    by (simp add: task_keys_def task_wf_def one_live_def count_where_def conj_commute del: upt_Suc)
qed

theorem one_live_attempt_witness:
  "\<exists>s. task_step\<^sup>*\<^sup>* (open_with_device True ''dev'') s \<and> length (t_tasks s) = 1 \<and>
    count_where (\<lambda>t. tk_issue_id t = Some ''i1'' \<and> is_nonterminal_claim (tk_orchestrator_claim t)) (t_tasks s) \<le> 1"
proof -
  let ?b = "sample_board [sample_issue ''i1'' Todo ''t0'']"
  let ?s = "snd (promote_issue_to_task ''t1'' ''i1'' ''claude'' ?b)"
  let ?p = "snd (create_board_project ''t0'' sample_project (open_with_device True ''dev''))"
  have "board_step (open_with_device True ''dev'') ?p"
    by (rule board_step.intros(1)) (rule prod.collapse [symmetric])
  moreover have "?b = snd (insert_board_issue (sample_issue ''i1'' Todo ''t0'') ?p)"
    by (simp add: insert_issue_apply create_board_project_def sql_insert_def open_with_device_def
        sample_board_def sample_store_def)
  then have "board_step ?p ?b" using board_step.intros(4) [OF prod.collapse [symmetric]] by metis
  moreover have "task_step ?b ?s" by (rule task_step.promote) (rule prod.collapse [symmetric])
  ultimately have reach: "task_step\<^sup>*\<^sup>* (open_with_device True ''dev'') ?s"
    by (meson board rtranclp.rtrancl_into_rtrancl rtranclp.rtrancl_refl)
  from one_live_attempt [OF this] have
    "count_where (\<lambda>t. tk_issue_id t = Some ''i1'' \<and> is_nonterminal_claim (tk_orchestrator_claim t)) (t_tasks ?s) \<le> 1"
    by blast
  moreover have "length (t_tasks ?s) = 1" by (simp add: sample_promote)
  ultimately show ?thesis using reach by blast
qed

text \<open>promoting an issue again while its attempt is live returns the same task and writes nothing,
whatever agent kind and clock the second call has.\<close>
theorem promote_idempotent:
  assumes "task_wf s" and "promote_issue_to_task now i kind s = (Inr t, s')"
  shows "promote_issue_to_task now' i kind' s' = (Inr t, s')"
proof -
  have "task_wf s'" by (rule task_wf_promote [OF assms])
  then show ?thesis using promote_result_live [OF assms] by (simp add: promote_wf)
qed

theorem promote_idempotent_witness:
  "\<exists>t s'. promote_issue_to_task ''t1'' ''i1'' ''claude'' (sample_board [sample_issue ''i1'' Todo ''t0'']) = (Inr t, s') \<and>
     tk_id t = ''i1.T1'' \<and> promote_issue_to_task ''t2'' ''i1'' ''codex'' s' = (Inr t, s')"
proof -
  have "tk_id (new_task ''t1'' ''i1'' ''P'' ''claude'' 1) = ''i1.T1''"
    by (simp add: new_task_def task_id_of_def show_int_def show_nat.simps [of "Suc 0"] digit_def char_of_eq_iff)
  with promote_idempotent [OF sample_task_wf(1) sample_promote] sample_promote show ?thesis by metis
qed

text \<open>without a live attempt a promotion appends one Unclaimed task whose number is one more than the
issue's attempts so far, and fails without writing when the issue or its project is missing.\<close>
theorem promote_new_attempt:
  assumes "task_wf s" and "live_task i s = None"
    and "count_where (\<lambda>t. tk_issue_id t = Some i) (t_tasks s) < 2 ^ 31 - 1"
  shows "case promote_issue_to_task now i kind s of
      (Inl e, s') \<Rightarrow> s' = s \<and> e = StorageSql (''issue not found: '' @ i) NoRows \<and> issue_project_keys i s = []
    | (Inr t, s') \<Rightarrow> s' = s\<lparr>t_tasks := t_tasks s @ [t]\<rparr> \<and> tk_issue_id t = Some i \<and>
        tk_orchestrator_claim t = CLAIM_UNCLAIMED \<and> tk_project_key t = hd (issue_project_keys i s) \<and>
        tk_attempt_ordinal t = int (count_where (\<lambda>t. tk_issue_id t = Some i) (t_tasks s)) + 1 \<and>
        tk_id t = i @ ''.T'' @ show_int (tk_attempt_ordinal t)"
proof -
  have "i32_ok (int (length (rows_of i s)) + 1)" using assms(3) by (simp add: i32_ok_def count_where_def)
  then show ?thesis
    by (auto simp: promote_wf [OF assms(1)] assms(2) new_task_def count_where_def task_id_of_def Let_def
        split: list.splits)
qed

theorem promote_new_attempt_witness:
  "case promote_issue_to_task ''t1'' ''i1'' ''claude'' (sample_board [sample_issue ''i1'' Todo ''t0'']) of
      (Inl e, s') \<Rightarrow> False | (Inr t, s') \<Rightarrow> length (t_tasks s') = 1 \<and> tk_attempt_ordinal t = 1"
  using promote_new_attempt [OF sample_task_wf, of "''i1''" "[sample_issue ''i1'' Todo ''t0'']" "''t1''" "''claude''"]
  by (simp add: sample_promote)

text \<open>of any number of workers that race to move one claim, exactly the first one wins; every other
one is told so.\<close>
theorem claim_race_one_winner:
  assumes "distinct (map tk_id (t_tasks s))" and "claim_of s t = Some from" and "from \<noteq> to"
  shows "race now t from to (Suc n) s = Inr True # replicate n (Inr False)"
  unfolding race_contend by (rule tasks.one_winner) (use assms in \<open>simp_all add: task_keys_def\<close>)

theorem claim_race_one_winner_witness:
  "race (\<lambda>_. ''t2'') ''i1.T1'' CLAIM_UNCLAIMED CLAIM_CLAIMED 3
     ((sample_board [])\<lparr>t_tasks := [(new_task ''t1'' ''i1'' ''P'' ''claude'' 1)\<lparr>tk_id := ''i1.T1''\<rparr>]\<rparr>) =
   [Inr True, Inr False, Inr False]"
proof -
  let ?s = "(sample_board [])\<lparr>t_tasks := [(new_task ''t1'' ''i1'' ''P'' ''claude'' 1)\<lparr>tk_id := ''i1.T1''\<rparr>]\<rparr>"
  have "claim_of ?s ''i1.T1'' = Some CLAIM_UNCLAIMED" by (simp add: claim_of_def new_task_def)
  then show ?thesis
    using claim_race_one_winner [of ?s "''i1.T1''" CLAIM_UNCLAIMED CLAIM_CLAIMED "\<lambda>_. ''t2''" 2]
    by (simp add: claim_defs numeral_eq_Suc)
qed

text \<open>the dispatch queue lists exactly Unclaimed tasks whose issue is in progress and assigned to an
agent, oldest first, and leaves none out unless the limit cuts it.\<close>
theorem dispatch_queue:
  assumes "task_wf s"
  shows "\<exists>ts. list_dispatchable_tasks mx s = (Inr ts, s) \<and> length ts \<le> mx \<and>
    sorted (map tk_created_at ts) \<and>
    (\<forall>t \<in> set ts. t \<in> set (t_tasks s) \<and> tk_orchestrator_claim t = CLAIM_UNCLAIMED \<and>
       (\<exists>i \<in> set (t_issues s). tk_issue_id t = Some (ir_id i) \<and> ir_status i = issue_status_as_str InProgress \<and>
          ir_assignee_type i = Some ''agent'')) \<and>
    (\<forall>t \<in> set (t_tasks s). \<forall>i \<in> set (t_issues s).
       tk_orchestrator_claim t = CLAIM_UNCLAIMED \<and> tk_issue_id t = Some (ir_id i) \<and>
       ir_status i = issue_status_as_str InProgress \<and> ir_assignee_type i = Some ''agent'' \<and> t \<notin> set ts
       \<longrightarrow> length ts = mx \<and> (\<forall>u \<in> set ts. tk_created_at u \<le> tk_created_at t))"
proof -
  define q where "q = order_asc tk_created_at (dispatchable s)"
  have sorted: "sorted (map tk_created_at q)" by (simp add: q_def sorted_order_asc)
  have mem: "t \<in> set q \<longleftrightarrow> t \<in> set (t_tasks s) \<and> tk_orchestrator_claim t = CLAIM_UNCLAIMED \<and>
       (\<exists>i \<in> set (t_issues s). tk_issue_id t = Some (ir_id i) \<and> ir_status i = issue_status_as_str InProgress \<and>
          ir_assignee_type i = Some ''agent'')" for t
    by (auto simp: q_def set_dispatchable CLAIM_UNCLAIMED_def) metis
  have cut: "length (take mx q) = mx \<and> (\<forall>u \<in> set (take mx q). tk_created_at u \<le> tk_created_at t)"
    if t: "t \<in> set q" "t \<notin> set (take mx q)" for t
  proof -
    have "t \<in> set (drop mx q)" using t by (metis UnE append_take_drop_id set_append)
    moreover have "sorted_wrt (\<lambda>x y. tk_created_at x \<le> tk_created_at y) (take mx q @ drop mx q)"
      using sorted by (simp add: sorted_map)
    ultimately show ?thesis unfolding sorted_wrt_append by (cases "mx \<le> length q") auto
  qed
  have "sorted (map tk_created_at (take mx q))"
    using sorted by (metis append_take_drop_id map_append sorted_append)
  then show ?thesis
    using cut mem by (intro exI [of _ "take mx q"])
      (auto simp: dispatch_apply [OF assms] q_def [symmetric] dest: in_set_takeD)
qed

theorem dispatch_queue_witness:
  "let t = new_task ''t1'' ''i1'' ''P'' ''claude'' 1;
       s = (sample_board [(sample_issue ''i1'' InProgress ''t0'')\<lparr>bi_assignee_type := Some ''agent''\<rparr>])\<lparr>t_tasks := [t]\<rparr>
   in \<exists>ts. list_dispatchable_tasks 5 s = (Inr ts, s) \<and> t \<in> set ts"
proof -
  let ?t = "new_task ''t1'' ''i1'' ''P'' ''claude'' 1"
  let ?s = "(sample_board [(sample_issue ''i1'' InProgress ''t0'')\<lparr>bi_assignee_type := Some ''agent''\<rparr>])\<lparr>t_tasks := [?t]\<rparr>"
  have wf: "task_wf ?s" by (simp add: task_wf_def new_task_def i32_ok_def claim_states_def)
  from dispatch_queue [OF this, of 5] obtain ts where
    run: "list_dispatchable_tasks 5 ?s = (Inr ts, ?s)"
    and all: "\<forall>t \<in> set (t_tasks ?s). \<forall>i \<in> set (t_issues ?s).
       tk_orchestrator_claim t = CLAIM_UNCLAIMED \<and> tk_issue_id t = Some (ir_id i) \<and>
       ir_status i = issue_status_as_str InProgress \<and> ir_assignee_type i = Some ''agent'' \<and> t \<notin> set ts
       \<longrightarrow> length ts = 5" by blast
  have "length ts \<le> 1"
    using run by (auto simp: dispatch_apply [OF wf] dispatchable_def)
  with all have "?t \<in> set ts" by (auto simp: new_task_def issue_to_row_def sample_issue_def)
  with run show ?thesis by (auto simp: Let_def)
qed

end
