(* ===== verification/Orch_Prompt.thy ===== *)
theory Orch_Prompt
  imports Store_Tasks
begin

text \<open>
  gctrl-orch/src/prompt.rs: the brief an agent reads on its standard input. created\_at values are
  compared as instants; their RFC 3339 UTC texts order the same way.
\<close>

abbreviation nl :: string where "nl \<equiv> [CHR 0x0A]"

section \<open>Operations\<close>

definition is_dispatch_comment :: "board_comment \<Rightarrow> bool" where
  "is_dispatch_comment c \<longleftrightarrow> contains ''## Agent:'' (bc_body c) \<or> bc_author_type c = ''agent''"

definition latest_dispatch_comment :: "board_comment list \<Rightarrow> board_comment option" where
  "latest_dispatch_comment comments = max_by_key bc_created_at (filter is_dispatch_comment comments)"

definition fallback_prompt :: "board_issue \<Rightarrow> string" where
  "fallback_prompt issue =
     (let desc = (case bi_description issue of None \<Rightarrow> [] | Some d \<Rightarrow> d)
      in ''# '' @ bi_id issue @ '': '' @ bi_title issue @ nl @ nl @ desc @ nl @ nl @
         ''(No dispatch comment on this issue '' @ bytes [226, 128, 148] @ '' run the board UI's '' @
         ''drag-to-in_progress flow to get a full persona brief, or edit this '' @
         ''fallback prompt.)'')"

text \<open>str::trim\_end\_matches of a character.\<close>
definition trim_end_matches :: "char \<Rightarrow> string \<Rightarrow> string" where
  "trim_end_matches c s = rev (dropWhile (\<lambda>x. x = c) (rev s))"

definition render_check :: "acceptance_check \<Rightarrow> string" where
  "render_check check =
     ''- ['' @ show_nat (ck_idx check) @ ''] '' @ acceptance_kind_as_str (ck_kind check) @ '': '' @
     ck_command check @ nl"

definition callback_url :: "board_issue \<Rightarrow> string \<Rightarrow> string" where
  "callback_url issue kernel_base_url =
     trim_end_matches CHR ''/'' kernel_base_url @ ''/api/board/issues/'' @ bi_id issue @
     ''/acceptance/checks/<IDX>''"

definition render_acceptance_section :: "board_issue \<Rightarrow> acceptance_check list \<Rightarrow> string \<Rightarrow> string" where
  "render_acceptance_section issue checks kernel_base_url =
     ''## Acceptance Tests'' @ nl @ nl @
     ''Run each check below and report the result by POSTing to:'' @ nl @
     bytes [96] @ callback_url issue kernel_base_url @ bytes [96] @ nl @ nl @
     ''Body: '' @ bytes [96] @ ''{\"status\":\"pass\"|\"fail\",\"output\":\"<trimmed stdout/stderr>\"}'' @ bytes [96] @ nl @ nl @
     concat (map render_check checks)"

definition build_prompt ::
  "board_issue \<Rightarrow> board_comment list \<Rightarrow> acceptance_check list \<Rightarrow> string \<Rightarrow> string" where
  "build_prompt issue comments checks kernel_base_url =
     (let base = (case latest_dispatch_comment comments of
                    Some c \<Rightarrow> bc_body c | None \<Rightarrow> fallback_prompt issue)
      in if checks = [] then base
         else
           let out = (if \<not> suffix (nl @ nl) base
                      then (if suffix nl base then base @ nl else base @ nl @ nl)
                      else base)
           in out @ render_acceptance_section issue checks kernel_base_url)"

section \<open>The newest dispatch comment\<close>

lemma latest_dispatch_snoc:
  assumes "is_dispatch_comment c" and "\<forall>d \<in> set cs. bc_created_at d \<le> bc_created_at c"
  shows "latest_dispatch_comment (cs @ [c]) = Some c"
proof (cases "max_by_key bc_created_at (filter is_dispatch_comment cs)")
  case None
  then show ?thesis using assms(1) by (simp add: latest_dispatch_comment_def max_by_key_snoc)
next
  case (Some d)
  from max_by_key_max [OF this] assms(2) have "bc_created_at d \<le> bc_created_at c" by auto
  with Some assms(1) show ?thesis by (simp add: latest_dispatch_comment_def max_by_key_snoc)
qed

lemma prompt_prefix:
  "\<exists>pad. set pad \<subseteq> {CHR 0x0A} \<and> build_prompt issue cs checks url =
     (case latest_dispatch_comment cs of Some c \<Rightarrow> bc_body c | None \<Rightarrow> fallback_prompt issue) @
     (if checks = [] then [] else pad @ render_acceptance_section issue checks url)"
proof -
  define base where "base = (case latest_dispatch_comment cs of Some c \<Rightarrow> bc_body c | None \<Rightarrow> fallback_prompt issue)"
  let ?pad = "if \<not> suffix (nl @ nl) base then (if suffix nl base then nl else nl @ nl) else []"
  have "set ?pad \<subseteq> {CHR 0x0A}" by auto
  moreover have "build_prompt issue cs checks url =
      base @ (if checks = [] then [] else ?pad @ render_acceptance_section issue checks url)"
    by (simp add: build_prompt_def Let_def base_def [symmetric])
  ultimately show ?thesis unfolding base_def by blast
qed

end
