(* ===== verification/Orch_Agent.thy ===== *)
theory Orch_Agent
  imports Prelude
begin

text \<open>
  gctrl-orch/src/agent.rs: the environment a dispatched agent sees and the outcome of its process.
  The operating system is a parameter: what spawning and waiting return. Durations are
  milliseconds; their Debug text is a parameter too.
\<close>

section \<open>Environment\<close>

definition BASE_ENV_KEYS :: "string list" where
  "BASE_ENV_KEYS =
     [''HOME'', ''LANG'', ''LC_ALL'', ''LC_CTYPE'', ''LOGNAME'', ''PATH'', ''SHELL'', ''TERM'', ''TMPDIR'',
      ''TZ'', ''USER'']"

definition select_env :: "(string \<times> string) list \<Rightarrow> string list \<Rightarrow> (string \<times> string) list" where
  "select_env vars passthrough =
     filter (\<lambda>(k, _). k \<in> set BASE_ENV_KEYS \<or> k \<in> set passthrough) vars"

section \<open>The process\<close>

text \<open>An std::io::Error: whether its kind is BrokenPipe, and its text.\<close>
datatype io_error = IoError bool string

datatype spawn_error = Spawn io_error | NonZero int | Signal | Timeout nat

record agent_run =
  run_stdout :: string
  run_stderr :: string
  run_exit_code :: int

text \<open>
  What the system answers to Command::spawn (a child with the results of writing its standard input
  and of shutting it down) and to the timed wait for its output.
\<close>
record 'c os =
  os_spawn :: "string \<Rightarrow> string list \<Rightarrow> string \<Rightarrow> string \<Rightarrow> (string \<times> string) list
     \<Rightarrow> (io_error + 'c \<times> io_error option \<times> io_error option)"
  os_wait :: "'c \<Rightarrow> nat \<Rightarrow> (io_error + (int option \<times> string \<times> string)) option"
  os_vars :: "(string \<times> string) list"
  os_show_duration :: "nat \<Rightarrow> string"

definition resolve_env :: "'c os \<Rightarrow> string list \<Rightarrow> (string \<times> string) list" where
  "resolve_env sys passthrough = select_env (os_vars sys) passthrough"

text \<open>A failed write or shutdown counts as a spawn failure unless the pipe was broken by the child.\<close>
definition pipe_error :: "io_error option \<Rightarrow> io_error option" where
  "pipe_error r = (case r of Some (IoError broken m) \<Rightarrow> if broken then None else r | None \<Rightarrow> None)"

definition spawn_agent ::
  "'c os \<Rightarrow> string list \<Rightarrow> string \<Rightarrow> string \<Rightarrow> (string \<times> string) list \<Rightarrow> (spawn_error + 'c)" where
  "spawn_agent sys cmd working_dir prompt env =
     (case cmd of
        [] \<Rightarrow> Inl (Spawn (IoError False ''empty agent command''))
      | program # args \<Rightarrow>
          (case os_spawn sys program args working_dir prompt env of
             Inl e \<Rightarrow> Inl (Spawn e)
           | Inr (child, write, shutdown) \<Rightarrow>
               (case pipe_error write of Some e \<Rightarrow> Inl (Spawn e)
                | None \<Rightarrow> (case pipe_error shutdown of Some e \<Rightarrow> Inl (Spawn e) | None \<Rightarrow> Inr child))))"

definition await_agent :: "'c os \<Rightarrow> 'c \<Rightarrow> nat \<Rightarrow> (spawn_error + agent_run)" where
  "await_agent sys child timeout =
     (case os_wait sys child timeout of
        None \<Rightarrow> Inl (Timeout timeout)
      | Some (Inl e) \<Rightarrow> Inl (Spawn e)
      | Some (Inr (code, out, err)) \<Rightarrow>
          (case code of
             None \<Rightarrow> Inl Signal
           | Some exit \<Rightarrow>
               if exit \<noteq> 0 then Inl (NonZero exit)
               else Inr \<lparr>run_stdout = out, run_stderr = err, run_exit_code = exit\<rparr>))"

text \<open>Display of SpawnError.\<close>
fun show_spawn_error :: "'c os \<Rightarrow> spawn_error \<Rightarrow> string" where
  "show_spawn_error sys (Spawn (IoError broken m)) = ''spawn failed: '' @ m"
| "show_spawn_error sys (NonZero code) = ''agent exited with code '' @ show_int code"
| "show_spawn_error sys Signal = ''agent killed by signal''"
| "show_spawn_error sys (Timeout d) = ''timed out after '' @ os_show_duration sys d"

section \<open>Properties\<close>

text \<open>an agent sees exactly the daemon's variables that are in the process baseline or named by the
operator, with their values and in their order; the SSH agent socket is not in the baseline.\<close>
theorem agent_env_exact:
  "let env = resolve_env sys passthrough in
    set env = {(k, v). (k, v) \<in> set (os_vars sys) \<and> (k \<in> set BASE_ENV_KEYS \<or> k \<in> set passthrough)} \<and>
    subseq env (os_vars sys) \<and> ''SSH_AUTH_SOCK'' \<notin> set BASE_ENV_KEYS"
  by (auto simp: resolve_env_def select_env_def Let_def BASE_ENV_KEYS_def)

text \<open>awaiting an agent succeeds exactly when the process ended in time with exit code 0.\<close>
theorem await_success_iff:
  "await_agent sys child timeout = Inr run \<longleftrightarrow>
     os_wait sys child timeout = Some (Inr (Some 0, run_stdout run, run_stderr run)) \<and> run_exit_code run = 0"
  by (cases run) (auto simp: await_agent_def split: option.splits sum.splits)

end
