(* ===== verification/Orch_Worker.thy ===== *)
theory Orch_Worker
  imports Orch_Prompt Orch_Agent
begin

text \<open>
  gctrl-orch/src/worker.rs: one dispatch, the drain pass, and any number of workers whose store
  calls interleave. A dispatch makes its store calls in the order of the source; the clock readings
  are indexed by the call, and the answers of the operating system are the parameter sys.
\<close>

section \<open>One dispatch\<close>

record orch_config =
  oc_agent_cmd :: "string list"
  oc_working_dir :: string
  oc_env_passthrough :: "string list"
  oc_poll_interval :: nat
  oc_max_per_pass :: nat
  oc_task_timeout :: nat
  oc_dry_run :: bool
  oc_kernel_base_url :: string

datatype dispatch_outcome = Released string | Retried string | LostRace string | DryRun string

definition COMPLETION_COMMENT_MAX_BYTES :: nat where
  "COMPLETION_COMMENT_MAX_BYTES = 50000"

text \<open>The loop that moves the cut to a character boundary.\<close>
function find_cut :: "string \<Rightarrow> nat \<Rightarrow> nat" where
  "find_cut body pos =
     (if pos < length body \<and> \<not> is_char_boundary body pos then find_cut body (pos + 1) else pos)"
  by pat_completeness auto
termination by (relation "measure (\<lambda>(body, pos). length body - pos)") auto

declare find_cut.simps [simp del]

definition truncate_tail :: "string \<Rightarrow> nat \<Rightarrow> string" where
  "truncate_tail body max_bytes =
     (if length body \<le> max_bytes then body
      else
        let dropped = length body - max_bytes;
            pos = find_cut body (length body - max_bytes)
        in ''_[truncated '' @ show_nat dropped @ '' bytes from the head]_'' @ nl @ nl @ drop pos body)"

definition completion_body :: "string \<Rightarrow> bool \<Rightarrow> string" where
  "completion_body body ok =
     (let heading = (if ok then ''## Agent run completed'' else ''## Agent run failed'');
          body = truncate_tail body COMPLETION_COMMENT_MAX_BYTES
      in if prefix ''## '' (trim_start body) then body else heading @ nl @ nl @ body)"

definition post_completion_comment ::
  "timestamp \<Rightarrow> string \<Rightarrow> string \<Rightarrow> string \<Rightarrow> bool \<Rightarrow> (store, unit) db" where
  "post_completion_comment now uuid issue_id body ok =
     insert_board_comment
       \<lparr>bc_id = ''cmt-'' @ uuid, bc_issue_id = issue_id, bc_author_id = ''orch'',
        bc_author_name = ''gctrld-orch'', bc_author_type = ''agent'', bc_body = completion_body body ok,
        bc_created_at = now, bc_session_id = None\<rparr>"

definition cas_failed :: "string \<Rightarrow> string \<Rightarrow> string \<Rightarrow> gctl_error" where
  "cas_failed task_id from to =
     Other (''orch: expected transition '' @ from @ bytes [226, 134, 146] @ to @ '' on '' @ task_id @
       '' but CAS failed '' @ bytes [226, 128, 148] @ '' row was mutated externally'')"

definition strict_transition :: "timestamp \<Rightarrow> string \<Rightarrow> string \<Rightarrow> string \<Rightarrow> (store, unit) db" where
  "strict_transition now task_id from to =
     bind (try_transition_claim now task_id from to)
     (\<lambda>ok. if \<not> ok then throw (cas_failed task_id from to) else ret ())"

text \<open>The brief of a task: what is read from the store after the claim is won.\<close>
definition task_brief :: "orch_config \<Rightarrow> orch_task \<Rightarrow> (store, string \<times> string) db" where
  "task_brief config task =
     (case tk_issue_id task of
        None \<Rightarrow> throw (Other (''task '' @ tk_id task @ '' has no issue_id''))
      | Some issue_id \<Rightarrow>
          bind (get_board_issue issue_id) (\<lambda>issue. case issue of
            None \<Rightarrow> throw (Other (''issue '' @ issue_id @ '' disappeared''))
          | Some issue \<Rightarrow>
              bind (list_board_comments issue_id) (\<lambda>comments.
              let checks = (case bi_acceptance_criteria issue of
                    None \<Rightarrow> [] | Some text \<Rightarrow> parse_acceptance_criteria text)
              in ret (issue_id, build_prompt issue comments checks (oc_kernel_base_url config)))))"

text \<open>The bodies of the two failure reports.\<close>

definition spawn_failed_body :: "'c os \<Rightarrow> spawn_error \<Rightarrow> string" where
  "spawn_failed_body sys e = ''## Agent run failed (spawn)'' @ nl @ nl @ show_spawn_error sys e"

definition run_failed_body :: "'c os \<Rightarrow> spawn_error \<Rightarrow> string" where
  "run_failed_body sys e = ''## Agent run failed'' @ nl @ nl @ show_spawn_error sys e"

text \<open>The three stages of dispatch\_one: after the launch, after the claim, and the whole.\<close>

definition await_and_report ::
  "'c os \<Rightarrow> orch_config \<Rightarrow> (nat \<Rightarrow> timestamp) \<Rightarrow> string \<Rightarrow> orch_task \<Rightarrow> string \<Rightarrow> 'c
   \<Rightarrow> (store, dispatch_outcome) db" where
  "await_and_report sys config now uuid task issue_id child =
     (case await_agent sys child (oc_task_timeout config) of
        Inr result \<Rightarrow>
          bind (post_completion_comment (now 2) uuid issue_id (run_stdout result) True)
          (\<lambda>_. bind (strict_transition (now 3) (tk_id task) CLAIM_RUNNING CLAIM_RELEASED)
          (\<lambda>_. ret (Released (tk_id task))))
      | Inl e \<Rightarrow>
          bind (post_completion_comment (now 2) uuid issue_id (run_failed_body sys e) False)
          (\<lambda>_. bind (strict_transition (now 3) (tk_id task) CLAIM_RUNNING CLAIM_RETRY_QUEUED)
          (\<lambda>_. ret (Retried (tk_id task)))))"

definition launch_task ::
  "'c os \<Rightarrow> orch_config \<Rightarrow> (nat \<Rightarrow> timestamp) \<Rightarrow> string \<Rightarrow> orch_task \<Rightarrow> string \<Rightarrow> string
   \<Rightarrow> (store, dispatch_outcome) db" where
  "launch_task sys config now uuid task issue_id prompt =
     (if oc_dry_run config then
        bind (strict_transition (now 1) (tk_id task) CLAIM_CLAIMED CLAIM_UNCLAIMED)
        (\<lambda>_. ret (DryRun (tk_id task)))
      else
        (case spawn_agent sys (oc_agent_cmd config) (oc_working_dir config) prompt
                (resolve_env sys (oc_env_passthrough config)) of
           Inl e \<Rightarrow>
             bind (post_completion_comment (now 1) uuid issue_id (spawn_failed_body sys e) False)
             (\<lambda>_. bind (strict_transition (now 2) (tk_id task) CLAIM_CLAIMED CLAIM_RELEASED)
             (\<lambda>_. ret (Retried (tk_id task))))
         | Inr child \<Rightarrow>
             bind (strict_transition (now 1) (tk_id task) CLAIM_CLAIMED CLAIM_RUNNING)
             (\<lambda>_. await_and_report sys config now uuid task issue_id child)))"

definition dispatch_one ::
  "'c os \<Rightarrow> orch_config \<Rightarrow> (nat \<Rightarrow> timestamp) \<Rightarrow> string \<Rightarrow> orch_task \<Rightarrow> (store, dispatch_outcome) db" where
  "dispatch_one sys config now uuid task =
     bind (try_transition_claim (now 0) (tk_id task) CLAIM_UNCLAIMED CLAIM_CLAIMED) (\<lambda>won.
     if \<not> won then ret (LostRace (tk_id task))
     else
       bind (task_brief config task)
       (\<lambda>(issue_id, prompt). launch_task sys config now uuid task issue_id prompt))"

fun dispatch_all ::
  "'c os \<Rightarrow> orch_config \<Rightarrow> (nat \<Rightarrow> nat \<Rightarrow> timestamp) \<Rightarrow> (nat \<Rightarrow> string) \<Rightarrow> nat \<Rightarrow> orch_task list
   \<Rightarrow> (store, dispatch_outcome list) db" where
  "dispatch_all sys config now uuid i [] = ret []"
| "dispatch_all sys config now uuid i (task # rest) =
     bind (dispatch_one sys config (now i) (uuid i) task) (\<lambda>out.
     bind (dispatch_all sys config now uuid (Suc i) rest) (\<lambda>outs. ret (out # outs)))"

definition run_once ::
  "'c os \<Rightarrow> orch_config \<Rightarrow> (nat \<Rightarrow> nat \<Rightarrow> timestamp) \<Rightarrow> (nat \<Rightarrow> string) \<Rightarrow> (store, dispatch_outcome list) db" where
  "run_once sys config now uuid =
     bind (list_dispatchable_tasks (oc_max_per_pass config))
     (\<lambda>tasks. if tasks = [] then ret [] else dispatch_all sys config now uuid 0 tasks)"

section \<open>Completion comments\<close>

lemma find_cut_spec:
  "pos \<le> length body \<Longrightarrow> pos \<le> find_cut body pos \<and> find_cut body pos \<le> length body \<and>
     is_char_boundary body (find_cut body pos)"
proof (induction body pos rule: find_cut.induct)
  case (1 body pos)
  show ?case
  proof (cases "pos < length body \<and> \<not> is_char_boundary body pos")
    case True
    with 1 show ?thesis by (subst (1 2 3) find_cut.simps) auto
  next
    case False
    then show ?thesis
      using 1(2) by (subst (1 2 3) find_cut.simps) (auto simp: is_char_boundary_def)
  qed
qed

lemma find_cut_first:
  "\<lbrakk>pos \<le> j; j < find_cut body pos\<rbrakk> \<Longrightarrow> \<not> is_char_boundary body j"
proof (induction body pos rule: find_cut.induct)
  case (1 body pos)
  show ?case
  proof (cases "pos < length body \<and> \<not> is_char_boundary body pos")
    case True
    then have "find_cut body pos = find_cut body (pos + 1)" by (simp add: find_cut.simps [of body pos])
    with 1 True show ?thesis by (cases "j = pos") auto
  next
    case False
    with 1(3,2) show ?thesis by (auto simp: find_cut.simps [of body pos])
  qed
qed

lemma post_comment_tasks:
  "post_completion_comment now u iid body ok s = (r, s') \<Longrightarrow>
     t_tasks s' = t_tasks s \<and> t_issues s' = t_issues s"
  unfolding post_completion_comment_def insert_board_comment_def
  by (drule sql_insert_cases) auto

lemma task_brief_state: "task_brief config task s = (r, s') \<Longrightarrow> s' = s"
  by (auto simp: task_brief_def bind_def get_board_issue_def list_board_comments_def Let_def
      split: option.splits)

section \<open>The verified claim machine\<close>

text \<open>KernelSpec.Orchestrator: the claim states and triggers of the Lean model, and its step function.\<close>

datatype claim_state = L_unclaimed | L_claimed | L_running | L_paused | L_retryQueued | L_released

datatype trigger =
  dispatchEligible | agentLaunched | dispatchFailed | guardrailSuspend | humanPause | humanResume
| agentExitNormal | agentExitAbnormal | retryDispatch | noLongerEligible | maxRetries
| reconciliationTerminal | reEligibleNextTick

fun lean_step :: "claim_state \<Rightarrow> trigger \<Rightarrow> claim_state option" where
  "lean_step L_unclaimed dispatchEligible = Some L_claimed"
| "lean_step L_claimed agentLaunched = Some L_running"
| "lean_step L_claimed dispatchFailed = Some L_released"
| "lean_step L_running guardrailSuspend = Some L_paused"
| "lean_step L_running humanPause = Some L_paused"
| "lean_step L_running agentExitNormal = Some L_retryQueued"
| "lean_step L_running agentExitAbnormal = Some L_retryQueued"
| "lean_step L_running reconciliationTerminal = Some L_released"
| "lean_step L_paused humanResume = Some L_running"
| "lean_step L_paused reconciliationTerminal = Some L_released"
| "lean_step L_retryQueued retryDispatch = Some L_running"
| "lean_step L_retryQueued noLongerEligible = Some L_released"
| "lean_step L_retryQueued maxRetries = Some L_released"
| "lean_step L_released reEligibleNextTick = Some L_unclaimed"
| "lean_step _ _ = None"

text \<open>The claim texts the store holds; the store has none for paused.\<close>
definition claim_state_of :: "string \<Rightarrow> claim_state option" where
  "claim_state_of c =
     (if c = CLAIM_UNCLAIMED then Some L_unclaimed else if c = CLAIM_CLAIMED then Some L_claimed
      else if c = CLAIM_RUNNING then Some L_running else if c = CLAIM_RETRY_QUEUED then Some L_retryQueued
      else if c = CLAIM_RELEASED then Some L_released else None)"

definition lean_move :: "string \<Rightarrow> string \<Rightarrow> bool" where
  "lean_move c c' \<longleftrightarrow> (\<exists>a b tr. claim_state_of c = Some a \<and> claim_state_of c' = Some b \<and> lean_step a tr = Some b)"

lemma worker_moves_are_lean:
  "lean_move CLAIM_UNCLAIMED CLAIM_CLAIMED" "lean_move CLAIM_CLAIMED CLAIM_RUNNING"
  "lean_move CLAIM_CLAIMED CLAIM_RELEASED" "lean_move CLAIM_RUNNING CLAIM_RELEASED"
  "lean_move CLAIM_RUNNING CLAIM_RETRY_QUEUED"
  unfolding lean_move_def claim_state_of_def claim_defs
  using lean_step.simps(1-8) by (auto; blast)+

lemma dry_run_move_not_lean: "\<not> lean_move CLAIM_CLAIMED CLAIM_UNCLAIMED"
proof -
  have "lean_step L_claimed tr \<noteq> Some L_unclaimed" for tr by (cases tr) simp_all
  then show ?thesis by (simp add: lean_move_def claim_state_of_def claim_defs)
qed

section \<open>Workers that interleave\<close>

text \<open>
  A worker is idle, works through the rest of a drain pass, holds a task it claimed, or waits for
  the agent it launched.
\<close>
datatype worker = Idle | Trying "orch_task list" | Holding orch_task "orch_task list"
  | Launched orch_task "orch_task list"

text \<open>
  One atomic step: a store call of one worker (the store's mutex makes each call atomic), a worker
  that stops at an error or is killed, or another client of the store. dry is the workers' dry\_run.
\<close>
inductive orch_step :: "bool \<Rightarrow> (nat \<Rightarrow> worker) \<times> store \<Rightarrow> (nat \<Rightarrow> worker) \<times> store \<Rightarrow> bool"
  for dry :: bool where
  poll: "\<lbrakk>ws i = Idle; list_dispatchable_tasks mx s = (Inr ts, s')\<rbrakk> \<Longrightarrow>
    orch_step dry (ws, s) (ws(i := Trying ts), s')"
| win: "\<lbrakk>ws i = Trying (t # ts);
    try_transition_claim now (tk_id t) CLAIM_UNCLAIMED CLAIM_CLAIMED s = (Inr True, s')\<rbrakk> \<Longrightarrow>
    orch_step dry (ws, s) (ws(i := Holding t ts), s')"
| lose: "\<lbrakk>ws i = Trying (t # ts);
    try_transition_claim now (tk_id t) CLAIM_UNCLAIMED CLAIM_CLAIMED s = (Inr False, s')\<rbrakk> \<Longrightarrow>
    orch_step dry (ws, s) (ws(i := Trying ts), s')"
| pass_end: "ws i = Trying [] \<Longrightarrow> orch_step dry (ws, s) (ws(i := Idle), s)"
| give_back: "\<lbrakk>ws i = Holding t ts; dry;
    strict_transition now (tk_id t) CLAIM_CLAIMED CLAIM_UNCLAIMED s = (Inr (), s')\<rbrakk> \<Longrightarrow>
    orch_step dry (ws, s) (ws(i := Trying ts), s')"
| spawn_failed: "\<lbrakk>ws i = Holding t ts; \<not> dry;
    strict_transition now (tk_id t) CLAIM_CLAIMED CLAIM_RELEASED s = (Inr (), s')\<rbrakk> \<Longrightarrow>
    orch_step dry (ws, s) (ws(i := Trying ts), s')"
| launch: "\<lbrakk>ws i = Holding t ts; \<not> dry;
    strict_transition now (tk_id t) CLAIM_CLAIMED CLAIM_RUNNING s = (Inr (), s')\<rbrakk> \<Longrightarrow>
    orch_step dry (ws, s) (ws(i := Launched t ts), s')"
| exit_ok: "\<lbrakk>ws i = Launched t ts;
    strict_transition now (tk_id t) CLAIM_RUNNING CLAIM_RELEASED s = (Inr (), s')\<rbrakk> \<Longrightarrow>
    orch_step dry (ws, s) (ws(i := Trying ts), s')"
| exit_failed: "\<lbrakk>ws i = Launched t ts;
    strict_transition now (tk_id t) CLAIM_RUNNING CLAIM_RETRY_QUEUED s = (Inr (), s')\<rbrakk> \<Longrightarrow>
    orch_step dry (ws, s) (ws(i := Trying ts), s')"
| stop: "orch_step dry (ws, s) (ws(i := Idle), s)"
| outside_board: "board_step s s' \<Longrightarrow> orch_step dry (ws, s) (ws, s')"
| outside_promote: "promote_issue_to_task now iid kind s = (r, s') \<Longrightarrow> orch_step dry (ws, s) (ws, s')"
| outside_move: "update_board_issue_status_and_promote nows uuid now uuids now' iid status kind act s = (r', s')
    \<Longrightarrow> orch_step dry (ws, s) (ws, s')"

inductive_cases orch_stepE: "orch_step dry c c'"

text \<open>The task a worker is responsible for, with the claim it must have.\<close>
fun holds :: "worker \<Rightarrow> (string \<times> string) option" where
  "holds (Holding t ts) = Some (tk_id t, CLAIM_CLAIMED)"
| "holds (Launched t ts) = Some (tk_id t, CLAIM_RUNNING)"
| "holds _ = None"

definition orch_inv :: "(nat \<Rightarrow> worker) \<times> store \<Rightarrow> bool" where
  "orch_inv = (\<lambda>(ws, s). task_wf s \<and>
     (\<forall>i t c. holds (ws i) = Some (t, c) \<longrightarrow> claim_of s t = Some c) \<and>
     (\<forall>i j t c c'. holds (ws i) = Some (t, c) \<longrightarrow> holds (ws j) = Some (t, c') \<longrightarrow> i = j))"

lemma strict_apply:
  assumes "task_wf s"
  shows "strict_transition now t f g s =
    (if claim_of s t = Some f then Inr () else Inl (cas_failed t f g), snd (try_transition_claim now t f g s))"
  using assms by (simp add: strict_transition_def bind_def cas_rows [OF task_wf_keys])

text \<open>A successful move: the claim was the expected one, and only it changed.\<close>
lemma cas_effect:
  assumes "task_wf s" and "g \<in> claim_states" and "snd (try_transition_claim now t f g s) = s'" and "claim_of s t = Some f"
  shows "task_wf s' \<and> (\<forall>u. claim_of s' u = (if u = t then Some g else claim_of s u))"
  using task_wf_claim [OF assms(1,2) prod.collapse [symmetric]] assms
    tasks.cas_claim [OF task_wf_keys [OF assms(1)], of now t f g] by auto

lemma cas_lost:
  assumes "task_wf s" and "claim_of s t \<noteq> Some f" and "g \<in> claim_states" and "snd (try_transition_claim now t f g s) = s'"
  shows "task_wf s' \<and> (\<forall>u. claim_of s' u = claim_of s u)"
  using task_wf_claim [OF assms(1,3) prod.collapse [symmetric]] assms
    tasks.cas_claim [OF task_wf_keys [OF assms(1)], of now t f g] by auto

lemma claim_states_mem [simp]:
  "CLAIM_UNCLAIMED \<in> claim_states" "CLAIM_CLAIMED \<in> claim_states" "CLAIM_RUNNING \<in> claim_states"
  "CLAIM_RETRY_QUEUED \<in> claim_states" "CLAIM_RELEASED \<in> claim_states"
  by (simp_all add: claim_states_def)

text \<open>Moving the one claim a worker is responsible for keeps the invariant.\<close>
lemma orch_inv_move:
  assumes "orch_inv (ws, s)" and "claim_of s t = Some f"
    and "\<forall>j c. j \<noteq> i \<longrightarrow> holds (ws j) \<noteq> Some (t, c)"
    and "\<forall>u. claim_of s' u = (if u = t then Some g else claim_of s u)" and "task_wf s'"
    and "holds w = Some (t, g) \<or> holds w = None"
  shows "orch_inv (ws(i := w), s')"
  using assms unfolding orch_inv_def by (auto split: if_splits)

lemma other_holds:
  "orch_inv (ws, s) \<Longrightarrow> holds (ws i) = Some (t, c) \<Longrightarrow> \<forall>j c. j \<noteq> i \<longrightarrow> holds (ws j) \<noteq> Some (t, c)"
  unfolding orch_inv_def by auto

lemma unclaimed_free:
  "orch_inv (ws, s) \<Longrightarrow> claim_of s t = Some CLAIM_UNCLAIMED \<Longrightarrow> holds (ws j) \<noteq> Some (t, c)"
proof
  assume inv: "orch_inv (ws, s)" and u: "claim_of s t = Some CLAIM_UNCLAIMED" and h: "holds (ws j) = Some (t, c)"
  then have "c = CLAIM_UNCLAIMED" unfolding orch_inv_def by fastforce
  with h show False by (cases "ws j") (auto simp: claim_defs)
qed

lemma orch_inv_drop: "orch_inv (ws, s) \<Longrightarrow> holds w = None \<Longrightarrow> orch_inv (ws(i := w), s)"
  unfolding orch_inv_def by auto

lemma orch_inv_grow:
  assumes "orch_inv (ws, s)" and "task_wf s'" and "\<And>u c. claim_of s u = Some c \<Longrightarrow> claim_of s' u = Some c"
  shows "orch_inv (ws, s')"
  using assms unfolding orch_inv_def by auto

lemma promote_grows:
  assumes "task_wf s" and "promote_issue_to_task now i kind s = (r, s')"
  shows "claim_of s u = Some c \<Longrightarrow> claim_of s' u = Some c"
  using assms by (auto simp: promote_wf Let_def claim_of_def find_append split: option.splits list.splits if_splits)

lemma claim_of_tasks: "t_tasks s' = t_tasks s \<Longrightarrow> claim_of s' = claim_of s"
  by (rule ext) (simp add: claim_of_def)

lemma outside_grows:
  assumes "task_wf s"
    and "board_step s s' \<or> (\<exists>now iid kind r. promote_issue_to_task now iid kind s = (r, s')) \<or>
      (\<exists>nows uuid now uuids now' iid status kind act r.
         update_board_issue_status_and_promote nows uuid now uuids now' iid status kind act s = (r, s'))"
  shows "task_wf s' \<and> (\<forall>u c. claim_of s u = Some c \<longrightarrow> claim_of s' u = Some c)"
  using assms(2)
proof (elim disjE exE)
  assume "board_step s s'"
  then have "t_tasks s' = t_tasks s" by (rule board_step_frame) simp_all
  with assms(1) show ?thesis using task_invs_tasks(1) claim_of_tasks by metis
next
  fix now iid kind r assume "promote_issue_to_task now iid kind s = (r, s')"
  with assms(1) show ?thesis using promote_grows task_wf_promote by metis
next
  fix nows uuid now uuids now' iid status kind act r
  assume "update_board_issue_status_and_promote nows uuid now uuids now' iid status kind act s = (r, s')"
  from move_tasks [OF this] show ?thesis
  proof (elim disjE exE conjE)
    assume "t_tasks s' = t_tasks s"
    with assms(1) show ?thesis using task_invs_tasks(1) claim_of_tasks by metis
  next
    fix s1 t s2
    assume "t_tasks s1 = t_tasks s" and p: "promote_issue_to_task now iid kind s1 = (t, s2)" and e: "t_tasks s' = t_tasks s2"
    then have "task_wf s1" "claim_of s1 = claim_of s" using assms(1) task_invs_tasks(1) claim_of_tasks by blast+
    then have "task_wf s2" "\<forall>u c. claim_of s u = Some c \<longrightarrow> claim_of s2 u = Some c"
      using promote_grows [OF _ p] task_wf_promote [OF _ p] by simp_all
    then show ?thesis using task_invs_tasks(1) [OF e] claim_of_tasks [OF e] by simp
  qed
qed

lemma strict_InrD:
  assumes "task_wf s" and "strict_transition now t f g s = (Inr (), s')" and "g \<in> claim_states"
  shows "claim_of s t = Some f \<and> task_wf s' \<and> (\<forall>u. claim_of s' u = (if u = t then Some g else claim_of s u))"
  using assms cas_effect [OF assms(1,3)] by (auto simp: strict_apply split: if_splits)

lemma cas_InrD:
  assumes "task_wf s" and "try_transition_claim now t f g s = (Inr b, s')" and "g \<in> claim_states"
  shows "b = (claim_of s t = Some f) \<and> task_wf s' \<and>
    (\<forall>u. claim_of s' u = (if u = t \<and> b then Some g else claim_of s u))"
proof -
  have b: "b = (claim_of s t = Some f)" using assms(2) by (simp add: cas_rows [OF task_wf_keys [OF assms(1)]])
  have s': "snd (try_transition_claim now t f g s) = s'" using assms(2) by simp
  show ?thesis
  proof (cases b)
    case True
    then show ?thesis using b cas_effect [OF assms(1,3) s'] by simp
  next
    case False
    then show ?thesis using b cas_lost [OF assms(1) _ assms(3) s'] by simp
  qed
qed

text \<open>What one step does to the claims of the tasks that exist.\<close>
lemma orch_step_claims:
  assumes "orch_step dry (ws, s) (ws', s')" and "task_wf s"
  shows "task_wf s' \<and> (\<forall>u c. claim_of s u = Some c \<longrightarrow> claim_of s' u = Some c \<or>
      (\<exists>c'. claim_of s' u = Some c' \<and> (c, c') \<in> {(CLAIM_UNCLAIMED, CLAIM_CLAIMED),
        (CLAIM_RUNNING, CLAIM_RELEASED), (CLAIM_RUNNING, CLAIM_RETRY_QUEUED)} \<union>
        (if dry then {(CLAIM_CLAIMED, CLAIM_UNCLAIMED)}
         else {(CLAIM_CLAIMED, CLAIM_RUNNING), (CLAIM_CLAIMED, CLAIM_RELEASED)})))"
  using assms(1)
proof (cases rule: orch_step.cases)
  case (poll i mx ts)
  then have "s' = s" by (simp add: list_dispatchable_tasks_def)
  with assms(2) show ?thesis by simp
next
  case (win i t ts now)
  from cas_InrD [OF assms(2) this(3)] show ?thesis by auto
next
  case (lose i t ts now)
  from cas_InrD [OF assms(2) this(3)] show ?thesis by auto
next
  case (give_back i t ts now)
  from strict_InrD [OF assms(2) this(4)] this(3) show ?thesis by auto
next
  case (spawn_failed i t ts now)
  from strict_InrD [OF assms(2) this(4)] this(3) show ?thesis by auto
next
  case (launch i t ts now)
  from strict_InrD [OF assms(2) this(4)] this(3) show ?thesis by auto
next
  case (exit_ok i t ts now)
  from strict_InrD [OF assms(2) this(3)] show ?thesis by auto
next
  case (exit_failed i t ts now)
  from strict_InrD [OF assms(2) this(3)] show ?thesis by auto
next
  case outside_board
  then have "board_step s s'" by simp
  with outside_grows [OF assms(2)] show ?thesis by blast
next
  case (outside_promote now iid kind r)
  then show ?thesis using outside_grows [OF assms(2)] by blast
next
  case (outside_move nows uuid now uuids now' iid status kind act r')
  then show ?thesis using outside_grows [OF assms(2)] by blast
qed (use assms(2) in simp_all)

lemma orch_step_inv:
  assumes "orch_step dry (ws, s) (ws', s')" and inv: "orch_inv (ws, s)"
  shows "orch_inv (ws', s')"
proof -
  have wf: "task_wf s" using inv by (simp add: orch_inv_def)
  show ?thesis using assms(1)
  proof (cases rule: orch_step.cases)
    case (poll i mx ts)
    then have "s' = s" by (simp add: list_dispatchable_tasks_def)
    with poll inv show ?thesis by (simp add: orch_inv_drop)
  next
    case (win i t ts now)
    from cas_InrD [OF wf this(3)] have e: "claim_of s (tk_id t) = Some CLAIM_UNCLAIMED" "task_wf s'"
      "\<forall>u. claim_of s' u = (if u = tk_id t then Some CLAIM_CLAIMED else claim_of s u)" by simp_all
    show ?thesis unfolding win(1)
      by (rule orch_inv_move [OF inv e(1) _ e(3,2)]) (use unclaimed_free [OF inv e(1)] in simp_all)
  next
    case (lose i t ts now)
    from cas_InrD [OF wf this(3)] have "task_wf s'" "\<forall>u. claim_of s' u = claim_of s u" by simp_all
    then have "orch_inv (ws, s')" using orch_inv_grow [OF inv] by simp
    then show ?thesis unfolding lose(1) by (simp add: orch_inv_drop)
  next
    case (pass_end i)
    then show ?thesis using inv by (simp add: orch_inv_drop)
  next
    case (give_back i t ts now)
    from strict_InrD [OF wf this(4)] have e: "claim_of s (tk_id t) = Some CLAIM_CLAIMED" "task_wf s'"
      "\<forall>u. claim_of s' u = (if u = tk_id t then Some CLAIM_UNCLAIMED else claim_of s u)" by simp_all
    show ?thesis unfolding give_back(1)
      by (rule orch_inv_move [OF inv e(1) _ e(3,2)]) (use other_holds [OF inv, of i] give_back(2) in simp_all)
  next
    case (spawn_failed i t ts now)
    from strict_InrD [OF wf this(4)] have e: "claim_of s (tk_id t) = Some CLAIM_CLAIMED" "task_wf s'"
      "\<forall>u. claim_of s' u = (if u = tk_id t then Some CLAIM_RELEASED else claim_of s u)" by simp_all
    show ?thesis unfolding spawn_failed(1)
      by (rule orch_inv_move [OF inv e(1) _ e(3,2)]) (use other_holds [OF inv, of i] spawn_failed(2) in simp_all)
  next
    case (launch i t ts now)
    from strict_InrD [OF wf this(4)] have e: "claim_of s (tk_id t) = Some CLAIM_CLAIMED" "task_wf s'"
      "\<forall>u. claim_of s' u = (if u = tk_id t then Some CLAIM_RUNNING else claim_of s u)" by simp_all
    show ?thesis unfolding launch(1)
      by (rule orch_inv_move [OF inv e(1) _ e(3,2)]) (use other_holds [OF inv, of i] launch(2) in simp_all)
  next
    case (exit_ok i t ts now)
    from strict_InrD [OF wf this(3)] have e: "claim_of s (tk_id t) = Some CLAIM_RUNNING" "task_wf s'"
      "\<forall>u. claim_of s' u = (if u = tk_id t then Some CLAIM_RELEASED else claim_of s u)" by simp_all
    show ?thesis unfolding exit_ok(1)
      by (rule orch_inv_move [OF inv e(1) _ e(3,2)]) (use other_holds [OF inv, of i] exit_ok(2) in simp_all)
  next
    case (exit_failed i t ts now)
    from strict_InrD [OF wf this(3)] have e: "claim_of s (tk_id t) = Some CLAIM_RUNNING" "task_wf s'"
      "\<forall>u. claim_of s' u = (if u = tk_id t then Some CLAIM_RETRY_QUEUED else claim_of s u)" by simp_all
    show ?thesis unfolding exit_failed(1)
      by (rule orch_inv_move [OF inv e(1) _ e(3,2)]) (use other_holds [OF inv, of i] exit_failed(2) in simp_all)
  next
    case (stop i)
    then show ?thesis using inv by (simp add: orch_inv_drop)
  next
    case outside_board
    then have "board_step s s'" "ws' = ws" by simp_all
    then show ?thesis using orch_inv_grow [OF inv] outside_grows [OF wf] by blast
  next
    case (outside_promote now iid kind r)
    then show ?thesis using orch_inv_grow [OF inv] outside_grows [OF wf] by blast
  next
    case (outside_move nows uuid now uuids now' iid status kind act r')
    then show ?thesis using orch_inv_grow [OF inv] outside_grows [OF wf] by blast
  qed
qed

lemma orch_reachable_inv:
  "(orch_step dry)\<^sup>*\<^sup>* (\<lambda>_. Idle, s0) (ws, s) \<Longrightarrow> task_wf s0 \<Longrightarrow> orch_inv (ws, s)"
  by (induction "(ws, s)" arbitrary: ws s rule: rtranclp_induct)
    (simp add: orch_inv_def, metis orch_step_inv surj_pair)

section \<open>A dispatch is a run of steps\<close>

text \<open>Comments are board calls, which any client may make.\<close>
lemma post_comment_step: "post_completion_comment now u iid body ok s = (r, s') \<Longrightarrow> orch_step dry (ws, s) (ws, s')"
  unfolding post_completion_comment_def by (intro orch_step.outside_board board_step.intros(7)) assumption

text \<open>A comment and then a strict move, as a worker in either phase makes them.\<close>
lemma report_and_move:
  assumes "bind (post_completion_comment n1 u iid body ok) (\<lambda>_. bind (strict_transition n2 tid f g) (\<lambda>_. ret out)) s
      = (Inr res, s')"
  shows "\<exists>s1. (\<forall>dry ws. orch_step dry (ws, s) (ws, s1)) \<and> strict_transition n2 tid f g s1 = (Inr (), s')"
proof -
  from bind_InrD [OF assms] obtain x s1 where
    p: "post_completion_comment n1 u iid body ok s = (Inr x, s1)"
    and r: "bind (strict_transition n2 tid f g) (\<lambda>_. ret out) s1 = (Inr res, s')" by blast
  from bind_InrD [OF r] have "strict_transition n2 tid f g s1 = (Inr (), s')" by auto
  with post_comment_step [OF p] show ?thesis by blast
qed

lemma two_steps: "r a b \<Longrightarrow> r b c \<Longrightarrow> r\<^sup>*\<^sup>* a c"
  by (meson rtranclp.rtrancl_into_rtrancl rtranclp.rtrancl_refl)

lemma await_refines:
  assumes "await_and_report sys config now u t iid child s = (Inr out, s')" and "ws i = Launched t ts"
  shows "(orch_step dry)\<^sup>*\<^sup>* (ws, s) (ws(i := Trying ts), s')"
proof (cases "await_agent sys child (oc_task_timeout config)")
  case (Inl e)
  with assms(1) obtain s1 where "orch_step dry (ws, s) (ws, s1)"
    and "strict_transition (now 3) (tk_id t) CLAIM_RUNNING CLAIM_RETRY_QUEUED s1 = (Inr (), s')"
    by (auto simp: await_and_report_def dest!: report_and_move)
  then show ?thesis using two_steps orch_step.exit_failed [of ws i t ts] assms(2) by metis
next
  case (Inr result)
  with assms(1) obtain s1 where "orch_step dry (ws, s) (ws, s1)"
    and "strict_transition (now 3) (tk_id t) CLAIM_RUNNING CLAIM_RELEASED s1 = (Inr (), s')"
    by (auto simp: await_and_report_def dest!: report_and_move)
  then show ?thesis using two_steps orch_step.exit_ok [of ws i t ts] assms(2) by metis
qed

lemma launch_refines:
  assumes run: "launch_task sys config now u t iid prompt s = (Inr out, s')" and ws: "ws i = Holding t ts"
  shows "(orch_step (oc_dry_run config))\<^sup>*\<^sup>* (ws, s) (ws(i := Trying ts), s')"
proof (cases "oc_dry_run config")
  case True
  then have "strict_transition (now 1) (tk_id t) CLAIM_CLAIMED CLAIM_UNCLAIMED s = (Inr (), s')"
    using run by (auto simp: launch_task_def dest!: bind_InrD)
  with True ws show ?thesis by (blast intro: orch_step.give_back)
next
  case wet: False
  show ?thesis
  proof (cases "spawn_agent sys (oc_agent_cmd config) (oc_working_dir config) prompt
                 (resolve_env sys (oc_env_passthrough config))")
    case (Inl e)
    with run wet obtain s1 where "orch_step (oc_dry_run config) (ws, s) (ws, s1)"
      and "strict_transition (now 2) (tk_id t) CLAIM_CLAIMED CLAIM_RELEASED s1 = (Inr (), s')"
      by (auto simp: launch_task_def dest!: report_and_move)
    then show ?thesis using two_steps orch_step.spawn_failed [of ws i t ts] ws wet by metis
  next
    case (Inr child)
    with run wet obtain s1 where
      l: "strict_transition (now 1) (tk_id t) CLAIM_CLAIMED CLAIM_RUNNING s = (Inr (), s1)"
      and rest: "await_and_report sys config now u t iid child s1 = (Inr out, s')"
      by (auto simp: launch_task_def dest!: bind_InrD)
    have "orch_step (oc_dry_run config) (ws, s) (ws(i := Launched t ts), s1)"
      by (rule orch_step.launch [of ws i t ts, OF ws wet l])
    also have "(orch_step (oc_dry_run config))\<^sup>*\<^sup>* (ws(i := Launched t ts), s1) ((ws(i := Launched t ts))(i := Trying ts), s')"
      by (rule await_refines [OF rest]) simp
    finally show ?thesis by simp
  qed
qed

lemma dispatch_refines:
  assumes run: "dispatch_one sys config now u t s = (Inr out, s')" and ws: "ws i = Trying (t # ts)"
  shows "(orch_step (oc_dry_run config))\<^sup>*\<^sup>* (ws, s) (ws(i := Trying ts), s')"
proof -
  from bind_InrD [OF run [unfolded dispatch_one_def]] obtain won s1 where
    cas: "try_transition_claim (now 0) (tk_id t) CLAIM_UNCLAIMED CLAIM_CLAIMED s = (Inr won, s1)"
    and rest: "(if \<not> won then ret (LostRace (tk_id t)) else bind (task_brief config t)
       (\<lambda>(issue_id, prompt). launch_task sys config now u t issue_id prompt)) s1 = (Inr out, s')" by blast
  show ?thesis
  proof (cases won)
    case False
    then show ?thesis using rest cas orch_step.lose [of ws i t ts] ws by auto
  next
    case True
    with rest obtain ip s2 where br: "task_brief config t s1 = (Inr ip, s2)"
      and l: "launch_task sys config now u t (fst ip) (snd ip) s2 = (Inr out, s')"
      by (auto simp: case_prod_beta dest!: bind_InrD)
    have "s2 = s1" by (rule task_brief_state [OF br])
    have "orch_step (oc_dry_run config) (ws, s) (ws(i := Holding t ts), s1)"
      using cas True ws by (auto intro: orch_step.win)
    also have "(orch_step (oc_dry_run config))\<^sup>*\<^sup>* (ws(i := Holding t ts), s1) ((ws(i := Holding t ts))(i := Trying ts), s')"
      by (rule launch_refines) (use l \<open>s2 = s1\<close> in simp_all)
    finally show ?thesis by simp
  qed
qed

section \<open>The outcome of a dispatch\<close>

definition fresh_comment :: "string \<Rightarrow> store \<Rightarrow> bool" where
  "fresh_comment u s \<longleftrightarrow> ''cmt-'' @ u \<notin> bc_id ` set (t_comments s)"

text \<open>The comment a worker leaves on the issue.\<close>
definition is_report :: "timestamp \<Rightarrow> string \<Rightarrow> string \<Rightarrow> bool \<Rightarrow> board_comment_row \<Rightarrow> bool" where
  "is_report now iid body ok c \<longleftrightarrow> bc_body c = completion_body body ok \<and> bc_issue_id c = iid \<and>
     bc_author_type c = ''agent'' \<and> bc_created_at c = now"

lemma post_comment_ok:
  assumes "fresh_comment u s"
  shows "\<exists>c s'. post_completion_comment now u iid body ok s = (Inr (), s') \<and> is_report now iid body ok c \<and>
    t_comments s' = t_comments s @ [c] \<and> t_tasks s' = t_tasks s \<and> t_issues s' = t_issues s"
  using assms
  by (auto simp: post_completion_comment_def insert_board_comment_def sql_insert_def is_report_def
      fresh_comment_def list_ex_iff board_comment.defs)

lemma strict_ok:
  assumes "task_wf s" and "claim_of s t = Some f" and "g \<in> claim_states"
  shows "\<exists>s'. strict_transition now t f g s = (Inr (), s') \<and> task_wf s' \<and> claim_of s' t = Some g \<and>
    t_comments s' = t_comments s \<and> t_issues s' = t_issues s"
  using cas_effect [OF assms(1,3) refl assms(2)] assms
  by (simp add: strict_apply) (simp add: cas_rows [OF task_wf_keys])

lemma report_and_move_ok:
  assumes "task_wf s" and "claim_of s t = Some f" and "g \<in> claim_states" and "fresh_comment u s"
  shows "\<exists>c s'. bind (post_completion_comment n1 u iid body ok) (\<lambda>_. bind (strict_transition n2 t f g) (\<lambda>_. ret out)) s
      = (Inr out, s') \<and> claim_of s' t = Some g \<and> is_report n1 iid body ok c \<and>
    t_comments s' = t_comments s @ [c] \<and> t_issues s' = t_issues s"
proof -
  from post_comment_ok [OF assms(4), of n1 iid body ok] obtain c s1 where
    p: "post_completion_comment n1 u iid body ok s = (Inr (), s1)" "is_report n1 iid body ok c"
    "t_comments s1 = t_comments s @ [c]" "t_tasks s1 = t_tasks s" "t_issues s1 = t_issues s" by blast
  have "task_wf s1" "claim_of s1 t = Some f"
    using assms(1,2) task_invs_tasks(1) [OF p(4)] claim_of_tasks [OF p(4)] by simp_all
  from strict_ok [OF this assms(3), of n2] obtain s' where
    "strict_transition n2 t f g s1 = (Inr (), s')" "claim_of s' t = Some g"
    "t_comments s' = t_comments s1" "t_issues s' = t_issues s1" by blast
  with p show ?thesis by (auto intro!: exI [of _ c] exI [of _ s'])
qed

text \<open>The brief read after the claim is the one of the store before it.\<close>
definition brief_of :: "orch_config \<Rightarrow> string \<Rightarrow> board_issue \<Rightarrow> store \<Rightarrow> string" where
  "brief_of config iid issue s =
     build_prompt issue
       (map board_comment.truncate (order_asc bc_created_at (filter (\<lambda>r. bc_issue_id r = iid) (t_comments s))))
       (case bi_acceptance_criteria issue of None \<Rightarrow> [] | Some text \<Rightarrow> parse_acceptance_criteria text)
       (oc_kernel_base_url config)"

lemma task_brief_ok:
  assumes "tk_issue_id t = Some iid" and "get_board_issue iid s = (Inr (Some issue), s)"
    and "t_issues s1 = t_issues s" and "t_comments s1 = t_comments s"
  shows "task_brief config t s1 = (Inr (iid, brief_of config iid issue s), s1)"
proof -
  have "get_board_issue iid s1 = (Inr (Some issue), s1)"
    using assms(2,3) by (simp add: get_board_issue_def)
  then show ?thesis
    using assms(1,4) by (simp add: task_brief_def list_board_comments_def bind_def Let_def brief_of_def)
qed

lemma cas_won:
  assumes "task_wf s" and "claim_of s t = Some f" and "g \<in> claim_states"
  shows "\<exists>s'. try_transition_claim now t f g s = (Inr True, s') \<and> task_wf s' \<and> claim_of s' t = Some g \<and>
    t_comments s' = t_comments s \<and> t_issues s' = t_issues s"
  using cas_effect [OF assms(1,3) refl assms(2)] assms
  by (simp add: cas_rows [OF task_wf_keys])

text \<open>
  What a dispatch that won its claim must produce: the answer, the claim it leaves and the report it
  adds, as a function of what the process did.
\<close>
definition await_spec ::
  "'c os \<Rightarrow> orch_config \<Rightarrow> (nat \<Rightarrow> timestamp) \<Rightarrow> string \<Rightarrow> orch_task \<Rightarrow> 'c
   \<Rightarrow> dispatch_outcome \<times> string \<times> (board_comment_row \<Rightarrow> bool)" where
  "await_spec sys config now iid t child =
     (case await_agent sys child (oc_task_timeout config) of
        Inr run \<Rightarrow> (Released (tk_id t), CLAIM_RELEASED, is_report (now 2) iid (run_stdout run) True)
      | Inl e \<Rightarrow> (Retried (tk_id t), CLAIM_RETRY_QUEUED, is_report (now 2) iid (run_failed_body sys e) False))"

definition dispatch_spec ::
  "'c os \<Rightarrow> orch_config \<Rightarrow> (nat \<Rightarrow> timestamp) \<Rightarrow> string \<Rightarrow> orch_task \<Rightarrow> string
   \<Rightarrow> dispatch_outcome \<times> string \<times> (board_comment_row \<Rightarrow> bool)" where
  "dispatch_spec sys config now iid t prompt =
     (case spawn_agent sys (oc_agent_cmd config) (oc_working_dir config) prompt
             (resolve_env sys (oc_env_passthrough config)) of
        Inl e \<Rightarrow> (Retried (tk_id t), CLAIM_RELEASED, is_report (now 1) iid (spawn_failed_body sys e) False)
      | Inr child \<Rightarrow> await_spec sys config now iid t child)"

text \<open>An operation answers as such a specification says.\<close>
definition meets ::
  "(store, dispatch_outcome) db \<Rightarrow> store \<Rightarrow> orch_task \<Rightarrow> dispatch_outcome \<times> string \<times> (board_comment_row \<Rightarrow> bool) \<Rightarrow> bool" where
  "meets m s t spec \<longleftrightarrow> (\<exists>c s'. m s = (Inr (fst spec), s') \<and> claim_of s' (tk_id t) = Some (fst (snd spec)) \<and>
     snd (snd spec) c \<and> t_comments s' = t_comments s @ [c] \<and> t_issues s' = t_issues s)"

lemma await_outcome:
  assumes "task_wf s" and "claim_of s (tk_id t) = Some CLAIM_RUNNING" and "fresh_comment u s"
  shows "meets (await_and_report sys config now u t iid child) s t (await_spec sys config now iid t child)"
proof (cases "await_agent sys child (oc_task_timeout config)")
  case (Inl e)
  with report_and_move_ok [OF assms(1,2) claim_states_mem(4) assms(3), where out = "Retried (tk_id t)"]
  show ?thesis by (simp add: await_and_report_def await_spec_def meets_def)
next
  case (Inr run)
  with report_and_move_ok [OF assms(1,2) claim_states_mem(5) assms(3), where out = "Released (tk_id t)"]
  show ?thesis by (simp add: await_and_report_def await_spec_def meets_def)
qed

text \<open>A step that keeps the comments and the issues, before the rest of the run.\<close>
lemma meets_after:
  assumes "m s = (Inr x, s1)" and "t_comments s1 = t_comments s" and "t_issues s1 = t_issues s"
  shows "meets (bind m k) s t spec \<longleftrightarrow> meets (k x) s1 t spec"
  using assms by (simp add: meets_def)

lemma launch_outcome:
  assumes "task_wf s" and "claim_of s (tk_id t) = Some CLAIM_CLAIMED" and "fresh_comment u s" and "\<not> oc_dry_run config"
  shows "meets (launch_task sys config now u t iid prompt) s t (dispatch_spec sys config now iid t prompt)"
proof (cases "spawn_agent sys (oc_agent_cmd config) (oc_working_dir config) prompt
        (resolve_env sys (oc_env_passthrough config))")
  case (Inl e)
  with report_and_move_ok [OF assms(1,2) claim_states_mem(5) assms(3), where out = "Retried (tk_id t)"] assms(4)
  show ?thesis by (simp add: launch_task_def dispatch_spec_def meets_def)
next
  case (Inr child)
  from strict_ok [OF assms(1,2) claim_states_mem(3), of "now 1"] obtain s1 where
    l: "strict_transition (now 1) (tk_id t) CLAIM_CLAIMED CLAIM_RUNNING s = (Inr (), s1)" "task_wf s1"
    "claim_of s1 (tk_id t) = Some CLAIM_RUNNING" and eq: "t_comments s1 = t_comments s" "t_issues s1 = t_issues s" by blast
  have "fresh_comment u s1" using assms(3) eq by (simp add: fresh_comment_def)
  from await_outcome [OF l(2,3) this] Inr assms(4) show ?thesis
    by (simp add: launch_task_def dispatch_spec_def
        meets_after [where m = "strict_transition (now 1) (tk_id t) CLAIM_CLAIMED CLAIM_RUNNING", OF l(1) eq, simplified])
qed

lemma dispatch_meets:
  assumes "task_wf s" and "claim_of s (tk_id t) = Some CLAIM_UNCLAIMED" and "tk_issue_id t = Some iid"
    and "get_board_issue iid s = (Inr (Some issue), s)" and "fresh_comment u s" and "\<not> oc_dry_run config"
  shows "meets (dispatch_one sys config now u t) s t
    (dispatch_spec sys config now iid t (brief_of config iid issue s))"
proof -
  from cas_won [OF assms(1,2) claim_states_mem(2), of "now 0"] obtain s1 where
    w: "try_transition_claim (now 0) (tk_id t) CLAIM_UNCLAIMED CLAIM_CLAIMED s = (Inr True, s1)" "task_wf s1"
    "claim_of s1 (tk_id t) = Some CLAIM_CLAIMED" and eq: "t_comments s1 = t_comments s" "t_issues s1 = t_issues s" by blast
  have "fresh_comment u s1" using assms(5) eq by (simp add: fresh_comment_def)
  from launch_outcome [OF w(2,3) this assms(6), where sys = sys and now = now and iid = iid]
    task_brief_ok [OF assms(3,4) eq(2,1)]
  show ?thesis
    unfolding dispatch_one_def meets_after [where m = "try_transition_claim (now 0) (tk_id t) CLAIM_UNCLAIMED CLAIM_CLAIMED", OF w(1) eq]
    by (simp add: meets_def)
qed

lemma insort_snoc: "k x \<le> k r \<Longrightarrow> insort_key k x (ys @ [r]) = insort_key k x ys @ [r]"
  by (induction ys) auto

lemma order_asc_snoc: "\<forall>x \<in> set rows. k x \<le> k r \<Longrightarrow> order_asc k (rows @ [r]) = order_asc k rows @ [r]"
  unfolding order_asc_def by (induction rows) (auto simp: insort_snoc)

lemma truncate_fields [simp]:
  "bc_body (board_comment.truncate c) = bc_body c" "bc_created_at (board_comment.truncate c) = bc_created_at c"
  "bc_author_type (board_comment.truncate c) = bc_author_type c"
  by (simp_all add: board_comment.defs)

lemma report_is_brief:
  assumes "is_report now iid body ok c" and "t_comments s' = cs @ [c]"
    and "\<forall>d \<in> set cs. bc_issue_id d = iid \<longrightarrow> bc_created_at d \<le> now"
  shows "prefix (completion_body body ok) (brief_of config iid issue s')"
proof -
  let ?rows = "filter (\<lambda>r. bc_issue_id r = iid) cs"
  let ?listed = "map board_comment.truncate (order_asc bc_created_at (filter (\<lambda>r. bc_issue_id r = iid) (t_comments s')))"
  have "?listed = map board_comment.truncate (order_asc bc_created_at ?rows) @ [board_comment.truncate c]"
    using assms order_asc_snoc [of ?rows bc_created_at c] by (auto simp: is_report_def)
  then have "latest_dispatch_comment ?listed = Some (board_comment.truncate c)"
    using assms by (auto simp: is_report_def is_dispatch_comment_def intro!: latest_dispatch_snoc)
  then have "prefix (bc_body c) (brief_of config iid issue s')"
    using prompt_prefix [of issue ?listed] unfolding brief_of_def by (metis (lifting) option.case(2) prefixI truncate_fields(1))
  with assms(1) show ?thesis by (simp add: is_report_def)
qed

section \<open>A sample run\<close>

definition sample_os :: "unit os" where
  "sample_os = \<lparr>os_spawn = (\<lambda>program args dir prompt env. Inr ((), None, None)),
     os_wait = (\<lambda>child timeout. Some (Inr (Some 0, ''ok'', []))), os_vars = [(''PATH'', ''/bin'')],
     os_show_duration = show_nat\<rparr>"

definition sample_config :: orch_config where
  "sample_config = \<lparr>oc_agent_cmd = [''claude''], oc_working_dir = ''.'', oc_env_passthrough = [],
     oc_poll_interval = 1000, oc_max_per_pass = 1, oc_task_timeout = 1000, oc_dry_run = False,
     oc_kernel_base_url = ''http://h''\<rparr>"

definition agent_issue :: board_issue where
  "agent_issue = (sample_issue ''i1'' InProgress ''t0'')\<lparr>bi_assignee_type := Some ''agent''\<rparr>"

definition agent_task :: orch_task where
  "agent_task = new_task ''t1'' ''i1'' ''P'' ''claude'' 1"

definition agent_board :: store where
  "agent_board = (sample_board [agent_issue])\<lparr>t_tasks := [agent_task]\<rparr>"

lemma agent_board_facts:
  "task_wf agent_board" "claim_of agent_board (tk_id agent_task) = Some CLAIM_UNCLAIMED"
  "tk_issue_id agent_task = Some ''i1''" "fresh_comment u agent_board" "t_comments agent_board = []"
  "\<not> oc_dry_run sample_config" "t_tasks agent_board = [agent_task]"
  by (simp_all add: task_wf_def agent_board_def agent_task_def new_task_def i32_ok_def claim_of_def
      fresh_comment_def sample_board_def sample_store_def open_with_device_def sample_config_def)

lemma agent_board_issue: "get_board_issue ''i1'' agent_board = (Inr (Some agent_issue), agent_board)"
proof -
  have "bi_id agent_issue = ''i1''" by (simp add: agent_issue_def sample_issue_def)
  then show ?thesis by (simp add: get_board_issue_def agent_board_def row_issue_roundtrip)
qed

lemma agent_board_queue: "list_dispatchable_tasks 1 agent_board = (Inr [agent_task], agent_board)"
  by (simp add: dispatch_apply [OF agent_board_facts(1)])
    (simp add: dispatchable_def agent_board_def agent_task_def new_task_def agent_issue_def sample_issue_def
      issue_to_row_def CLAIM_UNCLAIMED_def order_asc_def)

text \<open>One worker polls the sample board and wins the task.\<close>
definition polled :: "nat \<Rightarrow> worker" where
  "polled = (\<lambda>_. Idle)(0 := Trying [agent_task])"

definition claimed_board :: store where
  "claimed_board = snd (try_transition_claim ''t2'' (tk_id agent_task) CLAIM_UNCLAIMED CLAIM_CLAIMED agent_board)"

lemma sample_steps:
  "orch_step dry (\<lambda>_. Idle, agent_board) (polled, agent_board)"
  "orch_step dry (polled, agent_board) (polled(0 := Holding agent_task []), claimed_board)"
proof -
  show "orch_step dry (\<lambda>_. Idle, agent_board) (polled, agent_board)"
    unfolding polled_def by (rule orch_step.poll [OF _ agent_board_queue]) simp
  have "try_transition_claim ''t2'' (tk_id agent_task) CLAIM_UNCLAIMED CLAIM_CLAIMED agent_board = (Inr True, claimed_board)"
    using agent_board_facts(2) by (simp add: claimed_board_def cas_rows [OF task_wf_keys [OF agent_board_facts(1)]])
  then show "orch_step dry (polled, agent_board) (polled(0 := Holding agent_task []), claimed_board)"
    by (intro orch_step.win) (simp_all add: polled_def)
qed

lemma sample_reach: "(orch_step dry)\<^sup>*\<^sup>* (\<lambda>_. Idle, agent_board) (polled(0 := Holding agent_task []), claimed_board)"
  by (rule two_steps [of "orch_step dry", OF sample_steps])

section \<open>Properties\<close>

text \<open>C1: however any number of workers interleave with each other and with the rest of the kernel, and
wherever they stop, no task is held by two workers at once, and the claim of a held task is the one its
holder set: Claimed before the launch, Running after it.\<close>
theorem no_double_dispatch:
  assumes "task_wf s0" and "(orch_step dry)\<^sup>*\<^sup>* (\<lambda>_. Idle, s0) (ws, s)"
  shows "(\<forall>i j t c c'. holds (ws i) = Some (t, c) \<and> holds (ws j) = Some (t, c') \<longrightarrow> i = j) \<and>
    (\<forall>i t c. holds (ws i) = Some (t, c) \<longrightarrow> claim_of s t = Some c)"
  using orch_reachable_inv [OF assms(2,1)] unfolding orch_inv_def by auto

theorem no_double_dispatch_witness:
  "claim_of claimed_board (tk_id agent_task) = Some CLAIM_CLAIMED"
proof -
  have "holds ((polled(0 := Holding agent_task [])) 0) = Some (tk_id agent_task, CLAIM_CLAIMED)" by simp
  with no_double_dispatch [OF agent_board_facts(1) sample_reach] show ?thesis by blast
qed

text \<open>the strict transition of a holder never fails: under every interleaving of workers and other
clients the compare-and-swap finds the claim the worker left.\<close>
theorem holder_transition_succeeds:
  assumes "task_wf s0" and "(orch_step dry)\<^sup>*\<^sup>* (\<lambda>_. Idle, s0) (ws, s)" and "holds (ws i) = Some (t, from)"
  shows "fst (strict_transition now t from to s) = Inr ()"
  using orch_reachable_inv [OF assms(2,1)] assms(3) unfolding orch_inv_def by (auto simp: strict_apply)

theorem holder_transition_succeeds_witness:
  "fst (strict_transition ''t3'' (tk_id agent_task) CLAIM_CLAIMED CLAIM_RUNNING claimed_board) = Inr ()"
  by (rule holder_transition_succeeds [OF agent_board_facts(1) sample_reach, where i = 0]) simp

text \<open>outside dry-run mode every change a step makes to the claim of an existing task is a transition of
the verified claim machine; in dry-run mode the one other change returns Claimed to Unclaimed, which that
machine does not have.\<close>
theorem claims_follow_lean:
  assumes "task_wf s0" and "(orch_step dry)\<^sup>*\<^sup>* (\<lambda>_. Idle, s0) (ws, s)" and "orch_step dry (ws, s) (ws', s')"
    and "claim_of s t = Some c" and "claim_of s' t \<noteq> Some c"
  shows "\<exists>c'. claim_of s' t = Some c' \<and> (lean_move c c' \<or> dry \<and> c = CLAIM_CLAIMED \<and> c' = CLAIM_UNCLAIMED)
    \<and> \<not> lean_move CLAIM_CLAIMED CLAIM_UNCLAIMED"
proof -
  have "task_wf s" using orch_reachable_inv [OF assms(2,1)] by (simp add: orch_inv_def)
  from orch_step_claims [OF assms(3) this] assms(4,5) show ?thesis
    using worker_moves_are_lean dry_run_move_not_lean by (auto split: if_splits)
qed

theorem claims_follow_lean_witness:
  "\<exists>c'. claim_of claimed_board (tk_id agent_task) = Some c' \<and> lean_move CLAIM_UNCLAIMED c'"
proof -
  have "claim_of claimed_board (tk_id agent_task) = Some CLAIM_CLAIMED"
    using cas_won [OF agent_board_facts(1,2) claim_states_mem(2), of "''t2''"] by (auto simp: claimed_board_def)
  then have "claim_of claimed_board (tk_id agent_task) \<noteq> Some CLAIM_UNCLAIMED" by (simp add: claim_defs)
  from claims_follow_lean [OF agent_board_facts(1) r_into_rtranclp [of "orch_step False", OF sample_steps(1)] sample_steps(2) agent_board_facts(2) this]
  show ?thesis by blast
qed

text \<open>C3: a dispatch is one worker's run of the interleaved system: whatever it returns normally, its store
calls are steps of that worker from trying the task to being done with it.\<close>
theorem dispatch_is_a_run:
  assumes "dispatch_one sys config now u t s = (Inr out, s')" and "ws i = Trying (t # ts)"
  shows "(orch_step (oc_dry_run config))\<^sup>*\<^sup>* (ws, s) (ws(i := Trying ts), s')"
  by (rule dispatch_refines [of sys config now u t s out s' ws i ts, OF assms])

theorem dispatch_is_a_run_witness:
  "\<exists>ws s'. (orch_step False)\<^sup>*\<^sup>* (polled, agent_board) (ws, s') \<and> claim_of s' (tk_id agent_task) = Some CLAIM_RELEASED"
proof -
  from dispatch_meets [OF agent_board_facts(1-3) agent_board_issue agent_board_facts(4,6), of sample_os "\<lambda>_. ''t2''" "''u''"]
  obtain s' where run: "dispatch_one sample_os sample_config (\<lambda>_. ''t2'') ''u'' agent_task agent_board =
      (Inr (Released (tk_id agent_task)), s')" and c: "claim_of s' (tk_id agent_task) = Some CLAIM_RELEASED"
    by (auto simp: meets_def dispatch_spec_def await_spec_def spawn_agent_def await_agent_def sample_os_def
        sample_config_def pipe_error_def)
  have "(orch_step (oc_dry_run sample_config))\<^sup>*\<^sup>* (polled, agent_board) (polled(0 := Trying []), s')"
    by (rule dispatch_is_a_run [OF run]) (simp add: polled_def)
  with c show ?thesis by (auto simp: sample_config_def)
qed

text \<open>C2: dispatching an unclaimed task of a known issue runs the agent on the issue's brief and ends as the
agent did: released with its output after a clean exit, queued for retry after a failure or a timeout,
released after a failed spawn; exactly one report is added to the issue.\<close>
theorem dispatch_outcome:
  assumes "task_wf s" and "claim_of s (tk_id t) = Some CLAIM_UNCLAIMED" and "tk_issue_id t = Some iid"
    and "get_board_issue iid s = (Inr (Some issue), s)" and "fresh_comment u s" and "\<not> oc_dry_run config"
  shows "\<exists>out claim report c s'. dispatch_one sys config now u t s = (Inr out, s') \<and>
    dispatch_spec sys config now iid t (brief_of config iid issue s) = (out, claim, report) \<and>
    claim_of s' (tk_id t) = Some claim \<and> report c \<and> t_comments s' = t_comments s @ [c] \<and> t_issues s' = t_issues s"
  using dispatch_meets [OF assms, of sys now] unfolding meets_def by (metis prod.collapse)

theorem dispatch_outcome_witness:
  "\<exists>c s'. dispatch_one sample_os sample_config (\<lambda>_. ''t2'') ''u'' agent_task agent_board =
      (Inr (Released (tk_id agent_task)), s') \<and> claim_of s' (tk_id agent_task) = Some CLAIM_RELEASED \<and>
    is_report ''t2'' ''i1'' ''ok'' True c \<and> t_comments s' = [c]"
  using dispatch_outcome [OF agent_board_facts(1-3) agent_board_issue agent_board_facts(4,6),
      of sample_os "\<lambda>_. ''t2''" "''u''"] agent_board_facts(5)
  by (auto simp: dispatch_spec_def await_spec_def spawn_agent_def await_agent_def sample_os_def
      sample_config_def pipe_error_def)

text \<open>the report a worker leaves becomes the brief of the next attempt: whatever the next dispatch of
the issue sends to the agent starts with the last run's completion or failure report, in place of the
board's dispatch comment.\<close>
theorem next_brief_is_report:
  assumes "task_wf s" and "claim_of s (tk_id t) = Some CLAIM_UNCLAIMED" and "tk_issue_id t = Some iid"
    and "get_board_issue iid s = (Inr (Some issue), s)" and "fresh_comment u s" and "\<not> oc_dry_run config"
    and "\<forall>d \<in> set (t_comments s). bc_created_at d \<le> now 1" and "now 1 \<le> now 2"
    and "dispatch_one sys config now u t s = (r, s')"
  shows "\<exists>body ok. prefix (completion_body body ok) (brief_of config iid issue s')"
proof -
  from dispatch_meets [OF assms(1-6), of sys now] assms(9) obtain c where
    c: "snd (snd (dispatch_spec sys config now iid t (brief_of config iid issue s))) c"
    and cs: "t_comments s' = t_comments s @ [c]" by (auto simp: meets_def)
  have "\<exists>n body ok. (n = now 1 \<or> n = now 2) \<and> is_report n iid body ok c"
    using c by (auto simp: dispatch_spec_def await_spec_def split: sum.splits)
  then obtain n body ok where n: "n = now 1 \<or> n = now 2" and rep: "is_report n iid body ok c" by blast
  have "\<forall>d \<in> set (t_comments s). bc_issue_id d = iid \<longrightarrow> bc_created_at d \<le> n"
    using assms(7,8) n by (metis order_trans)
  from report_is_brief [OF rep cs this] show ?thesis by blast
qed

theorem next_brief_is_report_witness:
  "\<exists>s' body ok. snd (dispatch_one sample_os sample_config (\<lambda>_. ''t2'') ''u'' agent_task agent_board) = s' \<and>
     prefix (completion_body body ok) (brief_of sample_config ''i1'' agent_issue s')"
  using next_brief_is_report [OF agent_board_facts(1-3) agent_board_issue agent_board_facts(4,6), of "\<lambda>_. ''t2''"
      sample_os "''u''", OF _ _ prod.collapse [symmetric]] agent_board_facts(5) by simp

text \<open>when the issue of a claimed task cannot be read the dispatch fails, but the claim it won stays
Claimed, and the task is never listed for dispatch again.\<close>
theorem claim_kept_on_error:
  assumes "task_wf s" and "claim_of s (tk_id t) = Some CLAIM_UNCLAIMED" and "tk_issue_id t = Some iid"
    and "get_board_issue iid s = (Inr None, s)"
  shows "\<exists>s'. dispatch_one sys config now u t s = (Inl (Other (''issue '' @ iid @ '' disappeared'')), s') \<and>
    claim_of s' (tk_id t) = Some CLAIM_CLAIMED \<and> tk_id t \<notin> tk_id ` set (dispatchable s')"
proof -
  from cas_won [OF assms(1,2) claim_states_mem(2), of "now 0"] obtain s1 where
    w: "try_transition_claim (now 0) (tk_id t) CLAIM_UNCLAIMED CLAIM_CLAIMED s = (Inr True, s1)" "task_wf s1"
    "claim_of s1 (tk_id t) = Some CLAIM_CLAIMED" and eq: "t_issues s1 = t_issues s" by blast
  have "get_board_issue iid s1 = (Inr None, s1)" using assms(4) eq by (simp add: get_board_issue_def)
  then have "dispatch_one sys config now u t s = (Inl (Other (''issue '' @ iid @ '' disappeared'')), s1)"
    using assms(3) by (simp add: dispatch_one_def w(1) task_brief_def)
  moreover have "tk_id t \<notin> tk_id ` set (dispatchable s1)"
  proof
    assume "tk_id t \<in> tk_id ` set (dispatchable s1)"
    then obtain r where r: "r \<in> set (t_tasks s1)" "tk_id r = tk_id t" "tk_orchestrator_claim r = ''Unclaimed''"
      by (auto simp: set_dispatchable)
    have "distinct (map tk_id (t_tasks s1))" using task_wf_keys [OF w(2)] by (simp add: task_keys_def)
    from find_key_eq [OF this r(1)] r w(3) show False by (simp add: claim_of_def claim_defs)
  qed
  ultimately show ?thesis using w(3) by blast
qed

theorem claim_kept_on_error_witness:
  "\<exists>s'. dispatch_one sample_os sample_config (\<lambda>_. ''t2'') ''u'' agent_task (agent_board\<lparr>t_issues := []\<rparr>) =
      (Inl (Other ''issue i1 disappeared''), s') \<and> claim_of s' (tk_id agent_task) = Some CLAIM_CLAIMED"
proof -
  let ?s = "agent_board\<lparr>t_issues := []\<rparr>"
  have "task_wf ?s" using agent_board_facts(1) task_invs_tasks(1) [of ?s agent_board] by simp
  moreover have "claim_of ?s (tk_id agent_task) = Some CLAIM_UNCLAIMED"
    using agent_board_facts(2) claim_of_tasks [of ?s agent_board] by simp
  moreover have "get_board_issue ''i1'' ?s = (Inr None, ?s)" by (simp add: get_board_issue_def)
  ultimately show ?thesis
    using claim_kept_on_error [of ?s agent_task "''i1''" sample_os sample_config "\<lambda>_. ''t2''" "''u''"]
      agent_board_facts(3) by auto
qed

text \<open>truncating a report keeps it when it fits, and otherwise keeps the longest tail within the limit
that starts at a character boundary, after a marker with the number of bytes over the limit.\<close>
theorem truncate_tail_exact:
  "if length body \<le> m then truncate_tail body m = body
   else \<exists>k. length body - m \<le> k \<and> k \<le> length body \<and> is_char_boundary body k \<and>
     {length body - m..<k} \<inter> {j. is_char_boundary body j} = {} \<and> length (drop k body) \<le> m \<and>
     truncate_tail body m =
       ''_[truncated '' @ show_nat (length body - m) @ '' bytes from the head]_'' @ nl @ nl @ drop k body"
proof (cases "length body \<le> m")
  case False
  let ?k = "find_cut body (length body - m)"
  have "length body - m \<le> ?k \<and> ?k \<le> length body \<and> is_char_boundary body ?k"
    by (rule find_cut_spec) simp
  moreover have "{length body - m..<?k} \<inter> {j. is_char_boundary body j} = {}"
    using find_cut_first [of "length body - m"] by auto
  ultimately show ?thesis
    using False by (intro if_not_P [THEN iffD2] exI [of _ ?k]) (auto simp: truncate_tail_def Let_def)
qed (simp add: truncate_tail_def)

end
