(* ===== verification/Guardrails.thy ===== *)
theory Guardrails
  imports Core_Types
begin

text \<open>
  gctrl-guardrails: the four policies (policies.rs) and the engine that evaluates them (engine.rs).
  A check that panics is None. Costs are exact rationals; their texts round half to even, as Rust's
  fixed-precision formatting does.
\<close>

section \<open>Operations\<close>

record execution_context =
  cx_session_id :: string
  cx_agent_name :: string
  cx_current_cost_usd :: f64
  cx_span_count :: u64
  cx_recent_operations :: "string list"
  cx_pending_command :: "string option"
  cx_pending_diff_lines :: "u32 option"

text \<open>The trait GuardrailPolicy.\<close>
record guardrail_policy =
  pol_name :: string
  pol_check :: "execution_context \<Rightarrow> policy_decision option"

text \<open>Formatting with a fixed number of decimals.\<close>
definition round_half_even :: "rat \<Rightarrow> int" where
  "round_half_even q =
     (let f = \<lfloor>q\<rfloor>; r = q - of_int f
      in if r < 1 / 2 then f else if 1 / 2 < r then f + 1 else if even f then f else f + 1)"

definition show_fixed :: "nat \<Rightarrow> rat \<Rightarrow> string" where
  "show_fixed p x =
     (let n = nat (round_half_even (\<bar>x\<bar> * 10 ^ p));
          frac = show_nat (n mod 10 ^ p)
      in (if x < 0 then ''-'' else []) @ show_nat (n div 10 ^ p) @
         (if p = 0 then [] else ''.'' @ replicate (p - length frac) CHR ''0'' @ frac))"

definition session_budget_check :: "f64 \<Rightarrow> execution_context \<Rightarrow> policy_decision option" where
  "session_budget_check budget_usd ctx =
     Some (if budget_usd < cx_current_cost_usd ctx then
        Deny (''session cost $'' @ show_fixed 2 (cx_current_cost_usd ctx) @ '' exceeds budget $'' @
              show_fixed 2 budget_usd)
      else if budget_usd * (8 / 10) < cx_current_cost_usd ctx then
        Warn (''session cost $'' @ show_fixed 2 (cx_current_cost_usd ctx) @ '' is at '' @
              show_fixed 0 (cx_current_cost_usd ctx / budget_usd * 100) @ ''% of budget $'' @
              show_fixed 2 budget_usd)
      else Allow)"

text \<open>last\_n[0] is read in the message, and panics on an empty slice.\<close>
definition loop_detection_check :: "nat \<Rightarrow> execution_context \<Rightarrow> policy_decision option" where
  "loop_detection_check threshold ctx =
     (if length (cx_recent_operations ctx) < threshold then Some Allow
      else
        let last_n = drop (length (cx_recent_operations ctx) - threshold) (cx_recent_operations ctx)
        in if list_all (\<lambda>op. op = last_n ! 0) last_n
           then (case last_n of
                   [] \<Rightarrow> None
                 | op # _ \<Rightarrow> Some (Deny (''detected '' @ show_nat threshold @
                     '' identical operations: '' @ [CHR 0x27] @ op @ [CHR 0x27])))
           else Some Allow)"

fun first_blocked :: "string \<Rightarrow> string list \<Rightarrow> policy_decision" where
  "first_blocked cmd [] = Allow"
| "first_blocked cmd (blocked # rest) =
     (if contains blocked cmd
      then Deny (''command contains blocked pattern: '' @ [CHR 0x27] @ blocked @ [CHR 0x27])
      else first_blocked cmd rest)"

definition command_blocklist_check :: "string list \<Rightarrow> execution_context \<Rightarrow> policy_decision option" where
  "command_blocklist_check blocked ctx =
     Some (case cx_pending_command ctx of None \<Rightarrow> Allow | Some cmd \<Rightarrow> first_blocked cmd blocked)"

definition diff_size_check :: "u32 \<Rightarrow> u32 \<Rightarrow> execution_context \<Rightarrow> policy_decision option" where
  "diff_size_check warn_lines deny_lines ctx =
     Some (case cx_pending_diff_lines ctx of
        None \<Rightarrow> Allow
      | Some n \<Rightarrow>
          if deny_lines < n then
            Deny (''diff of '' @ show_nat (unat n) @ '' lines exceeds max '' @ show_nat (unat deny_lines))
          else if warn_lines < n then
            Warn (''diff of '' @ show_nat (unat n) @ '' lines exceeds warning threshold '' @
                  show_nat (unat warn_lines))
          else Allow)"

definition SessionBudgetPolicy :: "f64 \<Rightarrow> guardrail_policy" where
  "SessionBudgetPolicy budget_usd = \<lparr>pol_name = ''session_budget'', pol_check = session_budget_check budget_usd\<rparr>"

definition LoopDetectionPolicy :: "nat \<Rightarrow> guardrail_policy" where
  "LoopDetectionPolicy threshold = \<lparr>pol_name = ''loop_detection'', pol_check = loop_detection_check threshold\<rparr>"

definition CommandBlocklistPolicy :: "string list \<Rightarrow> guardrail_policy" where
  "CommandBlocklistPolicy blocked = \<lparr>pol_name = ''command_blocklist'', pol_check = command_blocklist_check blocked\<rparr>"

definition DiffSizePolicy :: "u32 \<Rightarrow> u32 \<Rightarrow> guardrail_policy" where
  "DiffSizePolicy warn_lines deny_lines =
     \<lparr>pol_name = ''diff_size'', pol_check = diff_size_check warn_lines deny_lines\<rparr>"

text \<open>The engine is its list of policies, in the order they were added.\<close>

type_synonym guardrail_engine = "guardrail_policy list"

definition add_policy :: "guardrail_policy \<Rightarrow> guardrail_engine \<Rightarrow> guardrail_engine" where
  "add_policy policy engine = engine @ [policy]"

fun evaluate :: "guardrail_engine \<Rightarrow> execution_context \<Rightarrow> (string \<times> policy_decision) list option" where
  "evaluate [] ctx = Some []"
| "evaluate (p # ps) ctx =
     (case pol_check p ctx of None \<Rightarrow> None
      | Some d \<Rightarrow> map_option (\<lambda>rest. (pol_name p, d) # rest) (evaluate ps ctx))"

fun is_deny :: "policy_decision \<Rightarrow> bool" where
  "is_deny (Deny _) = True"
| "is_deny _ = False"

definition is_denied :: "guardrail_engine \<Rightarrow> execution_context \<Rightarrow> bool option" where
  "is_denied engine ctx = map_option (list_ex (\<lambda>(_, d). is_deny d)) (evaluate engine ctx)"

section \<open>Lemmas\<close>

lemma evaluate_Some:
  "evaluate ps ctx = Some ds \<longleftrightarrow> map (\<lambda>p. pol_check p ctx) ps = map (\<lambda>x. Some (snd x)) ds \<and> map pol_name ps = map fst ds"
  by (induction ps arbitrary: ds) (auto split: option.splits simp: Cons_eq_map_conv map_eq_Cons_conv)

lemma evaluate_None: "evaluate ps ctx = None \<longleftrightarrow> (\<exists>p \<in> set ps. pol_check p ctx = None)"
  by (induction ps) (auto split: option.splits)

lemma first_blocked_deny: "is_deny (first_blocked cmd bs) \<longleftrightarrow> (\<exists>b \<in> set bs. contains b cmd)"
  by (induction bs) auto

lemma first_blocked_cases: "first_blocked cmd bs = Allow \<or> is_deny (first_blocked cmd bs)"
  by (induction bs) auto

lemma all_equal_replicate: "list_all (\<lambda>y. y = x) xs \<longleftrightarrow> xs = replicate (length xs) x"
  by (induction xs) auto

section \<open>Properties\<close>

text \<open>the engine answers with one decision per policy, in the order the policies were added, and denies
exactly when some policy denies; it has no answer exactly when a policy panics.\<close>
theorem engine_verdict:
  "case is_denied engine ctx of
     None \<Rightarrow> \<exists>p. p \<in> set engine \<and> pol_check p ctx = None
   | Some b \<Rightarrow> (\<exists>ds. evaluate engine ctx = Some ds \<and> map fst ds = map pol_name engine \<and>
        map (Some \<circ> snd) ds = map (\<lambda>p. pol_check p ctx) engine) \<and>
      b = (\<exists>p m. p \<in> set engine \<and> pol_check p ctx = Some (Deny m))"
proof (cases "evaluate engine ctx")
  case None
  then have "\<exists>p \<in> set engine. pol_check p ctx = None" by (simp add: evaluate_None)
  with None show ?thesis by (auto simp: is_denied_def)
next
  case (Some ds)
  then have c: "map (\<lambda>p. pol_check p ctx) engine = map (\<lambda>x. Some (snd x)) ds" and n: "map pol_name engine = map fst ds"
    by (simp_all add: evaluate_Some)
  have "(\<exists>p m. p \<in> set engine \<and> pol_check p ctx = Some (Deny m)) \<longleftrightarrow>
      (\<exists>m. Some (Deny m) \<in> set (map (\<lambda>p. pol_check p ctx) engine))" by (auto simp: image_iff) metis+
  also have "\<dots> \<longleftrightarrow> list_ex (\<lambda>(_, d). is_deny d) ds"
    unfolding c by (auto simp: list_ex_iff image_iff elim!: is_deny.elims) force+
  finally show ?thesis using Some c n by (simp add: is_denied_def comp_def)
qed

text \<open>for a positive threshold loop detection denies exactly when the recent operations end in that
many repetitions of one operation; with threshold 0 it panics on every context.\<close>
theorem loop_detection_exact:
  "case loop_detection_check n ctx of
     None \<Rightarrow> n = 0
   | Some d \<Rightarrow> 0 < n \<and> is_deny d = (\<exists>op. suffix (replicate n op) (cx_recent_operations ctx)) \<and>
       (is_deny d \<or> d = Allow)"
proof (cases "length (cx_recent_operations ctx) < n")
  case True
  then have "\<not> suffix (replicate n op) (cx_recent_operations ctx)" for op
    by (auto dest: suffix_length_le)
  with True show ?thesis by (auto simp: loop_detection_check_def)
next
  case False
  define l where "l = drop (length (cx_recent_operations ctx) - n) (cx_recent_operations ctx)"
  have len: "length l = n" using False by (simp add: l_def)
  have suf: "suffix (replicate n op) (cx_recent_operations ctx) \<longleftrightarrow> l = replicate n op" for op
    using False unfolding l_def
    by (metis append_take_drop_id diff_diff_cancel length_drop length_replicate not_less suffix_def
        append_eq_append_conv length_append add_diff_cancel_right')
  show ?thesis
  proof (cases l)
    case Nil
    then have "n = 0" using len by simp
    with Nil show ?thesis by (simp add: loop_detection_check_def l_def [symmetric])
  next
    case (Cons op rest)
    then have "list_all (\<lambda>x. x = l ! 0) l \<longleftrightarrow> (\<exists>op. l = replicate n op)"
      using len by (auto simp: all_equal_replicate simp flip: len)
    then show ?thesis
      using False Cons len by (auto simp: loop_detection_check_def l_def [symmetric] suf Let_def)
  qed
qed

text \<open>the blocklist denies exactly when the pending command contains a blocked pattern, and allows
otherwise.\<close>
theorem blocklist_exact:
  "\<exists>d. command_blocklist_check blocked ctx = Some d \<and>
     (is_deny d = (\<exists>cmd b. cx_pending_command ctx = Some cmd \<and> b \<in> set blocked \<and> (\<exists>x y. cmd = x @ b @ y))) \<and>
     (is_deny d \<or> d = Allow)"
proof (cases "cx_pending_command ctx")
  case (Some cmd)
  then show ?thesis
    using first_blocked_cases [of cmd blocked] first_blocked_deny [of cmd blocked]
    by (auto simp: command_blocklist_check_def contains_iff)
qed (simp add: command_blocklist_check_def)

fun severity :: "policy_decision \<Rightarrow> nat" where
  "severity Allow = 0"
| "severity (Warn _) = 1"
| "severity (Deny _) = 2"

text \<open>spending more never softens the budget's verdict.\<close>
theorem budget_monotone:
  assumes "c \<le> c'"
  shows "severity (the (session_budget_check b (ctx\<lparr>cx_current_cost_usd := c\<rparr>))) \<le>
     severity (the (session_budget_check b (ctx\<lparr>cx_current_cost_usd := c'\<rparr>)))"
  using assms by (simp add: session_budget_check_def)

definition sample_context :: execution_context where
  "sample_context = \<lparr>cx_session_id = ''s'', cx_agent_name = ''a'', cx_current_cost_usd = 0, cx_span_count = 0,
     cx_recent_operations = [], cx_pending_command = None, cx_pending_diff_lines = None\<rparr>"

theorem budget_monotone_witness:
  "severity (the (session_budget_check 10 (sample_context\<lparr>cx_current_cost_usd := 9\<rparr>))) \<le>
     severity (the (session_budget_check 10 (sample_context\<lparr>cx_current_cost_usd := 11\<rparr>)))"
  using budget_monotone [of 9 11 10 sample_context] by simp

end
