(* ===== verification/Store_Inbox.thy ===== *)
theory Store_Inbox
  imports Store_Schema
begin

text \<open>
  The inbox (sqlite\_store.rs, Inbox application; the action routes of gctrl-otel/src/receiver.rs):
  threads with derived counters, messages, and the actions that close a pending message.
\<close>

section \<open>Threads and their counters\<close>

text \<open>SELECT .. WHERE context\_type AND context\_ref: the first such thread.\<close>
definition get_or_create_inbox_thread ::
  "timestamp \<Rightarrow> string \<Rightarrow> string \<Rightarrow> string \<Rightarrow> string \<Rightarrow> string option \<Rightarrow> (store, inbox_thread) db" where
  "get_or_create_inbox_thread now uuid context_type context_ref title project_key =
     (\<lambda>s. case find (\<lambda>t. it_context_type t = context_type \<and> it_context_ref t = context_ref) (t_threads s) of
        Some thread \<Rightarrow> (Inr thread, s)
      | None \<Rightarrow>
          let thread = \<lparr>it_id = uuid, it_context_type = context_type, it_context_ref = context_ref,
                it_title = title, it_project_key = project_key, it_pending_count = 0,
                it_latest_urgency = ''info'', it_created_at = now, it_updated_at = now\<rparr>
          in bind (sql_insert t_threads t_threads_update (\<lambda>a b. it_id a = it_id b) [] thread)
               (\<lambda>_. ret thread) s)"

definition urgency_order :: "string list" where
  "urgency_order = [''critical'', ''high'', ''medium'', ''low'', ''info'']"

text \<open>position(..).unwrap\_or(4).\<close>
definition urgency_pos :: "string \<Rightarrow> nat" where
  "urgency_pos u = (case find (\<lambda>i. urgency_order ! i = u) [0..<5] of None \<Rightarrow> 4 | Some i \<Rightarrow> i)"

definition better_urgency :: "string \<Rightarrow> string \<Rightarrow> string" where
  "better_urgency best u = (if urgency_pos u < urgency_pos best then urgency_order ! urgency_pos u else best)"

definition pending_in :: "string \<Rightarrow> store \<Rightarrow> inbox_message list" where
  "pending_in thread_id s =
     filter (\<lambda>m. im_thread_id m = thread_id \<and> im_status m = ''pending'') (t_messages s)"

definition latest_urgency_of :: "inbox_message list \<Rightarrow> string" where
  "latest_urgency_of pending =
     (if 0 < length pending then foldl better_urgency ''info'' (remdups (map im_urgency pending)) else ''info'')"

definition recalc_thread_counts :: "timestamp \<Rightarrow> string \<Rightarrow> (store, unit) db" where
  "recalc_thread_counts now thread_id =
     bind (sql_select (pending_in thread_id)) (\<lambda>pending.
     bind (sql_update t_threads t_threads_update (\<lambda>t. it_id t = thread_id)
            (\<lambda>t. t\<lparr>it_pending_count := int (length pending),
                   it_latest_urgency := latest_urgency_of pending, it_updated_at := now\<rparr>))
     (\<lambda>_. ret ()))"

section \<open>Messages\<close>

text \<open>A row of inbox\_messages is the message itself: JSON columns and the count read back as written.\<close>
definition create_inbox_message :: "timestamp \<Rightarrow> inbox_message \<Rightarrow> (store, unit) db" where
  "create_inbox_message now msg =
     bind (sql_insert t_messages t_messages_update (\<lambda>a b. im_id a = im_id b) [] msg)
     (\<lambda>_. if im_status msg = ''pending'' then recalc_thread_counts now (im_thread_id msg) else ret ())"

definition get_inbox_message :: "string \<Rightarrow> (store, inbox_message option) db" where
  "get_inbox_message iid = sql_select (\<lambda>s. find (\<lambda>m. im_id m = iid) (t_messages s))"

record inbox_message_filter =
  mf_status :: "string option"
  mf_urgency :: "string option"
  mf_kind :: "string option"
  mf_project :: "string option"
  mf_thread_id :: "string option"
  mf_requires_action :: "bool option"
  mf_limit :: "nat option"

definition message_matches :: "inbox_message_filter \<Rightarrow> inbox_message \<Rightarrow> bool" where
  "message_matches flt m \<longleftrightarrow>
     opt_eq (mf_thread_id flt) (im_thread_id m) \<and> opt_eq (mf_status flt) (im_status m) \<and>
     opt_eq (mf_urgency flt) (im_urgency m) \<and> opt_eq (mf_kind flt) (im_kind m) \<and>
     opt_eq (mf_requires_action flt) (im_requires_action m)"

text \<open>With a project filter the messages are joined with their threads.\<close>
definition message_source :: "inbox_message_filter \<Rightarrow> store \<Rightarrow> inbox_message list" where
  "message_source flt s =
     (case mf_project flt of
        None \<Rightarrow> t_messages s
      | Some project \<Rightarrow> [m. m \<leftarrow> t_messages s, t \<leftarrow> t_threads s,
            im_thread_id m = it_id t \<and> it_project_key t = Some project])"

definition list_inbox_messages :: "inbox_message_filter \<Rightarrow> (store, inbox_message list) db" where
  "list_inbox_messages flt =
     sql_select (\<lambda>s. opt_limit (mf_limit flt)
       (order_desc im_created_at (filter (message_matches flt) (message_source flt s))))"

definition get_inbox_thread :: "string \<Rightarrow> (store, inbox_thread option) db" where
  "get_inbox_thread iid = sql_select (\<lambda>s. find (\<lambda>t. it_id t = iid) (t_threads s))"

text \<open>ORDER BY pending\_count DESC, updated\_at DESC.\<close>
definition list_inbox_threads ::
  "string option \<Rightarrow> bool option \<Rightarrow> nat option \<Rightarrow> (store, inbox_thread list) db" where
  "list_inbox_threads project has_pending mx =
     sql_select (\<lambda>s. opt_limit mx (order_desc it_pending_count (order_desc it_updated_at
       (filter (\<lambda>t. opt_eq (map_option Some project) (it_project_key t) \<and>
          (case has_pending of None \<Rightarrow> True | Some True \<Rightarrow> 0 < it_pending_count t
           | Some False \<Rightarrow> it_pending_count t = 0)) (t_threads s)))))"

section \<open>Actions\<close>

definition not_pending_error :: "string \<Rightarrow> gctl_error" where
  "not_pending_error status =
     Storage (''cannot act on message with status '' @ [CHR 0x27] @ status @ [CHR 0x27] @
       '' (expected '' @ [CHR 0x27] @ ''pending'' @ [CHR 0x27] @ '')'')"

definition create_inbox_action :: "timestamp \<Rightarrow> inbox_action \<Rightarrow> (store, unit) db" where
  "create_inbox_action now action =
     bind (query_row ''message not found: ''
             (\<lambda>s. map im_status (filter (\<lambda>m. im_id m = ia_message_id action) (t_messages s))))
     (\<lambda>status.
        if status \<noteq> ''pending'' then throw (not_pending_error status)
        else
          bind (sql_insert t_actions t_actions_update (\<lambda>a b. ia_id a = ia_id b) [] action)
          (\<lambda>_. bind (sql_update t_messages t_messages_update (\<lambda>m. im_id m = ia_message_id action)
                 (\<lambda>m. m\<lparr>im_status := ''acted'', im_updated_at := now\<rparr>))
          (\<lambda>_. recalc_thread_counts now (ia_thread_id action))))"

record inbox_action_filter =
  af_actor_id :: "string option"
  af_since :: "string option"
  af_thread_id :: "string option"
  af_limit :: "nat option"

definition list_inbox_actions :: "inbox_action_filter \<Rightarrow> (store, inbox_action list) db" where
  "list_inbox_actions flt =
     sql_select (\<lambda>s. opt_limit (af_limit flt) (order_desc ia_created_at
       (filter (\<lambda>a. opt_eq (af_actor_id flt) (ia_actor_id a) \<and>
          (case af_since flt of None \<Rightarrow> True | Some t \<Rightarrow> t \<le> ia_created_at a) \<and>
          opt_eq (af_thread_id flt) (ia_thread_id a)) (t_actions s))))"

text \<open>GROUP BY into a JSON object, whose keys serde\_json keeps sorted.\<close>
definition group_counts :: "string list \<Rightarrow> json" where
  "group_counts ks = JObj (map (\<lambda>k. (k, JNum (int (count_where (\<lambda>x. x = k) ks)))) (sort (remdups ks)))"

definition get_inbox_stats :: "(store, json) db" where
  "get_inbox_stats =
     sql_select (\<lambda>s.
       let pending = filter (\<lambda>m. im_status m = ''pending'') (t_messages s)
       in JObj
         [(''acted'', JNum (int (count_where (\<lambda>m. im_status m = ''acted'') (t_messages s)))),
          (''by_kind'', group_counts (map im_kind pending)),
          (''by_urgency'', group_counts (map im_urgency pending)),
          (''pending'', JNum (int (length pending))),
          (''requires_action'', JNum (int (count_where im_requires_action pending))),
          (''total'', JNum (int (length (t_messages s))))])"

section \<open>The message route\<close>

record message_body =
  mb_thread_id :: "string option"
  mb_source :: string
  mb_kind :: string
  mb_urgency :: string
  mb_title :: string
  mb_body :: "string option"
  mb_context :: json
  mb_requires_action :: bool
  mb_payload :: "json option"
  mb_expires_at :: "string option"
  mb_context_type :: "string option"
  mb_context_ref :: "string option"
  mb_thread_title :: "string option"
  mb_project_key :: "string option"

definition VALID_KINDS :: "string list" where
  "VALID_KINDS =
     [''permission_request'', ''budget_warning'', ''budget_exceeded'', ''agent_question'', ''clarification'',
      ''review_request'', ''eval_request'', ''status_update'', ''custom'']"

definition VALID_URGENCIES :: "string list" where
  "VALID_URGENCIES = [''critical'', ''high'', ''medium'', ''low'', ''info'']"

definition message_of :: "timestamp \<Rightarrow> string \<Rightarrow> string \<Rightarrow> message_body \<Rightarrow> inbox_message" where
  "message_of now uuid thread_id body =
     \<lparr>im_id = uuid, im_thread_id = thread_id, im_source = mb_source body, im_kind = mb_kind body,
      im_urgency = mb_urgency body, im_title = mb_title body, im_body = mb_body body,
      im_context = mb_context body, im_status = ''pending'', im_requires_action = mb_requires_action body,
      im_payload = mb_payload body, im_duplicate_count = 0, im_snoozed_until = None,
      im_expires_at = mb_expires_at body, im_created_at = now, im_updated_at = now\<rparr>"

datatype message_reply = Message_Created inbox_message | Message_Text nat string | Message_Error nat gctl_error

text \<open>The thread named by the body, or the one of its context, created on first use.\<close>
definition resolve_thread ::
  "timestamp \<Rightarrow> string \<Rightarrow> message_body \<Rightarrow> store \<Rightarrow> (message_reply + string) \<times> store" where
  "resolve_thread now uuid body s =
     (case mb_thread_id body of
        Some tid \<Rightarrow> (Inr tid, s)
      | None \<Rightarrow>
          (case (mb_context_type body, mb_context_ref body) of
             (Some ct, Some cr) \<Rightarrow>
               (case get_or_create_inbox_thread now uuid ct cr
                       (case mb_thread_title body of Some title \<Rightarrow> title | None \<Rightarrow> cr) (mb_project_key body) s of
                  (Inr t, s') \<Rightarrow> (Inr (it_id t), s')
                | (Inl e, s') \<Rightarrow> (Inl (Message_Error 500 e), s'))
           | _ \<Rightarrow> (Inl (Message_Text 400 ''either thread_id or (context_type + context_ref) required''), s)))"

text \<open>The handler reads the clock before the thread is resolved; later readings are those of the store calls.\<close>
definition inbox_create_message ::
  "(nat \<Rightarrow> timestamp) \<Rightarrow> (nat \<Rightarrow> string) \<Rightarrow> message_body \<Rightarrow> store \<Rightarrow> message_reply \<times> store" where
  "inbox_create_message now uuid body s =
     (if mb_kind body \<notin> set VALID_KINDS then (Message_Text 400 (''invalid kind: '' @ mb_kind body), s)
      else if mb_urgency body \<notin> set VALID_URGENCIES
      then (Message_Text 400 (''invalid urgency: '' @ mb_urgency body), s)
      else case resolve_thread (now 1) (uuid 0) body s of
        (Inl reply, s') \<Rightarrow> (reply, s')
      | (Inr thread_id, s') \<Rightarrow>
          let msg = message_of (now 0) (uuid 1) thread_id body
          in case create_inbox_message (now 2) msg s' of
               (Inr _, s'') \<Rightarrow> (Message_Created msg, s'')
             | (Inl e, s'') \<Rightarrow> (Message_Error 500 e, s''))"

section \<open>The action routes\<close>

record action_body =
    ab_action_type :: string
  ab_reason :: "string option"
  ab_metadata :: "json option"
  ab_actor_id :: string
  ab_actor_name :: string

definition VALID_ACTIONS :: "string list" where
  "VALID_ACTIONS =
     [''approve'', ''deny'', ''acknowledge'', ''defer'', ''delegate'', ''escalate'', ''reply'']"

text \<open>A response: created with the action, or a status code with its text or the store's error.\<close>
datatype action_reply = Action_Created inbox_action | Reply_Text nat string | Reply_Error nat gctl_error

definition check_action_body :: "action_body \<Rightarrow> action_reply option" where
  "check_action_body body =
     (if ab_action_type body \<notin> set VALID_ACTIONS
      then Some (Reply_Text 400 (''invalid action_type: '' @ ab_action_type body))
      else case ab_reason body of
        Some reason \<Rightarrow> if 2000 < length reason then Some (Reply_Text 400 ''reason exceeds 2000 character limit'')
                      else None
      | None \<Rightarrow> None)"

definition action_of :: "timestamp \<Rightarrow> string \<Rightarrow> action_body \<Rightarrow> inbox_message \<Rightarrow> json option \<Rightarrow> inbox_action" where
  "action_of now uuid body msg metadata =
     \<lparr>ia_id = uuid, ia_message_id = im_id msg, ia_thread_id = im_thread_id msg, ia_actor_id = ab_actor_id body,
      ia_actor_name = ab_actor_name body, ia_action_type = ab_action_type body, ia_reason = ab_reason body,
      ia_metadata = metadata, ia_created_at = now\<rparr>"

text \<open>Whether the text of an error contains a pattern; SQLite's own texts contain none the routes look for.\<close>
fun error_contains :: "string \<Rightarrow> gctl_error \<Rightarrow> bool" where
  "error_contains p (Storage m) = contains p m"
| "error_contains p (StorageSql m e) = contains p m"
| "error_contains p (Other m) = contains p m"

definition inbox_create_action ::
  "timestamp \<Rightarrow> string \<Rightarrow> string \<Rightarrow> action_body \<Rightarrow> store \<Rightarrow> action_reply \<times> store" where
  "inbox_create_action now uuid mid body s =
     (case check_action_body body of
        Some reply \<Rightarrow> (reply, s)
      | None \<Rightarrow>
          (case get_inbox_message mid s of
                (Inl e, s') \<Rightarrow> (Reply_Error 500 e, s')
              | (Inr None, s') \<Rightarrow> (Reply_Text 404 (''message not found: '' @ mid), s')
              | (Inr (Some msg), s') \<Rightarrow>
                  let action = action_of now uuid body msg (ab_metadata body)
                  in case create_inbox_action now action s' of
                       (Inr _, s'') \<Rightarrow> (Action_Created action, s'')
                     | (Inl e, s'') \<Rightarrow>
                         (Reply_Error (if error_contains (''expected '' @ [CHR 0x27] @ ''pending'' @ [CHR 0x27]) e
                            then 409 else 500) e, s'')))"

datatype batch_result = Batch_Success string | Batch_Skipped string string | Batch_Failed string gctl_error

fun inbox_batch_loop ::
  "(nat \<Rightarrow> timestamp) \<Rightarrow> (nat \<Rightarrow> string) \<Rightarrow> action_body \<Rightarrow> nat \<Rightarrow> string list \<Rightarrow> store \<Rightarrow> batch_result list \<times> store" where
  "inbox_batch_loop now uuid body i [] s = ([], s)"
| "inbox_batch_loop now uuid body i (mid # rest) s =
     (let (r, s') = (case get_inbox_message mid s of
            (Inl e, s') \<Rightarrow> (Batch_Failed mid e, s')
          | (Inr None, s') \<Rightarrow> (Batch_Skipped mid ''message not found'', s')
          | (Inr (Some msg), s') \<Rightarrow>
              if im_status msg \<noteq> ''pending''
              then (Batch_Skipped mid (''status is '' @ [CHR 0x27] @ im_status msg @ [CHR 0x27] @ '', not '' @
                      [CHR 0x27] @ ''pending'' @ [CHR 0x27]), s')
              else (case create_inbox_action (now i) (action_of (now i) (uuid i) body msg None) s' of
                      (Inr _, s'') \<Rightarrow> (Batch_Success mid, s'')
                    | (Inl e, s'') \<Rightarrow> (Batch_Failed mid e, s'')));
          (rs, s'') = inbox_batch_loop now uuid body (Suc i) rest s'
      in (r # rs, s''))"

definition inbox_batch_action ::
  "(nat \<Rightarrow> timestamp) \<Rightarrow> (nat \<Rightarrow> string) \<Rightarrow> string list \<Rightarrow> action_body \<Rightarrow> store
   \<Rightarrow> (action_reply + batch_result list) \<times> store" where
  "inbox_batch_action now uuid message_ids body s =
     (if 100 < length message_ids then (Inl (Reply_Text 400 ''batch size exceeds limit of 100''), s)
      else case check_action_body body of
        Some reply \<Rightarrow> (Inl reply, s)
      | None \<Rightarrow> (case inbox_batch_loop now uuid body 0 message_ids s of (rs, s') \<Rightarrow> (Inr rs, s')))"

section \<open>The counters follow the messages\<close>

lemma recalc_apply:
  "recalc_thread_counts now tid s = (Inr (), s\<lparr>t_threads := update_where (\<lambda>t. it_id t = tid)
     (\<lambda>t. t\<lparr>it_pending_count := int (length (pending_in tid s)),
            it_latest_urgency := latest_urgency_of (pending_in tid s), it_updated_at := now\<rparr>) (t_threads s)\<rparr>)"
  by (simp add: recalc_thread_counts_def bind_def)

definition thread_counts_ok :: "store \<Rightarrow> inbox_thread \<Rightarrow> bool" where
  "thread_counts_ok s t \<longleftrightarrow> it_pending_count t = int (length (pending_in (it_id t) s)) \<and>
     it_latest_urgency t = latest_urgency_of (pending_in (it_id t) s)"

definition inbox_wf :: "store \<Rightarrow> bool" where
  "inbox_wf s \<longleftrightarrow> distinct (map im_id (t_messages s)) \<and> distinct (map it_id (t_threads s)) \<and>
     distinct (map (\<lambda>t. (it_context_type t, it_context_ref t)) (t_threads s)) \<and>
     (\<forall>t \<in> set (t_threads s). thread_counts_ok s t)"

lemma pending_in_messages: "t_messages s' = t_messages s \<Longrightarrow> pending_in tid s' = pending_in tid s"
  by (simp add: pending_in_def)

text \<open>A change of messages that only concerns one thread, followed by its recount.\<close>
lemma recalc_wf:
  assumes wf: "inbox_wf s" and ids: "distinct (map im_id (t_messages s1))" and th: "t_threads s1 = t_threads s"
    and same: "\<And>x. x \<noteq> tid \<Longrightarrow> pending_in x s1 = pending_in x s"
  shows "inbox_wf (snd (recalc_thread_counts now tid s1))"
proof -
  let ?f = "\<lambda>t. t\<lparr>it_pending_count := int (length (pending_in tid s1)),
            it_latest_urgency := latest_urgency_of (pending_in tid s1), it_updated_at := now\<rparr>"
  let ?s2 = "s1\<lparr>t_threads := update_where (\<lambda>t. it_id t = tid) ?f (t_threads s)\<rparr>"
  have p: "pending_in x ?s2 = pending_in x s1" for x by (rule pending_in_messages) simp
  have "thread_counts_ok ?s2 t" if "t \<in> set (t_threads ?s2)" for t
  proof -
    from that obtain r where r: "r \<in> set (t_threads s)" "t = (if it_id r = tid then ?f r else r)"
      by (auto simp: set_update_where)
    have "thread_counts_ok s r" using wf r(1) by (simp add: inbox_wf_def)
    then show ?thesis using r(2) same [of "it_id r"] by (auto simp: thread_counts_ok_def p)
  qed
  then show ?thesis
    using wf ids th by (simp add: recalc_apply inbox_wf_def map_update_where)
qed

lemma inbox_wf_open: "inbox_wf (open_with_device fk d)"
  by (simp add: inbox_wf_def open_with_device_def)

lemma sql_insert_apply:
  "sql_insert table upd c msg r s =
     (if list_ex (c r) (table s) then (Inl (StorageSql msg UniqueViolation), s) else (Inr (), upd (\<lambda>_. table s @ [r]) s))"
  by (simp add: sql_insert_def)

lemma wf_create_message:
  assumes "inbox_wf s" and "create_inbox_message now m s = (res, s')"
  shows "inbox_wf s'"
proof (cases "list_ex (\<lambda>b. im_id m = im_id b) (t_messages s)")
  case True
  then show ?thesis using assms by (simp add: create_inbox_message_def sql_insert_apply bind_def)
next
  case False
  let ?s1 = "t_messages_update (\<lambda>_. t_messages s @ [m]) s"
  have ids: "distinct (map im_id (t_messages ?s1))"
    using assms(1) False by (auto simp: inbox_wf_def list_ex_iff)
  have same: "pending_in x ?s1 = pending_in x s" if "x \<noteq> im_thread_id m \<or> im_status m \<noteq> ''pending''" for x
    using that by (auto simp: pending_in_def)
  show ?thesis
  proof (cases "im_status m = ''pending''")
    case True
    then have "s' = snd (recalc_thread_counts now (im_thread_id m) ?s1)"
      using assms(2) False by (simp add: create_inbox_message_def sql_insert_apply bind_def)
    then show ?thesis using recalc_wf [OF assms(1) ids] same by simp
  next
    case nonpending: False
    then have s': "s' = ?s1" using assms(2) False by (simp add: create_inbox_message_def sql_insert_apply bind_def)
    show ?thesis
      using assms(1) ids same nonpending unfolding s' by (simp add: inbox_wf_def thread_counts_ok_def)
  qed
qed

lemma wf_get_or_create:
  assumes wf: "inbox_wf s" and fresh: "uuid \<notin> im_thread_id ` set (t_messages s)"
    and run: "get_or_create_inbox_thread now uuid ct cr title pk s = (res, s')"
  shows "inbox_wf s'"
proof (cases "find (\<lambda>t. it_context_type t = ct \<and> it_context_ref t = cr) (t_threads s)")
  case None
  let ?t = "\<lparr>it_id = uuid, it_context_type = ct, it_context_ref = cr, it_title = title, it_project_key = pk,
     it_pending_count = 0, it_latest_urgency = ''info'', it_created_at = now, it_updated_at = now\<rparr>"
  have empty: "pending_in uuid s = []" using fresh by (auto simp: pending_in_def filter_empty_conv)
  show ?thesis
  proof (cases "list_ex (\<lambda>b. uuid = it_id b) (t_threads s)")
    case True
    then have "s' = s" using run None
      by (auto simp: get_or_create_inbox_thread_def sql_insert_apply bind_def Let_def)
    then show ?thesis using wf by simp
  next
    case False
    then have s': "s' = t_threads_update (\<lambda>_. t_threads s @ [?t]) s"
      using run None by (auto simp: get_or_create_inbox_thread_def sql_insert_apply bind_def Let_def)
    have p: "pending_in x s' = pending_in x s" for x using s' by (intro pending_in_messages) simp
    have key: "uuid \<notin> it_id ` set (t_threads s)" using False by (auto simp: list_ex_iff)
    have ctx: "(ct, cr) \<notin> (\<lambda>t. (it_context_type t, it_context_ref t)) ` set (t_threads s)"
      using None by (auto simp: find_None_iff)
    show ?thesis
      using wf empty key ctx by (simp add: inbox_wf_def thread_counts_ok_def latest_urgency_of_def p) (simp add: s')
  qed
next
  case (Some t)
  then show ?thesis using wf run by (simp add: get_or_create_inbox_thread_def)
qed

text \<open>What an action does, by the status of its message.\<close>
lemma create_action_cases:
  assumes "create_inbox_action now a s = (res, s')" and "find (\<lambda>m. im_id m = ia_message_id a) (t_messages s) = Some m"
  shows "im_status m \<noteq> ''pending'' \<and> s' = s \<and> res = Inl (not_pending_error (im_status m)) \<or>
    im_status m = ''pending'' \<and> s' = s \<and> res = Inl (StorageSql [] UniqueViolation) \<or>
    im_status m = ''pending'' \<and> res = Inr () \<and> s' = snd (recalc_thread_counts now (ia_thread_id a)
       (s\<lparr>t_actions := t_actions s @ [a], t_messages := update_where (\<lambda>m. im_id m = ia_message_id a)
          (\<lambda>m. m\<lparr>im_status := ''acted'', im_updated_at := now\<rparr>) (t_messages s)\<rparr>))"
proof -
  obtain rest where "filter (\<lambda>m. im_id m = ia_message_id a) (t_messages s) = m # rest"
    using find_filter_Cons [OF assms(2)] by blast
  then show ?thesis
    using assms(1)
    by (auto simp: create_inbox_action_def bind_def query_row_def sql_insert_apply recalc_apply split: if_splits)
qed

lemma wf_create_action:
  assumes wf: "inbox_wf s" and run: "create_inbox_action now a s = (res, s')"
    and m: "find (\<lambda>m. im_id m = ia_message_id a) (t_messages s) = Some m" and thread: "ia_thread_id a = im_thread_id m"
  shows "inbox_wf s'"
  using create_action_cases [OF run m]
proof (elim disjE conjE)
  let ?f = "\<lambda>m. m\<lparr>im_status := ''acted'', im_updated_at := now\<rparr>"
  let ?s1 = "s\<lparr>t_actions := t_actions s @ [a],
    t_messages := update_where (\<lambda>m. im_id m = ia_message_id a) ?f (t_messages s)\<rparr>"
  assume s': "s' = snd (recalc_thread_counts now (ia_thread_id a) ?s1)"
  have ids: "distinct (map im_id (t_messages s))" using wf by (simp add: inbox_wf_def)
  have only: "r = m" if "r \<in> set (t_messages s)" "im_id r = ia_message_id a" for r
    using distinct_key_unique [OF ids that(1)] find_SomeD [OF m] that(2) by simp
  have "pending_in x ?s1 = pending_in x s" if "x \<noteq> ia_thread_id a" for x
    unfolding pending_in_def using only that thread
    by (simp, intro filter_update_where_other) auto
  then show ?thesis unfolding s' using wf ids by (intro recalc_wf) (simp_all add: map_update_where)
qed (use wf in simp_all)

section \<open>Concurrent requests\<close>

text \<open>
  Requests interleave at the store's lock: every store call is one step. An action route first reads
  its message and later acts on what it read, so the system carries the messages requests have read.
\<close>

type_synonym inbox_sys = "store \<times> inbox_message list"

inductive inbox_step :: "inbox_sys \<Rightarrow> inbox_sys \<Rightarrow> bool" where
  thread: "\<lbrakk>uuid \<notin> im_thread_id ` set (t_messages s);
     get_or_create_inbox_thread now uuid ct cr title pk s = (r, s')\<rbrakk> \<Longrightarrow> inbox_step (s, reqs) (s', reqs)"
| message: "create_inbox_message now (message_of now' uuid tid body) s = (r, s') \<Longrightarrow>
     inbox_step (s, reqs) (s', reqs)"
| read: "get_inbox_message mid s = (Inr (Some m), s') \<Longrightarrow> inbox_step (s, reqs) (s', m # reqs)"
| act: "\<lbrakk>m \<in> set reqs; create_inbox_action now (action_of now' uuid body m metadata) s = (r, s')\<rbrakk> \<Longrightarrow>
     inbox_step (s, reqs) (s', reqs)"

abbreviation inbox_steps :: "inbox_sys \<Rightarrow> inbox_sys \<Rightarrow> bool" where
  "inbox_steps \<equiv> inbox_step\<^sup>*\<^sup>*"

text \<open>
  A message is pending without an action or acted with exactly one, actions belong to existing
  messages, and what a request has read still has its identity and thread.
\<close>
definition actions_on :: "string \<Rightarrow> store \<Rightarrow> inbox_action list" where
  "actions_on mid s = filter (\<lambda>a. ia_message_id a = mid) (t_actions s)"

definition message_closed_once :: "store \<Rightarrow> inbox_message \<Rightarrow> bool" where
  "message_closed_once s m \<longleftrightarrow>
     im_status m = ''pending'' \<and> actions_on (im_id m) s = [] \<or>
     im_status m = ''acted'' \<and> length (actions_on (im_id m) s) = 1"

definition inbox_inv :: "inbox_sys \<Rightarrow> bool" where
  "inbox_inv = (\<lambda>(s, reqs). inbox_wf s \<and> (\<forall>m \<in> set (t_messages s). message_closed_once s m) \<and>
     (\<forall>a \<in> set (t_actions s). ia_message_id a \<in> im_id ` set (t_messages s)) \<and>
     (\<forall>q \<in> set reqs. \<exists>m \<in> set (t_messages s). im_id m = im_id q \<and> im_thread_id m = im_thread_id q))"

lemma inbox_inv_init: "inbox_inv (open_with_device fk d, [])"
  by (simp add: inbox_inv_def inbox_wf_open) (simp add: open_with_device_def)

lemma message_of_sel [simp]:
  "im_id (message_of now uuid tid body) = uuid" "im_thread_id (message_of now uuid tid body) = tid"
  "im_status (message_of now uuid tid body) = ''pending''"
  by (simp_all add: message_of_def)

lemma action_of_sel [simp]:
  "ia_message_id (action_of now uuid body m md) = im_id m" "ia_thread_id (action_of now uuid body m md) = im_thread_id m"
  "ia_id (action_of now uuid body m md) = uuid"
  by (simp_all add: action_of_def)

lemma frame_get_or_create:
  "frame t_messages (get_or_create_inbox_thread now uuid ct cr title pk)"
  "frame t_actions (get_or_create_inbox_thread now uuid ct cr title pk)"
  by (auto simp: frame_def get_or_create_inbox_thread_def Let_def sql_insert_apply bind_def split: option.splits)

text \<open>The tables after a successful action, and after a message was created.\<close>
lemma create_action_tables:
  assumes "create_inbox_action now a s = (res, s')" and "find (\<lambda>m. im_id m = ia_message_id a) (t_messages s) = Some m"
  shows "im_status m = ''pending'' \<and> res = Inr () \<and> t_actions s' = t_actions s @ [a] \<and>
      t_messages s' = update_where (\<lambda>m. im_id m = ia_message_id a)
          (\<lambda>m. m\<lparr>im_status := ''acted'', im_updated_at := now\<rparr>) (t_messages s) \<or>
    s' = s \<and> (im_status m \<noteq> ''pending'' \<and> res = Inl (not_pending_error (im_status m)) \<or>
      im_status m = ''pending'' \<and> res = Inl (StorageSql [] UniqueViolation))"
  using create_action_cases [OF assms] by (auto simp: recalc_apply)

lemma create_message_tables:
  assumes "create_inbox_message now m s = (res, s')"
  shows "t_actions s' = t_actions s \<and> (t_messages s' = t_messages s \<or>
     t_messages s' = t_messages s @ [m] \<and> im_id m \<notin> im_id ` set (t_messages s))"
  using assms
  by (auto simp: create_inbox_message_def sql_insert_apply bind_def recalc_apply list_ex_iff split: if_splits)

lemma inv_act:
  assumes inv: "inbox_inv (s, reqs)" and q: "q \<in> set reqs"
    and run: "create_inbox_action now (action_of now' uuid body q metadata) s = (r, s')"
  shows "inbox_inv (s', reqs)"
proof -
  let ?a = "action_of now' uuid body q metadata"
  obtain m where m: "m \<in> set (t_messages s)" "im_id m = im_id q" "im_thread_id m = im_thread_id q"
    using inv q by (auto simp: inbox_inv_def)
  have wf: "inbox_wf s" using inv by (simp add: inbox_inv_def)
  have ids: "distinct (map im_id (t_messages s))" using wf by (simp add: inbox_wf_def)
  have f: "find (\<lambda>m. im_id m = ia_message_id ?a) (t_messages s) = Some m"
    using find_key_eq [OF ids m(1)] m(2) by simp
  have wf': "inbox_wf s'" using wf_create_action [OF wf run f] m(3) by simp
  from create_action_tables [OF run f] show ?thesis
  proof (elim disjE conjE)
    let ?f = "\<lambda>m. m\<lparr>im_status := ''acted'', im_updated_at := now\<rparr>"
    assume pend: "im_status m = ''pending''" and a: "t_actions s' = t_actions s @ [?a]"
      and ms: "t_messages s' = update_where (\<lambda>m. im_id m = ia_message_id ?a) ?f (t_messages s)"
    have set': "set (t_messages s') = {if im_id r = im_id m then ?f r else r |r. r \<in> set (t_messages s)}"
      by (simp add: ms set_update_where m(2))
    have only: "r = m" if "r \<in> set (t_messages s)" "im_id r = im_id m" for r
      using distinct_key_unique [OF ids that(1) m(1)] that(2) by simp
    have none: "actions_on (im_id m) s = []"
      using inv m(1) pend by (fastforce simp: inbox_inv_def message_closed_once_def)
    have "message_closed_once s' x" if "x \<in> set (t_messages s')" for x
    proof -
      from that obtain r where r: "r \<in> set (t_messages s)" "x = (if im_id r = im_id m then ?f r else r)"
        using set' by auto
      have old: "message_closed_once s r" using inv r(1) by (simp add: inbox_inv_def)
      show ?thesis
      proof (cases "im_id r = im_id m")
        case True
        then show ?thesis using r none m(2) by (simp add: message_closed_once_def actions_on_def a)
      next
        case False
        then show ?thesis using r old m(2) by (simp add: message_closed_once_def actions_on_def a)
      qed
    qed
    then have closed: "\<forall>x \<in> set (t_messages s'). message_closed_once s' x" by blast
    have "map im_id (t_messages s') = map im_id (t_messages s)"
      unfolding ms by (rule map_update_where) simp
    then have keep: "im_id ` set (t_messages s') = im_id ` set (t_messages s)"
      by (metis image_set)
    have "\<forall>b \<in> set (t_actions s'). ia_message_id b \<in> im_id ` set (t_messages s')"
      unfolding keep a using inv m(1) by (simp add: inbox_inv_def image_iff) (metis m(2))
    moreover have "\<exists>x \<in> set (t_messages s'). im_id x = im_id p \<and> im_thread_id x = im_thread_id p"
      if p: "p \<in> set reqs" for p
    proof -
      obtain r where r: "r \<in> set (t_messages s)" "im_id r = im_id p" "im_thread_id r = im_thread_id p"
        using inv p by (auto simp: inbox_inv_def)
      have x: "(if im_id r = im_id m then ?f r else r) \<in> set (t_messages s')" unfolding set' using r(1) by blast
      show ?thesis by (rule bexI [OF _ x]) (use r(2,3) in simp)
    qed
    ultimately show ?thesis using wf' closed by (simp add: inbox_inv_def)
  qed (use inv wf' in simp_all)
qed

lemma message_closed_once_cong:
  "t_actions s' = t_actions s \<Longrightarrow> message_closed_once s' m = message_closed_once s m"
  by (simp add: message_closed_once_def actions_on_def)

lemma inv_message:
  assumes inv: "inbox_inv (s, reqs)" and run: "create_inbox_message now (message_of now' uuid tid body) s = (r, s')"
  shows "inbox_inv (s', reqs)"
proof -
  have wf': "inbox_wf s'" using wf_create_message [OF _ run] inv by (simp add: inbox_inv_def)
  from create_message_tables [OF run] have a: "t_actions s' = t_actions s" by simp
  from create_message_tables [OF run] show ?thesis
  proof (elim conjE disjE)
    assume "t_messages s' = t_messages s"
    then show ?thesis using inv wf' by (simp add: inbox_inv_def a message_closed_once_cong [OF a])
  next
    assume ms: "t_messages s' = t_messages s @ [message_of now' uuid tid body]"
      and new: "im_id (message_of now' uuid tid body) \<notin> im_id ` set (t_messages s)"
    then have "actions_on uuid s = []" using inv by (auto simp: inbox_inv_def actions_on_def filter_empty_conv)
    then have "message_closed_once s (message_of now' uuid tid body)" by (simp add: message_closed_once_def)
    then show ?thesis
      using inv wf' by (auto simp: inbox_inv_def a ms message_closed_once_cong [OF a])
  qed
qed

lemma inbox_inv_step: "inbox_step c c' \<Longrightarrow> inbox_inv c \<Longrightarrow> inbox_inv c'"
proof (induction rule: inbox_step.induct)
  case (thread uuid s now ct cr title pk r s' reqs)
  have m: "t_messages s' = t_messages s" and a: "t_actions s' = t_actions s"
    using frameD [OF frame_get_or_create(1) thread(2)] frameD [OF frame_get_or_create(2) thread(2)] by simp_all
  show ?case using wf_get_or_create [OF _ thread(1,2)] thread.prems
    by (simp add: inbox_inv_def m a message_closed_once_cong [OF a])
next
  case (message now now' uuid tid body s r s' reqs)
  then show ?case using inv_message by blast
next
  case (read mid s m s' reqs)
  then have "m \<in> set (t_messages s)" "s' = s" by (auto simp: get_inbox_message_def dest: find_SomeD)
  then show ?case using read.prems by (auto simp: inbox_inv_def)
next
  case (act m reqs now now' uuid body metadata s r s')
  then show ?case using inv_act by blast
qed

lemma inbox_inv_steps: "inbox_steps c c' \<Longrightarrow> inbox_inv c \<Longrightarrow> inbox_inv c'"
  by (induction rule: rtranclp_induct) (auto intro: inbox_inv_step)

lemma inbox_inv_reachable: "inbox_steps (open_with_device fk d, []) (s, reqs) \<Longrightarrow> inbox_inv (s, reqs)"
  using inbox_inv_steps inbox_inv_init by blast

section \<open>The best urgency\<close>

lemma urgency_pos_le: "urgency_pos u \<le> 4"
  by (auto simp: urgency_pos_def find_Some_iff upt_rec split: option.splits)

lemma urgency_pos_values:
  "urgency_pos ''critical'' = 0" "urgency_pos ''high'' = 1" "urgency_pos ''medium'' = 2"
  "urgency_pos ''low'' = 3" "urgency_pos ''info'' = 4"
  by (simp_all add: urgency_pos_def urgency_order_def upt_rec)

lemma urgency_pos_order: "i \<le> 4 \<Longrightarrow> urgency_pos (urgency_order ! i) = i"
  by (auto simp: le_Suc_eq numeral_eq_Suc urgency_order_def urgency_pos_values [unfolded numeral_eq_Suc, simplified])

lemma urgency_order_length: "length urgency_order = 5"
  by (simp add: urgency_order_def)

lemma foldl_better:
  "best \<in> set urgency_order \<Longrightarrow>
   foldl better_urgency best us \<in> set urgency_order \<and>
   urgency_pos (foldl better_urgency best us) = Min (insert (urgency_pos best) (urgency_pos ` set us))"
proof (induction us arbitrary: best)
  case (Cons u us)
  let ?b = "better_urgency best u"
  have le: "urgency_pos u \<le> 4" by (rule urgency_pos_le)
  have b: "?b \<in> set urgency_order"
    using Cons.prems nth_mem [of "urgency_pos u" urgency_order] le by (simp add: better_urgency_def urgency_order_length)
  have p: "urgency_pos ?b = min (urgency_pos best) (urgency_pos u)"
    using urgency_pos_order [OF le] by (simp add: better_urgency_def)
  have "Min (insert (min x y) S) = Min (insert x (insert y S))" if "finite S" for x y :: nat and S
    using that by (cases "S = {}") (simp_all add: min.assoc)
  then show ?case using Cons.IH [OF b] b by (simp add: p insert_commute)
qed simp

lemma latest_urgency_best:
  "latest_urgency_of ms \<in> set urgency_order \<and>
   urgency_pos (latest_urgency_of ms) = Min (insert 4 (urgency_pos ` im_urgency ` set ms))"
  using foldl_better [of "''info''" "remdups (map im_urgency ms)"]
  by (auto simp: latest_urgency_of_def urgency_order_def urgency_pos_values)

section \<open>Batches\<close>

definition is_pending :: "string \<Rightarrow> store \<Rightarrow> bool" where
  "is_pending mid s \<longleftrightarrow> (\<exists>m. find (\<lambda>m. im_id m = mid) (t_messages s) = Some m \<and> im_status m = ''pending'')"

lemma not_pending_cases:
  "\<not> is_pending mid s \<Longrightarrow> find (\<lambda>m. im_id m = mid) (t_messages s) = None \<or>
     (\<exists>m. find (\<lambda>m. im_id m = mid) (t_messages s) = Some m \<and> im_status m \<noteq> ''pending'')"
  by (cases "find (\<lambda>m. im_id m = mid) (t_messages s)") (auto simp: is_pending_def)

text \<open>One action on a pending message, with a fresh action id.\<close>
lemma act_pending:
  assumes m: "find (\<lambda>m. im_id m = mid) (t_messages s) = Some m" "im_status m = ''pending''"
    and fresh: "uuid \<notin> ia_id ` set (t_actions s)"
  obtains s' where "create_inbox_action now (action_of now' uuid body m metadata) s = (Inr (), s')"
    and "t_actions s' = t_actions s @ [action_of now' uuid body m metadata]"
    and "\<And>x. is_pending x s' \<longleftrightarrow> is_pending x s \<and> x \<noteq> mid"
proof -
  let ?a = "action_of now' uuid body m metadata"
  have mid: "im_id m = mid" using find_SomeD [OF m(1)] by simp
  obtain r s' where run: "create_inbox_action now ?a s = (r, s')" by force
  have f: "find (\<lambda>m. im_id m = ia_message_id ?a) (t_messages s) = Some m" using m(1) mid by simp
  have "\<not> list_ex (\<lambda>b. ia_id ?a = ia_id b) (t_actions s)" using fresh by (auto simp: list_ex_iff)
  moreover obtain rest where "filter (\<lambda>m. im_id m = ia_message_id ?a) (t_messages s) = m # rest"
    using find_filter_Cons [OF f] by blast
  ultimately have ok: "r = Inr ()"
    using run m(2) by (simp add: create_inbox_action_def bind_def query_row_def sql_insert_apply recalc_apply)
  with create_action_tables [OF run f] m(2)
  have t: "t_actions s' = t_actions s @ [?a]"
    "t_messages s' = update_where (\<lambda>m. im_id m = mid) (\<lambda>m. m\<lparr>im_status := ''acted'', im_updated_at := now\<rparr>) (t_messages s)"
    using mid by auto
  have "is_pending x s' \<longleftrightarrow> is_pending x s \<and> x \<noteq> mid" for x
    using m(1) by (auto simp: is_pending_def t find_update_where_key)
  with run ok t show ?thesis by (intro that) simp_all
qed

lemma batch_loop:
  assumes "inbox_batch_loop now uuid body i mids s = (rs, s')"
    and "\<And>j. i \<le> j \<Longrightarrow> uuid j \<notin> ia_id ` set (t_actions s)" and "inj_on uuid {i..}"
  shows "length rs = length mids \<and>
    (\<forall>k < length mids. (rs ! k = Batch_Success (mids ! k)) = (is_pending (mids ! k) s \<and> mids ! k \<notin> set (take k mids))) \<and>
    (\<forall>x. is_pending x s' \<longleftrightarrow> is_pending x s \<and> x \<notin> set mids)"
  using assms
proof (induction mids arbitrary: i s rs s')
  case (Cons mid mids)
  have inj: "inj_on uuid {Suc i..}" by (rule inj_on_subset [OF Cons.prems(3)]) auto
  show ?case
  proof (cases "is_pending mid s")
    case True
    then obtain m where m: "find (\<lambda>m. im_id m = mid) (t_messages s) = Some m" "im_status m = ''pending''"
      by (auto simp: is_pending_def)
    obtain s1 where act: "create_inbox_action (now i) (action_of (now i) (uuid i) body m None) s = (Inr (), s1)"
      and a: "t_actions s1 = t_actions s @ [action_of (now i) (uuid i) body m None]"
      and p: "\<And>x. is_pending x s1 \<longleftrightarrow> is_pending x s \<and> x \<noteq> mid"
      using act_pending [OF m Cons.prems(2) [of i]] by blast
    obtain rs1 s2 where rest: "inbox_batch_loop now uuid body (Suc i) mids s1 = (rs1, s2)" by force
    have fresh: "uuid j \<notin> ia_id ` set (t_actions s1)" if "Suc i \<le> j" for j
      using Cons.prems(2) [of j] that inj_onD [OF Cons.prems(3), of j i] by (auto simp: a)
    have "rs = Batch_Success mid # rs1" "s' = s2"
      using Cons.prems(1) by (simp_all add: get_inbox_message_def m act rest)
    with Cons.IH [OF rest fresh inj] show ?thesis
      using True by (auto simp: p less_Suc_eq_0_disj)
  next
    case False
    obtain rs1 s2 where rest: "inbox_batch_loop now uuid body (Suc i) mids s = (rs1, s2)" by force
    obtain r where r: "rs = r # rs1" "s' = s2" "r \<noteq> Batch_Success mid"
      using Cons.prems(1) not_pending_cases [OF False] by (auto simp: get_inbox_message_def rest)
    have fresh: "uuid j \<notin> ia_id ` set (t_actions s)" if "Suc i \<le> j" for j
      using Cons.prems(2) that by simp
    from Cons.IH [OF rest fresh inj] show ?thesis
      using False by (auto simp: r less_Suc_eq_0_disj)
  qed
qed simp

lemma actions_stay:
  "inbox_steps (s, reqs) (s', reqs') \<Longrightarrow> actions_on mid s \<noteq> [] \<Longrightarrow> actions_on mid s' \<noteq> []"
proof (induction "(s', reqs')" arbitrary: s' reqs' rule: rtranclp_induct)
  case (step c)
  obtain s1 r1 where c: "c = (s1, r1)" by force
  have "set (t_actions s1) \<subseteq> set (t_actions s')"
    using step.hyps(2) unfolding c
  proof (cases rule: inbox_step.cases)
    case (thread uuid now ct cr title pk r)
    then show ?thesis using frameD [OF frame_get_or_create(2) thread(3)] by simp
  next
    case (message now now' uuid tid body r)
    then show ?thesis using create_message_tables [OF message(2)] by simp
  next
    case (read mid' m)
    then show ?thesis by (auto simp: get_inbox_message_def)
  next
    case (act m now now' uuid body metadata r)
    then show ?thesis by (auto simp: create_inbox_action_def bind_def query_row_def sql_insert_apply recalc_apply split: list.splits if_splits)
  qed
  then show ?case using step.hyps(3) [OF c] step.prems by (auto simp: actions_on_def filter_empty_conv)
qed simp

section \<open>Properties\<close>

text \<open>Sample requests for the concrete evaluations.\<close>
definition sample_message :: "string \<Rightarrow> message_body" where
  "sample_message urgency = \<lparr>mb_thread_id = None, mb_source = ''agent'', mb_kind = ''agent_question'',
     mb_urgency = urgency, mb_title = ''q'', mb_body = None, mb_context = JObj [], mb_requires_action = True,
     mb_payload = None, mb_expires_at = None, mb_context_type = Some ''issue'', mb_context_ref = Some ''B-1'',
     mb_thread_title = None, mb_project_key = None\<rparr>"

definition sample_action :: action_body where
  "sample_action = \<lparr>ab_action_type = ''approve'', ab_reason = None, ab_metadata = None,
     ab_actor_id = ''u'', ab_actor_name = ''human''\<rparr>"

lemmas inbox_eval = get_or_create_inbox_thread_def sql_insert_apply bind_def Let_def open_with_device_def
  create_inbox_message_def recalc_apply create_inbox_action_def query_row_def get_inbox_message_def
  message_of_def action_of_def sample_message_def sample_action_def

text \<open>Two messages on one thread, the urgent one answered.\<close>
definition sample_thread :: "string \<Rightarrow> int \<Rightarrow> string \<Rightarrow> inbox_thread" where
  "sample_thread urgency n now = \<lparr>it_id = ''t'', it_context_type = ''issue'', it_context_ref = ''B-1'',
     it_title = ''B-1'', it_project_key = None, it_pending_count = n, it_latest_urgency = urgency,
     it_created_at = ''0'', it_updated_at = now\<rparr>"

definition sample_inbox :: store where
  "sample_inbox = (let m1 = message_of ''1'' ''m1'' ''t'' (sample_message ''low'');
       m2 = message_of ''2'' ''m2'' ''t'' (sample_message ''critical'')
     in (open_with_device True ''dev'')\<lparr>t_threads := [sample_thread ''low'' 1 ''4''],
          t_messages := [m1, m2\<lparr>im_status := ''acted'', im_updated_at := ''4''\<rparr>],
          t_actions := [action_of ''3'' ''a'' sample_action m2 None]\<rparr>)"

lemma sample_inbox_reachable:
  "inbox_steps (open_with_device True ''dev'', [])
     (sample_inbox, [message_of ''2'' ''m2'' ''t'' (sample_message ''critical'')])"
proof -
  let ?m1 = "message_of ''1'' ''m1'' ''t'' (sample_message ''low'')"
  let ?m2 = "message_of ''2'' ''m2'' ''t'' (sample_message ''critical'')"
  let ?s0 = "open_with_device True ''dev''"
  let ?s1 = "?s0\<lparr>t_threads := [sample_thread ''info'' 0 ''0'']\<rparr>"
  let ?s2 = "?s1\<lparr>t_threads := [sample_thread ''low'' 1 ''1''], t_messages := [?m1]\<rparr>"
  let ?s3 = "?s2\<lparr>t_threads := [sample_thread ''critical'' 2 ''2''], t_messages := [?m1, ?m2]\<rparr>"
  note eval = inbox_eval sample_thread_def pending_in_def latest_urgency_of_def better_urgency_def
    urgency_pos_values urgency_order_def sample_inbox_def
  have a: "inbox_steps (?s0, []) (?s1, [])"
    by (rule r_into_rtranclp, rule thread [where uuid = "''t''" and now = "''0''" and ct = "''issue''" and cr = "''B-1''" and title = "''B-1''"
          and pk = None]) (simp_all add: eval)
  have b: "inbox_steps (?s1, []) (?s2, [])"
    by (rule r_into_rtranclp, rule message [where now = "''1''" and now' = "''1''" and uuid = "''m1''" and tid = "''t''"
          and body = "sample_message ''low''"]) (simp add: eval)
  have c: "inbox_steps (?s2, []) (?s3, [])"
    by (rule r_into_rtranclp, rule message [where now = "''2''" and now' = "''2''" and uuid = "''m2''" and tid = "''t''"
          and body = "sample_message ''critical''"]) (simp add: eval)
  have d: "inbox_steps (?s3, []) (?s3, [?m2])"
    by (rule r_into_rtranclp, rule read [where mid = "''m2''"]) (simp add: eval)
  have e: "inbox_steps (?s3, [?m2]) (sample_inbox, [?m2])"
    by (rule r_into_rtranclp, rule act [where m = ?m2 and now = "''4''" and now' = "''3''" and uuid = "''a''" and body = sample_action
          and metadata = None]) (simp_all add: eval)
  show ?thesis
    by (rule rtranclp_trans [OF a rtranclp_trans [OF b rtranclp_trans [OF c rtranclp_trans [OF d e]]]])
qed

text \<open>C14: However requests interleave, every thread's pending\_count is the number of its pending messages
  and its latest\_urgency is the most urgent among them (info when there are none).\<close>
theorem inbox_counts_accurate:
  assumes "inbox_steps (open_with_device fk device, []) (s, reqs)" and "t \<in> set (t_threads s)"
  shows "it_pending_count t = int (count_where (\<lambda>m. im_thread_id m = it_id t \<and> im_status m = ''pending'') (t_messages s)) \<and>
    it_latest_urgency t \<in> set urgency_order \<and>
    urgency_pos (it_latest_urgency t) = Min (insert 4 (urgency_pos ` im_urgency `
      {m \<in> set (t_messages s). im_thread_id m = it_id t \<and> im_status m = ''pending''}))"
proof -
  have "thread_counts_ok s t"
    using inbox_inv_reachable [OF assms(1)] assms(2) by (simp add: inbox_inv_def inbox_wf_def)
  then show ?thesis
    using latest_urgency_best [of "pending_in (it_id t) s"]
    by (simp add: thread_counts_ok_def pending_in_def count_where_def)
qed

theorem inbox_counts_accurate_witness:
  "it_pending_count (sample_thread ''low'' 1 ''4'') = 1 \<and> urgency_pos ''low'' = 3 \<and>
   it_pending_count (sample_thread ''low'' 1 ''4'') =
     int (count_where (\<lambda>m. im_thread_id m = ''t'' \<and> im_status m = ''pending'') (t_messages sample_inbox))"
  using inbox_counts_accurate [OF sample_inbox_reachable, of "sample_thread ''low'' 1 ''4''"]
  by (simp add: sample_inbox_def sample_thread_def Let_def urgency_pos_values)

text \<open>C13: However requests interleave, a message is pending and has no action, or acted and has exactly one;
  an action racing with another on the same message is refused with the conflict error and writes nothing.\<close>
theorem one_action_per_message:
  assumes "inbox_steps (open_with_device fk device, []) (s, reqs)" and "m \<in> set reqs"
    and "create_inbox_action now (action_of now' uuid body m metadata) s = (Inr (), s1)"
    and "inbox_steps (s1, reqs) (s2, reqs2)"
  shows "length (filter (\<lambda>a. ia_message_id a = im_id m) (t_actions s)) = 0 \<and>
    length (filter (\<lambda>a. ia_message_id a = im_id m) (t_actions s2)) = 1 \<and>
    create_inbox_action now2 (action_of now3 uuid2 body2 m metadata2) s2 = (Inl (not_pending_error ''acted''), s2)"
proof -
  have inv: "inbox_inv (s, reqs)" by (rule inbox_inv_reachable [OF assms(1)])
  have inv1: "inbox_inv (s1, reqs)" by (rule inv_act [OF inv assms(2,3)])
  have found: "\<exists>x. find (\<lambda>x. im_id x = im_id m) (t_messages c) = Some x \<and> message_closed_once c x"
    if cinv: "inbox_inv (c, rs)" and in_msgs: "im_id m \<in> im_id ` set (t_messages c)" for c rs
  proof -
    obtain x where x: "x \<in> set (t_messages c)" "im_id m = im_id x" using in_msgs by auto
    have d: "distinct (map im_id (t_messages c))" and closed: "message_closed_once c x"
      using cinv x(1) by (simp_all add: inbox_inv_def inbox_wf_def)
    have "find (\<lambda>x. im_id x = im_id m) (t_messages c) = Some x"
      unfolding x(2) by (rule find_key_eq [OF d x(1)])
    with closed show ?thesis by blast
  qed
  obtain z where "z \<in> set (t_messages s)" "im_id z = im_id m"
    using inv assms(2) by (auto simp: inbox_inv_def)
  then have mem: "im_id m \<in> im_id ` set (t_messages s)" by (simp add: rev_image_eqI)
  obtain x where x: "find (\<lambda>x. im_id x = im_id m) (t_messages s) = Some x" "message_closed_once s x"
    using found [OF inv mem] by blast
  have pend: "im_status x = ''pending''" and acts: "t_actions s1 = t_actions s @ [action_of now' uuid body m metadata]"
    using create_action_tables [OF assms(3)] x(1) by auto
  have id: "im_id x = im_id m" using find_SomeD [OF x(1)] by simp
  have "actions_on (im_id m) s1 \<noteq> []" by (simp add: actions_on_def acts)
  then have some: "actions_on (im_id m) s2 \<noteq> []" by (rule actions_stay [OF assms(4)])
  have inv2: "inbox_inv (s2, reqs2)" by (rule inbox_inv_steps [OF assms(4) inv1])
  have mem2: "im_id m \<in> im_id ` set (t_messages s2)"
  proof -
    obtain a where "a \<in> set (t_actions s2)" "ia_message_id a = im_id m"
      using some by (auto simp: actions_on_def filter_empty_conv)
    moreover have "\<forall>a \<in> set (t_actions s2). ia_message_id a \<in> im_id ` set (t_messages s2)"
      using inv2 by (simp add: inbox_inv_def)
    ultimately show ?thesis by metis
  qed
  obtain y where y: "find (\<lambda>x. im_id x = im_id m) (t_messages s2) = Some y" "message_closed_once s2 y"
    using found [OF inv2 mem2] by blast
  have idy: "im_id y = im_id m" using find_SomeD [OF y(1)] by simp
  have acted: "im_status y = ''acted''" "length (actions_on (im_id m) s2) = 1"
    using y(2) some by (auto simp: message_closed_once_def idy)
  have "create_inbox_action now2 (action_of now3 uuid2 body2 m metadata2) s2 = (Inl (not_pending_error ''acted''), s2)"
    using find_filter_Cons [OF y(1)] acted(1) by (auto simp: create_inbox_action_def bind_def query_row_def)
  then show ?thesis using x(2) pend acted(2) by (simp add: message_closed_once_def actions_on_def id)
qed

theorem one_action_per_message_witness:
  "\<exists>s1. create_inbox_action ''9'' (action_of ''9'' ''b'' sample_action
       (message_of ''1'' ''m1'' ''t'' (sample_message ''low'')) None) sample_inbox = (Inr (), s1) \<and>
     create_inbox_action ''10'' (action_of ''10'' ''c'' sample_action
       (message_of ''1'' ''m1'' ''t'' (sample_message ''low'')) None) s1 = (Inl (not_pending_error ''acted''), s1)"
proof -
  let ?m1 = "message_of ''1'' ''m1'' ''t'' (sample_message ''low'')"
  let ?m2 = "message_of ''2'' ''m2'' ''t'' (sample_message ''critical'')"
  have read: "inbox_step (sample_inbox, [?m2]) (sample_inbox, [?m1, ?m2])"
    by (rule read [where mid = "''m1''"]) (simp add: sample_inbox_def inbox_eval)
  have reach: "inbox_steps (open_with_device True ''dev'', []) (sample_inbox, [?m1, ?m2])"
    using sample_inbox_reachable read by (rule rtranclp.rtrancl_into_rtrancl)
  obtain r s1 where run: "create_inbox_action ''9'' (action_of ''9'' ''b'' sample_action ?m1 None) sample_inbox = (r, s1)"
    by force
  moreover have "r = Inr ()" using run by (simp add: inbox_eval sample_inbox_def)
  ultimately show ?thesis
    using one_action_per_message [OF reach, of ?m1 "''9''" "''9''" "''b''" sample_action None s1 s1 "[?m1, ?m2]"
        "''10''" "''10''" "''c''" sample_action None] by simp
qed

text \<open>A batch reports one result per id; exactly the first occurrence of each pending message succeeds, and
  afterwards exactly the messages of the batch are no longer pending.\<close>
theorem batch_acts_once:
  assumes "inbox_batch_action now uuid mids body s = (Inr rs, s')"
    and "inj uuid" and "range uuid \<inter> ia_id ` set (t_actions s) = {}"
  shows "length mids \<le> 100 \<and> length rs = length mids \<and>
    (\<forall>k < length mids. (rs ! k = Batch_Success (mids ! k)) = (is_pending (mids ! k) s \<and> mids ! k \<notin> set (take k mids))) \<and>
    (\<forall>x. is_pending x s' \<longleftrightarrow> is_pending x s \<and> x \<notin> set mids)"
proof -
  have len: "length mids \<le> 100" and run: "inbox_batch_loop now uuid body 0 mids s = (rs, s')"
    using assms(1) by (auto simp: inbox_batch_action_def split: if_splits option.splits prod.splits)
  have inj: "inj_on uuid {0..}" using assms(2) by (rule inj_on_subset) simp
  have fresh: "uuid j \<notin> ia_id ` set (t_actions s)" for j using assms(3) by auto
  show ?thesis using len batch_loop [OF run fresh inj] by simp
qed

theorem batch_acts_once_witness:
  "\<exists>rs s'. inbox_batch_action (\<lambda>_. ''9'') (\<lambda>n. ''u'' @ show_nat n) [''m1'', ''m1'', ''m2''] sample_action sample_inbox
     = (Inr rs, s') \<and> rs ! 0 = Batch_Success ''m1'' \<and> rs ! 1 \<noteq> Batch_Success ''m1'' \<and> \<not> is_pending ''m1'' s'"
proof -
  obtain rs s' where "inbox_batch_loop (\<lambda>_. ''9'') (\<lambda>n. ''u'' @ show_nat n) sample_action 0 [''m1'', ''m1'', ''m2'']
       sample_inbox = (rs, s')" by force
  moreover have "check_action_body sample_action = None"
    by (simp add: check_action_body_def sample_action_def VALID_ACTIONS_def)
  ultimately have run: "inbox_batch_action (\<lambda>_. ''9'') (\<lambda>n. ''u'' @ show_nat n) [''m1'', ''m1'', ''m2'']
       sample_action sample_inbox = (Inr rs, s')"
    by (simp add: inbox_batch_action_def del: inbox_batch_loop.simps)
  have "inj (\<lambda>n. ''u'' @ show_nat n)" by (simp add: inj_def)
  moreover have "range (\<lambda>n. ''u'' @ show_nat n) \<inter> ia_id ` set (t_actions sample_inbox) = {}"
    by (auto simp: sample_inbox_def Let_def action_of_def)
  ultimately have facts: "length rs = 3"
    "\<forall>k < 3. (rs ! k = Batch_Success ([''m1'', ''m1'', ''m2''] ! k)) =
       (is_pending ([''m1'', ''m1'', ''m2''] ! k) sample_inbox \<and> [''m1'', ''m1'', ''m2''] ! k \<notin> set (take k [''m1'', ''m1'', ''m2'']))"
    "\<forall>x. is_pending x s' \<longleftrightarrow> is_pending x sample_inbox \<and> x \<notin> set [''m1'', ''m1'', ''m2'']"
    using batch_acts_once [OF run] by (simp_all del: All_less_Suc)
  have pend: "is_pending ''m1'' sample_inbox"
    by (simp add: is_pending_def sample_inbox_def Let_def message_of_def)
  have "rs ! 0 = Batch_Success ''m1''" using facts(2) [rule_format, of 0] pend by simp
  moreover have "rs ! 1 \<noteq> Batch_Success ''m1''" using facts(2) [rule_format, of 1] by simp
  ultimately show ?thesis using run facts(3) by auto
qed

end
