(* ===== verification/Store_Memory.thy ===== *)
theory Store_Memory
  imports Store_Board
begin

text \<open>
  Memory entries (sqlite\_store.rs, Memory CRUD): the upsert keyed by device and name, the filtered
  listing, the statistics and the sync queue. SQLite's LIKE is a parameter of the listing.
\<close>

section \<open>Operations\<close>

definition memory_to_row :: "memory_entry \<Rightarrow> memory_row" where
  "memory_to_row e =
     \<lparr>mr_id = me_id e, mr_type = memory_type_as_str (me_memory_type e), mr_name = me_name e,
      mr_description = me_description e, mr_body = me_body e, mr_tags = Json (me_tags e),
      mr_device_id = me_device_id e, mr_created_at = me_created_at e, mr_updated_at = me_updated_at e,
      mr_synced = False\<rparr>"

text \<open>The row's unique key besides the id.\<close>
definition same_name :: "memory_entry \<Rightarrow> memory_row \<Rightarrow> bool" where
  "same_name e r \<longleftrightarrow> mr_device_id r = me_device_id e \<and> mr_name r = me_name e"

text \<open>The SET list of the UPDATE: identity and creation time are kept.\<close>
definition overwrite_memory :: "memory_entry \<Rightarrow> memory_row \<Rightarrow> memory_row" where
  "overwrite_memory e r = r\<lparr>mr_type := memory_type_as_str (me_memory_type e), mr_description := me_description e,
     mr_body := me_body e, mr_tags := Json (me_tags e), mr_updated_at := me_updated_at e, mr_synced := False\<rparr>"

definition upsert_memory :: "memory_entry \<Rightarrow> (store, bool) db" where
  "upsert_memory entry =
     bind (sql_select (\<lambda>s. find (same_name entry) (t_memories s))) (\<lambda>existing.
       if existing \<noteq> None
       then bind (sql_update t_memories t_memories_update (same_name entry) (overwrite_memory entry)) (\<lambda>_. ret False)
       else bind (sql_insert t_memories t_memories_update
              (\<lambda>a b. mr_id a = mr_id b \<or> mr_device_id a = mr_device_id b \<and> mr_name a = mr_name b) []
              (memory_to_row entry)) (\<lambda>_. ret True))"

definition get_memory :: "string \<Rightarrow> (store, memory_entry option) db" where
  "get_memory mid = sql_select (\<lambda>s. map_option row_to_memory_entry (find (\<lambda>r. mr_id r = mid) (t_memories s)))"

record memory_filter =
  ft_memory_type :: "memory_type option"
  ft_tag :: "string option"
  ft_search :: "string option"
  ft_limit :: "nat option"

text \<open>The WHERE clause; like text pattern is SQLite's LIKE.\<close>
definition memory_matches :: "(string \<Rightarrow> string \<Rightarrow> bool) \<Rightarrow> memory_filter \<Rightarrow> memory_row \<Rightarrow> bool" where
  "memory_matches like flt r \<longleftrightarrow>
     opt_eq (map_option memory_type_as_str (ft_memory_type flt)) (mr_type r) \<and>
     (case ft_search flt of
        None \<Rightarrow> True
      | Some search \<Rightarrow>
          let pat = ''%'' @ search @ ''%''
          in like (mr_name r) pat \<or> like (mr_description r) pat \<or> like (mr_body r) pat)"

definition list_memories :: "(string \<Rightarrow> string \<Rightarrow> bool) \<Rightarrow> memory_filter \<Rightarrow> (store, memory_entry list) db" where
  "list_memories like flt =
     bind (sql_select (\<lambda>s. map row_to_memory_entry (opt_limit (ft_limit flt)
            (order_desc mr_updated_at (filter (memory_matches like flt) (t_memories s))))))
     (\<lambda>entries. ret (case ft_tag flt of None \<Rightarrow> entries | Some tag \<Rightarrow> filter (\<lambda>e. tag \<in> set (me_tags e)) entries))"

definition remove_memory :: "string \<Rightarrow> (store, bool) db" where
  "remove_memory mid =
     bind (sql_delete t_memories t_memories_update (\<lambda>r. mr_id r = mid)) (\<lambda>affected. ret (0 < affected))"

record memory_stats =
  ms_total_entries :: nat
  ms_by_type :: "(string \<times> nat) list"
  ms_unsynced :: nat

definition get_memory_stats :: "(store, memory_stats) db" where
  "get_memory_stats =
     sql_select (\<lambda>s.
       \<lparr>ms_total_entries = length (t_memories s),
        ms_by_type = map (\<lambda>ty. (ty, count_where (\<lambda>r. mr_type r = ty) (t_memories s)))
          (sort (remdups (map mr_type (t_memories s)))),
        ms_unsynced = count_where (\<lambda>r. \<not> mr_synced r) (t_memories s)\<rparr>)"

definition list_unsynced_memories :: "nat \<Rightarrow> (store, memory_entry list) db" where
  "list_unsynced_memories batch_size =
     sql_select (\<lambda>s. map row_to_memory_entry
       (take batch_size (order_asc mr_updated_at (filter (\<lambda>r. \<not> mr_synced r) (t_memories s)))))"

definition mark_memories_synced :: "string list \<Rightarrow> (store, unit) db" where
  "mark_memories_synced = mark_ids_synced t_memories t_memories_update mr_id (mr_synced_update (\<lambda>_. True))"

interpretation sync_memories: sync_table mr_id mr_synced "mr_synced_update (\<lambda>_. True)"
  by unfold_locales simp_all

section \<open>Keys\<close>

text \<open>PRIMARY KEY (id) and UNIQUE (device\_id, name).\<close>
definition memory_wf :: "store \<Rightarrow> bool" where
  "memory_wf s \<longleftrightarrow> distinct (map mr_id (t_memories s)) \<and>
     distinct (map (\<lambda>r. (mr_device_id r, mr_name r)) (t_memories s))"

inductive memory_step :: "store \<Rightarrow> store \<Rightarrow> bool" where
  upsert: "upsert_memory e s = (r, s') \<Longrightarrow> memory_step s s'"
| remove: "remove_memory mid s = (r', s') \<Longrightarrow> memory_step s s'"
| mark: "mark_memories_synced ids s = (r'', s') \<Longrightarrow> memory_step s s'"

lemma overwrite_sel [simp]:
  "mr_id (overwrite_memory e r) = mr_id r" "mr_device_id (overwrite_memory e r) = mr_device_id r"
  "mr_name (overwrite_memory e r) = mr_name r"
  by (simp_all add: overwrite_memory_def)

lemma same_name_key: "same_name e r \<longleftrightarrow> (mr_device_id r, mr_name r) = (me_device_id e, me_name e)"
  by (simp add: same_name_def)

lemma upsert_apply:
  "upsert_memory e s =
    (if \<exists>r \<in> set (t_memories s). same_name e r
     then (Inr False, t_memories_update (\<lambda>_. update_where (same_name e) (overwrite_memory e) (t_memories s)) s)
     else if me_id e \<in> mr_id ` set (t_memories s) then (Inl (StorageSql [] UniqueViolation), s)
     else (Inr True, t_memories_update (\<lambda>_. t_memories s @ [memory_to_row e]) s))"
proof (cases "find (same_name e) (t_memories s)")
  case None
  then have "\<forall>r \<in> set (t_memories s). \<not> same_name e r" by (auto simp: find_None_iff)
  moreover from this have "list_ex (\<lambda>b. mr_id (memory_to_row e) = mr_id b \<or>
      mr_device_id (memory_to_row e) = mr_device_id b \<and> mr_name (memory_to_row e) = mr_name b) (t_memories s) \<longleftrightarrow>
      me_id e \<in> mr_id ` set (t_memories s)"
    by (fastforce simp: list_ex_iff memory_to_row_def same_name_def)
  ultimately show ?thesis using None by (simp add: upsert_memory_def bind_def sql_insert_def)
next
  case (Some r)
  then show ?thesis using find_SomeD [OF Some] by (auto simp: upsert_memory_def bind_def)
qed

lemma memory_wf_upsert: "memory_wf s \<Longrightarrow> upsert_memory e s = (r, s') \<Longrightarrow> memory_wf s'"
  by (fastforce simp: upsert_apply memory_wf_def map_update_where memory_to_row_def same_name_def split: if_splits)

lemma memory_wf_step: "memory_step s s' \<Longrightarrow> memory_wf s \<Longrightarrow> memory_wf s'"
proof (induction rule: memory_step.induct)
  case (upsert e s r s')
  then show ?case by (blast intro: memory_wf_upsert)
next
  case (remove mid s r' s')
  then show ?case
    by (auto simp: remove_memory_def bind_def memory_wf_def delete_where_def distinct_map_filter)
next
  case (mark ids s r'' s')
  then show ?case
    by (auto simp: mark_memories_synced_def mark_ids_apply memory_wf_def map_update_where split: if_splits)
qed

lemma memory_wf_steps: "memory_step\<^sup>*\<^sup>* s s' \<Longrightarrow> memory_wf s \<Longrightarrow> memory_wf s'"
  by (induction rule: rtranclp_induct) (auto intro: memory_wf_step)

lemma memory_wf_open: "memory_wf (open_with_device fk d)"
  by (simp add: memory_wf_def open_with_device_def)

lemma row_memory_roundtrip: "row_to_memory_entry (memory_to_row e) = e\<lparr>me_synced := False\<rparr>"
  by (simp add: row_to_memory_entry_def memory_to_row_def memory_type_codec.from_as)

section \<open>Properties\<close>

text \<open>The entry a name holds after an upsert: the new content under the identity the name already had.\<close>
definition upserted :: "memory_entry \<Rightarrow> memory_row option \<Rightarrow> memory_entry" where
  "upserted e old = (case old of
     None \<Rightarrow> e\<lparr>me_synced := False\<rparr>
   | Some r \<Rightarrow> e\<lparr>me_id := mr_id r, me_created_at := mr_created_at r, me_synced := False\<rparr>)"

text \<open>On a reachable database an upsert leaves exactly one row under the entry's device and name, holding the
  entry's content, unsynced, with the id and creation time the name had before if it existed; every other row is kept.\<close>
theorem upsert_memory_effect:
  assumes "memory_step\<^sup>*\<^sup>* (open_with_device fk device) s" and "upsert_memory e s = (Inr created, s')"
  shows "map row_to_memory_entry (filter (same_name e) (t_memories s')) =
      [upserted e (find (same_name e) (t_memories s))] \<and>
    filter (\<lambda>r. \<not> same_name e r) (t_memories s') = filter (\<lambda>r. \<not> same_name e r) (t_memories s) \<and>
    created = (find (same_name e) (t_memories s) = None)"
proof (cases "find (same_name e) (t_memories s)")
  case None
  then have no: "\<forall>r \<in> set (t_memories s). \<not> same_name e r" by (auto simp: find_None_iff)
  then have "s' = t_memories_update (\<lambda>_. t_memories s @ [memory_to_row e]) s" "created"
    using assms(2) by (auto simp: upsert_apply split: if_splits)
  moreover have "same_name e (memory_to_row e)" by (simp add: same_name_def memory_to_row_def)
  ultimately show ?thesis using no None by (simp add: row_memory_roundtrip upserted_def filter_empty_conv)
next
  case (Some r)
  have wf: "memory_wf s" using memory_wf_steps [OF assms(1) memory_wf_open] .
  have r: "r \<in> set (t_memories s)" "same_name e r" using find_SomeD [OF Some] by simp_all
  have s': "s' = t_memories_update (\<lambda>_. update_where (same_name e) (overwrite_memory e) (t_memories s)) s" "\<not> created"
    using assms(2) r by (auto simp: upsert_apply split: if_splits)
  have keep: "same_name e (overwrite_memory e x) = same_name e x" for x by (simp add: same_name_def)
  have one: "filter (same_name e) (t_memories s) = [r]"
    unfolding same_name_key by (rule filter_key_single) (use wf r in \<open>auto simp: memory_wf_def same_name_def\<close>)
  have "filter (same_name e) (update_where (same_name e) (overwrite_memory e) rows) =
      map (overwrite_memory e) (filter (same_name e) rows)"
    "filter (\<lambda>r. \<not> same_name e r) (update_where (same_name e) (overwrite_memory e) rows) =
      filter (\<lambda>r. \<not> same_name e r) rows" for rows
    by (induction rows) (auto simp: keep)
  moreover have "row_to_memory_entry (overwrite_memory e r) = upserted e (Some r)"
    using r(2) by (simp add: row_to_memory_entry_def overwrite_memory_def upserted_def same_name_def memory_type_codec.from_as)
  ultimately show ?thesis using Some s' by (simp add: one)
qed

definition sample_memory :: "string \<Rightarrow> string list \<Rightarrow> timestamp \<Rightarrow> memory_entry" where
  "sample_memory n tags now = \<lparr>me_id = n, me_memory_type = Mem_User, me_name = n, me_description = '''', me_body = '''',
     me_tags = tags, me_device_id = ''dev'', me_created_at = now, me_updated_at = now, me_synced = True\<rparr>"

theorem upsert_memory_effect_witness:
  "\<exists>s'. upsert_memory (sample_memory ''a'' [''x''] ''2'')
       (open_with_device True ''dev''\<lparr>t_memories := [memory_to_row (sample_memory ''a'' [] ''1'')]\<rparr>) = (Inr False, s') \<and>
     map (\<lambda>r. me_created_at (row_to_memory_entry r)) (filter (same_name (sample_memory ''a'' [''x''] ''2'')) (t_memories s')) = [''1'']"
proof -
  let ?s1 = "open_with_device True ''dev''\<lparr>t_memories := [memory_to_row (sample_memory ''a'' [] ''1'')]\<rparr>"
  have "memory_step (open_with_device True ''dev'') ?s1"
    by (rule upsert [where e = "sample_memory ''a'' [] ''1''" and r = "Inr True"])
      (simp add: upsert_apply open_with_device_def)
  then have reach: "memory_step\<^sup>*\<^sup>* (open_with_device True ''dev'') ?s1" by (rule r_into_rtranclp)
  obtain s' where run: "upsert_memory (sample_memory ''a'' [''x''] ''2'') ?s1 = (Inr False, s')"
    by (simp add: upsert_apply same_name_def memory_to_row_def sample_memory_def)
  then have "map row_to_memory_entry (filter (same_name (sample_memory ''a'' [''x''] ''2'')) (t_memories s')) =
      [upserted (sample_memory ''a'' [''x''] ''2'') (find (same_name (sample_memory ''a'' [''x''] ''2'')) (t_memories ?s1))]"
    using upsert_memory_effect [OF reach run] by simp
  then have "map me_created_at (map row_to_memory_entry (filter (same_name (sample_memory ''a'' [''x''] ''2'')) (t_memories s')))
      = [''1'']"
    by (simp add: upserted_def same_name_def memory_to_row_def sample_memory_def)
  then show ?thesis using run by (auto simp: o_def)
qed

text \<open>The tag is tested after the LIMIT, so a tagged entry beyond the newest n is not found.\<close>
lemma tag_after_limit:
  "list_memories like \<lparr>ft_memory_type = None, ft_tag = Some ''x'', ft_search = None, ft_limit = Some 1\<rparr>
     (open_with_device True ''dev''\<lparr>t_memories := map memory_to_row
        [sample_memory ''a'' [''x''] ''1'', sample_memory ''b'' [] ''2'']\<rparr>) =
   (Inr [], open_with_device True ''dev''\<lparr>t_memories := map memory_to_row
        [sample_memory ''a'' [''x''] ''1'', sample_memory ''b'' [] ''2'']\<rparr>)"
  by (simp add: list_memories_def bind_def memory_matches_def order_desc_def memory_to_row_def sample_memory_def
      row_to_memory_entry_def memory_type_codec.from_as)

end
