(* ===== verification/Store_Schedule.thy ===== *)
theory Store_Schedule
  imports Store_Schema
begin

text \<open>
  Schedules and their run history (sqlite\_store.rs, Schedules and Scheduler Runs): the rows, the
  derived health of gctrl-core/src/schedule.rs, the transactional fire write, the reaper, the prune
  and the summary. The JSON columns hold what the kernel wrote, so they read back as written.
\<close>

section \<open>Health\<close>

datatype schedule_health = Green | Amber | Red | Health_Pending | Paused

definition compute_schedule_health :: "'a schedule_scheme \<Rightarrow> schedule_health" where
  "compute_schedule_health s =
     (if \<not> sc_enabled s then Paused
      else if sc_last_run_at s = None then Health_Pending
      else if sc_last_error s \<noteq> None then Amber
      else Green)"

text \<open>A Schedule as the store returns it: the row with its health.\<close>
record fetched_schedule = schedule +
  fs_health :: "schedule_health option"

definition row_to_schedule :: "schedule \<Rightarrow> fetched_schedule" where
  "row_to_schedule r = schedule.extend r \<lparr>fs_health = Some (compute_schedule_health r)\<rparr>"

section \<open>Schedules\<close>

definition create_schedule :: "'a schedule_scheme \<Rightarrow> (store, unit) db" where
  "create_schedule sched =
     sql_insert t_schedules t_schedules_update (\<lambda>a b. sc_id a = sc_id b \<or> sc_name a = sc_name b) []
       (schedule.truncate sched)"

definition named :: "string \<Rightarrow> schedule \<Rightarrow> bool" where
  "named x r \<longleftrightarrow> sc_id r = x \<or> sc_name r = x"

definition get_schedule :: "string \<Rightarrow> (store, fetched_schedule option) db" where
  "get_schedule id_or_name = sql_select (\<lambda>s. map_option row_to_schedule (find (named id_or_name) (t_schedules s)))"

record schedule_filter =
  sf_enabled :: "bool option"
  sf_name_prefix :: "string option"

text \<open>like text pattern is SQLite's LIKE.\<close>
definition list_schedules ::
  "(string \<Rightarrow> string \<Rightarrow> bool) \<Rightarrow> schedule_filter \<Rightarrow> (store, fetched_schedule list) db" where
  "list_schedules like flt =
     sql_select (\<lambda>s. map row_to_schedule (order_asc sc_name
       (filter (\<lambda>r. opt_eq (sf_enabled flt) (sc_enabled r) \<and>
          (case sf_name_prefix flt of None \<Rightarrow> True | Some pre \<Rightarrow> like (sc_name r) (pre @ ''%'')))
        (t_schedules s))))"

definition due :: "timestamp \<Rightarrow> schedule \<Rightarrow> bool" where
  "due now r \<longleftrightarrow> sc_enabled r \<and> (case sc_next_run_at r of None \<Rightarrow> False | Some t \<Rightarrow> t \<le> now)"

definition list_due_schedules :: "timestamp \<Rightarrow> nat \<Rightarrow> (store, fetched_schedule list) db" where
  "list_due_schedules now mx =
     sql_select (\<lambda>s. map row_to_schedule (take mx
       (order_asc (\<lambda>r. case sc_next_run_at r of None \<Rightarrow> [] | Some t \<Rightarrow> t) (filter (due now) (t_schedules s)))))"

text \<open>The history is deleted explicitly, whether or not foreign keys are enforced.\<close>
definition delete_schedules_where :: "(schedule \<Rightarrow> bool) \<Rightarrow> (store, nat) db" where
  "delete_schedules_where p =
     bind (sql_select (\<lambda>s. map sc_id (filter p (t_schedules s)))) (\<lambda>ids.
     bind (sql_delete t_runs t_runs_update (\<lambda>r. sr_schedule_id r \<in> set ids))
     (\<lambda>_. sql_delete t_schedules t_schedules_update p))"

definition delete_schedule :: "string \<Rightarrow> (store, bool) db" where
  "delete_schedule id_or_name = bind (delete_schedules_where (named id_or_name)) (\<lambda>n. ret (0 < n))"

definition delete_schedules_by_app :: "string \<Rightarrow> (store, nat) db" where
  "delete_schedules_by_app app_id = delete_schedules_where (\<lambda>r. sc_app_id r = Some app_id)"

definition set_schedule_enabled :: "timestamp \<Rightarrow> string \<Rightarrow> bool \<Rightarrow> (store, bool) db" where
  "set_schedule_enabled now id_or_name enabled =
     bind (sql_update t_schedules t_schedules_update (named id_or_name)
            (\<lambda>r. r\<lparr>sc_enabled := enabled, sc_updated_at := now\<rparr>))
     (\<lambda>n. ret (0 < n))"

record schedule_run_update =
  su_last_run_at :: timestamp
  su_next_run_at :: "timestamp option"
  su_last_status :: "int option"
  su_last_response :: "string option"
  su_last_error :: "string option"
  su_success :: bool

text \<open>The SET list both fire writes share.\<close>
definition cache_run :: "timestamp \<Rightarrow> schedule_run_update \<Rightarrow> schedule \<Rightarrow> schedule" where
  "cache_run now u r =
     r\<lparr>sc_last_run_at := Some (su_last_run_at u), sc_next_run_at := su_next_run_at u,
       sc_last_status := su_last_status u, sc_last_response := su_last_response u,
       sc_last_error := su_last_error u, sc_run_count := sc_run_count r + 1,
       sc_failure_count := sc_failure_count r + (if su_success u then 0 else 1), sc_updated_at := now\<rparr>"

definition record_schedule_run :: "timestamp \<Rightarrow> string \<Rightarrow> schedule_run_update \<Rightarrow> (store, unit) db" where
  "record_schedule_run now sid update =
     bind (sql_update t_schedules t_schedules_update (\<lambda>r. sc_id r = sid) (cache_run now update)) (\<lambda>_. ret ())"

text \<open>Identity, name, kind, counters and the last-run cache are not in the SET list.\<close>
definition patch_row :: "timestamp \<Rightarrow> 'a schedule_scheme \<Rightarrow> schedule \<Rightarrow> schedule" where
  "patch_row now sched r =
     r\<lparr>sc_cron := sc_cron sched, sc_target_url := sc_target_url sched, sc_target_method := sc_target_method sched,
       sc_body_json := sc_body_json sched, sc_headers_json := sc_headers_json sched,
       sc_command := sc_command sched, sc_cwd := sc_cwd sched, sc_env_keys := sc_env_keys sched,
       sc_timeout_secs := sc_timeout_secs sched, sc_enabled := sc_enabled sched,
       sc_next_run_at := sc_next_run_at sched, sc_updated_at := now\<rparr>"

definition update_schedule_patch :: "timestamp \<Rightarrow> 'a schedule_scheme \<Rightarrow> (store, bool) db" where
  "update_schedule_patch now sched =
     bind (sql_update t_schedules t_schedules_update (\<lambda>r. sc_id r = sc_id sched) (patch_row now sched))
     (\<lambda>n. ret (0 < n))"

definition set_schedule_next_run :: "timestamp \<Rightarrow> string \<Rightarrow> timestamp option \<Rightarrow> (store, unit) db" where
  "set_schedule_next_run now sid next_run_at =
     bind (sql_update t_schedules t_schedules_update (\<lambda>r. sc_id r = sid)
            (\<lambda>r. r\<lparr>sc_next_run_at := next_run_at, sc_updated_at := now\<rparr>))
     (\<lambda>_. ret ())"

section \<open>Runs\<close>

text \<open>
  INSERT INTO scheduler\_runs: the primary key is checked first; with foreign keys on, the schedule
  must exist.
\<close>
definition insert_run :: "string \<Rightarrow> schedule_run \<Rightarrow> (store, unit) db" where
  "insert_run msg run =
     (\<lambda>s. if list_ex (\<lambda>r. sr_id r = sr_id run) (t_runs s) then (Inl (StorageSql msg UniqueViolation), s)
          else if st_foreign_keys s \<and> \<not> list_ex (\<lambda>r. sc_id r = sr_schedule_id run) (t_schedules s)
          then (Inl (StorageSql msg ForeignKeyViolation), s)
          else (Inr (), t_runs_update (\<lambda>_. t_runs s @ [run]) s))"

definition insert_schedule_run :: "schedule_run \<Rightarrow> (store, unit) db" where
  "insert_schedule_run run = insert_run [] run"

text \<open>A transaction: an error restores what was there at BEGIN.\<close>
definition transaction :: "('s, 'a) db \<Rightarrow> ('s, 'a) db" where
  "transaction m = (\<lambda>s. case m s of (Inl e, _) \<Rightarrow> (Inl e, s) | (Inr x, s') \<Rightarrow> (Inr x, s'))"

definition record_schedule_run_v2 ::
  "timestamp \<Rightarrow> string \<Rightarrow> schedule_run \<Rightarrow> schedule_run_update \<Rightarrow> (store, unit) db" where
  "record_schedule_run_v2 now schedule_id run update =
     transaction
       (bind (sql_update t_schedules t_schedules_update (\<lambda>r. sc_id r = schedule_id) (cache_run now update))
       (\<lambda>_. insert_run ''insert scheduler_runs: '' run))"

definition reap_interrupted_schedule_runs :: "timestamp \<Rightarrow> (store, nat) db" where
  "reap_interrupted_schedule_runs now =
     sql_update t_runs t_runs_update (\<lambda>r. sr_finished_at r = None)
       (\<lambda>r. r\<lparr>sr_status := ''interrupted'', sr_finished_at := Some now\<rparr>)"

record schedule_run_filter =
  rf_since :: "timestamp option"
  rf_status :: "string option"
  rf_limit :: "nat option"

definition run_matches :: "schedule_run_filter \<Rightarrow> schedule_run \<Rightarrow> bool" where
  "run_matches flt r \<longleftrightarrow> (case rf_since flt of None \<Rightarrow> True | Some t \<Rightarrow> t \<le> sr_started_at r) \<and>
     opt_eq (rf_status flt) (sr_status r)"

definition run_cap :: "nat \<Rightarrow> nat option \<Rightarrow> nat" where
  "run_cap d mx = min (case mx of None \<Rightarrow> d | Some n \<Rightarrow> n) 500"

definition list_schedule_runs :: "string \<Rightarrow> schedule_run_filter \<Rightarrow> (store, schedule_run list) db" where
  "list_schedule_runs schedule_id flt =
     sql_select (\<lambda>s. take (run_cap 50 (rf_limit flt)) (order_desc sr_started_at
       (filter (\<lambda>r. sr_schedule_id r = schedule_id \<and> run_matches flt r) (t_runs s))))"

definition list_schedule_runs_global :: "schedule_run_filter \<Rightarrow> (store, schedule_run list) db" where
  "list_schedule_runs_global flt =
     sql_select (\<lambda>s. take (run_cap 200 (rf_limit flt)) (order_desc sr_started_at
       (filter (run_matches flt) (t_runs s))))"

definition delete_schedule_runs_before :: "timestamp \<Rightarrow> (store, nat) db" where
  "delete_schedule_runs_before before =
     sql_delete t_runs t_runs_update (\<lambda>r. sr_started_at r < before)"

section \<open>Summary\<close>

record schedules_health_counts =
  hc_green :: nat
  hc_amber :: nat
  hc_red :: nat
  hc_pending :: nat
  hc_paused :: nat

record schedules_summary =
  ss_total :: nat
  ss_by_health :: schedules_health_counts
  ss_success :: nat
  ss_failure :: nat

fun count_health :: "schedule_health \<Rightarrow> schedules_health_counts \<Rightarrow> schedules_health_counts" where
  "count_health Green c = c\<lparr>hc_green := hc_green c + 1\<rparr>"
| "count_health Amber c = c\<lparr>hc_amber := hc_amber c + 1\<rparr>"
| "count_health Red c = c\<lparr>hc_red := hc_red c + 1\<rparr>"
| "count_health Health_Pending c = c\<lparr>hc_pending := hc_pending c + 1\<rparr>"
| "count_health Paused c = c\<lparr>hc_paused := hc_paused c + 1\<rparr>"

definition health_of :: "fetched_schedule \<Rightarrow> schedule_health" where
  "health_of s = (case fs_health s of Some h \<Rightarrow> h | None \<Rightarrow> compute_schedule_health s)"

definition failed_statuses :: "string list" where
  "failed_statuses = [''failure'', ''timed_out'', ''refused'', ''interrupted'']"

text \<open>The schedules are listed without a filter, so LIKE is not used.\<close>
definition schedules_summary :: "timestamp \<Rightarrow> (store, schedules_summary) db" where
  "schedules_summary since_24h =
     bind (list_schedules (\<lambda>_ _. False) \<lparr>sf_enabled = None, sf_name_prefix = None\<rparr>) (\<lambda>rows.
     bind (sql_select (\<lambda>s. count_where (\<lambda>r. since_24h \<le> sr_started_at r \<and> sr_status r = ''success'') (t_runs s)))
     (\<lambda>success.
     bind (sql_select (\<lambda>s. count_where (\<lambda>r. since_24h \<le> sr_started_at r \<and> sr_status r \<in> set failed_statuses) (t_runs s)))
     (\<lambda>failure.
     ret \<lparr>ss_total = length rows,
          ss_by_health = foldl (\<lambda>c s. count_health (health_of s) c)
            \<lparr>hc_green = 0, hc_amber = 0, hc_red = 0, hc_pending = 0, hc_paused = 0\<rparr> rows,
          ss_success = success, ss_failure = failure\<rparr>)))"

section \<open>The history and the counters\<close>

lemma list_ex_key: "list_ex (\<lambda>r. k r = a) rows \<longleftrightarrow> a \<in> k ` set rows"
  by (induction rows) auto

lemma insert_run_apply:
  "insert_run msg run s =
    (if sr_id run \<in> sr_id ` set (t_runs s) then (Inl (StorageSql msg UniqueViolation), s)
     else if st_foreign_keys s \<and> sr_schedule_id run \<notin> sc_id ` set (t_schedules s)
     then (Inl (StorageSql msg ForeignKeyViolation), s)
     else (Inr (), t_runs_update (\<lambda>_. t_runs s @ [run]) s))"
  by (simp add: insert_run_def list_ex_key)

lemma cache_run_sel [simp]:
  "sc_id (cache_run now u r) = sc_id r" "sc_name (cache_run now u r) = sc_name r"
  "sc_app_id (cache_run now u r) = sc_app_id r"
  by (simp_all add: cache_run_def)

lemma patch_row_sel [simp]:
  "sc_id (patch_row now d r) = sc_id r" "sc_name (patch_row now d r) = sc_name r"
  "sc_run_count (patch_row now d r) = sc_run_count r" "sc_failure_count (patch_row now d r) = sc_failure_count r"
  by (simp_all add: patch_row_def)

text \<open>The two outcomes of the fire write.\<close>
lemma record_v2_cases:
  assumes "record_schedule_run_v2 now sid run u s = (res, s')"
  obtains (failed) e where "res = Inl e" "s' = s"
      "sr_id run \<in> sr_id ` set (t_runs s) \<or> st_foreign_keys s \<and> sr_schedule_id run \<notin> sc_id ` set (t_schedules s)"
  | (written) "res = Inr ()" "sr_id run \<notin> sr_id ` set (t_runs s)"
      "st_foreign_keys s \<longrightarrow> sr_schedule_id run \<in> sc_id ` set (t_schedules s)"
      "s' = s\<lparr>t_schedules := update_where (\<lambda>r. sc_id r = sid) (cache_run now u) (t_schedules s),
              t_runs := t_runs s @ [run]\<rparr>"
proof -
  let ?rows = "update_where (\<lambda>r. sc_id r = sid) (cache_run now u) (t_schedules s)"
  have "map sc_id ?rows = map sc_id (t_schedules s)" by (rule map_update_where) simp
  then have ids: "sc_id ` set ?rows = sc_id ` set (t_schedules s)" by (metis image_set)
  show ?thesis
    using assms that by (auto simp: record_schedule_run_v2_def transaction_def bind_def insert_run_apply ids split: if_splits)
qed

definition counters_ok :: "schedule_run list \<Rightarrow> schedule \<Rightarrow> bool" where
  "counters_ok runs r \<longleftrightarrow>
     int (count_where (\<lambda>x. sr_schedule_id x = sc_id r) runs) \<le> sc_run_count r \<and>
     int (count_where (\<lambda>x. sr_schedule_id x = sc_id r \<and> sr_status x \<noteq> ''success'') runs) \<le> sc_failure_count r"

definition schedule_wf :: "store \<Rightarrow> bool" where
  "schedule_wf s \<longleftrightarrow> distinct (map sc_id (t_schedules s)) \<and> distinct (map sc_name (t_schedules s)) \<and>
     distinct (map sr_id (t_runs s)) \<and> (\<forall>x \<in> set (t_runs s). sr_finished_at x \<noteq> None) \<and>
     (\<forall>r \<in> set (t_schedules s). counters_ok (t_runs s) r) \<and>
     (st_foreign_keys s \<longrightarrow> sr_schedule_id ` set (t_runs s) \<subseteq> sc_id ` set (t_schedules s))"

text \<open>
  Single store calls, with what the theory of the run history shows of their callers: a new schedule has zero counters and a
  fresh id; a fire writes a finished run of its own schedule whose status agrees with the update.
  insert\_schedule\_run, which reserves an unfinished run, is called by no code but the store's tests and is no step.
\<close>
inductive schedule_step :: "store \<Rightarrow> store \<Rightarrow> bool" where
  create: "\<lbrakk>sc_run_count d = 0; sc_failure_count d = 0; sc_id d \<notin> sr_schedule_id ` set (t_runs s);
     create_schedule (d :: schedule) s = (r, s')\<rbrakk> \<Longrightarrow> schedule_step s s'"
| delete: "delete_schedules_where p s = (n, s') \<Longrightarrow> schedule_step s s'"
| enable: "set_schedule_enabled now x b s = (b', s') \<Longrightarrow> schedule_step s s'"
| patch: "update_schedule_patch now (d :: fetched_schedule) s = (b', s') \<Longrightarrow> schedule_step s s'"
| next_run: "set_schedule_next_run now x t s = (r, s') \<Longrightarrow> schedule_step s s'"
| fire: "\<lbrakk>sr_schedule_id run = sid; sr_finished_at run \<noteq> None; (sr_status run = ''success'') = su_success u;
     record_schedule_run_v2 now sid run u s = (r, s')\<rbrakk> \<Longrightarrow> schedule_step s s'"
| reap: "reap_interrupted_schedule_runs now s = (n, s') \<Longrightarrow> schedule_step s s'"
| prune: "delete_schedule_runs_before t s = (n, s') \<Longrightarrow> schedule_step s s'"

lemma count_where_delete_le: "count_where p (delete_where q rows) \<le> count_where p rows"
  by (induction rows) (auto simp: delete_where_def)

lemma counters_ok_delete: "counters_ok runs r \<Longrightarrow> counters_ok (delete_where q runs) r"
  unfolding counters_ok_def
  using count_where_delete_le [of "\<lambda>x. sr_schedule_id x = sc_id r" q runs]
    count_where_delete_le [of "\<lambda>x. sr_schedule_id x = sc_id r \<and> sr_status x \<noteq> ''success''" q runs]
  by linarith

lemma wf_update_schedules:
  assumes "schedule_wf s" and "\<And>r. sc_id (f r) = sc_id r" "\<And>r. sc_name (f r) = sc_name r"
    and "\<And>r. sc_run_count (f r) = sc_run_count r" "\<And>r. sc_failure_count (f r) = sc_failure_count r"
  shows "schedule_wf (t_schedules_update (\<lambda>_. update_where p f (t_schedules s)) s)"
proof -
  have "map sc_id (update_where p f (t_schedules s)) = map sc_id (t_schedules s)"
    by (rule map_update_where) (simp add: assms(2))
  moreover from this have "sc_id ` set (update_where p f (t_schedules s)) = sc_id ` set (t_schedules s)"
    by (metis image_set)
  moreover have "map sc_name (update_where p f (t_schedules s)) = map sc_name (t_schedules s)"
    by (rule map_update_where) (simp add: assms(3))
  moreover have "counters_ok runs (f r) = counters_ok runs r" for runs r
    by (simp add: counters_ok_def assms)
  ultimately show ?thesis using assms(1) by (auto simp: schedule_wf_def set_update_where)
qed

lemma wf_fire:
  assumes wf: "schedule_wf s" and run: "sr_schedule_id run = sid" "sr_finished_at run \<noteq> None"
    "(sr_status run = ''success'') = su_success u" and call: "record_schedule_run_v2 now sid run u s = (r, s')"
  shows "schedule_wf s'"
  using call
proof (cases rule: record_v2_cases)
  case failed
  then show ?thesis using wf by simp
next
  case written
  let ?rows = "update_where (\<lambda>r. sc_id r = sid) (cache_run now u) (t_schedules s)"
  have m: "map sc_id ?rows = map sc_id (t_schedules s)" "map sc_name ?rows = map sc_name (t_schedules s)"
    by (rule map_update_where, simp)+
  have ids: "sc_id ` set ?rows = sc_id ` set (t_schedules s)" using m(1) by (metis image_set)
  have "counters_ok (t_runs s @ [run]) x" if "x \<in> set ?rows" for x
  proof -
    from that obtain d where d: "d \<in> set (t_schedules s)" "x = (if sc_id d = sid then cache_run now u d else d)"
      by (auto simp: set_update_where)
    have "counters_ok (t_runs s) d" using wf d(1) by (simp add: schedule_wf_def)
    then show ?thesis using run d(2) by (auto simp: counters_ok_def cache_run_def)
  qed
  then show ?thesis using wf m ids run written by (auto simp: schedule_wf_def)
qed

lemma wf_delete:
  assumes "schedule_wf s" and "delete_schedules_where p s = (n, s')"
  shows "schedule_wf s'"
proof -
  let ?gone = "\<lambda>r. sr_schedule_id r \<in> sc_id ` {r \<in> set (t_schedules s). p r}"
  have s': "s' = s\<lparr>t_runs := delete_where ?gone (t_runs s), t_schedules := delete_where p (t_schedules s)\<rparr>"
    using assms(2) by (auto simp: delete_schedules_where_def bind_def)
  show ?thesis
    using assms(1) unfolding s' schedule_wf_def image_subset_iff
    by (auto simp: counters_ok_delete) (auto simp: delete_where_def distinct_map_filter image_iff, metis)
qed

lemma schedule_wf_step: "schedule_step s s' \<Longrightarrow> schedule_wf s \<Longrightarrow> schedule_wf s'"
proof (induction rule: schedule_step.induct)
  case (create d s r s')
  have d: "schedule.truncate d = d" by (simp add: schedule.defs)
  have none: "count_where (\<lambda>x. sr_schedule_id x = sc_id d \<and> Q x) (t_runs s) = 0" for Q
    using create.hyps(3) by (fastforce simp: count_where_0 image_iff)
  have ok: "counters_ok (t_runs s) d"
    using none [of "\<lambda>x. True"] none [of "\<lambda>x. sr_status x \<noteq> ''success''"] create.hyps(1,2) by (simp add: counters_ok_def)
  show ?case
  proof (cases "list_ex (\<lambda>b. sc_id d = sc_id b \<or> sc_name d = sc_name b) (t_schedules s)")
    case True
    then show ?thesis using create by (simp add: create_schedule_def sql_insert_def d)
  next
    case False
    then have "s' = t_schedules_update (\<lambda>_. t_schedules s @ [d]) s"
      using create.hyps(4) by (simp add: create_schedule_def sql_insert_def d)
    then show ?thesis using create.prems ok False by (auto simp: schedule_wf_def list_ex_iff)
  qed
next
  case (delete p s n s')
  then show ?case by (blast intro: wf_delete)
next
  case (enable now x b s b' s')
  then show ?case by (auto simp: set_schedule_enabled_def bind_def intro!: wf_update_schedules)
next
  case (patch now d s b' s')
  then show ?case by (auto simp: update_schedule_patch_def bind_def intro!: wf_update_schedules)
next
  case (next_run now x t s r s')
  then show ?case by (auto simp: set_schedule_next_run_def bind_def intro!: wf_update_schedules)
next
  case (fire run sid u now s r s')
  then show ?case by (blast intro: wf_fire)
next
  case (reap now s n s')
  then have "s' = s"
    by (auto simp: reap_interrupted_schedule_runs_def schedule_wf_def update_where_none)
  then show ?case using reap by simp
next
  case (prune t s n s')
  then have s': "s' = t_runs_update (\<lambda>_. delete_where (\<lambda>r. sr_started_at r < t) (t_runs s)) s"
    by (simp add: delete_schedule_runs_before_def)
  show ?case using prune.prems unfolding s' schedule_wf_def
    by (auto simp: counters_ok_delete) (auto simp: delete_where_def distinct_map_filter)
qed

lemma schedule_wf_steps: "schedule_step\<^sup>*\<^sup>* s s' \<Longrightarrow> schedule_wf s \<Longrightarrow> schedule_wf s'"
  by (induction rule: rtranclp_induct) (auto intro: schedule_wf_step)

lemma schedule_wf_open: "schedule_wf (open_with_device fk d)"
  by (simp add: schedule_wf_def open_with_device_def)

section \<open>Properties\<close>

definition sample_schedule :: "string \<Rightarrow> string \<Rightarrow> schedule" where
  "sample_schedule sid name = \<lparr>sc_id = sid, sc_name = name, sc_cron = ''0 * * * *'', sc_target_kind = ''http'',
     sc_target_url = ''http://x'', sc_target_method = ''POST'', sc_body_json = None, sc_headers_json = None,
     sc_command = None, sc_cwd = None, sc_env_keys = None, sc_timeout_secs = 60, sc_enabled = True,
     sc_next_run_at = Some ''1'', sc_last_run_at = None, sc_last_status = None, sc_last_response = None,
     sc_last_error = None, sc_run_count = 0, sc_failure_count = 0, sc_app_id = None, sc_created_at = ''0'',
     sc_updated_at = ''0''\<rparr>"

definition sample_run :: "string \<Rightarrow> string \<Rightarrow> string \<Rightarrow> schedule_run" where
  "sample_run rid sid status = \<lparr>sr_id = rid, sr_schedule_id = sid, sr_started_at = ''1'', sr_finished_at = Some ''2'',
     sr_status = status, sr_fire_kind = ''cron'', sr_exit_code = None, sr_http_status = None,
     sr_response_preview = None, sr_error_preview = None, sr_duration_ms = None, sr_created_at = ''2''\<rparr>"

definition sample_update :: "bool \<Rightarrow> schedule_run_update" where
  "sample_update ok = \<lparr>su_last_run_at = ''2'', su_next_run_at = Some ''3'', su_last_status = None,
     su_last_response = None, su_last_error = None, su_success = ok\<rparr>"

definition sample_schedules :: store where
  "sample_schedules = open_with_device True ''dev''\<lparr>t_schedules := [sample_schedule ''s1'' ''a'']\<rparr>"

lemma sample_schedules_reachable: "schedule_step\<^sup>*\<^sup>* (open_with_device True ''dev'') sample_schedules"
  by (rule r_into_rtranclp, rule create [where d = "sample_schedule ''s1'' ''a''" and r = "Inr ()"])
    (simp_all add: create_schedule_def sql_insert_def sample_schedules_def sample_schedule_def open_with_device_def schedule.defs)

text \<open>The fire write is all or nothing: it succeeds exactly when the schedule exists and the run id is new, then
  the history holds the run, the schedule's row counts it and caches its outcome, and every other row is kept;
  otherwise nothing is written.\<close>
theorem record_run_atomic:
  assumes reach: "schedule_step\<^sup>*\<^sup>* (open_with_device True device) s" and fk: "st_foreign_keys s"
    and own: "sr_schedule_id run = sid" and call: "record_schedule_run_v2 now sid run u s = (res, s')"
  shows "if sid \<in> sc_id ` set (t_schedules s) \<and> sr_id run \<notin> sr_id ` set (t_runs s)
    then res = Inr () \<and> t_runs s' = t_runs s @ [run] \<and>
      (\<exists>old new. filter (\<lambda>r. sc_id r = sid) (t_schedules s) = [old] \<and> filter (\<lambda>r. sc_id r = sid) (t_schedules s') = [new] \<and>
         sc_run_count new = sc_run_count old + 1 \<and>
         sc_failure_count new = sc_failure_count old + (if su_success u then 0 else 1) \<and>
         sc_last_run_at new = Some (su_last_run_at u) \<and> sc_next_run_at new = su_next_run_at u \<and>
         sc_last_error new = su_last_error u) \<and>
      filter (\<lambda>r. sc_id r \<noteq> sid) (t_schedules s') = filter (\<lambda>r. sc_id r \<noteq> sid) (t_schedules s)
    else (\<exists>e. res = Inl e) \<and> s' = s"
  using call
proof (cases rule: record_v2_cases)
  case (failed e)
  then show ?thesis using own by auto
next
  case written
  have wf: "schedule_wf s" using schedule_wf_steps [OF reach schedule_wf_open] .
  have mem: "sid \<in> sc_id ` set (t_schedules s)" using written(3) fk own by simp
  then obtain old where old: "old \<in> set (t_schedules s)" "sc_id old = sid" by auto
  have one: "filter (\<lambda>r. sc_id r = sid) (t_schedules s) = [old]"
    by (rule filter_key_single) (use wf old in \<open>simp_all add: schedule_wf_def\<close>)
  have upd: "filter (\<lambda>r. sc_id r = sid) (update_where (\<lambda>r. sc_id r = sid) (cache_run now u) rows) =
      map (cache_run now u) (filter (\<lambda>r. sc_id r = sid) rows)" for rows
    by (induction rows) auto
  have other: "filter (\<lambda>r. sc_id r \<noteq> sid) (update_where (\<lambda>r. sc_id r = sid) (cache_run now u) rows) =
      filter (\<lambda>r. sc_id r \<noteq> sid) rows" for rows
    by (induction rows) auto
  show ?thesis using written mem one by (simp add: upd other cache_run_def)
qed

theorem record_run_atomic_witness:
  "(\<exists>s'. record_schedule_run_v2 ''9'' ''s1'' (sample_run ''r'' ''s1'' ''success'') (sample_update True) sample_schedules
       = (Inr (), s') \<and> t_runs s' = [sample_run ''r'' ''s1'' ''success'']) \<and>
   snd (record_schedule_run_v2 ''9'' ''zz'' (sample_run ''r'' ''zz'' ''success'') (sample_update True) sample_schedules)
     = sample_schedules"
proof -
  have fk: "st_foreign_keys sample_schedules" by (simp add: sample_schedules_def open_with_device_def)
  have own: "sr_schedule_id (sample_run r s st) = s" for r s st by (simp add: sample_run_def)
  have rows: "sc_id ` set (t_schedules sample_schedules) = {''s1''}" "t_runs sample_schedules = []"
    by (simp_all add: sample_schedules_def sample_schedule_def open_with_device_def)
  obtain r1 s1 where c1: "record_schedule_run_v2 ''9'' ''s1'' (sample_run ''r'' ''s1'' ''success'') (sample_update True)
      sample_schedules = (r1, s1)" by force
  obtain r2 s2 where c2: "record_schedule_run_v2 ''9'' ''zz'' (sample_run ''r'' ''zz'' ''success'') (sample_update True)
      sample_schedules = (r2, s2)" by force
  show ?thesis
    using record_run_atomic [OF sample_schedules_reachable fk own c1] record_run_atomic [OF sample_schedules_reachable fk own c2]
      c1 c2 by (simp add: rows)
qed

lemma foldl_count_health:
  "foldl (\<lambda>c s. count_health (health_of s) c) c rows =
    \<lparr>hc_green = hc_green c + count_where (\<lambda>s. health_of s = Green) rows,
     hc_amber = hc_amber c + count_where (\<lambda>s. health_of s = Amber) rows,
     hc_red = hc_red c + count_where (\<lambda>s. health_of s = Red) rows,
     hc_pending = hc_pending c + count_where (\<lambda>s. health_of s = Health_Pending) rows,
     hc_paused = hc_paused c + count_where (\<lambda>s. health_of s = Paused) rows\<rparr>"
proof (induction rows arbitrary: c)
  case (Cons s rows)
  then show ?case by (cases "health_of s") simp_all
qed simp

lemma health_of_row: "health_of (row_to_schedule r) = compute_schedule_health r"
  by (simp add: health_of_def row_to_schedule_def schedule.defs)

lemma count_where_map: "count_where p (map f rows) = count_where (\<lambda>r. p (f r)) rows"
  by (induction rows) auto

lemma count_where_order: "count_where p (order_asc k rows) = count_where p rows"
  by (simp add: count_where_def order_asc_def filter_sort)

text \<open>The summary counts every schedule once under its derived health, which is never red; its totals add up.\<close>
theorem summary_counts:
  "\<exists>x. schedules_summary since s = (Inr x, s) \<and> ss_total x = length (t_schedules s) \<and>
    hc_paused (ss_by_health x) = count_where (\<lambda>r. \<not> sc_enabled r) (t_schedules s) \<and>
    hc_pending (ss_by_health x) = count_where (\<lambda>r. sc_enabled r \<and> sc_last_run_at r = None) (t_schedules s) \<and>
    hc_amber (ss_by_health x) =
      count_where (\<lambda>r. sc_enabled r \<and> sc_last_run_at r \<noteq> None \<and> sc_last_error r \<noteq> None) (t_schedules s) \<and>
    hc_green (ss_by_health x) =
      count_where (\<lambda>r. sc_enabled r \<and> sc_last_run_at r \<noteq> None \<and> sc_last_error r = None) (t_schedules s) \<and>
    hc_red (ss_by_health x) = 0 \<and>
    hc_green (ss_by_health x) + hc_amber (ss_by_health x) + hc_pending (ss_by_health x) + hc_paused (ss_by_health x)
      = ss_total x"
proof -
  have health: "compute_schedule_health r = Green \<longleftrightarrow> sc_enabled r \<and> sc_last_run_at r \<noteq> None \<and> sc_last_error r = None"
    "compute_schedule_health r = Amber \<longleftrightarrow> sc_enabled r \<and> sc_last_run_at r \<noteq> None \<and> sc_last_error r \<noteq> None"
    "compute_schedule_health r = Health_Pending \<longleftrightarrow> sc_enabled r \<and> sc_last_run_at r = None"
    "compute_schedule_health r = Paused \<longleftrightarrow> \<not> sc_enabled r" "compute_schedule_health r \<noteq> Red" for r :: schedule
    by (auto simp: compute_schedule_health_def)
  have total: "count_where (\<lambda>r. sc_enabled r \<and> sc_last_run_at r \<noteq> None \<and> sc_last_error r = None) rows +
      count_where (\<lambda>r. sc_enabled r \<and> sc_last_run_at r \<noteq> None \<and> sc_last_error r \<noteq> None) rows +
      count_where (\<lambda>r. sc_enabled r \<and> sc_last_run_at r = None) rows + count_where (\<lambda>r. \<not> sc_enabled r) rows = length rows"
    for rows by (induction rows) auto
  have none: "count_where (\<lambda>r. False) rows = 0" for rows :: "schedule list" by (simp add: count_where_0)
  show ?thesis
    using total [of "t_schedules s"]
    by (simp add: schedules_summary_def bind_def list_schedules_def foldl_count_health count_where_map health_of_row
        count_where_order health none)
qed

end
