(* ===== verification/Scheduler_Runner.thy ===== *)
theory Scheduler_Runner
  imports Store_Schedule
begin

text \<open>
  The scheduler's runner (gctrl-scheduler/src): cron.rs, redact.rs, exec.rs and runner.rs. What the
  crates cron, regex, chrono and reqwest, the operating system and Debug formatting answer are
  parameters, collected in one record.
\<close>

section \<open>The libraries and the configuration\<close>

text \<open>
  cron\_from\_str is the cron crate's parser (Inl: the error's text) and cron\_after the first
  occurrence strictly after an instant; redact\_secrets is the regex replacement of redact.rs; lossy is
  String::from\_utf8\_lossy; debug\_str is the Debug rendering of a string; millis the milliseconds
  between two instants.
\<close>
record 'c scheduler_lib =
  lib_cron_from_str :: "string \<Rightarrow> string + 'c"
  lib_cron_after :: "'c \<Rightarrow> timestamp \<Rightarrow> timestamp option"
  lib_redact_secrets :: "string \<Rightarrow> string"
  lib_lossy :: "string \<Rightarrow> string"
  lib_debug_str :: "string \<Rightarrow> string"
  lib_millis :: "timestamp \<Rightarrow> timestamp \<Rightarrow> int"

text \<open>The fields of SchedulerConfig the runner and the routes read.\<close>
record scheduler_config =
  cfg_max_per_tick :: nat
  cfg_default_timeout_secs :: nat
  cfg_exec_enabled :: bool
  cfg_exec_allowed_programs :: "string list"

section \<open>Cron expressions\<close>

datatype cron_error = BadFieldCount nat | Cron_Parse string

definition cron_parse :: "'c scheduler_lib \<Rightarrow> string \<Rightarrow> cron_error + 'c" where
  "cron_parse lib input =
     (let trimmed = trim input; n = count_words False trimmed;
          from_str = (\<lambda>t. case lib_cron_from_str lib t of Inl e \<Rightarrow> Inl (Cron_Parse e) | Inr x \<Rightarrow> Inr x)
      in if n = 5 then from_str (''0 '' @ trimmed)
         else if n = 6 \<or> n = 7 then from_str trimmed
         else Inl (BadFieldCount n))"

definition next_after :: "'c scheduler_lib \<Rightarrow> string \<Rightarrow> timestamp \<Rightarrow> cron_error + timestamp option" where
  "next_after lib input after =
     (case cron_parse lib input of Inl e \<Rightarrow> Inl e | Inr expr \<Rightarrow> Inr (lib_cron_after lib expr after))"

text \<open>.ok().flatten(): an error counts as no further occurrence.\<close>
definition next_or_none :: "'c scheduler_lib \<Rightarrow> string \<Rightarrow> timestamp \<Rightarrow> timestamp option" where
  "next_or_none lib input after = (case next_after lib input after of Inl _ \<Rightarrow> None | Inr t \<Rightarrow> t)"

section \<open>Redaction and truncation\<close>

definition ellipsis :: string where
  "ellipsis = bytes [226, 128, 166]"

fun floor_boundary :: "string \<Rightarrow> nat \<Rightarrow> nat" where
  "floor_boundary r 0 = 0"
| "floor_boundary r (Suc n) = (if is_char_boundary r (Suc n) then Suc n else floor_boundary r n)"

definition redact_and_truncate :: "'c scheduler_lib \<Rightarrow> string \<Rightarrow> nat \<Rightarrow> string" where
  "redact_and_truncate lib s max_bytes =
     (let r = lib_redact_secrets lib s
      in if length r \<le> max_bytes then r
         else let stop = floor_boundary r max_bytes
              in take stop r @ ellipsis @ ''[truncated '' @ show_nat (length r - stop) @ '' bytes]'')"

definition RESPONSE_BODY_CAP_BYTES :: nat where
  "RESPONSE_BODY_CAP_BYTES = 64 * 1024"

definition RESPONSE_PREVIEW_BYTES :: nat where
  "RESPONSE_PREVIEW_BYTES = 4096"

definition ERROR_PREVIEW_BYTES :: nat where
  "ERROR_PREVIEW_BYTES = 512"

section \<open>Capped reads\<close>

text \<open>A child's pipe is the list of what each read returns; an empty read and an error end it.\<close>
fun read_capped_loop :: "nat \<Rightarrow> string \<Rightarrow> string list \<Rightarrow> string \<times> bool" where
  "read_capped_loop cap buf [] = (buf, False)"
| "read_capped_loop cap buf (chunk # rest) =
     (if chunk = [] then (buf, False)
      else let remaining = cap - length buf
        in if remaining = 0 then (buf, True)
           else let n = min (length chunk) remaining
             in if n < length chunk then (buf @ take n chunk, True)
                else read_capped_loop cap (buf @ take n chunk) rest)"

definition read_capped :: "'c scheduler_lib \<Rightarrow> string list \<Rightarrow> nat \<Rightarrow> string" where
  "read_capped lib chunks cap =
     (case read_capped_loop cap [] chunks of (buf, overflow) \<Rightarrow>
        if overflow then lib_lossy lib buf @ ellipsis @ ''[truncated at '' @ show_nat cap @ ''-byte cap]''
        else lib_lossy lib buf)"

text \<open>The chunks of an HTTP response's body, up to the first error.\<close>
fun read_body_loop :: "string \<Rightarrow> string list \<Rightarrow> string \<times> bool" where
  "read_body_loop buf [] = (buf, False)"
| "read_body_loop buf (chunk # rest) =
     (if RESPONSE_BODY_CAP_BYTES < length buf + length chunk
      then (buf @ take (RESPONSE_BODY_CAP_BYTES - length buf) chunk, True)
      else read_body_loop (buf @ chunk) rest)"

definition read_capped_body :: "'c scheduler_lib \<Rightarrow> string list \<Rightarrow> string" where
  "read_capped_body lib chunks =
     (case read_body_loop [] chunks of (buf, overflow) \<Rightarrow>
        if overflow
        then lib_lossy lib buf @ ellipsis @ ''[truncated at '' @ show_nat RESPONSE_BODY_CAP_BYTES @
               ''-byte response cap]''
        else lib_lossy lib buf)"

section \<open>Exec\<close>

text \<open>Path equality compares components: repeated separators and inner dots do not count.\<close>
fun split_slash :: "string \<Rightarrow> string list" where
  "split_slash [] = [[]]"
| "split_slash (c # s) =
     (if c = CHR ''/'' then [] # split_slash s
      else case split_slash s of [] \<Rightarrow> [[c]] | p # ps \<Rightarrow> (c # p) # ps)"

definition path_components :: "string \<Rightarrow> string list" where
  "path_components s =
     (let parts = split_slash s; normal = filter (\<lambda>p. p \<noteq> [] \<and> p \<noteq> ''.'')
      in if prefix ''/'' s then ''/'' # normal parts
         else if hd parts = ''.'' then ''.'' # normal (tl parts)
         else normal parts)"

datatype exec_outcome =
  Refused string
| Spawned "int option" string string bool

definition check_gates :: "'c scheduler_lib \<Rightarrow> string list \<Rightarrow> string \<Rightarrow> scheduler_config \<Rightarrow> string + unit" where
  "check_gates lib argv cwd cfg =
     (if \<not> cfg_exec_enabled cfg then Inl ''exec_enabled=false in scheduler config''
      else if argv = [] then Inl ''argv is empty''
      else if \<not> prefix ''/'' (hd argv)
      then Inl (''argv[0] must be an absolute path, got '' @ lib_debug_str lib (hd argv))
      else if cfg_exec_allowed_programs cfg = []
      then Inl ''exec_allowed_programs is empty (no programs permitted)''
      else if \<not> list_ex (\<lambda>p. path_components p = path_components (hd argv)) (cfg_exec_allowed_programs cfg)
      then Inl (''argv[0]='' @ lib_debug_str lib (hd argv) @ '' not in exec_allowed_programs'')
      else if \<not> prefix ''/'' cwd then Inl (''cwd must be absolute, got '' @ lib_debug_str lib cwd)
      else Inr ())"

text \<open>What is handed to the operating system, and what it answers within the timeout.\<close>
record spawn_request =
  sp_argv :: "string list"
  sp_cwd :: string
  sp_env :: "(string \<times> string) list"
  sp_timeout_secs :: nat

datatype child_result =
  Spawn_Failed string
| Child_Exited "int option" "string list" "string list"
| Wait_Failed string "string list" "string list"
| Child_Timed_Out

definition prefix_or_empty :: "string \<Rightarrow> string \<Rightarrow> string" where
  "prefix_or_empty stderr fallback = (if stderr = [] then fallback else fallback @ [CHR 0x0A] @ stderr)"

definition STDOUT_CAP_BYTES :: nat where
  "STDOUT_CAP_BYTES = 64 * 1024"

definition STDERR_CAP_BYTES :: nat where
  "STDERR_CAP_BYTES = 64 * 1024"

definition exec_result :: "'c scheduler_lib \<Rightarrow> nat \<Rightarrow> child_result \<Rightarrow> exec_outcome" where
  "exec_result lib timeout_secs child =
     (case child of
        Spawn_Failed e \<Rightarrow> Spawned None [] (''spawn failed: '' @ e) False
      | Child_Exited code out err \<Rightarrow>
          Spawned code (read_capped lib out STDOUT_CAP_BYTES) (read_capped lib err STDERR_CAP_BYTES) False
      | Wait_Failed e out err \<Rightarrow>
          Spawned None (read_capped lib out STDOUT_CAP_BYTES)
            (prefix_or_empty (read_capped lib err STDERR_CAP_BYTES) (''wait failed: '' @ e)) False
      | Child_Timed_Out \<Rightarrow> Spawned None [] (''timed out after '' @ show_nat timeout_secs @ ''s'') True)"

text \<open>The outcome and what was spawned, if anything; vars is the daemon's environment.\<close>
definition run_exec_schedule ::
  "'c scheduler_lib \<Rightarrow> (spawn_request \<Rightarrow> child_result) \<Rightarrow> (string \<times> string) list \<Rightarrow> 'a schedule_scheme \<Rightarrow> nat
   \<Rightarrow> scheduler_config \<Rightarrow> exec_outcome \<times> spawn_request option" where
  "run_exec_schedule lib spawn vars sched timeout_secs cfg =
     (case sc_command sched of
        None \<Rightarrow> (Refused ''command is empty'', None)
      | Some argv \<Rightarrow>
          if argv = [] then (Refused ''command is empty'', None)
          else case sc_cwd sched of
            None \<Rightarrow> (Refused ''cwd is required for exec schedules'', None)
          | Some cwd \<Rightarrow>
              if cwd = [] then (Refused ''cwd is required for exec schedules'', None)
              else case check_gates lib argv cwd cfg of
                Inl reason \<Rightarrow> (Refused reason, None)
              | Inr _ \<Rightarrow>
                  let env_keys = (case sc_env_keys sched of None \<Rightarrow> [] | Some ks \<Rightarrow> ks);
                      request = \<lparr>sp_argv = argv, sp_cwd = cwd, sp_env = filter (\<lambda>(k, _). k \<in> set env_keys) vars,
                        sp_timeout_secs = max timeout_secs 1\<rparr>
                  in (exec_result lib timeout_secs (spawn request), Some request))"

section \<open>Firing a schedule\<close>

record fire_outcome =
  fo_success :: bool
  fo_status :: "int option"
  fo_response :: "string option"
  fo_error :: "string option"
  fo_timed_out :: bool
  fo_refused :: bool

datatype http_method = GET | PUT | DELETE | PATCH | POST

text \<open>to\_uppercase; only ASCII letters map into the method names.\<close>
definition to_upper :: "string \<Rightarrow> string" where
  "to_upper = map (\<lambda>c. let n = of_char c :: nat in if 97 \<le> n \<and> n \<le> 122 then char_of (n - 32) else c)"

definition http_method_of :: "string \<Rightarrow> http_method" where
  "http_method_of m =
     (let u = to_upper m
      in if u = ''GET'' then GET else if u = ''PUT'' then PUT else if u = ''DELETE'' then DELETE
         else if u = ''PATCH'' then PATCH else POST)"

record http_request =
  rq_method :: http_method
  rq_url :: string
  rq_timeout_secs :: nat
  rq_body :: "json option"
  rq_headers :: "(string \<times> string) list"

text \<open>A status with the body's chunks, or an error's text and whether it is a timeout.\<close>
datatype http_reply = Response int "string list" | Http_Error string bool

definition header_pairs :: "json option \<Rightarrow> (string \<times> string) list" where
  "header_pairs headers =
     (case headers of
        Some (JObj kvs) \<Rightarrow> [(k, v). (k, j) \<leftarrow> kvs, v \<leftarrow> (case j of JStr v \<Rightarrow> [v] | _ \<Rightarrow> [])]
      | _ \<Rightarrow> [])"

definition http_ok :: "int \<Rightarrow> bool" where
  "http_ok status \<longleftrightarrow> 200 \<le> status \<and> status < 400"

definition fire_http ::
  "'c scheduler_lib \<Rightarrow> (http_request \<Rightarrow> http_reply) \<Rightarrow> 'a schedule_scheme \<Rightarrow> nat \<Rightarrow> fire_outcome" where
  "fire_http lib send sched timeout_secs =
     (case send \<lparr>rq_method = http_method_of (sc_target_method sched), rq_url = sc_target_url sched,
          rq_timeout_secs = timeout_secs, rq_body = sc_body_json sched,
          rq_headers = header_pairs (sc_headers_json sched)\<rparr> of
        Response status chunks \<Rightarrow>
          \<lparr>fo_success = http_ok status, fo_status = Some status,
           fo_response = Some (redact_and_truncate lib (read_capped_body lib chunks) RESPONSE_PREVIEW_BYTES),
           fo_error = None, fo_timed_out = False, fo_refused = False\<rparr>
      | Http_Error e timed_out \<Rightarrow>
          \<lparr>fo_success = False, fo_status = None, fo_response = None, fo_error = Some e,
           fo_timed_out = timed_out, fo_refused = False\<rparr>)"

definition exec_fire :: "'c scheduler_lib \<Rightarrow> nat \<Rightarrow> exec_outcome \<Rightarrow> fire_outcome" where
  "exec_fire lib timeout_secs outcome =
     (case outcome of
        Refused reason \<Rightarrow>
          \<lparr>fo_success = False, fo_status = None, fo_response = None,
           fo_error = Some (redact_and_truncate lib (''refused: '' @ reason) ERROR_PREVIEW_BYTES),
           fo_timed_out = False, fo_refused = True\<rparr>
      | Spawned exit_code stdout stderr timed_out \<Rightarrow>
          let success = (\<not> timed_out \<and> exit_code = Some 0)
          in \<lparr>fo_success = success, fo_status = exit_code,
              fo_response = (if stdout = [] then None else Some (redact_and_truncate lib stdout RESPONSE_PREVIEW_BYTES)),
              fo_error = (if success then None
                 else if timed_out
                 then Some (redact_and_truncate lib (''timed out after '' @ show_nat timeout_secs @ ''s'') ERROR_PREVIEW_BYTES)
                 else Some (redact_and_truncate lib stderr ERROR_PREVIEW_BYTES)),
              fo_timed_out = timed_out, fo_refused = False\<rparr>)"

definition is_exec :: "'a schedule_scheme \<Rightarrow> bool" where
  "is_exec s \<longleftrightarrow> sc_target_kind s = ''exec''"

definition run_status :: "fire_outcome \<Rightarrow> string" where
  "run_status oc =
     (if fo_refused oc then ''refused'' else if fo_timed_out oc then ''timed_out''
      else if fo_success oc then ''success'' else ''failure'')"

definition build_run_row ::
  "'c scheduler_lib \<Rightarrow> string \<Rightarrow> 'a schedule_scheme \<Rightarrow> fire_outcome \<Rightarrow> timestamp \<Rightarrow> timestamp \<Rightarrow> string \<Rightarrow> schedule_run" where
  "build_run_row lib uuid sched outcome started finished fire_kind =
     \<lparr>sr_id = uuid, sr_schedule_id = sc_id sched, sr_started_at = started, sr_finished_at = Some finished,
      sr_status = run_status outcome, sr_fire_kind = fire_kind,
      sr_exit_code = (if is_exec sched then fo_status outcome else None),
      sr_http_status = (if is_exec sched then None else fo_status outcome),
      sr_response_preview = fo_response outcome, sr_error_preview = fo_error outcome,
      sr_duration_ms = Some (lib_millis lib started finished), sr_created_at = finished\<rparr>"

definition update_of :: "timestamp \<Rightarrow> timestamp option \<Rightarrow> fire_outcome \<Rightarrow> schedule_run_update" where
  "update_of now next_run outcome =
     \<lparr>su_last_run_at = now, su_next_run_at = next_run, su_last_status = fo_status outcome,
      su_last_response = fo_response outcome, su_last_error = fo_error outcome, su_success = fo_success outcome\<rparr>"

text \<open>The world a fire meets: the process spawner, the HTTP client and the daemon's environment.\<close>
record fire_env =
  fe_spawn :: "spawn_request \<Rightarrow> child_result"
  fe_send :: "http_request \<Rightarrow> http_reply"
  fe_vars :: "(string \<times> string) list"

definition fire_timeout :: "scheduler_config \<Rightarrow> 'a schedule_scheme \<Rightarrow> nat" where
  "fire_timeout cfg sched =
     (if 0 < sc_timeout_secs sched then nat (sc_timeout_secs sched) else cfg_default_timeout_secs cfg)"

definition fire :: "'c scheduler_lib \<Rightarrow> scheduler_config \<Rightarrow> fire_env \<Rightarrow> 'a schedule_scheme \<Rightarrow> fire_outcome" where
  "fire lib cfg env sched =
     (if is_exec sched
      then exec_fire lib (fire_timeout cfg sched)
             (fst (run_exec_schedule lib (fe_spawn env) (fe_vars env) sched (fire_timeout cfg sched) cfg))
      else fire_http lib (fe_send env) sched (fire_timeout cfg sched))"

text \<open>started, now and recorded are the three clock readings; a failed write is only logged.\<close>
record clock =
  ck_started :: timestamp
  ck_now :: timestamp
  ck_recorded :: timestamp

definition fire_one ::
  "'c scheduler_lib \<Rightarrow> scheduler_config \<Rightarrow> fire_env \<Rightarrow> clock \<Rightarrow> string \<Rightarrow> 'a schedule_scheme \<Rightarrow> store \<Rightarrow> store" where
  "fire_one lib cfg env ck uuid sched s =
     (let outcome = fire lib cfg env sched;
          update = update_of (ck_now ck) (next_or_none lib (sc_cron sched) (ck_now ck)) outcome;
          run = build_run_row lib uuid sched outcome (ck_started ck) (ck_now ck) ''cron''
      in snd (record_schedule_run_v2 (ck_recorded ck) (sc_id sched) run update s))"

fun fire_all ::
  "'c scheduler_lib \<Rightarrow> scheduler_config \<Rightarrow> (nat \<Rightarrow> fire_env) \<Rightarrow> (nat \<Rightarrow> clock) \<Rightarrow> (nat \<Rightarrow> string) \<Rightarrow> nat
   \<Rightarrow> fetched_schedule list \<Rightarrow> store \<Rightarrow> store" where
  "fire_all lib cfg env ck uuid i [] s = s"
| "fire_all lib cfg env ck uuid i (d # ds) s =
     fire_all lib cfg env ck uuid (Suc i) ds (fire_one lib cfg (env i) (ck i) (uuid i) d s)"

text \<open>One pass: the due rows are read once, then fired one after the other.\<close>
definition tick ::
  "'c scheduler_lib \<Rightarrow> scheduler_config \<Rightarrow> (nat \<Rightarrow> fire_env) \<Rightarrow> (nat \<Rightarrow> clock) \<Rightarrow> (nat \<Rightarrow> string) \<Rightarrow> timestamp
   \<Rightarrow> store \<Rightarrow> (gctl_error + nat) \<times> store" where
  "tick lib cfg env ck uuid now s =
     (case list_due_schedules now (cfg_max_per_tick cfg) s of
        (Inl e, s') \<Rightarrow> (Inl e, s')
      | (Inr ds, s') \<Rightarrow> (Inr (length ds), fire_all lib cfg env ck uuid 0 ds s'))"

text \<open>On startup: a next firing time for every enabled schedule that has none.\<close>
fun backfill_loop ::
  "'c scheduler_lib \<Rightarrow> timestamp \<Rightarrow> (nat \<Rightarrow> timestamp) \<Rightarrow> nat \<Rightarrow> fetched_schedule list \<Rightarrow> store \<Rightarrow> store" where
  "backfill_loop lib now rec i [] s = s"
| "backfill_loop lib now rec i (d # ds) s =
     backfill_loop lib now rec (Suc i) ds
       (if sc_next_run_at d \<noteq> None then s
        else case next_after lib (sc_cron d) now of
          Inr (Some t) \<Rightarrow> snd (set_schedule_next_run (rec i) (sc_id d) (Some t) s)
        | _ \<Rightarrow> s)"

definition backfill_next_run :: "'c scheduler_lib \<Rightarrow> timestamp \<Rightarrow> (nat \<Rightarrow> timestamp) \<Rightarrow> store \<Rightarrow> store" where
  "backfill_next_run lib now rec s =
     (case list_schedules (\<lambda>_ _. False) \<lparr>sf_enabled = Some True, sf_name_prefix = None\<rparr> s of
        (Inl e, s') \<Rightarrow> s'
      | (Inr ds, s') \<Rightarrow> backfill_loop lib now rec 0 ds s')"

section \<open>Capped reads keep a prefix\<close>

lemma read_capped_loop_eq:
  "[] \<notin> set chunks \<Longrightarrow> length buf \<le> cap \<Longrightarrow>
   read_capped_loop cap buf chunks = (take cap (buf @ concat chunks), cap < length buf + length (concat chunks))"
proof (induction chunks arbitrary: buf)
  case (Cons chunk rest)
  have ne: "0 < length chunk" using Cons.prems(1) by (cases chunk) auto
  show ?case
  proof (cases "length buf + length chunk \<le> cap")
    case True
    have room: "cap - length buf \<noteq> 0" "min (length chunk) (cap - length buf) = length chunk"
      using True ne by linarith+
    have "chunk \<noteq> []" using ne by simp
    then have "read_capped_loop cap buf (chunk # rest) = read_capped_loop cap (buf @ chunk) rest"
      by (simp only: read_capped_loop.simps Let_def room if_False) simp
    then show ?thesis using True Cons.IH [of "buf @ chunk"] Cons.prems
      by (simp add: add.assoc del: read_capped_loop.simps(2))
  next
    case False
    then show ?thesis using Cons.prems ne by (auto simp: Let_def min_def)
  qed
qed simp

lemma read_body_loop_eq:
  "length buf \<le> RESPONSE_BODY_CAP_BYTES \<Longrightarrow>
   read_body_loop buf chunks = (take RESPONSE_BODY_CAP_BYTES (buf @ concat chunks),
     RESPONSE_BODY_CAP_BYTES < length buf + length (concat chunks))"
  by (induction chunks arbitrary: buf) auto

text \<open>A capped read keeps exactly the first cap bytes of the stream and reports an overflow exactly when there were more.\<close>
theorem capped_reads_exact:
  assumes "[] \<notin> set chunks"
  shows "read_capped_loop cap [] chunks = (take cap (concat chunks), cap < length (concat chunks)) \<and>
    read_body_loop [] chunks =
      (take RESPONSE_BODY_CAP_BYTES (concat chunks), RESPONSE_BODY_CAP_BYTES < length (concat chunks))"
  using read_capped_loop_eq [OF assms, of "[]" cap] read_body_loop_eq [of "[]" chunks] by simp

theorem capped_reads_exact_witness:
  "read_capped_loop 3 [] [''ab'', ''cd'', ''e''] = (''abc'', True)"
  using capped_reads_exact [of "[''ab'', ''cd'', ''e'']" 3] by simp

section \<open>Truncation\<close>

lemma floor_boundary_le: "floor_boundary r n \<le> n"
  by (induction n) auto

lemma floor_boundary_ok: "is_char_boundary r (floor_boundary r n)"
  by (induction n) (auto simp: is_char_boundary_def)

lemma floor_boundary_max: "k \<le> n \<Longrightarrow> is_char_boundary r k \<Longrightarrow> k \<le> floor_boundary r n"
  by (induction n) (auto simp: le_Suc_eq)

section \<open>The exec gates\<close>

definition exec_allowed :: "scheduler_config \<Rightarrow> string list \<Rightarrow> string \<Rightarrow> bool" where
  "exec_allowed cfg argv cwd \<longleftrightarrow> cfg_exec_enabled cfg \<and> argv \<noteq> [] \<and> prefix ''/'' (hd argv) \<and>
     path_components (hd argv) \<in> path_components ` set (cfg_exec_allowed_programs cfg) \<and> prefix ''/'' cwd"

lemma check_gates_iff: "check_gates lib argv cwd cfg = Inr () \<longleftrightarrow> exec_allowed cfg argv cwd"
proof -
  have "list_ex (\<lambda>p. path_components p = c) ps \<longleftrightarrow> c \<in> path_components ` set ps" for c ps
    by (rule list_ex_key)
  then show ?thesis by (auto simp: check_gates_def exec_allowed_def)
qed

lemma check_gates_cases:
  "check_gates lib argv cwd cfg = Inr () \<or> (\<exists>reason. check_gates lib argv cwd cfg = Inl reason)"
  by (cases "check_gates lib argv cwd cfg") auto

text \<open>C12: An exec schedule is spawned exactly when the operator enabled exec, its program is absolute and allowlisted and its
  working directory is absolute; the child gets the row's argv and directory and, of the daemon's environment, exactly
  the listed keys. Otherwise nothing is spawned and the outcome is a refusal.\<close>
theorem exec_gate:
  "if (\<exists>argv cwd. sc_command sched = Some argv \<and> sc_cwd sched = Some cwd \<and> exec_allowed cfg argv cwd)
   then \<exists>q. snd (run_exec_schedule lib spawn vars sched t cfg) = Some q \<and>
     fst (run_exec_schedule lib spawn vars sched t cfg) = exec_result lib t (spawn q) \<and>
     sc_command sched = Some (sp_argv q) \<and> sc_cwd sched = Some (sp_cwd q) \<and> 1 \<le> sp_timeout_secs q \<and>
     set (sp_env q) = {(k, v) \<in> set vars. \<exists>ks. sc_env_keys sched = Some ks \<and> k \<in> set ks}
   else snd (run_exec_schedule lib spawn vars sched t cfg) = None \<and>
     (\<exists>reason. fst (run_exec_schedule lib spawn vars sched t cfg) = Refused reason)"
proof (cases "\<exists>argv cwd. sc_command sched = Some argv \<and> sc_cwd sched = Some cwd \<and> exec_allowed cfg argv cwd")
  case True
  then obtain argv cwd where g: "sc_command sched = Some argv" "sc_cwd sched = Some cwd" "exec_allowed cfg argv cwd" by blast
  then have "check_gates lib argv cwd cfg = Inr ()" "argv \<noteq> []" "cwd \<noteq> []"
    by (auto simp: check_gates_iff exec_allowed_def)
  then show ?thesis using True g by (cases "sc_env_keys sched") (auto simp: run_exec_schedule_def Let_def)
next
  case False
  then have "check_gates lib argv cwd cfg \<noteq> Inr ()" if "sc_command sched = Some argv" "sc_cwd sched = Some cwd" for argv cwd
    using that by (auto simp: check_gates_iff)
  then show ?thesis
    using False check_gates_cases [of lib _ _ cfg]
    by (auto simp: run_exec_schedule_def split: option.splits sum.splits)
qed

section \<open>One fire\<close>

lemma fire_status: "run_status (fire lib cfg env d) = ''success'' \<longleftrightarrow> fo_success (fire lib cfg env d)"
  by (auto simp: fire_def exec_fire_def fire_http_def run_status_def Let_def split: exec_outcome.splits http_reply.splits)

text \<open>The row a fire leaves behind.\<close>
definition fired_row ::
  "'c scheduler_lib \<Rightarrow> scheduler_config \<Rightarrow> fire_env \<Rightarrow> clock \<Rightarrow> 'a schedule_scheme \<Rightarrow> schedule \<Rightarrow> schedule" where
  "fired_row lib cfg env ck d = cache_run (ck_recorded ck)
     (update_of (ck_now ck) (next_or_none lib (sc_cron d) (ck_now ck)) (fire lib cfg env d))"

lemma fire_one_effect:
  assumes wf: "schedule_wf s" and mem: "sc_id d \<in> sc_id ` set (t_schedules s)" and fresh: "uuid \<notin> sr_id ` set (t_runs s)"
  shows "fire_one lib cfg env ck uuid d s = s\<lparr>
      t_schedules := update_where (\<lambda>r. sc_id r = sc_id d) (fired_row lib cfg env ck d) (t_schedules s),
      t_runs := t_runs s @ [build_run_row lib uuid d (fire lib cfg env d) (ck_started ck) (ck_now ck) ''cron'']\<rparr>"
    and "schedule_wf (fire_one lib cfg env ck uuid d s)"
proof -
  let ?run = "build_run_row lib uuid d (fire lib cfg env d) (ck_started ck) (ck_now ck) ''cron''"
  let ?u = "update_of (ck_now ck) (next_or_none lib (sc_cron d) (ck_now ck)) (fire lib cfg env d)"
  obtain r s' where call: "record_schedule_run_v2 (ck_recorded ck) (sc_id d) ?run ?u s = (r, s')" by force
  have f: "fire_one lib cfg env ck uuid d s = s'" by (simp add: fire_one_def call)
  have sel: "sr_id ?run = uuid" "sr_schedule_id ?run = sc_id d" by (simp_all add: build_run_row_def)
  from call show "fire_one lib cfg env ck uuid d s = s\<lparr>
      t_schedules := update_where (\<lambda>r. sc_id r = sc_id d) (fired_row lib cfg env ck d) (t_schedules s),
      t_runs := t_runs s @ [?run]\<rparr>"
    unfolding f fired_row_def using mem fresh sel by (cases rule: record_v2_cases) auto
  show "schedule_wf (fire_one lib cfg env ck uuid d s)"
    unfolding f by (rule wf_fire [OF wf sel(2) _ _ call]) (simp_all add: build_run_row_def update_of_def fire_status)
qed

section \<open>One pass\<close>

lemma fired_row_sel [simp]: "sc_id (fired_row lib cfg env ck d r) = sc_id r"
  "sc_next_run_at (fired_row lib cfg env ck d r) = next_or_none lib (sc_cron d) (ck_now ck)"
  by (simp_all add: fired_row_def update_of_def) (simp add: cache_run_def)

lemma filter_update_key:
  "(\<And>r. k (f r) = k r) \<Longrightarrow> filter (\<lambda>r. p (k r)) (update_where (\<lambda>r. k r = a) f rows) =
   map (\<lambda>r. if k r = a then f r else r) (filter (\<lambda>r. p (k r)) rows)"
  by (induction rows) auto

lemma filter_update_skip:
  "(\<And>r. k (f r) = k r) \<Longrightarrow> \<not> p a \<Longrightarrow>
   filter (\<lambda>r. p (k r)) (update_where (\<lambda>r. k r = a) f rows) = filter (\<lambda>r. p (k r)) rows"
  by (induction rows) auto

text \<open>Firing a list of schedules: one run each, in order; every row outside the list is kept.\<close>
lemma fire_all_effect:
  assumes "schedule_wf s" and "distinct (map sc_id ds)" and "sc_id ` set ds \<subseteq> sc_id ` set (t_schedules s)"
    and "\<forall>j \<ge> i. uuid j \<notin> sr_id ` set (t_runs s)" and "inj uuid"
  shows "schedule_wf (fire_all lib cfg env ck uuid i ds s) \<and>
    map sc_id (t_schedules (fire_all lib cfg env ck uuid i ds s)) = map sc_id (t_schedules s) \<and>
    map sr_schedule_id (t_runs (fire_all lib cfg env ck uuid i ds s)) = map sr_schedule_id (t_runs s) @ map sc_id ds \<and>
    take (length (t_runs s)) (t_runs (fire_all lib cfg env ck uuid i ds s)) = t_runs s \<and>
    filter (\<lambda>r. sc_id r \<notin> sc_id ` set ds) (t_schedules (fire_all lib cfg env ck uuid i ds s)) =
      filter (\<lambda>r. sc_id r \<notin> sc_id ` set ds) (t_schedules s) \<and>
    (\<forall>r \<in> set (t_schedules (fire_all lib cfg env ck uuid i ds s)). sc_id r \<in> sc_id ` set ds \<longrightarrow>
       (\<exists>e j. i \<le> j \<and> sc_next_run_at r = next_or_none lib e (ck_now (ck j))))"
  using assms
proof (induction ds arbitrary: i s)
  case (Cons d ds)
  let ?s = "fire_one lib cfg (env i) (ck i) (uuid i) d s"
  let ?f = "fired_row lib cfg (env i) (ck i) d"
  have mem: "sc_id d \<in> sc_id ` set (t_schedules s)" using Cons.prems(3) by simp
  note eff = fire_one_effect [OF Cons.prems(1) mem Cons.prems(4) [rule_format, OF order_refl], of lib cfg "env i" "ck i"]
  have rows: "t_schedules ?s = update_where (\<lambda>r. sc_id r = sc_id d) ?f (t_schedules s)" by (simp add: eff(1))
  have keys: "map sc_id (t_schedules ?s) = map sc_id (t_schedules s)" unfolding rows by (rule map_update_where) simp
  have runs: "t_runs ?s = t_runs s @ [build_run_row lib (uuid i) d (fire lib cfg (env i) d) (ck_started (ck i)) (ck_now (ck i)) ''cron'']"
    by (simp add: eff(1))
  have sub: "sc_id ` set ds \<subseteq> sc_id ` set (t_schedules ?s)"
    using Cons.prems(3) keys by (metis image_set insert_subset list.set(2) list.simps(9))
  have fresh: "\<forall>j \<ge> Suc i. uuid j \<notin> sr_id ` set (t_runs ?s)"
  proof (intro allI impI)
    fix j assume j: "Suc i \<le> j"
    then have "uuid j \<notin> sr_id ` set (t_runs s)" using Cons.prems(4) by simp
    moreover have "uuid j \<noteq> uuid i" using injD [OF Cons.prems(5), of j i] j by auto
    ultimately show "uuid j \<notin> sr_id ` set (t_runs ?s)" by (simp add: runs build_run_row_def)
  qed
  have dist: "distinct (map sc_id ds)" "sc_id d \<notin> sc_id ` set ds" using Cons.prems(2) by simp_all
  note IH = Cons.IH [OF eff(2) dist(1) sub fresh Cons.prems(5)]
  let ?t = "fire_all lib cfg env ck uuid (Suc i) ds ?s"
  have same: "filter (\<lambda>r. sc_id r \<notin> sc_id ` set ds) (t_schedules ?t) =
      filter (\<lambda>r. sc_id r \<notin> sc_id ` set ds) (t_schedules ?s)" using IH by blast
  have f1: "filter (\<lambda>r. sc_id r \<notin> sc_id ` set (d # ds)) (t_schedules ?t) =
      filter (\<lambda>r. sc_id r \<noteq> sc_id d) (filter (\<lambda>r. sc_id r \<notin> sc_id ` set ds) (t_schedules ?t))"
    by (simp add: conj_commute)
  have f2: "filter (\<lambda>r. sc_id r \<noteq> sc_id d) (filter (\<lambda>r. sc_id r \<notin> sc_id ` set ds) (t_schedules ?s)) =
      filter (\<lambda>r. sc_id r \<notin> sc_id ` set (d # ds)) (t_schedules s)"
    unfolding rows using filter_update_skip [of sc_id ?f "\<lambda>x. x \<noteq> sc_id d \<and> x \<notin> sc_id ` set ds" "sc_id d" "t_schedules s"]
    by (simp add: conj_commute)
  have next_d: "\<exists>e j. i \<le> j \<and> sc_next_run_at r = next_or_none lib e (ck_now (ck j))"
    if r: "r \<in> set (t_schedules ?t)" "sc_id r \<in> sc_id ` set (d # ds)" for r
  proof (cases "sc_id r \<in> sc_id ` set ds")
    case True
    note IH [THEN conjunct2, THEN conjunct2, THEN conjunct2, THEN conjunct2, THEN conjunct2]
    from bspec [OF this r(1)] True obtain e j where "Suc i \<le> j" "sc_next_run_at r = next_or_none lib e (ck_now (ck j))"
      by blast
    then show ?thesis by (intro exI [of _ e] exI [of _ j]) simp
  next
    case False
    then have "r \<in> set (filter (\<lambda>r. sc_id r \<notin> sc_id ` set ds) (t_schedules ?t))" using r(1) by simp
    then have "r \<in> set (t_schedules ?s)" unfolding same by simp
    then obtain x where x: "r = (if sc_id x = sc_id d then ?f x else x)" unfolding rows set_update_where by blast
    have "sc_id r = sc_id d" using False r(2) by auto
    then have "r = ?f x" using x by (auto split: if_splits)
    then show ?thesis by (intro exI [of _ "sc_cron d"] exI [of _ i]) simp
  qed
  have tk: "take (length (t_runs s)) (t_runs ?t) = t_runs s"
  proof -
    have "take (length (t_runs ?s)) (t_runs ?t) = t_runs ?s" using IH by blast
    then have "take (length (t_runs s)) (take (length (t_runs ?s)) (t_runs ?t)) = take (length (t_runs s)) (t_runs ?s)" by simp
    then show ?thesis by (simp add: runs)
  qed
  have "map sr_schedule_id (t_runs ?t) = map sr_schedule_id (t_runs s) @ map sc_id (d # ds)"
    using IH by (simp add: runs build_run_row_def)
  moreover have "map sc_id (t_schedules ?t) = map sc_id (t_schedules s)" using IH keys by simp
  moreover have "schedule_wf ?t" using IH by blast
  moreover have "filter (\<lambda>r. sc_id r \<notin> sc_id ` set (d # ds)) (t_schedules ?t) =
      filter (\<lambda>r. sc_id r \<notin> sc_id ` set (d # ds)) (t_schedules s)"
    unfolding f1 same by (rule f2)
  ultimately show ?case unfolding fire_all.simps using tk next_d by blast
qed simp

section \<open>Properties of the runner\<close>

text \<open>Library answers for the concrete evaluations: a cron that fires right after, no redaction.\<close>
definition sample_lib :: "unit scheduler_lib" where
  "sample_lib = \<lparr>lib_cron_from_str = (\<lambda>_. Inr ()), lib_cron_after = (\<lambda>_ t. Some (t @ ''1'')),
     lib_redact_secrets = (\<lambda>s. s), lib_lossy = (\<lambda>s. s), lib_debug_str = (\<lambda>s. s), lib_millis = (\<lambda>_ _. 0)\<rparr>"

definition sample_cfg :: scheduler_config where
  "sample_cfg = \<lparr>cfg_max_per_tick = 10, cfg_default_timeout_secs = 60, cfg_exec_enabled = True,
     cfg_exec_allowed_programs = [''/bin/echo'']\<rparr>"

definition sample_env :: "int \<Rightarrow> fire_env" where
  "sample_env status = \<lparr>fe_spawn = (\<lambda>_. Child_Timed_Out), fe_send = (\<lambda>_. Response status []), fe_vars = []\<rparr>"

definition sample_clock :: clock where
  "sample_clock = \<lparr>ck_started = ''5'', ck_now = ''5'', ck_recorded = ''5''\<rparr>"

definition due_rows :: "nat \<Rightarrow> timestamp \<Rightarrow> store \<Rightarrow> schedule list" where
  "due_rows mx now s = take mx (order_asc (\<lambda>r. case sc_next_run_at r of None \<Rightarrow> [] | Some t \<Rightarrow> t)
     (filter (due now) (t_schedules s)))"

lemma list_due_apply: "list_due_schedules now mx s = (Inr (map row_to_schedule (due_rows mx now s)), s)"
  by (simp add: list_due_schedules_def due_rows_def)

lemma row_to_schedule_sel [simp]: "sc_id (row_to_schedule r) = sc_id r"
  by (simp add: row_to_schedule_def schedule.defs)

lemma due_rows_sub: "set (due_rows mx now s) \<subseteq> {r \<in> set (t_schedules s). due now r}"
  using set_take_subset [of mx "order_asc (\<lambda>r. case sc_next_run_at r of None \<Rightarrow> [] | Some t \<Rightarrow> t) (filter (due now) (t_schedules s))"]
  by (auto simp: due_rows_def)

lemma due_rows_distinct: "schedule_wf s \<Longrightarrow> distinct (map sc_id (due_rows mx now s))"
proof -
  assume "schedule_wf s"
  then have "distinct (map sc_id (filter (due now) (t_schedules s)))" by (simp add: schedule_wf_def distinct_map_filter)
  then have "distinct (map sc_id (order_asc k (filter (due now) (t_schedules s))))" for k :: "schedule \<Rightarrow> string"
    by (simp add: distinct_map order_asc_def)
  then show ?thesis unfolding due_rows_def by (metis distinct_take take_map)
qed

text \<open>C10: A pass fires each due schedule exactly once, earliest first and at most the configured number, appending one run
  per fire; other schedules are untouched, and (as the next firing lies after the fire) none that fired is still due.\<close>
theorem tick_fires_due_once:
  assumes reach: "schedule_step\<^sup>*\<^sup>* (open_with_device fk device) s" and inj: "inj uuid"
    and fresh: "range uuid \<inter> sr_id ` set (t_runs s) = {}"
    and after: "\<forall>e t t'. lib_cron_after lib e t = Some t' \<longrightarrow> t < t'" and clock: "\<forall>j. now \<le> ck_now (ck j)"
    and run: "tick lib cfg env ck uuid now s = (r, s')"
  shows "r = Inr (length (due_rows (cfg_max_per_tick cfg) now s)) \<and>
    map sr_schedule_id (t_runs s') = map sr_schedule_id (t_runs s) @ map sc_id (due_rows (cfg_max_per_tick cfg) now s) \<and>
    take (length (t_runs s)) (t_runs s') = t_runs s \<and>
    filter (\<lambda>r. sc_id r \<notin> sc_id ` set (due_rows (cfg_max_per_tick cfg) now s)) (t_schedules s') =
      filter (\<lambda>r. sc_id r \<notin> sc_id ` set (due_rows (cfg_max_per_tick cfg) now s)) (t_schedules s) \<and>
    (\<forall>r \<in> set (t_schedules s'). sc_id r \<in> sc_id ` set (due_rows (cfg_max_per_tick cfg) now s) \<longrightarrow> \<not> due now r)"
proof -
  let ?ds = "due_rows (cfg_max_per_tick cfg) now s"
  have wf: "schedule_wf s" using schedule_wf_steps [OF reach schedule_wf_open] .
  have dist: "distinct (map sc_id (map row_to_schedule ?ds))" using due_rows_distinct [OF wf] by (simp add: o_def)
  have ids: "sc_id ` set (map row_to_schedule ?ds) = sc_id ` set ?ds" by (auto simp: image_iff)
  have sub: "sc_id ` set (map row_to_schedule ?ds) \<subseteq> sc_id ` set (t_schedules s)"
    unfolding ids using due_rows_sub [of "cfg_max_per_tick cfg" now s] by auto
  have new: "\<forall>j \<ge> 0. uuid j \<notin> sr_id ` set (t_runs s)" using fresh by auto
  have r: "r = Inr (length ?ds)" "s' = fire_all lib cfg env ck uuid 0 (map row_to_schedule ?ds) s"
    using run by (simp_all add: tick_def list_due_apply)
  note eff = fire_all_effect [OF wf dist sub new inj, of lib cfg env ck, folded r(2), unfolded ids]
  have later: "\<not> due now x" if x: "sc_next_run_at x = next_or_none lib e (ck_now (ck j))" for x e j
  proof (cases "sc_next_run_at x")
    case (Some t)
    then obtain c where "lib_cron_after lib c (ck_now (ck j)) = Some t"
      using x by (auto simp: next_or_none_def next_after_def split: sum.splits)
    then have "ck_now (ck j) < t" using after by blast
    then show ?thesis using clock Some by (simp add: due_def) (metis order.strict_trans1 not_le)
  qed (simp add: due_def)
  show ?thesis using eff r(1) later by (simp add: o_def) blast
qed

theorem tick_fires_due_once_witness:
  "\<exists>s'. tick sample_lib sample_cfg (\<lambda>_. sample_env 200) (\<lambda>_. sample_clock) (\<lambda>n. ''u'' @ show_nat n) ''2'' sample_schedules
     = (Inr 1, s') \<and> map sr_schedule_id (t_runs s') = [''s1''] \<and> due_rows 10 ''2'' s' = []"
proof -
  obtain r s' where run: "tick sample_lib sample_cfg (\<lambda>_. sample_env 200) (\<lambda>_. sample_clock) (\<lambda>n. ''u'' @ show_nat n) ''2''
      sample_schedules = (r, s')" by force
  have inj: "inj (\<lambda>n. ''u'' @ show_nat n)" by (simp add: inj_def)
  have fresh: "range (\<lambda>n. ''u'' @ show_nat n) \<inter> sr_id ` set (t_runs sample_schedules) = {}"
    by (simp add: sample_schedules_def open_with_device_def)
  have after: "\<forall>e t t'. lib_cron_after sample_lib e t = Some t' \<longrightarrow> t < t'"
    by (simp add: sample_lib_def list_less_def lexord_append_rightI)
  have clock: "\<forall>j::nat. ''2'' \<le> ck_now sample_clock" by (simp add: sample_clock_def)
  have ds: "due_rows (cfg_max_per_tick sample_cfg) ''2'' sample_schedules = [sample_schedule ''s1'' ''a'']"
    by (simp add: due_rows_def sample_cfg_def sample_schedules_def open_with_device_def due_def sample_schedule_def order_asc_def)
  note all = tick_fires_due_once [OF sample_schedules_reachable inj fresh after clock run, unfolded ds]
  have "filter (\<lambda>r. sc_id r \<notin> sc_id ` set [sample_schedule ''s1'' ''a'']) (t_schedules s') = []"
    using all by (simp add: sample_schedules_def open_with_device_def)
  then have "\<forall>r \<in> set (t_schedules s'). \<not> due ''2'' r" using all by (auto simp: filter_empty_conv)
  then have "filter (due ''2'') (t_schedules s') = []" by (simp add: filter_empty_conv)
  then show ?thesis using all run
    by (simp add: due_rows_def order_asc_def sample_schedules_def open_with_device_def sample_schedule_def)
qed

text \<open>A callback that answers with an error status is recorded as a failure and counted as one, yet, as no error text is
  stored, the schedule's health is Green.\<close>
theorem http_failure_is_green:
  assumes reach: "schedule_step\<^sup>*\<^sup>* (open_with_device fk device) s" and d: "d \<in> set (t_schedules s)"
    and http: "sc_enabled d" "\<not> is_exec d" and reply: "\<forall>q. \<exists>chunks. fe_send env q = Response status chunks"
    and failed: "status < 200 \<or> 400 \<le> status" and fresh: "uuid \<notin> sr_id ` set (t_runs s)"
  shows "\<exists>new \<in> set (t_schedules (fire_one lib cfg env ck uuid d s)). sc_id new = sc_id d \<and>
    sc_failure_count new = sc_failure_count d + 1 \<and> health_of (row_to_schedule new) = Green \<and>
    sr_status (last (t_runs (fire_one lib cfg env ck uuid d s))) = ''failure''"
proof -
  have wf: "schedule_wf s" using schedule_wf_steps [OF reach schedule_wf_open] .
  have mem: "sc_id d \<in> sc_id ` set (t_schedules s)" using d by simp
  let ?q = "\<lparr>rq_method = http_method_of (sc_target_method d), rq_url = sc_target_url d, rq_timeout_secs = fire_timeout cfg d,
    rq_body = sc_body_json d, rq_headers = header_pairs (sc_headers_json d)\<rparr>"
  obtain chunks where "fe_send env ?q = Response status chunks" using reply by blast
  then have "fire lib cfg env d = \<lparr>fo_success = False, fo_status = Some status,
      fo_response = Some (redact_and_truncate lib (read_capped_body lib chunks) RESPONSE_PREVIEW_BYTES),
      fo_error = None, fo_timed_out = False, fo_refused = False\<rparr>"
    using http(2) failed by (auto simp: fire_def fire_http_def http_ok_def)
  then have out: "\<not> fo_success (fire lib cfg env d)" "fo_error (fire lib cfg env d) = None"
      "run_status (fire lib cfg env d) = ''failure''"
    by (simp_all add: run_status_def)
  let ?new = "fired_row lib cfg env ck d d"
  have "?new \<in> set (update_where (\<lambda>r. sc_id r = sc_id d) (fired_row lib cfg env ck d) (t_schedules s))"
    using d by (auto simp: set_update_where)
  then have "?new \<in> set (t_schedules (fire_one lib cfg env ck uuid d s))" by (simp add: fire_one_effect(1) [OF wf mem fresh])
  moreover have "sc_failure_count ?new = sc_failure_count d + 1" "health_of (row_to_schedule ?new) = Green"
    using http(1) out by (simp_all add: fired_row_def cache_run_def update_of_def health_of_row compute_schedule_health_def)
  ultimately show ?thesis
    using out(3) by (intro bexI [of _ ?new]) (simp_all add: fire_one_effect(1) [OF wf mem fresh] build_run_row_def)
qed

theorem http_failure_is_green_witness:
  "\<exists>new \<in> set (t_schedules (fire_one sample_lib sample_cfg (sample_env 500) sample_clock ''u'' (sample_schedule ''s1'' ''a'')
       sample_schedules)). sc_failure_count new = 1 \<and> health_of (row_to_schedule new) = Green"
  using http_failure_is_green [OF sample_schedules_reachable, of "sample_schedule ''s1'' ''a''" "sample_env 500" 500 "''u''"
      sample_lib sample_cfg sample_clock]
  by (auto simp: sample_schedules_def open_with_device_def sample_schedule_def is_exec_def sample_env_def)

end
