(* ===== verification/Scheduler_Routes.thy ===== *)
theory Scheduler_Routes
  imports Scheduler_Runner
begin

text \<open>
  The /api/schedules routes (gctrl-scheduler/src/http.rs) that change state, and the bootstrap of the
  daemon's own garbage-collection schedule (bootstrap.rs). Every route re-checks the exec gates on the
  row it is about to write.
\<close>

section \<open>Creating a schedule\<close>

datatype route_reply =
  Status nat
| Status_Text nat string
| Status_Store nat gctl_error
| Created schedule
| Patched fetched_schedule
| Ran bool "int option" "string option"
| Deleted nat

definition INTERNAL_NAME_PREFIX :: string where
  "INTERNAL_NAME_PREFIX = ''_internal.''"

record create_body =
  cb_name :: string
  cb_cron :: string
  cb_target_kind :: string
  cb_target_url :: "string option"
  cb_target_method :: string
  cb_body_json :: "json option"
  cb_headers_json :: "json option"
  cb_command :: "string list option"
  cb_cwd :: "string option"
  cb_env_keys :: "string list option"
  cb_timeout_secs :: int
  cb_enabled :: bool

text \<open>The row both kinds share; the kind's own columns are arguments.\<close>
definition new_schedule ::
  "string \<Rightarrow> create_body \<Rightarrow> timestamp option \<Rightarrow> timestamp \<Rightarrow> string \<Rightarrow> string \<Rightarrow> string \<Rightarrow> json option \<Rightarrow> json option
   \<Rightarrow> string list option \<Rightarrow> string option \<Rightarrow> string list option \<Rightarrow> schedule" where
  "new_schedule uuid body next_run now kind url mthd bj hj cmd cwd env_keys =
     \<lparr>sc_id = uuid, sc_name = cb_name body, sc_cron = cb_cron body, sc_target_kind = kind, sc_target_url = url,
      sc_target_method = mthd, sc_body_json = bj, sc_headers_json = hj, sc_command = cmd, sc_cwd = cwd,
      sc_env_keys = env_keys, sc_timeout_secs = cb_timeout_secs body, sc_enabled = cb_enabled body,
      sc_next_run_at = (if cb_enabled body then next_run else None), sc_last_run_at = None, sc_last_status = None,
      sc_last_response = None, sc_last_error = None, sc_run_count = 0, sc_failure_count = 0, sc_app_id = None,
      sc_created_at = now, sc_updated_at = now\<rparr>"

definition non_empty :: "'a list option \<Rightarrow> 'a list option" where
  "non_empty x = (case x of None \<Rightarrow> None | Some ys \<Rightarrow> if ys = [] then None else Some ys)"

definition program_allowed :: "scheduler_config \<Rightarrow> string \<Rightarrow> bool" where
  "program_allowed cfg bin \<longleftrightarrow> list_ex (\<lambda>p. path_components p = path_components bin) (cfg_exec_allowed_programs cfg)"

text \<open>The gates on argv[0] that create and patch share, with their texts.\<close>
definition check_program :: "'c scheduler_lib \<Rightarrow> scheduler_config \<Rightarrow> string \<Rightarrow> string option" where
  "check_program lib cfg bin =
     (if \<not> prefix ''/'' bin
      then Some (''argv[0] must be an absolute path (got '' @ lib_debug_str lib bin @ '') '' @ bytes [226, 128, 148] @
             '' relative paths are rejected to prevent $PATH-injection via cwd'')
      else if cfg_exec_allowed_programs cfg = []
      then Some ''scheduler.exec_allowed_programs is empty (no programs permitted)''
      else if \<not> program_allowed cfg bin
      then Some (''argv[0]='' @ lib_debug_str lib bin @ '' not in scheduler.exec_allowed_programs'')
      else None)"

definition build_http :: "string \<Rightarrow> create_body \<Rightarrow> timestamp option \<Rightarrow> timestamp \<Rightarrow> string + schedule" where
  "build_http uuid body next_run now =
     (case non_empty (cb_target_url body) of
        None \<Rightarrow> Inl ''target_url is required for target_kind=http''
      | Some url \<Rightarrow>
          if cb_command body \<noteq> None \<or> cb_cwd body \<noteq> None \<or> cb_env_keys body \<noteq> None
          then Inl ''command/cwd/env_keys MUST NOT be set when target_kind=http''
          else Inr (new_schedule uuid body next_run now ''http'' url (cb_target_method body) (cb_body_json body)
                 (cb_headers_json body) None None None))"

definition build_exec ::
  "'c scheduler_lib \<Rightarrow> string \<Rightarrow> create_body \<Rightarrow> timestamp option \<Rightarrow> timestamp \<Rightarrow> scheduler_config \<Rightarrow> string + schedule" where
  "build_exec lib uuid body next_run now cfg =
     (if \<not> cfg_exec_enabled cfg
      then Inl ''exec target_kind requires scheduler.exec_enabled=true in daemon config''
      else case non_empty (cb_command body) of
        None \<Rightarrow> Inl ''command is required for target_kind=exec''
      | Some cmd \<Rightarrow>
          case check_program lib cfg (hd cmd) of
            Some e \<Rightarrow> Inl e
          | None \<Rightarrow>
              case non_empty (cb_cwd body) of
                None \<Rightarrow> Inl ''cwd is required for target_kind=exec''
              | Some cwd \<Rightarrow>
                  if \<not> prefix ''/'' cwd
                  then Inl (''cwd must be an absolute path (got '' @ lib_debug_str lib cwd @ '')'')
                  else if non_empty (cb_target_url body) \<noteq> None
                  then Inl ''target_url MUST NOT be set when target_kind=exec''
                  else Inr (new_schedule uuid body next_run now ''exec'' [] ''POST'' None None (Some cmd) (Some cwd)
                         (Some (case cb_env_keys body of None \<Rightarrow> [] | Some ks \<Rightarrow> ks))))"

definition build_schedule ::
  "'c scheduler_lib \<Rightarrow> string \<Rightarrow> create_body \<Rightarrow> timestamp option \<Rightarrow> timestamp \<Rightarrow> scheduler_config \<Rightarrow> string + schedule" where
  "build_schedule lib uuid body next_run now cfg =
     (if cb_target_kind body = ''http'' then build_http uuid body next_run now
      else if cb_target_kind body = ''exec'' then build_exec lib uuid body next_run now cfg
      else Inl (''unknown target_kind '' @ lib_debug_str lib (cb_target_kind body) @ '' (allowed: '' @ [CHR 0x22] @
             ''http'' @ [CHR 0x22] @ '', '' @ [CHR 0x22] @ ''exec'' @ [CHR 0x22] @ '')''))"

fun show_cron_error :: "cron_error \<Rightarrow> string" where
  "show_cron_error (BadFieldCount n) = ''cron expression must have 5, 6 or 7 fields, got '' @ show_nat n"
| "show_cron_error (Cron_Parse e) = ''invalid cron expression: '' @ e"

text \<open>now0 is the instant the next firing is computed from, now the one the row carries.\<close>
definition create ::
  "'c scheduler_lib \<Rightarrow> scheduler_config \<Rightarrow> timestamp \<Rightarrow> timestamp \<Rightarrow> string \<Rightarrow> create_body \<Rightarrow> store \<Rightarrow> route_reply \<times> store" where
  "create lib cfg now0 now uuid body s =
     (if prefix INTERNAL_NAME_PREFIX (cb_name body)
      then (Status_Text 403 (''schedule name '' @ lib_debug_str lib INTERNAL_NAME_PREFIX @
              '' prefix is reserved for daemon-managed rows''), s)
      else case next_after lib (cb_cron body) now0 of
        Inl e \<Rightarrow> (Status_Text 400 (''invalid cron: '' @ show_cron_error e), s)
      | Inr next_run \<Rightarrow>
          (case build_schedule lib uuid body next_run now cfg of
             Inl e \<Rightarrow> (Status_Text 400 e, s)
           | Inr sched \<Rightarrow>
               (case create_schedule sched s of
                  (Inr _, s') \<Rightarrow> (Created sched, s')
                | (Inl e, s') \<Rightarrow> (Status_Store 500 e, s'))))"

section \<open>Patching a schedule\<close>

definition PATCHABLE_KEYS :: "string list" where
  "PATCHABLE_KEYS =
     [''cron'', ''target_url'', ''target_method'', ''body_json'', ''headers_json'', ''command'', ''cwd'',
      ''env_keys'', ''timeout_secs'', ''enabled'']"

fun json_strings :: "json list \<Rightarrow> string list option" where
  "json_strings [] = Some []"
| "json_strings (JStr v # js) = map_option (Cons v) (json_strings js)"
| "json_strings (_ # js) = None"

text \<open>One field of the patch: absent leaves the row alone, a value of the wrong kind is an error.\<close>
fun patch_text :: "(string \<Rightarrow> fetched_schedule \<Rightarrow> fetched_schedule) \<Rightarrow> string \<Rightarrow> json \<Rightarrow> fetched_schedule \<Rightarrow> string + fetched_schedule" where
  "patch_text set_field msg (JStr v) m = Inr (set_field v m)"
| "patch_text set_field msg _ m = Inl msg"

fun patch_url :: "json \<Rightarrow> fetched_schedule \<Rightarrow> string + fetched_schedule" where
  "patch_url (JStr v) m = Inr (m\<lparr>sc_target_url := v\<rparr>)"
| "patch_url JNull m = Inr (m\<lparr>sc_target_url := []\<rparr>)"
| "patch_url _ m = Inl ''target_url MUST be a string or null''"

definition json_field :: "json \<Rightarrow> json option" where
  "json_field v = (if v = JNull then None else Some v)"

fun patch_strings ::
  "(string list option \<Rightarrow> fetched_schedule \<Rightarrow> fetched_schedule) \<Rightarrow> string \<Rightarrow> json \<Rightarrow> fetched_schedule \<Rightarrow> string + fetched_schedule" where
  "patch_strings set_field field JNull m = Inr (set_field None m)"
| "patch_strings set_field field (JArr js) m =
     (case json_strings js of
        None \<Rightarrow> Inl (field @ '' items MUST be strings'')
      | Some vs \<Rightarrow> Inr (set_field (Some vs) m))"
| "patch_strings set_field field _ m = Inl (field @ '' MUST be an array of strings or null'')"

fun patch_cwd :: "json \<Rightarrow> fetched_schedule \<Rightarrow> string + fetched_schedule" where
  "patch_cwd JNull m = Inr (m\<lparr>sc_cwd := None\<rparr>)"
| "patch_cwd (JStr v) m = Inr (m\<lparr>sc_cwd := Some v\<rparr>)"
| "patch_cwd _ m = Inl ''cwd MUST be a string or null''"

fun patch_timeout :: "json \<Rightarrow> fetched_schedule \<Rightarrow> string + fetched_schedule" where
  "patch_timeout (JNum n) m =
     (if - (2 ^ 63) \<le> n \<and> n < 2 ^ 63 then Inr (m\<lparr>sc_timeout_secs := n\<rparr>) else Inl ''timeout_secs MUST be an integer'')"
| "patch_timeout _ m = Inl ''timeout_secs MUST be an integer''"

fun patch_enabled :: "json \<Rightarrow> fetched_schedule \<Rightarrow> string + fetched_schedule" where
  "patch_enabled (JBool b) m = Inr (m\<lparr>sc_enabled := b\<rparr>)"
| "patch_enabled _ m = Inl ''enabled MUST be a boolean''"

text \<open>The fields in the handler's order, each with its effect.\<close>
definition patch_fields :: "(string \<times> (json \<Rightarrow> fetched_schedule \<Rightarrow> string + fetched_schedule)) list" where
  "patch_fields =
     [(''cron'', patch_text (\<lambda>v m. m\<lparr>sc_cron := v\<rparr>) ''cron MUST be a string''),
      (''target_url'', patch_url),
      (''target_method'', patch_text (\<lambda>v m. m\<lparr>sc_target_method := v\<rparr>) ''target_method MUST be a string''),
      (''body_json'', \<lambda>v m. Inr (m\<lparr>sc_body_json := json_field v\<rparr>)),
      (''headers_json'', \<lambda>v m. Inr (m\<lparr>sc_headers_json := json_field v\<rparr>)),
      (''command'', patch_strings (\<lambda>v m. m\<lparr>sc_command := v\<rparr>) ''command''),
      (''cwd'', patch_cwd),
      (''env_keys'', patch_strings (\<lambda>v m. m\<lparr>sc_env_keys := v\<rparr>) ''env_keys''),
      (''timeout_secs'', patch_timeout),
      (''enabled'', patch_enabled)]"

fun apply_patch ::
  "(string \<times> json) list \<Rightarrow> (string \<times> (json \<Rightarrow> fetched_schedule \<Rightarrow> string + fetched_schedule)) list
   \<Rightarrow> fetched_schedule \<Rightarrow> string + fetched_schedule" where
  "apply_patch patch [] m = Inr m"
| "apply_patch patch ((k, f) # fs) m =
     (case map_of patch k of
        None \<Rightarrow> apply_patch patch fs m
      | Some v \<Rightarrow> (case f v m of Inl e \<Rightarrow> Inl e | Inr m' \<Rightarrow> apply_patch patch fs m'))"

definition validate_http :: "'a schedule_scheme \<Rightarrow> string + unit" where
  "validate_http r =
     (if trim (sc_target_url r) = [] then Inl ''target_url is required for target_kind=http''
      else if non_empty (sc_command r) \<noteq> None
      then Inl ''command MUST NOT be set on an http row (DELETE + POST to change target_kind)''
      else if non_empty (sc_cwd r) \<noteq> None
      then Inl ''cwd MUST NOT be set on an http row (DELETE + POST to change target_kind)''
      else if non_empty (sc_env_keys r) \<noteq> None
      then Inl ''env_keys MUST NOT be set on an http row (DELETE + POST to change target_kind)''
      else Inr ())"

definition validate_exec :: "'c scheduler_lib \<Rightarrow> 'a schedule_scheme \<Rightarrow> scheduler_config \<Rightarrow> string + unit" where
  "validate_exec lib r cfg =
     (if \<not> cfg_exec_enabled cfg
      then Inl ''exec target_kind requires scheduler.exec_enabled=true in daemon config''
      else if sc_target_url r \<noteq> []
      then Inl ''target_url MUST NOT be set on an exec row (DELETE + POST to change target_kind)''
      else case non_empty (sc_command r) of
        None \<Rightarrow> Inl ''command is required for target_kind=exec''
      | Some cmd \<Rightarrow>
          case check_program lib cfg (hd cmd) of
            Some e \<Rightarrow> Inl e
          | None \<Rightarrow>
              case non_empty (sc_cwd r) of
                None \<Rightarrow> Inl ''cwd is required for target_kind=exec''
              | Some cwd \<Rightarrow>
                  if \<not> prefix ''/'' cwd then Inl (''cwd must be absolute (got '' @ lib_debug_str lib cwd @ '')'')
                  else Inr ())"

definition validate_merged_view ::
  "'c scheduler_lib \<Rightarrow> 'a schedule_scheme \<Rightarrow> scheduler_config \<Rightarrow> string + unit" where
  "validate_merged_view lib r cfg =
     (if sc_target_kind r = ''http'' then validate_http r
      else if sc_target_kind r = ''exec'' then validate_exec lib r cfg
      else Inl (''unknown target_kind '' @ lib_debug_str lib (sc_target_kind r) @ '' (allowed: '' @ [CHR 0x22] @
             ''http'' @ [CHR 0x22] @ '', '' @ [CHR 0x22] @ ''exec'' @ [CHR 0x22] @ '')''))"

definition unknown_key :: "'c scheduler_lib \<Rightarrow> string \<Rightarrow> string" where
  "unknown_key lib k = ''unknown or non-patchable field '' @ lib_debug_str lib k @ '' (allowed: ['' @
     join '', '' (map (lib_debug_str lib) PATCHABLE_KEYS) @ ''])''"

text \<open>A change of cron or enabled recomputes the next firing, or clears it on a disabled row.\<close>
definition recompute_next :: "(string \<times> json) list \<Rightarrow> timestamp option \<Rightarrow> fetched_schedule \<Rightarrow> fetched_schedule" where
  "recompute_next patch next_run m =
     (if map_of patch ''cron'' \<noteq> None \<or> map_of patch ''enabled'' \<noteq> None
      then m\<lparr>sc_next_run_at := (if sc_enabled m then next_run else None)\<rparr>
      else m)"

text \<open>An object's members have distinct keys. now is the clock of the handler, rec that of the store.\<close>
definition patch_schedule ::
  "'c scheduler_lib \<Rightarrow> scheduler_config \<Rightarrow> timestamp \<Rightarrow> timestamp \<Rightarrow> string \<Rightarrow> json \<Rightarrow> store \<Rightarrow> route_reply \<times> store" where
  "patch_schedule lib cfg now rec x body s =
     (case body of
        JObj patch \<Rightarrow>
          (case find (\<lambda>k. k \<notin> set PATCHABLE_KEYS) (map fst patch) of
             Some k \<Rightarrow> (Status_Text 400 (unknown_key lib k), s)
           | None \<Rightarrow>
               (case get_schedule x s of
                  (Inl e, s') \<Rightarrow> (Status_Store 500 e, s')
                | (Inr None, s') \<Rightarrow> (Status 404, s')
                | (Inr (Some row), s') \<Rightarrow>
                    (case apply_patch patch patch_fields row of
                       Inl e \<Rightarrow> (Status_Text 400 e, s')
                     | Inr merged0 \<Rightarrow>
                         (case next_after lib (sc_cron merged0) now of
                            Inl e \<Rightarrow> (Status_Text 400 (''invalid cron: '' @ show_cron_error e), s')
                          | Inr next_run \<Rightarrow>
                              let merged = recompute_next patch next_run merged0
                              in case validate_merged_view lib merged cfg of
                                   Inl e \<Rightarrow> (Status_Text 400 e, s')
                                 | Inr _ \<Rightarrow>
                                     (case update_schedule_patch rec merged s' of
                                        (Inr True, s'') \<Rightarrow> (Patched merged, s'')
                                      | (Inr False, s'') \<Rightarrow> (Status 404, s'')
                                      | (Inl e, s'') \<Rightarrow> (Status_Store 500 e, s''))))))
      | _ \<Rightarrow> (Status_Text 400 ''PATCH body MUST be a JSON object'', s))"

section \<open>The other routes\<close>

definition delete_one :: "string \<Rightarrow> store \<Rightarrow> route_reply \<times> store" where
  "delete_one x s =
     (case delete_schedule x s of
        (Inr True, s') \<Rightarrow> (Status 204, s')
      | (Inr False, s') \<Rightarrow> (Status 404, s')
      | (Inl e, s') \<Rightarrow> (Status_Store 500 e, s'))"

definition set_enabled ::
  "'c scheduler_lib \<Rightarrow> (nat \<Rightarrow> timestamp) \<Rightarrow> string \<Rightarrow> bool \<Rightarrow> store \<Rightarrow> route_reply \<times> store" where
  "set_enabled lib now x enabled s =
     (case set_schedule_enabled (now 0) x enabled s of
        (Inl e, s') \<Rightarrow> (Status_Store 500 e, s')
      | (Inr False, s') \<Rightarrow> (Status 404, s')
      | (Inr True, s') \<Rightarrow>
          (Status 204,
           if enabled
           then (case get_schedule x s' of
                   (Inr (Some r), s'') \<Rightarrow>
                     snd (set_schedule_next_run (now 2) (sc_id r) (next_or_none lib (sc_cron r) (now 1)) s'')
                 | (_, s'') \<Rightarrow> s'')
           else s'))"

text \<open>rfc3339 tells whether chrono parses the text.\<close>
definition delete_runs_before ::
  "(string \<Rightarrow> bool) \<Rightarrow> (string \<Rightarrow> string) \<Rightarrow> timestamp \<Rightarrow> store \<Rightarrow> route_reply \<times> store" where
  "delete_runs_before rfc3339 dbg before s =
     (if \<not> rfc3339 before then (Status_Text 400 (bytes [96] @ ''before'' @ bytes [96] @ '' must be RFC3339, got '' @ dbg before), s)
      else case delete_schedule_runs_before before s of
        (Inr n, s') \<Rightarrow> (Deleted n, s')
      | (Inl e, s') \<Rightarrow> (Status_Store 500 e, s'))"

text \<open>A manual HTTP fire: no headers, and the body is neither redacted nor cut to the preview size.\<close>
definition run_now_http :: "'c scheduler_lib \<Rightarrow> (http_request \<Rightarrow> http_reply) \<Rightarrow> 'a schedule_scheme \<Rightarrow> nat \<Rightarrow> fire_outcome" where
  "run_now_http lib send sched timeout_secs =
     (case send \<lparr>rq_method = http_method_of (sc_target_method sched), rq_url = sc_target_url sched,
          rq_timeout_secs = timeout_secs, rq_body = sc_body_json sched, rq_headers = []\<rparr> of
        Response status chunks \<Rightarrow>
          \<lparr>fo_success = http_ok status, fo_status = Some status, fo_response = Some (read_capped_body lib chunks),
           fo_error = None, fo_timed_out = False, fo_refused = False\<rparr>
      | Http_Error e timed_out \<Rightarrow>
          \<lparr>fo_success = False, fo_status = None, fo_response = None, fo_error = Some e,
           fo_timed_out = timed_out, fo_refused = False\<rparr>)"

definition run_now_exec :: "'c scheduler_lib \<Rightarrow> nat \<Rightarrow> exec_outcome \<Rightarrow> fire_outcome" where
  "run_now_exec lib timeout_secs outcome =
     (case outcome of
        Refused reason \<Rightarrow>
          \<lparr>fo_success = False, fo_status = None, fo_response = None,
           fo_error = Some (redact_and_truncate lib (''refused: '' @ reason) ERROR_PREVIEW_BYTES),
           fo_timed_out = False, fo_refused = True\<rparr>
      | Spawned exit_code stdout stderr timed_out \<Rightarrow>
          let success = (\<not> timed_out \<and> exit_code = Some 0)
          in \<lparr>fo_success = success, fo_status = exit_code,
              fo_response = (if stdout = [] then None
                 else Some (redact_and_truncate lib stdout (max ERROR_PREVIEW_BYTES 4096))),
              fo_error = (if success then None
                 else if timed_out then Some (''timed out after '' @ show_nat timeout_secs @ ''s'')
                 else Some (redact_and_truncate lib stderr ERROR_PREVIEW_BYTES)),
              fo_timed_out = timed_out, fo_refused = False\<rparr>)"

definition run_now_fire :: "'c scheduler_lib \<Rightarrow> scheduler_config \<Rightarrow> fire_env \<Rightarrow> 'a schedule_scheme \<Rightarrow> fire_outcome" where
  "run_now_fire lib cfg env sched =
     (let timeout_secs = nat (max (sc_timeout_secs sched) 1)
      in if is_exec sched
         then run_now_exec lib timeout_secs (fst (run_exec_schedule lib (fe_spawn env) (fe_vars env) sched timeout_secs cfg))
         else run_now_http lib (fe_send env) sched timeout_secs)"

definition run_now ::
  "'c scheduler_lib \<Rightarrow> scheduler_config \<Rightarrow> fire_env \<Rightarrow> clock \<Rightarrow> string \<Rightarrow> string \<Rightarrow> store \<Rightarrow> route_reply \<times> store" where
  "run_now lib cfg env ck uuid x s =
     (case get_schedule x s of
        (Inl e, s') \<Rightarrow> (Status_Store 500 e, s')
      | (Inr None, s') \<Rightarrow> (Status 404, s')
      | (Inr (Some sched), s') \<Rightarrow>
          let outcome = run_now_fire lib cfg env sched;
              update = update_of (ck_now ck) (next_or_none lib (sc_cron sched) (ck_now ck)) outcome;
              run = build_run_row lib uuid sched outcome (ck_started ck) (ck_now ck) ''manual''
          in case record_schedule_run_v2 (ck_recorded ck) (sc_id sched) run update s' of
               (Inl e, s'') \<Rightarrow> (Status_Store 500 e, s'')
             | (Inr _, s'') \<Rightarrow> (Ran (fo_success outcome) (fo_status outcome) (fo_error outcome), s''))"

section \<open>Bootstrap\<close>

definition GC_SCHEDULE_NAME :: string where
  "GC_SCHEDULE_NAME = ''_internal.scheduler_runs_gc''"

definition GC_CRON :: string where
  "GC_CRON = ''0 0 4 * * *''"

text \<open>cutoff is the URL-encoded instant run\_retention\_days before now.\<close>
definition build_gc_row :: "'c scheduler_lib \<Rightarrow> timestamp \<Rightarrow> timestamp \<Rightarrow> string \<Rightarrow> string \<Rightarrow> schedule" where
  "build_gc_row lib now now1 uuid cutoff =
     \<lparr>sc_id = uuid, sc_name = GC_SCHEDULE_NAME, sc_cron = GC_CRON, sc_target_kind = ''http'',
      sc_target_url = ''http://127.0.0.1:4318/api/schedules/runs?before='' @ cutoff, sc_target_method = ''DELETE'',
      sc_body_json = None, sc_headers_json = None, sc_command = None, sc_cwd = None, sc_env_keys = None,
      sc_timeout_secs = 60, sc_enabled = True, sc_next_run_at = next_or_none lib GC_CRON now1,
      sc_last_run_at = None, sc_last_status = None, sc_last_response = None, sc_last_error = None,
      sc_run_count = 0, sc_failure_count = 0, sc_app_id = None, sc_created_at = now, sc_updated_at = now\<rparr>"

definition is_valid_gc_row :: "'c scheduler_lib \<Rightarrow> timestamp \<Rightarrow> 'a schedule_scheme \<Rightarrow> bool" where
  "is_valid_gc_row lib now r \<longleftrightarrow> \<not> isl (next_after lib (sc_cron r) now) \<and> sc_target_kind r = ''http'' \<and>
     sc_target_url r \<noteq> [] \<and> contains ''/api/schedules/runs'' (sc_target_url r)"

text \<open>The store's error under the name of the call that failed.\<close>
definition named_call :: "string \<Rightarrow> (store, 'a) db \<Rightarrow> store \<Rightarrow> (string \<times> gctl_error + 'a) \<times> store" where
  "named_call nm m s = (case m s of (Inl e, s') \<Rightarrow> (Inl (nm, e), s') | (Inr x, s') \<Rightarrow> (Inr x, s'))"

definition ensure_gc_schedule ::
  "'c scheduler_lib \<Rightarrow> (nat \<Rightarrow> timestamp) \<Rightarrow> string \<Rightarrow> string \<Rightarrow> store \<Rightarrow> (string \<times> gctl_error + unit) \<times> store" where
  "ensure_gc_schedule lib now uuid cutoff s =
     (case named_call ''get_schedule'' (get_schedule GC_SCHEDULE_NAME) s of
        (Inl e, s') \<Rightarrow> (Inl e, s')
      | (Inr None, s') \<Rightarrow> named_call ''create_schedule'' (create_schedule (build_gc_row lib (now 1) (now 2) uuid cutoff)) s'
      | (Inr (Some existing), s') \<Rightarrow>
          if is_valid_gc_row lib (now 0) existing then (Inr (), s')
          else (case named_call ''delete_schedule'' (delete_schedule (sc_id existing)) s' of
                  (Inl e, s'') \<Rightarrow> (Inl e, s'')
                | (Inr _, s'') \<Rightarrow>
                    named_call ''create_schedule'' (create_schedule (build_gc_row lib (now 1) (now 2) uuid cutoff)) s''))"

section \<open>Every row passes the gates\<close>

text \<open>A command some configuration of the daemon's history admits.\<close>
definition admitted :: "scheduler_config set \<Rightarrow> string list \<Rightarrow> string \<Rightarrow> bool" where
  "admitted cfgs argv cwd \<longleftrightarrow> (\<exists>cfg \<in> cfgs. exec_allowed cfg argv cwd)"

definition row_ok :: "scheduler_config set \<Rightarrow> schedule \<Rightarrow> bool" where
  "row_ok cfgs r \<longleftrightarrow>
     sc_target_kind r = ''http'' \<and> sc_target_url r \<noteq> [] \<and> non_empty (sc_command r) = None \<and>
       non_empty (sc_cwd r) = None \<and> non_empty (sc_env_keys r) = None \<or>
     sc_target_kind r = ''exec'' \<and>
       (\<exists>argv cwd. sc_command r = Some argv \<and> sc_cwd r = Some cwd \<and> admitted cfgs argv cwd)"

text \<open>Only the bootstrap's own row carries the reserved prefix.\<close>
definition reserved_ok :: "schedule \<Rightarrow> bool" where
  "reserved_ok r \<longleftrightarrow> (prefix INTERNAL_NAME_PREFIX (sc_name r) \<longrightarrow> sc_name r = GC_SCHEDULE_NAME \<and> sc_target_kind r = ''http'')"

definition gated :: "scheduler_config set \<Rightarrow> store \<Rightarrow> bool" where
  "gated cfgs s \<longleftrightarrow> distinct (map sc_id (t_schedules s)) \<and> distinct (map sc_name (t_schedules s)) \<and>
     (\<forall>r \<in> set (t_schedules s). row_ok cfgs r \<and> reserved_ok r)"

text \<open>The requests, the runner's fires (of rows read at any earlier time) and the startup passes, under the configuration the
  daemon was started with; a restart with another one goes on with the steps of that one.\<close>
inductive route_step :: "'c scheduler_lib \<Rightarrow> scheduler_config \<Rightarrow> store \<Rightarrow> store \<Rightarrow> bool"
  for lib :: "'c scheduler_lib" and cfg :: scheduler_config where
  create: "create lib cfg now0 now uuid body s = (r, s') \<Longrightarrow> route_step lib cfg s s'"
| patch: "patch_schedule lib cfg now rec x body s = (r, s') \<Longrightarrow> route_step lib cfg s s'"
| enable: "set_enabled lib nows x b s = (r, s') \<Longrightarrow> route_step lib cfg s s'"
| delete: "delete_one x s = (r, s') \<Longrightarrow> route_step lib cfg s s'"
| run_now: "run_now lib cfg env ck uuid x s = (r, s') \<Longrightarrow> route_step lib cfg s s'"
| fire: "fire_one lib cfg env ck uuid (d :: fetched_schedule) s = s' \<Longrightarrow> route_step lib cfg s s'"
| prune: "delete_runs_before rfc dbg t s = (r, s') \<Longrightarrow> route_step lib cfg s s'"
| backfill: "backfill_next_run lib now nows s = s' \<Longrightarrow> route_step lib cfg s s'"
| bootstrap: "ensure_gc_schedule lib nows uuid cutoff s = (r', s') \<Longrightarrow> route_step lib cfg s s'"

text \<open>An UPDATE that keeps the gated columns.\<close>
definition keeps_gated :: "(schedule \<Rightarrow> schedule) \<Rightarrow> bool" where
  "keeps_gated f \<longleftrightarrow> (\<forall>r. sc_id (f r) = sc_id r \<and> sc_name (f r) = sc_name r \<and> sc_target_kind (f r) = sc_target_kind r \<and>
     sc_target_url (f r) = sc_target_url r \<and> sc_command (f r) = sc_command r \<and> sc_cwd (f r) = sc_cwd r \<and>
     sc_env_keys (f r) = sc_env_keys r)"

lemma gated_cong: "t_schedules s' = t_schedules s \<Longrightarrow> gated cfgs s' = gated cfgs s"
  by (simp add: gated_def)

lemma gated_update:
  assumes "gated cfgs s" and "keeps_gated f" and "t_schedules s' = update_where p f (t_schedules s)"
  shows "gated cfgs s'"
proof -
  have f: "sc_id (f r) = sc_id r" "sc_name (f r) = sc_name r" for r using assms(2) by (simp_all add: keeps_gated_def)
  have "row_ok cfgs (f r) = row_ok cfgs r" "reserved_ok (f r) = reserved_ok r" for r
    using assms(2) by (simp_all add: keeps_gated_def row_ok_def reserved_ok_def)
  then show ?thesis using assms(1) map_update_where [of p sc_id f] map_update_where [of p sc_name f]
    by (auto simp: gated_def assms(3) set_update_where f)
qed

lemma keeps_gated_sets:
  "keeps_gated (cache_run now u)" "keeps_gated (\<lambda>r. r\<lparr>sc_enabled := b, sc_updated_at := now\<rparr>)"
  "keeps_gated (\<lambda>r. r\<lparr>sc_next_run_at := t, sc_updated_at := now\<rparr>)"
  by (simp_all add: keeps_gated_def cache_run_def)

lemma gated_insert:
  assumes "gated cfgs s" and "row_ok cfgs d" and "reserved_ok d" and "create_schedule d s = (res, s')"
  shows "gated cfgs s'"
proof -
  have d: "schedule.truncate d = d" by (simp add: schedule.defs)
  show ?thesis using assms by (auto simp: create_schedule_def sql_insert_def d gated_def list_ex_iff split: if_splits)
qed

lemma gated_record: "gated cfgs s \<Longrightarrow> record_schedule_run_v2 now sid run u s = (res, s') \<Longrightarrow> gated cfgs s'"
  by (erule record_v2_cases) (auto intro: gated_update keeps_gated_sets)

lemma gated_next: "gated cfgs s \<Longrightarrow> set_schedule_next_run now x t s = (res, s') \<Longrightarrow> gated cfgs s'"
  by (auto simp: set_schedule_next_run_def bind_def intro: gated_update keeps_gated_sets)

lemma gated_delete: "gated cfgs s \<Longrightarrow> delete_schedule x s = (res, s') \<Longrightarrow> gated cfgs s'"
  by (auto simp: delete_schedule_def delete_schedules_where_def bind_def gated_def delete_where_def distinct_map_filter)

text \<open>The gates of create and patch are those of the spawn.\<close>
lemma check_program_None:
  "check_program lib cfg bin = None \<longleftrightarrow>
   prefix ''/'' bin \<and> path_components bin \<in> path_components ` set (cfg_exec_allowed_programs cfg)"
  by (auto simp: check_program_def program_allowed_def list_ex_key)

lemma non_empty_Some: "non_empty x = Some ys \<longleftrightarrow> x = Some ys \<and> ys \<noteq> []"
  by (auto simp: non_empty_def split: option.splits)

lemma build_http_InrD:
  assumes "build_http uuid body n now = Inr d"
  obtains url where "url \<noteq> []" and "d = new_schedule uuid body n now ''http'' url (cb_target_method body) (cb_body_json body)
    (cb_headers_json body) None None None"
proof (cases "non_empty (cb_target_url body)")
  case None
  then show ?thesis using assms by (simp add: build_http_def)
next
  case (Some url)
  then have "url \<noteq> []" by (simp add: non_empty_Some)
  moreover from Some have "d = new_schedule uuid body n now ''http'' url (cb_target_method body) (cb_body_json body)
      (cb_headers_json body) None None None"
    using assms by (simp add: build_http_def split: if_splits)
  ultimately show ?thesis by (rule that)
qed

lemma build_exec_InrD:
  assumes "build_exec lib uuid body n now cfg = Inr d"
  obtains cmd cwd ks where "exec_allowed cfg cmd cwd" and "d = new_schedule uuid body n now ''exec'' [] ''POST'' None None
    (Some cmd) (Some cwd) (Some ks)"
proof -
  have en: "cfg_exec_enabled cfg" using assms by (simp add: build_exec_def split: if_splits)
  obtain cmd where cmd: "non_empty (cb_command body) = Some cmd"
    using assms en by (cases "non_empty (cb_command body)") (simp_all add: build_exec_def)
  have prog: "check_program lib cfg (hd cmd) = None"
    using assms en cmd by (cases "check_program lib cfg (hd cmd)") (simp_all add: build_exec_def)
  obtain cwd where cwd: "non_empty (cb_cwd body) = Some cwd"
    using assms en cmd prog by (cases "non_empty (cb_cwd body)") (simp_all add: build_exec_def)
  have abs: "prefix ''/'' cwd" using assms en cmd prog cwd by (simp add: build_exec_def split: if_splits)
  have "exec_allowed cfg cmd cwd"
    using en cmd prog abs by (simp add: exec_allowed_def non_empty_Some check_program_None)
  moreover have "d = new_schedule uuid body n now ''exec'' [] ''POST'' None None (Some cmd) (Some cwd)
      (Some (case cb_env_keys body of None \<Rightarrow> [] | Some ks \<Rightarrow> ks))"
    using assms en cmd prog cwd abs by (simp add: build_exec_def split: if_splits)
  ultimately show ?thesis by (rule that)
qed

lemma build_schedule_ok:
  assumes "build_schedule lib uuid body n now cfg = Inr d" and "\<not> prefix INTERNAL_NAME_PREFIX (cb_name body)" and "cfg \<in> cfgs"
  shows "row_ok cfgs d \<and> reserved_ok d"
proof (cases "cb_target_kind body = ''http''")
  case True
  then have "build_http uuid body n now = Inr d" using assms(1) by (simp add: build_schedule_def)
  then obtain url where "url \<noteq> []" "d = new_schedule uuid body n now ''http'' url (cb_target_method body)
    (cb_body_json body) (cb_headers_json body) None None None"
    by (rule build_http_InrD)
  then show ?thesis using assms(2) by (simp add: new_schedule_def row_ok_def reserved_ok_def non_empty_def)
next
  case False
  then have "build_exec lib uuid body n now cfg = Inr d" using assms(1) by (simp add: build_schedule_def split: if_splits)
  then obtain cmd cwd ks where "exec_allowed cfg cmd cwd"
      "d = new_schedule uuid body n now ''exec'' [] ''POST'' None None (Some cmd) (Some cwd) (Some ks)"
    by (rule build_exec_InrD)
  then show ?thesis using assms(2,3) by (auto simp: new_schedule_def row_ok_def reserved_ok_def admitted_def)
qed

lemma validate_exec_InrD:
  assumes "validate_exec lib m cfg = Inr ()"
  obtains cmd cwd where "sc_command m = Some cmd" "sc_cwd m = Some cwd" "exec_allowed cfg cmd cwd"
proof -
  have en: "cfg_exec_enabled cfg" "sc_target_url m = []" using assms by (simp_all add: validate_exec_def split: if_splits)
  obtain cmd where cmd: "non_empty (sc_command m) = Some cmd"
    using assms en by (cases "non_empty (sc_command m)") (simp_all add: validate_exec_def)
  have prog: "check_program lib cfg (hd cmd) = None"
    using assms en cmd by (cases "check_program lib cfg (hd cmd)") (simp_all add: validate_exec_def)
  obtain cwd where cwd: "non_empty (sc_cwd m) = Some cwd"
    using assms en cmd prog by (cases "non_empty (sc_cwd m)") (simp_all add: validate_exec_def)
  have "prefix ''/'' cwd" using assms en cmd prog cwd by (simp add: validate_exec_def split: if_splits)
  then have "exec_allowed cfg cmd cwd"
    using en cmd prog by (simp add: exec_allowed_def non_empty_Some check_program_None)
  then show ?thesis using that cmd cwd by (simp add: non_empty_Some)
qed

lemma trim_Nil: "trim [] = []"
proof -
  have "trim_start [] = []" "trim_end [] = []" using suffix_trim_start [of "[]"] prefix_trim_end [of "[]"] by simp_all
  then show ?thesis by (simp add: trim_def)
qed

lemma validate_ok:
  assumes "validate_merged_view lib m cfg = Inr ()" and "sc_target_kind r = sc_target_kind m" and "cfg \<in> cfgs"
  shows "row_ok cfgs (patch_row now m r)"
proof (cases "sc_target_kind m = ''http''")
  case True
  then have v: "validate_http m = Inr ()" using assms(1) by (simp add: validate_merged_view_def)
  then have "sc_target_url m \<noteq> []" by (auto simp: validate_http_def trim_Nil)
  then show ?thesis using v True assms(2) by (simp add: validate_http_def row_ok_def patch_row_def split: if_splits)
next
  case False
  then have k: "sc_target_kind m = ''exec''" and v: "validate_exec lib m cfg = Inr ()"
    using assms(1) by (auto simp: validate_merged_view_def split: if_splits)
  from v obtain cmd cwd where "sc_command m = Some cmd" "sc_cwd m = Some cwd" "exec_allowed cfg cmd cwd"
    by (rule validate_exec_InrD)
  then show ?thesis using k assms(2,3) by (auto simp: row_ok_def patch_row_def admitted_def)
qed

lemma gated_create:
  assumes g: "gated cfgs s" and cfg: "cfg \<in> cfgs" and run: "create lib cfg now0 now uuid body s = (r, s')"
  shows "gated cfgs s'"
proof (cases "prefix INTERNAL_NAME_PREFIX (cb_name body) \<or> isl (next_after lib (cb_cron body) now0)")
  case True
  then have "s' = s" using run by (auto simp: create_def isl_def split: if_splits)
  then show ?thesis using g by simp
next
  case False
  then obtain n where n: "next_after lib (cb_cron body) now0 = Inr n"
    by (cases "next_after lib (cb_cron body) now0") auto
  show ?thesis
  proof (cases "build_schedule lib uuid body n now cfg")
    case (Inl e)
    then have "s' = s" using run False n by (simp add: create_def)
    then show ?thesis using g by simp
  next
    case (Inr d)
    obtain x s1 where ins: "create_schedule d s = (x, s1)" by force
    then have "s' = s1" using run False n Inr by (cases x) (simp_all add: create_def)
    then show ?thesis using gated_insert [OF g _ _ ins] build_schedule_ok [OF Inr _ cfg] False by simp
  qed
qed

section \<open>The patch keeps identity\<close>

definition identity :: "fetched_schedule \<Rightarrow> string \<times> string \<times> string" where
  "identity m = (sc_id m, sc_name m, sc_target_kind m)"

lemma patch_fields_identity:
  assumes "(k, f) \<in> set patch_fields" and "f v m = Inr m'"
  shows "identity m' = identity m"
proof -
  have "patch_text g msg v m = Inr m' \<Longrightarrow> (\<And>x y. identity (g x y) = identity y) \<Longrightarrow> identity m' = identity m" for g msg
    by (cases v) auto
  moreover have "patch_strings g fld v m = Inr m' \<Longrightarrow> (\<And>x y. identity (g x y) = identity y) \<Longrightarrow> identity m' = identity m" for g fld
    by (cases v) (auto split: option.splits)
  moreover have "patch_url v m = Inr m' \<Longrightarrow> identity m' = identity m" by (cases v) (auto simp: identity_def)
  moreover have "patch_cwd v m = Inr m' \<Longrightarrow> identity m' = identity m" by (cases v) (auto simp: identity_def)
  moreover have "patch_timeout v m = Inr m' \<Longrightarrow> identity m' = identity m"
    by (cases v) (auto simp: identity_def split: if_splits)
  moreover have "patch_enabled v m = Inr m' \<Longrightarrow> identity m' = identity m" by (cases v) (auto simp: identity_def)
  ultimately show ?thesis
    using assms unfolding patch_fields_def by (auto simp: identity_def)
qed

lemma apply_patch_identity:
  "\<lbrakk>\<And>k f v m m'. (k, f) \<in> set fs \<Longrightarrow> f v m = Inr m' \<Longrightarrow> identity m' = identity m; apply_patch p fs m = Inr m'\<rbrakk> \<Longrightarrow>
   identity m' = identity m"
proof (induction fs arbitrary: m)
  case (Cons kf fs)
  obtain k f where kf: "kf = (k, f)" by force
  show ?case
  proof (cases "map_of p k")
    case None
    then show ?thesis using Cons kf by (metis apply_patch.simps(2) list.set_intros(2) option.simps(4))
  next
    case (Some v)
    then obtain m1 where m1: "f v m = Inr m1" "apply_patch p fs m1 = Inr m'"
      using Cons.prems(2) kf by (auto split: sum.splits)
    have "identity m1 = identity m" using Cons.prems(1) [of k f v m m1] m1(1) kf by simp
    moreover have "identity m' = identity m1" using Cons.IH [OF _ m1(2)] Cons.prems(1) by (meson list.set_intros(2))
    ultimately show ?thesis by simp
  qed
qed simp

text \<open>A patch that changes anything wrote a validated row over the one it read.\<close>
lemma patch_cases:
  assumes "patch_schedule lib cfg now rec x body s = (r, s')"
  shows "s' = s \<or> (\<exists>row m. row \<in> set (t_schedules s) \<and> sc_id m = sc_id row \<and> sc_target_kind m = sc_target_kind row \<and>
    validate_merged_view lib (m :: fetched_schedule) cfg = Inr () \<and>
    s' = s\<lparr>t_schedules := update_where (\<lambda>r. sc_id r = sc_id m) (patch_row rec m) (t_schedules s)\<rparr>)"
proof (cases body)
  case (JObj patch)
  show ?thesis
  proof (cases "find (\<lambda>k. k \<notin> set PATCHABLE_KEYS) (map fst patch)")
    case (Some k)
    then show ?thesis using assms JObj by (simp add: patch_schedule_def)
  next
    case None
    show ?thesis
    proof (cases "find (named x) (t_schedules s)")
      case None': None
      then show ?thesis using assms JObj None by (simp add: patch_schedule_def get_schedule_def)
    next
      case (Some row)
      have row: "row \<in> set (t_schedules s)" using find_SomeD [OF Some] by simp
      show ?thesis
      proof (cases "apply_patch patch patch_fields (row_to_schedule row)")
        case (Inl e)
        then show ?thesis using assms JObj None Some by (simp add: patch_schedule_def get_schedule_def)
      next
        case (Inr m0)
        have ident: "identity m0 = identity (row_to_schedule row)"
          by (rule apply_patch_identity [OF _ Inr]) (rule patch_fields_identity)
        show ?thesis
        proof (cases "next_after lib (sc_cron m0) now")
          case (Inl e)
          then show ?thesis using assms JObj None Some Inr by (simp add: patch_schedule_def get_schedule_def)
        next
          case n: (Inr n)
          let ?m = "recompute_next patch n m0"
          have m: "sc_id ?m = sc_id row" "sc_target_kind ?m = sc_target_kind row"
            using ident by (simp_all add: identity_def row_to_schedule_def schedule.defs recompute_next_def)
          show ?thesis
          proof (cases "validate_merged_view lib ?m cfg")
            case (Inl e)
            then show ?thesis using assms JObj None Some Inr n
              by (simp add: patch_schedule_def get_schedule_def Let_def)
          next
            case v: (Inr u)
            obtain y s1 where upd: "update_schedule_patch rec ?m s = (y, s1)" by force
            have "s' = s1"
              using assms JObj None Some Inr n v upd
              by (cases y; cases "y = Inr True"; cases "y = Inr False")
                (simp_all add: patch_schedule_def get_schedule_def Let_def split: bool.splits)
            then have "s' = s\<lparr>t_schedules := update_where (\<lambda>r. sc_id r = sc_id ?m) (patch_row rec ?m) (t_schedules s)\<rparr>"
              using upd by (auto simp: update_schedule_patch_def bind_def)
            then show ?thesis using row m v by (intro disjI2 exI [of _ row] exI [of _ ?m]) simp
          qed
        qed
      qed
    qed
  qed
qed (use assms in \<open>simp_all add: patch_schedule_def\<close>)

lemma gated_patch:
  assumes g: "gated cfgs s" and cfg: "cfg \<in> cfgs" and run: "patch_schedule lib cfg now rec x body s = (r, s')"
  shows "gated cfgs s'"
  using patch_cases [OF run]
proof (elim disjE exE conjE)
  fix row m
  assume row: "row \<in> set (t_schedules s)" and m: "sc_id m = sc_id row" "sc_target_kind m = sc_target_kind row"
    and v: "validate_merged_view lib (m :: fetched_schedule) cfg = Inr ()"
    and s1: "s' = s\<lparr>t_schedules := update_where (\<lambda>r. sc_id r = sc_id m) (patch_row rec m) (t_schedules s)\<rparr>"
  have s': "t_schedules s' = update_where (\<lambda>r. sc_id r = sc_id m) (patch_row rec m) (t_schedules s)" by (simp add: s1)
  have ids: "distinct (map sc_id (t_schedules s))" using g by (simp add: gated_def)
  have "row_ok cfgs z \<and> reserved_ok z" if z: "z \<in> set (t_schedules s')" for z
  proof -
    obtain r where r: "r \<in> set (t_schedules s)" "z = (if sc_id r = sc_id m then patch_row rec m r else r)"
      using z by (auto simp: s' set_update_where)
    have ok: "row_ok cfgs r" "reserved_ok r" using g r(1) by (simp_all add: gated_def)
    show ?thesis
    proof (cases "sc_id r = sc_id m")
      case True
      then have "r = row" using distinct_key_unique [OF ids r(1) row] m(1) by simp
      moreover have "reserved_ok (patch_row rec m r)" using ok(2) by (simp add: reserved_ok_def patch_row_def)
      ultimately show ?thesis using validate_ok [OF v _ cfg, of row] m(2) r(2) True by simp
    qed (use ok r in simp)
  qed
  then show ?thesis using g map_update_where [of "\<lambda>r. sc_id r = sc_id m" sc_id "patch_row rec m" "t_schedules s"]
      map_update_where [of "\<lambda>r. sc_id r = sc_id m" sc_name "patch_row rec m" "t_schedules s"]
    by (simp add: gated_def s')
qed (use g in simp)

lemma gated_set_enabled: "gated cfgs s \<Longrightarrow> set_enabled lib nows x b s = (r, s') \<Longrightarrow> gated cfgs s'"
proof -
  assume g: "gated cfgs s" and run: "set_enabled lib nows x b s = (r, s')"
  let ?s1 = "s\<lparr>t_schedules := update_where (named x) (\<lambda>r. r\<lparr>sc_enabled := b, sc_updated_at := nows 0\<rparr>) (t_schedules s)\<rparr>"
  have g1: "gated cfgs ?s1" by (rule gated_update [OF g keeps_gated_sets(2)]) simp
  have step: "gated cfgs (snd (set_schedule_next_run t y n ?s1))" for t y n
    using gated_next [OF g1, of t y n] by (cases "set_schedule_next_run t y n ?s1") simp
  have "s' = ?s1 \<or> (\<exists>t y n. s' = snd (set_schedule_next_run t y n ?s1))"
  proof (cases "0 < count_where (named x) (t_schedules s) \<and> b")
    case True
    then show ?thesis
      using run by (cases "find (named x) (t_schedules ?s1)")
        (auto simp: set_enabled_def set_schedule_enabled_def bind_def get_schedule_def)
  next
    case False
    then show ?thesis
      using run by (cases "0 < count_where (named x) (t_schedules s)")
        (auto simp: set_enabled_def set_schedule_enabled_def bind_def)
  qed
  then show ?thesis using g1 step by blast
qed

lemma gated_backfill_loop: "gated cfgs s \<Longrightarrow> gated cfgs (backfill_loop lib now nows i ds s)"
proof (induction ds arbitrary: i s)
  case (Cons d ds)
  have "gated cfgs (snd (set_schedule_next_run t y n s))" for t y n
    using gated_next [OF Cons.prems, of t y n] by (cases "set_schedule_next_run t y n s") simp
  then show ?case using Cons by (auto split: sum.splits option.splits)
qed simp

lemma gc_row_ok: "row_ok cfgs (build_gc_row lib t1 t2 uuid cutoff)" "reserved_ok (build_gc_row lib t1 t2 uuid cutoff)"
  by (simp_all add: row_ok_def reserved_ok_def build_gc_row_def non_empty_def)

lemma named_call_eq:
  "named_call nm m s = (case m s of (Inl e, s') \<Rightarrow> (Inl (nm, e), s') | (Inr x, s') \<Rightarrow> (Inr x, s'))"
  by (simp add: named_call_def)

lemma named_call_snd: "snd (named_call nm m s) = snd (m s)"
  by (simp add: named_call_eq split: prod.splits sum.splits)

lemma gated_snd:
  "gated cfgs s \<Longrightarrow> gated cfgs (snd (create_schedule (build_gc_row lib t1 t2 uuid cutoff) s))"
  "gated cfgs s \<Longrightarrow> gated cfgs (snd (delete_schedule x s))"
  using gated_insert [OF _ gc_row_ok] gated_delete by (metis prod.collapse)+

lemma gated_bootstrap:
  assumes g: "gated cfgs s" and run: "ensure_gc_schedule lib nows uuid cutoff s = (r, s')"
  shows "gated cfgs s'"
proof -
  let ?new = "named_call ''create_schedule'' (create_schedule (build_gc_row lib (nows 1) (nows 2) uuid cutoff))"
  have create: "gated cfgs (snd (?new c))" if "gated cfgs c" for c using gated_snd(1) [OF that] by (simp add: named_call_snd)
  show ?thesis
  proof (cases "find (named GC_SCHEDULE_NAME) (t_schedules s)")
    case None
    then have "(r, s') = ?new s" using run by (simp add: ensure_gc_schedule_def get_schedule_def named_call_eq)
    then show ?thesis using create [OF g] by (metis snd_conv)
  next
    case (Some e)
    obtain x s1 where del: "named_call ''delete_schedule'' (delete_schedule (sc_id e)) s = (x, s1)" by force
    have g1: "gated cfgs s1" using gated_snd(2) [OF g, of "sc_id e"] named_call_snd [of "''delete_schedule''" "delete_schedule (sc_id e)" s] del
      by simp
    have "s' = s \<or> s' = s1 \<or> (r, s') = ?new s1"
      using run Some del by (cases x) (auto simp: ensure_gc_schedule_def get_schedule_def named_call_def [of "''get_schedule''"]
          split: if_splits)
    then show ?thesis using g g1 create [OF g1] by (metis snd_conv)
  qed
qed

lemma gated_run_now: "gated cfgs s \<Longrightarrow> run_now lib cfg env ck uuid x s = (r, s') \<Longrightarrow> gated cfgs s'"
proof (cases "find (named x) (t_schedules s)")
  case (Some row)
  assume g: "gated cfgs s" and run: "run_now lib cfg env ck uuid x s = (r, s')"
  obtain y s1 where rec: "record_schedule_run_v2 (ck_recorded ck) (sc_id row)
     (build_run_row lib uuid (row_to_schedule row) (run_now_fire lib cfg env (row_to_schedule row)) (ck_started ck) (ck_now ck) ''manual'')
     (update_of (ck_now ck) (next_or_none lib (sc_cron (row_to_schedule row)) (ck_now ck)) (run_now_fire lib cfg env (row_to_schedule row))) s
     = (y, s1)" by force
  then have "s' = s1" using run Some by (cases y) (simp_all add: run_now_def get_schedule_def Let_def)
  then show ?thesis using gated_record [OF g rec] by simp
qed (simp add: run_now_def get_schedule_def)

lemma gated_step: "route_step lib cfg s s' \<Longrightarrow> cfg \<in> cfgs \<Longrightarrow> gated cfgs s \<Longrightarrow> gated cfgs s'"
proof (induction rule: route_step.induct)
  case (create now0 now uuid body s r s')
  then show ?case by (blast intro: gated_create)
next
  case (patch now rec x body s r s')
  then show ?case by (blast intro: gated_patch)
next
  case (enable nows x b s r s')
  then show ?case by (blast intro: gated_set_enabled)
next
  case (delete x s r s')
  obtain y s1 where d: "delete_schedule x s = (y, s1)" by force
  then have "s' = s1" using delete by (cases y; cases "y = Inr True"; cases "y = Inr False")
      (auto simp: delete_one_def split: bool.splits)
  then show ?case using gated_delete [OF delete.prems(2) d] by simp
next
  case (run_now env ck uuid x s r s')
  then show ?case by (blast intro: gated_run_now)
next
  case (fire env ck uuid d s s')
  then show ?case using gated_record by (metis fire_one_def prod.collapse)
next
  case (prune rfc dbg t s r s')
  then show ?case
    by (auto simp: delete_runs_before_def delete_schedule_runs_before_def gated_def split: if_splits)
next
  case (backfill now nows s s')
  then show ?case using gated_backfill_loop by (auto simp: backfill_next_run_def list_schedules_def)
next
  case (bootstrap nows uuid cutoff s r' s')
  then show ?case by (blast intro: gated_bootstrap)
qed

lemma gated_steps: "(\<lambda>s s'. \<exists>cfg \<in> cfgs. route_step lib cfg s s')\<^sup>*\<^sup>* s s' \<Longrightarrow> gated cfgs s \<Longrightarrow> gated cfgs s'"
  by (induction rule: rtranclp_induct) (auto intro: gated_step)

lemma gated_open: "gated cfgs (open_with_device fk d)"
  by (simp add: gated_def open_with_device_def)

section \<open>Properties\<close>

text \<open>C9: Whatever scheduler requests, fires, startup passes and restarts under other configurations interleave, a row with
  the kind exec holds a command and a directory that one of these configurations admitted; under the configuration of its fire
  it spawns a process exactly when it is of that kind and this configuration admits it too (a row stored under a wider allowlist
  is refused); every row is of a known kind, and only the bootstrap's own HTTP row has a reserved name.\<close>
theorem schedule_rows_gated:
  assumes "(\<lambda>s s'. \<exists>cfg \<in> cfgs. route_step lib cfg s s')\<^sup>*\<^sup>* (open_with_device fk device) s" and "d \<in> set (t_schedules s)"
  shows "(is_exec d \<longrightarrow> (\<exists>argv cwd. sc_command d = Some argv \<and> sc_cwd d = Some cwd \<and> (\<exists>cfg \<in> cfgs. exec_allowed cfg argv cwd) \<and>
      (snd (run_exec_schedule lib spawn vars d t cfg0) \<noteq> None) = exec_allowed cfg0 argv cwd)) \<and>
    (snd (run_exec_schedule lib spawn vars d t cfg0) \<noteq> None \<longrightarrow> is_exec d) \<and>
    (sc_target_kind d = ''http'' \<or> sc_target_kind d = ''exec'') \<and>
    (prefix INTERNAL_NAME_PREFIX (sc_name d) \<longrightarrow> sc_name d = GC_SCHEDULE_NAME \<and> sc_target_kind d = ''http'')"
proof -
  have ok: "row_ok cfgs d" "reserved_ok d"
    using gated_steps [OF assms(1) gated_open] assms(2) by (simp_all add: gated_def)
  have kinds: "sc_target_kind d = ''http'' \<or> sc_target_kind d = ''exec''" using ok(1) by (auto simp: row_ok_def)
  have runs: "(snd (run_exec_schedule lib spawn vars d t cfg0) \<noteq> None) = exec_allowed cfg0 argv cwd"
    if "sc_command d = Some argv" "sc_cwd d = Some cwd" "argv \<noteq> []" "cwd \<noteq> []" for argv cwd
    using that check_gates_iff [of lib argv cwd cfg0]
    by (cases "check_gates lib argv cwd cfg0") (auto simp: run_exec_schedule_def Let_def)
  show ?thesis
  proof (cases "is_exec d")
    case True
    then obtain argv cwd where g: "sc_command d = Some argv" "sc_cwd d = Some cwd" "admitted cfgs argv cwd"
      using ok(1) by (auto simp: row_ok_def is_exec_def)
    then have "argv \<noteq> []" "cwd \<noteq> []" by (auto simp: admitted_def exec_allowed_def)
    with runs [OF g(1,2)] g True kinds ok(2) show ?thesis by (simp add: admitted_def reserved_ok_def)
  next
    case False
    then have "non_empty (sc_command d) = None" using ok(1) by (auto simp: row_ok_def is_exec_def)
    then have "snd (run_exec_schedule lib spawn vars d t cfg0) = None"
      by (auto simp: run_exec_schedule_def non_empty_def split: option.splits if_splits)
    then show ?thesis using False kinds ok(2) by (simp add: reserved_ok_def)
  qed
qed

definition sample_body :: create_body where
  "sample_body = \<lparr>cb_name = ''n'', cb_cron = ''0 * * * *'', cb_target_kind = ''exec'', cb_target_url = None,
     cb_target_method = ''POST'', cb_body_json = None, cb_headers_json = None, cb_command = Some [''/bin//echo''],
     cb_cwd = Some ''/'', cb_env_keys = None, cb_timeout_secs = 60, cb_enabled = True\<rparr>"

text \<open>Counting the fields of a printable expression.\<close>
lemma count_words_steps:
  "count_words b [] = 0"
  "printable c \<Longrightarrow> count_words b (c # t) = (if b then 0 else 1) + count_words True t"
  "count_words b (CHR '' '' # t) = count_words False t"
  by (simp_all add: count_words.simps [of b "[]"] count_words.simps [of b "c # t"] count_words.simps [of b "CHR '' '' # t"]
      ws_len_printable ws_len_space)

lemma sample_crons: "cron_parse sample_lib ''0 * * * *'' = Inr ()" "cron_parse sample_lib GC_CRON = Inr ()"
proof -
  have "trim ''0 * * * *'' = ''0 * * * *''" "trim GC_CRON = GC_CRON"
    by (rule trim_printable; simp add: printable_def GC_CRON_def)+
  then show "cron_parse sample_lib ''0 * * * *'' = Inr ()" "cron_parse sample_lib GC_CRON = Inr ()"
    by (simp_all add: cron_parse_def Let_def count_words_steps printable_def sample_lib_def) (simp add: GC_CRON_def count_words_steps printable_def)
qed

lemma sample_next_after: "next_after sample_lib ''0 * * * *'' ''0'' = Inr (Some ''01'')"
  by (simp add: next_after_def sample_crons) (simp add: sample_lib_def)

lemma sample_build:
  "build_schedule sample_lib ''u'' sample_body (Some ''01'') ''0'' sample_cfg =
   Inr (new_schedule ''u'' sample_body (Some ''01'') ''0'' ''exec'' [] ''POST'' None None (Some [''/bin//echo'']) (Some ''/'') (Some []))"
  by code_simp

text \<open>The allowlist of a later configuration is empty: the row stored under the first is refused by it.\<close>
theorem schedule_rows_gated_witness:
  "\<exists>r s' d. create sample_lib sample_cfg ''0'' ''0'' ''u'' sample_body (open_with_device True ''dev'') = (r, s') \<and>
     d \<in> set (t_schedules s') \<and> sc_name d = ''n'' \<and>
     snd (run_exec_schedule sample_lib (\<lambda>_. Child_Timed_Out) [] d 5 sample_cfg) \<noteq> None \<and>
     snd (run_exec_schedule sample_lib (\<lambda>_. Child_Timed_Out) [] d 5 (sample_cfg\<lparr>cfg_exec_allowed_programs := []\<rparr>)) = None"
proof -
  let ?d = "new_schedule ''u'' sample_body (Some ''01'') ''0'' ''exec'' [] ''POST'' None None (Some [''/bin//echo'']) (Some ''/'') (Some [])"
  let ?s = "open_with_device True ''dev''\<lparr>t_schedules := [?d]\<rparr>"
  let ?later = "sample_cfg\<lparr>cfg_exec_allowed_programs := []\<rparr>"
  have cron: "cb_cron sample_body = ''0 * * * *''" "\<not> prefix INTERNAL_NAME_PREFIX (cb_name sample_body)"
    by (simp_all add: sample_body_def INTERNAL_NAME_PREFIX_def)
  have "create_schedule ?d (open_with_device True ''dev'') = (Inr (), ?s)"
    by (simp add: create_schedule_def sql_insert_def open_with_device_def schedule.defs)
  then have run: "create sample_lib sample_cfg ''0'' ''0'' ''u'' sample_body (open_with_device True ''dev'') = (Created ?d, ?s)"
    by (simp add: create_def cron sample_next_after sample_build)
  have reach: "(\<lambda>s s'. \<exists>cfg \<in> {sample_cfg, ?later}. route_step sample_lib cfg s s')\<^sup>*\<^sup>* (open_with_device True ''dev'') ?s"
    by (rule r_into_rtranclp) (use route_step.create [OF run] in blast)
  have mem: "?d \<in> set (t_schedules ?s)" by simp
  have d: "is_exec ?d" "sc_name ?d = ''n''" "sc_command ?d = Some [''/bin//echo'']" "sc_cwd ?d = Some ''/''"
    by (simp_all add: is_exec_def new_schedule_def sample_body_def)
  have no: "\<not> exec_allowed ?later argv cwd" for argv cwd by (auto simp: exec_allowed_def)
  note rows = schedule_rows_gated [OF reach mem, of "\<lambda>_. Child_Timed_Out" "[]" 5]
  have "exec_allowed sample_cfg [''/bin//echo''] ''/''" using rows [of sample_cfg] d no by auto
  then have "snd (run_exec_schedule sample_lib (\<lambda>_. Child_Timed_Out) [] ?d 5 sample_cfg) \<noteq> None"
    using rows [of sample_cfg] d by auto
  moreover have "snd (run_exec_schedule sample_lib (\<lambda>_. Child_Timed_Out) [] ?d 5 ?later) = None"
    using rows [of ?later] d no by auto
  ultimately show ?thesis using run mem d(2) by blast
qed

lemma next_after_error: "isl (next_after lib c t) = isl (cron_parse lib c)"
  by (cases "cron_parse lib c") (simp_all add: next_after_def)

lemma gc_row_valid: "\<not> isl (cron_parse lib GC_CRON) \<Longrightarrow> is_valid_gc_row lib t (build_gc_row lib t1 t2 uuid cutoff)"
proof -
  have "sc_target_url (build_gc_row lib t1 t2 uuid cutoff) = ''http://127.0.0.1:4318'' @ ''/api/schedules/runs'' @ (''?before='' @ cutoff)"
    by (simp add: build_gc_row_def)
  then have "contains ''/api/schedules/runs'' (sc_target_url (build_gc_row lib t1 t2 uuid cutoff))"
    unfolding contains_iff by blast
  moreover assume "\<not> isl (cron_parse lib GC_CRON)"
  ultimately show ?thesis by (simp add: is_valid_gc_row_def next_after_error) (simp add: build_gc_row_def)
qed

text \<open>Once the bootstrap has succeeded, every later one finds the row valid and writes nothing: the retention cutoff in the
  row's URL stays the one computed at registration.\<close>
theorem gc_bootstrap_once:
  assumes reach: "(route_step lib cfg)\<^sup>*\<^sup>* (open_with_device fk device) s"
    and ids: "GC_SCHEDULE_NAME \<notin> sc_id ` set (t_schedules s)" "uuid \<noteq> GC_SCHEDULE_NAME"
    and cron: "\<not> isl (cron_parse lib GC_CRON)"
    and first: "ensure_gc_schedule lib nows uuid cutoff s = (Inr (), s1)"
  shows "ensure_gc_schedule lib nows2 uuid2 cutoff2 s1 = (Inr (), s1)"
proof -
  have gated: "gated {cfg} s" by (rule gated_steps [of "{cfg}", OF _ gated_open]) (use reach in simp)
  let ?row = "build_gc_row lib (nows 1) (nows 2) uuid cutoff"
  have nm: "named GC_SCHEDULE_NAME ?row" "schedule.truncate d = d" for d :: schedule
    by (simp_all add: named_def build_gc_row_def schedule.defs)
  have again: "ensure_gc_schedule lib nows2 uuid2 cutoff2 c = (Inr (), c)"
    if "find (named GC_SCHEDULE_NAME) (t_schedules c) = Some x" "is_valid_gc_row lib t x" for c x t
  proof -
    have "is_valid_gc_row lib (nows2 0) (row_to_schedule x)"
      using that(2) by (simp add: is_valid_gc_row_def next_after_error) (simp add: row_to_schedule_def schedule.defs)
    then show ?thesis using that(1) by (simp add: ensure_gc_schedule_def get_schedule_def named_call_def)
  qed
  have created: "find (named GC_SCHEDULE_NAME) (t_schedules c') = Some ?row"
    if none: "find (named GC_SCHEDULE_NAME) (t_schedules c) = None"
      and ins: "named_call ''create_schedule'' (create_schedule ?row) c = (Inr (), c')" for c c'
  proof -
    have "t_schedules c' = t_schedules c @ [?row]"
      using ins by (auto simp: named_call_def create_schedule_def sql_insert_def nm(2) split: if_splits)
    then show ?thesis using none nm(1) by (simp add: find_append)
  qed
  show ?thesis
  proof (cases "find (named GC_SCHEDULE_NAME) (t_schedules s)")
    case None
    then have "named_call ''create_schedule'' (create_schedule ?row) s = (Inr (), s1)"
      using first by (simp add: ensure_gc_schedule_def get_schedule_def named_call_def [of "''get_schedule''"])
    from again [OF created [OF None this] gc_row_valid [OF cron]] show ?thesis .
  next
    case (Some e)
    show ?thesis
    proof (cases "is_valid_gc_row lib (nows 0) (row_to_schedule e)")
      case True
      then have v: "is_valid_gc_row lib (nows 0) e"
        by (simp add: is_valid_gc_row_def next_after_error) (simp add: row_to_schedule_def schedule.defs)
      have "s1 = s" using first Some True by (simp add: ensure_gc_schedule_def get_schedule_def named_call_def)
      with again [OF Some v] show ?thesis by simp
    next
      case False
      obtain x s2 where del: "named_call ''delete_schedule'' (delete_schedule (sc_id e)) s = (x, s2)" by force
      have rows: "t_schedules s2 = delete_where (named (sc_id e)) (t_schedules s)"
        using del by (auto simp: named_call_def delete_schedule_def delete_schedules_where_def bind_def)
      have by_name: "sc_name r = GC_SCHEDULE_NAME" if "r \<in> set (t_schedules s)" "named GC_SCHEDULE_NAME r" for r
        using that ids(1) unfolding named_def by (metis image_eqI)
      have e: "e \<in> set (t_schedules s)" "sc_name e = GC_SCHEDULE_NAME"
        using find_SomeD [OF Some] by_name by blast+
      have "r = e" if "r \<in> set (t_schedules s)" "named GC_SCHEDULE_NAME r" for r
      proof -
        have "sc_name r = GC_SCHEDULE_NAME" using that by (rule by_name)
        then show ?thesis using gated that(1) e distinct_key_unique [of sc_name "t_schedules s" r e] by (simp add: gated_def)
      qed
      then have none: "find (named GC_SCHEDULE_NAME) (t_schedules s2) = None"
        by (auto simp: rows find_None_iff named_def)
      have "named_call ''create_schedule'' (create_schedule ?row) s2 = (Inr (), s1)"
        using first Some False del
        by (cases x) (auto simp: ensure_gc_schedule_def get_schedule_def named_call_def [of "''get_schedule''"])
      from again [OF created [OF none this] gc_row_valid [OF cron]] show ?thesis .
    qed
  qed
qed

theorem gc_bootstrap_once_witness:
  "\<exists>s1. ensure_gc_schedule sample_lib (\<lambda>_. ''0'') ''u'' ''old'' (open_with_device True ''dev'') = (Inr (), s1) \<and>
     ensure_gc_schedule sample_lib (\<lambda>_. ''9'') ''v'' ''new'' s1 = (Inr (), s1)"
proof -
  obtain s1 where first: "ensure_gc_schedule sample_lib (\<lambda>_. ''0'') ''u'' ''old'' (open_with_device True ''dev'') = (Inr (), s1)"
    by (simp add: ensure_gc_schedule_def get_schedule_def named_call_def create_schedule_def sql_insert_def open_with_device_def)
  have cron: "\<not> isl (cron_parse sample_lib GC_CRON)" by (simp add: sample_crons)
  have ids: "GC_SCHEDULE_NAME \<notin> sc_id ` set (t_schedules (open_with_device True ''dev''))" "''u'' \<noteq> GC_SCHEDULE_NAME"
    by (simp_all add: open_with_device_def GC_SCHEDULE_NAME_def)
  show ?thesis
    using gc_bootstrap_once [where cfg = sample_cfg, OF rtranclp.rtrancl_refl ids cron first] first by blast
qed

end
