(* ===== verification/Browser_Pool.thy ===== *)
theory Browser_Pool
  imports Prelude
begin

text \<open>
  The browser driver (gctrl-browser): a pool of warm Chromium processes that hosts token-gated sessions
  (pool.rs), the recycle policy (recycle.rs), tokens (token.rs), configuration (config.rs), the frame relay
  (cdp\_proxy.rs), and the HTTP routes over the pool (gctrl-otel/src/browser\_routes.rs). The pool's lock is
  released while a Chromium starts and between the phases of a sweep; \<^verbatim>\<open>browser_step\<close> interleaves the
  critical sections. Instants are nanoseconds; the removals of one sweep share a clock reading. The launcher, UUIDs and random
  tokens are arguments.
\<close>

section \<open>Model\<close>

type_synonym instant = int

datatype chromium_state = Chr_Active | Chr_Draining
datatype browser_session_status = Bs_Active | Bs_Releasing | Bs_Expired

datatype browser_error = PoolExhausted u32 | SessionNotFound string | SessionExpired string
  | InvalidToken string | RecordingDisabled | LaunchFailed string | Cdp string | InvalidRequest string

fun browser_error_kind :: "browser_error \<Rightarrow> string" where
  "browser_error_kind (PoolExhausted _) = ''pool_exhausted''"
| "browser_error_kind (SessionNotFound _) = ''session_not_found''"
| "browser_error_kind (SessionExpired _) = ''session_expired''"
| "browser_error_kind (InvalidToken _) = ''invalid_token''"
| "browser_error_kind RecordingDisabled = ''recording_disabled''"
| "browser_error_kind (LaunchFailed _) = ''launch_failed''"
| "browser_error_kind (Cdp _) = ''cdp_error''"
| "browser_error_kind (InvalidRequest _) = ''invalid_request''"

fun browser_error_message :: "browser_error \<Rightarrow> string" where
  "browser_error_message (PoolExhausted m) = ''browser pool exhausted (max='' @ show_nat (unat m) @ '')''"
| "browser_error_message (SessionNotFound i) = ''session not found: '' @ i"
| "browser_error_message (SessionExpired i) = ''session expired: '' @ i"
| "browser_error_message (InvalidToken i) = ''invalid token for session '' @ i"
| "browser_error_message RecordingDisabled = ''recording disabled for this session''"
| "browser_error_message (LaunchFailed e) = ''chromium launch failed: '' @ e"
| "browser_error_message (Cdp e) = ''cdp protocol error: '' @ e"
| "browser_error_message (InvalidRequest e) = ''invalid request: '' @ e"

record browser_config =
  bw_pool_max :: u32
  bw_contexts_per_chromium_max :: u32
  bw_recycle_idle_seconds :: u64
  bw_recycle_max_age_seconds :: u64
  bw_default_ttl_seconds :: u32
  bw_default_recording_max_bytes :: u64
  bw_chromium_path :: "string option"
  bw_headed_default :: bool

definition default_browser_config :: browser_config where
  "default_browser_config =
     \<lparr>bw_pool_max = 4, bw_contexts_per_chromium_max = 8, bw_recycle_idle_seconds = 1800,
      bw_recycle_max_age_seconds = 28800, bw_default_ttl_seconds = 600,
      bw_default_recording_max_bytes = 50 * 1024 * 1024, bw_chromium_path = None, bw_headed_default = False\<rparr>"

definition override :: "(string \<Rightarrow> 'a option) \<Rightarrow> string option \<Rightarrow> ('a \<Rightarrow> 'c \<Rightarrow> 'c) \<Rightarrow> 'c \<Rightarrow> 'c" where
  "override parse var set_field c =
     (case Option.bind var parse of None \<Rightarrow> c | Some v \<Rightarrow> set_field v c)"

definition with_env_overrides :: "(string \<Rightarrow> string option) \<Rightarrow> browser_config \<Rightarrow> browser_config" where
  "with_env_overrides env c =
     (let c = override (parse_uint 32) (env ''GCTRL_BROWSER_POOL_MAX'')
                (\<lambda>v. bw_pool_max_update (\<lambda>_. of_nat v)) c;
          c = override (parse_uint 64) (env ''GCTRL_BROWSER_RECYCLE_IDLE_SECS'')
                (\<lambda>v. bw_recycle_idle_seconds_update (\<lambda>_. of_nat v)) c;
          c = override (parse_uint 64) (env ''GCTRL_BROWSER_RECYCLE_MAX_AGE_SECS'')
                (\<lambda>v. bw_recycle_max_age_seconds_update (\<lambda>_. of_nat v)) c;
          c = override (parse_uint 32) (env ''GCTRL_BROWSER_DEFAULT_TTL_SECS'')
                (\<lambda>v. bw_default_ttl_seconds_update (\<lambda>_. of_nat v)) c
      in override (\<lambda>v. if v = [] then None else Some v) (env ''GCTRL_BROWSER_CHROMIUM_PATH'')
                (\<lambda>v. bw_chromium_path_update (\<lambda>_. Some v)) c)"

record recording_options =
  rec_network :: bool
  rec_console :: bool
  rec_performance :: bool
  rec_screenshots :: bool
  rec_full :: bool
  rec_max_bytes :: u64

definition default_recording :: recording_options where
  "default_recording = \<lparr>rec_network = True, rec_console = True, rec_performance = True, rec_screenshots = False,
     rec_full = False, rec_max_bytes = 50 * 1024 * 1024\<rparr>"

record session_options =
  so_viewport :: "(u32 \<times> u32) option"
  so_headed :: bool
  so_recording :: recording_options
  so_ttl_seconds :: u32

definition default_session_options :: session_options where
  "default_session_options = \<lparr>so_viewport = None, so_headed = False, so_recording = default_recording, so_ttl_seconds = 600\<rparr>"

record session_info =
  si_id :: string
  si_created_at :: instant
  si_expires_at :: instant
  si_browser_version :: string
  si_status :: browser_session_status
  si_recording :: recording_options
  si_cdp_endpoint :: string
  si_token :: string
  si_dropped_frames :: u64

text \<open>What the launcher hands back; a tap is the identity of a broadcast channel.\<close>
record launched_chromium =
  lc_id :: string
  lc_browser_ws_url :: string
  lc_version :: string

record chromium =
  ch_chromium :: launched_chromium
  ch_state :: chromium_state
  ch_created_at :: instant
  ch_last_active_at :: instant
  ch_sessions :: "string list"
  ch_tap :: nat

record session_record =
  bs_info :: session_info
  bs_token :: string
  bs_chromium_id :: string
  bs_tap :: nat

record pool_state =
  ps_chromiums :: "chromium list"
  ps_sessions :: "session_record list"

abbreviation ch_id :: "chromium \<Rightarrow> string" where "ch_id c \<equiv> lc_id (ch_chromium c)"
abbreviation bs_id :: "session_record \<Rightarrow> string" where "bs_id s \<equiv> si_id (bs_info s)"

section \<open>Tokens\<close>

text \<open>The encoder is the base64 crate's URL-safe alphabet without padding.\<close>
definition mint_token :: "(8 word list \<Rightarrow> string) \<Rightarrow> 8 word list \<Rightarrow> string" where
  "mint_token encode random = encode random"

definition byte_of :: "char \<Rightarrow> 8 word" where
  "byte_of c = of_nat (of_char c)"

definition verify :: "string \<Rightarrow> string \<Rightarrow> bool" where
  "verify actual expected =
     (if length actual \<noteq> length expected then False
      else foldl (\<lambda>diff (a, b). or diff (xor (byte_of a) (byte_of b))) 0 (zip actual expected) = 0)"

section \<open>Recycle policy\<close>

datatype recycle_reason = Idle | MaxAge
datatype recycle_plan = Drain string recycle_reason | Kill string recycle_reason

record chromium_snapshot =
  sn_id :: string
  sn_state :: chromium_state
  sn_created_at :: instant
  sn_last_active_at :: instant
  sn_active_sessions :: u32

record recycle_config =
  rc_recycle_idle_seconds :: u64
  rc_recycle_max_age_seconds :: u64

text \<open>Whole seconds of a duration, clamped at zero.\<close>
definition whole_seconds :: "int \<Rightarrow> u64" where
  "whole_seconds d = of_int (max 0 (d div 1000000000))"

definition decide_one :: "recycle_config \<Rightarrow> instant \<Rightarrow> chromium_snapshot \<Rightarrow> recycle_plan option" where
  "decide_one cfg now c =
     (let age = whole_seconds (now - sn_created_at c);
          idle = whole_seconds (now - sn_last_active_at c)
      in if sn_state c = Chr_Draining \<and> sn_active_sessions c = 0 then Some (Kill (sn_id c) MaxAge)
         else if rc_recycle_max_age_seconds cfg \<le> age \<and> sn_state c = Chr_Active
         then (if sn_active_sessions c = 0 then Some (Kill (sn_id c) MaxAge) else Some (Drain (sn_id c) MaxAge))
         else if sn_state c = Chr_Active \<and> sn_active_sessions c = 0 \<and> rc_recycle_idle_seconds cfg \<le> idle
         then Some (Kill (sn_id c) Idle)
         else None)"

fun decide :: "chromium_snapshot list \<Rightarrow> recycle_config \<Rightarrow> instant \<Rightarrow> recycle_plan list" where
  "decide [] cfg now = []"
| "decide (c # cs) cfg now =
     (case decide_one cfg now c of None \<Rightarrow> decide cs cfg now | Some p \<Rightarrow> p # decide cs cfg now)"

section \<open>The pool\<close>

text \<open>Removing or updating the first element found, as Vec::remove at a position and iter\_mut().find do.\<close>
fun remove_first :: "('a \<Rightarrow> bool) \<Rightarrow> 'a list \<Rightarrow> 'a list" where
  "remove_first p [] = []"
| "remove_first p (x # xs) = (if p x then xs else x # remove_first p xs)"

fun update_first :: "('a \<Rightarrow> bool) \<Rightarrow> ('a \<Rightarrow> 'a) \<Rightarrow> 'a list \<Rightarrow> 'a list" where
  "update_first p f [] = []"
| "update_first p f (x # xs) = (if p x then f x # xs else x # update_first p f xs)"

definition len_u32 :: "'a list \<Rightarrow> u32" where
  "len_u32 xs = of_nat (length xs)"

definition find_warmest :: "chromium list \<Rightarrow> browser_config \<Rightarrow> nat option" where
  "find_warmest cs config =
     map_option fst (max_by_key (\<lambda>(_, c). length (ch_sessions c))
       (filter (\<lambda>(_, c). ch_state c = Chr_Active \<and> len_u32 (ch_sessions c) < bw_contexts_per_chromium_max config)
         (enumerate 0 cs)))"

definition active_count :: "pool_state \<Rightarrow> nat" where "active_count st = length (ps_sessions st)"
definition chromium_count :: "pool_state \<Rightarrow> nat" where "chromium_count st = length (ps_chromiums st)"

definition browser_version :: "pool_state \<Rightarrow> string option" where
  "browser_version st = (case ps_chromiums st of [] \<Rightarrow> None | c # _ \<Rightarrow> Some (lc_version (ch_chromium c)))"

definition check_options :: "browser_config \<Rightarrow> session_options \<Rightarrow> browser_error option" where
  "check_options config opts =
     (if so_headed opts \<and> \<not> bw_headed_default config
      then Some (InvalidRequest ''headed mode requires browser.headed_default=true and a display server'')
      else if so_ttl_seconds opts = 0 \<or> 3600 < so_ttl_seconds opts
      then Some (InvalidRequest ''ttl_seconds must be in (0, 3600]'')
      else if rec_max_bytes (so_recording opts) = 0
      then Some (InvalidRequest ''recording.max_bytes must be > 0'')
      else None)"

text \<open>First critical section of acquire: the Chromium to reuse, or None when one has to be launched.\<close>
definition pick_chromium :: "browser_config \<Rightarrow> pool_state \<Rightarrow> browser_error + string option" where
  "pick_chromium config st =
     (case find_warmest (ps_chromiums st) config of
        Some idx \<Rightarrow> Inr (Some (ch_id (ps_chromiums st ! idx)))
      | None \<Rightarrow>
          if bw_pool_max config \<le> len_u32 (ps_chromiums st) then Inl (PoolExhausted (bw_pool_max config))
          else Inr None)"

text \<open>Second critical section: the launched Chromium joins the pool.\<close>
definition push_chromium :: "launched_chromium \<Rightarrow> nat \<Rightarrow> instant \<Rightarrow> pool_state \<Rightarrow> pool_state" where
  "push_chromium launched tap now st =
     st\<lparr>ps_chromiums := ps_chromiums st @
          [\<lparr>ch_chromium = launched, ch_state = Chr_Active, ch_created_at = now, ch_last_active_at = now,
            ch_sessions = [], ch_tap = tap\<rparr>]\<rparr>"

definition session_of ::
  "string \<Rightarrow> session_options \<Rightarrow> string \<Rightarrow> string \<Rightarrow> instant \<Rightarrow> chromium \<Rightarrow> session_info" where
  "session_of base opts uuid token now c =
     \<lparr>si_id = uuid, si_created_at = now, si_expires_at = now + uint (so_ttl_seconds opts) * 1000000000,
      si_browser_version = lc_version (ch_chromium c), si_status = Bs_Active, si_recording = so_recording opts,
      si_cdp_endpoint = base @ ''/api/browser/sessions/'' @ uuid @ ''/cdp?token='' @ token,
      si_token = token, si_dropped_frames = 0\<rparr>"

text \<open>Last critical section: the session joins its Chromium. None is the panic of the expect.\<close>
definition bind_session ::
  "string \<Rightarrow> session_options \<Rightarrow> string \<Rightarrow> string \<Rightarrow> string \<Rightarrow> instant \<Rightarrow> pool_state \<Rightarrow> (session_info \<times> pool_state) option" where
  "bind_session base opts chromium_id uuid token now st =
     (case find (\<lambda>c. ch_id c = chromium_id) (ps_chromiums st) of
        None \<Rightarrow> None
      | Some c \<Rightarrow>
          let info = session_of base opts uuid token now c
          in Some (info,
               st\<lparr>ps_chromiums := update_first (\<lambda>c. ch_id c = chromium_id)
                     (\<lambda>c. c\<lparr>ch_sessions := ch_sessions c @ [uuid], ch_last_active_at := now\<rparr>) (ps_chromiums st),
                  ps_sessions := ps_sessions st @
                     [\<lparr>bs_info = info, bs_token = token, bs_chromium_id = chromium_id, bs_tap = ch_tap c\<rparr>]\<rparr>))"

text \<open>acquire when nothing else runs in between.\<close>
definition acquire ::
  "browser_config \<Rightarrow> string \<Rightarrow> browser_error + launched_chromium \<Rightarrow> nat \<Rightarrow> instant \<Rightarrow> string \<Rightarrow> string \<Rightarrow> instant
   \<Rightarrow> session_options \<Rightarrow> pool_state \<Rightarrow> ((browser_error + session_info) \<times> pool_state) option" where
  "acquire config base launch tap launched_at uuid token now opts st =
     (case check_options config opts of
        Some e \<Rightarrow> Some (Inl e, st)
      | None \<Rightarrow>
          (case pick_chromium config st of
             Inl e \<Rightarrow> Some (Inl e, st)
           | Inr (Some c) \<Rightarrow> map_option (map_prod Inr (\<lambda>x. x)) (bind_session base opts c uuid token now st)
           | Inr None \<Rightarrow>
               (case launch of
                  Inl e \<Rightarrow> Some (Inl e, st)
                | Inr l \<Rightarrow> map_option (map_prod Inr (\<lambda>x. x))
                    (bind_session base opts (lc_id l) uuid token now (push_chromium l tap launched_at st)))))"

definition remove_session :: "string \<Rightarrow> instant \<Rightarrow> pool_state \<Rightarrow> pool_state option" where
  "remove_session sid touch st =
     (case find (\<lambda>s. bs_id s = sid) (ps_sessions st) of
        None \<Rightarrow> None
      | Some removed \<Rightarrow>
          Some (st\<lparr>ps_sessions := remove_first (\<lambda>s. bs_id s = sid) (ps_sessions st),
                   ps_chromiums := update_first (\<lambda>c. ch_id c = bs_chromium_id removed)
                     (\<lambda>c. c\<lparr>ch_sessions := filter (\<lambda>s. s \<noteq> sid) (ch_sessions c), ch_last_active_at := touch\<rparr>)
                     (ps_chromiums st)\<rparr>))"

definition release :: "string \<Rightarrow> instant \<Rightarrow> pool_state \<Rightarrow> (browser_error + unit) \<times> pool_state" where
  "release sid touch st =
     (case remove_session sid touch st of None \<Rightarrow> (Inl (SessionNotFound sid), st) | Some st' \<Rightarrow> (Inr (), st'))"

definition pool_list :: "pool_state \<Rightarrow> session_info list" where "pool_list st = map bs_info (ps_sessions st)"

definition pool_get :: "string \<Rightarrow> pool_state \<Rightarrow> session_info option" where
  "pool_get sid st = map_option bs_info (find (\<lambda>s. bs_id s = sid) (ps_sessions st))"

definition attach :: "instant \<Rightarrow> string \<Rightarrow> string \<Rightarrow> pool_state \<Rightarrow> browser_error + string \<times> nat" where
  "attach now sid supplied st =
     (case find (\<lambda>s. bs_id s = sid) (ps_sessions st) of
        None \<Rightarrow> Inl (SessionNotFound sid)
      | Some s \<Rightarrow>
          if si_expires_at (bs_info s) \<le> now then Inl (SessionExpired sid)
          else if \<not> verify supplied (bs_token s) then Inl (InvalidToken sid)
          else (case find (\<lambda>c. ch_id c = bs_chromium_id s) (ps_chromiums st) of
                  None \<Rightarrow> Inl (Cdp ''session refers to a chromium that no longer exists'')
                | Some c \<Rightarrow> Inr (lc_browser_ws_url (ch_chromium c), bs_tap s)))"

definition subscribe :: "string \<Rightarrow> pool_state \<Rightarrow> nat option" where
  "subscribe sid st = map_option bs_tap (find (\<lambda>s. bs_id s = sid) (ps_sessions st))"

record sweep_report =
  sw_expired_sessions :: nat
  sw_drained :: nat
  sw_killed :: nat

definition expired_ids :: "instant \<Rightarrow> pool_state \<Rightarrow> string list" where
  "expired_ids now st = map bs_id (filter (\<lambda>s. si_expires_at (bs_info s) \<le> now) (ps_sessions st))"

definition remove_if_there :: "instant \<Rightarrow> string \<Rightarrow> pool_state \<Rightarrow> pool_state" where
  "remove_if_there touch sid st = (case remove_session sid touch st of None \<Rightarrow> st | Some st' \<Rightarrow> st')"

definition expire_sessions :: "instant \<Rightarrow> instant \<Rightarrow> pool_state \<Rightarrow> pool_state" where
  "expire_sessions now touch st = fold (remove_if_there touch) (expired_ids now st) st"

definition snapshots :: "pool_state \<Rightarrow> chromium_snapshot list" where
  "snapshots st = map (\<lambda>c. \<lparr>sn_id = ch_id c, sn_state = ch_state c, sn_created_at = ch_created_at c,
     sn_last_active_at = ch_last_active_at c, sn_active_sessions = len_u32 (ch_sessions c)\<rparr>) (ps_chromiums st)"

definition recycle_config_of :: "browser_config \<Rightarrow> recycle_config" where
  "recycle_config_of config = \<lparr>rc_recycle_idle_seconds = bw_recycle_idle_seconds config,
     rc_recycle_max_age_seconds = bw_recycle_max_age_seconds config\<rparr>"

definition has_chromium :: "string \<Rightarrow> pool_state \<Rightarrow> bool" where
  "has_chromium cid st = list_ex (\<lambda>c. ch_id c = cid) (ps_chromiums st)"

fun apply_plan :: "recycle_plan \<Rightarrow> sweep_report \<times> pool_state \<Rightarrow> sweep_report \<times> pool_state" where
  "apply_plan (Drain cid _) (r, st) =
     (if has_chromium cid st
      then (r\<lparr>sw_drained := sw_drained r + 1\<rparr>,
            st\<lparr>ps_chromiums := update_first (\<lambda>c. ch_id c = cid) (ch_state_update (\<lambda>_. Chr_Draining)) (ps_chromiums st)\<rparr>)
      else (r, st))"
| "apply_plan (Kill cid _) (r, st) =
     (if has_chromium cid st
      then (r\<lparr>sw_killed := sw_killed r + 1\<rparr>,
            st\<lparr>ps_chromiums := remove_first (\<lambda>c. ch_id c = cid) (ps_chromiums st)\<rparr>)
      else (r, st))"

text \<open>sweep when nothing else runs in between.\<close>
definition sweep :: "browser_config \<Rightarrow> instant \<Rightarrow> instant \<Rightarrow> pool_state \<Rightarrow> sweep_report \<times> pool_state" where
  "sweep config now touch st =
     (let st1 = expire_sessions now touch st
      in fold apply_plan (decide (snapshots st1) (recycle_config_of config) now)
           (\<lparr>sw_expired_sessions = length (expired_ids now st), sw_drained = 0, sw_killed = 0\<rparr>, st1))"

section \<open>The frame relay\<close>

datatype frame_direction = Client_To_Browser | Browser_To_Client
datatype ws_msg = Ws_Text string | Ws_Binary string | Ws_Ping string | Ws_Pong string | Ws_Close | Ws_Frame string
datatype received = Message ws_msg | Stream_End | Stream_Error

record cdp_frame =
  cf_direction :: frame_direction
  cf_payload :: string
  cf_ts :: instant

text \<open>
  The relay waits for whichever side has a message next: an event is the side, what it received, whether the
  forwarding send succeeds, and the clock. The result lists what the other side was sent and the tapped frames.
\<close>
fun relay ::
  "(frame_direction \<times> received \<times> bool \<times> instant) list \<Rightarrow> (frame_direction \<times> ws_msg) list \<times> cdp_frame list" where
  "relay [] = ([], [])"
| "relay ((d, Message (Ws_Text t), ok, ts) # es) =
     (if \<not> ok then ([], [])
      else let (out, taps) = relay es
        in ((d, Ws_Text t) # out, \<lparr>cf_direction = d, cf_payload = t, cf_ts = ts\<rparr> # taps))"
| "relay ((d, Message (Ws_Binary b), ok, ts) # es) =
     (if \<not> ok then ([], []) else let (out, taps) = relay es in ((d, Ws_Binary b) # out, taps))"
| "relay ((d, Message (Ws_Ping p), ok, ts) # es) =
     (let (out, taps) = relay es in (if ok then (d, Ws_Ping p) # out else out, taps))"
| "relay ((d, Message (Ws_Pong p), ok, ts) # es) = relay es"
| "relay ((d, Message (Ws_Frame p), ok, ts) # es) = relay es"
| "relay ((d, Message Ws_Close, ok, ts) # es) = (if ok then [(d, Ws_Close)] else [], [])"
| "relay ((d, Stream_End, ok, ts) # es) = (if ok then [(d, Ws_Close)] else [], [])"
| "relay ((d, Stream_Error, ok, ts) # es) = ([], [])"

section \<open>Routes\<close>

datatype browser_response =
    Browser_Session nat session_info
  | Browser_No_Content nat
  | Browser_Error nat string string
  | Browser_Replay nat session_info string
  | Browser_Upgrade string nat

fun status_for :: "browser_error \<Rightarrow> nat" where
  "status_for (PoolExhausted _) = 429"
| "status_for (SessionNotFound _) = 404"
| "status_for (SessionExpired _) = 410"
| "status_for (InvalidToken _) = 401"
| "status_for RecordingDisabled = 409"
| "status_for (InvalidRequest _) = 400"
| "status_for (LaunchFailed _) = 502"
| "status_for (Cdp _) = 502"

definition err_response :: "browser_error \<Rightarrow> browser_response" where
  "err_response e = Browser_Error (status_for e) (browser_error_kind e) (browser_error_message e)"

fun create_reply :: "browser_error + session_info \<Rightarrow> browser_response" where
  "create_reply (Inr info) = Browser_Session 201 info"
| "create_reply (Inl e) = err_response e"

fun replay_reply :: "string \<Rightarrow> browser_error + session_info \<Rightarrow> browser_response" where
  "replay_reply source (Inr info) = Browser_Replay 201 info source"
| "replay_reply source (Inl e) = err_response e"

text \<open>create\_session over an acquire of the pool; None is the panic.\<close>
definition create_session ::
  "(session_options \<Rightarrow> pool_state \<Rightarrow> ((browser_error + session_info) \<times> pool_state) option)
   \<Rightarrow> session_options \<Rightarrow> pool_state \<Rightarrow> (browser_response \<times> pool_state) option" where
  "create_session acq opts st =
     map_option (map_prod create_reply (\<lambda>x. x)) (acq opts st)"

definition get_session :: "string \<Rightarrow> pool_state \<Rightarrow> browser_response" where
  "get_session sid st =
     (case pool_get sid st of Some info \<Rightarrow> Browser_Session 200 info | None \<Rightarrow> err_response (SessionNotFound sid))"

definition delete_session :: "string \<Rightarrow> instant \<Rightarrow> pool_state \<Rightarrow> browser_response \<times> pool_state" where
  "delete_session sid touch st =
     (case release sid touch st of (Inr _, st') \<Rightarrow> (Browser_No_Content 204, st') | (Inl e, st') \<Rightarrow> (err_response e, st'))"

text \<open>The token of the query, else of a Bearer header, else the empty text.\<close>
definition cdp_token :: "string option \<Rightarrow> string option \<Rightarrow> string" where
  "cdp_token query auth_header =
     (case query of
        Some t \<Rightarrow> t
      | None \<Rightarrow> (case Option.bind auth_header (strip_prefix ''Bearer '') of None \<Rightarrow> [] | Some t \<Rightarrow> t))"

definition cdp_attach :: "instant \<Rightarrow> string \<Rightarrow> string option \<Rightarrow> string option \<Rightarrow> pool_state \<Rightarrow> browser_response" where
  "cdp_attach now sid query auth_header st =
     (case attach now sid (cdp_token query auth_header) st of
        Inr (upstream_url, tap) \<Rightarrow> Browser_Upgrade upstream_url tap
      | Inl e \<Rightarrow> err_response e)"

definition create_replay ::
  "(session_options \<Rightarrow> pool_state \<Rightarrow> ((browser_error + session_info) \<times> pool_state) option)
   \<Rightarrow> string \<Rightarrow> u32 option \<Rightarrow> pool_state \<Rightarrow> (browser_response \<times> pool_state) option" where
  "create_replay acq source ttl st =
     (if pool_get source st = None then Some (err_response (SessionNotFound source), st)
      else map_option (map_prod (replay_reply source) (\<lambda>x. x))
        (acq (default_session_options\<lparr>so_ttl_seconds := (case ttl of None \<Rightarrow> 600 | Some t \<Rightarrow> t)\<rparr>) st))"

section \<open>Interleaving\<close>

text \<open>
  What a request or a sweep still has to do after it gave up the lock: launch a Chromium, bind a session to the one
  it resolved, take the snapshot of a sweep, or apply the rest of its plan. \<^verbatim>\<open>k\<close> bounds the acquires in flight.
\<close>
datatype thread = Launching session_options | Binding session_options string | Sweeping instant
  | Recycling "recycle_plan list"

record browser_sys =
  bz_pool :: pool_state
  bz_threads :: "thread list"

fun is_acquire :: "thread \<Rightarrow> bool" where
  "is_acquire (Launching _) = True"
| "is_acquire (Binding _ _) = True"
| "is_acquire _ = False"

fun plan_id :: "recycle_plan \<Rightarrow> string" where
  "plan_id (Drain i _) = i"
| "plan_id (Kill i _) = i"

fun thread_ids :: "thread \<Rightarrow> string set" where
  "thread_ids (Launching _) = {}"
| "thread_ids (Binding _ c) = {c}"
| "thread_ids (Sweeping _) = {}"
| "thread_ids (Recycling ps) = plan_id ` set ps"

text \<open>Every Chromium id in use: the launcher's next one is none of them.\<close>
definition known_ids :: "browser_sys \<Rightarrow> string set" where
  "known_ids b = ch_id ` set (ps_chromiums (bz_pool b)) \<union> bs_chromium_id ` set (ps_sessions (bz_pool b)) \<union>
     \<Union> (thread_ids ` set (bz_threads b))"

definition in_flight :: "browser_sys \<Rightarrow> nat" where
  "in_flight b = count_where is_acquire (bz_threads b)"

definition empty_browser :: browser_sys where
  "empty_browser = \<lparr>bz_pool = \<lparr>ps_chromiums = [], ps_sessions = []\<rparr>, bz_threads = []\<rparr>"

inductive browser_step :: "browser_config \<Rightarrow> string \<Rightarrow> nat \<Rightarrow> browser_sys \<Rightarrow> browser_sys \<Rightarrow> bool"
  for config base k where
  reuse: "\<lbrakk>check_options config opts = None; in_flight b < k; pick_chromium config (bz_pool b) = Inr (Some c);
     uuid \<notin> bs_id ` set (ps_sessions (bz_pool b));
     bind_session base opts c uuid token now (bz_pool b) = Some (info, st')\<rbrakk>
   \<Longrightarrow> browser_step config base k b (b\<lparr>bz_pool := st'\<rparr>)"
| wait: "\<lbrakk>check_options config opts = None; in_flight b < k; pick_chromium config (bz_pool b) = Inr None\<rbrakk>
   \<Longrightarrow> browser_step config base k b (b\<lparr>bz_threads := bz_threads b @ [Launching opts]\<rparr>)"
| launched: "\<lbrakk>bz_threads b = xs @ Launching opts # ys; lc_id l \<notin> known_ids b\<rbrakk>
   \<Longrightarrow> browser_step config base k b
        \<lparr>bz_pool = push_chromium l tap now (bz_pool b), bz_threads = xs @ Binding opts (lc_id l) # ys\<rparr>"
| bound: "\<lbrakk>bz_threads b = xs @ Binding opts c # ys; uuid \<notin> bs_id ` set (ps_sessions (bz_pool b));
     bind_session base opts c uuid token now (bz_pool b) = Some (info, st')\<rbrakk>
   \<Longrightarrow> browser_step config base k b \<lparr>bz_pool = st', bz_threads = xs @ ys\<rparr>"
| gone: "bz_threads b = xs @ t # ys \<Longrightarrow> browser_step config base k b (b\<lparr>bz_threads := xs @ ys\<rparr>)"
| released: "remove_session sid touch (bz_pool b) = Some st' \<Longrightarrow> browser_step config base k b (b\<lparr>bz_pool := st'\<rparr>)"
| expired: "browser_step config base k b
     \<lparr>bz_pool = expire_sessions now touch (bz_pool b), bz_threads = bz_threads b @ [Sweeping now]\<rparr>"
| planned: "bz_threads b = xs @ Sweeping now # ys \<Longrightarrow> browser_step config base k b
     (b\<lparr>bz_threads := xs @ Recycling (decide (snapshots (bz_pool b)) (recycle_config_of config) now) # ys\<rparr>)"
| recycled: "bz_threads b = xs @ Recycling (p # ps) # ys \<Longrightarrow> browser_step config base k b
     \<lparr>bz_pool = snd (apply_plan p (r, bz_pool b)), bz_threads = xs @ Recycling ps # ys\<rparr>"

inductive_cases browser_stepE: "browser_step config base k b b'"

section \<open>Tokens compare by content\<close>

lemma byte_of_inj: "byte_of a = byte_of b \<longleftrightarrow> a = b"
proof
  assume "byte_of a = byte_of b"
  then have "(of_char a :: nat) mod 256 = of_char b mod 256"
    by (simp add: byte_of_def word_of_nat_eq_iff take_bit_eq_mod)
  moreover have "(of_char a :: nat) < 256" "(of_char b :: nat) < 256"
    by simp_all
  ultimately show "a = b" by simp
qed simp

lemma diff_zero:
  "foldl (\<lambda>diff (a, b). or diff (xor (byte_of a) (byte_of b))) d zs = 0 \<longleftrightarrow> d = 0 \<and> list_all (\<lambda>(a, b). a = b) zs"
proof (induction zs arbitrary: d)
  case (Cons z zs)
  have "xor (byte_of a) (byte_of b) = 0 \<longleftrightarrow> a = b" for a b
    using byte_of_inj [of a b] by (metis xor_self_eq word_bw_assocs(3) xor.right_neutral)
  then show ?case using Cons.IH by (cases z) (simp add: or_eq_0_iff)
qed simp

lemma zip_all_eq: "length xs = length ys \<Longrightarrow> list_all (\<lambda>(a, b). a = b) (zip xs ys) \<longleftrightarrow> xs = ys"
  by (induction xs ys rule: list_induct2) auto

section \<open>Updates by key\<close>

lemma update_first_key:
  "distinct (map k xs) \<Longrightarrow> update_first (\<lambda>x. k x = a) f xs = map (\<lambda>x. if k x = a then f x else x) xs"
proof (induction xs)
  case (Cons x xs)
  from Cons.prems have "\<forall>y \<in> set xs. k y \<noteq> k x" by (simp add: image_iff) metis
  then have "k x = a \<Longrightarrow> map (\<lambda>x. if k x = a then f x else x) xs = xs"
    by (intro map_idI) simp
  with Cons show ?case by auto
qed simp

lemma remove_first_key:
  "distinct (map k xs) \<Longrightarrow> remove_first (\<lambda>x. k x = a) xs = filter (\<lambda>x. k x \<noteq> a) xs"
proof (induction xs)
  case (Cons x xs)
  from Cons.prems have "\<forall>y \<in> set xs. k y \<noteq> k x" by (simp add: image_iff) metis
  then have "k x = a \<Longrightarrow> filter (\<lambda>x. k x \<noteq> a) xs = xs"
    by (intro filter_True) simp
  with Cons show ?case by auto
qed simp

section \<open>Accounting\<close>

definition on_chromium :: "string \<Rightarrow> pool_state \<Rightarrow> string list" where
  "on_chromium cid st = map bs_id (filter (\<lambda>s. bs_chromium_id s = cid) (ps_sessions st))"

definition pool_wf :: "pool_state \<Rightarrow> bool" where
  "pool_wf st \<longleftrightarrow> distinct (map ch_id (ps_chromiums st)) \<and> distinct (map bs_id (ps_sessions st)) \<and>
     (\<forall>c \<in> set (ps_chromiums st). ch_sessions c = on_chromium (ch_id c) st)"

lemma bind_effect:
  assumes "bind_session base opts cid uuid token now st = Some (info, st')" and "pool_wf st"
  shows "cid \<in> ch_id ` set (ps_chromiums st)"
    and "ps_chromiums st' = map (\<lambda>c. if ch_id c = cid
           then c\<lparr>ch_sessions := ch_sessions c @ [uuid], ch_last_active_at := now\<rparr> else c) (ps_chromiums st)"
    and "\<exists>s. ps_sessions st' = ps_sessions st @ [s] \<and> bs_info s = info \<and> si_id info = uuid \<and>
           bs_token s = token \<and> bs_chromium_id s = cid"
  using assms
  by (auto simp: bind_session_def Let_def session_of_def pool_wf_def update_first_key find_Some_iff
      split: option.splits)

lemma on_bind:
  assumes "bind_session base opts cid uuid token now st = Some (info, st')" and "pool_wf st"
  shows "on_chromium c st' = on_chromium c st @ (if c = cid then [uuid] else [])"
  using bind_effect(3) [OF assms] by (auto simp: on_chromium_def)

lemma wf_bind:
  assumes "bind_session base opts cid uuid token now st = Some (info, st')" and "pool_wf st"
    and "uuid \<notin> bs_id ` set (ps_sessions st)"
  shows "pool_wf st'"
  using assms(2,3) bind_effect(2,3) [OF assms(1,2)] on_bind [OF assms(1,2)]
  by (auto simp: pool_wf_def o_def if_distrib cong: if_cong)

lemma remove_effect:
  assumes "remove_session sid touch st = Some st'" and "pool_wf st"
  obtains r where "r \<in> set (ps_sessions st)" "bs_id r = sid"
    "ps_sessions st' = filter (\<lambda>s. bs_id s \<noteq> sid) (ps_sessions st)"
    "ps_chromiums st' = map (\<lambda>c. if ch_id c = bs_chromium_id r
       then c\<lparr>ch_sessions := filter (\<lambda>s. s \<noteq> sid) (ch_sessions c), ch_last_active_at := touch\<rparr> else c) (ps_chromiums st)"
proof -
  from assms(1) obtain r where r: "find (\<lambda>s. bs_id s = sid) (ps_sessions st) = Some r"
    by (auto simp: remove_session_def split: option.splits)
  with assms show ?thesis
    using find_SomeD [OF r]
    by (intro that [of r]) (auto simp: remove_session_def pool_wf_def update_first_key remove_first_key)
qed

lemma on_remove:
  assumes "remove_session sid touch st = Some st'" and "pool_wf st"
  shows "on_chromium c st' = filter (\<lambda>s. s \<noteq> sid) (on_chromium c st)"
  by (rule remove_effect [OF assms]) (simp add: on_chromium_def filter_map o_def conj_commute)

lemma wf_remove:
  assumes "remove_session sid touch st = Some st'" and "pool_wf st"
  shows "pool_wf st'"
proof (rule remove_effect [OF assms])
  fix r
  assume r: "r \<in> set (ps_sessions st)" "bs_id r = sid"
    and s: "ps_sessions st' = filter (\<lambda>s. bs_id s \<noteq> sid) (ps_sessions st)"
    and c: "ps_chromiums st' = map (\<lambda>c. if ch_id c = bs_chromium_id r
       then c\<lparr>ch_sessions := filter (\<lambda>s. s \<noteq> sid) (ch_sessions c), ch_last_active_at := touch\<rparr> else c) (ps_chromiums st)"
  have stay: "filter (\<lambda>s. s \<noteq> sid) (on_chromium i st) = on_chromium i st" if "i \<noteq> bs_chromium_id r" for i
  proof (rule filter_True, rule ballI)
    fix x
    assume "x \<in> set (on_chromium i st)"
    then obtain y where y: "y \<in> set (ps_sessions st)" "bs_chromium_id y = i" "bs_id y = x"
      by (auto simp: on_chromium_def)
    show "x \<noteq> sid"
    proof
      assume "x = sid"
      with assms(2) r y have "y = r" by (auto simp: pool_wf_def distinct_map inj_on_def)
      with y that show False by simp
    qed
  qed
  have ids: "map ch_id (ps_chromiums st') = map ch_id (ps_chromiums st)"
    by (simp add: c)
  have "\<forall>x \<in> set (ps_chromiums st'). ch_sessions x = on_chromium (ch_id x) st'"
    using assms(2) stay by (auto simp: on_remove [OF assms] c pool_wf_def)
  then show ?thesis
    using assms(2) by (simp add: pool_wf_def ids s distinct_map_filter)
qed

text \<open>What releasing sessions leaves of a Chromium: all but its sessions and its last activity.\<close>
definition core :: "chromium \<Rightarrow> launched_chromium \<times> chromium_state \<times> instant \<times> nat" where
  "core c = (ch_chromium c, ch_state c, ch_created_at c, ch_tap c)"

lemma core_ids: "map core cs = map core cs' \<Longrightarrow> map ch_id cs = map ch_id cs'"
proof -
  have "map ch_id cs = map (lc_id \<circ> fst) (map core cs)" for cs
    by (simp add: core_def o_def)
  then show "map core cs = map core cs' \<Longrightarrow> map ch_id cs = map ch_id cs'" by metis
qed

lemma remove_if_there_effect:
  assumes "pool_wf st"
  shows "pool_wf (remove_if_there touch sid st)"
    and "ps_sessions (remove_if_there touch sid st) = filter (\<lambda>s. bs_id s \<noteq> sid) (ps_sessions st)"
    and "map core (ps_chromiums (remove_if_there touch sid st)) = map core (ps_chromiums st)"
proof -
  have "pool_wf (remove_if_there touch sid st) \<and>
    ps_sessions (remove_if_there touch sid st) = filter (\<lambda>s. bs_id s \<noteq> sid) (ps_sessions st) \<and>
    map core (ps_chromiums (remove_if_there touch sid st)) = map core (ps_chromiums st)"
  proof (cases "remove_session sid touch st")
    case None
    then have "find (\<lambda>s. bs_id s = sid) (ps_sessions st) = None"
      by (auto simp: remove_session_def split: option.splits)
    with None assms show ?thesis
      by (simp add: remove_if_there_def find_None_iff)
  next
    case (Some st')
    then have there: "remove_if_there touch sid st = st'" by (simp add: remove_if_there_def)
    show ?thesis
    proof (rule remove_effect [OF Some assms])
      fix r
      assume "ps_sessions st' = filter (\<lambda>s. bs_id s \<noteq> sid) (ps_sessions st)"
        and "ps_chromiums st' = map (\<lambda>c. if ch_id c = bs_chromium_id r
          then c\<lparr>ch_sessions := filter (\<lambda>s. s \<noteq> sid) (ch_sessions c), ch_last_active_at := touch\<rparr> else c) (ps_chromiums st)"
      then show ?thesis using wf_remove [OF Some assms] by (simp add: there core_def)
    qed
  qed
  then show "pool_wf (remove_if_there touch sid st)"
    and "ps_sessions (remove_if_there touch sid st) = filter (\<lambda>s. bs_id s \<noteq> sid) (ps_sessions st)"
    and "map core (ps_chromiums (remove_if_there touch sid st)) = map core (ps_chromiums st)" by auto
qed

lemma remove_all_effect:
  assumes "pool_wf st"
  shows "pool_wf (fold (remove_if_there touch) ids st) \<and>
    ps_sessions (fold (remove_if_there touch) ids st) = filter (\<lambda>s. bs_id s \<notin> set ids) (ps_sessions st) \<and>
    map core (ps_chromiums (fold (remove_if_there touch) ids st)) = map core (ps_chromiums st)"
  using assms
proof (induction ids arbitrary: st)
  case (Cons i ids)
  from Cons.IH [OF remove_if_there_effect(1) [OF Cons.prems]] show ?case
    by (simp add: remove_if_there_effect(2,3) [OF Cons.prems] conj_commute)
qed simp

lemma expire_effect:
  assumes "pool_wf st"
  shows "pool_wf (expire_sessions now touch st)"
    and "ps_sessions (expire_sessions now touch st) = filter (\<lambda>s. now < si_expires_at (bs_info s)) (ps_sessions st)"
    and "map core (ps_chromiums (expire_sessions now touch st)) = map core (ps_chromiums st)"
proof -
  have "filter (\<lambda>s. bs_id s \<notin> set (expired_ids now st)) (ps_sessions st) =
    filter (\<lambda>s. now < si_expires_at (bs_info s)) (ps_sessions st)"
  proof (rule filter_cong [OF refl])
    fix s
    assume "s \<in> set (ps_sessions st)"
    with assms have "bs_id s \<in> set (expired_ids now st) \<longleftrightarrow> si_expires_at (bs_info s) \<le> now"
      by (auto simp: expired_ids_def pool_wf_def distinct_map inj_on_def)
    then show "(bs_id s \<notin> set (expired_ids now st)) = (now < si_expires_at (bs_info s))" by auto
  qed
  then show "pool_wf (expire_sessions now touch st)"
    and "ps_sessions (expire_sessions now touch st) = filter (\<lambda>s. now < si_expires_at (bs_info s)) (ps_sessions st)"
    and "map core (ps_chromiums (expire_sessions now touch st)) = map core (ps_chromiums st)"
    using remove_all_effect [OF assms] by (auto simp: expire_sessions_def)
qed

lemma wf_push:
  assumes "pool_wf st" and "lc_id l \<notin> ch_id ` set (ps_chromiums st)" "lc_id l \<notin> bs_chromium_id ` set (ps_sessions st)"
  shows "pool_wf (push_chromium l tap now st)"
proof -
  have "on_chromium (lc_id l) st = []"
    using assms(3) by (simp add: on_chromium_def filter_empty_conv image_iff) metis
  then show ?thesis
    using assms(1,2) by (auto simp: pool_wf_def push_chromium_def on_chromium_def)
qed

lemma plan_effect:
  assumes "pool_wf st"
  shows "pool_wf (snd (apply_plan p (r, st)))"
    and "ps_sessions (snd (apply_plan p (r, st))) = ps_sessions st"
    and "ps_chromiums (snd (apply_plan p (r, st))) = (case p of
        Drain i _ \<Rightarrow> map (\<lambda>c. if ch_id c = i then ch_state_update (\<lambda>_. Chr_Draining) c else c) (ps_chromiums st)
      | Kill i _ \<Rightarrow> filter (\<lambda>c. ch_id c \<noteq> i) (ps_chromiums st))"
proof -
  have *: "\<not> has_chromium i st \<Longrightarrow> c \<in> set (ps_chromiums st) \<Longrightarrow> ch_id c \<noteq> i" for i c
    by (auto simp: has_chromium_def list_ex_iff)
  show ch: "ps_chromiums (snd (apply_plan p (r, st))) = (case p of
        Drain i _ \<Rightarrow> map (\<lambda>c. if ch_id c = i then ch_state_update (\<lambda>_. Chr_Draining) c else c) (ps_chromiums st)
      | Kill i _ \<Rightarrow> filter (\<lambda>c. ch_id c \<noteq> i) (ps_chromiums st))"
    using assms *
    by (cases p) (auto simp: pool_wf_def update_first_key remove_first_key intro!: map_idI [symmetric] filter_True [symmetric])
  show ss: "ps_sessions (snd (apply_plan p (r, st))) = ps_sessions st"
    by (cases p) auto
  have "\<forall>c \<in> set (ps_chromiums (snd (apply_plan p (r, st)))). ch_sessions c = on_chromium (ch_id c) st"
    using assms unfolding ch by (cases p) (auto simp: pool_wf_def)
  moreover have "map ch_id (ps_chromiums (snd (apply_plan p (r, st)))) = (case p of
        Drain i _ \<Rightarrow> map ch_id (ps_chromiums st) | Kill i _ \<Rightarrow> filter (\<lambda>x. x \<noteq> i) (map ch_id (ps_chromiums st)))"
    unfolding ch by (cases p) (simp_all add: filter_map o_def if_distrib cong: if_cong)
  then have "distinct (map ch_id (ps_chromiums (snd (apply_plan p (r, st)))))"
    using assms by (cases p) (simp_all add: pool_wf_def)
  ultimately show "pool_wf (snd (apply_plan p (r, st)))"
    using assms unfolding pool_wf_def on_chromium_def ss by blast
qed

section \<open>Bounds under interleaving\<close>

fun is_launching :: "thread \<Rightarrow> bool" where
  "is_launching (Launching _) = True"
| "is_launching _ = False"

fun is_binding :: "string \<Rightarrow> thread \<Rightarrow> bool" where
  "is_binding c (Binding _ c') = (c' = c)"
| "is_binding c _ = False"

definition sys_inv :: "browser_config \<Rightarrow> nat \<Rightarrow> browser_sys \<Rightarrow> bool" where
  "sys_inv config k b \<longleftrightarrow> pool_wf (bz_pool b) \<and> in_flight b \<le> k \<and>
     length (ps_chromiums (bz_pool b)) + count_where is_launching (bz_threads b) < unat (bw_pool_max config) + k \<and>
     (\<forall>c. length (on_chromium c (bz_pool b)) + count_where (is_binding c) (bz_threads b)
        < max 1 (unat (bw_contexts_per_chromium_max config)) + k)"

lemma count_where_mono: "(\<And>x. p x \<Longrightarrow> q x) \<Longrightarrow> count_where p xs \<le> count_where q xs"
  by (induction xs) auto

lemma launching_le: "count_where is_launching ts \<le> count_where is_acquire ts"
  by (rule count_where_mono) (auto elim: is_launching.elims)

lemma binding_le: "count_where (is_binding c) ts \<le> count_where is_acquire ts"
  by (rule count_where_mono) (auto elim: is_binding.elims)

lemma len_u32_unat: "length xs < 2 ^ 32 \<Longrightarrow> unat (len_u32 xs) = length xs"
  by (simp add: len_u32_def unat_of_nat take_bit_nat_eq_self)

lemma warmest_room:
  assumes "pick_chromium config st = Inr (Some cid)" and "pool_wf st"
  shows "len_u32 (on_chromium cid st) < bw_contexts_per_chromium_max config"
    and "\<exists>c \<in> set (ps_chromiums st). ch_id c = cid \<and> ch_state c = Chr_Active"
proof -
  from assms(1) obtain i c where ic: "ps_chromiums st ! i = c \<or> True" "cid = ch_id (ps_chromiums st ! i)"
    "max_by_key (\<lambda>(_, c). length (ch_sessions c)) (filter (\<lambda>(_, c). ch_state c = Chr_Active \<and>
       len_u32 (ch_sessions c) < bw_contexts_per_chromium_max config) (enumerate 0 (ps_chromiums st))) = Some (i, c)"
    by (auto simp: pick_chromium_def find_warmest_def split: option.splits if_splits)
  from max_by_key_max [OF ic(3)] have c: "(i, c) \<in> set (enumerate 0 (ps_chromiums st))" "ch_state c = Chr_Active"
    "len_u32 (ch_sessions c) < bw_contexts_per_chromium_max config" by auto
  then have "i < length (ps_chromiums st)" "ps_chromiums st ! i = c"
    by (auto simp: in_set_enumerate_eq)
  then have m: "c \<in> set (ps_chromiums st)" "ch_id c = cid" using ic(2) by auto
  show "\<exists>c \<in> set (ps_chromiums st). ch_id c = cid \<and> ch_state c = Chr_Active" using m c(2) by auto
  show "len_u32 (on_chromium cid st) < bw_contexts_per_chromium_max config"
    using m c(3) assms(2) by (auto simp: pool_wf_def)
qed

lemma pick_wait:
  assumes "pick_chromium config st = Inr None" shows "len_u32 (ps_chromiums st) < bw_pool_max config"
  using assms by (auto simp: pick_chromium_def not_le split: option.splits if_splits)

lemma length_filter_twice: "length (filter p (filter q xs)) \<le> length (filter p xs)"
  by (induction xs) auto

lemma sys_inv_step:
  assumes step: "browser_step config base k b b'" and inv: "sys_inv config k b"
    and small: "unat (bw_pool_max config) + k < 2 ^ 32" "max 1 (unat (bw_contexts_per_chromium_max config)) + k < 2 ^ 32"
  shows "sys_inv config k b'"
proof -
  have wf: "pool_wf (bz_pool b)" and fl: "in_flight b \<le> k" and
    len: "length (ps_chromiums (bz_pool b)) + count_where is_launching (bz_threads b) < unat (bw_pool_max config) + k" and
    ses: "\<And>c. length (on_chromium c (bz_pool b)) + count_where (is_binding c) (bz_threads b)
        < max 1 (unat (bw_contexts_per_chromium_max config)) + k"
    using inv by (auto simp: sys_inv_def)
  have keep: "length (on_chromium c st') + count_where (is_binding c) (bz_threads b)
      < max 1 (unat (bw_contexts_per_chromium_max config)) + k"
    if "length (on_chromium c st') \<le> length (on_chromium c (bz_pool b))" for c st'
    using ses [of c] that by linarith
  from step show ?thesis
  proof cases
    case (reuse opts c uuid token now info st')
    have "length (on_chromium c (bz_pool b)) < unat (bw_contexts_per_chromium_max config)"
      using warmest_room(1) [OF reuse(4) wf] ses [of c] small(2)
      by (simp add: word_less_nat_alt len_u32_unat)
    moreover have "count_where (is_binding c) (bz_threads b) < k"
      using binding_le [of c "bz_threads b"] reuse(3) by (simp add: in_flight_def)
    ultimately show ?thesis
      using wf_bind [OF reuse(6) wf reuse(5)] fl len ses
      by (auto simp: reuse(1) sys_inv_def in_flight_def bind_effect(2) [OF reuse(6) wf] on_bind [OF reuse(6) wf])
  next
    case (wait opts)
    have "length (ps_chromiums (bz_pool b)) < unat (bw_pool_max config)"
      using pick_wait [OF wait(4)] len small(1) by (simp add: word_less_nat_alt len_u32_unat)
    moreover have "count_where is_launching (bz_threads b) < k"
      using launching_le [of "bz_threads b"] wait(3) by (simp add: in_flight_def)
    ultimately show ?thesis
      using wf wait(3) ses by (simp add: wait(1) sys_inv_def in_flight_def)
  next
    case (launched xs opts ys l tap now)
    have fresh: "lc_id l \<notin> ch_id ` set (ps_chromiums (bz_pool b))"
      "lc_id l \<notin> bs_chromium_id ` set (ps_sessions (bz_pool b))"
      "\<And>t. t \<in> set (bz_threads b) \<Longrightarrow> \<not> is_binding (lc_id l) t"
      using launched(3) by (auto simp: known_ids_def elim!: is_binding.elims)
    then have "count_where (is_binding (lc_id l)) (bz_threads b) = 0"
      by (simp add: count_where_0)
    moreover have "on_chromium (lc_id l) (bz_pool b) = []"
      using fresh(2) by (simp add: on_chromium_def filter_empty_conv image_iff) metis
    moreover have "on_chromium c (push_chromium l tap now (bz_pool b)) = on_chromium c (bz_pool b)" for c
      by (simp add: on_chromium_def push_chromium_def)
    moreover have "0 < k" using fl launched(2) by (simp add: in_flight_def)
    ultimately show ?thesis
      using wf_push [OF wf fresh(1,2)] fl len ses launched(2)
      by (auto simp: launched(1) sys_inv_def in_flight_def push_chromium_def)
  next
    case (bound xs opts c ys uuid token now info st')
    have "length (on_chromium x st') + count_where (is_binding x) (xs @ ys)
        < max 1 (unat (bw_contexts_per_chromium_max config)) + k" for x
      using ses [of x] bound(2) by (cases "x = c") (simp_all add: on_bind [OF bound(4) wf])
    then show ?thesis
      using wf_bind [OF bound(4) wf bound(3)] fl len bound(2)
      by (simp add: bound(1) sys_inv_def in_flight_def bind_effect(2) [OF bound(4) wf])
  next
    case (gone xs t ys)
    have le: "count_where p (xs @ ys) \<le> count_where p (bz_threads b)" for p
      by (simp add: gone(2))
    have "length (on_chromium c (bz_pool b)) + count_where (is_binding c) (xs @ ys)
        < max 1 (unat (bw_contexts_per_chromium_max config)) + k" for c
      using ses [of c] le [of "is_binding c"] by linarith
    then show ?thesis
      using wf fl len le [of is_acquire] le [of is_launching] by (simp add: gone(1) sys_inv_def in_flight_def)
  next
    case (released sid touch st')
    have "length (ps_chromiums st') = length (ps_chromiums (bz_pool b))"
      by (rule remove_effect [OF released(2) wf]) simp
    moreover have "length (on_chromium c st') \<le> length (on_chromium c (bz_pool b))" for c
      by (simp add: on_remove [OF released(2) wf])
    ultimately show ?thesis
      using wf_remove [OF released(2) wf] fl len ses
      by (simp add: released(1) sys_inv_def in_flight_def keep [simplified])
  next
    case (expired now touch)
    have "length (ps_chromiums (expire_sessions now touch (bz_pool b))) = length (ps_chromiums (bz_pool b))"
      using expire_effect(3) [OF wf] by (metis length_map)
    moreover have "length (on_chromium c (expire_sessions now touch (bz_pool b))) \<le> length (on_chromium c (bz_pool b))" for c
      by (simp only: on_chromium_def expire_effect(2) [OF wf] length_map length_filter_twice)
    ultimately show ?thesis
      using expire_effect(1) [OF wf] fl len ses
      by (simp add: expired(1) sys_inv_def in_flight_def keep [simplified])
  next
    case (planned xs now ys)
    show ?thesis
      using wf fl len ses planned(2) by (simp add: planned(1) sys_inv_def in_flight_def)
  next
    case (recycled xs p ps ys r)
    have "length (ps_chromiums (snd (apply_plan p (r, bz_pool b)))) \<le> length (ps_chromiums (bz_pool b))"
      unfolding plan_effect(3) [OF wf] by (cases p) auto
    moreover have "on_chromium c (snd (apply_plan p (r, bz_pool b))) = on_chromium c (bz_pool b)" for c
      by (simp add: on_chromium_def plan_effect(2) [OF wf])
    ultimately show ?thesis
      using plan_effect(1) [OF wf] fl len ses recycled(2) by (auto simp: recycled(1) sys_inv_def in_flight_def)
  qed
qed

section \<open>A sweep without interruption\<close>

definition snapshot_of :: "chromium \<Rightarrow> chromium_snapshot" where
  "snapshot_of c = \<lparr>sn_id = ch_id c, sn_state = ch_state c, sn_created_at = ch_created_at c,
     sn_last_active_at = ch_last_active_at c, sn_active_sessions = len_u32 (ch_sessions c)\<rparr>"

text \<open>What the policy leaves of one Chromium.\<close>
definition survivor :: "recycle_config \<Rightarrow> instant \<Rightarrow> chromium \<Rightarrow> chromium option" where
  "survivor cfg now c =
     (case decide_one cfg now (snapshot_of c) of
        None \<Rightarrow> Some c
      | Some (Drain _ _) \<Rightarrow> Some (ch_state_update (\<lambda>_. Chr_Draining) c)
      | Some (Kill _ _) \<Rightarrow> None)"

lemma plan_id_decide: "decide_one cfg now s = Some p \<Longrightarrow> plan_id p = sn_id s"
  by (auto simp: decide_one_def Let_def split: if_splits)

lemma first_after:
  assumes "\<forall>x \<in> set pre. \<not> p x" and "p c"
  shows "update_first p f (pre @ c # cs) = pre @ f c # cs" "remove_first p (pre @ c # cs) = pre @ cs"
  using assms by (induction pre) auto

lemma apply_plans:
  assumes "ps_chromiums st = pre @ cs" and "distinct (map ch_id (pre @ cs))"
  shows "ps_chromiums (snd (fold apply_plan (decide (map snapshot_of cs) cfg now) (r, st))) =
      pre @ List.map_filter (survivor cfg now) cs \<and>
    ps_sessions (snd (fold apply_plan (decide (map snapshot_of cs) cfg now) (r, st))) = ps_sessions st"
  using assms
proof (induction cs arbitrary: pre r st)
  case Nil
  then show ?case by (simp add: map_filter_simps)
next
  case (Cons c cs)
  show ?case
  proof (cases "decide_one cfg now (snapshot_of c)")
    case None
    then show ?thesis
      using Cons.IH [of st "pre @ [c]"] Cons.prems by (simp add: survivor_def map_filter_simps)
  next
    case (Some p)
    have i: "plan_id p = ch_id c" using plan_id_decide [OF Some] by (simp add: snapshot_of_def)
    have here: "has_chromium (ch_id c) st" using Cons.prems(1) by (simp add: has_chromium_def)
    have away: "\<forall>x \<in> set pre. ch_id x \<noteq> ch_id c" using Cons.prems(2) by (auto simp: image_iff)
    note first = first_after [of pre "\<lambda>x. ch_id x = ch_id c", OF away refl]
    show ?thesis
    proof (cases p)
      case (Drain j why)
      then show ?thesis
        using Cons.IH [of "snd (apply_plan p (r, st))" "pre @ [ch_state_update (\<lambda>_. Chr_Draining) c]"
            "fst (apply_plan p (r, st))"] Cons.prems i here first Some
        by (simp add: survivor_def map_filter_simps)
    next
      case (Kill j why)
      then show ?thesis
        using Cons.IH [of "snd (apply_plan p (r, st))" pre "fst (apply_plan p (r, st))"] Cons.prems i here first Some
        by (simp add: survivor_def map_filter_simps)
    qed
  qed
qed

lemma sweep_effect:
  assumes "pool_wf st"
  shows "ps_chromiums (snd (sweep config now touch st)) =
      List.map_filter (survivor (recycle_config_of config) now) (ps_chromiums (expire_sessions now touch st))"
    and "ps_sessions (snd (sweep config now touch st)) = filter (\<lambda>s. now < si_expires_at (bs_info s)) (ps_sessions st)"
proof -
  have "snapshots st' = map snapshot_of (ps_chromiums st')" for st'
    by (simp add: snapshots_def snapshot_of_def)
  moreover note apply_plans [of "expire_sessions now touch st" "[]" "ps_chromiums (expire_sessions now touch st)"
      "recycle_config_of config" now]
  ultimately show "ps_chromiums (snd (sweep config now touch st)) =
      List.map_filter (survivor (recycle_config_of config) now) (ps_chromiums (expire_sessions now touch st))"
    and "ps_sessions (snd (sweep config now touch st)) = filter (\<lambda>s. now < si_expires_at (bs_info s)) (ps_sessions st)"
    using expire_effect(1) [OF assms] by (simp_all add: sweep_def Let_def expire_effect(2) [OF assms] pool_wf_def)
qed

lemma survivor_id: "survivor cfg now c = Some c' \<Longrightarrow> ch_id c' = ch_id c"
  by (auto simp: survivor_def split: option.splits recycle_plan.splits)

lemma len_u32_0: "length xs < 2 ^ 32 \<Longrightarrow> len_u32 xs = 0 \<longleftrightarrow> xs = []"
  by (metis len_u32_unat length_0_conv unat_eq_zero)

lemma swept_chromium:
  assumes wf: "pool_wf st" and c: "c \<in> set (ps_chromiums st)" and small: "length (on_chromium (ch_id c) st) < 2 ^ 32"
    and st': "st' = snd (sweep config now touch st)"
  obtains c1 where "core c1 = core c" "ch_sessions c1 = on_chromium (ch_id c) st'"
    "length (ch_sessions c1) < 2 ^ 32"
    "c1 \<in> set (ps_chromiums (expire_sessions now touch st))"
    "ch_id c \<in> ch_id ` set (ps_chromiums st') \<longleftrightarrow> survivor (recycle_config_of config) now c1 \<noteq> None"
    "\<And>c2. c2 \<in> set (ps_chromiums st') \<Longrightarrow> ch_id c2 = ch_id c \<Longrightarrow> survivor (recycle_config_of config) now c1 = Some c2"
proof -
  let ?e = "expire_sessions now touch st"
  note e = expire_effect [OF wf, of now touch]
  from c e(3) have "core c \<in> set (map core (ps_chromiums ?e))" by simp
  then obtain c1 where c1: "c1 \<in> set (ps_chromiums ?e)" "core c1 = core c" by auto
  then have i: "ch_id c1 = ch_id c" by (simp add: core_def)
  have on: "on_chromium x st' = on_chromium x ?e" for x
    by (simp add: on_chromium_def st' sweep_effect(2) [OF wf] e(2))
  have s: "ch_sessions c1 = on_chromium (ch_id c) st'"
    using e(1) c1(1) i by (simp add: pool_wf_def on)
  have "length (ch_sessions c1) \<le> length (on_chromium (ch_id c) st)"
    unfolding s on_chromium_def length_map st' sweep_effect(2) [OF wf] by (rule length_filter_twice)
  moreover have "survivor (recycle_config_of config) now c1 = Some c2"
    if "c2 \<in> set (ps_chromiums st')" "ch_id c2 = ch_id c" for c2
  proof -
    from that(1) obtain c3 where c3: "c3 \<in> set (ps_chromiums ?e)" "survivor (recycle_config_of config) now c3 = Some c2"
      by (auto simp: st' sweep_effect(1) [OF wf] List.map_filter_def)
    with that(2) i survivor_id have "ch_id c3 = ch_id c1" by metis
    with e(1) c1(1) c3(1) have "c3 = c1" by (auto simp: pool_wf_def distinct_map inj_on_def)
    with c3(2) show ?thesis by simp
  qed
  moreover have "ch_id c \<in> ch_id ` set (ps_chromiums st')"
    if "survivor (recycle_config_of config) now c1 = Some c2" for c2
    using that c1(1) i survivor_id [OF that]
    by (auto simp: st' sweep_effect(1) [OF wf] List.map_filter_def image_iff intro!: bexI [of _ c1])
  ultimately show ?thesis
    using c1 s small by (intro that [of c1]) (auto simp: image_iff)
qed

lemma sys_inv_init: "0 < k \<Longrightarrow> sys_inv config k empty_browser"
  by (simp add: sys_inv_def empty_browser_def pool_wf_def on_chromium_def in_flight_def)

lemma sys_inv_reachable:
  assumes "(browser_step config base k)\<^sup>*\<^sup>* empty_browser b" and "0 < k"
    and "unat (bw_pool_max config) + k < 2 ^ 32" "max 1 (unat (bw_contexts_per_chromium_max config)) + k < 2 ^ 32"
  shows "sys_inv config k b"
  using assms(1)
  by (induction rule: rtranclp_induct) (auto intro: sys_inv_init [OF assms(2)] sys_inv_step [OF _ _ assms(3,4)])

section \<open>Properties\<close>

text \<open>Tokens are compared in constant time, which is equality of their texts.\<close>
theorem verify_is_equality: "verify actual expected = (actual = expected)"
  by (auto simp: verify_def diff_zero zip_all_eq)

text \<open>C15: However requests, sweeps and cancellations interleave, every Chromium lists exactly the sessions bound to it, in
  order, ids are unique, and with at most k acquires in flight the configured limits are exceeded by at most k - 1.\<close>
theorem pool_accounting:
  assumes "(browser_step config base k)\<^sup>*\<^sup>* empty_browser b" and "0 < k"
    and "unat (bw_pool_max config) + k < 2 ^ 32" "max 1 (unat (bw_contexts_per_chromium_max config)) + k < 2 ^ 32"
  shows "distinct (map ch_id (ps_chromiums (bz_pool b))) \<and> distinct (map bs_id (ps_sessions (bz_pool b))) \<and>
    length (ps_chromiums (bz_pool b)) < unat (bw_pool_max config) + k \<and>
    (\<forall>c \<in> set (ps_chromiums (bz_pool b)). length (ch_sessions c) < max 1 (unat (bw_contexts_per_chromium_max config)) + k \<and>
       ch_sessions c = map bs_id (filter (\<lambda>s. bs_chromium_id s = ch_id c) (ps_sessions (bz_pool b))))"
proof -
  have "sys_inv config k b" by (rule sys_inv_reachable [OF assms])
  then have wf: "pool_wf (bz_pool b)"
    and len: "length (ps_chromiums (bz_pool b)) < unat (bw_pool_max config) + k"
    and ses: "\<And>c. length (on_chromium c (bz_pool b)) < max 1 (unat (bw_contexts_per_chromium_max config)) + k"
    unfolding sys_inv_def by (auto elim!: allE intro: le_less_trans [OF le_add1])
  from wf have "ch_sessions c = on_chromium (ch_id c) (bz_pool b)" if "c \<in> set (ps_chromiums (bz_pool b))" for c
    using that by (simp add: pool_wf_def)
  with wf len ses show ?thesis
    by (auto simp: pool_wf_def on_chromium_def)
qed

text \<open>A sweep that is not interrupted drops exactly the expired sessions, never a Chromium that still has one, drains every
  Chromium past its age and kills a drained or aged one as soon as its last session is gone.\<close>
theorem sweep_retires:
  assumes "(browser_step config base k)\<^sup>*\<^sup>* empty_browser b" and "0 < k"
    and "unat (bw_pool_max config) + k < 2 ^ 32" "max 1 (unat (bw_contexts_per_chromium_max config)) + k < 2 ^ 32"
    and st: "st = bz_pool b" and c: "c \<in> set (ps_chromiums st)" and st': "st' = snd (sweep config now touch st)"
    and aged: "aged \<longleftrightarrow> ch_state c = Chr_Draining \<or>
      bw_recycle_max_age_seconds config \<le> whole_seconds (now - ch_created_at c)"
  shows "ps_sessions st' = filter (\<lambda>s. now < si_expires_at (bs_info s)) (ps_sessions st) \<and>
    ((\<exists>s \<in> set (ps_sessions st'). bs_chromium_id s = ch_id c) \<longrightarrow> ch_id c \<in> ch_id ` set (ps_chromiums st')) \<and>
    (aged \<and> ch_id c \<in> ch_id ` set (ps_chromiums st') \<longrightarrow> (\<exists>s \<in> set (ps_sessions st'). bs_chromium_id s = ch_id c)) \<and>
    (\<forall>c' \<in> set (ps_chromiums st'). aged \<and> ch_id c' = ch_id c \<longrightarrow> ch_state c' = Chr_Draining)"
proof -
  have inv: "sys_inv config k b" by (rule sys_inv_reachable [OF assms(1-4)])
  then have wf: "pool_wf st" and "length (on_chromium (ch_id c) st) < 2 ^ 32"
    using assms(4) by (auto simp: st sys_inv_def elim!: allE [of _ "ch_id c"])
  from swept_chromium [OF wf c this(2) st'] obtain c1 where
    c1: "core c1 = core c" "ch_sessions c1 = on_chromium (ch_id c) st'" "length (ch_sessions c1) < 2 ^ 32"
    and alive: "ch_id c \<in> ch_id ` set (ps_chromiums st') \<longleftrightarrow> survivor (recycle_config_of config) now c1 \<noteq> None"
    and left: "\<And>c2. c2 \<in> set (ps_chromiums st') \<Longrightarrow> ch_id c2 = ch_id c \<Longrightarrow> survivor (recycle_config_of config) now c1 = Some c2"
    by metis
  have some: "(\<exists>s \<in> set (ps_sessions st'). bs_chromium_id s = ch_id c) \<longleftrightarrow> ch_sessions c1 \<noteq> []"
    by (auto simp: c1(2) on_chromium_def filter_empty_conv)
  have dec: "survivor (recycle_config_of config) now c1 =
      (if aged then if ch_sessions c1 = [] then None else Some (ch_state_update (\<lambda>_. Chr_Draining) c1)
       else if ch_sessions c1 = [] \<and> bw_recycle_idle_seconds config \<le> whole_seconds (now - ch_last_active_at c1)
       then None else Some c1)"
    using c1(1) len_u32_0 [OF c1(3)]
    by (cases "ch_state c") (auto simp: aged survivor_def decide_one_def snapshot_of_def core_def recycle_config_of_def Let_def)
  have "ps_sessions st' = filter (\<lambda>s. now < si_expires_at (bs_info s)) (ps_sessions st)"
    by (simp add: st' sweep_effect(2) [OF wf])
  moreover have "ch_sessions c1 \<noteq> [] \<longrightarrow> survivor (recycle_config_of config) now c1 \<noteq> None"
    "aged \<and> survivor (recycle_config_of config) now c1 \<noteq> None \<longrightarrow> ch_sessions c1 \<noteq> []"
    by (simp_all add: dec)
  moreover have "ch_state c' = Chr_Draining" if "c' \<in> set (ps_chromiums st')" "aged" "ch_id c' = ch_id c" for c'
    using left [OF that(1,3)] that(2) by (auto simp: dec split: if_splits)
  ultimately show ?thesis
    unfolding some alive by blast
qed

text \<open>A run with the default configuration and one acquire in flight: a session opens a Chromium and is released, the
  sweep plans to kill the idle Chromium, a second session lands on it, and the plan is carried out.\<close>
definition sample_launched :: launched_chromium where
  "sample_launched = \<lparr>lc_id = ''c1'', lc_browser_ws_url = ''ws://127.0.0.1:1'', lc_version = ''Chrome/1''\<rparr>"

definition sample_chromium :: "string list \<Rightarrow> instant \<Rightarrow> chromium" where
  "sample_chromium ses last_active = \<lparr>ch_chromium = sample_launched, ch_state = Chr_Active, ch_created_at = 0,
     ch_last_active_at = last_active, ch_sessions = ses, ch_tap = 0\<rparr>"

definition sample_session :: "string \<Rightarrow> instant \<Rightarrow> session_record" where
  "sample_session sid now = \<lparr>bs_info = session_of ''ws:'' default_session_options sid ''t'' now (sample_chromium [] 0),
     bs_token = ''t'', bs_chromium_id = ''c1'', bs_tap = 0\<rparr>"

definition sample_sys :: "chromium list \<Rightarrow> session_record list \<Rightarrow> thread list \<Rightarrow> browser_sys" where
  "sample_sys cs ss ts = \<lparr>bz_pool = \<lparr>ps_chromiums = cs, ps_sessions = ss\<rparr>, bz_threads = ts\<rparr>"

lemmas sample_defs = sample_launched_def sample_chromium_def sample_session_def sample_sys_def
  empty_browser_def default_session_options_def default_recording_def default_browser_config_def session_of_def

text \<open>The rules with the state they lead to as an equation, for concrete runs.\<close>
lemma wait_to:
  "\<lbrakk>check_options config opts = None; in_flight b < k; pick_chromium config (bz_pool b) = Inr None;
     b' = b\<lparr>bz_threads := bz_threads b @ [Launching opts]\<rparr>\<rbrakk> \<Longrightarrow> browser_step config base k b b'"
  by (simp add: browser_step.wait)

lemma launched_to:
  "\<lbrakk>bz_threads b = xs @ Launching opts # ys; lc_id l \<notin> known_ids b;
     b' = \<lparr>bz_pool = push_chromium l tap now (bz_pool b), bz_threads = xs @ Binding opts (lc_id l) # ys\<rparr>\<rbrakk>
   \<Longrightarrow> browser_step config base k b b'"
  by (simp add: browser_step.launched)

lemma bound_to:
  "\<lbrakk>bz_threads b = xs @ Binding opts c # ys; uuid \<notin> bs_id ` set (ps_sessions (bz_pool b));
     bind_session base opts c uuid token now (bz_pool b) = Some (info, st'); b' = \<lparr>bz_pool = st', bz_threads = xs @ ys\<rparr>\<rbrakk>
   \<Longrightarrow> browser_step config base k b b'"
  by (simp add: browser_step.bound)

lemma reuse_to:
  "\<lbrakk>check_options config opts = None; in_flight b < k; pick_chromium config (bz_pool b) = Inr (Some c);
     uuid \<notin> bs_id ` set (ps_sessions (bz_pool b));
     bind_session base opts c uuid token now (bz_pool b) = Some (info, st'); b' = b\<lparr>bz_pool := st'\<rparr>\<rbrakk>
   \<Longrightarrow> browser_step config base k b b'"
  by (simp add: browser_step.reuse)

lemma released_to:
  "\<lbrakk>remove_session sid touch (bz_pool b) = Some st'; b' = b\<lparr>bz_pool := st'\<rparr>\<rbrakk> \<Longrightarrow> browser_step config base k b b'"
  by (simp add: browser_step.released)

lemma expired_to:
  "b' = \<lparr>bz_pool = expire_sessions now touch (bz_pool b), bz_threads = bz_threads b @ [Sweeping now]\<rparr>
   \<Longrightarrow> browser_step config base k b b'"
  by (simp add: browser_step.expired)

lemma planned_to:
  "\<lbrakk>bz_threads b = xs @ Sweeping now # ys;
     b' = b\<lparr>bz_threads := xs @ Recycling (decide (snapshots (bz_pool b)) (recycle_config_of config) now) # ys\<rparr>\<rbrakk>
   \<Longrightarrow> browser_step config base k b b'"
  by (simp add: browser_step.planned)

lemma recycled_to:
  "\<lbrakk>bz_threads b = xs @ Recycling (p # ps) # ys;
     b' = \<lparr>bz_pool = snd (apply_plan p (r, bz_pool b)), bz_threads = xs @ Recycling ps # ys\<rparr>\<rbrakk>
   \<Longrightarrow> browser_step config base k b b'"
  by (simp add: browser_step.recycled)

lemmas step_eval = check_options_def in_flight_def pick_chromium_def find_warmest_def max_by_key_def len_u32_def
  known_ids_def push_chromium_def bind_session_def remove_session_def expire_sessions_def expired_ids_def
  snapshots_def decide_one_def whole_seconds_def recycle_config_of_def has_chromium_def remove_if_there_def Let_def

lemma sample_open:
  "(browser_step default_browser_config ''ws:'' 1)\<^sup>*\<^sup>* empty_browser
     (sample_sys [sample_chromium [''a''] 0] [sample_session ''a'' 0] [])"
proof -
  let ?step = "browser_step default_browser_config ''ws:'' 1"
  have "?step empty_browser (sample_sys [] [] [Launching default_session_options])"
    by (rule wait_to) (simp_all add: sample_defs step_eval)
  moreover have "?step (sample_sys [] [] [Launching default_session_options])
      (sample_sys [sample_chromium [] 0] [] [Binding default_session_options ''c1''])"
    by (rule launched_to [of _ "[]" default_session_options "[]" sample_launched _ 0 0])
      (simp_all add: sample_defs step_eval)
  moreover have "?step (sample_sys [sample_chromium [] 0] [] [Binding default_session_options ''c1''])
      (sample_sys [sample_chromium [''a''] 0] [sample_session ''a'' 0] [])"
    by (rule bound_to [of _ "[]" default_session_options "''c1''" "[]" "''a''" "''ws:''" "''t''" 0])
      (simp_all add: sample_defs step_eval)
  ultimately show ?thesis by (meson converse_rtranclp_into_rtranclp rtranclp.rtrancl_refl)
qed

lemma sample_orphan:
  "(browser_step default_browser_config ''ws:'' 1)\<^sup>*\<^sup>* empty_browser
     (sample_sys [] [sample_session ''b'' 2000000000000] [Recycling []])"
proof -
  let ?step = "browser_step default_browser_config ''ws:'' 1"
  let ?idle = "Recycling [Kill ''c1'' Idle]"
  have "?step (sample_sys [sample_chromium [''a''] 0] [sample_session ''a'' 0] []) (sample_sys [sample_chromium [] 0] [] [])"
    by (rule released_to [of "''a''" 0]) (simp_all add: sample_defs step_eval)
  moreover have "?step (sample_sys [sample_chromium [] 0] [] []) (sample_sys [sample_chromium [] 0] [] [Sweeping 2000000000000])"
    by (rule expired_to [of _ "2000000000000" 0]) (simp add: sample_defs step_eval)
  moreover have "?step (sample_sys [sample_chromium [] 0] [] [Sweeping 2000000000000]) (sample_sys [sample_chromium [] 0] [] [?idle])"
    by (rule planned_to [of _ "[]" "2000000000000" "[]"]) (simp_all add: sample_defs step_eval)
  moreover have "?step (sample_sys [sample_chromium [] 0] [] [?idle])
      (sample_sys [sample_chromium [''b''] 2000000000000] [sample_session ''b'' 2000000000000] [?idle])"
    by (rule reuse_to [of _ default_session_options _ _ "''c1''" "''b''" _ "''t''" "2000000000000"])
      (simp_all add: sample_defs step_eval)
  moreover have "?step (sample_sys [sample_chromium [''b''] 2000000000000] [sample_session ''b'' 2000000000000] [?idle])
      (sample_sys [] [sample_session ''b'' 2000000000000] [Recycling []])"
    by (rule recycled_to [of _ "[]" "Kill ''c1'' Idle" "[]" "[]"]) (simp_all add: sample_defs step_eval)
  ultimately show ?thesis
    using sample_open by (meson rtranclp.rtrancl_into_rtrancl)
qed

text \<open>The kill of a stale plan can hit a Chromium that a request was given in between: a session that has not expired
  and presents its own token then gets a protocol error, even with the default limits and one acquire at a time.\<close>
theorem sweep_can_orphan:
  "\<exists>b s. (browser_step default_browser_config ''ws:'' 1)\<^sup>*\<^sup>* empty_browser b \<and> s \<in> set (ps_sessions (bz_pool b)) \<and>
     si_created_at (bs_info s) < si_expires_at (bs_info s) \<and>
     attach (si_created_at (bs_info s)) (bs_id s) (bs_token s) (bz_pool b) = Inl (Cdp ''session refers to a chromium that no longer exists'')"
proof -
  have "sample_session ''b'' 2000000000000 \<in> set (ps_sessions (bz_pool
      (sample_sys [] [sample_session ''b'' 2000000000000] [Recycling []])))"
    by (simp add: sample_sys_def)
  moreover have "attach 2000000000000 ''b'' ''t'' (bz_pool (sample_sys [] [sample_session ''b'' 2000000000000] [Recycling []])) =
      Inl (Cdp ''session refers to a chromium that no longer exists'')"
    by (simp add: sample_defs attach_def verify_def)
  moreover have "si_created_at (bs_info (sample_session ''b'' 2000000000000)) = 2000000000000"
    "si_expires_at (bs_info (sample_session ''b'' 2000000000000)) = 2600000000000"
    "bs_id (sample_session ''b'' 2000000000000) = ''b''" "bs_token (sample_session ''b'' 2000000000000) = ''t''"
    by (simp_all add: sample_defs)
  ultimately show ?thesis
    using sample_orphan by fastforce
qed

section \<open>Sessions behind the routes\<close>

text \<open>What the routes rely on: an error writes nothing, and a session they hand out can be fetched and attached to.\<close>
locale session_source =
  fixes acq :: "session_options \<Rightarrow> pool_state \<Rightarrow> ((browser_error + session_info) \<times> pool_state) option"
    and ready :: "pool_state \<Rightarrow> bool"
  assumes keeps: "acq opts st = Some (Inl e, st') \<Longrightarrow> st' = st"
    and hands_out: "ready st \<Longrightarrow> acq opts st = Some (Inr info, st') \<Longrightarrow>
      pool_get (si_id info) st' = Some info \<and>
      (\<forall>now < si_expires_at info. \<exists>url tap. attach now (si_id info) (si_token info) st' = Inr (url, tap))"
begin

lemma created:
  assumes "ready st" and "create_session acq opts st = Some (Browser_Session code info, st')"
  shows "get_session (si_id info) st' = Browser_Session 200 info" "code = 201"
    and "now < si_expires_at info \<Longrightarrow>
      \<exists>url tap. cdp_attach now (si_id info) (Some (si_token info)) auth_header st' = Browser_Upgrade url tap"
proof -
  from assms(2) have a: "acq opts st = Some (Inr info, st')" "code = 201"
    by (auto simp: create_session_def err_response_def elim!: create_reply.elims)
  then show "code = 201" by simp
  from hands_out [OF assms(1) a(1)] show "get_session (si_id info) st' = Browser_Session 200 info"
    "now < si_expires_at info \<Longrightarrow>
      \<exists>url tap. cdp_attach now (si_id info) (Some (si_token info)) auth_header st' = Browser_Upgrade url tap"
    by (fastforce simp: get_session_def cdp_attach_def cdp_token_def)+
qed

lemma refused:
  assumes "create_session acq opts st = Some (Browser_Error code kind message, st')"
  shows "st' = st"
  using assms by (auto simp: create_session_def elim!: create_reply.elims dest: keeps)

lemma replay_refused:
  assumes "create_replay acq source ttl st = Some (Browser_Error code kind message, st')"
  shows "st' = st"
  using assms by (auto simp: create_replay_def split: if_split_asm elim!: replay_reply.elims dest: keeps)

end

lemma find_snoc: "(\<And>x. x \<in> set xs \<Longrightarrow> \<not> p x) \<Longrightarrow> p y \<Longrightarrow> find p (xs @ [y]) = Some y"
  by (induction xs) auto

lemma find_update_first:
  "find (\<lambda>c. k c = a) cs \<noteq> None \<Longrightarrow> (\<And>c. k (f c) = k c) \<Longrightarrow>
   find (\<lambda>c. k c = a) (update_first (\<lambda>c. k c = a) f cs) \<noteq> None"
  by (induction cs) auto

lemma bind_hands_out:
  assumes "bind_session base opts c uuid token now st = Some (info, st')" and "uuid \<notin> bs_id ` set (ps_sessions st)"
  shows "pool_get (si_id info) st' = Some info \<and>
    (\<forall>now < si_expires_at info. \<exists>url tap. attach now (si_id info) (si_token info) st' = Inr (url, tap))"
proof -
  from assms(1) obtain x where x: "find (\<lambda>c'. ch_id c' = c) (ps_chromiums st) = Some x"
    "info = session_of base opts uuid token now x"
    "ps_sessions st' = ps_sessions st @ [\<lparr>bs_info = info, bs_token = token, bs_chromium_id = c, bs_tap = ch_tap x\<rparr>]"
    "ps_chromiums st' = update_first (\<lambda>c'. ch_id c' = c)
       (\<lambda>c. c\<lparr>ch_sessions := ch_sessions c @ [uuid], ch_last_active_at := now\<rparr>) (ps_chromiums st)"
    by (auto simp: bind_session_def Let_def split: option.splits)
  have u: "si_id info = uuid" "si_token info = token" by (simp_all add: x(2) session_of_def)
  have "find (\<lambda>s. bs_id s = uuid) (ps_sessions st') =
      Some \<lparr>bs_info = info, bs_token = token, bs_chromium_id = c, bs_tap = ch_tap x\<rparr>"
    unfolding x(3) using assms(2) u by (intro find_snoc) (auto simp: image_iff)
  moreover have "find (\<lambda>c'. ch_id c' = c) (ps_chromiums st') \<noteq> None"
    unfolding x(4) by (rule find_update_first) (simp_all add: x(1))
  ultimately show ?thesis
    by (auto simp: u pool_get_def attach_def verify_def diff_zero zip_all_eq)
qed

interpretation pool_sessions: session_source "acquire config base launch tap launched_at uuid token now"
  "\<lambda>st. uuid \<notin> bs_id ` set (ps_sessions st)"
proof unfold_locales
  show "st' = st" if "acquire config base launch tap launched_at uuid token now opts st = Some (Inl e, st')" for opts st e st'
    using that by (auto simp: acquire_def map_prod_def split: option.splits sum.splits)
  show "pool_get (si_id info) st' = Some info \<and>
      (\<forall>now < si_expires_at info. \<exists>url tap. attach now (si_id info) (si_token info) st' = Inr (url, tap))"
    if "uuid \<notin> bs_id ` set (ps_sessions st)"
      "acquire config base launch tap launched_at uuid token now opts st = Some (Inr info, st')" for opts st info st'
  proof -
    from that(2) obtain c st0 where "bind_session base opts c uuid token now st0 = Some (info, st')"
      "ps_sessions st0 = ps_sessions st"
      by (auto simp: acquire_def push_chromium_def split: option.splits sum.splits)
    with that(1) show ?thesis by (metis bind_hands_out)
  qed
qed

text \<open>A session the create route hands out can be fetched, and attached to with its token until it expires.\<close>
theorem created_session_usable:
  assumes "uuid \<notin> bs_id ` set (ps_sessions st)"
    and "create_session (acquire config base launch tap launched_at uuid token now) opts st = Some (Browser_Session code info, st')"
    and "later < si_expires_at info"
  shows "code = 201 \<and> get_session (si_id info) st' = Browser_Session 200 info \<and>
    (\<exists>url tap'. cdp_attach later (si_id info) (Some (si_token info)) auth_header st' = Browser_Upgrade url tap')"
  using pool_sessions.created [OF assms(1,2)] assms(3) by blast

lemma created_session_usable_witness:
  "\<exists>info st' url tap'.
     create_session (acquire default_browser_config ''ws:'' (Inr sample_launched) 0 0 ''a'' ''t'' 0) default_session_options
       (bz_pool empty_browser) = Some (Browser_Session 201 info, st') \<and>
     cdp_attach 1 (si_id info) (Some (si_token info)) None st' = Browser_Upgrade url tap'"
proof -
  have "create_session (acquire default_browser_config ''ws:'' (Inr sample_launched) 0 0 ''a'' ''t'' 0) default_session_options
      (bz_pool empty_browser) =
    Some (Browser_Session 201 (bs_info (sample_session ''a'' 0)),
      bz_pool (sample_sys [sample_chromium [''a''] 0] [sample_session ''a'' 0] []))"
    by (simp add: create_session_def acquire_def sample_defs step_eval)
  moreover have "1 < si_expires_at (bs_info (sample_session ''a'' 0))" by (simp add: sample_defs)
  ultimately show ?thesis
    using created_session_usable [of "''a''" "bz_pool empty_browser" default_browser_config "''ws:''" "Inr sample_launched"
        0 0 "''t''" 0 default_session_options 201 _ _ 1 None]
    by (fastforce simp: empty_browser_def)
qed

lemma pool_accounting_witness:
  "length (ps_chromiums (bz_pool (sample_sys [sample_chromium [''a''] 0] [sample_session ''a'' 0] []))) < 4 + 1"
  using pool_accounting [OF sample_open] by (simp add: default_browser_config_def)

lemma sweep_retires_witness:
  "''c1'' \<notin> ch_id ` set (ps_chromiums (snd (sweep default_browser_config 30000000000000 0
     (bz_pool (sample_sys [sample_chromium [''a''] 0] [sample_session ''a'' 0] [])))))"
proof -
  have "bw_recycle_max_age_seconds default_browser_config \<le> whole_seconds (30000000000000 - ch_created_at (sample_chromium [''a''] 0))"
    by (simp add: sample_defs whole_seconds_def)
  moreover have "\<not> 30000000000000 < si_expires_at (bs_info (sample_session ''a'' 0))" "ch_id (sample_chromium [''a''] 0) = ''c1''"
    by (simp_all add: sample_defs)
  moreover have "0 < (1::nat)" "unat (bw_pool_max default_browser_config) + 1 < 2 ^ 32"
    "max 1 (unat (bw_contexts_per_chromium_max default_browser_config)) + 1 < 2 ^ 32"
    by (simp_all add: default_browser_config_def)
  note sweep_retires [OF sample_open this refl _ refl refl, of "sample_chromium [''a''] 0" 30000000000000 0]
  ultimately show ?thesis by (auto simp: sample_sys_def)
qed

text \<open>The bound on the number of Chromiums is reached: two requests that find the pool empty both launch one.\<close>
lemma pool_limit_overshoot:
  "\<exists>b. (browser_step (default_browser_config\<lparr>bw_pool_max := 1\<rparr>) ''ws:'' 2)\<^sup>*\<^sup>* empty_browser b \<and>
     length (ps_chromiums (bz_pool b)) = 2"
proof -
  let ?c = "default_browser_config\<lparr>bw_pool_max := 1\<rparr>"
  let ?step = "browser_step ?c ''ws:'' 2"
  let ?l = "Launching default_session_options"
  define c1 where "c1 = sample_chromium [] 0"
  define c2 where "c2 = c1\<lparr>ch_chromium := sample_launched\<lparr>lc_id := ''c2''\<rparr>\<rparr>"
  have "?step empty_browser (sample_sys [] [] [?l])"
    by (rule wait_to) (simp_all add: sample_defs step_eval)
  moreover have "?step (sample_sys [] [] [?l]) (sample_sys [] [] [?l, ?l])"
    by (rule wait_to) (simp_all add: sample_defs step_eval)
  moreover have "?step (sample_sys [] [] [?l, ?l]) (sample_sys [c1] [] [Binding default_session_options ''c1'', ?l])"
    by (rule launched_to [of _ "[]" default_session_options "[?l]" sample_launched _ 0 0])
      (simp_all add: sample_defs step_eval c1_def)
  moreover have "?step (sample_sys [c1] [] [Binding default_session_options ''c1'', ?l])
      (sample_sys [c1, c2] [] [Binding default_session_options ''c1'', Binding default_session_options ''c2''])"
    by (rule launched_to [of _ "[Binding default_session_options ''c1'']" default_session_options "[]"
          "sample_launched\<lparr>lc_id := ''c2''\<rparr>" _ 0 0])
      (simp_all add: sample_defs step_eval c1_def c2_def)
  ultimately have "?step\<^sup>*\<^sup>* empty_browser
      (sample_sys [c1, c2] [] [Binding default_session_options ''c1'', Binding default_session_options ''c2''])"
    by (meson converse_rtranclp_into_rtranclp rtranclp.rtrancl_refl)
  moreover have "length (ps_chromiums (bz_pool (sample_sys [c1, c2] [] ts))) = 2" for ts
    by (simp add: sample_sys_def)
  ultimately show ?thesis by blast
qed

section \<open>The relay\<close>

lemma relay_taps:
  "map (\<lambda>f. (cf_direction f, Ws_Text (cf_payload f))) (snd (relay es)) =
     filter (\<lambda>(d, m). \<exists>t. m = Ws_Text t) (fst (relay es))"
  by (induction es rule: relay.induct) (auto simp: Let_def split: prod.splits)

lemma relay_order:
  "subseq (fst (relay es)) (map (\<lambda>(d, r, ok, ts). (d, case r of Message m \<Rightarrow> m | _ \<Rightarrow> Ws_Close)) es)"
  by (induction es rule: relay.induct) (auto simp: Let_def split: prod.splits)

end
