(* ===== verification/Mac_Comm.thy ===== *)
theory Mac_Comm
  imports Prelude
begin

text \<open>
  The macOS communication driver (gctrl-mac-comm): the token-bucket limiter (rate\_limit.rs), the field validators
  (validate.rs), the osascript adapters (focus/iterm2.rs, focus/terminal.rs), the HTTP handler that composes them
  (gctrl-otel/src/comm\_routes.rs), and the host allowlist in front of the whole router
  (gctrl-cli/src/commands/host\_allowlist\_middleware.rs). Instants are nanoseconds, f64 is idealised as rationals, and
  what the osascript process answers is an argument.
\<close>

section \<open>Rate limiter\<close>

record rate_config =
  rl_rate_per_sec :: f64
  rl_burst :: u32
  rl_idle_evict :: int

definition default_rate_config :: rate_config where
  "default_rate_config = \<lparr>rl_rate_per_sec = 1, rl_burst = 10, rl_idle_evict = 300000000000\<rparr>"

record bucket =
  bk_tokens :: f64
  bk_last_refill :: int

type_synonym buckets = "string \<rightharpoonup> bucket"

text \<open>Instant::duration\_since is zero for an earlier instant.\<close>
definition duration_since :: "int \<Rightarrow> int \<Rightarrow> int" where
  "duration_since now t = max 0 (now - t)"

definition as_secs :: "int \<Rightarrow> f64" where
  "as_secs d = of_int d / 1000000000"

definition evict :: "rate_config \<Rightarrow> int \<Rightarrow> buckets \<Rightarrow> buckets" where
  "evict cfg now m = (\<lambda>k. case m k of None \<Rightarrow> None
     | Some b \<Rightarrow> if duration_since now (bk_last_refill b) < rl_idle_evict cfg then Some b else None)"

definition burst_of :: "rate_config \<Rightarrow> f64" where
  "burst_of cfg = of_nat (unat (rl_burst cfg))"

definition try_acquire_at :: "rate_config \<Rightarrow> string \<Rightarrow> int \<Rightarrow> buckets \<Rightarrow> bool \<times> buckets" where
  "try_acquire_at cfg key now m =
     (let kept = evict cfg now m;
          b = (case kept key of Some b \<Rightarrow> b | None \<Rightarrow> \<lparr>bk_tokens = burst_of cfg, bk_last_refill = now\<rparr>);
          elapsed = as_secs (duration_since now (bk_last_refill b));
          tokens = min (bk_tokens b + elapsed * rl_rate_per_sec cfg) (burst_of cfg)
      in if 1 \<le> tokens
         then (True, kept(key \<mapsto> \<lparr>bk_tokens = tokens - 1, bk_last_refill = now\<rparr>))
         else (False, kept(key \<mapsto> \<lparr>bk_tokens = tokens, bk_last_refill = now\<rparr>)))"

section \<open>Errors and requests\<close>

datatype comm_error =
    NotSupported
  | Validation string string
  | UnknownTarget string
  | TermSessionNotFound string string
  | TargetNotRunning string
  | AutomationDenied string
  | OsascriptTimeout string nat
  | OsascriptFailed int string
  | RateLimited string
  | CommIo string

definition arrow :: string where "arrow = '' '' @ bytes [226, 134, 146] @ '' ''"

fun comm_error_message :: "comm_error \<Rightarrow> string" where
  "comm_error_message NotSupported = ''not supported on this platform''"
| "comm_error_message (Validation field pattern) = ''invalid '' @ field @ '': must match '' @ pattern"
| "comm_error_message (UnknownTarget t) = ''unknown target: '' @ t"
| "comm_error_message (TermSessionNotFound target sid) =
     target @ '' session '' @ sid @ '' not found. The window/tab may have been closed. Run '' @ [CHR 0x27] @
     ''gctrl terminal capabilities'' @ [CHR 0x27] @ '' to confirm '' @ target @
     '' is reachable, or wait for the agent to re-issue the request.''"
| "comm_error_message (TargetNotRunning target) =
     target @ '' is not running. Launch it and run '' @ [CHR 0x27] @ ''gctrl terminal focus'' @ [CHR 0x27] @ '' again.''"
| "comm_error_message (AutomationDenied target) =
     ''Automation permission denied for '' @ target @ ''. Open System Settings'' @ arrow @ ''Privacy & Security'' @ arrow @
     ''Automation'' @ arrow @ ''gctrl-desktop and allow '' @ target @ ''. Then run '' @ [CHR 0x27] @
     ''gctrl terminal capabilities'' @ [CHR 0x27] @ '' to confirm the grant.''"
| "comm_error_message (OsascriptTimeout target ms) =
     target @ '' did not respond within '' @ show_nat ms @ ''ms. Run '' @ [CHR 0x27] @ ''gctrl terminal capabilities'' @
     [CHR 0x27] @ '' to confirm reachability; retry once.''"
| "comm_error_message (OsascriptFailed code err) = ''osascript failed (exit '' @ show_int code @ ''): '' @ err"
| "comm_error_message (RateLimited key) =
     ''Too many focus calls for session '' @ key @ '' in the last minute. Wait 5s and retry, or '' @ [CHR 0x27] @
     ''gctrl inbox view <id>'' @ [CHR 0x27] @ '' to inspect manually.''"
| "comm_error_message (CommIo e) = ''io error: '' @ e"

datatype terminal_app = Iterm2 | Terminal | Ghostty | Vscode | Warp | Unknown_App

fun app_label :: "terminal_app \<Rightarrow> string" where
  "app_label Iterm2 = ''iTerm2''"
| "app_label Terminal = ''Terminal''"
| "app_label Ghostty = ''Ghostty''"
| "app_label Vscode = ''VS Code''"
| "app_label Warp = ''Warp''"
| "app_label Unknown_App = ''unknown''"

fun app_bundle_id :: "terminal_app \<Rightarrow> string" where
  "app_bundle_id Iterm2 = ''com.googlecode.iterm2''"
| "app_bundle_id Terminal = ''com.apple.Terminal''"
| "app_bundle_id Ghostty = ''com.mitchellh.ghostty''"
| "app_bundle_id Vscode = ''com.microsoft.VSCode''"
| "app_bundle_id Warp = ''dev.warp.Warp-Stable''"
| "app_bundle_id Unknown_App = []"

text \<open>The derived Debug rendering.\<close>
fun app_debug :: "terminal_app \<Rightarrow> string" where
  "app_debug Iterm2 = ''Iterm2''"
| "app_debug Terminal = ''Terminal''"
| "app_debug Ghostty = ''Ghostty''"
| "app_debug Vscode = ''Vscode''"
| "app_debug Warp = ''Warp''"
| "app_debug Unknown_App = ''Unknown''"

record terminal_context =
  tc_app :: terminal_app
  tc_bundle_id :: "string option"
  tc_session_id :: "string option"
  tc_window_id :: "string option"
  tc_tab_id :: "string option"
  tc_tty :: "string option"
  tc_pid :: "u32 option"
  tc_ppid :: "u32 option"
  tc_cwd :: "string option"
  tc_term_program :: "string option"
  tc_term_program_version :: "string option"
  tc_captured_at :: "string option"

record focus_request =
  fq_target :: terminal_app
  fq_session_id :: "string option"
  fq_window_id :: "string option"
  fq_tab_id :: "string option"
  fq_cwd :: "string option"
  fq_origin_remote :: bool

record focus_response =
  fo_focused :: bool
  fo_reason :: "string option"
  fo_deduped :: bool

definition focus_ok :: focus_response where
  "focus_ok = \<lparr>fo_focused = True, fo_reason = None, fo_deduped = False\<rparr>"

definition focus_skipped :: "string \<Rightarrow> focus_response" where
  "focus_skipped reason = \<lparr>fo_focused = False, fo_reason = Some reason, fo_deduped = False\<rparr>"

definition focus_deduped :: focus_response where
  "focus_deduped = \<lparr>fo_focused = True, fo_reason = None, fo_deduped = True\<rparr>"

section \<open>Patterns\<close>

text \<open>
  The anchored regular expressions of validate.rs are sequences of character classes with repetition counts; a text
  regex_matches when it splits into such a sequence (the regex crate's anchors match only at the ends of the text).
\<close>
type_synonym regex = "(string \<times> nat \<times> nat) list"

fun regex_matches :: "regex \<Rightarrow> string \<Rightarrow> bool" where
  "regex_matches [] s = (s = [])"
| "regex_matches ((cs, lo, hi) # ps) s =
     list_ex (\<lambda>n. n \<le> length s \<and> list_all (\<lambda>c. c \<in> set cs) (take n s) \<and> regex_matches ps (drop n s)) [lo..<Suc hi]"

definition literal :: "string \<Rightarrow> regex" where
  "literal s = map (\<lambda>c. ([c], 1, 1)) s"

definition digits :: string where "digits = ''0123456789''"
definition lower :: string where "lower = ''abcdefghijklmnopqrstuvwxyz''"
definition upper :: string where "upper = ''ABCDEFGHIJKLMNOPQRSTUVWXYZ''"
definition hexes :: string where "hexes = digits @ ''abcdefABCDEF''"

definition re_iterm2_session :: regex where
  "re_iterm2_session =
     literal ''w'' @ [(digits, 1, 4)] @ literal ''t'' @ [(digits, 1, 4)] @ literal ''p'' @ [(digits, 1, 4)] @ literal '':'' @
     [(hexes, 8, 8)] @ literal ''-'' @ [(hexes, 4, 4)] @ literal ''-'' @ [(hexes, 4, 4)] @ literal ''-'' @
     [(hexes, 4, 4)] @ literal ''-'' @ [(hexes, 12, 12)]"

definition re_generic_session :: regex where
  "re_generic_session = [(upper @ lower @ digits @ ''_:.-'', 1, 64)]"

definition re_index :: regex where "re_index = [(digits, 1, 4)]"

definition tty_matches :: "string \<Rightarrow> bool" where
  "tty_matches s \<longleftrightarrow> regex_matches (literal ''/dev/tty'' @ [(lower @ digits, 1, 8)]) s \<or>
     regex_matches (literal ''/dev/pty'' @ [(lower @ digits, 1, 8)]) s"

definition re_cwd :: regex where
  "re_cwd = literal ''/'' @ [(upper @ lower @ digits @ ''._/() []+,&@!~=#:-'', 0, 512)]"

definition re_bundle_id :: regex where
  "re_bundle_id = [(lower, 1, 1), (lower @ upper @ digits @ ''.-'', 2, 63)]"

definition re_term_program :: regex where
  "re_term_program = [(upper @ lower @ digits @ '' ._-'', 1, 64)]"

section \<open>Validators\<close>

definition check_field :: "bool \<Rightarrow> string \<Rightarrow> string \<Rightarrow> comm_error + unit" where
  "check_field ok field pattern = (if ok then Inr () else Inl (Validation field pattern))"

definition validate_session_id :: "terminal_app \<Rightarrow> string \<Rightarrow> comm_error + unit" where
  "validate_session_id target v =
     (case target of
        Iterm2 \<Rightarrow> check_field (regex_matches re_iterm2_session v) ''session_id'' ''w[0-9]+t[0-9]+p[0-9]+:<UUIDv4>''
      | Unknown_App \<Rightarrow> Inl (Validation ''session_id'' ''(no validator for unknown target)'')
      | _ \<Rightarrow> check_field (regex_matches re_generic_session v) ''session_id'' ''[A-Za-z0-9_:.-]{1,64}'')"

definition window_or_tab_index :: "string \<Rightarrow> string \<Rightarrow> comm_error + unit" where
  "window_or_tab_index field v = check_field (regex_matches re_index v) field ''[0-9]{1,4}''"

definition validate_tty :: "string \<Rightarrow> comm_error + unit" where
  "validate_tty v = check_field (tty_matches v) ''tty'' ''/dev/(tty|pty)[a-z0-9]{1,8}''"

definition validate_cwd :: "string \<Rightarrow> comm_error + unit" where
  "validate_cwd v = check_field (regex_matches re_cwd v) ''cwd''
     (''/[A-Za-z0-9._/() '' @ [CHR 0x5C] @ ''['' @ [CHR 0x5C] @ '']+,&@!~=#:-]{0,512}'')"

definition validate_bundle_id :: "string \<Rightarrow> comm_error + unit" where
  "validate_bundle_id v = check_field (regex_matches re_bundle_id v) ''bundle_id'' ''[a-z][a-zA-Z0-9.-]{2,63}''"

definition validate_term_program :: "string \<Rightarrow> string \<Rightarrow> comm_error + unit" where
  "validate_term_program field v = check_field (regex_matches re_term_program v) field ''[A-Za-z0-9 ._-]{1,64}''"

text \<open>The question mark: the first error ends the validation.\<close>
definition and_also :: "comm_error + unit \<Rightarrow> comm_error + unit \<Rightarrow> comm_error + unit" where
  "and_also a b = (case a of Inl e \<Rightarrow> Inl e | Inr _ \<Rightarrow> b)"

definition if_given :: "string option \<Rightarrow> (string \<Rightarrow> comm_error + unit) \<Rightarrow> comm_error + unit" where
  "if_given v check = (case v of None \<Rightarrow> Inr () | Some x \<Rightarrow> check x)"

definition validate_focus_request :: "focus_request \<Rightarrow> comm_error + unit" where
  "validate_focus_request req =
     (if fq_target req = Unknown_App then Inl (UnknownTarget ''unknown'')
      else and_also (if_given (fq_session_id req) (validate_session_id (fq_target req)))
          (and_also (if_given (fq_window_id req) (window_or_tab_index ''window_id''))
          (and_also (if_given (fq_tab_id req) (window_or_tab_index ''tab_id''))
                    (if_given (fq_cwd req) validate_cwd))))"

definition validate_terminal_context :: "terminal_context \<Rightarrow> comm_error + unit" where
  "validate_terminal_context ctx =
     and_also (if_given (tc_bundle_id ctx) validate_bundle_id)
    (and_also (if_given (tc_session_id ctx) (validate_session_id (tc_app ctx)))
    (and_also (if_given (tc_window_id ctx) (window_or_tab_index ''window_id''))
    (and_also (if_given (tc_tab_id ctx) (window_or_tab_index ''tab_id''))
    (and_also (if_given (tc_tty ctx) validate_tty)
    (and_also (if_given (tc_cwd ctx) validate_cwd)
    (and_also (if_given (tc_term_program ctx) (validate_term_program ''term_program''))
              (if_given (tc_term_program_version ctx) (validate_term_program ''term_program_version''))))))))"

section \<open>osascript\<close>

text \<open>What happens to the child: not spawned, an I/O error while waiting, killed by the deadline, or its exit code (none
  after a signal) with what could be read of its output.\<close>
datatype child = No_Child string | Child_Io string | Child_Late | Child_Done "int option" string string

record osa_output =
  oo_exit_code :: int
  oo_stdout :: string
  oo_stderr :: string

definition osascript_argv :: "string list \<Rightarrow> string list" where
  "osascript_argv fragments = concat (map (\<lambda>f. [''-e'', f]) fragments)"

definition run_osascript :: "(string list \<Rightarrow> child) \<Rightarrow> nat \<Rightarrow> string \<Rightarrow> string list \<Rightarrow> comm_error + osa_output" where
  "run_osascript spawn timeout_ms label fragments =
     (case spawn (osascript_argv fragments) of
        No_Child e \<Rightarrow> Inl (CommIo e)
      | Child_Io e \<Rightarrow> Inl (CommIo e)
      | Child_Late \<Rightarrow> Inl (OsascriptTimeout label timeout_ms)
      | Child_Done code out err \<Rightarrow>
          Inr \<lparr>oo_exit_code = (case code of None \<Rightarrow> -1 | Some c \<Rightarrow> c), oo_stdout = out, oo_stderr = err\<rparr>)"

definition quote_char :: string where "quote_char = [CHR 0x22]"
definition join_lines :: "string list \<Rightarrow> string" where
  "join_lines ls = concat (map (\<lambda>l. l @ [CHR 0x0A]) ls)"

definition ITERM2_SCRIPT :: string where
  "ITERM2_SCRIPT = join_lines
     [[], ''on focus_iterm2_session(target_id)'', ''  tell application '' @ quote_char @ ''iTerm2'' @ quote_char, ''    activate'',
      ''    repeat with w in windows'', ''      repeat with t in tabs of w'', ''        repeat with s in sessions of t'',
      ''          if unique ID of s is target_id then'', ''            select s'',
      ''            return '' @ quote_char @ ''ok'' @ quote_char, ''          end if'', ''        end repeat'',
      ''      end repeat'', ''    end repeat'', ''  end tell'',
      ''  return '' @ quote_char @ ''not_found'' @ quote_char, ''end focus_iterm2_session'']"

definition TERMINAL_SCRIPT :: string where
  "TERMINAL_SCRIPT = join_lines
     [[], ''on focus_terminal_tab(window_idx, tab_idx)'', ''  tell application '' @ quote_char @ ''Terminal'' @ quote_char,
      ''    activate'', ''    try'', ''      set selected of tab tab_idx of window window_idx to true'',
      ''      return '' @ quote_char @ ''ok'' @ quote_char, ''    on error errMsg number errNum'',
      ''      if errNum is -1719 then'', ''        return '' @ quote_char @ ''not_found'' @ quote_char, ''      else'',
      ''        error errMsg number errNum'', ''      end if'', ''    end try'', ''  end tell'', ''end focus_terminal_tab'']"

definition classify_error :: "int \<Rightarrow> string \<Rightarrow> string \<Rightarrow> comm_error" where
  "classify_error exit_code err target =
     (if contains ''-1743'' err \<or> contains ''not allowed assistive access'' err then AutomationDenied target
      else if contains ''-600'' err \<or> contains (''isn'' @ [CHR 0x27] @ ''t running'') err then TargetNotRunning target
      else OsascriptFailed exit_code err)"

text \<open>The common tail of both adapters: reading the handler's answer.\<close>
definition read_answer :: "string \<Rightarrow> string \<Rightarrow> osa_output \<Rightarrow> comm_error + focus_response" where
  "read_answer target sid out =
     (if oo_exit_code out = 0
      then (if trim (oo_stdout out) = ''ok'' then Inr focus_ok
            else if trim (oo_stdout out) = ''not_found'' then Inl (TermSessionNotFound target sid)
            else Inl (OsascriptFailed 0 (''unexpected handler output: '' @ trim (oo_stdout out))))
      else Inl (classify_error (oo_exit_code out) (oo_stderr out) target))"

text \<open>The adapters answer with the response and the argument vectors handed to osascript.\<close>
definition iterm2_focus :: "(string list \<Rightarrow> child) \<Rightarrow> focus_request \<Rightarrow> (comm_error + focus_response) \<times> string list list" where
  "iterm2_focus spawn req =
     (case fq_session_id req of
        None \<Rightarrow> (Inl (Validation ''session_id'' ''required for target=iterm2''), [])
      | Some sid \<Rightarrow>
          let call = ''focus_iterm2_session('' @ quote_char @ sid @ quote_char @ '')''
          in (case run_osascript spawn 2000 ''iTerm2'' [ITERM2_SCRIPT, call] of
                Inl e \<Rightarrow> Inl e | Inr out \<Rightarrow> read_answer ''iTerm2'' sid out,
              [osascript_argv [ITERM2_SCRIPT, call]]))"

definition terminal_focus :: "(string list \<Rightarrow> child) \<Rightarrow> focus_request \<Rightarrow> (comm_error + focus_response) \<times> string list list" where
  "terminal_focus spawn req =
     (case fq_window_id req of
        None \<Rightarrow> (Inl (Validation ''window_id'' ''required for target=terminal''), [])
      | Some window \<Rightarrow>
          (case fq_tab_id req of
             None \<Rightarrow> (Inl (Validation ''tab_id'' ''required for target=terminal''), [])
           | Some tab \<Rightarrow>
               let call = ''focus_terminal_tab('' @ window @ '', '' @ tab @ '')''
               in (case run_osascript spawn 2000 ''Terminal'' [TERMINAL_SCRIPT, call] of
                     Inl e \<Rightarrow> Inl e | Inr out \<Rightarrow> read_answer ''Terminal'' (''window='' @ window @ '' tab='' @ tab) out,
                   [osascript_argv [TERMINAL_SCRIPT, call]])))"

definition focus :: "bool \<Rightarrow> (string list \<Rightarrow> child) \<Rightarrow> focus_request \<Rightarrow> (comm_error + focus_response) \<times> string list list" where
  "focus macos spawn req =
     (if fq_origin_remote req then (Inr (focus_skipped ''remote_session''), [])
      else if \<not> macos then (Inl NotSupported, [])
      else (case fq_target req of
              Iterm2 \<Rightarrow> iterm2_focus spawn req
            | Terminal \<Rightarrow> terminal_focus spawn req
            | Unknown_App \<Rightarrow> (Inl (UnknownTarget ''unknown''), [])
            | t \<Rightarrow> (Inl (UnknownTarget (app_debug t @ '' adapter not implemented in M0'')), [])))"

section \<open>The focus route\<close>

datatype comm_reply = Comm_Json focus_response | Comm_Error nat string

fun comm_status :: "comm_error \<Rightarrow> nat" where
  "comm_status NotSupported = 501"
| "comm_status (Validation _ _) = 400"
| "comm_status (UnknownTarget _) = 400"
| "comm_status (TermSessionNotFound _ _) = 404"
| "comm_status (TargetNotRunning _) = 503"
| "comm_status (AutomationDenied _) = 403"
| "comm_status (OsascriptTimeout _ _) = 504"
| "comm_status (OsascriptFailed _ _) = 502"
| "comm_status (RateLimited _) = 429"
| "comm_status (CommIo _) = 500"

definition map_err :: "comm_error \<Rightarrow> comm_reply" where
  "map_err e = Comm_Error (comm_status e) (comm_error_message e)"

definition or_dash :: "string option \<Rightarrow> string" where
  "or_dash v = (case v of None \<Rightarrow> ''-'' | Some x \<Rightarrow> x)"

definition bucket_key :: "focus_request \<Rightarrow> string" where
  "bucket_key req =
     (case fq_session_id req of
        Some sid \<Rightarrow> sid
      | None \<Rightarrow> app_debug (fq_target req) @ '':'' @ or_dash (fq_window_id req) @ '':'' @ or_dash (fq_tab_id req))"

text \<open>The handler over the process-wide limiter: the reply, the limiter after it, and the osascript calls.\<close>
definition handle_focus ::
  "bool \<Rightarrow> (string list \<Rightarrow> child) \<Rightarrow> int \<Rightarrow> focus_request \<Rightarrow> buckets \<Rightarrow> (comm_reply \<times> string list list) \<times> buckets" where
  "handle_focus macos spawn now req0 m =
     (let req = req0\<lparr>fq_origin_remote := False\<rparr>
      in case validate_focus_request req of
           Inl e \<Rightarrow> ((map_err e, []), m)
         | Inr _ \<Rightarrow>
             let (ok, m') = try_acquire_at default_rate_config (bucket_key req) now m
             in if \<not> ok then ((map_err (RateLimited (bucket_key req)), []), m')
                else let (r, calls) = focus macos spawn req
                  in ((case r of Inr resp \<Rightarrow> Comm_Json resp | Inl e \<Rightarrow> map_err e, calls), m'))"

section \<open>Host allowlist\<close>

definition ALLOWED_HOSTS :: "string list" where
  "ALLOWED_HOSTS = [''localhost'', ''127.0.0.1'', ''::1'', ''[::1]'']"

text \<open>str::rsplit\_once on one ASCII character.\<close>
definition rsplit_once :: "char \<Rightarrow> string \<Rightarrow> (string \<times> string) option" where
  "rsplit_once d s = map_option (\<lambda>(b, a). (rev a, rev b)) (split_once d (rev s))"

definition to_ascii_lower :: "char \<Rightarrow> char" where
  "to_ascii_lower c = (if 65 \<le> (of_char c :: nat) \<and> (of_char c :: nat) \<le> 90 then char_of (of_char c + 32 :: nat) else c)"

definition eq_ignore_ascii_case :: "string \<Rightarrow> string \<Rightarrow> bool" where
  "eq_ignore_ascii_case a b \<longleftrightarrow> map to_ascii_lower a = map to_ascii_lower b"

text \<open>None when there is no Host header; Some [] also stands for one that is not visible ASCII.\<close>
definition host_check :: "string option \<Rightarrow> bool" where
  "host_check host =
     (case host of
        None \<Rightarrow> True
      | Some raw \<Rightarrow>
          let host_only = (case rsplit_once CHR '':'' raw of Some (h, _) \<Rightarrow> h | None \<Rightarrow> raw)
          in list_ex (\<lambda>allowed. eq_ignore_ascii_case host_only allowed) ALLOWED_HOSTS)"

section \<open>What the patterns accept\<close>

lemma matches_chars: "regex_matches ps s \<Longrightarrow> c \<in> set s \<Longrightarrow> \<exists>cs lo hi. (cs, lo, hi) \<in> set ps \<and> c \<in> set cs"
proof (induction ps s rule: regex_matches.induct)
  case (2 cs lo hi ps s)
  from 2(2) obtain n where n: "n \<in> set [lo..<Suc hi]" "list_all (\<lambda>c. c \<in> set cs) (take n s)" "regex_matches ps (drop n s)" "n \<le> length s"
    by (auto simp: list_ex_iff)
  show ?case
  proof (cases "c \<in> set (take n s)")
    case True
    with n(2) have "c \<in> set cs" by (simp add: list_all_iff)
    then show ?thesis by fastforce
  next
    case False
    with 2(3) have "c \<in> set (drop n s)"
      by (metis Un_iff append_take_drop_id set_append)
    with 2(1) [OF n(1)] n(2-4) show ?thesis by fastforce
  qed
qed simp

lemma matches_single:
  "regex_matches [(cs, lo, hi)] s \<longleftrightarrow> lo \<le> length s \<and> length s \<le> hi \<and> set s \<subseteq> set cs"
  by (auto simp: list_ex_iff list_all_iff subset_iff)

lemma iterm2_chars: "regex_matches re_iterm2_session s \<Longrightarrow> set s \<subseteq> set (''wtp:-'' @ hexes)"
  using matches_chars [of re_iterm2_session s]
  by (fastforce simp: re_iterm2_session_def literal_def hexes_def)

lemma validated:
  assumes "validate_focus_request req = Inr ()"
  shows "fq_target req \<noteq> Unknown_App"
    and "fq_target req = Iterm2 \<Longrightarrow> fq_session_id req = Some sid \<Longrightarrow> regex_matches re_iterm2_session sid"
    and "fq_window_id req = Some w \<Longrightarrow> regex_matches re_index w" and "fq_tab_id req = Some t \<Longrightarrow> regex_matches re_index t"
  using assms
  by (auto simp: validate_focus_request_def and_also_def if_given_def check_field_def validate_session_id_def
      window_or_tab_index_def split: if_splits sum.splits option.splits)

section \<open>Tokens over time\<close>

definition limits_ok :: "rate_config \<Rightarrow> bool" where
  "limits_ok cfg \<longleftrightarrow> 0 \<le> rl_rate_per_sec cfg \<and> burst_of cfg \<le> as_secs (rl_idle_evict cfg) * rl_rate_per_sec cfg"

text \<open>The tokens a key has at an instant.\<close>
definition avail :: "rate_config \<Rightarrow> buckets \<Rightarrow> string \<Rightarrow> int \<Rightarrow> rat" where
  "avail cfg m k t = (case m k of None \<Rightarrow> burst_of cfg
     | Some b \<Rightarrow> min (bk_tokens b + as_secs (t - bk_last_refill b) * rl_rate_per_sec cfg) (burst_of cfg))"

definition buckets_wf :: "rate_config \<Rightarrow> int \<Rightarrow> buckets \<Rightarrow> bool" where
  "buckets_wf cfg now m \<longleftrightarrow> (\<forall>k b. m k = Some b \<longrightarrow> 0 \<le> bk_tokens b \<and> bk_tokens b \<le> burst_of cfg \<and> bk_last_refill b \<le> now)"

lemma as_secs_mono: "a \<le> b \<Longrightarrow> as_secs a \<le> as_secs b"
  by (simp add: as_secs_def divide_right_mono)

lemma as_secs_diff: "as_secs (a - b) = as_secs a - as_secs b"
  by (simp add: as_secs_def diff_divide_distrib)

lemma burst_nonneg: "0 \<le> burst_of cfg"
  unfolding burst_of_def by (rule of_nat_0_le_iff)

lemma avail_grows:
  assumes "limits_ok cfg" and "s \<le> t"
  shows "avail cfg m k t \<le> avail cfg m k s + as_secs (t - s) * rl_rate_per_sec cfg"
proof -
  have r: "0 \<le> as_secs (t - s) * rl_rate_per_sec cfg"
    using assms by (simp add: limits_ok_def as_secs_def)
  show ?thesis
  proof (cases "m k")
    case (Some b)
    have "as_secs (t - bk_last_refill b) * rl_rate_per_sec cfg =
        as_secs (s - bk_last_refill b) * rl_rate_per_sec cfg + as_secs (t - s) * rl_rate_per_sec cfg"
      by (simp add: as_secs_diff algebra_simps)
    with Some r show ?thesis by (auto simp: avail_def min_def)
  qed (use r in \<open>simp add: avail_def\<close>)
qed

text \<open>A bucket is dropped only when it would be full again: eviction is invisible.\<close>
lemma avail_evict:
  assumes "limits_ok cfg" and "buckets_wf cfg now m" and "now \<le> t"
  shows "avail cfg (evict cfg now m) k t = avail cfg m k t"
proof (cases "m k")
  case (Some b)
  have "burst_of cfg \<le> bk_tokens b + as_secs (t - bk_last_refill b) * rl_rate_per_sec cfg"
    if "rl_idle_evict cfg \<le> duration_since now (bk_last_refill b)"
  proof -
    have "bk_last_refill b \<le> now" "0 \<le> bk_tokens b" using assms(2) Some by (auto simp: buckets_wf_def)
    moreover have "rl_idle_evict cfg \<le> t - bk_last_refill b"
      using that assms(3) calculation(1) by (simp add: duration_since_def)
    then have "as_secs (rl_idle_evict cfg) * rl_rate_per_sec cfg \<le> as_secs (t - bk_last_refill b) * rl_rate_per_sec cfg"
      using assms(1) by (intro mult_right_mono as_secs_mono) (auto simp: limits_ok_def)
    ultimately show ?thesis using assms(1) by (simp add: limits_ok_def)
  qed
  with Some show ?thesis by (auto simp: avail_def evict_def)
qed (simp add: avail_def evict_def)

lemma evict_wf: "buckets_wf cfg now m \<Longrightarrow> buckets_wf cfg now (evict cfg now m)"
  by (auto simp: buckets_wf_def evict_def split: option.splits if_splits)

lemma acquire_effect:
  assumes "limits_ok cfg" and "buckets_wf cfg now m" and "try_acquire_at cfg key now m = (ok, m')"
  shows "ok = (1 \<le> avail cfg m key now)" "buckets_wf cfg now m'"
    and "avail cfg m' k now = avail cfg m k now - (if k = key \<and> ok then 1 else 0)"
proof -
  define kept where "kept = evict cfg now m"
  define b where "b = (case kept key of Some b \<Rightarrow> b | None \<Rightarrow> \<lparr>bk_tokens = burst_of cfg, bk_last_refill = now\<rparr>)"
  have wf: "buckets_wf cfg now kept" unfolding kept_def by (rule evict_wf [OF assms(2)])
  have av: "avail cfg kept k now = avail cfg m k now" for k
    unfolding kept_def by (rule avail_evict [OF assms(1,2) order_refl])
  define tokens where
    "tokens = min (bk_tokens b + as_secs (duration_since now (bk_last_refill b)) * rl_rate_per_sec cfg) (burst_of cfg)"
  have last: "bk_last_refill b \<le> now" "0 \<le> bk_tokens b"
    using wf burst_nonneg [of cfg] by (auto simp: b_def buckets_wf_def split: option.splits)
  have tok: "tokens = avail cfg m key now"
    unfolding av [symmetric] using last(1) assms(1)
    by (auto simp: tokens_def b_def avail_def duration_since_def as_secs_def split: option.splits)
  have "0 \<le> as_secs (duration_since now (bk_last_refill b)) * rl_rate_per_sec cfg"
    using assms(1) by (simp add: limits_ok_def as_secs_def duration_since_def)
  then have bounds: "0 \<le> tokens" "tokens \<le> burst_of cfg"
    using last(2) burst_nonneg [of cfg] by (auto simp: tokens_def)
  have res: "ok = (1 \<le> tokens)"
    "m' = kept(key \<mapsto> \<lparr>bk_tokens = tokens - (if ok then 1 else 0), bk_last_refill = now\<rparr>)"
    using assms(3) unfolding try_acquire_at_def Let_def kept_def [symmetric] b_def [symmetric] tokens_def [symmetric]
    by (auto split: if_splits)
  from res(1) tok show "ok = (1 \<le> avail cfg m key now)" by simp
  show "buckets_wf cfg now m'"
    using wf bounds res(1) by (auto simp: res(2) buckets_wf_def)
  show "avail cfg m' k now = avail cfg m k now - (if k = key \<and> ok then 1 else 0)"
  proof (cases "k = key")
    case True
    have "avail cfg m' key now = min (tokens - (if ok then 1 else 0)) (burst_of cfg)"
      by (simp add: res(2) avail_def as_secs_def)
    with True bounds tok show ?thesis by simp
  next
    case False
    then have "avail cfg m' k now = avail cfg kept k now" by (simp add: res(2) avail_def)
    with av False show ?thesis by simp
  qed
qed

fun grants :: "rate_config \<Rightarrow> (string \<times> int) list \<Rightarrow> buckets \<Rightarrow> bool list \<times> buckets" where
  "grants cfg [] m = ([], m)"
| "grants cfg ((k, t) # cs) m =
     (let (ok, m') = try_acquire_at cfg k t m; (oks, m'') = grants cfg cs m' in (ok # oks, m''))"

definition granted :: "string \<Rightarrow> (string \<times> int) list \<Rightarrow> bool list \<Rightarrow> nat" where
  "granted key cs oks = count_where (\<lambda>(c, ok). fst c = key \<and> ok) (zip cs oks)"

lemma wf_later: "buckets_wf cfg s m \<Longrightarrow> s \<le> t \<Longrightarrow> buckets_wf cfg t m"
  by (force simp: buckets_wf_def)

lemma grants_wf:
  assumes "limits_ok cfg" and "buckets_wf cfg s m" and "sorted (map snd cs)" and "\<forall>c \<in> set cs. s \<le> snd c \<and> snd c \<le> e"
    and "s \<le> e" and "grants cfg cs m = (oks, m')"
  shows "buckets_wf cfg e m'"
  using assms
proof (induction cs arbitrary: m s oks m')
  case Nil
  then show ?case by (simp add: wf_later)
next
  case (Cons c cs)
  obtain k t where c: "c = (k, t)" by (cases c)
  obtain ok m1 where a: "try_acquire_at cfg k t m = (ok, m1)" by (cases "try_acquire_at cfg k t m")
  obtain oks' where g: "grants cfg cs m1 = (oks', m')"
    using Cons.prems(6) by (auto simp: c a Let_def split: prod.splits)
  have "buckets_wf cfg t m" using Cons.prems(2,4) by (auto intro: wf_later simp: c)
  from acquire_effect(2) [OF Cons.prems(1) this a] show ?case
    using Cons.prems(3,4) by (intro Cons.IH [OF Cons.prems(1) _ _ _ _ g]) (auto simp: c)
qed

lemma grants_bound:
  assumes "limits_ok cfg" and "buckets_wf cfg s m" and "sorted (map snd cs)" and "\<forall>c \<in> set cs. s \<le> snd c \<and> snd c \<le> e"
    and "s \<le> e"
  shows "rat_of_nat (granted key cs (fst (grants cfg cs m))) \<le> avail cfg m key s + as_secs (e - s) * rl_rate_per_sec cfg"
  using assms
proof (induction cs arbitrary: m s)
  case Nil
  have "0 \<le> avail cfg m key s + as_secs (e - s) * rl_rate_per_sec cfg"
    using Nil burst_nonneg [of cfg]
    by (auto simp: avail_def buckets_wf_def limits_ok_def as_secs_def split: option.splits intro!: add_nonneg_nonneg)
  then show ?case by (simp add: granted_def)
next
  case (Cons c cs)
  obtain k t where c: "c = (k, t)" by (cases c)
  obtain ok m1 where a: "try_acquire_at cfg k t m = (ok, m1)" by (cases "try_acquire_at cfg k t m")
  have t: "s \<le> t" "t \<le> e" using Cons.prems(4) by (auto simp: c)
  have wf: "buckets_wf cfg t m" by (rule wf_later [OF Cons.prems(2) t(1)])
  note acq = acquire_effect [OF Cons.prems(1) wf a]
  have "rat_of_nat (granted key cs (fst (grants cfg cs m1))) \<le> avail cfg m1 key t + as_secs (e - t) * rl_rate_per_sec cfg"
    using Cons.prems(3,4) t(2) by (intro Cons.IH [OF Cons.prems(1) acq(2)]) (auto simp: c)
  moreover have "rat_of_nat (granted key (c # cs) (fst (grants cfg (c # cs) m))) =
      (if key = k \<and> ok then 1 else 0) + rat_of_nat (granted key cs (fst (grants cfg cs m1)))"
    by (auto simp: granted_def c a Let_def split: prod.splits)
  moreover have "avail cfg m key t \<le> avail cfg m key s + as_secs (t - s) * rl_rate_per_sec cfg"
    by (rule avail_grows [OF Cons.prems(1) t(1)])
  ultimately show ?case by (simp add: acq(3) as_secs_diff algebra_simps)
qed

lemma avail_le: "avail cfg m k t \<le> burst_of cfg"
  by (auto simp: avail_def split: option.splits)

lemma empty_wf: "buckets_wf cfg s Map.empty"
  by (simp add: buckets_wf_def)

lemma split_once_None: "split_once d s = None \<longleftrightarrow> d \<notin> set s"
  by (induction s) auto

lemma rsplit_once_eq: "rsplit_once d s = Some (a, b) \<longleftrightarrow> s = a @ d # b \<and> d \<notin> set b"
  by (auto simp: rsplit_once_def split_once_eq rev_swap)

lemma rsplit_once_None: "rsplit_once d s = None \<longleftrightarrow> d \<notin> set s"
  by (simp add: rsplit_once_def split_once_None)

section \<open>Properties\<close>

text \<open>C16: Whatever the request, the platform and the process, the handler runs osascript at most once, and what it interpolates
  into the AppleScript call are only the characters of a session id (no quote, backslash or control character) or two
  numbers of up to four digits.\<close>
theorem focus_injection_free:
  "snd (fst (handle_focus macos spawn now req m)) = [] \<or>
   (\<exists>sid. snd (fst (handle_focus macos spawn now req m)) =
        [[''-e'', ITERM2_SCRIPT, ''-e'', ''focus_iterm2_session('' @ quote_char @ sid @ quote_char @ '')'']] \<and>
      set sid \<subseteq> set (''wtp:-'' @ hexes)) \<or>
   (\<exists>window tab. snd (fst (handle_focus macos spawn now req m)) =
        [[''-e'', TERMINAL_SCRIPT, ''-e'', ''focus_terminal_tab('' @ window @ '', '' @ tab @ '')'']] \<and>
      set (window @ tab) \<subseteq> set digits \<and> length window \<le> 4 \<and> length tab \<le> 4)"
proof -
  define rq where "rq = req\<lparr>fq_origin_remote := False\<rparr>"
  show ?thesis
  proof (cases "validate_focus_request rq")
    case (Inl e)
    then show ?thesis by (simp add: handle_focus_def rq_def Let_def)
  next
    case (Inr u)
    note ok = validated [OF Inr [unfolded unit_eq [of u]]]
    have index: "set w \<subseteq> set digits \<and> length w \<le> 4" if "regex_matches re_index w" for w
      using that by (simp only: re_index_def matches_single)
    have "snd (fst (handle_focus macos spawn now req m)) = [] \<or>
        snd (fst (handle_focus macos spawn now req m)) = snd (focus macos spawn rq)"
      using Inr by (simp add: handle_focus_def rq_def [symmetric] Let_def split: prod.splits)
    moreover have "snd (focus macos spawn rq) = [] \<or>
        (fq_target rq = Iterm2 \<and> snd (focus macos spawn rq) = snd (iterm2_focus spawn rq)) \<or>
        snd (focus macos spawn rq) = snd (terminal_focus spawn rq)"
      by (auto simp: focus_def split: terminal_app.splits)
    moreover have "snd (iterm2_focus spawn rq) = [] \<or> (\<exists>sid. snd (iterm2_focus spawn rq) =
        [[''-e'', ITERM2_SCRIPT, ''-e'', ''focus_iterm2_session('' @ quote_char @ sid @ quote_char @ '')'']] \<and>
      set sid \<subseteq> set (''wtp:-'' @ hexes))" if "fq_target rq = Iterm2"
      using iterm2_chars [OF ok(2) [OF that]]
      by (auto simp: iterm2_focus_def Let_def osascript_argv_def split: option.splits)
    moreover have "snd (terminal_focus spawn rq) = [] \<or> (\<exists>window tab. snd (terminal_focus spawn rq) =
        [[''-e'', TERMINAL_SCRIPT, ''-e'', ''focus_terminal_tab('' @ window @ '', '' @ tab @ '')'']] \<and>
      set (window @ tab) \<subseteq> set digits \<and> length window \<le> 4 \<and> length tab \<le> 4)"
      using index [OF ok(3)] index [OF ok(4)]
      by (auto simp: terminal_focus_def Let_def osascript_argv_def split: option.splits intro!: exI)
    ultimately show ?thesis by metis
  qed
qed

text \<open>C17: In a window of any length a key is granted at most its burst plus what the window refills, whatever keys the calls
  have, as long as an evicted bucket would have been full. The instants arrive in order, which the clock alone does not give:
  two calls may take the lock in the other order than they read the clock. Tokens are exact rationals, not rounded.\<close>
theorem limiter_bound:
  assumes "limits_ok cfg" and "sorted (map snd (hs @ cs))" and "\<forall>c \<in> set hs. snd c \<le> s"
    and "\<forall>c \<in> set cs. s \<le> snd c \<and> snd c \<le> e" and "s \<le> e" and "grants cfg hs Map.empty = (oks, m)"
  shows "rat_of_nat (granted key cs (fst (grants cfg cs m))) \<le> burst_of cfg + as_secs (e - s) * rl_rate_per_sec cfg"
proof -
  define s0 where "s0 = Min (set (s # map snd hs))"
  have "s0 \<le> s" "\<And>c. c \<in> set hs \<Longrightarrow> s0 \<le> snd c" by (auto simp: s0_def)
  with assms(2,3) have "buckets_wf cfg s m"
    by (intro grants_wf [OF assms(1) empty_wf _ _ _ assms(6), of s0]) (auto simp: sorted_append)
  moreover have "sorted (map snd cs)" using assms(2) by (simp add: sorted_append)
  ultimately have "rat_of_nat (granted key cs (fst (grants cfg cs m))) \<le> avail cfg m key s + as_secs (e - s) * rl_rate_per_sec cfg"
    by (rule grants_bound [OF assms(1) _ _ assms(4,5)])
  with avail_le [of cfg m key s] show ?thesis by linarith
qed

lemma default_limits: "limits_ok default_rate_config"
  by (simp add: limits_ok_def default_rate_config_def burst_of_def as_secs_def)

lemma limiter_bound_witness:
  "rat_of_nat (granted ''k'' [(''k'', 0), (''k'', 1000000000)]
     (fst (grants default_rate_config [(''k'', 0), (''k'', 1000000000)] Map.empty)))
   \<le> burst_of default_rate_config + as_secs 1000000000 * rl_rate_per_sec default_rate_config"
  using limiter_bound [OF default_limits, of "[]" "[(''k'', 0), (''k'', 1000000000)]" 0 1000000000 "[]" Map.empty "''k''"] by simp

text \<open>A request passes the host check exactly when it has no Host header or its text before the last colon (the whole
  text when there is none) names a loopback host; an IPv6 loopback without a port does not pass.\<close>
theorem host_check_exact:
  "host_check host = (host = None \<or>
     (\<exists>raw. host = Some raw \<and> (\<exists>h. (CHR '':'' \<notin> set raw \<and> raw = h \<or> (\<exists>port. raw = h @ CHR '':'' # port \<and> CHR '':'' \<notin> set port)) \<and>
        (\<exists>a \<in> set ALLOWED_HOSTS. eq_ignore_ascii_case h a)))) \<and>
   \<not> host_check (Some ''::1'') \<and> \<not> host_check (Some ''[::1]'') \<and> host_check (Some ''[::1]:4318'')"
proof (intro conjI)
  show "host_check host = (host = None \<or>
     (\<exists>raw. host = Some raw \<and> (\<exists>h. (CHR '':'' \<notin> set raw \<and> raw = h \<or> (\<exists>port. raw = h @ CHR '':'' # port \<and> CHR '':'' \<notin> set port)) \<and>
        (\<exists>a \<in> set ALLOWED_HOSTS. eq_ignore_ascii_case h a))))"
  proof (cases host)
    case (Some raw)
    show ?thesis
    proof (cases "rsplit_once CHR '':'' raw")
      case None
      then show ?thesis
        using Some rsplit_once_None [of "CHR '':''" raw] by (auto simp: host_check_def list_ex_iff)
    next
      case (Some p)
      obtain h port where p: "p = (h, port)" by (cases p)
      with Some have "raw = h @ CHR '':'' # port" "CHR '':'' \<notin> set port" by (simp_all add: rsplit_once_eq)
      moreover have "h' = h" if "raw = h' @ CHR '':'' # port'" "CHR '':'' \<notin> set port'" for h' port'
        using that Some p rsplit_once_eq [of "CHR '':''" raw h' port'] by simp
      ultimately show ?thesis
        using \<open>host = Some raw\<close> Some p by (auto simp: host_check_def list_ex_iff)
    qed
  qed (simp add: host_check_def)
  show "\<not> host_check (Some ''::1'')" "\<not> host_check (Some ''[::1]'')" "host_check (Some ''[::1]:4318'')"
    by code_simp+
qed

end
