(* ===== verification/Sync_Engine.thy ===== *)
theory Sync_Engine
  imports Store_Memory
begin

text \<open>
  The sync engine (gctrl-sync: engine.rs, d1.rs, parquet\_export.rs, manifest.rs): pushing unsynced board and memory rows of
  the SQLite store to Cloudflare D1, unsynced telemetry rows of DuckDB to R2 as Parquet objects, and the pull. The store's
  lock is not held while the network is awaited, so what other clients do meanwhile is an argument (\<^verbatim>\<open>others\<close>). Every network
  answer comes from a stream indexed by a call counter; D1 runs the statements d1.rs builds on its own tables.
\<close>

section \<open>Errors, configuration, manifest\<close>

datatype sync_error = Export string | Import string | R2 string | Manifest string | SyncIo string

record sync_config =
  cg_enabled :: bool
  cg_interval_seconds :: "64 word"
  cg_device_id :: string
  cg_auto_pull :: bool
  cg_r2_bucket :: string
  cg_r2_endpoint :: string
  cg_r2_access_key_id :: string
  cg_r2_secret_access_key :: string
  cg_d1_database_id :: string
  cg_d1_account_id :: string
  cg_d1_api_token :: string

record sync_event =
  se_timestamp :: timestamp
  se_push_id :: string
  se_total_rows :: nat

record sync_table_result =
  tr_table :: string
  tr_row_count :: nat
  tr_parquet_path :: string

record sync_manifest_entry =
  mn_push_id :: string
  mn_device_id :: string
  mn_timestamp :: timestamp
  mn_tables :: "sync_table_result list"

record sync_manifest =
  sm_workspace_id :: string
  sm_device_id :: string
  sm_pushes :: "sync_manifest_entry list"
  sm_last_pull :: "sync_event option"
  sm_context_hashes :: "string list"

record sync_result =
  sr_total :: nat
  sr_files :: "string list"
  sr_tables :: "sync_table_result list"

definition empty_result :: sync_result where "empty_result = \<lparr>sr_total = 0, sr_files = [], sr_tables = []\<rparr>"

text \<open>Rendering by serde\_json and Display: JSON texts, floats, storage errors, Debug of a list, HTTP status lines.\<close>
record sync_lib =
  sl_json_text :: "json \<Rightarrow> string"
  sl_number :: "f64 \<Rightarrow> json"
  sl_show :: "gctl_error \<Rightarrow> string"
  sl_debug :: "string list \<Rightarrow> string"
  sl_status :: "nat \<Rightarrow> string"

section \<open>Table names\<close>

definition SYNCABLE_TABLES :: "string list" where "SYNCABLE_TABLES = [''sessions'', ''spans'', ''traffic'']"

definition D1_SYNCABLE_TABLES :: "string list" where
  "D1_SYNCABLE_TABLES = [''projects'', ''issues'', ''comments'', ''issue_events'', ''tasks'', ''memory_entries'']"

definition SQLITE_SYNCABLE_TABLES :: "string list" where
  "SQLITE_SYNCABLE_TABLES =
     [''board_projects'', ''board_issues'', ''board_comments'', ''board_events'', ''tasks'', ''memory_entries'']"

definition sqlite_to_d1_table :: "string \<Rightarrow> string" where
  "sqlite_to_d1_table t =
     (if t = ''board_projects'' then ''projects'' else if t = ''board_issues'' then ''issues''
      else if t = ''board_comments'' then ''comments'' else if t = ''board_events'' then ''issue_events'' else t)"

definition validate_d1_table :: "sync_lib \<Rightarrow> string \<Rightarrow> sync_error + unit" where
  "validate_d1_table lib t =
     (if t \<in> set D1_SYNCABLE_TABLES then Inr ()
      else Inl (R2 (''table '' @ [CHR 0x27] @ t @ [CHR 0x27] @ '' is not D1-syncable (allowed: '' @
             sl_debug lib D1_SYNCABLE_TABLES @ '')'')))"

definition validate_r2_table :: "sync_lib \<Rightarrow> string \<Rightarrow> sync_error + unit" where
  "validate_r2_table lib t =
     (if t \<in> set SYNCABLE_TABLES then Inr ()
      else Inl (Export (''table '' @ [CHR 0x27] @ t @ [CHR 0x27] @ '' is not syncable (allowed: '' @
             sl_debug lib SYNCABLE_TABLES @ '')'')))"

definition resolve_tables :: "string list \<Rightarrow> string list" where
  "resolve_tables tables = (if tables = [] then SYNCABLE_TABLES @ SQLITE_SYNCABLE_TABLES else tables)"

section \<open>D1 rows\<close>

text \<open>A HashMap from column to value; the order of the list stands for the map's iteration order.\<close>
type_synonym d1_row = "(string \<times> json) list"

definition column :: "string \<Rightarrow> d1_row \<Rightarrow> json" where
  "column k row = (case map_of row k of None \<Rightarrow> JNull | Some v \<Rightarrow> v)"

definition opt_str :: "string option \<Rightarrow> json" where
  "opt_str v = (case v of None \<Rightarrow> JNull | Some s \<Rightarrow> JStr s)"

definition str_list :: "sync_lib \<Rightarrow> string list \<Rightarrow> json" where
  "str_list lib xs = JStr (sl_json_text lib (JArr (map JStr xs)))"

definition memory_d1_row :: "sync_lib \<Rightarrow> memory_entry \<Rightarrow> d1_row" where
  "memory_d1_row lib m =
     [(''id'', JStr (me_id m)), (''type'', JStr (memory_type_as_str (me_memory_type m))), (''name'', JStr (me_name m)),
      (''description'', JStr (me_description m)), (''body'', JStr (me_body m)), (''tags'', str_list lib (me_tags m)),
      (''device_id'', JStr (me_device_id m)), (''created_at'', JStr (me_created_at m)),
      (''updated_at'', JStr (me_updated_at m)), (''synced'', JNum 1)]"

definition project_d1_row :: "string \<Rightarrow> timestamp \<Rightarrow> board_project \<Rightarrow> d1_row" where
  "project_d1_row device now p =
     [(''id'', JStr (bp_id p)), (''name'', JStr (bp_name p)), (''key'', JStr (bp_key p)), (''counter'', JNum (bp_counter p)),
      (''github_repo'', opt_str (bp_github_repo p)), (''device_id'', JStr device), (''updated_at'', JStr now),
      (''synced'', JNum 1)]"

definition issue_d1_row :: "sync_lib \<Rightarrow> string \<Rightarrow> board_issue \<Rightarrow> d1_row" where
  "issue_d1_row lib device i =
     [(''id'', JStr (bi_id i)), (''project_id'', JStr (bi_project_id i)), (''title'', JStr (bi_title i)),
      (''description'', opt_str (bi_description i)), (''status'', JStr (issue_status_as_str (bi_status i))),
      (''priority'', JStr (bi_priority i)), (''assignee_id'', opt_str (bi_assignee_id i)),
      (''assignee_name'', opt_str (bi_assignee_name i)), (''assignee_type'', opt_str (bi_assignee_type i)),
      (''labels'', str_list lib (bi_labels i)), (''parent_id'', opt_str (bi_parent_id i)),
      (''created_at'', JStr (bi_created_at i)), (''updated_at'', JStr (bi_updated_at i)),
      (''created_by_id'', JStr (bi_created_by_id i)), (''created_by_name'', JStr (bi_created_by_name i)),
      (''created_by_type'', JStr (bi_created_by_type i)), (''blocked_by'', str_list lib (bi_blocked_by i)),
      (''blocking'', str_list lib (bi_blocking i)), (''session_ids'', str_list lib (bi_session_ids i)),
      (''total_cost_usd'', sl_number lib (bi_total_cost_usd i)), (''total_tokens'', JNum (uint (bi_total_tokens i))),
      (''pr_numbers'', JStr (sl_json_text lib (JArr (map (\<lambda>n. JNum (uint n)) (bi_pr_numbers i))))),
      (''github_issue_number'', case bi_github_issue_number i of None \<Rightarrow> JNull | Some n \<Rightarrow> JNum (uint n)),
      (''github_url'', opt_str (bi_github_url i)), (''device_id'', JStr device), (''synced'', JNum 1)]"

definition comment_d1_row :: "string \<Rightarrow> board_comment \<Rightarrow> d1_row" where
  "comment_d1_row device c =
     [(''id'', JStr (bc_id c)), (''issue_id'', JStr (bc_issue_id c)), (''author_id'', JStr (bc_author_id c)),
      (''author_name'', JStr (bc_author_name c)), (''author_type'', JStr (bc_author_type c)), (''body'', JStr (bc_body c)),
      (''created_at'', JStr (bc_created_at c)), (''session_id'', opt_str (bc_session_id c)), (''device_id'', JStr device),
      (''updated_at'', JStr (bc_created_at c)), (''synced'', JNum 1)]"

definition event_d1_row :: "sync_lib \<Rightarrow> string \<Rightarrow> board_event \<Rightarrow> d1_row" where
  "event_d1_row lib device e =
     [(''id'', JStr (be_id e)), (''issue_id'', JStr (be_issue_id e)), (''event_type'', JStr (be_event_type e)),
      (''actor_id'', JStr (be_actor_id e)), (''actor_name'', JStr (be_actor_name e)), (''actor_type'', JStr (be_actor_type e)),
      (''timestamp'', JStr (be_timestamp e)), (''data'', JStr (sl_json_text lib (be_data e))), (''device_id'', JStr device),
      (''updated_at'', JStr (be_timestamp e)), (''synced'', JNum 1)]"

section \<open>D1\<close>

record d1_db =
  dd_tables :: "string \<Rightarrow> d1_row list"
  dd_watermarks :: "string \<rightharpoonup> string"

text \<open>INSERT ... ON CONFLICT(id) DO UPDATE SET every other given column, or DO NOTHING when id is the only one.\<close>
definition set_columns :: "d1_row \<Rightarrow> d1_row \<Rightarrow> d1_row" where
  "set_columns new r = new @ filter (\<lambda>(k, _). k \<notin> fst ` set new) r"

definition upsert_row :: "d1_row \<Rightarrow> d1_row list \<Rightarrow> d1_row list" where
  "upsert_row new rows =
     (if list_ex (\<lambda>r. column ''id'' r = column ''id'' new) rows
      then (if filter (\<lambda>(k, _). k \<noteq> ''id'') new = [] then rows
            else update_where (\<lambda>r. column ''id'' r = column ''id'' new) (set_columns new) rows)
      else rows @ [new])"

definition upsert_stmt :: "string \<Rightarrow> d1_row \<Rightarrow> d1_db \<Rightarrow> d1_row list \<times> d1_db" where
  "upsert_stmt table new db = ([], db\<lparr>dd_tables := (dd_tables db)(table := upsert_row new (dd_tables db table))\<rparr>)"

text \<open>What comes back for one request: nothing, a status other than success, an unreadable body, the API's errors, or
  success with the rows of the statement.\<close>
datatype d1_answer = D1_Unsent string | D1_Status nat string | D1_Garbled string | D1_Errors "string list" | D1_Ok

text \<open>
  execute: the answer of request number n says whether the statement ran on the server and what was heard of it; a 429 is
  retried while attempts are left (three in all).
\<close>
primrec d1_execute ::
  "nat \<Rightarrow> sync_lib \<Rightarrow> (nat \<Rightarrow> bool \<times> d1_answer) \<Rightarrow> (d1_db \<Rightarrow> d1_row list \<times> d1_db) \<Rightarrow> nat \<Rightarrow> d1_db
   \<Rightarrow> (sync_error + d1_row list) \<times> nat \<times> d1_db" where
  "d1_execute 0 lib net stmt n db = (Inl (R2 ''D1 rate limit exceeded after 3 retries''), n, db)"
| "d1_execute (Suc left) lib net stmt n db =
     (let (ran, answer) = net n;
          (rows, db') = (if ran then stmt db else ([], db))
      in case answer of
           D1_Unsent e \<Rightarrow> (Inl (R2 (''D1 request: '' @ e)), Suc n, db')
         | D1_Status code text \<Rightarrow>
             if code = 429 then d1_execute left lib net stmt (Suc n) db'
             else (Inl (R2 (''D1 HTTP '' @ sl_status lib code @ '': '' @ text)), Suc n, db')
         | D1_Garbled e \<Rightarrow> (Inl (R2 (''D1 parse response: '' @ e)), Suc n, db')
         | D1_Errors es \<Rightarrow> (Inl (R2 (''D1 error: '' @ join '', '' es)), Suc n, db')
         | D1_Ok \<Rightarrow> (Inr rows, Suc n, db'))"

abbreviation d1_call :: "sync_lib \<Rightarrow> (nat \<Rightarrow> bool \<times> d1_answer) \<Rightarrow> (d1_db \<Rightarrow> d1_row list \<times> d1_db) \<Rightarrow> nat \<Rightarrow> d1_db
   \<Rightarrow> (sync_error + d1_row list) \<times> nat \<times> d1_db" where
  "d1_call \<equiv> d1_execute 3"

fun upsert_rows ::
  "sync_lib \<Rightarrow> (nat \<Rightarrow> bool \<times> d1_answer) \<Rightarrow> string \<Rightarrow> string list \<Rightarrow> d1_row list \<Rightarrow> nat \<Rightarrow> d1_db
   \<Rightarrow> (sync_error + nat) \<times> nat \<times> d1_db" where
  "upsert_rows lib net table cols [] n db = (Inr 0, n, db)"
| "upsert_rows lib net table cols (row # rows) n db =
     (case d1_call lib net (upsert_stmt table (map (\<lambda>c. (c, column c row)) cols)) n db of
        (Inl e, n', db') \<Rightarrow> (Inl e, n', db')
      | (Inr _, n', db') \<Rightarrow>
          (case upsert_rows lib net table cols rows n' db' of
             (Inl e, n'', db'') \<Rightarrow> (Inl e, n'', db'')
           | (Inr written, n'', db'') \<Rightarrow> (Inr (Suc written), n'', db'')))"

definition batch_upsert ::
  "sync_lib \<Rightarrow> (nat \<Rightarrow> bool \<times> d1_answer) \<Rightarrow> string \<Rightarrow> d1_row list \<Rightarrow> nat \<Rightarrow> d1_db \<Rightarrow> (sync_error + nat) \<times> nat \<times> d1_db" where
  "batch_upsert lib net table rows n db =
     (case rows of
        [] \<Rightarrow> (Inr 0, n, db)
      | row # _ \<Rightarrow>
          (case validate_d1_table lib table of
             Inl e \<Rightarrow> (Inl e, n, db)
           | Inr _ \<Rightarrow> upsert_rows lib net table (map fst row) rows n db))"

text \<open>ORDER BY on a column that other devices wrote as text.\<close>
definition text_of :: "json \<Rightarrow> string" where
  "text_of v = (case v of JStr s \<Rightarrow> s | _ \<Rightarrow> [])"

text \<open>device\_id != ? is not true of NULL.\<close>
definition other_device :: "string \<Rightarrow> json \<Rightarrow> bool" where
  "other_device device v \<longleftrightarrow> v \<noteq> JNull \<and> v \<noteq> JStr device"

definition query_since ::
  "sync_lib \<Rightarrow> (nat \<Rightarrow> bool \<times> d1_answer) \<Rightarrow> string \<Rightarrow> string \<Rightarrow> string \<Rightarrow> nat \<Rightarrow> d1_db \<Rightarrow> (sync_error + d1_row list) \<times> nat \<times> d1_db" where
  "query_since lib net table watermark device n db =
     (case validate_d1_table lib table of
        Inl e \<Rightarrow> (Inl e, n, db)
      | Inr _ \<Rightarrow> d1_call lib net (\<lambda>db. (order_asc (\<lambda>r. text_of (column ''updated_at'' r))
            (filter (\<lambda>r. watermark < text_of (column ''updated_at'' r) \<and> other_device device (column ''device_id'' r))
              (dd_tables db table)), db)) n db)"

definition get_watermark ::
  "sync_lib \<Rightarrow> (nat \<Rightarrow> bool \<times> d1_answer) \<Rightarrow> string \<Rightarrow> nat \<Rightarrow> d1_db \<Rightarrow> (sync_error + string option) \<times> nat \<times> d1_db" where
  "get_watermark lib net device n db =
     (case d1_call lib net (\<lambda>db. (case dd_watermarks db device of None \<Rightarrow> [] | Some w \<Rightarrow> [[(''last_pull_at'', JStr w)]], db)) n db of
        (Inl e, n', db') \<Rightarrow> (Inl e, n', db')
      | (Inr rows, n', db') \<Rightarrow>
          (Inr (case rows of [] \<Rightarrow> None
             | r # _ \<Rightarrow> (case map_of r ''last_pull_at'' of Some (JStr w) \<Rightarrow> Some w | _ \<Rightarrow> None)), n', db'))"

definition set_watermark ::
  "sync_lib \<Rightarrow> (nat \<Rightarrow> bool \<times> d1_answer) \<Rightarrow> string \<Rightarrow> string \<Rightarrow> nat \<Rightarrow> d1_db \<Rightarrow> (sync_error + unit) \<times> nat \<times> d1_db" where
  "set_watermark lib net device ts n db =
     (case d1_call lib net (\<lambda>db. ([], db\<lparr>dd_watermarks := (dd_watermarks db)(device \<mapsto> ts)\<rparr>)) n db of
        (Inl e, n', db') \<Rightarrow> (Inl e, n', db')
      | (Inr _, n', db') \<Rightarrow> (Inr (), n', db'))"

section \<open>Pushing a table to D1\<close>

text \<open>DuckDB rows: column texts (NULL for None and for a value that does not read as text) and the synced flag.\<close>
record duck_row =
  dr_columns :: "(string \<times> string option) list"
  dr_synced :: bool

datatype r2_object = Parquet "duck_row list" | RemoteManifest sync_manifest | Unreadable string

record sync_sys =
  sy_store :: store
  sy_duck :: "string \<Rightarrow> duck_row list"
  sy_calls :: nat
  sy_d1 :: d1_db
  sy_r2 :: "string \<rightharpoonup> r2_object"
  sy_manifest :: "sync_manifest option"

definition exported :: "sync_lib \<Rightarrow> string \<Rightarrow> gctl_error + 'a \<Rightarrow> sync_error + 'a" where
  "exported lib what r = (case r of Inl e \<Rightarrow> Inl (Export (what @ '': '' @ sl_show lib e)) | Inr x \<Rightarrow> Inr x)"

text \<open>The rows to push and their ids, as the store lists them (at most 100), for the tables of SQLite.\<close>
definition pending_d1 :: "sync_lib \<Rightarrow> timestamp \<Rightarrow> string \<Rightarrow> store \<Rightarrow> sync_error + (d1_row list \<times> string list)" where
  "pending_d1 lib now table s =
     (if table = ''memory_entries'' then
        map_sum id (\<lambda>ms. (map (memory_d1_row lib) ms, map me_id ms))
          (exported lib ''list unsynced memories'' (fst (list_unsynced_memories 100 s)))
      else if table = ''board_projects'' then
        map_sum id (\<lambda>ps. (map (project_d1_row (st_device_id s) now) ps, map bp_id ps))
          (exported lib ''list unsynced projects'' (fst (list_unsynced_board_projects 100 s)))
      else if table = ''board_issues'' then
        map_sum id (\<lambda>xs. (map (issue_d1_row lib (st_device_id s)) xs, map bi_id xs))
          (exported lib ''list unsynced issues'' (fst (list_unsynced_board_issues 100 s)))
      else if table = ''board_comments'' then
        map_sum id (\<lambda>cs. (map (comment_d1_row (st_device_id s)) cs, map bc_id cs))
          (exported lib ''list unsynced comments'' (fst (list_unsynced_board_comments 100 s)))
      else
        map_sum id (\<lambda>es. (map (event_d1_row lib (st_device_id s)) es, map be_id es))
          (exported lib ''list unsynced events'' (fst (list_unsynced_board_events 100 s))))"

definition mark_table :: "string \<Rightarrow> string list \<Rightarrow> (store, unit) db" where
  "mark_table table ids =
     (if table = ''memory_entries'' then mark_memories_synced ids
      else if table = ''board_projects'' then mark_board_projects_synced ids
      else if table = ''board_issues'' then mark_board_issues_synced ids
      else if table = ''board_comments'' then mark_board_comments_synced ids
      else mark_board_events_synced ids)"

text \<open>Board and memory tables: list, upsert into D1 while others use the store, mark the listed ids.\<close>
definition push_store_table ::
  "sync_lib \<Rightarrow> (nat \<Rightarrow> bool \<times> d1_answer) \<Rightarrow> (store \<Rightarrow> store) \<Rightarrow> timestamp \<Rightarrow> string \<Rightarrow> sync_sys \<Rightarrow> (sync_error + nat) \<times> sync_sys" where
  "push_store_table lib net others now table y =
     (case pending_d1 lib now table (sy_store y) of
        Inl e \<Rightarrow> (Inl e, y)
      | Inr (rows, ids) \<Rightarrow>
          if rows = [] then (Inr 0, y)
          else let (r, n, d1) = batch_upsert lib net (sqlite_to_d1_table table) rows (sy_calls y) (sy_d1 y);
                   y1 = y\<lparr>sy_calls := n, sy_d1 := d1, sy_store := others (sy_store y)\<rparr>
            in case r of
                 Inl e \<Rightarrow> (Inl e, y1)
               | Inr count \<Rightarrow>
                   (case exported lib (if table = ''memory_entries'' then ''mark memories synced'' else ''mark board synced'')
                           (fst (mark_table table ids (sy_store y1))) of
                      Inl e \<Rightarrow> (Inl e, y1)
                    | Inr _ \<Rightarrow> (Inr count, y1\<lparr>sy_store := snd (mark_table table ids (sy_store y1))\<rparr>)))"

definition mark_duck :: "string \<Rightarrow> (string \<Rightarrow> duck_row list) \<Rightarrow> string \<Rightarrow> duck_row list" where
  "mark_duck table duck = duck(table := update_where (\<lambda>r. \<not> dr_synced r) (dr_synced_update (\<lambda>_. True)) (duck table))"

definition unsynced_duck :: "string \<Rightarrow> (string \<Rightarrow> duck_row list) \<Rightarrow> duck_row list" where
  "unsynced_duck table duck = filter (\<lambda>r. \<not> dr_synced r) (duck table)"

text \<open>The tasks table of DuckDB, marked by its flag and not by the ids that were read.\<close>
definition push_duck_tasks ::
  "sync_lib \<Rightarrow> (nat \<Rightarrow> bool \<times> d1_answer) \<Rightarrow> ((string \<Rightarrow> duck_row list) \<Rightarrow> string \<Rightarrow> duck_row list) \<Rightarrow> sync_sys
   \<Rightarrow> (sync_error + nat) \<times> sync_sys" where
  "push_duck_tasks lib net writers y =
     (let rows = map (\<lambda>r. map (\<lambda>(k, v). (k, opt_str v)) (filter (\<lambda>(k, _). k \<noteq> ''synced'') (dr_columns r)))
            (unsynced_duck ''tasks'' (sy_duck y))
      in if rows = [] then (Inr 0, y)
         else let (r, n, d1) = batch_upsert lib net ''tasks'' rows (sy_calls y) (sy_d1 y);
                  y1 = y\<lparr>sy_calls := n, sy_d1 := d1, sy_duck := writers (sy_duck y)\<rparr>
           in case r of
                Inl e \<Rightarrow> (Inl e, y1)
              | Inr count \<Rightarrow> (Inr count, y1\<lparr>sy_duck := mark_duck ''tasks'' (sy_duck y1)\<rparr>))"

record sync_env =
  sv_d1 :: bool
  sv_sqlite :: bool
  sv_net :: "nat \<Rightarrow> bool \<times> d1_answer"
  sv_put :: "nat \<Rightarrow> sync_error option"
  sv_others :: "store \<Rightarrow> store"
  sv_writers :: "(string \<Rightarrow> duck_row list) \<Rightarrow> string \<Rightarrow> duck_row list"

definition push_table_to_d1 :: "sync_lib \<Rightarrow> sync_env \<Rightarrow> timestamp \<Rightarrow> string \<Rightarrow> sync_sys \<Rightarrow> (sync_error + nat) \<times> sync_sys" where
  "push_table_to_d1 lib env now table y =
     (if \<not> sv_d1 env then (Inr 0, y)
      else if table \<in> set [''memory_entries'', ''board_projects'', ''board_issues'', ''board_comments'', ''board_events''] then
        (if \<not> sv_sqlite env then (Inr 0, y)
         else push_store_table lib (sv_net env) (sv_others env) now table y)
      else if table = ''tasks'' then push_duck_tasks lib (sv_net env) (sv_writers env) y
      else (Inr 0, y))"

section \<open>Pushing a table to R2\<close>

definition r2_key :: "string \<Rightarrow> string \<Rightarrow> string \<Rightarrow> string \<Rightarrow> string \<Rightarrow> string" where
  "r2_key ws device table date push_id =
     ws @ ''/'' @ device @ ''/'' @ table @ ''/'' @ date @ ''/'' @ push_id @ ''.parquet''"

text \<open>export\_table: the rows a COPY writes to the staging file, none when there is nothing to send.\<close>
definition export_table :: "sync_lib \<Rightarrow> string \<Rightarrow> (string \<Rightarrow> duck_row list) \<Rightarrow> sync_error + duck_row list" where
  "export_table lib table duck =
     (case validate_r2_table lib table of Inl e \<Rightarrow> Inl e | Inr _ \<Rightarrow> Inr (unsynced_duck table duck))"

definition pending_count :: "sync_lib \<Rightarrow> string \<Rightarrow> (string \<Rightarrow> duck_row list) \<Rightarrow> sync_error + nat" where
  "pending_count lib table duck =
     (case validate_r2_table lib table of Inl e \<Rightarrow> Inl e | Inr _ \<Rightarrow> Inr (length (unsynced_duck table duck)))"

definition push_table_to_r2 ::
  "sync_lib \<Rightarrow> sync_env \<Rightarrow> string \<Rightarrow> string \<Rightarrow> sync_sys \<Rightarrow> (sync_error + nat) \<times> sync_sys" where
  "push_table_to_r2 lib env key table y =
     (case export_table lib table (sy_duck y) of
        Inl e \<Rightarrow> (Inl e, y)
      | Inr rows \<Rightarrow>
          if rows = [] then (Inr 0, y)
          else let y1 = y\<lparr>sy_calls := Suc (sy_calls y), sy_duck := sv_writers env (sy_duck y)\<rparr>
            in case sv_put env (sy_calls y) of
                 Some e \<Rightarrow> (Inl e, y1)
               | None \<Rightarrow> (Inr (length rows),
                   y1\<lparr>sy_r2 := (sy_r2 y1)(key \<mapsto> Parquet rows), sy_duck := mark_duck table (sy_duck y1)\<rparr>))"

section \<open>Push\<close>

text \<open>The loop over the tables: an error ends it (and the push) at once.\<close>
fun push_tables ::
  "sync_lib \<Rightarrow> sync_env \<Rightarrow> timestamp \<Rightarrow> (string \<Rightarrow> string) \<Rightarrow> string list \<Rightarrow> sync_result \<Rightarrow> sync_sys
   \<Rightarrow> (sync_error + sync_result) \<times> sync_sys" where
  "push_tables lib env now key [] res y = (Inr res, y)"
| "push_tables lib env now key (table # tables) res y =
     (if table \<in> set SQLITE_SYNCABLE_TABLES then
        (case push_table_to_d1 lib env now table y of
           (Inl e, y') \<Rightarrow> (Inl e, y')
         | (Inr count, y') \<Rightarrow> push_tables lib env now key tables
             (if 0 < count
              then res\<lparr>sr_total := sr_total res + count, sr_tables := sr_tables res @
                     [\<lparr>tr_table = table, tr_row_count = count, tr_parquet_path = ''d1://'' @ table\<rparr>]\<rparr>
              else res) y')
      else
        (case push_table_to_r2 lib env (key table) table y of
           (Inl e, y') \<Rightarrow> (Inl e, y')
         | (Inr count, y') \<Rightarrow> push_tables lib env now key tables
             (if 0 < count
              then res\<lparr>sr_total := sr_total res + count, sr_files := sr_files res @ [key table], sr_tables := sr_tables res @
                     [\<lparr>tr_table = table, tr_row_count = count, tr_parquet_path = key table\<rparr>]\<rparr>
              else res) y'))"

definition load_local :: "string \<Rightarrow> string \<Rightarrow> sync_manifest option \<Rightarrow> sync_manifest" where
  "load_local ws device m =
     (case m of
        Some m \<Rightarrow> m
      | None \<Rightarrow> \<lparr>sm_workspace_id = ws, sm_device_id = device, sm_pushes = [], sm_last_pull = None, sm_context_hashes = []\<rparr>)"

definition record_push :: "sync_manifest_entry \<Rightarrow> sync_manifest \<Rightarrow> sync_manifest" where
  "record_push entry m = m\<lparr>sm_pushes := sm_pushes m @ [entry]\<rparr>"

definition push ::
  "sync_lib \<Rightarrow> sync_config \<Rightarrow> sync_env \<Rightarrow> string \<Rightarrow> timestamp \<Rightarrow> string \<Rightarrow> string \<Rightarrow> string list \<Rightarrow> sync_sys
   \<Rightarrow> (sync_error + sync_result) \<times> sync_sys" where
  "push lib config env ws now date push_id tables y =
     (case push_tables lib env now (\<lambda>table. r2_key ws (cg_device_id config) table date push_id) (resolve_tables tables)
             empty_result y of
        (Inl e, y') \<Rightarrow> (Inl e, y')
      | (Inr res, y') \<Rightarrow>
          let r2_results = filter (\<lambda>t. \<not> prefix ''d1://'' (tr_parquet_path t)) (sr_tables res)
          in (Inr res,
              if r2_results = [] then y'
              else y'\<lparr>sy_manifest := Some (record_push
                     \<lparr>mn_push_id = push_id, mn_device_id = cg_device_id config, mn_timestamp = now, mn_tables = r2_results\<rparr>
                     (load_local ws (cg_device_id config) (sy_manifest y')))\<rparr>))"

section \<open>Pull\<close>

fun pull_d1_tables ::
  "sync_lib \<Rightarrow> (nat \<Rightarrow> bool \<times> d1_answer) \<Rightarrow> string \<Rightarrow> string \<Rightarrow> string list \<Rightarrow> sync_result \<Rightarrow> sync_sys
   \<Rightarrow> (sync_error + sync_result) \<times> sync_sys" where
  "pull_d1_tables lib net watermark device [] res y = (Inr res, y)"
| "pull_d1_tables lib net watermark device (table # tables) res y =
     (case query_since lib net (sqlite_to_d1_table table) watermark device (sy_calls y) (sy_d1 y) of
        (Inl e, n, d1) \<Rightarrow> (Inl e, y\<lparr>sy_calls := n, sy_d1 := d1\<rparr>)
      | (Inr rows, n, d1) \<Rightarrow> pull_d1_tables lib net watermark device tables
          (if rows = [] then res
           else res\<lparr>sr_total := sr_total res + length rows, sr_tables := sr_tables res @
                  [\<lparr>tr_table = table, tr_row_count = length rows, tr_parquet_path = ''d1://'' @ table\<rparr>]\<rparr>)
          (y\<lparr>sy_calls := n, sy_d1 := d1\<rparr>))"

definition pull_d1 ::
  "sync_lib \<Rightarrow> sync_config \<Rightarrow> sync_env \<Rightarrow> timestamp \<Rightarrow> string list \<Rightarrow> sync_sys \<Rightarrow> (sync_error + sync_result) \<times> sync_sys" where
  "pull_d1 lib config env now tables y =
     (let d1_tables = filter (\<lambda>t. t \<in> set SQLITE_SYNCABLE_TABLES) tables
      in if d1_tables = [] \<or> \<not> sv_d1 env then (Inr empty_result, y)
         else (case get_watermark lib (sv_net env) (cg_device_id config) (sy_calls y) (sy_d1 y) of
                 (Inl e, n, d1) \<Rightarrow> (Inl e, y\<lparr>sy_calls := n, sy_d1 := d1\<rparr>)
               | (Inr w, n, d1) \<Rightarrow>
                   (case pull_d1_tables lib (sv_net env) (case w of None \<Rightarrow> ''1970-01-01T00:00:00Z'' | Some w \<Rightarrow> w)
                           (cg_device_id config) d1_tables empty_result (y\<lparr>sy_calls := n, sy_d1 := d1\<rparr>) of
                      (Inl e, y') \<Rightarrow> (Inl e, y')
                    | (Inr res, y') \<Rightarrow>
                        if 0 < sr_total res then
                          (case set_watermark lib (sv_net env) (cg_device_id config) now (sy_calls y') (sy_d1 y') of
                             (Inl e, n', d1') \<Rightarrow> (Inl e, y'\<lparr>sy_calls := n', sy_d1 := d1'\<rparr>)
                           | (Inr _, n', d1') \<Rightarrow> (Inr res, y'\<lparr>sy_calls := n', sy_d1 := d1'\<rparr>))
                        else (Inr res, y'))))"

text \<open>INSERT OR IGNORE of the rows of a Parquet file: rows whose id is present are skipped.\<close>
definition duck_id :: "duck_row \<Rightarrow> string option" where
  "duck_id r = (case map_of (dr_columns r) ''id'' of None \<Rightarrow> None | Some v \<Rightarrow> v)"

definition insert_or_ignore :: "duck_row list \<Rightarrow> duck_row list \<Rightarrow> duck_row list" where
  "insert_or_ignore new rows =
     foldl (\<lambda>rs r. if list_ex (\<lambda>x. duck_id x = duck_id r) rs then rs else rs @ [r]) rows new"

fun pull_entries ::
  "(string \<Rightarrow> sync_error) \<Rightarrow> (string \<times> sync_table_result) list \<Rightarrow> sync_result \<Rightarrow> sync_sys
   \<Rightarrow> (sync_error + sync_result) \<times> sync_sys" where
  "pull_entries fail [] res y = (Inr res, y)"
| "pull_entries fail ((_, t) # ts) res y =
     (case sy_r2 y (tr_parquet_path t) of
        Some (Parquet rows) \<Rightarrow> pull_entries fail ts
          (res\<lparr>sr_total := sr_total res + tr_row_count t, sr_files := sr_files res @ [tr_parquet_path t],
               sr_tables := sr_tables res @ [t]\<rparr>)
          (y\<lparr>sy_duck := (sy_duck y)(tr_table t := insert_or_ignore rows (sy_duck y (tr_table t)))\<rparr>)
      | _ \<Rightarrow> (Inl (fail (tr_parquet_path t)), y))"

definition wanted_entries :: "string \<Rightarrow> timestamp option \<Rightarrow> string list \<Rightarrow> sync_manifest \<Rightarrow> (string \<times> sync_table_result) list" where
  "wanted_entries device last_pull r2_tables remote =
     concat (map (\<lambda>p. map (\<lambda>t. (mn_push_id p, t)) (filter (\<lambda>t. tr_table t \<in> set r2_tables) (mn_tables p)))
       (filter (\<lambda>p. mn_device_id p \<noteq> device \<and> (case last_pull of None \<Rightarrow> True | Some ts \<Rightarrow> ts < mn_timestamp p)) (sm_pushes remote)))"

definition pull ::
  "sync_lib \<Rightarrow> sync_config \<Rightarrow> sync_env \<Rightarrow> string \<Rightarrow> timestamp \<Rightarrow> (string \<Rightarrow> sync_error) \<Rightarrow> string list \<Rightarrow> sync_sys
   \<Rightarrow> (sync_error + sync_result) \<times> sync_sys" where
  "pull lib config env ws now fail tables y =
     (case pull_d1 lib config env now (resolve_tables tables) y of
        (Inl e, y1) \<Rightarrow> (Inl e, y1)
      | (Inr res, y1) \<Rightarrow>
          let r2_tables = filter (\<lambda>t. t \<in> set SYNCABLE_TABLES) (resolve_tables tables)
          in if r2_tables = [] then (Inr res, y1)
             else (case sy_r2 y1 (ws @ ''/manifest.json'') of
                     None \<Rightarrow> (Inr res, y1)
                   | Some (RemoteManifest remote) \<Rightarrow>
                       (case pull_entries fail
                               (wanted_entries (cg_device_id config)
                                 (map_option se_timestamp (sm_last_pull (load_local ws (cg_device_id config) (sy_manifest y1))))
                                 r2_tables remote) res y1 of
                          (Inl e, y2) \<Rightarrow> (Inl e, y2)
                        | (Inr res', y2) \<Rightarrow>
                            (Inr res', if sr_tables res' = [] then y2
                               else y2\<lparr>sy_manifest := Some ((load_local ws (cg_device_id config) (sy_manifest y2))
                                      \<lparr>sm_last_pull := Some \<lparr>se_timestamp = now, se_push_id = ''pull'', se_total_rows = sr_total res'\<rparr>\<rparr>)\<rparr>))
                   | Some (Unreadable e) \<Rightarrow> (Inl (Manifest (''parse remote manifest: '' @ e)), y1)
                   | Some (Parquet _) \<Rightarrow> (Inl (Manifest ''parse remote manifest: expected value''), y1)))"

section \<open>Status\<close>

record sync_pending_rows =
  sp_sessions :: nat
  sp_spans :: nat
  sp_traffic :: nat
  sp_tasks :: nat
  sp_context :: nat
  sp_memory :: nat
  sp_board_projects :: nat
  sp_board_issues :: nat
  sp_board_comments :: nat
  sp_board_events :: nat

definition count_or_0 :: "'e + nat \<Rightarrow> nat" where
  "count_or_0 r = (case r of Inl _ \<Rightarrow> 0 | Inr n \<Rightarrow> n)"

definition pending_rows :: "sync_lib \<Rightarrow> bool \<Rightarrow> sync_sys \<Rightarrow> sync_pending_rows" where
  "pending_rows lib sqlite y =
     (let duck = (\<lambda>t. count_or_0 (pending_count lib t (sy_duck y)));
          mem = (case fst (get_memory_stats (sy_store y)) of Inl _ \<Rightarrow> 0 | Inr st \<Rightarrow> ms_unsynced st);
          board = (case fst (count_unsynced_board (sy_store y)) of Inl _ \<Rightarrow> (0, 0, 0, 0) | Inr c \<Rightarrow> c)
      in \<lparr>sp_sessions = duck ''sessions'', sp_spans = duck ''spans'', sp_traffic = duck ''traffic'', sp_tasks = 0, sp_context = 0,
          sp_memory = (if sqlite then mem else 0), sp_board_projects = (if sqlite then fst board else 0),
          sp_board_issues = (if sqlite then fst (snd board) else 0),
          sp_board_comments = (if sqlite then fst (snd (snd board)) else 0),
          sp_board_events = (if sqlite then snd (snd (snd board)) else 0)\<rparr>)"

record sync_status =
  su_enabled :: bool
  su_device_id :: string
  su_pending :: sync_pending_rows
  su_last_push :: "sync_event option"
  su_last_pull :: "sync_event option"
  su_r2_reachable :: "bool option"
  su_d1_reachable :: "bool option"

definition d1_enabled :: "sync_config \<Rightarrow> bool" where
  "d1_enabled config \<longleftrightarrow> cg_d1_database_id config \<noteq> [] \<and> cg_d1_account_id config \<noteq> [] \<and> cg_d1_api_token config \<noteq> []"

definition status :: "sync_lib \<Rightarrow> sync_config \<Rightarrow> sync_env \<Rightarrow> string \<Rightarrow> bool \<Rightarrow> bool \<Rightarrow> sync_sys \<Rightarrow> sync_status" where
  "status lib config env ws r2_healthy d1_healthy y =
     (let m = load_local ws (cg_device_id config) (sy_manifest y)
      in \<lparr>su_enabled = cg_enabled config, su_device_id = cg_device_id config,
          su_pending = pending_rows lib (sv_sqlite env) y,
          su_last_push = (if sm_pushes m = [] then None
            else let e = last (sm_pushes m)
              in Some \<lparr>se_timestamp = mn_timestamp e, se_push_id = mn_push_id e,
                       se_total_rows = sum_list (map tr_row_count (mn_tables e))\<rparr>),
          su_last_pull = sm_last_pull m,
          su_r2_reachable = (if cg_enabled config then Some r2_healthy else None),
          su_d1_reachable = (if d1_enabled config \<and> sv_d1 env then Some d1_healthy else None)\<rparr>)"

section \<open>Upserts reach D1\<close>

definition holds_row :: "string \<Rightarrow> d1_row \<Rightarrow> d1_db \<Rightarrow> bool" where
  "holds_row table row db \<longleftrightarrow> (\<exists>r \<in> set (dd_tables db table). \<forall>(c, v) \<in> set row. column c r = v)"

text \<open>The answers are honest: success is reported only for a statement that ran.\<close>
definition honest :: "(nat \<Rightarrow> bool \<times> d1_answer) \<Rightarrow> bool" where
  "honest net \<longleftrightarrow> (\<forall>n. snd (net n) = D1_Ok \<longrightarrow> fst (net n))"

lemma d1_execute_keeps:
  assumes "\<And>db. P db \<Longrightarrow> P (snd (stmt db))" and "P db"
  shows "P (snd (snd (d1_execute k lib net stmt n db)))"
  using assms(2)
proof (induction k arbitrary: n db)
  case (Suc k)
  obtain ran answer where a: "net n = (ran, answer)" by (cases "net n")
  obtain rows db' where r: "(if ran then stmt db else ([], db)) = (rows, db')" by fastforce
  then have p: "P db'" using assms(1) [OF Suc.prems] Suc.prems by (cases ran) auto
  show ?case
    using Suc.IH [OF p] p by (cases answer) (simp_all add: a r)
qed simp

lemma d1_execute_ok:
  assumes "honest net" and "d1_execute k lib net stmt n db = (Inr rows, n', db')"
  shows "\<exists>db0. (rows, db') = stmt db0"
  using assms(2)
proof (induction k arbitrary: n db)
  case (Suc k)
  obtain ran answer where a: "net n = (ran, answer)" by (cases "net n")
  show ?case
  proof (cases answer)
    case D1_Ok
    with assms(1) a have ran by (metis fst_conv honest_def snd_conv)
    with Suc.prems a D1_Ok have "(rows, db') = stmt db" by (cases "stmt db") simp
    then show ?thesis by blast
  next
    case (D1_Status code body)
    obtain xs db1 where r: "(if ran then stmt db else ([], db)) = (xs, db1)" by fastforce
    with Suc.prems a D1_Status have "code = 429" "d1_execute k lib net stmt (Suc n) db1 = (Inr rows, n', db')"
      by (auto split: if_splits)
    then show ?thesis using Suc.IH by blast
  next
    case (D1_Unsent e)
    with Suc.prems a show ?thesis by (auto split: prod.splits)
  next
    case (D1_Garbled e)
    with Suc.prems a show ?thesis by (auto split: prod.splits)
  next
    case (D1_Errors es)
    with Suc.prems a show ?thesis by (auto split: prod.splits)
  qed
qed simp

lemma map_of_append_key: "k \<in> fst ` set new \<Longrightarrow> map_of (new @ old) k = map_of new k"
  by (cases "map_of new k") (auto simp: map_of_eq_None_iff)

lemma column_set_columns:
  assumes "distinct (map fst new)"
  shows "column k (set_columns new r) = (if k \<in> fst ` set new then column k new else column k r)"
proof (cases "k \<in> fst ` set new")
  case True
  then show ?thesis by (simp add: column_def set_columns_def map_of_append_key del: map_of_append)
next
  case False
  then have k: "map_of new k = None" by (simp add: map_of_eq_None_iff)
  from False have nk: "(k, v) \<notin> set new" for v by force
  with False have "map_of (filter (\<lambda>(k, _). k \<notin> fst ` set new) r) k = map_of r k"
    by (induction r) (auto simp: nk)
  with False k show ?thesis by (simp only: column_def set_columns_def map_of_append map_add_def k option.case if_False)
qed

lemma column_in: "distinct (map fst row) \<Longrightarrow> (c, v) \<in> set row \<Longrightarrow> column c row = v"
  by (simp add: column_def)

lemma upsert_has:
  assumes "distinct (map fst new)" and "(''id'', v) \<in> set new"
  shows "\<exists>r \<in> set (upsert_row new rows). \<forall>(c, v) \<in> set new. column c r = v"
proof (cases "list_ex (\<lambda>r. column ''id'' r = column ''id'' new) rows")
  case False
  then show ?thesis using column_in [OF assms(1)] by (auto simp: upsert_row_def)
next
  case True
  then obtain r where r: "r \<in> set rows" "column ''id'' r = column ''id'' new" by (auto simp: list_ex_iff)
  show ?thesis
  proof (cases "filter (\<lambda>(k, _). k \<noteq> ''id'') new = []")
    case True
    then have "\<forall>(c, w) \<in> set new. c = ''id''" by (auto simp: filter_empty_conv)
    moreover have "column ''id'' new = w" if "(''id'', w) \<in> set new" for w
      using column_in [OF assms(1) that] .
    ultimately show ?thesis using True r \<open>list_ex _ rows\<close> by (auto simp: upsert_row_def intro!: bexI [of _ r])
  next
    case False
    have "set_columns new r \<in> set (upsert_row new rows)"
      using False r \<open>list_ex _ rows\<close> by (auto simp: upsert_row_def update_where_def image_iff intro!: bexI [of _ r])
    moreover have "\<forall>(c, w) \<in> set new. column c (set_columns new r) = w"
      using column_set_columns [OF assms(1)] column_in [OF assms(1)] by force
    ultimately show ?thesis by blast
  qed
qed

lemma upsert_keeps:
  assumes "distinct (map fst new)" and "r \<in> set rows" and "column ''id'' r \<noteq> column ''id'' new"
  shows "r \<in> set (upsert_row new rows)"
  using assms by (auto simp: upsert_row_def update_where_def image_iff intro!: bexI [of _ r])

text \<open>A batch of rows with the same columns and different ids.\<close>
definition good_batch :: "string list \<Rightarrow> d1_row list \<Rightarrow> bool" where
  "good_batch cols rows \<longleftrightarrow> distinct cols \<and> ''id'' \<in> set cols \<and> (\<forall>r \<in> set rows. map fst r = cols) \<and>
     distinct (map (column ''id'') rows)"

lemma good_row:
  assumes "good_batch cols rows" and "row \<in> set rows"
  shows "map (\<lambda>c. (c, column c row)) cols = row" "distinct (map fst row)"
proof -
  show d: "distinct (map fst row)" using assms by (auto simp: good_batch_def)
  have "map (\<lambda>c. (c, column c row)) (map fst row) = row"
    using column_in [OF d] by (auto simp: o_def intro!: map_idI)
  with assms show "map (\<lambda>c. (c, column c row)) cols = row" by (auto simp: good_batch_def)
qed

lemma holds_other:
  assumes "holds_row table row db" and "(''id'', v) \<in> set row" and "distinct (map fst new)" and "column ''id'' new \<noteq> v"
  shows "holds_row table row (snd (upsert_stmt table new db))"
proof -
  from assms(1) obtain r where r: "r \<in> set (dd_tables db table)" "\<forall>(c, v) \<in> set row. column c r = v"
    by (auto simp: holds_row_def)
  with assms(2,4) have "column ''id'' r \<noteq> column ''id'' new" by auto
  from upsert_keeps [OF assms(3) r(1) this] r(2) show ?thesis
    by (auto simp: holds_row_def upsert_stmt_def)
qed

lemma upsert_rows_deliver:
  assumes "honest net" and "upsert_rows lib net table cols rows n db = (Inr k, n', db')" and "good_batch cols rows"
  shows "k = length rows \<and> (\<forall>row \<in> set rows. holds_row table row db') \<and>
    (\<forall>row v. holds_row table row db \<longrightarrow> (''id'', v) \<in> set row \<longrightarrow> v \<notin> column ''id'' ` set rows \<longrightarrow> holds_row table row db')"
  using assms(2,3)
proof (induction rows arbitrary: n db k)
  case (Cons row rows)
  note row = good_row [OF Cons.prems(2), of row, simplified]
  obtain xs n1 db1 where c: "d1_call lib net (upsert_stmt table row) n db = (Inr xs, n1, db1)"
    using Cons.prems(1) row(1) by (auto split: prod.splits sum.splits)
  then obtain k' where u: "upsert_rows lib net table cols rows n1 db1 = (Inr k', n', db')" "k = Suc k'"
    using Cons.prems(1) row(1) by (auto split: prod.splits sum.splits)
  from d1_execute_ok [OF assms(1) c] obtain db0 where db0: "db1 = snd (upsert_stmt table row db0)"
    by (metis snd_conv)
  obtain v where v: "(''id'', v) \<in> set row" "column ''id'' row = v"
    using Cons.prems(2) row by (fastforce simp: good_batch_def column_def)
  have batch: "good_batch cols rows" "v \<notin> column ''id'' ` set rows"
    using Cons.prems(2) v by (auto simp: good_batch_def)
  note IH = Cons.IH [OF u(1) batch(1)]
  have "holds_row table row db1"
    using upsert_has [OF row(2) v(1)] by (auto simp: db0 holds_row_def upsert_stmt_def)
  with IH v(1) batch(2) have "holds_row table row db'" by blast
  moreover have "holds_row table x db1" if "holds_row table x db" "(''id'', w) \<in> set x" "w \<noteq> v" for x w
    using d1_execute_keeps [of "holds_row table x" "upsert_stmt table row" db 3 lib net n] that c
      holds_other [OF _ that(2) row(2)] v(2) by auto
  ultimately show ?case using IH u(2) v(2) by auto
qed simp

section \<open>Pushing board and memory rows\<close>

lemma distinct_listed: "distinct (map key rows) \<Longrightarrow> distinct (map key (take n (order_asc k (filter p rows))))"
  using distinct_map_filter [of key rows p] by (simp add: order_asc_def distinct_map flip: take_map)

lemma distinct_decoded:
  assumes "\<And>r x. dec r = Some x \<Longrightarrow> key' x = key r" and "distinct (map key rows)"
  shows "distinct (map key' (List.map_filter dec rows))"
  using assms(2)
proof (induction rows)
  case (Cons r rows)
  have "key' x \<in> key ` set rows" if "x \<in> set (List.map_filter dec rows)" for x
    using that assms(1) by (force simp: map_filter_def)
  with Cons assms(1) [of r] show ?case by (auto simp: map_filter_simps split: option.splits)
qed (simp add: map_filter_simps)

lemma good_batchI:
  assumes "\<And>x. map fst (f x) = map fst (f undefined)" and "distinct (map fst (f undefined))"
    and "''id'' \<in> set (map fst (f undefined))" and "\<And>x. column ''id'' (f x) = JStr (key x)" and "distinct (map key xs)"
  shows "\<exists>cols. good_batch cols (map f xs)"
  using assms by (intro exI [of _ "map fst (f undefined)"]) (auto simp: good_batch_def o_def distinct_map inj_on_def)

lemma decoded_ids:
  "row_to_project r = Some p \<Longrightarrow> bp_id p = bp_id r"
  "row_to_board_issue r' = Some i \<Longrightarrow> bi_id i = ir_id r'"
  by (auto simp: row_to_project_def row_to_board_issue_def board_project.defs split: if_splits)

lemma good_memories: "memory_wf s \<Longrightarrow>
    \<exists>cols. good_batch cols (map (memory_d1_row lib) (map row_to_memory_entry
      (take n (order_asc mr_updated_at (filter (\<lambda>r. \<not> mr_synced r) (t_memories s))))))"
  by (rule good_batchI [where key = me_id])
    (simp_all add: memory_d1_row_def column_def memory_wf_def o_def row_to_memory_entry_def distinct_listed)

lemma good_projects: "board_wf s \<Longrightarrow>
    \<exists>cols. good_batch cols (map (project_d1_row device now) (List.map_filter row_to_project
      (take n (order_asc pr_updated_at (filter (\<lambda>r. \<not> pr_synced r) (t_projects s))))))"
  by (rule good_batchI [where key = bp_id])
    (auto simp: project_d1_row_def column_def board_wf_def decoded_ids
      intro!: distinct_decoded [where key = bp_id] distinct_listed)

lemma good_issues: "board_wf s \<Longrightarrow>
    \<exists>cols. good_batch cols (map (issue_d1_row lib device) (List.map_filter row_to_board_issue
      (take n (order_asc ir_updated_at (filter (\<lambda>r. \<not> ir_synced r) (t_issues s))))))"
  by (rule good_batchI [where key = bi_id])
    (auto simp: issue_d1_row_def column_def board_wf_def decoded_ids
      intro!: distinct_decoded [where key = ir_id] distinct_listed)

lemma good_comments: "board_wf s \<Longrightarrow>
    \<exists>cols. good_batch cols (map (comment_d1_row device) (map board_comment.truncate
      (take n (order_asc cr_updated_at (filter (\<lambda>r. \<not> cr_synced r) (t_comments s))))))"
  by (rule good_batchI [where key = bc_id])
    (simp_all add: comment_d1_row_def column_def board_wf_def o_def board_comment.defs distinct_listed)

lemma good_events: "board_wf s \<Longrightarrow>
    \<exists>cols. good_batch cols (map (event_d1_row lib device) (map (\<lambda>r. row_to_event (case er_data r of None \<Rightarrow> JNull | Some d \<Rightarrow> d) r)
      (take n (order_asc er_updated_at (filter (\<lambda>r. \<not> er_synced r) (t_events s))))))"
  by (rule good_batchI [where key = be_id])
    (simp_all add: event_d1_row_def column_def board_wf_def o_def row_to_event_def distinct_listed)

definition store_tables :: "string list" where
  "store_tables = [''memory_entries'', ''board_projects'', ''board_issues'', ''board_comments'', ''board_events'']"

lemma pending_good:
  assumes "memory_wf s" and "board_wf s" and "table \<in> set store_tables" and "pending_d1 lib now table s = Inr (rows, ids)"
  shows "\<exists>cols. good_batch cols rows"
  using assms good_memories good_projects good_issues good_comments good_events
  by (auto simp: store_tables_def pending_d1_def exported_def sql_select_def list_unsynced_memories_def
      list_unsynced_board_projects_def list_unsynced_board_issues_def list_unsynced_board_comments_def
      list_unsynced_board_events_def)

lemma mark_table_ok: "fst (mark_table table ids s) = Inr ()"
  by (simp add: mark_table_def mark_memories_synced_def mark_board_projects_synced_def mark_board_issues_synced_def
      mark_board_comments_synced_def mark_board_events_synced_def mark_ids_apply)

lemma batch_delivers:
  assumes "honest net" and "batch_upsert lib net table rows n db = (Inr k, n', db')" and "good_batch cols rows"
  shows "k = length rows \<and> (\<forall>row \<in> set rows. holds_row table row db')"
proof (cases rows)
  case (Cons row rest)
  then have "map fst row = cols" using assms(3) by (simp add: good_batch_def)
  with Cons assms(2) have "upsert_rows lib net table cols rows n db = (Inr k, n', db')"
    by (auto simp: batch_upsert_def split: sum.splits)
  from upsert_rows_deliver [OF assms(1) this assms(3)] show ?thesis by blast
qed (use assms(2) in \<open>simp add: batch_upsert_def\<close>)

text \<open>Every way a push of a board or memory table ends.\<close>
lemma push_table_outcome:
  assumes "honest net" and "memory_wf (sy_store y)" and "board_wf (sy_store y)" and "table \<in> set store_tables"
    and "push_store_table lib net others now table y = (r, y')"
  shows "case r of
      Inl _ \<Rightarrow> sy_store y' \<in> {sy_store y, others (sy_store y)}
    | Inr count \<Rightarrow> \<exists>rows ids. pending_d1 lib now table (sy_store y) = Inr (rows, ids) \<and> count = length rows \<and>
        (\<forall>row \<in> set rows. holds_row (sqlite_to_d1_table table) row (sy_d1 y')) \<and>
        sy_store y' = (if rows = [] then sy_store y else snd (mark_table table ids (others (sy_store y))))"
proof (cases "pending_d1 lib now table (sy_store y)")
  case (Inl e)
  with assms(5) show ?thesis by (auto simp: push_store_table_def)
next
  case (Inr p)
  obtain rows ids where p: "p = (rows, ids)" by (cases p)
  obtain k n' db' where b: "batch_upsert lib net (sqlite_to_d1_table table) rows (sy_calls y) (sy_d1 y) = (k, n', db')"
    by (cases "batch_upsert lib net (sqlite_to_d1_table table) rows (sy_calls y) (sy_d1 y)")
  obtain cols where good: "good_batch cols rows" using pending_good [OF assms(2-4)] Inr p by blast
  note run = assms(5) [unfolded push_store_table_def Inr p sum.case prod.case b Let_def, simplified]
  consider "rows = []" | e where "rows \<noteq> []" "k = Inl e" | c where "rows \<noteq> []" "k = Inr c" by (cases k) auto
  then show ?thesis
  proof cases
    case 1
    with run Inr p show ?thesis by auto
  next
    case 2
    with run show ?thesis by auto
  next
    case (3 c)
    with batch_delivers [OF assms(1) _ good] b
    have d: "c = length rows" "\<forall>row \<in> set rows. holds_row (sqlite_to_d1_table table) row db'" by blast+
    have "r = Inr c" "sy_d1 y' = db'" "sy_store y' = snd (mark_table table ids (others (sy_store y)))"
      using run 3 by (auto simp: mark_table_ok exported_def)
    with d 3 Inr p show ?thesis by simp
  qed
qed

text \<open>C18: A push of a board or memory table reports success only when every pending row stands in D1's table as it was read;
  exactly the ids it read are then marked in the store the other clients left. A push that fails marks nothing.\<close>
theorem push_delivers:
  assumes "honest net" and "memory_wf (sy_store y)" and "board_wf (sy_store y)" and "table \<in> set store_tables"
    and "push_store_table lib net others now table y = (r, y')"
  shows "case r of
      Inl _ \<Rightarrow> sy_store y' \<in> {sy_store y, others (sy_store y)}
    | Inr count \<Rightarrow> \<exists>rows ids. pending_d1 lib now table (sy_store y) = Inr (rows, ids) \<and> count = length rows \<and>
        (\<forall>row \<in> set rows. holds_row (sqlite_to_d1_table table) row (sy_d1 y')) \<and>
        sy_store y' = (if rows = [] then sy_store y else snd (mark_table table ids (others (sy_store y))))"
  using assms by (rule push_table_outcome)

definition sync_sample_lib :: sync_lib where
  "sync_sample_lib = \<lparr>sl_json_text = (\<lambda>_. ''[]''), sl_number = (\<lambda>_. JNum 0), sl_show = (\<lambda>_. []), sl_debug = (\<lambda>_. []),
     sl_status = (\<lambda>_. [])\<rparr>"

definition sample_sync :: "memory_entry list \<Rightarrow> sync_sys" where
  "sample_sync ms = \<lparr>sy_store = open_with_device True ''dev''\<lparr>t_memories := map memory_to_row ms\<rparr>, sy_duck = (\<lambda>_. []),
     sy_calls = 0, sy_d1 = \<lparr>dd_tables = (\<lambda>_. []), dd_watermarks = Map.empty\<rparr>, sy_r2 = Map.empty, sy_manifest = None\<rparr>"

definition good_net :: "nat \<Rightarrow> bool \<times> d1_answer" where
  "good_net n = (True, D1_Ok)"

lemma honest_good_net: "honest good_net"
  by (simp add: honest_def good_net_def)

lemma sample_sync_wf:
  "distinct (map me_id ms) \<Longrightarrow> distinct (map (\<lambda>m. (me_device_id m, me_name m)) ms) \<Longrightarrow> memory_wf (sy_store (sample_sync ms))"
  "board_wf (sy_store (sample_sync ms))"
  by (simp_all add: sample_sync_def memory_wf_def memory_to_row_def o_def board_wf_def open_with_device_def)

lemma d1_call_good [simp]: "d1_call lib good_net stmt n db = (case stmt db of (rows, db') \<Rightarrow> (Inr rows, Suc n, db'))"
  by (simp add: numeral_3_eq_3 good_net_def)

lemma upsert_rows_good: "\<exists>n' db'. upsert_rows lib good_net table cols rows n db = (Inr (length rows), n', db')"
proof (induction rows arbitrary: n db)
  case (Cons row rows)
  from Cons.IH [of "Suc n" "snd (upsert_stmt table (map (\<lambda>c. (c, column c row)) cols) db)"] show ?case
    by (auto simp: upsert_stmt_def)
qed simp

lemma push_good_run:
  assumes "pending_d1 lib now table (sy_store y) = Inr (rows, ids)" and "sqlite_to_d1_table table \<in> set D1_SYNCABLE_TABLES"
  shows "\<exists>y'. push_store_table lib good_net others now table y = (Inr (length rows), y')"
proof (cases rows)
  case (Cons row rest)
  obtain n' db' where "upsert_rows lib good_net (sqlite_to_d1_table table) (map fst row) rows (sy_calls y) (sy_d1 y) =
      (Inr (length rows), n', db')" using upsert_rows_good by metis
  then have "batch_upsert lib good_net (sqlite_to_d1_table table) rows (sy_calls y) (sy_d1 y) = (Inr (length rows), n', db')"
    using assms(2) Cons by (auto simp: batch_upsert_def validate_d1_table_def)
  with assms(1) Cons show ?thesis by (auto simp: push_store_table_def mark_table_ok exported_def)
qed (use assms in \<open>simp add: push_store_table_def\<close>)

lemma pending_memories:
  "pending_d1 lib now ''memory_entries'' s =
     (let ms = map row_to_memory_entry (take 100 (order_asc mr_updated_at (filter (\<lambda>r. \<not> mr_synced r) (t_memories s))))
      in Inr (map (memory_d1_row lib) ms, map me_id ms))"
  by (simp add: pending_d1_def exported_def list_unsynced_memories_def sql_select_def)

lemma unsynced_to_row: "\<not> mr_synced (memory_to_row m)"
  by (simp add: memory_to_row_def)

theorem push_delivers_witness:
  "\<exists>y'. push_store_table sync_sample_lib good_net (\<lambda>s. s) ''t'' ''memory_entries'' (sample_sync [sample_memory ''a'' [] ''1'']) = (Inr 1, y') \<and>
     holds_row ''memory_entries'' (memory_d1_row sync_sample_lib (sample_memory ''a'' [] ''1'')) (sy_d1 y')"
proof -
  let ?y = "sample_sync [sample_memory ''a'' [] ''1'']"
  have p: "pending_d1 sync_sample_lib ''t'' ''memory_entries'' (sy_store ?y) =
      Inr ([memory_d1_row sync_sample_lib (sample_memory ''a'' [] ''1'')], [''a''])"
    by (simp add: pending_memories sample_sync_def unsynced_to_row row_memory_roundtrip order_asc_def)
      (simp add: memory_d1_row_def sample_memory_def)
  then obtain y' where run: "push_store_table sync_sample_lib good_net (\<lambda>s. s) ''t'' ''memory_entries'' ?y = (Inr 1, y')"
    using push_good_run [OF p] by (auto simp: sqlite_to_d1_table_def D1_SYNCABLE_TABLES_def)
  have "memory_wf (sy_store ?y)" by (rule sample_sync_wf) simp_all
  from push_delivers [OF honest_good_net this sample_sync_wf(2) _ run] p run show ?thesis
    by (auto simp: store_tables_def sqlite_to_d1_table_def)
qed

text \<open>An entry edited while its push is awaited is marked synced with the new text although D1 holds the old one, so no
  later push sends the edit.\<close>
theorem edit_during_push_lost:
  assumes "honest net" and "memory_wf (sy_store y)" and "board_wf (sy_store y)"
    and "r \<in> set (t_memories (sy_store y))" and "\<not> mr_synced r" and "length (t_memories (sy_store y)) \<le> 100"
    and "same_name e r"
    and "push_store_table lib net (\<lambda>s. snd (upsert_memory e s)) now ''memory_entries'' y = (Inr count, y')"
  shows "overwrite_memory e r\<lparr>mr_synced := True\<rparr> \<in> set (t_memories (sy_store y')) \<and>
    holds_row ''memory_entries'' (memory_d1_row lib (row_to_memory_entry r)) (sy_d1 y')"
proof -
  let ?s = "sy_store y"
  define rows where "rows = take 100 (order_asc mr_updated_at (filter (\<lambda>r. \<not> mr_synced r) (t_memories ?s)))"
  have "rows = order_asc mr_updated_at (filter (\<lambda>r. \<not> mr_synced r) (t_memories ?s))"
    unfolding rows_def using assms(6) le_trans [OF length_filter_le] by (intro take_all) (simp add: order_asc_def)
  then have r: "r \<in> set rows" using assms(4,5) by simp
  have p: "pending_d1 lib now ''memory_entries'' ?s =
      Inr (map (memory_d1_row lib) (map row_to_memory_entry rows), map me_id (map row_to_memory_entry rows))"
    by (simp add: pending_memories rows_def Let_def)
  from push_table_outcome [OF assms(1-3) _ assms(8)] p r
  have held: "holds_row ''memory_entries'' (memory_d1_row lib (row_to_memory_entry r)) (sy_d1 y')"
    and s': "sy_store y' = snd (mark_memories_synced (map me_id (map row_to_memory_entry rows)) (snd (upsert_memory e ?s)))"
    by (auto simp: store_tables_def sqlite_to_d1_table_def mark_table_def)
  have "t_memories (snd (upsert_memory e ?s)) = update_where (same_name e) (overwrite_memory e) (t_memories ?s)"
    using assms(4,7) by (auto simp: upsert_apply)
  then have "overwrite_memory e r \<in> set (t_memories (snd (upsert_memory e ?s)))"
    using assms(4,7) by (auto simp: set_update_where)
  moreover have "mr_id r \<in> set (map me_id (map row_to_memory_entry rows))" "rows \<noteq> []"
    using r by (auto simp: row_to_memory_entry_def)
  ultimately have "overwrite_memory e r\<lparr>mr_synced := True\<rparr> \<in> set (t_memories (sy_store y'))"
    unfolding s' by (auto simp: mark_memories_synced_def mark_ids_apply set_update_where)
  then show ?thesis using held ..
qed

theorem edit_during_push_lost_witness:
  "\<exists>y'. push_store_table sync_sample_lib good_net (\<lambda>s. snd (upsert_memory (sample_memory ''a'' [] ''2'') s)) ''t'' ''memory_entries''
       (sample_sync [sample_memory ''a'' [] ''1'']) = (Inr 1, y') \<and>
     (\<exists>r \<in> set (t_memories (sy_store y')). mr_synced r \<and> mr_updated_at r = ''2'') \<and>
     holds_row ''memory_entries'' (memory_d1_row sync_sample_lib (sample_memory ''a'' [] ''1'')) (sy_d1 y')"
proof -
  let ?e = "sample_memory ''a'' [] ''2''" and ?m = "sample_memory ''a'' [] ''1''"
  let ?y = "sample_sync [?m]"
  have p: "pending_d1 sync_sample_lib ''t'' ''memory_entries'' (sy_store ?y) = Inr ([memory_d1_row sync_sample_lib ?m], [''a''])"
    by (simp add: pending_memories sample_sync_def unsynced_to_row row_memory_roundtrip order_asc_def)
      (simp add: memory_d1_row_def sample_memory_def)
  then obtain y' where run: "push_store_table sync_sample_lib good_net (\<lambda>s. snd (upsert_memory ?e s)) ''t'' ''memory_entries'' ?y = (Inr 1, y')"
    using push_good_run [OF p] by (auto simp: sqlite_to_d1_table_def D1_SYNCABLE_TABLES_def)
  have wf: "memory_wf (sy_store ?y)" by (rule sample_sync_wf) simp_all
  have "overwrite_memory ?e (memory_to_row ?m)\<lparr>mr_synced := True\<rparr> \<in> set (t_memories (sy_store y')) \<and>
      holds_row ''memory_entries'' (memory_d1_row sync_sample_lib (row_to_memory_entry (memory_to_row ?m))) (sy_d1 y')"
    by (rule edit_during_push_lost [OF honest_good_net wf sample_sync_wf(2) _ _ _ _ run])
      (simp_all add: sample_sync_def unsynced_to_row same_name_def memory_to_row_def sample_memory_def)
  moreover have "mr_updated_at (overwrite_memory ?e (memory_to_row ?m)\<lparr>mr_synced := True\<rparr>) = ''2''"
    by (simp add: overwrite_memory_def sample_memory_def)
  ultimately have "\<exists>r \<in> set (t_memories (sy_store y')). mr_synced r \<and> mr_updated_at r = ''2''"
    "holds_row ''memory_entries'' (memory_d1_row sync_sample_lib (?m\<lparr>me_synced := False\<rparr>)) (sy_d1 y')"
    by (auto simp: row_memory_roundtrip intro!: bexI [of _ "overwrite_memory ?e (memory_to_row ?m)\<lparr>mr_synced := True\<rparr>"])
  then show ?thesis using run by (auto simp: memory_d1_row_def)
qed

section \<open>Pulling\<close>

lemma pull_tables_frame:
  "pull_d1_tables lib net w device tables res y = (r, y') \<Longrightarrow> sy_store y' = sy_store y \<and> sy_duck y' = sy_duck y"
  by (induction tables arbitrary: res y) (force split: prod.splits sum.splits)+

lemma set_watermark_ok:
  assumes "honest net" and "set_watermark lib net device ts n db = (Inr u, n', db')"
  shows "dd_watermarks db' device = Some ts"
  using assms(2) d1_execute_ok [OF assms(1)] by (fastforce simp: set_watermark_def split: prod.splits sum.splits)

lemma query_since_ok:
  assumes "honest net" and "query_since lib net table w device n db = (Inr rows, n', db')"
  shows "set rows = {r \<in> set (dd_tables db' table). w < text_of (column ''updated_at'' r) \<and> other_device device (column ''device_id'' r)}"
  using assms(2) d1_execute_ok [OF assms(1)] by (fastforce simp: query_since_def split: prod.splits sum.splits)

lemma get_watermark_ok:
  assumes "honest net" and "get_watermark lib net device n db = (Inr w, n', db')"
  shows "w = dd_watermarks db' device"
proof -
  from assms(2) obtain rows where "d1_call lib net (\<lambda>db. (case dd_watermarks db device of None \<Rightarrow> []
      | Some w \<Rightarrow> [[(''last_pull_at'', JStr w)]], db)) n db = (Inr rows, n', db')"
    and w: "w = (case rows of [] \<Rightarrow> None | r # _ \<Rightarrow> (case map_of r ''last_pull_at'' of Some (JStr w) \<Rightarrow> Some w | _ \<Rightarrow> None))"
    by (auto simp: get_watermark_def split: prod.splits sum.splits)
  from d1_execute_ok [OF assms(1) this(1)] w show ?thesis by (auto split: option.splits)
qed

lemma read_only_d1:
  "(\<And>db. snd (stmt db) = db) \<Longrightarrow> snd (snd (d1_execute k lib net stmt n db)) = db"
  using d1_execute_keeps [of "\<lambda>x. x = db" stmt db] by simp

lemma query_since_reads: "query_since lib net table w device n db = (r, n', db') \<Longrightarrow> db' = db"
proof (cases "validate_d1_table lib table")
  case (Inr u)
  moreover assume "query_since lib net table w device n db = (r, n', db')"
  ultimately show ?thesis
    using read_only_d1 [of "\<lambda>db. (order_asc (\<lambda>r. text_of (column ''updated_at'' r))
            (filter (\<lambda>r. w < text_of (column ''updated_at'' r) \<and> other_device device (column ''device_id'' r))
              (dd_tables db table)), db)" 3 lib net n db]
    by (simp add: query_since_def)
qed (simp add: query_since_def)

lemma get_watermark_reads: "get_watermark lib net device n db = (r, n', db') \<Longrightarrow> db' = db"
  using read_only_d1 [of "\<lambda>db. (case dd_watermarks db device of None \<Rightarrow> [] | Some w \<Rightarrow> [[(''last_pull_at'', JStr w)]], db)"
      3 lib net n db]
  by (auto simp: get_watermark_def split: prod.splits sum.splits)

lemma pull_tables_nothing:
  assumes "honest net"
    and "\<And>table row. row \<in> set (dd_tables (sy_d1 y) table) \<Longrightarrow> text_of (column ''updated_at'' row) \<le> w"
    and "pull_d1_tables lib net w device tables res y = (Inr res', y')"
  shows "res' = res"
  using assms(2,3)
proof (induction tables arbitrary: y)
  case (Cons table tables)
  then obtain rows n d1 where q: "query_since lib net (sqlite_to_d1_table table) w device (sy_calls y) (sy_d1 y) = (Inr rows, n, d1)"
    by (auto split: prod.splits sum.splits)
  note d1 = query_since_reads [OF q]
  have "set rows = {}" unfolding query_since_ok [OF assms(1) q] using Cons.prems(1) d1 by force
  then have "pull_d1_tables lib net w device tables res (y\<lparr>sy_calls := n, sy_d1 := d1\<rparr>) = (Inr res', y')"
    using Cons.prems(2) q by simp
  then show ?case by (rule Cons.IH [rotated]) (use Cons.prems(1) d1 in auto)
qed simp

lemma pull_d1_total:
  assumes "honest (sv_net env)" and "pull_d1 lib config env now tables y = (Inr res, y')"
  shows "sy_store y' = sy_store y \<and> sy_duck y' = sy_duck y \<and>
    (0 < sr_total res \<longrightarrow> dd_watermarks (sy_d1 y') (cg_device_id config) = Some now)"
proof (cases "filter (\<lambda>t. t \<in> set SQLITE_SYNCABLE_TABLES) tables = [] \<or> \<not> sv_d1 env")
  case True
  with assms(2) show ?thesis by (auto simp: pull_d1_def Let_def empty_result_def)
next
  case False
  with assms(2) show ?thesis
    by (auto simp: pull_d1_def Let_def split: prod.splits sum.splits if_splits
        dest!: pull_tables_frame set_watermark_ok [OF assms(1)])
qed

text \<open>A pull stores none of the rows it counts but moves the device's watermark to its own clock: rows other devices push
  later with an older change time are never counted by any later pull.\<close>
theorem late_push_invisible:
  assumes "honest (sv_net env)" and "honest (sv_net env')"
    and "pull_d1 lib config env now tables y = (Inr res, y')" and "0 < sr_total res"
    and "dd_watermarks db (cg_device_id config) = dd_watermarks (sy_d1 y') (cg_device_id config)"
    and "\<And>table row. row \<in> set (dd_tables db table) \<Longrightarrow> text_of (column ''updated_at'' row) \<le> now"
    and "pull_d1 lib config env' now' tables' (y'\<lparr>sy_d1 := db\<rparr>) = (Inr res', y'')"
  shows "sy_store y' = sy_store y \<and> sy_duck y' = sy_duck y \<and> res' = empty_result"
proof -
  have first: "sy_store y' = sy_store y" "sy_duck y' = sy_duck y" "dd_watermarks db (cg_device_id config) = Some now"
    using pull_d1_total [OF assms(1,3)] assms(4,5) by auto
  have "res' = empty_result"
  proof (cases "filter (\<lambda>t. t \<in> set SQLITE_SYNCABLE_TABLES) tables' = [] \<or> \<not> sv_d1 env'")
    case True
    with assms(7) show ?thesis by (auto simp: pull_d1_def Let_def)
  next
    case False
    obtain w n d1 where g: "get_watermark lib (sv_net env') (cg_device_id config) (sy_calls y') db = (Inr w, n, d1)"
      using assms(7) False by (auto simp: pull_d1_def Let_def split: prod.splits sum.splits)
    have w: "w = Some now" "d1 = db"
      using get_watermark_ok [OF assms(2) g] get_watermark_reads [OF g] first(3) by simp_all
    obtain res1 y1 where t: "pull_d1_tables lib (sv_net env') now (cg_device_id config)
        (filter (\<lambda>t. t \<in> set SQLITE_SYNCABLE_TABLES) tables') empty_result (y'\<lparr>sy_calls := n, sy_d1 := db\<rparr>) = (Inr res1, y1)"
      using assms(7) False g w by (auto simp: pull_d1_def Let_def split: prod.splits sum.splits)
    have "res1 = empty_result" by (rule pull_tables_nothing [OF assms(2) _ t]) (use assms(6) in simp)
    then show ?thesis using assms(7) False g w t by (simp add: pull_d1_def Let_def empty_result_def)
  qed
  with first show ?thesis by blast
qed

definition sample_d1 :: "string list \<Rightarrow> d1_db" where
  "sample_d1 stamps = \<lparr>dd_tables = (\<lambda>t. if t = ''issues'' then map (\<lambda>u. [(''updated_at'', JStr u), (''device_id'', JStr ''other'')]) stamps else []),
     dd_watermarks = Map.empty\<rparr>"

definition sync_sample_config :: sync_config where
  "sync_sample_config = \<lparr>cg_enabled = True, cg_interval_seconds = 300, cg_device_id = ''dev'', cg_auto_pull = False, cg_r2_bucket = ''b'',
     cg_r2_endpoint = ''e'', cg_r2_access_key_id = ''k'', cg_r2_secret_access_key = ''s'', cg_d1_database_id = ''d'', cg_d1_account_id = ''a'', cg_d1_api_token = ''t''\<rparr>"

definition sync_sample_env :: sync_env where
  "sync_sample_env = \<lparr>sv_d1 = True, sv_sqlite = True, sv_net = good_net, sv_put = (\<lambda>_. None), sv_others = (\<lambda>s. s), sv_writers = (\<lambda>d. d)\<rparr>"

theorem late_push_invisible_witness:
  "\<exists>res y' res' y''. pull_d1 sync_sample_lib sync_sample_config sync_sample_env ''2026-05-05T00'' [''board_issues''] (sample_sync []\<lparr>sy_d1 := sample_d1 [''2026-05-01T00'']\<rparr>)
       = (Inr res, y') \<and> sr_total res = 1 \<and>
     pull_d1 sync_sample_lib sync_sample_config sync_sample_env ''2026-05-06T00'' [''board_issues'']
       (y'\<lparr>sy_d1 := sample_d1 [''2026-05-01T00'', ''2026-05-04T00'']\<lparr>dd_watermarks := dd_watermarks (sy_d1 y')\<rparr>\<rparr>) = (Inr res', y'') \<and>
     sr_total res' = 0"
proof -
  let ?y = "sample_sync []\<lparr>sy_d1 := sample_d1 [''2026-05-01T00'']\<rparr>"
  note ev = pull_d1_def Let_def get_watermark_def set_watermark_def query_since_def validate_d1_table_def sync_sample_config_def
    sync_sample_env_def sample_d1_def sample_sync_def SQLITE_SYNCABLE_TABLES_def D1_SYNCABLE_TABLES_def sqlite_to_d1_table_def
    column_def text_of_def other_device_def order_asc_def empty_result_def
  obtain res y' where run: "pull_d1 sync_sample_lib sync_sample_config sync_sample_env ''2026-05-05T00'' [''board_issues''] ?y = (Inr res, y')"
    and tot: "sr_total res = 1"
    by (simp add: ev)
  let ?db = "sample_d1 [''2026-05-01T00'', ''2026-05-04T00'']\<lparr>dd_watermarks := dd_watermarks (sy_d1 y')\<rparr>"
  have mark: "dd_watermarks (sy_d1 y') ''dev'' = Some ''2026-05-05T00''"
    using pull_d1_total [OF _ run] tot honest_good_net by (simp add: sync_sample_env_def sync_sample_config_def)
  obtain res' y'' where run': "pull_d1 sync_sample_lib sync_sample_config sync_sample_env ''2026-05-06T00'' [''board_issues''] (y'\<lparr>sy_d1 := ?db\<rparr>) = (Inr res', y'')"
    using mark by (simp add: ev)
  have old: "text_of (column ''updated_at'' row) \<le> ''2026-05-05T00''" if "row \<in> set (dd_tables ?db table)" for row table
    using that by (auto simp: sample_d1_def column_def text_of_def split: if_splits)
  have net: "honest (sv_net sync_sample_env)" by (simp add: sync_sample_env_def honest_good_net)
  have "res' = empty_result"
    using late_push_invisible [OF net net run _ _ old run'] tot by simp
  then show ?thesis using run tot run' by (auto simp: empty_result_def)
qed

section \<open>Nothing announces what was pushed\<close>

lemma push_store_table_r2: "push_store_table lib net others now table y = (r, y') \<Longrightarrow> sy_r2 y' = sy_r2 y"
  by (auto simp: push_store_table_def Let_def split: sum.splits prod.splits if_splits)

lemma push_duck_tasks_r2: "push_duck_tasks lib net writers y = (r, y') \<Longrightarrow> sy_r2 y' = sy_r2 y"
  by (auto simp: push_duck_tasks_def Let_def split: sum.splits prod.splits if_splits)

lemma push_to_d1_r2: "push_table_to_d1 lib env now table y = (r, y') \<Longrightarrow> sy_r2 y' = sy_r2 y"
  by (auto simp: push_table_to_d1_def split: if_splits dest: push_store_table_r2 push_duck_tasks_r2)

lemma push_to_r2_r2: "push_table_to_r2 lib env key table y = (r, y') \<Longrightarrow> key \<noteq> k \<Longrightarrow> sy_r2 y' k = sy_r2 y k"
  by (auto simp: push_table_to_r2_def Let_def split: sum.splits if_splits option.splits)

lemma push_tables_r2:
  "push_tables lib env now key tables res y = (r, y') \<Longrightarrow> (\<And>t. key t \<noteq> k) \<Longrightarrow> sy_r2 y' k = sy_r2 y k"
proof (induction tables arbitrary: res y)
  case (Cons table tables)
  show ?case
  proof (cases "table \<in> set SQLITE_SYNCABLE_TABLES")
    case True
    obtain r1 y1 where p: "push_table_to_d1 lib env now table y = (r1, y1)" by fastforce
    with True Cons push_to_d1_r2 [OF p] show ?thesis by (cases r1) auto
  next
    case False
    obtain r1 y1 where p: "push_table_to_r2 lib env (key table) table y = (r1, y1)" by fastforce
    with False Cons push_to_r2_r2 [OF p] show ?thesis by (cases r1) auto
  qed
qed simp

lemma r2_key_not_manifest: "r2_key ws device table date pid \<noteq> ws @ ''/manifest.json''"
proof
  assume "r2_key ws device table date pid = ws @ ''/manifest.json''"
  then have "last (r2_key ws device table date pid) = last (ws @ ''/manifest.json'')" by simp
  then show False by (simp add: r2_key_def)
qed

lemma pull_d1_r2: "pull_d1 lib config env now tables y = (r, y') \<Longrightarrow> sy_r2 y' = sy_r2 y"
proof -
  have frame: "pull_d1_tables lib net w device ts res y = (r, y') \<Longrightarrow> sy_r2 y' = sy_r2 y" for net w device ts res y r y'
    by (induction ts arbitrary: res y) (force split: prod.splits sum.splits)+
  show "pull_d1 lib config env now tables y = (r, y') \<Longrightarrow> sy_r2 y' = sy_r2 y"
    by (auto simp: pull_d1_def Let_def split: prod.splits sum.splits if_splits dest!: frame)
qed

text \<open>A push never writes the workspace's manifest object, which is all a pull consults: in a bucket only pushes write to,
  every pull on any device ends with what the D1 half found and reads no Parquet object.\<close>
theorem push_publishes_no_manifest:
  assumes "push lib config env ws now date push_id tables y = (r, y')"
  shows "sy_r2 y' (ws @ ''/manifest.json'') = sy_r2 y (ws @ ''/manifest.json'') \<and>
    (sy_r2 z = sy_r2 y' \<and> sy_r2 y (ws @ ''/manifest.json'') = None \<longrightarrow>
      pull lib config' env' ws now' fail tables' z = pull_d1 lib config' env' now' (resolve_tables tables') z)"
proof -
  obtain r1 y1 where p: "push_tables lib env now (\<lambda>table. r2_key ws (cg_device_id config) table date push_id)
      (resolve_tables tables) empty_result y = (r1, y1)" by fastforce
  have "sy_r2 y' = sy_r2 y1" using assms p by (cases r1) (auto simp: push_def Let_def split: if_splits)
  with push_tables_r2 [OF p r2_key_not_manifest]
  have k: "sy_r2 y' (ws @ ''/manifest.json'') = sy_r2 y (ws @ ''/manifest.json'')" by simp
  obtain r2 z1 where q: "pull_d1 lib config' env' now' (resolve_tables tables') z = (r2, z1)" by fastforce
  with pull_d1_r2 [OF q] k show ?thesis by (cases r2) (auto simp: pull_def Let_def)
qed

theorem push_publishes_no_manifest_witness:
  "\<exists>res y' z'. push sync_sample_lib sync_sample_config sync_sample_env ''ws'' ''t'' ''d'' ''p'' [''sessions'']
       (sample_sync []\<lparr>sy_duck := (\<lambda>_. [\<lparr>dr_columns = [(''id'', Some ''s1'')], dr_synced = False\<rparr>])\<rparr>) = (Inr res, y') \<and>
     sr_files res = [''ws/dev/sessions/d/p.parquet''] \<and>
     pull sync_sample_lib (sync_sample_config\<lparr>cg_device_id := ''two''\<rparr>) sync_sample_env ''ws'' ''t2'' R2 [''sessions'']
       (sample_sync []\<lparr>sy_r2 := sy_r2 y'\<rparr>) = (Inr empty_result, z')"
proof -
  let ?y = "sample_sync []\<lparr>sy_duck := (\<lambda>_. [\<lparr>dr_columns = [(''id'', Some ''s1'')], dr_synced = False\<rparr>])\<rparr>"
  obtain res y' where run: "push sync_sample_lib sync_sample_config sync_sample_env ''ws'' ''t'' ''d'' ''p'' [''sessions''] ?y = (Inr res, y')"
    and res: "sr_files res = [''ws/dev/sessions/d/p.parquet'']"
    by (simp add: push_def Let_def resolve_tables_def SQLITE_SYNCABLE_TABLES_def push_table_to_r2_def export_table_def
        validate_r2_table_def SYNCABLE_TABLES_def unsynced_duck_def sync_sample_env_def sample_sync_def empty_result_def
        r2_key_def sync_sample_config_def)
  have "sy_r2 ?y (''ws'' @ ''/manifest.json'') = None" by (simp add: sample_sync_def)
  with push_publishes_no_manifest [OF run, where z = "sample_sync []\<lparr>sy_r2 := sy_r2 y'\<rparr>"]
  have "pull sync_sample_lib (sync_sample_config\<lparr>cg_device_id := ''two''\<rparr>) sync_sample_env ''ws'' ''t2'' R2 [''sessions'']
       (sample_sync []\<lparr>sy_r2 := sy_r2 y'\<rparr>) =
     pull_d1 sync_sample_lib (sync_sample_config\<lparr>cg_device_id := ''two''\<rparr>) sync_sample_env ''t2'' (resolve_tables [''sessions''])
       (sample_sync []\<lparr>sy_r2 := sy_r2 y'\<rparr>)" by simp
  also have "\<dots> = (Inr empty_result, sample_sync []\<lparr>sy_r2 := sy_r2 y'\<rparr>)"
    by (simp add: pull_d1_def resolve_tables_def SQLITE_SYNCABLE_TABLES_def)
  finally show ?thesis using run res by blast
qed

end
