(* ===== verification/App_Manifest.thy ===== *)
theory App_Manifest
  imports Prelude
begin

text \<open>
  The manifest of an app (gctrl-core: app\_manifest.rs, capabilities.rs): the capability registry, the two-phase parse that
  flattens nested capability tables into dotted ids, and the cross-field validation. The TOML reader and the typed decoding
  of tables (serde) are arguments.
\<close>

section \<open>Capability registry\<close>

record capability_registration =
  cr_id :: string
  cr_default_driver :: string
  cr_route_prefix :: string
  cr_description :: string

abbreviation capability :: "string \<Rightarrow> string \<Rightarrow> string \<Rightarrow> string \<Rightarrow> capability_registration" where
  "capability i d r t \<equiv> \<lparr>cr_id = i, cr_default_driver = d, cr_route_prefix = r, cr_description = t\<rparr>"

text \<open>The em dash of the descriptions.\<close>
definition dash :: string where "dash = bytes [226, 128, 148]"

definition REGISTRY :: "capability_registration list" where
  "REGISTRY =
     [capability ''llm'' ''driver-llm'' ''/api/llm'' (''LLM relay '' @ dash @
        '' Anthropic /v1/messages and OpenAI-compat /v1/chat/completions, with caching + cost capture.''),
      capability ''deliverer.telegram'' ''driver-telegram'' ''/api/telegram''
        (''Telegram Bot API delivery '' @ dash @ '' POST /api/telegram/send.''),
      capability ''deliverer.discord'' ''driver-discord'' ''/api/discord''
        (''Discord webhook delivery '' @ dash @ '' POST /api/discord/send.''),
      capability ''vault.write'' ''kernel-vault-fs'' ''/api/vault''
        ''Atomic markdown writes against the kernel-owned vault doc + content-hash watcher index.'',
      capability ''vault.sync'' ''gctrl-sync.vault'' ''/api/sync/vault''
        (''Per-project-key sync to R2 (push/pull) backed by the kernel'' @ [CHR 0x27] @ ''s R2Client.''),
      capability ''secrets'' ''driver-secrets'' ''/api/secrets''
        (''Read-only secret resolution '' @ dash @
         '' apps call SecretsService.get; the kernel materializes values from its backing store (env / keychain / cloud bindings).''),
      capability ''scheduler'' ''kernel-scheduler'' ''/api/schedules''
        ''Cron-style task scheduling (registered via [[schedule]] in the manifest).'',
      capability ''gcal'' ''driver-gcal'' ''/api/gcal''
        (''Google Calendar event read/apply '' @ dash @ '' used by uebermensch timeboxes.''),
      capability ''search.brave'' ''driver-brave'' ''/api/search''
        (''Brave Search API '' @ dash @ '' web/news/images.''),
      capability ''browser.cdp'' ''driver-browser'' ''/api/browser''
        (''Headless Chromium via Chrome DevTools Protocol '' @ dash @ '' for paywall-fallback article extraction.'')]"

definition lookup_capability :: "string \<Rightarrow> capability_registration option" where
  "lookup_capability i = find (\<lambda>c. cr_id c = i) REGISTRY"

section \<open>Manifest types\<close>

record app_meta =
  am_name :: string
  am_version :: string
  am_description :: "string option"
  am_homepage :: "string option"
  am_license :: "string option"

record entrypoint =
  en_bin :: string
  en_command :: string
  en_runtime :: string

type_synonym capability_spec = "string option"

record vault_project =
  vp_key :: string
  vp_description :: "string option"

record manifest_schedule =
  ms_name :: string
  ms_cron :: string
  ms_target :: string
  ms_command :: "string list"

record secret_decl =
  sd_key :: string
  sd_kind :: string
  sd_required :: bool
  sd_description :: "string option"

text \<open>What serde decodes from the remainder of the document.\<close>
record skeleton =
  mf_app :: app_meta
  mf_entrypoint :: entrypoint
  mf_vault_projects :: "vault_project list"
  mf_schedule :: "manifest_schedule list"
  mf_secrets :: "secret_decl list"

text \<open>The two BTreeMaps: association lists in ascending order of their keys.\<close>
record app_manifest = skeleton +
  mf_requires :: "(string \<times> capability_spec) list"
  mf_optional :: "(string \<times> capability_spec) list"

datatype manifest_error =
  Parse string
| Io string string
| UnknownCapability string string
| DuplicateCapability string
| InvalidProjectKey string
| DuplicateProjectKey string
| DuplicateSchedule string
| DuplicateSecret string
| InvalidAppName string
| InvalidRuntime string
| InvalidScheduleTarget string string
| InvalidSecretKind string string

definition quoted :: "string \<Rightarrow> string" where
  "quoted s = ''`'' @ s @ ''`''"

fun manifest_error_message :: "manifest_error \<Rightarrow> string" where
  "manifest_error_message (Parse e) = ''toml parse failed: '' @ e"
| "manifest_error_message (Io path cause) = ''io error reading manifest at '' @ path @ '': '' @ cause"
| "manifest_error_message (UnknownCapability i sec) =
     ''unknown capability id '' @ quoted i @ '' in ['' @ sec @ ''.] '' @ dash @ '' not in kernel capability registry''"
| "manifest_error_message (DuplicateCapability i) = ''capability id '' @ quoted i @ '' declared in both [requires.] and [optional.]''"
| "manifest_error_message (InvalidProjectKey k) =
     ''project key '' @ quoted k @ '' is not uppercase / kebab+digits '' @ dash @ '' must match /^[A-Z][A-Z0-9-]*$/''"
| "manifest_error_message (DuplicateProjectKey k) = ''project key '' @ quoted k @ '' declared more than once''"
| "manifest_error_message (DuplicateSchedule n) = ''schedule name '' @ quoted n @ '' declared more than once''"
| "manifest_error_message (DuplicateSecret k) = ''secret key '' @ quoted k @ '' declared more than once''"
| "manifest_error_message (InvalidAppName n) = ''[app] name '' @ quoted n @ '' is not kebab-case (/^[a-z][a-z0-9-]*[a-z0-9]$/)''"
| "manifest_error_message (InvalidRuntime r) = ''[entrypoint] runtime '' @ quoted r @ '' is not one of: node | bun | deno | binary''"
| "manifest_error_message (InvalidScheduleTarget n t) =
     ''schedule '' @ quoted n @ '' target '' @ quoted t @ '' is not one of: exec | http''"
| "manifest_error_message (InvalidSecretKind k kd) =
     ''secret '' @ quoted k @ '' kind '' @ quoted kd @ '' is not one of: string | url | token''"

section \<open>Capability sections\<close>

text \<open>A TOML value is a table (a map with ascending keys) or anything else, of which only its text is used.\<close>
datatype toml = Toml_Table "(string \<times> toml) list" | Toml_Text string

text \<open>Decoding: the document, a capability's body, the typed remainder.\<close>
record toml_lib =
  tl_parse :: "string \<Rightarrow> string + (string \<times> toml) list"
  tl_spec :: "(string \<times> toml) list \<Rightarrow> string + capability_spec"
  tl_skeleton :: "(string \<times> toml) list \<Rightarrow> string + skeleton"

definition and_then :: "'e + 'a \<Rightarrow> ('a \<Rightarrow> 'e + 'b) \<Rightarrow> 'e + 'b" where
  "and_then r f = (case r of Inl e \<Rightarrow> Inl e | Inr x \<Rightarrow> f x)"

text \<open>BTreeMap::insert.\<close>
fun bt_insert :: "string \<Rightarrow> 'v \<Rightarrow> (string \<times> 'v) list \<Rightarrow> (string \<times> 'v) list" where
  "bt_insert k v [] = [(k, v)]"
| "bt_insert k v ((k', v') # xs) =
     (if k < k' then (k, v) # (k', v') # xs else if k = k' then (k, v) # xs else (k', v') # bt_insert k v xs)"

fun is_table :: "toml \<Rightarrow> bool" where
  "is_table (Toml_Table _) = True"
| "is_table (Toml_Text _) = False"

definition dotted :: "string \<Rightarrow> string \<Rightarrow> string" where
  "dotted pre key = (if pre = [] then key else pre @ ''.'' @ key)"

text \<open>The loop over a table that has a sub-table is the second function.\<close>
function (sequential) flatten_capability_table ::
    "toml_lib \<Rightarrow> string \<Rightarrow> (string \<times> toml) list \<Rightarrow> string \<Rightarrow> (string \<times> capability_spec) list
     \<Rightarrow> manifest_error + (string \<times> capability_spec) list"
  and flatten_entries ::
    "toml_lib \<Rightarrow> string \<Rightarrow> (string \<times> toml) list \<Rightarrow> string \<Rightarrow> (string \<times> capability_spec) list
     \<Rightarrow> manifest_error + (string \<times> capability_spec) list" where
  "flatten_capability_table lib sec table pre out =
     (if \<not> list_ex (is_table o snd) table then
        (if pre = [] then Inr out
         else case tl_spec lib table of
                Inl e \<Rightarrow> Inl (Parse (''['' @ sec @ ''.'' @ pre @ ''] body invalid: '' @ e))
              | Inr spec \<Rightarrow> Inr (bt_insert pre spec out))
      else flatten_entries lib sec table pre out)"
| "flatten_entries lib sec [] pre out = Inr out"
| "flatten_entries lib sec ((key, Toml_Table sub) # rest) pre out =
     (case flatten_capability_table lib sec sub (dotted pre key) out of
        Inl e \<Rightarrow> Inl e
      | Inr out' \<Rightarrow> flatten_entries lib sec rest pre out')"
| "flatten_entries lib sec ((key, Toml_Text other) # rest) pre out =
     Inl (Parse (''['' @ sec @ ''.'' @ pre @ ''] mixes a sub-capability with a sibling scalar `'' @ key @ '' = '' @ other @
       ''` '' @ dash @ '' pick one shape''))"
  by pat_completeness auto
termination
  by (relation "measure (\<lambda>x. case x of
       Inl (lib, sec, table, pre, out) \<Rightarrow> 2 * size_list (size_prod (\<lambda>_. 0) size) table + 1
     | Inr (lib, sec, table, pre, out) \<Rightarrow> 2 * size_list (size_prod (\<lambda>_. 0) size) table)") auto

definition take_capability_section ::
  "toml_lib \<Rightarrow> string \<Rightarrow> (string \<times> toml) list \<Rightarrow> manifest_error + (string \<times> capability_spec) list" where
  "take_capability_section lib sec doc =
     (case map_of doc sec of
        None \<Rightarrow> Inr []
      | Some (Toml_Table t) \<Rightarrow> flatten_capability_table lib sec t [] []
      | Some (Toml_Text _) \<Rightarrow> Inl (Parse (''['' @ sec @ ''] must be a table'')))"

section \<open>Validation\<close>

definition is_lowercase :: "char \<Rightarrow> bool" where
  "is_lowercase c \<longleftrightarrow> 97 \<le> (of_char c :: nat) \<and> (of_char c :: nat) \<le> 122"

definition is_uppercase :: "char \<Rightarrow> bool" where
  "is_uppercase c \<longleftrightarrow> 65 \<le> (of_char c :: nat) \<and> (of_char c :: nat) \<le> 90"

definition is_decimal :: "char \<Rightarrow> bool" where
  "is_decimal c \<longleftrightarrow> 48 \<le> (of_char c :: nat) \<and> (of_char c :: nat) \<le> 57"

definition validate_app_name :: "string \<Rightarrow> manifest_error + unit" where
  "validate_app_name name =
     (if name = [] then Inl (InvalidAppName name)
      else if \<not> is_lowercase (hd name) then Inl (InvalidAppName name)
      else if \<not> (is_lowercase (last name) \<or> is_decimal (last name)) then Inl (InvalidAppName name)
      else if list_ex (\<lambda>c. \<not> (is_lowercase c \<or> is_decimal c \<or> c = CHR ''-'')) name then Inl (InvalidAppName name)
      else Inr ())"

definition validate_runtime :: "string \<Rightarrow> manifest_error + unit" where
  "validate_runtime runtime =
     (if runtime \<in> set [''node'', ''bun'', ''deno'', ''binary''] then Inr () else Inl (InvalidRuntime runtime))"

definition validate_project_key :: "string \<Rightarrow> manifest_error + unit" where
  "validate_project_key key =
     (if key = [] then Inl (InvalidProjectKey key)
      else if \<not> is_uppercase (hd key) then Inl (InvalidProjectKey key)
      else if list_ex (\<lambda>c. \<not> (is_uppercase c \<or> is_decimal c \<or> c = CHR ''-'')) key then Inl (InvalidProjectKey key)
      else Inr ())"

text \<open>A loop that stops at the first error; the argument collects what was seen before.\<close>
fun check_each :: "('x list \<Rightarrow> 'x \<Rightarrow> 'e + unit) \<Rightarrow> 'x list \<Rightarrow> 'x list \<Rightarrow> 'e + unit" where
  "check_each f seen [] = Inr ()"
| "check_each f seen (x # xs) = and_then (f seen x) (\<lambda>_. check_each f (x # seen) xs)"

definition check_required :: "string \<times> capability_spec \<Rightarrow> manifest_error + unit" where
  "check_required c = (if lookup_capability (fst c) = None then Inl (UnknownCapability (fst c) ''requires'') else Inr ())"

definition check_optional :: "(string \<times> capability_spec) list \<Rightarrow> string \<times> capability_spec \<Rightarrow> manifest_error + unit" where
  "check_optional requires c =
     (if lookup_capability (fst c) = None then Inl (UnknownCapability (fst c) ''optional'')
      else if fst c \<in> fst ` set requires then Inl (DuplicateCapability (fst c)) else Inr ())"

definition check_vault_project :: "vault_project list \<Rightarrow> vault_project \<Rightarrow> manifest_error + unit" where
  "check_vault_project seen vp = and_then (validate_project_key (vp_key vp)) (\<lambda>_.
     if vp_key vp \<in> vp_key ` set seen then Inl (DuplicateProjectKey (vp_key vp)) else Inr ())"

definition check_schedule :: "manifest_schedule list \<Rightarrow> manifest_schedule \<Rightarrow> manifest_error + unit" where
  "check_schedule seen s =
     (if ms_name s \<in> ms_name ` set seen then Inl (DuplicateSchedule (ms_name s))
      else if ms_target s \<noteq> ''exec'' \<and> ms_target s \<noteq> ''http'' then Inl (InvalidScheduleTarget (ms_name s) (ms_target s))
      else Inr ())"

definition check_secret :: "secret_decl list \<Rightarrow> secret_decl \<Rightarrow> manifest_error + unit" where
  "check_secret seen sec =
     (if sd_key sec \<in> sd_key ` set seen then Inl (DuplicateSecret (sd_key sec))
      else if sd_kind sec \<notin> set [''string'', ''url'', ''token''] then Inl (InvalidSecretKind (sd_key sec) (sd_kind sec))
      else Inr ())"

definition validate_manifest :: "app_manifest \<Rightarrow> manifest_error + unit" where
  "validate_manifest m =
     and_then (validate_app_name (am_name (mf_app m))) (\<lambda>_.
     and_then (validate_runtime (en_runtime (mf_entrypoint m))) (\<lambda>_.
     and_then (check_each (\<lambda>_. check_required) [] (mf_requires m)) (\<lambda>_.
     and_then (check_each (\<lambda>_. check_optional (mf_requires m)) [] (mf_optional m)) (\<lambda>_.
     and_then (check_each check_vault_project [] (mf_vault_projects m)) (\<lambda>_.
     and_then (check_each check_schedule [] (mf_schedule m)) (\<lambda>_.
     check_each check_secret [] (mf_secrets m)))))))"

definition all_capabilities :: "app_manifest \<Rightarrow> (string \<times> bool) list" where
  "all_capabilities m = map (\<lambda>c. (fst c, True)) (mf_requires m) @ map (\<lambda>c. (fst c, False)) (mf_optional m)"

text \<open>AppManifest::parse: the capability sections are taken out of the document before the rest is decoded.\<close>
definition parse_manifest :: "toml_lib \<Rightarrow> string \<Rightarrow> manifest_error + app_manifest" where
  "parse_manifest lib input =
     (case tl_parse lib input of
        Inl e \<Rightarrow> Inl (Parse e)
      | Inr doc \<Rightarrow>
          and_then (take_capability_section lib ''requires'' doc) (\<lambda>requires.
          and_then (take_capability_section lib ''optional'' (filter (\<lambda>(k, _). k \<noteq> ''requires'') doc)) (\<lambda>optional.
          case tl_skeleton lib (filter (\<lambda>(k, _). k \<noteq> ''requires'' \<and> k \<noteq> ''optional'') doc) of
            Inl e \<Rightarrow> Inl (Parse e)
          | Inr skel \<Rightarrow>
              let m = skeleton.extend skel \<lparr>mf_requires = requires, mf_optional = optional\<rparr>
              in and_then (validate_manifest m) (\<lambda>_. Inr m))))"

section \<open>What validation guarantees\<close>

lemma and_then_ok: "and_then r f = Inr y \<longleftrightarrow> (\<exists>x. r = Inr x \<and> f x = Inr y)"
  by (cases r) (auto simp: and_then_def)

lemma check_each_ok:
  "check_each f seen xs = Inr () \<longleftrightarrow> (\<forall>i < length xs. f (rev (take i xs) @ seen) (xs ! i) = Inr ())"
proof (induction xs arbitrary: seen)
  case (Cons x xs)
  show ?case by (auto simp: and_then_ok Cons.IH All_less_Suc2)
qed simp

lemma check_each_all: "check_each (\<lambda>_. f) seen xs = Inr () \<longleftrightarrow> (\<forall>x \<in> set xs. f x = Inr ())"
  by (induction xs arbitrary: seen) (auto simp: and_then_ok)

lemma check_each_distinct:
  assumes "\<And>seen x. f seen x = Inr () \<longleftrightarrow> key x \<notin> key ` set seen \<and> ok x"
  shows "check_each f seen xs = Inr () \<longleftrightarrow>
    (\<forall>x \<in> set xs. ok x) \<and> distinct (map key xs) \<and> key ` set xs \<inter> key ` set seen = {}"
  by (induction xs arbitrary: seen) (auto simp: and_then_ok assms)

definition app_name_ok :: "string \<Rightarrow> bool" where
  "app_name_ok n \<longleftrightarrow> n \<noteq> [] \<and> is_lowercase (hd n) \<and> last n \<noteq> CHR ''-'' \<and>
     (\<forall>c \<in> set n. is_lowercase c \<or> is_decimal c \<or> c = CHR ''-'')"

definition project_key_ok :: "string \<Rightarrow> bool" where
  "project_key_ok k \<longleftrightarrow> k \<noteq> [] \<and> is_uppercase (hd k) \<and> (\<forall>c \<in> set k. is_uppercase c \<or> is_decimal c \<or> c = CHR ''-'')"

lemma validate_app_name_ok: "validate_app_name n = Inr () \<longleftrightarrow> app_name_ok n"
  by (cases n rule: rev_cases) (auto simp: validate_app_name_def app_name_ok_def list_ex_iff is_lowercase_def is_decimal_def)

lemma validate_project_key_ok: "validate_project_key k = Inr () \<longleftrightarrow> project_key_ok k"
  by (auto simp: validate_project_key_def project_key_ok_def list_ex_iff)

text \<open>Validation accepts exactly the manifests with a kebab-case name, a known runtime, registered capabilities declared once,
  well-formed project keys, and project keys, schedule names and secret keys without repetition.\<close>
theorem manifest_accepted:
  "validate_manifest m = Inr () \<longleftrightarrow>
     app_name_ok (am_name (mf_app m)) \<and> en_runtime (mf_entrypoint m) \<in> {''node'', ''bun'', ''deno'', ''binary''} \<and>
     fst ` (set (mf_requires m) \<union> set (mf_optional m)) \<subseteq> cr_id ` set REGISTRY \<and>
     fst ` set (mf_requires m) \<inter> fst ` set (mf_optional m) = {} \<and>
     (\<forall>vp \<in> set (mf_vault_projects m). project_key_ok (vp_key vp)) \<and> distinct (map vp_key (mf_vault_projects m)) \<and>
     (\<forall>s \<in> set (mf_schedule m). ms_target s \<in> {''exec'', ''http''}) \<and> distinct (map ms_name (mf_schedule m)) \<and>
     (\<forall>sec \<in> set (mf_secrets m). sd_kind sec \<in> {''string'', ''url'', ''token''}) \<and> distinct (map sd_key (mf_secrets m))"
proof -
  have known: "lookup_capability i = None \<longleftrightarrow> i \<notin> cr_id ` set REGISTRY" for i
    by (auto simp: lookup_capability_def find_None_iff)
  have projects: "check_each check_vault_project [] vps = Inr () \<longleftrightarrow>
      (\<forall>vp \<in> set vps. project_key_ok (vp_key vp)) \<and> distinct (map vp_key vps)" for vps
    by (subst check_each_distinct [where key = vp_key and ok = "\<lambda>vp. project_key_ok (vp_key vp)"])
      (auto simp: check_vault_project_def and_then_ok validate_project_key_ok)
  have schedules: "check_each check_schedule [] ss = Inr () \<longleftrightarrow>
      (\<forall>s \<in> set ss. ms_target s \<in> {''exec'', ''http''}) \<and> distinct (map ms_name ss)" for ss
    by (subst check_each_distinct [where key = ms_name and ok = "\<lambda>s. ms_target s \<in> {''exec'', ''http''}"])
      (auto simp: check_schedule_def)
  have secrets: "check_each check_secret [] ss = Inr () \<longleftrightarrow>
      (\<forall>s \<in> set ss. sd_kind s \<in> {''string'', ''url'', ''token''}) \<and> distinct (map sd_key ss)" for ss
    by (subst check_each_distinct [where key = sd_key and ok = "\<lambda>s. sd_kind s \<in> {''string'', ''url'', ''token''}"])
      (auto simp: check_secret_def)
  have seq: "and_then r (\<lambda>_. q) = Inr () \<longleftrightarrow> r = Inr () \<and> q = Inr ()" for r :: "manifest_error + unit" and q :: "manifest_error + unit"
    by (auto simp: and_then_ok)
  have runtime: "validate_runtime r = Inr () \<longleftrightarrow> r \<in> {''node'', ''bun'', ''deno'', ''binary''}" for r
    by (simp add: validate_runtime_def)
  have required: "check_each (\<lambda>_. check_required) [] cs = Inr () \<longleftrightarrow> fst ` set cs \<subseteq> cr_id ` set REGISTRY" for cs
    unfolding check_each_all check_required_def known by (simp add: image_subset_iff)
  have optional: "check_each (\<lambda>_. check_optional rs) [] cs = Inr () \<longleftrightarrow>
      fst ` set cs \<subseteq> cr_id ` set REGISTRY \<and> fst ` set rs \<inter> fst ` set cs = {}" for rs cs
  proof -
    have "check_optional rs c = Inr () \<longleftrightarrow> fst c \<in> cr_id ` set REGISTRY \<and> fst c \<notin> fst ` set rs" for c
      unfolding check_optional_def known by simp
    moreover have "A \<inter> f ` S = {} \<longleftrightarrow> (\<forall>x \<in> S. f x \<notin> A)" for A S and f :: "string \<times> capability_spec \<Rightarrow> string" by blast
    ultimately show ?thesis unfolding check_each_all by (simp add: image_subset_iff ball_conj_distrib)
  qed
  show ?thesis
    unfolding validate_manifest_def seq validate_app_name_ok runtime required optional projects schedules secrets image_Un Un_subset_iff
    by (simp only: conj_assoc)
qed

section \<open>Flattening\<close>

text \<open>A capability section without sub-tables declares nothing, whatever values it holds.\<close>
lemma bare_section_ignored:
  "map_of doc sec = Some (Toml_Table t) \<Longrightarrow> \<not> list_ex (is_table o snd) t \<Longrightarrow> take_capability_section lib sec doc = Inr []"
  by (simp add: take_capability_section_def)

lemma flatten_example:
  assumes "\<And>t. tl_spec lib t = Inr None"
  shows "flatten_capability_table lib ''requires''
     [(''deliverer'', Toml_Table [(''discord'', Toml_Table []), (''telegram'', Toml_Table [])]), (''llm'', Toml_Table [])] [] [] =
   Inr [(''deliverer.discord'', None), (''deliverer.telegram'', None), (''llm'', None)]"
  using assms by (simp add: dotted_def)

end
