(* ===== verification/App_Install.thy ===== *)
theory App_Install
  imports App_Manifest Scheduler_Routes
begin

text \<open>
  Installed apps and vault mounts: the tables of SqliteStore (sqlite\_store.rs), the install, reload and uninstall handlers and
  the vault page routes (gctrl-otel: receiver.rs). The clock, the UUIDs drawn for new rows and the digest of the manifest's text
  are arguments. Each store call of a handler takes the store's lock on its own and a handler is not a transaction: a failure keeps
  what was written. Requests run one after the other here, so two installs that meet between the check of a project key and the
  insert of its mount are not modelled.
\<close>

section \<open>Vault mounts\<close>

definition create_vault_mount :: "vault_mount \<Rightarrow> (store, unit) db" where
  "create_vault_mount mount =
     sql_insert t_mounts t_mounts_update (\<lambda>a b. vm_id a = vm_id b \<or> vm_name a = vm_name b) [] (mount_to_row mount)"

definition get_vault_mount :: "string \<Rightarrow> (store, vault_mount option) db" where
  "get_vault_mount name = sql_select (\<lambda>s. map_option row_to_vault_mount (find (\<lambda>r. vm_name r = name) (t_mounts s)))"

definition list_vault_mounts :: "(store, vault_mount list) db" where
  "list_vault_mounts = sql_select (\<lambda>s. map row_to_vault_mount (order_asc vm_name (t_mounts s)))"

definition delete_vault_mount :: "string \<Rightarrow> (store, unit) db" where
  "delete_vault_mount name = bind (sql_delete t_mounts t_mounts_update (\<lambda>r. vm_name r = name)) (\<lambda>_. ret ())"

definition update_vault_mount_synced :: "timestamp \<Rightarrow> string \<Rightarrow> string option \<Rightarrow> (store, unit) db" where
  "update_vault_mount_synced now name sha =
     bind (sql_update t_mounts t_mounts_update (\<lambda>r. vm_name r = name)
            (\<lambda>r. r\<lparr>vm_last_commit_sha := sha, vm_last_synced_at := Some now, vm_updated_at := now\<rparr>)) (\<lambda>_. ret ())"

section \<open>App installs and bindings\<close>

text \<open>INSERT ... ON CONFLICT(name) DO UPDATE: installed\_at is not in the SET list.\<close>
definition reinstall :: "app_install \<Rightarrow> app_install \<Rightarrow> app_install" where
  "reinstall new r = r\<lparr>ai_version := ai_version new, ai_source_ref := ai_source_ref new,
     ai_manifest_sha := ai_manifest_sha new, ai_reloaded_at := ai_reloaded_at new\<rparr>"

definition upsert_app_install :: "app_install \<Rightarrow> (store, unit) db" where
  "upsert_app_install install =
     bind (sql_select (\<lambda>s. list_ex (\<lambda>r. ai_name r = ai_name install) (t_installs s))) (\<lambda>present.
       if present
       then bind (sql_update t_installs t_installs_update (\<lambda>r. ai_name r = ai_name install) (reinstall install)) (\<lambda>_. ret ())
       else sql_insert t_installs t_installs_update (\<lambda>a b. ai_name a = ai_name b) [] install)"

definition get_app_install :: "string \<Rightarrow> (store, app_install option) db" where
  "get_app_install name = sql_select (\<lambda>s. find (\<lambda>r. ai_name r = name) (t_installs s))"

definition list_app_installs :: "(store, app_install list) db" where
  "list_app_installs = sql_select (\<lambda>s. order_asc ai_name (t_installs s))"

definition delete_app_install :: "string \<Rightarrow> (store, unit) db" where
  "delete_app_install name =
     bind (sql_delete t_bindings t_bindings_update (\<lambda>r. ab_install_name r = name)) (\<lambda>_.
     bind (sql_delete t_installs t_installs_update (\<lambda>r. ai_name r = name)) (\<lambda>_. ret ()))"

text \<open>PRIMARY KEY (install\_name, capability) and the reference to the install.\<close>
definition insert_binding :: "app_binding \<Rightarrow> (store, unit) db" where
  "insert_binding b = (\<lambda>s.
     if list_ex (\<lambda>r. ab_install_name r = ab_install_name b \<and> ab_capability r = ab_capability b) (t_bindings s)
     then (Inl (StorageSql [] UniqueViolation), s)
     else if st_foreign_keys s \<and> \<not> list_ex (\<lambda>r. ai_name r = ab_install_name b) (t_installs s)
     then (Inl (StorageSql [] ForeignKeyViolation), s)
     else (Inr (), t_bindings_update (\<lambda>_. t_bindings s @ [b]) s))"

definition replace_app_bindings :: "string \<Rightarrow> app_binding list \<Rightarrow> (store, unit) db" where
  "replace_app_bindings install_name bindings =
     transaction
       (bind (sql_delete t_bindings t_bindings_update (\<lambda>r. ab_install_name r = install_name)) (\<lambda>_.
        for_each insert_binding bindings))"

text \<open>ORDER BY required DESC, capability.\<close>
definition list_app_bindings :: "string \<Rightarrow> (store, app_binding list) db" where
  "list_app_bindings install_name =
     sql_select (\<lambda>s. order_desc ab_required (order_asc ab_capability
       (filter (\<lambda>r. ab_install_name r = install_name) (t_bindings s))))"

section \<open>Replies\<close>

text \<open>A handler's error: a status with the kernel's own text, or 500 with the text of a store error.\<close>
datatype app_error = App_Text nat string | App_Store gctl_error

type_synonym 'a handler = "store \<Rightarrow> (app_error + 'a) \<times> store"

definition ok :: "'a \<Rightarrow> 'a handler" where "ok x = (\<lambda>s. (Inr x, s))"

definition fail :: "app_error \<Rightarrow> 'a handler" where "fail e = (\<lambda>s. (Inl e, s))"

definition chain :: "'a handler \<Rightarrow> ('a \<Rightarrow> 'b handler) \<Rightarrow> 'b handler" where
  "chain m f = (\<lambda>s. case m s of (Inl e, s') \<Rightarrow> (Inl e, s') | (Inr x, s') \<Rightarrow> f x s')"

definition call :: "(store, 'a) db \<Rightarrow> 'a handler" where
  "call m = (\<lambda>s. case m s of (Inl e, s') \<Rightarrow> (Inl (App_Store e), s') | (Inr x, s') \<Rightarrow> (Inr x, s'))"

fun each :: "('x \<Rightarrow> unit handler) \<Rightarrow> 'x list \<Rightarrow> unit handler" where
  "each f [] = ok ()"
| "each f (x # xs) = chain (f x) (\<lambda>_. each f xs)"

section \<open>Installing\<close>

record app_install_body =
  bd_source_ref :: string
  bd_manifest_text :: string

record app_install_view =
  av_install :: app_install
  av_bindings :: "app_binding list"
  av_vault_mounts :: "vault_mount list"
  av_schedules :: "fetched_schedule list"

text \<open>The arguments of an install: TOML decoding, cron library, digest, clock, and the UUIDs of new mounts and schedules.\<close>
record 'c install_env =
  ie_toml :: toml_lib
  ie_cron :: "'c scheduler_lib"
  ie_sha :: "string \<Rightarrow> string"
  ie_cron_text :: "cron_error \<Rightarrow> string"
  ie_now :: timestamp
  ie_mount_id :: "string \<Rightarrow> string"
  ie_schedule_id :: "string \<Rightarrow> string"

text \<open>The first project key that another owner holds.\<close>
definition key_taken :: "app_manifest \<Rightarrow> vault_mount list \<Rightarrow> vault_project \<Rightarrow> app_error option" where
  "key_taken m mounts vp =
     (case find (\<lambda>x. vm_name x = vp_key vp) mounts of
        None \<Rightarrow> None
      | Some x \<Rightarrow>
          if vm_app_id x \<noteq> Some (am_name (mf_app m)) then
            Some (App_Text 409 (''project key '' @ quoted (vp_key vp) @ '' is already owned by app '' @
              quoted (case vm_app_id x of None \<Rightarrow> ''<none>'' | Some a \<Rightarrow> a)))
          else None)"

fun first_some :: "('x \<Rightarrow> 'e option) \<Rightarrow> 'x list \<Rightarrow> 'e option" where
  "first_some f [] = None"
| "first_some f (x # xs) = (case f x of None \<Rightarrow> first_some f xs | Some e \<Rightarrow> Some e)"

fun make_bindings :: "string \<Rightarrow> timestamp \<Rightarrow> (string \<times> bool) list \<Rightarrow> app_error + app_binding list" where
  "make_bindings name now [] = Inr []"
| "make_bindings name now ((i, required) # caps) =
     (case lookup_capability i of
        None \<Rightarrow> Inl (App_Text 500 (''capability '' @ quoted i @ '' not in registry '' @ dash @
                  '' manifest validate should have caught this''))
      | Some c \<Rightarrow>
          (case make_bindings name now caps of
             Inl e \<Rightarrow> Inl e
           | Inr bs \<Rightarrow> Inr (\<lparr>ab_install_name = name, ab_capability = i, ab_driver_id = cr_default_driver c,
               ab_required = required, ab_resolved_at = now\<rparr> # bs)))"

definition project_mount :: "'c install_env \<Rightarrow> app_manifest \<Rightarrow> vault_project \<Rightarrow> vault_mount" where
  "project_mount env m vp =
     \<lparr>vm_id = ie_mount_id env (vp_key vp), vm_name = vp_key vp, vm_root_path = vp_key vp, vm_kind = Vault_App, vm_git_url = None,
      vm_app_id = Some (am_name (mf_app m)), vm_last_commit_sha = None, vm_last_synced_at = None,
      vm_created_at = ie_now env, vm_updated_at = ie_now env\<rparr>"

definition app_schedule_row :: "'c install_env \<Rightarrow> string \<Rightarrow> manifest_schedule \<Rightarrow> timestamp option \<Rightarrow> schedule option" where
  "app_schedule_row env app sched next_run =
     (let row = (\<lambda>kind url command env_keys.
        \<lparr>sc_id = ie_schedule_id env (ms_name sched), sc_name = ms_name sched, sc_cron = ms_cron sched, sc_target_kind = kind,
         sc_target_url = url, sc_target_method = ''POST'', sc_body_json = None, sc_headers_json = None, sc_command = command,
         sc_cwd = None, sc_env_keys = env_keys, sc_timeout_secs = 60, sc_enabled = True, sc_next_run_at = next_run,
         sc_last_run_at = None, sc_last_status = None, sc_last_response = None, sc_last_error = None, sc_run_count = 0,
         sc_failure_count = 0, sc_app_id = Some app, sc_created_at = ie_now env, sc_updated_at = ie_now env\<rparr>)
      in if ms_target sched = ''exec'' then Some (row ''exec'' [] (Some (ms_command sched)) (Some []))
         else if ms_target sched = ''http'' then Some (row ''http'' (case ms_command sched of [] \<Rightarrow> [] | u # _ \<Rightarrow> u) None None)
         else None)"

definition install_schedule :: "'c install_env \<Rightarrow> string \<Rightarrow> manifest_schedule \<Rightarrow> unit handler" where
  "install_schedule env app sched =
     (case next_after (ie_cron env) (ms_cron sched) (ie_now env) of
        Inl e \<Rightarrow> fail (App_Text 400 (''schedule '' @ quoted (ms_name sched) @ '' cron '' @ quoted (ms_cron sched) @
                   '' invalid: '' @ ie_cron_text env e))
      | Inr next_run \<Rightarrow>
          (case app_schedule_row env app sched next_run of
             None \<Rightarrow> fail (App_Text 400 (''schedule '' @ quoted (ms_name sched) @ '' target '' @ quoted (ms_target sched) @
                       '' invalid (must be exec or http)''))
           | Some row \<Rightarrow> call (create_schedule row)))"

definition owned_mounts :: "string \<Rightarrow> vault_mount list \<Rightarrow> vault_mount list" where
  "owned_mounts app = filter (\<lambda>x. vm_app_id x = Some app)"

definition owned_schedules :: "string \<Rightarrow> fetched_schedule list \<Rightarrow> fetched_schedule list" where
  "owned_schedules app = filter (\<lambda>x. sc_app_id x = Some app)"

definition all_schedules :: "(store, fetched_schedule list) db" where
  "all_schedules = list_schedules (\<lambda>_ _. True) \<lparr>sf_enabled = None, sf_name_prefix = None\<rparr>"

definition install_view :: "string \<Rightarrow> app_install_view handler" where
  "install_view app =
     chain (call list_vault_mounts) (\<lambda>mounts.
     chain (call (get_app_install app)) (\<lambda>found.
       case found of
         None \<Rightarrow> fail (App_Text 500 ''install record vanished after upsert'')
       | Some install \<Rightarrow>
           chain (call (list_app_bindings app)) (\<lambda>bindings.
           chain (call all_schedules) (\<lambda>scheds.
             ok \<lparr>av_install = install, av_bindings = bindings, av_vault_mounts = owned_mounts app mounts,
                 av_schedules = owned_schedules app scheds\<rparr>))))"

definition register_projects :: "'c install_env \<Rightarrow> app_manifest \<Rightarrow> vault_mount list \<Rightarrow> unit handler" where
  "register_projects env m existing =
     each (\<lambda>vp. if list_ex (\<lambda>x. vm_name x = vp_key vp) existing then ok ()
                else call (create_vault_mount (project_mount env m vp))) (mf_vault_projects m)"

text \<open>The writes, one after the other: the record, the bindings, the projects, the schedules.\<close>
definition apply_manifest ::
  "'c install_env \<Rightarrow> app_install_body \<Rightarrow> bool \<Rightarrow> app_manifest \<Rightarrow> vault_mount list \<Rightarrow> app_install option
   \<Rightarrow> app_install_view handler" where
  "apply_manifest env body is_reload m existing prev =
     (let app = am_name (mf_app m); now = ie_now env in
      chain (call (upsert_app_install
        \<lparr>ai_name = app, ai_version = am_version (mf_app m), ai_source_ref = bd_source_ref body,
         ai_manifest_sha = ie_sha env (bd_manifest_text body),
         ai_installed_at = (case prev of None \<Rightarrow> now | Some p \<Rightarrow> ai_installed_at p),
         ai_reloaded_at = (if is_reload then Some now else None)\<rparr>)) (\<lambda>_.
      case make_bindings app now (all_capabilities m) of
        Inl e \<Rightarrow> fail e
      | Inr bindings \<Rightarrow>
          chain (call (replace_app_bindings app bindings)) (\<lambda>_.
          chain (register_projects env m existing) (\<lambda>_.
          chain (call (delete_schedules_by_app app)) (\<lambda>_.
          chain (each (install_schedule env app) (mf_schedule m)) (\<lambda>_.
          install_view app))))))"

definition install_app_inner :: "'c install_env \<Rightarrow> app_install_body \<Rightarrow> bool \<Rightarrow> app_install_view handler" where
  "install_app_inner env body is_reload =
     (case parse_manifest (ie_toml env) (bd_manifest_text body) of
        Inl e \<Rightarrow> fail (App_Text 400 (''manifest invalid: '' @ manifest_error_message e))
      | Inr m \<Rightarrow>
          chain (call list_vault_mounts) (\<lambda>existing.
          case first_some (key_taken m existing) (mf_vault_projects m) of
            Some e \<Rightarrow> fail e
          | None \<Rightarrow>
              chain (if is_reload then call (get_app_install (am_name (mf_app m))) else ok None) (\<lambda>prev.
              apply_manifest env body is_reload m existing prev)))"

definition app_installs_reload :: "'c install_env \<Rightarrow> string \<Rightarrow> app_install_body \<Rightarrow> app_install_view handler" where
  "app_installs_reload env name body =
     (case parse_manifest (ie_toml env) (bd_manifest_text body) of
        Inl e \<Rightarrow> fail (App_Text 400 (''manifest invalid: '' @ manifest_error_message e))
      | Inr m \<Rightarrow>
          if am_name (mf_app m) \<noteq> name then
            fail (App_Text 400 (''manifest [app] name '' @ quoted (am_name (mf_app m)) @ '' does not match install '' @ quoted name @
              '' '' @ dash @ '' apps cannot rename via reload''))
          else install_app_inner env body True)"

definition app_installs_get :: "string \<Rightarrow> app_install_view handler" where
  "app_installs_get name =
     chain (call (get_app_install name)) (\<lambda>found.
       case found of
         None \<Rightarrow> fail (App_Text 404 (''no install: '' @ name))
       | Some install \<Rightarrow>
           chain (call (list_app_bindings name)) (\<lambda>bindings.
           chain (call list_vault_mounts) (\<lambda>mounts.
           chain (call all_schedules) (\<lambda>scheds.
             ok \<lparr>av_install = install, av_bindings = bindings, av_vault_mounts = owned_mounts name mounts,
                 av_schedules = owned_schedules name scheds\<rparr>))))"

definition app_installs_delete :: "string \<Rightarrow> unit handler" where
  "app_installs_delete name =
     chain (call list_vault_mounts) (\<lambda>mounts.
     chain (each (\<lambda>x. call (delete_vault_mount (vm_name x))) (owned_mounts name mounts)) (\<lambda>_.
     chain (call (delete_schedules_by_app name)) (\<lambda>_.
     call (delete_app_install name))))"

section \<open>Vault mount routes and pages\<close>

record vault_mount_body =
  mb_name :: string
  mb_root_path :: string
  mb_kind :: "string option"
  mb_git_url :: "string option"
  mb_app_id :: "string option"

text \<open>409 for a violated constraint.\<close>
datatype mount_reply = Mount_Created vault_mount | Mount_Conflict gctl_error | Mount_Error gctl_error

fun mount_reply_of :: "vault_mount \<Rightarrow> gctl_error + unit \<Rightarrow> mount_reply" where
  "mount_reply_of m (Inr _) = Mount_Created m"
| "mount_reply_of m (Inl (StorageSql msg UniqueViolation)) = Mount_Conflict (StorageSql msg UniqueViolation)"
| "mount_reply_of m (Inl (StorageSql msg ForeignKeyViolation)) = Mount_Conflict (StorageSql msg ForeignKeyViolation)"
| "mount_reply_of m (Inl e) = Mount_Error e"

definition vault_mounts_create :: "timestamp \<Rightarrow> string \<Rightarrow> vault_mount_body \<Rightarrow> store \<Rightarrow> mount_reply \<times> store" where
  "vault_mounts_create now uuid body s =
     (let m = \<lparr>vm_id = uuid, vm_name = mb_name body, vm_root_path = mb_root_path body,
        vm_kind = (case mb_kind body of None \<Rightarrow> Vault_Workspace
          | Some k \<Rightarrow> (case vault_mount_kind_from_str k of None \<Rightarrow> Vault_Workspace | Some k \<Rightarrow> k)),
        vm_git_url = mb_git_url body, vm_app_id = mb_app_id body, vm_last_commit_sha = None, vm_last_synced_at = None,
        vm_created_at = now, vm_updated_at = now\<rparr>;
          (r, s') = create_vault_mount m s
      in (mount_reply_of m r, s'))"

text \<open>A path as components: every Normal one, preceded by nothing as the leading dot adds nothing to a join.\<close>
definition resolve_within :: "string \<Rightarrow> string \<Rightarrow> string + string" where
  "resolve_within mount_root rel =
     (if prefix ''/'' rel then Inl ''path must be relative to mount root''
      else if ''..'' \<in> set (path_components rel) then Inl ''path must not contain ..''
      else Inr (if mount_root = [] \<or> last mount_root = CHR ''/'' then mount_root @ rel else mount_root @ ''/'' @ rel))"

text \<open>What the file system answers a read of an absolute path: no such file, another error, or the text.\<close>
datatype file_read = No_File string | Read_Error string | File_Text string

datatype page_reply = Page string string string | Page_Error nat string | Page_Store gctl_error

definition vault_page_get :: "(string \<Rightarrow> file_read) \<Rightarrow> (string \<Rightarrow> string) \<Rightarrow> string \<Rightarrow> string \<Rightarrow> store \<Rightarrow> page_reply" where
  "vault_page_get read sha mount path s =
     (case fst (get_vault_mount mount s) of
        Inl e \<Rightarrow> Page_Store e
      | Inr None \<Rightarrow> Page_Error 404 (''mount '' @ mount @ '' not found'')
      | Inr (Some m) \<Rightarrow>
          (case resolve_within (vm_root_path m) path of
             Inl e \<Rightarrow> Page_Error 400 e
           | Inr target \<Rightarrow>
               (case read target of
                  File_Text t \<Rightarrow> Page target (sha t) t
                | No_File e \<Rightarrow> Page_Error 404 e
                | Read_Error e \<Rightarrow> Page_Error 500 e)))"

text \<open>The write goes to write\_atomic, whose calls are the second component.\<close>
definition vault_page_put ::
  "(string \<Rightarrow> string \<Rightarrow> string + string) \<Rightarrow> string \<Rightarrow> string \<Rightarrow> string \<Rightarrow> store \<Rightarrow> page_reply \<times> (string \<times> string) list" where
  "vault_page_put write mount path content s =
     (case fst (get_vault_mount mount s) of
        Inl e \<Rightarrow> (Page_Store e, [])
      | Inr None \<Rightarrow> (Page_Error 404 (''mount '' @ mount @ '' not found''), [])
      | Inr (Some m) \<Rightarrow>
          (case resolve_within (vm_root_path m) path of
             Inl e \<Rightarrow> (Page_Error 400 e, [])
           | Inr target \<Rightarrow>
               (case write target content of
                  Inl e \<Rightarrow> (Page_Error 500 e, [(target, content)])
                | Inr hash \<Rightarrow> (Page target hash content, [(target, content)]))))"

section \<open>Handlers step by step\<close>

lemma chain_ok: "chain m f s = (Inr y, s'') \<Longrightarrow> \<exists>x s'. m s = (Inr x, s') \<and> f x s' = (Inr y, s'')"
  by (auto simp: chain_def split: prod.splits sum.splits)

lemma chain_okE:
  assumes "chain m f s = (Inr y, s'')"
  obtains x s' where "m s = (Inr x, s')" "f x s' = (Inr y, s'')"
  using chain_ok [OF assms] by blast

lemma call_ok: "call m s = (Inr x, s') \<longleftrightarrow> m s = (Inr x, s')"
  by (auto simp: call_def split: prod.splits sum.splits)

lemma ok_apply [simp]: "ok x s = (Inr x, s)" and fail_apply [simp]: "fail e s = (Inl e, s)"
  by (simp_all add: ok_def fail_def)

lemma call_select [simp]: "call (sql_select g) s = (Inr (g s), s)"
  by (simp add: call_def)

lemma chain_Inr [simp]: "m s = (Inr x, s') \<Longrightarrow> chain m f s = f x s'"
  and chain_Inl [simp]: "m s = (Inl e, s') \<Longrightarrow> chain m f s = (Inl e, s')"
  by (simp_all add: chain_def)

lemma read_only [simp]:
  "call list_vault_mounts s = (Inr (map row_to_vault_mount (order_asc vm_name (t_mounts s))), s)"
  "call (get_app_install app) s = (Inr (find (\<lambda>r. ai_name r = app) (t_installs s)), s)"
  "snd (call (list_app_bindings app) s) = s" "snd (call all_schedules s) = s"
  by (simp_all add: list_vault_mounts_def get_app_install_def list_app_bindings_def all_schedules_def list_schedules_def)

lemma install_view_reads: "snd (install_view app s) = s"
proof -
  obtain bs where "call (list_app_bindings app) s = (Inr bs, s)" by (simp add: list_app_bindings_def)
  moreover obtain ss where "call all_schedules s = (Inr ss, s)" by (simp add: all_schedules_def list_schedules_def)
  ultimately show ?thesis
    by (cases "find (\<lambda>r. ai_name r = app) (t_installs s)") (simp_all add: install_view_def)
qed

lemma upsert_install_ok: "upsert_app_install i s = (Inr (), s') \<Longrightarrow> \<exists>rows. s' = s\<lparr>t_installs := rows\<rparr>"
  by (auto simp: upsert_app_install_def bind_def sql_insert_def split: if_splits)

lemma upsert_install_runs: "\<exists>rows. upsert_app_install i s = (Inr (), s\<lparr>t_installs := rows\<rparr>) \<and>
    (\<exists>r \<in> set rows. ai_name r = ai_name i \<and> ai_manifest_sha r = ai_manifest_sha i)"
proof (cases "list_ex (\<lambda>r. ai_name r = ai_name i) (t_installs s)")
  case True
  then obtain r where "r \<in> set (t_installs s)" "ai_name r = ai_name i" by (auto simp: list_ex_iff)
  then have "reinstall i r \<in> set (update_where (\<lambda>r. ai_name r = ai_name i) (reinstall i) (t_installs s))"
    by (auto simp: set_update_where)
  moreover have "ai_name (reinstall i r) = ai_name i" "ai_manifest_sha (reinstall i r) = ai_manifest_sha i"
    using \<open>ai_name r = ai_name i\<close> by (simp_all add: reinstall_def)
  ultimately show ?thesis using True by (auto simp: upsert_app_install_def bind_def)
next
  case False
  then have "\<not> list_ex (\<lambda>b. ai_name i = ai_name b) (t_installs s)" by (auto simp: list_ex_iff)
  with False show ?thesis
    by (intro exI [of _ "t_installs s @ [i]"]) (simp add: upsert_app_install_def bind_def sql_insert_def)
qed

lemma insert_bindings_ok:
  "for_each insert_binding bs s = (Inr (), s') \<Longrightarrow> s' = s\<lparr>t_bindings := t_bindings s @ bs\<rparr>"
proof (induction bs arbitrary: s)
  case (Cons b bs)
  from Cons.prems have "for_each insert_binding bs (s\<lparr>t_bindings := t_bindings s @ [b]\<rparr>) = (Inr (), s')"
    by (auto simp: bind_def fun_cong [OF insert_binding_def [of b]] split: if_splits)
  from Cons.IH [OF this] show ?case by simp
qed simp

lemma replace_bindings_ok:
  "replace_app_bindings app bs s = (Inr (), s') \<Longrightarrow>
    s' = s\<lparr>t_bindings := delete_where (\<lambda>r. ab_install_name r = app) (t_bindings s) @ bs\<rparr>"
  by (auto simp: replace_app_bindings_def transaction_def split: prod.splits sum.splits dest!: insert_bindings_ok)

lemma each_mounts_ok:
  "each (\<lambda>vp. if p vp then ok () else call (create_vault_mount (mk vp))) vps s = (Inr (), s') \<Longrightarrow>
    s' = s\<lparr>t_mounts := t_mounts s @ map (mount_to_row o mk) (filter (\<lambda>vp. \<not> p vp) vps)\<rparr>"
proof (induction vps arbitrary: s)
  case (Cons vp vps)
  show ?case
  proof (cases "p vp")
    case True
    with Cons show ?thesis by simp
  next
    case False
    with Cons.prems have "each (\<lambda>vp. if p vp then ok () else call (create_vault_mount (mk vp))) vps
        (s\<lparr>t_mounts := t_mounts s @ [mount_to_row (mk vp)]\<rparr>) = (Inr (), s')"
      by (auto simp: chain_def call_def create_vault_mount_def sql_insert_def split: if_splits)
    from Cons.IH [OF this] False show ?thesis by simp
  qed
qed simp

lemma delete_app_schedules: "\<exists>n rs. delete_schedules_by_app app s =
    (Inr n, s\<lparr>t_runs := rs, t_schedules := delete_where (\<lambda>r. sc_app_id r = Some app) (t_schedules s)\<rparr>)"
  by (simp add: delete_schedules_by_app_def delete_schedules_where_def bind_def) (rule exI, rule refl)

lemma install_schedule_ok:
  "install_schedule env app x s = (Inr (), s') \<Longrightarrow>
    \<exists>n r. next_after (ie_cron env) (ms_cron x) (ie_now env) = Inr n \<and> app_schedule_row env app x n = Some r \<and>
      s' = s\<lparr>t_schedules := t_schedules s @ [r]\<rparr>"
  by (auto simp: install_schedule_def call_def create_schedule_def sql_insert_def schedule.defs
      split: sum.splits option.splits if_splits)

definition schedule_of :: "'c install_env \<Rightarrow> string \<Rightarrow> manifest_schedule \<Rightarrow> schedule \<Rightarrow> bool" where
  "schedule_of env app x r \<longleftrightarrow>
     (\<exists>n. next_after (ie_cron env) (ms_cron x) (ie_now env) = Inr n \<and> app_schedule_row env app x n = Some r)"

lemma each_schedules_ok:
  "each (install_schedule env app) xs s = (Inr (), s') \<Longrightarrow>
    \<exists>rows. list_all2 (schedule_of env app) xs rows \<and> s' = s\<lparr>t_schedules := t_schedules s @ rows\<rparr>"
proof (induction xs arbitrary: s)
  case (Cons x xs)
  from Cons.prems obtain s1 where x: "install_schedule env app x s = (Inr (), s1)"
    and xs: "each (install_schedule env app) xs s1 = (Inr (), s')" by (auto elim: chain_okE)
  from install_schedule_ok [OF x] obtain r where r: "schedule_of env app x r" "s1 = s\<lparr>t_schedules := t_schedules s @ [r]\<rparr>"
    by (auto simp: schedule_of_def)
  from Cons.IH [OF xs] obtain rows where "list_all2 (schedule_of env app) xs rows"
    "s' = s1\<lparr>t_schedules := t_schedules s1 @ rows\<rparr>" by blast
  with r show ?case by (intro exI [of _ "r # rows"]) simp
qed simp

lemma make_bindings_ok:
  "make_bindings app now caps = Inr bs \<Longrightarrow>
    map (\<lambda>b. (ab_capability b, ab_required b)) bs = caps \<and>
    (\<forall>b \<in> set bs. ab_install_name b = app \<and> map_option cr_default_driver (lookup_capability (ab_capability b)) = Some (ab_driver_id b))"
  by (induction caps arbitrary: bs) (auto split: option.splits sum.splits)

section \<open>Installing and ownership\<close>

lemma fresh_key: "first_some (key_taken m mounts) vps = None \<Longrightarrow> vp \<in> set vps \<Longrightarrow> x \<in> set mounts \<Longrightarrow>
    distinct (map vm_name mounts) \<Longrightarrow> vm_name x = vp_key vp \<Longrightarrow> vm_app_id x = Some (am_name (mf_app m))"
proof (induction vps)
  case (Cons v vps)
  show ?case
  proof (cases "vp = v")
    case True
    from Cons.prems True have "key_taken m mounts v = None" by (simp split: option.splits)
    moreover have "find (\<lambda>y. vm_name y = vp_key v) mounts = Some x"
    proof (cases "find (\<lambda>y. vm_name y = vp_key v) mounts")
      case None
      with Cons.prems True show ?thesis by (auto simp: find_None_iff)
    next
      case (Some y)
      with Cons.prems True show ?thesis using find_SomeD [OF Some] by (auto simp: distinct_map inj_on_def)
    qed
    ultimately show ?thesis by (auto simp: key_taken_def split: if_splits)
  next
    case False
    with Cons show ?thesis by (auto split: option.splits)
  qed
qed simp

lemma register_ok:
  "register_projects env m existing s = (Inr (), s') \<Longrightarrow>
    s' = s\<lparr>t_mounts := t_mounts s @ map (mount_to_row o project_mount env m)
      (filter (\<lambda>vp. \<not> list_ex (\<lambda>x. vm_name x = vp_key vp) existing) (mf_vault_projects m))\<rparr>"
  unfolding register_projects_def by (rule each_mounts_ok)

lemma apply_manifest_ok:
  assumes "apply_manifest env body reload m existing prev s = (Inr view, s')" and "app = am_name (mf_app m)"
  obtains bs rows where
    "t_bindings s' = delete_where (\<lambda>b. ab_install_name b = app) (t_bindings s) @ bs"
    "make_bindings app (ie_now env) (all_capabilities m) = Inr bs"
    "t_mounts s' = t_mounts s @ map (mount_to_row o project_mount env m)
      (filter (\<lambda>vp. \<not> list_ex (\<lambda>x. vm_name x = vp_key vp) existing) (mf_vault_projects m))"
    "t_schedules s' = delete_where (\<lambda>r. sc_app_id r = Some app) (t_schedules s) @ rows"
    "list_all2 (schedule_of env app) (mf_schedule m) rows"
proof -
  obtain bs where bs: "make_bindings app (ie_now env) (all_capabilities m) = Inr bs"
    using assms(1) unfolding apply_manifest_def Let_def assms(2) [symmetric]
    by (cases "make_bindings app (ie_now env) (all_capabilities m)") (auto elim: chain_okE)
  obtain i s1 where up: "upsert_app_install i s = (Inr (), s1)"
    and rest: "chain (call (replace_app_bindings app bs)) (\<lambda>_.
          chain (register_projects env m existing) (\<lambda>_.
          chain (call (delete_schedules_by_app app)) (\<lambda>_.
          chain (each (install_schedule env app) (mf_schedule m)) (\<lambda>_.
          install_view app)))) s1 = (Inr view, s')"
    using assms(1) unfolding apply_manifest_def Let_def assms(2) [symmetric] bs sum.case
    by (erule_tac chain_okE) (simp add: call_ok)
  from rest obtain s2 s3 s4 s5 n where
      b: "replace_app_bindings app bs s1 = (Inr (), s2)" and v: "register_projects env m existing s2 = (Inr (), s3)"
    and d: "delete_schedules_by_app app s3 = (Inr n, s4)" and c: "each (install_schedule env app) (mf_schedule m) s4 = (Inr (), s5)"
    and w: "install_view app s5 = (Inr view, s')"
    by (auto elim!: chain_okE simp: call_ok)
  obtain rows where rows: "list_all2 (schedule_of env app) (mf_schedule m) rows" "s5 = s4\<lparr>t_schedules := t_schedules s4 @ rows\<rparr>"
    using each_schedules_ok [OF c] by blast
  have s': "s' = s5" using install_view_reads [of app s5] w by simp
  obtain rs where s4: "s4 = s3\<lparr>t_runs := rs, t_schedules := delete_where (\<lambda>r. sc_app_id r = Some app) (t_schedules s3)\<rparr>"
    using delete_app_schedules [of app s3] d by auto
  obtain xs where "s1 = s\<lparr>t_installs := xs\<rparr>" using upsert_install_ok [OF up] by blast
  then show thesis
    using that [OF _ bs _ _ rows(1)] s' s4 rows(2) replace_bindings_ok [OF b] register_ok [OF v] by simp
qed

lemma existing_keys: "list_ex (\<lambda>x. vm_name x = k) (map row_to_vault_mount (order_asc vm_name rows)) \<longleftrightarrow> k \<in> vm_name ` set rows"
  by (auto simp: list_ex_iff row_to_vault_mount_def vault_mount.defs)

lemma install_inner_ok:
  assumes "install_app_inner env body reload s = (Inr view, s')" and "parse_manifest (ie_toml env) (bd_manifest_text body) = Inr m"
  obtains prev where "first_some (key_taken m (map row_to_vault_mount (order_asc vm_name (t_mounts s)))) (mf_vault_projects m) = None"
    "apply_manifest env body reload m (map row_to_vault_mount (order_asc vm_name (t_mounts s))) prev s = (Inr view, s')"
  using assms(1) unfolding install_app_inner_def assms(2) sum.case
  by (cases "first_some (key_taken m (map row_to_vault_mount (order_asc vm_name (t_mounts s)))) (mf_vault_projects m)"; cases reload) auto

lemma install_writes:
  assumes "install_app_inner env body reload s = (Inr view, s')"
    and "parse_manifest (ie_toml env) (bd_manifest_text body) = Inr m" and "app = am_name (mf_app m)"
  shows "\<exists>bs rows.
    t_bindings s' = filter (\<lambda>b. ab_install_name b \<noteq> app) (t_bindings s) @ bs \<and>
    map (\<lambda>b. (ab_capability b, ab_required b)) bs = all_capabilities m \<and> (\<forall>b \<in> set bs. ab_install_name b = app) \<and>
    t_mounts s' = t_mounts s @ map (mount_to_row o project_mount env m)
      (filter (\<lambda>vp. vp_key vp \<notin> vm_name ` set (t_mounts s)) (mf_vault_projects m)) \<and>
    t_schedules s' = filter (\<lambda>r. sc_app_id r \<noteq> Some app) (t_schedules s) @ rows \<and>
    list_all2 (schedule_of env app) (mf_schedule m) rows"
proof -
  from install_inner_ok [OF assms(1,2)] obtain prev where
    "apply_manifest env body reload m (map row_to_vault_mount (order_asc vm_name (t_mounts s))) prev s = (Inr view, s')" .
  from apply_manifest_ok [OF this assms(3)] obtain bs rows where
    "t_bindings s' = delete_where (\<lambda>b. ab_install_name b = app) (t_bindings s) @ bs"
    "make_bindings app (ie_now env) (all_capabilities m) = Inr bs"
    "t_mounts s' = t_mounts s @ map (mount_to_row o project_mount env m)
      (filter (\<lambda>vp. \<not> list_ex (\<lambda>x. vm_name x = vp_key vp) (map row_to_vault_mount (order_asc vm_name (t_mounts s)))) (mf_vault_projects m))"
    "t_schedules s' = delete_where (\<lambda>r. sc_app_id r = Some app) (t_schedules s) @ rows"
    "list_all2 (schedule_of env app) (mf_schedule m) rows" .
  then show ?thesis
    using make_bindings_ok [of app "ie_now env" "all_capabilities m" bs] by (auto simp: existing_keys delete_where_def)
qed

text \<open>C21: A successful install or reload leaves the manifest's bindings and schedules as the app's, adds exactly the project mounts
  it did not have, and touches no binding, mount or schedule of anyone else.\<close>
theorem install_effect:
  assumes "install_app_inner env body reload s = (Inr view, s')"
    and "parse_manifest (ie_toml env) (bd_manifest_text body) = Inr m" and "app = am_name (mf_app m)"
  shows "\<exists>bs rows.
    t_bindings s' = filter (\<lambda>b. ab_install_name b \<noteq> app) (t_bindings s) @ bs \<and>
    map (\<lambda>b. (ab_capability b, ab_required b)) bs = all_capabilities m \<and> (\<forall>b \<in> set bs. ab_install_name b = app) \<and>
    t_mounts s' = t_mounts s @ map (mount_to_row o project_mount env m)
      (filter (\<lambda>vp. vp_key vp \<notin> vm_name ` set (t_mounts s)) (mf_vault_projects m)) \<and>
    t_schedules s' = filter (\<lambda>r. sc_app_id r \<noteq> Some app) (t_schedules s) @ rows \<and>
    list_all2 (schedule_of env app) (mf_schedule m) rows"
  by (rule install_writes [OF assms])

section \<open>Mounts change hands only through their owner\<close>

text \<open>A part of the store only grows.\<close>
definition grows :: "(store \<Rightarrow> 'r list) \<Rightarrow> 'a handler \<Rightarrow> bool" where
  "grows t h \<longleftrightarrow> (\<forall>s. prefix (t s) (t (snd (h s))))"

named_theorems grows_intros \<open>handlers that only append to a table\<close>

lemma grows_ok [grows_intros]: "grows t (ok x)" and grows_fail [grows_intros]: "grows t (fail e)"
  by (simp_all add: grows_def)

lemma grows_chain [grows_intros]: "grows t m \<Longrightarrow> (\<And>x. grows t (f x)) \<Longrightarrow> grows t (chain m f)"
  unfolding grows_def chain_def by (auto split: prod.splits sum.splits) (metis prefix_order.trans snd_conv)+

lemma grows_each [grows_intros]: "(\<And>x. grows t (f x)) \<Longrightarrow> grows t (each f xs)"
  by (induction xs) (simp_all add: grows_ok grows_chain)

lemma grows_frame [grows_intros]: "frame t m \<Longrightarrow> grows t (call m)"
  unfolding grows_def call_def frame_def by (auto split: prod.splits sum.splits) (metis prefix_order.refl snd_conv)+

lemma grows_if [grows_intros]: "grows t m \<Longrightarrow> grows t m' \<Longrightarrow> grows t (if b then m else m')"
  by simp

lemma grows_mount [grows_intros]: "grows t_mounts (call (create_vault_mount m))"
  by (simp add: grows_def call_def create_vault_mount_def sql_insert_def)

lemma frame_transaction: "frame f m \<Longrightarrow> frame f (transaction m)"
  by (auto simp: frame_def transaction_def split: prod.splits sum.splits) (metis snd_conv)

lemma frame_mounts [frame_intros]:
  "frame t_mounts list_vault_mounts" "frame t_mounts (get_app_install app)" "frame t_mounts (upsert_app_install i)"
  "frame t_mounts (replace_app_bindings app bs)" "frame t_mounts (delete_schedules_by_app app)"
  "frame t_mounts (create_schedule row)" "frame t_mounts (list_app_bindings app)" "frame t_mounts all_schedules"
  "frame t_mounts (delete_app_install app)"
proof -
  have b: "frame t_mounts (insert_binding x)" for x by (simp add: frame_def insert_binding_def)
  show "frame t_mounts (replace_app_bindings app bs)"
    unfolding replace_app_bindings_def by (intro frame_transaction frame_bind frame_for_each b frame_delete) simp
qed (simp_all add: frame_def list_vault_mounts_def get_app_install_def upsert_app_install_def bind_def sql_insert_def
    delete_schedules_by_app_def delete_schedules_where_def create_schedule_def list_app_bindings_def all_schedules_def
    list_schedules_def delete_app_install_def)

lemma install_grows: "grows t_mounts (install_app_inner env body reload)"
proof -
  have view: "grows t_mounts (install_view app)" for app
    by (simp add: grows_def install_view_reads)
  have sched: "grows t_mounts (install_schedule env app x)" for app x
    unfolding install_schedule_def by (auto split: sum.splits option.splits intro!: grows_intros frame_intros)
  have "grows t_mounts (apply_manifest env body reload m existing prev)" for m existing prev
    unfolding apply_manifest_def register_projects_def Let_def
    by (auto split: sum.splits intro!: grows_intros frame_intros view sched)
  then show ?thesis
    unfolding install_app_inner_def by (auto split: sum.splits option.splits intro!: grows_intros frame_intros)
qed

lemma delete_owned_mounts:
  "each (\<lambda>x. call (delete_vault_mount (vm_name x))) xs s =
     (Inr (), s\<lparr>t_mounts := delete_where (\<lambda>r. vm_name r \<in> vm_name ` set xs) (t_mounts s)\<rparr>)"
proof (induction xs arbitrary: s)
  case (Cons x xs)
  have "call (delete_vault_mount (vm_name x)) s = (Inr (), s\<lparr>t_mounts := delete_where (\<lambda>r. vm_name r = vm_name x) (t_mounts s)\<rparr>)"
    by (simp add: call_def delete_vault_mount_def bind_def)
  with Cons.IH show ?case by (simp add: delete_where_def conj_commute)
qed (simp add: delete_where_def)

lemma uninstall_mounts:
  assumes "app_installs_delete name s = (r, s')" and "distinct (map vm_name (t_mounts s))"
  shows "t_mounts s' = filter (\<lambda>x. vm_app_id x \<noteq> Some name) (t_mounts s)"
proof -
  let ?owned = "owned_mounts name (map row_to_vault_mount (order_asc vm_name (t_mounts s)))"
  obtain s1 where s1: "s1 = s\<lparr>t_mounts := delete_where (\<lambda>r. vm_name r \<in> vm_name ` set ?owned) (t_mounts s)\<rparr>" by blast
  have "s' = snd (chain (call (delete_schedules_by_app name)) (\<lambda>_. call (delete_app_install name)) s1)"
    using assms(1) by (simp add: app_installs_delete_def delete_owned_mounts s1)
  moreover have "grows t_mounts (chain (call (delete_schedules_by_app name)) (\<lambda>_. call (delete_app_install name)))"
    "frame t_mounts (delete_app_install name)" by (intro grows_intros frame_intros)+
  moreover have "t_mounts (snd (chain (call (delete_schedules_by_app name)) (\<lambda>_. call (delete_app_install name)) s1)) = t_mounts s1"
    by (simp add: chain_def call_def delete_schedules_by_app_def delete_schedules_where_def bind_def delete_app_install_def)
  ultimately have "t_mounts s' = delete_where (\<lambda>r. vm_name r \<in> vm_name ` set ?owned) (t_mounts s)" by (simp add: s1)
  moreover have "vm_name r \<in> vm_name ` set ?owned \<longleftrightarrow> vm_app_id r = Some name" if "r \<in> set (t_mounts s)" for r
  proof -
    have "vm_name ` set ?owned = vm_name ` {x \<in> set (t_mounts s). vm_app_id x = Some name}"
      by (force simp: owned_mounts_def row_to_vault_mount_def vault_mount.defs)
    then show ?thesis using that assms(2) by (auto simp: distinct_map inj_on_def)
  qed
  ultimately show ?thesis by (auto simp: delete_where_def intro!: filter_cong)
qed

definition mounts_wf :: "store \<Rightarrow> bool" where
  "mounts_wf s \<longleftrightarrow> distinct (map vm_name (t_mounts s))"

lemma mounts_wf_insert: "mounts_wf s \<Longrightarrow> mounts_wf (snd (create_vault_mount m s))"
  by (auto simp: mounts_wf_def create_vault_mount_def sql_insert_def list_ex_iff mount_to_row_def vault_mount.defs)

text \<open>Keeping an invariant of the store through a handler.\<close>
definition keeps :: "(store \<Rightarrow> bool) \<Rightarrow> 'a handler \<Rightarrow> bool" where
  "keeps P h \<longleftrightarrow> (\<forall>s. P s \<longrightarrow> P (snd (h s)))"

named_theorems keeps_intros \<open>handlers that keep an invariant\<close>

lemma keeps_ok [keeps_intros]: "keeps P (ok x)" and keeps_fail [keeps_intros]: "keeps P (fail e)"
  by (simp_all add: keeps_def)

lemma keeps_chain [keeps_intros]: "keeps P m \<Longrightarrow> (\<And>x. keeps P (f x)) \<Longrightarrow> keeps P (chain m f)"
  unfolding keeps_def chain_def by (fastforce split: prod.splits sum.splits)

lemma keeps_each [keeps_intros]: "(\<And>x. keeps P (f x)) \<Longrightarrow> keeps P (each f xs)"
  by (induction xs) (simp_all add: keeps_ok keeps_chain)

lemma keeps_if [keeps_intros]: "keeps P m \<Longrightarrow> keeps P m' \<Longrightarrow> keeps P (if b then m else m')"
  by simp

lemma keeps_mounts [keeps_intros]: "frame t_mounts m \<Longrightarrow> keeps mounts_wf (call m)"
  unfolding keeps_def call_def frame_def mounts_wf_def by (auto split: prod.splits sum.splits) (metis snd_conv)+

lemma keeps_create [keeps_intros]: "keeps mounts_wf (call (create_vault_mount m))"
  unfolding keeps_def call_def using mounts_wf_insert [of _ m] by (auto split: prod.splits sum.splits) (metis snd_conv)+

lemma install_keeps: "keeps mounts_wf (install_app_inner env body reload)"
proof -
  have view: "keeps mounts_wf (install_view app)" for app
    by (simp add: keeps_def install_view_reads)
  have sched: "keeps mounts_wf (install_schedule env app x)" for app x
    unfolding install_schedule_def by (auto split: sum.splits option.splits intro!: keeps_intros frame_intros)
  have "keeps mounts_wf (apply_manifest env body reload m existing prev)" for m existing prev
    unfolding apply_manifest_def register_projects_def Let_def
    by (auto split: sum.splits intro!: keeps_intros frame_intros view sched)
  then show ?thesis
    unfolding install_app_inner_def by (auto split: sum.splits option.splits intro!: keeps_intros frame_intros)
qed

text \<open>The requests that write mounts; each is one handler run.\<close>
datatype 'c app_request =
  Install "'c install_env" app_install_body bool
| Uninstall string
| Create_Mount timestamp string vault_mount_body
| Delete_Mount string

fun handle :: "'c app_request \<Rightarrow> store \<Rightarrow> store" where
  "handle (Install env body is_reload) s = snd (install_app_inner env body is_reload s)"
| "handle (Uninstall name) s = snd (app_installs_delete name s)"
| "handle (Create_Mount now uuid body) s = snd (vault_mounts_create now uuid body s)"
| "handle (Delete_Mount name) s = snd (delete_vault_mount name s)"

definition takes_away :: "'c app_request \<Rightarrow> vault_mount_row \<Rightarrow> bool" where
  "takes_away req x = (case req of Uninstall name \<Rightarrow> vm_app_id x = Some name | Delete_Mount name \<Rightarrow> vm_name x = name | _ \<Rightarrow> False)"

lemma handle_wf: "mounts_wf s \<Longrightarrow> mounts_wf (handle req s)"
proof (cases req)
  case (Install env body is_reload)
  then show "mounts_wf s \<Longrightarrow> ?thesis" using install_keeps by (auto simp: keeps_def)
next
  case (Uninstall name)
  show ?thesis if "mounts_wf s"
    using Uninstall uninstall_mounts [OF surjective_pairing, of s name] that by (auto simp: mounts_wf_def distinct_map_filter)
next
  case (Create_Mount now uuid body)
  then show "mounts_wf s \<Longrightarrow> ?thesis"
    using mounts_wf_insert by (auto simp: vault_mounts_create_def Let_def split: prod.splits) (metis snd_conv)
next
  case (Delete_Mount name)
  then show "mounts_wf s \<Longrightarrow> ?thesis"
    by (simp add: delete_vault_mount_def bind_def mounts_wf_def delete_where_def distinct_map_filter)
qed

lemma handle_keeps: "mounts_wf s \<Longrightarrow> x \<in> set (t_mounts s) \<Longrightarrow> \<not> takes_away req x \<Longrightarrow> x \<in> set (t_mounts (handle req s))"
proof (cases req)
  case (Install env body is_reload)
  assume "x \<in> set (t_mounts s)"
  with Install show ?thesis using install_grows [of env body is_reload] set_mono_prefix by (fastforce simp: grows_def)
next
  case (Uninstall name)
  assume "mounts_wf s" "x \<in> set (t_mounts s)" "\<not> takes_away req x"
  with Uninstall uninstall_mounts [OF surjective_pairing, of s name] show ?thesis
    by (auto simp: mounts_wf_def takes_away_def)
next
  case (Create_Mount now uuid body)
  assume "x \<in> set (t_mounts s)"
  with Create_Mount show ?thesis
    by (auto simp: vault_mounts_create_def Let_def create_vault_mount_def sql_insert_def)
next
  case (Delete_Mount name)
  assume "x \<in> set (t_mounts s)" "\<not> takes_away req x"
  with Delete_Mount show ?thesis by (simp add: delete_vault_mount_def bind_def delete_where_def takes_away_def)
qed

text \<open>Whatever installs, reloads, uninstalls and mount requests run, refused ones included, mount names stay unique and a mount
  stays exactly as it was until its owner is uninstalled or its own deletion is requested.\<close>
theorem mount_owner_kept:
  assumes "mounts_wf s" and "x \<in> set (t_mounts s)" and "\<forall>req \<in> set reqs. \<not> takes_away req x"
  shows "mounts_wf (fold handle reqs s) \<and> x \<in> set (t_mounts (fold handle reqs s))"
  using assms by (induction reqs arbitrary: s) (simp_all add: handle_wf handle_keeps)

section \<open>Project keys\<close>

lemma first_some_Some: "first_some f xs = Some e \<Longrightarrow> \<exists>x \<in> set xs. f x = Some e"
  by (induction xs) (auto split: option.splits)

lemma handles_wf: "mounts_wf s \<Longrightarrow> mounts_wf (fold handle reqs s)"
  by (induction reqs arbitrary: s) (simp_all add: handle_wf)

lemma mounts_wf_open: "mounts_wf (open_with_device fk device)"
  by (simp add: mounts_wf_def open_with_device_def)

text \<open>A key another owner holds.\<close>
definition held_by_other :: "store \<Rightarrow> app_manifest \<Rightarrow> vault_project \<Rightarrow> bool" where
  "held_by_other s m vp \<longleftrightarrow> (\<exists>x \<in> set (t_mounts s). vm_name x = vp_key vp \<and> vm_app_id x \<noteq> Some (am_name (mf_app m)))"

lemma row_mount_sel [simp]: "vm_name (row_to_vault_mount r) = vm_name r" "vm_app_id (row_to_vault_mount r) = vm_app_id r"
  "vm_name (mount_to_row x) = vm_name x" "vm_app_id (mount_to_row x) = vm_app_id x"
  by (simp_all add: row_to_vault_mount_def mount_to_row_def vault_mount.defs)

text \<open>The guard finds a held key exactly when there is one.\<close>
lemma key_taken_iff:
  assumes "mounts_wf s" and "existing = map row_to_vault_mount (order_asc vm_name (t_mounts s))"
  shows "first_some (key_taken m existing) vps = None \<longleftrightarrow> (\<forall>vp \<in> set vps. \<not> held_by_other s m vp)"
proof
  have dist: "distinct (map vm_name existing)"
    using assms by (simp add: mounts_wf_def comp_def distinct_map order_asc_def)
  assume none: "first_some (key_taken m existing) vps = None"
  show "\<forall>vp \<in> set vps. \<not> held_by_other s m vp"
  proof (intro ballI notI)
    fix vp assume vp: "vp \<in> set vps" and "held_by_other s m vp"
    then obtain x where "x \<in> set (t_mounts s)" "vm_name x = vp_key vp" "vm_app_id x \<noteq> Some (am_name (mf_app m))"
      by (auto simp: held_by_other_def)
    with fresh_key [OF none vp, of "row_to_vault_mount x"] dist show False by (simp add: assms(2))
  qed
next
  assume free: "\<forall>vp \<in> set vps. \<not> held_by_other s m vp"
  have "key_taken m existing vp = None" if "vp \<in> set vps" for vp
  proof (cases "find (\<lambda>x. vm_name x = vp_key vp) existing")
    case (Some x)
    then obtain r where "r \<in> set (t_mounts s)" "x = row_to_vault_mount r" "vm_name x = vp_key vp"
      using find_SomeD [OF Some] by (auto simp: assms(2))
    then have "vm_app_id x = Some (am_name (mf_app m))" using free that by (auto simp: held_by_other_def)
    then show ?thesis using Some by (simp add: key_taken_def)
  qed (simp add: key_taken_def)
  then show "first_some (key_taken m existing) vps = None" by (induction vps) auto
qed

text \<open>C22: In every state the requests reach: an install or reload of a manifest with a project key that another owner's mount has
  is refused as a conflict naming the key, with nothing written; and after an install that succeeds every project key of the
  manifest is the name of exactly one mount, which is the app's.\<close>
theorem project_keys_exclusive:
  assumes "s = fold handle reqs (open_with_device fk device)"
    and "parse_manifest (ie_toml env) (bd_manifest_text body) = Inr m" and "install_app_inner env body reload s = (reply, s')"
  shows "((\<exists>vp \<in> set (mf_vault_projects m). held_by_other s m vp) \<longrightarrow>
      (\<exists>vp \<in> set (mf_vault_projects m). \<exists>rest. reply = Inl (App_Text 409 (''project key '' @ quoted (vp_key vp) @ rest))) \<and> s' = s) \<and>
    (\<forall>view. reply = Inr view \<longrightarrow> (\<forall>vp \<in> set (mf_vault_projects m).
      \<exists>x. filter (\<lambda>x. vm_name x = vp_key vp) (t_mounts s') = [x] \<and> vm_app_id x = Some (am_name (mf_app m))))"
proof (intro conjI impI allI ballI)
  let ?existing = "map row_to_vault_mount (order_asc vm_name (t_mounts s))" let ?vps = "mf_vault_projects m"
  have wf: "mounts_wf s" using handles_wf [OF mounts_wf_open] assms(1) by simp
  {
    assume "\<exists>vp \<in> set ?vps. held_by_other s m vp"
    then obtain e where e: "first_some (key_taken m ?existing) ?vps = Some e" using key_taken_iff [OF wf refl, of m ?vps] by auto
    then have run: "reply = Inl e" "s' = s" using assms(2,3) by (auto simp: install_app_inner_def)
    from first_some_Some [OF e] obtain vp where "vp \<in> set ?vps" "key_taken m ?existing vp = Some e" by blast
    then show "\<exists>vp \<in> set ?vps. \<exists>rest. reply = Inl (App_Text 409 (''project key '' @ quoted (vp_key vp) @ rest))"
      unfolding run by (auto simp: key_taken_def split: option.splits if_splits)
    show "s' = s" by (rule run)
  }
  fix view vp assume reply: "reply = Inr view" and vp: "vp \<in> set ?vps"
  note run = assms(3) [unfolded reply]
  have free: "\<not> held_by_other s m vp"
    using install_inner_ok [OF run assms(2)] key_taken_iff [OF wf refl, of m ?vps] vp by metis
  have "distinct (map vm_name (t_mounts s'))"
    using install_keeps wf run unfolding keeps_def mounts_wf_def by (metis snd_conv)
  moreover have "\<exists>x \<in> set (t_mounts s'). vm_name x = vp_key vp \<and> vm_app_id x = Some (am_name (mf_app m))"
  proof (cases "vp_key vp \<in> vm_name ` set (t_mounts s)")
    case True
    then obtain x where "x \<in> set (t_mounts s)" "vm_name x = vp_key vp" by auto
    then show ?thesis using free install_writes [OF run assms(2) refl] by (intro bexI [of _ x]) (auto simp: held_by_other_def)
  next
    case False
    with vp install_writes [OF run assms(2) refl] have "mount_to_row (project_mount env m vp) \<in> set (t_mounts s')" by auto
    then show ?thesis by (intro bexI [of _ "mount_to_row (project_mount env m vp)"]) (simp_all add: project_mount_def)
  qed
  ultimately show "\<exists>x. filter (\<lambda>x. vm_name x = vp_key vp) (t_mounts s') = [x] \<and> vm_app_id x = Some (am_name (mf_app m))"
    using filter_key_single [of vm_name "t_mounts s'"] by blast
qed

section \<open>Schedules of an app\<close>

text \<open>Every exec schedule an install registers has no working directory, so every fire of it is refused and nothing is ever
  spawned for an app until someone patches the row.\<close>
theorem app_exec_never_spawns:
  assumes "install_app_inner env body reload s = (Inr view, s')"
    and "parse_manifest (ie_toml env) (bd_manifest_text body) = Inr m"
    and "x \<in> set (mf_schedule m)" and "ms_target x = ''exec''"
  shows "\<exists>r \<in> set (t_schedules s'). sc_name r = ms_name x \<and> sc_app_id r = Some (am_name (mf_app m)) \<and> sc_enabled r \<and>
    sc_command r = Some (ms_command x) \<and>
    (\<forall>lib :: 'b scheduler_lib. \<forall>spawn vars t cfg. \<exists>reason. run_exec_schedule lib spawn vars r t cfg = (Refused reason, None))"
proof -
  from install_writes [OF assms(1,2) refl] obtain rows where
    t: "t_schedules s' = filter (\<lambda>r. sc_app_id r \<noteq> Some (am_name (mf_app m))) (t_schedules s) @ rows"
    and rows: "list_all2 (schedule_of env (am_name (mf_app m))) (mf_schedule m) rows" by blast
  from assms(3) obtain i where i: "i < length (mf_schedule m)" "x = mf_schedule m ! i" by (auto simp: in_set_conv_nth)
  with rows have "rows ! i \<in> set rows" "schedule_of env (am_name (mf_app m)) x (rows ! i)"
    by (auto simp: list_all2_conv_all_nth)
  then obtain r where r: "r \<in> set rows" "schedule_of env (am_name (mf_app m)) x r" by blast
  then have f: "sc_name r = ms_name x" "sc_app_id r = Some (am_name (mf_app m))" "sc_enabled r" "sc_command r = Some (ms_command x)"
    "sc_cwd r = None"
    using assms(4) by (auto simp: schedule_of_def app_schedule_row_def Let_def)
  then have "\<exists>reason. run_exec_schedule lib spawn vars r t cfg = (Refused reason, None)"
    for lib :: "'b scheduler_lib" and spawn vars t cfg
    by (auto simp: run_exec_schedule_def)
  with r t f show ?thesis by auto
qed

text \<open>A reload whose first cron expression is invalid is answered 400, but the new record is already written and the app's
  schedules are gone.\<close>
theorem refused_reload_drops_schedules:
  assumes "parse_manifest (ie_toml env) (bd_manifest_text body) = Inr m" and "app = am_name (mf_app m)"
    and "mf_vault_projects m = []" and "all_capabilities m = []" and "mf_schedule m = x # xs"
    and "next_after (ie_cron env) (ms_cron x) (ie_now env) = Inl e"
    and "install_app_inner env body reload s = (reply, s')"
  shows "(\<exists>msg. reply = Inl (App_Text 400 msg)) \<and> (\<forall>r \<in> set (t_schedules s'). sc_app_id r \<noteq> Some app) \<and>
    (\<exists>i \<in> set (t_installs s'). ai_name i = app \<and> ai_manifest_sha i = ie_sha env (bd_manifest_text body))"
proof -
  obtain prev where run: "apply_manifest env body reload m (map row_to_vault_mount (order_asc vm_name (t_mounts s))) prev s = (reply, s')"
    using assms(1,3,7) unfolding install_app_inner_def by (cases reload) auto
  let ?i = "\<lparr>ai_name = app, ai_version = am_version (mf_app m), ai_source_ref = bd_source_ref body,
         ai_manifest_sha = ie_sha env (bd_manifest_text body),
         ai_installed_at = (case prev of None \<Rightarrow> ie_now env | Some p \<Rightarrow> ai_installed_at p),
         ai_reloaded_at = (if reload then Some (ie_now env) else None)\<rparr>"
  obtain rows where up: "upsert_app_install ?i s = (Inr (), s\<lparr>t_installs := rows\<rparr>)"
    and rows: "\<exists>r \<in> set rows. ai_name r = app \<and> ai_manifest_sha r = ie_sha env (bd_manifest_text body)"
    using upsert_install_runs [of ?i s] by auto
  obtain bs where b: "replace_app_bindings app [] (s\<lparr>t_installs := rows\<rparr>) = (Inr (), s\<lparr>t_installs := rows, t_bindings := bs\<rparr>)"
    by (simp add: replace_app_bindings_def transaction_def bind_def)
  obtain n rs where d: "delete_schedules_by_app app (s\<lparr>t_installs := rows, t_bindings := bs\<rparr>) =
      (Inr n, s\<lparr>t_installs := rows, t_bindings := bs, t_runs := rs,
        t_schedules := delete_where (\<lambda>r. sc_app_id r = Some app) (t_schedules s)\<rparr>)"
    using delete_app_schedules [of app "s\<lparr>t_installs := rows, t_bindings := bs\<rparr>"] by auto
  have "call (upsert_app_install ?i) s = (Inr (), s\<lparr>t_installs := rows\<rparr>)" using up by (simp add: call_ok)
  moreover have "call (replace_app_bindings app []) (s\<lparr>t_installs := rows\<rparr>) = (Inr (), s\<lparr>t_installs := rows, t_bindings := bs\<rparr>)"
    using b by (simp add: call_ok)
  moreover note d [folded call_ok]
  ultimately have "reply = Inl (App_Text 400 (''schedule '' @ quoted (ms_name x) @ '' cron '' @ quoted (ms_cron x) @
                   '' invalid: '' @ ie_cron_text env e)) \<and>
      s' = s\<lparr>t_installs := rows, t_bindings := bs, t_runs := rs,
        t_schedules := delete_where (\<lambda>r. sc_app_id r = Some app) (t_schedules s)\<rparr>"
    using run unfolding apply_manifest_def Let_def assms(2) [symmetric] assms(4) make_bindings.simps sum.case register_projects_def
      assms(3,5) by (simp add: install_schedule_def assms(6))
  with rows show ?thesis by (auto simp: delete_where_def)
qed

section \<open>Vault pages stay under their mount\<close>

lemma split_slash_nonempty: "split_slash s \<noteq> []"
  by (induction s) (auto split: list.splits)

lemma split_slash_append: "split_slash (a @ ''/'' @ b) = split_slash a @ split_slash b"
proof (induction a)
  case (Cons c a)
  show ?case
  proof (cases "c = CHR ''/''")
    case False
    with Cons split_slash_nonempty [of a] show ?thesis by (cases "split_slash a") auto
  qed (use Cons in simp)
qed simp

definition normal :: "string list \<Rightarrow> string list" where
  "normal = filter (\<lambda>p. p \<noteq> [] \<and> p \<noteq> ''.'')"

text \<open>The directories a path names, without the leading marker.\<close>
lemma normal_components: "filter (\<lambda>c. c \<noteq> ''.'' \<and> c \<noteq> ''/'') (path_components s) = normal (split_slash s)"
proof -
  have no_slash: "p \<in> set (split_slash s) \<Longrightarrow> CHR ''/'' \<notin> set p" for p and s :: string
    by (induction s arbitrary: p) (auto split: list.splits if_splits)
  have "p \<in> set (normal (split_slash s)) \<Longrightarrow> p \<noteq> ''.'' \<and> p \<noteq> ''/''" for p
    using no_slash [of p s] by (auto simp: normal_def)
  then have "filter (\<lambda>c. c \<noteq> ''.'' \<and> c \<noteq> ''/'') (normal (split_slash s)) = normal (split_slash s)" by (simp add: filter_id_conv)
  moreover have "split_slash s = hd (split_slash s) # tl (split_slash s)" using split_slash_nonempty by simp
  then have "hd (split_slash s) = ''.'' \<Longrightarrow> normal (split_slash s) = normal (tl (split_slash s))"
    by (metis (mono_tags, lifting) filter.simps(2) normal_def)
  ultimately show ?thesis
    unfolding path_components_def Let_def normal_def [symmetric] by auto
qed

definition directories :: "string \<Rightarrow> string list" where
  "directories s = filter (\<lambda>c. c \<noteq> ''.'' \<and> c \<noteq> ''/'') (path_components s)"

text \<open>C23: A page path is accepted exactly when it is relative and names no parent directory; the file is then the mount's
  directories followed by the path's own, so pages stay below their mount (as far as names go: links are followed).\<close>
theorem page_confined:
  "case resolve_within mount_root rel of
     Inl _ \<Rightarrow> prefix ''/'' rel \<or> ''..'' \<in> set (path_components rel)
   | Inr path \<Rightarrow> \<not> prefix ''/'' rel \<and> ''..'' \<notin> set (directories rel) \<and>
       directories path = directories mount_root @ directories rel"
proof (cases "resolve_within mount_root rel")
  case (Inl e)
  then show ?thesis by (auto simp: resolve_within_def split: if_splits)
next
  case (Inr path)
  then have no: "''..'' \<notin> set (path_components rel)" "\<not> prefix ''/'' rel"
    and path: "path = (if mount_root = [] \<or> last mount_root = CHR ''/'' then mount_root @ rel else mount_root @ ''/'' @ rel)"
    by (auto simp: resolve_within_def split: if_splits)
  have "normal (split_slash path) = normal (split_slash mount_root) @ normal (split_slash rel)"
  proof (cases "mount_root = [] \<or> last mount_root \<noteq> CHR ''/''")
    case True
    then show ?thesis using split_slash_append [of mount_root rel] path by (auto simp: normal_def)
  next
    case False
    then obtain b where b: "mount_root = b @ ''/''" by (cases mount_root rule: rev_cases) auto
    then have "path = b @ ''/'' @ rel" using path by simp
    then show ?thesis using split_slash_append [of b rel] split_slash_append [of b "[]"] b by (simp add: normal_def)
  qed
  then have "directories path = directories mount_root @ directories rel"
    by (simp only: directories_def normal_components)
  moreover have "''..'' \<notin> set (directories rel)" using no(1) by (simp add: directories_def)
  ultimately show ?thesis using Inr no(2) by simp
qed

section \<open>A sample app\<close>

definition sample_skeleton :: "string \<Rightarrow> string list \<Rightarrow> skeleton" where
  "sample_skeleton cron keys =
     \<lparr>mf_app = \<lparr>am_name = ''demo'', am_version = ''1'', am_description = None, am_homepage = None, am_license = None\<rparr>,
      mf_entrypoint = \<lparr>en_bin = ''m'', en_command = ''d'', en_runtime = ''node''\<rparr>,
      mf_vault_projects = map (\<lambda>k. \<lparr>vp_key = k, vp_description = None\<rparr>) keys,
      mf_schedule = [\<lparr>ms_name = ''brief'', ms_cron = cron, ms_target = ''exec'', ms_command = [''/bin/echo'']\<rparr>], mf_secrets = []\<rparr>"

definition sample_manifest :: "string \<Rightarrow> string list \<Rightarrow> app_manifest" where
  "sample_manifest cron keys = skeleton.extend (sample_skeleton cron keys) \<lparr>mf_requires = [], mf_optional = []\<rparr>"

definition sample_install_env :: "string \<Rightarrow> string list \<Rightarrow> unit install_env" where
  "sample_install_env cron keys =
     \<lparr>ie_toml = \<lparr>tl_parse = (\<lambda>_. Inr []), tl_spec = (\<lambda>_. Inr None), tl_skeleton = (\<lambda>_. Inr (sample_skeleton cron keys))\<rparr>,
      ie_cron = sample_lib, ie_sha = (\<lambda>t. t), ie_cron_text = (\<lambda>_. []), ie_now = ''0'', ie_mount_id = (\<lambda>k. k),
      ie_schedule_id = (\<lambda>n. n)\<rparr>"

definition sample_install_body :: app_install_body where
  "sample_install_body = \<lparr>bd_source_ref = ''src'', bd_manifest_text = ''text''\<rparr>"

lemma sample_parses:
  "parse_manifest (ie_toml (sample_install_env cron [''UBER''])) txt = Inr (sample_manifest cron [''UBER''])"
  "parse_manifest (ie_toml (sample_install_env cron [])) txt = Inr (sample_manifest cron [])"
  by (simp_all add: parse_manifest_def sample_install_env_def take_capability_section_def and_then_def Let_def
      sample_manifest_def validate_manifest_def sample_skeleton_def skeleton.defs validate_app_name_def is_lowercase_def
      is_uppercase_def validate_runtime_def check_vault_project_def validate_project_key_def check_schedule_def)

lemma sample_installs:
  "\<exists>view s'. install_app_inner (sample_install_env ''0 * * * *'' [''UBER'']) sample_install_body False (open_with_device True ''dev'') =
     (Inr view, s')"
proof -
  have "next_after (ie_cron (sample_install_env ''0 * * * *'' [''UBER''])) ''0 * * * *'' ''0'' = Inr (Some ''01'')"
    using sample_next_after by (simp add: sample_install_env_def)
  then show ?thesis
    unfolding install_app_inner_def sample_parses sum.case
    by (simp add: apply_manifest_def Let_def sample_manifest_def sample_skeleton_def skeleton.defs open_with_device_def
        order_asc_def key_taken_def upsert_app_install_def bind_def sql_insert_def chain_def call_def all_capabilities_def
        replace_app_bindings_def transaction_def register_projects_def create_vault_mount_def delete_schedules_by_app_def
        delete_schedules_where_def install_schedule_def app_schedule_row_def create_schedule_def install_view_def
        list_app_bindings_def all_schedules_def list_schedules_def schedule.defs sample_install_env_def ok_def fail_def
        get_app_install_def list_vault_mounts_def delete_where_def)
qed

theorem install_effect_witness:
  "\<exists>view s'. install_app_inner (sample_install_env ''0 * * * *'' [''UBER'']) sample_install_body False (open_with_device True ''dev'') =
     (Inr view, s') \<and> map vm_name (t_mounts s') = [''UBER''] \<and> length (t_schedules s') = 1 \<and> t_bindings s' = []"
proof -
  obtain view s' where run: "install_app_inner (sample_install_env ''0 * * * *'' [''UBER'']) sample_install_body False
      (open_with_device True ''dev'') = (Inr view, s')" using sample_installs by blast
  from install_effect [OF run sample_parses(1) refl]
  have "map vm_name (t_mounts s') = [''UBER''] \<and> length (t_schedules s') = 1 \<and> t_bindings s' = []"
    by (auto simp: open_with_device_def sample_manifest_def sample_skeleton_def skeleton.defs all_capabilities_def
        mount_to_row_def vault_mount.defs project_mount_def list_all2_Cons1)
  with run show ?thesis by (intro exI [of _ view] exI [of _ s'] conjI) simp_all
qed

theorem app_exec_never_spawns_witness:
  "\<exists>view s'. install_app_inner (sample_install_env ''0 * * * *'' [''UBER'']) sample_install_body False (open_with_device True ''dev'') =
     (Inr view, s') \<and> (\<exists>r \<in> set (t_schedules s'). sc_name r = ''brief'' \<and>
       snd (run_exec_schedule sample_lib (\<lambda>_. Child_Timed_Out) [] r 5 sample_cfg) = None)"
proof -
  obtain view s' where run: "install_app_inner (sample_install_env ''0 * * * *'' [''UBER'']) sample_install_body False
      (open_with_device True ''dev'') = (Inr view, s')" using sample_installs by blast
  from app_exec_never_spawns [OF run sample_parses(1), of "\<lparr>ms_name = ''brief'', ms_cron = ''0 * * * *'', ms_target = ''exec'',
      ms_command = [''/bin/echo'']\<rparr>"]
  obtain r where "r \<in> set (t_schedules s')" "sc_name r = ''brief''"
    "\<forall>(lib :: unit scheduler_lib) spawn vars t cfg. \<exists>reason. run_exec_schedule lib spawn vars r t cfg = (Refused reason, None)"
    by (auto simp: sample_manifest_def sample_skeleton_def skeleton.defs)
  then have "snd (run_exec_schedule sample_lib (\<lambda>_. Child_Timed_Out) [] r 5 sample_cfg) = None" by (metis snd_conv)
  with run \<open>r \<in> _\<close> \<open>sc_name r = _\<close> show ?thesis by blast
qed

theorem refused_reload_drops_schedules_witness:
  "\<exists>reply s'. install_app_inner (sample_install_env [] []) sample_install_body True
       (open_with_device True ''dev''\<lparr>t_schedules := [sample_schedule ''s1'' ''brief''\<lparr>sc_app_id := Some ''demo''\<rparr>]\<rparr>) = (reply, s') \<and>
     isl reply \<and> (\<forall>r \<in> set (t_schedules s'). sc_app_id r \<noteq> Some ''demo'')"
proof -
  obtain reply s' where run: "install_app_inner (sample_install_env [] []) sample_install_body True
       (open_with_device True ''dev''\<lparr>t_schedules := [sample_schedule ''s1'' ''brief''\<lparr>sc_app_id := Some ''demo''\<rparr>]\<rparr>) = (reply, s')"
    by fastforce
  have "ws_len [] = 0" "ws_len_end [] = 0" by code_simp+
  then have "trim [] = []" by (simp add: trim_def trim_start.simps [of "[]"] trim_end.simps [of "[]"])
  then have bad: "next_after (ie_cron (sample_install_env [] [])) [] (ie_now (sample_install_env [] [])) = Inl (BadFieldCount 0)"
    by (simp add: next_after_def cron_parse_def count_words_steps)
  have "(\<exists>msg. reply = Inl (App_Text 400 msg)) \<and> (\<forall>r \<in> set (t_schedules s'). sc_app_id r \<noteq> Some ''demo'') \<and>
    (\<exists>i \<in> set (t_installs s'). ai_name i = ''demo'' \<and> ai_manifest_sha i = ie_sha (sample_install_env [] []) (bd_manifest_text sample_install_body))"
    by (rule refused_reload_drops_schedules [OF sample_parses(2) _ _ _ _ _ run, where x = "\<lparr>ms_name = ''brief'', ms_cron = [],
        ms_target = ''exec'', ms_command = [''/bin/echo'']\<rparr>" and xs = "[]"])
      (use bad in \<open>simp_all add: sample_manifest_def sample_skeleton_def skeleton.defs all_capabilities_def\<close>)
  with run show ?thesis by auto
qed

text \<open>Another app's mount has the key.\<close>
theorem project_keys_exclusive_witness:
  "\<exists>rest s. s = fold handle [Create_Mount ''0'' ''i'' \<lparr>mb_name = ''UBER'', mb_root_path = ''r'', mb_kind = None, mb_git_url = None,
       mb_app_id = Some ''other''\<rparr> :: unit app_request] (open_with_device True ''dev'') \<and>
     install_app_inner (sample_install_env [] [''UBER'']) sample_install_body False s =
       (Inl (App_Text 409 (''project key '' @ quoted ''UBER'' @ rest)), s)"
proof -
  let ?req = "Create_Mount ''0'' ''i'' \<lparr>mb_name = ''UBER'', mb_root_path = ''r'', mb_kind = None, mb_git_url = None,
    mb_app_id = Some ''other''\<rparr> :: unit app_request"
  obtain s where s: "s = fold handle [?req] (open_with_device True ''dev'')" by blast
  obtain reply s' where run: "install_app_inner (sample_install_env [] [''UBER'']) sample_install_body False s = (reply, s')" by force
  have keys: "mf_vault_projects (sample_manifest [] [''UBER'']) = [\<lparr>vp_key = ''UBER'', vp_description = None\<rparr>]"
    "am_name (mf_app (sample_manifest [] [''UBER''])) = ''demo''"
    by (simp_all add: sample_manifest_def sample_skeleton_def skeleton.defs)
  have "held_by_other s (sample_manifest [] [''UBER'']) \<lparr>vp_key = ''UBER'', vp_description = None\<rparr>"
    by (simp add: s held_by_other_def keys vault_mounts_create_def create_vault_mount_def sql_insert_def
        open_with_device_def Let_def)
  with project_keys_exclusive [OF s sample_parses(1) run] keys(1) run s show ?thesis by auto
qed

theorem mount_owner_kept_witness:
  "''UBER'' \<in> vm_name ` set (t_mounts (fold handle
     [Install (sample_install_env [] [''UBER'']) sample_install_body True, Uninstall ''other'']
     (open_with_device True ''dev''\<lparr>t_mounts := [mount_to_row (project_mount (sample_install_env [] []) (sample_manifest [] [])
        \<lparr>vp_key = ''UBER'', vp_description = None\<rparr>)]\<rparr>)))"
proof -
  let ?x = "mount_to_row (project_mount (sample_install_env [] []) (sample_manifest [] []) \<lparr>vp_key = ''UBER'', vp_description = None\<rparr>)"
  let ?s = "open_with_device True ''dev''\<lparr>t_mounts := [?x]\<rparr>"
  have x: "vm_app_id ?x = Some ''demo''" "vm_name ?x = ''UBER''"
    by (simp_all add: mount_to_row_def vault_mount.defs project_mount_def sample_manifest_def sample_skeleton_def skeleton.defs)
  let ?t = "fold handle [Install (sample_install_env [] [''UBER'']) sample_install_body True, Uninstall ''other''] ?s"
  have "mounts_wf ?t \<and> ?x \<in> set (t_mounts ?t)"
    by (rule mount_owner_kept)
      (simp_all add: mounts_wf_def takes_away_def project_mount_def sample_manifest_def sample_skeleton_def skeleton.defs)
  then have "vm_name ?x \<in> vm_name ` set (t_mounts ?t)" by (intro imageI) simp
  then show ?thesis unfolding x(2) .
qed

end
