(* ===== verification/Schedule_History.thy ===== *)
theory Schedule_History
  imports App_Install
begin

text \<open>
  The schedule commands of the command line (gctrl-cli: commands/scheduler.rs), which write the store next to the daemon, and
  the history of runs under everything that writes schedules: the scheduler's routes, runner and startup passes, app installs
  and uninstalls, and these commands.
\<close>

section \<open>The commands\<close>

text \<open>What a command fails with: a text of its own, or a store error passed on.\<close>
datatype cli_error = Cli_Text string | Cli_Store gctl_error

definition single_quoted :: "string \<Rightarrow> string" where
  "single_quoted s = [CHR 0x27] @ s @ [CHR 0x27]"

text \<open>
  from\_str is serde\_json on the body; now0 is the instant the next firing is computed from, now the one the row carries.
  The method is ASCII. A success prints the row.
\<close>
definition cli_add ::
  "'c scheduler_lib \<Rightarrow> (string \<Rightarrow> string + json) \<Rightarrow> timestamp \<Rightarrow> timestamp \<Rightarrow> string \<Rightarrow> string \<Rightarrow> string \<Rightarrow> string \<Rightarrow> string
   \<Rightarrow> string option \<Rightarrow> int \<Rightarrow> store \<Rightarrow> (cli_error + schedule) \<times> store" where
  "cli_add lib from_str now0 now uuid name cron target_url mthd body timeout_secs s =
     (case next_after lib cron now0 of
        Inl e \<Rightarrow> (Inl (Cli_Text (''invalid cron '' @ single_quoted cron @ '': '' @ show_cron_error e)), s)
      | Inr next_run \<Rightarrow>
          (case (case body of None \<Rightarrow> Inr None | Some b \<Rightarrow> (case from_str b of Inl e \<Rightarrow> Inl e | Inr j \<Rightarrow> Inr (Some j))) of
             Inl e \<Rightarrow> (Inl (Cli_Text (''--body must be valid JSON: '' @ e)), s)
           | Inr body_json \<Rightarrow>
               (let sched = \<lparr>sc_id = uuid, sc_name = name, sc_cron = cron, sc_target_kind = ''http'', sc_target_url = target_url,
                  sc_target_method = to_upper mthd, sc_body_json = body_json, sc_headers_json = None, sc_command = None,
                  sc_cwd = None, sc_env_keys = None, sc_timeout_secs = timeout_secs, sc_enabled = True, sc_next_run_at = next_run,
                  sc_last_run_at = None, sc_last_status = None, sc_last_response = None, sc_last_error = None, sc_run_count = 0,
                  sc_failure_count = 0, sc_app_id = None, sc_created_at = now, sc_updated_at = now\<rparr>
                in case create_schedule sched s of
                     (Inl e, s') \<Rightarrow> (Inl (Cli_Store e), s')
                   | (Inr _, s') \<Rightarrow> (Inr sched, s'))))"

definition no_schedule :: "string \<Rightarrow> cli_error" where
  "no_schedule x = Cli_Text (''no schedule named or with id '' @ single_quoted x)"

definition cli_rm :: "string \<Rightarrow> store \<Rightarrow> (cli_error + unit) \<times> store" where
  "cli_rm x s =
     (case delete_schedule x s of
        (Inl e, s') \<Rightarrow> (Inl (Cli_Store e), s')
      | (Inr True, s') \<Rightarrow> (Inr (), s')
      | (Inr False, s') \<Rightarrow> (Inl (no_schedule x), s'))"

text \<open>The clock is read by the flag's update, the cron computation and the last update.\<close>
definition cli_enable ::
  "'c scheduler_lib \<Rightarrow> (nat \<Rightarrow> timestamp) \<Rightarrow> string \<Rightarrow> bool \<Rightarrow> store \<Rightarrow> (cli_error + unit) \<times> store" where
  "cli_enable lib now x enabled s =
     (case set_schedule_enabled (now 0) x enabled s of
        (Inl e, s') \<Rightarrow> (Inl (Cli_Store e), s')
      | (Inr False, s') \<Rightarrow> (Inl (no_schedule x), s')
      | (Inr True, s') \<Rightarrow>
          if enabled
          then (case get_schedule x s' of
                  (Inl e, s'') \<Rightarrow> (Inl (Cli_Store e), s'')
                | (Inr None, s'') \<Rightarrow> (Inr (), s'')
                | (Inr (Some r), s'') \<Rightarrow>
                    (case set_schedule_next_run (now 2) (sc_id r) (next_or_none lib (sc_cron r) (now 1)) s'' of
                       (Inl e, t) \<Rightarrow> (Inl (Cli_Store e), t)
                     | (Inr _, t) \<Rightarrow> (Inr (), t)))
          else (Inr (), s'))"

definition cli_show :: "string \<Rightarrow> store \<Rightarrow> cli_error + fetched_schedule" where
  "cli_show x s =
     (case fst (get_schedule x s) of
        Inl e \<Rightarrow> Inl (Cli_Store e)
      | Inr None \<Rightarrow> Inl (no_schedule x)
      | Inr (Some r) \<Rightarrow> Inr r)"

section \<open>Everything that writes schedules\<close>

text \<open>
  One call of a writer: a request, fire or startup pass of the daemon under any configuration, the reaping of interrupted runs
  at startup, an install, reload or uninstall of an app, or a command.
\<close>
inductive writer_step :: "'c scheduler_lib \<Rightarrow> store \<Rightarrow> store \<Rightarrow> bool" for lib :: "'c scheduler_lib" where
  daemon: "route_step lib cfg s s' \<Longrightarrow> writer_step lib s s'"
| reap: "reap_interrupted_schedule_runs now s = (n, s') \<Longrightarrow> writer_step lib s s'"
| install: "install_app_inner (env :: 'c install_env) body reload s = (r', s') \<Longrightarrow> writer_step lib s s'"
| uninstall: "app_installs_delete name s = (u, s') \<Longrightarrow> writer_step lib s s'"
| add: "cli_add lib from_str now0 now uuid name cron url mthd body' timeout s = (a, s') \<Longrightarrow> writer_step lib s s'"
| rm: "cli_rm x s = (u', s') \<Longrightarrow> writer_step lib s s'"
| enable: "cli_enable lib nows x b s = (u', s') \<Longrightarrow> writer_step lib s s'"

text \<open>No schedule is created under an id that runs of the history carry: ids are random UUIDs.\<close>
definition ids_fresh :: "store \<Rightarrow> store \<Rightarrow> bool" where
  "ids_fresh s s' \<longleftrightarrow> (sc_id ` set (t_schedules s') - sc_id ` set (t_schedules s)) \<inter> sr_schedule_id ` set (t_runs s) = {}"

text \<open>With foreign keys on, nothing is asked of the ids.\<close>
definition history_step :: "'c scheduler_lib \<Rightarrow> store \<Rightarrow> store \<Rightarrow> bool" where
  "history_step lib s s' \<longleftrightarrow> writer_step lib s s' \<and> (\<not> st_foreign_keys s \<longrightarrow> ids_fresh s s')"

lemma history_fresh: "history_step lib s s' \<Longrightarrow> schedule_wf s \<Longrightarrow> ids_fresh s s'"
  by (auto simp: history_step_def ids_fresh_def schedule_wf_def)

section \<open>New rows\<close>

definition new_rows :: "store \<Rightarrow> schedule list \<Rightarrow> bool" where
  "new_rows s rows \<longleftrightarrow> distinct (map sc_id (t_schedules s @ rows)) \<and> distinct (map sc_name (t_schedules s @ rows)) \<and>
     (\<forall>d \<in> set rows. sc_run_count d = 0 \<and> sc_failure_count d = 0)"

lemma wf_append:
  assumes "schedule_wf s" and "new_rows s rows" and fresh: "sc_id ` set rows \<inter> sr_schedule_id ` set (t_runs s) = {}"
  shows "schedule_wf (s\<lparr>t_schedules := t_schedules s @ rows\<rparr>)"
proof -
  have "counters_ok (t_runs s) d" if "d \<in> set rows" for d
  proof -
    have "count_where (\<lambda>x. sr_schedule_id x = sc_id d \<and> Q x) (t_runs s) = 0" for Q
      using that fresh by (fastforce simp: count_where_0)
    from this [of "\<lambda>_. True"] this [of "\<lambda>x. sr_status x \<noteq> ''success''"] show ?thesis
      using assms(2) that by (simp add: counters_ok_def new_rows_def)
  qed
  then show ?thesis using assms(1,2) by (auto simp: schedule_wf_def new_rows_def)
qed

text \<open>A creation appends the row or does nothing.\<close>
lemma create_appends:
  assumes "create_schedule (d :: schedule) s = (r, s')" and "sc_run_count d = 0" "sc_failure_count d = 0"
    and "distinct (map sc_id (t_schedules s))" "distinct (map sc_name (t_schedules s))"
  obtains rows where "s' = s\<lparr>t_schedules := t_schedules s @ rows\<rparr>" "new_rows s rows"
proof -
  have d: "schedule.truncate d = d" by (simp add: schedule.defs)
  show thesis
  proof (cases "list_ex (\<lambda>b. sc_id d = sc_id b \<or> sc_name d = sc_name b) (t_schedules s)")
    case True
    then have "s' = s" using assms(1) by (simp add: create_schedule_def sql_insert_def d)
    then show thesis using assms(4,5) by (intro that [of "[]"]) (simp_all add: new_rows_def)
  next
    case False
    then have "s' = s\<lparr>t_schedules := t_schedules s @ [d]\<rparr>"
      using assms(1) by (simp add: create_schedule_def sql_insert_def d)
    then show thesis using assms(2-) False by (intro that [of "[d]"]) (auto simp: new_rows_def list_ex_iff)
  qed
qed

text \<open>
  Rows appended after a deletion: an id of them is either new to the store, and then fresh, or was deleted with its runs.
\<close>
lemma fresh_after_delete:
  assumes del: "delete_schedules_where p s = (n, s1)" and fresh: "ids_fresh s s'"
    and s': "t_schedules s' = t_schedules s1 @ rows" and new: "new_rows s1 rows"
  shows "sc_id ` set rows \<inter> sr_schedule_id ` set (t_runs s1) = {}"
proof -
  have s1: "t_schedules s1 = delete_where p (t_schedules s)"
      "t_runs s1 = delete_where (\<lambda>r. sr_schedule_id r \<in> sc_id ` {r \<in> set (t_schedules s). p r}) (t_runs s)"
    using del by (auto simp: delete_schedules_where_def bind_def)
  have "sc_id d \<notin> sr_schedule_id ` set (t_runs s1)" if d: "d \<in> set rows" for d
  proof (cases "sc_id d \<in> sc_id ` set (t_schedules s)")
    case True
    moreover have "sc_id d \<notin> sc_id ` set (t_schedules s1)" using new d by (auto simp: new_rows_def)
    ultimately have "sc_id d \<in> sc_id ` {r \<in> set (t_schedules s). p r}" by (auto simp: s1(1) delete_where_def)
    then show ?thesis by (auto simp: s1(2) delete_where_def)
  next
    case False
    then have "sc_id d \<notin> sr_schedule_id ` set (t_runs s)" using fresh d s' by (auto simp: ids_fresh_def)
    then show ?thesis by (auto simp: s1(2) delete_where_def)
  qed
  then show ?thesis by blast
qed

lemma fresh_append:
  assumes "ids_fresh s s'" and "t_schedules s' = t_schedules s @ rows" and "new_rows s rows"
  shows "sc_id ` set rows \<inter> sr_schedule_id ` set (t_runs s) = {}"
  using assms by (auto simp: ids_fresh_def new_rows_def)

lemma wf_distinct: "schedule_wf s \<Longrightarrow> distinct (map sc_id (t_schedules s))" "schedule_wf s \<Longrightarrow> distinct (map sc_name (t_schedules s))"
  by (simp_all add: schedule_wf_def)

text \<open>The invariant reads two tables and the foreign key flag.\<close>
lemma wf_cong: "t_schedules s' = t_schedules s \<Longrightarrow> t_runs s' = t_runs s \<Longrightarrow> st_foreign_keys s' = st_foreign_keys s \<Longrightarrow>
  schedule_wf s' = schedule_wf s"
  by (simp add: schedule_wf_def)

text \<open>A creation in a well-formed store.\<close>
lemma wf_create:
  assumes wf: "schedule_wf s" and "create_schedule (d :: schedule) s = (r, s')" "sc_run_count d = 0" "sc_failure_count d = 0"
    and "ids_fresh s s'"
  shows "schedule_wf s'"
proof -
  from create_appends [OF assms(2-4) wf_distinct [OF wf]] obtain rows where
    s': "s' = s\<lparr>t_schedules := t_schedules s @ rows\<rparr>" and new: "new_rows s rows" .
  have "t_schedules s' = t_schedules s @ rows" by (simp add: s')
  from wf_append [OF wf new fresh_append [OF assms(5) this new]] show ?thesis by (simp add: s')
qed

text \<open>A creation after a deletion.\<close>
lemma wf_delete_create:
  assumes wf: "schedule_wf s" and del: "delete_schedules_where p s = (n, s1)"
    and "create_schedule (d :: schedule) s1 = (r, s')" "sc_run_count d = 0" "sc_failure_count d = 0" and "ids_fresh s s'"
  shows "schedule_wf s'"
proof -
  have wf1: "schedule_wf s1" by (rule wf_delete [OF wf del])
  from create_appends [OF assms(3-5) wf_distinct [OF wf1]] obtain rows where
    s': "s' = s1\<lparr>t_schedules := t_schedules s1 @ rows\<rparr>" and new: "new_rows s1 rows" .
  have "t_schedules s' = t_schedules s1 @ rows" by (simp add: s')
  from wf_append [OF wf1 new fresh_after_delete [OF del assms(6) this new]] show ?thesis by (simp add: s')
qed

section \<open>The daemon's calls\<close>

lemma wf_snd:
  assumes "schedule_wf s"
  shows "schedule_wf (snd (set_schedule_enabled now x b s))" "schedule_wf (snd (set_schedule_next_run now x t s))"
    "schedule_wf (snd (delete_schedule x s))" "schedule_wf (snd (delete_schedules_by_app app s))"
    "schedule_wf (snd (delete_schedule_runs_before cutoff s))" "schedule_wf (snd (reap_interrupted_schedule_runs now s))"
proof -
  have step: "schedule_wf s'" if "schedule_step s s'" for s' using schedule_wf_step [OF that assms] .
  show "schedule_wf (snd (set_schedule_enabled now x b s))" by (rule step, rule schedule_step.enable, rule surjective_pairing)
  show "schedule_wf (snd (set_schedule_next_run now x t s))" by (rule step, rule schedule_step.next_run, rule surjective_pairing)
  show "schedule_wf (snd (delete_schedule_runs_before cutoff s))" by (rule step, rule schedule_step.prune, rule surjective_pairing)
  show "schedule_wf (snd (reap_interrupted_schedule_runs now s))" by (rule step, rule schedule_step.reap, rule surjective_pairing)
  have "schedule_wf (snd (delete_schedules_where p s))" for p by (rule step, rule schedule_step.delete, rule surjective_pairing)
  then show "schedule_wf (snd (delete_schedule x s))" "schedule_wf (snd (delete_schedules_by_app app s))"
    by (simp_all add: delete_schedule_def delete_schedules_by_app_def delete_schedules_where_def bind_def)
qed

text \<open>The runs the daemon records are finished, and their status says whether the update counts them as failures.\<close>
lemma run_now_status: "run_status (run_now_fire lib cfg env d) = ''success'' \<longleftrightarrow> fo_success (run_now_fire lib cfg env d)"
  by (auto simp: run_now_fire_def run_now_exec_def run_now_http_def run_status_def Let_def split: exec_outcome.splits http_reply.splits)

lemma wf_recorded:
  assumes "schedule_wf s" and "run_status outcome = ''success'' \<longleftrightarrow> fo_success outcome"
  shows "schedule_wf (snd (record_schedule_run_v2 now (sc_id d)
    (build_run_row lib uuid d outcome started finished kind) (update_of finished' next outcome) s))"
  using assms by (intro wf_fire [OF assms(1) _ _ _ surjective_pairing]) (simp_all add: build_run_row_def update_of_def)

lemma wf_route_create:
  assumes wf: "schedule_wf s" and run: "create lib cfg now0 now uuid body s = (r, s')" and fresh: "ids_fresh s s'"
  shows "schedule_wf s'"
proof (cases "prefix INTERNAL_NAME_PREFIX (cb_name body) \<or> isl (next_after lib (cb_cron body) now0)")
  case True
  then have "s' = s" using run by (auto simp: create_def isl_def split: if_splits)
  then show ?thesis using wf by simp
next
  case False
  then obtain n where n: "next_after lib (cb_cron body) now0 = Inr n" by (cases "next_after lib (cb_cron body) now0") auto
  show ?thesis
  proof (cases "build_schedule lib uuid body n now cfg")
    case (Inl e)
    then show ?thesis using run False n wf by (simp add: create_def)
  next
    case (Inr d)
    obtain x s1 where ins: "create_schedule d s = (x, s1)" by force
    have s1: "s' = s1" using run False n Inr ins by (cases x) (simp_all add: create_def)
    have "sc_run_count d = 0 \<and> sc_failure_count d = 0"
      using Inr by (auto simp: build_schedule_def new_schedule_def split: if_splits elim!: build_http_InrD build_exec_InrD)
    then show ?thesis using wf_create [OF wf ins [folded s1] _ _ fresh] by blast
  qed
qed

lemma wf_set_enabled: "schedule_wf s \<Longrightarrow> schedule_wf (snd (set_enabled lib nows x b s))"
  using wf_snd(1) [of s "nows 0" x b]
  by (auto simp: set_enabled_def get_schedule_def intro!: wf_snd(2) split: prod.splits sum.splits bool.splits option.splits)

lemma wf_backfill: "schedule_wf s \<Longrightarrow> schedule_wf (backfill_loop lib now nows i ds s)"
  by (induction ds arbitrary: i s) (auto split: sum.splits option.splits intro!: wf_snd(2))

lemma wf_bootstrap:
  assumes wf: "schedule_wf s" and run: "ensure_gc_schedule lib nows uuid cutoff s = (r, s')" and fresh: "ids_fresh s s'"
  shows "schedule_wf s'"
proof -
  let ?row = "build_gc_row lib (nows 1) (nows 2) uuid cutoff"
  let ?new = "named_call ''create_schedule'' (create_schedule ?row)"
  have zero: "sc_run_count ?row = 0" "sc_failure_count ?row = 0" by (simp_all add: build_gc_row_def)
  show ?thesis
  proof (cases "find (named GC_SCHEDULE_NAME) (t_schedules s)")
    case None
    then have "s' = snd (?new s)" using run by (auto simp: ensure_gc_schedule_def get_schedule_def named_call_eq split: prod.splits sum.splits)
    then have "create_schedule ?row s = (fst (create_schedule ?row s), s')" by (simp add: named_call_snd)
    from wf_create [OF wf this zero fresh] show ?thesis .
  next
    case (Some e)
    obtain n s1 where del: "delete_schedules_where (named (sc_id e)) s = (n, s1)" by force
    then have d: "snd (delete_schedule (sc_id e) s) = s1" by (auto simp: delete_schedule_def bind_def split: prod.splits sum.splits)
    obtain x s2 where call: "named_call ''delete_schedule'' (delete_schedule (sc_id e)) s = (x, s2)" by force
    have s2: "s2 = s1" using call d named_call_snd [of "''delete_schedule''" "delete_schedule (sc_id e)" s] by simp
    have "s' = s \<or> s' = s1 \<or> s' = snd (?new s1)"
      using run Some call unfolding s2 by (cases x) (auto simp: ensure_gc_schedule_def get_schedule_def named_call_def [of "''get_schedule''"]
          split: if_splits)
    then consider "s' = s" | "s' = s1" | "create_schedule ?row s1 = (fst (create_schedule ?row s1), s')"
      by (auto simp: named_call_snd)
    then show ?thesis
      by cases (use wf wf_delete [OF wf del] wf_delete_create [OF wf del _ zero fresh] in blast)+
  qed
qed

section \<open>Apps\<close>

definition sched_part :: "store \<Rightarrow> schedule list \<times> schedule_run list \<times> bool" where
  "sched_part s = (t_schedules s, t_runs s, st_foreign_keys s)"

lemma frame_part [frame_intros]:
  "frame sched_part list_vault_mounts" "frame sched_part (get_app_install app)" "frame sched_part (upsert_app_install i)"
  "frame sched_part (replace_app_bindings app bs)" "frame sched_part (create_vault_mount m)"
  "frame sched_part (list_app_bindings app)" "frame sched_part all_schedules" "frame sched_part (delete_app_install app)"
  "frame sched_part (delete_vault_mount name)"
proof -
  have b: "frame sched_part (insert_binding x)" for x by (simp add: frame_def insert_binding_def sched_part_def)
  show "frame sched_part (replace_app_bindings app bs)"
    unfolding replace_app_bindings_def by (intro frame_transaction frame_bind frame_for_each b frame_delete) (simp add: sched_part_def)
qed (simp_all add: sched_part_def frame_def list_vault_mounts_def get_app_install_def upsert_app_install_def bind_def sql_insert_def
    create_vault_mount_def list_app_bindings_def all_schedules_def list_schedules_def delete_app_install_def delete_vault_mount_def)

lemma call_snd: "snd (call m s) = snd (m s)"
  by (simp add: call_def split: prod.splits sum.splits)

lemma keeps_part [keeps_intros]: "frame sched_part m \<Longrightarrow> keeps (\<lambda>s. sched_part s = c) (call m)"
  by (simp add: keeps_def call_snd frame_def)

text \<open>A handler run on a store whose schedules are still those of s leaves the invariant when the ids it drew are fresh.\<close>
definition leaves_wf :: "store \<Rightarrow> 'a handler \<Rightarrow> bool" where
  "leaves_wf s h \<longleftrightarrow> (\<forall>s1. sched_part s1 = sched_part s \<longrightarrow> ids_fresh s (snd (h s1)) \<longrightarrow> schedule_wf (snd (h s1)))"

lemma part_wf: "sched_part s1 = sched_part s \<Longrightarrow> schedule_wf s1 = schedule_wf s"
  by (rule wf_cong) (simp_all add: sched_part_def)

lemma leaves_keeps: "schedule_wf s \<Longrightarrow> keeps (\<lambda>t. sched_part t = sched_part s) h \<Longrightarrow> leaves_wf s h"
  using part_wf unfolding leaves_wf_def keeps_def by blast

lemma leaves_fail: "schedule_wf s \<Longrightarrow> leaves_wf s (fail e)"
  by (intro leaves_keeps keeps_intros)

lemma leaves_chain:
  assumes "schedule_wf s" and m: "keeps (\<lambda>t. sched_part t = sched_part s) m" and f: "\<And>x. leaves_wf s (f x)"
  shows "leaves_wf s (chain m f)"
  unfolding leaves_wf_def
proof (intro allI impI)
  fix s1
  assume s1: "sched_part s1 = sched_part s" and fresh: "ids_fresh s (snd (chain m f s1))"
  obtain r s2 where run: "m s1 = (r, s2)" by force
  have s2: "sched_part s2 = sched_part s" using m s1 run by (auto simp: keeps_def)
  show "schedule_wf (snd (chain m f s1))"
  proof (cases r)
    case (Inl e)
    then show ?thesis using run part_wf [OF s2] assms(1) by simp
  next
    case (Inr x)
    then show ?thesis using run s2 fresh f [of x] by (simp add: leaves_wf_def)
  qed
qed

lemma app_row_zero: "app_schedule_row env app x n = Some d \<Longrightarrow> sc_run_count d = 0 \<and> sc_failure_count d = 0"
  by (auto simp: app_schedule_row_def Let_def split: if_splits)

lemma new_rows_append: "new_rows s rows \<Longrightarrow> new_rows (s\<lparr>t_schedules := t_schedules s @ rows\<rparr>) rows' \<Longrightarrow> new_rows s (rows @ rows')"
  by (auto simp: new_rows_def)

lemma install_schedule_appends:
  assumes run: "install_schedule env app x s = (r, s')" and dist: "new_rows s []"
  obtains rows where "s' = s\<lparr>t_schedules := t_schedules s @ rows\<rparr>" "new_rows s rows"
proof (cases "next_after (ie_cron env) (ms_cron x) (ie_now env)")
  case (Inl e)
  then show thesis using run dist by (intro that [of "[]"]) (simp_all add: install_schedule_def)
next
  case (Inr n)
  show thesis
  proof (cases "app_schedule_row env app x n")
    case None
    then show thesis using run dist Inr by (intro that [of "[]"]) (simp_all add: install_schedule_def)
  next
    case (Some d)
    then have "s' = snd (create_schedule d s)"
      using arg_cong [OF run, of snd] Inr by (simp add: install_schedule_def call_snd)
    then have "create_schedule d s = (fst (create_schedule d s), s')" by simp
    from create_appends [OF this] app_row_zero [OF Some] dist that show thesis by (auto simp: new_rows_def)
  qed
qed

lemma each_schedules_appends:
  assumes "each (install_schedule env app) xs s = (r, s')" and "new_rows s []"
  obtains rows where "s' = s\<lparr>t_schedules := t_schedules s @ rows\<rparr>" "new_rows s rows"
  using assms
proof (induction xs arbitrary: s thesis)
  case Nil
  then show ?case by (intro Nil(1) [of "[]"]) simp_all
next
  case (Cons x xs)
  obtain y s1 where one: "install_schedule env app x s = (y, s1)" by force
  from install_schedule_appends [OF one Cons.prems(3)] obtain rows where
    s1: "s1 = s\<lparr>t_schedules := t_schedules s @ rows\<rparr>" and new: "new_rows s rows" .
  show ?case
  proof (cases y)
    case (Inl e)
    then have "s' = s1" using one Cons.prems(2) by simp
    then show ?thesis using s1 new Cons.prems(1) by blast
  next
    case (Inr u)
    then have rest: "each (install_schedule env app) xs s1 = (r, s')" using one Cons.prems(2) by simp
    have "new_rows s1 []" using new by (simp add: s1 new_rows_def)
    from Cons.IH [OF _ rest this] obtain rows' where
      "s' = s1\<lparr>t_schedules := t_schedules s1 @ rows'\<rparr>" "new_rows s1 rows'" by blast
    then show ?thesis using new_rows_append [OF new] by (intro Cons.prems(1) [of "rows @ rows'"]) (simp_all add: s1)
  qed
qed

text \<open>The deletion of the app's schedules, and the new ones.\<close>
lemma leaves_schedules:
  assumes wf: "schedule_wf s"
  shows "leaves_wf s (chain (call (delete_schedules_by_app app)) (\<lambda>_.
    chain (each (install_schedule env app) xs) (\<lambda>_. install_view app)))"
  unfolding leaves_wf_def
proof (intro allI impI)
  let ?new = "chain (each (install_schedule env app) xs) (\<lambda>_. install_view app)"
  fix s1 assume s1: "sched_part s1 = sched_part s"
    and fresh: "ids_fresh s (snd (chain (call (delete_schedules_by_app app)) (\<lambda>_. ?new) s1))"
  have wf1: "schedule_wf s1" using part_wf [OF s1] wf by simp
  obtain n s2 where del: "delete_schedules_by_app app s1 = (Inr n, s2)" using delete_app_schedules [of app s1] by blast
  note del' = del [unfolded delete_schedules_by_app_def]
  have wf2: "schedule_wf s2" by (rule wf_delete [OF wf1 del'])
  obtain r s3 where each: "each (install_schedule env app) xs s2 = (r, s3)" by force
  have "new_rows s2 []" using wf_distinct [OF wf2] by (simp add: new_rows_def)
  from each_schedules_appends [OF each this] obtain rows where
    s3: "s3 = s2\<lparr>t_schedules := t_schedules s2 @ rows\<rparr>" and new: "new_rows s2 rows" .
  have res: "snd (chain (call (delete_schedules_by_app app)) (\<lambda>_. ?new) s1) = s3"
    using del each by (cases r) (simp_all add: call_def chain_def install_view_reads split: prod.splits)
  have "ids_fresh s1 s3" using fresh s1 unfolding res by (simp add: ids_fresh_def sched_part_def)
  from fresh_after_delete [OF del' this _ new] have "sc_id ` set rows \<inter> sr_schedule_id ` set (t_runs s2) = {}" by (simp add: s3)
  then show "schedule_wf (snd (chain (call (delete_schedules_by_app app)) (\<lambda>_. ?new) s1))"
    unfolding res using wf_append [OF wf2 new] by (simp add: s3)
qed

lemma wf_install:
  assumes wf: "schedule_wf s" and run: "install_app_inner env body reload s = (r, s')" and fresh: "ids_fresh s s'"
  shows "schedule_wf s'"
proof -
  note step = leaves_chain [OF wf keeps_part]
  have "leaves_wf s (apply_manifest env body reload m existing prev)" for m existing prev
  proof (cases "make_bindings (am_name (mf_app m)) (ie_now env) (all_capabilities m)")
    case (Inl e)
    then show ?thesis unfolding apply_manifest_def Let_def Inl sum.case by (intro step leaves_fail [OF wf] frame_intros)
  next
    case (Inr bs)
    have reg: "keeps (\<lambda>t. sched_part t = sched_part s) (register_projects env m existing)"
      unfolding register_projects_def by (intro keeps_intros frame_intros)
    show ?thesis unfolding apply_manifest_def Let_def Inr sum.case
      by (intro step frame_intros, rule leaves_chain [OF wf reg], rule leaves_schedules [OF wf])
  qed
  then have "leaves_wf s (chain (if reload then call (get_app_install app) else ok None) (apply_manifest env body reload m existing))"
    for app m existing
    by (intro leaves_chain [OF wf] keeps_intros frame_intros)
  then have "leaves_wf s (install_app_inner env body reload)"
    unfolding install_app_inner_def
    by (auto split: sum.split option.split intro!: leaves_fail [OF wf] step frame_intros)
  then show ?thesis using run fresh by (auto simp: leaves_wf_def)
qed

lemma wf_uninstall:
  assumes "schedule_wf s" and "app_installs_delete name s = (r, s')"
  shows "schedule_wf s'"
proof -
  have wf_keeps: "keeps schedule_wf (call m)" if m: "frame sched_part m" for m :: "(store, 'x) db"
  proof -
    have "sched_part (snd (m t)) = sched_part t" for t using m by (simp add: frame_def)
    then have "schedule_wf (snd (m t)) = schedule_wf t" for t by (rule part_wf)
    then show ?thesis by (simp add: keeps_def call_snd)
  qed
  have del: "keeps schedule_wf (call (delete_schedules_by_app name))" by (simp add: keeps_def call_snd wf_snd(4))
  have "keeps schedule_wf (app_installs_delete name)"
    unfolding app_installs_delete_def by (intro keeps_chain keeps_each wf_keeps del frame_part)
  then show ?thesis using assms by (auto simp: keeps_def)
qed

section \<open>The history of runs\<close>

lemma wf_cli_add:
  assumes wf: "schedule_wf s" and "cli_add lib from_str now0 now uuid name cron url mthd body timeout s = (r, s')"
    and "ids_fresh s s'"
  shows "schedule_wf s'"
proof -
  consider "s' = s" | d y where "create_schedule (d :: schedule) s = (y, s')" "sc_run_count d = 0" "sc_failure_count d = 0"
    using assms(2) by (force simp: cli_add_def Let_def split: sum.splits option.splits prod.splits)
  then show ?thesis by cases (use wf wf_create [OF wf _ _ _ assms(3)] in blast)+
qed

lemma wf_cli_enable: "schedule_wf s \<Longrightarrow> cli_enable lib nows x b s = (r, s') \<Longrightarrow> schedule_wf s'"
  using wf_snd(1) [of s "nows 0" x b] wf_snd(2)
  by (auto simp: cli_enable_def get_schedule_def split: prod.splits sum.splits bool.splits option.splits if_splits) (metis snd_conv)+

lemma wf_run_now: "schedule_wf s \<Longrightarrow> schedule_wf (snd (run_now lib cfg env ck uuid x s))"
proof (cases "find (named x) (t_schedules s)")
  case (Some row)
  assume wf: "schedule_wf s"
  let ?d = "row_to_schedule row" let ?outcome = "run_now_fire lib cfg env ?d"
  have "snd (run_now lib cfg env ck uuid x s) = snd (record_schedule_run_v2 (ck_recorded ck) (sc_id ?d)
      (build_run_row lib uuid ?d ?outcome (ck_started ck) (ck_now ck) ''manual'')
      (update_of (ck_now ck) (next_or_none lib (sc_cron ?d) (ck_now ck)) ?outcome) s)"
    using Some by (simp add: run_now_def get_schedule_def Let_def split: prod.splits sum.splits)
  then show ?thesis by (simp only: wf_recorded [OF wf run_now_status])
qed (simp add: run_now_def get_schedule_def)

lemma wf_route_step: "route_step lib cfg s s' \<Longrightarrow> schedule_wf s \<Longrightarrow> ids_fresh s s' \<Longrightarrow> schedule_wf s'"
proof (induction rule: route_step.induct)
  case (create now0 now uuid body s r s')
  then show ?case by (blast intro: wf_route_create)
next
  case (patch now rec x body s r s')
  from patch_cases [OF patch(1)] show ?case
  proof (elim disjE exE conjE)
    fix row m assume "s' = s\<lparr>t_schedules := update_where (\<lambda>r. sc_id r = sc_id m) (patch_row rec (m :: fetched_schedule)) (t_schedules s)\<rparr>"
    then show ?thesis using wf_update_schedules [OF patch(2), of "patch_row rec m"] by simp
  qed (use patch in simp)
next
  case (enable nows x b s r s')
  then show ?case using wf_set_enabled by (metis snd_conv)
next
  case (delete x s r s')
  then have "s' = snd (delete_schedule x s)" by (auto simp: delete_one_def split: prod.splits sum.splits bool.splits)
  then show ?case using wf_snd(3) delete by simp
next
  case (run_now env ck uuid x s r s')
  then show ?case using wf_run_now by (metis snd_conv)
next
  case (fire env ck uuid d s s')
  then show ?case using wf_recorded [OF _ fire_status] by (auto simp: fire_one_def Let_def)
next
  case (prune rfc dbg t s r s')
  then have "s' = s \<or> s' = snd (delete_schedule_runs_before t s)"
    by (auto simp: delete_runs_before_def split: if_splits prod.splits sum.splits)
  then show ?case using wf_snd(5) prune by auto
next
  case (backfill now nows s s')
  then show ?case using wf_backfill by (auto simp: backfill_next_run_def list_schedules_def)
next
  case (bootstrap nows uuid cutoff s r' s')
  then show ?case by (blast intro: wf_bootstrap)
qed

lemma history_wf: "history_step lib s s' \<Longrightarrow> schedule_wf s \<Longrightarrow> schedule_wf s'"
proof -
  assume h: "history_step lib s s'" and wf: "schedule_wf s"
  note fresh = history_fresh [OF h wf]
  have "writer_step lib s s'" using h by (simp add: history_step_def)
  then show ?thesis
  proof cases
    case (daemon cfg)
    then show ?thesis using wf_route_step wf fresh by blast
  next
    case (reap now n)
    then show ?thesis using wf_snd(6) [OF wf, of now] by simp
  next
    case (rm x u')
    then have "s' = snd (delete_schedule x s)" by (auto simp: cli_rm_def split: prod.splits sum.splits bool.splits)
    then show ?thesis using wf_snd(3) wf by simp
  next
    case install
    then show ?thesis by (rule wf_install [OF wf _ fresh])
  next
    case uninstall
    then show ?thesis by (rule wf_uninstall [OF wf])
  next
    case add
    then show ?thesis by (rule wf_cli_add [OF wf _ fresh])
  next
    case enable
    then show ?thesis by (rule wf_cli_enable [OF wf])
  qed
qed

lemma history_wf_steps: "(history_step lib)\<^sup>*\<^sup>* s s' \<Longrightarrow> schedule_wf s \<Longrightarrow> schedule_wf s'"
  by (induction rule: rtranclp_induct) (auto intro: history_wf)

text \<open>C11: Whatever the daemon, app installs and the commands do, in any order and under any configurations, a schedule's row counts
  at least the runs and the failures its history holds, no run is left unfinished (the reaping at startup finds none), and with
  foreign keys on every run belongs to an existing schedule. The runs are those the runner builds from what a fire came to;
  ids drawn for new schedules are not those of runs in the history, which matters only with foreign keys off.\<close>
theorem run_history_consistent:
  assumes "(history_step lib)\<^sup>*\<^sup>* (open_with_device fk device) s" and "r \<in> set (t_schedules s)"
  shows "int (count_where (\<lambda>x. sr_schedule_id x = sc_id r) (t_runs s)) \<le> sc_run_count r \<and>
    int (count_where (\<lambda>x. sr_schedule_id x = sc_id r \<and> sr_status x \<noteq> ''success'') (t_runs s)) \<le> sc_failure_count r \<and>
    (\<forall>x \<in> set (t_runs s). sr_finished_at x \<noteq> None) \<and> fst (reap_interrupted_schedule_runs now s) = Inr 0 \<and>
    (st_foreign_keys s \<longrightarrow> sr_schedule_id ` set (t_runs s) \<subseteq> sc_id ` set (t_schedules s))"
  using history_wf_steps [OF assms(1) schedule_wf_open] assms(2)
  by (auto simp: schedule_wf_def counters_ok_def reap_interrupted_schedule_runs_def count_where_0)

text \<open>A schedule added on the command line and fired by the daemon against a server that answers 500.\<close>
definition added_row :: schedule where
  "added_row = (sample_schedule ''u'' ''a'')\<lparr>sc_next_run_at := Some ''01''\<rparr>"

lemma sample_add:
  "cli_add sample_lib (\<lambda>_. Inl []) ''0'' ''0'' ''u'' ''a'' ''0 * * * *'' ''http://x'' ''post'' None 60 (open_with_device True ''dev'') =
    (Inr added_row, open_with_device True ''dev''\<lparr>t_schedules := [added_row]\<rparr>)"
proof -
  have "to_upper ''post'' = ''POST''" by code_simp
  then show ?thesis
    by (simp add: cli_add_def sample_next_after create_schedule_def sql_insert_def open_with_device_def schedule.defs added_row_def
        sample_schedule_def Let_def)
qed

lemma run_of_two: "r a b \<Longrightarrow> r b c \<Longrightarrow> r\<^sup>*\<^sup>* a c"
  by simp

lemma run_history_consistent_witness:
  "\<exists>r \<in> set (t_schedules (fire_one sample_lib sample_cfg (sample_env 500) sample_clock ''x'' (row_to_schedule added_row)
      (open_with_device True ''dev''\<lparr>t_schedules := [added_row]\<rparr>))). 1 \<le> sc_run_count r \<and> 1 \<le> sc_failure_count r"
proof -
  let ?base = "open_with_device True ''dev''\<lparr>t_schedules := [added_row]\<rparr>"
  let ?s = "fire_one sample_lib sample_cfg (sample_env 500) sample_clock ''x'' (row_to_schedule added_row) ?base"
  have fk: "st_foreign_keys (open_with_device True ''dev'')" "st_foreign_keys ?base" by (simp_all add: open_with_device_def)
  have r1: "history_step sample_lib (open_with_device True ''dev'') ?base"
    unfolding history_step_def using writer_step.add [OF sample_add] fk(1) by blast
  have "route_step sample_lib sample_cfg ?base ?s" by (rule route_step.fire) (rule refl)
  then have r2: "history_step sample_lib ?base ?s"
    unfolding history_step_def using writer_step.daemon fk(2) by blast
  have reach: "(history_step sample_lib)\<^sup>*\<^sup>* (open_with_device True ''dev'') ?s"  by (rule run_of_two [of "history_step sample_lib", OF r1 r2])
  have wf: "schedule_wf ?base" using history_wf [OF r1 schedule_wf_open] .
  have mem: "sc_id (row_to_schedule added_row) \<in> sc_id ` set (t_schedules ?base)" by simp
  have new: "''x'' \<notin> sr_id ` set (t_runs ?base)" by (simp add: open_with_device_def)
  note eff = fire_one_effect(1) [OF wf mem new, of sample_lib sample_cfg "sample_env 500" sample_clock]
  have "run_status (fire sample_lib sample_cfg (sample_env 500) (row_to_schedule added_row)) = ''failure''"
    by (simp add: fire_def is_exec_def row_to_schedule_def schedule.defs added_row_def sample_schedule_def fire_http_def sample_env_def http_ok_def run_status_def)
  then obtain run where runs: "t_runs ?s = [run]" "sr_schedule_id run = ''u''" "sr_status run = ''failure''"
    unfolding eff by (simp add: open_with_device_def build_run_row_def added_row_def sample_schedule_def row_to_schedule_def schedule.defs)
  obtain r where r: "r \<in> set (t_schedules ?s)" "sc_id r = ''u''"
    unfolding eff by (simp add: added_row_def sample_schedule_def)
  show ?thesis using run_history_consistent [OF reach r(1)] r by (auto simp: runs)
qed

end
