(* ===== verification/Otel_Spans.thy ===== *)
theory Otel_Spans
  imports Store_Schema
begin

text \<open>
  The span processor of the OTel receiver (gctrl-otel/src/span\_processor.rs): OTLP export requests as the JSON decoder
  delivers them, their conversion into kernel spans, and the record counter of the log and metric routes. Token counts keep
  their 64 bits: an i64 attribute cast to u64 is the same word, read unsigned. chrono's conversion of an instant to its
  RFC 3339 text is the argument \<^verbatim>\<open>datetime\<close>.
\<close>

section \<open>Kernel spans (gctrl-core)\<close>

type_synonym i64 = "64 word"

text \<open>The JSON values process\_export\_request builds for attributes; doubles are finite.\<close>
datatype attr_json = Attr_String string | Attr_Int int | Attr_Float f64

record span =
  spn_span_id :: string
  spn_trace_id :: string
  spn_parent_span_id :: "string option"
  spn_session_id :: string
  spn_agent_name :: string
  spn_operation_name :: string
  spn_span_type :: span_type
  spn_model :: "string option"
  spn_input_tokens :: u64
  spn_output_tokens :: u64
  spn_cost_usd :: f64
  spn_status :: span_status
  spn_started_at :: timestamp
  spn_duration_ms :: u64
  spn_attributes :: "string \<rightharpoonup> attr_json"
  spn_project_id :: "string option"

section \<open>OTLP requests\<close>

record otlp_any_value =
  oav_string_value :: "string option"
  oav_int_value :: "i64 option"
  oav_double_value :: "f64 option"

record otlp_key_value =
  okv_key :: string
  okv_value :: "otlp_any_value option"

record otlp_status =
  ost_code :: u32
  ost_message :: "string option"

record otlp_span =
  osp_trace_id :: string
  osp_span_id :: string
  osp_parent_span_id :: "string option"
  osp_name :: string
  osp_start_time_unix_nano :: u64
  osp_end_time_unix_nano :: u64
  osp_attributes :: "otlp_key_value list"
  osp_status :: "otlp_status option"

record scope_spans =
  osc_spans :: "otlp_span list"

record otlp_resource =
  ore_attributes :: "otlp_key_value list"

record resource_spans =
  ors_resource :: "otlp_resource option"
  ors_scope_spans :: "scope_spans list"

record otlp_export_request =
  oex_resource_spans :: "resource_spans list"

definition string_val :: "otlp_key_value \<Rightarrow> string option" where
  "string_val kv = Option.bind (okv_value kv) oav_string_value"

definition int_val :: "otlp_key_value \<Rightarrow> i64 option" where
  "int_val kv = Option.bind (okv_value kv) oav_int_value"

definition double_val :: "otlp_key_value \<Rightarrow> f64 option" where
  "double_val kv = Option.bind (okv_value kv) oav_double_value"

definition find_attr :: "string \<Rightarrow> otlp_key_value list \<Rightarrow> otlp_key_value option" where
  "find_attr key attrs = find (\<lambda>a. okv_key a = key) attrs"

text \<open>Option::or\_else over the two names an attribute goes by.\<close>
definition find_attr2 :: "string \<Rightarrow> string \<Rightarrow> otlp_key_value list \<Rightarrow> otlp_key_value option" where
  "find_attr2 key alt attrs = (case find_attr key attrs of Some a \<Rightarrow> Some a | None \<Rightarrow> find_attr alt attrs)"

definition unwrap_or :: "'a \<Rightarrow> 'a option \<Rightarrow> 'a" where
  "unwrap_or d v = (case v of None \<Rightarrow> d | Some x \<Rightarrow> x)"

definition nanos_to_datetime :: "(nat \<Rightarrow> nat \<Rightarrow> timestamp) \<Rightarrow> u64 \<Rightarrow> timestamp" where
  "nanos_to_datetime datetime nanos = datetime (unat (nanos div 1000000000)) (unat (nanos mod 1000000000))"

definition attr_json_of :: "otlp_key_value \<Rightarrow> (string \<times> attr_json) option" where
  "attr_json_of kv =
     (case okv_value kv of None \<Rightarrow> None
      | Some v \<Rightarrow>
          (case oav_string_value v of Some s \<Rightarrow> Some (okv_key kv, Attr_String s)
           | None \<Rightarrow>
               (case oav_int_value v of Some i \<Rightarrow> Some (okv_key kv, Attr_Int (sint i))
                | None \<Rightarrow>
                    (case oav_double_value v of Some f \<Rightarrow> Some (okv_key kv, Attr_Float f)
                     | None \<Rightarrow> None))))"

text \<open>Collecting pairs into a serde\_json map: a later pair replaces an earlier one.\<close>
definition collect_attrs :: "otlp_key_value list \<Rightarrow> (string \<rightharpoonup> attr_json)" where
  "collect_attrs attrs = map_of (rev (List.map_filter attr_json_of attrs))"

definition span_status_of :: "otlp_status option \<Rightarrow> span_status" where
  "span_status_of st =
     (case st of None \<Rightarrow> Span_Unset
      | Some s \<Rightarrow> if ost_code s = 2 then Span_Error (unwrap_or '''' (ost_message s))
                  else if ost_code s = 1 then Span_Ok else Span_Unset)"

definition span_duration_ms :: "otlp_span \<Rightarrow> u64" where
  "span_duration_ms os =
     (if osp_start_time_unix_nano os < osp_end_time_unix_nano os
      then (osp_end_time_unix_nano os - osp_start_time_unix_nano os) div 1000000 else 0)"

definition classify_span :: "string option \<Rightarrow> u64 \<Rightarrow> span_type" where
  "classify_span model duration =
     (if model \<noteq> None then Ty_Generation else if duration = 0 then Ty_Event else Ty_Span)"

text \<open>The body of the innermost loop.\<close>
definition convert_span :: "(nat \<Rightarrow> nat \<Rightarrow> timestamp) \<Rightarrow> string \<Rightarrow> string \<Rightarrow> otlp_span \<Rightarrow> span" where
  "convert_span datetime session agent os =
     (let attrs = osp_attributes os;
          model = Option.bind (find_attr2 ''ai.model.id'' ''gen_ai.request.model'' attrs) string_val;
          duration = span_duration_ms os
      in \<lparr>spn_span_id = osp_span_id os, spn_trace_id = osp_trace_id os, spn_parent_span_id = osp_parent_span_id os,
          spn_session_id = session, spn_agent_name = agent, spn_operation_name = osp_name os,
          spn_span_type = classify_span model duration, spn_model = model,
          spn_input_tokens =
            unwrap_or 0 (Option.bind (find_attr2 ''ai.tokens.input'' ''gen_ai.usage.prompt_tokens'' attrs) int_val),
          spn_output_tokens =
            unwrap_or 0 (Option.bind (find_attr2 ''ai.tokens.output'' ''gen_ai.usage.completion_tokens'' attrs) int_val),
          spn_cost_usd = unwrap_or 0 (Option.bind (find_attr ''ai.cost.usd'' attrs) double_val),
          spn_status = span_status_of (osp_status os),
          spn_started_at = nanos_to_datetime datetime (osp_start_time_unix_nano os),
          spn_duration_ms = duration, spn_attributes = collect_attrs attrs, spn_project_id = None\<rparr>)"

definition resource_text :: "string \<Rightarrow> resource_spans \<Rightarrow> string" where
  "resource_text key rs =
     (let attrs = (case ors_resource rs of None \<Rightarrow> [] | Some r \<Rightarrow> ore_attributes r)
      in unwrap_or ''unknown'' (Option.bind (find_attr key attrs) string_val))"

definition process_resource :: "(nat \<Rightarrow> nat \<Rightarrow> timestamp) \<Rightarrow> resource_spans \<Rightarrow> span list" where
  "process_resource datetime rs =
     concat (map (\<lambda>sc. map (convert_span datetime (resource_text ''session.id'' rs) (resource_text ''service.name'' rs))
                           (osc_spans sc)) (ors_scope_spans rs))"

definition process_export_request :: "(nat \<Rightarrow> nat \<Rightarrow> timestamp) \<Rightarrow> otlp_export_request \<Rightarrow> span list" where
  "process_export_request datetime req = concat (map (process_resource datetime) (oex_resource_spans req))"

section \<open>Counting records (receiver.rs)\<close>

definition json_get :: "string \<Rightarrow> json \<Rightarrow> json option" where
  "json_get k v = (case v of JObj kvs \<Rightarrow> map_of kvs k | _ \<Rightarrow> None)"

definition as_array :: "json \<Rightarrow> json list option" where
  "as_array v = (case v of JArr xs \<Rightarrow> Some xs | _ \<Rightarrow> None)"

definition array_at :: "string \<Rightarrow> json \<Rightarrow> json list option" where
  "array_at k v = Option.bind (json_get k v) as_array"

definition count_otlp_records :: "json \<Rightarrow> string \<Rightarrow> string \<Rightarrow> string \<Rightarrow> nat" where
  "count_otlp_records payload resource_key scope_key leaf_key =
     (case array_at resource_key payload of None \<Rightarrow> 0
      | Some arr \<Rightarrow>
          sum_list (map length
            (List.map_filter (array_at leaf_key) (concat (map (\<lambda>r. unwrap_or [] (array_at scope_key r)) arr)))))"

section \<open>Facts\<close>

lemma unwrap_or_simps [simp]: "unwrap_or d None = d" "unwrap_or d (Some x) = x"
  by (simp_all add: unwrap_or_def)

lemma length_process_export_request:
  "length (process_export_request datetime req) =
   sum_list (map (\<lambda>rs. sum_list (map (length \<circ> osc_spans) (ors_scope_spans rs))) (oex_resource_spans req))"
  by (simp add: process_export_request_def process_resource_def length_concat comp_def)

lemma convert_span_simps [simp]:
  "spn_session_id (convert_span dt session agent os) = session"
  "spn_agent_name (convert_span dt session agent os) = agent"
  "spn_span_id (convert_span dt session agent os) = osp_span_id os"
  "spn_operation_name (convert_span dt session agent os) = osp_name os"
  "spn_project_id (convert_span dt session agent os) = None"
  by (simp_all add: convert_span_def Let_def)

text \<open>Every exported span comes from one OTLP span of a resource, under that resource's session and agent.\<close>
lemma exported_span_origin:
  "sp \<in> set (process_export_request dt req) \<longleftrightarrow>
   (\<exists>rs \<in> set (oex_resource_spans req). \<exists>sc \<in> set (ors_scope_spans rs). \<exists>os \<in> set (osc_spans sc).
      sp = convert_span dt (resource_text ''session.id'' rs) (resource_text ''service.name'' rs) os)"
  by (auto simp: process_export_request_def process_resource_def)

lemma exported_project: "sp \<in> set (process_export_request dt req) \<Longrightarrow> spn_project_id sp = None"
  by (auto simp: exported_span_origin)

text \<open>The duration is the elapsed time in whole milliseconds, 0 when the end is not after the start.\<close>
lemma unat_span_duration:
  "unat (span_duration_ms os) = (unat (osp_end_time_unix_nano os) - unat (osp_start_time_unix_nano os)) div 1000000"
  by (simp add: span_duration_ms_def unat_div unat_sub word_less_nat_alt word_le_nat_alt)

lemma duration_zero_iff:
  "span_duration_ms os = 0 \<longleftrightarrow> unat (osp_end_time_unix_nano os) < unat (osp_start_time_unix_nano os) + 1000000"
proof -
  have "span_duration_ms os = 0 \<longleftrightarrow> unat (span_duration_ms os) = 0" by (simp add: unat_eq_0)
  then show ?thesis by (auto simp: unat_span_duration div_eq_0_iff)
qed

end
