(* ===== verification/Store_Telemetry.thy ===== *)
theory Store_Telemetry
  imports Otel_Spans "HOL-Library.Multiset"
begin

text \<open>
  The telemetry tables of the DuckDB store (gctrl-storage/src/duckdb\_store.rs, schema.rs): sessions, spans, traffic,
  scores, tags, prompts, daily aggregates and alerts. BIGINT columns are integers; a sum that leaves the 64-bit range is the
  conversion error DuckDB reports, and u64 values cross the column as i64. INSERT OR REPLACE assigns the listed columns of
  the row with the same key (so \<^verbatim>\<open>synced\<close>, which no statement here lists, survives it). GROUP BY and ties keep the order in
  which rows were inserted; text\<^verbatim>\<open> LIKE \<close>pattern is the argument \<^verbatim>\<open>like\<close>. The metadata and attributes texts are the JSON values they decode to.
\<close>

section \<open>Rows\<close>

record session =
  ses_id :: string
  ses_workspace_id :: string
  ses_device_id :: string
  ses_agent_name :: string
  ses_started_at :: timestamp
  ses_ended_at :: "timestamp option"
  ses_status :: session_status
  ses_total_cost_usd :: f64
  ses_total_input_tokens :: u64
  ses_total_output_tokens :: u64
  ses_created_by :: created_by
  ses_project_id :: "string option"
  ses_kind :: string
  ses_metadata :: "json option"

definition default_session_kind :: string where "default_session_kind = ''llm''"

record session_row =
  ser_id :: string
  ser_workspace_id :: string
  ser_device_id :: string
  ser_agent_name :: string
  ser_started_at :: timestamp
  ser_ended_at :: "timestamp option"
  ser_status :: string
  ser_total_cost_usd :: f64
  ser_total_input_tokens :: int
  ser_total_output_tokens :: int
  ser_synced :: bool
  ser_created_by :: "string option"
  ser_project_id :: "string option"
  ser_kind :: "string option"
  ser_metadata :: "json option"

definition session_to_row :: "session \<Rightarrow> session_row" where
  "session_to_row s =
     \<lparr>ser_id = ses_id s, ser_workspace_id = ses_workspace_id s, ser_device_id = ses_device_id s,
      ser_agent_name = ses_agent_name s, ser_started_at = ses_started_at s, ser_ended_at = ses_ended_at s,
      ser_status = session_status_as_str (ses_status s), ser_total_cost_usd = ses_total_cost_usd s,
      ser_total_input_tokens = sint (ses_total_input_tokens s), ser_total_output_tokens = sint (ses_total_output_tokens s),
      ser_synced = False, ser_created_by = Some (created_by_as_str (ses_created_by s)), ser_project_id = ses_project_id s,
      ser_kind = Some (ses_kind s), ser_metadata = ses_metadata s\<rparr>"

definition row_to_session :: "session_row \<Rightarrow> session" where
  "row_to_session r =
     \<lparr>ses_id = ser_id r, ses_workspace_id = ser_workspace_id r, ses_device_id = ser_device_id r,
      ses_agent_name = ser_agent_name r, ses_started_at = ser_started_at r, ses_ended_at = ser_ended_at r,
      ses_status = unwrap_or Sess_Active (session_status_from_str (ser_status r)),
      ses_total_cost_usd = ser_total_cost_usd r, ses_total_input_tokens = word_of_int (ser_total_input_tokens r),
      ses_total_output_tokens = word_of_int (ser_total_output_tokens r),
      ses_created_by = unwrap_or By_Unknown (Option.bind (ser_created_by r) created_by_from_str),
      ses_project_id = ser_project_id r, ses_kind = unwrap_or default_session_kind (ser_kind r),
      ses_metadata = ser_metadata r\<rparr>"

record span_row =
  spr_span_id :: string
  spr_trace_id :: string
  spr_parent_span_id :: "string option"
  spr_session_id :: string
  spr_agent_name :: string
  spr_operation_name :: string
  spr_span_type :: string
  spr_model :: "string option"
  spr_input_tokens :: int
  spr_output_tokens :: int
  spr_cost_usd :: f64
  spr_status :: string
  spr_error_message :: "string option"
  spr_started_at :: timestamp
  spr_duration_ms :: int
  spr_attributes :: "string \<rightharpoonup> attr_json"
  spr_synced :: bool
  spr_project_id :: "string option"

definition span_to_row :: "span \<Rightarrow> span_row" where
  "span_to_row s =
     \<lparr>spr_span_id = spn_span_id s, spr_trace_id = spn_trace_id s, spr_parent_span_id = spn_parent_span_id s,
      spr_session_id = spn_session_id s, spr_agent_name = spn_agent_name s, spr_operation_name = spn_operation_name s,
      spr_span_type = span_type_as_str (spn_span_type s), spr_model = spn_model s,
      spr_input_tokens = sint (spn_input_tokens s), spr_output_tokens = sint (spn_output_tokens s),
      spr_cost_usd = spn_cost_usd s, spr_status = span_status_as_str (spn_status s),
      spr_error_message = error_message (spn_status s), spr_started_at = spn_started_at s,
      spr_duration_ms = sint (spn_duration_ms s), spr_attributes = spn_attributes s, spr_synced = False,
      spr_project_id = spn_project_id s\<rparr>"

definition row_to_span :: "span_row \<Rightarrow> span" where
  "row_to_span r =
     \<lparr>spn_span_id = spr_span_id r, spn_trace_id = spr_trace_id r, spn_parent_span_id = spr_parent_span_id r,
      spn_session_id = spr_session_id r, spn_agent_name = spr_agent_name r, spn_operation_name = spr_operation_name r,
      spn_span_type = span_type_from_str (spr_span_type r), spn_model = spr_model r,
      spn_input_tokens = word_of_int (spr_input_tokens r), spn_output_tokens = word_of_int (spr_output_tokens r),
      spn_cost_usd = spr_cost_usd r,
      spn_status = (if spr_status r = ''ok'' then Span_Ok
                    else if spr_status r = ''error'' then Span_Error (unwrap_or '''' (spr_error_message r))
                    else Span_Unset),
      spn_started_at = spr_started_at r, spn_duration_ms = word_of_int (spr_duration_ms r),
      spn_attributes = spr_attributes r, spn_project_id = spr_project_id r\<rparr>"

record traffic_record =
  trf_id :: string
  trf_timestamp :: timestamp
  trf_method :: string
  trf_url :: string
  trf_host :: string
  trf_status_code :: "16 word"
  trf_request_size_bytes :: u64
  trf_response_size_bytes :: u64
  trf_duration_ms :: u64
  trf_session_id :: "string option"

record traffic_row =
  trr_id :: string
  trr_timestamp :: timestamp
  trr_method :: string
  trr_url :: string
  trr_host :: string
  trr_status_code :: int
  trr_request_size :: int
  trr_response_size :: int
  trr_duration_ms :: int
  trr_session_id :: "string option"
  trr_synced :: bool

definition row_to_traffic :: "traffic_row \<Rightarrow> traffic_record" where
  "row_to_traffic r =
     \<lparr>trf_id = trr_id r, trf_timestamp = trr_timestamp r, trf_method = trr_method r, trf_url = trr_url r,
      trf_host = trr_host r, trf_status_code = word_of_int (trr_status_code r),
      trf_request_size_bytes = word_of_int (trr_request_size r), trf_response_size_bytes = word_of_int (trr_response_size r),
      trf_duration_ms = word_of_int (trr_duration_ms r), trf_session_id = trr_session_id r\<rparr>"

record score =
  sco_id :: string
  sco_target_type :: string
  sco_target_id :: string
  sco_name :: string
  sco_value :: f64
  sco_comment :: "string option"
  sco_source :: string
  sco_scored_by :: "string option"
  sco_created_at :: timestamp

record tag_row =
  tgr_id :: string
  tgr_target_type :: string
  tgr_target_id :: string
  tgr_key :: string
  tgr_value :: string

record prompt_version =
  prv_hash :: string
  prv_content :: string
  prv_file_path :: "string option"
  prv_label :: "string option"
  prv_created_at :: timestamp
  prv_token_count :: "32 word option"

record prompt_body =
  pbd_id :: string
  pbd_session_id :: string
  pbd_span_id :: "string option"
  pbd_trace_id :: "string option"
  pbd_turn_ordinal :: "32 word"
  pbd_role :: string
  pbd_content :: string
  pbd_fingerprint :: string
  pbd_tokens :: "32 word option"
  pbd_created_at :: timestamp

record daily_aggregate =
  dag_date :: string
  dag_metric :: string
  dag_dimension :: string
  dag_value :: f64

record alert_rule =
  alr_id :: string
  alr_name :: string
  alr_condition_type :: string
  alr_threshold :: f64
  alr_action :: string
  alr_enabled :: bool

record alert_event =
  ale_id :: string
  ale_rule_id :: string
  ale_session_id :: "string option"
  ale_timestamp :: timestamp
  ale_message :: string
  ale_acknowledged :: bool

record duck_store =
  d_sessions :: "session_row list"
  d_spans :: "span_row list"
  d_traffic :: "traffic_row list"
  d_scores :: "score list"
  d_tags :: "tag_row list"
  d_prompt_versions :: "prompt_version list"
  d_session_prompts :: "(string \<times> string) list"
  d_prompt_bodies :: "prompt_body list"
  d_daily :: "daily_aggregate list"
  d_alert_rules :: "alert_rule list"
  d_alert_events :: "alert_event list"

text \<open>A fresh database after run\_migrations.\<close>
definition duck_open :: duck_store where
  "duck_open = \<lparr>d_sessions = [], d_spans = [], d_traffic = [], d_scores = [], d_tags = [], d_prompt_versions = [],
     d_session_prompts = [], d_prompt_bodies = [], d_daily = [], d_alert_rules = [], d_alert_events = []\<rparr>"

section \<open>Statements of DuckDB\<close>

definition i64_ok :: "int \<Rightarrow> bool" where
  "i64_ok n \<longleftrightarrow> - (2 ^ 63) \<le> n \<and> n < 2 ^ 63"

definition out_of_range :: gctl_error where
  "out_of_range = StorageSql '''' OutOfRange"

text \<open>INSERT OR REPLACE: assign old new is the old row with the listed columns of the new one.\<close>
definition replace_rows :: "('r \<Rightarrow> 'k) \<Rightarrow> ('r \<Rightarrow> 'r \<Rightarrow> 'r) \<Rightarrow> 'r \<Rightarrow> 'r list \<Rightarrow> 'r list" where
  "replace_rows key assign r rows =
     (if list_ex (\<lambda>x. key x = key r) rows then update_where (\<lambda>x. key x = key r) (\<lambda>x. assign x r) rows
      else rows @ [r])"

definition sql_replace ::
  "(('r list \<Rightarrow> 'r list) \<Rightarrow> 's \<Rightarrow> 's) \<Rightarrow> ('r \<Rightarrow> 'k) \<Rightarrow> ('r \<Rightarrow> 'r \<Rightarrow> 'r) \<Rightarrow> 'r \<Rightarrow> ('s, unit) db" where
  "sql_replace upd key assign r = (\<lambda>s. (Inr (), upd (replace_rows key assign r) s))"

text \<open>INSERT OR IGNORE.\<close>
definition sql_insert_ignore ::
  "('s \<Rightarrow> 'r list) \<Rightarrow> (('r list \<Rightarrow> 'r list) \<Rightarrow> 's \<Rightarrow> 's) \<Rightarrow> ('r \<Rightarrow> 'k) \<Rightarrow> 'r \<Rightarrow> ('s, unit) db" where
  "sql_insert_ignore table upd key r =
     (\<lambda>s. (Inr (), if list_ex (\<lambda>x. key x = key r) (table s) then s else upd (\<lambda>rows. rows @ [r]) s))"

text \<open>GROUP BY k: the groups in the order of their first rows.\<close>
definition group_by :: "('r \<Rightarrow> 'k) \<Rightarrow> 'r list \<Rightarrow> ('k \<times> 'r list) list" where
  "group_by k rows = map (\<lambda>x. (x, filter (\<lambda>r. k r = x) rows)) (rev (remdups (rev (map k rows))))"

text \<open>SUM over a BIGINT column read as an i64.\<close>
definition read_sum :: "int \<Rightarrow> gctl_error + int" where
  "read_sum n = (if i64_ok n then Inr n else Inl out_of_range)"

text \<open>Reading every row of a result, failing at the first row that does not fit its types.\<close>
fun read_rows :: "('r \<Rightarrow> gctl_error + 'a) \<Rightarrow> 'r list \<Rightarrow> gctl_error + 'a list" where
  "read_rows f [] = Inr []"
| "read_rows f (r # rs) =
     (case f r of Inl e \<Rightarrow> Inl e
      | Inr x \<Rightarrow> (case read_rows f rs of Inl e \<Rightarrow> Inl e | Inr xs \<Rightarrow> Inr (x # xs)))"

definition u64_of :: "int \<Rightarrow> u64" where "u64_of n = word_of_int n"

section \<open>Provenance filters\<close>

definition sessions_provenance_filter :: "created_by list option \<Rightarrow> session_row \<Rightarrow> bool" where
  "sessions_provenance_filter provs r =
     (case provs of
        None \<Rightarrow> True
      | Some ps \<Rightarrow> if ps \<noteq> [] then list_ex (\<lambda>p. ser_created_by r = Some (created_by_as_str p)) ps else False)"

text \<open>FROM spans sp, joined with the session when a provenance is asked for.\<close>
definition spans_provenance_join :: "created_by list option \<Rightarrow> duck_store \<Rightarrow> span_row list" where
  "spans_provenance_join provs s =
     (case provs of
        None \<Rightarrow> d_spans s
      | Some ps \<Rightarrow>
          if ps \<noteq> [] then
            concat (map (\<lambda>sp. map (\<lambda>_. sp)
              (filter (\<lambda>se. ser_id se = spr_session_id sp \<and>
                            list_ex (\<lambda>p. ser_created_by se = Some (created_by_as_str p)) ps) (d_sessions s))) (d_spans s))
          else [])"

section \<open>Sessions and spans\<close>

definition insert_session :: "session \<Rightarrow> (duck_store, unit) db" where
  "insert_session se =
     sql_replace d_sessions_update ser_id (\<lambda>old new. new\<lparr>ser_synced := ser_synced old\<rparr>) (session_to_row se)"

definition insert_span :: "span \<Rightarrow> (duck_store, unit) db" where
  "insert_span sp =
     sql_replace d_spans_update spr_span_id (\<lambda>old new. new\<lparr>spr_synced := spr_synced old\<rparr>) (span_to_row sp)"

definition spans_of :: "string \<Rightarrow> duck_store \<Rightarrow> span_row list" where
  "spans_of sid s = filter (\<lambda>r. spr_session_id r = sid) (d_spans s)"

definition cost_sum :: "span_row list \<Rightarrow> f64" where "cost_sum rs = sum_list (map spr_cost_usd rs)"
definition input_sum :: "span_row list \<Rightarrow> int" where "input_sum rs = sum_list (map spr_input_tokens rs)"
definition output_sum :: "span_row list \<Rightarrow> int" where "output_sum rs = sum_list (map spr_output_tokens rs)"

definition set_totals :: "span_row list \<Rightarrow> session_row \<Rightarrow> session_row" where
  "set_totals rs r = r\<lparr>ser_total_cost_usd := cost_sum rs, ser_total_input_tokens := input_sum rs,
     ser_total_output_tokens := output_sum rs\<rparr>"

definition project_of :: "string \<Rightarrow> duck_store \<Rightarrow> string option" where
  "project_of sid s = Option.bind (find (\<lambda>r. ser_id r = sid) (d_sessions s)) ser_project_id"

definition update_session_aggregates :: "string \<Rightarrow> (duck_store, unit) db" where
  "update_session_aggregates sid =
     bind (\<lambda>s. if list_ex (\<lambda>r. ser_id r = sid) (d_sessions s) \<and>
                  \<not> (i64_ok (input_sum (spans_of sid s)) \<and> i64_ok (output_sum (spans_of sid s)))
               then (Inl out_of_range, s)
               else sql_update d_sessions d_sessions_update (\<lambda>r. ser_id r = sid) (set_totals (spans_of sid s)) s)
     (\<lambda>_. bind (\<lambda>s. sql_update d_spans d_spans_update (\<lambda>r. spr_session_id r = sid \<and> spr_project_id r = None)
                     (spr_project_id_update (\<lambda>_. project_of sid s)) s)
     (\<lambda>_. ret ()))"

text \<open>order enumerates a hash set.\<close>
definition insert_spans :: "(string list \<Rightarrow> string list) \<Rightarrow> span list \<Rightarrow> (duck_store, unit) db" where
  "insert_spans order spans =
     bind (for_each insert_span spans)
     (\<lambda>_. for_each update_session_aggregates (order (remdups (map spn_session_id spans))))"

definition duck_end_session :: "timestamp \<Rightarrow> string \<Rightarrow> string \<Rightarrow> (duck_store, unit) db" where
  "duck_end_session now sid status =
     bind (sql_update d_sessions d_sessions_update (\<lambda>r. ser_id r = sid)
             (\<lambda>r. r\<lparr>ser_status := status, ser_ended_at := Some now\<rparr>)) (\<lambda>_. ret ())"

definition duck_get_session :: "string \<Rightarrow> duck_store \<Rightarrow> session option" where
  "duck_get_session sid s = map_option row_to_session (find (\<lambda>r. ser_id r = sid) (d_sessions s))"

definition list_sessions :: "nat \<Rightarrow> duck_store \<Rightarrow> session list" where
  "list_sessions mx s = map row_to_session (take mx (order_desc ser_started_at (d_sessions s)))"

definition list_sessions_filtered ::
  "nat \<Rightarrow> string option \<Rightarrow> string option \<Rightarrow> created_by list option \<Rightarrow> string option \<Rightarrow> duck_store \<Rightarrow> session list" where
  "list_sessions_filtered mx agent status provs kind s =
     map row_to_session (take mx (order_desc ser_started_at (filter (\<lambda>r.
       opt_eq agent (ser_agent_name r) \<and> opt_eq status (ser_status r) \<and>
       (case provs of None \<Rightarrow> True
        | Some ps \<Rightarrow> ps = [] \<or> list_ex (\<lambda>p. ser_created_by r = Some (created_by_as_str p)) ps) \<and>
       (case kind of None \<Rightarrow> True | Some k \<Rightarrow> ser_kind r = Some k)) (d_sessions s))))"

definition query_spans :: "string \<Rightarrow> duck_store \<Rightarrow> span list" where
  "query_spans sid s = map row_to_span (order_asc spr_started_at (spans_of sid s))"

text \<open>
  The windows of threshold operations that are all the same; a threshold of 0 indexes an empty window, which panics (None).
\<close>
fun loop_windows :: "nat \<Rightarrow> nat \<Rightarrow> string list \<Rightarrow> (nat \<times> string) list" where
  "loop_windows threshold i [] = []"
| "loop_windows threshold i (op # ops) =
     (if threshold \<le> length (op # ops) \<and> list_all (\<lambda>x. x = op) (take threshold (op # ops)) then [(i, op)] else []) @
     loop_windows threshold (Suc i) ops"

definition loop_message :: "nat \<Rightarrow> nat \<times> string \<Rightarrow> string" where
  "loop_message threshold w =
     (case w of (i, op) \<Rightarrow> show_nat threshold @ '' consecutive '' @ [CHR 0x27] @ op @ [CHR 0x27] @ '' calls at position '' @ show_nat i)"

definition detect_error_loops :: "string \<Rightarrow> nat \<Rightarrow> duck_store \<Rightarrow> string list option" where
  "detect_error_loops sid threshold s =
     (let ops = map spn_operation_name (query_spans sid s)
      in if length ops < threshold then Some []
         else if threshold = 0 then None
         else Some (rev (remdups (rev (map (loop_message threshold) (loop_windows threshold 0 ops))))))"

section \<open>Traffic\<close>

definition insert_traffic :: "traffic_record \<Rightarrow> (duck_store, unit) db" where
  "insert_traffic t =
     (if uint (trf_status_code t) < 2 ^ 15 then
        sql_replace d_traffic_update trr_id (\<lambda>old new. new\<lparr>trr_synced := trr_synced old\<rparr>)
          \<lparr>trr_id = trf_id t, trr_timestamp = trf_timestamp t, trr_method = trf_method t, trr_url = trf_url t,
           trr_host = trf_host t, trr_status_code = uint (trf_status_code t),
           trr_request_size = sint (trf_request_size_bytes t), trr_response_size = sint (trf_response_size_bytes t),
           trr_duration_ms = sint (trf_duration_ms t), trr_session_id = trf_session_id t, trr_synced = False\<rparr>
      else throw out_of_range)"

definition since_ok :: "timestamp option \<Rightarrow> timestamp \<Rightarrow> bool" where
  "since_ok since t = (case since of None \<Rightarrow> True | Some b \<Rightarrow> b \<le> t)"

definition query_traffic :: "string option \<Rightarrow> timestamp option \<Rightarrow> nat option \<Rightarrow> duck_store \<Rightarrow> traffic_record list" where
  "query_traffic host since mx s =
     map row_to_traffic (take (unwrap_or 50 mx) (order_desc trr_timestamp
       (filter (\<lambda>r. opt_eq host (trr_host r) \<and> since_ok since (trr_timestamp r)) (d_traffic s))))"

record traffic_stats =
  tst_total_requests :: nat
  tst_total_request_bytes :: u64
  tst_total_response_bytes :: u64
  tst_by_host :: "(string \<times> nat) list"
  tst_by_status :: "(16 word \<times> nat) list"

definition get_traffic_stats :: "timestamp option \<Rightarrow> duck_store \<Rightarrow> gctl_error + traffic_stats" where
  "get_traffic_stats since s =
     (let rows = filter (\<lambda>r. since_ok since (trr_timestamp r)) (d_traffic s);
          req = sum_list (map trr_request_size rows); resp = sum_list (map trr_response_size rows)
      in if \<not> i64_ok req \<or> \<not> i64_ok resp then Inl out_of_range
         else Inr \<lparr>tst_total_requests = length rows, tst_total_request_bytes = u64_of req,
                   tst_total_response_bytes = u64_of resp,
                   tst_by_host = take 25 (order_desc snd (map (map_prod id length) (group_by trr_host rows))),
                   tst_by_status = map (\<lambda>(c, g). (word_of_int c, length g))
                                     (order_asc fst (group_by trr_status_code rows))\<rparr>)"

text \<open>A group's key, its number of rows and its byte totals.\<close>
definition traffic_group :: "'k \<times> traffic_row list \<Rightarrow> gctl_error + ('k \<times> nat \<times> u64 \<times> u64)" where
  "traffic_group g =
     (let req = sum_list (map trr_request_size (snd g)); resp = sum_list (map trr_response_size (snd g))
      in if \<not> i64_ok req \<or> \<not> i64_ok resp then Inl out_of_range
         else Inr (fst g, length (snd g), u64_of req, u64_of resp))"

definition get_traffic_by_host ::
  "nat \<Rightarrow> timestamp option \<Rightarrow> duck_store \<Rightarrow> gctl_error + (string \<times> nat \<times> u64 \<times> u64) list" where
  "get_traffic_by_host mx since s =
     read_rows traffic_group (take mx (order_desc (length \<circ> snd)
       (group_by trr_host (filter (\<lambda>r. since_ok since (trr_timestamp r)) (d_traffic s)))))"

definition get_traffic_daily :: "u32 \<Rightarrow> duck_store \<Rightarrow> gctl_error + (string \<times> nat \<times> u64 \<times> u64) list" where
  "get_traffic_daily days s =
     read_rows traffic_group (take (unat days) (order_desc fst (group_by (\<lambda>r. take 10 (trr_timestamp r)) (d_traffic s))))"

section \<open>Analytics\<close>

record agent_analytics =
  aga_agent_name :: string
  aga_session_count :: nat
  aga_total_cost_usd :: f64

record model_analytics =
  moa_model :: string
  moa_span_count :: nat
  moa_total_input_tokens :: u64
  moa_total_output_tokens :: u64
  moa_total_cost_usd :: f64

record analytics =
  ana_total_sessions :: nat
  ana_total_spans :: nat
  ana_total_cost_usd :: f64
  ana_total_input_tokens :: u64
  ana_total_output_tokens :: u64
  ana_by_agent :: "agent_analytics list"
  ana_by_model :: "model_analytics list"

definition session_cost :: "session_row list \<Rightarrow> f64" where
  "session_cost rs = sum_list (map ser_total_cost_usd rs)"

text \<open>GROUP BY k ORDER BY SUM(total\_cost\_usd) DESC over sessions, ... ORDER BY SUM(cost\_usd) DESC over spans.\<close>
definition sessions_by :: "(session_row \<Rightarrow> 'k) \<Rightarrow> session_row list \<Rightarrow> ('k \<times> session_row list) list" where
  "sessions_by k rs = order_desc (session_cost \<circ> snd) (group_by k rs)"

definition spans_by_model :: "span_row list \<Rightarrow> (string \<times> span_row list) list" where
  "spans_by_model rs = map (map_prod the id)
     (order_desc (cost_sum \<circ> snd) (group_by spr_model (filter (\<lambda>r. spr_model r \<noteq> None) rs)))"

definition model_group :: "string \<times> span_row list \<Rightarrow> gctl_error + model_analytics" where
  "model_group g =
     (let i = input_sum (snd g); out = output_sum (snd g)
      in if \<not> i64_ok i \<or> \<not> i64_ok out then Inl out_of_range
         else Inr \<lparr>moa_model = fst g, moa_span_count = length (snd g), moa_total_input_tokens = u64_of i,
                   moa_total_output_tokens = u64_of out, moa_total_cost_usd = cost_sum (snd g)\<rparr>)"

definition get_analytics :: "created_by list option \<Rightarrow> duck_store \<Rightarrow> gctl_error + analytics" where
  "get_analytics provs s =
     (let ses = filter (sessions_provenance_filter provs) (d_sessions s);
          sps = spans_provenance_join provs s;
          i = sum_list (map ser_total_input_tokens ses); out = sum_list (map ser_total_output_tokens ses)
      in if \<not> i64_ok i \<or> \<not> i64_ok out then Inl out_of_range
         else (case read_rows model_group (spans_by_model sps) of
                 Inl e \<Rightarrow> Inl e
               | Inr by_model \<Rightarrow>
                   Inr \<lparr>ana_total_sessions = length ses, ana_total_spans = length sps,
                        ana_total_cost_usd = session_cost ses, ana_total_input_tokens = u64_of i,
                        ana_total_output_tokens = u64_of out,
                        ana_by_agent = map (\<lambda>(a, g). \<lparr>aga_agent_name = a, aga_session_count = length g,
                                                       aga_total_cost_usd = session_cost g\<rparr>)
                                           (sessions_by ser_agent_name ses),
                        ana_by_model = by_model\<rparr>))"

definition get_cost_by_model :: "created_by list option \<Rightarrow> duck_store \<Rightarrow> (string \<times> f64 \<times> nat) list" where
  "get_cost_by_model provs s =
     map (\<lambda>(m, g). (m, cost_sum g, length g)) (spans_by_model (spans_provenance_join provs s))"

definition get_cost_by_agent :: "created_by list option \<Rightarrow> duck_store \<Rightarrow> (string \<times> f64 \<times> nat) list" where
  "get_cost_by_agent provs s =
     map (\<lambda>(a, g). (a, session_cost g, length g))
       (sessions_by ser_agent_name (filter (sessions_provenance_filter provs) (d_sessions s)))"

definition project_or_unassigned :: "session_row \<Rightarrow> string" where
  "project_or_unassigned r = unwrap_or ''unassigned'' (ser_project_id r)"

definition get_cost_by_project :: "created_by list option \<Rightarrow> duck_store \<Rightarrow> (string \<times> f64 \<times> nat) list" where
  "get_cost_by_project provs s =
     map (\<lambda>(p, g). (p, session_cost g, length g))
       (sessions_by project_or_unassigned (filter (sessions_provenance_filter provs) (d_sessions s)))"

definition get_cost_by_agent_project ::
  "created_by list option \<Rightarrow> duck_store \<Rightarrow> (string \<times> string \<times> f64 \<times> nat) list" where
  "get_cost_by_agent_project provs s =
     map (\<lambda>((a, p), g). (a, p, session_cost g, length g))
       (sessions_by (\<lambda>r. (ser_agent_name r, project_or_unassigned r))
          (filter (sessions_provenance_filter provs) (d_sessions s)))"

text \<open>The rows are grouped by the nullable model and only then labelled.\<close>
definition get_session_cost_breakdown :: "string \<Rightarrow> duck_store \<Rightarrow> gctl_error + (string \<times> f64 \<times> u64 \<times> u64 \<times> nat) list" where
  "get_session_cost_breakdown sid s =
     read_rows (\<lambda>(m, g). let i = input_sum g; out = output_sum g
                in if \<not> i64_ok i \<or> \<not> i64_ok out then Inl out_of_range
                   else Inr (unwrap_or ''unknown'' m, cost_sum g, u64_of i, u64_of out, length g))
       (order_desc (cost_sum \<circ> snd) (group_by spr_model (spans_of sid s)))"

definition get_span_type_distribution :: "created_by list option \<Rightarrow> duck_store \<Rightarrow> (string \<times> nat \<times> f64) list" where
  "get_span_type_distribution provs s =
     (let sps = spans_provenance_join provs s
      in if length sps = 0 then []
         else map (\<lambda>(t, g). (t, length g, of_nat (length g) / of_nat (length sps) * 100))
                  (order_desc (length \<circ> snd) (group_by spr_span_type sps)))"

text \<open>sessions, spans, traffic\_records and active\_alert\_rules of the health answer.\<close>
definition get_health_info :: "duck_store \<Rightarrow> nat \<times> nat \<times> nat \<times> nat" where
  "get_health_info s =
     (length (d_sessions s), length (d_spans s), length (d_traffic s), count_where alr_enabled (d_alert_rules s))"

text \<open>PERCENTILE\_CONT(p) WITHIN GROUP (ORDER BY ..): linear interpolation between the neighbours of rank p (n - 1).\<close>
definition percentile_cont :: "f64 \<Rightarrow> int list \<Rightarrow> f64" where
  "percentile_cont p xs =
     (let ys = sort xs; rank = p * of_nat (length ys - 1); lo = nat \<lfloor>rank\<rfloor>; hi = nat \<lceil>rank\<rceil>
      in of_int (ys ! lo) + (rank - of_nat lo) * (of_int (ys ! hi) - of_int (ys ! lo)))"

definition get_latency_by_model :: "created_by list option \<Rightarrow> duck_store \<Rightarrow> (string \<times> f64 \<times> f64 \<times> f64) list" where
  "get_latency_by_model provs s =
     map (\<lambda>(m, g). let ds = map spr_duration_ms g
            in (the m, percentile_cont (1 / 2) ds, percentile_cont (19 / 20) ds, percentile_cont (99 / 100) ds))
       (group_by spr_model (filter (\<lambda>r. spr_model r \<noteq> None) (spans_provenance_join provs s)))"

section \<open>Scores and tags\<close>

definition insert_score :: "score \<Rightarrow> (duck_store, unit) db" where
  "insert_score sc = sql_replace d_scores_update sco_id (\<lambda>old new. new) sc"

definition get_scores :: "string \<Rightarrow> string \<Rightarrow> duck_store \<Rightarrow> score list" where
  "get_scores target_type target s =
     order_desc sco_created_at (filter (\<lambda>r. sco_target_type r = target_type \<and> sco_target_id r = target) (d_scores s))"

definition average :: "f64 list \<Rightarrow> f64" where
  "average xs = (if xs = [] then 0 else sum_list xs / of_nat (length xs))"

text \<open>pass\_count, fail\_count and avg\_value.\<close>
definition get_score_summary :: "string \<Rightarrow> duck_store \<Rightarrow> nat \<times> nat \<times> f64" where
  "get_score_summary name s =
     (let rows = filter (\<lambda>r. sco_name r = name) (d_scores s); pass = count_where (\<lambda>r. 1 \<le> sco_value r) rows
      in (pass, length rows - pass, average (map sco_value rows)))"

definition auto_score :: "timestamp \<Rightarrow> string \<Rightarrow> string \<Rightarrow> string \<Rightarrow> f64 \<Rightarrow> score" where
  "auto_score now sid ending name v =
     \<lparr>sco_id = ''auto-'' @ sid @ ''-'' @ ending, sco_target_type = ''session'', sco_target_id = sid, sco_name = name,
      sco_value = v, sco_comment = None, sco_source = ''auto'', sco_scored_by = None, sco_created_at = now\<rparr>"

fun is_span_error :: "span_status \<Rightarrow> bool" where
  "is_span_error (Span_Error m) = True"
| "is_span_error Span_Ok = False"
| "is_span_error Span_Unset = False"

text \<open>now i is the i-th reading of the clock.\<close>
definition auto_scores :: "(nat \<Rightarrow> timestamp) \<Rightarrow> string \<Rightarrow> duck_store \<Rightarrow> score list" where
  "auto_scores now sid s =
     (let spans = query_spans sid s; gens = length (filter (\<lambda>x. spn_span_type x = Ty_Generation) spans)
      in [auto_score (now 0) sid ''span_count'' ''span_count'' (of_nat (length spans)),
          auto_score (now 1) sid ''error_count'' ''error_count''
            (of_nat (length (filter (\<lambda>x. is_span_error (spn_status x)) spans))),
          auto_score (now 2) sid ''generation_count'' ''generation_count'' (of_nat gens)] @
         (case duck_get_session sid s of
            None \<Rightarrow> []
          | Some se \<Rightarrow>
              if 0 < gens then [auto_score (now 3) sid ''cost_per_gen'' ''cost_per_generation''
                                  (ses_total_cost_usd se / of_nat gens)]
              else []))"

definition auto_score_session :: "(nat \<Rightarrow> timestamp) \<Rightarrow> string \<Rightarrow> (duck_store, score list) db" where
  "auto_score_session now sid =
     (\<lambda>s. let scores = auto_scores now sid s in bind (for_each insert_score scores) (\<lambda>_. ret scores) s)"

definition insert_tag :: "tag_row \<Rightarrow> (duck_store, unit) db" where
  "insert_tag t = sql_replace d_tags_update tgr_id (\<lambda>old new. new) t"

definition get_tags :: "string \<Rightarrow> string \<Rightarrow> duck_store \<Rightarrow> tag_row list" where
  "get_tags target_type target s =
     filter (\<lambda>t. tgr_target_type t = target_type \<and> tgr_target_id t = target) (d_tags s)"

section \<open>Prompts\<close>

definition insert_prompt_version :: "prompt_version \<Rightarrow> (duck_store, unit) db" where
  "insert_prompt_version pv = sql_insert_ignore d_prompt_versions d_prompt_versions_update prv_hash pv"

definition link_session_prompt :: "string \<Rightarrow> string \<Rightarrow> (duck_store, unit) db" where
  "link_session_prompt sid h = sql_insert_ignore d_session_prompts d_session_prompts_update id (sid, h)"

definition get_prompt_version :: "string \<Rightarrow> duck_store \<Rightarrow> prompt_version option" where
  "get_prompt_version h s = find (\<lambda>pv. prv_hash pv = h) (d_prompt_versions s)"

definition list_prompt_versions :: "duck_store \<Rightarrow> prompt_version list" where
  "list_prompt_versions s = order_desc prv_created_at (d_prompt_versions s)"

definition insert_prompt_body :: "prompt_body \<Rightarrow> (duck_store, unit) db" where
  "insert_prompt_body b = sql_replace d_prompt_bodies_update pbd_id (\<lambda>old new. new) b"

definition list_prompt_bodies_for_session :: "string \<Rightarrow> duck_store \<Rightarrow> prompt_body list" where
  "list_prompt_bodies_for_session sid s =
     order_asc (\<lambda>b. sint (pbd_turn_ordinal b)) (order_asc pbd_created_at
       (filter (\<lambda>b. pbd_session_id b = sid) (d_prompt_bodies s)))"

record prompt_fingerprint_group =
  pfg_fingerprint :: string
  pfg_count :: nat
  pfg_role :: string
  pfg_sample_content :: string
  pfg_total_tokens :: u64
  pfg_last_seen :: timestamp
  pfg_session_count :: nat

definition max_of :: "string list \<Rightarrow> string" where
  "max_of xs = foldl max [] xs"

definition fingerprint_group :: "string \<times> prompt_body list \<Rightarrow> gctl_error + prompt_fingerprint_group" where
  "fingerprint_group g =
     (let n = sum_list (map (\<lambda>b. case pbd_tokens b of None \<Rightarrow> 0 | Some t \<Rightarrow> sint t) (snd g))
      in if \<not> i64_ok n then Inl out_of_range
         else Inr \<lparr>pfg_fingerprint = fst g, pfg_count = length (snd g), pfg_role = max_of (map pbd_role (snd g)),
                   pfg_sample_content = max_of (map pbd_content (snd g)), pfg_total_tokens = u64_of n,
                   pfg_last_seen = max_of (map pbd_created_at (snd g)),
                   pfg_session_count = length (remdups (map pbd_session_id (snd g)))\<rparr>)"

definition group_prompt_bodies_by_fingerprint ::
  "string option \<Rightarrow> nat \<Rightarrow> duck_store \<Rightarrow> gctl_error + prompt_fingerprint_group list" where
  "group_prompt_bodies_by_fingerprint since mx s =
     read_rows fingerprint_group (take mx (order_desc (length \<circ> snd) (group_by pbd_fingerprint
       (filter (\<lambda>b. unwrap_or ''0000-01-01T00:00:00Z'' since \<le> pbd_created_at b) (d_prompt_bodies s)))))"

section \<open>Daily aggregates\<close>

definition upsert_daily_aggregate :: "daily_aggregate \<Rightarrow> (duck_store, unit) db" where
  "upsert_daily_aggregate a =
     sql_replace d_daily_update (\<lambda>a. (dag_date a, dag_metric a, dag_dimension a)) (\<lambda>old new. new) a"

text \<open>days * 10 is a u32 product.\<close>
definition get_daily_aggregates :: "u32 \<Rightarrow> duck_store \<Rightarrow> daily_aggregate list" where
  "get_daily_aggregates days s = take (unat (days * 10)) (order_desc dag_date (d_daily s))"

definition daily_aggregates_for :: "(string \<Rightarrow> string \<Rightarrow> bool) \<Rightarrow> string \<Rightarrow> duck_store \<Rightarrow> gctl_error + daily_aggregate list" where
  "daily_aggregates_for like date s =
     (let ses = filter (\<lambda>r. like (ser_started_at r) (date @ ''%'')) (d_sessions s);
          tokens = sum_list (map (\<lambda>r. ser_total_input_tokens r + ser_total_output_tokens r) ses);
          agg = (\<lambda>m v. \<lparr>dag_date = date, dag_metric = m, dag_dimension = ''total'', dag_value = v\<rparr>)
      in if \<not> list_all (\<lambda>r. i64_ok (ser_total_input_tokens r + ser_total_output_tokens r)) ses \<or> \<not> i64_ok tokens
         then Inl out_of_range
         else Inr [agg ''cost'' (session_cost ses), agg ''sessions'' (of_nat (length ses)), agg ''tokens'' (of_int tokens),
                   agg ''spans'' (of_nat (count_where (\<lambda>r. like (spr_started_at r) (date @ ''%'')) (d_spans s)))])"

definition compute_daily_aggregates :: "(string \<Rightarrow> string \<Rightarrow> bool) \<Rightarrow> string \<Rightarrow> (duck_store, daily_aggregate list) db" where
  "compute_daily_aggregates like date =
     (\<lambda>s. case daily_aggregates_for like date s of
            Inl e \<Rightarrow> (Inl e, s)
          | Inr aggs \<Rightarrow> bind (for_each upsert_daily_aggregate aggs) (\<lambda>_. ret aggs) s)"

section \<open>Alerts\<close>

definition insert_alert_rule :: "alert_rule \<Rightarrow> (duck_store, unit) db" where
  "insert_alert_rule r = sql_replace d_alert_rules_update alr_id (\<lambda>old new. new) r"

definition list_alert_rules :: "duck_store \<Rightarrow> alert_rule list" where
  "list_alert_rules s = filter alr_enabled (d_alert_rules s)"

definition insert_alert_event :: "alert_event \<Rightarrow> (duck_store, unit) db" where
  "insert_alert_event ev =
     sql_insert d_alert_events d_alert_events_update (\<lambda>new old. ale_id old = ale_id new) '''' ev"

section \<open>Facts\<close>

lemma sql_replace_apply [simp, db_simps]: "sql_replace upd key assign r s = (Inr (), upd (replace_rows key assign r) s)"
  by (simp add: sql_replace_def)

lemma frame_replace: "(\<And>g s. f (upd g s) = f s) \<Longrightarrow> frame f (sql_replace upd key assign r)"
  by (simp add: frame_def)

lemma frame_insert_ignore: "(\<And>g s. f (upd g s) = f s) \<Longrightarrow> frame f (sql_insert_ignore table upd key r)"
  by (simp add: frame_def sql_insert_ignore_def)

lemmas duck_frames [frame_intros] = frame_replace frame_insert_ignore

lemma upsert_keys:
  assumes "\<And>x. key (assign x r) = key r"
  shows "map key (replace_rows key assign r rows) = (if key r \<in> key ` set rows then map key rows else map key rows @ [key r])"
proof (cases "key r \<in> key ` set rows")
  case True
  then have "list_ex (\<lambda>x. key x = key r) rows" by (auto simp: list_ex_iff)
  moreover have "map key (update_where (\<lambda>x. key x = key r) (\<lambda>x. assign x r) rows) = map key rows"
    by (rule map_update_where) (simp add: assms)
  ultimately show ?thesis using True by (simp add: replace_rows_def)
next
  case False
  then have "\<not> list_ex (\<lambda>x. key x = key r) rows" by (auto simp: list_ex_iff) (metis imageI)
  with False show ?thesis by (simp add: replace_rows_def)
qed

lemma distinct_replace_rows:
  assumes "\<And>x. key (assign x r) = key r" and "distinct (map key rows)"
  shows "distinct (map key (replace_rows key assign r rows))"
  using assms(2) by (simp add: upsert_keys [where key = key and assign = assign, OF assms(1)])

lemma find_update_where_on:
  assumes "\<And>r. p r \<Longrightarrow> q (f r) = q r"
  shows "find q (update_where p f rows) =
    (case find q rows of None \<Rightarrow> None | Some r \<Rightarrow> Some (if p r then f r else r))"
  using assms by (induction rows) auto

lemma replace_rows_other:
  assumes "\<And>x. key (assign x r) = key r" and "key r \<noteq> a"
  shows "filter (\<lambda>x. key x = a) (replace_rows key assign r rows) = filter (\<lambda>x. key x = a) rows"
  using assms by (auto simp: replace_rows_def intro!: filter_update_where_other)

lemma find_replace_rows:
  assumes "\<And>x. key (assign x r) = key r"
  shows "find (\<lambda>x. key x = a) (replace_rows key assign r rows) =
    (if key r = a then Some (case find (\<lambda>x. key x = a) rows of None \<Rightarrow> r | Some x \<Rightarrow> assign x r)
     else find (\<lambda>x. key x = a) rows)"
proof (cases "list_ex (\<lambda>x. key x = key r) rows")
  case True
  have upd: "find (\<lambda>x. key x = a) (update_where (\<lambda>x. key x = key r) (\<lambda>x. assign x r) rows) =
      (case find (\<lambda>x. key x = a) rows of None \<Rightarrow> None | Some x \<Rightarrow> Some (if key x = key r then assign x r else x))"
    using assms by (intro find_update_where_on) simp
  show ?thesis
  proof (cases "find (\<lambda>x. key x = a) rows")
    case None
    with True have "key r \<noteq> a" by (auto simp: find_None_iff list_ex_iff)
    with True upd None show ?thesis by (simp add: replace_rows_def)
  next
    case (Some x)
    then have "key x = a" using find_SomeD by fastforce
    with True upd Some show ?thesis by (simp add: replace_rows_def)
  qed
next
  case False
  then have "key r = a \<Longrightarrow> find (\<lambda>x. key x = a) rows = None"
    by (auto simp: find_None_iff list_ex_iff)
  with False show ?thesis by (auto simp: replace_rows_def find_append split: option.splits)
qed

definition duck_keys_ok :: "duck_store \<Rightarrow> bool" where
  "duck_keys_ok s \<longleftrightarrow> distinct (map ser_id (d_sessions s)) \<and> distinct (map spr_span_id (d_spans s))"

lemma row_ids [simp]:
  "ser_id (session_to_row se) = ses_id se" "spr_span_id (span_to_row sp) = spn_span_id sp"
  "spr_session_id (span_to_row sp) = spn_session_id sp" "spr_project_id (span_to_row sp) = spn_project_id sp"
  "ser_id (set_totals rs r) = ser_id r"
  by (simp_all add: session_to_row_def span_to_row_def set_totals_def)

text \<open>What a span contributes to its session's totals.\<close>
definition span_part :: "span_row \<Rightarrow> f64 \<times> int \<times> int" where
  "span_part r = (spr_cost_usd r, spr_input_tokens r, spr_output_tokens r)"

lemma set_totals_part:
  "map span_part rs = map span_part rs' \<Longrightarrow> set_totals rs r = set_totals rs' r"
proof -
  assume eq: "map span_part rs = map span_part rs'"
  have "map fst (map span_part xs) = map spr_cost_usd xs" "map (fst \<circ> snd) (map span_part xs) = map spr_input_tokens xs"
    "map (snd \<circ> snd) (map span_part xs) = map spr_output_tokens xs" for xs
    by (simp_all add: span_part_def)
  with eq have "map spr_cost_usd rs = map spr_cost_usd rs'" "map spr_input_tokens rs = map spr_input_tokens rs'"
    "map spr_output_tokens rs = map spr_output_tokens rs'" by metis+
  then show ?thesis by (simp add: set_totals_def cost_sum_def input_sum_def output_sum_def)
qed

text \<open>The session's stored totals are the sums over its spans.\<close>
definition totals_exact :: "duck_store \<Rightarrow> session_row \<Rightarrow> bool" where
  "totals_exact s r \<longleftrightarrow> set_totals (spans_of (ser_id r) s) r = r"

lemma totals_exact_iff:
  "totals_exact s r \<longleftrightarrow>
     ser_total_cost_usd r = cost_sum (spans_of (ser_id r) s) \<and>
     ser_total_input_tokens r = input_sum (spans_of (ser_id r) s) \<and>
     ser_total_output_tokens r = output_sum (spans_of (ser_id r) s)"
  by (cases r) (auto simp: totals_exact_def set_totals_def)

lemma set_totals_idem [simp]: "set_totals rs (set_totals rs r) = set_totals rs r"
  by (simp add: set_totals_def)

text \<open>The second statement of update\_session\_aggregates changes nothing the totals read.\<close>
lemma spans_of_project_update:
  "map span_part (spans_of a (d_spans_update (\<lambda>rows. update_where p (spr_project_id_update f) rows) s)) =
   map span_part (spans_of a s)"
proof -
  have "map span_part (filter (\<lambda>r. spr_session_id r = a) (update_where p (spr_project_id_update f) rows)) =
      map span_part (filter (\<lambda>r. spr_session_id r = a) rows)" for rows
    by (induction rows) (auto simp: span_part_def)
  then show ?thesis by (simp add: spans_of_def)
qed

lemma spans_of_sessions_update [simp]: "spans_of a (d_sessions_update f s) = spans_of a s"
  by (simp add: spans_of_def)

text \<open>The span rows of a session up to their project, which is all the totals depend on.\<close>
definition parts_of :: "string \<Rightarrow> duck_store \<Rightarrow> (f64 \<times> int \<times> int) list" where
  "parts_of a s = map span_part (spans_of a s)"

lemma totals_exact_parts:
  "parts_of (ser_id r) s = parts_of (ser_id r) s' \<Longrightarrow> totals_exact s r \<longleftrightarrow> totals_exact s' r"
  unfolding totals_exact_def parts_of_def by (metis set_totals_part)

lemma update_aggregates_ok:
  assumes ok: "update_session_aggregates sid s = (Inr (), s')"
  shows "d_sessions s' = update_where (\<lambda>r. ser_id r = sid) (set_totals (spans_of sid s)) (d_sessions s)"
    and "d_spans s' = update_where (\<lambda>r. spr_session_id r = sid \<and> spr_project_id r = None)
           (spr_project_id_update (\<lambda>_. project_of sid s)) (d_spans s)"
    and "parts_of a s' = parts_of a s"
proof -
  define s1 where "s1 = d_sessions_update (\<lambda>_. update_where (\<lambda>r. ser_id r = sid) (set_totals (spans_of sid s)) (d_sessions s)) s"
  have project: "project_of sid s1 = project_of sid s"
    by (auto simp: project_of_def s1_def find_update_where set_totals_def split: option.splits)
  have s': "s' = d_spans_update (\<lambda>_. update_where (\<lambda>r. spr_session_id r = sid \<and> spr_project_id r = None)
           (spr_project_id_update (\<lambda>_. project_of sid s1)) (d_spans s1)) s1"
    using ok by (simp add: update_session_aggregates_def bind_def s1_def sql_update_def split: if_splits)
  then show "d_sessions s' = update_where (\<lambda>r. ser_id r = sid) (set_totals (spans_of sid s)) (d_sessions s)"
    and "d_spans s' = update_where (\<lambda>r. spr_session_id r = sid \<and> spr_project_id r = None)
           (spr_project_id_update (\<lambda>_. project_of sid s)) (d_spans s)"
    by (simp_all add: project [unfolded s1_def] s1_def)
  have "s' = d_spans_update (\<lambda>rows. update_where (\<lambda>r. spr_session_id r = sid \<and> spr_project_id r = None)
           (spr_project_id_update (\<lambda>_. project_of sid s1)) rows) s1"
    by (simp add: s' )
  then have "parts_of a s' = parts_of a s1" by (simp only: parts_of_def spans_of_project_update)
  then show "parts_of a s' = parts_of a s" by (simp add: parts_of_def s1_def)
qed

lemma update_aggregates_sessions:
  assumes ok: "update_session_aggregates sid s = (Inr (), s')" and r: "r' \<in> set (d_sessions s')"
  shows "if ser_id r' = sid then totals_exact s' r' else r' \<in> set (d_sessions s)"
proof -
  obtain r where r: "r \<in> set (d_sessions s)"
      "r' = (if ser_id r = sid then set_totals (spans_of sid s) r else r)"
    using r by (auto simp: update_aggregates_ok(1) [OF ok] set_update_where)
  show ?thesis
  proof (cases "ser_id r = sid")
    case True
    with r have "totals_exact s r'" by (simp add: totals_exact_def)
    then have "totals_exact s' r'"
      using totals_exact_parts [OF update_aggregates_ok(3) [OF ok, of "ser_id r'"]] by simp
    with True r show ?thesis by simp
  qed (use r in simp)
qed

lemma update_aggregates_all:
  assumes "for_each update_session_aggregates ids s = (Inr (), s')"
  shows "parts_of a s' = parts_of a s"
    and "r' \<in> set (d_sessions s') \<Longrightarrow> if ser_id r' \<in> set ids then totals_exact s' r' else r' \<in> set (d_sessions s)"
  using assms
proof (induction ids arbitrary: s a)
  case Nil
  { case 1 then show ?case by simp }
  { case 2 then show ?case by simp }
next
  case (Cons i ids)
  { case 1
    then obtain s1 where s1: "update_session_aggregates i s = (Inr (), s1)"
        "for_each update_session_aggregates ids s1 = (Inr (), s')"
      by (auto dest!: bind_InrD)
    show ?case using Cons.IH(1) [OF s1(2)] update_aggregates_ok(3) [OF s1(1)] by simp }
  { case 2
    from 2(2) obtain s1 where s1: "update_session_aggregates i s = (Inr (), s1)"
        "for_each update_session_aggregates ids s1 = (Inr (), s')"
      by (auto dest!: bind_InrD)
    have later: "if ser_id r' \<in> set ids then totals_exact s' r' else r' \<in> set (d_sessions s1)"
      by (rule Cons.IH(2) [OF 2(1) s1(2)])
    show ?case
    proof (cases "ser_id r' \<in> set ids")
      case True then show ?thesis using later by simp
    next
      case False
      with later have r': "r' \<in> set (d_sessions s1)" by simp
      have "if ser_id r' = i then totals_exact s1 r' else r' \<in> set (d_sessions s)"
        by (rule update_aggregates_sessions [OF s1(1) r'])
      moreover have "totals_exact s1 r' = totals_exact s' r'"
        by (rule totals_exact_parts) (rule Cons.IH(1) [OF s1(2), symmetric])
      ultimately show ?thesis using False by (auto split: if_splits)
    qed }
qed

text \<open>No span of the batch has the id of a stored span, or of another span of the batch, of a different session.\<close>
definition stable_spans :: "span list \<Rightarrow> duck_store \<Rightarrow> bool" where
  "stable_spans spans s \<longleftrightarrow>
     (\<forall>sp \<in> set spans. (\<forall>r \<in> set (d_spans s). spr_span_id r = spn_span_id sp \<longrightarrow> spr_session_id r = spn_session_id sp) \<and>
        (\<forall>sp' \<in> set spans. spn_span_id sp' = spn_span_id sp \<longrightarrow> spn_session_id sp' = spn_session_id sp))"

lemma insert_span_other:
  assumes "\<forall>r \<in> set (d_spans s). spr_span_id r = spn_span_id sp \<longrightarrow> spr_session_id r = spn_session_id sp"
    and "spn_session_id sp \<noteq> a"
  shows "spans_of a (snd (insert_span sp s)) = spans_of a s"
proof (cases "list_ex (\<lambda>x. spr_span_id x = spn_span_id sp) (d_spans s)")
  case True
  have "filter (\<lambda>r. spr_session_id r = a)
      (update_where (\<lambda>x. spr_span_id x = spn_span_id sp) (\<lambda>x. (span_to_row sp)\<lparr>spr_synced := spr_synced x\<rparr>) (d_spans s)) =
      filter (\<lambda>r. spr_session_id r = a) (d_spans s)"
    using assms by (intro filter_update_where_other) (simp add: span_to_row_def)
  with True show ?thesis by (simp add: insert_span_def spans_of_def replace_rows_def)
next
  case False
  with assms(2) show ?thesis by (simp add: insert_span_def spans_of_def replace_rows_def)
qed

lemma insert_span_sessions [simp]: "d_sessions (snd (insert_span sp s)) = d_sessions s"
  by (simp add: insert_span_def)

lemma insert_span_rows:
  "set (d_spans (snd (insert_span sp s))) \<subseteq>
     set (d_spans s) \<union> {r. spr_span_id r = spn_span_id sp \<and> spr_session_id r = spn_session_id sp}"
  by (auto simp: insert_span_def replace_rows_def set_update_where)

lemma stable_insert_span:
  assumes "stable_spans (sp # spans) s"
  shows "stable_spans spans (snd (insert_span sp s))"
proof -
  have stored: "\<forall>sp' \<in> set (sp # spans). \<forall>r \<in> set (d_spans s).
      spr_span_id r = spn_span_id sp' \<longrightarrow> spr_session_id r = spn_session_id sp'"
    and batch: "\<forall>sp1 \<in> set (sp # spans). \<forall>sp2 \<in> set (sp # spans).
      spn_span_id sp2 = spn_span_id sp1 \<longrightarrow> spn_session_id sp2 = spn_session_id sp1"
    using assms unfolding stable_spans_def by blast+
  have "spr_session_id r = spn_session_id sp'"
    if sp': "sp' \<in> set spans" and r: "r \<in> set (d_spans (snd (insert_span sp s)))"
      and eq: "spr_span_id r = spn_span_id sp'" for r sp'
  proof (cases "r \<in> set (d_spans s)")
    case True
    with sp' eq stored show ?thesis by simp
  next
    case False
    with r insert_span_rows [of sp s] have "spr_span_id r = spn_span_id sp" "spr_session_id r = spn_session_id sp" by auto
    moreover have "spn_span_id sp = spn_span_id sp' \<Longrightarrow> spn_session_id sp = spn_session_id sp'"
      using batch sp' by (meson list.set_intros)
    ultimately show ?thesis using eq by simp
  qed
  then have "\<forall>sp' \<in> set spans. \<forall>r \<in> set (d_spans (snd (insert_span sp s))).
      spr_span_id r = spn_span_id sp' \<longrightarrow> spr_session_id r = spn_session_id sp'" by blast
  moreover have "\<forall>sp1 \<in> set spans. \<forall>sp2 \<in> set spans.
      spn_span_id sp2 = spn_span_id sp1 \<longrightarrow> spn_session_id sp2 = spn_session_id sp1"
    using batch by (meson list.set_intros(2))
  ultimately show ?thesis unfolding stable_spans_def by blast
qed

lemma for_each_insert_span:
  "for_each insert_span (sp # spans) s = for_each insert_span spans (snd (insert_span sp s))"
  by (simp add: insert_span_def bind_def)

lemma insert_all_spans:
  assumes "stable_spans spans s"
  shows "\<exists>s'. for_each insert_span spans s = (Inr (), s') \<and> d_sessions s' = d_sessions s \<and>
    (\<forall>a. a \<notin> spn_session_id ` set spans \<longrightarrow> spans_of a s' = spans_of a s)"
  using assms
proof (induction spans arbitrary: s)
  case (Cons sp spans)
  let ?s = "snd (insert_span sp s)"
  obtain s' where s': "for_each insert_span spans ?s = (Inr (), s')" "d_sessions s' = d_sessions ?s"
      "\<forall>a. a \<notin> spn_session_id ` set spans \<longrightarrow> spans_of a s' = spans_of a ?s"
    using Cons.IH [OF stable_insert_span [OF Cons.prems]] by auto
  have "spans_of a ?s = spans_of a s" if "spn_session_id sp \<noteq> a" for a
    using Cons.prems that by (intro insert_span_other) (simp_all add: stable_spans_def)
  moreover have "for_each insert_span (sp # spans) s = (Inr (), s')"
    using s'(1) by (simp only: for_each_insert_span)
  ultimately show ?case using s'(2,3) by auto
qed simp

section \<open>Groups\<close>

text \<open>A sum over the rows is the sum of the sums over the groups.\<close>
lemma group_by_sum:
  fixes f :: "'r \<Rightarrow> 'n::comm_monoid_add"
  shows "sum_list (map (\<lambda>g. sum_list (map f (snd g))) (group_by k rows)) = sum_list (map f rows)"
proof -
  have split: "sum_list (map (\<lambda>x. sum_list (map f (filter (\<lambda>r. k r = x) rows))) ks) = sum_list (map f rows)"
    if "distinct ks" "k ` set rows \<subseteq> set ks" for ks
    using that(2)
  proof (induction rows)
    case (Cons r rows)
    have one: "sum_list (map (\<lambda>x. if k r = x then f r else 0) xs) = (if k r \<in> set xs then f r else 0)" if "distinct xs" for xs
      using that by (induction xs) auto
    have "sum_list (map (\<lambda>x. sum_list (map f (filter (\<lambda>y. k y = x) (r # rows)))) ks) =
        sum_list (map (\<lambda>x. (if k r = x then f r else 0) + sum_list (map f (filter (\<lambda>y. k y = x) rows))) ks)"
      by (rule arg_cong [where f = sum_list]) (rule map_cong [OF refl], simp)
    also have "\<dots> = sum_list (map (\<lambda>x. if k r = x then f r else 0) ks) +
        sum_list (map (\<lambda>x. sum_list (map f (filter (\<lambda>y. k y = x) rows))) ks)"
      by (rule sum_list_addf)
    also have "\<dots> = f r + sum_list (map f rows)"
      using Cons.IH Cons.prems one [OF \<open>distinct ks\<close>] by simp
    finally show ?case by simp
  qed simp
  have "sum_list (map (\<lambda>g. sum_list (map f (snd g))) (group_by k rows)) =
      sum_list (map (\<lambda>x. sum_list (map f (filter (\<lambda>r. k r = x) rows))) (rev (remdups (rev (map k rows)))))"
    by (simp add: group_by_def comp_def)
  also have "\<dots> = sum_list (map f rows)" by (rule split) simp_all
  finally show ?thesis .
qed

lemma sum_list_order_desc [simp]:
  fixes f :: "'r \<Rightarrow> 'n::comm_monoid_add"
  shows "sum_list (map f (order_desc k rows)) = sum_list (map f rows)"
proof -
  have "mset (order_desc k rows) = mset rows" by (simp add: order_desc_def)
  then have "mset (map f (order_desc k rows)) = mset (map f rows)" by simp
  then show ?thesis by (metis sum_mset_sum_list)
qed

lemma sum_list_order_asc [simp]:
  fixes f :: "'r \<Rightarrow> 'n::comm_monoid_add"
  shows "sum_list (map f (order_asc k rows)) = sum_list (map f rows)"
proof -
  have "mset (order_asc k rows) = mset rows" by (simp add: order_asc_def)
  then have "mset (map f (order_asc k rows)) = mset (map f rows)" by simp
  then show ?thesis by (metis sum_mset_sum_list)
qed

lemma sessions_by_cost: "sum_list (map (\<lambda>g. session_cost (snd g)) (sessions_by k rs)) = session_cost rs"
  using group_by_sum [of ser_total_cost_usd k rs]
  by (simp add: sessions_by_def session_cost_def [abs_def])

lemma sessions_by_count: "sum_list (map (\<lambda>g. length (snd g)) (sessions_by k rs)) = length rs"
proof -
  have "sum_list (map (\<lambda>g. length (snd g)) (group_by k rs)) = length rs"
    using group_by_sum [of "\<lambda>_. 1 :: nat" k rs] by (simp add: sum_list_triv)
  then show ?thesis by (simp add: sessions_by_def)
qed

section \<open>Round trips of rows\<close>

lemma span_row_roundtrip: "row_to_span (span_to_row sp) = sp"
proof -
  have "span_type_from_str (span_type_as_str ty) = ty" for ty
    by (cases ty) (simp_all add: span_type_from_str_def)
  then show ?thesis
    by (cases "spn_status sp") (simp_all add: row_to_span_def span_to_row_def)
qed

lemma session_row_roundtrip: "row_to_session (session_to_row se) = se"
proof -
  have "session_status_from_str (session_status_as_str st) = Some st" for st
    by (cases st) (simp_all add: session_status_from_str_def)
  moreover have "created_by_from_str (created_by_as_str c) = Some c" for c
    by (cases c) (simp_all add: created_by_from_str_def)
  ultimately show ?thesis by (simp add: row_to_session_def session_to_row_def)
qed

text \<open>The answers of the span listing add up to the column sums.\<close>
lemma query_spans_sums:
  "sum_list (map spn_cost_usd (query_spans sid s)) = cost_sum (spans_of sid s)"
  "sum_list (map spn_input_tokens (query_spans sid s)) = word_of_int (input_sum (spans_of sid s))"
  "sum_list (map spn_output_tokens (query_spans sid s)) = word_of_int (output_sum (spans_of sid s))"
proof -
  have words: "(\<Sum>x\<leftarrow>xs. word_of_int (f x)) = (word_of_int (\<Sum>x\<leftarrow>xs. f x) :: u64)" for f :: "span_row \<Rightarrow> int" and xs
    by (induction xs) simp_all
  show "sum_list (map spn_cost_usd (query_spans sid s)) = cost_sum (spans_of sid s)"
    by (simp add: query_spans_def cost_sum_def comp_def row_to_span_def)
  show "sum_list (map spn_input_tokens (query_spans sid s)) = word_of_int (input_sum (spans_of sid s))"
    "sum_list (map spn_output_tokens (query_spans sid s)) = word_of_int (output_sum (spans_of sid s))"
    by (simp_all add: query_spans_def input_sum_def output_sum_def comp_def row_to_span_def words)
qed

end
