(* ===== verification/Event_Bus.thy ===== *)
theory Event_Bus
  imports Store_Telemetry
begin

text \<open>
  The session event bus behind the SSE streams (gctrl-otel/src/event\_bus.rs and the stream handlers of receiver.rs): ids from
  an atomic counter, a bounded replay ring, and tokio's broadcast channel, of which \<^verbatim>\<open>eb_sent\<close> is the history (a receiver is a
  position in it and lags once more than the channel's capacity follows that position). publish takes three steps, of which
  only the middle one holds the ring's lock; \<^verbatim>\<open>bus_step\<close> interleaves the steps of several publishers.
\<close>

section \<open>Model\<close>

datatype session_event =
    Session_Started string string timestamp
  | Session_Span string string "string option" string string "string option" f64 u64 string timestamp
  | Session_StatusChanged string string timestamp
  | Session_Ended string string timestamp

fun event_name :: "session_event \<Rightarrow> string" where
  "event_name (Session_Started sid agent t) = ''session.started''"
| "event_name (Session_Span sid sp parent ty oper model cost dur st t) = ''session.span''"
| "event_name (Session_StatusChanged sid st t) = ''session.status_changed''"
| "event_name (Session_Ended sid st t) = ''session.ended''"

fun event_session :: "session_event \<Rightarrow> string" where
  "event_session (Session_Started sid agent t) = sid"
| "event_session (Session_Span sid sp parent ty oper model cost dur st t) = sid"
| "event_session (Session_StatusChanged sid st t) = sid"
| "event_session (Session_Ended sid st t) = sid"

type_synonym bus_entry = "u64 \<times> session_event"

datatype replay_result = Replay_Events "bus_entry list" | Replay_Gap | Replay_Caught

record event_bus =
  eb_next_id :: u64
  eb_ring :: "bus_entry list"
  eb_ring_capacity :: nat
  eb_channel_capacity :: nat
  eb_sent :: "bus_entry list"

definition DEFAULT_CHANNEL_CAPACITY :: nat where "DEFAULT_CHANNEL_CAPACITY = 256"
definition DEFAULT_RING_CAPACITY :: nat where "DEFAULT_RING_CAPACITY = 1024"

definition bus_new :: "nat \<Rightarrow> nat \<Rightarrow> event_bus" where
  "bus_new channel ring =
     \<lparr>eb_next_id = 1, eb_ring = [], eb_ring_capacity = ring, eb_channel_capacity = channel, eb_sent = []\<rparr>"

definition default_capacity :: event_bus where
  "default_capacity = bus_new DEFAULT_CHANNEL_CAPACITY DEFAULT_RING_CAPACITY"

text \<open>The three steps of publish: fetch\_add, the locked push, the broadcast.\<close>

definition bus_take :: "event_bus \<Rightarrow> u64 \<times> event_bus" where
  "bus_take b = (eb_next_id b, b\<lparr>eb_next_id := eb_next_id b + 1\<rparr>)"

definition bus_push :: "bus_entry \<Rightarrow> event_bus \<Rightarrow> event_bus" where
  "bus_push en b =
     b\<lparr>eb_ring := (if eb_ring_capacity b \<le> length (eb_ring b) then tl (eb_ring b) else eb_ring b) @ [en]\<rparr>"

definition bus_send :: "bus_entry \<Rightarrow> event_bus \<Rightarrow> event_bus" where
  "bus_send en b = b\<lparr>eb_sent := eb_sent b @ [en]\<rparr>"

definition publish :: "session_event \<Rightarrow> event_bus \<Rightarrow> u64 \<times> event_bus" where
  "publish ev b = (let (i, b1) = bus_take b in (i, bus_send (i, ev) (bus_push (i, ev) b1)))"

definition replay_after :: "u64 \<Rightarrow> event_bus \<Rightarrow> replay_result" where
  "replay_after last_id b =
     (case eb_ring b of
        [] \<Rightarrow> Replay_Caught
      | (earliest, _) # _ \<Rightarrow>
          if last_id + 1 < earliest then Replay_Gap
          else (let events = filter (\<lambda>(i, _). last_id < i) (eb_ring b)
                in if events = [] then Replay_Caught else Replay_Events events))"

section \<open>Streams (receiver.rs)\<close>

definition parse_last_event_id :: "string option \<Rightarrow> string option \<Rightarrow> u64 option" where
  "parse_last_event_id header q =
     (case (case header of Some h \<Rightarrow> Some h | None \<Rightarrow> q) of
        None \<Rightarrow> None
      | Some s \<Rightarrow> map_option of_nat (parse_uint 64 (trim s)))"

datatype sse_frame = Sse_Event u64 session_event | Sse_Gap

record sse_stream =
  sse_session :: "string option"
  sse_pos :: nat
  sse_frames :: "sse_frame list"
  sse_open :: bool

definition sse_wants :: "sse_stream \<Rightarrow> bus_entry \<Rightarrow> bool" where
  "sse_wants c en = (case sse_session c of None \<Rightarrow> True | Some s \<Rightarrow> event_session (snd en) = s)"

definition frames_of :: "sse_stream \<Rightarrow> bus_entry list \<Rightarrow> sse_frame list" where
  "frames_of c ens = map (\<lambda>(i, ev). Sse_Event i ev) (filter (sse_wants c) ens)"

text \<open>The handler subscribes; the body, polled later, replays first.\<close>
definition sse_connect :: "string option \<Rightarrow> event_bus \<Rightarrow> sse_stream" where
  "sse_connect session b = \<lparr>sse_session = session, sse_pos = length (eb_sent b), sse_frames = [], sse_open = True\<rparr>"

definition sse_replay :: "u64 option \<Rightarrow> event_bus \<Rightarrow> sse_stream \<Rightarrow> sse_stream" where
  "sse_replay last_id b c =
     (case last_id of
        None \<Rightarrow> c
      | Some l \<Rightarrow>
          (case replay_after l b of
             Replay_Events ens \<Rightarrow> c\<lparr>sse_frames := sse_frames c @ frames_of c ens\<rparr>
           | Replay_Gap \<Rightarrow> c\<lparr>sse_frames := sse_frames c @ [Sse_Gap]\<rparr>
           | Replay_Caught \<Rightarrow> c))"

text \<open>One turn of the tail loop: a receiver that fell behind the channel closes the stream.\<close>
definition sse_poll :: "event_bus \<Rightarrow> sse_stream \<Rightarrow> sse_stream" where
  "sse_poll b c =
     (if \<not> sse_open c \<or> length (eb_sent b) \<le> sse_pos c then c
      else if sse_pos c + eb_channel_capacity b < length (eb_sent b) then c\<lparr>sse_open := False\<rparr>
      else c\<lparr>sse_pos := sse_pos c + 1, sse_frames := sse_frames c @ frames_of c [eb_sent b ! sse_pos c]\<rparr>)"

section \<open>Interleaved publishers\<close>

record bus_sys =
  bs_bus :: event_bus
  bs_taken :: "bus_entry list"
  bs_pushed :: "bus_entry list"

inductive bus_step :: "bus_sys \<Rightarrow> bus_sys \<Rightarrow> bool" where
  take_id: "bus_take (bs_bus y) = (i, b) \<Longrightarrow> bus_step y (y\<lparr>bs_bus := b, bs_taken := bs_taken y @ [(i, ev)]\<rparr>)"
| push_ring: "en \<in> set (bs_taken y) \<Longrightarrow>
    bus_step y (y\<lparr>bs_bus := bus_push en (bs_bus y), bs_taken := remove1 en (bs_taken y), bs_pushed := bs_pushed y @ [en]\<rparr>)"
| send_entry: "en \<in> set (bs_pushed y) \<Longrightarrow>
    bus_step y (y\<lparr>bs_bus := bus_send en (bs_bus y), bs_pushed := remove1 en (bs_pushed y)\<rparr>)"

inductive bus_reach :: "event_bus \<Rightarrow> bus_sys \<Rightarrow> bool" where
  bus_start: "bus_reach b \<lparr>bs_bus = b, bs_taken = [], bs_pushed = []\<rparr>"
| bus_next: "bus_reach b y \<Longrightarrow> bus_step y z \<Longrightarrow> bus_reach b z"

section \<open>One publisher at a time\<close>

definition publish_all :: "session_event list \<Rightarrow> event_bus \<Rightarrow> event_bus" where
  "publish_all evs b = foldl (\<lambda>b ev. snd (publish ev b)) b evs"

text \<open>The entries of a history of events, numbered from 1.\<close>
definition entries :: "session_event list \<Rightarrow> bus_entry list" where
  "entries evs = map (\<lambda>k. (of_nat (Suc k), evs ! k)) [0..<length evs]"

lemma publish_simps:
  "fst (publish ev b) = eb_next_id b"
  "eb_next_id (snd (publish ev b)) = eb_next_id b + 1"
  "eb_sent (snd (publish ev b)) = eb_sent b @ [(eb_next_id b, ev)]"
  "eb_ring_capacity (snd (publish ev b)) = eb_ring_capacity b"
  "eb_channel_capacity (snd (publish ev b)) = eb_channel_capacity b"
  "eb_ring (snd (publish ev b)) =
     (if eb_ring_capacity b \<le> length (eb_ring b) then tl (eb_ring b) else eb_ring b) @ [(eb_next_id b, ev)]"
  by (simp_all add: publish_def bus_take_def bus_push_def bus_send_def)

lemma entries_snoc: "entries (evs @ [ev]) = entries evs @ [(of_nat (Suc (length evs)), ev)]"
  by (simp add: entries_def nth_append)

lemma length_entries [simp]: "length (entries evs) = length evs"
  by (simp add: entries_def)

text \<open>After n events the ring holds the last min n capacity entries, the channel all of them.\<close>
lemma publish_all_bus:
  assumes "0 < ring"
  shows "eb_next_id (publish_all evs (bus_new channel ring)) = of_nat (Suc (length evs)) \<and>
    eb_sent (publish_all evs (bus_new channel ring)) = entries evs \<and>
    eb_ring_capacity (publish_all evs (bus_new channel ring)) = ring \<and>
    eb_ring (publish_all evs (bus_new channel ring)) = drop (length evs - ring) (entries evs)"
proof (induction evs rule: rev_induct)
  case Nil
  show ?case by (simp add: publish_all_def bus_new_def entries_def)
next
  case (snoc ev evs)
  let ?b = "publish_all evs (bus_new channel ring)"
  have step: "publish_all (evs @ [ev]) (bus_new channel ring) = snd (publish ev ?b)" by (simp add: publish_all_def)
  have ring: "eb_ring ?b = drop (length evs - ring) (entries evs)" "eb_ring_capacity ?b = ring"
    using snoc by simp_all
  have "eb_ring (snd (publish ev ?b)) = drop (Suc (length evs) - ring) (entries (evs @ [ev]))"
  proof (cases "ring \<le> length evs")
    case True
    with ring assms have "eb_ring_capacity ?b \<le> length (eb_ring ?b)" by simp
    moreover have "tl (eb_ring ?b) = drop (Suc (length evs) - ring) (entries evs)"
      using True by (simp add: ring drop_Suc tl_drop Suc_diff_le)
    moreover have "eb_next_id ?b = of_nat (Suc (length evs))" using snoc by simp
    ultimately show ?thesis using assms True by (simp add: publish_simps entries_snoc)
  next
    case False
    with ring have "\<not> eb_ring_capacity ?b \<le> length (eb_ring ?b)" by simp
    moreover have "eb_next_id ?b = of_nat (Suc (length evs))" using snoc by simp
    ultimately show ?thesis using False by (simp add: publish_simps entries_snoc ring)
  qed
  with snoc step show ?case by (simp add: publish_simps entries_snoc)
qed

lemma unat_of_nat64: "n < 2 ^ 64 \<Longrightarrow> unat (of_nat n :: u64) = n"
  by (simp add: unat_of_nat)

text \<open>The ids of a history are its positions, so a filter on them cuts the list.\<close>
lemma entries_after:
  assumes "length evs < 2 ^ 64" and "l < 2 ^ 64"
  shows "filter (\<lambda>(i, _). of_nat l < i) (drop k (entries evs)) = drop (max k l) (entries evs)"
proof -
  have less: "(of_nat l :: u64) < of_nat (Suc j) \<longleftrightarrow> l \<le> j" if "j < length evs" for j
  proof -
    have "unat (of_nat (Suc j) :: u64) = Suc j" "unat (of_nat l :: u64) = l"
      using that assms by (simp_all only: unat_of_nat64)
    then show ?thesis by (simp only: word_less_nat_alt less_Suc_eq_le)
  qed
  have cut: "filter (\<lambda>j. l \<le> j) [a..<b] = [max a l..<b]" for a b
    by (induction b) (auto simp: max_def)
  have "drop k (entries evs) = map (\<lambda>j. (of_nat (Suc j), evs ! j)) [k..<length evs]"
    by (simp add: entries_def drop_map)
  then have "filter (\<lambda>(i, _). of_nat l < i) (drop k (entries evs)) =
      map (\<lambda>j. (of_nat (Suc j), evs ! j)) (filter (\<lambda>j. (of_nat l :: u64) < of_nat (Suc j)) [k..<length evs])"
    by (simp add: filter_map comp_def split_def)
  also have "filter (\<lambda>j. (of_nat l :: u64) < of_nat (Suc j)) [k..<length evs] = filter (\<lambda>j. l \<le> j) [k..<length evs]"
    using less by (intro filter_cong) simp_all
  also have "map (\<lambda>j. (of_nat (Suc j), evs ! j)) (filter (\<lambda>j. l \<le> j) [k..<length evs]) = drop (max k l) (entries evs)"
    by (simp add: cut entries_def drop_map)
  finally show ?thesis .
qed

text \<open>What replay\_after answers once a history of fewer than 2^64 - 1 events is published.\<close>
lemma replay_after_history:
  assumes "0 < ring" and "length evs < 2 ^ 64 - 1" and "l < 2 ^ 64 - 1"
  shows "replay_after (of_nat l) (publish_all evs (bus_new channel ring)) =
    (if evs \<noteq> [] \<and> l + ring < length evs then Replay_Gap
     else if length evs \<le> l then Replay_Caught
     else Replay_Events (drop l (entries evs)))"
proof (cases evs)
  case Nil
  then show ?thesis using publish_all_bus [OF assms(1), of evs channel] by (simp add: replay_after_def entries_def)
next
  case (Cons ev rest)
  let ?k = "length evs - ring"
  have ring: "eb_ring (publish_all evs (bus_new channel ring)) = drop ?k (entries evs)"
    using publish_all_bus [OF assms(1), of evs channel] by simp
  have k: "?k < length evs" using Cons assms(1) by simp
  have front: "drop ?k (entries evs) = (of_nat (Suc ?k), evs ! ?k) # drop (Suc ?k) (entries evs)"
    using k by (simp add: Cons_nth_drop_Suc [symmetric] entries_def)
  have gap: "(of_nat l :: u64) + 1 < of_nat (Suc ?k) \<longleftrightarrow> l + ring < length evs"
  proof -
    have "(of_nat l :: u64) + 1 = of_nat (Suc l)" by simp
    moreover have "unat (of_nat (Suc l) :: u64) = Suc l" "unat (of_nat (Suc ?k) :: u64) = Suc ?k"
      using assms(2,3) k by (simp_all only: unat_of_nat64)
    ultimately show ?thesis by (simp only: word_less_nat_alt) auto
  qed
  have rest: "filter (\<lambda>(i, _). of_nat l < i) (drop ?k (entries evs)) = drop (max ?k l) (entries evs)"
    using assms(2,3) by (intro entries_after) simp_all
  have "replay_after (of_nat l) (publish_all evs (bus_new channel ring)) =
      (if l + ring < length evs then Replay_Gap
       else if drop (max ?k l) (entries evs) = [] then Replay_Caught else Replay_Events (drop (max ?k l) (entries evs)))"
    by (simp only: replay_after_def ring front list.case prod.case gap) (simp only: front [symmetric] rest Let_def)
  then show ?thesis using Cons k by (auto simp: max_def)
qed

section \<open>Reconnecting clients\<close>

lemma frames_of_cong:
  assumes "sse_session c = sse_session c'"
  shows "frames_of c = frames_of c'"
proof -
  have "sse_wants c = sse_wants c'" by (rule ext) (simp add: sse_wants_def assms)
  show ?thesis by (rule ext) (simp only: frames_of_def \<open>sse_wants c = sse_wants c'\<close>)
qed

lemma sse_poll_many:
  assumes "sse_open c" and "length (eb_sent b) \<le> sse_pos c + eb_channel_capacity b" and "sse_pos c + j \<le> length (eb_sent b)"
  shows "(sse_poll b ^^ j) c =
    c\<lparr>sse_pos := sse_pos c + j, sse_frames := sse_frames c @ frames_of c (take j (drop (sse_pos c) (eb_sent b)))\<rparr>"
  using assms(3)
proof (induction j)
  case 0
  then show ?case by (simp add: frames_of_def)
next
  case (Suc j)
  let ?c = "(sse_poll b ^^ j) c"
  have c: "?c = c\<lparr>sse_pos := sse_pos c + j, sse_frames := sse_frames c @ frames_of c (take j (drop (sse_pos c) (eb_sent b)))\<rparr>"
    using Suc by simp
  let ?d = "c\<lparr>sse_pos := sse_pos c + j, sse_frames := sse_frames c @ frames_of c (take j (drop (sse_pos c) (eb_sent b)))\<rparr>"
  have frames: "frames_of ?d = frames_of c" by (rule frames_of_cong) simp
  have take: "take (Suc j) (drop (sse_pos c) (eb_sent b)) = take j (drop (sse_pos c) (eb_sent b)) @ [eb_sent b ! (sse_pos c + j)]"
    using Suc.prems by (simp add: take_Suc_conv_app_nth)
  show ?case
  proof -
    have "(sse_poll b ^^ Suc j) c = sse_poll b ?d" by (simp add: c)
    also have "\<dots> = ?d\<lparr>sse_pos := Suc (sse_pos c + j), sse_frames := sse_frames ?d @ frames_of c [eb_sent b ! (sse_pos c + j)]\<rparr>"
      using Suc.prems assms(1,2) by (simp add: sse_poll_def frames)
    finally show ?thesis by (simp add: take) (simp add: frames_of_def)
  qed
qed

lemma sse_replay_simps:
  "sse_pos (sse_replay l b c) = sse_pos c" "sse_open (sse_replay l b c) = sse_open c"
  "sse_session (sse_replay l b c) = sse_session c"
  by (auto simp: sse_replay_def split: option.splits replay_result.splits)

text \<open>What happens after the replay: events are published, the body is polled.\<close>
datatype tail_act = Tail_Publish session_event | Tail_Poll

fun tail_step :: "tail_act \<Rightarrow> event_bus \<times> sse_stream \<Rightarrow> event_bus \<times> sse_stream" where
  "tail_step (Tail_Publish ev) (b, c) = (snd (publish ev b), c)"
| "tail_step Tail_Poll (b, c) = (b, sse_poll b c)"

fun published :: "tail_act list \<Rightarrow> session_event list" where
  "published [] = []"
| "published (Tail_Publish ev # acts) = ev # published acts"
| "published (Tail_Poll # acts) = published acts"

lemma published_append: "published (acts @ acts') = published acts @ published acts'"
  by (induction acts rule: published.induct) simp_all

lemma publish_all_caps: "eb_channel_capacity (publish_all es b) = eb_channel_capacity b"
  by (induction es arbitrary: b) (simp_all add: publish_all_def publish_simps)

text \<open>Whatever is published and polled, the stream has sent the history from its subscription up to its position, without a hole;
  it is closed only when it has fallen behind the channel.\<close>
lemma tail_run:
  assumes "0 < ring" and "sse_open c1" and "sse_pos c1 \<le> length es"
    and "fold tail_step acts (publish_all es (bus_new channel ring), c1) = (b, c)"
  shows "b = publish_all (es @ published acts) (bus_new channel ring) \<and> sse_session c = sse_session c1 \<and>
    sse_pos c1 \<le> sse_pos c \<and> sse_pos c \<le> length (es @ published acts) \<and>
    sse_frames c = sse_frames c1 @
      frames_of c1 (take (sse_pos c - sse_pos c1) (drop (sse_pos c1) (entries (es @ published acts)))) \<and>
    (sse_open c \<or> sse_pos c + channel < length (es @ published acts))"
  using assms(4)
proof (induction acts arbitrary: b c rule: rev_induct)
  case Nil
  then show ?case using assms(2,3) by (auto simp: frames_of_def)
next
  case (snoc a acts)
  obtain b0 c0 where run: "fold tail_step acts (publish_all es (bus_new channel ring), c1) = (b0, c0)" by fastforce
  note ih = snoc.IH [OF run]
  let ?evs = "es @ published acts"
  have sent: "eb_sent b0 = entries ?evs" "eb_channel_capacity b0 = channel"
    using ih publish_all_bus [OF assms(1), of ?evs channel] by (simp_all add: publish_all_caps bus_new_def)
  have step: "tail_step a (b0, c0) = (b, c)" using snoc.prems run by simp
  show ?case
  proof (cases a)
    case (Tail_Publish ev)
    then have "b = publish_all (?evs @ [ev]) (bus_new channel ring)" "c = c0" using step ih by (auto simp: publish_all_def)
    then show ?thesis using ih Tail_Publish
      by (auto simp: published_append entries_snoc [of ?evs, simplified])
  next
    case Tail_Poll
    then have bc: "b = b0" "c = sse_poll b0 c0" using step by auto
    show ?thesis
    proof (cases "\<not> sse_open c0 \<or> length ?evs \<le> sse_pos c0 \<or> sse_pos c0 + channel < length ?evs")
      case True
      then have "c = c0 \<or> c = c0\<lparr>sse_open := False\<rparr> \<and> sse_pos c0 + channel < length ?evs"
        using bc sent by (auto simp: sse_poll_def)
      then show ?thesis using ih bc Tail_Poll by (auto simp: published_append)
    next
      case False
      then have c: "c = c0\<lparr>sse_pos := sse_pos c0 + 1, sse_frames := sse_frames c0 @ frames_of c0 [entries ?evs ! sse_pos c0]\<rparr>"
        using bc sent by (simp add: sse_poll_def)
      let ?k = "sse_pos c0 - sse_pos c1"
      have "frames_of c0 = frames_of c1" by (rule frames_of_cong) (use ih in simp)
      moreover have "take (Suc ?k) (drop (sse_pos c1) (entries ?evs)) =
          take ?k (drop (sse_pos c1) (entries ?evs)) @ [entries ?evs ! sse_pos c0]"
      proof -
        have "?k < length (drop (sse_pos c1) (entries ?evs))" "sse_pos c1 + ?k = sse_pos c0" using ih False by auto
        then show ?thesis using take_Suc_conv_app_nth [of ?k "drop (sse_pos c1) (entries ?evs)"] by simp
      qed
      moreover have "frames_of c1 (xs @ ys) = frames_of c1 xs @ frames_of c1 ys" for xs ys by (simp add: frames_of_def)
      moreover have "sse_pos c - sse_pos c1 = Suc ?k"
      proof -
        have "sse_pos c = Suc (sse_pos c0)" by (simp add: c)
        then show ?thesis using ih by linarith
      qed
      ultimately show ?thesis using ih False bc(1) c Tail_Poll by (simp add: published_append)
    qed
  qed
qed

lemma replay_frames:
  assumes "0 < ring" and "length es < 2 ^ 64 - 1" and "l < 2 ^ 64 - 1" and "sse_frames c = []"
  shows "sse_frames (sse_replay (Some (of_nat l)) (publish_all es (bus_new channel ring)) c) =
    (if l + ring < length es then [Sse_Gap] else frames_of c (drop l (entries es)))"
proof -
  note replay = replay_after_history [OF assms(1-3), of channel]
  consider "l + ring < length es" | "\<not> l + ring < length es" "length es \<le> l" | "\<not> l + ring < length es" "l < length es" by linarith
  then show ?thesis
  proof cases
    case 1
    moreover from this have "es \<noteq> []" by auto
    ultimately show ?thesis using replay assms(4) by (simp add: sse_replay_def)
  next
    case 2
    then show ?thesis using replay assms(4) by (simp add: sse_replay_def frames_of_def)
  next
    case 3
    then show ?thesis using replay assms(4) by (simp add: sse_replay_def)
  qed
qed

text \<open>C27: 
  A client reconnects with l, the id of the last event it saw, after the events es1; es2 are published before its body replays,
  and then events are published, one publisher at a time, and the body is polled in any order. What the client has been sent is
  the replay (every event after l, or a gap notice when the ring has dropped one of them) followed by the live events from its
  subscription up to its position, without a hole: the events of es2 twice, so each later event at least once and not in order of
  ids. A receiver that falls behind by more than the channel has its stream closed, never thinned out; otherwise polling to the
  end sends all the rest.
\<close>
theorem reconnect_delivers:
  assumes "0 < ring" and "length es < 2 ^ 64 - 1" and "l \<le> length es1" and "es = es1 @ es2 @ published acts"
    and "b1 = publish_all es1 (bus_new channel ring)" and "b2 = publish_all (es1 @ es2) (bus_new channel ring)"
    and "(b3, c) = fold tail_step acts (b2, sse_replay (Some (of_nat l)) b2 (sse_connect session b1))"
    and "replayed = (if l + ring < length (es1 @ es2) then [Sse_Gap] else frames_of c (drop l (entries (es1 @ es2))))"
  shows "length es1 \<le> sse_pos c \<and> sse_pos c \<le> length es \<and>
    sse_frames c = replayed @ frames_of c (take (sse_pos c - length es1) (drop (length es1) (entries es))) \<and>
    (sse_open c \<or> sse_pos c + channel < length es) \<and>
    (sse_open c \<and> length es \<le> sse_pos c + channel \<longrightarrow>
      sse_open ((sse_poll b3 ^^ (length es - sse_pos c)) c) \<and>
      sse_frames ((sse_poll b3 ^^ (length es - sse_pos c)) c) = replayed @ frames_of c (drop (length es1) (entries es)))"
proof -
  let ?c0 = "sse_connect session b1" let ?c1 = "sse_replay (Some (of_nat l)) b2 ?c0"
  have sent1: "length (eb_sent b1) = length es1" using publish_all_bus [OF assms(1), of es1 channel] by (simp add: assms(5))
  have pos: "sse_pos ?c1 = length es1" "sse_open ?c1" by (simp_all add: sse_replay_simps sse_connect_def sent1)
  have le: "sse_pos ?c1 \<le> length (es1 @ es2)" by (simp add: pos)
  have run: "fold tail_step acts (publish_all (es1 @ es2) (bus_new channel ring), ?c1) = (b3, c)" using assms(7) by (simp add: assms(6))
  note tail = tail_run [OF assms(1) pos(2) le run]
  have b3: "b3 = publish_all es (bus_new channel ring)" using tail by (simp add: assms(4))
  have sent: "eb_sent b3 = entries es" "eb_channel_capacity b3 = channel"
    using publish_all_bus [OF assms(1), of es channel] by (simp_all add: b3 publish_all_caps bus_new_def)
  have f1: "frames_of ?c1 = frames_of c" "frames_of ?c0 = frames_of c"
    by (rule frames_of_cong, use tail in \<open>simp add: sse_replay_simps\<close>)+
  have "sse_frames ?c1 = replayed"
    using replay_frames [OF assms(1), of "es1 @ es2" l ?c0 channel] assms(2,3,4) f1(2)
    by (simp add: assms(6,8) sse_connect_def)
  then have frames: "sse_frames c = replayed @ frames_of c (take (sse_pos c - length es1) (drop (length es1) (entries es)))"
    using tail f1(1) pos(1) by (simp add: assms(4))
  have rest: "length es1 \<le> sse_pos c" "sse_pos c \<le> length es" "sse_open c \<or> sse_pos c + channel < length es"
    using tail pos(1) by (simp_all add: assms(4))
  have "sse_open ((sse_poll b3 ^^ (length es - sse_pos c)) c) \<and>
      sse_frames ((sse_poll b3 ^^ (length es - sse_pos c)) c) = replayed @ frames_of c (drop (length es1) (entries es))"
    if "sse_open c" "length es \<le> sse_pos c + channel"
  proof -
    let ?k = "sse_pos c - length es1" let ?xs = "drop (length es1) (entries es)"
    have "(sse_poll b3 ^^ (length es - sse_pos c)) c = c\<lparr>sse_pos := length es,
        sse_frames := sse_frames c @ frames_of c (drop (sse_pos c) (entries es))\<rparr>"
      using sse_poll_many [of c b3 "length es - sse_pos c"] that rest(2) by (simp add: sent)
    moreover have "frames_of c (take ?k ?xs) @ frames_of c (drop ?k ?xs) = frames_of c ?xs"
      by (metis append_take_drop_id filter_append frames_of_def map_append)
    moreover have "drop ?k ?xs = drop (sse_pos c) (entries es)" using rest(1) by simp
    ultimately show ?thesis using that(1) frames by simp
  qed
  with frames rest show ?thesis by blast
qed

definition sample_event :: "string \<Rightarrow> session_event" where
  "sample_event sid = Session_Ended sid ''completed'' ''2026-01-01T00:00:00Z''"

text \<open>An event published while the client was reconnecting is delivered by the replay and again by the tail; the next one is
  published after the first poll.\<close>
lemma reconnect_delivers_witness:
  "let b1 = publish_all [sample_event ''a''] (bus_new 4 2); b2 = publish_all ([sample_event ''a''] @ [sample_event ''b'']) (bus_new 4 2);
     (b3, c) = fold tail_step [Tail_Poll, Tail_Publish (sample_event ''c''), Tail_Poll] (b2, sse_replay (Some (of_nat 1)) b2 (sse_connect None b1))
   in sse_frames c = [Sse_Event 2 (sample_event ''b''), Sse_Event 2 (sample_event ''b''), Sse_Event 3 (sample_event ''c'')]"
proof -
  let ?a = "sample_event ''a''" let ?b = "sample_event ''b''" let ?c = "sample_event ''c''"
  let ?acts = "[Tail_Poll, Tail_Publish ?c, Tail_Poll]"
  define b1 where "b1 = publish_all [?a] (bus_new 4 2)"
  define b2 where "b2 = publish_all ([?a] @ [?b]) (bus_new 4 2)"
  obtain b3 c where run: "(b3, c) = fold tail_step ?acts (b2, sse_replay (Some (of_nat 1)) b2 (sse_connect None b1))"
    by (metis surj_pair)
  have "sse_pos c = 3 \<and> sse_session c = None"
    using run by (simp add: b1_def b2_def publish_all_def publish_simps bus_new_def sse_poll_def sse_replay_simps)
      (simp add: sse_connect_def publish_simps)
  moreover have "entries ([?a] @ [?b] @ published ?acts) = [(1, ?a), (2, ?b), (3, ?c)]"
    "entries ([?a] @ [?b]) = [(1, ?a), (2, ?b)]" by (simp_all add: entries_def upt_rec numeral_eq_Suc)
  ultimately have "sse_frames c = [Sse_Event 2 ?b, Sse_Event 2 ?b, Sse_Event 3 ?c]"
    using reconnect_delivers [OF _ _ _ refl b1_def b2_def run refl] by (simp add: frames_of_def sse_wants_def)
  then show ?thesis using run by (simp add: b1_def b2_def Let_def split: prod.splits)
qed

section \<open>Publishers that overtake each other\<close>

text \<open>A replay never returns an id the client claims to have seen.\<close>
lemma replay_skips: "replay_after l b = Replay_Events ens \<Longrightarrow> (i, ev) \<in> set ens \<Longrightarrow> l < i"
  by (auto simp: replay_after_def Let_def split: list.splits if_splits)

text \<open>
  Two publishers can reach the ring in the opposite order of their ids. A client that saw event 2 and reconnects with it as its
  last event id is told it is up to date, although event 1 was published after the moment it left and is in the ring.
\<close>
theorem overtaken_event_lost:
  assumes "2 \<le> ring"
  shows "\<exists>y1 y2. bus_reach (bus_new channel ring) y1 \<and> bus_step\<^sup>*\<^sup>* y1 y2 \<and>
    eb_sent (bs_bus y1) = [(2, ev2)] \<and> eb_sent (bs_bus y2) = [(2, ev2), (1, ev1)] \<and>
    bs_taken y2 = [] \<and> bs_pushed y2 = [] \<and> (1, ev1) \<in> set (eb_ring (bs_bus y2)) \<and>
    replay_after 2 (bs_bus y2) = Replay_Caught"
proof -
  let ?b = "bus_new channel ring"
  let ?y0 = "\<lparr>bs_bus = ?b, bs_taken = [], bs_pushed = []\<rparr>"
  define b2 where "b2 = ?b\<lparr>eb_next_id := 3\<rparr>"
  define b3 where "b3 = b2\<lparr>eb_ring := [(2, ev2)]\<rparr>"
  define b4 where "b4 = b3\<lparr>eb_sent := [(2, ev2)]\<rparr>"
  define b5 where "b5 = b4\<lparr>eb_ring := [(2, ev2), (1, ev1)]\<rparr>"
  define b6 where "b6 = b5\<lparr>eb_sent := [(2, ev2), (1, ev1)]\<rparr>"
  have 0: "bus_reach ?b ?y0" by (rule bus_start)
  have "bus_step ?y0 \<lparr>bs_bus = ?b\<lparr>eb_next_id := 2\<rparr>, bs_taken = [(1, ev1)], bs_pushed = []\<rparr>"
    using take_id [of ?y0 1 "?b\<lparr>eb_next_id := 2\<rparr>" ev1] by (simp add: bus_take_def bus_new_def)
  note 1 = bus_next [OF 0 this]
  have "bus_step \<lparr>bs_bus = ?b\<lparr>eb_next_id := 2\<rparr>, bs_taken = [(1, ev1)], bs_pushed = []\<rparr>
      \<lparr>bs_bus = b2, bs_taken = [(1, ev1), (2, ev2)], bs_pushed = []\<rparr>"
    using take_id [of "\<lparr>bs_bus = ?b\<lparr>eb_next_id := 2\<rparr>, bs_taken = [(1, ev1)], bs_pushed = []\<rparr>" 2 b2 ev2]
    by (simp add: bus_take_def b2_def)
  note 2 = bus_next [OF 1 this]
  have "bus_step \<lparr>bs_bus = b2, bs_taken = [(1, ev1), (2, ev2)], bs_pushed = []\<rparr>
      \<lparr>bs_bus = b3, bs_taken = [(1, ev1)], bs_pushed = [(2, ev2)]\<rparr>"
    using push_ring [of "(2, ev2)" "\<lparr>bs_bus = b2, bs_taken = [(1, ev1), (2, ev2)], bs_pushed = []\<rparr>"] assms
    by (simp add: bus_push_def b2_def b3_def bus_new_def)
  note 3 = bus_next [OF 2 this]
  have "bus_step \<lparr>bs_bus = b3, bs_taken = [(1, ev1)], bs_pushed = [(2, ev2)]\<rparr>
      \<lparr>bs_bus = b4, bs_taken = [(1, ev1)], bs_pushed = []\<rparr>"
    using send_entry [of "(2, ev2)" "\<lparr>bs_bus = b3, bs_taken = [(1, ev1)], bs_pushed = [(2, ev2)]\<rparr>"]
    by (simp add: bus_send_def b3_def b4_def b2_def bus_new_def)
  note 4 = bus_next [OF 3 this]
  have 5: "bus_step \<lparr>bs_bus = b4, bs_taken = [(1, ev1)], bs_pushed = []\<rparr>
      \<lparr>bs_bus = b5, bs_taken = [], bs_pushed = [(1, ev1)]\<rparr>"
    using push_ring [of "(1, ev1)" "\<lparr>bs_bus = b4, bs_taken = [(1, ev1)], bs_pushed = []\<rparr>"] assms
    by (simp add: bus_push_def b5_def b4_def b3_def b2_def bus_new_def)
  have 6: "bus_step \<lparr>bs_bus = b5, bs_taken = [], bs_pushed = [(1, ev1)]\<rparr> \<lparr>bs_bus = b6, bs_taken = [], bs_pushed = []\<rparr>"
    using send_entry [of "(1, ev1)" "\<lparr>bs_bus = b5, bs_taken = [], bs_pushed = [(1, ev1)]\<rparr>"]
    by (simp add: bus_send_def b6_def b5_def b4_def b3_def b2_def)
  from 5 6 have "bus_step\<^sup>*\<^sup>* \<lparr>bs_bus = b4, bs_taken = [(1, ev1)], bs_pushed = []\<rparr> \<lparr>bs_bus = b6, bs_taken = [], bs_pushed = []\<rparr>"
    by (meson r_into_rtranclp rtranclp_trans)
  moreover have "replay_after 2 b6 = Replay_Caught"
    by (simp add: replay_after_def b6_def b5_def)
  ultimately show ?thesis using 4
    by (intro exI [of _ "\<lparr>bs_bus = b4, bs_taken = [(1, ev1)], bs_pushed = []\<rparr>"]
        exI [of _ "\<lparr>bs_bus = b6, bs_taken = [], bs_pushed = []\<rparr>"]) (simp add: b4_def b6_def b5_def)
qed

lemma overtaken_event_lost_witness:
  "\<exists>y. bus_reach default_capacity y \<and> eb_sent (bs_bus y) = [(2, sample_event ''b'')]"
  using overtaken_event_lost [of DEFAULT_RING_CAPACITY DEFAULT_CHANNEL_CAPACITY "sample_event ''b''" "sample_event ''a''"]
  by (auto simp: default_capacity_def DEFAULT_RING_CAPACITY_def)

end
