(* ===== verification/Otel_Routes.thy ===== *)
theory Otel_Routes
  imports Event_Bus
begin

text \<open>
  The telemetry routes of the kernel's HTTP receiver (gctrl-otel/src/receiver.rs): OTLP ingest with its auto-created sessions,
  live events and alert rules; the session upsert, end and score routes; the trace tree; the provenance filters of the
  listings and analytics; the traffic queries. A handler maps the kernel state to an answer and a new state. Clock readings
  (\<^verbatim>\<open>now i\<close> is the i-th of a request), UUIDs, hash-set order, the renderings of numbers and dates and serde\_json's reading of a
  number are arguments. Panics of the standard library and of chrono are None.
\<close>

section \<open>State and answers\<close>

record otel =
  otl_store :: duck_store
  otl_bus :: event_bus

record trace_leaf =
  tre_span_id :: string
  tre_type :: string
  tre_operation :: string
  tre_model :: "string option"
  tre_input_tokens :: u64
  tre_output_tokens :: u64
  tre_cost_usd :: f64
  tre_duration_ms :: u64
  tre_status :: string

record trace_node = trace_leaf +
  tre_children :: "trace_leaf list"

record trace_tree =
  trt_session :: session
  trt_spans :: "trace_node list"
  trt_span_count :: nat
  trt_scores :: "(string \<times> f64 \<times> string) list"
  trt_tags :: "(string \<times> string) list"

record score_summary =
  ssu_name :: string
  ssu_pass :: nat
  ssu_fail :: nat
  ssu_total :: nat
  ssu_pass_rate :: f64
  ssu_avg_value :: f64

record cost_report =
  cre_by_model :: "(string \<times> f64 \<times> nat) list"
  cre_by_agent :: "(string \<times> f64 \<times> nat) list"
  cre_by_project :: "(string \<times> f64 \<times> nat) list"
  cre_by_agent_project :: "(string \<times> string \<times> f64 \<times> nat) list"

datatype 'a answer = Answer nat 'a | Refusal nat string | Failure gctl_error

text \<open>An error of the store is answered with 500 and its text.\<close>
fun answer_code :: "'a answer \<Rightarrow> nat" where
  "answer_code (Answer c x) = c"
| "answer_code (Refusal c m) = c"
| "answer_code (Failure e) = 500"

definition answered :: "gctl_error + 'a \<Rightarrow> 'a answer" where
  "answered r = (case r of Inl e \<Rightarrow> Failure e | Inr x \<Rightarrow> Answer 200 x)"

section \<open>Ingest\<close>

definition auto_session :: "span \<Rightarrow> session" where
  "auto_session sp =
     \<lparr>ses_id = spn_session_id sp, ses_workspace_id = ''default'', ses_device_id = ''local'',
      ses_agent_name = spn_agent_name sp, ses_started_at = spn_started_at sp, ses_ended_at = None,
      ses_status = Sess_Active, ses_total_cost_usd = 0, ses_total_input_tokens = 0, ses_total_output_tokens = 0,
      ses_created_by = By_OtelIngest, ses_project_id = None, ses_kind = default_session_kind, ses_metadata = None\<rparr>"

text \<open>The loop over the spans with the set of sessions already seen; the sessions created, and the store.\<close>
fun open_sessions :: "string list \<Rightarrow> span list \<Rightarrow> duck_store \<Rightarrow> session list \<times> duck_store" where
  "open_sessions seen [] s = ([], s)"
| "open_sessions seen (sp # sps) s =
     (let sid = spn_session_id sp
      in if sid \<in> set seen then open_sessions seen sps s
         else if duck_get_session sid s = None then
           (case insert_session (auto_session sp) s of
              (Inl e, s') \<Rightarrow> open_sessions (sid # seen) sps s'
            | (Inr _, s') \<Rightarrow> (case open_sessions (sid # seen) sps s' of (started, s'') \<Rightarrow> (auto_session sp # started, s'')))
         else open_sessions (sid # seen) sps s)"

definition started_event :: "session \<Rightarrow> session_event" where
  "started_event se = Session_Started (ses_id se) (ses_agent_name se) (ses_started_at se)"

definition span_event :: "span \<Rightarrow> session_event" where
  "span_event sp =
     Session_Span (spn_session_id sp) (spn_span_id sp) (spn_parent_span_id sp) (span_type_as_str (spn_span_type sp))
       (spn_operation_name sp) (spn_model sp) (spn_cost_usd sp) (spn_duration_ms sp)
       (span_status_as_str (spn_status sp)) (spn_started_at sp)"

definition should_fire :: "session \<Rightarrow> alert_rule \<Rightarrow> bool" where
  "should_fire se rule = (alr_condition_type rule = ''session_cost'' \<and> alr_threshold rule < ses_total_cost_usd se)"

text \<open>cents renders an amount with two decimals.\<close>
definition alert_message :: "(f64 \<Rightarrow> string) \<Rightarrow> session \<Rightarrow> alert_rule \<Rightarrow> string \<Rightarrow> string" where
  "alert_message cents se rule sid =
     ''['' @ alr_action rule @ ''] '' @ alr_name rule @ '': session '' @ sid @ '' cost $'' @ cents (ses_total_cost_usd se) @
     '' exceeds threshold $'' @ cents (alr_threshold rule)"

definition fired_alerts :: "string list \<Rightarrow> duck_store \<Rightarrow> (string \<times> session \<times> alert_rule) list" where
  "fired_alerts sids s =
     concat (map (\<lambda>sid. case duck_get_session sid s of
                          None \<Rightarrow> []
                        | Some se \<Rightarrow> map (\<lambda>rule. (sid, se, rule)) (filter (should_fire se) (list_alert_rules s))) sids)"

definition alert_of ::
  "(nat \<Rightarrow> string) \<Rightarrow> (nat \<Rightarrow> timestamp) \<Rightarrow> (f64 \<Rightarrow> string) \<Rightarrow> nat \<Rightarrow> string \<times> session \<times> alert_rule \<Rightarrow> alert_event" where
  "alert_of uuid now cents i x =
     (case x of (sid, se, rule) \<Rightarrow>
        \<lparr>ale_id = uuid i, ale_rule_id = alr_id rule, ale_session_id = Some sid, ale_timestamp = now i,
         ale_message = alert_message cents se rule sid, ale_acknowledged = False\<rparr>)"

text \<open>The alerts are inserted one after the other; a failed insert is ignored.\<close>
definition raise_alerts ::
  "(nat \<Rightarrow> string) \<Rightarrow> (nat \<Rightarrow> timestamp) \<Rightarrow> (f64 \<Rightarrow> string) \<Rightarrow> (string \<times> session \<times> alert_rule) list \<Rightarrow> duck_store \<Rightarrow> duck_store" where
  "raise_alerts uuid now cents xs s =
     foldl (\<lambda>s (i, x). snd (insert_alert_event (alert_of uuid now cents i x) s)) s (enumerate 0 xs)"

record ingest_env =
  ing_datetime :: "nat \<Rightarrow> nat \<Rightarrow> timestamp"
  ing_order :: "string list \<Rightarrow> string list"
  ing_uuid :: "nat \<Rightarrow> string"
  ing_now :: "nat \<Rightarrow> timestamp"
  ing_cents :: "f64 \<Rightarrow> string"

definition ingest_spans :: "ingest_env \<Rightarrow> span list \<Rightarrow> otel \<Rightarrow> nat \<times> otel" where
  "ingest_spans env spans st =
     (if spans = [] then (200, st)
      else (case open_sessions [] spans (otl_store st) of (started, s1) \<Rightarrow>
        (case insert_spans (ing_order env) spans s1 of
           (Inl e, s2) \<Rightarrow> (500, st\<lparr>otl_store := s2\<rparr>)
         | (Inr _, s2) \<Rightarrow>
             (let bus = publish_all (map started_event started @ map span_event spans) (otl_bus st);
                  fired = fired_alerts (ing_order env (remdups (map spn_session_id spans))) s2
              in (200, \<lparr>otl_store = raise_alerts (ing_uuid env) (ing_now env) (ing_cents env) fired s2,
                        otl_bus = bus\<rparr>)))))"

definition ingest_traces :: "ingest_env \<Rightarrow> otlp_export_request \<Rightarrow> otel \<Rightarrow> nat \<times> otel" where
  "ingest_traces env payload st = ingest_spans env (process_export_request (ing_datetime env) payload) st"

definition ingest_logs :: "json \<Rightarrow> otel \<Rightarrow> (nat \<times> nat) \<times> otel" where
  "ingest_logs payload st = ((count_otlp_records payload ''resourceLogs'' ''scopeLogs'' ''logRecords'', 200), st)"

definition ingest_metrics :: "json \<Rightarrow> otel \<Rightarrow> (nat \<times> nat) \<times> otel" where
  "ingest_metrics payload st = ((count_otlp_records payload ''resourceMetrics'' ''scopeMetrics'' ''metrics'', 200), st)"

section \<open>Sessions\<close>

record session_upsert_body =
  sub_id :: string
  sub_kind :: string
  sub_workspace_id :: "string option"
  sub_device_id :: "string option"
  sub_agent_name :: "string option"
  sub_started_at :: timestamp
  sub_completed_at :: "timestamp option"
  sub_status :: "string option"
  sub_cost_usd :: "f64 option"
  sub_project_id :: "string option"
  sub_metadata :: "json option"

definition upserted_session :: "session_upsert_body \<Rightarrow> u64 \<Rightarrow> u64 \<Rightarrow> session" where
  "upserted_session body inp out =
     \<lparr>ses_id = sub_id body, ses_workspace_id = unwrap_or ''default'' (sub_workspace_id body),
      ses_device_id = unwrap_or ''local'' (sub_device_id body),
      ses_agent_name = unwrap_or (sub_kind body) (sub_agent_name body), ses_started_at = sub_started_at body,
      ses_ended_at = sub_completed_at body,
      ses_status = unwrap_or Sess_Active (Option.bind (sub_status body) session_status_from_str),
      ses_total_cost_usd = unwrap_or 0 (sub_cost_usd body), ses_total_input_tokens = inp, ses_total_output_tokens = out,
      ses_created_by = By_Api, ses_project_id = sub_project_id body, ses_kind = sub_kind body,
      ses_metadata = sub_metadata body\<rparr>"

definition store_upserted :: "session \<Rightarrow> otel \<Rightarrow> session answer \<times> otel" where
  "store_upserted se st =
     (case insert_session se (otl_store st) of
        (Inl e, s) \<Rightarrow> (Failure e, st\<lparr>otl_store := s\<rparr>)
      | (Inr _, s) \<Rightarrow> (Answer 201 se, st\<lparr>otl_store := s\<rparr>))"

definition upsert_session :: "session_upsert_body \<Rightarrow> otel \<Rightarrow> session answer \<times> otel" where
  "upsert_session body st =
     (case duck_get_session (sub_id body) (otl_store st) of
        None \<Rightarrow> store_upserted (upserted_session body 0 0) st
      | Some existing \<Rightarrow>
          if ses_created_by existing \<noteq> By_Api then
            (Refusal 409 (''session '' @ sub_id body @ '' already exists with created_by='' @
               created_by_as_str (ses_created_by existing) @ ''; refuse to overwrite via /api/sessions''), st)
          else store_upserted
                 (upserted_session body (ses_total_input_tokens existing) (ses_total_output_tokens existing)) st)"

definition get_session_route :: "string \<Rightarrow> otel \<Rightarrow> session answer" where
  "get_session_route sid st =
     (case duck_get_session sid (otl_store st) of
        None \<Rightarrow> Refusal 404 (''session '' @ sid @ '' not found'')
      | Some se \<Rightarrow> Answer 200 se)"

definition get_spans :: "string \<Rightarrow> otel \<Rightarrow> span list answer" where
  "get_spans sid st = Answer 200 (query_spans sid (otl_store st))"

text \<open>payload["status"].as\_str()\<close>
definition json_str :: "string \<Rightarrow> json \<Rightarrow> string option" where
  "json_str k payload = (case json_get k payload of Some (JStr s) \<Rightarrow> Some s | _ \<Rightarrow> None)"

definition loop_score :: "timestamp \<Rightarrow> string \<Rightarrow> string list \<Rightarrow> score" where
  "loop_score now sid loops =
     (auto_score now sid ''error_loops'' ''error_loops'' (of_nat (length loops)))\<lparr>sco_comment := Some (join ''; '' loops)\<rparr>"

text \<open>
  today is the date of the clock reading now 7, and like is SQL's LIKE. Failures of scoring and of the aggregates are ignored.
\<close>
definition end_session ::
  "(string \<Rightarrow> string \<Rightarrow> bool) \<Rightarrow> (nat \<Rightarrow> timestamp) \<Rightarrow> string \<Rightarrow> string \<Rightarrow> json \<Rightarrow> otel \<Rightarrow> (string \<times> string \<times> nat) answer \<times> otel" where
  "end_session like now today sid payload st =
     (let status = unwrap_or ''completed'' (json_str ''status'' payload)
      in case duck_end_session (now 0) sid status (otl_store st) of
           (Inl e, s) \<Rightarrow> (Failure e, st\<lparr>otl_store := s\<rparr>)
         | (Inr _, s) \<Rightarrow>
             (let bus = snd (publish (Session_Ended sid status (now 1)) (otl_bus st));
                  s1 = snd (auto_score_session (\<lambda>i. now (2 + i)) sid s);
                  loops = unwrap_or [] (detect_error_loops sid 3 s1);
                  s2 = (if loops \<noteq> [] then snd (insert_score (loop_score (now 6) sid loops) s1) else s1);
                  s3 = snd (compute_daily_aggregates like today s2)
              in (Answer 200 (sid, status, length loops), \<lparr>otl_store = s3, otl_bus = bus\<rparr>)))"

definition auto_score_route :: "(nat \<Rightarrow> timestamp) \<Rightarrow> string \<Rightarrow> otel \<Rightarrow> score list answer \<times> otel" where
  "auto_score_route now sid st =
     (case auto_score_session now sid (otl_store st) of
        (Inl e, s) \<Rightarrow> (Failure e, st\<lparr>otl_store := s\<rparr>)
      | (Inr scores, s) \<Rightarrow> (Answer 200 scores, st\<lparr>otl_store := s\<rparr>))"

definition detect_loops :: "string \<Rightarrow> otel \<Rightarrow> (string list \<times> nat) answer" where
  "detect_loops sid st =
     (let loops = unwrap_or [] (detect_error_loops sid 3 (otl_store st)) in Answer 200 (loops, length loops))"

definition session_cost_breakdown :: "string \<Rightarrow> otel \<Rightarrow> (string \<times> f64 \<times> u64 \<times> u64 \<times> nat) list answer" where
  "session_cost_breakdown sid st = answered (get_session_cost_breakdown sid (otl_store st))"

definition list_session_prompts :: "string \<Rightarrow> otel \<Rightarrow> (nat \<times> prompt_body list) answer" where
  "list_session_prompts sid st =
     (let rows = list_prompt_bodies_for_session sid (otl_store st) in Answer 200 (length rows, rows))"

definition list_prompts :: "string option \<Rightarrow> string option \<Rightarrow> nat \<Rightarrow> otel \<Rightarrow> prompt_fingerprint_group list answer" where
  "list_prompts grouping since mx st =
     (case grouping of
        None \<Rightarrow> Refusal 400 ''group_by is required; pass ?group_by=fingerprint''
      | Some g \<Rightarrow>
          if g = ''fingerprint'' then answered (group_prompt_bodies_by_fingerprint since mx (otl_store st))
          else Refusal 400 (''unsupported group_by='' @ g @ ''; only `fingerprint` is supported''))"

section \<open>The trace tree\<close>

definition trace_leaf_of :: "span \<Rightarrow> trace_leaf" where
  "trace_leaf_of sp =
     \<lparr>tre_span_id = spn_span_id sp, tre_type = span_type_as_str (spn_span_type sp), tre_operation = spn_operation_name sp,
      tre_model = spn_model sp, tre_input_tokens = spn_input_tokens sp, tre_output_tokens = spn_output_tokens sp,
      tre_cost_usd = spn_cost_usd sp, tre_duration_ms = spn_duration_ms sp,
      tre_status = span_status_as_str (spn_status sp)\<rparr>"

definition build_node :: "span list \<Rightarrow> span \<Rightarrow> trace_node" where
  "build_node spans sp =
     trace_leaf.extend (trace_leaf_of sp)
       (trace_node.fields (map trace_leaf_of (filter (\<lambda>c. spn_parent_span_id c = Some (spn_span_id sp)) spans)))"

definition get_trace_tree :: "string \<Rightarrow> otel \<Rightarrow> trace_tree answer" where
  "get_trace_tree sid st =
     (case duck_get_session sid (otl_store st) of
        None \<Rightarrow> Refusal 404 (''session '' @ sid @ '' not found'')
      | Some se \<Rightarrow>
          (let spans = query_spans sid (otl_store st)
           in Answer 200
                \<lparr>trt_session = se,
                 trt_spans = map (build_node spans) (filter (\<lambda>sp. spn_parent_span_id sp = None) spans),
                 trt_span_count = length spans,
                 trt_scores = map (\<lambda>sc. (sco_name sc, sco_value sc, sco_source sc)) (get_scores ''session'' sid (otl_store st)),
                 trt_tags = map (\<lambda>t. (tgr_key t, tgr_value t)) (get_tags ''session'' sid (otl_store st))\<rparr>))"

section \<open>Provenance filters\<close>

definition parse_created_by_filter :: "string option \<Rightarrow> string option \<Rightarrow> string + created_by list option" where
  "parse_created_by_filter raw kind =
     (case raw of
        Some s \<Rightarrow> Inr (Some (List.map_filter created_by_from_str
                               (filter (\<lambda>t. t \<noteq> []) (map trim (split_char (CHR '','') s)))))
      | None \<Rightarrow>
          (case kind of
             None \<Rightarrow> Inr None
           | Some k \<Rightarrow>
               if k = ''internal'' then Inr (Some [By_Scheduler, By_Api])
               else if k = ''external'' then Inr (Some [By_OtelIngest])
               else Inl (''?kind='' @ k @ '' is not a valid provenance shorthand (expected `internal` or `external`); did you mean ?session_kind='' @
                         k @ ''? for column-based filtering'')))"

definition with_provenance :: "string option \<Rightarrow> string option \<Rightarrow> (created_by list option \<Rightarrow> 'a answer) \<Rightarrow> 'a answer" where
  "with_provenance raw kind f =
     (case parse_created_by_filter raw kind of Inl msg \<Rightarrow> Refusal 400 msg | Inr p \<Rightarrow> f p)"

record list_params =
  lpa_limit :: nat
  lpa_agent :: "string option"
  lpa_status :: "string option"
  lpa_created_by :: "string option"
  lpa_kind :: "string option"
  lpa_session_kind :: "string option"

definition list_sessions_route :: "list_params \<Rightarrow> otel \<Rightarrow> session list answer" where
  "list_sessions_route p st =
     with_provenance (lpa_created_by p) (lpa_kind p) (\<lambda>provs. Answer 200
       (list_sessions_filtered (lpa_limit p) (lpa_agent p) (lpa_status p) provs (lpa_session_kind p) (otl_store st)))"

definition get_analytics_route :: "string option \<Rightarrow> string option \<Rightarrow> otel \<Rightarrow> analytics answer" where
  "get_analytics_route raw kind st = with_provenance raw kind (\<lambda>provs. answered (get_analytics provs (otl_store st)))"

definition analytics_cost :: "string option \<Rightarrow> string option \<Rightarrow> otel \<Rightarrow> cost_report answer" where
  "analytics_cost raw kind st =
     with_provenance raw kind (\<lambda>provs. Answer 200
       \<lparr>cre_by_model = get_cost_by_model provs (otl_store st), cre_by_agent = get_cost_by_agent provs (otl_store st),
        cre_by_project = get_cost_by_project provs (otl_store st),
        cre_by_agent_project = get_cost_by_agent_project provs (otl_store st)\<rparr>)"

definition analytics_latency :: "string option \<Rightarrow> string option \<Rightarrow> otel \<Rightarrow> (string \<times> f64 \<times> f64 \<times> f64) list answer" where
  "analytics_latency raw kind st =
     with_provenance raw kind (\<lambda>provs. Answer 200 (get_latency_by_model provs (otl_store st)))"

definition analytics_spans :: "string option \<Rightarrow> string option \<Rightarrow> otel \<Rightarrow> (string \<times> nat \<times> f64) list answer" where
  "analytics_spans raw kind st =
     with_provenance raw kind (\<lambda>provs. Answer 200 (get_span_type_distribution provs (otl_store st)))"

definition analytics_scores :: "string \<Rightarrow> otel \<Rightarrow> score_summary answer" where
  "analytics_scores name st =
     (case get_score_summary name (otl_store st) of (pass, fails, avg) \<Rightarrow> Answer 200
        \<lparr>ssu_name = name, ssu_pass = pass, ssu_fail = fails, ssu_total = pass + fails,
         ssu_pass_rate = (if 0 < pass + fails then of_nat pass / of_nat (pass + fails) else 0), ssu_avg_value = avg\<rparr>)"

definition analytics_daily :: "u32 \<Rightarrow> otel \<Rightarrow> daily_aggregate list answer" where
  "analytics_daily days st = Answer 200 (get_daily_aggregates days (otl_store st))"

section \<open>Scores, tags, alerts\<close>

definition create_score :: "(json \<Rightarrow> f64 option) \<Rightarrow> string \<Rightarrow> timestamp \<Rightarrow> json \<Rightarrow> otel \<Rightarrow> string answer \<times> otel" where
  "create_score as_f64 uuid now payload st =
     (let sc = \<lparr>sco_id = unwrap_or uuid (json_str ''id'' payload),
                sco_target_type = unwrap_or ''session'' (json_str ''target_type'' payload),
                sco_target_id = unwrap_or '''' (json_str ''target_id'' payload),
                sco_name = unwrap_or '''' (json_str ''name'' payload),
                sco_value = unwrap_or 0 (Option.bind (json_get ''value'' payload) as_f64),
                sco_comment = json_str ''comment'' payload,
                sco_source = unwrap_or ''human'' (json_str ''source'' payload),
                sco_scored_by = json_str ''scored_by'' payload, sco_created_at = now\<rparr>
      in case insert_score sc (otl_store st) of
           (Inl e, s) \<Rightarrow> (Failure e, st\<lparr>otl_store := s\<rparr>)
         | (Inr _, s) \<Rightarrow> (Answer 201 (sco_id sc), st\<lparr>otl_store := s\<rparr>))"

definition create_tag :: "string \<Rightarrow> json \<Rightarrow> otel \<Rightarrow> string answer \<times> otel" where
  "create_tag uuid payload st =
     (let t = \<lparr>tgr_id = unwrap_or uuid (json_str ''id'' payload),
               tgr_target_type = unwrap_or ''session'' (json_str ''target_type'' payload),
               tgr_target_id = unwrap_or '''' (json_str ''target_id'' payload),
               tgr_key = unwrap_or '''' (json_str ''key'' payload),
               tgr_value = unwrap_or '''' (json_str ''value'' payload)\<rparr>
      in case insert_tag t (otl_store st) of
           (Inl e, s) \<Rightarrow> (Failure e, st\<lparr>otl_store := s\<rparr>)
         | (Inr _, s) \<Rightarrow> (Answer 201 (tgr_id t), st\<lparr>otl_store := s\<rparr>))"

definition list_alerts :: "otel \<Rightarrow> alert_rule list answer" where
  "list_alerts st = Answer 200 (list_alert_rules (otl_store st))"

section \<open>Traffic queries\<close>

text \<open>str::parse of a signed integer of w bits.\<close>
definition parse_sint :: "nat \<Rightarrow> string \<Rightarrow> int option" where
  "parse_sint w s =
     (let (neg, ds) = (case s of
                         [] \<Rightarrow> (False, s)
                       | c # r \<Rightarrow> if c = CHR ''-'' \<and> r \<noteq> [] then (True, r)
                                  else if c = CHR ''+'' \<and> r \<noteq> [] then (False, r) else (False, s));
          n = (if neg then - int (read_nat ds) else int (read_nat ds))
      in if ds = [] \<or> \<not> list_all (\<lambda>c. c \<in> set ''0123456789'') ds \<or> n < - (2 ^ (w - 1)) \<or> 2 ^ (w - 1) \<le> n then None
         else Some n)"

text \<open>chrono's durations span i64::MAX milliseconds either way; its constructors panic outside.\<close>
definition chrono_seconds :: "int \<Rightarrow> int option" where
  "chrono_seconds n = (if \<bar>n * 1000\<bar> < 2 ^ 63 then Some n else None)"

text \<open>Seconds of the window, Some None when the text is not a window, None when the call panics.\<close>
definition parse_since :: "string \<Rightarrow> int option option" where
  "parse_since s =
     (let s = trim s
      in if s = [] then Some None
         else if \<not> is_char_boundary s (length s - 1) then None
         else (case parse_sint 64 (butlast s) of
                 None \<Rightarrow> Some None
               | Some n \<Rightarrow>
                   if last s = CHR ''s'' then map_option Some (chrono_seconds n)
                   else if last s = CHR ''m'' then map_option Some (chrono_seconds (n * 60))
                   else if last s = CHR ''h'' then map_option Some (chrono_seconds (n * 3600))
                   else if last s = CHR ''d'' then map_option Some (chrono_seconds (n * 86400))
                   else Some None))"

text \<open>ago n is the clock reading minus n seconds, None where chrono's subtraction panics.\<close>
definition since_bound :: "(int \<Rightarrow> timestamp option) \<Rightarrow> string option \<Rightarrow> timestamp option option" where
  "since_bound ago since =
     (case since of
        None \<Rightarrow> Some None
      | Some s \<Rightarrow>
          (case parse_since s of
             None \<Rightarrow> None
           | Some None \<Rightarrow> Some None
           | Some (Some n) \<Rightarrow> map_option Some (ago n)))"

definition net_traffic_logs ::
  "(int \<Rightarrow> timestamp option) \<Rightarrow> string option \<Rightarrow> string option \<Rightarrow> nat option \<Rightarrow> otel \<Rightarrow> traffic_record list answer option" where
  "net_traffic_logs ago host since mx st =
     map_option (\<lambda>b. Answer 200 (query_traffic host b mx (otl_store st))) (since_bound ago since)"

definition net_traffic_stats :: "(int \<Rightarrow> timestamp option) \<Rightarrow> string option \<Rightarrow> otel \<Rightarrow> traffic_stats answer option" where
  "net_traffic_stats ago since st =
     map_option (\<lambda>b. answered (get_traffic_stats b (otl_store st))) (since_bound ago since)"

definition net_traffic_domains ::
  "(int \<Rightarrow> timestamp option) \<Rightarrow> string option \<Rightarrow> nat \<Rightarrow> otel \<Rightarrow> (string \<times> nat \<times> u64 \<times> u64) list answer option" where
  "net_traffic_domains ago since mx st =
     map_option (\<lambda>b. answered (get_traffic_by_host mx b (otl_store st))) (since_bound ago since)"

definition net_traffic_daily :: "u32 \<Rightarrow> otel \<Rightarrow> (string \<times> nat \<times> u64 \<times> u64) list answer" where
  "net_traffic_daily days st = answered (get_traffic_daily days (otl_store st))"

section \<open>Requests\<close>

datatype otel_request =
    Req_Traces ingest_env otlp_export_request
  | Req_Upsert session_upsert_body
  | Req_End "string \<Rightarrow> string \<Rightarrow> bool" "nat \<Rightarrow> timestamp" string string json
  | Req_Auto_Score "nat \<Rightarrow> timestamp" string
  | Req_Score "json \<Rightarrow> f64 option" string timestamp json
  | Req_Tag string json

text \<open>The status code and the state after a request that writes.\<close>
fun otel_handle :: "otel_request \<Rightarrow> otel \<Rightarrow> nat \<times> otel" where
  "otel_handle (Req_Traces env payload) st = ingest_traces env payload st"
| "otel_handle (Req_Upsert body) st = map_prod answer_code id (upsert_session body st)"
| "otel_handle (Req_End like now today sid payload) st = map_prod answer_code id (end_session like now today sid payload st)"
| "otel_handle (Req_Auto_Score now sid) st = map_prod answer_code id (auto_score_route now sid st)"
| "otel_handle (Req_Score as_f64 uuid now payload) st = map_prod answer_code id (create_score as_f64 uuid now payload st)"
| "otel_handle (Req_Tag uuid payload) st = map_prod answer_code id (create_tag uuid payload st)"

text \<open>
  An export that is answered 200, enumerates its sessions, and re-uses no span id under another session; any other request.
\<close>
fun regular :: "otel_request \<Rightarrow> otel \<Rightarrow> bool" where
  "regular (Req_Traces env payload) st \<longleftrightarrow>
     fst (ingest_traces env payload st) = 200 \<and> (\<forall>xs. set (ing_order env xs) = set xs) \<and>
     stable_spans (process_export_request (ing_datetime env) payload) (otl_store st)"
| "regular (Req_Upsert body) st \<longleftrightarrow> True"
| "regular (Req_End like now today sid payload) st \<longleftrightarrow> True"
| "regular (Req_Auto_Score now sid) st \<longleftrightarrow> True"
| "regular (Req_Score as_f64 uuid now payload) st \<longleftrightarrow> True"
| "regular (Req_Tag uuid payload) st \<longleftrightarrow> True"

definition otel_start :: otel where
  "otel_start = \<lparr>otl_store = duck_open, otl_bus = default_capacity\<rparr>"

inductive otel_reach :: "otel \<Rightarrow> bool" where
  otel_init: "otel_reach otel_start"
| otel_next: "otel_reach st \<Longrightarrow> regular req st \<Longrightarrow> otel_reach (snd (otel_handle req st))"

section \<open>What the requests keep\<close>

text \<open>Sessions ingested over OTLP carry the sums of their spans; ids are unique.\<close>
definition ingested_exact :: "duck_store \<Rightarrow> bool" where
  "ingested_exact s \<longleftrightarrow> distinct (map ser_id (d_sessions s)) \<and>
     (\<forall>r \<in> set (d_sessions s). ser_created_by r = Some ''otel_ingest'' \<longrightarrow> totals_exact s r)"

lemma created_by_text:
  "created_by_as_str By_OtelIngest = ''otel_ingest''" "created_by_as_str By_Api = ''api''"
  "created_by_from_str ''otel_ingest'' = Some By_OtelIngest" "created_by_from_str ''api'' = Some By_Api"
  by (simp_all add: created_by_from_str_def)

text \<open>Operations that leave sessions and spans alone.\<close>

named_theorems tele_frames \<open>operations that keep the sessions and the spans\<close>

definition core :: "duck_store \<Rightarrow> session_row list \<times> span_row list" where
  "core s = (d_sessions s, d_spans s)"

lemma core_ingested: "core s = core s' \<Longrightarrow> ingested_exact s \<longleftrightarrow> ingested_exact s'"
  by (simp add: core_def ingested_exact_def totals_exact_iff spans_of_def)

lemma core_score [tele_frames]: "frame core (insert_score sc)"
  and core_tag [tele_frames]: "frame core (insert_tag t)"
  and core_daily [tele_frames]: "frame core (upsert_daily_aggregate a)"
  by (auto simp: insert_score_def insert_tag_def upsert_daily_aggregate_def core_def intro!: frame_replace)

lemma core_alert [tele_frames]: "frame core (insert_alert_event ev)"
  by (auto simp: insert_alert_event_def core_def intro!: frame_insert)

lemma core_auto_score [tele_frames]: "frame core (auto_score_session now sid)"
  unfolding auto_score_session_def Let_def
  by (rule frame_state) (intro frame_bind frame_for_each frame_ret tele_frames)

lemma core_compute_daily [tele_frames]: "frame core (compute_daily_aggregates like date)"
proof -
  have "frame core (\<lambda>s. case daily_aggregates_for like date s0 of Inl e \<Rightarrow> (Inl e, s)
      | Inr aggs \<Rightarrow> bind (for_each upsert_daily_aggregate aggs) (\<lambda>_. ret aggs) s)" for s0
  proof (cases "daily_aggregates_for like date s0")
    case (Inl e)
    then show ?thesis by (simp add: frame_def)
  next
    case (Inr aggs)
    have "frame core (bind (for_each upsert_daily_aggregate aggs) (\<lambda>_. ret aggs))"
      by (intro frame_bind frame_for_each frame_ret tele_frames)
    with Inr show ?thesis by simp
  qed
  then show ?thesis unfolding compute_daily_aggregates_def by (rule frame_state)
qed

lemma core_snd: "frame core m \<Longrightarrow> core (snd (m s)) = core s"
  by (simp add: frame_def)

lemma core_raise_alerts: "core (raise_alerts uuid now cents xs s) = core s"
proof -
  have "core (foldl (\<lambda>s (i, x). snd (insert_alert_event (alert_of uuid now cents i x) s)) s ys) = core s" for ys
    by (induction ys arbitrary: s) (auto simp: core_snd core_alert)
  then show ?thesis by (simp add: raise_alerts_def)
qed

text \<open>Opening sessions adds rows for session ids of the batch only.\<close>
lemma open_sessions_effect:
  assumes "open_sessions seen sps s = (started, s')" and "distinct (map ser_id (d_sessions s))"
  shows "d_spans s' = d_spans s \<and> distinct (map ser_id (d_sessions s')) \<and>
    (\<forall>r \<in> set (d_sessions s'). r \<in> set (d_sessions s) \<or> ser_id r \<in> spn_session_id ` set sps)"
  using assms
proof (induction sps arbitrary: seen s started)
  case (Cons sp sps)
  let ?sid = "spn_session_id sp"
  show ?case
  proof (cases "?sid \<notin> set seen \<and> duck_get_session ?sid s = None")
    case True
    define s1 where "s1 = d_sessions_update (replace_rows ser_id (\<lambda>old new. new\<lparr>ser_synced := ser_synced old\<rparr>)
      (session_to_row (auto_session sp))) s"
    have ins: "insert_session (auto_session sp) s = (Inr (), s1)" by (simp add: insert_session_def s1_def)
    obtain started1 where rest: "open_sessions (?sid # seen) sps s1 = (started1, s')"
      using Cons.prems(1) True ins by (auto simp: Let_def split: prod.splits)
    have fresh: "\<not> list_ex (\<lambda>x. ser_id x = ?sid) (d_sessions s)"
      using True by (auto simp: duck_get_session_def find_None_iff list_ex_iff)
    have s1: "d_sessions s1 = d_sessions s @ [session_to_row (auto_session sp)]" "d_spans s1 = d_spans s"
      using fresh by (simp_all add: s1_def replace_rows_def auto_session_def)
    have "distinct (map ser_id (d_sessions s1))"
      using Cons.prems(2) fresh by (auto simp: s1 auto_session_def list_ex_iff)
    from Cons.IH [OF rest this] show ?thesis by (auto simp: s1 auto_session_def)
  next
    case False
    then obtain seen' where "open_sessions seen' sps s = (started, s')"
      using Cons.prems(1) by (auto simp: Let_def split: if_splits)
    from Cons.IH [OF this Cons.prems(2)] show ?thesis by auto
  qed
qed simp

lemma insert_spans_exact:
  assumes ok: "insert_spans order spans s = (Inr (), s')" and order: "\<And>xs. set (order xs) = set xs"
    and stable: "stable_spans spans s" and r': "r' \<in> set (d_sessions s')"
  shows "if ser_id r' \<in> spn_session_id ` set spans then totals_exact s' r'
    else r' \<in> set (d_sessions s) \<and> (totals_exact s r' \<longrightarrow> totals_exact s' r')"
proof -
  obtain s1 where s1: "for_each insert_span spans s = (Inr (), s1)" "d_sessions s1 = d_sessions s"
      "\<forall>a. a \<notin> spn_session_id ` set spans \<longrightarrow> spans_of a s1 = spans_of a s"
    using insert_all_spans [OF stable] by auto
  have upd: "for_each update_session_aggregates (order (remdups (map spn_session_id spans))) s1 = (Inr (), s')"
    using ok s1(1) by (simp add: insert_spans_def bind_def)
  have cases: "if ser_id r' \<in> spn_session_id ` set spans then totals_exact s' r' else r' \<in> set (d_sessions s1)"
    using update_aggregates_all(2) [OF upd r'] by (simp add: order)
  show ?thesis
  proof (cases "ser_id r' \<in> spn_session_id ` set spans")
    case False
    have "parts_of (ser_id r') s' = parts_of (ser_id r') s"
      using update_aggregates_all(1) [OF upd] s1(3) False by (simp add: parts_of_def)
    then have "totals_exact s r' = totals_exact s' r'" by (intro totals_exact_parts) simp
    with False cases s1(2) show ?thesis by simp
  qed (use cases in simp)
qed

lemma insert_spans_ids:
  assumes "insert_spans order spans s = (Inr (), s')"
  shows "map ser_id (d_sessions s') = map ser_id (d_sessions s)"
proof -
  have spans: "d_sessions (snd (for_each insert_span sps t)) = d_sessions t" for sps t
    by (induction sps arbitrary: t) (simp_all del: for_each.simps(2) add: for_each_insert_span)
  have upd: "map ser_id (d_sessions t') = map ser_id (d_sessions t)"
    if "for_each update_session_aggregates ids t = (Inr (), t')" for ids t t'
    using that
  proof (induction ids arbitrary: t)
    case (Cons i ids)
    obtain t1 where "update_session_aggregates i t = (Inr (), t1)" "for_each update_session_aggregates ids t1 = (Inr (), t')"
      using Cons.prems by (auto dest!: bind_InrD)
    with Cons.IH [of t1] update_aggregates_ok(1) [of i t t1] show ?case by (simp add: map_update_where)
  qed simp
  obtain u s1 where "for_each insert_span spans s = (Inr u, s1)"
      "for_each update_session_aggregates (order (remdups (map spn_session_id spans))) s1 = (Inr (), s')"
    using bind_InrD [OF assms [unfolded insert_spans_def]] by auto
  with upd [of _ s1 s'] spans [of spans s] show ?thesis by simp
qed

lemma ingest_keeps:
  assumes "ingested_exact (otl_store st)" and "fst (ingest_traces env payload st) = 200"
    and order: "\<forall>xs. set (ing_order env xs) = set xs"
    and stable: "stable_spans (process_export_request (ing_datetime env) payload) (otl_store st)"
  shows "ingested_exact (otl_store (snd (ingest_traces env payload st)))"
proof -
  let ?spans = "process_export_request (ing_datetime env) payload"
  show ?thesis
  proof (cases "?spans = []")
    case True
    then show ?thesis using assms(1) by (simp add: ingest_traces_def ingest_spans_def)
  next
    case False
    obtain started s1 where opened: "open_sessions [] ?spans (otl_store st) = (started, s1)" by fastforce
    obtain r s2 where ins: "insert_spans (ing_order env) ?spans s1 = (r, s2)" by fastforce
    have r: "r = Inr ()"
      using assms(2) False opened ins by (cases r) (auto simp: ingest_traces_def ingest_spans_def)
    have store: "core (otl_store (snd (ingest_traces env payload st))) = core s2"
      using False opened ins r by (simp add: ingest_traces_def ingest_spans_def Let_def core_raise_alerts)
    have distinct: "distinct (map ser_id (d_sessions (otl_store st)))"
      and exact: "\<forall>r \<in> set (d_sessions (otl_store st)). ser_created_by r = Some ''otel_ingest'' \<longrightarrow> totals_exact (otl_store st) r"
      using assms(1) by (auto simp: ingested_exact_def)
    note eff = open_sessions_effect [OF opened distinct]
    have "d_spans s1 = d_spans (otl_store st)" using eff by simp
    with stable have stable1: "stable_spans ?spans s1" unfolding stable_spans_def by (simp only:)
    have same: "totals_exact s1 r = totals_exact (otl_store st) r" for r
      using eff by (simp add: totals_exact_def spans_of_def)
    have "totals_exact s2 r'"
      if r': "r' \<in> set (d_sessions s2)" and prov: "ser_created_by r' = Some ''otel_ingest''" for r'
    proof (cases "ser_id r' \<in> spn_session_id ` set ?spans")
      case True
      then show ?thesis using insert_spans_exact [OF ins [unfolded r] _ stable1 r'] order by simp
    next
      case False
      with insert_spans_exact [OF ins [unfolded r] _ stable1 r'] order
      have old: "r' \<in> set (d_sessions s1)" "totals_exact s1 r' \<longrightarrow> totals_exact s2 r'" by simp_all
      with eff False have "r' \<in> set (d_sessions (otl_store st))" by blast
      with exact prov old same show ?thesis by simp
    qed
    moreover have "distinct (map ser_id (d_sessions s2))"
      using insert_spans_ids [OF ins [unfolded r]] eff by simp
    ultimately have "ingested_exact s2" by (simp add: ingested_exact_def)
    with core_ingested [OF store] show ?thesis by simp
  qed
qed

lemma session_with_id:
  assumes "distinct (map ser_id (d_sessions s))" and "r \<in> set (d_sessions s)"
  shows "duck_get_session (ser_id r) s = Some (row_to_session r)"
  using find_key_eq [OF assms] by (simp add: duck_get_session_def)

lemma upsert_session_keeps:
  assumes inv: "ingested_exact (otl_store st)"
  shows "ingested_exact (otl_store (snd (upsert_session body st)))"
proof (cases "snd (upsert_session body st) = st")
  case True
  with inv show ?thesis by simp
next
  case False
  let ?s = "otl_store st"
  have guard: "ses_created_by se = By_Api" if "duck_get_session (sub_id body) ?s = Some se" for se
    using False that by (auto simp: upsert_session_def split: if_splits)
  obtain inp out where "snd (upsert_session body st) = snd (store_upserted (upserted_session body inp out) st)"
    using guard by (cases "duck_get_session (sub_id body) ?s") (auto simp: upsert_session_def)
  then obtain new where new: "otl_store (snd (upsert_session body st)) =
      d_sessions_update (replace_rows ser_id (\<lambda>old new. new\<lparr>ser_synced := ser_synced old\<rparr>) new) ?s"
      "ser_id new = sub_id body" "ser_created_by new = Some ''api''"
    by (auto simp: store_upserted_def insert_session_def upserted_session_def session_to_row_def created_by_text)
  have distinct: "distinct (map ser_id (d_sessions ?s))"
    and exact: "\<forall>r \<in> set (d_sessions ?s). ser_created_by r = Some ''otel_ingest'' \<longrightarrow> totals_exact ?s r"
    using inv by (auto simp: ingested_exact_def)
  let ?rows = "replace_rows ser_id (\<lambda>old new. new\<lparr>ser_synced := ser_synced old\<rparr>) new (d_sessions ?s)"
  have keep: "r \<in> set (d_sessions ?s)" if "r \<in> set ?rows" "ser_created_by r = Some ''otel_ingest''" for r
    using that new(3) by (auto simp: replace_rows_def set_update_where split: if_splits)
  have "distinct (map ser_id ?rows)" by (rule distinct_replace_rows) (simp_all add: distinct)
  moreover have "totals_exact (otl_store (snd (upsert_session body st))) r"
    if "r \<in> set ?rows" "ser_created_by r = Some ''otel_ingest''" for r
    using exact keep [OF that] that(2) by (simp add: new(1) totals_exact_def spans_of_def)
  ultimately show ?thesis by (simp add: ingested_exact_def new(1))
qed

lemma end_keeps:
  assumes inv: "ingested_exact (otl_store st)"
  shows "ingested_exact (otl_store (snd (end_session like now today sid payload st)))"
proof -
  define s where "s = snd (duck_end_session (now 0) sid (unwrap_or ''completed'' (json_str ''status'' payload)) (otl_store st))"
  have "core (otl_store (snd (end_session like now today sid payload st))) = core s"
    by (simp add: end_session_def Let_def s_def duck_end_session_def bind_def core_snd core_compute_daily core_score core_auto_score
        split: prod.splits sum.splits)
  moreover have "ingested_exact s"
  proof -
    have rows: "d_sessions s = update_where (\<lambda>r. ser_id r = sid)
        (\<lambda>r. r\<lparr>ser_status := unwrap_or ''completed'' (json_str ''status'' payload), ser_ended_at := Some (now 0)\<rparr>) (d_sessions (otl_store st))"
      and spans: "d_spans s = d_spans (otl_store st)"
      by (simp_all add: s_def duck_end_session_def bind_def)
    have "map ser_id (d_sessions s) = map ser_id (d_sessions (otl_store st))" by (simp add: rows map_update_where)
    then show ?thesis
      using inv by (auto simp: ingested_exact_def rows set_update_where totals_exact_iff spans_of_def spans)
  qed
  ultimately show ?thesis using core_ingested by blast
qed

lemma otel_handle_keeps:
  assumes "ingested_exact (otl_store st)" and "regular req st"
  shows "ingested_exact (otl_store (snd (otel_handle req st)))"
proof (cases req)
  case (Req_Traces env payload)
  with assms show ?thesis by (simp add: ingest_keeps)
next
  case (Req_Upsert body)
  with assms show ?thesis by (simp add: upsert_session_keeps)
next
  case (Req_End like now today sid payload)
  with assms show ?thesis by (simp add: end_keeps)
next
  case (Req_Auto_Score now sid)
  have "core (otl_store (snd (auto_score_route now sid st))) = core (otl_store st)"
    using core_snd [OF core_auto_score, of now sid "otl_store st"]
    by (auto simp: auto_score_route_def split: prod.splits sum.splits)
  from core_ingested [OF this] assms(1) Req_Auto_Score show ?thesis by simp
next
  case (Req_Score as_f64 uuid now payload)
  have "core (otl_store (snd (create_score as_f64 uuid now payload st))) = core (otl_store st)"
    by (simp add: create_score_def insert_score_def core_def)
  from core_ingested [OF this] assms(1) Req_Score show ?thesis by simp
next
  case (Req_Tag uuid payload)
  have "core (otl_store (snd (create_tag uuid payload st))) = core (otl_store st)"
    by (simp add: create_tag_def insert_tag_def core_def)
  from core_ingested [OF this] assms(1) Req_Tag show ?thesis by simp
qed

lemma otel_reach_exact: "otel_reach st \<Longrightarrow> ingested_exact (otl_store st)"
  by (induction rule: otel_reach.induct)
    (simp add: otel_start_def duck_open_def ingested_exact_def, rule otel_handle_keeps)

section \<open>Session totals\<close>

lemma ingested_row:
  assumes "duck_get_session sid s = Some se" and "ses_created_by se = By_OtelIngest"
  shows "\<exists>r \<in> set (d_sessions s). ser_id r = sid \<and> row_to_session r = se \<and> ser_created_by r = Some ''otel_ingest''"
proof -
  obtain r where r: "find (\<lambda>r. ser_id r = sid) (d_sessions s) = Some r" "se = row_to_session r"
    using assms(1) by (auto simp: duck_get_session_def)
  from r(1) have "r \<in> set (d_sessions s)" "ser_id r = sid" using find_SomeD by fastforce+
  moreover have "ser_created_by r = Some ''otel_ingest''"
    using assms(2) r(2)
    by (auto simp: row_to_session_def unwrap_or_def created_by_from_str_def split: option.splits bind_splits if_splits)
  ultimately show ?thesis using r(2) by blast
qed

text \<open>C24: 
  In every state the routes reach by regular requests, the totals the session route answers for a session ingested over OTLP
  are the sums over the spans the span route answers for it; no upsert, end or score request disturbs them.
\<close>
theorem ingested_totals:
  assumes "otel_reach st" and "get_session_route sid st = Answer 200 se" and "ses_created_by se = By_OtelIngest"
    and "get_spans sid st = Answer 200 spans"
  shows "ses_total_cost_usd se = sum_list (map spn_cost_usd spans) \<and>
    ses_total_input_tokens se = sum_list (map spn_input_tokens spans) \<and>
    ses_total_output_tokens se = sum_list (map spn_output_tokens spans)"
proof -
  let ?s = "otl_store st"
  have "duck_get_session sid ?s = Some se" using assms(2) by (auto simp: get_session_route_def split: option.splits)
  from ingested_row [OF this assms(3)] obtain r where r: "r \<in> set (d_sessions ?s)" "ser_id r = sid" "row_to_session r = se"
      "ser_created_by r = Some ''otel_ingest''" by blast
  have "totals_exact ?s r" using otel_reach_exact [OF assms(1)] r(1,4) by (simp add: ingested_exact_def)
  then have "ser_total_cost_usd r = cost_sum (spans_of sid ?s)" "ser_total_input_tokens r = input_sum (spans_of sid ?s)"
    "ser_total_output_tokens r = output_sum (spans_of sid ?s)"
    using r(2) by (simp_all add: totals_exact_iff)
  moreover have "spans = query_spans sid ?s" using assms(4) by (simp add: get_spans_def)
  ultimately show ?thesis using r(3) by (auto simp: query_spans_sums row_to_session_def)
qed

text \<open>A one-span export, the input of the evaluations below.\<close>
definition sample_export :: "string \<Rightarrow> string \<Rightarrow> i64 \<Rightarrow> f64 \<Rightarrow> otlp_export_request" where
  "sample_export session span_id tokens cost =
     \<lparr>oex_resource_spans = [\<lparr>ors_resource = Some \<lparr>ore_attributes =
        [\<lparr>okv_key = ''session.id'', okv_value = Some \<lparr>oav_string_value = Some session, oav_int_value = None, oav_double_value = None\<rparr>\<rparr>]\<rparr>,
      ors_scope_spans = [\<lparr>osc_spans = [\<lparr>osp_trace_id = ''t'', osp_span_id = span_id, osp_parent_span_id = None, osp_name = ''chat'',
        osp_start_time_unix_nano = 0, osp_end_time_unix_nano = 5000000, osp_attributes =
          [\<lparr>okv_key = ''ai.tokens.input'', okv_value = Some \<lparr>oav_string_value = None, oav_int_value = Some tokens, oav_double_value = None\<rparr>\<rparr>,
           \<lparr>okv_key = ''ai.cost.usd'', okv_value = Some \<lparr>oav_string_value = None, oav_int_value = None, oav_double_value = Some cost\<rparr>\<rparr>],
        osp_status = None\<rparr>]\<rparr>]\<rparr>]\<rparr>"

definition sample_env :: ingest_env where
  "sample_env = \<lparr>ing_datetime = (\<lambda>secs ns. ''2026-01-01T00:00:00Z''), ing_order = (\<lambda>xs. xs), ing_uuid = show_nat,
     ing_now = (\<lambda>i. ''2026-01-01T00:00:00Z''), ing_cents = (\<lambda>c. '''')\<rparr>"

lemma sample_env_simps [simp]: "ing_order sample_env = (\<lambda>xs. xs)" "ing_uuid sample_env = show_nat"
  "ing_cents sample_env = (\<lambda>c. [])" "ing_now sample_env = (\<lambda>i. ''2026-01-01T00:00:00Z'')"
  "ing_datetime sample_env = (\<lambda>secs ns. ''2026-01-01T00:00:00Z'')"
  by (simp_all add: sample_env_def)

lemma sample_spans: "process_export_request (\<lambda>secs ns. ''2026-01-01T00:00:00Z'') (sample_export session span_id tokens cost) =
  [\<lparr>spn_span_id = span_id, spn_trace_id = ''t'', spn_parent_span_id = None, spn_session_id = session,
    spn_agent_name = ''unknown'', spn_operation_name = ''chat'', spn_span_type = Ty_Span, spn_model = None,
    spn_input_tokens = tokens, spn_output_tokens = 0, spn_cost_usd = cost, spn_status = Span_Unset,
    spn_started_at = ''2026-01-01T00:00:00Z'', spn_duration_ms = 5,
    spn_attributes = [''ai.tokens.input'' \<mapsto> Attr_Int (sint tokens), ''ai.cost.usd'' \<mapsto> Attr_Float cost], spn_project_id = None\<rparr>]"
  by (simp add: sample_export_def process_export_request_def process_resource_def convert_span_def Let_def
      resource_text_def find_attr2_def find_attr_def string_val_def int_val_def double_val_def span_duration_ms_def
      classify_span_def span_status_of_def nanos_to_datetime_def collect_attrs_def attr_json_of_def List.map_filter_simps fun_eq_iff)

lemma i64_ok_sint [simp]: "i64_ok (sint (w :: u64))"
  using sint_greater_eq [of w] sint_less [of w] by (simp add: i64_ok_def)

lemma i64_ok_0 [simp]: "i64_ok 0"
  by (simp add: i64_ok_def)

text \<open>The state after one export into a fresh kernel.\<close>
lemma sample_ingest:
  "otl_store (snd (ingest_traces sample_env (sample_export session span_id tokens cost) otel_start)) =
    (let sp = hd (process_export_request (\<lambda>secs ns. ''2026-01-01T00:00:00Z'') (sample_export session span_id tokens cost))
     in duck_open\<lparr>d_sessions := [set_totals [span_to_row sp] (session_to_row (auto_session sp))], d_spans := [span_to_row sp]\<rparr>)"
  "fst (ingest_traces sample_env (sample_export session span_id tokens cost) otel_start) = 200"
  by (simp_all add: ingest_traces_def ingest_spans_def sample_spans Let_def otel_start_def duck_open_def duck_get_session_def
      insert_session_def insert_spans_def insert_span_def replace_rows_def bind_def update_session_aggregates_def
      spans_of_def project_of_def set_totals_def input_sum_def output_sum_def cost_sum_def
      fired_alerts_def list_alert_rules_def raise_alerts_def auto_session_def session_to_row_def span_to_row_def)

lemma sample_regular: "regular (Req_Traces sample_env (sample_export session span_id tokens cost)) otel_start"
  using sample_ingest(2) by (simp add: stable_spans_def sample_spans otel_start_def duck_open_def)

lemma otel_sample_reach: "otel_reach (snd (ingest_traces sample_env (sample_export session span_id tokens cost) otel_start))"
  using otel_next [OF otel_init sample_regular] by simp

lemma ingested_totals_witness:
  "\<exists>se. get_session_route ''a'' (snd (ingest_traces sample_env (sample_export ''a'' ''x'' 7 (1 / 2)) otel_start)) = Answer 200 se \<and>
     ses_total_cost_usd se = 1 / 2 \<and> ses_total_input_tokens se = 7"
proof -
  let ?st = "snd (ingest_traces sample_env (sample_export ''a'' ''x'' 7 (1 / 2)) otel_start)"
  obtain se where se: "get_session_route ''a'' ?st = Answer 200 se" "ses_created_by se = By_OtelIngest"
    by (simp add: get_session_route_def duck_get_session_def sample_ingest(1) sample_spans Let_def duck_open_def row_to_session_def
        set_totals_def session_to_row_def auto_session_def created_by_text)
  have spans: "get_spans ''a'' ?st = Answer 200 (process_export_request (ing_datetime sample_env) (sample_export ''a'' ''x'' 7 (1 / 2)))"
    by (simp add: get_spans_def query_spans_def spans_of_def sample_ingest(1) sample_spans Let_def duck_open_def
        order_asc_def span_row_roundtrip)
  from ingested_totals [OF otel_sample_reach se spans] se(1) show ?thesis by (simp add: sample_spans)
qed

text \<open>
  A span id reported again under another session takes the span away from the first session, whose total is not
  recomputed: its cost stays counted although it has no span left.
\<close>
theorem moved_span_stays_counted:
  assumes "a \<noteq> b"
    and st1: "st1 = snd (ingest_traces sample_env (sample_export a span_id 0 cost) otel_start)"
    and st2: "st2 = snd (ingest_traces sample_env (sample_export b span_id 0 cost) st1)"
  shows "fst (ingest_traces sample_env (sample_export b span_id 0 cost) st1) = 200 \<and>
    get_spans a st2 = Answer 200 [] \<and>
    (\<exists>se. get_session_route a st2 = Answer 200 se \<and> ses_total_cost_usd se = cost) \<and>
    (\<exists>x. get_analytics_route None None st2 = Answer 200 x \<and> ana_total_spans x = 1 \<and> ana_total_cost_usd x = cost + cost)"
proof -
  let ?sp = "\<lambda>s. hd (process_export_request (ing_datetime sample_env) (sample_export s span_id 0 cost))"
  have s1: "otl_store st1 = duck_open\<lparr>d_sessions := [set_totals [span_to_row (?sp a)] (session_to_row (auto_session (?sp a)))],
      d_spans := [span_to_row (?sp a)]\<rparr>"
    using sample_ingest(1) [of a span_id 0 cost] by (simp add: st1 Let_def)
  have both: "fst (ingest_traces sample_env (sample_export b span_id 0 cost) st1) = 200 \<and>
      otl_store st2 = duck_open\<lparr>d_sessions := [set_totals [span_to_row (?sp a)] (session_to_row (auto_session (?sp a))),
        set_totals [span_to_row (?sp b)] (session_to_row (auto_session (?sp b)))], d_spans := [span_to_row (?sp b)]\<rparr>"
    using assms(1) unfolding st2
    by (simp add: ingest_traces_def ingest_spans_def sample_spans s1 Let_def duck_open_def duck_get_session_def
      insert_session_def insert_spans_def insert_span_def replace_rows_def bind_def update_session_aggregates_def
      spans_of_def project_of_def set_totals_def input_sum_def output_sum_def cost_sum_def
      fired_alerts_def list_alert_rules_def raise_alerts_def auto_session_def session_to_row_def span_to_row_def)
  then have s2: "otl_store st2 = duck_open\<lparr>d_sessions := [set_totals [span_to_row (?sp a)] (session_to_row (auto_session (?sp a))),
        set_totals [span_to_row (?sp b)] (session_to_row (auto_session (?sp b)))], d_spans := [span_to_row (?sp b)]\<rparr>" by simp
  have "get_spans a st2 = Answer 200 []"
    using assms(1) by (simp add: get_spans_def query_spans_def spans_of_def s2 duck_open_def order_asc_def sample_spans)
  moreover have "\<exists>se. get_session_route a st2 = Answer 200 se \<and> ses_total_cost_usd se = cost"
    by (simp add: get_session_route_def duck_get_session_def s2 duck_open_def sample_spans auto_session_def session_to_row_def
        set_totals_def row_to_session_def cost_sum_def span_to_row_def)
  moreover have "\<exists>x. get_analytics_route None None st2 = Answer 200 x \<and> ana_total_spans x = 1 \<and> ana_total_cost_usd x = cost + cost"
    by (simp add: get_analytics_route_def with_provenance_def parse_created_by_filter_def answered_def get_analytics_def Let_def
        sessions_provenance_filter_def spans_provenance_join_def s2 duck_open_def session_cost_def set_totals_def cost_sum_def
        sample_spans span_to_row_def input_sum_def output_sum_def spans_by_model_def group_by_def order_desc_def)
  ultimately show ?thesis using both by blast
qed

lemma moved_span_stays_counted_witness:
  "get_spans ''a'' (snd (ingest_traces sample_env (sample_export ''b'' ''x'' 0 (1 / 2))
     (snd (ingest_traces sample_env (sample_export ''a'' ''x'' 0 (1 / 2)) otel_start)))) = Answer 200 []"
  using moved_span_stays_counted [of "''a''" "''b''", OF _ refl refl] by blast

section \<open>Alerts\<close>

lemma raise_alerts_events:
  assumes "inj uuid" and "\<forall>i. uuid i \<notin> ale_id ` set (d_alert_events s)"
  shows "d_alert_events (raise_alerts uuid now cents xs s) =
    d_alert_events s @ map (\<lambda>(i, x). alert_of uuid now cents i x) (enumerate 0 xs)"
proof -
  have step: "d_alert_events (foldl (\<lambda>s (i, x). snd (insert_alert_event (alert_of uuid now cents i x) s)) s (enumerate n xs)) =
      d_alert_events s @ map (\<lambda>(i, x). alert_of uuid now cents i x) (enumerate n xs)"
    if "\<forall>i \<ge> n. uuid i \<notin> ale_id ` set (d_alert_events s)" for n s
    using that
  proof (induction xs arbitrary: n s)
    case (Cons x xs)
    let ?ev = "alert_of uuid now cents n x"
    have evid: "ale_id ?ev = uuid n" by (simp add: alert_of_def split: prod.splits)
    have "\<not> list_ex (\<lambda>old. ale_id old = ale_id ?ev) (d_alert_events s)"
      using Cons.prems evid by (auto simp: list_ex_iff) (metis imageI order_refl)
    then have ins: "d_alert_events (snd (insert_alert_event ?ev s)) = d_alert_events s @ [?ev]"
      by (simp add: insert_alert_event_def sql_insert_def)
    have "\<forall>i \<ge> Suc n. uuid i \<notin> ale_id ` set (d_alert_events (snd (insert_alert_event ?ev s)))"
      using Cons.prems assms(1) by (auto simp: ins evid inj_def) (metis Suc_n_not_le_n)
    from Cons.IH [OF this] show ?case by (simp add: ins)
  qed simp
  show ?thesis unfolding raise_alerts_def by (rule step) (use assms(2) in simp)
qed

lemma raise_alerts_rules: "d_alert_rules (raise_alerts uuid now cents xs s) = d_alert_rules s"
proof -
  have "d_alert_rules (snd (insert_alert_event ev s)) = d_alert_rules s" for ev s
    by (simp add: insert_alert_event_def sql_insert_def)
  then have "d_alert_rules (foldl (\<lambda>s (i, x). snd (insert_alert_event (alert_of uuid now cents i x) s)) s ys) = d_alert_rules s" for ys
    by (induction ys arbitrary: s) auto
  then show ?thesis by (simp add: raise_alerts_def)
qed

definition alert_tables :: "duck_store \<Rightarrow> alert_rule list \<times> alert_event list" where
  "alert_tables s = (d_alert_rules s, d_alert_events s)"

lemma frame_insert_spans: "frame alert_tables (insert_spans order spans)"
proof -
  have "frame alert_tables (insert_span sp)" for sp
    unfolding insert_span_def by (rule frame_replace) (simp add: alert_tables_def)
  moreover have "frame alert_tables (update_session_aggregates sid)" for sid
    by (auto simp: frame_def update_session_aggregates_def bind_def alert_tables_def)
  ultimately show ?thesis unfolding insert_spans_def by (intro frame_bind frame_for_each)
qed

lemma alerts_open_sessions: "open_sessions seen sps s = (started, s') \<Longrightarrow> alert_tables s' = alert_tables s"
proof (induction sps arbitrary: seen s started)
  case (Cons sp sps)
  have ins: "insert_session se t = (Inr (), t') \<Longrightarrow> alert_tables t' = alert_tables t" for se t t'
    by (auto simp: insert_session_def alert_tables_def)
  show ?case
    using Cons.prems Cons.IH ins by (auto simp: Let_def insert_session_def split: if_splits prod.splits)
qed simp

text \<open>
  An export that is stored raises, for every session of the batch and every enabled session\_cost rule whose threshold its new
  total exceeds, one alert, with no regard to alerts already raised for the same session and rule.
\<close>
theorem alerts_raised:
  assumes "process_export_request (ing_datetime env) payload \<noteq> []" and "fst (ingest_traces env payload st) = 200"
    and "inj (ing_uuid env)" and "\<forall>i. ing_uuid env i \<notin> ale_id ` set (d_alert_events (otl_store st))"
  shows "d_alert_events (otl_store (snd (ingest_traces env payload st))) =
    d_alert_events (otl_store st) @
    map (\<lambda>(i, x). alert_of (ing_uuid env) (ing_now env) (ing_cents env) i x)
      (enumerate 0 (fired_alerts
        (ing_order env (remdups (map spn_session_id (process_export_request (ing_datetime env) payload))))
        (otl_store (snd (ingest_traces env payload st)))))"
proof -
  let ?spans = "process_export_request (ing_datetime env) payload"
  obtain started s1 where opened: "open_sessions [] ?spans (otl_store st) = (started, s1)" by fastforce
  obtain r s2 where ins: "insert_spans (ing_order env) ?spans s1 = (r, s2)" by fastforce
  have r: "r = Inr ()"
    using assms(1,2) opened ins by (cases r) (auto simp: ingest_traces_def ingest_spans_def)
  define xs where "xs = fired_alerts (ing_order env (remdups (map spn_session_id ?spans))) s2"
  have final: "otl_store (snd (ingest_traces env payload st)) = raise_alerts (ing_uuid env) (ing_now env) (ing_cents env) xs s2"
    using assms(1) opened ins r by (simp add: ingest_traces_def ingest_spans_def Let_def xs_def)
  have "alert_tables s2 = alert_tables (otl_store st)"
    using frameD [OF frame_insert_spans ins] alerts_open_sessions [OF opened] by simp
  then have old: "d_alert_events s2 = d_alert_events (otl_store st)" by (simp add: alert_tables_def)
  have same: "fired_alerts ids (raise_alerts uuid now cents ys s2) = fired_alerts ids s2" for ids uuid now cents ys
    using core_raise_alerts [of uuid now cents ys s2]
    by (simp add: fired_alerts_def list_alert_rules_def raise_alerts_rules core_def duck_get_session_def cong: option.case_cong)
  show ?thesis
    unfolding final same using raise_alerts_events [OF assms(3), of s2] assms(4) by (simp add: old xs_def)
qed

lemma alerts_raised_witness:
  "length (d_alert_events (otl_store (snd (ingest_traces sample_env (sample_export ''a'' ''x'' 7 2)
     (otel_start\<lparr>otl_store := duck_open\<lparr>d_alert_rules := [\<lparr>alr_id = ''r'', alr_name = ''budget'',
        alr_condition_type = ''session_cost'', alr_threshold = 1, alr_action = ''warn'', alr_enabled = True\<rparr>]\<rparr>\<rparr>))))) = 1"
proof -
  let ?rule = "\<lparr>alr_id = ''r'', alr_name = ''budget'', alr_condition_type = ''session_cost'', alr_threshold = 1,
    alr_action = ''warn'', alr_enabled = True\<rparr>"
  let ?st = "otel_start\<lparr>otl_store := duck_open\<lparr>d_alert_rules := [?rule]\<rparr>\<rparr>"
  have store: "core (otl_store (snd (ingest_traces sample_env (sample_export ''a'' ''x'' 7 2) ?st))) =
      core (otl_store (snd (ingest_traces sample_env (sample_export ''a'' ''x'' 7 2) otel_start)))"
    and code: "fst (ingest_traces sample_env (sample_export ''a'' ''x'' 7 2) ?st) = 200"
    and rules: "d_alert_rules (otl_store (snd (ingest_traces sample_env (sample_export ''a'' ''x'' 7 2) ?st))) = [?rule]"
    by (simp_all add: ingest_traces_def ingest_spans_def sample_spans Let_def otel_start_def duck_open_def duck_get_session_def
      insert_session_def insert_spans_def insert_span_def replace_rows_def bind_def update_session_aggregates_def
      spans_of_def project_of_def set_totals_def input_sum_def output_sum_def cost_sum_def raise_alerts_rules
      auto_session_def session_to_row_def span_to_row_def core_raise_alerts i64_ok_def) (simp add: core_def)
  have inj: "inj show_nat" by (metis injI read_show_nat)
  have get: "duck_get_session ''a'' (otl_store (snd (ingest_traces sample_env (sample_export ''a'' ''x'' 7 2) ?st))) =
      duck_get_session ''a'' (otl_store (snd (ingest_traces sample_env (sample_export ''a'' ''x'' 7 2) otel_start)))"
    using store by (simp add: core_def duck_get_session_def)
  obtain se where "duck_get_session ''a'' (otl_store (snd (ingest_traces sample_env (sample_export ''a'' ''x'' 7 2) ?st))) = Some se"
      "ses_total_cost_usd se = 2"
    unfolding get
    by (simp add: sample_ingest(1) sample_spans duck_open_def duck_get_session_def Let_def set_totals_def cost_sum_def
        span_to_row_def session_to_row_def auto_session_def row_to_session_def)
  then have "length (fired_alerts [''a''] (otl_store (snd (ingest_traces sample_env (sample_export ''a'' ''x'' 7 2) ?st)))) = 1"
    by (simp add: fired_alerts_def list_alert_rules_def rules should_fire_def)
  then show ?thesis
    using alerts_raised [of sample_env "sample_export ''a'' ''x'' 7 2" ?st] code inj
    by (simp add: sample_spans duck_open_def)
qed

section \<open>The session upsert\<close>

text \<open>
  A session that OTLP ingest or the scheduler created is never overwritten by the upsert route: it answers 409 and changes
  nothing. Otherwise the row becomes the request's, under api, and keeps the token counts its spans gave it, but not the cost.
\<close>
theorem upsert_respects_provenance:
  assumes "upsert_session body st = (ans, st')"
  shows "if \<exists>se. duck_get_session (sub_id body) (otl_store st) = Some se \<and> ses_created_by se \<noteq> By_Api
    then answer_code ans = 409 \<and> st' = st
    else answer_code ans = 201 \<and> otl_bus st' = otl_bus st \<and>
      duck_get_session (sub_id body) (otl_store st') =
        Some (case duck_get_session (sub_id body) (otl_store st) of
                None \<Rightarrow> upserted_session body 0 0
              | Some se \<Rightarrow> upserted_session body (ses_total_input_tokens se) (ses_total_output_tokens se)) \<and>
      (\<forall>sid. sid \<noteq> sub_id body \<longrightarrow> duck_get_session sid (otl_store st') = duck_get_session sid (otl_store st))"
proof -
  have find: "find (\<lambda>r. ser_id r = a)
      (replace_rows ser_id (\<lambda>old new. new\<lparr>ser_synced := ser_synced old\<rparr>) (session_to_row se) rows) =
      (if ses_id se = a then Some (case find (\<lambda>r. ser_id r = a) rows of None \<Rightarrow> session_to_row se
            | Some x \<Rightarrow> (session_to_row se)\<lparr>ser_synced := ser_synced x\<rparr>)
       else find (\<lambda>r. ser_id r = a) rows)" for a se rows
    by (subst find_replace_rows) simp_all
  have again: "row_to_session ((session_to_row se)\<lparr>ser_synced := b\<rparr>) = se" for se b
    using session_row_roundtrip [of se] by (simp add: row_to_session_def)
  have stored: "duck_get_session a (otl_store (snd (store_upserted se st))) =
      (if ses_id se = a then Some se else duck_get_session a (otl_store st))"
    "answer_code (fst (store_upserted se st)) = 201" "otl_bus (snd (store_upserted se st)) = otl_bus st" for a se
    by (simp_all add: store_upserted_def insert_session_def duck_get_session_def session_row_roundtrip find again split: option.splits)
  have sid: "ses_id (upserted_session body i out) = sub_id body" for i out by (simp add: upserted_session_def)
  show ?thesis
  proof (cases "duck_get_session (sub_id body) (otl_store st)")
    case None
    then have "(ans, st') = store_upserted (upserted_session body 0 0) st" using assms by (simp add: upsert_session_def)
    then have "ans = fst (store_upserted (upserted_session body 0 0) st)" "st' = snd (store_upserted (upserted_session body 0 0) st)"
      by (metis fst_conv, metis snd_conv)
    with None show ?thesis by (simp add: stored sid)
  next
    case (Some se)
    show ?thesis
    proof (cases "ses_created_by se = By_Api")
      case False
      with Some assms show ?thesis by (auto simp: upsert_session_def)
    next
      case True
      let ?new = "upserted_session body (ses_total_input_tokens se) (ses_total_output_tokens se)"
      have eq: "(ans, st') = store_upserted ?new st" using assms Some True by (simp add: upsert_session_def)
      then have "ans = fst (store_upserted ?new st)" "st' = snd (store_upserted ?new st)" by (metis fst_conv, metis snd_conv)
      with Some True show ?thesis by (simp add: stored sid)
    qed
  qed
qed

definition sample_upsert :: "string \<Rightarrow> session_upsert_body" where
  "sample_upsert sid = \<lparr>sub_id = sid, sub_kind = ''uber.sinkin'', sub_workspace_id = None, sub_device_id = None,
     sub_agent_name = None, sub_started_at = ''2026-01-01T00:00:00Z'', sub_completed_at = None, sub_status = None,
     sub_cost_usd = None, sub_project_id = None, sub_metadata = None\<rparr>"

lemma upsert_respects_provenance_witness:
  "\<exists>ans. upsert_session (sample_upsert ''a'') (snd (ingest_traces sample_env (sample_export ''a'' ''x'' 7 2) otel_start)) =
     (ans, snd (ingest_traces sample_env (sample_export ''a'' ''x'' 7 2) otel_start)) \<and> answer_code ans = 409"
proof -
  let ?st = "snd (ingest_traces sample_env (sample_export ''a'' ''x'' 7 2) otel_start)"
  obtain ans st' where up: "upsert_session (sample_upsert ''a'') ?st = (ans, st')" by fastforce
  have "\<exists>se. duck_get_session (sub_id (sample_upsert ''a'')) (otl_store ?st) = Some se \<and> ses_created_by se \<noteq> By_Api"
    by (simp add: sample_upsert_def duck_get_session_def sample_ingest(1) sample_spans Let_def duck_open_def row_to_session_def
        set_totals_def session_to_row_def auto_session_def created_by_text)
  with upsert_respects_provenance [OF up] up show ?thesis by auto
qed

section \<open>The trace tree\<close>

text \<open>A tool span, the input of the evaluations below.\<close>
definition sample_span :: "string \<Rightarrow> string \<Rightarrow> string option \<Rightarrow> span" where
  "sample_span session span_id parent =
     \<lparr>spn_span_id = span_id, spn_trace_id = ''t'', spn_parent_span_id = parent, spn_session_id = session,
      spn_agent_name = ''unknown'', spn_operation_name = ''tool'', spn_span_type = Ty_Span, spn_model = None,
      spn_input_tokens = 0, spn_output_tokens = 0, spn_cost_usd = 0, spn_status = Span_Unset,
      spn_started_at = ''2026-01-01T00:00:00Z'', spn_duration_ms = 5, spn_attributes = Map.empty, spn_project_id = None\<rparr>"

text \<open>
  The trace tree is two levels deep: below each span without a parent it lists that span's own children. A span whose parent
  is neither missing nor such a root is nowhere in it, although the answer counts it.
\<close>
theorem trace_tree_two_levels:
  assumes "get_trace_tree sid st = Answer 200 t"
  shows "trt_span_count t = length (query_spans sid (otl_store st)) \<and>
    map trace_leaf.truncate (trt_spans t) =
      map trace_leaf_of (filter (\<lambda>sp. spn_parent_span_id sp = None) (query_spans sid (otl_store st))) \<and>
    concat (map tre_children (trt_spans t)) =
      concat (map (\<lambda>r. map trace_leaf_of (filter (\<lambda>c. spn_parent_span_id c = Some (spn_span_id r)) (query_spans sid (otl_store st))))
        (filter (\<lambda>sp. spn_parent_span_id sp = None) (query_spans sid (otl_store st))))"
  using assms
  by (auto simp: get_trace_tree_def Let_def build_node_def comp_def trace_leaf.defs trace_node.defs trace_leaf_of_def
      split: option.splits intro!: arg_cong [where f = concat])

lemma trace_tree_two_levels_witness:
  "\<exists>t. get_trace_tree ''a'' (otel_start\<lparr>otl_store := duck_open\<lparr>
       d_sessions := [session_to_row (auto_session (sample_span ''a'' ''p'' None))],
       d_spans := map span_to_row [sample_span ''a'' ''p'' None, sample_span ''a'' ''q'' (Some ''p''), sample_span ''a'' ''r'' (Some ''q'')]\<rparr>\<rparr>) =
     Answer 200 t \<and> trt_span_count t = 3 \<and> map tre_span_id (concat (map tre_children (trt_spans t))) = [''q'']"
proof -
  let ?spans = "[sample_span ''a'' ''p'' None, sample_span ''a'' ''q'' (Some ''p''), sample_span ''a'' ''r'' (Some ''q'')]"
  let ?st = "otel_start\<lparr>otl_store := duck_open\<lparr>d_sessions := [session_to_row (auto_session (sample_span ''a'' ''p'' None))],
       d_spans := map span_to_row ?spans\<rparr>\<rparr>"
  have spans: "query_spans ''a'' (otl_store ?st) = ?spans"
    by (simp add: query_spans_def spans_of_def order_asc_def sample_span_def span_row_roundtrip span_to_row_def row_to_span_def span_type_from_str_def)
  obtain t where t: "get_trace_tree ''a'' ?st = Answer 200 t"
    by (simp add: get_trace_tree_def duck_get_session_def auto_session_def sample_span_def Let_def)
  have "concat (map tre_children (trt_spans t)) = [trace_leaf_of (sample_span ''a'' ''q'' (Some ''p''))]" "trt_span_count t = 3"
    using trace_tree_two_levels [OF t] unfolding spans by (simp_all add: sample_span_def)
  with t show ?thesis by (simp add: trace_leaf_of_def sample_span_def)
qed

section \<open>The sync flag of telemetry rows\<close>

definition synced_sessions :: "duck_store \<Rightarrow> string set" where
  "synced_sessions s = ser_id ` {r \<in> set (d_sessions s). ser_synced r}"

named_theorems flag_intros \<open>operations that keep the sync flags of the sessions there are\<close>

definition session_flags :: "duck_store \<Rightarrow> (string \<times> bool) list" where
  "session_flags s = map (\<lambda>r. (ser_id r, ser_synced r)) (d_sessions s)"

definition keeps_flags :: "(duck_store, 'a) db \<Rightarrow> bool" where
  "keeps_flags m \<longleftrightarrow> (\<forall>s. prefix (session_flags s) (session_flags (snd (m s))))"

lemma keeps_flags_bind [flag_intros]: "keeps_flags m \<Longrightarrow> (\<And>x. keeps_flags (f x)) \<Longrightarrow> keeps_flags (bind m f)"
  unfolding keeps_flags_def
proof
  fix s
  assume m: "\<forall>s. prefix (session_flags s) (session_flags (snd (m s)))"
    and f: "\<And>x. \<forall>s. prefix (session_flags s) (session_flags (snd (f x s)))"
  show "prefix (session_flags s) (session_flags (snd (bind m f s)))"
  proof (cases "m s")
    case (Pair r s1)
    then have "prefix (session_flags s) (session_flags s1)" using m by (metis snd_conv)
    with Pair f show ?thesis by (cases r) (auto simp: bind_def intro: prefix_order.trans)
  qed
qed

lemma keeps_flags_for_each [flag_intros]: "(\<And>x. keeps_flags (f x)) \<Longrightarrow> keeps_flags (for_each f xs)"
proof (induction xs)
  case Nil
  show ?case by (simp add: keeps_flags_def)
next
  case (Cons x xs)
  have "keeps_flags (bind (f x) (\<lambda>_. for_each f xs))" by (rule keeps_flags_bind) (rule Cons.prems, rule Cons.IH [OF Cons.prems])
  then show ?case by simp
qed

lemma keeps_flags_frame: "frame core m \<Longrightarrow> keeps_flags m"
  by (simp add: frame_def keeps_flags_def core_def session_flags_def)

lemma keeps_flags_insert_session [flag_intros]: "keeps_flags (insert_session se)"
proof -
  have "prefix (map (\<lambda>r. (ser_id r, ser_synced r)) rows)
      (map (\<lambda>r. (ser_id r, ser_synced r)) (replace_rows ser_id (\<lambda>old new. new\<lparr>ser_synced := ser_synced old\<rparr>) (session_to_row se) rows))" for rows
  proof (cases "list_ex (\<lambda>x. ser_id x = ses_id se) rows")
    case True
    have "map (\<lambda>r. (ser_id r, ser_synced r))
        (update_where (\<lambda>x. ser_id x = ses_id se) (\<lambda>x. (session_to_row se)\<lparr>ser_synced := ser_synced x\<rparr>) rows) =
        map (\<lambda>r. (ser_id r, ser_synced r)) rows"
      by (rule map_update_where) (simp add: session_to_row_def)
    with True show ?thesis by (simp add: replace_rows_def)
  qed (simp add: replace_rows_def)
  then show ?thesis by (simp add: keeps_flags_def insert_session_def session_flags_def)
qed

lemma keeps_flags_update [flag_intros]:
  assumes "\<And>r. ser_id (f r) = ser_id r" and "\<And>r. ser_synced (f r) = ser_synced r"
  shows "keeps_flags (sql_update d_sessions d_sessions_update p f)"
  using assms by (simp add: keeps_flags_def session_flags_def map_update_where)

lemma keeps_flags_aggregates [flag_intros]: "keeps_flags (update_session_aggregates sid)"
proof -
  have "map (\<lambda>r. (ser_id r, ser_synced r)) (update_where p (set_totals rs) rows) = map (\<lambda>r. (ser_id r, ser_synced r)) rows" for p rs rows
    by (rule map_update_where) (simp add: set_totals_def)
  then show ?thesis by (simp add: keeps_flags_def update_session_aggregates_def bind_def session_flags_def)
qed

lemma keeps_flags_spans [flag_intros]: "keeps_flags (insert_spans order spans)"
proof -
  have "keeps_flags (insert_span sp)" for sp by (simp add: keeps_flags_def insert_span_def session_flags_def)
  then show ?thesis unfolding insert_spans_def by (intro flag_intros)
qed

lemma flags_open_sessions: "open_sessions seen sps s = (started, s') \<Longrightarrow> prefix (session_flags s) (session_flags s')"
proof (induction sps arbitrary: seen s started)
  case (Cons sp sps)
  have ins: "prefix (session_flags t) (session_flags (snd (insert_session se t)))" for se t
    using keeps_flags_insert_session by (simp add: keeps_flags_def)
  from Cons.prems obtain t seen' started' where "open_sessions seen' sps t = (started', s')"
      "t = s \<or> (\<exists>se. t = snd (insert_session se s))"
    by (auto simp: Let_def split: if_splits prod.splits sum.splits) (metis snd_conv)+
  with Cons.IH ins show ?case using prefix_order.trans by metis
qed simp

lemma otel_handle_flags: "prefix (session_flags (otl_store st)) (session_flags (otl_store (snd (otel_handle req st))))"
proof (cases req)
  case (Req_Traces env payload)
  let ?spans = "process_export_request (ing_datetime env) payload"
  obtain started s1 where opened: "open_sessions [] ?spans (otl_store st) = (started, s1)" by fastforce
  obtain r s2 where ins: "insert_spans (ing_order env) ?spans s1 = (r, s2)" by fastforce
  have "prefix (session_flags s1) (session_flags s2)"
    using keeps_flags_spans [of "ing_order env" ?spans] ins by (metis keeps_flags_def snd_conv)
  with flags_open_sessions [OF opened] have 12: "prefix (session_flags (otl_store st)) (session_flags s2)"
    using prefix_order.trans by blast
  have same: "session_flags (raise_alerts uuid now cents xs s2) = session_flags s2" for uuid now cents xs
    using core_raise_alerts [of uuid now cents xs s2] by (simp add: core_def session_flags_def)
  with opened ins 12 Req_Traces show ?thesis
    by (cases r) (auto simp: ingest_traces_def ingest_spans_def Let_def)
next
  case (Req_Upsert body)
  have "prefix (session_flags (otl_store st)) (session_flags (snd (insert_session se (otl_store st))))" for se
    using keeps_flags_insert_session by (simp add: keeps_flags_def)
  then show ?thesis using Req_Upsert
    by (auto simp: upsert_session_def store_upserted_def split: option.splits prod.splits sum.splits) (metis snd_conv)+
next
  case (Req_End like now today sid payload)
  define s where "s = snd (duck_end_session (now 0) sid (unwrap_or ''completed'' (json_str ''status'' payload)) (otl_store st))"
  have "core (otl_store (snd (end_session like now today sid payload st))) = core s"
    by (simp add: end_session_def Let_def s_def duck_end_session_def bind_def core_snd core_compute_daily core_score core_auto_score
        split: prod.splits sum.splits)
  then have "session_flags (otl_store (snd (end_session like now today sid payload st))) = session_flags s"
    by (simp add: core_def session_flags_def)
  moreover have "session_flags s = session_flags (otl_store st)"
    by (simp add: s_def duck_end_session_def bind_def session_flags_def map_update_where)
  ultimately show ?thesis using Req_End by simp
next
  case (Req_Auto_Score now sid)
  have "core (otl_store (snd (auto_score_route now sid st))) = core (otl_store st)"
    using core_snd [OF core_auto_score, of now sid "otl_store st"]
    by (auto simp: auto_score_route_def split: prod.splits sum.splits)
  then show ?thesis using Req_Auto_Score by (simp add: core_def session_flags_def)
next
  case (Req_Score as_f64 uuid now payload)
  then show ?thesis by (simp add: create_score_def insert_score_def session_flags_def)
next
  case (Req_Tag uuid payload)
  then show ?thesis by (simp add: create_tag_def insert_tag_def session_flags_def)
qed

text \<open>
  Once a session row is marked as synced no request clears the mark, whatever it changes in the row: later spans, totals, the
  end of the session. The push, which reads unsynced rows only, never sends the session again.
\<close>
theorem synced_session_never_pushed_again:
  assumes "sid \<in> synced_sessions (otl_store st)"
  shows "sid \<in> synced_sessions (otl_store (snd (otel_handle req st)))"
proof -
  have iff: "sid \<in> synced_sessions s \<longleftrightarrow> (sid, True) \<in> set (session_flags s)" for s
    by (auto simp: synced_sessions_def session_flags_def)
  from otel_handle_flags [of st req] have "set (session_flags (otl_store st)) \<subseteq> set (session_flags (otl_store (snd (otel_handle req st))))"
    by (auto simp: prefix_def)
  with assms show ?thesis unfolding iff by blast
qed

lemma synced_session_never_pushed_again_witness:
  "''a'' \<in> synced_sessions (otl_store (snd (otel_handle (Req_Traces sample_env (sample_export ''a'' ''x'' 7 2))
     (otel_start\<lparr>otl_store := duck_open\<lparr>d_sessions := [(session_to_row (auto_session (sample_span ''a'' ''x'' None)))\<lparr>ser_synced := True\<rparr>]\<rparr>\<rparr>))))"
  by (rule synced_session_never_pushed_again) (simp add: synced_sessions_def auto_session_def sample_span_def session_to_row_def image_iff)

section \<open>Analytics\<close>

text \<open>C26: 
  The breakdowns of the analytics and cost routes are complete: whatever the provenance filter, costs and session counts by
  agent, by project (sessions without one under "unassigned") and by their pair add up to the totals.
\<close>
theorem analytics_add_up:
  assumes "get_analytics_route raw kind st = Answer 200 a" and "analytics_cost raw kind st = Answer 200 rep"
  shows "sum_list (map aga_total_cost_usd (ana_by_agent a)) = ana_total_cost_usd a \<and>
    sum_list (map aga_session_count (ana_by_agent a)) = ana_total_sessions a \<and>
    sum_list (map (\<lambda>(k, c, n). c) (cre_by_agent rep)) = ana_total_cost_usd a \<and>
    sum_list (map (\<lambda>(k, c, n). c) (cre_by_project rep)) = ana_total_cost_usd a \<and>
    sum_list (map (\<lambda>(k, c, n). n) (cre_by_project rep)) = ana_total_sessions a \<and>
    sum_list (map (\<lambda>(k, p, c, n). c) (cre_by_agent_project rep)) = ana_total_cost_usd a \<and>
    sum_list (map (\<lambda>(k, p, c, n). n) (cre_by_agent_project rep)) = ana_total_sessions a"
proof -
  obtain provs where p: "parse_created_by_filter raw kind = Inr provs"
      "get_analytics provs (otl_store st) = Inr a"
    using assms(1)
    by (auto simp: get_analytics_route_def with_provenance_def answered_def split: sum.splits)
  define ses where "ses = filter (sessions_provenance_filter provs) (d_sessions (otl_store st))"
  have a: "ana_total_cost_usd a = session_cost ses" "ana_total_sessions a = length ses"
    "ana_by_agent a = map (\<lambda>(a, g). \<lparr>aga_agent_name = a, aga_session_count = length g, aga_total_cost_usd = session_cost g\<rparr>)
       (sessions_by ser_agent_name ses)"
    using p(2) by (auto simp: get_analytics_def Let_def ses_def split: if_splits sum.splits)
  have rep: "cre_by_agent rep = map (\<lambda>(a, g). (a, session_cost g, length g)) (sessions_by ser_agent_name ses)"
    "cre_by_project rep = map (\<lambda>(p, g). (p, session_cost g, length g)) (sessions_by project_or_unassigned ses)"
    "cre_by_agent_project rep = map (\<lambda>((a, p), g). (a, p, session_cost g, length g))
       (sessions_by (\<lambda>r. (ser_agent_name r, project_or_unassigned r)) ses)"
    using assms(2) p(1)
    by (auto simp: analytics_cost_def with_provenance_def get_cost_by_agent_def get_cost_by_project_def
        get_cost_by_agent_project_def ses_def)
  note sums = sessions_by_cost [of _ ses] sessions_by_count [of _ ses]
  have cost: "sum_list (map (\<lambda>(k, g). session_cost g) (sessions_by k ses)) = session_cost ses"
    and count: "sum_list (map (\<lambda>(k, g). length g) (sessions_by k ses)) = length ses" for k :: "session_row \<Rightarrow> 'k"
    using sums(1) [of k] sums(2) [of k] by (simp_all add: split_def)
  have cost2: "sum_list (map (\<lambda>((a, p), g). session_cost g) (sessions_by k ses)) = session_cost ses"
    and count2: "sum_list (map (\<lambda>((a, p), g). length g) (sessions_by k ses)) = length ses" for k :: "session_row \<Rightarrow> 'k \<times> 'l"
    using sums(1) [of k] sums(2) [of k] by (simp_all add: split_def)
  show ?thesis
    by (simp add: a rep comp_def case_prod_unfold cost [unfolded case_prod_unfold] count [unfolded case_prod_unfold])
qed

lemma analytics_add_up_witness:
  "\<exists>a rep. get_analytics_route None None (snd (ingest_traces sample_env (sample_export ''a'' ''x'' 7 2) otel_start)) = Answer 200 a \<and>
     analytics_cost None None (snd (ingest_traces sample_env (sample_export ''a'' ''x'' 7 2) otel_start)) = Answer 200 rep \<and>
     sum_list (map (\<lambda>(k, c, n). c) (cre_by_project rep)) = ana_total_cost_usd a"
proof -
  let ?st = "snd (ingest_traces sample_env (sample_export ''a'' ''x'' 7 2) otel_start)"
  have parse: "parse_created_by_filter None None = Inr None" by (simp add: parse_created_by_filter_def)
  obtain a where a: "get_analytics_route None None ?st = Answer 200 a"
    by (simp add: get_analytics_route_def with_provenance_def parse answered_def get_analytics_def Let_def sample_ingest(1) sample_spans
        duck_open_def sessions_provenance_filter_def spans_provenance_join_def set_totals_def input_sum_def output_sum_def
        span_to_row_def session_to_row_def auto_session_def spans_by_model_def group_by_def order_desc_def i64_ok_def)
  obtain rep where rep: "analytics_cost None None ?st = Answer 200 rep"
    by (simp add: analytics_cost_def with_provenance_def parse)
  show ?thesis using analytics_add_up [OF a rep] a rep by blast
qed

text \<open>
  A created\_by filter none of whose tokens is a provenance means nothing to the session listing, which answers every row, and
  everything to the analytics, which answer zero.
\<close>
theorem unknown_provenance_lists_all:
  assumes "parse_created_by_filter (Some raw) kind = Inr (Some [])"
  shows "list_sessions_route (p\<lparr>lpa_created_by := Some raw, lpa_kind := kind\<rparr>) st =
      list_sessions_route (p\<lparr>lpa_created_by := None, lpa_kind := None\<rparr>) st \<and>
    (\<exists>a. get_analytics_route (Some raw) kind st = Answer 200 a \<and> ana_total_sessions a = 0 \<and> ana_total_spans a = 0)"
proof -
  have none: "parse_created_by_filter None None = Inr None" by (simp add: parse_created_by_filter_def)
  show ?thesis
    by (simp add: list_sessions_route_def with_provenance_def assms none list_sessions_filtered_def get_analytics_route_def
        answered_def get_analytics_def Let_def sessions_provenance_filter_def spans_provenance_join_def spans_by_model_def
        group_by_def order_desc_def)
qed

lemma unknown_provenance_lists_all_witness:
  "list_sessions_route \<lparr>lpa_limit = 20, lpa_agent = None, lpa_status = None, lpa_created_by = Some ''schedular'', lpa_kind = None,
     lpa_session_kind = None\<rparr> st =
   list_sessions_route \<lparr>lpa_limit = 20, lpa_agent = None, lpa_status = None, lpa_created_by = None, lpa_kind = None,
     lpa_session_kind = None\<rparr> st"
proof -
  have "parse_created_by_filter (Some ''schedular'') None = Inr (Some [])" by code_simp
  from unknown_provenance_lists_all [OF this, of "\<lparr>lpa_limit = 20, lpa_agent = None, lpa_status = None, lpa_created_by = None,
      lpa_kind = None, lpa_session_kind = None\<rparr>" st]
  show ?thesis by simp
qed

section \<open>Traffic windows\<close>

text \<open>The seconds a unit letter stands for.\<close>
fun since_unit :: "char \<Rightarrow> int option" where
  "since_unit c = (if c = CHR ''s'' then Some 1 else if c = CHR ''m'' then Some 60 else if c = CHR ''h'' then Some 3600
     else if c = CHR ''d'' then Some 86400 else None)"

text \<open>
  The since parameter of the traffic routes panics exactly when its last character takes several bytes, or when it is a number of
  seconds, minutes, hours or days beyond chrono's range of 2^63 - 1 milliseconds.
\<close>
theorem parse_since_panics:
  "parse_since s = None \<longleftrightarrow>
     trim s \<noteq> [] \<and>
     (1 < length (trim s) \<and> is_continuation (last (trim s)) \<or>
      (\<exists>n u. parse_sint 64 (butlast (trim s)) = Some n \<and> since_unit (last (trim s)) = Some u \<and> 2 ^ 63 \<le> \<bar>n * u * 1000\<bar>))"
proof (cases "trim s = []")
  case True
  then show ?thesis by (simp add: parse_since_def)
next
  case False
  have boundary: "is_char_boundary (trim s) (length (trim s) - Suc 0) \<longleftrightarrow> \<not> (1 < length (trim s) \<and> is_continuation (last (trim s)))"
    using False by (cases "trim s" rule: rev_cases) (auto simp: is_char_boundary_def)
  have chrono: "chrono_seconds n = None \<longleftrightarrow> 2 ^ 63 \<le> \<bar>n * 1000\<bar>" for n
    by (simp add: chrono_seconds_def not_less)
  show ?thesis
  proof (cases "parse_sint 64 (butlast (trim s))")
    case None
    then show ?thesis using False by (simp add: parse_since_def Let_def boundary)
  next
    case (Some n)
    then show ?thesis using False chrono [of n] chrono [of "n * 60"] chrono [of "n * 3600"] chrono [of "n * 86400"]
      by (auto simp: parse_since_def Let_def boundary)
  qed
qed

section \<open>Stored rows are well typed\<close>

text \<open>Encoding what is read from the row gives the row back; the status of a session may be any text.\<close>

definition span_row_typed :: "span_row \<Rightarrow> bool" where
  "span_row_typed r \<longleftrightarrow> span_to_row (row_to_span r) = r\<lparr>spr_synced := False\<rparr>"

definition session_row_typed :: "session_row \<Rightarrow> bool" where
  "session_row_typed r \<longleftrightarrow>
     session_to_row (row_to_session r) =
       r\<lparr>ser_synced := False, ser_status := session_status_as_str (ses_status (row_to_session r))\<rparr> \<and>
     ser_created_by r \<in> {Some ''api'', Some ''otel_ingest''}"

definition typed_store :: "duck_store \<Rightarrow> bool" where
  "typed_store s \<longleftrightarrow> list_all session_row_typed (d_sessions s) \<and> list_all span_row_typed (d_spans s)"

lemma sint_word_of_int: "i64_ok n \<Longrightarrow> sint (word_of_int n :: u64) = n"
  by (simp add: i64_ok_def sint_sbintrunc' signed_take_bit_int_eq_self)

lemma session_row_typed_iff:
  "session_row_typed r \<longleftrightarrow> i64_ok (ser_total_input_tokens r) \<and> i64_ok (ser_total_output_tokens r) \<and> ser_kind r \<noteq> None \<and>
     ser_created_by r \<in> {Some ''api'', Some ''otel_ingest''}"
proof -
  have tokens: "sint (word_of_int n :: u64) = n \<longleftrightarrow> i64_ok n" for n
    using sint_word_of_int i64_ok_sint by metis
  have prov: "ser_created_by r \<in> {Some ''api'', Some ''otel_ingest''} \<Longrightarrow>
      Some (created_by_as_str (unwrap_or By_Unknown (Option.bind (ser_created_by r) created_by_from_str))) = ser_created_by r"
    by (auto simp: created_by_text)
  have kind: "Some (unwrap_or default_session_kind k) = k \<longleftrightarrow> k \<noteq> None" for k
    by (cases k) simp_all
  show ?thesis
    unfolding session_row_typed_def
    using prov by (cases r) (auto simp: session_to_row_def row_to_session_def tokens kind)
qed

named_theorems typed_intros \<open>operations that keep the rows well typed\<close>

definition keeps_typed :: "(duck_store, 'a) db \<Rightarrow> bool" where
  "keeps_typed m \<longleftrightarrow> (\<forall>s. typed_store s \<longrightarrow> typed_store (snd (m s)))"

lemma keeps_typed_bind [typed_intros]: "keeps_typed m \<Longrightarrow> (\<And>x. keeps_typed (f x)) \<Longrightarrow> keeps_typed (bind m f)"
  by (auto simp: keeps_typed_def bind_def split: prod.splits sum.splits)

lemma keeps_typed_for_each [typed_intros]: "(\<And>x. keeps_typed (f x)) \<Longrightarrow> keeps_typed (for_each f xs)"
  by (induction xs) (simp_all add: keeps_typed_bind, simp add: keeps_typed_def)

lemma keeps_typed_frame: "frame core m \<Longrightarrow> keeps_typed m"
  by (simp add: frame_def keeps_typed_def core_def typed_store_def)

lemma list_all_replace_rows:
  assumes "list_all P rows" and "P r" and "\<And>x. P (assign x r)"
  shows "list_all P (replace_rows key assign r rows)"
  using assms by (auto simp: replace_rows_def list_all_iff set_update_where)

lemma session_row_typed_new:
  "ses_created_by se \<in> {By_Api, By_OtelIngest} \<Longrightarrow> session_row_typed ((session_to_row se)\<lparr>ser_synced := b\<rparr>)"
  by (auto simp: session_row_typed_iff session_to_row_def)

lemma typed_insert_session:
  assumes "typed_store s" and "ses_created_by se \<in> {By_Api, By_OtelIngest}"
  shows "typed_store (snd (insert_session se s))"
proof -
  have "session_to_row se = (session_to_row se)\<lparr>ser_synced := False\<rparr>" by (simp add: session_to_row_def)
  then have "session_row_typed (session_to_row se)" using session_row_typed_new [OF assms(2)] by metis
  then show ?thesis using assms session_row_typed_new [OF assms(2)]
    by (simp add: insert_session_def typed_store_def list_all_replace_rows)
qed

lemma keeps_typed_insert_span [typed_intros]: "keeps_typed (insert_span sp)"
proof -
  have "row_to_span (r\<lparr>spr_synced := b\<rparr>) = row_to_span r" for r b by (simp add: row_to_span_def)
  then have "row_to_span ((span_to_row sp)\<lparr>spr_synced := b\<rparr>) = sp" for b by (simp add: span_row_roundtrip)
  then have "span_row_typed ((span_to_row sp)\<lparr>spr_synced := b\<rparr>)" for b
    by (simp add: span_row_typed_def) (simp add: span_to_row_def)
  moreover have "span_to_row sp = (span_to_row sp)\<lparr>spr_synced := False\<rparr>" by (simp add: span_to_row_def)
  ultimately have "span_row_typed (span_to_row sp)" "\<And>b. span_row_typed ((span_to_row sp)\<lparr>spr_synced := b\<rparr>)" by metis+
  then show ?thesis
    by (simp add: keeps_typed_def insert_span_def typed_store_def list_all_replace_rows)
qed

lemma list_all_update_where:
  assumes "list_all P rows" and "\<And>r. r \<in> set rows \<Longrightarrow> P r \<Longrightarrow> p r \<Longrightarrow> P (f r)"
  shows "list_all P (update_where p f rows)"
  using assms by (auto simp: list_all_iff set_update_where)

lemma span_row_typed_project: "span_row_typed r \<Longrightarrow> span_row_typed (spr_project_id_update f r)"
proof -
  have "row_to_span (spr_project_id_update f r) = spn_project_id_update f (row_to_span r)" by (simp add: row_to_span_def)
  moreover have "span_to_row (spn_project_id_update f sp) = spr_project_id_update f (span_to_row sp)" for sp
    by (simp add: span_to_row_def)
  ultimately show "span_row_typed r \<Longrightarrow> span_row_typed (spr_project_id_update f r)"
    by (simp add: span_row_typed_def)
qed

lemma keeps_typed_aggregates [typed_intros]: "keeps_typed (update_session_aggregates sid)"
  unfolding keeps_typed_def
proof (intro allI impI)
  fix s
  assume typed: "typed_store s"
  show "typed_store (snd (update_session_aggregates sid s))"
  proof (cases "update_session_aggregates sid s")
    case (Pair res s')
    show ?thesis
    proof (cases "list_ex (\<lambda>r. ser_id r = sid) (d_sessions s) \<and>
        \<not> (i64_ok (input_sum (spans_of sid s)) \<and> i64_ok (output_sum (spans_of sid s)))")
      case True
      then show ?thesis using typed by (simp add: update_session_aggregates_def bind_def)
    next
      case False
      then have ok: "update_session_aggregates sid s = (Inr (), s')"
        using Pair by (auto simp: update_session_aggregates_def bind_def sql_update_def split: if_splits)
      have "list_all session_row_typed (d_sessions s')"
        unfolding update_aggregates_ok(1) [OF ok]
        using typed False by (intro list_all_update_where)
          (auto simp: typed_store_def session_row_typed_iff set_totals_def list_ex_iff)
      moreover have "list_all span_row_typed (d_spans s')"
        unfolding update_aggregates_ok(2) [OF ok]
        using typed by (intro list_all_update_where) (simp_all add: typed_store_def span_row_typed_project)
      ultimately show ?thesis using ok by (simp add: typed_store_def)
    qed
  qed
qed

lemma typed_open_sessions: "open_sessions seen sps s = (started, s') \<Longrightarrow> typed_store s \<Longrightarrow> typed_store s'"
proof (induction sps arbitrary: seen s started)
  case (Cons sp sps)
  from Cons.prems(1) obtain t seen' started' where rest: "open_sessions seen' sps t = (started', s')"
      "t = s \<or> t = snd (insert_session (auto_session sp) s)"
    by (auto simp: Let_def split: if_splits prod.splits sum.splits)
  have "typed_store (snd (insert_session (auto_session sp) s))"
    by (rule typed_insert_session [OF Cons.prems(2)]) (simp add: auto_session_def)
  with rest Cons.IH [OF rest(1)] Cons.prems(2) show ?case by blast
qed simp

lemma otel_handle_typed:
  assumes typed: "typed_store (otl_store st)"
  shows "typed_store (otl_store (snd (otel_handle req st)))"
proof -
  have core: "core s = core s' \<Longrightarrow> typed_store s' \<Longrightarrow> typed_store s" for s s' by (simp add: core_def typed_store_def)
  show ?thesis
  proof (cases req)
    case (Req_Traces env payload)
    let ?spans = "process_export_request (ing_datetime env) payload"
    obtain started s1 where opened: "open_sessions [] ?spans (otl_store st) = (started, s1)" by fastforce
    obtain r s2 where ins: "insert_spans (ing_order env) ?spans s1 = (r, s2)" by fastforce
    have "keeps_typed (insert_spans (ing_order env) ?spans)" unfolding insert_spans_def by (intro typed_intros)
    with typed_open_sessions [OF opened typed] ins have "typed_store s2" by (metis keeps_typed_def snd_conv)
    then have "typed_store (raise_alerts uuid now cents xs s2)" for uuid now cents xs
      using core [OF core_raise_alerts] by blast
    with opened ins \<open>typed_store s2\<close> typed Req_Traces show ?thesis
      by (cases r) (auto simp: ingest_traces_def ingest_spans_def Let_def)
  next
    case (Req_Upsert body)
    have "typed_store (otl_store (snd (store_upserted (upserted_session body i out) st)))" for i out
    proof -
      have "typed_store (snd (insert_session (upserted_session body i out) (otl_store st)))"
        by (rule typed_insert_session [OF typed]) (simp add: upserted_session_def)
      then show ?thesis by (auto simp: store_upserted_def split: prod.splits sum.splits)
    qed
    then show ?thesis using Req_Upsert typed by (simp add: upsert_session_def split: option.splits)
  next
    case (Req_End like now today sid payload)
    define s where "s = snd (duck_end_session (now 0) sid (unwrap_or ''completed'' (json_str ''status'' payload)) (otl_store st))"
    have "core (otl_store (snd (end_session like now today sid payload st))) = core s"
      by (simp add: end_session_def Let_def s_def duck_end_session_def bind_def core_snd core_compute_daily core_score core_auto_score
          split: prod.splits sum.splits)
    moreover have "typed_store s"
      using typed by (auto simp: s_def duck_end_session_def bind_def typed_store_def session_row_typed_iff
          intro!: list_all_update_where)
    ultimately show ?thesis using core Req_End by simp
  next
    case (Req_Auto_Score now sid)
    have "core (otl_store (snd (auto_score_route now sid st))) = core (otl_store st)"
      using core_snd [OF core_auto_score, of now sid "otl_store st"]
      by (auto simp: auto_score_route_def split: prod.splits sum.splits)
    then show ?thesis using core typed Req_Auto_Score by simp
  next
    case (Req_Score as_f64 uuid now payload)
    then show ?thesis using typed by (simp add: create_score_def insert_score_def typed_store_def)
  next
    case (Req_Tag uuid payload)
    then show ?thesis using typed by (simp add: create_tag_def insert_tag_def typed_store_def)
  qed
qed

text \<open>The state after a list of requests, starting from an empty database.\<close>
definition otel_run :: "otel_request list \<Rightarrow> otel" where
  "otel_run reqs = foldl (\<lambda>st req. snd (otel_handle req st)) otel_start reqs"

text \<open>C25: 
  After any requests whatsoever, every span row encodes exactly the span it is read as, and every session row the session
  it is read as, apart from the text of its status; session rows come from ingest or from the upsert route.
\<close>
theorem stored_rows_typed:
  "list_all (\<lambda>r. span_to_row (row_to_span r) = r\<lparr>spr_synced := False\<rparr>) (d_spans (otl_store (otel_run reqs))) \<and>
   list_all (\<lambda>r. session_to_row (row_to_session r) =
       r\<lparr>ser_synced := False, ser_status := session_status_as_str (ses_status (row_to_session r))\<rparr> \<and>
     ser_created_by r \<in> {Some ''api'', Some ''otel_ingest''}) (d_sessions (otl_store (otel_run reqs)))"
proof -
  have "typed_store (otl_store (foldl (\<lambda>st req. snd (otel_handle req st)) st reqs))" if "typed_store (otl_store st)" for st
    using that by (induction reqs arbitrary: st) (simp_all add: otel_handle_typed)
  moreover have "typed_store (otl_store otel_start)" by (simp add: typed_store_def otel_start_def duck_open_def)
  ultimately have "typed_store (otl_store (otel_run reqs))" by (simp add: otel_run_def)
  then show ?thesis by (simp add: typed_store_def session_row_typed_def [abs_def] span_row_typed_def [abs_def])
qed

end
