(* ===== verification/Web_Crawl.thy ===== *)
theory Web_Crawl
  imports Prelude "HOL-Library.While_Combinator" "HOL-Library.Product_Lexorder" "HOL-Library.Multiset"
begin

text \<open>
  The web tools (gctrl-net): fetching a page as markdown, the crawler, the page store with one directory per domain, and the
  compaction of a stored site into one file. The url, scraper, htmd and readability crates are the fields of a record, the
  network is a function of the address: the crawler asks for each address at most once. The page store is a map from
  domain and relative path to file contents, with the index file of each domain kept decoded; fs gives the error of writing a
  path, if any.
\<close>

section \<open>Types\<close>

datatype net_error =
    Net_Http string
  | Net_UrlParse string
  | Net_Io string
  | Net_EmptyContent string
  | Net_BelowThreshold string nat nat
  | Net_DomainNotFound string
  | Net_MissingApiKey string
  | Net_BackendError string nat string
  | Net_Serde string

text \<open>What the code reads of a url::Url: its serialisation and its parts.\<close>
record url =
  url_str :: string
  url_scheme :: string
  url_host :: "string option"
  url_path :: string

text \<open>Url::parse, Url::join, the href attributes of the links of a document, the text of its first title element, the
  conversion to markdown, and the readable part of a document as title and content.\<close>
record web_lib =
  wl_parse :: "string \<Rightarrow> string + url"
  wl_join :: "url \<Rightarrow> string \<Rightarrow> url option"
  wl_hrefs :: "string \<Rightarrow> string list"
  wl_title :: "string \<Rightarrow> string option"
  wl_htmd :: "string \<Rightarrow> string option"
  wl_readability :: "string \<Rightarrow> url \<Rightarrow> (string \<times> string) option"

record page_content =
  pg_url :: string
  pg_title :: string
  pg_markdown :: string
  pg_word_count :: nat
  pg_status :: nat

record crawl_config =
  cc_max_depth :: nat
  cc_max_pages :: nat
  cc_readability :: bool
  cc_min_words :: nat
  cc_skip_patterns :: "string list"

record crawl_result =
  crr_domain :: string
  crr_pages_crawled :: nat
  crr_pages_skipped :: nat
  crr_total_words :: nat

definition default_skip_patterns :: "string list" where
  "default_skip_patterns =
     [''/admin'', ''/login'', ''/signup'', ''/auth'', ''/api/'', ''/cdn-cgi/'', ''/static/'',
      ''.pdf'', ''.zip'', ''.tar'', ''.gz'', ''.png'', ''.jpg'', ''.jpeg'', ''.gif'', ''.svg'', ''.ico'',
      ''.css'', ''.js'', ''.woff'', ''.woff2'', ''?utm_'', ''#'', ''mailto:'']"

definition default_crawl_config :: crawl_config where
  "default_crawl_config = \<lparr>cc_max_depth = 3, cc_max_pages = 50, cc_readability = True, cc_min_words = 50,
     cc_skip_patterns = default_skip_patterns\<rparr>"

section \<open>Markdown of a page\<close>

text \<open>clean\_markdown: the lines without trailing white space, runs of blank ones as a single one.\<close>
fun clean_lines :: "nat \<Rightarrow> string list \<Rightarrow> string" where
  "clean_lines blank_count [] = []"
| "clean_lines blank_count (l # ls) =
     (let trimmed = trim_end l
      in if trimmed = [] then (if blank_count = 0 then [CHR 0x0A] else []) @ clean_lines (Suc blank_count) ls
         else trimmed @ [CHR 0x0A] @ clean_lines 0 ls)"

definition clean_markdown :: "string \<Rightarrow> string" where
  "clean_markdown md = trim (clean_lines 0 (lines md))"

definition extract_title :: "web_lib \<Rightarrow> string \<Rightarrow> string" where
  "extract_title lib html = (case wl_title lib html of None \<Rightarrow> [] | Some t \<Rightarrow> trim t)"

definition extract_readable :: "web_lib \<Rightarrow> string \<Rightarrow> string \<Rightarrow> (string \<times> string) option" where
  "extract_readable lib html u = (case wl_parse lib u of Inl _ \<Rightarrow> None | Inr parsed \<Rightarrow> wl_readability lib html parsed)"

definition convert_or_empty :: "web_lib \<Rightarrow> string \<Rightarrow> string" where
  "convert_or_empty lib html = (case wl_htmd lib html of None \<Rightarrow> [] | Some md \<Rightarrow> md)"

text \<open>The readable part is kept unless its markdown is empty or below a quarter of the whole page's.\<close>
definition html_to_markdown :: "web_lib \<Rightarrow> string \<Rightarrow> string \<Rightarrow> bool \<Rightarrow> string \<times> string" where
  "html_to_markdown lib html u use_readability =
     (let whole = (extract_title lib html, clean_markdown (convert_or_empty lib html))
      in if use_readability
         then (case extract_readable lib html u of
             None \<Rightarrow> whole
           | Some (title, content) \<Rightarrow>
               (let md = convert_or_empty lib content; full_md = convert_or_empty lib html
                in if md \<noteq> [] \<and> (full_md = [] \<or> length full_md \<le> length md * 4)
                   then (title, clean_markdown md) else whole))
         else whole)"

section \<open>Fetching one page\<close>

datatype render_mode = Render_Static | Render_Browser "string option" | Render_Kernel "string option" "string option"

record fetch_options =
  fo_readability :: bool
  fo_min_words :: nat
  fo_user_agent :: string
  fo_render :: render_mode
  fo_cf_account_id :: "string option"
  fo_cf_api_token :: "string option"

datatype render_backend =
    Static_Backend string
  | Cf_Browser_Backend string string "string option"
  | Kernel_Browser_Backend string "string option"

definition build_backend :: "fetch_options \<Rightarrow> net_error + render_backend" where
  "build_backend opts = (case fo_render opts of
     Render_Static \<Rightarrow> Inr (Static_Backend (fo_user_agent opts))
   | Render_Browser wait_for \<Rightarrow>
       (case fo_cf_account_id opts of None \<Rightarrow> Inl (Net_MissingApiKey ''cloudflare-browser'')
        | Some account_id \<Rightarrow>
            (case fo_cf_api_token opts of None \<Rightarrow> Inl (Net_MissingApiKey ''cloudflare-browser'')
             | Some api_token \<Rightarrow> Inr (Cf_Browser_Backend account_id api_token wait_for)))
   | Render_Kernel wait_for kernel_base_url \<Rightarrow>
       Inr (Kernel_Browser_Backend
         (case kernel_base_url of None \<Rightarrow> ''http://127.0.0.1:4318'' | Some b \<Rightarrow> b) wait_for))"

text \<open>render answers the status and the document, or an error.\<close>
definition fetch_page ::
  "web_lib \<Rightarrow> (render_backend \<Rightarrow> string \<Rightarrow> net_error + nat \<times> string) \<Rightarrow> string \<Rightarrow> fetch_options \<Rightarrow>
    net_error + page_content" where
  "fetch_page lib render url_text opts =
     (case wl_parse lib url_text of
        Inl e \<Rightarrow> Inl (Net_UrlParse e)
      | Inr parsed \<Rightarrow>
          (case build_backend opts of
             Inl e \<Rightarrow> Inl e
           | Inr backend \<Rightarrow>
               (case render backend (url_str parsed) of
                  Inl e \<Rightarrow> Inl e
                | Inr (status, html) \<Rightarrow>
                    (let (title, markdown) = html_to_markdown lib html (url_str parsed) (fo_readability opts);
                         word_count = count_words False markdown
                     in if word_count < fo_min_words opts
                        then Inl (Net_BelowThreshold url_text word_count (fo_min_words opts))
                        else Inr \<lparr>pg_url = url_text, pg_title = title, pg_markdown = markdown,
                                  pg_word_count = word_count, pg_status = status\<rparr>))))"

section \<open>Addresses and links\<close>

definition normalize_url :: "url \<Rightarrow> string" where
  "normalize_url u =
     (let s = (case str_find ''#'' (url_str u) of None \<Rightarrow> url_str u | Some pos \<Rightarrow> take pos (url_str u))
      in if suffix ''/'' s \<and> length (url_scheme u) + 3 < length s then butlast s else s)"

definition should_skip :: "string \<Rightarrow> string list \<Rightarrow> bool" where
  "should_skip u patterns = list_ex (\<lambda>p. contains p u) patterns"

text \<open>links.sort() and dedup().\<close>
definition extract_links_from_html :: "web_lib \<Rightarrow> string \<Rightarrow> url \<Rightarrow> string \<Rightarrow> string list" where
  "extract_links_from_html lib html base_url domain =
     remdups_adj (sort
       (map normalize_url
         (filter (\<lambda>resolved. url_host resolved = Some domain \<and> prefix ''http'' (url_scheme resolved))
           (List.map_filter (wl_join lib base_url) (wl_hrefs lib html)))))"

text \<open>net answers a GET with status and body, or an error; the status of the answer is kept but not looked at.\<close>
definition fetch_and_extract ::
  "web_lib \<Rightarrow> (string \<Rightarrow> string + nat \<times> string) \<Rightarrow> string \<Rightarrow> string \<Rightarrow> crawl_config \<Rightarrow>
    net_error + page_content \<times> string list" where
  "fetch_and_extract lib net u domain config =
     (case wl_parse lib u of
        Inl e \<Rightarrow> Inl (Net_UrlParse e)
      | Inr parsed \<Rightarrow>
          (case net u of
             Inl e \<Rightarrow> Inl (Net_Http e)
           | Inr (status, html) \<Rightarrow>
               (let links = extract_links_from_html lib html parsed domain;
                    (title, markdown) = html_to_markdown lib html u (cc_readability config);
                    word_count = count_words False markdown
                in if word_count < cc_min_words config
                   then Inl (Net_BelowThreshold u word_count (cc_min_words config))
                   else Inr (\<lparr>pg_url = u, pg_title = title, pg_markdown = markdown,
                             pg_word_count = word_count, pg_status = status\<rparr>, links))))"

section \<open>The page store\<close>

record page_entry =
  pe_url :: string
  pe_file :: string
  pe_title :: string
  pe_word_count :: nat

record site_index =
  sx_domain :: string
  sx_pages :: "page_entry list"
  sx_last_crawl :: timestamp
  sx_total_words :: nat

record site =
  si_files :: "string \<times> string \<Rightarrow> string option"
  si_indexes :: "string \<Rightarrow> site_index option"

definition trim_slashes :: "string \<Rightarrow> string" where
  "trim_slashes s = rev (dropWhile (\<lambda>c. c = CHR ''/'') (rev (dropWhile (\<lambda>c. c = CHR ''/'') s)))"

text \<open>char::is\_alphanumeric on the ASCII characters; the path of a Url is percent-encoded ASCII.\<close>
definition ascii_alphanumeric :: "char \<Rightarrow> bool" where
  "ascii_alphanumeric c \<longleftrightarrow> CHR ''0'' \<le> c \<and> c \<le> CHR ''9'' \<or> CHR ''A'' \<le> c \<and> c \<le> CHR ''Z'' \<or> CHR ''a'' \<le> c \<and> c \<le> CHR ''z''"

definition file_char :: "char \<Rightarrow> char" where
  "file_char c = (if \<not> ascii_alphanumeric c \<and> c \<noteq> CHR ''-'' \<and> c \<noteq> CHR ''_'' \<and> c \<noteq> CHR ''/'' then CHR ''-'' else c)"

definition url_to_filename :: "web_lib \<Rightarrow> string \<Rightarrow> string" where
  "url_to_filename lib url_text =
     (case wl_parse lib url_text of
        Inl _ \<Rightarrow> ''index.md''
      | Inr u \<Rightarrow>
          (let path = trim_slashes (url_path u)
           in if path = [] then ''index.md''
              else let clean = map file_char path in if suffix ''.md'' clean then clean else clean @ ''.md''))"

definition page_file_text :: "page_content \<Rightarrow> string" where
  "page_file_text page =
     ''---'' @ [CHR 0x0A] @ ''url: '' @ pg_url page @ [CHR 0x0A] @ ''title: '' @ pg_title page @ [CHR 0x0A] @
     ''words: '' @ show_nat (pg_word_count page) @ [CHR 0x0A] @ ''---'' @ [CHR 0x0A, CHR 0x0A] @
     ''# '' @ pg_title page @ [CHR 0x0A, CHR 0x0A] @ pg_markdown page"

definition load_index :: "string \<Rightarrow> site \<Rightarrow> site_index option" where
  "load_index domain st = si_indexes st domain"

definition indexed :: "timestamp \<Rightarrow> string \<Rightarrow> page_content \<Rightarrow> string \<Rightarrow> site_index option \<Rightarrow> site_index" where
  "indexed now domain page rel_path old =
     (let index = (case old of Some x \<Rightarrow> x
            | None \<Rightarrow> \<lparr>sx_domain = domain, sx_pages = [], sx_last_crawl = now, sx_total_words = 0\<rparr>);
          pages = filter (\<lambda>p. pe_url p \<noteq> pg_url page) (sx_pages index) @
            [\<lparr>pe_url = pg_url page, pe_file = rel_path, pe_title = pg_title page, pe_word_count = pg_word_count page\<rparr>]
      in index\<lparr>sx_pages := pages, sx_total_words := sum_list (map pe_word_count pages), sx_last_crawl := now\<rparr>)"

definition update_index ::
  "(string \<times> string \<Rightarrow> string option) \<Rightarrow> timestamp \<Rightarrow> string \<Rightarrow> page_content \<Rightarrow> string \<Rightarrow> site \<Rightarrow> (net_error + unit) \<times> site" where
  "update_index fs now domain page rel_path st =
     (let index = indexed now domain page rel_path (load_index domain st)
      in case fs (domain, ''_index.json'') of
           Some e \<Rightarrow> (Inl (Net_Io e), st)
         | None \<Rightarrow> (Inr (), st\<lparr>si_indexes := (si_indexes st)(domain \<mapsto> index)\<rparr>))"

definition save_page ::
  "web_lib \<Rightarrow> (string \<times> string \<Rightarrow> string option) \<Rightarrow> timestamp \<Rightarrow> string \<Rightarrow> page_content \<Rightarrow> site \<Rightarrow> (net_error + unit) \<times> site" where
  "save_page lib fs now domain page st =
     (let rel_path = url_to_filename lib (pg_url page)
      in case fs (domain, rel_path) of
           Some e \<Rightarrow> (Inl (Net_Io e), st)
         | None \<Rightarrow> update_index fs now domain page rel_path
             (st\<lparr>si_files := (si_files st)((domain, rel_path) \<mapsto> page_file_text page)\<rparr>))"

text \<open>dirs: the directories below the base directory.\<close>
definition list_domains :: "string list \<Rightarrow> site \<Rightarrow> string list" where
  "list_domains dirs st = sort (filter (\<lambda>d. si_indexes st d \<noteq> None) dirs)"

definition read_page :: "string \<Rightarrow> string \<Rightarrow> site \<Rightarrow> string option" where
  "read_page domain file st = si_files st (domain, file)"

definition url_slashes :: "page_entry \<Rightarrow> nat" where
  "url_slashes entry = length (filter (\<lambda>c. c = CHR ''/'') (pe_url entry))"

text \<open>A stable sort by the number of slashes and the address; unreadable pages are left out.\<close>
definition read_all_pages :: "string \<Rightarrow> site \<Rightarrow> net_error + (page_entry \<times> string) list" where
  "read_all_pages domain st =
     (case load_index domain st of
        None \<Rightarrow> Inl (Net_DomainNotFound domain)
      | Some index \<Rightarrow>
          Inr (order_asc (\<lambda>(a, _). (url_slashes a, pe_url a))
            (List.map_filter (\<lambda>entry. map_option (Pair entry) (read_page domain (pe_file entry) st)) (sx_pages index))))"

section \<open>Compaction\<close>

datatype compact_format = Gitingest | Index_Format

definition separator_line :: string where
  "separator_line = replicate 48 (CHR ''='')"

definition strip_frontmatter :: "string \<Rightarrow> string" where
  "strip_frontmatter content =
     (if \<not> prefix ''---'' content then content
      else case str_find (CHR 0x0A # ''---'') (drop 3 content) of
          Some e \<Rightarrow> (let after = e + 3 + 4 in if after < length content then drop after content else content)
        | None \<Rightarrow> content)"

definition em_dash :: string where
  "em_dash = bytes [226, 128, 148]"

definition gitingest_page :: "page_entry \<times> string \<Rightarrow> string" where
  "gitingest_page p = (case p of (entry, content) \<Rightarrow>
     separator_line @ [CHR 0x0A] @ ''File: '' @ pe_file entry @ [CHR 0x0A] @ ''URL: '' @ pe_url entry @ [CHR 0x0A] @
     separator_line @ [CHR 0x0A] @ trim (strip_frontmatter content) @ [CHR 0x0A, CHR 0x0A])"

definition build_gitingest :: "string \<Rightarrow> (page_entry \<times> string) list \<Rightarrow> nat \<Rightarrow> string" where
  "build_gitingest domain pages total_words =
     ''# '' @ domain @ '' '' @ em_dash @ '' Agent Context'' @ [CHR 0x0A, CHR 0x0A] @
     ''> '' @ show_nat (length pages) @ '' pages | ~'' @ show_nat total_words @ '' words | ~'' @
     show_nat (total_words * 4 div 3) @ '' tokens (estimated)'' @ [CHR 0x0A, CHR 0x0A] @
     ''## Directory Structure'' @ [CHR 0x0A, CHR 0x0A] @ ''```'' @ [CHR 0x0A] @
     concat (map (\<lambda>(entry, _). ''  '' @ pe_file entry @ [CHR 0x0A]) pages) @ ''```'' @ [CHR 0x0A, CHR 0x0A] @
     ''## Pages'' @ [CHR 0x0A, CHR 0x0A] @ concat (map gitingest_page pages)"

definition build_index_format :: "string \<Rightarrow> (page_entry \<times> string) list \<Rightarrow> string" where
  "build_index_format domain pages =
     ''# '' @ domain @ '' '' @ em_dash @ '' Page Index'' @ [CHR 0x0A, CHR 0x0A] @
     ''| File | Title | Words |'' @ [CHR 0x0A] @ ''|------|-------|-------|'' @ [CHR 0x0A] @
     concat (map (\<lambda>(entry, _). ''| '' @ pe_file entry @ '' | '' @ pe_title entry @ '' | '' @
       show_nat (pe_word_count entry) @ '' |'' @ [CHR 0x0A]) pages)"

definition compact_site :: "string \<Rightarrow> site \<Rightarrow> compact_format \<Rightarrow> net_error + string" where
  "compact_site domain st fmt =
     (case load_index domain st of
        None \<Rightarrow> Inl (Net_DomainNotFound domain)
      | Some index \<Rightarrow>
          (case read_all_pages domain st of
             Inl e \<Rightarrow> Inl e
           | Inr pages \<Rightarrow>
               (case fmt of
                  Gitingest \<Rightarrow> Inr (build_gitingest (sx_domain index) pages (sx_total_words index))
                | Index_Format \<Rightarrow> Inr (build_index_format (sx_domain index) pages))))"

section \<open>The crawl\<close>

text \<open>Running, left by break or an empty queue, or left by the ? of a failed save.\<close>
datatype crawl_flow = Crawling | Crawl_Done | Crawl_Failed net_error

record crawl =
  cr_visited :: "string list"
  cr_queue :: "(string \<times> nat) list"
  cr_pages_crawled :: nat
  cr_pages_skipped :: nat
  cr_total_words :: nat
  cr_site :: site
  cr_flow :: crawl_flow

text \<open>What a crawl depends on: the crates, the network, file errors, and the clock at its n-th save.\<close>
record crawl_env =
  ce_lib :: web_lib
  ce_net :: "string \<Rightarrow> string + nat \<times> string"
  ce_fs :: "string \<times> string \<Rightarrow> string option"
  ce_now :: "nat \<Rightarrow> timestamp"

text \<open>One turn of the loop while let Some((url, depth)) = queue.pop(): the queue is a Vec, its last element is popped. The set
  of visited addresses is the list of its insertions.\<close>
definition crawl_turn :: "crawl_env \<Rightarrow> crawl_config \<Rightarrow> string \<Rightarrow> crawl \<Rightarrow> crawl" where
  "crawl_turn env config domain c =
     (if cr_queue c = [] then c\<lparr>cr_flow := Crawl_Done\<rparr>
      else case last (cr_queue c) of (u, depth) \<Rightarrow>
        (let popped = c\<lparr>cr_queue := butlast (cr_queue c)\<rparr>; seen = popped\<lparr>cr_visited := cr_visited c @ [u]\<rparr>
         in if cc_max_pages config \<le> cr_pages_crawled c then popped\<lparr>cr_flow := Crawl_Done\<rparr>
            else if cc_max_depth config < depth then popped
            else if u \<in> set (cr_visited c) then popped
            else if should_skip u (cc_skip_patterns config) then seen\<lparr>cr_pages_skipped := Suc (cr_pages_skipped c)\<rparr>
            else case fetch_and_extract (ce_lib env) (ce_net env) u domain config of
                Inl _ \<Rightarrow> seen\<lparr>cr_pages_skipped := Suc (cr_pages_skipped c)\<rparr>
              | Inr (page, links) \<Rightarrow>
                  (let counted = seen\<lparr>cr_total_words := cr_total_words c + pg_word_count page,
                         cr_pages_crawled := Suc (cr_pages_crawled c)\<rparr>
                   in case save_page (ce_lib env) (ce_fs env) (ce_now env (cr_pages_crawled c)) domain page (cr_site c) of
                        (Inl e, st) \<Rightarrow> counted\<lparr>cr_site := st, cr_flow := Crawl_Failed e\<rparr>
                      | (Inr _, st) \<Rightarrow> counted\<lparr>cr_site := st,
                          cr_queue := cr_queue popped @
                            map (\<lambda>l. (l, Suc depth)) (filter (\<lambda>l. l \<notin> set (cr_visited seen)) links)\<rparr>)))"

definition crawl_start :: "url \<Rightarrow> site \<Rightarrow> crawl" where
  "crawl_start base_url st = \<lparr>cr_visited = [], cr_queue = [(normalize_url base_url, 0)], cr_pages_crawled = 0,
     cr_pages_skipped = 0, cr_total_words = 0, cr_site = st, cr_flow = Crawling\<rparr>"

definition crawl_loop :: "crawl_env \<Rightarrow> crawl_config \<Rightarrow> string \<Rightarrow> crawl \<Rightarrow> crawl option" where
  "crawl_loop env config domain = while_option (\<lambda>c. cr_flow c = Crawling) (crawl_turn env config domain)"

definition crawl_domain :: "url \<Rightarrow> string" where
  "crawl_domain base_url = (case url_host base_url of None \<Rightarrow> ''unknown'' | Some h \<Rightarrow> h)"

text \<open>None when the loop does not end.\<close>
definition crawl_site :: "crawl_env \<Rightarrow> string \<Rightarrow> crawl_config \<Rightarrow> site \<Rightarrow> ((net_error + crawl_result) \<times> site) option" where
  "crawl_site env start_url config st =
     (case wl_parse (ce_lib env) start_url of
        Inl e \<Rightarrow> Some (Inl (Net_UrlParse e), st)
      | Inr base_url \<Rightarrow>
          map_option (\<lambda>c. (case cr_flow c of
              Crawl_Failed e \<Rightarrow> Inl e
            | _ \<Rightarrow> Inr \<lparr>crr_domain = crawl_domain base_url, crr_pages_crawled = cr_pages_crawled c,
                crr_pages_skipped = cr_pages_skipped c, crr_total_words = cr_total_words c\<rparr>, cr_site c))
            (crawl_loop env config (crawl_domain base_url) (crawl_start base_url st)))"

section \<open>The loop ends\<close>

text \<open>A turn either uses up a page, or shortens the queue, or leaves the loop.\<close>
definition crawl_measure :: "crawl_config \<Rightarrow> crawl \<Rightarrow> nat \<times> nat" where
  "crawl_measure config c = (cc_max_pages config - cr_pages_crawled c, if cr_flow c = Crawling then Suc (length (cr_queue c)) else 0)"

lemma crawl_turn_decreases:
  assumes "cr_flow c = Crawling"
  shows "(crawl_turn env config domain c, c) \<in> inv_image (less_than <*lex*> less_than) (crawl_measure config)"
proof (cases "cr_queue c")
  case Nil
  with assms show ?thesis by (simp add: crawl_turn_def crawl_measure_def)
next
  case (Cons q qs)
  obtain u depth where l: "last (cr_queue c) = (u, depth)" by fastforce
  with Cons have "last (q # qs) = (u, depth)" by simp
  with Cons assms show ?thesis
    by (auto simp: crawl_turn_def crawl_measure_def Let_def split: sum.splits prod.splits)
qed

text \<open>C34: Whatever the network answers, however many links the pages have, the crawl ends.\<close>
theorem crawl_terminates: "crawl_site env start_url config st \<noteq> None"
proof -
  have "\<exists>t. while_option (\<lambda>c. cr_flow c = Crawling) (crawl_turn env config domain) s = Some t" for domain s
    by (rule wf_rel_while_option_Some [where P = "\<lambda>_. True" and R = "inv_image (less_than <*lex*> less_than) (crawl_measure config)"])
      (simp_all add: wf_inv_image wf_lex_prod crawl_turn_decreases del: in_inv_image)
  then show ?thesis by (auto simp: crawl_site_def crawl_loop_def split: sum.splits)
qed

section \<open>What a crawl does\<close>

text \<open>The page and the links an address gives when it is visited.\<close>
definition crawl_page :: "crawl_env \<Rightarrow> crawl_config \<Rightarrow> string \<Rightarrow> string \<Rightarrow> page_content option" where
  "crawl_page env config domain u =
     (if should_skip u (cc_skip_patterns config) then None
      else case fetch_and_extract (ce_lib env) (ce_net env) u domain config of Inl _ \<Rightarrow> None | Inr (page, _) \<Rightarrow> Some page)"

definition crawl_links :: "crawl_env \<Rightarrow> crawl_config \<Rightarrow> string \<Rightarrow> string \<Rightarrow> string list" where
  "crawl_links env config domain u =
     (if should_skip u (cc_skip_patterns config) then []
      else case fetch_and_extract (ce_lib env) (ce_net env) u domain config of Inl _ \<Rightarrow> [] | Inr (_, links) \<Rightarrow> links)"

text \<open>A save that succeeds.\<close>
definition store_page :: "web_lib \<Rightarrow> timestamp \<Rightarrow> string \<Rightarrow> page_content \<Rightarrow> site \<Rightarrow> site" where
  "store_page lib now domain page st =
     \<lparr>si_files = (si_files st)((domain, url_to_filename lib (pg_url page)) \<mapsto> page_file_text page),
      si_indexes = (si_indexes st)(domain \<mapsto> indexed now domain page (url_to_filename lib (pg_url page)) (si_indexes st domain))\<rparr>"

lemma save_page_ok: "save_page lib fs now domain page st = (Inr x, st') \<Longrightarrow> st' = store_page lib now domain page st"
  by (auto simp: save_page_def update_index_def store_page_def load_index_def Let_def split: option.splits)

definition store_pages :: "crawl_env \<Rightarrow> string \<Rightarrow> page_content list \<Rightarrow> site \<Rightarrow> site" where
  "store_pages env domain pages st =
     foldl (\<lambda>st (i, page). store_page (ce_lib env) (ce_now env i) domain page st) st (enumerate 0 pages)"

lemma store_pages_snoc [simp]: "store_pages env domain [] st = st"
  "store_pages env domain (pages @ [page]) st =
     store_page (ce_lib env) (ce_now env (length pages)) domain page (store_pages env domain pages st)"
  by (simp_all add: store_pages_def enumerate_append_eq)

lemma map_filter_snoc: "List.map_filter f (xs @ [x]) = List.map_filter f xs @ (case f x of None \<Rightarrow> [] | Some y \<Rightarrow> [y])"
  by (simp add: List.map_filter_def split: option.splits)

text \<open>The counters of the loop against the addresses visited so far.\<close>
definition crawl_counts :: "crawl_env \<Rightarrow> crawl_config \<Rightarrow> string \<Rightarrow> site \<Rightarrow> crawl \<Rightarrow> bool" where
  "crawl_counts env config domain st0 c \<longleftrightarrow>
     (let pages = List.map_filter (crawl_page env config domain) (cr_visited c)
      in distinct (cr_visited c) \<and> cr_pages_crawled c = length pages \<and> cr_pages_crawled c \<le> cc_max_pages config \<and>
         length (cr_visited c) = cr_pages_crawled c + cr_pages_skipped c \<and>
         cr_total_words c = sum_list (map pg_word_count pages) \<and>
         ((\<forall>e. cr_flow c \<noteq> Crawl_Failed e) \<longrightarrow> cr_site c = store_pages env domain pages st0))"

text \<open>The cases of a turn.\<close>
lemma crawl_turn_cases:
  assumes "cr_flow c = Crawling"
  obtains (empty) "cr_queue c = []" "crawl_turn env config domain c = c\<lparr>cr_flow := Crawl_Done\<rparr>"
  | (full) q u depth where "cr_queue c = q @ [(u, depth)]" "cc_max_pages config \<le> cr_pages_crawled c"
      "crawl_turn env config domain c = c\<lparr>cr_queue := q, cr_flow := Crawl_Done\<rparr>"
  | (drop) q u depth where "cr_queue c = q @ [(u, depth)]" "cc_max_depth config < depth \<or> u \<in> set (cr_visited c)"
      "crawl_turn env config domain c = c\<lparr>cr_queue := q\<rparr>"
  | (skip) q u depth where "cr_queue c = q @ [(u, depth)]" "depth \<le> cc_max_depth config" "u \<notin> set (cr_visited c)"
      "crawl_page env config domain u = None" "crawl_links env config domain u = []"
      "crawl_turn env config domain c = c\<lparr>cr_queue := q, cr_visited := cr_visited c @ [u], cr_pages_skipped := Suc (cr_pages_skipped c)\<rparr>"
  | (page) q u depth page st where "cr_queue c = q @ [(u, depth)]" "depth \<le> cc_max_depth config" "u \<notin> set (cr_visited c)"
      "crawl_page env config domain u = Some page" "cr_pages_crawled c < cc_max_pages config"
      "st = store_page (ce_lib env) (ce_now env (cr_pages_crawled c)) domain page (cr_site c)"
      "crawl_turn env config domain c = c\<lparr>cr_visited := cr_visited c @ [u],
         cr_total_words := cr_total_words c + pg_word_count page,
         cr_pages_crawled := Suc (cr_pages_crawled c), cr_site := st,
         cr_queue := q @ map (\<lambda>l. (l, Suc depth))
           (filter (\<lambda>l. l \<notin> set (cr_visited c @ [u])) (crawl_links env config domain u))\<rparr>"
  | (failed) q u depth page st e where "cr_queue c = q @ [(u, depth)]" "depth \<le> cc_max_depth config" "u \<notin> set (cr_visited c)"
      "crawl_page env config domain u = Some page" "cr_pages_crawled c < cc_max_pages config"
      "crawl_turn env config domain c = c\<lparr>cr_queue := q,
         cr_visited := cr_visited c @ [u], cr_total_words := cr_total_words c + pg_word_count page,
         cr_pages_crawled := Suc (cr_pages_crawled c), cr_site := st, cr_flow := Crawl_Failed e\<rparr>"
proof (cases "cr_queue c" rule: rev_cases)
  case Nil
  then show ?thesis using empty by (simp add: crawl_turn_def)
next
  case (snoc q p)
  obtain u depth where p: "p = (u, depth)" by fastforce
  note q = snoc [unfolded p]
  consider (a) "cc_max_pages config \<le> cr_pages_crawled c"
    | (b) "cr_pages_crawled c < cc_max_pages config" "cc_max_depth config < depth \<or> u \<in> set (cr_visited c)"
    | (c) "cr_pages_crawled c < cc_max_pages config" "depth \<le> cc_max_depth config" "u \<notin> set (cr_visited c)"
    by linarith
  then show ?thesis
  proof cases
    case a
    then show ?thesis by (intro full [OF q]) (simp_all add: crawl_turn_def q)
  next
    case b
    then show ?thesis by (intro drop [OF q]) (auto simp: crawl_turn_def q Let_def)
  next
    case c
    show ?thesis
    proof (cases "crawl_page env config domain u")
      case None
      then show ?thesis using c
        by (intro skip [OF q]) (auto simp: crawl_turn_def q crawl_page_def crawl_links_def Let_def split: sum.splits if_splits)
    next
      case (Some page)
      obtain links where f: "fetch_and_extract (ce_lib env) (ce_net env) u domain config = Inr (page, links)"
          "\<not> should_skip u (cc_skip_patterns config)"
        using Some by (auto simp: crawl_page_def split: sum.splits if_splits)
      then have l: "crawl_links env config domain u = links" by (simp add: crawl_links_def)
      obtain r st where s: "save_page (ce_lib env) (ce_fs env) (ce_now env (cr_pages_crawled c)) domain page (cr_site c) = (r, st)"
        by fastforce
      show ?thesis
      proof (cases r)
        case (Inl e)
        then show ?thesis using c f s by (intro failed [OF q c(2,3) Some c(1)]) (simp add: crawl_turn_def q Let_def)
      next
        case (Inr x)
        have "st = store_page (ce_lib env) (ce_now env (cr_pages_crawled c)) domain page (cr_site c)"
          using s Inr by (intro save_page_ok) simp
        then show ?thesis using c f s l Inr by (intro page [OF q c(2,3) Some c(1)]) (simp_all add: crawl_turn_def q Let_def)
      qed
    qed
  qed
qed

lemma crawl_turn_counts:
  assumes inv: "crawl_counts env config domain st0 c" and flow: "cr_flow c = Crawling"
  shows "crawl_counts env config domain st0 (crawl_turn env config domain c)"
  using flow
proof (cases rule: crawl_turn_cases [where env = env and config = config and domain = domain])
  case page
  then show ?thesis using inv flow by (simp add: crawl_counts_def Let_def map_filter_snoc)
next
  case failed
  then show ?thesis using inv flow by (simp add: crawl_counts_def Let_def map_filter_snoc)
qed (use inv flow in \<open>simp_all add: crawl_counts_def Let_def map_filter_snoc\<close>)

lemma crawl_site_result:
  assumes "crawl_site env start_url config st = Some (Inr res, st')"
  obtains base_url c where "wl_parse (ce_lib env) start_url = Inr base_url" "crr_domain res = crawl_domain base_url"
    "crawl_loop env config (crr_domain res) (crawl_start base_url st) = Some c" "\<forall>e. cr_flow c \<noteq> Crawl_Failed e"
    "crr_pages_crawled res = cr_pages_crawled c" "crr_pages_skipped res = cr_pages_skipped c"
    "crr_total_words res = cr_total_words c" "st' = cr_site c"
proof -
  from assms obtain base_url where b: "wl_parse (ce_lib env) start_url = Inr base_url"
    by (auto simp: crawl_site_def split: sum.splits)
  with assms obtain c where "crawl_loop env config (crawl_domain base_url) (crawl_start base_url st) = Some c"
      "(case cr_flow c of Crawl_Failed e \<Rightarrow> Inl e
        | _ \<Rightarrow> Inr \<lparr>crr_domain = crawl_domain base_url, crr_pages_crawled = cr_pages_crawled c,
            crr_pages_skipped = cr_pages_skipped c, crr_total_words = cr_total_words c\<rparr>) = Inr res" "st' = cr_site c"
    by (auto simp: crawl_site_def)
  then show ?thesis by (intro that [OF b]) (auto split: crawl_flow.splits)
qed

text \<open>The addresses a crawl takes up, in the order of its turns: the set visited of the code when the loop ends. An address of it is
  asked for over the network unless a skip pattern matches it, and no other address is.\<close>
definition crawl_visits :: "crawl_env \<Rightarrow> string \<Rightarrow> crawl_config \<Rightarrow> site \<Rightarrow> string list" where
  "crawl_visits env start_url config st =
     (case wl_parse (ce_lib env) start_url of
        Inl _ \<Rightarrow> []
      | Inr base_url \<Rightarrow>
          (case crawl_loop env config (crawl_domain base_url) (crawl_start base_url st) of
             None \<Rightarrow> []
           | Some c \<Rightarrow> cr_visited c))"

text \<open>
  A crawl that returns has taken up no address twice; its counters are exact: the pages are the answers of the addresses
  visited that are not skipped, fetched and long enough, at most max\_pages of them, and the store is the old one with
  these pages saved in the order of the visits.
\<close>
lemma crawl_report:
  assumes "crawl_site env start_url config st = Some (Inr res, st')"
    and "urls = crawl_visits env start_url config st" and "pages = List.map_filter (crawl_page env config (crr_domain res)) urls"
  shows "distinct urls \<and> crr_pages_crawled res = length pages \<and> crr_pages_crawled res \<le> cc_max_pages config \<and>
    crr_pages_skipped res = length urls - length pages \<and> crr_total_words res = sum_list (map pg_word_count pages) \<and>
    st' = store_pages env (crr_domain res) pages st"
proof -
  from crawl_site_result [OF assms(1)] obtain base_url c where c: "wl_parse (ce_lib env) start_url = Inr base_url"
      "crr_domain res = crawl_domain base_url"
      "crawl_loop env config (crr_domain res) (crawl_start base_url st) = Some c" "\<forall>e. cr_flow c \<noteq> Crawl_Failed e"
      "crr_pages_crawled res = cr_pages_crawled c" "crr_pages_skipped res = cr_pages_skipped c"
      "crr_total_words res = cr_total_words c" "st' = cr_site c" by metis
  have "urls = cr_visited c" using c(1-3) assms(2) by (simp add: crawl_visits_def)
  moreover have "crawl_counts env config (crr_domain res) st c"
    by (rule while_option_rule [OF _ c(3) [unfolded crawl_loop_def]])
      (simp_all add: crawl_turn_counts, simp add: crawl_counts_def crawl_start_def List.map_filter_def)
  ultimately show ?thesis using c(4-) assms(3) by (simp add: crawl_counts_def Let_def)
qed

section \<open>Which addresses a crawl visits\<close>

text \<open>
  d is the depth each address was visited at. Visited addresses are within the depth limit and linked, level by level, from
  the start; queued ones will be; and every link of an address above the limit is visited or still queued.
\<close>
definition reached_at :: "crawl_env \<Rightarrow> crawl_config \<Rightarrow> string \<Rightarrow> string \<Rightarrow> (string \<Rightarrow> nat) \<Rightarrow> string list \<Rightarrow> string \<Rightarrow> nat \<Rightarrow> bool" where
  "reached_at env config domain s d urls u k \<longleftrightarrow>
     u = s \<and> k = 0 \<or> (\<exists>p \<in> set urls. u \<in> set (crawl_links env config domain p) \<and> k = Suc (d p))"

definition links_known :: "crawl_env \<Rightarrow> crawl_config \<Rightarrow> string \<Rightarrow> string \<Rightarrow> (string \<Rightarrow> nat) \<Rightarrow> crawl \<Rightarrow> bool" where
  "links_known env config domain s d c \<longleftrightarrow>
     (s \<in> set (cr_visited c) \<or> (s, 0) \<in> set (cr_queue c)) \<and>
     (\<forall>p \<in> set (cr_visited c). d p < cc_max_depth config \<longrightarrow>
        (\<forall>v \<in> set (crawl_links env config domain p). v \<in> set (cr_visited c) \<or> (v, Suc (d p)) \<in> set (cr_queue c)))"

definition crawl_covers :: "crawl_env \<Rightarrow> crawl_config \<Rightarrow> string \<Rightarrow> string \<Rightarrow> (string \<Rightarrow> nat) \<Rightarrow> crawl \<Rightarrow> bool" where
  "crawl_covers env config domain s d c \<longleftrightarrow>
     (\<forall>u \<in> set (cr_visited c). d u \<le> cc_max_depth config \<and> reached_at env config domain s d (cr_visited c) u (d u)) \<and>
     (\<forall>(u, k) \<in> set (cr_queue c). reached_at env config domain s d (cr_visited c) u k) \<and>
     (cr_flow c = Crawl_Done \<longrightarrow> cr_queue c = [] \<or> cc_max_pages config \<le> cr_pages_crawled c) \<and>
     ((\<forall>e. cr_flow c \<noteq> Crawl_Failed e) \<and> cr_pages_crawled c < cc_max_pages config \<longrightarrow> links_known env config domain s d c)"

lemma reached_at_later:
  assumes "reached_at env config domain s d urls u k" and "v \<notin> set urls"
  shows "reached_at env config domain s (d(v := n)) (urls @ [v]) u k"
proof -
  have "(d(v := n)) p = d p" if "p \<in> set urls" for p using that assms(2) by auto
  then show ?thesis using assms(1) unfolding reached_at_def by auto
qed

text \<open>An address visited now gets the depth it was queued with.\<close>
lemma covers_visit:
  assumes inv: "crawl_covers env config domain s d c" and flow: "cr_flow c = Crawling"
    and q: "cr_queue c = q @ [(u, depth)]" "depth \<le> cc_max_depth config" "u \<notin> set (cr_visited c)"
    and c': "cr_visited c' = cr_visited c @ [u]" "cr_pages_crawled c \<le> cr_pages_crawled c'"
      "cr_flow c' \<noteq> Crawl_Done"
      "cr_queue c' = q @ map (\<lambda>l. (l, Suc depth)) (filter (\<lambda>l. l \<notin> set (cr_visited c')) (crawl_links env config domain u)) \<or>
       (\<exists>e. cr_flow c' = Crawl_Failed e) \<and> cr_queue c' = q"
  shows "crawl_covers env config domain s (d(u := depth)) c'"
proof -
  let ?d = "d(u := depth)"
  have old: "?d p = d p" if "p \<in> set (cr_visited c)" for p using that q(3) by auto
  have set': "set (cr_visited c') = insert u (set (cr_visited c))" by (simp add: c'(1))
  have vis: "\<And>v. v \<in> set (cr_visited c) \<Longrightarrow> d v \<le> cc_max_depth config \<and> reached_at env config domain s d (cr_visited c) v (d v)"
    and que: "\<And>v k. (v, k) \<in> set (cr_queue c) \<Longrightarrow> reached_at env config domain s d (cr_visited c) v k"
    using inv unfolding crawl_covers_def by auto
  note later = reached_at_later [where v = u and n = depth, OF _ q(3), folded c'(1)]
  have 1: "\<forall>v \<in> set (cr_visited c'). ?d v \<le> cc_max_depth config \<and> reached_at env config domain s ?d (cr_visited c') v (?d v)"
  proof
    fix v assume v: "v \<in> set (cr_visited c')"
    show "?d v \<le> cc_max_depth config \<and> reached_at env config domain s ?d (cr_visited c') v (?d v)"
    proof (cases "v = u")
      case True
      then show ?thesis using later [OF que [of u depth]] q(1,2) by simp
    next
      case False
      then have "v \<in> set (cr_visited c)" using v set' by simp
      then show ?thesis using vis later [of env config domain s d v "d v"] False c'(1) by simp
    qed
  qed
  have 2: "\<forall>(v, k) \<in> set (cr_queue c'). reached_at env config domain s ?d (cr_visited c') v k"
  proof clarify
    fix v k assume "(v, k) \<in> set (cr_queue c')"
    then consider "(v, k) \<in> set (cr_queue c)" | "v \<in> set (crawl_links env config domain u)" "k = Suc depth"
      using c'(4) q(1) by auto
    then show "reached_at env config domain s ?d (cr_visited c') v k"
    proof cases
      case 1
      then show ?thesis by (rule later [OF que])
    next
      case 2
      then show ?thesis by (simp add: reached_at_def set')
    qed
  qed
  have 3: "links_known env config domain s ?d c'"
    if "\<forall>e. cr_flow c' \<noteq> Crawl_Failed e" "cr_pages_crawled c' < cc_max_pages config"
  proof -
    from that c'(4) have q': "cr_queue c' = q @ map (\<lambda>l. (l, Suc depth))
        (filter (\<lambda>l. l \<notin> set (cr_visited c')) (crawl_links env config domain u))" by blast
    have kept: "x \<in> set (cr_queue c) \<Longrightarrow> fst x \<in> set (cr_visited c') \<or> x \<in> set (cr_queue c')" for x
      by (auto simp: q q' set')
    have "links_known env config domain s d c" using that(2) c'(2) flow inv by (simp add: crawl_covers_def)
    then have s: "s \<in> set (cr_visited c) \<or> (s, 0) \<in> set (cr_queue c)"
      and p: "\<And>p v. p \<in> set (cr_visited c) \<Longrightarrow> d p < cc_max_depth config \<Longrightarrow> v \<in> set (crawl_links env config domain p) \<Longrightarrow>
        v \<in> set (cr_visited c) \<or> (v, Suc (d p)) \<in> set (cr_queue c)" by (auto simp: links_known_def)
    show ?thesis unfolding links_known_def
    proof (intro conjI ballI impI)
      show "s \<in> set (cr_visited c') \<or> (s, 0) \<in> set (cr_queue c')" using s kept [of "(s, 0)"] set' by auto
    next
      fix p' v assume a: "p' \<in> set (cr_visited c')" "?d p' < cc_max_depth config" "v \<in> set (crawl_links env config domain p')"
      show "v \<in> set (cr_visited c') \<or> (v, Suc (?d p')) \<in> set (cr_queue c')"
      proof (cases "p' = u")
        case True
        then show ?thesis using a(3) by (auto simp: q')
      next
        case False
        then have "p' \<in> set (cr_visited c)" using a(1) set' by simp
        with p [of p' v] a False have "v \<in> set (cr_visited c) \<or> (v, Suc (d p')) \<in> set (cr_queue c)" by auto
        then show ?thesis using kept [of "(v, Suc (d p'))"] set' False by auto
      qed
    qed
  qed
  show ?thesis unfolding crawl_covers_def using 1 2 3 c'(3) by blast
qed

lemma links_known_drop:
  assumes "links_known env config domain s d c" and "cr_queue c = q @ [(u, depth)]"
    and "cc_max_depth config < depth \<or> u \<in> set (cr_visited c)"
  shows "links_known env config domain s d (c\<lparr>cr_queue := q\<rparr>)"
proof -
  have kept: "x \<in> set (cr_queue c) \<Longrightarrow> snd x \<le> cc_max_depth config \<Longrightarrow> fst x \<in> set (cr_visited c) \<or> x \<in> set q" for x
    using assms(2,3) by auto
  have 1: "s \<in> set (cr_visited c) \<or> (s, 0) \<in> set q" using assms(1) kept [of "(s, 0)"] by (auto simp: links_known_def)
  have 2: "v \<in> set (cr_visited c) \<or> (v, Suc (d p)) \<in> set q"
    if "p \<in> set (cr_visited c)" "d p < cc_max_depth config" "v \<in> set (crawl_links env config domain p)" for p v
    using that assms(1) kept [of "(v, Suc (d p))"] by (auto simp: links_known_def)
  show ?thesis using 1 2 by (simp add: links_known_def)
qed

lemma crawl_turn_covers:
  assumes inv: "crawl_covers env config domain s d c" and flow: "cr_flow c = Crawling"
  shows "\<exists>d'. crawl_covers env config domain s d' (crawl_turn env config domain c)"
  using flow
proof (cases rule: crawl_turn_cases [where env = env and config = config and domain = domain])
  case empty
  have "crawl_covers env config domain s d (crawl_turn env config domain c)"
    unfolding empty(2) using inv flow empty(1) by (simp add: crawl_covers_def links_known_def)
  then show ?thesis by blast
next
  case full
  have "crawl_covers env config domain s d (crawl_turn env config domain c)"
    unfolding full(3) using inv flow full(1,2) by (simp add: crawl_covers_def)
  then show ?thesis by blast
next
  case (drop q u depth)
  have "crawl_covers env config domain s d (crawl_turn env config domain c)"
    unfolding drop(3) using inv flow drop(1) links_known_drop [OF _ drop(1,2)] by (simp add: crawl_covers_def)
  then show ?thesis by blast
next
  case (skip q u depth)
  have "crawl_covers env config domain s (d(u := depth)) (crawl_turn env config domain c)"
    by (rule covers_visit [OF inv flow skip(1-3)]) (simp_all add: skip flow)
  then show ?thesis by blast
next
  case (page q u depth page st)
  have "crawl_covers env config domain s (d(u := depth)) (crawl_turn env config domain c)"
    by (rule covers_visit [OF inv flow page(1-3)]) (simp_all add: page(7) flow)
  then show ?thesis by blast
next
  case (failed q u depth page st e)
  have "crawl_covers env config domain s (d(u := depth)) (crawl_turn env config domain c)"
    by (rule covers_visit [OF inv flow failed(1-3)]) (simp_all add: failed(6))
  then show ?thesis by blast
qed

text \<open>C35: 
  The addresses a crawl visits are distinct; there is a depth for each, within max\_depth, such that the start has depth 0 and
  every other address is a link of a visited page one level up, and the pages counted are the answers of these addresses.
  When it stays below the page limit, it visits the start and every link of every page it visited above the depth limit.
\<close>
theorem crawl_coverage:
  assumes "crawl_site env start_url config st = Some (Inr res, st')" and "wl_parse (ce_lib env) start_url = Inr base_url"
    and "urls = crawl_visits env start_url config st"
  shows "distinct urls \<and>
    crr_pages_crawled res = length (List.map_filter (crawl_page env config (crr_domain res)) urls) \<and>
    (\<exists>d. (\<forall>u \<in> set urls. d u \<le> cc_max_depth config \<and>
      (u = normalize_url base_url \<and> d u = 0 \<or>
       (\<exists>p \<in> set urls. u \<in> set (crawl_links env config (crr_domain res) p) \<and> d u = Suc (d p)))) \<and>
    (crr_pages_crawled res < cc_max_pages config \<longrightarrow> normalize_url base_url \<in> set urls \<and>
      (\<forall>p \<in> set urls. d p < cc_max_depth config \<longrightarrow> set (crawl_links env config (crr_domain res) p) \<subseteq> set urls)))"
proof -
  let ?s = "normalize_url base_url" let ?dom = "crr_domain res"
  from crawl_site_result [OF assms(1)] assms(2) obtain c where c:
      "crawl_loop env config ?dom (crawl_start base_url st) = Some c" "\<forall>e. cr_flow c \<noteq> Crawl_Failed e"
      "crr_pages_crawled res = cr_pages_crawled c" "?dom = crawl_domain base_url" by (metis sum.inject(2))
  have urls: "urls = cr_visited c" using c(1,4) assms(2,3) by (simp add: crawl_visits_def)
  note loop = c(1) [unfolded crawl_loop_def]
  have "\<exists>d. crawl_covers env config ?dom ?s d c"
  proof (rule while_option_rule [OF _ loop])
    show "\<exists>d. crawl_covers env config ?dom ?s d (crawl_start base_url st)"
      by (simp add: crawl_covers_def crawl_start_def reached_at_def links_known_def)
  qed (use crawl_turn_covers in blast)
  then obtain d where d: "crawl_covers env config ?dom ?s d c" ..
  have "cr_flow c = Crawl_Done" using while_option_stop [OF loop] c(2) by (cases "cr_flow c") simp_all
  with d have q: "cr_queue c = [] \<or> cc_max_pages config \<le> cr_pages_crawled c" by (simp add: crawl_covers_def)
  have "\<forall>u \<in> set urls. d u \<le> cc_max_depth config \<and> (u = ?s \<and> d u = 0 \<or>
      (\<exists>p \<in> set urls. u \<in> set (crawl_links env config ?dom p) \<and> d u = Suc (d p)))"
    using d by (simp add: crawl_covers_def reached_at_def urls)
  moreover have "crr_pages_crawled res < cc_max_pages config \<longrightarrow> ?s \<in> set urls \<and>
      (\<forall>p \<in> set urls. d p < cc_max_depth config \<longrightarrow> set (crawl_links env config ?dom p) \<subseteq> set urls)"
    using d c(2,3) q by (auto simp: crawl_covers_def links_known_def urls)
  ultimately show ?thesis using crawl_report [OF assms(1,3) refl] by blast
qed

section \<open>What is stored is read back\<close>

lemma store_pages_index:
  assumes "si_indexes st domain = None" and "distinct (map pg_url pages)"
  shows "si_indexes (store_pages env domain pages st) domain =
    (if pages = [] then None
     else Some \<lparr>sx_domain = domain,
       sx_pages = map (\<lambda>p. \<lparr>pe_url = pg_url p, pe_file = url_to_filename (ce_lib env) (pg_url p), pe_title = pg_title p,
         pe_word_count = pg_word_count p\<rparr>) pages,
       sx_last_crawl = ce_now env (length pages - 1), sx_total_words = sum_list (map pg_word_count pages)\<rparr>)"
  using assms(2)
proof (induction pages rule: rev_induct)
  case (snoc page pages)
  then have "filter (\<lambda>x. pg_url x \<noteq> pg_url page) pages = pages" by (fastforce simp: filter_id_conv image_iff)
  with snoc assms(1) show ?case by (auto simp: store_page_def indexed_def Let_def filter_map comp_def)
qed (simp add: assms(1))







section \<open>File names\<close>

text \<open>
  The file of a page stays inside its domain's directory: its name is not empty, starts with no slash, has no dot but the
  one of .md, so no parent directory and never the index file.
\<close>
theorem page_file_confined:
  "\<exists>base. url_to_filename lib u = base @ ''.md'' \<and> base \<noteq> [] \<and> hd base \<noteq> CHR ''/'' \<and>
    (\<forall>c \<in> set base. ascii_alphanumeric c \<or> c \<in> {CHR ''-'', CHR ''_'', CHR ''/''})"
proof -
  let ?ok = "\<lambda>base. base \<noteq> [] \<and> hd base \<noteq> CHR ''/'' \<and>
    (\<forall>c \<in> set base. ascii_alphanumeric c \<or> c \<in> {CHR ''-'', CHR ''_'', CHR ''/''})"
  have index: "\<exists>base. ''index.md'' = base @ ''.md'' \<and> ?ok base"
    by (rule exI [of _ "''index''"]) (simp add: ascii_alphanumeric_def)
  show ?thesis
  proof (cases "wl_parse lib u")
    case (Inr x)
    let ?path = "trim_slashes (url_path x)" let ?clean = "map file_char ?path"
    show ?thesis
    proof (cases "?path = []")
      case False
      have chars: "ascii_alphanumeric c \<or> c \<in> {CHR ''-'', CHR ''_'', CHR ''/''}" if "c \<in> set ?clean" for c
        using that by (auto simp: file_char_def split: if_splits)
      have "CHR ''.'' \<notin> set ?clean" using chars [of "CHR ''.''"] by (auto simp: ascii_alphanumeric_def)
      then have no: "\<not> suffix ''.md'' ?clean" by (metis append.simps(2) in_set_conv_decomp suffix_def)
      have "hd ?path \<noteq> CHR ''/''"
      proof -
        let ?t = "dropWhile (\<lambda>c. c = CHR ''/'') (url_path x)"
        obtain n where n: "?path = take n ?t" unfolding trim_slashes_def
          by (metis dropWhile_eq_drop rev_drop rev_rev_ident)
        with False have "?t \<noteq> []" "hd ?path = hd ?t" by (auto simp: take_eq_Nil hd_take)
        then show ?thesis using hd_dropWhile [of "\<lambda>c. c = CHR ''/''" "url_path x"] by simp
      qed
      then have "?ok ?clean" using False chars by (auto simp: hd_map file_char_def split: if_splits)
      then show ?thesis using Inr False no by (simp add: url_to_filename_def Let_def)
    qed (use Inr index in \<open>simp add: url_to_filename_def\<close>)
  qed (use index in \<open>simp add: url_to_filename_def\<close>)
qed

text \<open>Pages of different addresses with the same file name: the index lists both, and both read as the later one.\<close>
lemma same_file_overwrites:
  assumes "pg_url p \<noteq> pg_url q" and "url_to_filename (ce_lib env) (pg_url p) = url_to_filename (ce_lib env) (pg_url q)"
    and "si_indexes st domain = None" and "read_all_pages domain (store_pages env domain [p, q] st) = Inr entries"
  shows "length entries = 2 \<and> (\<forall>(e, content) \<in> set entries. content = page_file_text q)"
proof -
  let ?st = "store_pages env domain [p, q] st"
  have readq: "read_page domain (url_to_filename (ce_lib env) (pg_url q)) ?st = Some (page_file_text q)"
    by (simp add: read_page_def store_pages_def store_page_def)
  have "\<exists>a b. entries = order_asc (\<lambda>(a, _). (url_slashes a, pe_url a)) [(a, page_file_text q), (b, page_file_text q)]"
    using assms store_pages_index [OF assms(3), of "[p, q]" env] readq
    by (simp add: read_all_pages_def load_index_def List.map_filter_simps) blast
  then obtain a b where e: "entries = order_asc (\<lambda>(a, _). (url_slashes a, pe_url a)) [(a, page_file_text q), (b, page_file_text q)]"
    by blast
  have "length entries = 2" by (simp only: e order_asc_def length_sort) simp
  moreover have "set entries = {(a, page_file_text q), (b, page_file_text q)}" by (simp only: e set_order_asc) simp
  ultimately show ?thesis by simp
qed

section \<open>Evaluations\<close>

text \<open>
  A parser for the addresses of one host that, as Url::parse does, drops tabs and line breaks and the blanks around an
  address, and gives a bare host the path /.
\<close>
definition sample_url :: "string \<Rightarrow> string + url" where
  "sample_url u =
     (let blank = (\<lambda>c. c \<le> CHR '' ''); v = filter (\<lambda>c. c \<notin> {CHR 0x09, CHR 0x0A, CHR 0x0D}) u;
          s = rev (dropWhile blank (rev (dropWhile blank v)))
      in if prefix ''http://h/'' s then Inr \<lparr>url_str = s, url_scheme = ''http'', url_host = Some ''h'', url_path = drop 8 s\<rparr>
         else if s = ''http://h'' then Inr \<lparr>url_str = ''http://h/'', url_scheme = ''http'', url_host = Some ''h'', url_path = ''/''\<rparr>
         else Inl ''relative URL without a base'')"

text \<open>A site of four pages: s links to a and z, z to a, a to c.\<close>
definition sample_web :: crawl_env where
  "sample_web = \<lparr>ce_lib = \<lparr>wl_parse = sample_url,
       wl_join = (\<lambda>_ u. case sample_url (''http://h/'' @ u) of Inl _ \<Rightarrow> None | Inr x \<Rightarrow> Some x),
       wl_hrefs = (\<lambda>html. if html = ''s'' then [''a'', ''z#top''] else if html = ''z'' then [''a ''] else if html = ''a'' then [''c''] else []),
       wl_title = (\<lambda>_. None), wl_htmd = (\<lambda>_. None), wl_readability = (\<lambda>_ _. None)\<rparr>,
     ce_net = (\<lambda>u. if u = ''http://h/s'' then Inr (200, ''s'') else if u = ''http://h/a'' then Inr (200, ''a'')
       else if u = ''http://h/z'' then Inr (200, ''z'') else if u = ''http://h/c'' then Inr (200, ''c'') else Inl ''404''),
     ce_fs = (\<lambda>_. None), ce_now = (\<lambda>_. ''now'')\<rparr>"

definition sample_crawl_config :: crawl_config where
  "sample_crawl_config = \<lparr>cc_max_depth = 2, cc_max_pages = 10, cc_readability = False, cc_min_words = 0, cc_skip_patterns = []\<rparr>"

definition empty_site :: site where
  "empty_site = \<lparr>si_files = (\<lambda>_. None), si_indexes = (\<lambda>_. None)\<rparr>"

abbreviation "sample_page u \<equiv> \<lparr>pg_url = u, pg_title = [], pg_markdown = [], pg_word_count = 0, pg_status = 200\<rparr>"

lemma clean_empty: "clean_markdown [] = []" "count_words False [] = 0"
  by (simp_all add: clean_markdown_def lines_def trim_def trim_start.simps [of "[]"] trim_end.simps [of "[]"] ws_len_def
      ws_len_end_def white_space_def bytes_def count_words.simps [of False "[]"])

lemma sample_cfg: "cc_max_depth sample_crawl_config = 2" "cc_max_pages sample_crawl_config = 10"
  "cc_skip_patterns sample_crawl_config = []" "cc_readability sample_crawl_config = False" "cc_min_words sample_crawl_config = 0"
  by (simp_all add: sample_crawl_config_def)

text \<open>The start is written with a line break and blanks, which the parser drops.\<close>
abbreviation "sample_start \<equiv> '' http://h/'' @ [CHR 0x0A] @ ''s ''"

abbreviation "sample_base \<equiv> \<lparr>url_str = ''http://h/s'', url_scheme = ''http'', url_host = Some ''h'', url_path = ''/s''\<rparr>"

lemma sample_parse: "wl_parse (ce_lib sample_web) sample_start = Inr sample_base"
  "wl_parse (ce_lib sample_web) ''http://h/s'' = Inr sample_base"
  "wl_parse (ce_lib sample_web) ''http://h/a'' = Inr \<lparr>url_str = ''http://h/a'', url_scheme = ''http'', url_host = Some ''h'', url_path = ''/a''\<rparr>"
  "wl_parse (ce_lib sample_web) ''http://h/z'' = Inr \<lparr>url_str = ''http://h/z'', url_scheme = ''http'', url_host = Some ''h'', url_path = ''/z''\<rparr>"
  "wl_parse (ce_lib sample_web) ''http://h/c'' = Inr \<lparr>url_str = ''http://h/c'', url_scheme = ''http'', url_host = Some ''h'', url_path = ''/c''\<rparr>"
  by code_simp+

lemma sample_links:
  "extract_links_from_html (ce_lib sample_web) ''s'' base ''h'' = [''http://h/a'', ''http://h/z'']"
  "extract_links_from_html (ce_lib sample_web) ''z'' base ''h'' = [''http://h/a'']"
  "extract_links_from_html (ce_lib sample_web) ''a'' base ''h'' = [''http://h/c'']"
  "extract_links_from_html (ce_lib sample_web) ''c'' base ''h'' = []"
  by code_simp+

lemma sample_fetch:
  "fetch_and_extract (ce_lib sample_web) (ce_net sample_web) ''http://h/s'' ''h'' sample_crawl_config =
    Inr (sample_page ''http://h/s'', [''http://h/a'', ''http://h/z''])"
  "fetch_and_extract (ce_lib sample_web) (ce_net sample_web) ''http://h/z'' ''h'' sample_crawl_config =
    Inr (sample_page ''http://h/z'', [''http://h/a''])"
  "fetch_and_extract (ce_lib sample_web) (ce_net sample_web) ''http://h/a'' ''h'' sample_crawl_config =
    Inr (sample_page ''http://h/a'', [''http://h/c''])"
  "fetch_and_extract (ce_lib sample_web) (ce_net sample_web) ''http://h/c'' ''h'' sample_crawl_config =
    Inr (sample_page ''http://h/c'', [])"
proof -
  have net: "ce_net sample_web ''http://h/s'' = Inr (200, ''s'')" "ce_net sample_web ''http://h/a'' = Inr (200, ''a'')"
    "ce_net sample_web ''http://h/z'' = Inr (200, ''z'')" "ce_net sample_web ''http://h/c'' = Inr (200, ''c'')"
    by (simp_all add: sample_web_def)
  have md: "html_to_markdown (ce_lib sample_web) html u False = ([], [])" for html u
    by (simp add: html_to_markdown_def extract_title_def convert_or_empty_def clean_empty sample_web_def Let_def)
  note eval = fetch_and_extract_def sample_parse net sample_cfg md sample_links clean_empty
  show "fetch_and_extract (ce_lib sample_web) (ce_net sample_web) ''http://h/s'' ''h'' sample_crawl_config =
      Inr (sample_page ''http://h/s'', [''http://h/a'', ''http://h/z''])" by (simp add: eval)
  show "fetch_and_extract (ce_lib sample_web) (ce_net sample_web) ''http://h/z'' ''h'' sample_crawl_config =
      Inr (sample_page ''http://h/z'', [''http://h/a''])" by (simp add: eval)
  show "fetch_and_extract (ce_lib sample_web) (ce_net sample_web) ''http://h/a'' ''h'' sample_crawl_config =
      Inr (sample_page ''http://h/a'', [''http://h/c''])" by (simp add: eval)
  show "fetch_and_extract (ce_lib sample_web) (ce_net sample_web) ''http://h/c'' ''h'' sample_crawl_config =
      Inr (sample_page ''http://h/c'', [])" by (simp add: eval)
qed

lemma crawl_loop_simps:
  "cr_flow c = Crawling \<Longrightarrow> crawl_loop env config domain c = crawl_loop env config domain (crawl_turn env config domain c)"
  "cr_flow c \<noteq> Crawling \<Longrightarrow> crawl_loop env config domain c = Some c"
  by (simp_all add: crawl_loop_def while_option_unfold [of _ _ c])

lemma save_page_works: "save_page lib (\<lambda>_. None) now domain page st = (Inr (), store_page lib now domain page st)"
  by (simp add: save_page_def update_index_def store_page_def load_index_def Let_def)

abbreviation "sample_pages \<equiv> [sample_page ''http://h/s'', sample_page ''http://h/z'', sample_page ''http://h/a'']"

lemma sample_loop:
  "crawl_loop sample_web sample_crawl_config ''h'' (crawl_start sample_base empty_site) =
    Some \<lparr>cr_visited = [''http://h/s'', ''http://h/z'', ''http://h/a''], cr_queue = [], cr_pages_crawled = 3, cr_pages_skipped = 0,
      cr_total_words = 0, cr_site = store_pages sample_web ''h'' sample_pages empty_site, cr_flow = Crawl_Done\<rparr>"
proof -
  have fs: "ce_fs sample_web = (\<lambda>_. None)" by (simp add: sample_web_def)
  have start: "normalize_url sample_base = ''http://h/s''" by code_simp
  show ?thesis
    by (simp add: fs crawl_start_def start crawl_loop_simps crawl_turn_def sample_cfg
        should_skip_def sample_fetch save_page_works Let_def store_pages_def)
qed

lemma sample_crawl:
  "crawl_site sample_web sample_start sample_crawl_config empty_site =
    Some (Inr \<lparr>crr_domain = ''h'', crr_pages_crawled = 3, crr_pages_skipped = 0, crr_total_words = 0\<rparr>,
      store_pages sample_web ''h'' sample_pages empty_site)"
  by (simp add: crawl_site_def sample_parse [simplified] crawl_domain_def sample_loop)

lemma sample_visits:
  "[''http://h/s'', ''http://h/z'', ''http://h/a''] = crawl_visits sample_web sample_start sample_crawl_config empty_site"
  by (simp add: crawl_visits_def sample_parse [simplified] crawl_domain_def sample_loop)

lemma sample_names: "crawl_page sample_web sample_crawl_config ''h'' ''http://h/s'' = Some (sample_page ''http://h/s'')"
  "crawl_page sample_web sample_crawl_config ''h'' ''http://h/z'' = Some (sample_page ''http://h/z'')"
  "crawl_page sample_web sample_crawl_config ''h'' ''http://h/a'' = Some (sample_page ''http://h/a'')"
  "crawl_page sample_web sample_crawl_config ''h'' ''http://h/c'' = Some (sample_page ''http://h/c'')"
  by (simp_all add: crawl_page_def sample_fetch should_skip_def sample_cfg)

lemma sample_files:
  "url_to_filename (ce_lib sample_web) ''http://h/s'' = ''s.md''" "url_to_filename (ce_lib sample_web) ''http://h/z'' = ''z.md''"
  "url_to_filename (ce_lib sample_web) ''http://h/a'' = ''a.md''"
  by code_simp+

lemma crawl_coverage_witness:
  "\<exists>d. \<forall>u \<in> {''http://h/s'', ''http://h/z'', ''http://h/a''}. d u \<le> (2::nat) \<and> (u = ''http://h/s'' \<and> d u = 0 \<or>
    (\<exists>p \<in> {''http://h/s'', ''http://h/z'', ''http://h/a''}.
       u \<in> set (crawl_links sample_web sample_crawl_config ''h'' p) \<and> d u = Suc (d p)))"
proof -
  have s: "normalize_url sample_base = ''http://h/s''" by code_simp
  from crawl_coverage [OF sample_crawl sample_parse(1) sample_visits] show ?thesis
    unfolding crawl_result.simps s sample_cfg by auto
qed


text \<open>
  The stack is not breadth first: a is visited at depth 2 by way of z before its turn at depth 1, so the link it has to c, two
  links away from the start and within the limit of 2, is dropped, although only 3 of 10 pages are used.
\<close>
lemma near_page_missed:
  "''http://h/a'' \<in> set (crawl_links sample_web sample_crawl_config ''h'' ''http://h/s'') \<and>
   ''http://h/c'' \<in> set (crawl_links sample_web sample_crawl_config ''h'' ''http://h/a'') \<and>
   crawl_page sample_web sample_crawl_config ''h'' ''http://h/c'' \<noteq> None \<and>
   (\<forall>r st. crawl_site sample_web sample_start sample_crawl_config empty_site = Some (r, st) \<longrightarrow> si_files st (''h'', ''c.md'') = None)"
proof -
  have "si_files (store_pages sample_web ''h'' sample_pages empty_site) (''h'', ''c.md'') = None"
    by (simp add: store_pages_def store_page_def sample_files ascii_alphanumeric_def empty_site_def)
  then show ?thesis by (simp add: sample_crawl [simplified] sample_names crawl_links_def sample_fetch should_skip_def sample_cfg)
qed

text \<open>A start page below the word limit ends the crawl: its links are thrown away with it.\<close>
lemma thin_start_page:
  assumes "wl_parse (ce_lib env) start_url = Inr base_url" and "crawl_page env config (crawl_domain base_url) (normalize_url base_url) = None"
    and "0 < cc_max_pages config"
  shows "crawl_site env start_url config st = Some (Inr \<lparr>crr_domain = crawl_domain base_url, crr_pages_crawled = 0,
    crr_pages_skipped = 1, crr_total_words = 0\<rparr>, st)"
proof -
  have "crawl_turn env config (crawl_domain base_url) (crawl_start base_url st) = (crawl_start base_url st)\<lparr>cr_queue := [],
      cr_visited := [normalize_url base_url], cr_pages_skipped := 1\<rparr>"
    using assms(2,3) by (auto simp: crawl_turn_def crawl_start_def crawl_page_def Let_def split: if_splits sum.splits)
  then show ?thesis using assms(1)
    by (simp add: crawl_site_def crawl_loop_simps crawl_start_def crawl_turn_def)
qed

end
