(* ===== verification/Board_Markdown.thy ===== *)
theory Board_Markdown
  imports Store_Board Acceptance
begin

text \<open>
  Markdown files of issues (gctrl-storage/src/board\_markdown.rs): front matter in the kernel's own YAML subset, export and
  import of a directory, and the two routes that run them on the board store. The files of a directory are a list of name
  and contents (or the error of reading it), the SHA-256 of a text is a parameter, the clock reading an argument.
\<close>

section \<open>Front matter\<close>

text \<open>GctlError::Storage and GctlError::InvalidInput.\<close>
datatype md_error = Md_Storage string | Md_Invalid string

definition split_frontmatter :: "string \<Rightarrow> md_error + string \<times> string" where
  "split_frontmatter content =
     (let trimmed = trim_start content
      in if \<not> prefix ''---'' trimmed then Inr ([], content)
         else (let after_first = drop 3 trimmed
               in case str_find (CHR 0x0A # ''---'') after_first of
                    None \<Rightarrow> Inl (Md_Invalid ''unterminated YAML frontmatter (missing closing ---)'')
                  | Some e \<Rightarrow> Inr (trim (take e after_first), drop (e + 4) after_first)))"

text \<open>One line: nothing for blank lines, comments and lines without a colon.\<close>
definition parse_yaml_line :: "string \<Rightarrow> (string \<times> json) option" where
  "parse_yaml_line l =
     (let l = trim l
      in if l = [] \<or> prefix ''#'' l then None
         else case split_once (CHR '':'') l of
             None \<Rightarrow> None
           | Some (k, v) \<Rightarrow>
               (let value_str = trim v
                in Some (trim k,
                     if prefix ''['' value_str \<and> suffix '']'' value_str
                     then JArr (map (\<lambda>s. JStr (trim s)) (split_char (CHR '','') (take (length value_str - 2) (drop 1 value_str))))
                     else JStr value_str)))"

definition parse_yaml_frontmatter :: "string \<Rightarrow> string \<Rightarrow> json option" where
  "parse_yaml_frontmatter yaml_str =
     (if yaml_str = [] then Map.empty
      else foldl (\<lambda>m l. case parse_yaml_line l of None \<Rightarrow> m | Some (k, v) \<Rightarrow> m(k \<mapsto> v)) Map.empty (lines yaml_str))"

fun json_as_str :: "json \<Rightarrow> string option" where
  "json_as_str (JStr s) = Some s"
| "json_as_str _ = None"

fun json_as_array :: "json \<Rightarrow> json list option" where
  "json_as_array (JArr xs) = Some xs"
| "json_as_array _ = None"

fun extract_h1 :: "string list \<Rightarrow> string option" where
  "extract_h1 [] = None"
| "extract_h1 (l # ls) = (case strip_prefix ''# '' (trim l) of Some title \<Rightarrow> Some (trim title) | None \<Rightarrow> extract_h1 ls)"

definition extract_h1_title :: "string \<Rightarrow> string option" where
  "extract_h1_title body = extract_h1 (lines body)"

definition drop_blank :: "string list \<Rightarrow> string list" where
  "drop_blank = dropWhile (\<lambda>l. trim l = [])"

definition strip_h1_title :: "string \<Rightarrow> string" where
  "strip_h1_title body =
     (let ls = drop_blank (lines body);
          ls = (case ls of [] \<Rightarrow> [] | l # rest \<Rightarrow> if prefix ''# '' (trim l) then rest else ls)
      in trim (join [CHR 0x0A] (drop_blank ls)))"

section \<open>One issue\<close>

record parsed_issue =
  pi_id :: "string option"
  pi_project_key :: "string option"
  pi_title :: "string option"
  pi_status :: "string option"
  pi_priority :: "string option"
  pi_assignee :: "string option"
  pi_assignee_type :: "string option"
  pi_labels :: "string list"
  pi_created_by :: "string option"
  pi_created_by_type :: "string option"
  pi_parent_id :: "string option"
  pi_body :: string
  pi_content_hash :: string

definition parse_issue_markdown :: "(string \<Rightarrow> string) \<Rightarrow> string \<Rightarrow> md_error + parsed_issue" where
  "parse_issue_markdown sha256 content =
     (case split_frontmatter content of
        Inl e \<Rightarrow> Inl e
      | Inr (frontmatter, body) \<Rightarrow>
          (let yaml = parse_yaml_frontmatter frontmatter;
               get_str = (\<lambda>k. Option.bind (yaml k) json_as_str);
               labels = (case Option.bind (yaml ''labels'') json_as_array of
                   None \<Rightarrow> [] | Some arr \<Rightarrow> List.map_filter json_as_str arr)
           in Inr \<lparr>pi_id = get_str ''id'', pi_project_key = get_str ''project'',
                pi_title = (case get_str ''title'' of Some t \<Rightarrow> Some t | None \<Rightarrow> extract_h1_title body),
                pi_status = get_str ''status'', pi_priority = get_str ''priority'', pi_assignee = get_str ''assignee'',
                pi_assignee_type = get_str ''assignee_type'', pi_labels = labels, pi_created_by = get_str ''created_by'',
                pi_created_by_type = get_str ''created_by_type'', pi_parent_id = get_str ''parent_id'',
                pi_body = trim body, pi_content_hash = sha256 content\<rparr>))"

definition field :: "string \<Rightarrow> string \<Rightarrow> string" where
  "field k v = k @ '': '' @ v"

definition optional_field :: "string \<Rightarrow> string option \<Rightarrow> string list" where
  "optional_field k v = (case v of None \<Rightarrow> [] | Some x \<Rightarrow> [field k x])"

definition frontmatter_lines :: "board_issue \<Rightarrow> string \<Rightarrow> string list" where
  "frontmatter_lines issue project_key =
     [field ''id'' (bi_id issue), field ''project'' project_key, field ''status'' (issue_status_as_str (bi_status issue)),
      field ''priority'' (bi_priority issue)] @
     optional_field ''assignee'' (bi_assignee_name issue) @ optional_field ''assignee_type'' (bi_assignee_type issue) @
     (if bi_labels issue = [] then [] else [''labels: ['' @ join '', '' (bi_labels issue) @ '']'']) @
     [field ''created_by'' (bi_created_by_name issue)] @
     (if bi_created_by_type issue = ''human'' then [] else [field ''created_by_type'' (bi_created_by_type issue)]) @
     optional_field ''parent_id'' (bi_parent_id issue)"

definition issue_to_markdown :: "board_issue \<Rightarrow> string \<Rightarrow> string" where
  "issue_to_markdown issue project_key =
     join [CHR 0x0A]
       ([''---''] @ frontmatter_lines issue project_key @ [''---'', [], ''# '' @ bi_title issue, []] @
        (case bi_description issue of None \<Rightarrow> [] | Some d \<Rightarrow> [d]) @ [[]])"

section \<open>Directories\<close>

text \<open>Path::extension of a file name: what follows its last dot, unless the name has no dot but a leading one.\<close>
definition file_extension :: "string \<Rightarrow> string option" where
  "file_extension name =
     (let ext = rev (takeWhile (\<lambda>c. c \<noteq> CHR ''.'') (rev name))
      in if CHR ''.'' \<notin> set name \<or> length name = Suc (length ext) then None else Some ext)"

definition imported_issue :: "timestamp \<Rightarrow> string \<Rightarrow> board_project \<Rightarrow> string \<Rightarrow> parsed_issue \<Rightarrow> board_issue" where
  "imported_issue now path project iid parsed =
     (let description = strip_h1_title (pi_body parsed)
      in \<lparr>bi_id = iid, bi_project_id = bp_id project,
          bi_title = (case pi_title parsed of Some t \<Rightarrow> t | None \<Rightarrow> iid),
          bi_description = (if description = [] then None else Some description),
          bi_status = (case Option.bind (pi_status parsed) issue_status_from_str of Some st \<Rightarrow> st | None \<Rightarrow> Backlog),
          bi_priority = (case pi_priority parsed of Some p \<Rightarrow> p | None \<Rightarrow> ''none''),
          bi_assignee_id = pi_assignee parsed, bi_assignee_name = pi_assignee parsed,
          bi_assignee_type = pi_assignee_type parsed, bi_labels = pi_labels parsed, bi_parent_id = pi_parent_id parsed,
          bi_created_at = now, bi_updated_at = now,
          bi_created_by_id = (case pi_created_by parsed of Some c \<Rightarrow> c | None \<Rightarrow> ''unknown''),
          bi_created_by_name = (case pi_created_by parsed of Some c \<Rightarrow> c | None \<Rightarrow> ''unknown''),
          bi_created_by_type = (case pi_created_by_type parsed of Some c \<Rightarrow> c | None \<Rightarrow> ''human''),
          bi_blocked_by = [], bi_blocking = [], bi_session_ids = [], bi_total_cost_usd = 0, bi_total_tokens = 0,
          bi_pr_numbers = [], bi_content_hash = Some (pi_content_hash parsed), bi_source_path = Some path,
          bi_github_issue_number = None, bi_github_url = None, bi_start_date = None, bi_due_date = None,
          bi_acceptance_criteria = None\<rparr>)"

text \<open>project\_by\_key: of several projects with one key the last of the list.\<close>
definition import_issue_file ::
  "(string \<Rightarrow> string) \<Rightarrow> timestamp \<Rightarrow> string \<Rightarrow> board_project list \<Rightarrow> string \<Rightarrow> md_error + board_issue" where
  "import_issue_file sha256 now path projects content =
     (case parse_issue_markdown sha256 content of
        Inl e \<Rightarrow> Inl e
      | Inr parsed \<Rightarrow>
          (case pi_project_key parsed of
             None \<Rightarrow> Inl (Md_Invalid (path @ '': missing project in frontmatter''))
           | Some project_key \<Rightarrow>
               (case find (\<lambda>p. bp_key p = project_key) (rev projects) of
                  None \<Rightarrow> Inl (Md_Invalid (path @ '': project '' @ project_key @ '' not found''))
                | Some project \<Rightarrow>
                    (case pi_id parsed of
                       None \<Rightarrow> Inl (Md_Invalid (path @ '': missing id in frontmatter''))
                     | Some iid \<Rightarrow> Inr (imported_issue now path project iid parsed)))))"

text \<open>The files in the order read\_dir gives them; the first error ends the import.\<close>
fun import_markdown_dir ::
  "(string \<Rightarrow> string) \<Rightarrow> timestamp \<Rightarrow> string \<Rightarrow> (string \<times> (string + string)) list \<Rightarrow> board_project list \<Rightarrow> md_error + board_issue list" where
  "import_markdown_dir sha256 now dir [] projects = Inr []"
| "import_markdown_dir sha256 now dir ((name, content) # entries) projects =
     (if file_extension name \<noteq> Some ''md'' then import_markdown_dir sha256 now dir entries projects
      else (let path = dir @ ''/'' @ name
            in case content of
                 Inl e \<Rightarrow> Inl (Md_Storage (''read '' @ path @ '': '' @ e))
               | Inr c \<Rightarrow>
                   (case import_issue_file sha256 now path projects c of
                      Inl e \<Rightarrow> Inl e
                    | Inr issue \<Rightarrow>
                        (case import_markdown_dir sha256 now dir entries projects of
                           Inl e \<Rightarrow> Inl e
                         | Inr rest \<Rightarrow> Inr (issue # rest)))))"

text \<open>The files written, in order, each with its name; fs gives the error of writing a file, if any.\<close>
fun export_markdown_dir ::
  "(string \<Rightarrow> string option) \<Rightarrow> board_issue list \<Rightarrow> board_project list \<Rightarrow> (md_error option) \<times> (string \<times> string) list" where
  "export_markdown_dir fs [] projects = (None, [])"
| "export_markdown_dir fs (issue # issues) projects =
     (let project_key = (case find (\<lambda>p. bp_id p = bi_project_id issue) (rev projects) of
            Some p \<Rightarrow> bp_key p | None \<Rightarrow> ''UNKNOWN'');
          filename = bi_id issue @ ''.md''
      in case fs filename of
           Some e \<Rightarrow> (Some (Md_Storage (''write '' @ filename @ '': '' @ e)), [])
         | None \<Rightarrow> (case export_markdown_dir fs issues projects of
             (r, written) \<Rightarrow> (r, (filename, issue_to_markdown issue project_key) # written)))"

section \<open>The routes\<close>

text \<open>The upserts of an import one after the other: the counts, or the first error.\<close>
fun upsert_issues :: "timestamp \<Rightarrow> board_issue list \<Rightarrow> nat \<Rightarrow> nat \<Rightarrow> store \<Rightarrow> (gctl_error + nat \<times> nat) \<times> store" where
  "upsert_issues now [] imported skipped s = (Inr (imported, skipped), s)"
| "upsert_issues now (issue # issues) imported skipped s =
     (case upsert_board_issue now issue s of
        (Inl e, s') \<Rightarrow> (Inl e, s')
      | (Inr True, s') \<Rightarrow> upsert_issues now issues (Suc imported) skipped s'
      | (Inr False, s') \<Rightarrow> upsert_issues now issues imported (Suc skipped) s')"

text \<open>Status code, and imported, skipped and total on success.\<close>
definition board_import_markdown ::
  "(string \<Rightarrow> string) \<Rightarrow> timestamp \<Rightarrow> string \<Rightarrow> (string \<times> (string + string)) list option \<Rightarrow> store \<Rightarrow>
    (nat \<times> (nat \<times> nat \<times> nat) option) \<times> store" where
  "board_import_markdown sha256 now dir listing s =
     (case listing of
        None \<Rightarrow> ((400, None), s)
      | Some entries \<Rightarrow>
          (case list_board_projects s of
             (Inl e, s') \<Rightarrow> ((500, None), s')
           | (Inr projects, s') \<Rightarrow>
               (case import_markdown_dir sha256 now dir entries projects of
                  Inl e \<Rightarrow> ((400, None), s')
                | Inr parsed \<Rightarrow>
                    (case upsert_issues now parsed 0 0 s' of
                       (Inl e, s'') \<Rightarrow> ((500, None), s'')
                     | (Inr (imported, skipped), s'') \<Rightarrow> ((200, Some (imported, skipped, length parsed)), s'')))))"

definition board_export_markdown ::
  "(string \<Rightarrow> string option) \<Rightarrow> string option \<Rightarrow> store \<Rightarrow> (nat \<times> (string \<times> string) list) \<times> store" where
  "board_export_markdown fs project_id s =
     (case list_board_issues \<lparr>bf_project_id = project_id, bf_status = None, bf_assignee_id = None, bf_label = None, bf_limit = None\<rparr> s of
        (Inl e, s') \<Rightarrow> ((500, []), s')
      | (Inr issues, s') \<Rightarrow>
          (case list_board_projects s' of
             (Inl e, s'') \<Rightarrow> ((500, []), s'')
           | (Inr projects, s'') \<Rightarrow>
               (case export_markdown_dir fs issues projects of
                  (r, files) \<Rightarrow> ((if r = None then 200 else 500, files), s''))))"

section \<open>White space at the ends\<close>

lemma white_space_bytes: "w \<in> set white_space \<Longrightarrow> length w = 1 \<or> (\<forall>c \<in> set w. 128 \<le> (of_char c :: nat))"
  by (auto simp: white_space_def bytes_def)

lemma ws_len_0: "ws_len s = 0 \<longleftrightarrow> (\<forall>w \<in> set white_space. \<not> prefix w s)"
proof
  assume "ws_len s = 0"
  then show "\<forall>w \<in> set white_space. \<not> prefix w s"
    using white_space_ne by (fastforce simp: ws_len_def find_None_iff dest: find_SomeD split: option.splits)
next
  assume "\<forall>w \<in> set white_space. \<not> prefix w s"
  then show "ws_len s = 0" by (auto simp: ws_len_def dest: find_SomeD split: option.splits)
qed

lemma ws_len_end_0: "ws_len_end s = 0 \<longleftrightarrow> (\<forall>w \<in> set white_space. \<not> suffix w s)"
proof
  assume "ws_len_end s = 0"
  then show "\<forall>w \<in> set white_space. \<not> suffix w s"
    using white_space_ne by (fastforce simp: ws_len_end_def find_None_iff dest: find_SomeD split: option.splits)
next
  assume "\<forall>w \<in> set white_space. \<not> suffix w s"
  then show "ws_len_end s = 0" by (auto simp: ws_len_end_def dest: find_SomeD split: option.splits)
qed

lemma trim_id: "ws_len s = 0 \<Longrightarrow> ws_len_end s = 0 \<Longrightarrow> trim s = s"
  by (simp add: trim_def trim_start.simps [of s] trim_end.simps [of s])

lemma trimmed_ends: "trim s = s \<Longrightarrow> ws_len s = 0 \<and> ws_len_end s = 0"
proof -
  assume s: "trim s = s"
  have "length (trim s) \<le> length (trim_start s)" by (simp add: trim_def prefix_length_le prefix_trim_end)
  moreover obtain zs where zs: "s = zs @ trim_start s" using suffix_trim_start [of s] by (auto simp: suffix_def)
  moreover have "length s = length zs + length (trim_start s)" using arg_cong [OF zs, of length] by (simp only: length_append)
  ultimately have "zs = []" by (simp only: s) simp
  then have "trim_start s = s" using zs by simp
  then show ?thesis using s trim_start_stop [of s] trim_end_stop [of "trim_start s"] by (simp add: trim_def)
qed

text \<open>White space does not straddle an ASCII character.\<close>
lemma ws_len_end_ascii:
  assumes "ws_len_end v = 0" and "v \<noteq> []" and "(of_char c :: nat) < 128"
  shows "ws_len_end (a @ c # v) = 0"
  unfolding ws_len_end_0
proof
  fix w assume w: "w \<in> set white_space"
  show "\<not> suffix w (a @ c # v)"
  proof
    assume suf: "suffix w (a @ c # v)"
    then have "suffix w ((a @ [c]) @ v)" by simp
    then consider "suffix w v" | x where "w = x @ v" "suffix x (a @ [c])" unfolding suffix_append by blast
    then show False
    proof cases
      case 1
      then show ?thesis using assms(1) w by (simp add: ws_len_end_0)
    next
      case 2
      show ?thesis
      proof (cases x rule: rev_cases)
        case Nil
        then show ?thesis using 2 assms(1) w by (auto simp: ws_len_end_0)
      next
        case (snoc y d)
        with 2 have "d = c" by (simp add: suffix_def)
        then have "c \<in> set w" "length w \<noteq> 1" using 2(1) snoc assms(2) by auto
        with white_space_bytes [OF w] assms(3) show ?thesis by auto
      qed
    qed
  qed
qed

lemma trim_start_nl: "trim_start (CHR 0x0A # s) = trim_start s"
proof -
  have "ws_len (CHR 0x0A # s) = 1" by (simp add: ws_len_def white_space_def bytes_def char_of_eq_iff)
  then show ?thesis by (simp add: trim_start.simps [of "CHR 0x0A # s"])
qed

lemma trim_end_nl: "trim_end (s @ [CHR 0x0A]) = trim_end s"
proof -
  have "bytes [9] = [CHR 0x09]" "bytes [10] = [CHR 0x0A]" by (simp_all add: bytes_def char_of_eq_iff)
  then have "ws_len_end (s @ [CHR 0x0A]) = 1" by (simp add: ws_len_end_def white_space_def suffix_def)
  then show ?thesis by (simp add: trim_end.simps [of "s @ [CHR 0x0A]"])
qed

lemma trim_no_text [simp]: "trim [] = []"
  by (rule trim_id) (simp_all add: ws_len_0 ws_len_end_0 white_space_def bytes_def)

section \<open>Lines\<close>

lemma lines_cons: "CHR 0x0A \<notin> set x \<Longrightarrow> x = [] \<or> last x \<noteq> CHR 0x0D \<Longrightarrow> lines (x @ CHR 0x0A # rest) = x # lines rest"
  using split_lines_line [of x "[]" rest] by (auto simp: lines_def)

lemma split_lines_last: "CHR 0x0A \<notin> set x \<Longrightarrow> split_lines acc x = (if acc = [] \<and> x = [] then [] else [rev acc @ x])"
  by (induction x arbitrary: acc) auto

lemma lines_single: "CHR 0x0A \<notin> set x \<Longrightarrow> x \<noteq> [] \<Longrightarrow> lines x = [x]"
  by (simp add: lines_def split_lines_last)

lemma lines_join:
  "ls \<noteq> [] \<Longrightarrow> \<forall>l \<in> set ls. l \<noteq> [] \<and> last l \<noteq> CHR 0x0D \<and> CHR 0x0A \<notin> set l \<Longrightarrow> lines (join [CHR 0x0A] ls) = ls"
  by (induction "[CHR 0x0A]" ls rule: join.induct) (simp_all add: lines_single lines_cons)

lemma trim_end_Nil: "trim_end s = [] \<Longrightarrow> s \<noteq> [] \<Longrightarrow> \<exists>w \<in> set white_space. prefix w s"
proof (induction s rule: trim_end.induct)
  case (1 s)
  show ?case
  proof (cases "ws_len_end s = 0")
    case True
    then show ?thesis using "1.prems" by (simp add: trim_end.simps [of s])
  next
    case False
    then obtain w where w: "find (\<lambda>w. suffix w s) white_space = Some w" "ws_len_end s = length w"
      by (auto simp: ws_len_end_def split: option.splits)
    let ?s = "take (length s - ws_len_end s) s"
    have nil: "trim_end ?s = []" using "1.prems"(1) False by (simp add: trim_end.simps [of s])
    from find_SomeD [OF w(1)] obtain zs where "w \<in> set white_space" "s = zs @ w" by (auto simp: suffix_def)
    moreover from this have "?s = zs" using w(2) by simp
    ultimately have s: "w \<in> set white_space" "s = ?s @ w" by simp_all
    show ?thesis
    proof (cases "?s = []")
      case True
      have "s = w" using s(2) unfolding True by simp
      then show ?thesis using s(1) by blast
    next
      case False
      from "1.IH" [OF \<open>ws_len_end s \<noteq> 0\<close> nil this] show ?thesis
        by (meson prefix_order.trans take_is_prefix)
    qed
  qed
qed

lemma trim_blank: "ws_len s = 0 \<Longrightarrow> s \<noteq> [] \<Longrightarrow> trim s \<noteq> []"
  using trim_end_Nil [of s] by (auto simp: trim_def trim_start.simps [of s] ws_len_0)

lemma split_lines_cr:
  "CHR 0x0A \<notin> set x \<Longrightarrow> split_lines acc (x @ CHR 0x0A # r) =
    (let z = rev acc @ x in if z \<noteq> [] \<and> last z = CHR 0x0D then butlast z else z) # split_lines [] r"
proof (induction x arbitrary: acc)
  case Nil
  then show ?case by (cases acc) (simp_all add: Let_def butlast_append)
qed (auto simp: Let_def)

text \<open>A text that does not start with white space has a first line that is not blank.\<close>
lemma first_line:
  assumes s: "ws_len s = 0" "s \<noteq> []"
  obtains l ls where "lines s = l # ls" "trim l \<noteq> []"
proof -
  have pre: "trim l \<noteq> []" if "prefix l s" "l \<noteq> []" for l
    using that s(1) by (intro trim_blank) (auto simp: ws_len_0 intro: prefix_order.trans)
  have no: "hd s \<noteq> CHR 0x0A" "hd s \<noteq> CHR 0x0D"
  proof -
    have "bytes [10] \<in> set white_space" "bytes [13] \<in> set white_space" by (simp_all add: white_space_def)
    with s(1) have "\<not> prefix (bytes [10]) s" "\<not> prefix (bytes [13]) s" by (simp_all add: ws_len_0)
    then show "hd s \<noteq> CHR 0x0A" "hd s \<noteq> CHR 0x0D" using s(2) by (cases s; auto simp: bytes_def char_of_eq_iff)+
  qed
  show ?thesis
  proof (cases "CHR 0x0A \<in> set s")
    case True
    then obtain x r where x: "s = x @ CHR 0x0A # r" "CHR 0x0A \<notin> set x" by (meson split_list_first)
    let ?l = "if last x = CHR 0x0D then butlast x else x"
    have ne: "x \<noteq> []" using no(1) x(1) by auto
    have "lines s = ?l # lines r" using split_lines_cr [OF x(2), of "[]" r] ne by (simp add: lines_def x(1) Let_def)
    moreover have "?l \<noteq> []"
    proof
      assume "?l = []"
      then have "x = [CHR 0x0D]" using ne by (cases x rule: rev_cases) (auto split: if_splits)
      then show False using no(2) x(1) by simp
    qed
    moreover have "prefix ?l s" using x(1) by (auto simp: prefix_def) (metis append.assoc append_butlast_last_id ne)
    ultimately show ?thesis using that pre by blast
  next
    case False
    then show ?thesis using that [of s "[]"] s pre [of s] by (simp add: lines_single)
  qed
qed

section \<open>An exported issue\<close>

definition plain :: "string \<Rightarrow> bool" where
  "plain v \<longleftrightarrow> v \<noteq> [] \<and> trim v = v \<and> CHR 0x0A \<notin> set v \<and> \<not> (prefix ''['' v \<and> suffix '']'' v)"

definition plain_label :: "string \<Rightarrow> bool" where
  "plain_label l \<longleftrightarrow> trim l = l \<and> CHR 0x0A \<notin> set l \<and> CHR '','' \<notin> set l"

text \<open>Fields the front matter can carry: trimmed, on one line, not in brackets, labels without a comma; a title on one line, and a
  description that is trimmed and has no carriage returns before line ends.\<close>
definition plain_issue :: "board_issue \<Rightarrow> bool" where
  "plain_issue i \<longleftrightarrow> plain (bi_id i) \<and> plain (bi_priority i) \<and> pred_option plain (bi_assignee_name i) \<and>
     pred_option plain (bi_assignee_type i) \<and> list_all plain_label (bi_labels i) \<and> plain (bi_created_by_name i) \<and>
     plain (bi_created_by_type i) \<and> pred_option plain (bi_parent_id i) \<and>
     bi_title i \<noteq> [] \<and> trim (bi_title i) = bi_title i \<and> CHR 0x0A \<notin> set (bi_title i) \<and>
     pred_option (\<lambda>d. d \<noteq> [] \<and> trim d = d \<and> join [CHR 0x0A] (lines d) = d) (bi_description i)"

definition field_name :: "string \<Rightarrow> bool" where
  "field_name k \<longleftrightarrow> k \<noteq> [] \<and> list_all (\<lambda>c. printable c \<and> c \<noteq> CHR '':'') k \<and> hd k \<noteq> CHR ''#'' \<and> hd k \<noteq> CHR ''-''"

lemma printable_no_nl: "printable c \<Longrightarrow> c \<noteq> CHR 0x0A"
  by (auto simp: printable_def)

lemma field_name_trim: "field_name k \<Longrightarrow> trim k = k"
  unfolding field_name_def list_all_iff by (rule trim_printable) auto

lemma printable_starts: "printable c \<Longrightarrow> ws_len_end (c # s) = 0 \<Longrightarrow> trim (c # s) = c # s"
  by (rule trim_id) (simp_all add: ws_len_printable)

lemma trim_field:
  assumes "field_name k" and "trim v = v" and "v \<noteq> []"
  shows "trim (field k v) = field k v"
proof -
  obtain c k' where k: "k = c # k'" "printable c" using assms(1) by (cases k) (auto simp: field_name_def)
  have e: "field k v = c # (k' @ '':'') @ CHR '' '' # v" by (simp add: field_def k)
  have "ws_len_end ((c # k' @ '':'') @ CHR '' '' # v) = 0"
    using trimmed_ends [OF assms(2)] assms(3) by (intro ws_len_end_ascii) simp_all
  then have "ws_len_end (c # (k' @ '':'') @ CHR '' '' # v) = 0" by simp
  from printable_starts [OF k(2) this] show ?thesis unfolding e .
qed

lemma trim_space: "trim v = v \<Longrightarrow> trim (CHR '' '' # v) = v"
  by (simp add: trim_def trim_start_space)

lemma parse_field:
  assumes "field_name k" and "plain v"
  shows "parse_yaml_line (field k v) = Some (k, JStr v)"
proof -
  have v: "trim v = v" "v \<noteq> []" using assms(2) by (simp_all add: plain_def)
  have "CHR '':'' \<notin> set k" using assms(1) unfolding field_name_def list_all_iff by blast
  then have split: "split_once (CHR '':'') (field k v) = Some (k, CHR '' '' # v)" by (simp add: split_once_eq field_def)
  obtain c k' where k: "k = c # k'" "c \<noteq> CHR ''#''" using assms(1) by (cases k) (auto simp: field_name_def)
  have line: "\<not> prefix ''#'' (field k v)" "field k v \<noteq> []" using k(2) by (simp_all add: field_def k(1))
  have plain: "\<not> (prefix ''['' v \<and> suffix '']'' v)" using assms(2) unfolding plain_def by blast
  show ?thesis unfolding parse_yaml_line_def Let_def trim_field [OF assms(1) v] split
    using line plain trim_space [OF v(1)] field_name_trim [OF assms(1)] by simp
qed

lemma split_labels:
  assumes "list_all plain_label (l # ls)"
  shows "map (\<lambda>s. JStr (trim s)) (split_char (CHR '','') (join '', '' (l # ls))) = map JStr (l # ls)"
proof -
  have "split_char (CHR '','') (x @ join '', '' (l # ls)) = (x @ l) # map ((#) (CHR '' '')) ls"
    if "list_all plain_label (l # ls)" "CHR '','' \<notin> set x" for x
    using that
  proof (induction ls arbitrary: l x)
    case Nil
    then show ?case by (simp add: split_char_word plain_label_def)
  next
    case (Cons m ms)
    then have "split_char (CHR '','') ((x @ l) @ CHR '','' # ('' '' @ join '', '' (m # ms))) =
        (x @ l) # split_char (CHR '','') ('' '' @ join '', '' (m # ms))"
      by (intro split_char_cons) (simp add: plain_label_def)
    also have "split_char (CHR '','') ('' '' @ join '', '' (m # ms)) = ('' '' @ m) # map ((#) (CHR '' '')) ms"
      using Cons.prems by (intro Cons.IH) simp_all
    finally show ?case by simp
  qed
  from this [of "[]"] assms show ?thesis by (auto simp: plain_label_def trim_space list_all_iff)
qed

lemma parse_labels:
  assumes "list_all plain_label ls" and "ls \<noteq> []"
  shows "parse_yaml_line (''labels: ['' @ join '', '' ls @ '']'') = Some (''labels'', JArr (map JStr ls))"
proof -
  let ?j = "join '', '' ls"
  have p: "printable CHR ''l''" "printable CHR '']''" "printable CHR ''[''" by (simp_all add: printable_def)
  have line: "trim (''labels: ['' @ ?j @ '']'') = ''labels: ['' @ ?j @ '']''"
    using p by (intro trim_printable) simp_all
  have val: "trim ('' ['' @ ?j @ '']'') = ''['' @ ?j @ '']''"
    using trim_space [of "''['' @ ?j @ '']''"] trim_printable [of "''['' @ ?j @ '']''"] p by simp
  have "split_once (CHR '':'') (''labels: ['' @ ?j @ '']'') = Some (''labels'', '' ['' @ ?j @ '']'')"
    by (simp add: split_once_eq)
  moreover have "trim ''labels'' = ''labels''" by (rule trim_printable) (simp_all add: printable_def)
  moreover have "take (length (''['' @ ?j @ '']'') - 2) (drop 1 (''['' @ ?j @ '']'')) = ?j" by simp
  moreover have "map (\<lambda>s. JStr (trim s)) (split_char (CHR '','') ?j) = map JStr ls"
    using assms split_labels by (cases ls) simp_all
  moreover have "suffix '']'' (''['' @ ?j @ '']'')" by (simp add: suffix_def)
  ultimately show ?thesis using line val by (simp add: parse_yaml_line_def)
qed

text \<open>The key and value of each line.\<close>
definition optional_entry :: "string \<Rightarrow> string option \<Rightarrow> (string \<times> json) list" where
  "optional_entry k v = (case v of None \<Rightarrow> [] | Some x \<Rightarrow> [(k, JStr x)])"

definition frontmatter_entries :: "board_issue \<Rightarrow> string \<Rightarrow> (string \<times> json) list" where
  "frontmatter_entries issue project_key =
     [(''id'', JStr (bi_id issue)), (''project'', JStr project_key), (''status'', JStr (issue_status_as_str (bi_status issue))),
      (''priority'', JStr (bi_priority issue))] @
     optional_entry ''assignee'' (bi_assignee_name issue) @ optional_entry ''assignee_type'' (bi_assignee_type issue) @
     (if bi_labels issue = [] then [] else [(''labels'', JArr (map JStr (bi_labels issue)))]) @
     [(''created_by'', JStr (bi_created_by_name issue))] @
     (if bi_created_by_type issue = ''human'' then [] else [(''created_by_type'', JStr (bi_created_by_type issue))]) @
     optional_entry ''parent_id'' (bi_parent_id issue)"

lemma field_names:
  "field_name ''id''" "field_name ''project''" "field_name ''status''" "field_name ''priority''" "field_name ''assignee''"
  "field_name ''assignee_type''" "field_name ''created_by''" "field_name ''created_by_type''" "field_name ''parent_id''"
  by (simp_all add: field_name_def printable_def)

lemma plain_status: "plain (issue_status_as_str st)"
  by (cases st) (simp_all add: plain_def trim_printable printable_def)

lemma parse_optional:
  "field_name k \<Longrightarrow> pred_option plain v \<Longrightarrow> map parse_yaml_line (optional_field k v) = map Some (optional_entry k v)"
  by (cases v) (simp_all add: optional_field_def optional_entry_def parse_field)

lemma parse_frontmatter_lines:
  assumes "plain_issue issue" and "plain project_key"
  shows "map parse_yaml_line (frontmatter_lines issue project_key) = map Some (frontmatter_entries issue project_key)"
  using assms
  by (simp add: frontmatter_lines_def frontmatter_entries_def plain_issue_def parse_field parse_optional parse_labels [simplified]
      field_names plain_status)

lemma frontmatter_line_shape:
  assumes "plain_issue issue" and "plain project_key" and "l \<in> set (frontmatter_lines issue project_key)"
  shows "trim l = l \<and> l \<noteq> [] \<and> CHR 0x0A \<notin> set l \<and> \<not> prefix ''---'' l"
proof -
  have f: "trim (field k v) = field k v \<and> field k v \<noteq> [] \<and> CHR 0x0A \<notin> set (field k v) \<and> \<not> prefix ''---'' (field k v)"
    if "field_name k" "plain v" for k v
    using that trim_field [of k v] by (cases k) (auto simp: plain_def field_name_def field_def list_all_iff dest: printable_no_nl)
  have o: "trim l = l \<and> l \<noteq> [] \<and> CHR 0x0A \<notin> set l \<and> \<not> prefix ''---'' l"
    if "field_name k" "pred_option plain v" "l \<in> set (optional_field k v)" for k v
    using that f by (cases v) (auto simp: optional_field_def)
  have nl: "CHR 0x0A \<notin> set (join '', '' ls)" if "list_all plain_label ls" for ls
    using that by (induction "'', ''" ls rule: join.induct) (auto simp: plain_label_def)
  have lb: "trim (''labels: ['' @ join '', '' ls @ '']'') = ''labels: ['' @ join '', '' ls @ '']''" for ls
    by (rule trim_printable) (simp_all add: printable_def)
  note p = assms(1) [unfolded plain_issue_def]
  from assms(3) consider "l = field ''id'' (bi_id issue)" | "l = field ''project'' project_key"
    | "l = field ''status'' (issue_status_as_str (bi_status issue))" | "l = field ''priority'' (bi_priority issue)"
    | "l \<in> set (optional_field ''assignee'' (bi_assignee_name issue))"
    | "l \<in> set (optional_field ''assignee_type'' (bi_assignee_type issue))"
    | "l = ''labels: ['' @ join '', '' (bi_labels issue) @ '']''"
    | "l = field ''created_by'' (bi_created_by_name issue)" | "l = field ''created_by_type'' (bi_created_by_type issue)"
    | "l \<in> set (optional_field ''parent_id'' (bi_parent_id issue))"
    unfolding frontmatter_lines_def by (auto split: if_splits)
  then show ?thesis
    by cases (use p assms(2) f o lb nl plain_status field_names in \<open>auto\<close>)
qed

lemma foldl_parsed:
  "map parse_yaml_line ls = map Some kvs \<Longrightarrow>
   foldl (\<lambda>m l. case parse_yaml_line l of None \<Rightarrow> m | Some (k, v) \<Rightarrow> m(k \<mapsto> v)) m ls =
   foldl (\<lambda>m (k, v). m(k \<mapsto> v)) m kvs"
proof (induction ls arbitrary: m kvs)
  case (Cons l ls)
  then obtain k v kvs' where "kvs = (k, v) # kvs'" by (cases kvs) auto
  with Cons show ?case by auto
qed simp

lemma foldl_optional:
  "foldl (\<lambda>m (k, v). m(k \<mapsto> v)) m (optional_entry k v) = (case v of None \<Rightarrow> m | Some x \<Rightarrow> m(k \<mapsto> JStr x))"
  by (simp add: optional_entry_def split: option.splits)

lemma parse_frontmatter_text:
  assumes "plain_issue issue" and "plain project_key"
  shows "parse_yaml_frontmatter (join [CHR 0x0A] (frontmatter_lines issue project_key)) =
    foldl (\<lambda>m (k, v). m(k \<mapsto> v)) Map.empty (frontmatter_entries issue project_key)"
proof -
  let ?ls = "frontmatter_lines issue project_key"
  have ne: "?ls \<noteq> []" by (simp add: frontmatter_lines_def)
  have "l \<noteq> [] \<and> last l \<noteq> CHR 0x0D \<and> CHR 0x0A \<notin> set l" if "l \<in> set ?ls" for l
    using frontmatter_line_shape [OF assms that] trimmed_no_cr [of l] by auto
  then have lines: "lines (join [CHR 0x0A] ?ls) = ?ls" using ne by (intro lines_join) simp_all
  then have "join [CHR 0x0A] ?ls \<noteq> []" using ne by (auto simp: lines_def)
  then show ?thesis
    by (simp add: parse_yaml_frontmatter_def lines foldl_parsed [OF parse_frontmatter_lines [OF assms]])
qed

text \<open>What follows the front matter of an exported issue.\<close>
definition exported_body :: "board_issue \<Rightarrow> string" where
  "exported_body issue = [CHR 0x0A, CHR 0x0A] @ ''# '' @ bi_title issue @ [CHR 0x0A, CHR 0x0A] @
     (case bi_description issue of None \<Rightarrow> [] | Some d \<Rightarrow> d @ [CHR 0x0A])"

lemma join_append: "xs \<noteq> [] \<Longrightarrow> ys \<noteq> [] \<Longrightarrow> join sep (xs @ ys) = join sep xs @ sep @ join sep ys"
proof (induction sep xs rule: join.induct)
  case (2 sep x)
  then show ?case by (cases ys) simp_all
qed simp_all

lemma join_cons: "ys \<noteq> [] \<Longrightarrow> join sep (x # ys) = x @ sep @ join sep ys"
  by (cases ys) simp_all

lemma exported_text:
  "issue_to_markdown issue project_key =
    ''---'' @ CHR 0x0A # join [CHR 0x0A] (frontmatter_lines issue project_key) @ CHR 0x0A # ''---'' @ exported_body issue"
proof -
  have "frontmatter_lines issue project_key \<noteq> []" by (simp add: frontmatter_lines_def)
  then show ?thesis
    by (simp add: issue_to_markdown_def join_cons join_append exported_body_def split: option.splits)
qed

lemma find_after_lines:
  assumes "CHR 0x0A \<notin> set q" and "ls \<noteq> []" and "\<forall>l \<in> set ls. CHR 0x0A \<notin> set l \<and> \<not> prefix q l"
  shows "str_find (CHR 0x0A # q) (CHR 0x0A # join [CHR 0x0A] ls @ CHR 0x0A # q @ r) = Some (Suc (length (join [CHR 0x0A] ls)))"
proof -
  have no: "\<not> prefix q (l @ CHR 0x0A # x)" if "\<not> prefix q l" for l x
  proof
    assume "prefix q (l @ CHR 0x0A # x)"
    then consider "prefix q l" | y where "q = l @ y" "prefix y (CHR 0x0A # x)" unfolding prefix_append by blast
    then show False
    proof cases
      case 2
      then have "y = [] \<or> CHR 0x0A \<in> set q" by (cases y) auto
      with assms(1) 2(1) that show False by auto
    qed (use that in blast)
  qed
  have "str_find (CHR 0x0A # q) (join [CHR 0x0A] ls @ CHR 0x0A # q @ r) = Some (length (join [CHR 0x0A] ls)) \<and>
      \<not> prefix q (join [CHR 0x0A] ls @ CHR 0x0A # q @ r)" if "ls \<noteq> []" "\<forall>l \<in> set ls. CHR 0x0A \<notin> set l \<and> \<not> prefix q l" for ls
    using that
  proof (induction ls)
    case (Cons l ls)
    show ?case
    proof (cases "ls = []")
      case True
      then show ?thesis using Cons.prems str_find_line [of "CHR 0x0A" l q "q @ r"] no [of l "q @ r"] by simp
    next
      case False
      with Cons have "str_find (CHR 0x0A # q) (join [CHR 0x0A] ls @ CHR 0x0A # q @ r) = Some (length (join [CHR 0x0A] ls))"
          "\<not> prefix q (join [CHR 0x0A] ls @ CHR 0x0A # q @ r)" by simp_all
      then show ?thesis using False Cons.prems
          str_find_line [of "CHR 0x0A" l q "join [CHR 0x0A] ls @ CHR 0x0A # q @ r"] no [of l "join [CHR 0x0A] ls @ CHR 0x0A # q @ r"]
        by (simp add: join_cons)
    qed
  qed simp
  from this [OF assms(2,3)] show ?thesis
    using str_find_line [of "CHR 0x0A" "[]" q "join [CHR 0x0A] ls @ CHR 0x0A # q @ r"] by simp
qed

lemma join_trimmed:
  assumes "ls \<noteq> []" and "\<forall>l \<in> set ls. trim l = l \<and> l \<noteq> []" and "printable (hd (hd ls))"
  shows "trim (join [CHR 0x0A] ls) = join [CHR 0x0A] ls"
proof -
  have "ws_len_end (join [CHR 0x0A] ls) = 0 \<and> join [CHR 0x0A] ls \<noteq> []" using assms(1,2)
  proof (induction ls)
    case (Cons l ls)
    show ?case
    proof (cases "ls = []")
      case False
      with Cons have "ws_len_end (join [CHR 0x0A] ls) = 0" "join [CHR 0x0A] ls \<noteq> []" by simp_all
      then show ?thesis using False ws_len_end_ascii [of "join [CHR 0x0A] ls" "CHR 0x0A" l] by (simp add: join_cons)
    qed (use Cons.prems trimmed_ends [of l] in simp)
  qed simp
  moreover obtain c l ls' where "ls = (c # l) # ls'" using assms(1,2) by (cases ls; cases "hd ls") auto
  then have "join [CHR 0x0A] ls = c # tl (join [CHR 0x0A] ls)" "printable c" using assms(3) by (cases ls'; simp)+
  ultimately show ?thesis by (metis printable_starts)
qed

lemma split_exported:
  assumes "plain_issue issue" and "plain project_key"
  shows "split_frontmatter (issue_to_markdown issue project_key) =
    Inr (join [CHR 0x0A] (frontmatter_lines issue project_key), exported_body issue)"
proof -
  let ?ls = "frontmatter_lines issue project_key" let ?j = "join [CHR 0x0A] ?ls" let ?text = "issue_to_markdown issue project_key"
  have ne: "?ls \<noteq> []" by (simp add: frontmatter_lines_def)
  have hd: "printable (hd (hd ?ls))" by (simp add: frontmatter_lines_def field_def printable_def)
  have start: "trim_start ?text = ?text" by (simp add: exported_text trim_start_printable printable_def)
  have after: "drop 3 ?text = CHR 0x0A # ?j @ CHR 0x0A # ''---'' @ exported_body issue" by (simp add: exported_text)
  have found: "str_find (CHR 0x0A # ''---'') (drop 3 ?text) = Some (Suc (length ?j))"
    unfolding after using ne frontmatter_line_shape [OF assms] by (intro find_after_lines) simp_all
  have "trim (CHR 0x0A # ?j) = ?j"
    using join_trimmed [OF ne _ hd] frontmatter_line_shape [OF assms] by (simp add: trim_def trim_start_nl)
  moreover have "take (Suc (length ?j)) (drop 3 ?text) = CHR 0x0A # ?j" by (simp add: after)
  moreover have "drop (Suc (length ?j) + 4) (drop 3 ?text) = exported_body issue"
  proof -
    have "drop 3 ?text = (CHR 0x0A # ?j @ CHR 0x0A # ''---'') @ exported_body issue" by (simp add: after)
    moreover have "length (CHR 0x0A # ?j @ CHR 0x0A # ''---'') = Suc (length ?j) + 4" by simp
    ultimately show ?thesis by (metis append_eq_conv_conj)
  qed
  moreover have "prefix ''---'' ?text" by (simp add: exported_text)
  ultimately show ?thesis using found by (simp add: split_frontmatter_def start Let_def)
qed

lemma trim_h1: "t \<noteq> [] \<Longrightarrow> trim t = t \<Longrightarrow> trim (''# '' @ t) = ''# '' @ t"
  using ws_len_end_ascii [of t "CHR '' ''" "''#''"] trimmed_ends [of t]
  by (simp add: printable_starts printable_def)

lemma exported_title:
  assumes "plain_issue issue"
  shows "extract_h1_title (exported_body issue) = Some (bi_title issue)"
proof -
  let ?t = "bi_title issue"
  have t: "?t \<noteq> []" "trim ?t = ?t" "CHR 0x0A \<notin> set ?t" using assms by (simp_all add: plain_issue_def)
  have "lines ([CHR 0x0A, CHR 0x0A] @ (''# '' @ ?t) @ CHR 0x0A # r) = [] # [] # (''# '' @ ?t) # lines r" for r
    using t trimmed_no_cr [of ?t] lines_cons [of "[]"] lines_cons [of "''# '' @ ?t" r] by simp
  then show ?thesis using t
    by (simp add: extract_h1_title_def exported_body_def trim_h1 [simplified] strip_prefix_def)
qed

lemma exported_description:
  assumes "plain_issue issue"
  shows "strip_h1_title (trim (exported_body issue)) = (case bi_description issue of None \<Rightarrow> [] | Some d \<Rightarrow> d)"
proof -
  let ?t = "bi_title issue" let ?h = "''# '' @ ?t"
  have t: "?t \<noteq> []" "trim ?t = ?t" "CHR 0x0A \<notin> set ?t" using assms by (simp_all add: plain_issue_def)
  have h: "trim ?h = ?h" "CHR 0x0A \<notin> set ?h" "?h = [] \<or> last ?h \<noteq> CHR 0x0D"
    using trim_h1 t trimmed_no_cr [of ?t] by simp_all
  have start: "trim_start ([CHR 0x0A, CHR 0x0A] @ ?h @ r) = ?h @ r" for r
    by (simp add: trim_start_nl trim_start_printable printable_def)
  show ?thesis
  proof (cases "bi_description issue")
    case None
    have "trim (exported_body issue) = trim_end ((?h @ [CHR 0x0A]) @ [CHR 0x0A])"
      using start [of "[CHR 0x0A, CHR 0x0A]"] by (simp add: trim_def exported_body_def None)
    also have "\<dots> = ?h" using h(1) trim_start_printable [of "CHR ''#''" "tl ?h"]
      by (simp only: trim_end_nl) (simp add: trim_def printable_def)
    finally have "lines (trim (exported_body issue)) = [?h]" using h(2) by (simp add: lines_single)
    then show ?thesis using h(1) by (simp add: strip_h1_title_def drop_blank_def None)
  next
    case (Some d)
    have d: "d \<noteq> []" "trim d = d" "join [CHR 0x0A] (lines d) = d" using assms Some by (simp_all add: plain_issue_def)
    have "trim (exported_body issue) = trim_end ((?h @ [CHR 0x0A, CHR 0x0A] @ d) @ [CHR 0x0A])"
      using start [of "[CHR 0x0A, CHR 0x0A] @ d @ [CHR 0x0A]"] by (simp add: trim_def exported_body_def Some)
    also have "\<dots> = ?h @ [CHR 0x0A, CHR 0x0A] @ d"
    proof -
      have "ws_len_end ((?h @ [CHR 0x0A]) @ CHR 0x0A # d) = 0" using trimmed_ends [OF d(2)] d(1) by (intro ws_len_end_ascii) simp_all
      then show ?thesis by (simp only: trim_end_nl) (simp add: trim_end.simps [of "CHR ''#'' # _"])
    qed
    finally have "lines (trim (exported_body issue)) = ?h # [] # lines d"
      using h(2,3) lines_cons [of ?h "CHR 0x0A # d"] lines_cons [of "[]" d] by simp
    moreover obtain l ls where "lines d = l # ls" "trim l \<noteq> []" using first_line trimmed_ends [OF d(2)] d(1) by blast
    ultimately show ?thesis using h(1) d by (simp add: strip_h1_title_def drop_blank_def Some)
  qed
qed

section \<open>Export and import\<close>

text \<open>What the import makes of an exported issue: the fields the file does not carry are lost, and the ids of the assignee and the
  author become their names.\<close>
definition reimported :: "(string \<Rightarrow> string) \<Rightarrow> timestamp \<Rightarrow> string \<Rightarrow> string \<Rightarrow> board_issue \<Rightarrow> board_issue" where
  "reimported sha256 now dir project_key i = i\<lparr>bi_assignee_id := bi_assignee_name i, bi_created_at := now, bi_updated_at := now,
     bi_created_by_id := bi_created_by_name i, bi_blocked_by := [], bi_blocking := [], bi_session_ids := [],
     bi_total_cost_usd := 0, bi_total_tokens := 0, bi_pr_numbers := [],
     bi_content_hash := Some (sha256 (issue_to_markdown i project_key)), bi_source_path := Some (dir @ ''/'' @ bi_id i @ ''.md''),
     bi_github_issue_number := None, bi_github_url := None, bi_start_date := None, bi_due_date := None,
     bi_acceptance_criteria := None\<rparr>"

lemma parse_exported:
  assumes "plain_issue i" and "plain project_key"
  shows "parse_issue_markdown sha256 (issue_to_markdown i project_key) =
    Inr \<lparr>pi_id = Some (bi_id i), pi_project_key = Some project_key, pi_title = Some (bi_title i),
      pi_status = Some (issue_status_as_str (bi_status i)), pi_priority = Some (bi_priority i),
      pi_assignee = bi_assignee_name i, pi_assignee_type = bi_assignee_type i, pi_labels = bi_labels i,
      pi_created_by = Some (bi_created_by_name i),
      pi_created_by_type = (if bi_created_by_type i = ''human'' then None else Some (bi_created_by_type i)),
      pi_parent_id = bi_parent_id i, pi_body = trim (exported_body i),
      pi_content_hash = sha256 (issue_to_markdown i project_key)\<rparr>"
proof -
  have labels: "List.map_filter json_as_str (map JStr ls) = ls" for ls
    by (induction ls) (simp_all add: List.map_filter_simps)
  show ?thesis
    by (simp add: parse_issue_markdown_def split_exported [OF assms] parse_frontmatter_text [OF assms] frontmatter_entries_def
        foldl_optional exported_title [OF assms(1)] labels Let_def split: option.splits)
qed

lemma import_exported:
  assumes "plain_issue i" and "plain (bp_key project)" and "find (\<lambda>p. bp_key p = bp_key project) (rev projects) = Some project"
    and "bi_project_id i = bp_id project"
  shows "import_issue_file sha256 now (dir @ ''/'' @ bi_id i @ ''.md'') projects (issue_to_markdown i (bp_key project)) =
    Inr (reimported sha256 now dir (bp_key project) i)"
  using assms(3,4) exported_description [OF assms(1)] assms(1)
  by (simp add: import_issue_file_def parse_exported [OF assms(1,2)] imported_issue_def reimported_def Let_def
      issue_status_codec.from_as plain_issue_def split: option.splits)

lemma md_extension: "name \<noteq> [] \<Longrightarrow> file_extension (name @ ''.md'') = Some ''md''"
  by (simp add: file_extension_def)

text \<open>The project key an issue is exported under.\<close>
definition key_of :: "board_project list \<Rightarrow> board_issue \<Rightarrow> string" where
  "key_of projects i = (case find (\<lambda>p. bp_id p = bi_project_id i) (rev projects) of Some p \<Rightarrow> bp_key p | None \<Rightarrow> ''UNKNOWN'')"

text \<open>C37: 
  Exporting issues and importing the files gives the issues back, each in its project, with every field the files carry: id,
  title, description, status, priority, assignee, labels, author and parent. The fields they do not carry are reset. The directory read holds the files written and no others,
  as it does when the ids of the issues are distinct (the files are named after them).
\<close>
theorem export_import_roundtrip:
  assumes "\<forall>i \<in> set issues. plain_issue i \<and> plain (key_of projects i) \<and> bi_project_id i \<in> bp_id ` set projects"
    and "distinct (map bp_key projects)" and "distinct (map bp_id projects)"
    and "export_markdown_dir (\<lambda>_. None) issues projects = (err, files)"
  shows "err = None \<and> import_markdown_dir sha256 now dir (map (\<lambda>(name, content). (name, Inr content)) files) projects =
    Inr (map (\<lambda>i. reimported sha256 now dir (key_of projects i) i) issues)"
  using assms(1,4)
proof (induction issues arbitrary: err files)
  case (Cons i issues)
  then have i: "plain_issue i" "plain (key_of projects i)" by simp_all
  obtain p where p: "p \<in> set projects" "bp_id p = bi_project_id i" using Cons.prems(1) by auto
  have "find (\<lambda>p. bp_id p = bi_project_id i) (rev projects) = Some p"
    using find_key_eq [of bp_id "rev projects" p] p assms(3) by (simp add: rev_map [symmetric])
  then have key: "key_of projects i = bp_key p" by (simp add: key_of_def)
  have find: "find (\<lambda>q. bp_key q = bp_key p) (rev projects) = Some p"
    using find_key_eq [of bp_key "rev projects" p] p assms(2) by (simp add: rev_map [symmetric])
  obtain err' files' where rest: "export_markdown_dir (\<lambda>_. None) issues projects = (err', files')" by fastforce
  have step: "err = err'" "files = (bi_id i @ ''.md'', issue_to_markdown i (key_of projects i)) # files'"
    using Cons.prems(2) rest by (simp_all add: key_of_def Let_def)
  have "bi_id i \<noteq> []" using i(1) by (simp add: plain_issue_def plain_def)
  then have ext: "file_extension (bi_id i @ ''.md'') = Some ''md''" by (rule md_extension)
  have ih: "err' = None" "import_markdown_dir sha256 now dir (map (\<lambda>(name, content). (name, Inr content)) files') projects =
      Inr (map (\<lambda>i. reimported sha256 now dir (key_of projects i) i) issues)"
    using Cons.IH [OF _ rest] Cons.prems(1) by simp_all
  show ?case unfolding step using import_exported [OF i(1) i(2) [unfolded key] find, of sha256 now dir] p(2) ih ext
    by (simp add: key Let_def)
qed simp

definition sample_md_project :: board_project where
  "sample_md_project = \<lparr>bp_id = ''p1'', bp_name = ''Back'', bp_key = ''BACK'', bp_counter = 7, bp_github_repo = None\<rparr>"

definition sample_md_issue :: board_issue where
  "sample_md_issue = (sample_issue ''BACK-7'' InProgress ''t0'')\<lparr>bi_project_id := ''p1'', bi_title := ''Fix:auth'',
     bi_description := Some ''Tokens.'', bi_priority := ''high'', bi_assignee_id := Some ''u42'', bi_assignee_name := Some ''claude'',
     bi_assignee_type := Some ''agent'', bi_labels := [''auth'', ''security''], bi_created_by_id := ''u1'',
     bi_created_by_name := ''ann'', bi_created_by_type := ''human'', bi_parent_id := None,
     bi_acceptance_criteria := Some ''- [ ] shell: make''\<rparr>"

lemma sample_md_plain: "plain_issue sample_md_issue" "plain ''BACK''"
  by (simp_all add: plain_issue_def plain_def plain_label_def sample_md_issue_def sample_issue_def trim_printable printable_def
      lines_single)

lemma export_import_roundtrip_witness:
  "import_markdown_dir (\<lambda>_. ''h'') ''t1'' ''d'' [(''BACK-7.md'', Inr (issue_to_markdown sample_md_issue ''BACK''))] [sample_md_project] =
    Inr [reimported (\<lambda>_. ''h'') ''t1'' ''d'' ''BACK'' sample_md_issue]"
proof -
  have key: "key_of [sample_md_project] sample_md_issue = ''BACK''" "bi_project_id sample_md_issue = ''p1''" "bi_id sample_md_issue = ''BACK-7''"
    by (simp_all add: key_of_def sample_md_project_def sample_md_issue_def)
  show ?thesis
    using export_import_roundtrip [of "[sample_md_issue]" "[sample_md_project]" None
        "[(''BACK-7.md'', issue_to_markdown sample_md_issue ''BACK'')]" "\<lambda>_. ''h''" "''t1''" "''d''"] sample_md_plain key
    by (simp add: sample_md_project_def)
qed

text \<open>
  Importing a board's own export overwrites the issue: its acceptance criteria are deleted, the assignee's id is replaced
  by the name, and the row is marked for synchronisation, all without an event on the issue's trail.
\<close>
theorem reimport_drops_criteria:
  assumes row: "find (\<lambda>r. ir_id r = bi_id i) (t_issues s) = Some r" "row_to_board_issue r = Some i"
    and projects: "fst (list_board_projects s) = Inr projects" "find (\<lambda>p. bp_key p = bp_key project) (rev projects) = Some project"
    and "bi_project_id i = bp_id project" and plain: "plain_issue i" "plain (bp_key project)"
    and hash: "bi_content_hash i \<noteq> Some (sha256 (issue_to_markdown i (bp_key project)))"
    and run: "board_import_markdown sha256 now dir (Some [(bi_id i @ ''.md'', Inr (issue_to_markdown i (bp_key project)))]) s = (ans, s')"
  shows "ans = (200, Some (1, 0, 1)) \<and> t_events s' = t_events s \<and>
    (\<exists>r'. find (\<lambda>r. ir_id r = bi_id i) (t_issues s') = Some r' \<and> ir_acceptance_criteria r' = None \<and>
      ir_assignee_id r' = ir_assignee_name r \<and> ir_title r' = ir_title r \<and> ir_synced r' = False)"
proof -
  let ?text = "issue_to_markdown i (bp_key project)" let ?i = "reimported sha256 now dir (bp_key project) i"
  have "bi_id i \<noteq> []" using plain by (simp add: plain_issue_def plain_def)
  then have ext: "file_extension (bi_id i @ ''.md'') = Some ''md''" by (rule md_extension)
  have list: "list_board_projects s = (Inr projects, s)" using projects(1) by (simp add: list_board_projects_def)
  have import: "import_markdown_dir sha256 now dir [(bi_id i @ ''.md'', Inr ?text)] projects = Inr [?i]"
    using import_exported [OF plain projects(2) assms(5), of sha256 now dir] ext by (simp add: Let_def)
  have fields: "bi_id ?i = bi_id i" "bi_content_hash ?i = Some (sha256 ?text)" "bi_acceptance_criteria ?i = None"
    "bi_assignee_id ?i = bi_assignee_name i" "bi_title ?i = bi_title i" by (simp_all add: reimported_def)
  have get: "get_board_issue (bi_id i) s = (Inr (Some i), s)" using row by (simp add: get_board_issue_def)
  obtain u where u: "upsert_board_issue now ?i s =
      (Inr True, s\<lparr>t_issues := update_where (\<lambda>r. ir_id r = bi_id i) u (t_issues s)\<rparr>)"
    "\<And>r. ir_id (u r) = ir_id r \<and> ir_acceptance_criteria (u r) = None \<and> ir_assignee_id (u r) = bi_assignee_name i \<and>
      ir_title (u r) = bi_title i \<and> ir_synced (u r) = False"
    using hash by (auto simp: upsert_board_issue_def fields get bind_def)
  have "find (\<lambda>r. ir_id r = bi_id i) (update_where (\<lambda>r. ir_id r = bi_id i) u (t_issues s)) = Some (u r)"
    using row(1) u(2) by (simp add: find_update_where_key)
  moreover have "ir_assignee_name r = bi_assignee_name i" "ir_title r = bi_title i"
    using row(2) by (auto simp: row_to_board_issue_def split: if_splits)
  ultimately show ?thesis using run u(2)
    by (auto simp: board_import_markdown_def list import u(1) simp del: import_markdown_dir.simps)
qed

lemma reimport_drops_criteria_witness:
  "\<exists>r'. find (\<lambda>r. ir_id r = ''BACK-7'') (t_issues (snd (board_import_markdown (\<lambda>_. ''h'') ''t1'' ''d''
      (Some [(''BACK-7.md'', Inr (issue_to_markdown sample_md_issue ''BACK''))])
      ((sample_store [sample_md_issue])\<lparr>t_projects := [project_to_row ''dev'' ''t0'' sample_md_project]\<rparr>)))) = Some r' \<and>
    ir_acceptance_criteria r' = None \<and> ir_assignee_id r' = Some ''claude''"
proof -
  let ?s = "(sample_store [sample_md_issue])\<lparr>t_projects := [project_to_row ''dev'' ''t0'' sample_md_project]\<rparr>"
  let ?r = "issue_to_row ''dev'' sample_md_issue"
  have id: "bi_id sample_md_issue = ''BACK-7''" "bi_project_id sample_md_issue = ''p1''" "bi_content_hash sample_md_issue = None"
    "bi_assignee_name sample_md_issue = Some ''claude''" by (simp_all add: sample_md_issue_def sample_issue_def)
  have row: "find (\<lambda>r. ir_id r = bi_id sample_md_issue) (t_issues ?s) = Some ?r" by (simp add: issue_to_row_def)
  have list: "fst (list_board_projects ?s) = Inr [sample_md_project]"
    by (simp add: list_board_projects_def order_asc_def project_to_row_def row_to_project_def sample_md_project_def
        board_project.defs i32_ok_def List.map_filter_simps)
  have key: "bp_key sample_md_project = ''BACK''" "bp_id sample_md_project = ''p1''" by (simp_all add: sample_md_project_def)
  from reimport_drops_criteria [OF row row_issue_roundtrip list, of sample_md_project "\<lambda>_. ''h''" "''t1''" "''d''", OF _ _ sample_md_plain(1) _ _ surjective_pairing]
  show ?thesis using sample_md_plain(2) by (auto simp: id key issue_to_row_def)
qed

text \<open>An empty label list written by hand is one empty label.\<close>
lemma empty_label_list: "parse_yaml_line ''labels: []'' = Some (''labels'', JArr [JStr []])"
  using parse_labels [of "[[]]"] by (simp add: plain_label_def)

end
