(* ===== verification/Context_Store.thy ===== *)
theory Context_Store
  imports Store_Telemetry Board_Markdown
begin

text \<open>
  The context manager (gctrl-context and the context routes of gctrl-otel/src/receiver.rs): metadata rows in a DuckDB table,
  contents in one Markdown file per entry below a base directory. The file system is a map from absolute paths, as lists of
  components, to contents; the operating system resolves dots and parent directories (there are no symbolic links). fs gives the
  error of writing or removing a path, if any. SHA-256, SQL's LIKE, the clock and the UUIDs are arguments.
\<close>

section \<open>Types\<close>

datatype context_kind = Config_Kind | Snapshot_Kind | Document_Kind

fun context_kind_as_str :: "context_kind \<Rightarrow> string" where
  "context_kind_as_str Config_Kind = ''config''"
| "context_kind_as_str Snapshot_Kind = ''snapshot''"
| "context_kind_as_str Document_Kind = ''document''"

definition context_kind_from_str :: "string \<Rightarrow> context_kind option" where
  "context_kind_from_str s =
     (if s = ''config'' then Some Config_Kind else if s = ''snapshot'' then Some Snapshot_Kind
      else if s = ''document'' then Some Document_Kind else None)"

interpretation context_kind_codec: str_codec context_kind_as_str context_kind_from_str
proof
  fix x s
  show "context_kind_from_str (context_kind_as_str x) = Some x" by (cases x) (simp_all add: context_kind_from_str_def)
  show "context_kind_from_str s = Some x \<Longrightarrow> context_kind_as_str x = s"
    by (auto simp: context_kind_from_str_def split: if_splits)
qed

datatype context_source = Human_Source | Agent_Source string | System_Source string | Crawl_Source string

fun source_type :: "context_source \<Rightarrow> string" where
  "source_type Human_Source = ''human''"
| "source_type (Agent_Source _) = ''agent''"
| "source_type (System_Source _) = ''system''"
| "source_type (Crawl_Source _) = ''crawl''"

fun source_ref :: "context_source \<Rightarrow> string option" where
  "source_ref Human_Source = None"
| "source_ref (Agent_Source session_id) = Some session_id"
| "source_ref (System_Source subsystem) = Some subsystem"
| "source_ref (Crawl_Source domain) = Some domain"

definition source_from_parts :: "string \<Rightarrow> string option \<Rightarrow> context_source" where
  "source_from_parts ty ref =
     (let r = (case ref of None \<Rightarrow> [] | Some x \<Rightarrow> x)
      in if ty = ''agent'' then Agent_Source r else if ty = ''system'' then System_Source r
         else if ty = ''crawl'' then Crawl_Source r else Human_Source)"

record context_entry =
  cn_id :: string
  cn_kind :: context_kind
  cn_path :: string
  cn_title :: string
  cn_source :: context_source
  cn_word_count :: nat
  cn_content_hash :: string
  cn_tags :: "string list"
  cn_created_at :: timestamp
  cn_updated_at :: timestamp
  cn_synced :: bool

record context_filter =
  cf_kind :: "context_kind option"
  cf_tag :: "string option"
  cf_source :: "string option"
  cf_search :: "string option"
  cf_limit :: "nat option"

record context_stats =
  cst_total_entries :: nat
  cst_total_words :: nat
  cst_by_kind :: "(string \<times> nat) list"
  cst_by_source :: "(string \<times> nat) list"

datatype context_error = Cx_NotFound string | Cx_Io string | Cx_Database string | Cx_InvalidKind string | Cx_Serialization string

text \<open>The table and the file system.\<close>
record context_store =
  cs_rows :: "context_row list"
  cs_files :: "string list \<Rightarrow> string option"

text \<open>word\_count is an i32 column, cast to usize.\<close>
definition row_to_entry :: "context_row \<Rightarrow> context_entry" where
  "row_to_entry r =
     \<lparr>cn_id = cx_id r,
      cn_kind = (case context_kind_from_str (cx_kind r) of None \<Rightarrow> Document_Kind | Some k \<Rightarrow> k),
      cn_path = cx_path r, cn_title = cx_title r,
      cn_source = source_from_parts (cx_source_type r) (cx_source_ref r),
      cn_word_count = unat (scast (cx_word_count r) :: u64), cn_content_hash = cx_content_hash r,
      cn_tags = cx_tags r, cn_created_at = cx_created_at r, cn_updated_at = cx_updated_at r, cn_synced = cx_synced r\<rparr>"

section \<open>Files\<close>

text \<open>The components of a path as the operating system walks them.\<close>
definition walk :: "string list \<Rightarrow> string list \<Rightarrow> string list" where
  "walk = foldl (\<lambda>dir c. if c = [] \<or> c = ''.'' then dir else if c = ''..'' then butlast dir else dir @ [c])"

text \<open>PathBuf::join: an absolute path replaces the directory it is joined to.\<close>
definition join_path :: "string list \<Rightarrow> string \<Rightarrow> string list" where
  "join_path dir rel = walk (if prefix ''/'' rel then [] else dir) (split_char (CHR ''/'') rel)"

definition entry_path :: "string list \<Rightarrow> context_kind \<Rightarrow> string \<Rightarrow> string list" where
  "entry_path base_dir kind rel_path = join_path (base_dir @ [context_kind_as_str kind]) rel_path"

definition context_frontmatter :: "context_entry \<Rightarrow> string list" where
  "context_frontmatter e =
     [''id: '' @ cn_id e, ''title: '' @ cn_title e, ''kind: '' @ context_kind_as_str (cn_kind e),
      ''source: '' @ source_type (cn_source e), ''tags: ['' @ join '', '' (cn_tags e) @ '']'',
      ''created_at: '' @ cn_created_at e, ''updated_at: '' @ cn_updated_at e]"

definition content_text :: "context_entry \<Rightarrow> string \<Rightarrow> string" where
  "content_text e content =
     ''---'' @ [CHR 0x0A] @ join [CHR 0x0A] (context_frontmatter e) @ [CHR 0x0A] @ ''---'' @ [CHR 0x0A, CHR 0x0A] @ content"

text \<open>
  What the file system answers a write at a path: an error, or nothing. The files are a flat map, which holds 'a' and 'a/b' side
  by side; in the program the second write is refused (create\_dir\_all finds a file), and is one of these errors.
\<close>
type_synonym file_errors = "string list \<Rightarrow> string option"

definition save_content ::
  "file_errors \<Rightarrow> string list \<Rightarrow> context_entry \<Rightarrow> string \<Rightarrow> context_store \<Rightarrow> (context_error + unit) \<times> context_store" where
  "save_content fs base_dir e content s =
     (let file_path = entry_path base_dir (cn_kind e) (cn_path e)
      in case fs file_path of
           Some err \<Rightarrow> (Inl (Cx_Io err), s)
         | None \<Rightarrow> (Inr (), s\<lparr>cs_files := (cs_files s)(file_path \<mapsto> content_text e content)\<rparr>))"

definition context_strip :: "string \<Rightarrow> string" where
  "context_strip content =
     (if \<not> prefix ''---'' content then content
      else case str_find (CHR 0x0A # ''---'') (drop 3 content) of
          Some e \<Rightarrow> (let after = e + 3 + 4
                     in if after < length content then dropWhile (\<lambda>c. c = CHR 0x0A) (drop after content) else content)
        | None \<Rightarrow> content)"

definition read_file :: "string list \<Rightarrow> context_kind \<Rightarrow> string \<Rightarrow> context_store \<Rightarrow> context_error + string" where
  "read_file base_dir kind rel_path s =
     (case cs_files s (entry_path base_dir kind rel_path) of
        None \<Rightarrow> Inl (Cx_Io ''No such file or directory'')
      | Some raw \<Rightarrow> Inr (context_strip raw))"

definition remove_content ::
  "file_errors \<Rightarrow> string list \<Rightarrow> context_kind \<Rightarrow> string \<Rightarrow> context_store \<Rightarrow> (context_error + unit) \<times> context_store" where
  "remove_content fs base_dir kind rel_path s =
     (let file_path = entry_path base_dir kind rel_path
      in if cs_files s file_path = None then (Inr (), s)
         else case fs file_path of
             Some err \<Rightarrow> (Inl (Cx_Io err), s)
           | None \<Rightarrow> (Inr (), s\<lparr>cs_files := (cs_files s)(file_path := None)\<rparr>))"

section \<open>The manager\<close>

text \<open>What the manager depends on: its base directory, file errors, the hash and LIKE.\<close>
record context_env =
  cv_base :: "string list"
  cv_fs :: file_errors
  cv_sha256 :: "string \<Rightarrow> string"
  cv_like :: "string \<Rightarrow> string \<Rightarrow> bool"

text \<open>INSERT ... ON CONFLICT(path) DO UPDATE; a clash of the primary key alone is an error.\<close>
definition upsert_context_row :: "context_row \<Rightarrow> context_row list \<Rightarrow> context_row list option" where
  "upsert_context_row r rows =
     (if list_ex (\<lambda>x. cx_path x = cx_path r) rows
      then Some (update_where (\<lambda>x. cx_path x = cx_path r)
        (\<lambda>x. x\<lparr>cx_title := cx_title r, cx_kind := cx_kind r, cx_source_type := cx_source_type r, cx_source_ref := cx_source_ref r,
               cx_word_count := cx_word_count r, cx_content_hash := cx_content_hash r, cx_tags := cx_tags r,
               cx_updated_at := cx_updated_at r, cx_synced := False\<rparr>) rows)
      else if list_ex (\<lambda>x. cx_id x = cx_id r) rows then None
      else Some (rows @ [r]))"

text \<open>The arguments of an upsert.\<close>
record context_input =
  ci_kind :: context_kind
  ci_path :: string
  ci_title :: string
  ci_content :: string
  ci_source :: context_source
  ci_tags :: "string list"

definition input_entry :: "context_env \<Rightarrow> timestamp \<Rightarrow> string \<Rightarrow> context_input \<Rightarrow> context_entry" where
  "input_entry env now id' x =
     \<lparr>cn_id = id', cn_kind = ci_kind x, cn_path = ci_path x, cn_title = ci_title x, cn_source = ci_source x,
      cn_word_count = count_words False (ci_content x), cn_content_hash = cv_sha256 env (ci_content x), cn_tags = ci_tags x,
      cn_created_at = now, cn_updated_at = now, cn_synced = False\<rparr>"

definition entry_row :: "context_entry \<Rightarrow> context_row" where
  "entry_row e =
     \<lparr>cx_id = cn_id e, cx_kind = context_kind_as_str (cn_kind e), cx_path = cn_path e, cx_title = cn_title e,
      cx_source_type = source_type (cn_source e),
      cx_source_ref = Some (case source_ref (cn_source e) of None \<Rightarrow> [] | Some r \<Rightarrow> r),
      cx_word_count = of_nat (cn_word_count e), cx_content_hash = cn_content_hash e, cx_tags = cn_tags e,
      cx_created_at = cn_created_at e, cx_updated_at = cn_updated_at e, cx_synced = False\<rparr>"

definition context_upsert ::
  "context_env \<Rightarrow> timestamp \<Rightarrow> string \<Rightarrow> context_input \<Rightarrow> context_store \<Rightarrow> (context_error + context_entry) \<times> context_store" where
  "context_upsert env now uuid x s =
     (let id' = (case find (\<lambda>r. cx_path r = ci_path x) (cs_rows s) of Some r \<Rightarrow> cx_id r | None \<Rightarrow> ''ctx-'' @ uuid);
          e = input_entry env now id' x
      in case upsert_context_row (entry_row e) (cs_rows s) of
           None \<Rightarrow> (Inl (Cx_Database ''duplicate key''), s)
         | Some rows \<Rightarrow>
             (case save_content (cv_fs env) (cv_base env) e (ci_content x) (s\<lparr>cs_rows := rows\<rparr>) of
                (Inl err, s') \<Rightarrow> (Inl err, s')
              | (Inr _, s') \<Rightarrow> (Inr e, s')))"

definition context_find :: "string \<Rightarrow> context_store \<Rightarrow> context_error + context_entry" where
  "context_find id' s =
     (case find (\<lambda>r. cx_id r = id') (cs_rows s) of None \<Rightarrow> Inl (Cx_NotFound id') | Some r \<Rightarrow> Inr (row_to_entry r))"

definition context_find_by_path :: "string \<Rightarrow> context_store \<Rightarrow> context_error + context_entry" where
  "context_find_by_path path s =
     (case find (\<lambda>r. cx_path r = path) (cs_rows s) of None \<Rightarrow> Inl (Cx_NotFound path) | Some r \<Rightarrow> Inr (row_to_entry r))"

definition read_content :: "context_env \<Rightarrow> string \<Rightarrow> context_store \<Rightarrow> context_error + string" where
  "read_content env id' s =
     (case context_find id' s of Inl e \<Rightarrow> Inl e | Inr e \<Rightarrow> read_file (cv_base env) (cn_kind e) (cn_path e) s)"

definition read_content_by_path :: "context_env \<Rightarrow> string \<Rightarrow> context_store \<Rightarrow> context_error + string" where
  "read_content_by_path env path s =
     (case context_find_by_path path s of Inl e \<Rightarrow> Inl e | Inr e \<Rightarrow> read_file (cv_base env) (cn_kind e) (cn_path e) s)"

definition context_matches :: "(string \<Rightarrow> string \<Rightarrow> bool) \<Rightarrow> context_filter \<Rightarrow> context_row \<Rightarrow> bool" where
  "context_matches like flt r \<longleftrightarrow>
     opt_eq (map_option context_kind_as_str (cf_kind flt)) (cx_kind r) \<and> opt_eq (cf_source flt) (cx_source_type r) \<and>
     (case cf_search flt of None \<Rightarrow> True
      | Some search \<Rightarrow> let pat = ''%'' @ search @ ''%'' in like (cx_title r) pat \<or> like (cx_path r) pat)"

text \<open>The tag is looked for after the LIMIT.\<close>
definition context_entries :: "context_env \<Rightarrow> context_filter \<Rightarrow> context_store \<Rightarrow> context_entry list" where
  "context_entries env flt s =
     (let entries = map row_to_entry
            (opt_limit (cf_limit flt) (order_desc cx_updated_at (filter (context_matches (cv_like env) flt) (cs_rows s))))
      in case cf_tag flt of None \<Rightarrow> entries | Some tag \<Rightarrow> filter (\<lambda>e. tag \<in> set (cn_tags e)) entries)"

definition remove_entry ::
  "context_env \<Rightarrow> (context_row \<Rightarrow> bool) \<Rightarrow> context_entry \<Rightarrow> context_store \<Rightarrow> (context_error + unit) \<times> context_store" where
  "remove_entry env p e s =
     remove_content (cv_fs env) (cv_base env) (cn_kind e) (cn_path e) (s\<lparr>cs_rows := delete_where p (cs_rows s)\<rparr>)"

definition context_remove :: "context_env \<Rightarrow> string \<Rightarrow> context_store \<Rightarrow> (context_error + unit) \<times> context_store" where
  "context_remove env id' s =
     (case context_find id' s of Inl e \<Rightarrow> (Inl e, s) | Inr e \<Rightarrow> remove_entry env (\<lambda>r. cx_id r = id') e s)"

definition context_remove_by_path :: "context_env \<Rightarrow> string \<Rightarrow> context_store \<Rightarrow> (context_error + unit) \<times> context_store" where
  "context_remove_by_path env path s =
     (case context_find_by_path path s of Inl e \<Rightarrow> (Inl e, s) | Inr e \<Rightarrow> remove_entry env (\<lambda>r. cx_path r = path) e s)"

text \<open>A negative sum of the word counts does not fit a u64 and reads as 0.\<close>
definition context_statistics :: "context_store \<Rightarrow> context_stats" where
  "context_statistics s =
     (let rows = cs_rows s; words = sum_list (map (\<lambda>r. sint (cx_word_count r)) rows)
      in \<lparr>cst_total_entries = length rows, cst_total_words = (if 0 \<le> words \<and> words < 2 ^ 64 then nat words else 0),
          cst_by_kind = map (map_prod id length) (order_asc fst (group_by cx_kind rows)),
          cst_by_source = map (map_prod id length) (order_asc fst (group_by cx_source_type rows))\<rparr>)"

section \<open>Compaction\<close>

definition context_block :: "context_entry \<times> string \<Rightarrow> string" where
  "context_block p = (case p of (e, content) \<Rightarrow>
     replicate 48 (CHR ''='') @ [CHR 0x0A] @ ''Path: '' @ context_kind_as_str (cn_kind e) @ ''/'' @ cn_path e @ [CHR 0x0A] @
     ''Title: '' @ cn_title e @ [CHR 0x0A] @
     (if cn_tags e = [] then [] else ''Tags: '' @ join '', '' (cn_tags e) @ [CHR 0x0A]) @
     replicate 48 (CHR ''='') @ [CHR 0x0A] @ trim content @ [CHR 0x0A, CHR 0x0A])"

definition compact_context :: "(context_entry \<times> string) list \<Rightarrow> string" where
  "compact_context entries =
     (if entries = []
      then ''# Context '' @ bytes [226, 128, 148] @ '' Empty'' @ [CHR 0x0A, CHR 0x0A] @ ''> No context entries found.'' @ [CHR 0x0A]
      else (let total_words = sum_list (map (\<lambda>(e, _). cn_word_count e) entries)
            in ''# Agent Context'' @ [CHR 0x0A, CHR 0x0A] @ ''> '' @ show_nat (length entries) @ '' entries | ~'' @
               show_nat total_words @ '' words | ~'' @ show_nat (total_words * 4 div 3) @ '' tokens (estimated)'' @
               [CHR 0x0A, CHR 0x0A] @ ''## Structure'' @ [CHR 0x0A, CHR 0x0A] @ ''```'' @ [CHR 0x0A] @
               concat (map (\<lambda>(e, _). ''  '' @ context_kind_as_str (cn_kind e) @ ''/'' @ cn_path e @ [CHR 0x0A]) entries) @
               ''```'' @ [CHR 0x0A, CHR 0x0A] @ ''## Entries'' @ [CHR 0x0A, CHR 0x0A] @ concat (map context_block entries)))"

text \<open>Entries whose file cannot be read are left out.\<close>
definition context_compaction :: "context_env \<Rightarrow> context_filter \<Rightarrow> context_store \<Rightarrow> string" where
  "context_compaction env flt s =
     compact_context (List.map_filter
       (\<lambda>e. case read_file (cv_base env) (cn_kind e) (cn_path e) s of Inl _ \<Rightarrow> None | Inr content \<Rightarrow> Some (e, content))
       (context_entries env flt s))"

section \<open>The routes\<close>

text \<open>Status code and body, if the request succeeds; None as state when the manager is not initialised.\<close>
definition with_context :: "context_store option \<Rightarrow> (context_store \<Rightarrow> (nat \<times> 'a option) \<times> context_store) \<Rightarrow>
    (nat \<times> 'a option) \<times> context_store option" where
  "with_context ctx f = (case ctx of None \<Rightarrow> ((503, None), None) | Some s \<Rightarrow> (case f s of (r, s') \<Rightarrow> (r, Some s')))"

definition default_context_limit :: nat where
  "default_context_limit = 100"

text \<open>A kind parameter that names no kind is dropped, and the listing is not filtered by kind.\<close>
definition context_list_route ::
  "context_env \<Rightarrow> string option \<Rightarrow> context_filter \<Rightarrow> context_store option \<Rightarrow> (nat \<times> context_entry list option) \<times> context_store option" where
  "context_list_route env kind params ctx =
     with_context ctx (\<lambda>s. ((200, Some (context_entries env (params\<lparr>cf_kind := Option.bind kind context_kind_from_str,
       cf_limit := Some (case cf_limit params of None \<Rightarrow> default_context_limit | Some n \<Rightarrow> n)\<rparr>) s)), s))"

record context_body =
  cb_path :: string
  cb_title :: string
  cb_content :: string
  cb_kind :: "string option"
  cb_tags :: "string list"
  cb_source_type :: "string option"
  cb_source_ref :: "string option"

text \<open>The kind and the source type default to document and human.\<close>
definition default_context_kind :: string where
  "default_context_kind = ''document''"

definition default_context_source :: string where
  "default_context_source = ''human''"

definition body_kind :: "context_body \<Rightarrow> context_kind option" where
  "body_kind body = context_kind_from_str (case cb_kind body of None \<Rightarrow> default_context_kind | Some k \<Rightarrow> k)"

definition body_source :: "context_body \<Rightarrow> context_source" where
  "body_source body =
     source_from_parts (case cb_source_type body of None \<Rightarrow> default_context_source | Some t \<Rightarrow> t) (cb_source_ref body)"

definition context_upsert_route ::
  "context_env \<Rightarrow> timestamp \<Rightarrow> string \<Rightarrow> context_body \<Rightarrow> context_store option \<Rightarrow>
    (nat \<times> context_entry option) \<times> context_store option" where
  "context_upsert_route env now uuid body ctx =
     with_context ctx (\<lambda>s.
       case body_kind body of
         None \<Rightarrow> ((400, None), s)
       | Some kind \<Rightarrow>
           (case context_upsert env now uuid \<lparr>ci_kind = kind, ci_path = cb_path body, ci_title = cb_title body,
                  ci_content = cb_content body, ci_source = body_source body,
                  ci_tags = cb_tags body\<rparr> s of
              (Inl e, s') \<Rightarrow> ((500, None), s')
            | (Inr entry, s') \<Rightarrow> ((201, Some entry), s')))"

definition or_else :: "'e + 'a \<Rightarrow> 'e + 'a \<Rightarrow> 'e + 'a" where
  "or_else a b = (case a of Inl _ \<Rightarrow> b | Inr x \<Rightarrow> Inr x)"

definition found :: "'e + 'a \<Rightarrow> nat \<times> 'a option" where
  "found r = (case r of Inl _ \<Rightarrow> (404, None) | Inr x \<Rightarrow> (200, Some x))"

definition context_get_route :: "string \<Rightarrow> context_store option \<Rightarrow> (nat \<times> context_entry option) \<times> context_store option" where
  "context_get_route id' ctx = with_context ctx (\<lambda>s. (found (or_else (context_find id' s) (context_find_by_path id' s)), s))"

definition context_content_route :: "context_env \<Rightarrow> string \<Rightarrow> context_store option \<Rightarrow> (nat \<times> string option) \<times> context_store option" where
  "context_content_route env id' ctx =
     with_context ctx (\<lambda>s. (found (or_else (read_content env id' s) (read_content_by_path env id' s)), s))"

definition context_delete_route :: "context_env \<Rightarrow> string \<Rightarrow> context_store option \<Rightarrow> (nat \<times> unit option) \<times> context_store option" where
  "context_delete_route env id' ctx =
     with_context ctx (\<lambda>s.
       case context_remove env id' s of
         (Inr _, s') \<Rightarrow> ((204, None), s')
       | (Inl _, s') \<Rightarrow>
           (case context_remove_by_path env id' s' of (Inr _, s'') \<Rightarrow> ((204, None), s'') | (Inl _, s'') \<Rightarrow> ((404, None), s'')))"

definition context_compact_route ::
  "context_env \<Rightarrow> string option \<Rightarrow> string option \<Rightarrow> context_store option \<Rightarrow> (nat \<times> string option) \<times> context_store option" where
  "context_compact_route env kind tag ctx =
     with_context ctx (\<lambda>s. ((200, Some (context_compaction env \<lparr>cf_kind = Option.bind kind context_kind_from_str, cf_tag = tag,
       cf_source = None, cf_search = None, cf_limit = None\<rparr> s)), s))"

definition context_stats_route :: "context_store option \<Rightarrow> (nat \<times> context_stats option) \<times> context_store option" where
  "context_stats_route ctx = with_context ctx (\<lambda>s. ((200, Some (context_statistics s)), s))"

section \<open>Paths\<close>

text \<open>A path that stays below its directory and names one file: relative components, none empty, a dot or a parent directory.\<close>
definition plain_components :: "string list \<Rightarrow> bool" where
  "plain_components cs \<longleftrightarrow> (\<forall>c \<in> set cs. c \<noteq> [] \<and> c \<noteq> ''.'' \<and> c \<noteq> ''..'')"

definition plain_path :: "string \<Rightarrow> bool" where
  "plain_path p \<longleftrightarrow> plain_components (split_char (CHR ''/'') p)"

lemma walk_plain: "plain_components cs \<Longrightarrow> walk dir cs = dir @ cs"
  by (induction cs arbitrary: dir) (simp_all add: walk_def plain_components_def)

lemma join_split_char: "join [d] (split_char d s) = s"
proof (induction s)
  case (Cons c s)
  obtain w ws where "split_char d s = w # ws" by (cases "split_char d s") simp_all
  with Cons show ?case by (cases ws) auto
qed simp

lemma plain_path_relative: "plain_path p \<Longrightarrow> \<not> prefix ''/'' p"
proof (cases p)
  case (Cons c q)
  assume "plain_path p"
  with Cons have "c \<noteq> CHR ''/''" by (intro notI) (simp add: plain_path_def plain_components_def)
  with Cons show ?thesis by simp
qed simp

lemma entry_path_plain:
  "plain_path p \<Longrightarrow> entry_path base kind p = base @ context_kind_as_str kind # split_char (CHR ''/'') p"
  by (simp add: entry_path_def join_path_def plain_path_relative walk_plain plain_path_def)

lemma entry_path_inj:
  assumes "plain_path p" and "plain_path q" and "entry_path base k p = entry_path base k' q"
  shows "p = q \<and> k = k'"
proof -
  have "context_kind_as_str k = context_kind_as_str k'" "split_char (CHR ''/'') p = split_char (CHR ''/'') q"
    using assms by (simp_all add: entry_path_plain)
  then show ?thesis by (metis join_split_char context_kind_codec.as_str_inj)
qed

section \<open>Reading back\<close>

text \<open>Metadata without line breaks, so that the front matter has the lines it is written with.\<close>
definition one_line :: "string \<Rightarrow> bool" where
  "one_line s \<longleftrightarrow> CHR 0x0A \<notin> set s"

definition one_line_entry :: "context_entry \<Rightarrow> bool" where
  "one_line_entry e \<longleftrightarrow> one_line (cn_id e) \<and> one_line (cn_title e) \<and> list_all one_line (cn_tags e) \<and>
     one_line (cn_created_at e) \<and> one_line (cn_updated_at e)"

lemma one_line_join: "list_all one_line xs \<Longrightarrow> one_line sep \<Longrightarrow> one_line (join sep xs)"
  by (induction sep xs rule: join.induct) (simp_all add: one_line_def)

lemma context_frontmatter_shape:
  assumes "one_line_entry e"
  shows "\<forall>l \<in> set (context_frontmatter e). CHR 0x0A \<notin> set l \<and> \<not> prefix ''---'' l"
proof -
  have "one_line (join '', '' (cn_tags e))" using assms by (intro one_line_join) (simp_all add: one_line_entry_def one_line_def)
  moreover have "one_line (context_kind_as_str k)" "one_line (source_type src)" for k src
    by (cases k; simp add: one_line_def) (cases src; simp add: one_line_def)
  ultimately show ?thesis using assms by (simp add: context_frontmatter_def one_line_entry_def one_line_def)
qed

lemma strip_content_text:
  assumes "one_line_entry e"
  shows "context_strip (content_text e content) = dropWhile (\<lambda>c. c = CHR 0x0A) content"
proof -
  let ?j = "join [CHR 0x0A] (context_frontmatter e)" let ?t = "content_text e content"
  have after: "drop 3 ?t = CHR 0x0A # ?j @ CHR 0x0A # ''---'' @ [CHR 0x0A, CHR 0x0A] @ content" by (simp add: content_text_def)
  have found: "str_find (CHR 0x0A # ''---'') (drop 3 ?t) = Some (Suc (length ?j))"
    unfolding after using context_frontmatter_shape [OF assms]
    by (intro find_after_lines) (simp_all add: context_frontmatter_def)
  have "?t = (''---'' @ CHR 0x0A # ?j @ CHR 0x0A # ''---'') @ [CHR 0x0A, CHR 0x0A] @ content" by (simp add: content_text_def)
  moreover have "length (''---'' @ CHR 0x0A # ?j @ CHR 0x0A # ''---'') = Suc (length ?j) + 3 + 4" by simp
  ultimately have rest: "drop (Suc (length ?j) + 3 + 4) ?t = [CHR 0x0A, CHR 0x0A] @ content"
    "Suc (length ?j) + 3 + 4 < length ?t"
    by (metis append_eq_conv_conj) (simp add: content_text_def)
  have "prefix ''---'' ?t" by (simp add: content_text_def)
  then show ?thesis using found rest by (simp add: context_strip_def Let_def)
qed

section \<open>Upserts\<close>

lemma upsert_succeeds:
  assumes "context_upsert env now uuid x s = (Inr e, s')"
  shows "e = input_entry env now (cn_id e) x"
    and "cn_id e = (case find (\<lambda>r. cx_path r = ci_path x) (cs_rows s) of Some r \<Rightarrow> cx_id r | None \<Rightarrow> ''ctx-'' @ uuid)"
    and "upsert_context_row (entry_row e) (cs_rows s) = Some (cs_rows s')"
    and "cs_files s' = (cs_files s)(entry_path (cv_base env) (ci_kind x) (ci_path x) \<mapsto> content_text e (ci_content x))"
  using assms
  by (simp_all add: context_upsert_def Let_def save_content_def input_entry_def split: option.splits prod.splits sum.splits if_splits)
    (clarsimp)+

text \<open>The row an upsert leaves for its path.\<close>
definition carries :: "context_entry \<Rightarrow> context_row \<Rightarrow> bool" where
  "carries e r \<longleftrightarrow> cx_path r = cn_path e \<and> cx_kind r = context_kind_as_str (cn_kind e) \<and> cx_title r = cn_title e \<and>
     cx_word_count r = of_nat (cn_word_count e) \<and> cx_content_hash r = cn_content_hash e \<and> cx_tags r = cn_tags e \<and>
     \<not> cx_synced r"

lemma upsert_row_cases:
  assumes "upsert_context_row (entry_row e) rows = Some rows'"
  obtains (updated) f where "rows' = update_where (\<lambda>x. cx_path x = cn_path e) f rows"
      "\<And>x. cx_id (f x) = cx_id x" "\<And>x. cx_path (f x) = cx_path x" "\<And>x. cx_path x = cn_path e \<Longrightarrow> carries e (f x)"
  | (inserted) "rows' = rows @ [entry_row e]" "cn_path e \<notin> cx_path ` set rows" "cn_id e \<notin> cx_id ` set rows" "carries e (entry_row e)"
proof (cases "list_ex (\<lambda>x. cx_path x = cn_path e) rows")
  case True
  let ?f = "\<lambda>x. x\<lparr>cx_title := cx_title (entry_row e), cx_kind := cx_kind (entry_row e), cx_source_type := cx_source_type (entry_row e),
    cx_source_ref := cx_source_ref (entry_row e), cx_word_count := cx_word_count (entry_row e),
    cx_content_hash := cx_content_hash (entry_row e), cx_tags := cx_tags (entry_row e),
    cx_updated_at := cx_updated_at (entry_row e), cx_synced := False\<rparr>"
  from True assms have "rows' = update_where (\<lambda>x. cx_path x = cn_path e) ?f rows" by (simp add: upsert_context_row_def entry_row_def)
  then show ?thesis by (rule updated) (simp_all add: carries_def entry_row_def)
next
  case False
  with assms have "rows' = rows @ [entry_row e]" "\<not> list_ex (\<lambda>x. cx_id x = cn_id e) rows"
    by (simp_all add: upsert_context_row_def entry_row_def split: if_splits)
  with False show ?thesis by (intro inserted) (auto simp: list_ex_iff carries_def entry_row_def)
qed

lemma upserted_rows:
  assumes "upsert_context_row (entry_row e) rows = Some rows'" and "r \<in> set rows'"
  shows "(r \<in> set rows \<and> cx_path r \<noteq> cn_path e) \<or> carries e r"
  using assms(1)
proof (cases rule: upsert_row_cases)
  case (updated f)
  with assms(2) obtain y where "y \<in> set rows" "r = (if cx_path y = cn_path e then f y else y)" unfolding updated(1) set_update_where by blast
  with updated(4) [of y] show ?thesis by (cases "cx_path y = cn_path e") simp_all
next
  case inserted
  with assms(2) show ?thesis by (cases "r = entry_row e") (auto simp: image_iff)
qed

lemma upserted_keys:
  assumes "upsert_context_row (entry_row e) rows = Some rows'"
  shows "(distinct (map cx_id rows) \<longrightarrow> distinct (map cx_id rows')) \<and> (distinct (map cx_path rows) \<longrightarrow> distinct (map cx_path rows'))"
  using assms
proof (cases rule: upsert_row_cases)
  case (updated f)
  then show ?thesis by (simp add: map_update_where)
next
  case inserted
  then show ?thesis by (simp add: entry_row_def)
qed

lemma upserted_row:
  assumes "context_upsert env now uuid x s = (Inr e, s')" and "distinct (map cx_id (cs_rows s))"
  shows "\<exists>r. find (\<lambda>r. cx_id r = cn_id e) (cs_rows s') = Some r \<and> carries e r"
proof -
  note up = upsert_succeeds [OF assms(1)]
  have path: "cn_path e = ci_path x" by (subst up(1)) (simp add: input_entry_def)
  have "\<exists>r \<in> set (cs_rows s'). cx_id r = cn_id e \<and> carries e r" using up(3)
  proof (cases rule: upsert_row_cases)
    case (updated f)
    show ?thesis
    proof (cases "find (\<lambda>r. cx_path r = ci_path x) (cs_rows s)")
      case None
      then have "cs_rows s' = cs_rows s" unfolding updated(1) by (intro update_where_none) (simp add: find_None_iff path)
      with up(3) show ?thesis using None path
        by (simp add: upsert_context_row_def entry_row_def list_ex_iff find_None_iff split: if_splits)
    next
      case (Some r)
      then have r: "r \<in> set (cs_rows s)" "cx_path r = cn_path e" "cx_id r = cn_id e"
        using find_SomeD [OF Some] up(2) path by simp_all
      then have "f r \<in> set (cs_rows s')" unfolding updated(1) set_update_where by force
      with r updated(2,4) show ?thesis by metis
    qed
  next
    case inserted
    then show ?thesis by (simp add: entry_row_def)
  qed
  then obtain r where r: "r \<in> set (cs_rows s')" "cx_id r = cn_id e" "carries e r" by blast
  then show ?thesis using find_key_eq [of cx_id "cs_rows s'" r] upserted_keys [OF up(3)] assms(2) by auto
qed

lemma carried_entry: "carries e r \<Longrightarrow> cn_kind (row_to_entry r) = cn_kind e \<and> cn_path (row_to_entry r) = cn_path e"
  by (simp add: carries_def row_to_entry_def context_kind_codec.from_as)

lemma upserted_input:
  assumes "context_upsert env now uuid x s = (Inr e, s')"
  shows "cn_path e = ci_path x" and "cn_kind e = ci_kind x" and "cn_content_hash e = cv_sha256 env (ci_content x)"
    and "cn_word_count e = count_words False (ci_content x)"
  by (subst upsert_succeeds(1) [OF assms], simp add: input_entry_def)+

section \<open>Properties\<close>

text \<open>What is read back is what was written: after a successful upsert with metadata of one line each, the content of
  the entry's id is the given content, less the line breaks it begins with, whatever else the directory held.\<close>
lemma context_content_roundtrip:
  assumes "context_upsert env now uuid x s = (Inr e, s')" and "distinct (map cx_id (cs_rows s))" and "one_line_entry e"
  shows "read_content env (cn_id e) s' = Inr (dropWhile (\<lambda>c. c = CHR 0x0A) (ci_content x))"
proof -
  obtain r where r: "find (\<lambda>r. cx_id r = cn_id e) (cs_rows s') = Some r" "carries e r" using upserted_row [OF assms(1,2)] by blast
  then have "read_content env (cn_id e) s' = read_file (cv_base env) (ci_kind x) (ci_path x) s'"
    using carried_entry upserted_input(1,2) [OF assms(1)] by (simp add: read_content_def context_find_def)
  then show ?thesis by (simp add: read_file_def upsert_succeeds(4) [OF assms(1)] strip_content_text [OF assms(3)])
qed

definition sample_cx_env :: context_env where
  "sample_cx_env = \<lparr>cv_base = [''data'', ''context''], cv_fs = \<lambda>_. None, cv_sha256 = \<lambda>t. ''h'' @ show_nat (length t), cv_like = (=)\<rparr>"

definition sample_cx_input :: "string \<Rightarrow> context_input" where
  "sample_cx_input path = \<lparr>ci_kind = Document_Kind, ci_path = path, ci_title = ''T'', ci_content = CHR 0x0A # ''a b'',
     ci_source = Human_Source, ci_tags = [''x'', ''y'']\<rparr>"

definition no_context :: context_store where
  "no_context = \<lparr>cs_rows = [], cs_files = \<lambda>_. None\<rparr>"

lemma sample_cx_upsert:
  "fst (context_upsert sample_cx_env ''1'' ''u'' (sample_cx_input path) no_context) =
    Inr (input_entry sample_cx_env ''1'' ''ctx-u'' (sample_cx_input path))"
  by (simp add: context_upsert_def no_context_def upsert_context_row_def save_content_def sample_cx_env_def Let_def)

lemma context_content_roundtrip_witness:
  "read_content sample_cx_env ''ctx-u''
     (snd (context_upsert sample_cx_env ''1'' ''u'' (sample_cx_input ''a/b.md'') no_context)) = Inr ''a b''"
proof -
  let ?e = "input_entry sample_cx_env ''1'' ''ctx-u'' (sample_cx_input ''a/b.md'')"
  have "one_line_entry ?e" by (simp add: one_line_entry_def one_line_def input_entry_def sample_cx_input_def)
  then show ?thesis
    using context_content_roundtrip [of sample_cx_env "''1''" "''u''" "sample_cx_input ''a/b.md''" no_context ?e] sample_cx_upsert [of "''a/b.md''"]
    by (simp add: prod_eq_iff no_context_def input_entry_def sample_cx_input_def)
qed

text \<open>Sequences of operations.\<close>
datatype context_op = Upsert_Op timestamp string context_input | Remove_Op string | Remove_Path_Op string

fun context_exec :: "context_env \<Rightarrow> context_op \<Rightarrow> context_store \<Rightarrow> context_store" where
  "context_exec env (Upsert_Op now uuid x) s = snd (context_upsert env now uuid x s)"
| "context_exec env (Remove_Op id') s = snd (context_remove env id' s)"
| "context_exec env (Remove_Path_Op path) s = snd (context_remove_by_path env path s)"

text \<open>Upserts of plain paths with metadata of one line each.\<close>
fun plain_op :: "context_op \<Rightarrow> bool" where
  "plain_op (Upsert_Op now uuid x) \<longleftrightarrow>
     plain_path (ci_path x) \<and> one_line now \<and> one_line uuid \<and> one_line (ci_title x) \<and> list_all one_line (ci_tags x)"
| "plain_op _ \<longleftrightarrow> True"

text \<open>The file of a row holds a text with the hash and the word count of the row.\<close>
definition backed :: "context_env \<Rightarrow> (string list \<Rightarrow> string option) \<Rightarrow> context_row \<Rightarrow> bool" where
  "backed env files r \<longleftrightarrow> plain_path (cx_path r) \<and> one_line (cx_id r) \<and>
     (\<exists>k raw content. context_kind_from_str (cx_kind r) = Some k \<and> files (entry_path (cv_base env) k (cx_path r)) = Some raw \<and>
        context_strip raw = dropWhile (\<lambda>c. c = CHR 0x0A) content \<and> cx_content_hash r = cv_sha256 env content \<and>
        cx_word_count r = of_nat (count_words False content))"

definition context_consistent :: "context_env \<Rightarrow> context_store \<Rightarrow> bool" where
  "context_consistent env s \<longleftrightarrow> distinct (map cx_id (cs_rows s)) \<and> distinct (map cx_path (cs_rows s)) \<and>
     (\<forall>r \<in> set (cs_rows s). backed env (cs_files s) r)"

text \<open>Files of other paths do not matter.\<close>
lemma backed_other:
  assumes "backed env files r" and "plain_path p" and "cx_path r \<noteq> p"
  shows "backed env (files(entry_path (cv_base env) k p := raw)) r"
proof -
  have "entry_path (cv_base env) k' (cx_path r) \<noteq> entry_path (cv_base env) k p" for k'
    using entry_path_inj [of "cx_path r" p] assms by (auto simp: backed_def)
  with assms(1) show ?thesis by (simp add: backed_def)
qed

lemma consistent_upsert:
  assumes ok: "context_consistent env s" and plain: "plain_op (Upsert_Op now uuid x)"
    and res: "context_upsert env now uuid x s = (Inr e, s')"
  shows "context_consistent env s'"
proof -
  note up = upsert_succeeds [OF res] and inp = upserted_input [OF res]
  have id: "one_line (cn_id e)"
  proof (cases "find (\<lambda>r. cx_path r = ci_path x) (cs_rows s)")
    case None
    then show ?thesis using up(2) plain by (simp add: one_line_def)
  next
    case (Some r)
    then show ?thesis using up(2) ok find_SomeD [OF Some] by (simp add: context_consistent_def backed_def)
  qed
  have one: "one_line_entry e" using plain id
    by (simp add: one_line_entry_def) (subst (1 2 3 4) up(1), simp add: input_entry_def)
  have "backed env (cs_files s') r" if r: "r \<in> set (cs_rows s')" for r
    using upserted_rows [OF up(3) r]
  proof
    assume "r \<in> set (cs_rows s) \<and> cx_path r \<noteq> cn_path e"
    then show ?thesis unfolding up(4) using ok plain inp by (intro backed_other) (simp_all add: context_consistent_def)
  next
    assume c: "carries e r"
    have "one_line (cx_id r)"
    proof (cases "r \<in> set (cs_rows s)")
      case True
      with ok show ?thesis by (simp add: context_consistent_def backed_def)
    next
      case False
      have "cx_id r \<in> insert (cn_id e) (cx_id ` set (cs_rows s))" using up(3)
      proof (cases rule: upsert_row_cases)
        case (updated f)
        then have "map cx_id (cs_rows s') = map cx_id (cs_rows s)" by (simp add: map_update_where)
        then have "cx_id ` set (cs_rows s') = cx_id ` set (cs_rows s)" by (metis image_set)
        with r show ?thesis by blast
      qed (use r in \<open>auto simp: entry_row_def\<close>)
      then show ?thesis using id ok by (auto simp: context_consistent_def backed_def)
    qed
    then show ?thesis using c plain inp strip_content_text [OF one]
      by (auto simp: backed_def carries_def up(4) context_kind_codec.from_as)
  qed
  then show ?thesis using ok upserted_keys [OF up(3)] by (simp add: context_consistent_def)
qed

lemma consistent_remove:
  assumes ok: "context_consistent env s" and r: "find q (cs_rows s) = Some r"
    and p: "\<And>y. y \<in> set (cs_rows s) \<Longrightarrow> p y \<longleftrightarrow> cx_path y = cx_path r"
  shows "context_consistent env (snd (remove_entry env p (row_to_entry r) s))"
proof -
  let ?s = "s\<lparr>cs_rows := delete_where p (cs_rows s)\<rparr>"
  let ?p = "entry_path (cv_base env) (cn_kind (row_to_entry r)) (cx_path r)"
  have row: "backed env (cs_files s) y \<and> backed env ((cs_files s)(?p := None)) y" if "y \<in> set (cs_rows ?s)" for y
    using that ok p [of y] find_SomeD [OF r] backed_other [of env "cs_files s" y "cx_path r"]
    by (simp add: context_consistent_def backed_def)
  have dist: "distinct (map cx_id (cs_rows ?s)) \<and> distinct (map cx_path (cs_rows ?s))"
    using ok by (simp add: context_consistent_def delete_where_def distinct_map_filter)
  have path: "cn_path (row_to_entry r) = cx_path r" by (simp add: row_to_entry_def)
  show ?thesis using row dist
    by (simp add: remove_entry_def remove_content_def path context_consistent_def Let_def split: option.splits)
qed

lemma consistent_exec:
  assumes ok: "context_consistent env s" and plain: "plain_op a" and fs: "\<And>p. cv_fs env p = None"
  shows "context_consistent env (context_exec env a s)"
proof (cases a)
  case (Upsert_Op now uuid x)
  show ?thesis
  proof (cases "fst (context_upsert env now uuid x s)")
    case (Inl err)
    then have "snd (context_upsert env now uuid x s) = s"
      by (simp add: context_upsert_def save_content_def fs Let_def split: option.splits)
    with ok Upsert_Op show ?thesis by simp
  next
    case (Inr e)
    then show ?thesis using consistent_upsert [OF ok, of now uuid x e "snd (context_upsert env now uuid x s)"] plain Upsert_Op
      by (simp add: prod_eq_iff)
  qed
next
  case (Remove_Op id')
  have "cx_id y = id' \<longleftrightarrow> cx_path y = cx_path r"
    if "find (\<lambda>r. cx_id r = id') (cs_rows s) = Some r" "y \<in> set (cs_rows s)" for r y
    using find_SomeD [OF that(1)] that(2) ok distinct_key_unique [of cx_id "cs_rows s" y r] distinct_key_unique [of cx_path "cs_rows s" y r]
    by (auto simp: context_consistent_def)
  then show ?thesis using ok Remove_Op consistent_remove [OF ok, of "\<lambda>r. cx_id r = id'"]
    by (simp add: context_remove_def context_find_def split: option.splits)
next
  case (Remove_Path_Op path)
  have "context_consistent env (snd (remove_entry env (\<lambda>r. cx_path r = path) (row_to_entry r) s))"
    if "find (\<lambda>r. cx_path r = path) (cs_rows s) = Some r" for r
    using find_SomeD [OF that] by (intro consistent_remove [OF ok that]) simp
  then show ?thesis using ok Remove_Path_Op by (simp add: context_remove_by_path_def context_find_by_path_def split: option.splits)
qed

text \<open>C38: The table and the directory agree: after any upserts of plain relative paths with metadata of one line each and any
  removals, none of which the file system refuses, ids and paths are unique and the content read for each row is the text,
  less its leading line breaks, whose hash and word count the row has.\<close>
lemma context_rows_have_files:
  assumes "list_all plain_op ops" and "\<forall>p. cv_fs env p = None"
  shows "let s = fold (context_exec env) ops \<lparr>cs_rows = [], cs_files = files\<rparr>
    in distinct (map cx_id (cs_rows s)) \<and> distinct (map cx_path (cs_rows s)) \<and>
       (\<forall>r \<in> set (cs_rows s). \<exists>content. read_content env (cx_id r) s = Inr (dropWhile (\<lambda>c. c = CHR 0x0A) content) \<and>
          cx_content_hash r = cv_sha256 env content \<and> cx_word_count r = of_nat (count_words False content))"
proof -
  define s where "s = fold (context_exec env) ops \<lparr>cs_rows = [], cs_files = files\<rparr>"
  have "context_consistent env (fold (context_exec env) ops s0)" if "context_consistent env s0" for s0
    using assms(1) that by (induction ops arbitrary: s0) (use assms(2) in \<open>simp_all add: consistent_exec\<close>)
  then have ok: "context_consistent env s" by (simp add: s_def context_consistent_def)
  have "\<exists>content. read_content env (cx_id r) s = Inr (dropWhile (\<lambda>c. c = CHR 0x0A) content) \<and>
      cx_content_hash r = cv_sha256 env content \<and> cx_word_count r = of_nat (count_words False content)" if r: "r \<in> set (cs_rows s)" for r
  proof -
    have "find (\<lambda>x. cx_id x = cx_id r) (cs_rows s) = Some r" using ok r by (intro find_key_eq) (simp_all add: context_consistent_def)
    moreover have "backed env (cs_files s) r" using ok r by (simp add: context_consistent_def)
    ultimately show ?thesis
      by (auto simp: read_content_def context_find_def read_file_def backed_def row_to_entry_def)
  qed
  with ok show ?thesis unfolding s_def [symmetric] by (simp add: context_consistent_def Let_def)
qed

lemma context_rows_have_files_witness:
  "\<exists>s r content. cs_rows s = [r] \<and> read_content sample_cx_env (cx_id r) s = Inr (dropWhile (\<lambda>c. c = CHR 0x0A) content) \<and>
     cx_content_hash r = cv_sha256 sample_cx_env content"
proof -
  let ?ops = "[Upsert_Op ''1'' ''u'' (sample_cx_input ''a/b.md''), Remove_Op ''none'']"
  let ?s = "fold (context_exec sample_cx_env) ?ops \<lparr>cs_rows = [], cs_files = \<lambda>_. None\<rparr>"
  have plain: "list_all plain_op ?ops" by (simp add: plain_path_def plain_components_def one_line_def sample_cx_input_def)
  have rows: "length (cs_rows ?s) = 1"
    by (simp add: context_upsert_def upsert_context_row_def save_content_def context_remove_def context_find_def entry_row_def
        sample_cx_env_def input_entry_def Let_def)
  then obtain r where r: "cs_rows ?s = [r]" unfolding length_Suc_conv One_nat_def length_0_conv by blast
  have "\<forall>p. cv_fs sample_cx_env p = None" by (simp add: sample_cx_env_def)
  from context_rows_have_files [OF plain this, of "\<lambda>_. None"] r
  have "\<exists>content. read_content sample_cx_env (cx_id r) ?s = Inr (dropWhile (\<lambda>c. c = CHR 0x0A) content) \<and>
      cx_content_hash r = cv_sha256 sample_cx_env content"
    unfolding Let_def by auto
  with r show ?thesis by blast
qed

definition absolute_path :: "string list \<Rightarrow> string" where
  "absolute_path cs = CHR ''/'' # join ''/'' cs"

lemma split_char_join: "cs \<noteq> [] \<Longrightarrow> \<forall>c \<in> set cs. d \<notin> set c \<Longrightarrow> split_char d (join [d] cs) = cs"
proof (induction cs)
  case (Cons c cs)
  then show ?case by (cases cs) (simp_all add: split_char_word split_char_cons join_cons)
qed simp

lemma entry_path_absolute:
  assumes "target \<noteq> []" and "\<forall>c \<in> set target. CHR ''/'' \<notin> set c" and "plain_components target"
  shows "entry_path base k (absolute_path target) = target"
proof -
  have "split_char (CHR ''/'') (absolute_path target) = [] # target" using split_char_join [OF assms(1,2)]
    by (simp add: absolute_path_def)
  moreover have "walk [] ([] # target) = walk [] target" by (simp add: walk_def)
  ultimately show ?thesis using walk_plain [OF assms(3), of "[]"] by (simp add: entry_path_def join_path_def absolute_path_def)
qed

text \<open>The path of an entry is not confined to the base directory: the upsert route, given an absolute path that no row has yet,
  writes the file of that path, wherever it is, and the delete route given the path then removes the file.\<close>
lemma context_write_escapes:
  assumes "target \<noteq> []" and "\<forall>c \<in> set target. CHR ''/'' \<notin> set c" and "plain_components target"
    and "\<forall>p. cv_fs env p = None" and "body_kind body = Some k" and "cb_path body = absolute_path target"
    and "\<forall>r \<in> set (cs_rows s). cx_path r \<noteq> cb_path body \<and> cx_id r \<noteq> ''ctx-'' @ uuid \<and> cx_id r \<noteq> cb_path body"
  shows "\<exists>e s' s''. context_upsert_route env now uuid body (Some s) = ((201, Some e), Some s') \<and>
    cs_files s' target = Some (content_text e (cb_content body)) \<and>
    context_delete_route env (cb_path body) (Some s') = ((204, None), Some s'') \<and> cs_files s'' target = None"
proof -
  let ?x = "\<lparr>ci_kind = k, ci_path = cb_path body, ci_title = cb_title body, ci_content = cb_content body,
    ci_source = body_source body, ci_tags = cb_tags body\<rparr>"
  let ?e = "input_entry env now (''ctx-'' @ uuid) ?x"
  let ?s = "s\<lparr>cs_rows := cs_rows s @ [entry_row ?e], cs_files := (cs_files s)(target \<mapsto> content_text ?e (cb_content body))\<rparr>"
  have at: "entry_path base k' (cb_path body) = target" for base k' using entry_path_absolute [OF assms(1-3)] assms(6) by simp
  have none: "find (\<lambda>r. cx_path r = cb_path body) (cs_rows s) = None" "find (\<lambda>r. cx_id r = cb_path body) (cs_rows s) = None"
    using assms(7) by (auto simp: find_None_iff)
  have "\<not> list_ex (\<lambda>r. cx_path r = cb_path body) (cs_rows s)" "\<not> list_ex (\<lambda>r. cx_id r = ''ctx-'' @ uuid) (cs_rows s)"
    using assms(7) by (auto simp: list_ex_iff)
  then have up: "context_upsert env now uuid ?x s = (Inr ?e, ?s)"
    using assms(4) none by (simp add: context_upsert_def upsert_context_row_def save_content_def entry_row_def input_entry_def at Let_def)
  have ne: "cb_path body \<noteq> ''ctx-'' @ uuid" by (simp add: assms(6) absolute_path_def)
  have "context_find (cb_path body) ?s = Inl (Cx_NotFound (cb_path body))"
    using none ne by (simp add: context_find_def find_append entry_row_def input_entry_def)
  moreover have "\<exists>e. context_find_by_path (cb_path body) ?s = Inr e \<and> cn_path e = cb_path body"
    using none by (simp add: context_find_by_path_def find_append entry_row_def input_entry_def row_to_entry_def)
  ultimately have "\<exists>s''. context_delete_route env (cb_path body) (Some ?s) = ((204, None), Some s'') \<and> cs_files s'' target = None"
    using assms(4) by (auto simp: context_delete_route_def with_context_def context_remove_def context_remove_by_path_def remove_entry_def
        remove_content_def at Let_def)
  moreover have "context_upsert_route env now uuid body (Some s) = ((201, Some ?e), Some ?s)"
    by (simp add: context_upsert_route_def with_context_def assms(5) up)
  moreover have "cs_files ?s target = Some (content_text ?e (cb_content body))" by simp
  ultimately show ?thesis by blast
qed

definition sample_cx_body :: context_body where
  "sample_cx_body = \<lparr>cb_path = ''/home/.profile'', cb_title = ''T'', cb_content = ''c'', cb_kind = None, cb_tags = [],
     cb_source_type = None, cb_source_ref = None\<rparr>"

lemma context_write_escapes_witness:
  "\<exists>e s' s''. context_upsert_route sample_cx_env ''1'' ''u'' sample_cx_body (Some no_context) = ((201, Some e), Some s') \<and>
    cs_files s' [''home'', ''.profile''] = Some (content_text e ''c'') \<and>
    context_delete_route sample_cx_env ''/home/.profile'' (Some s') = ((204, None), Some s'') \<and> cs_files s'' [''home'', ''.profile''] = None"
  using context_write_escapes [of "[''home'', ''.profile'']" sample_cx_env sample_cx_body Document_Kind no_context "''u''" "''1''"]
  by (simp add: plain_components_def sample_cx_env_def sample_cx_body_def absolute_path_def body_kind_def default_context_kind_def
      context_kind_from_str_def no_context_def)

text \<open>An upsert that changes the kind of a path leaves the old file, and removing the entry does not remove it.\<close>
lemma kind_change_orphans:
  "let up = (\<lambda>k s. snd (context_upsert sample_cx_env ''1'' ''u'' ((sample_cx_input ''a.md'')\<lparr>ci_kind := k\<rparr>) s));
       s = snd (context_remove_by_path sample_cx_env ''a.md'' (up Config_Kind (up Document_Kind no_context)))
   in cs_rows s = [] \<and> cs_files s [''data'', ''context'', ''document'', ''a.md''] \<noteq> None"
  by (simp add: context_upsert_def upsert_context_row_def save_content_def context_remove_by_path_def context_find_by_path_def
      remove_entry_def remove_content_def delete_where_def entry_row_def row_to_entry_def context_kind_from_str_def
      sample_cx_env_def sample_cx_input_def no_context_def input_entry_def entry_path_def join_path_def walk_def Let_def)

text \<open>A title with a line break and three dashes ends the front matter early, and the rest of it is read as content.\<close>
lemma title_ends_frontmatter:
  "context_strip (content_text (input_entry sample_cx_env ''1'' ''i''
      ((sample_cx_input ''a.md'')\<lparr>ci_title := ''T'' @ [CHR 0x0A] @ ''---'', ci_tags := []\<rparr>)) ''c'') \<noteq> ''c''"
  by (simp add: content_text_def context_frontmatter_def context_strip_def input_entry_def sample_cx_input_def Let_def)

end
