(* ===== verification/Store_Registry.thy ===== *)
theory Store_Registry
  imports Context_Store
begin

text \<open>
  The registries of the store: personas and review rules (sqlite\_store.rs, their routes of receiver.rs, the vault import of
  persona\_markdown.rs and of the command line) and the context entries that SqliteStore keeps besides the context manager's.
  Lower casing, the debug format of a list of labels, the clock and the UUIDs are arguments.
\<close>

section \<open>Personas and review rules\<close>

definition persona_row_of :: "timestamp \<Rightarrow> persona_definition \<Rightarrow> persona_row" where
  "persona_row_of now p = persona_definition.extend p \<lparr>pw_created_at = now, pw_updated_at = now\<rparr>"

text \<open>The UPDATE keeps the id and the creation time.\<close>
definition overwrite_persona :: "timestamp \<Rightarrow> persona_definition \<Rightarrow> persona_row \<Rightarrow> persona_row" where
  "overwrite_persona now p r = persona_definition.extend p \<lparr>pw_created_at = pw_created_at r, pw_updated_at = now\<rparr>"

definition upsert_persona :: "timestamp \<Rightarrow> persona_definition \<Rightarrow> (store, bool) db" where
  "upsert_persona now persona =
     bind (sql_select (\<lambda>s. list_ex (\<lambda>r. pd_id r = pd_id persona) (t_personas s))) (\<lambda>exists.
       if exists
       then bind (sql_update t_personas t_personas_update (\<lambda>r. pd_id r = pd_id persona) (overwrite_persona now persona))
              (\<lambda>_. ret False)
       else bind (sql_insert t_personas t_personas_update (\<lambda>a b. pd_id a = pd_id b) [] (persona_row_of now persona))
              (\<lambda>_. ret True))"

definition get_persona :: "string \<Rightarrow> (store, persona_definition option) db" where
  "get_persona pid =
     sql_select (\<lambda>s. map_option persona_definition.truncate (find (\<lambda>r. pd_id r = pid) (t_personas s)))"

definition list_personas :: "(store, persona_definition list) db" where
  "list_personas = sql_select (\<lambda>s. map persona_definition.truncate (order_asc pd_name (t_personas s)))"

definition delete_persona :: "string \<Rightarrow> (store, bool) db" where
  "delete_persona pid =
     bind (sql_delete t_personas t_personas_update (\<lambda>r. pd_id r = pid)) (\<lambda>affected. ret (0 < affected))"

definition rule_row_of :: "timestamp \<Rightarrow> persona_review_rule \<Rightarrow> review_rule_row" where
  "rule_row_of now rule = persona_review_rule.extend rule \<lparr>pv_created_at = now\<rparr>"

text \<open>The UPDATE by id sets created\_at too, and fails when another rule has the type: pr\_type is UNIQUE.\<close>
definition update_review_rule :: "timestamp \<Rightarrow> persona_review_rule \<Rightarrow> (store, unit) db" where
  "update_review_rule now rule =
     (\<lambda>s. if list_ex (\<lambda>r. pv_id r \<noteq> pv_id rule \<and> pv_pr_type r = pv_pr_type rule) (t_rules s)
          then (Inl (StorageSql [] UniqueViolation), s)
          else (Inr (), t_rules_update (\<lambda>_. update_where (\<lambda>r. pv_id r = pv_id rule) (\<lambda>_. rule_row_of now rule) (t_rules s)) s))"

definition upsert_review_rule :: "timestamp \<Rightarrow> persona_review_rule \<Rightarrow> (store, bool) db" where
  "upsert_review_rule now rule =
     bind (sql_select (\<lambda>s. list_ex (\<lambda>r. pv_id r = pv_id rule) (t_rules s))) (\<lambda>exists.
       if exists then bind (update_review_rule now rule) (\<lambda>_. ret False)
       else bind (sql_insert t_rules t_rules_update (\<lambda>a b. pv_id a = pv_id b \<or> pv_pr_type a = pv_pr_type b) []
              (rule_row_of now rule)) (\<lambda>_. ret True))"

definition list_review_rules :: "(store, persona_review_rule list) db" where
  "list_review_rules = sql_select (\<lambda>s. map persona_review_rule.truncate (order_asc pv_pr_type (t_rules s)))"

definition get_review_rule_by_type :: "string \<Rightarrow> (store, persona_review_rule option) db" where
  "get_review_rule_by_type pr_type =
     sql_select (\<lambda>s. map_option persona_review_rule.truncate (find (\<lambda>r. pv_pr_type r = pr_type) (t_rules s)))"

section \<open>The routes\<close>

text \<open>Status code and body.\<close>
definition persona_get_route :: "string \<Rightarrow> store \<Rightarrow> (nat \<times> persona_definition option) \<times> store" where
  "persona_get_route pid s =
     (case get_persona pid s of
        (Inl _, s') \<Rightarrow> ((500, None), s') | (Inr None, s') \<Rightarrow> ((404, None), s') | (Inr (Some p), s') \<Rightarrow> ((200, Some p), s'))"

definition persona_list_route :: "store \<Rightarrow> (nat \<times> persona_definition list option) \<times> store" where
  "persona_list_route s =
     (case list_personas s of (Inl _, s') \<Rightarrow> ((500, None), s') | (Inr ps, s') \<Rightarrow> ((200, Some ps), s'))"

definition persona_upsert_route :: "timestamp \<Rightarrow> persona_definition \<Rightarrow> store \<Rightarrow> (nat \<times> persona_definition option) \<times> store" where
  "persona_upsert_route now persona s =
     (case upsert_persona now persona s of
        (Inl _, s') \<Rightarrow> ((500, None), s')
      | (Inr True, s') \<Rightarrow> ((201, Some persona), s')
      | (Inr False, s') \<Rightarrow> ((200, Some persona), s'))"

definition persona_delete_route :: "string \<Rightarrow> store \<Rightarrow> nat \<times> store" where
  "persona_delete_route pid s =
     (case delete_persona pid s of (Inl _, s') \<Rightarrow> (500, s') | (Inr True, s') \<Rightarrow> (204, s') | (Inr False, s') \<Rightarrow> (404, s'))"

record review_rule_body =
  rb_id :: "string option"
  rb_pr_type :: string
  rb_persona_ids :: "string list"

definition body_rule :: "string \<Rightarrow> review_rule_body \<Rightarrow> persona_review_rule" where
  "body_rule uuid b = \<lparr>pv_id = (case rb_id b of Some i \<Rightarrow> i | None \<Rightarrow> uuid), pv_pr_type = rb_pr_type b, pv_persona_ids = rb_persona_ids b\<rparr>"

definition review_rules_list_route :: "store \<Rightarrow> (nat \<times> persona_review_rule list option) \<times> store" where
  "review_rules_list_route s =
     (case list_review_rules s of (Inl _, s') \<Rightarrow> ((500, None), s') | (Inr rs, s') \<Rightarrow> ((200, Some rs), s'))"

definition review_rules_upsert_route ::
  "timestamp \<Rightarrow> string \<Rightarrow> review_rule_body \<Rightarrow> store \<Rightarrow> (nat \<times> persona_review_rule option) \<times> store" where
  "review_rules_upsert_route now uuid body s =
     (case upsert_review_rule now (body_rule uuid body) s of
        (Inl _, s') \<Rightarrow> ((500, None), s') | (Inr _, s') \<Rightarrow> ((201, Some (body_rule uuid body)), s'))"

text \<open>Upserts one after the other, with how many rows were created and updated; the first error ends them.\<close>
fun count_upserts :: "('x \<Rightarrow> (store, bool) db) \<Rightarrow> 'x list \<Rightarrow> (store, nat \<times> nat) db" where
  "count_upserts f [] = ret (0, 0)"
| "count_upserts f (x # xs) =
     bind (f x) (\<lambda>new. bind (count_upserts f xs) (\<lambda>(created, updated).
       ret (if new then (Suc created, updated) else (created, Suc updated))))"

text \<open>Each rule comes with the UUID drawn for it if it has no id.\<close>
definition persona_seed ::
  "timestamp \<Rightarrow> persona_definition list \<Rightarrow> (review_rule_body \<times> string) list \<Rightarrow> store \<Rightarrow> (nat \<times> (nat \<times> nat) option) \<times> store" where
  "persona_seed now personas rules s =
     (case bind (count_upserts (upsert_persona now) personas) (\<lambda>counts.
             bind (count_upserts (\<lambda>(r, uuid). upsert_review_rule now (body_rule uuid r)) rules) (\<lambda>_. ret counts)) s of
        (Inl _, s') \<Rightarrow> ((500, None), s') | (Inr counts, s') \<Rightarrow> ((200, Some counts), s'))"

section \<open>Teams\<close>

record team_recommendation =
  tr_personas :: "persona_definition list"
  tr_rationale :: string

fun found_personas :: "string list \<Rightarrow> store \<Rightarrow> persona_definition list" where
  "found_personas [] s = []"
| "found_personas (pid # pids) s =
     (case fst (get_persona pid s) of Inr (Some p) \<Rightarrow> p # found_personas pids s | _ \<Rightarrow> found_personas pids s)"

definition persona_text :: "persona_definition \<Rightarrow> string" where
  "persona_text p = pd_owns p @ '' '' @ pd_focus p @ '' '' @ pd_id p"

definition label_match :: "(string \<Rightarrow> string) \<Rightarrow> string list \<Rightarrow> persona_definition \<Rightarrow> bool" where
  "label_match lower labels p \<longleftrightarrow> list_ex (\<lambda>l. contains (lower l) (lower (persona_text p))) labels"

definition with_engineer :: "persona_definition list \<Rightarrow> persona_definition list \<Rightarrow> persona_definition list" where
  "with_engineer all_personas matched =
     (if list_ex (\<lambda>p. pd_id p = ''engineer'') matched then matched
      else case find (\<lambda>p. pd_id p = ''engineer'') all_personas of None \<Rightarrow> matched | Some eng \<Rightarrow> eng # matched)"

definition team_recommend ::
  "(string \<Rightarrow> string) \<Rightarrow> (string list \<Rightarrow> string) \<Rightarrow> string list \<Rightarrow> string option \<Rightarrow> store \<Rightarrow>
    (nat \<times> team_recommendation option) \<times> store" where
  "team_recommend lower debug labels pr_type s =
     (let by_labels =
            (case list_personas s of
               (Inl _, s') \<Rightarrow> ((500, None), s')
             | (Inr all_personas, s') \<Rightarrow>
                 (let matched = with_engineer all_personas (filter (label_match lower labels) all_personas);
                      rationale = (if matched = [] then ''No personas matched the given labels''
                        else ''Matched by labels '' @ debug labels @ '': '' @ join '', '' (map pd_name matched))
                  in ((200, Some \<lparr>tr_personas = matched, tr_rationale = rationale\<rparr>), s')))
      in case pr_type of
           None \<Rightarrow> by_labels
         | Some ty \<Rightarrow>
             (case fst (get_review_rule_by_type ty s) of
                Inr (Some rule) \<Rightarrow>
                  ((200, Some \<lparr>tr_personas = found_personas (pv_persona_ids rule) s,
                     tr_rationale = ''Matched review rule '' @ [CHR 0x27] @ ty @ [CHR 0x27]\<rparr>), s)
              | _ \<Rightarrow> by_labels))"

record rendered_persona_prompt =
  rp_persona_id :: string
  rp_name :: string
  rp_prompt :: string

definition render_prompt :: "string \<Rightarrow> persona_definition \<Rightarrow> rendered_persona_prompt" where
  "render_prompt context_str p =
     \<lparr>rp_persona_id = pd_id p, rp_name = pd_name p,
      rp_prompt = pd_prompt_prefix p @
        (if context_str = [] then [] else [CHR 0x0A, CHR 0x0A] @ ''## Task Context'' @ [CHR 0x0A] @ context_str) @
        (if pd_key_specs p = [] then []
         else [CHR 0x0A, CHR 0x0A] @ ''## Key Specs to Reference'' @ [CHR 0x0A] @
              concat (map (\<lambda>spec. ''- '' @ spec @ [CHR 0x0A]) (pd_key_specs p))) @
        (if pd_review_focus p = [] then []
         else CHR 0x0A # ''## Your Review Focus'' @ [CHR 0x0A] @ pd_review_focus p @ [CHR 0x0A])\<rparr>"

text \<open>The context is given as the text it is printed as, empty without a context. The first unknown persona ends the request.\<close>
fun team_render :: "string list \<Rightarrow> string \<Rightarrow> store \<Rightarrow> nat \<times> rendered_persona_prompt list" where
  "team_render [] context_str s = (200, [])"
| "team_render (pid # pids) context_str s =
     (case fst (get_persona pid s) of
        Inl _ \<Rightarrow> (500, [])
      | Inr None \<Rightarrow> (404, [])
      | Inr (Some p) \<Rightarrow>
          (case team_render pids context_str s of
             (code, agents) \<Rightarrow> if code = 200 then (200, render_prompt context_str p # agents) else (code, [])))"

section \<open>Import from the vault\<close>

type_synonym frontmatter = "string \<Rightarrow> json option"

definition optional_string :: "frontmatter \<Rightarrow> string \<Rightarrow> string option" where
  "optional_string fm key =
     (case Option.bind (fm key) json_as_str of None \<Rightarrow> None | Some s \<Rightarrow> if trim s = [] then None else Some (trim s))"

definition require_string :: "frontmatter \<Rightarrow> string \<Rightarrow> md_error + string" where
  "require_string fm key =
     (case optional_string fm key of
        None \<Rightarrow> Inl (Md_Invalid (''persona frontmatter missing required field '' @ [CHR 0x27] @ key @ [CHR 0x27]))
      | Some s \<Rightarrow> Inr s)"

definition optional_string_array :: "frontmatter \<Rightarrow> string \<Rightarrow> string list" where
  "optional_string_array fm key =
     (case Option.bind (fm key) json_as_array of
        None \<Rightarrow> [] | Some arr \<Rightarrow> filter (\<lambda>s. s \<noteq> []) (map trim (List.map_filter json_as_str arr)))"

definition and_then :: "'e + 'a \<Rightarrow> ('a \<Rightarrow> 'e + 'b) \<Rightarrow> 'e + 'b" where
  "and_then r f = (case r of Inl e \<Rightarrow> Inl e | Inr x \<Rightarrow> f x)"

definition parse_persona_markdown :: "string \<Rightarrow> md_error + persona_definition" where
  "parse_persona_markdown content =
     and_then (split_frontmatter content) (\<lambda>(fm_str, body).
     if fm_str = [] then Inl (Md_Invalid ''persona markdown missing YAML frontmatter'')
     else let fm = parse_yaml_frontmatter fm_str in
     and_then (require_string fm ''id'') (\<lambda>pid.
     and_then (require_string fm ''name'') (\<lambda>name.
     and_then (require_string fm ''focus'') (\<lambda>focus.
     and_then (require_string fm ''owns'') (\<lambda>owns.
     and_then (require_string fm ''review_focus'') (\<lambda>review_focus.
     and_then (require_string fm ''pushes_back'') (\<lambda>pushes_back.
       let prompt_prefix = (case optional_string fm ''prompt_prefix'' of Some p \<Rightarrow> p | None \<Rightarrow> trim body)
       in if prompt_prefix = []
          then Inl (Md_Invalid (''persona '' @ [CHR 0x27] @ pid @ [CHR 0x27] @ '' has no prompt_prefix (frontmatter or body)''))
          else Inr \<lparr>pd_id = pid, pd_name = name, pd_focus = focus, pd_prompt_prefix = prompt_prefix, pd_owns = owns,
                 pd_review_focus = review_focus, pd_pushes_back = pushes_back, pd_tools = optional_string_array fm ''tools'',
                 pd_key_specs = optional_string_array fm ''key_specs'', pd_source_hash = None\<rparr>)))))))"

definition parse_review_rule_markdown :: "string \<Rightarrow> md_error + persona_review_rule" where
  "parse_review_rule_markdown content =
     and_then (split_frontmatter content) (\<lambda>(fm_str, _).
     if fm_str = [] then Inl (Md_Invalid ''review-rule markdown missing YAML frontmatter'')
     else let fm = parse_yaml_frontmatter fm_str in
     and_then (require_string fm ''pr_type'') (\<lambda>pr_type.
       let persona_ids = optional_string_array fm ''persona_ids''
       in if persona_ids = []
          then Inl (Md_Invalid (''review rule '' @ [CHR 0x27] @ pr_type @ [CHR 0x27] @ '' has empty persona_ids''))
          else Inr \<lparr>pv_id = ''rule:'' @ pr_type, pv_pr_type = pr_type, pv_persona_ids = persona_ids\<rparr>))"

definition is_hidden :: "string \<Rightarrow> bool" where
  "is_hidden name \<longleftrightarrow> prefix ''_'' name \<or> prefix ''.'' name"

text \<open>A directory entry: a name with the contents of the file or the error of reading it, or None for what is no file.\<close>
type_synonym dir_entry = "string \<times> (string + string) option"

fun md_error_text :: "md_error \<Rightarrow> string" where
  "md_error_text (Md_Storage e) = ''storage error: '' @ e"
| "md_error_text (Md_Invalid e) = ''invalid input: '' @ e"

fun import_files :: "(string \<Rightarrow> md_error + 'a) \<Rightarrow> string \<Rightarrow> dir_entry list \<Rightarrow> md_error + 'a list" where
  "import_files parse dir [] = Inr []"
| "import_files parse dir ((name, file) # entries) =
     (case file of
        None \<Rightarrow> import_files parse dir entries
      | Some content \<Rightarrow>
          if file_extension name = Some ''md'' \<and> \<not> is_hidden name
          then (case content of
                  Inl e \<Rightarrow> Inl (Md_Invalid e)
                | Inr c \<Rightarrow> (case parse c of
                      Inl e \<Rightarrow> Inl (Md_Invalid (dir @ ''/'' @ name @ '': '' @ md_error_text e))
                    | Inr x \<Rightarrow> and_then (import_files parse dir entries) (\<lambda>xs. Inr (x # xs))))
          else import_files parse dir entries)"

record persona_import =
  pm_personas :: "persona_definition list"
  pm_review_rules :: "persona_review_rule list"

text \<open>The listing of the directory and of its rules subdirectory, None where there is no such directory.\<close>
definition import_persona_dir :: "string \<Rightarrow> dir_entry list option \<Rightarrow> dir_entry list option \<Rightarrow> md_error + persona_import" where
  "import_persona_dir name dir rules_dir =
     (case dir of
        None \<Rightarrow> Inl (Md_Invalid (''persona dir not found: '' @ name))
      | Some entries \<Rightarrow>
          and_then (import_files parse_persona_markdown name entries) (\<lambda>personas.
          and_then (import_files parse_review_rule_markdown (name @ ''/rules'') (case rules_dir of None \<Rightarrow> [] | Some rs \<Rightarrow> rs)) (\<lambda>rules.
            Inr \<lparr>pm_personas = personas, pm_review_rules = rules\<rparr>)))"

text \<open>The command-line import: the counts of created and updated personas and rules.\<close>
definition import_into_store :: "timestamp \<Rightarrow> persona_import \<Rightarrow> (store, (nat \<times> nat) \<times> nat \<times> nat) db" where
  "import_into_store now imported =
     bind (count_upserts (upsert_persona now) (pm_personas imported)) (\<lambda>personas.
     bind (count_upserts (upsert_review_rule now) (pm_review_rules imported)) (\<lambda>rules. ret (personas, rules)))"

section \<open>Context entries of the store\<close>

definition overwrite_context :: "context_row \<Rightarrow> context_row \<Rightarrow> context_row" where
  "overwrite_context r x = x\<lparr>cx_title := cx_title r, cx_kind := cx_kind r, cx_source_type := cx_source_type r,
     cx_source_ref := cx_source_ref r, cx_word_count := cx_word_count r, cx_content_hash := cx_content_hash r,
     cx_tags := cx_tags r, cx_updated_at := cx_updated_at r, cx_synced := False\<rparr>"

text \<open>The arguments are the columns of a row.\<close>
definition upsert_context_entry :: "context_row \<Rightarrow> (store, bool) db" where
  "upsert_context_entry r =
     bind (sql_select (\<lambda>s. find (\<lambda>x. cx_path x = cx_path r) (t_contexts s))) (\<lambda>existing.
       if existing \<noteq> None
       then bind (sql_update t_contexts t_contexts_update (\<lambda>x. cx_path x = cx_path r) (overwrite_context r)) (\<lambda>_. ret False)
       else bind (sql_insert t_contexts t_contexts_update (\<lambda>a b. cx_id a = cx_id b \<or> cx_path a = cx_path b) []
              (r\<lparr>cx_synced := False\<rparr>)) (\<lambda>_. ret True))"

definition get_context_entry :: "string \<Rightarrow> (store, context_entry option) db" where
  "get_context_entry id' = sql_select (\<lambda>s. map_option row_to_entry (find (\<lambda>r. cx_id r = id') (t_contexts s)))"

definition list_context_entries :: "(string \<Rightarrow> string \<Rightarrow> bool) \<Rightarrow> context_filter \<Rightarrow> (store, context_entry list) db" where
  "list_context_entries like flt =
     bind (sql_select (\<lambda>s. map row_to_entry (opt_limit (cf_limit flt)
            (order_desc cx_updated_at (filter (context_matches like flt) (t_contexts s))))))
     (\<lambda>entries. ret (case cf_tag flt of None \<Rightarrow> entries | Some tag \<Rightarrow> filter (\<lambda>e. tag \<in> set (cn_tags e)) entries))"

definition remove_context_entry :: "string \<Rightarrow> (store, bool) db" where
  "remove_context_entry id' =
     bind (sql_delete t_contexts t_contexts_update (\<lambda>r. cx_id r = id')) (\<lambda>affected. ret (0 < affected))"

record context_stats_json =
  cj_total_entries :: nat
  cj_total_words :: int
  cj_by_kind :: "(string \<times> nat) list"
  cj_by_source :: "(string \<times> nat) list"

definition get_context_stats :: "(store, context_stats_json) db" where
  "get_context_stats =
     sql_select (\<lambda>s. let rows = t_contexts s in
       \<lparr>cj_total_entries = length rows, cj_total_words = sum_list (map (\<lambda>r. sint (cx_word_count r)) rows),
        cj_by_kind = map (map_prod id length) (order_asc fst (group_by cx_kind rows)),
        cj_by_source = map (map_prod id length) (order_asc fst (group_by cx_source_type rows))\<rparr>)"

section \<open>Keys\<close>

text \<open>PRIMARY KEY (id) of both tables, UNIQUE (pr\_type).\<close>
definition registry_wf :: "store \<Rightarrow> bool" where
  "registry_wf s \<longleftrightarrow> distinct (map pd_id (t_personas s)) \<and> distinct (map pv_id (t_rules s)) \<and> distinct (map pv_pr_type (t_rules s))"

lemma row_of_sel [simp]:
  "pd_id (persona_row_of now p) = pd_id p" "pd_id (overwrite_persona now p r) = pd_id p"
  "pv_id (rule_row_of now q) = pv_id q" "pv_pr_type (rule_row_of now q) = pv_pr_type q"
  "persona_definition.truncate (persona_row_of now p) = p" "persona_definition.truncate (overwrite_persona now p r) = p"
  "persona_review_rule.truncate (rule_row_of now q) = q"
  by (simp_all add: persona_row_of_def overwrite_persona_def rule_row_of_def persona_definition.defs persona_review_rule.defs)

lemma upsert_persona_apply:
  "upsert_persona now p s =
    (if pd_id p \<in> pd_id ` set (t_personas s)
     then (Inr False, t_personas_update (\<lambda>_. update_where (\<lambda>r. pd_id r = pd_id p) (overwrite_persona now p) (t_personas s)) s)
     else (Inr True, t_personas_update (\<lambda>_. t_personas s @ [persona_row_of now p]) s))"
  by (auto simp: upsert_persona_def bind_def sql_insert_def list_ex_iff)

lemma upsert_rule_apply:
  "upsert_review_rule now q s =
    (if \<exists>r \<in> set (t_rules s). pv_id r \<noteq> pv_id q \<and> pv_pr_type r = pv_pr_type q
     then (Inl (StorageSql [] UniqueViolation), s)
     else if pv_id q \<in> pv_id ` set (t_rules s)
     then (Inr False, t_rules_update (\<lambda>_. update_where (\<lambda>r. pv_id r = pv_id q) (\<lambda>_. rule_row_of now q) (t_rules s)) s)
     else (Inr True, t_rules_update (\<lambda>_. t_rules s @ [rule_row_of now q]) s))"
proof (cases "pv_id q \<in> pv_id ` set (t_rules s)")
  case True
  then have "list_ex (\<lambda>r. pv_id r = pv_id q) (t_rules s)" by (auto simp: list_ex_iff)
  with True show ?thesis
    by (simp add: upsert_review_rule_def update_review_rule_def bind_def list_ex_iff [of "\<lambda>r. pv_id r \<noteq> pv_id q \<and> _ r"])
next
  case False
  then have "\<not> list_ex (\<lambda>r. pv_id r = pv_id q) (t_rules s)"
    and "list_ex (\<lambda>b. pv_id q = pv_id b \<or> pv_pr_type q = pv_pr_type b) (t_rules s) \<longleftrightarrow>
      (\<exists>r \<in> set (t_rules s). pv_id r \<noteq> pv_id q \<and> pv_pr_type r = pv_pr_type q)"
    by (auto simp: list_ex_iff image_iff) (metis)+
  with False show ?thesis by (simp add: upsert_review_rule_def bind_def sql_insert_def)
qed

text \<open>Replacing the row with a primary key by one whose second key no other row has.\<close>
lemma distinct_after_replace:
  assumes "distinct (map j rows)" and "distinct (map k rows)" and "\<forall>r \<in> set rows. j r \<noteq> j q \<longrightarrow> k r \<noteq> k q"
  shows "distinct (map k (update_where (\<lambda>r. j r = j q) (\<lambda>_. q) rows))"
  using assms
proof (induction rows)
  case (Cons r rows)
  show ?case
  proof (cases "j r = j q")
    case True
    then have "\<forall>r' \<in> set rows. j r' \<noteq> j q" using Cons.prems(1) by (auto simp: image_iff)
    then have "update_where (\<lambda>r. j r = j q) (\<lambda>_. q) rows = rows" "k q \<notin> k ` set rows"
      using Cons.prems(3) by (auto intro: update_where_none)
    with True Cons.prems(2) show ?thesis by simp
  next
    case False
    then have "k r \<notin> k ` set (update_where (\<lambda>r. j r = j q) (\<lambda>_. q) rows)"
      using Cons.prems(2,3) by (auto simp: set_update_where split: if_splits)
    with False Cons show ?thesis by simp
  qed
qed simp

inductive registry_step :: "store \<Rightarrow> store \<Rightarrow> bool" where
  persona: "upsert_persona now p s = (r, s') \<Longrightarrow> registry_step s s'"
| removal: "delete_persona pid s = (r', s') \<Longrightarrow> registry_step s s'"
| rule: "upsert_review_rule now q s = (r'', s') \<Longrightarrow> registry_step s s'"

lemma registry_step_wf: "registry_step s s' \<Longrightarrow> registry_wf s \<Longrightarrow> registry_wf s'"
proof (induction rule: registry_step.induct)
  case (persona now p s r s')
  then show ?case by (auto simp: upsert_persona_apply registry_wf_def map_update_where split: if_splits)
next
  case (removal pid s r' s')
  then show ?case by (auto simp: delete_persona_def registry_wf_def delete_where_def distinct_map_filter)
next
  case (rule now q s r'' s')
  let ?rows = "update_where (\<lambda>r. pv_id r = pv_id q) (\<lambda>_. rule_row_of now q) (t_rules s)"
  have ids: "map pv_id ?rows = map pv_id (t_rules s)" by (rule map_update_where) simp
  have "registry_wf (snd (upsert_review_rule now q s))"
  proof (cases "\<exists>r \<in> set (t_rules s). pv_id r \<noteq> pv_id q \<and> pv_pr_type r = pv_pr_type q")
    case True
    with rule(2) show ?thesis by (simp add: upsert_rule_apply)
  next
    case free: False
    show ?thesis
    proof (cases "pv_id q \<in> pv_id ` set (t_rules s)")
      case True
      have "distinct (map pv_pr_type ?rows)"
        using distinct_after_replace [of pv_id "t_rules s" pv_pr_type "rule_row_of now q"] rule(2) free by (auto simp: registry_wf_def)
      with rule(2) free True ids show ?thesis unfolding upsert_rule_apply by (simp add: registry_wf_def)
    next
      case False
      with free have "pv_pr_type q \<notin> pv_pr_type ` set (t_rules s)" by force
      with rule(2) free False show ?thesis unfolding upsert_rule_apply by (simp add: registry_wf_def)
    qed
  qed
  with rule(1) show ?case by simp
qed

section \<open>Importing twice\<close>

text \<open>What an import relies on: an upsert leaves what it wrote in the table and keeps the rows of other keys, and writing what
  the table has changes nothing of it.\<close>
locale upsert_table =
  fixes upsert :: "timestamp \<Rightarrow> 'x \<Rightarrow> (store, bool) db"
    and view :: "store \<Rightarrow> 'x list"
    and key :: "'x \<Rightarrow> string"
    and inv :: "store \<Rightarrow> bool"
  assumes written: "upsert now x s = (Inr new, s') \<Longrightarrow> x \<in> set (view s')"
    and kept: "upsert now x s = (Inr new, s') \<Longrightarrow> d \<in> set (view s) \<Longrightarrow> key d \<noteq> key x \<Longrightarrow> d \<in> set (view s')"
    and again: "inv s \<Longrightarrow> x \<in> set (view s) \<Longrightarrow> \<exists>s'. upsert now x s = (Inr False, s') \<and> view s' = view s"
    and inv_step: "inv s \<Longrightarrow> inv (snd (upsert now x s))"
begin

lemma run_inv: "inv s \<Longrightarrow> inv (snd (count_upserts (upsert now) xs s))"
proof (induction xs arbitrary: s)
  case (Cons x xs)
  have "inv (snd (upsert now x s))" using inv_step Cons.prems .
  from Cons.IH [OF this] this show ?case by (auto simp: bind_def split: prod.splits sum.splits)
qed simp

lemma run_written:
  "count_upserts (upsert now) xs s = (Inr c, s') \<Longrightarrow> distinct (map key xs) \<Longrightarrow>
    set xs \<subseteq> set (view s') \<and> (\<forall>d \<in> set (view s). key d \<notin> key ` set xs \<longrightarrow> d \<in> set (view s'))"
proof (induction xs arbitrary: s c)
  case (Cons x xs)
  from Cons.prems(1) obtain new s1 c' where up: "upsert now x s = (Inr new, s1)" "count_upserts (upsert now) xs s1 = (Inr c', s')"
    by (auto dest!: bind_InrD)
  have IH: "set xs \<subseteq> set (view s') \<and> (\<forall>d \<in> set (view s1). key d \<notin> key ` set xs \<longrightarrow> d \<in> set (view s'))"
    using Cons.IH [OF up(2)] Cons.prems(2) by simp
  moreover have "key x \<notin> key ` set xs" using Cons.prems(2) by simp
  ultimately show ?case using written [OF up(1)] kept [OF up(1)] by auto
qed simp

lemma run_again:
  "inv s \<Longrightarrow> set xs \<subseteq> set (view s) \<Longrightarrow> \<exists>s'. count_upserts (upsert now) xs s = (Inr (0, length xs), s') \<and> view s' = view s"
proof (induction xs arbitrary: s)
  case (Cons x xs)
  then obtain s1 where up: "upsert now x s = (Inr False, s1)" "view s1 = view s" using again [of s x now] by auto
  have "inv s1" using inv_step [OF Cons.prems(1), of now x] up(1) by simp
  then obtain s' where "count_upserts (upsert now) xs s1 = (Inr (0, length xs), s')" "view s' = view s"
    using Cons.IH [of s1] Cons.prems(2) up(2) by auto
  then show ?case using up(1) by (simp add: bind_def)
qed simp

end

lemma frame_count_upserts: "(\<And>x. frame f (g x)) \<Longrightarrow> frame f (count_upserts g xs)"
proof (induction xs)
  case (Cons x xs)
  have "frame f (case p of (created, updated) \<Rightarrow> ret (if new then (Suc created, updated) else (created, Suc updated)))" for p :: "nat \<times> nat" and new
    by (cases p) (simp add: frame_ret)
  then show ?case using Cons by (auto intro!: frame_bind)
qed (simp add: frame_ret)

definition personas_of :: "store \<Rightarrow> persona_definition list" where
  "personas_of s = map persona_definition.truncate (t_personas s)"

definition rules_of :: "store \<Rightarrow> persona_review_rule list" where
  "rules_of s = map persona_review_rule.truncate (t_rules s)"

lemma truncate_ids [simp]:
  "pd_id (persona_definition.truncate r) = pd_id r" "pv_id (persona_review_rule.truncate q) = pv_id q"
  "pv_pr_type (persona_review_rule.truncate q) = pv_pr_type q"
  by (simp_all add: persona_definition.defs persona_review_rule.defs)

text \<open>An UPDATE by key that writes back what the row had.\<close>
lemma update_same:
  assumes "distinct (map k rows)" and "r \<in> set rows" and "\<And>y. t (f y) = t r"
  shows "map t (update_where (\<lambda>y. k y = k r) f rows) = map t rows"
  using assms distinct_key_unique [OF assms(1)] by (auto simp: update_where_def)

interpretation persona_table: upsert_table upsert_persona personas_of pd_id registry_wf
proof
  fix now :: timestamp and x d :: persona_definition and s s' :: store and new
  assume up: "upsert_persona now x s = (Inr new, s')"
  note rows = up [unfolded upsert_persona_apply]
  show "x \<in> set (personas_of s')"
  proof (cases "pd_id x \<in> pd_id ` set (t_personas s)")
    case True
    then obtain r where "r \<in> set (t_personas s)" "pd_id r = pd_id x" by auto
    then have "overwrite_persona now x r \<in> set (t_personas s')" using rows True by (force simp: set_update_where)
    then show ?thesis unfolding personas_of_def by (metis row_of_sel(6) image_eqI set_map)
  next
    case False
    then show ?thesis using rows by (auto simp: personas_of_def)
  qed
  assume d: "d \<in> set (personas_of s)" "pd_id d \<noteq> pd_id x"
  then obtain r where r: "r \<in> set (t_personas s)" "persona_definition.truncate r = d" by (auto simp: personas_of_def)
  then have "pd_id r \<noteq> pd_id x" using d(2) by auto
  then have "r \<in> set (t_personas s')" using r(1) rows by (auto simp: set_update_where split: if_splits)
  with r(2) show "d \<in> set (personas_of s')" by (auto simp: personas_of_def)
next
  fix now :: timestamp and x :: persona_definition and s
  show "registry_wf s \<Longrightarrow> registry_wf (snd (upsert_persona now x s))"
    using registry_step_wf registry_step.persona surjective_pairing by metis
  assume s: "registry_wf s" "x \<in> set (personas_of s)"
  then obtain r where r: "r \<in> set (t_personas s)" "persona_definition.truncate r = x" by (auto simp: personas_of_def)
  then have id: "pd_id x = pd_id r" by auto
  have "map persona_definition.truncate (update_where (\<lambda>y. pd_id y = pd_id r) (overwrite_persona now x) (t_personas s)) =
      map persona_definition.truncate (t_personas s)"
    using s(1) r by (intro update_same) (simp_all add: registry_wf_def)
  then show "\<exists>s'. upsert_persona now x s = (Inr False, s') \<and> personas_of s' = personas_of s"
    using r(1) by (simp add: upsert_persona_apply personas_of_def id)
qed

interpretation rule_table: upsert_table upsert_review_rule rules_of pv_id registry_wf
proof
  fix now :: timestamp and x d :: persona_review_rule and s s' :: store and new
  assume up: "upsert_review_rule now x s = (Inr new, s')"
  note rows = up [unfolded upsert_rule_apply]
  show "x \<in> set (rules_of s')"
  proof (cases "pv_id x \<in> pv_id ` set (t_rules s)")
    case True
    then obtain r where "r \<in> set (t_rules s)" "pv_id r = pv_id x" by auto
    moreover have "t_rules s' = update_where (\<lambda>r. pv_id r = pv_id x) (\<lambda>_. rule_row_of now x) (t_rules s)"
      using rows True by (simp split: if_splits) auto
    ultimately have "rule_row_of now x \<in> set (t_rules s')" by (force simp: set_update_where)
    then show ?thesis unfolding rules_of_def by (metis row_of_sel(7) image_eqI set_map)
  next
    case False
    then show ?thesis using rows by (auto simp: rules_of_def split: if_splits)
  qed
  assume d: "d \<in> set (rules_of s)" "pv_id d \<noteq> pv_id x"
  then obtain r where r: "r \<in> set (t_rules s)" "persona_review_rule.truncate r = d" by (auto simp: rules_of_def)
  then have "pv_id r \<noteq> pv_id x" using d(2) by auto
  moreover have "t_rules s' = update_where (\<lambda>r. pv_id r = pv_id x) (\<lambda>_. rule_row_of now x) (t_rules s) \<or>
      t_rules s' = t_rules s @ [rule_row_of now x]"
    using rows by (simp split: if_splits) auto
  ultimately have "r \<in> set (t_rules s')" using r(1) unfolding set_update_where by (auto simp: set_update_where)
  with r(2) show "d \<in> set (rules_of s')" by (auto simp: rules_of_def)
next
  fix now :: timestamp and x :: persona_review_rule and s
  show "registry_wf s \<Longrightarrow> registry_wf (snd (upsert_review_rule now x s))"
    using registry_step_wf registry_step.rule surjective_pairing by metis
  assume s: "registry_wf s" "x \<in> set (rules_of s)"
  then obtain r where r: "r \<in> set (t_rules s)" "persona_review_rule.truncate r = x" by (auto simp: rules_of_def)
  then have id: "pv_id x = pv_id r" "pv_pr_type x = pv_pr_type r" by auto
  have "\<not> (\<exists>y \<in> set (t_rules s). pv_id y \<noteq> pv_id r \<and> pv_pr_type y = pv_pr_type r)"
    using s(1) r(1) distinct_key_unique [of pv_pr_type "t_rules s"] by (auto simp: registry_wf_def)
  moreover have "map persona_review_rule.truncate (update_where (\<lambda>y. pv_id y = pv_id r) (\<lambda>_. rule_row_of now x) (t_rules s)) =
      map persona_review_rule.truncate (t_rules s)"
    using s(1) r by (intro update_same) (simp_all add: registry_wf_def)
  ultimately show "\<exists>s'. upsert_review_rule now x s = (Inr False, s') \<and> rules_of s' = rules_of s"
    using r(1) by (simp add: upsert_rule_apply rules_of_def id)
qed

section \<open>Properties\<close>

text \<open>The keys hold whatever is asked of the two registries.\<close>
theorem registry_keys:
  assumes "registry_step\<^sup>*\<^sup>* (open_with_device fk dev) s"
  shows "distinct (map pd_id (t_personas s)) \<and> distinct (map pv_id (t_rules s)) \<and> distinct (map pv_pr_type (t_rules s))"
proof -
  have "registry_wf s" using assms
    by (induction rule: rtranclp_induct) (simp add: registry_wf_def open_with_device_def, rule registry_step_wf)
  then show ?thesis by (simp add: registry_wf_def)
qed

text \<open>
  An import that went through has written every persona and rule of the vault, and running it again changes none of them:
  it creates nothing, reports every entry as updated, and leaves the same personas and rules.
\<close>
theorem import_again:
  assumes "registry_step\<^sup>*\<^sup>* (open_with_device fk dev) s" and "import_into_store now imported s = (Inr counts, s')"
    and "distinct (map pd_id (pm_personas imported))" and "distinct (map pv_id (pm_review_rules imported))"
  shows "set (pm_personas imported) \<subseteq> set (personas_of s') \<and> set (pm_review_rules imported) \<subseteq> set (rules_of s') \<and>
    (\<exists>s''. import_into_store now' imported s' =
        (Inr ((0, length (pm_personas imported)), (0, length (pm_review_rules imported))), s'') \<and>
      personas_of s'' = personas_of s' \<and> rules_of s'' = rules_of s')"
proof -
  have rules_frame: "rules_of (snd (count_upserts (upsert_persona t) ps u)) = rules_of u" for t ps u
    using frame_count_upserts [of rules_of "upsert_persona t" ps] by (simp add: frame_def rules_of_def upsert_persona_apply)
  have personas_frame: "personas_of (snd (count_upserts (upsert_review_rule t) qs u)) = personas_of u" for t qs u
    using frame_count_upserts [of personas_of "upsert_review_rule t" qs] by (simp add: frame_def personas_of_def upsert_rule_apply)
  have wf: "registry_wf s" using assms(1)
    by (induction rule: rtranclp_induct) (simp add: registry_wf_def open_with_device_def, rule registry_step_wf)
  obtain c1 s1 c2 where run: "count_upserts (upsert_persona now) (pm_personas imported) s = (Inr c1, s1)"
      "count_upserts (upsert_review_rule now) (pm_review_rules imported) s1 = (Inr c2, s')"
    using assms(2) by (auto simp: import_into_store_def dest!: bind_InrD)
  have wf': "registry_wf s'" using rule_table.run_inv [OF persona_table.run_inv [OF wf]] run by (metis snd_conv)
  have same: "personas_of s' = personas_of s1" using personas_frame [of now "pm_review_rules imported" s1] run(2) by simp
  have written: "set (pm_personas imported) \<subseteq> set (personas_of s')" "set (pm_review_rules imported) \<subseteq> set (rules_of s')"
    using persona_table.run_written [OF run(1) assms(3)] rule_table.run_written [OF run(2) assms(4)] same by simp_all
  obtain s2 where s2: "count_upserts (upsert_persona now') (pm_personas imported) s' = (Inr (0, length (pm_personas imported)), s2)"
      "personas_of s2 = personas_of s'" using persona_table.run_again [OF wf' written(1)] by blast
  have "rules_of s2 = rules_of s'" "registry_wf s2"
    using rules_frame [of now' "pm_personas imported" s'] persona_table.run_inv [OF wf', of now' "pm_personas imported"] s2(1) by simp_all
  moreover from this obtain s3 where s3: "rules_of s3 = rules_of s2"
      "count_upserts (upsert_review_rule now') (pm_review_rules imported) s2 = (Inr (0, length (pm_review_rules imported)), s3)"
    using rule_table.run_again [of s2 "pm_review_rules imported"] written(2) by metis
  moreover have "personas_of s3 = personas_of s2" using personas_frame [of now' "pm_review_rules imported" s2] s3(2) by simp
  ultimately show ?thesis using written s2 by (simp add: import_into_store_def)
qed

definition sample_persona :: "string \<Rightarrow> persona_definition" where
  "sample_persona pid = \<lparr>pd_id = pid, pd_name = pid, pd_focus = ''f'', pd_prompt_prefix = ''p'', pd_owns = ''kernel'',
     pd_review_focus = [], pd_pushes_back = [], pd_tools = [], pd_key_specs = [], pd_source_hash = None\<rparr>"

definition sample_import :: persona_import where
  "sample_import = \<lparr>pm_personas = [sample_persona ''qa'', sample_persona ''engineer''],
     pm_review_rules = [\<lparr>pv_id = ''rule:docs'', pv_pr_type = ''docs'', pv_persona_ids = [''qa'']\<rparr>]\<rparr>"

lemma registry_keys_witness:
  "distinct (map pd_id (t_personas (snd (upsert_persona ''1'' (sample_persona ''qa'') (open_with_device True ''d'')))))"
  using registry_keys [of True "''d''" "snd (upsert_persona ''1'' (sample_persona ''qa'') (open_with_device True ''d''))"]
    registry_step.persona [of "''1''" "sample_persona ''qa''" "open_with_device True ''d''", OF surjective_pairing]
  by (metis r_into_rtranclp)

lemma import_again_witness:
  "\<exists>s' s''. import_into_store ''1'' sample_import (open_with_device True ''d'') = (Inr ((2, 0), (1, 0)), s') \<and>
     import_into_store ''2'' sample_import s' = (Inr ((0, 2), (0, 1)), s'') \<and> personas_of s'' = personas_of s'"
proof -
  obtain s' where run: "import_into_store ''1'' sample_import (open_with_device True ''d'') = (Inr ((2, 0), (1, 0)), s')"
    by (simp add: import_into_store_def sample_import_def sample_persona_def upsert_persona_apply upsert_rule_apply bind_def
        open_with_device_def)
  have "distinct (map pd_id (pm_personas sample_import))" "distinct (map pv_id (pm_review_rules sample_import))"
    by (simp_all add: sample_import_def sample_persona_def)
  from import_again [OF rtranclp.rtrancl_refl run this, of "''2''"] run
  show ?thesis by (fastforce simp: sample_import_def)
qed

text \<open>
  Seeding the rules a second time fails: when no rule of the request has an id, a UUID is drawn for each and the UNIQUE type
  of the rule is taken by the first seeding, so the request is answered 500 and no rule is updated, after the personas were.
\<close>
theorem reseeding_fails:
  assumes "registry_step\<^sup>*\<^sup>* (open_with_device fk dev) s" and "persona_seed now personas rules s = ((200, Some counts), s')"
    and "rules \<noteq> []" and "\<forall>r \<in> set rules. rb_id (fst r) = None" and "distinct (map snd rules)"
    and "map fst rules' = map fst rules" and "\<forall>r \<in> set rules'. \<forall>q \<in> set (t_rules s'). pv_id q \<noteq> snd r"
  shows "\<exists>s''. persona_seed now' personas rules' s' = ((500, None), s'') \<and> rules_of s'' = rules_of s'"
proof -
  let ?up = "\<lambda>t (r, uuid). upsert_review_rule t (body_rule uuid r)"
  have run: "count_upserts (?up t) rs u = count_upserts (upsert_review_rule t) (map (\<lambda>(r, uuid). body_rule uuid r) rs) u" for t rs u
    by (induction rs arbitrary: u) (auto simp: bind_def split: prod.splits sum.splits)
  have ids: "map pv_id (map (\<lambda>(r, uuid). body_rule uuid r) rules) = map snd rules"
    using assms(4) by (auto simp: body_rule_def)
  obtain c s1 c' where seed: "count_upserts (upsert_persona now) personas s = (Inr c, s1)" "count_upserts (?up now) rules s1 = (Inr c', s')"
    using assms(2) by (auto simp: persona_seed_def bind_def split: prod.splits sum.splits)
  obtain r uuid where "hd rules = (r, uuid)" by fastforce
  moreover have "rules' \<noteq> []" using assms(3,6) by auto
  moreover from this have "fst (hd rules') = fst (hd rules)" using assms(3,6) by (metis hd_map)
  ultimately have hd: "(r, uuid) \<in> set rules" "fst (hd rules') = r" "rules' \<noteq> []"
    using assms(3) hd_in_set by (metis, simp_all)
  have "body_rule uuid r \<in> set (rules_of s')"
  proof -
    have "distinct (map pv_id (map (\<lambda>(r, uuid). body_rule uuid r) rules))" unfolding ids by (rule assms(5))
    from rule_table.run_written [OF seed(2) [unfolded run] this]
    have "set (map (\<lambda>(r, uuid). body_rule uuid r) rules) \<subseteq> set (rules_of s')" by (rule conjunct1)
    moreover have "body_rule uuid r \<in> set (map (\<lambda>(r, uuid). body_rule uuid r) rules)"
      unfolding set_map by (rule image_eqI [OF _ hd(1)]) simp
    ultimately show ?thesis by (rule subsetD)
  qed
  then have "body_rule uuid r \<in> persona_review_rule.truncate ` set (t_rules s')" by (simp add: rules_of_def)
  then obtain q where "body_rule uuid r = persona_review_rule.truncate q" "q \<in> set (t_rules s')" by (rule imageE)
  moreover from this have "pv_pr_type q = rb_pr_type r" using truncate_ids(3) [of q] by (metis body_rule_def persona_review_rule.select_convs(2))
  ultimately have q: "q \<in> set (t_rules s')" "pv_pr_type q = rb_pr_type r" by simp_all
  obtain d s2 where personas: "count_upserts (upsert_persona now') personas s' = (d, s2)" by fastforce
  have "frame t_rules (upsert_persona now' p)" for p by (simp add: frame_def upsert_persona_apply)
  then have same: "t_rules s2 = t_rules s'" using frameD [OF frame_count_upserts personas] by blast
  obtain uuid' rest where rules': "rules' = (r, uuid') # rest" using hd(2,3) by (cases rules') auto
  have none: "rb_id r = None" using assms(4) hd(1) by auto
  have "upsert_review_rule now' (body_rule uuid' r) s2 = (Inl (StorageSql [] UniqueViolation), s2)"
    using q assms(7) rules' none unfolding upsert_rule_apply by (auto simp: same body_rule_def)
  then have "count_upserts (?up now') rules' s2 = (Inl (StorageSql [] UniqueViolation), s2)" by (simp add: rules')
  then show ?thesis using personas same by (cases d) (auto simp: persona_seed_def bind_def rules_of_def)
qed

lemma reseeding_fails_witness:
  "\<exists>s' s''. persona_seed ''1'' [sample_persona ''qa''] [(\<lparr>rb_id = None, rb_pr_type = ''docs'', rb_persona_ids = []\<rparr>, ''u1'')]
       (open_with_device True ''d'') = ((200, Some (1, 0)), s') \<and>
     persona_seed ''2'' [sample_persona ''qa''] [(\<lparr>rb_id = None, rb_pr_type = ''docs'', rb_persona_ids = []\<rparr>, ''u2'')] s' = ((500, None), s'')"
proof -
  let ?r = "\<lparr>rb_id = None, rb_pr_type = ''docs'', rb_persona_ids = []\<rparr>"
  obtain s' where run: "persona_seed ''1'' [sample_persona ''qa''] [(?r, ''u1'')] (open_with_device True ''d'') = ((200, Some (1, 0)), s')"
      and rules: "map pv_id (t_rules s') = [''u1'']"
    by (simp add: persona_seed_def upsert_persona_apply upsert_rule_apply bind_def open_with_device_def body_rule_def)
  have "\<forall>r \<in> set [(?r, ''u2'')]. \<forall>q \<in> set (t_rules s'). pv_id q \<noteq> snd r"
  proof -
    have "pv_id q = ''u1''" if "q \<in> set (t_rules s')" for q using rules that by (metis imageI set_map list.set(1,2) singletonD)
    then show ?thesis by simp
  qed
  with reseeding_fails [OF rtranclp.rtrancl_refl run, of "[(?r, ''u2'')]" "''2''"]
  have "\<exists>s''. persona_seed ''2'' [sample_persona ''qa''] [(?r, ''u2'')] s' = ((500, None), s'') \<and> rules_of s'' = rules_of s'" by simp
  with run show ?thesis by blast
qed

lemma with_engineer_members:
  assumes dist: "distinct (map pd_id ps)"
  shows "distinct (map pd_id (with_engineer ps (filter q ps))) \<and>
    set (with_engineer ps (filter q ps)) = {p \<in> set ps. q p \<or> pd_id p = ''engineer''}"
proof (cases "\<exists>e \<in> set ps. q e \<and> pd_id e = ''engineer''")
  case True
  then have same: "with_engineer ps (filter q ps) = filter q ps" by (auto simp: with_engineer_def list_ex_iff)
  from True obtain e where e: "e \<in> set ps" "q e" "pd_id e = ''engineer''" by blast
  have "q p" if "p \<in> set ps" "pd_id p = ''engineer''" for p
    using distinct_key_unique [OF dist that(1) e(1)] e that(2) by simp
  then show ?thesis unfolding same using distinct_map_filter [OF dist] by auto
next
  case False
  then have no: "\<not> list_ex (\<lambda>p. pd_id p = ''engineer'') (filter q ps)" by (auto simp: list_ex_iff)
  show ?thesis
  proof (cases "find (\<lambda>p. pd_id p = ''engineer'') ps")
    case None
    with no have "with_engineer ps (filter q ps) = filter q ps" by (simp add: with_engineer_def)
    moreover have "\<forall>p \<in> set ps. pd_id p \<noteq> ''engineer''" using None by (simp add: find_None_iff)
    ultimately show ?thesis using distinct_map_filter [OF dist] by auto
  next
    case (Some e)
    then have e: "e \<in> set ps" "pd_id e = ''engineer''" using find_SomeD [OF Some] by simp_all
    have same: "with_engineer ps (filter q ps) = e # filter q ps" using no Some by (simp add: with_engineer_def)
    have uniq: "p = e" if "p \<in> set ps" "pd_id p = ''engineer''" for p
      using distinct_key_unique [OF dist that(1) e(1)] e(2) that(2) by simp
    have "pd_id e \<notin> pd_id ` set (filter q ps)" using False e(2) by (auto simp: image_iff)
    then have "distinct (map pd_id (e # filter q ps))" using distinct_map_filter [OF dist, of q] by simp
    moreover have "set (e # filter q ps) = {p \<in> set ps. q p \<or> pd_id p = ''engineer''}"
      unfolding list.set(2) set_filter using e uniq by blast
    ultimately show ?thesis unfolding same ..
  qed
qed

text \<open>
  A recommendation that no review rule decides has exactly the personas one of whose words a label occurs in, and the engineer
  if there is one, each once.
\<close>
theorem recommendation_by_labels:
  assumes "registry_step\<^sup>*\<^sup>* (open_with_device fk dev) s" and "\<forall>r \<in> set (t_rules s). pr_type \<noteq> Some (pv_pr_type r)"
  shows "\<exists>rec. team_recommend lower debug labels pr_type s = ((200, Some rec), s) \<and> distinct (map pd_id (tr_personas rec)) \<and>
    set (tr_personas rec) = {p \<in> set (personas_of s). label_match lower labels p \<or> pd_id p = ''engineer''}"
proof -
  have "registry_wf s" using assms(1)
    by (induction rule: rtranclp_induct) (simp add: registry_wf_def open_with_device_def, rule registry_step_wf)
  then have ids: "distinct (map pd_id (t_personas s))" by (simp add: registry_wf_def)
  let ?all = "map persona_definition.truncate (order_asc pd_name (t_personas s))"
  let ?m = "filter (label_match lower labels) ?all"
  have all: "set ?all = set (personas_of s)" by (simp add: personas_of_def)
  have "mset (map pd_id ?all) = mset (map pd_id (t_personas s))" by (simp add: order_asc_def comp_def)
  then have dist: "distinct (map pd_id ?all)" using ids by (metis mset_eq_imp_distinct_iff)
  note eng = with_engineer_members [OF dist, of "label_match lower labels"]
  have "find (\<lambda>r. pv_pr_type r = ty) (t_rules s) = None" if "pr_type = Some ty" for ty
    using assms(2) that by (auto simp: find_None_iff)
  then have "fst (get_review_rule_by_type ty s) = Inr None" if "pr_type = Some ty" for ty
    using that by (simp add: get_review_rule_by_type_def)
  then show ?thesis using eng all by (cases pr_type) (simp_all add: team_recommend_def list_personas_def Let_def)
qed

lemma recommendation_by_labels_witness:
  "\<exists>rec. team_recommend (\<lambda>t. t) concat [''none''] (Some ''docs'') (snd (upsert_persona ''1'' (sample_persona ''engineer'') (open_with_device True ''d''))) =
     ((200, Some rec), snd (upsert_persona ''1'' (sample_persona ''engineer'') (open_with_device True ''d''))) \<and>
     tr_personas rec \<noteq> []"
proof -
  let ?s = "snd (upsert_persona ''1'' (sample_persona ''engineer'') (open_with_device True ''d''))"
  have s: "personas_of ?s = [sample_persona ''engineer'']" "t_rules ?s = []"
    by (simp_all add: upsert_persona_apply open_with_device_def personas_of_def)
  have "registry_step (open_with_device True ''d'') ?s" by (rule registry_step.persona [OF surjective_pairing])
  then have "registry_step\<^sup>*\<^sup>* (open_with_device True ''d'') ?s" by (rule r_into_rtranclp)
  from recommendation_by_labels [OF this, of "Some ''docs''" "\<lambda>t. t" concat "[''none'']"]
  obtain rec where rec: "team_recommend (\<lambda>t. t) concat [''none''] (Some ''docs'') ?s = ((200, Some rec), ?s)"
    "set (tr_personas rec) = {p \<in> set (personas_of ?s). label_match (\<lambda>t. t) [''none''] p \<or> pd_id p = ''engineer''}"
    unfolding s(2) by auto
  have "sample_persona ''engineer'' \<in> set (tr_personas rec)" unfolding rec(2) s(1) by (simp add: sample_persona_def)
  then have "tr_personas rec \<noteq> []" by auto
  with rec(1) show ?thesis by blast
qed

text \<open>The context manager's column for a missing reference is the empty string, the store's NULL; both read alike.\<close>
definition filled_ref :: "context_row \<Rightarrow> context_row" where
  "filled_ref r = r\<lparr>cx_source_ref := Some (case cx_source_ref r of None \<Rightarrow> [] | Some x \<Rightarrow> x)\<rparr>"

lemma filled_ref_sel [simp]:
  "cx_id (filled_ref r) = cx_id r" "cx_path (filled_ref r) = cx_path r" "cx_kind (filled_ref r) = cx_kind r"
  "cx_source_type (filled_ref r) = cx_source_type r" "cx_title (filled_ref r) = cx_title r"
  "cx_updated_at (filled_ref r) = cx_updated_at r" "cx_word_count (filled_ref r) = cx_word_count r"
  by (simp_all add: filled_ref_def)

lemma filled_ref_entry [simp]: "row_to_entry (filled_ref r) = row_to_entry r"
  by (cases "cx_source_ref r") (simp_all add: row_to_entry_def filled_ref_def source_from_parts_def)

text \<open>The row both stores are given for an entry; the store's caller passes the reference as it is.\<close>
definition store_row :: "context_entry \<Rightarrow> context_row" where
  "store_row e = (entry_row e)\<lparr>cx_source_ref := source_ref (cn_source e)\<rparr>"

lemma filled_store_row: "filled_ref (store_row e) = entry_row e"
  by (cases "source_ref (cn_source e)") (simp_all add: filled_ref_def store_row_def entry_row_def)

lemma find_map_same: "(\<And>r. q (f r) = q r) \<Longrightarrow> find q (map f rows) = map_option f (find q rows)"
  by (induction rows) auto

lemma filter_map_same: "(\<And>r. q (f r) = q r) \<Longrightarrow> filter q (map f rows) = map f (filter q rows)"
  by (induction rows) auto

lemma sort_key_map: "(\<And>r. k (f r) = k r) \<Longrightarrow> sort_key k (map f rows) = map f (sort_key k rows)"
proof (induction rows)
  case (Cons r rows)
  have "insort_key k (f r) (map f ys) = map f (insort_key k r ys)" for ys
    by (induction ys) (simp_all add: Cons.prems)
  with Cons show ?case by simp
qed simp

lemma order_desc_map: "(\<And>r. k (f r) = k r) \<Longrightarrow> order_desc k (map f rows) = map f (order_desc k rows)"
  by (simp add: order_desc_def rev_map sort_key_map)

lemma overwrite_filled:
  "filled_ref (overwrite_context (store_row e) r) = overwrite_context (entry_row e) (filled_ref r)"
  by (cases "source_ref (cn_source e)") (simp_all add: filled_ref_def overwrite_context_def store_row_def entry_row_def)

lemma upsert_rows_agree:
  assumes rows: "map filled_ref (t_contexts s) = rows" and up: "upsert_context_row (entry_row e) rows = Some rows'"
  shows "\<exists>new s'. upsert_context_entry (store_row e) s = (Inr new, s') \<and> map filled_ref (t_contexts s') = rows'"
proof -
  have path: "cx_path (store_row e) = cx_path (entry_row e)" "cx_id (store_row e) = cx_id (entry_row e)" by (simp_all add: store_row_def)
  show ?thesis
  proof (cases "list_ex (\<lambda>x. cx_path x = cx_path (entry_row e)) rows")
    case True
    then have "find (\<lambda>x. cx_path x = cx_path (entry_row e)) (t_contexts s) \<noteq> None"
      by (auto simp: find_None_iff list_ex_iff rows [symmetric])
    moreover have "rows' = update_where (\<lambda>x. cx_path x = cx_path (entry_row e)) (overwrite_context (entry_row e)) rows"
      using up True by (simp add: upsert_context_row_def overwrite_context_def [abs_def])
    then have "rows' = map filled_ref (update_where (\<lambda>x. cx_path x = cx_path (entry_row e)) (overwrite_context (store_row e)) (t_contexts s))"
      unfolding rows [symmetric] by (simp add: update_where_def overwrite_filled)
    ultimately show ?thesis by (auto simp: upsert_context_entry_def bind_def path)
  next
    case False
    then have ids: "\<not> list_ex (\<lambda>x. cx_id x = cx_id (entry_row e)) rows" "rows' = rows @ [entry_row e]"
      using up by (simp_all add: upsert_context_row_def split: if_splits)
    have "\<forall>r \<in> set (t_contexts s). cx_path r \<noteq> cx_path (entry_row e) \<and> cx_id r \<noteq> cx_id (entry_row e)"
      using False ids(1) unfolding rows [symmetric] by (auto simp: list_ex_iff)
    then have "find (\<lambda>x. cx_path x = cx_path (entry_row e)) (t_contexts s) = None"
      "\<not> list_ex (\<lambda>b. cx_id (entry_row e) = cx_id b \<or> cx_path (entry_row e) = cx_path b) (t_contexts s)"
      by (auto simp: find_None_iff list_ex_iff)
    moreover have "(store_row e)\<lparr>cx_synced := False\<rparr> = store_row e" by (simp add: store_row_def entry_row_def)
    ultimately show ?thesis using ids(2) rows
      by (auto simp: upsert_context_entry_def bind_def path sql_insert_def filled_store_row)
  qed
qed

text \<open>
  The store's context table is the context manager's: if the two hold the same entries, then an upsert of an entry, when the file
  can be written, and a removal leave the same entries in both, and every listing is the same.
\<close>
theorem context_tables_agree:
  assumes rows: "map filled_ref (t_contexts s) = cs_rows c"
  shows "(\<forall>e c'. context_upsert env now uuid x c = (Inr e, c') \<longrightarrow>
      (\<exists>new s'. upsert_context_entry (store_row e) s = (Inr new, s') \<and> map filled_ref (t_contexts s') = cs_rows c')) \<and>
    (\<forall>e. context_find i c = Inr e \<longrightarrow> fst (remove_context_entry i s) = Inr True \<and>
      map filled_ref (t_contexts (snd (remove_context_entry i s))) = cs_rows (snd (context_remove env i c))) \<and>
    list_context_entries (cv_like env) flt s = (Inr (context_entries env flt c), s)"
proof (intro conjI allI impI)
  fix e c'
  assume "context_upsert env now uuid x c = (Inr e, c')"
  from upsert_rows_agree [OF rows upsert_succeeds(3) [OF this]]
  show "\<exists>new s'. upsert_context_entry (store_row e) s = (Inr new, s') \<and> map filled_ref (t_contexts s') = cs_rows c'" .
next
  fix e
  assume e: "context_find i c = Inr e"
  have "find (\<lambda>r. cx_id r = i) (cs_rows c) = map_option filled_ref (find (\<lambda>r. cx_id r = i) (t_contexts s))"
    unfolding rows [symmetric] by (rule find_map_same) simp
  then obtain r where "find (\<lambda>r. cx_id r = i) (t_contexts s) = Some r"
    using e by (auto simp: context_find_def split: option.splits)
  then have "0 < count_where (\<lambda>r. cx_id r = i) (t_contexts s)" using find_SomeD unfolding count_where_pos by fastforce
  then show "fst (remove_context_entry i s) = Inr True" by (simp add: remove_context_entry_def bind_def)
  have "cs_rows (snd (context_remove env i c)) = delete_where (\<lambda>r. cx_id r = i) (cs_rows c)"
    using e by (simp add: context_remove_def remove_entry_def remove_content_def Let_def split: option.splits)
  also have "\<dots> = map filled_ref (delete_where (\<lambda>r. cx_id r = i) (t_contexts s))"
    unfolding rows [symmetric] delete_where_def by (rule filter_map_same) simp
  finally show "map filled_ref (t_contexts (snd (remove_context_entry i s))) = cs_rows (snd (context_remove env i c))"
    by (simp add: remove_context_entry_def bind_def)
next
  have "filter (context_matches (cv_like env) flt) (map filled_ref (t_contexts s)) =
      map filled_ref (filter (context_matches (cv_like env) flt) (t_contexts s))"
    by (rule filter_map_same) (simp add: context_matches_def Let_def split: option.splits)
  then show "list_context_entries (cv_like env) flt s = (Inr (context_entries env flt c), s)"
    unfolding list_context_entries_def context_entries_def rows [symmetric]
    by (simp add: bind_def order_desc_map opt_limit_def take_map comp_def Let_def split: option.splits)
qed

lemma context_tables_agree_witness:
  "list_context_entries (cv_like sample_cx_env) \<lparr>cf_kind = None, cf_tag = None, cf_source = None, cf_search = None, cf_limit = None\<rparr>
     (open_with_device True ''d'') =
   (Inr (context_entries sample_cx_env \<lparr>cf_kind = None, cf_tag = None, cf_source = None, cf_search = None, cf_limit = None\<rparr> no_context),
     open_with_device True ''d'')"
  using context_tables_agree [of "open_with_device True ''d''" no_context sample_cx_env]
  by (simp add: open_with_device_def no_context_def)

end
