(* ===== verification/Board_Routes.thy ===== *)
theory Board_Routes
  imports Store_Tasks Store_Memory Board_Markdown
begin

text \<open>
  The board and memory handlers of the HTTP receiver (gctrl-otel/src/receiver.rs). A handler is a function of the request, with
  the defaults of its fields, and the store; it answers a status code and the body, None where the answer carries only a text.
  Several handlers classify an error by looking into its text, so the texts are defined as the code writes them.
\<close>

section \<open>Error texts\<close>

text \<open>What rusqlite says of a failed statement, up to the names of columns.\<close>
fun sql_error_text :: "sql_error \<Rightarrow> string" where
  "sql_error_text UniqueViolation = ''UNIQUE constraint failed''"
| "sql_error_text ForeignKeyViolation = ''FOREIGN KEY constraint failed''"
| "sql_error_text NoRows = ''Query returned no rows''"
| "sql_error_text BadColumn = ''Invalid column type''"
| "sql_error_text OutOfRange = ''Integer out of range''"

text \<open>GctlError's Display; an SQL error follows the kernel's own text in parentheses.\<close>
fun error_text :: "gctl_error \<Rightarrow> string" where
  "error_text (Storage msg) = ''storage error: '' @ msg"
| "error_text (StorageSql msg e) =
     ''storage error: '' @ (if msg = [] then sql_error_text e else msg @ '' ('' @ sql_error_text e @ '')'')"
| "error_text (Other msg) = msg"

type_synonym 'a reply = "nat \<times> 'a option"

definition reply_or_500 :: "nat \<Rightarrow> (gctl_error + 'a) \<times> store \<Rightarrow> 'a reply \<times> store" where
  "reply_or_500 code r = (case r of (Inl _, s) \<Rightarrow> ((500, None), s) | (Inr x, s) \<Rightarrow> ((code, Some x), s))"

definition reply_found :: "(gctl_error + 'a option) \<times> store \<Rightarrow> 'a reply \<times> store" where
  "reply_found r =
     (case r of (Inl _, s) \<Rightarrow> ((500, None), s) | (Inr None, s) \<Rightarrow> ((404, None), s) | (Inr (Some x), s) \<Rightarrow> ((200, Some x), s))"

section \<open>Memory\<close>

definition default_memory_limit :: nat where
  "default_memory_limit = 100"

text \<open>A type that is no memory type is dropped, and the listing is not filtered by type.\<close>
definition memory_list_route ::
  "(string \<Rightarrow> string \<Rightarrow> bool) \<Rightarrow> string option \<Rightarrow> string option \<Rightarrow> string option \<Rightarrow> nat option \<Rightarrow> store \<Rightarrow>
    memory_entry list reply \<times> store" where
  "memory_list_route like memory_type tag search mx s =
     reply_or_500 200 (list_memories like
       \<lparr>ft_memory_type = Option.bind memory_type memory_type_from_str, ft_tag = tag, ft_search = search,
        ft_limit = Some (case mx of None \<Rightarrow> default_memory_limit | Some n \<Rightarrow> n)\<rparr> s)"

record memory_body =
  mb_memory_type :: string
  mb_name :: string
  mb_description :: string
  mb_body :: string
  mb_tags :: "string list"
  mb_device_id :: string
  mb_id :: "string option"

definition body_memory :: "timestamp \<Rightarrow> string \<Rightarrow> memory_type \<Rightarrow> memory_body \<Rightarrow> memory_entry" where
  "body_memory now uuid ty b =
     \<lparr>me_id = (case mb_id b of Some i \<Rightarrow> i | None \<Rightarrow> ''mem-'' @ uuid), me_memory_type = ty, me_name = mb_name b,
      me_description = mb_description b, me_body = mb_body b, me_tags = mb_tags b, me_device_id = mb_device_id b,
      me_created_at = now, me_updated_at = now, me_synced = False\<rparr>"

definition memory_upsert_route :: "timestamp \<Rightarrow> string \<Rightarrow> memory_body \<Rightarrow> store \<Rightarrow> memory_entry reply \<times> store" where
  "memory_upsert_route now uuid b s =
     (case memory_type_from_str (mb_memory_type b) of
        None \<Rightarrow> ((400, None), s)
      | Some ty \<Rightarrow>
          if trim (mb_name b) = [] then ((400, None), s)
          else if trim (mb_device_id b) = [] then ((400, None), s)
          else (case upsert_memory (body_memory now uuid ty b) s of
                  (Inl _, s') \<Rightarrow> ((500, None), s')
                | (Inr _, s') \<Rightarrow> ((201, Some (body_memory now uuid ty b)), s')))"

definition memory_get_route :: "string \<Rightarrow> store \<Rightarrow> memory_entry reply \<times> store" where
  "memory_get_route mid s = reply_found (get_memory mid s)"

definition memory_delete_route :: "string \<Rightarrow> store \<Rightarrow> nat \<times> store" where
  "memory_delete_route mid s =
     (case remove_memory mid s of (Inl _, s') \<Rightarrow> (500, s') | (Inr True, s') \<Rightarrow> (204, s') | (Inr False, s') \<Rightarrow> (404, s'))"

definition memory_stats_route :: "store \<Rightarrow> memory_stats reply \<times> store" where
  "memory_stats_route s = reply_or_500 200 (get_memory_stats s)"

section \<open>Projects\<close>

definition board_create_project_route :: "timestamp \<Rightarrow> string \<Rightarrow> string \<Rightarrow> string \<Rightarrow> store \<Rightarrow> board_project reply \<times> store" where
  "board_create_project_route now uuid name key s =
     (let project = \<lparr>bp_id = uuid, bp_name = name, bp_key = key, bp_counter = 0, bp_github_repo = None\<rparr>
      in case create_board_project now project s of
           (Inr _, s') \<Rightarrow> ((201, Some project), s')
         | (Inl e, s') \<Rightarrow>
             (let msg = error_text e
              in if contains ''Duplicate key'' msg \<or> contains ''Constraint Error'' msg \<or> contains ''UNIQUE constraint failed'' msg
                 then ((409, None), s') else ((500, None), s')))"

definition board_list_projects_route :: "store \<Rightarrow> board_project list reply \<times> store" where
  "board_list_projects_route s = reply_or_500 200 (list_board_projects s)"

definition board_link_github :: "timestamp \<Rightarrow> string \<Rightarrow> string \<Rightarrow> store \<Rightarrow> board_project reply \<times> store" where
  "board_link_github now pid github_repo s =
     (case update_board_project_github_repo now pid github_repo s of
        (Inl _, s') \<Rightarrow> ((500, None), s')
      | (Inr _, s') \<Rightarrow>
          (case get_board_project pid s' of
             (Inr (Some project), s'') \<Rightarrow> ((200, Some project), s'') | (_, s'') \<Rightarrow> ((404, None), s'')))"

section \<open>Issues\<close>

definition default_priority :: string where
  "default_priority = ''none''"

definition default_human :: string where
  "default_human = ''human''"

definition or_default :: "'a \<Rightarrow> 'a option \<Rightarrow> 'a" where
  "or_default d x = (case x of None \<Rightarrow> d | Some y \<Rightarrow> y)"

record issue_body =
  ib_project_id :: string
  ib_title :: string
  ib_description :: "string option"
  ib_priority :: "string option"
  ib_labels :: "string list"
  ib_parent_id :: "string option"
  ib_created_by_id :: string
  ib_created_by_name :: string
  ib_created_by_type :: "string option"
  ib_github_issue_number :: "u32 option"
  ib_github_url :: "string option"
  ib_acceptance_criteria :: "string option"

definition body_issue :: "timestamp \<Rightarrow> string \<Rightarrow> issue_body \<Rightarrow> board_issue" where
  "body_issue now iid b =
     \<lparr>bi_id = iid, bi_project_id = ib_project_id b, bi_title = ib_title b, bi_description = ib_description b,
      bi_status = Backlog, bi_priority = or_default default_priority (ib_priority b),
      bi_assignee_id = None, bi_assignee_name = None, bi_assignee_type = None, bi_labels = ib_labels b,
      bi_parent_id = ib_parent_id b, bi_created_at = now, bi_updated_at = now,
      bi_created_by_id = ib_created_by_id b, bi_created_by_name = ib_created_by_name b,
      bi_created_by_type = or_default default_human (ib_created_by_type b),
      bi_blocked_by = [], bi_blocking = [], bi_session_ids = [], bi_total_cost_usd = 0, bi_total_tokens = 0, bi_pr_numbers = [],
      bi_content_hash = None, bi_source_path = None, bi_github_issue_number = ib_github_issue_number b,
      bi_github_url = ib_github_url b, bi_start_date = None, bi_due_date = None,
      bi_acceptance_criteria = ib_acceptance_criteria b\<rparr>"

text \<open>t0 is the clock when the counter is incremented, now when the issue is built.\<close>
definition board_create_issue :: "timestamp \<Rightarrow> timestamp \<Rightarrow> issue_body \<Rightarrow> store \<Rightarrow> board_issue reply \<times> store" where
  "board_create_issue t0 now b s =
     (case increment_project_counter t0 (ib_project_id b) s of
        (Inl _, s1) \<Rightarrow> ((400, None), s1)
      | (Inr counter, s1) \<Rightarrow>
          (case get_board_project (ib_project_id b) s1 of
             (Inr (Some project), s2) \<Rightarrow>
               (let issue = body_issue now (bp_key project @ ''-'' @ show_int counter) b
                in case insert_board_issue issue s2 of
                     (Inl _, s3) \<Rightarrow> ((500, None), s3) | (Inr _, s3) \<Rightarrow> ((201, Some issue), s3))
           | (_, s2) \<Rightarrow> ((400, None), s2)))"

definition default_issue_limit :: nat where
  "default_issue_limit = 50"

definition board_list_issues_route :: "board_issue_filter \<Rightarrow> store \<Rightarrow> board_issue list reply \<times> store" where
  "board_list_issues_route params s =
     reply_or_500 200 (list_board_issues (params\<lparr>bf_limit := Some (or_default default_issue_limit (bf_limit params))\<rparr>) s)"

definition board_get_issue_route :: "string \<Rightarrow> store \<Rightarrow> board_issue reply \<times> store" where
  "board_get_issue_route iid s = reply_found (get_board_issue iid s)"

definition resolve_agent_kind :: "string option \<Rightarrow> string" where
  "resolve_agent_kind project_key = ''claude-code''"

record move_reply =
  mv_issue :: "board_issue option"
  mv_task_id :: "string option"
  mv_dispatched :: bool

definition board_move_issue ::
  "(nat \<Rightarrow> timestamp) \<Rightarrow> (nat \<Rightarrow> string) \<Rightarrow> timestamp \<Rightarrow> (nat \<Rightarrow> string) \<Rightarrow> timestamp \<Rightarrow> string \<Rightarrow> string \<Rightarrow> actor \<Rightarrow> store \<Rightarrow>
    move_reply reply \<times> store" where
  "board_move_issue now uuid now_task uuid_checks now_checks iid status act s =
     (case update_board_issue_status_and_promote now uuid now_task uuid_checks now_checks iid status
             (resolve_agent_kind None) act s of
        (Inr task_opt, s') \<Rightarrow>
          (case get_board_issue iid s' of
             (r, s'') \<Rightarrow>
               ((200, Some \<lparr>mv_issue = (case r of Inl _ \<Rightarrow> None | Inr i \<Rightarrow> i), mv_task_id = map_option tk_id task_opt,
                  mv_dispatched = (task_opt \<noteq> None)\<rparr>), s''))
      | (Inl e, s') \<Rightarrow>
          (let msg = error_text e
           in if contains ''invalid transition'' msg then ((422, None), s')
              else if contains ''not found'' msg then ((404, None), s')
              else ((500, None), s')))"

text \<open>The assigned issue, if it is there: an assignment of a missing issue is answered 200 with an empty body.\<close>
definition board_assign_issue :: "timestamp \<Rightarrow> string \<Rightarrow> string \<Rightarrow> string \<Rightarrow> string option \<Rightarrow> store \<Rightarrow> board_issue reply \<times> store" where
  "board_assign_issue now iid assignee_id assignee_name assignee_type s =
     (case assign_board_issue now iid assignee_id assignee_name (or_default default_human assignee_type) s of
        (Inl _, s') \<Rightarrow> ((500, None), s')
      | (Inr _, s') \<Rightarrow>
          (case get_board_issue iid s' of
             (Inr (Some issue), s'') \<Rightarrow> ((200, Some issue), s'') | (_, s'') \<Rightarrow> ((200, None), s'')))"

record comment_body =
  cmb_author_id :: string
  cmb_author_name :: string
  cmb_author_type :: "string option"
  cmb_body :: string
  cmb_session_id :: "string option"

definition board_add_comment :: "timestamp \<Rightarrow> string \<Rightarrow> string \<Rightarrow> comment_body \<Rightarrow> store \<Rightarrow> board_comment reply \<times> store" where
  "board_add_comment now uuid iid b s =
     (let comment = \<lparr>bc_id = uuid, bc_issue_id = iid, bc_author_id = cmb_author_id b, bc_author_name = cmb_author_name b,
            bc_author_type = or_default default_human (cmb_author_type b), bc_body = cmb_body b, bc_created_at = now,
            bc_session_id = cmb_session_id b\<rparr>
      in case insert_board_comment comment s of
           (Inl _, s') \<Rightarrow> ((500, None), s') | (Inr _, s') \<Rightarrow> ((201, Some comment), s'))"

definition board_list_events_route :: "string \<Rightarrow> store \<Rightarrow> board_event list reply \<times> store" where
  "board_list_events_route iid s = reply_or_500 200 (list_board_events iid s)"

definition board_list_comments_route :: "string \<Rightarrow> store \<Rightarrow> board_comment list reply \<times> store" where
  "board_list_comments_route iid s = reply_or_500 200 (list_board_comments iid s)"

text \<open>The cost and the tokens default to 0.\<close>
definition board_link_session :: "timestamp \<Rightarrow> string \<Rightarrow> string \<Rightarrow> f64 option \<Rightarrow> u64 option \<Rightarrow> store \<Rightarrow> nat \<times> store" where
  "board_link_session now iid session_id cost_usd tokens s =
     (case link_session_to_issue now iid session_id (or_default 0 cost_usd) (or_default 0 tokens) s of
        (Inl _, s') \<Rightarrow> (500, s') | (Inr _, s') \<Rightarrow> (200, s'))"

section \<open>The schedule and the Gantt chart\<close>

definition is_ascii_digit :: "char \<Rightarrow> bool" where
  "is_ascii_digit c \<longleftrightarrow> 48 \<le> (of_char c :: nat) \<and> (of_char c :: nat) \<le> 57"

definition is_yyyy_mm_dd :: "string \<Rightarrow> bool" where
  "is_yyyy_mm_dd t \<longleftrightarrow>
     length t = 10 \<and> t ! 4 = CHR ''-'' \<and> t ! 7 = CHR ''-'' \<and> list_all is_ascii_digit (take 4 t) \<and>
     list_all is_ascii_digit (take 2 (drop 5 t)) \<and> list_all is_ascii_digit (take 2 (drop 8 t))"

definition bad_date :: "string option option \<Rightarrow> bool" where
  "bad_date date = (case date of Some (Some t) \<Rightarrow> \<not> is_yyyy_mm_dd t | _ \<Rightarrow> False)"

definition default_web_user :: string where
  "default_web_user = ''web-user''"

definition default_web_ui :: string where
  "default_web_ui = ''Web UI''"

record schedule_body =
  sb_start_date :: "string option option"
  sb_due_date :: "string option option"
  sb_actor_id :: "string option"
  sb_actor_name :: "string option"
  sb_actor_type :: "string option"

definition body_actor :: "schedule_body \<Rightarrow> actor" where
  "body_actor b = \<lparr>act_id = or_default default_web_user (sb_actor_id b), act_name = or_default default_web_ui (sb_actor_name b),
     act_type = or_default default_human (sb_actor_type b)\<rparr>"

definition board_schedule_issue :: "timestamp \<Rightarrow> string \<Rightarrow> string \<Rightarrow> schedule_body \<Rightarrow> store \<Rightarrow> board_issue reply \<times> store" where
  "board_schedule_issue now event_id iid b s =
     (if sb_start_date b = None \<and> sb_due_date b = None then ((400, None), s)
      else if bad_date (sb_start_date b) then ((400, None), s)
      else if bad_date (sb_due_date b) then ((400, None), s)
      else case Store_Board.schedule_board_issue now event_id iid (sb_start_date b) (sb_due_date b) (body_actor b) s of
          (Inr _, s') \<Rightarrow> reply_found (get_board_issue iid s')
        | (Inl e, s') \<Rightarrow>
            (let msg = error_text e
             in if contains ''issue not found'' msg then ((404, None), s')
                else if contains ''must be <='' msg then ((400, None), s')
                else ((500, None), s')))"

record gantt_row =
  gr_id :: string
  gr_project_id :: string
  gr_title :: string
  gr_status :: string
  gr_priority :: string
  gr_assignee_id :: "string option"
  gr_assignee_name :: "string option"
  gr_assignee_type :: "string option"
  gr_parent_id :: "string option"
  gr_start_date :: "string option"
  gr_due_date :: "string option"

definition gantt_row_of :: "board_issue \<Rightarrow> gantt_row" where
  "gantt_row_of i =
     \<lparr>gr_id = bi_id i, gr_project_id = bi_project_id i, gr_title = bi_title i, gr_status = issue_status_as_str (bi_status i),
      gr_priority = bi_priority i, gr_assignee_id = bi_assignee_id i, gr_assignee_name = bi_assignee_name i,
      gr_assignee_type = bi_assignee_type i, gr_parent_id = bi_parent_id i, gr_start_date = bi_start_date i,
      gr_due_date = bi_due_date i\<rparr>"

definition board_gantt_for_project ::
  "string \<Rightarrow> store \<Rightarrow> (string option \<times> string option \<times> gantt_row list) reply \<times> store" where
  "board_gantt_for_project pid s =
     (case get_board_project pid s of
        (Inl _, s') \<Rightarrow> ((500, None), s')
      | (Inr None, s') \<Rightarrow> ((404, None), s')
      | (Inr (Some _), s') \<Rightarrow>
          (case gantt_for_project pid s' of
             (Inl _, s'') \<Rightarrow> ((500, None), s'')
           | (Inr (lo, hi, issues), s'') \<Rightarrow> ((200, Some (lo, hi, map gantt_row_of issues)), s'')))"

section \<open>Acceptance checks\<close>

definition board_acceptance_rollup :: "string \<Rightarrow> store \<Rightarrow> acceptance_rollup reply \<times> store" where
  "board_acceptance_rollup iid s = reply_or_500 200 (acceptance_rollup_of iid s)"

definition board_acceptance_report ::
  "timestamp \<Rightarrow> string \<Rightarrow> int \<Rightarrow> string \<Rightarrow> string option \<Rightarrow> string option \<Rightarrow> store \<Rightarrow> nat \<times> store" where
  "board_acceptance_report now iid idx status output session_id s =
     (case acceptance_status_from_str status of
        None \<Rightarrow> (400, s)
      | Some st \<Rightarrow>
          (case upsert_acceptance_result now iid idx st output session_id s of
             (Inl _, s') \<Rightarrow> (500, s') | (Inr True, s') \<Rightarrow> (200, s') | (Inr False, s') \<Rightarrow> (404, s')))"

section \<open>What a text contains\<close>

lemma contains_letter: "contains p s \<Longrightarrow> c \<in> set p \<Longrightarrow> c \<in> set s"
  unfolding contains_iff by auto

lemma prefix_same_word:
  "d \<notin> set u \<Longrightarrow> d \<notin> set w \<Longrightarrow> prefix (u @ d # v) (w @ d # r) \<Longrightarrow> u = w \<and> prefix v r"
proof (induction u arbitrary: w)
  case Nil
  then show ?case by (cases w) auto
next
  case (Cons x u)
  then show ?case by (cases w) auto
qed

text \<open>A pattern of two words is not in a word and what follows it, unless the second word is where it would have to be.\<close>
lemma contains_after_word:
  "d \<notin> set u \<Longrightarrow> d \<notin> set w \<Longrightarrow> \<not> prefix v r \<Longrightarrow> \<not> contains (u @ d # v) r \<Longrightarrow> \<not> contains (u @ d # v) (w @ d # r)"
proof (induction w)
  case Nil
  then show ?case using prefix_same_word [of d u "[]" v r] by auto
next
  case (Cons c w)
  then show ?case using prefix_same_word [of d u "c # w" v r] by auto
qed

definition no_blank :: "string \<Rightarrow> bool" where
  "no_blank t \<longleftrightarrow> CHR '' '' \<notin> set t"

lemma missing_issue_text:
  assumes "no_blank iid"
  shows "\<not> contains ''invalid transition'' (error_text (StorageSql (''issue not found: '' @ iid) NoRows))"
    and "contains ''not found'' (error_text (StorageSql (''issue not found: '' @ iid) NoRows))"
proof -
  have "\<not> contains (''invalid'' @ CHR '' '' # ''transition'') (iid @ CHR '' '' # ''(Query returned no rows)'')"
    using assms by (intro contains_after_word) (simp_all add: no_blank_def)
  then show "\<not> contains ''invalid transition'' (error_text (StorageSql (''issue not found: '' @ iid) NoRows))" by simp
  show "contains ''not found'' (error_text (StorageSql (''issue not found: '' @ iid) NoRows))" by simp
qed

lemma invalid_status_text:
  assumes "no_blank status"
  shows "\<not> contains ''invalid transition'' (error_text (Storage (''invalid status: '' @ status)))"
    and "\<not> contains ''not found'' (error_text (Storage (''invalid status: '' @ status)))"
proof -
  have "\<not> contains ''invalid transition'' status" "\<not> contains ''not found'' status"
    using assms contains_letter [of _ status "CHR '' ''"] by (fastforce simp: no_blank_def)+
  then show "\<not> contains ''invalid transition'' (error_text (Storage (''invalid status: '' @ status)))"
    "\<not> contains ''not found'' (error_text (Storage (''invalid status: '' @ status)))" by simp_all
qed

lemma transition_text: "contains ''invalid transition'' (error_text (transition_error a b))"
  by (simp add: transition_error_def)

section \<open>A promotion after the status is stored\<close>

lemma project_keys_set_status:
  "t_projects s' = t_projects s \<Longrightarrow> t_issues s' = set_status d x n st (t_issues s) \<Longrightarrow> issue_project_keys i s' = issue_project_keys i s"
proof -
  have "map ir_project_id (filter (\<lambda>bi. ir_id bi = i) (set_status d x n st rows)) =
      map ir_project_id (filter (\<lambda>bi. ir_id bi = i) rows)" for rows
    by (induction rows) (auto simp: set_status_def update_where_def)
  moreover have "issue_project_keys i u = concat (map (\<lambda>p. map bp_key (filter (\<lambda>bp. bp_id bp = p) (t_projects u)))
      (map ir_project_id (filter (\<lambda>bi. ir_id bi = i) (t_issues u))))" for u
    by (simp add: issue_project_keys_def comp_def)
  ultimately show "t_projects s' = t_projects s \<Longrightarrow> t_issues s' = set_status d x n st (t_issues s) \<Longrightarrow>
      issue_project_keys i s' = issue_project_keys i s" by (simp only:)
qed

text \<open>The promotion that follows a stored status fails only for an issue without a project and without a live attempt.\<close>
lemma promote_seed_outcome:
  fixes now uuid nt uc nc iid kind act s
  assumes "update_board_issue_status now uuid iid (issue_status_as_str InProgress) act s = (Inr (), u)"
    and "task_wf u" and "count_where (\<lambda>t. tk_issue_id t = Some iid) (t_tasks u) < 2 ^ 31 - 1"
    and "acc_wf u" and "\<And>n. fresh_checks uc 0 n u"
  defines "run \<equiv> update_board_issue_status_and_promote now uuid nt uc nc iid (issue_status_as_str InProgress) kind act s"
  shows "if live_task iid u = None \<and> issue_project_keys iid u = []
    then run = (Inl (StorageSql (''issue not found: '' @ iid) NoRows), u)
    else \<exists>t ts cs. run = (Inr (Some t), u\<lparr>t_tasks := ts, t_checks := cs\<rparr>) \<and> live_task iid (u\<lparr>t_tasks := ts, t_checks := cs\<rparr>) = Some t"
proof -
  obtain r v where pr: "promote_issue_to_task nt iid kind u = (r, v)" by fastforce
  have ok: "i32_ok (int (length (rows_of iid u)) + 1)" using assms(3) by (simp add: i32_ok_def count_where_def)
  show ?thesis
  proof (cases "live_task iid u = None \<and> issue_project_keys iid u = []")
    case True
    then have "promote_issue_to_task nt iid kind u = (Inl (StorageSql (''issue not found: '' @ iid) NoRows), u)"
      by (simp add: promote_wf [OF assms(2)])
    with True assms(1) show ?thesis
      by (simp add: run_def update_board_issue_status_and_promote_def promote_issue_to_task_def bind_def)
  next
    case False
    then have "\<exists>t ts. r = Inr t \<and> v = u\<lparr>t_tasks := ts\<rparr>"
    proof (cases "live_task iid u")
      case (Some t)
      with pr have "r = Inr t" "v = u\<lparr>t_tasks := t_tasks u\<rparr>" by (simp_all add: promote_wf [OF assms(2)])
      then show ?thesis by blast
    next
      case None
      with False obtain key keys where "issue_project_keys iid u = key # keys" by (cases "issue_project_keys iid u") auto
      with None pr ok show ?thesis by (auto simp: promote_wf [OF assms(2)] Let_def)
    qed
    then obtain t ts where t: "r = Inr t" "v = u\<lparr>t_tasks := ts\<rparr>" by blast
    let ?issue = "case find (\<lambda>r. ir_id r = iid) (t_issues v) of None \<Rightarrow> None | Some r \<Rightarrow> row_to_board_issue r"
    define checks where "checks = (case Option.bind ?issue bi_acceptance_criteria of
        None \<Rightarrow> [] | Some text \<Rightarrow> parse_acceptance_criteria text)"
    have "checks_wf checks"
      using parse_lines_wf [of "[]"] by (auto simp: checks_def parse_acceptance_criteria_def checks_wf_def split: option.split)
    moreover have "acc_wf v" "fresh_checks uc 0 (length checks) v"
      using assms(4,5) by (simp_all add: t acc_wf_def fresh_checks_def)
    ultimately obtain cs where seed: "seed_acceptance_checks nc uc iid checks v = (Inr (), v\<lparr>t_checks := cs\<rparr>)"
      using seed_effect by blast
    have "run = (Inr (Some t), v\<lparr>t_checks := cs\<rparr>)"
      using assms(1) pr seed unfolding run_def t(1)
      by (simp add: update_board_issue_status_and_promote_def promote_issue_to_task_def bind_def get_board_issue_def
          checks_def Let_def)
    moreover have "live_task iid v = Some t" using promote_result_live [OF assms(2)] pr t by blast
    ultimately show ?thesis using False t by (auto simp: live_task_def)
  qed
qed

lemma move_failed:
  assumes "update_board_issue_status now uuid iid status act s = (Inl e, s')" and "fresh_ids uuid 5 s"
  shows "board_move_issue now uuid nt uc nc iid status act s =
      (if contains ''invalid transition'' (error_text e) then ((422, None), s)
       else if contains ''not found'' (error_text e) then ((404, None), s) else ((500, None), s))"
  using assms(1) update_status_error [OF assms]
  by (simp add: board_move_issue_def update_board_issue_status_and_promote_def bind_def Let_def)

text \<open>A move whose status is stored: what is answered depends on the promotion only.\<close>
lemma move_stored:
  fixes now uuid nt uc nc iid status act s
  assumes "no_blank iid" and "fresh_ids uuid 5 s" and "task_wf s"
    and "count_where (\<lambda>t. tk_issue_id t = Some iid) (t_tasks s) < 2 ^ 31 - 1"
    and "acc_wf s" and "\<And>n. fresh_checks uc 0 n s"
    and st: "issue_status_from_str status = Some target" and r: "find (\<lambda>r. ir_id r = iid) (t_issues s) = Some r"
    and path: "transition_path (current_status r) target = Some path"
  defines "move \<equiv> board_move_issue now uuid nt uc nc iid status act s"
  shows "\<exists>s' r'. find (\<lambda>r. ir_id r = iid) (t_issues s') = Some r' \<and> ir_status r' = status \<and>
     (if target \<noteq> InProgress then \<exists>reply. move = ((200, Some reply), s') \<and> \<not> mv_dispatched reply \<and> t_tasks s' = t_tasks s
      else if live_task iid s = None \<and> issue_project_keys iid s = []
      then move = ((404, None), s') \<and> t_tasks s' = t_tasks s
      else \<exists>reply t. move = ((200, Some reply), s') \<and> mv_dispatched reply \<and> mv_task_id reply = Some (tk_id t) \<and>
        live_task iid s' = Some t)"
proof -
  have "fresh_ids uuid (length path) s"
    using assms(2) transition_path_length [OF path] by (auto simp: fresh_ids_def intro: inj_on_subset)
  note up = update_status_ok [OF r st path this]
  have stx: "issue_status_as_str target = status" using st by (simp add: issue_status_codec.from_str_iff)
  define u where "u = snd (update_board_issue_status now uuid iid status act s)"
  have u: "update_board_issue_status now uuid iid status act s = (Inr (), u)" "t_tasks u = t_tasks s"
      "t_checks u = t_checks s" "issue_project_keys iid u = issue_project_keys iid s"
    by (simp_all add: u_def up project_keys_set_status)
  obtain r' where r': "find (\<lambda>r. ir_id r = iid) (t_issues u) = Some r'" "ir_status r' = status"
    by (simp add: u_def up find_set_status r stx)
  show ?thesis
  proof (cases "target = InProgress")
    case False
    then have "status \<noteq> issue_status_as_str InProgress" using stx issue_status_codec.as_str_inj by metis
    then have "update_board_issue_status_and_promote now uuid nt uc nc iid status kind act s = (Inr None, u)" for kind
      by (simp add: update_board_issue_status_and_promote_def bind_def u)
    then have "\<exists>reply. move = ((200, Some reply), u) \<and> \<not> mv_dispatched reply"
      by (simp add: move_def board_move_issue_def get_board_issue_def)
    with False r' u(2) show ?thesis by (auto intro!: exI [of _ u])
  next
    case True
    have live: "live_task iid u = live_task iid s" by (simp add: live_task_def u)
    have ok: "task_wf u" "count_where (\<lambda>t. tk_issue_id t = Some iid) (t_tasks u) < 2 ^ 31 - 1" "acc_wf u"
        "fresh_checks uc 0 n u" for n
      using assms(3-6) by (simp_all add: u task_wf_def acc_wf_def fresh_checks_def)
    have "status = issue_status_as_str InProgress" using stx True by simp
    note out = promote_seed_outcome [OF u(1) [unfolded this] ok [unfolded this], folded this, of nt nc "resolve_agent_kind None",
        unfolded live u(4)]
    show ?thesis
    proof (cases "live_task iid s = None \<and> issue_project_keys iid s = []")
      case gone: True
      with out missing_issue_text [OF assms(1)] have "move = ((404, None), u)"
        by (simp add: move_def board_move_issue_def Let_def)
      with True gone r' u(2) show ?thesis by (auto intro!: exI [of _ u])
    next
      case there: False
      with out obtain t ts cs where t: "update_board_issue_status_and_promote now uuid nt uc nc iid status
          (resolve_agent_kind None) act s = (Inr (Some t), u\<lparr>t_tasks := ts, t_checks := cs\<rparr>)"
          "live_task iid (u\<lparr>t_tasks := ts, t_checks := cs\<rparr>) = Some t" by auto
      then have "\<exists>reply. move = ((200, Some reply), u\<lparr>t_tasks := ts, t_checks := cs\<rparr>) \<and> mv_dispatched reply \<and>
          mv_task_id reply = Some (tk_id t)"
        by (simp add: move_def board_move_issue_def get_board_issue_def)
      with True there r' t(2) show ?thesis by (auto intro!: exI [of _ "u\<lparr>t_tasks := ts, t_checks := cs\<rparr>"])
    qed
  qed
qed

section \<open>Properties\<close>

text \<open>C39: 
  What a move is answered, for ids and statuses without blanks, on a database whose tasks and checks are in order and whose
  generated ids are new: 500 for a status that does not exist, 404 for a missing issue, 422 when no path of transitions leads to
  the status, all three without touching the store. Otherwise the status is stored. A move to any status but in\_progress is
  answered 200; a move to in\_progress also promotes, and is answered 200 with the id of the issue's live task, unless the issue
  has no live task and its project is missing: that one is answered 404 although the status stays stored.
\<close>
theorem move_route_codes:
  fixes now uuid nt uc nc iid status act s
  assumes "no_blank iid" and "no_blank status" and "fresh_ids uuid 5 s" and "task_wf s"
    and "count_where (\<lambda>t. tk_issue_id t = Some iid) (t_tasks s) < 2 ^ 31 - 1"
    and "acc_wf s" and "\<And>n. fresh_checks uc 0 n s"
  defines "move \<equiv> board_move_issue now uuid nt uc nc iid status act s"
  shows "(case (issue_status_from_str status, find (\<lambda>r. ir_id r = iid) (t_issues s)) of
      (None, _) \<Rightarrow> move = ((500, None), s)
    | (Some _, None) \<Rightarrow> move = ((404, None), s)
    | (Some target, Some r) \<Rightarrow>
        if transition_path (current_status r) target = None then move = ((422, None), s)
        else \<exists>s' r'. find (\<lambda>r. ir_id r = iid) (t_issues s') = Some r' \<and> ir_status r' = status \<and>
          (if target \<noteq> InProgress then \<exists>reply. move = ((200, Some reply), s') \<and> \<not> mv_dispatched reply \<and> t_tasks s' = t_tasks s
           else if live_task iid s = None \<and> issue_project_keys iid s = []
           then move = ((404, None), s') \<and> t_tasks s' = t_tasks s
           else \<exists>reply t. move = ((200, Some reply), s') \<and> mv_dispatched reply \<and> mv_task_id reply = Some (tk_id t) \<and>
             live_task iid s' = Some t))"
proof (cases "issue_status_from_str status")
  case None
  then have "update_board_issue_status now uuid iid status act s = (Inl (Storage (''invalid status: '' @ status)), s)"
    by (simp add: update_board_issue_status_def)
  from move_failed [OF this assms(3)] None invalid_status_text [OF assms(2)] show ?thesis by (simp add: move_def)
next
  case st: (Some target)
  show ?thesis
  proof (cases "find (\<lambda>r. ir_id r = iid) (t_issues s)")
    case None
    then have "update_board_issue_status now uuid iid status act s = (Inl (StorageSql (''issue not found: '' @ iid) NoRows), s)"
      using st by (simp add: update_board_issue_status_def bind_def query_row_def find_filter_Nil)
    from move_failed [OF this assms(3)] st None missing_issue_text [OF assms(1)] show ?thesis by (simp add: move_def)
  next
    case r: (Some r)
    show ?thesis
    proof (cases "transition_path (current_status r) target")
      case None
      have "update_board_issue_status now uuid iid status act s = (Inl (transition_error (current_status r) target), s)"
        by (simp add: update_status_reads [OF r st] None)
      from move_failed [OF this assms(3)] st r None transition_text show ?thesis by (simp add: move_def)
    next
      case (Some path)
      from move_stored [OF assms(1,3-7) st r this, of now nt nc act, folded move_def] st r Some show ?thesis by simp
    qed
  qed
qed

text \<open>A promotion that works, and one whose project is missing: the answer is 404 and the issue is in\_progress all the same.\<close>
lemma move_route_codes_witness:
  "fst (fst (board_move_issue (\<lambda>_. ''t1'') tick_uuid ''t'' tick_uuid ''t'' ''i1'' ''in_progress'' sample_actor
      (sample_board [sample_issue ''i1'' Todo ''t0'']))) = 200 \<and>
   (\<exists>s' r'. board_move_issue (\<lambda>_. ''t1'') tick_uuid ''t'' tick_uuid ''t'' ''i1'' ''in_progress'' sample_actor
      (sample_store [sample_issue ''i1'' Todo ''t0'']) = ((404, None), s') \<and>
     find (\<lambda>r. ir_id r = ''i1'') (t_issues s') = Some r' \<and> ir_status r' = ''in_progress'')"
proof
  let ?r = "issue_to_row ''dev'' (sample_issue ''i1'' Todo ''t0'')"
  have cur: "current_status ?r = Todo" "issue_status_from_str ''in_progress'' = Some InProgress"
    by (simp_all add: current_status_def issue_status_from_str_def)
  have path: "transition_path Todo InProgress \<noteq> None" by (simp add: transition_path_def status_path_simps)
  have blank: "no_blank ''i1''" "no_blank ''in_progress''" by (simp_all add: no_blank_def)
  have store: "task_wf (sample_store bs)" "t_tasks (sample_store bs) = []" "acc_wf (sample_store bs)"
      "fresh_checks tick_uuid 0 n (sample_store bs)" "live_task i (sample_store bs) = None" "issue_project_keys i (sample_store bs) = []"
      for bs n i
    using sample_acc_wf by (simp_all add: task_wf_def live_task_def sample_store_def open_with_device_def issue_project_keys_def
        acc_wf_def fresh_checks_def)
  have board: "acc_wf (sample_board bs)" "fresh_checks tick_uuid 0 n (sample_board bs)" "t_events (sample_board bs) = []" for bs n
    using store(3,4) by (simp_all add: acc_wf_def fresh_checks_def sample_board_def sample_store_def open_with_device_def)
  have key: "issue_project_keys ''i1'' (sample_board [sample_issue ''i1'' Todo ''t0'']) = [''P'']" by (simp add: issue_project_keys_def)
  show "fst (fst (board_move_issue (\<lambda>_. ''t1'') tick_uuid ''t'' tick_uuid ''t'' ''i1'' ''in_progress'' sample_actor
      (sample_board [sample_issue ''i1'' Todo ''t0'']))) = 200"
    using move_route_codes [OF blank fresh_tick [OF board(3)] sample_task_wf(1) _ board(1,2),
        of "[sample_issue ''i1'' Todo ''t0'']" "\<lambda>_. ''t1''" "''t''" "''t''" sample_actor] path
    by (auto simp: cur key count_where_def)
  show "\<exists>s' r'. board_move_issue (\<lambda>_. ''t1'') tick_uuid ''t'' tick_uuid ''t'' ''i1'' ''in_progress'' sample_actor
      (sample_store [sample_issue ''i1'' Todo ''t0'']) = ((404, None), s') \<and>
     find (\<lambda>r. ir_id r = ''i1'') (t_issues s') = Some r' \<and> ir_status r' = ''in_progress''"
    using move_route_codes [OF blank fresh_tick store(1) _ store(3,4),
        of "[sample_issue ''i1'' Todo ''t0'']" "\<lambda>_. ''t1''" "''t''" "''t''" sample_actor] path
    by (auto simp: cur store count_where_def)
qed

lemma memory_row_entry: "\<not> me_synced e \<Longrightarrow> row_to_memory_entry (memory_to_row e) = e"
  by (simp add: row_to_memory_entry_def memory_to_row_def memory_type_codec.from_as)

text \<open>
  The id the memory upsert answers is only good for a new name: a read of it then gives the entry answered; when the device has
  an entry of the name under another id, that one is overwritten and keeps its id, and a read of the id answered gives 404.
\<close>
theorem memory_answered_id:
  assumes "memory_upsert_route now uuid b s = ((201, Some e), s')" and "\<forall>r \<in> set (t_memories s). mr_id r \<noteq> me_id e"
  shows "case find (same_name e) (t_memories s) of
      None \<Rightarrow> fst (memory_get_route (me_id e) s') = (200, Some e)
    | Some r \<Rightarrow> fst (memory_get_route (me_id e) s') = (404, None) \<and>
        (\<exists>r' \<in> set (t_memories s'). mr_id r' = mr_id r \<and> mr_body r' = mb_body b)"
proof -
  obtain ty where e: "e = body_memory now uuid ty b" and up: "\<exists>new. upsert_memory e s = (Inr new, s')"
    using assms(1) by (auto simp: memory_upsert_route_def split: option.splits if_splits sum.splits prod.splits)
  show ?thesis
  proof (cases "find (same_name e) (t_memories s)")
    case None
    then have "\<not> (\<exists>r \<in> set (t_memories s). same_name e r)" by (auto simp: find_None_iff)
    then have rows: "t_memories s' = t_memories s @ [memory_to_row e]" using up by (auto simp: upsert_apply split: if_splits)
    have "find (\<lambda>r. mr_id r = me_id e) (t_memories s) = None" using assms(2) by (auto simp: find_None_iff)
    moreover have "mr_id (memory_to_row e) = me_id e" "\<not> me_synced e" by (simp_all add: memory_to_row_def e body_memory_def)
    ultimately show ?thesis using None
      by (simp add: memory_get_route_def get_memory_def reply_found_def rows find_append memory_row_entry)
  next
    case (Some r)
    then have r: "r \<in> set (t_memories s)" "same_name e r" using find_SomeD [OF Some] by simp_all
    then have "\<exists>r \<in> set (t_memories s). same_name e r" by blast
    then have rows: "t_memories s' = update_where (same_name e) (overwrite_memory e) (t_memories s)"
      using up unfolding upsert_apply by (simp only: if_True) auto
    have "map mr_id (t_memories s') = map mr_id (t_memories s)" unfolding rows by (rule map_update_where) simp
    then have "me_id e \<notin> mr_id ` set (t_memories s')" using assms(2) by (metis imageE set_map)
    then have "find (\<lambda>r. mr_id r = me_id e) (t_memories s') = None" by (simp add: find_None_key)
    moreover have "overwrite_memory e r \<in> set (t_memories s')" unfolding rows set_update_where using r by force
    moreover have "mr_id (overwrite_memory e r) = mr_id r \<and> mr_body (overwrite_memory e r) = mb_body b"
      by (simp add: overwrite_memory_def e body_memory_def)
    ultimately have "\<exists>r' \<in> set (t_memories s'). mr_id r' = mr_id r \<and> mr_body r' = mb_body b"
      "fst (memory_get_route (me_id e) s') = (404, None)" by (blast, simp add: memory_get_route_def get_memory_def reply_found_def)
    with Some show ?thesis by simp
  qed
qed

definition sample_memory_body :: "string \<Rightarrow> memory_body" where
  "sample_memory_body i = \<lparr>mb_memory_type = ''user'', mb_name = ''n'', mb_description = [], mb_body = ''b'', mb_tags = [],
     mb_device_id = ''dev'', mb_id = Some i\<rparr>"

lemma memory_answered_id_witness:
  "\<exists>e s' e' s''. memory_upsert_route ''1'' ''u'' (sample_memory_body ''m1'') (open_with_device True ''dev'') = ((201, Some e), s') \<and>
     memory_upsert_route ''2'' ''u'' (sample_memory_body ''m2'') s' = ((201, Some e'), s'') \<and> me_id e' = ''m2'' \<and>
     fst (memory_get_route ''m2'' s'') = (404, None)"
proof -
  let ?e = "\<lambda>t i. body_memory t ''u'' Mem_User (sample_memory_body i)"
  have trims: "trim ''n'' \<noteq> []" "trim ''dev'' \<noteq> []" by (simp_all add: trim_printable printable_def)
  obtain s' where s': "memory_upsert_route ''1'' ''u'' (sample_memory_body ''m1'') (open_with_device True ''dev'') = ((201, Some (?e ''1'' ''m1'')), s')"
      "t_memories s' = [memory_to_row (?e ''1'' ''m1'')]"
    using trims by (simp add: memory_upsert_route_def sample_memory_body_def memory_type_from_str_def upsert_apply open_with_device_def body_memory_def)
  have row: "same_name (?e ''2'' ''m2'') (memory_to_row (?e ''1'' ''m1''))" "me_id (?e ''2'' ''m2'') = ''m2''"
    by (simp_all add: same_name_def memory_to_row_def body_memory_def sample_memory_body_def)
  obtain s'' where s'': "memory_upsert_route ''2'' ''u'' (sample_memory_body ''m2'') s' = ((201, Some (?e ''2'' ''m2'')), s'')"
    using trims s'(2) row by (simp add: memory_upsert_route_def sample_memory_body_def memory_type_from_str_def upsert_apply body_memory_def)
  have "\<forall>r \<in> set (t_memories s'). mr_id r \<noteq> me_id (?e ''2'' ''m2'')"
    by (simp add: s'(2) memory_to_row_def body_memory_def sample_memory_body_def)
  from memory_answered_id [OF s'' this] have "fst (memory_get_route ''m2'' s'') = (404, None)" using row by (simp add: s'(2))
  with s'(1) s'' row(2) show ?thesis by blast
qed

lemma create_issue_step:
  assumes "find (\<lambda>r. bp_id r = ib_project_id b) (t_projects s) = Some r" and "i32_ok (bp_counter r + 1)"
  shows "board_create_issue t0 now b s =
    (let iid = bp_key r @ ''-'' @ show_int (bp_counter r + 1);
         s1 = s\<lparr>t_projects := bump (st_device_id s) t0 (ib_project_id b) (t_projects s)\<rparr>
     in if iid \<in> ir_id ` set (t_issues s) then ((500, None), s1)
        else ((201, Some (body_issue now iid b)), s1\<lparr>t_issues := t_issues s @ [issue_to_row (st_device_id s) (body_issue now iid b)]\<rparr>))"
    and "find (\<lambda>r. bp_id r = ib_project_id b) (bump (st_device_id s) t0 (ib_project_id b) (t_projects s)) =
      Some (r\<lparr>bp_counter := bp_counter r + 1, pr_device_id := st_device_id s, pr_updated_at := t0, pr_synced := False\<rparr>)"
proof -
  let ?r = "r\<lparr>bp_counter := bp_counter r + 1, pr_device_id := st_device_id s, pr_updated_at := t0, pr_synced := False\<rparr>"
  show found: "find (\<lambda>r. bp_id r = ib_project_id b) (bump (st_device_id s) t0 (ib_project_id b) (t_projects s)) = Some ?r"
    using assms(1) by (simp add: bump_def find_update_where_key)
  have "bp_key (board_project.truncate ?r) = bp_key r" by (simp add: board_project.defs)
  moreover have "row_to_project ?r = Some (board_project.truncate ?r)" using assms(2) by (simp add: row_to_project_def)
  moreover have "bi_id (body_issue now iid b) = iid" for iid by (simp add: body_issue_def)
  ultimately show "board_create_issue t0 now b s =
    (let iid = bp_key r @ ''-'' @ show_int (bp_counter r + 1);
         s1 = s\<lparr>t_projects := bump (st_device_id s) t0 (ib_project_id b) (t_projects s)\<rparr>
     in if iid \<in> ir_id ` set (t_issues s) then ((500, None), s1)
        else ((201, Some (body_issue now iid b)), s1\<lparr>t_issues := t_issues s @ [issue_to_row (st_device_id s) (body_issue now iid b)]\<rparr>))"
    using assms(2) found
    by (simp add: board_create_issue_def increment_counter_apply [OF assms(1)] get_board_project_def insert_issue_apply Let_def)
qed

definition create_again :: "timestamp \<Rightarrow> issue_body \<Rightarrow> nat \<Rightarrow> store \<Rightarrow> store" where
  "create_again now b i s = ((\<lambda>s. snd (board_create_issue now now b s)) ^^ i) s"

text \<open>C40: 
  Creating an issue gets past ids that are taken: imported issues may have the next k ids of a project; then a create request is
  answered 500 k times, each time with the counter moved on, and the next one succeeds with the first free id.
\<close>
theorem create_gets_past_taken_ids:
  assumes "find (\<lambda>r. bp_id r = ib_project_id b) (t_projects s) = Some r" and "i32_ok (bp_counter r)" and "i32_ok (bp_counter r + 1 + int k)"
    and "\<forall>j < k. bp_key r @ ''-'' @ show_int (bp_counter r + 1 + int j) \<in> ir_id ` set (t_issues s)"
    and "bp_key r @ ''-'' @ show_int (bp_counter r + 1 + int k) \<notin> ir_id ` set (t_issues s)"
  shows "(\<forall>j < k. fst (board_create_issue now now b (create_again now b j s)) = (500, None)) \<and>
    (\<exists>e. fst (board_create_issue now now b (create_again now b k s)) = (201, Some e) \<and>
      bi_id e = bp_key r @ ''-'' @ show_int (bp_counter r + 1 + int k))"
  using assms
proof (induction k arbitrary: s r)
  case 0
  from create_issue_step(1) [OF 0(1), of now now] 0(3,5) show ?case by (simp add: create_again_def body_issue_def Let_def)
next
  case (Suc k)
  let ?s = "s\<lparr>t_projects := bump (st_device_id s) now (ib_project_id b) (t_projects s)\<rparr>"
  let ?r = "r\<lparr>bp_counter := bp_counter r + 1, pr_device_id := st_device_id s, pr_updated_at := now, pr_synced := False\<rparr>"
  have ok: "i32_ok (bp_counter r + 1)" using Suc.prems(2,3) by (simp add: i32_ok_def)
  have taken: "bp_key r @ ''-'' @ show_int (bp_counter r + 1) \<in> ir_id ` set (t_issues s)" using Suc.prems(4) by (metis int_ops(1) add_0_right zero_less_Suc)
  have first: "board_create_issue now now b s = ((500, None), ?s)"
    using create_issue_step(1) [OF Suc.prems(1) ok, of now now] taken by (simp add: Let_def)
  have later: "create_again now b (Suc j) s = create_again now b j ?s" for j
    unfolding create_again_def funpow_Suc_right by (simp add: first)
  have IH: "(\<forall>j < k. fst (board_create_issue now now b (create_again now b j ?s)) = (500, None)) \<and>
    (\<exists>e. fst (board_create_issue now now b (create_again now b k ?s)) = (201, Some e) \<and>
      bi_id e = bp_key ?r @ ''-'' @ show_int (bp_counter ?r + 1 + int k))"
  proof (rule Suc.IH)
    show "find (\<lambda>r. bp_id r = ib_project_id b) (t_projects ?s) = Some ?r" using create_issue_step(2) [OF Suc.prems(1) ok] by simp
    show "i32_ok (bp_counter ?r)" "i32_ok (bp_counter ?r + 1 + int k)" using ok Suc.prems(3) by (simp_all add: ac_simps)
    show "\<forall>j < k. bp_key ?r @ ''-'' @ show_int (bp_counter ?r + 1 + int j) \<in> ir_id ` set (t_issues ?s)"
    proof (intro allI impI)
      fix j assume "j < k"
      then have "bp_key r @ ''-'' @ show_int (bp_counter r + 1 + int (Suc j)) \<in> ir_id ` set (t_issues s)" using Suc.prems(4) by blast
      then show "bp_key ?r @ ''-'' @ show_int (bp_counter ?r + 1 + int j) \<in> ir_id ` set (t_issues ?s)" by (simp add: ac_simps)
    qed
    show "bp_key ?r @ ''-'' @ show_int (bp_counter ?r + 1 + int k) \<notin> ir_id ` set (t_issues ?s)"
      using Suc.prems(5) by (simp add: ac_simps)
  qed
  have taken_all: "fst (board_create_issue now now b (create_again now b j s)) = (500, None)" if "j < Suc k" for j
  proof (cases j)
    case 0
    then show ?thesis by (simp add: create_again_def first)
  next
    case (Suc i)
    then show ?thesis using IH that later by simp
  qed
  obtain e where "fst (board_create_issue now now b (create_again now b k ?s)) = (201, Some e)"
      "bi_id e = bp_key ?r @ ''-'' @ show_int (bp_counter ?r + 1 + int k)" using IH by blast
  moreover have "bp_counter ?r + 1 + int k = bp_counter r + 1 + int (Suc k)" "bp_key ?r = bp_key r" by simp_all
  ultimately have "\<exists>e. fst (board_create_issue now now b (create_again now b (Suc k) s)) = (201, Some e) \<and>
      bi_id e = bp_key r @ ''-'' @ show_int (bp_counter r + 1 + int (Suc k))" unfolding later by metis
  moreover have "\<forall>j < Suc k. fst (board_create_issue now now b (create_again now b j s)) = (500, None)" using taken_all by blast
  ultimately show ?case by blast
qed

definition sample_issue_body :: issue_body where
  "sample_issue_body = \<lparr>ib_project_id = ''p1'', ib_title = ''T'', ib_description = None, ib_priority = None, ib_labels = [],
     ib_parent_id = None, ib_created_by_id = ''u'', ib_created_by_name = ''U'', ib_created_by_type = None,
     ib_github_issue_number = None, ib_github_url = None, ib_acceptance_criteria = None\<rparr>"

definition taken_store :: store where
  "taken_store = (sample_store [sample_issue ''K-1'' Todo ''t0''])
     \<lparr>t_projects := [project_to_row ''dev'' ''t0'' \<lparr>bp_id = ''p1'', bp_name = ''P'', bp_key = ''K'', bp_counter = 0, bp_github_repo = None\<rparr>]\<rparr>"

lemma create_gets_past_taken_ids_witness:
  "fst (board_create_issue ''t'' ''t'' sample_issue_body taken_store) = (500, None) \<and>
   (\<exists>e. fst (board_create_issue ''t'' ''t'' sample_issue_body (create_again ''t'' sample_issue_body 1 taken_store)) = (201, Some e) \<and>
     bi_id e = ''K-2'')"
proof -
  let ?r = "project_to_row ''dev'' ''t0'' \<lparr>bp_id = ''p1'', bp_name = ''P'', bp_key = ''K'', bp_counter = 0, bp_github_repo = None\<rparr>"
  have r: "bp_key ?r = ''K''" "bp_counter ?r = 0" "bp_id ?r = ''p1''" by (simp_all add: project_to_row_def board_project.defs)
  have n: "show_int 1 = ''1''" "show_int 2 = ''2''" by (simp_all add: show_int_def show_nat.simps digit_def char_of_eq_iff)
  have ids: "ir_id ` set (t_issues taken_store) = {''K-1''}" by (simp add: taken_store_def sample_store_def)
  show ?thesis
    using create_gets_past_taken_ids [of sample_issue_body taken_store ?r 1 "''t''"]
    by (simp add: r n ids i32_ok_def sample_issue_body_def taken_store_def create_again_def)
qed

text \<open>A date is checked by its shape alone.\<close>
lemma impossible_date_accepted: "is_yyyy_mm_dd ''2026-99-99''"
  by (simp add: is_yyyy_mm_dd_def is_ascii_digit_def)

text \<open>Assigning an issue that does not exist is answered 200.\<close>
lemma assign_missing_issue:
  assumes "iid \<notin> ir_id ` set (t_issues s)"
  shows "board_assign_issue now iid a n ty s = ((200, None), s)"
proof -
  have "update_where (\<lambda>r. ir_id r = iid) f (t_issues s) = t_issues s" for f
    using assms by (intro update_where_none) auto
  moreover have "find (\<lambda>r. ir_id r = iid) (t_issues s) = None" using assms by (simp add: find_None_key)
  ultimately show ?thesis by (simp add: board_assign_issue_def assign_board_issue_def get_board_issue_def bind_def)
qed

end
