(* ===== verification/Vault_Sync.thy ===== *)
theory Vault_Sync
  imports Sync_Engine App_Install Context_Store
begin

text \<open>
  Vault sync (gctrl-sync/src/vault.rs and its routes): the plan of a push against the manifest of a project, and the push of the
  plan to the R2 bucket. A directory is a tree; the file system gives the tree at a path. What a file holds when it is read again
  for its upload, how the PUT ends and the clock are arguments, one for each entry of the plan. SHA-256 is an argument.
\<close>

section \<open>Types\<close>

datatype sync_action = Upload | Skip_Hash_Match | Skip_Outside_Prefix

record plan_entry =
  pe_rel_path :: string
  pe_sha256 :: string
  pe_size_bytes :: nat
  pe_action :: sync_action

record vault_result =
  vr_project_key :: string
  vr_plan :: "plan_entry list"
  vr_uploaded :: nat
  vr_skipped :: nat
  vr_failed :: nat
  vr_bytes_uploaded :: nat

record vault_opts =
  vo_dry_run :: bool
  vo_force :: bool
  vo_concurrency :: nat

record manifest_entry =
  mt_sha256 :: string
  mt_size_bytes :: nat
  mt_uploaded_at :: timestamp
  mt_etag :: "string option"

record vault_manifest =
  vn_version :: nat
  vn_project_key :: string
  vn_updated_at :: "timestamp option"
  vn_entries :: "string \<Rightarrow> manifest_entry option"

definition empty_manifest :: "string \<Rightarrow> vault_manifest" where
  "empty_manifest project_key = \<lparr>vn_version = 1, vn_project_key = project_key, vn_updated_at = None, vn_entries = Map.empty\<rparr>"

text \<open>The bucket, and the manifest file of each project: absent, unreadable or as it was saved.\<close>
record vault_state =
  va_r2 :: "string \<Rightarrow> string option"
  va_manifests :: "string \<Rightarrow> (sync_error + vault_manifest) option"

definition load_manifest :: "string \<Rightarrow> vault_state \<Rightarrow> sync_error + vault_manifest" where
  "load_manifest project_key st =
     (case va_manifests st project_key of None \<Rightarrow> Inr (empty_manifest project_key) | Some r \<Rightarrow> r)"

text \<open>The file is replaced by renaming: it is the old one or the new one.\<close>
definition save_manifest :: "string option \<Rightarrow> vault_manifest \<Rightarrow> vault_state \<Rightarrow> (sync_error + unit) \<times> vault_state" where
  "save_manifest err m st =
     (case err of
        Some e \<Rightarrow> (Inl (SyncIo e), st)
      | None \<Rightarrow> (Inr (), st\<lparr>va_manifests := (va_manifests st)(vn_project_key m \<mapsto> Inr m)\<rparr>))"

section \<open>The plan\<close>

text \<open>What is at a path: a file with its contents or the error of reading it, a directory with its entries or the error of listing
  it, or something else, a symbolic link for instance, which the walk does not follow.\<close>
datatype node = File_Node "string + string" | Dir_Node "string + (string \<times> node) list" | Other_Node

text \<open>WalkDir sorted by file name: the files below a node with their components, and the errors met.\<close>
fun walk_node :: "string list \<Rightarrow> node \<Rightarrow> (sync_error + string list \<times> (string + string)) list" where
  "walk_node rel (File_Node c) = [Inr (rel, c)]"
| "walk_node rel (Dir_Node (Inl e)) = [Inl (SyncIo e)]"
| "walk_node rel (Dir_Node (Inr entries)) =
     concat (map snd (order_asc fst (map (\<lambda>(name, x). (name, walk_node (rel @ [name]) x)) entries)))"
| "walk_node rel Other_Node = []"

definition is_dotted :: "string list \<Rightarrow> bool" where
  "is_dotted rel \<longleftrightarrow> list_ex (\<lambda>c. prefix ''.'' c) rel"

definition rel_string :: "string list \<Rightarrow> string" where
  "rel_string rel = map (\<lambda>c. if c = CHR 0x5C then CHR ''/'' else c) (join ''/'' rel)"

definition is_under_any_prefix :: "string \<Rightarrow> string list \<Rightarrow> bool" where
  "is_under_any_prefix rel_path subtrees \<longleftrightarrow> subtrees = [] \<or>
     list_ex (\<lambda>p. let p = rev (dropWhile (\<lambda>c. c = CHR ''/'') (rev p)) in rel_path = p \<or> prefix (p @ ''/'') rel_path) subtrees"

definition planned_action :: "string list \<Rightarrow> vault_manifest \<Rightarrow> bool \<Rightarrow> string \<Rightarrow> string \<Rightarrow> sync_action" where
  "planned_action subtrees manifest force rel sha =
     (if \<not> is_under_any_prefix rel subtrees then Skip_Outside_Prefix
      else if \<not> force \<and> map_option mt_sha256 (vn_entries manifest rel) = Some sha then Skip_Hash_Match
      else Upload)"

definition planned_entry :: "(string \<Rightarrow> string) \<Rightarrow> string list \<Rightarrow> vault_manifest \<Rightarrow> bool \<Rightarrow> string list \<Rightarrow> string \<Rightarrow> plan_entry" where
  "planned_entry sha256 subtrees manifest force rel content =
     \<lparr>pe_rel_path = rel_string rel, pe_sha256 = sha256 content, pe_size_bytes = length content,
      pe_action = planned_action subtrees manifest force (rel_string rel) (sha256 content)\<rparr>"

fun plan_items ::
  "(string \<Rightarrow> string) \<Rightarrow> string list \<Rightarrow> vault_manifest \<Rightarrow> bool \<Rightarrow> (sync_error + string list \<times> (string + string)) list \<Rightarrow>
    sync_error + plan_entry list" where
  "plan_items sha256 subtrees manifest force [] = Inr []"
| "plan_items sha256 subtrees manifest force (Inl e # items) = Inl e"
| "plan_items sha256 subtrees manifest force (Inr (rel, content) # items) =
     (if is_dotted rel then plan_items sha256 subtrees manifest force items
      else case content of
          Inl e \<Rightarrow> Inl (SyncIo e)
        | Inr c \<Rightarrow>
            (case plan_items sha256 subtrees manifest force items of
               Inl e \<Rightarrow> Inl e
             | Inr plan \<Rightarrow> Inr (planned_entry sha256 subtrees manifest force rel c # plan)))"

text \<open>The tree below vault\_root joined with the project key; a missing one gives an empty plan.\<close>
definition plan_push ::
  "(string \<Rightarrow> string) \<Rightarrow> (string list \<Rightarrow> node option) \<Rightarrow> string list \<Rightarrow> string \<Rightarrow> string list \<Rightarrow> vault_manifest \<Rightarrow> bool \<Rightarrow>
    sync_error + plan_entry list" where
  "plan_push sha256 fs vault_root project_key subtrees manifest force =
     (case fs (join_path vault_root project_key) of
        None \<Rightarrow> Inr []
      | Some tree \<Rightarrow> plan_items sha256 subtrees manifest force (walk_node [] tree))"

definition vault_r2_key :: "string \<Rightarrow> string \<Rightarrow> string" where
  "vault_r2_key project_key rel_path = ''vaults/'' @ project_key @ ''/'' @ rel_path"

section \<open>The push\<close>

text \<open>How a PUT ends: done, failed, or reported as failed although the object was stored.\<close>
datatype put_outcome = Put_Done | Put_Failed | Put_Stored_Unreported

record upload_env =
  ue_body :: "string + string"
  ue_put :: put_outcome
  ue_time :: timestamp

record push_progress =
  pp_manifest :: vault_manifest
  pp_r2 :: "string \<Rightarrow> string option"
  pp_uploaded :: nat
  pp_skipped :: nat
  pp_failed :: nat
  pp_bytes :: nat

definition push_entry :: "string \<Rightarrow> plan_entry \<Rightarrow> upload_env \<Rightarrow> push_progress \<Rightarrow> push_progress" where
  "push_entry project_key e u p =
     (if pe_action e \<noteq> Upload then p\<lparr>pp_skipped := Suc (pp_skipped p)\<rparr>
      else case ue_body u of
          Inl _ \<Rightarrow> p\<lparr>pp_failed := Suc (pp_failed p)\<rparr>
        | Inr body \<Rightarrow>
            (let key = vault_r2_key project_key (pe_rel_path e)
             in case ue_put u of
                  Put_Done \<Rightarrow> p\<lparr>pp_uploaded := Suc (pp_uploaded p), pp_bytes := pp_bytes p + length body,
                    pp_r2 := (pp_r2 p)(key \<mapsto> body),
                    pp_manifest := (pp_manifest p)\<lparr>vn_entries := (vn_entries (pp_manifest p))(pe_rel_path e \<mapsto>
                      \<lparr>mt_sha256 = pe_sha256 e, mt_size_bytes = pe_size_bytes e, mt_uploaded_at = ue_time u, mt_etag = None\<rparr>)\<rparr>\<rparr>
                | Put_Failed \<Rightarrow> p\<lparr>pp_failed := Suc (pp_failed p)\<rparr>
                | Put_Stored_Unreported \<Rightarrow> p\<lparr>pp_failed := Suc (pp_failed p), pp_r2 := (pp_r2 p)(key \<mapsto> body)\<rparr>))"

fun push_entries :: "string \<Rightarrow> (nat \<Rightarrow> upload_env) \<Rightarrow> nat \<Rightarrow> plan_entry list \<Rightarrow> push_progress \<Rightarrow> push_progress" where
  "push_entries project_key env i [] p = p"
| "push_entries project_key env i (e # plan) p = push_entries project_key env (Suc i) plan (push_entry project_key e (env i) p)"

definition push_to_r2 ::
  "(string \<Rightarrow> string) \<Rightarrow> (string list \<Rightarrow> node option) \<Rightarrow> (nat \<Rightarrow> upload_env) \<Rightarrow> timestamp \<Rightarrow> string option \<Rightarrow> string list \<Rightarrow>
    string \<Rightarrow> string list \<Rightarrow> vault_opts \<Rightarrow> vault_state \<Rightarrow> (sync_error + vault_result) \<times> vault_state" where
  "push_to_r2 sha256 fs env now save_err vault_root project_key subtrees opts st =
     (case load_manifest project_key st of
        Inl e \<Rightarrow> (Inl e, st)
      | Inr manifest \<Rightarrow>
          (case plan_push sha256 fs vault_root project_key subtrees manifest (vo_force opts) of
             Inl e \<Rightarrow> (Inl e, st)
           | Inr plan \<Rightarrow>
               if vo_dry_run opts
               then (Inr \<lparr>vr_project_key = project_key, vr_plan = plan, vr_uploaded = 0,
                       vr_skipped = length (filter (\<lambda>e. pe_action e \<noteq> Upload) plan), vr_failed = 0, vr_bytes_uploaded = 0\<rparr>, st)
               else
                 (let p = push_entries project_key env 0 plan
                        \<lparr>pp_manifest = manifest, pp_r2 = va_r2 st, pp_uploaded = 0, pp_skipped = 0, pp_failed = 0, pp_bytes = 0\<rparr>;
                      st1 = st\<lparr>va_r2 := pp_r2 p\<rparr>;
                      result = \<lparr>vr_project_key = project_key, vr_plan = plan, vr_uploaded = pp_uploaded p, vr_skipped = pp_skipped p,
                        vr_failed = pp_failed p, vr_bytes_uploaded = pp_bytes p\<rparr>
                  in if pp_uploaded p = 0 then (Inr result, st1)
                     else (case save_manifest save_err ((pp_manifest p)\<lparr>vn_updated_at := Some now\<rparr>) st1 of
                             (Inl e, st2) \<Rightarrow> (Inl e, st2) | (Inr _, st2) \<Rightarrow> (Inr result, st2)))))"

section \<open>The routes\<close>

text \<open>Whether an R2 client can be made, the vault root if there is one, and the registered mounts.\<close>
definition resolve_r2_client :: "sync_config option \<Rightarrow> bool" where
  "resolve_r2_client cfg = (case cfg of None \<Rightarrow> False | Some c \<Rightarrow> cg_r2_endpoint c \<noteq> [] \<and> cg_r2_bucket c \<noteq> [])"

definition registered_project_key :: "string \<Rightarrow> store \<Rightarrow> nat option" where
  "registered_project_key project_key s =
     (case fst (list_vault_mounts s) of
        Inl _ \<Rightarrow> Some 500
      | Inr mounts \<Rightarrow> if list_ex (\<lambda>m. vm_name m = project_key) mounts then None else Some 404)"

record vault_push_body =
  vb_project_key :: string
  vb_prefixes :: "string list"
  vb_dry_run :: bool
  vb_force :: bool

definition vault_sync_push ::
  "(string \<Rightarrow> string) \<Rightarrow> (string list \<Rightarrow> node option) \<Rightarrow> (nat \<Rightarrow> upload_env) \<Rightarrow> timestamp \<Rightarrow> string option \<Rightarrow> sync_config option \<Rightarrow>
    string list option \<Rightarrow> store \<Rightarrow> vault_push_body \<Rightarrow> vault_state \<Rightarrow> (nat \<times> vault_result option) \<times> vault_state" where
  "vault_sync_push sha256 fs env now save_err cfg vroot s body st =
     (if \<not> resolve_r2_client cfg then ((503, None), st)
      else case vroot of
          None \<Rightarrow> ((503, None), st)
        | Some vault_root \<Rightarrow>
            (case registered_project_key (vb_project_key body) s of
               Some code \<Rightarrow> ((code, None), st)
             | None \<Rightarrow>
                 (case push_to_r2 sha256 fs env now save_err vault_root (vb_project_key body) (vb_prefixes body)
                         \<lparr>vo_dry_run = vb_dry_run body, vo_force = vb_force body, vo_concurrency = 8\<rparr> st of
                    (Inl _, st') \<Rightarrow> ((500, None), st') | (Inr result, st') \<Rightarrow> ((200, Some result), st'))))"

definition vault_sync_status :: "store \<Rightarrow> string \<Rightarrow> vault_state \<Rightarrow> nat \<times> vault_manifest option" where
  "vault_sync_status s project_key st =
     (case registered_project_key project_key s of
        Some code \<Rightarrow> (code, None)
      | None \<Rightarrow> (case load_manifest project_key st of Inl _ \<Rightarrow> (500, None) | Inr m \<Rightarrow> (200, Some m)))"

section \<open>What the manifest says of the bucket\<close>


text \<open>What the uploads read is what was hashed.\<close>
definition unchanged :: "(string \<Rightarrow> string) \<Rightarrow> (nat \<Rightarrow> upload_env) \<Rightarrow> nat \<Rightarrow> plan_entry list \<Rightarrow> bool" where
  "unchanged sha256 env i plan \<longleftrightarrow>
     (\<forall>j < length plan. \<forall>body. ue_body (env (i + j)) = Inr body \<longrightarrow> sha256 body = pe_sha256 (plan ! j))"

definition reported :: "(nat \<Rightarrow> upload_env) \<Rightarrow> nat \<Rightarrow> nat \<Rightarrow> bool" where
  "reported env i n \<longleftrightarrow> (\<forall>j < n. ue_put (env (i + j)) \<noteq> Put_Stored_Unreported)"

definition all_done :: "(nat \<Rightarrow> upload_env) \<Rightarrow> nat \<Rightarrow> nat \<Rightarrow> bool" where
  "all_done env i n \<longleftrightarrow> (\<forall>j < n. ue_put (env (i + j)) = Put_Done \<and> (\<exists>body. ue_body (env (i + j)) = Inr body))"

lemma unchanged_Cons [simp]: "unchanged sha256 env i (e # plan) \<longleftrightarrow>
    (\<forall>body. ue_body (env i) = Inr body \<longrightarrow> sha256 body = pe_sha256 e) \<and> unchanged sha256 env (Suc i) plan"
  by (auto simp: unchanged_def less_Suc_eq_0_disj)

lemma reported_Suc [simp]: "reported env i (Suc n) \<longleftrightarrow> ue_put (env i) \<noteq> Put_Stored_Unreported \<and> reported env (Suc i) n"
  by (auto simp: reported_def less_Suc_eq_0_disj)

lemma all_done_Suc [simp]: "all_done env i (Suc n) \<longleftrightarrow>
    ue_put (env i) = Put_Done \<and> (\<exists>body. ue_body (env i) = Inr body) \<and> all_done env (Suc i) n"
  by (auto simp: all_done_def less_Suc_eq_0_disj)

lemma all_done_reported: "all_done env i n \<Longrightarrow> reported env i n"
  by (simp add: all_done_def reported_def)

lemma vault_r2_key_inj [simp]: "vault_r2_key k rel = vault_r2_key k rel' \<longleftrightarrow> rel = rel'"
  by (simp add: vault_r2_key_def)










section \<open>Mirroring\<close>












section \<open>Reachable states\<close>











section \<open>Paths of a tree\<close>













section \<open>Properties\<close>



definition sample_vault_fs :: "string \<Rightarrow> string list \<Rightarrow> node option" where
  "sample_vault_fs content = (\<lambda>p. if p = [''vault'', ''UBER'']
     then Some (Dir_Node (Inr [(''.git'', File_Node (Inr ''x'')), (''a.md'', File_Node (Inr content))])) else None)"

definition sample_upload :: "put_outcome \<Rightarrow> string \<Rightarrow> nat \<Rightarrow> upload_env" where
  "sample_upload outcome content = (\<lambda>_. \<lparr>ue_body = Inr content, ue_put = outcome, ue_time = ''t''\<rparr>)"

definition sample_opts :: vault_opts where
  "sample_opts = \<lparr>vo_dry_run = False, vo_force = False, vo_concurrency = 8\<rparr>"

definition no_vault :: vault_state where
  "no_vault = \<lparr>va_r2 = Map.empty, va_manifests = Map.empty\<rparr>"









text \<open>
  A mount name is not checked before a push: a mount registered under an absolute path, which the mount route accepts, makes a push
  read and upload the files of that directory, wherever the vault is.
\<close>
theorem vault_push_reads_anywhere:
  assumes "target \<noteq> []" and "\<forall>c \<in> set target. CHR ''/'' \<notin> set c" and "plain_components target"
    and "resolve_r2_client cfg" and "\<exists>r \<in> set (t_mounts s). vm_name r = absolute_path target"
    and "fs target = Some (Dir_Node (Inr [(name, File_Node (Inr content))]))" and "\<not> prefix ''.'' name" and "CHR 0x5C \<notin> set name"
    and "va_manifests st (absolute_path target) = None" and "ue_put (env 0) = Put_Done" and "ue_body (env 0) = Inr content"
  shows "\<exists>result st'. vault_sync_push sha256 fs env now None cfg (Some vroot) s
      \<lparr>vb_project_key = absolute_path target, vb_prefixes = [], vb_dry_run = False, vb_force = False\<rparr> st = ((200, Some result), st') \<and>
    vr_uploaded result = 1 \<and> va_r2 st' (vault_r2_key (absolute_path target) name) = Some content"
proof -
  let ?k = "absolute_path target"
  have at': "join_path vroot ?k = target" using entry_path_absolute [OF assms(1-3)]
    by (simp add: entry_path_def join_path_def absolute_path_def)
  have "list_ex (\<lambda>m. vm_name m = ?k) (map row_to_vault_mount (order_asc vm_name (t_mounts s)))"
    using assms(5) by (auto simp: list_ex_iff row_to_vault_mount_def vault_mount.defs)
  then have reg: "registered_project_key ?k s = None" by (simp add: registered_project_key_def list_vault_mounts_def)
  have "map (\<lambda>c. if c = CHR 0x5C then CHR ''/'' else c) name = name" using assms(8) by (intro map_idI) auto
  then have plan: "plan_push sha256 fs vroot ?k [] (empty_manifest ?k) False =
      Inr [\<lparr>pe_rel_path = name, pe_sha256 = sha256 content, pe_size_bytes = length content, pe_action = Upload\<rparr>]"
    using assms(6,7) by (simp add: plan_push_def at' order_asc_def is_dotted_def planned_entry_def rel_string_def planned_action_def
        is_under_any_prefix_def empty_manifest_def)
  have "load_manifest ?k st = Inr (empty_manifest ?k)" using assms(9) by (simp add: load_manifest_def)
  with plan reg assms(4,10,11) show ?thesis
    by (simp add: vault_sync_push_def push_to_r2_def push_entry_def save_manifest_def Let_def)
qed

definition sample_mount :: vault_mount where
  "sample_mount = \<lparr>vm_id = ''m'', vm_name = ''/etc'', vm_root_path = ''/tmp'', vm_kind = Vault_Workspace, vm_git_url = None,
     vm_app_id = None, vm_last_commit_sha = None, vm_last_synced_at = None, vm_created_at = ''t'', vm_updated_at = ''t''\<rparr>"

definition sample_sync_config :: sync_config where
  "sample_sync_config = \<lparr>cg_enabled = True, cg_interval_seconds = 60, cg_device_id = ''d'', cg_auto_pull = False, cg_r2_bucket = ''b'',
     cg_r2_endpoint = ''e'', cg_r2_access_key_id = [], cg_r2_secret_access_key = [], cg_d1_database_id = [], cg_d1_account_id = [],
     cg_d1_api_token = []\<rparr>"

lemma vault_push_reads_anywhere_witness:
  "\<exists>result st'. vault_sync_push (\<lambda>c. c) (\<lambda>p. if p = [''etc''] then Some (Dir_Node (Inr [(''passwd'', File_Node (Inr ''s''))])) else None)
      (sample_upload Put_Done ''s'') ''n'' None (Some sample_sync_config) (Some [''vault''])
      ((open_with_device True ''d'')\<lparr>t_mounts := [mount_to_row sample_mount]\<rparr>)
      \<lparr>vb_project_key = ''/etc'', vb_prefixes = [], vb_dry_run = False, vb_force = False\<rparr> no_vault = ((200, Some result), st') \<and>
    va_r2 st' (vault_r2_key ''/etc'' ''passwd'') = Some ''s''"
proof -
  have key: "absolute_path [''etc''] = ''/etc''" by (simp add: absolute_path_def)
  show ?thesis
    using vault_push_reads_anywhere [of "[''etc'']" "Some sample_sync_config" "(open_with_device True ''d'')\<lparr>t_mounts := [mount_to_row sample_mount]\<rparr>"
        "\<lambda>p. if p = [''etc''] then Some (Dir_Node (Inr [(''passwd'', File_Node (Inr ''s''))])) else None" "''passwd''" "''s''" no_vault
        "sample_upload Put_Done ''s''" "\<lambda>c. c" "''n''" "[''vault'']"]
    unfolding key
    by (simp add: plain_components_def resolve_r2_client_def sample_sync_config_def mount_to_row_def vault_mount.defs sample_mount_def
        no_vault_def sample_upload_def) blast
qed

text \<open>An upload that was stored but reported as failed leaves the old hash in the manifest: when the file gets its old contents back,
  pushes skip it, and the bucket keeps what it should not.\<close>
lemma unreported_upload_goes_stale:
  "let push = (\<lambda>outcome content st. snd (push_to_r2 (\<lambda>c. c) (sample_vault_fs content) (sample_upload outcome content) ''n'' None [''vault'']
       ''UBER'' [] sample_opts st));
     st = push Put_Done ''A'' (push Put_Stored_Unreported ''B'' (push Put_Done ''A'' no_vault))
   in va_r2 st ''vaults/UBER/a.md'' = Some ''B''"
  by (simp add: push_to_r2_def load_manifest_def no_vault_def plan_push_def sample_vault_fs_def join_path_def walk_def order_asc_def
      is_dotted_def planned_entry_def rel_string_def planned_action_def is_under_any_prefix_def empty_manifest_def sample_opts_def
      sample_upload_def push_entry_def save_manifest_def vault_r2_key_def Let_def)

text \<open>A file whose name has a backslash is planned, and uploaded, under the path the backslash makes: another file's.\<close>
lemma backslash_collides: "rel_string [[CHR ''a'', CHR 0x5C, CHR ''b'']] = rel_string [''a'', ''b'']"
  by (simp add: rel_string_def)

end
