(* ===== verification/Llm_Capture.thy ===== *)
theory Llm_Capture
  imports Otel_Routes Mac_Comm
begin

text \<open>
  Capture of OpenAI-compatible exchanges (gctrl-proxy/src/capture.rs): the turns of a request and its reply, the reassembly of a
  streamed reply, the rows written for the turns and the span posted to the kernel's own OTLP route, as the JSON document that
  the route reads back. serde\_json's text parser and printer, SHA-256, Unicode lower casing, UUIDs and clock readings are
  arguments; what derive(Deserialize) makes of a parsed document is written out.
\<close>

section \<open>Reading documents\<close>

text \<open>A parsed JSON document, its members in the order of the text and repeated ones kept.\<close>
datatype sval = SNull | SBool bool | SInt int | SFloat f64 | SStr string | SArr "sval list" | SObj "(string \<times> sval) list"

text \<open>The members of a struct: an object without repeated known names, or an array that gives the first ones in order.\<close>
definition de_struct :: "string list \<Rightarrow> sval \<Rightarrow> (string \<Rightarrow> sval option) option" where
  "de_struct names v =
     (case v of
        SObj kvs \<Rightarrow> if distinct (filter (\<lambda>k. k \<in> set names) (map fst kvs)) then Some (map_of kvs) else None
      | SArr xs \<Rightarrow> if length xs \<le> length names then Some (map_of (zip names xs)) else None
      | _ \<Rightarrow> None)"

text \<open>A member that must be there, and one with serde(default).\<close>
definition de_req :: "(string \<Rightarrow> sval option) \<Rightarrow> string \<Rightarrow> (sval \<Rightarrow> 'a option) \<Rightarrow> 'a option" where
  "de_req f k d = Option.bind (f k) d"

definition de_def :: "'a \<Rightarrow> (string \<Rightarrow> sval option) \<Rightarrow> string \<Rightarrow> (sval \<Rightarrow> 'a option) \<Rightarrow> 'a option" where
  "de_def dflt f k d = (case f k of None \<Rightarrow> Some dflt | Some v \<Rightarrow> d v)"

fun traverse :: "('a \<Rightarrow> 'b option) \<Rightarrow> 'a list \<Rightarrow> 'b list option" where
  "traverse d [] = Some []"
| "traverse d (x # xs) = (case d x of None \<Rightarrow> None | Some y \<Rightarrow> map_option (\<lambda>ys. y # ys) (traverse d xs))"

definition de_vec :: "(sval \<Rightarrow> 'a option) \<Rightarrow> sval \<Rightarrow> 'a list option" where
  "de_vec d v = (case v of SArr xs \<Rightarrow> traverse d xs | _ \<Rightarrow> None)"

definition de_opt :: "(sval \<Rightarrow> 'a option) \<Rightarrow> sval \<Rightarrow> 'a option option" where
  "de_opt d v = (if v = SNull then Some None else map_option Some (d v))"

definition de_string :: "sval \<Rightarrow> string option" where
  "de_string v = (case v of SStr s \<Rightarrow> Some s | _ \<Rightarrow> None)"

definition de_bool :: "sval \<Rightarrow> bool option" where
  "de_bool v = (case v of SBool b \<Rightarrow> Some b | _ \<Rightarrow> None)"

definition de_signed :: "sval \<Rightarrow> 'w::len word option" where
  "de_signed v =
     (case v of SInt i \<Rightarrow> if - (2 ^ (LENGTH('w) - 1)) \<le> i \<and> i < 2 ^ (LENGTH('w) - 1) then Some (word_of_int i) else None | _ \<Rightarrow> None)"

definition de_unsigned :: "sval \<Rightarrow> 'w::len word option" where
  "de_unsigned v = (case v of SInt i \<Rightarrow> if 0 \<le> i \<and> i < 2 ^ LENGTH('w) then Some (word_of_int i) else None | _ \<Rightarrow> None)"

definition de_f64 :: "sval \<Rightarrow> f64 option" where
  "de_f64 v = (case v of SInt i \<Rightarrow> Some (of_int i) | SFloat r \<Rightarrow> Some r | _ \<Rightarrow> None)"

section \<open>Requests and replies\<close>

record chat_message =
  cm_role :: string
  cm_content :: sval

record chat_request =
  cq_model :: string
  cq_messages :: "chat_message list"
  cq_stream :: "bool option"

record chat_usage =
  cu_prompt_tokens :: "32 word option"
  cu_completion_tokens :: "32 word option"

record chat_choice =
  cc_message :: "chat_message option"

record chat_response =
  cs_choices :: "chat_choice list"
  cs_usage :: "chat_usage option"
  cs_model :: "string option"

definition de_chat_message :: "sval \<Rightarrow> chat_message option" where
  "de_chat_message v =
     Option.bind (de_struct [''role'', ''content''] v) (\<lambda>f.
     Option.bind (de_req f ''role'' de_string) (\<lambda>r.
     Option.bind (de_req f ''content'' Some) (\<lambda>c. Some \<lparr>cm_role = r, cm_content = c\<rparr>)))"

definition de_chat_request :: "sval \<Rightarrow> chat_request option" where
  "de_chat_request v =
     Option.bind (de_struct [''model'', ''messages'', ''stream''] v) (\<lambda>f.
     Option.bind (de_req f ''model'' de_string) (\<lambda>m.
     Option.bind (de_req f ''messages'' (de_vec de_chat_message)) (\<lambda>ms.
     Option.bind (de_def None f ''stream'' (de_opt de_bool)) (\<lambda>b.
       Some \<lparr>cq_model = m, cq_messages = ms, cq_stream = b\<rparr>))))"

definition de_chat_usage :: "sval \<Rightarrow> chat_usage option" where
  "de_chat_usage v =
     Option.bind (de_struct [''prompt_tokens'', ''completion_tokens''] v) (\<lambda>f.
     Option.bind (de_def None f ''prompt_tokens'' (de_opt de_signed)) (\<lambda>p.
     Option.bind (de_def None f ''completion_tokens'' (de_opt de_signed)) (\<lambda>c.
       Some \<lparr>cu_prompt_tokens = p, cu_completion_tokens = c\<rparr>)))"

definition de_chat_choice :: "sval \<Rightarrow> chat_choice option" where
  "de_chat_choice v =
     Option.bind (de_struct [''message''] v) (\<lambda>f.
     Option.bind (de_def None f ''message'' (de_opt de_chat_message)) (\<lambda>m. Some \<lparr>cc_message = m\<rparr>))"

definition de_chat_response :: "sval \<Rightarrow> chat_response option" where
  "de_chat_response v =
     Option.bind (de_struct [''choices'', ''usage'', ''model''] v) (\<lambda>f.
     Option.bind (de_def [] f ''choices'' (de_vec de_chat_choice)) (\<lambda>cs.
     Option.bind (de_def None f ''usage'' (de_opt de_chat_usage)) (\<lambda>u.
     Option.bind (de_def None f ''model'' (de_opt de_string)) (\<lambda>m.
       Some \<lparr>cs_choices = cs, cs_usage = u, cs_model = m\<rparr>))))"

section \<open>Turns\<close>

record captured_turn =
  ct_session_id :: string
  ct_trace_id :: string
  ct_span_id :: string
  ct_turn_ordinal :: "32 word"
  ct_role :: string
  ct_content :: string
  ct_tokens :: "32 word option"

definition stringify_content :: "(sval \<Rightarrow> string) \<Rightarrow> sval \<Rightarrow> string" where
  "stringify_content print v = (case v of SStr s \<Rightarrow> s | _ \<Rightarrow> print v)"

definition usage_prompt :: "chat_response \<Rightarrow> 32 word option" where
  "usage_prompt resp = Option.bind (cs_usage resp) cu_prompt_tokens"

definition usage_completion :: "chat_response \<Rightarrow> 32 word option" where
  "usage_completion resp = Option.bind (cs_usage resp) cu_completion_tokens"

definition extract_turns ::
  "(sval \<Rightarrow> string) \<Rightarrow> chat_request \<Rightarrow> chat_response \<Rightarrow> string \<Rightarrow> string \<Rightarrow> string \<Rightarrow> captured_turn list" where
  "extract_turns print req resp sid tid spid =
     map (\<lambda>(i, msg).
       \<lparr>ct_session_id = sid, ct_trace_id = tid, ct_span_id = spid, ct_turn_ordinal = of_nat i, ct_role = cm_role msg,
        ct_content = stringify_content print (cm_content msg),
        ct_tokens = (if i + 1 = length (cq_messages req) then usage_prompt resp else None)\<rparr>) (enumerate 0 (cq_messages req)) @
     (case cs_choices resp of
        [] \<Rightarrow> []
      | choice # _ \<Rightarrow>
          (case cc_message choice of
             None \<Rightarrow> []
           | Some msg \<Rightarrow>
               [\<lparr>ct_session_id = sid, ct_trace_id = tid, ct_span_id = spid, ct_turn_ordinal = of_nat (length (cq_messages req)),
                 ct_role = cm_role msg, ct_content = stringify_content print (cm_content msg),
                 ct_tokens = usage_completion resp\<rparr>]))"

section \<open>Streamed replies\<close>

record chunk_delta =
  cd_role :: "string option"
  cd_content :: "string option"

record chunk_choice =
  ck_index :: u32
  ck_delta :: "chunk_delta option"

record chat_chunk =
  cn_choices :: "chunk_choice list"
  cn_usage :: "chat_usage option"
  cn_model :: "string option"

definition de_chunk_delta :: "sval \<Rightarrow> chunk_delta option" where
  "de_chunk_delta v =
     Option.bind (de_struct [''role'', ''content''] v) (\<lambda>f.
     Option.bind (de_def None f ''role'' (de_opt de_string)) (\<lambda>r.
     Option.bind (de_def None f ''content'' (de_opt de_string)) (\<lambda>c. Some \<lparr>cd_role = r, cd_content = c\<rparr>)))"

definition de_chunk_choice :: "sval \<Rightarrow> chunk_choice option" where
  "de_chunk_choice v =
     Option.bind (de_struct [''index'', ''delta''] v) (\<lambda>f.
     Option.bind (de_def 0 f ''index'' de_unsigned) (\<lambda>i.
     Option.bind (de_def None f ''delta'' (de_opt de_chunk_delta)) (\<lambda>d. Some \<lparr>ck_index = i, ck_delta = d\<rparr>)))"

definition de_chat_chunk :: "sval \<Rightarrow> chat_chunk option" where
  "de_chat_chunk v =
     Option.bind (de_struct [''choices'', ''usage'', ''model''] v) (\<lambda>f.
     Option.bind (de_def [] f ''choices'' (de_vec de_chunk_choice)) (\<lambda>cs.
     Option.bind (de_def None f ''usage'' (de_opt de_chat_usage)) (\<lambda>u.
     Option.bind (de_def None f ''model'' (de_opt de_string)) (\<lambda>m.
       Some \<lparr>cn_choices = cs, cn_usage = u, cn_model = m\<rparr>))))"

text \<open>BTreeMap::entry: the map is the list of its pairs by key.\<close>
fun bt_alter :: "'k::linorder \<Rightarrow> ('v option \<Rightarrow> 'v) \<Rightarrow> ('k \<times> 'v) list \<Rightarrow> ('k \<times> 'v) list" where
  "bt_alter k f [] = [(k, f None)]"
| "bt_alter k f ((l, v) # m) =
     (if k = l then (k, f (Some v)) # m else if k < l then (k, f None) # (l, v) # m else (l, v) # bt_alter k f m)"

record sse_acc =
  sa_content :: "(u32 \<times> string) list"
  sa_role :: "(u32 \<times> string) list"
  sa_usage :: "chat_usage option"
  sa_model :: "string option"
  sa_saw_chunk :: bool

definition sse_start :: sse_acc where
  "sse_start = \<lparr>sa_content = [], sa_role = [], sa_usage = None, sa_model = None, sa_saw_chunk = False\<rparr>"

definition sse_choice :: "chunk_choice \<Rightarrow> sse_acc \<Rightarrow> sse_acc" where
  "sse_choice c a =
     (case ck_delta c of
        None \<Rightarrow> a
      | Some d \<Rightarrow>
          (let a = (case cd_role d of None \<Rightarrow> a | Some r \<Rightarrow> a\<lparr>sa_role := bt_alter (ck_index c) (unwrap_or r) (sa_role a)\<rparr>)
           in case cd_content d of None \<Rightarrow> a
              | Some t \<Rightarrow> a\<lparr>sa_content := bt_alter (ck_index c) (\<lambda>x. unwrap_or [] x @ t) (sa_content a)\<rparr>))"

definition sse_chunk :: "chat_chunk \<Rightarrow> sse_acc \<Rightarrow> sse_acc" where
  "sse_chunk c a =
     fold sse_choice (cn_choices c)
       (a\<lparr>sa_saw_chunk := True,
          sa_model := (if sa_model a = None then cn_model c else sa_model a),
          sa_usage := (if cn_usage c = None then sa_usage a else cn_usage c)\<rparr>)"

definition sse_payload :: "(string \<Rightarrow> sval option) \<Rightarrow> string \<Rightarrow> chat_chunk option" where
  "sse_payload parse line =
     (case map_option trim (strip_prefix ''data:'' line) of
        None \<Rightarrow> None
      | Some payload \<Rightarrow> if payload = [] \<or> payload = ''[DONE]'' then None else Option.bind (parse payload) de_chat_chunk)"

definition sse_line :: "(string \<Rightarrow> sval option) \<Rightarrow> string \<Rightarrow> sse_acc \<Rightarrow> sse_acc" where
  "sse_line parse line a = (case sse_payload parse line of None \<Rightarrow> a | Some c \<Rightarrow> sse_chunk c a)"

definition parse_sse_to_response :: "(string \<Rightarrow> sval option) \<Rightarrow> string \<Rightarrow> chat_response option" where
  "parse_sse_to_response parse body =
     (let a = fold (sse_line parse) (lines body) sse_start
      in if \<not> sa_saw_chunk a then None
         else Some \<lparr>cs_choices = map (\<lambda>(idx, content).
                  \<lparr>cc_message = Some \<lparr>cm_role = unwrap_or ''assistant'' (map_of (sa_role a) idx), cm_content = SStr content\<rparr>\<rparr>)
                  (sa_content a),
                cs_usage = sa_usage a, cs_model = sa_model a\<rparr>)"

section \<open>The span and its document\<close>

record otlp_span_inputs =
  osi_session_id :: string
  osi_trace_id :: string
  osi_span_id :: string
  osi_model :: string
  osi_gen_ai_system :: "string option"
  osi_prompt_tokens :: "32 word option"
  osi_completion_tokens :: "32 word option"
  osi_start_unix_nano :: u64
  osi_end_unix_nano :: u64
  osi_status_ok :: bool

definition kv_string :: "string \<Rightarrow> string \<Rightarrow> sval" where
  "kv_string k v = SObj [(''key'', SStr k), (''value'', SObj [(''stringValue'', SStr v)])]"

definition kv_int :: "string \<Rightarrow> int \<Rightarrow> sval" where
  "kv_int k v = SObj [(''key'', SStr k), (''value'', SObj [(''intValue'', SInt v)])]"

text \<open>The pushes that depend on an Option.\<close>
definition push_some :: "('a \<Rightarrow> sval) \<Rightarrow> 'a option \<Rightarrow> sval list" where
  "push_some f v = (case v of None \<Rightarrow> [] | Some x \<Rightarrow> [f x])"

definition build_otlp_payload :: "otlp_span_inputs \<Rightarrow> string \<Rightarrow> sval" where
  "build_otlp_payload s service_name =
     (let attrs = [kv_string ''gen_ai.request.model'' (osi_model s)] @
            push_some (kv_string ''gen_ai.system'') (osi_gen_ai_system s) @
            push_some (\<lambda>pt. kv_int ''gen_ai.usage.prompt_tokens'' (sint pt)) (osi_prompt_tokens s) @
            push_some (\<lambda>ct. kv_int ''gen_ai.usage.completion_tokens'' (sint ct)) (osi_completion_tokens s)
      in SObj [(''resourceSpans'', SArr [SObj [
           (''resource'', SObj [(''attributes'', SArr [kv_string ''service.name'' service_name,
              kv_string ''session.id'' (osi_session_id s)])]),
           (''scopeSpans'', SArr [SObj [
              (''scope'', SObj [(''name'', SStr ''gctrl-proxy'')]),
              (''spans'', SArr [SObj [
                 (''traceId'', SStr (osi_trace_id s)), (''spanId'', SStr (osi_span_id s)), (''name'', SStr ''llm.chat.completions''),
                 (''startTimeUnixNano'', SInt (uint (osi_start_unix_nano s))), (''endTimeUnixNano'', SInt (uint (osi_end_unix_nano s))),
                 (''attributes'', SArr attrs),
                 (''status'', SObj [(''code'', SInt (if osi_status_ok s then 1 else 2))])]])]])]])])"

text \<open>The route's reading of a posted document (span\_processor.rs, names in camel case).\<close>
definition de_any_value :: "sval \<Rightarrow> otlp_any_value option" where
  "de_any_value v =
     Option.bind (de_struct [''stringValue'', ''intValue'', ''doubleValue''] v) (\<lambda>f.
     Option.bind (de_def None f ''stringValue'' (de_opt de_string)) (\<lambda>s.
     Option.bind (de_def None f ''intValue'' (de_opt de_signed)) (\<lambda>i.
     Option.bind (de_def None f ''doubleValue'' (de_opt de_f64)) (\<lambda>d.
       Some \<lparr>oav_string_value = s, oav_int_value = i, oav_double_value = d\<rparr>))))"

definition de_key_value :: "sval \<Rightarrow> otlp_key_value option" where
  "de_key_value v =
     Option.bind (de_struct [''key'', ''value''] v) (\<lambda>f.
     Option.bind (de_req f ''key'' de_string) (\<lambda>k.
     Option.bind (de_def None f ''value'' (de_opt de_any_value)) (\<lambda>x. Some \<lparr>okv_key = k, okv_value = x\<rparr>)))"

definition de_otlp_status :: "sval \<Rightarrow> otlp_status option" where
  "de_otlp_status v =
     Option.bind (de_struct [''code'', ''message''] v) (\<lambda>f.
     Option.bind (de_def 0 f ''code'' de_unsigned) (\<lambda>c.
     Option.bind (de_def None f ''message'' (de_opt de_string)) (\<lambda>m. Some \<lparr>ost_code = c, ost_message = m\<rparr>)))"

definition de_otlp_span :: "sval \<Rightarrow> otlp_span option" where
  "de_otlp_span v =
     Option.bind (de_struct [''traceId'', ''spanId'', ''parentSpanId'', ''name'', ''startTimeUnixNano'', ''endTimeUnixNano'',
       ''attributes'', ''status''] v) (\<lambda>f.
     Option.bind (de_req f ''traceId'' de_string) (\<lambda>tid.
     Option.bind (de_req f ''spanId'' de_string) (\<lambda>sid.
     Option.bind (de_def None f ''parentSpanId'' (de_opt de_string)) (\<lambda>p.
     Option.bind (de_req f ''name'' de_string) (\<lambda>nm.
     Option.bind (de_def 0 f ''startTimeUnixNano'' de_unsigned) (\<lambda>t0.
     Option.bind (de_def 0 f ''endTimeUnixNano'' de_unsigned) (\<lambda>t1.
     Option.bind (de_def [] f ''attributes'' (de_vec de_key_value)) (\<lambda>a.
     Option.bind (de_def None f ''status'' (de_opt de_otlp_status)) (\<lambda>st.
       Some \<lparr>osp_trace_id = tid, osp_span_id = sid, osp_parent_span_id = p, osp_name = nm, osp_start_time_unix_nano = t0,
         osp_end_time_unix_nano = t1, osp_attributes = a, osp_status = st\<rparr>)))))))))"

definition de_scope_spans :: "sval \<Rightarrow> scope_spans option" where
  "de_scope_spans v =
     Option.bind (de_struct [''spans''] v) (\<lambda>f.
     Option.bind (de_def [] f ''spans'' (de_vec de_otlp_span)) (\<lambda>s. Some \<lparr>osc_spans = s\<rparr>))"

definition de_otlp_resource :: "sval \<Rightarrow> otlp_resource option" where
  "de_otlp_resource v =
     Option.bind (de_struct [''attributes''] v) (\<lambda>f.
     Option.bind (de_def [] f ''attributes'' (de_vec de_key_value)) (\<lambda>a. Some \<lparr>ore_attributes = a\<rparr>))"

definition de_resource_spans :: "sval \<Rightarrow> resource_spans option" where
  "de_resource_spans v =
     Option.bind (de_struct [''resource'', ''scopeSpans''] v) (\<lambda>f.
     Option.bind (de_def None f ''resource'' (de_opt de_otlp_resource)) (\<lambda>r.
     Option.bind (de_def [] f ''scopeSpans'' (de_vec de_scope_spans)) (\<lambda>s. Some \<lparr>ors_resource = r, ors_scope_spans = s\<rparr>)))"

definition de_export_request :: "sval \<Rightarrow> otlp_export_request option" where
  "de_export_request v =
     Option.bind (de_struct [''resourceSpans''] v) (\<lambda>f.
     Option.bind (de_def [] f ''resourceSpans'' (de_vec de_resource_spans)) (\<lambda>r. Some \<lparr>oex_resource_spans = r\<rparr>))"

section \<open>The capture sink\<close>

text \<open>What a capture gets from outside: ids, clock readings (nanoseconds since 1970 for the span), the hash, whether the span
  reaches the kernel and what the kernel's ingest reads there.\<close>
record capture_env =
  cap_trace_id :: string
  cap_span_id :: string
  cap_uuid :: "nat \<Rightarrow> string"
  cap_now :: "nat \<Rightarrow> timestamp"
  cap_sha256 :: "string \<Rightarrow> string"
  cap_print :: "sval \<Rightarrow> string"
  cap_lower :: "string \<Rightarrow> string"
  cap_started_at :: int
  cap_ended_at :: int
  cap_delivered :: bool
  cap_ingest :: ingest_env

record capture_config =
  cfc_kernel_otlp_url :: string
  cfc_default_service_name :: string

definition default_capture_config :: capture_config where
  "default_capture_config =
     \<lparr>cfc_kernel_otlp_url = ''http://localhost:4318/v1/traces'', cfc_default_service_name = ''llm-client''\<rparr>"

definition turn_fingerprint :: "(string \<Rightarrow> string) \<Rightarrow> captured_turn \<Rightarrow> string" where
  "turn_fingerprint sha256 t = sha256 (ct_content t)"

definition to_prompt_body :: "capture_env \<Rightarrow> nat \<Rightarrow> captured_turn \<Rightarrow> prompt_body" where
  "to_prompt_body env i t =
     \<lparr>pbd_id = cap_uuid env i, pbd_session_id = ct_session_id t, pbd_span_id = Some (ct_span_id t),
      pbd_trace_id = Some (ct_trace_id t), pbd_turn_ordinal = ct_turn_ordinal t, pbd_role = ct_role t, pbd_content = ct_content t,
      pbd_fingerprint = turn_fingerprint (cap_sha256 env) t, pbd_tokens = ct_tokens t, pbd_created_at = cap_now env i\<rparr>"

definition persist :: "capture_env \<Rightarrow> captured_turn list \<Rightarrow> (duck_store, unit) db" where
  "persist env turns = for_each (\<lambda>(i, t). insert_prompt_body (to_prompt_body env i t)) (enumerate 0 turns)"

text \<open>The POST to the kernel: a document the route cannot read is answered 422. Whatever happens, the result is Ok.\<close>
definition emit_otlp_with_service ::
  "capture_config \<Rightarrow> capture_env \<Rightarrow> otlp_span_inputs \<Rightarrow> string option \<Rightarrow> otel \<Rightarrow> (gctl_error + unit) \<times> otel" where
  "emit_otlp_with_service cfg env sp service_name st =
     (let svc = unwrap_or (cfc_default_service_name cfg) service_name;
          payload = build_otlp_payload sp svc
      in (Inr (),
          if \<not> cap_delivered env then st
          else case de_export_request payload of
              None \<Rightarrow> st
            | Some req \<Rightarrow> snd (ingest_traces (cap_ingest env) req st)))"

definition derive_gen_ai_system_from_url :: "(string \<Rightarrow> string) \<Rightarrow> string \<Rightarrow> string option" where
  "derive_gen_ai_system_from_url to_lower upstream_url =
     (let lower = to_lower upstream_url
      in if contains ''127.0.0.1:1234'' lower \<or> contains ''localhost:1234'' lower then Some ''lmstudio''
         else if contains ''api.openai.com'' lower then Some ''openai''
         else if contains ''api.anthropic.com'' lower then Some ''anthropic''
         else if contains ''ollama'' lower \<or> contains '':11434'' lower then Some ''ollama''
         else if contains ''gateway.ai.cloudflare.com'' lower then Some ''cloudflare-ai-gateway''
         else None)"

definition unix_nanos :: "int \<Rightarrow> u64" where
  "unix_nanos t = (if t < 0 then 0 else word_of_int t)"

text \<open>The parser of the request and of the reply, and the span made of them.\<close>
definition exchange_span ::
  "capture_env \<Rightarrow> string option \<Rightarrow> chat_request \<Rightarrow> chat_response \<Rightarrow> string \<Rightarrow> nat \<Rightarrow> otlp_span_inputs" where
  "exchange_span env system req rsp sid status_code =
     \<lparr>osi_session_id = sid, osi_trace_id = cap_trace_id env, osi_span_id = cap_span_id env, osi_model = cq_model req,
      osi_gen_ai_system = system, osi_prompt_tokens = usage_prompt rsp, osi_completion_tokens = usage_completion rsp,
      osi_start_unix_nano = unix_nanos (cap_started_at env), osi_end_unix_nano = unix_nanos (cap_ended_at env),
      osi_status_ok = (200 \<le> status_code \<and> status_code < 300)\<rparr>"

definition capture_oai_exchange ::
  "(string \<Rightarrow> sval option) \<Rightarrow> capture_config \<Rightarrow> capture_env \<Rightarrow> string \<Rightarrow> string \<Rightarrow> string \<Rightarrow> string option \<Rightarrow> string option \<Rightarrow> nat \<Rightarrow>
    otel \<Rightarrow> otel" where
  "capture_oai_exchange parse cfg env upstream_url req_body_text resp_body_text session_id service_name status_code st =
     (case session_id of
        None \<Rightarrow> st
      | Some sid \<Rightarrow>
          (case Option.bind (parse req_body_text) de_chat_request of
             None \<Rightarrow> st
           | Some req \<Rightarrow>
               (case Option.bind (parse resp_body_text) de_chat_response of
                  None \<Rightarrow> st
                | Some rsp \<Rightarrow>
                    (let turns = extract_turns (cap_print env) req rsp sid (cap_trace_id env) (cap_span_id env);
                         s = snd (persist env turns (otl_store st))
                     in snd (emit_otlp_with_service cfg env
                          (exchange_span env (derive_gen_ai_system_from_url (cap_lower env) upstream_url) req rsp sid status_code)
                          service_name (st\<lparr>otl_store := s\<rparr>))))))"

section \<open>Streams\<close>

definition sse_chunks :: "(string \<Rightarrow> sval option) \<Rightarrow> string \<Rightarrow> chat_chunk list" where
  "sse_chunks parse body = List.map_filter (sse_payload parse) (lines body)"

definition choice_deltas :: "chunk_choice list \<Rightarrow> (u32 \<times> chunk_delta) list" where
  "choice_deltas cs = List.map_filter (\<lambda>c. map_option (Pair (ck_index c)) (ck_delta c)) cs"

definition chunk_deltas :: "chat_chunk list \<Rightarrow> (u32 \<times> chunk_delta) list" where
  "chunk_deltas cs = concat (map (\<lambda>c. choice_deltas (cn_choices c)) cs)"

text \<open>What the deltas say of one choice.\<close>
definition picked :: "(chunk_delta \<Rightarrow> string option) \<Rightarrow> u32 \<Rightarrow> (u32 \<times> chunk_delta) list \<Rightarrow> string list" where
  "picked f i ds = List.map_filter (\<lambda>(j, d). if j = i then f d else None) ds"

definition reply_indices :: "(u32 \<times> chunk_delta) list \<Rightarrow> u32 list" where
  "reply_indices ds = sort (remdups (List.map_filter (\<lambda>(i, d). map_option (\<lambda>_. i) (cd_content d)) ds))"

definition first_of :: "'a list \<Rightarrow> 'a option" where
  "first_of xs = (case xs of [] \<Rightarrow> None | x # _ \<Rightarrow> Some x)"

text \<open>The reply a stream spells out: per choice the concatenated texts and the first role, the last usage, the first model.\<close>
definition response_of_chunks :: "chat_chunk list \<Rightarrow> chat_response" where
  "response_of_chunks cs =
     (let ds = chunk_deltas cs
      in \<lparr>cs_choices = map (\<lambda>i. \<lparr>cc_message = Some
             \<lparr>cm_role = unwrap_or ''assistant'' (first_of (picked cd_role i ds)), cm_content = SStr (concat (picked cd_content i ds))\<rparr>\<rparr>)
             (reply_indices ds),
          cs_usage = first_of (rev (List.map_filter cn_usage cs)), cs_model = first_of (List.map_filter cn_model cs)\<rparr>)"

lemma first_of_simps [simp]: "first_of [] = None" "first_of (x # xs) = Some x"
  "first_of (xs @ ys) = (if xs = [] then first_of ys else first_of xs)"
  by (simp_all add: first_of_def split: list.split)

lemma picked_simps [simp]: "picked f i [] = []"
  "picked f i ((j, d) # ds) = (if j = i then (case f d of None \<Rightarrow> [] | Some t \<Rightarrow> [t]) else []) @ picked f i ds"
  by (simp_all add: picked_def List.map_filter_simps split: option.split)

text \<open>Maps by key.\<close>
lemma bt_alter_keys: "fst ` set (bt_alter k f m) = insert k (fst ` set m)"
  by (induction m rule: bt_alter.induct) auto

lemma bt_alter_sorted: "sorted_wrt (<) (map fst m) \<Longrightarrow> sorted_wrt (<) (map fst (bt_alter k f m))"
proof (induction m)
  case (Cons p m)
  obtain l v where p: "p = (l, v)" by (cases p)
  have above: "\<forall>x \<in> set (map fst m). l < x" and sorted': "sorted_wrt (<) (map fst m)" using Cons.prems p by auto
  consider "k = l" | "k < l" | "l < k" by force
  then show ?case
  proof cases
    case 1 with Cons.prems p show ?thesis by simp
  next
    case 2 with above sorted' p show ?thesis by (auto dest: less_trans)
  next
    case 3
    then have "\<forall>x \<in> fst ` set (bt_alter k f m). l < x" using above by (auto simp: bt_alter_keys)
    with 3 Cons.IH [OF sorted'] p show ?thesis by auto
  qed
qed simp

lemma bt_alter_map_of:
  "sorted_wrt (<) (map fst m) \<Longrightarrow> map_of (bt_alter k f m) = (map_of m)(k \<mapsto> f (map_of m k))"
proof (induction m)
  case (Cons p m)
  obtain l v where p: "p = (l, v)" by (cases p)
  have above: "\<forall>x \<in> set (map fst m). l < x" and sorted': "sorted_wrt (<) (map fst m)" using Cons.prems p by auto
  have "map_of m k = None" if "k < l" using above that by (auto simp: map_of_eq_None_iff dest: less_trans)
  then show ?case using Cons.IH [OF sorted'] p by (auto simp: fun_eq_iff)
qed (simp add: fun_eq_iff)

lemma sorted_map_unique:
  assumes "sorted_wrt (<) (map fst m)" and "sorted_wrt (<) (map fst n)" and "map_of m = map_of n"
  shows "m = (n :: ('k::linorder \<times> 'v) list)"
proof -
  have eq: "map (\<lambda>k. (k, the (map_of x k))) (map fst x) = x" if "sorted_wrt (<) (map fst x)" for x :: "('k \<times> 'v) list"
  proof -
    have "distinct (map fst x)" using that by (simp add: strict_sorted_iff)
    then have "(fst p, the (map_of x (fst p))) = p" if "p \<in> set x" for p
      using that by (metis map_of_is_SomeI option.sel prod.collapse)
    then show ?thesis unfolding map_map by (intro map_idI) simp
  qed
  have "set (map fst m) = set (map fst n)" using assms(3) by (metis dom_map_of_conv_image_fst set_map)
  then have "map fst m = map fst n" using assms(1,2) by (simp add: strict_sorted_equal)
  with eq [OF assms(1)] eq [OF assms(2)] assms(3) show ?thesis by metis
qed

section \<open>The accumulator of a stream\<close>

definition content_step :: "u32 \<times> chunk_delta \<Rightarrow> (u32 \<times> string) list \<Rightarrow> (u32 \<times> string) list" where
  "content_step p m = (case cd_content (snd p) of None \<Rightarrow> m | Some t \<Rightarrow> bt_alter (fst p) (\<lambda>x. unwrap_or [] x @ t) m)"

definition role_step :: "u32 \<times> chunk_delta \<Rightarrow> (u32 \<times> string) list \<Rightarrow> (u32 \<times> string) list" where
  "role_step p m = (case cd_role (snd p) of None \<Rightarrow> m | Some r \<Rightarrow> bt_alter (fst p) (unwrap_or r) m)"

lemma sse_choice_parts:
  "sa_content (sse_choice c a) = fold content_step (choice_deltas [c]) (sa_content a)"
  "sa_role (sse_choice c a) = fold role_step (choice_deltas [c]) (sa_role a)"
  "sa_usage (sse_choice c a) = sa_usage a" "sa_model (sse_choice c a) = sa_model a" "sa_saw_chunk (sse_choice c a) = sa_saw_chunk a"
  by (auto simp: sse_choice_def choice_deltas_def content_step_def role_step_def List.map_filter_simps Let_def split: option.splits)

lemma choice_deltas_Cons: "choice_deltas (c # cs) = choice_deltas [c] @ choice_deltas cs"
  by (simp add: choice_deltas_def List.map_filter_simps split: option.split)

lemma sse_choices_parts:
  "sa_content (fold sse_choice cs a) = fold content_step (choice_deltas cs) (sa_content a) \<and>
   sa_role (fold sse_choice cs a) = fold role_step (choice_deltas cs) (sa_role a) \<and>
   sa_usage (fold sse_choice cs a) = sa_usage a \<and> sa_model (fold sse_choice cs a) = sa_model a \<and>
   sa_saw_chunk (fold sse_choice cs a) = sa_saw_chunk a"
proof (induction cs arbitrary: a)
  case Nil then show ?case by (simp add: choice_deltas_def List.map_filter_simps)
next
  case (Cons c cs)
  show ?case unfolding choice_deltas_Cons [of c cs] using Cons.IH [of "sse_choice c a"] by (simp add: sse_choice_parts)
qed

lemma sse_chunks_parts:
  "sa_content (fold sse_chunk cs a) = fold content_step (chunk_deltas cs) (sa_content a) \<and>
   sa_role (fold sse_chunk cs a) = fold role_step (chunk_deltas cs) (sa_role a) \<and>
   sa_usage (fold sse_chunk cs a) = first_of (rev (List.map_filter cn_usage cs) @ (case sa_usage a of None \<Rightarrow> [] | Some u \<Rightarrow> [u])) \<and>
   sa_model (fold sse_chunk cs a) = first_of ((case sa_model a of None \<Rightarrow> [] | Some u \<Rightarrow> [u]) @ List.map_filter cn_model cs) \<and>
   sa_saw_chunk (fold sse_chunk cs a) = (cs \<noteq> [] \<or> sa_saw_chunk a)"
proof (induction cs arbitrary: a)
  case Nil then show ?case by (simp add: chunk_deltas_def List.map_filter_simps split: option.split)
next
  case (Cons c cs)
  have deltas: "chunk_deltas (c # cs) = choice_deltas (cn_choices c) @ chunk_deltas cs" by (simp add: chunk_deltas_def)
  show ?case unfolding deltas using Cons.IH [of "sse_chunk c a"]
    by (auto simp: sse_chunk_def sse_choices_parts List.map_filter_simps split: option.splits)
qed

lemma sse_lines: "fold (sse_line parse) ls a = fold sse_chunk (List.map_filter (sse_payload parse) ls) a"
  by (induction ls arbitrary: a) (simp_all add: sse_line_def List.map_filter_simps split: option.split)

lemma content_steps:
  assumes "sorted_wrt (<) (map fst m)"
  shows "sorted_wrt (<) (map fst (fold content_step ds m)) \<and>
    map_of (fold content_step ds m) i =
      (if picked cd_content i ds = [] then map_of m i else Some (unwrap_or [] (map_of m i) @ concat (picked cd_content i ds)))"
  using assms
proof (induction ds arbitrary: m)
  case (Cons p ds)
  obtain j d where p: "p = (j, d)" by (cases p)
  have "sorted_wrt (<) (map fst (content_step p m))"
    using Cons.prems by (simp add: content_step_def bt_alter_sorted split: option.split)
  note IH = Cons.IH [OF this]
  show ?case
  proof (cases "cd_content d")
    case None
    then have "content_step p m = m" "picked cd_content i (p # ds) = picked cd_content i ds" by (simp_all add: p content_step_def)
    with IH show ?thesis by (simp del: picked_simps)
  next
    case (Some t)
    then have step: "content_step p m = bt_alter j (\<lambda>x. unwrap_or [] x @ t) m"
      "picked cd_content i (p # ds) = (if j = i then [t] else []) @ picked cd_content i ds" by (simp_all add: p content_step_def)
    show ?thesis using IH unfolding fold_simps step bt_alter_map_of [OF Cons.prems] by (cases "j = i") auto
  qed
qed simp

lemma role_steps:
  assumes "sorted_wrt (<) (map fst m)"
  shows "sorted_wrt (<) (map fst (fold role_step ds m)) \<and>
    map_of (fold role_step ds m) i = (case map_of m i of None \<Rightarrow> first_of (picked cd_role i ds) | Some r \<Rightarrow> Some r)"
  using assms
proof (induction ds arbitrary: m)
  case (Cons p ds)
  obtain j d where p: "p = (j, d)" by (cases p)
  have "sorted_wrt (<) (map fst (role_step p m))"
    using Cons.prems by (simp add: role_step_def bt_alter_sorted split: option.split)
  from Cons.IH [OF this] Cons.prems show ?case
    by (auto simp: p role_step_def bt_alter_map_of split: option.splits)
qed (simp split: option.split)

lemma picked_nonempty: "picked cd_content i ds \<noteq> [] \<longleftrightarrow> i \<in> set (reply_indices ds)"
  by (induction ds) (auto simp: reply_indices_def List.map_filter_simps split: option.splits if_splits)

text \<open>The accumulator of the parser is the reply its stream spells out.\<close>
lemma sse_content:
  "fold content_step ds [] = map (\<lambda>i. (i, concat (picked cd_content i ds))) (reply_indices ds)" (is "?m = ?n")
proof (rule sorted_map_unique)
  note steps = content_steps [of "[]" ds, simplified]
  show "sorted_wrt (<) (map fst ?m)" using steps by blast
  show "sorted_wrt (<) (map fst ?n)" by (simp add: comp_def reply_indices_def strict_sorted_iff)
  have "map_of ?n i = (if i \<in> set (reply_indices ds) then Some (concat (picked cd_content i ds)) else None)" for i
    by (simp add: map_of_map_restrict)
  then show "map_of ?m = map_of ?n" using steps picked_nonempty [of _ ds] by (auto simp: fun_eq_iff)
qed

lemma sse_roles: "map_of (fold role_step ds []) i = first_of (picked cd_role i ds)"
  using role_steps [of "[]" ds i] by simp

lemma stream_reference:
  "parse_sse_to_response parse body =
     (let cs = sse_chunks parse body in if cs = [] then None else Some (response_of_chunks cs))"
proof -
  let ?cs = "sse_chunks parse body"
  have "fold (sse_line parse) (lines body) sse_start = fold sse_chunk ?cs sse_start" by (simp add: sse_lines sse_chunks_def)
  then show ?thesis using sse_chunks_parts [of ?cs sse_start]
    by (simp add: parse_sse_to_response_def response_of_chunks_def Let_def sse_start_def sse_content sse_roles comp_def)
qed

text \<open>
  The relay's parser of event streams makes, of any body whatever its keep-alives, comments, unreadable lines and the split of its
  texts, exactly the reply the chunks spell out: for each choice with a text, in the order of the indices, the concatenated texts
  under the first role given (assistant if none), with the last usage and the first model; and nothing if there is no chunk.
\<close>
theorem stream_spells_reply:
  "parse_sse_to_response parse body =
     (let cs = sse_chunks parse body in if cs = [] then None else Some (response_of_chunks cs))"
  by (rule stream_reference)

section \<open>The document and its reader\<close>

definition typed_string :: "string \<Rightarrow> string \<Rightarrow> otlp_key_value" where
  "typed_string k v = \<lparr>okv_key = k, okv_value = Some \<lparr>oav_string_value = Some v, oav_int_value = None, oav_double_value = None\<rparr>\<rparr>"

definition typed_int :: "string \<Rightarrow> int \<Rightarrow> otlp_key_value" where
  "typed_int k v = \<lparr>okv_key = k, okv_value = Some \<lparr>oav_string_value = None, oav_int_value = Some (word_of_int v), oav_double_value = None\<rparr>\<rparr>"

definition typed_some :: "('a \<Rightarrow> otlp_key_value) \<Rightarrow> 'a option \<Rightarrow> otlp_key_value list" where
  "typed_some f v = (case v of None \<Rightarrow> [] | Some x \<Rightarrow> [f x])"

definition typed_attrs :: "otlp_span_inputs \<Rightarrow> otlp_key_value list" where
  "typed_attrs s = [typed_string ''gen_ai.request.model'' (osi_model s)] @
     typed_some (typed_string ''gen_ai.system'') (osi_gen_ai_system s) @
     typed_some (\<lambda>pt. typed_int ''gen_ai.usage.prompt_tokens'' (sint pt)) (osi_prompt_tokens s) @
     typed_some (\<lambda>ct. typed_int ''gen_ai.usage.completion_tokens'' (sint ct)) (osi_completion_tokens s)"

definition typed_export :: "otlp_span_inputs \<Rightarrow> string \<Rightarrow> otlp_export_request" where
  "typed_export s service_name =
     \<lparr>oex_resource_spans = [\<lparr>ors_resource = Some \<lparr>ore_attributes =
        [typed_string ''service.name'' service_name, typed_string ''session.id'' (osi_session_id s)]\<rparr>,
      ors_scope_spans = [\<lparr>osc_spans = [\<lparr>osp_trace_id = osi_trace_id s, osp_span_id = osi_span_id s, osp_parent_span_id = None,
        osp_name = ''llm.chat.completions'', osp_start_time_unix_nano = osi_start_unix_nano s,
        osp_end_time_unix_nano = osi_end_unix_nano s, osp_attributes = typed_attrs s,
        osp_status = Some \<lparr>ost_code = (if osi_status_ok s then 1 else 2), ost_message = None\<rparr>\<rparr>]\<rparr>]\<rparr>]\<rparr>"

lemma traverse_append [simp]:
  "traverse d (xs @ ys) = Option.bind (traverse d xs) (\<lambda>a. map_option (\<lambda>b. a @ b) (traverse d ys))"
  by (induction xs; cases "traverse d ys") (auto split: option.splits bind_splits)

lemma traverse_some [simp]: "(\<And>x. d (f x) = Some (g x)) \<Longrightarrow> traverse d (push_some f v) = Some (typed_some g v)"
  by (simp add: push_some_def typed_some_def split: option.split)

lemmas de_defs = de_struct_def de_req_def de_def_def de_vec_def de_opt_def de_string_def

lemma de_kv_string [simp]: "de_key_value (kv_string k v) = Some (typed_string k v)"
  by (simp add: de_key_value_def kv_string_def typed_string_def de_any_value_def de_defs)

lemma de_kv_int [simp]: "de_key_value (kv_int k (sint (w :: 32 word))) = Some (typed_int k (sint w))"
  using sint_greater_eq [of w] sint_less [of w]
  by (simp add: de_key_value_def kv_int_def typed_int_def de_any_value_def de_defs de_signed_def)

lemma de_unsigned_uint [simp]: "de_unsigned (SInt (uint (w :: 'w::len word))) = Some w"
  using uint_lt2p [of w] by (simp add: de_unsigned_def)

lemma de_code: "de_unsigned (SInt (if b then 1 else 2)) = Some (if b then 1 else 2 :: 32 word)"
  by (simp add: de_unsigned_def)

lemma payload_read: "de_export_request (build_otlp_payload s svc) = Some (typed_export s svc)"
  by (simp add: build_otlp_payload_def typed_export_def typed_attrs_def Let_def de_export_request_def de_resource_spans_def
      de_otlp_resource_def de_scope_spans_def de_otlp_span_def de_otlp_status_def de_defs de_code)

lemma emitted_span_facts:
  "\<exists>sp. process_export_request dt (typed_export s svc) = [sp] \<and>
     spn_session_id sp = osi_session_id s \<and> spn_agent_name sp = svc \<and> spn_trace_id sp = osi_trace_id s \<and>
     spn_span_id sp = osi_span_id s \<and> spn_span_type sp = Ty_Generation \<and> spn_model sp = Some (osi_model s) \<and>
     spn_input_tokens sp = unwrap_or 0 (map_option (\<lambda>w. word_of_int (sint w)) (osi_prompt_tokens s)) \<and>
     spn_output_tokens sp = unwrap_or 0 (map_option (\<lambda>w. word_of_int (sint w)) (osi_completion_tokens s)) \<and>
     spn_status sp = (if osi_status_ok s then Span_Ok else Span_Error []) \<and> spn_cost_usd sp = 0"
proof -
  have "process_export_request dt (typed_export s svc) =
      [convert_span dt (osi_session_id s) svc (hd (osc_spans (hd (ors_scope_spans (hd (oex_resource_spans (typed_export s svc)))))))]"
    by (simp add: process_export_request_def process_resource_def typed_export_def resource_text_def find_attr_def typed_string_def
        string_val_def)
  then show ?thesis
    by (cases "osi_gen_ai_system s"; cases "osi_prompt_tokens s"; cases "osi_completion_tokens s")
      (simp_all add: typed_export_def convert_span_def Let_def find_attr2_def find_attr_def typed_attrs_def typed_some_def
        typed_string_def typed_int_def string_val_def int_val_def double_val_def classify_span_def span_status_of_def)
qed

text \<open>
  The span a capture posts is read back by the kernel as it was meant: one span of its session, under the service's name, with the
  trace and span ids of the turns, the model, and the usage as its token counts.
\<close>
theorem emitted_span_read:
  "\<exists>req sp. de_export_request (build_otlp_payload s svc) = Some req \<and> process_export_request dt req = [sp] \<and>
     spn_session_id sp = osi_session_id s \<and> spn_agent_name sp = svc \<and> spn_trace_id sp = osi_trace_id s \<and>
     spn_span_id sp = osi_span_id s \<and> spn_span_type sp = Ty_Generation \<and> spn_model sp = Some (osi_model s) \<and>
     spn_input_tokens sp = unwrap_or 0 (map_option (\<lambda>w. word_of_int (sint w)) (osi_prompt_tokens s)) \<and>
     spn_output_tokens sp = unwrap_or 0 (map_option (\<lambda>w. word_of_int (sint w)) (osi_completion_tokens s)) \<and>
     spn_status sp = (if osi_status_ok s then Span_Ok else Span_Error []) \<and> spn_cost_usd sp = 0"
  using emitted_span_facts [of dt s svc] by (simp add: payload_read)

section \<open>Recording an exchange\<close>

text \<open>The spans up to the project the kernel fills in.\<close>
definition span_view :: "duck_store \<Rightarrow> span list" where
  "span_view s = map (\<lambda>r. (row_to_span r)\<lparr>spn_project_id := None\<rparr>) (d_spans s)"

lemma view_aggregates: "frame span_view (update_session_aggregates sid)"
  by (auto simp: frame_def update_session_aggregates_def bind_def span_view_def update_where_def row_to_span_def)

lemma prompts_aggregates: "frame d_prompt_bodies (update_session_aggregates sid)"
  by (auto simp: frame_def update_session_aggregates_def bind_def)

lemma ids_aggregates: "frame (\<lambda>s. map ser_id (d_sessions s)) (update_session_aggregates sid)"
  by (auto simp: frame_def update_session_aggregates_def bind_def update_where_def set_totals_def)

lemma replace_rows_has: "\<exists>x \<in> set (replace_rows key assign r rows). x = r \<or> (\<exists>y. x = assign y r)"
  by (auto simp: replace_rows_def list_ex_iff set_update_where)

lemma view_insert_span: "sp\<lparr>spn_project_id := None\<rparr> \<in> set (span_view (snd (insert_span sp s)))"
proof -
  let ?rows = "replace_rows spr_span_id (\<lambda>old new. new\<lparr>spr_synced := spr_synced old\<rparr>) (span_to_row sp) (d_spans s)"
  from replace_rows_has [of spr_span_id "\<lambda>old new. new\<lparr>spr_synced := spr_synced old\<rparr>" "span_to_row sp" "d_spans s"]
  obtain x where "x \<in> set ?rows" "x = span_to_row sp \<or> (\<exists>y :: span_row. x = (span_to_row sp)\<lparr>spr_synced := spr_synced y\<rparr>)" by blast
  moreover from this(2) have "row_to_span x = sp" using span_row_roundtrip [of sp] by (auto simp: row_to_span_def)
  ultimately show ?thesis by (force simp: span_view_def insert_span_def)
qed

lemma prompts_raise_alerts: "d_prompt_bodies (raise_alerts uuid now cents xs s) = d_prompt_bodies s"
proof -
  have "d_prompt_bodies (snd (insert_alert_event ev s)) = d_prompt_bodies s" for ev s
    by (auto simp: insert_alert_event_def sql_insert_def throw_def)
  then have "d_prompt_bodies (foldl (\<lambda>s (i, x). snd (insert_alert_event (alert_of uuid now cents i x) s)) s ys) = d_prompt_bodies s" for ys
    by (induction ys arbitrary: s) auto
  then show ?thesis by (simp add: raise_alerts_def)
qed

lemma open_one:
  "case open_sessions [] [sp] s of (started, s') \<Rightarrow> d_prompt_bodies s' = d_prompt_bodies s \<and> spn_session_id sp \<in> set (map ser_id (d_sessions s'))"
  by (auto simp: Let_def duck_get_session_def insert_session_def find_None_iff replace_rows_def list_ex_iff set_update_where
      auto_session_def image_iff split: option.splits) metis

lemma ingest_one:
  assumes "ingest_spans env [sp] st = (code, st')"
  shows "d_prompt_bodies (otl_store st') = d_prompt_bodies (otl_store st)"
    and "sp\<lparr>spn_project_id := None\<rparr> \<in> set (span_view (otl_store st'))"
    and "duck_get_session (spn_session_id sp) (otl_store st') \<noteq> None"
proof -
  obtain started s1 where opened: "open_sessions [] [sp] (otl_store st) = (started, s1)" by fastforce
  obtain r s2 where ins: "insert_spans (ing_order env) [sp] s1 = (r, s2)" by fastforce
  have s1: "d_prompt_bodies s1 = d_prompt_bodies (otl_store st)" "spn_session_id sp \<in> set (map ser_id (d_sessions s1))"
    using open_one [of "otl_store st" sp] unfolding opened by simp_all
  let ?s = "snd (insert_span sp s1)"
  have rest: "insert_spans (ing_order env) [sp] s1 = for_each update_session_aggregates (ing_order env [spn_session_id sp]) ?s"
    by (simp add: insert_spans_def insert_span_def bind_def ret_def)
  have fr: "f s2 = f ?s" if "\<And>sid. frame f (update_session_aggregates sid)" for f :: "duck_store \<Rightarrow> 'z"
    by (rule frameD [OF frame_for_each [OF that] ins [unfolded rest]])
  have s2: "d_prompt_bodies s2 = d_prompt_bodies s1" "sp\<lparr>spn_project_id := None\<rparr> \<in> set (span_view s2)"
    "map ser_id (d_sessions s2) = map ser_id (d_sessions s1)"
    using fr [OF prompts_aggregates] fr [OF view_aggregates] fr [OF ids_aggregates] view_insert_span [of sp s1]
    by (simp_all add: insert_span_def)
  have "otl_store st' = s2 \<or> (\<exists>fired. otl_store st' = raise_alerts (ing_uuid env) (ing_now env) (ing_cents env) fired s2)"
    using assms opened ins by (auto simp: ingest_spans_def Let_def simp del: open_sessions.simps split: sum.splits)
  then have "d_prompt_bodies (otl_store st') = d_prompt_bodies s2" "core (otl_store st') = core s2"
    by (auto simp: prompts_raise_alerts core_raise_alerts)
  then have "d_prompt_bodies (otl_store st') = d_prompt_bodies s2" "span_view (otl_store st') = span_view s2"
    "d_sessions (otl_store st') = d_sessions s2" by (simp_all add: core_def span_view_def)
  moreover have "spn_session_id sp \<in> ser_id ` set (d_sessions s2)" using s1(2) s2(3) by (metis list.set_map)
  ultimately show "d_prompt_bodies (otl_store st') = d_prompt_bodies (otl_store st)"
    "sp\<lparr>spn_project_id := None\<rparr> \<in> set (span_view (otl_store st'))"
    "duck_get_session (spn_session_id sp) (otl_store st') \<noteq> None"
    using s1(1) s2(1,2) by (auto simp: duck_get_session_def find_None_iff)
qed

text \<open>Rows with new ids are appended.\<close>
lemma persist_rows:
  assumes "inj (cap_uuid env)" and "\<forall>i. cap_uuid env (k + i) \<notin> pbd_id ` set (d_prompt_bodies s)"
  shows "for_each (\<lambda>(i, t). insert_prompt_body (to_prompt_body env i t)) (enumerate k turns) s =
    (Inr (), s\<lparr>d_prompt_bodies := d_prompt_bodies s @ map (\<lambda>(i, t). to_prompt_body env i t) (enumerate k turns)\<rparr>)"
  using assms(2)
proof (induction turns arbitrary: k s)
  case (Cons t turns)
  let ?b = "to_prompt_body env k t"
  let ?s = "s\<lparr>d_prompt_bodies := d_prompt_bodies s @ [?b]\<rparr>"
  have "\<not> list_ex (\<lambda>x. pbd_id x = pbd_id ?b) (d_prompt_bodies s)"
    using Cons.prems [rule_format, of 0] by (auto simp: list_ex_iff to_prompt_body_def image_iff)
  then have ins: "insert_prompt_body ?b s = (Inr (), ?s)" by (simp add: insert_prompt_body_def replace_rows_def)
  have "cap_uuid env (Suc k + i) \<notin> pbd_id ` set (d_prompt_bodies ?s)" for i
    using Cons.prems [rule_format, of "Suc i"] by (auto simp: to_prompt_body_def dest: injD [OF assms(1)])
  then have "\<forall>i. cap_uuid env (Suc k + i) \<notin> pbd_id ` set (d_prompt_bodies ?s)" by blast
  from Cons.IH [OF this] ins show ?case by (simp add: bind_def)
qed (simp add: ret_def)

text \<open>C28: 
  An exchange that is captured is in the kernel under one trace: a prompt row for every turn, in their order and with their role,
  text and tokens, after the rows that were there; a span of the same session with the ids the rows name and the usage as its
  token counts; and the session itself, opened if it was not there.
\<close>
theorem captured_exchange_linked:
  assumes "Option.bind (parse req_text) de_chat_request = Some req" and "Option.bind (parse resp_text) de_chat_response = Some rsp"
    and "inj (cap_uuid env)" and "\<forall>i. cap_uuid env i \<notin> pbd_id ` set (d_prompt_bodies (otl_store st))" and "cap_delivered env"
    and after: "st' = capture_oai_exchange parse cfg env url req_text resp_text (Some sid) service status st"
  shows "d_prompt_bodies (otl_store st') = d_prompt_bodies (otl_store st) @ map (\<lambda>(i, t). to_prompt_body env i t)
      (enumerate 0 (extract_turns (cap_print env) req rsp sid (cap_trace_id env) (cap_span_id env))) \<and>
    (\<exists>sp \<in> set (query_spans sid (otl_store st')). spn_span_id sp = cap_span_id env \<and> spn_trace_id sp = cap_trace_id env \<and>
      spn_model sp = Some (cq_model req) \<and>
      spn_input_tokens sp = unwrap_or 0 (map_option (\<lambda>w. word_of_int (sint w)) (usage_prompt rsp)) \<and>
      spn_output_tokens sp = unwrap_or 0 (map_option (\<lambda>w. word_of_int (sint w)) (usage_completion rsp))) \<and>
    duck_get_session sid (otl_store st') \<noteq> None"
proof -
  let ?turns = "extract_turns (cap_print env) req rsp sid (cap_trace_id env) (cap_span_id env)"
  let ?sp = "exchange_span env (derive_gen_ai_system_from_url (cap_lower env) url) req rsp sid status"
  let ?svc = "unwrap_or (cfc_default_service_name cfg) service"
  let ?rows = "d_prompt_bodies (otl_store st) @ map (\<lambda>(i, t). to_prompt_body env i t) (enumerate 0 ?turns)"
  define st1 where "st1 = st\<lparr>otl_store := (otl_store st)\<lparr>d_prompt_bodies := ?rows\<rparr>\<rparr>"
  have "snd (persist env ?turns (otl_store st)) = (otl_store st)\<lparr>d_prompt_bodies := ?rows\<rparr>"
    using persist_rows [OF assms(3), of 0 "otl_store st" ?turns] assms(4) by (simp add: persist_def)
  then have st': "st' = snd (ingest_traces (cap_ingest env) (typed_export ?sp ?svc) st1)"
    using assms(1,2,5) by (simp add: after capture_oai_exchange_def emit_otlp_with_service_def payload_read st1_def Let_def)
  obtain sp where sp: "process_export_request (ing_datetime (cap_ingest env)) (typed_export ?sp ?svc) = [sp]"
      "spn_session_id sp = sid" "spn_trace_id sp = cap_trace_id env" "spn_span_id sp = cap_span_id env" "spn_model sp = Some (cq_model req)"
      "spn_input_tokens sp = unwrap_or 0 (map_option (\<lambda>w. word_of_int (sint w)) (usage_prompt rsp))"
      "spn_output_tokens sp = unwrap_or 0 (map_option (\<lambda>w. word_of_int (sint w)) (usage_completion rsp))"
    using emitted_span_facts [of "ing_datetime (cap_ingest env)" ?sp ?svc] by (auto simp: exchange_span_def)
  obtain code where "ingest_spans (cap_ingest env) [sp] st1 = (code, st')"
    using st' sp(1) by (auto simp: ingest_traces_def prod_eq_iff)
  note one = ingest_one [OF this]
  from one(2) obtain r where r: "r \<in> set (d_spans (otl_store st'))" "(row_to_span r)\<lparr>spn_project_id := None\<rparr> = sp\<lparr>spn_project_id := None\<rparr>"
    by (auto simp: span_view_def)
  have parts: "spn_session_id (row_to_span r) = sid" "spn_trace_id (row_to_span r) = cap_trace_id env"
    "spn_span_id (row_to_span r) = cap_span_id env" "spn_model (row_to_span r) = Some (cq_model req)"
    "spn_input_tokens (row_to_span r) = spn_input_tokens sp" "spn_output_tokens (row_to_span r) = spn_output_tokens sp"
    using arg_cong [OF r(2), of spn_session_id] arg_cong [OF r(2), of spn_trace_id] arg_cong [OF r(2), of spn_span_id]
      arg_cong [OF r(2), of spn_model] arg_cong [OF r(2), of spn_input_tokens] arg_cong [OF r(2), of spn_output_tokens] sp(2-5)
    by simp_all
  then have "spr_session_id r = sid" by (simp add: row_to_span_def)
  then have "row_to_span r \<in> set (query_spans sid (otl_store st'))"
    using r(1) by (auto simp: query_spans_def spans_of_def)
  with parts sp(6,7) have "\<exists>sp \<in> set (query_spans sid (otl_store st')). spn_span_id sp = cap_span_id env \<and>
      spn_trace_id sp = cap_trace_id env \<and> spn_model sp = Some (cq_model req) \<and>
      spn_input_tokens sp = unwrap_or 0 (map_option (\<lambda>w. word_of_int (sint w)) (usage_prompt rsp)) \<and>
      spn_output_tokens sp = unwrap_or 0 (map_option (\<lambda>w. word_of_int (sint w)) (usage_completion rsp))" by metis
  moreover have "d_prompt_bodies (otl_store st') = ?rows" using one(1) by (simp add: st1_def)
  ultimately show ?thesis using one(3) sp(2) by simp
qed

section \<open>A captured exchange\<close>

definition sample_chat :: chat_request where
  "sample_chat = \<lparr>cq_model = ''m'', cq_messages = [\<lparr>cm_role = ''user'', cm_content = SStr ''hi''\<rparr>], cq_stream = None\<rparr>"

definition sample_chat_doc :: "string \<Rightarrow> sval option" where
  "sample_chat_doc s =
     (if s = ''request'' then Some (SObj [(''model'', SStr ''m''), (''temperature'', SFloat (1 / 2)),
        (''messages'', SArr [SObj [(''role'', SStr ''user''), (''content'', SStr ''hi'')]])])
      else if s = ''reply'' then Some (SObj [(''choices'', SArr [SObj [(''message'', SObj [(''role'', SStr ''assistant''),
        (''content'', SStr ''yo'')])]]), (''usage'', SObj [(''prompt_tokens'', SInt 3), (''completion_tokens'', SInt 4)])])
      else None)"

definition sample_capture :: capture_env where
  "sample_capture = \<lparr>cap_trace_id = ''t'', cap_span_id = ''x'', cap_uuid = (\<lambda>i. replicate i CHR ''u''), cap_now = (\<lambda>i. ''n''),
     cap_sha256 = (\<lambda>s. s), cap_print = (\<lambda>v. []), cap_lower = (\<lambda>s. s), cap_started_at = 1, cap_ended_at = 2, cap_delivered = True,
     cap_ingest = sample_env\<rparr>"

lemma sample_chat_docs:
  "Option.bind (sample_chat_doc ''request'') de_chat_request = Some sample_chat"
  "Option.bind (sample_chat_doc ''reply'') de_chat_response = Some \<lparr>cs_choices = [\<lparr>cc_message = Some
     \<lparr>cm_role = ''assistant'', cm_content = SStr ''yo''\<rparr>\<rparr>], cs_usage = Some \<lparr>cu_prompt_tokens = Some 3, cu_completion_tokens = Some 4\<rparr>,
     cs_model = None\<rparr>"
  by (simp_all add: sample_chat_doc_def sample_chat_def de_chat_request_def de_chat_message_def de_chat_response_def
      de_chat_choice_def de_chat_usage_def de_signed_def de_defs)

lemma captured_exchange_linked_witness:
  "\<exists>sp \<in> set (query_spans ''s'' (otl_store (capture_oai_exchange sample_chat_doc default_capture_config sample_capture ''u'' ''request''
       ''reply'' (Some ''s'') None 200 otel_start))). spn_span_id sp = ''x'' \<and> spn_input_tokens sp = 3 \<and> spn_output_tokens sp = 4"
proof -
  have "inj (\<lambda>i. replicate i CHR ''u'')" by (auto simp: inj_def intro: replicate_eqI dest: arg_cong [where f = length])
  then have "inj (cap_uuid sample_capture)" "\<forall>i. cap_uuid sample_capture i \<notin> pbd_id ` set (d_prompt_bodies (otl_store otel_start))"
    "cap_delivered sample_capture" "cap_span_id sample_capture = ''x''"
    by (simp_all add: sample_capture_def otel_start_def duck_open_def)
  from captured_exchange_linked [where parse = sample_chat_doc and req_text = "''request''" and resp_text = "''reply''",
      OF sample_chat_docs this(1-3) refl, of default_capture_config "''u''" "''s''" None 200] this(4)
  show ?thesis by (auto simp: usage_prompt_def usage_completion_def)
qed

text \<open>A message without content, as replies that only call tools have, makes the whole reply unreadable: nothing is captured.\<close>
lemma tool_reply_not_captured:
  "de_chat_response (SObj [(''choices'', SArr [SObj [(''message'', SObj [(''role'', SStr ''assistant''), (''tool_calls'', SArr [])])]])]) =
     None"
  by (simp add: de_chat_response_def de_chat_choice_def de_chat_message_def de_defs)

text \<open>And a streamed reply without texts is captured without a reply turn.\<close>
lemma tool_stream_has_no_turn:
  assumes "parse_sse_to_response parse body = Some rsp" and "\<forall>c \<in> set (sse_chunks parse body). \<forall>x \<in> set (cn_choices c).
      (case ck_delta x of None \<Rightarrow> True | Some d \<Rightarrow> cd_content d = None)"
  shows "cs_choices rsp = []"
proof -
  let ?ds = "chunk_deltas (sse_chunks parse body)"
  have "\<forall>p \<in> set ?ds. cd_content (snd p) = None"
    using assms(2) by (auto simp: chunk_deltas_def choice_deltas_def List.map_filter_def split: option.splits)
  then have "picked cd_content i ds = []" if "set ds \<subseteq> set ?ds" for i ds
    using that by (induction ds) (auto split: if_splits)
  then have "reply_indices ?ds = []" using picked_nonempty [of _ ?ds] by (metis all_not_in_conv order_refl set_empty)
  with assms(1) show ?thesis by (auto simp: stream_reference response_of_chunks_def Let_def split: if_splits)
qed

end
