(* ===== verification/Llm_Relay.thy ===== *)
theory Llm_Relay
  imports Llm_Capture
begin

text \<open>
  What stands between an agent and its model: the relay (gctrl-proxy/src/relay.rs), which forwards chat completions to an upstream
  server and captures them, whole or streamed; the kernel's own LLM driver routes (gctrl-otel/src/receiver.rs); and the logger of
  the intercepting proxy (gctrl-proxy/src/handler.rs, redact.rs). The upstream server, the charset decoding of a body and the URL
  library are arguments.
\<close>

section \<open>HTTP\<close>

text \<open>A header map, names in lower case; a value is a text where its bytes are visible ASCII or tabs.\<close>
type_synonym header_map = "(string \<times> string) list"

definition to_str :: "string \<Rightarrow> string option" where
  "to_str v = (if list_all (\<lambda>c. c = CHR 0x09 \<or> (32 \<le> (of_char c :: nat) \<and> (of_char c :: nat) < 127)) v then Some v else None)"

definition header_get :: "header_map \<Rightarrow> string \<Rightarrow> string option" where
  "header_get hs name = map_of hs (map to_ascii_lower name)"

definition extract_header :: "header_map \<Rightarrow> string \<Rightarrow> string option" where
  "extract_header hs name = Option.bind (header_get hs name) to_str"

text \<open>The upstream's answer: its body comes in pieces, one of which may be an error.\<close>
record upstream_response =
  ur_status :: nat
  ur_content_type :: "string option"
  ur_chunks :: "(string + string) list"

record relay_config =
  rlc_upstream_url :: string
  rlc_session_header :: string
  rlc_service_header :: string

definition default_relay_config :: relay_config where
  "default_relay_config = \<lparr>rlc_upstream_url = ''http://127.0.0.1:1234/v1/chat/completions'',
     rlc_session_header = ''x-session-id'', rlc_service_header = ''x-service-name''\<rparr>"

record llm_relay =
  lr_cfg :: relay_config
  lr_capture :: capture_config

text \<open>What the client is sent: the items of the body are written one after the other, an error breaks it off.\<close>
record relay_response =
  rr_status :: nat
  rr_content_type :: string
  rr_no_cache :: bool
  rr_body :: "(string + string) list"

definition handle_unimplemented :: "(sval \<Rightarrow> string) \<Rightarrow> relay_response" where
  "handle_unimplemented print =
     \<lparr>rr_status = 501, rr_content_type = ''application/json'', rr_no_cache = False,
      rr_body = [Inr (print (SObj [(''error'', SObj [
        (''message'', SStr ''gctrl-proxy LLM relay only supports POST /v1/chat/completions today.''),
        (''spec'', SStr ''vault/specs/implementation/llm-relay.md'')])]))]\<rparr>"

section \<open>Capture\<close>

definition derive_gen_ai_system :: "(string \<Rightarrow> string) \<Rightarrow> string \<Rightarrow> string option" where
  "derive_gen_ai_system to_lower upstream_url =
     (let lower = to_lower upstream_url
      in if contains ''127.0.0.1:1234'' lower \<or> contains ''localhost:1234'' lower then Some ''lmstudio''
         else if contains ''api.openai.com'' lower then Some ''openai''
         else if contains ''api.anthropic.com'' lower then Some ''anthropic''
         else if contains ''ollama'' lower \<or> contains '':11434'' lower then Some ''ollama''
         else None)"

definition run_capture ::
  "llm_relay \<Rightarrow> capture_env \<Rightarrow> chat_request option \<Rightarrow> chat_response option \<Rightarrow> string option \<Rightarrow> string option \<Rightarrow> nat \<Rightarrow> otel \<Rightarrow> otel" where
  "run_capture relay env req resp session_id service_name status_code st =
     (case (req, resp, session_id) of
        (Some req, Some rsp, Some sid) \<Rightarrow>
          (let turns = extract_turns (cap_print env) req rsp sid (cap_trace_id env) (cap_span_id env);
               s = snd (persist env turns (otl_store st))
           in snd (emit_otlp_with_service (lr_capture relay) env
                (exchange_span env (derive_gen_ai_system (cap_lower env) (rlc_upstream_url (lr_cfg relay))) req rsp sid status_code)
                service_name (st\<lparr>otl_store := s\<rparr>)))
      | _ \<Rightarrow> st)"

section \<open>The relay\<close>

text \<open>
  The task that copies a stream: what it sends to the client, and what it has read if it gets to the end. present n says whether
  the client still takes the n-th item; when it does not, the rest is only read. An error of the upstream ends the task.
\<close>
fun tee_stream :: "(nat \<Rightarrow> bool) \<Rightarrow> nat \<Rightarrow> string \<Rightarrow> (string + string) list \<Rightarrow> (string + string) list \<times> string option" where
  "tee_stream present n buf [] = ([], Some buf)"
| "tee_stream present n buf (Inr piece # chunks) =
     (if present n
      then (case tee_stream present (Suc n) (buf @ piece) chunks of (sent, r) \<Rightarrow> (Inr piece # sent, r))
      else ([], Some (buf @ piece @ concat (List.map_filter (\<lambda>c. case c of Inl _ \<Rightarrow> None | Inr b \<Rightarrow> Some b) chunks))))"
| "tee_stream present n buf (Inl e # chunks) = (if present n then [Inl e] else [], None)"

text \<open>Response::text: the whole body or the first error, decoded.\<close>
definition response_text :: "(string option \<Rightarrow> string \<Rightarrow> string) \<Rightarrow> upstream_response \<Rightarrow> string + string" where
  "response_text decode r =
     (case List.map_filter (\<lambda>c. case c of Inl e \<Rightarrow> Some e | Inr _ \<Rightarrow> None) (ur_chunks r) of
        e # _ \<Rightarrow> Inl e
      | [] \<Rightarrow> Inr (decode (ur_content_type r)
          (concat (List.map_filter (\<lambda>c. case c of Inl _ \<Rightarrow> None | Inr b \<Rightarrow> Some b) (ur_chunks r)))))"

definition unwrap_or_default :: "string + string \<Rightarrow> string" where
  "unwrap_or_default r = (case r of Inl _ \<Rightarrow> [] | Inr s \<Rightarrow> s)"

text \<open>serde\_json's parser, the lossy UTF-8 decoding of a stream and the decoding of a body.\<close>
record relay_lib =
  rl_parse :: "string \<Rightarrow> sval option"
  rl_lossy :: "string \<Rightarrow> string"
  rl_decode :: "string option \<Rightarrow> string \<Rightarrow> string"

definition upstream_is_sse :: "upstream_response \<Rightarrow> bool" where
  "upstream_is_sse r =
     (case Option.bind (ur_content_type r) to_str of None \<Rightarrow> False | Some s \<Rightarrow> contains ''text/event-stream'' s)"

definition client_requested_stream :: "chat_request option \<Rightarrow> bool" where
  "client_requested_stream req = unwrap_or False (Option.bind req cq_stream)"

definition handle_chat_completions ::
  "relay_lib \<Rightarrow> llm_relay \<Rightarrow> capture_env \<Rightarrow> header_map \<Rightarrow> string \<Rightarrow> string + upstream_response \<Rightarrow> (nat \<Rightarrow> bool) \<Rightarrow> otel \<Rightarrow>
    relay_response \<times> otel" where
  "handle_chat_completions lib relay env headers body upstream present st =
     (let session_id = extract_header headers (rlc_session_header (lr_cfg relay));
          service_name = extract_header headers (rlc_service_header (lr_cfg relay));
          parsed_req = Option.bind (rl_parse lib body) de_chat_request
      in case upstream of
           Inl e \<Rightarrow>
             (\<lparr>rr_status = 502, rr_content_type = ''application/json'', rr_no_cache = False,
               rr_body = [Inr (cap_print env (SObj [(''error'', SObj [(''message'', SStr (''relay upstream failed: '' @ e))])]))]\<rparr>, st)
         | Inr resp \<Rightarrow>
             if upstream_is_sse resp \<or> client_requested_stream parsed_req
             then (case tee_stream present 0 [] (ur_chunks resp) of (sent, result) \<Rightarrow>
               (\<lparr>rr_status = ur_status resp, rr_content_type = unwrap_or ''text/event-stream'' (ur_content_type resp),
                 rr_no_cache = True, rr_body = sent\<rparr>,
                case result of
                  None \<Rightarrow> st
                | Some buf \<Rightarrow>
                    run_capture relay env parsed_req (parse_sse_to_response (rl_parse lib) (rl_lossy lib buf)) session_id service_name
                      (ur_status resp) st))
             else
               (let resp_text = unwrap_or_default (response_text (rl_decode lib) resp);
                    parsed_resp = Option.bind (rl_parse lib resp_text) de_chat_response
                in (\<lparr>rr_status = ur_status resp, rr_content_type = unwrap_or ''application/json'' (ur_content_type resp),
                     rr_no_cache = False, rr_body = [Inr resp_text]\<rparr>,
                    run_capture relay env parsed_req parsed_resp session_id service_name (ur_status resp) st)))"

section \<open>The driver routes of the kernel\<close>

text \<open>The status of a provider as the kernel's caller sees it.\<close>
definition messaging_upstream_status :: "nat \<Rightarrow> nat" where
  "messaging_upstream_status s =
     (if s = 429 then 429 else if s = 400 \<or> s = 401 \<or> s = 403 \<or> s = 404 then 400 else 502)"

definition is_success :: "nat \<Rightarrow> bool" where
  "is_success s \<longleftrightarrow> 200 \<le> s \<and> s < 300"

datatype driver_body = Driver_Json sval | Driver_Text string

record driver_answer =
  da_status :: nat
  da_headers :: header_map
  da_body :: driver_body

definition plain_answer :: "nat \<Rightarrow> string \<Rightarrow> driver_answer" where
  "plain_answer code t = \<lparr>da_status = code, da_headers = [], da_body = Driver_Text t\<rparr>"

text \<open>What a driver sends: the URL, its headers and the document.\<close>
record driver_request =
  dq_url :: string
  dq_headers :: header_map
  dq_body :: sval

text \<open>serde\_json's Value keeps the last of repeated members.\<close>
definition llm_capture_header :: "header_map \<Rightarrow> string \<Rightarrow> string option" where
  "llm_capture_header hs name = Option.bind (header_get hs name) to_str"

type_synonym environment = "string \<Rightarrow> string option"

definition LMSTUDIO_DEFAULT_URL :: string where
  "LMSTUDIO_DEFAULT_URL = ''http://127.0.0.1:1234/v1/chat/completions''"

definition json_content_type :: "string \<times> string" where
  "json_content_type = (''content-type'', ''application/json'')"

text \<open>The answer to a sent request, with the capture of a successful one; fail names the provider in the error text.\<close>
definition completion_answer ::
  "relay_lib \<Rightarrow> capture_config \<Rightarrow> capture_env \<Rightarrow> string \<Rightarrow> string \<Rightarrow> string \<Rightarrow> string option \<Rightarrow> string option \<Rightarrow> string + upstream_response \<Rightarrow>
    otel \<Rightarrow> driver_answer \<times> otel" where
  "completion_answer lib cfg env fail_text url req_body_text session_id service_name upstream st =
     (case upstream of
        Inl e \<Rightarrow> (plain_answer 502 (fail_text @ '' request failed: '' @ e), st)
      | Inr resp \<Rightarrow>
          (let t = unwrap_or_default (response_text (rl_decode lib) resp)
           in if is_success (ur_status resp)
              then (case rl_parse lib t of
                      Some v \<Rightarrow> \<lparr>da_status = 200, da_headers = [], da_body = Driver_Json v\<rparr>
                    | None \<Rightarrow> plain_answer 502 t,
                    capture_oai_exchange (rl_parse lib) cfg env url req_body_text t session_id service_name (ur_status resp) st)
              else (plain_answer (messaging_upstream_status (ur_status resp)) t, st)))"

definition completions_request :: "environment \<Rightarrow> sval \<Rightarrow> driver_answer + driver_request" where
  "completions_request var body =
     (if unwrap_or ''lmstudio'' (var ''GCTRL_LLM_PROVIDER'') \<noteq> ''cloudflare''
      then Inr \<lparr>dq_url = unwrap_or LMSTUDIO_DEFAULT_URL (var ''GCTRL_LLM_LOCAL_URL''),
             dq_headers = json_content_type # (case var ''GCTRL_LLM_LOCAL_TOKEN'' of None \<Rightarrow> []
                 | Some token \<Rightarrow> [(''authorization'', ''Bearer '' @ token)]),
             dq_body = body\<rparr>
      else case var ''CLOUDFLARE_ACCOUNT_ID'' of
          None \<Rightarrow> Inl (plain_answer 503 ''CLOUDFLARE_ACCOUNT_ID not configured'')
        | Some account_id \<Rightarrow>
            (case var ''CLOUDFLARE_AI_GATEWAY_ID'' of
               None \<Rightarrow> Inl (plain_answer 503 ''CLOUDFLARE_AI_GATEWAY_ID not configured'')
             | Some gateway_id \<Rightarrow>
                 (case var ''CF_API_TOKEN'' of
                    None \<Rightarrow> Inl (plain_answer 503 ''CF_API_TOKEN not configured'')
                  | Some api_token \<Rightarrow>
                      Inr \<lparr>dq_url = ''https://gateway.ai.cloudflare.com/v1/'' @ account_id @ ''/'' @ gateway_id @
                             ''/workers-ai/v1/chat/completions'',
                           dq_headers = [json_content_type, (''authorization'', ''Bearer '' @ api_token)], dq_body = body\<rparr>)))"

definition llm_completions ::
  "relay_lib \<Rightarrow> environment \<Rightarrow> capture_config \<Rightarrow> capture_env \<Rightarrow> header_map \<Rightarrow> sval \<Rightarrow> (driver_request \<Rightarrow> string + upstream_response) \<Rightarrow>
    otel \<Rightarrow> driver_answer \<times> otel" where
  "llm_completions lib var cfg env headers body send st =
     (let session_id = llm_capture_header headers ''x-session-id'';
          service_name = llm_capture_header headers ''x-service-name'';
          req_body_text = cap_print env body
      in case completions_request var body of
           Inl answer \<Rightarrow> (answer, st)
         | Inr req \<Rightarrow>
             completion_answer lib cfg env
               (if unwrap_or ''lmstudio'' (var ''GCTRL_LLM_PROVIDER'') \<noteq> ''cloudflare'' then ''local llm'' else ''ai gateway'')
               (dq_url req) req_body_text session_id service_name (send req) st)"

definition rate_limit_names :: "string list" where
  "rate_limit_names = [''retry-after'', ''anthropic-ratelimit-input-tokens-reset'', ''anthropic-ratelimit-output-tokens-reset'',
     ''anthropic-ratelimit-tokens-reset'', ''anthropic-ratelimit-requests-reset'']"

definition rate_limit_headers :: "header_map \<Rightarrow> header_map" where
  "rate_limit_headers hs =
     List.map_filter (\<lambda>name. map_option (Pair name) (Option.bind (header_get hs name) to_str)) rate_limit_names"

text \<open>The body a provider gets, and the headers of its answer.\<close>
definition messages_request :: "environment \<Rightarrow> header_map \<Rightarrow> sval \<Rightarrow> driver_answer + driver_request" where
  "messages_request var headers body =
     (case var ''CLOUDFLARE_ACCOUNT_ID'' of
        None \<Rightarrow> Inl (plain_answer 503 ''CLOUDFLARE_ACCOUNT_ID not configured'')
      | Some account_id \<Rightarrow>
          (case var ''CLOUDFLARE_AI_GATEWAY_ID'' of
             None \<Rightarrow> Inl (plain_answer 503 ''CLOUDFLARE_AI_GATEWAY_ID not configured'')
           | Some gateway_id \<Rightarrow>
               (let anthropic_key = var ''ANTHROPIC_API_KEY''; gateway_token = var ''CLOUDFLARE_AI_GATEWAY_TOKEN''
                in if anthropic_key = None \<and> gateway_token = None
                   then Inl (plain_answer 503
                     ''one of ANTHROPIC_API_KEY (BYOK) or CLOUDFLARE_AI_GATEWAY_TOKEN (managed) must be set'')
                   else Inr \<lparr>dq_url = ''https://gateway.ai.cloudflare.com/v1/'' @ account_id @ ''/'' @ gateway_id @
                            ''/anthropic/v1/messages'',
                          dq_headers = [(''anthropic-version'', ''2023-06-01''), json_content_type] @
                            (case anthropic_key of None \<Rightarrow> [] | Some k \<Rightarrow> [(''x-api-key'', k)]) @
                            (case gateway_token of None \<Rightarrow> [] | Some t \<Rightarrow> [(''cf-aig-authorization'', ''Bearer '' @ t)]) @
                            (case Option.bind (header_get headers ''anthropic-beta'') to_str of None \<Rightarrow> []
                               | Some beta \<Rightarrow> [(''anthropic-beta'', beta)]),
                          dq_body = body\<rparr>)))"

definition llm_messages ::
  "relay_lib \<Rightarrow> environment \<Rightarrow> header_map \<Rightarrow> sval \<Rightarrow> (driver_request \<Rightarrow> string + upstream_response \<times> header_map) \<Rightarrow> driver_answer" where
  "llm_messages lib var headers body send =
     (case messages_request var headers body of
        Inl answer \<Rightarrow> answer
      | Inr req \<Rightarrow>
          (case send req of
             Inl e \<Rightarrow> plain_answer 502 (''ai gateway request failed: '' @ e)
           | Inr (resp, resp_headers) \<Rightarrow>
               (let t = unwrap_or_default (response_text (rl_decode lib) resp)
                in if is_success (ur_status resp)
                   then (case rl_parse lib t of
                           Some v \<Rightarrow> \<lparr>da_status = 200, da_headers = [], da_body = Driver_Json v\<rparr> | None \<Rightarrow> plain_answer 502 t)
                   else \<lparr>da_status = messaging_upstream_status (ur_status resp),
                          da_headers = rate_limit_headers resp_headers, da_body = Driver_Text t\<rparr>)))"

section \<open>The messaging routes of the kernel\<close>

record telegram_send_body =
  tsb_chat_id :: string
  tsb_text :: string
  tsb_disable_notification :: bool

record discord_send_body =
  dsb_webhook_url :: string
  dsb_content :: string

text \<open>Value::get, and as\_i64.\<close>
definition sval_get :: "string \<Rightarrow> sval \<Rightarrow> sval option" where
  "sval_get k v = (case v of SObj kvs \<Rightarrow> map_of (rev kvs) k | _ \<Rightarrow> None)"

definition as_i64 :: "sval \<Rightarrow> int option" where
  "as_i64 v = (case v of SInt i \<Rightarrow> if - (2 ^ 63) \<le> i \<and> i < 2 ^ 63 then Some i else None | _ \<Rightarrow> None)"

definition telegram_url :: "string \<Rightarrow> string" where
  "telegram_url token = ''https://api.telegram.org/bot'' @ token @ ''/sendMessage''"

definition telegram_send ::
  "relay_lib \<Rightarrow> environment \<Rightarrow> telegram_send_body \<Rightarrow> (driver_request \<Rightarrow> string + upstream_response) \<Rightarrow> driver_answer" where
  "telegram_send lib var body send =
     (case var ''TELEGRAM_BOT_TOKEN'' of
        None \<Rightarrow> plain_answer 503 ''TELEGRAM_BOT_TOKEN not configured''
      | Some token \<Rightarrow>
          (case send \<lparr>dq_url = telegram_url token, dq_headers = [json_content_type],
                  dq_body = SObj [(''chat_id'', SStr (tsb_chat_id body)), (''text'', SStr (tsb_text body)),
                    (''disable_notification'', SBool (tsb_disable_notification body))]\<rparr> of
             Inl e \<Rightarrow> plain_answer 502 (''telegram request failed: '' @ e)
           | Inr resp \<Rightarrow>
               (let t = unwrap_or_default (response_text (rl_decode lib) resp)
                in if is_success (ur_status resp)
                   then (let parsed = unwrap_or SNull (rl_parse lib t);
                             message_id = Option.bind (Option.bind (sval_get ''result'' parsed) (sval_get ''message_id'')) as_i64
                         in \<lparr>da_status = 200, da_headers = [], da_body = Driver_Json (SObj [(''ok'', SBool True),
                              (''message_id'', case message_id of None \<Rightarrow> SNull | Some i \<Rightarrow> SInt i)])\<rparr>)
                   else plain_answer (messaging_upstream_status (ur_status resp)) t)))"

definition discord_send ::
  "relay_lib \<Rightarrow> discord_send_body \<Rightarrow> (driver_request \<Rightarrow> string + upstream_response) \<Rightarrow> driver_answer" where
  "discord_send lib body send =
     (if \<not> prefix ''https://discord.com/api/webhooks/'' (dsb_webhook_url body) \<and>
         \<not> prefix ''https://discordapp.com/api/webhooks/'' (dsb_webhook_url body)
      then plain_answer 400 ''webhook_url must be a discord.com/api/webhooks/... URL''
      else case send \<lparr>dq_url = dsb_webhook_url body, dq_headers = [json_content_type],
                  dq_body = SObj [(''content'', SStr (dsb_content body))]\<rparr> of
          Inl e \<Rightarrow> plain_answer 502 (''discord request failed: '' @ e)
        | Inr resp \<Rightarrow>
            if is_success (ur_status resp)
            then \<lparr>da_status = 200, da_headers = [], da_body = Driver_Json (SObj [(''ok'', SBool True)])\<rparr>
            else plain_answer (messaging_upstream_status (ur_status resp)) (unwrap_or_default (response_text (rl_decode lib) resp)))"

section \<open>The intercepting proxy\<close>

text \<open>The URL library: a parsed URL's host, query pairs and the text with other pairs.\<close>
record parsed_url =
  pu_host :: "string option"
  pu_pairs :: "(string \<times> string) list"
  pu_with_pairs :: "(string \<times> string) list \<Rightarrow> string"

definition matches_any :: "string \<Rightarrow> string list \<Rightarrow> bool" where
  "matches_any key redact = list_ex (\<lambda>r. eq_ignore_ascii_case r key) redact"

definition redact_url :: "(string \<Rightarrow> parsed_url option) \<Rightarrow> string \<Rightarrow> string list \<Rightarrow> string" where
  "redact_url parse_url url redact =
     (if redact = [] then url
      else case parse_url url of
          None \<Rightarrow> url
        | Some parsed \<Rightarrow>
            if \<not> list_ex (\<lambda>(k, v). matches_any k redact) (pu_pairs parsed) then url
            else pu_with_pairs parsed
              (map (\<lambda>(k, v). if matches_any k redact then (k, ''REDACTED'') else (k, v)) (pu_pairs parsed)))"

definition host_from_url :: "(string \<Rightarrow> parsed_url option) \<Rightarrow> string \<Rightarrow> string" where
  "host_from_url parse_url url =
     (let fallback =
        (let head = takeWhile (\<lambda>c. c \<noteq> CHR ''/'') url;
             host = (case rsplit_once CHR '':'' head of Some (h, _) \<Rightarrow> h | None \<Rightarrow> head)
         in if host = [] then ''unknown'' else host)
      in case parse_url url of
          None \<Rightarrow> fallback
        | Some parsed \<Rightarrow> (case pu_host parsed of None \<Rightarrow> fallback | Some h \<Rightarrow> if h \<noteq> [] then h else fallback))"

text \<open>str::parse::<u64>: digits, after at most one plus sign.\<close>
definition parse_u64 :: "string \<Rightarrow> u64 option" where
  "parse_u64 s =
     (let ds = (case s of c # cs \<Rightarrow> if c = CHR ''+'' then cs else s | [] \<Rightarrow> s);
          n = foldl (\<lambda>n c. n * 10 + ((of_char c :: nat) - 48)) 0 ds
      in if ds = [] \<or> list_ex (\<lambda>c. \<not> (48 \<le> (of_char c :: nat) \<and> (of_char c :: nat) \<le> 57)) ds \<or> n \<ge> 2 ^ 64 then None
         else Some (of_nat n))"

definition header_length :: "header_map \<Rightarrow> u64" where
  "header_length hs = unwrap_or 0 (Option.bind (Option.bind (header_get hs ''content-length'') to_str) parse_u64)"

record inflight_request =
  ifr_started_at :: int
  ifr_timestamp :: timestamp
  ifr_method :: string
  ifr_url :: string
  ifr_host :: string
  ifr_request_size :: u64

text \<open>The handler: its clones, one per connection, share the slot for the request in flight and the store.\<close>
record traffic_logger =
  tl_redact :: "string list"
  tl_inflight :: "inflight_request option"
  tl_store :: duck_store

definition traffic_logger_new :: "duck_store \<Rightarrow> string list \<Rightarrow> traffic_logger" where
  "traffic_logger_new s redact = \<lparr>tl_redact = redact, tl_inflight = None, tl_store = s\<rparr>"

definition write_record :: "traffic_record \<Rightarrow> traffic_logger \<Rightarrow> traffic_logger" where
  "write_record r t = t\<lparr>tl_store := snd (insert_traffic r (tl_store t))\<rparr>"

record proxied_request =
  pq_method :: string
  pq_uri :: string
  pq_headers :: header_map

record proxied_response =
  px_status :: "16 word"
  px_headers :: header_map

definition handle_request ::
  "(string \<Rightarrow> parsed_url option) \<Rightarrow> int \<Rightarrow> timestamp \<Rightarrow> proxied_request \<Rightarrow> traffic_logger \<Rightarrow> proxied_request \<times> traffic_logger" where
  "handle_request parse_url instant now req t =
     (let url = redact_url parse_url (pq_uri req) (tl_redact t)
      in (req, t\<lparr>tl_inflight := Some
           \<lparr>ifr_started_at = instant, ifr_timestamp = now, ifr_method = pq_method req, ifr_url = url,
            ifr_host = host_from_url parse_url url, ifr_request_size = header_length (pq_headers req)\<rparr>\<rparr>))"

definition handle_response :: "int \<Rightarrow> string \<Rightarrow> proxied_response \<Rightarrow> traffic_logger \<Rightarrow> proxied_response \<times> traffic_logger" where
  "handle_response instant uuid res t =
     (let response_size = header_length (px_headers res); slot = tl_inflight t; t = t\<lparr>tl_inflight := None\<rparr>
      in (res,
          case slot of
            None \<Rightarrow> t
          | Some req \<Rightarrow>
              write_record
                \<lparr>trf_id = uuid, trf_timestamp = ifr_timestamp req, trf_method = ifr_method req, trf_url = ifr_url req,
                 trf_host = ifr_host req, trf_status_code = px_status res, trf_request_size_bytes = ifr_request_size req,
                 trf_response_size_bytes = response_size, trf_duration_ms = word_of_int (max 0 (instant - ifr_started_at req)),
                 trf_session_id = None\<rparr> t))"

section \<open>What the client gets\<close>

text \<open>The bytes of a body without errors.\<close>
definition body_bytes :: "(string + string) list \<Rightarrow> string" where
  "body_bytes cs = concat (List.map_filter (\<lambda>c. case c of Inl _ \<Rightarrow> None | Inr b \<Rightarrow> Some b) cs)"

definition unbroken :: "(string + string) list \<Rightarrow> bool" where
  "unbroken cs \<longleftrightarrow> list_all (\<lambda>c. case c of Inl _ \<Rightarrow> False | Inr _ \<Rightarrow> True) cs"

lemma body_bytes_simps [simp]: "body_bytes [] = []" "body_bytes (Inr b # cs) = b @ body_bytes cs" "body_bytes (Inl e # cs) = body_bytes cs"
  by (simp_all add: body_bytes_def List.map_filter_simps)

lemma unbroken_simps [simp]: "unbroken []" "unbroken (Inr b # cs) = unbroken cs" "\<not> unbroken (Inl e # cs)"
  by (simp_all add: unbroken_def)

text \<open>Whatever the client does, the task reads an unbroken stream to its end.\<close>
lemma tee_read: "unbroken cs \<Longrightarrow> snd (tee_stream present n buf cs) = Some (buf @ body_bytes cs)"
  by (induction present n buf cs rule: tee_stream.induct) (auto simp: body_bytes_def List.map_filter_simps split: prod.splits)

lemma tee_sent: "unbroken cs \<Longrightarrow> \<forall>i. present i \<Longrightarrow> fst (tee_stream present n buf cs) = cs"
  by (induction present n buf cs rule: tee_stream.induct) (auto split: prod.splits)

lemma text_unbroken: "unbroken (ur_chunks r) \<Longrightarrow> response_text decode r = Inr (decode (ur_content_type r) (body_bytes (ur_chunks r)))"
proof -
  have "unbroken cs \<Longrightarrow> List.map_filter (\<lambda>c. case c of Inl e \<Rightarrow> Some e | Inr _ \<Rightarrow> None) cs = []" for cs :: "(string + string) list"
    by (induction cs) (auto simp: unbroken_def List.map_filter_simps split: sum.splits)
  then show "unbroken (ur_chunks r) \<Longrightarrow> ?thesis" by (simp add: response_text_def body_bytes_def)
qed

text \<open>C30: 
  The relay passes the upstream's answer on, whatever the capture makes of the exchange: if the upstream's body is not broken off,
  the client stays, and decoding a body that is not a stream gives its bytes (a UTF-8 text), the client gets the upstream's status,
  its content type if it has one, and exactly its bytes.
\<close>
theorem relay_passes_through:
  assumes "unbroken (ur_chunks resp)" and "\<forall>n. present n"
    and "rl_decode lib (ur_content_type resp) (body_bytes (ur_chunks resp)) = body_bytes (ur_chunks resp)"
  shows "\<exists>r st'. handle_chat_completions lib relay env headers body (Inr resp) present st = (r, st') \<and>
    rr_status r = ur_status resp \<and> unbroken (rr_body r) \<and> body_bytes (rr_body r) = body_bytes (ur_chunks resp) \<and>
    rr_content_type r \<in> (case ur_content_type resp of None \<Rightarrow> {''text/event-stream'', ''application/json''} | Some ct \<Rightarrow> {ct})"
proof (cases "upstream_is_sse resp \<or> client_requested_stream (Option.bind (rl_parse lib body) de_chat_request)")
  case True
  with tee_sent [OF assms(1,2), of 0 "[]"] assms(1) show ?thesis
    by (auto simp: handle_chat_completions_def Let_def split: prod.splits option.splits)
next
  case False
  with text_unbroken [OF assms(1), of "rl_decode lib"] assms(3) show ?thesis
    by (auto simp: handle_chat_completions_def Let_def unwrap_or_default_def split: option.splits)
qed

text \<open>Two requests for the same exchange: neither can be read, or both name the same model and messages.\<close>
definition same_exchange :: "relay_lib \<Rightarrow> string \<Rightarrow> string \<Rightarrow> bool" where
  "same_exchange lib body body' \<longleftrightarrow> rel_option (\<lambda>r r'. cq_model r = cq_model r' \<and> cq_messages r = cq_messages r')
     (Option.bind (rl_parse lib body) de_chat_request) (Option.bind (rl_parse lib body') de_chat_request)"

lemma run_capture_same:
  assumes "rel_option (\<lambda>r r'. cq_model r = cq_model r' \<and> cq_messages r = cq_messages r') req req'"
  shows "run_capture relay env req rsp sid service code st = run_capture relay env req' rsp sid service code st"
  using assms
proof (cases rule: option.rel_cases)
  case (Some r r')
  then have "extract_turns (cap_print env) r = extract_turns (cap_print env) r'" "exchange_span env s r = exchange_span env s r'" for s
    by (auto simp: extract_turns_def exchange_span_def fun_eq_iff split: list.split option.split)
  then show ?thesis using Some by (simp add: run_capture_def Let_def split: option.split)
qed simp

text \<open>C29: 
  A reply is captured alike whether it is sent whole or as a stream: take a request without stream: true, answered whole, and
  one for the same model and messages, with stream: true or not, that the upstream answers with a stream, labelled as one if the
  request did not ask for it. If the stream, however it is cut into pieces, spells out the reply that the whole body holds, the
  kernel ends up in the same state, even when the client of the stream hangs up half-way. Neither body is broken off, and the
  two exchanges have the same status, headers, ids and clock readings.
\<close>
theorem streamed_captured_alike:
  assumes "unbroken (ur_chunks whole)" and "unbroken (ur_chunks stream)" and "ur_status whole = ur_status stream"
    and "same_exchange lib body body'"
    and "\<not> upstream_is_sse whole" and "\<not> client_requested_stream (Option.bind (rl_parse lib body) de_chat_request)"
    and "upstream_is_sse stream \<or> client_requested_stream (Option.bind (rl_parse lib body') de_chat_request)"
    and "Option.bind (rl_parse lib (rl_decode lib (ur_content_type whole) (body_bytes (ur_chunks whole)))) de_chat_response = Some rsp"
    and "sse_chunks (rl_parse lib) (rl_lossy lib (body_bytes (ur_chunks stream))) \<noteq> []"
    and "response_of_chunks (sse_chunks (rl_parse lib) (rl_lossy lib (body_bytes (ur_chunks stream)))) = rsp"
  shows "snd (handle_chat_completions lib relay env headers body' (Inr stream) present st) =
    snd (handle_chat_completions lib relay env headers body (Inr whole) present' st)"
proof -
  have "snd (tee_stream present 0 [] (ur_chunks stream)) = Some (body_bytes (ur_chunks stream))" using tee_read [OF assms(2)] by simp
  then obtain sent where tee: "tee_stream present 0 [] (ur_chunks stream) = (sent, Some (body_bytes (ur_chunks stream)))"
    by (metis prod.collapse)
  have parsed: "parse_sse_to_response (rl_parse lib) (rl_lossy lib (body_bytes (ur_chunks stream))) = Some rsp"
    using assms(9,10) by (simp add: stream_reference Let_def)
  note same = run_capture_same [OF assms(4) [unfolded same_exchange_def], of relay env "Some rsp"]
  have "snd (handle_chat_completions lib relay env headers body' (Inr stream) present st) =
      run_capture relay env (Option.bind (rl_parse lib body') de_chat_request) (Some rsp)
        (extract_header headers (rlc_session_header (lr_cfg relay))) (extract_header headers (rlc_service_header (lr_cfg relay)))
        (ur_status stream) st"
    using assms(7) by (simp add: handle_chat_completions_def Let_def tee parsed)
  moreover have "snd (handle_chat_completions lib relay env headers body (Inr whole) present' st) =
      run_capture relay env (Option.bind (rl_parse lib body) de_chat_request) (Some rsp)
        (extract_header headers (rlc_session_header (lr_cfg relay))) (extract_header headers (rlc_service_header (lr_cfg relay)))
        (ur_status stream) st"
    using assms(3,5,6,8) text_unbroken [OF assms(1), of "rl_decode lib"]
    by (simp add: handle_chat_completions_def Let_def unwrap_or_default_def)
  ultimately show ?thesis using same by simp
qed

text \<open>A request with stream: true that the upstream answers with a whole document takes the path of a stream, in which the document
  has no chunk: the exchange is not captured.\<close>
theorem whole_reply_to_stream_request_lost:
  assumes "client_requested_stream (Option.bind (rl_parse lib body) de_chat_request)"
    and "sse_chunks (rl_parse lib) (rl_lossy lib (body_bytes (ur_chunks resp))) = []" and "unbroken (ur_chunks resp)"
  shows "snd (handle_chat_completions lib relay env headers body (Inr resp) present st) = st"
proof -
  have "snd (tee_stream present 0 [] (ur_chunks resp)) = Some (body_bytes (ur_chunks resp))" using tee_read [OF assms(3)] by simp
  then obtain sent where tee: "tee_stream present 0 [] (ur_chunks resp) = (sent, Some (body_bytes (ur_chunks resp)))"
    by (metis prod.collapse)
  have "parse_sse_to_response (rl_parse lib) (rl_lossy lib (body_bytes (ur_chunks resp))) = None"
    using assms(2) by (simp add: stream_reference Let_def)
  then show ?thesis using assms(1) by (simp add: handle_chat_completions_def Let_def tee run_capture_def split: option.split)
qed

text \<open>
  The kernel's completion route captures as the relay does: a successful call that is not streamed, sent to the same server with
  the same identity headers, leaves the kernel in the same state either way.
\<close>
theorem driver_captures_like_relay:
  assumes "var ''GCTRL_LLM_PROVIDER'' \<noteq> Some ''cloudflare''" and "var ''GCTRL_LLM_LOCAL_URL'' = Some url"
    and "\<not> contains ''gateway.ai.cloudflare.com'' (cap_lower env url)"
    and "send = (\<lambda>req. Inr resp)" and "is_success (ur_status resp)"
    and "\<not> upstream_is_sse resp" and "\<not> client_requested_stream (Option.bind (rl_parse lib (cap_print env doc)) de_chat_request)"
  shows "snd (llm_completions lib var cfg env headers doc send st) =
    snd (handle_chat_completions lib \<lparr>lr_cfg = \<lparr>rlc_upstream_url = url, rlc_session_header = ''x-session-id'',
      rlc_service_header = ''x-service-name''\<rparr>, lr_capture = cfg\<rparr> env headers (cap_print env doc) (Inr resp) present st)"
proof -
  have provider: "unwrap_or ''lmstudio'' (var ''GCTRL_LLM_PROVIDER'') \<noteq> ''cloudflare''"
    using assms(1) by (cases "var ''GCTRL_LLM_PROVIDER''") simp_all
  have system: "derive_gen_ai_system_from_url (cap_lower env) url = derive_gen_ai_system (cap_lower env) url"
    using assms(3) by (simp add: derive_gen_ai_system_from_url_def derive_gen_ai_system_def Let_def)
  show ?thesis
    using provider assms(2,4-7)
    by (simp add: llm_completions_def completions_request_def completion_answer_def handle_chat_completions_def Let_def
        capture_oai_exchange_def run_capture_def system llm_capture_header_def extract_header_def split: option.split)
qed

section \<open>Exchanges evaluated\<close>

definition sample_lib :: relay_lib where
  "sample_lib = \<lparr>rl_parse = (\<lambda>s. if s = ''chunk'' then Some (SObj [(''choices'', SArr [SObj [(''index'', SInt 0),
         (''delta'', SObj [(''role'', SStr ''assistant''), (''content'', SStr ''yo'')])]]),
         (''usage'', SObj [(''prompt_tokens'', SInt 3), (''completion_tokens'', SInt 4)])])
       else if s = ''streaming'' then Some (SObj [(''model'', SStr ''m''), (''stream'', SBool True),
         (''messages'', SArr [SObj [(''role'', SStr ''user''), (''content'', SStr ''hi'')]])]) else sample_chat_doc s),
     rl_lossy = (\<lambda>s. s), rl_decode = (\<lambda>ct s. s)\<rparr>"

definition sample_whole :: upstream_response where
  "sample_whole = \<lparr>ur_status = 200, ur_content_type = Some ''application/json'', ur_chunks = [Inr ''re'', Inr ''ply'']\<rparr>"

definition sample_stream :: upstream_response where
  "sample_stream = \<lparr>ur_status = 200, ur_content_type = Some ''text/event-stream'',
     ur_chunks = [Inr ''data:ch'', Inr (''unk'' @ [CHR 0x0A])]\<rparr>"

text \<open>A stream that is labelled as a document.\<close>
definition sample_mislabelled :: upstream_response where
  "sample_mislabelled = sample_stream\<lparr>ur_content_type := Some ''application/json''\<rparr>"

definition sample_relay :: llm_relay where
  "sample_relay = \<lparr>lr_cfg = default_relay_config, lr_capture = default_capture_config\<rparr>"

lemma sample_bodies:
  "body_bytes (ur_chunks sample_whole) = ''reply''" "unbroken (ur_chunks sample_whole)"
  "body_bytes (ur_chunks sample_stream) = ''data:chunk'' @ [CHR 0x0A]" "unbroken (ur_chunks sample_stream)"
  by (simp_all add: sample_whole_def sample_stream_def)

lemma sample_kinds:
  "\<not> upstream_is_sse sample_whole" "upstream_is_sse sample_stream"
  "Option.bind (rl_parse sample_lib ''request'') de_chat_request = Some sample_chat"
  "\<not> client_requested_stream (Some sample_chat)"
  using sample_chat_docs(1)
  by (simp_all add: upstream_is_sse_def to_str_def sample_whole_def sample_stream_def sample_lib_def client_requested_stream_def
      sample_chat_def)

lemma sample_trim: "trim ''chunk'' = ''chunk''"
  by code_simp

lemma sample_sse:
  "sse_chunks (rl_parse sample_lib) (''data:chunk'' @ [CHR 0x0A]) = [\<lparr>cn_choices = [\<lparr>ck_index = 0, ck_delta = Some
     \<lparr>cd_role = Some ''assistant'', cd_content = Some ''yo''\<rparr>\<rparr>], cn_usage = Some \<lparr>cu_prompt_tokens = Some 3, cu_completion_tokens = Some 4\<rparr>,
     cn_model = None\<rparr>]"
  by (simp add: sse_chunks_def lines_def sse_payload_def strip_prefix_def sample_trim sample_lib_def List.map_filter_simps
      de_chat_chunk_def de_chunk_choice_def de_chunk_delta_def de_chat_usage_def de_defs de_signed_def de_unsigned_def)

lemma sample_reply:
  "Option.bind (rl_parse sample_lib ''reply'') de_chat_response =
     Some (response_of_chunks (sse_chunks (rl_parse sample_lib) (''data:chunk'' @ [CHR 0x0A])))"
  unfolding sample_sse using sample_chat_docs(2)
  by (simp add: sample_lib_def response_of_chunks_def chunk_deltas_def choice_deltas_def List.map_filter_simps reply_indices_def)

lemma relay_passes_through_witness:
  "\<exists>r st'. handle_chat_completions sample_lib sample_relay sample_capture [] ''request'' (Inr sample_whole) (\<lambda>n. True) otel_start =
     (r, st') \<and> rr_status r = 200 \<and> body_bytes (rr_body r) = ''reply''"
  using relay_passes_through [of sample_whole "\<lambda>n. True" sample_lib sample_relay sample_capture "[]" "''request''" otel_start]
  by (auto simp: sample_bodies sample_lib_def) (simp add: sample_whole_def)

lemma sample_streaming:
  "Option.bind (rl_parse sample_lib ''streaming'') de_chat_request = Some (sample_chat\<lparr>cq_stream := Some True\<rparr>)"
  by (simp add: sample_lib_def sample_chat_def de_chat_request_def de_chat_message_def de_bool_def de_defs)

text \<open>A client asks for a stream, gets one under another label and hangs up at once; another asks for the whole reply.\<close>
lemma streamed_captured_alike_witness:
  "snd (handle_chat_completions sample_lib sample_relay sample_capture [(''x-session-id'', ''s'')] ''streaming'' (Inr sample_mislabelled)
      (\<lambda>n. False) otel_start) =
    snd (handle_chat_completions sample_lib sample_relay sample_capture [(''x-session-id'', ''s'')] ''request'' (Inr sample_whole)
      (\<lambda>n. True) otel_start)"
proof (rule streamed_captured_alike [OF sample_bodies(2) _ _ _ sample_kinds(1) _ _ _ _ refl])
  have chunks: "ur_chunks sample_mislabelled = ur_chunks sample_stream" by (simp add: sample_mislabelled_def)
  show "unbroken (ur_chunks sample_mislabelled)" unfolding chunks by (rule sample_bodies)
  show "ur_status sample_whole = ur_status sample_mislabelled" by (simp add: sample_whole_def sample_stream_def sample_mislabelled_def)
  show "same_exchange sample_lib ''request'' ''streaming''" by (simp add: same_exchange_def sample_streaming sample_kinds(3))
  show "\<not> client_requested_stream (Option.bind (rl_parse sample_lib ''request'') de_chat_request)" using sample_kinds(3,4) by simp
  show "upstream_is_sse sample_mislabelled \<or> client_requested_stream (Option.bind (rl_parse sample_lib ''streaming'') de_chat_request)"
    unfolding sample_streaming by (simp add: client_requested_stream_def)
  have ids: "rl_decode sample_lib ct s = s" "rl_lossy sample_lib s = s" for ct s by (simp_all add: sample_lib_def)
  show "Option.bind (rl_parse sample_lib (rl_decode sample_lib (ur_content_type sample_whole) (body_bytes (ur_chunks sample_whole))))
      de_chat_response = Some (response_of_chunks (sse_chunks (rl_parse sample_lib) (rl_lossy sample_lib (body_bytes (ur_chunks sample_mislabelled)))))"
    unfolding ids chunks sample_bodies by (rule sample_reply)
  show "sse_chunks (rl_parse sample_lib) (rl_lossy sample_lib (body_bytes (ur_chunks sample_mislabelled))) \<noteq> []"
    unfolding ids chunks sample_bodies sample_sse by simp
qed

lemma whole_reply_to_stream_request_lost_witness:
  "snd (handle_chat_completions sample_lib sample_relay sample_capture [(''x-session-id'', ''s'')] ''streaming'' (Inr sample_whole)
      (\<lambda>n. True) otel_start) = otel_start"
proof (rule whole_reply_to_stream_request_lost)
  show "client_requested_stream (Option.bind (rl_parse sample_lib ''streaming'') de_chat_request)"
    unfolding sample_streaming by (simp add: client_requested_stream_def)
  show "sse_chunks (rl_parse sample_lib) (rl_lossy sample_lib (body_bytes (ur_chunks sample_whole))) = []"
    unfolding sample_bodies by (simp add: sample_lib_def sse_chunks_def lines_def sse_payload_def strip_prefix_def List.map_filter_simps)
qed (rule sample_bodies)

definition sample_local :: environment where
  "sample_local = [''GCTRL_LLM_LOCAL_URL'' \<mapsto> ''http://localhost:1234/v1/chat/completions'']"

lemma driver_captures_like_relay_witness:
  "snd (llm_completions sample_lib sample_local default_capture_config sample_capture [(''x-session-id'', ''s'')] SNull (\<lambda>req. Inr sample_whole)
      otel_start) =
    snd (handle_chat_completions sample_lib \<lparr>lr_cfg = \<lparr>rlc_upstream_url = ''http://localhost:1234/v1/chat/completions'',
      rlc_session_header = ''x-session-id'', rlc_service_header = ''x-service-name''\<rparr>, lr_capture = default_capture_config\<rparr> sample_capture
      [(''x-session-id'', ''s'')] [] (Inr sample_whole) (\<lambda>n. True) otel_start)"
proof -
  have "cap_print sample_capture SNull = []" "cap_lower sample_capture u = u" for u by (simp_all add: sample_capture_def)
  moreover have "\<not> client_requested_stream (Option.bind (rl_parse sample_lib []) de_chat_request)"
    by (simp add: sample_lib_def sample_chat_doc_def client_requested_stream_def)
  moreover have "is_success (ur_status sample_whole)" by (simp add: is_success_def sample_whole_def)
  ultimately show ?thesis
    using driver_captures_like_relay [of sample_local "''http://localhost:1234/v1/chat/completions''" sample_capture "\<lambda>req. Inr sample_whole"
        sample_whole sample_lib SNull default_capture_config "[(''x-session-id'', ''s'')]" otel_start "\<lambda>n. True"] sample_kinds(1)
    by (simp add: sample_local_def)
qed

section \<open>Errors\<close>

text \<open>
  A call that the kernel's completion route answers without a document, because the upstream streams its reply, fails although the
  upstream served it: the caller gets 502 with the stream's text, and nothing is captured.
\<close>
theorem streamed_driver_call_fails:
  assumes "completions_request var doc = Inr req" and "send req = Inr resp" and "is_success (ur_status resp)"
    and "unbroken (ur_chunks resp)"
    and "rl_parse lib (rl_decode lib (ur_content_type resp) (body_bytes (ur_chunks resp))) = None"
  shows "llm_completions lib var cfg env headers doc send st =
    (plain_answer 502 (rl_decode lib (ur_content_type resp) (body_bytes (ur_chunks resp))), st)"
  using assms text_unbroken [OF assms(4), of "rl_decode lib"]
  by (simp add: llm_completions_def completion_answer_def Let_def unwrap_or_default_def capture_oai_exchange_def split: option.split)

lemma streamed_driver_call_fails_witness:
  "llm_completions sample_lib sample_local default_capture_config sample_capture [(''x-session-id'', ''s'')] SNull (\<lambda>req. Inr sample_stream)
     otel_start = (plain_answer 502 (''data:chunk'' @ [CHR 0x0A]), otel_start)"
proof -
  have "rl_parse sample_lib (''data:chunk'' @ [CHR 0x0A]) = None" "rl_decode sample_lib ct s = s" for ct s
    by (simp_all add: sample_lib_def sample_chat_doc_def)
  moreover have "\<exists>req. completions_request sample_local SNull = Inr req" by (simp add: completions_request_def sample_local_def)
  then obtain req where "completions_request sample_local SNull = Inr req" by blast
  moreover have "is_success (ur_status sample_stream)" by (simp add: is_success_def sample_stream_def)
  ultimately show ?thesis
    using streamed_driver_call_fails [of sample_local SNull req "\<lambda>req. Inr sample_stream" sample_stream sample_lib]
    unfolding sample_bodies by (simp add: sample_bodies)
qed

text \<open>An upstream that breaks its body off is passed on as a success with an empty body.\<close>
lemma broken_upstream_is_empty_success:
  assumes "\<not> upstream_is_sse resp" and "\<not> client_requested_stream (Option.bind (rl_parse lib body) de_chat_request)"
    and "Inl e \<in> set (ur_chunks resp)"
  shows "rr_status (fst (handle_chat_completions lib relay env headers body (Inr resp) present st)) = ur_status resp \<and>
    rr_body (fst (handle_chat_completions lib relay env headers body (Inr resp) present st)) = [Inr []]"
proof -
  have "Inl e \<in> set cs \<Longrightarrow> \<exists>f fs. List.map_filter (\<lambda>c. case c of Inl e \<Rightarrow> Some e | Inr _ \<Rightarrow> None) cs = f # fs" for cs :: "(string + string) list"
    by (induction cs) (auto simp: List.map_filter_simps split: sum.splits)
  from this [OF assms(3)] obtain f where "response_text (rl_decode lib) resp = Inl f" by (auto simp: response_text_def)
  with assms(1,2) show ?thesis by (simp add: handle_chat_completions_def Let_def unwrap_or_default_def)
qed

text \<open>A failed call is captured, as an error, by the relay and not by the kernel's route.\<close>
lemma failed_driver_call_not_captured:
  assumes "completions_request var doc = Inr req" and "send req = Inr resp" and "\<not> is_success (ur_status resp)"
  shows "snd (llm_completions lib var cfg env headers doc send st) = st"
  using assms by (simp add: llm_completions_def completion_answer_def Let_def)

text \<open>The error text of the HTTP client names the URL it was sending to, and so the caller reads the bot's token.\<close>
lemma telegram_error_leaks_token:
  assumes "var ''TELEGRAM_BOT_TOKEN'' = Some token" and "\<And>req. send req = Inl (failure (dq_url req))"
    and "\<And>url. contains url (failure url)"
  shows "\<exists>t. telegram_send lib var body send = plain_answer 502 t \<and> contains token t"
proof -
  obtain a b where "failure (telegram_url token) = a @ telegram_url token @ b" using assms(3) contains_iff by blast
  then have "''telegram request failed: '' @ failure (telegram_url token) =
      (''telegram request failed: '' @ a @ ''https://api.telegram.org/bot'') @ token @ (''/sendMessage'' @ b)"
    by (simp add: telegram_url_def)
  then have "contains token (''telegram request failed: '' @ failure (telegram_url token))" unfolding contains_iff by blast
  moreover have "telegram_send lib var body send = plain_answer 502 (''telegram request failed: '' @ failure (telegram_url token))"
    using assms(1,2) by (simp add: telegram_send_def)
  ultimately show ?thesis by blast
qed

section \<open>Connections through the proxy\<close>

text \<open>
  The slot of the handler is shared by its clones: when two connections have a request in flight at once, the first response is
  stored with the URL and method of the other connection's request and its own status, and the other response is not stored.
\<close>
theorem shared_slot_mixes_exchanges:
  assumes "uint (px_status res1) < 2 ^ 15" and "\<not> list_ex (\<lambda>r. trr_id r = uuid1) (d_traffic (tl_store t))"
  shows "\<exists>row. d_traffic (tl_store (snd (handle_response i4 uuid2 res2 (snd (handle_response i3 uuid1 res1
      (snd (handle_request parse_url i2 now2 req2 (snd (handle_request parse_url i1 now1 req1 t))))))))) =
        d_traffic (tl_store t) @ [row] \<and>
    trr_status_code row = uint (px_status res1) \<and> trr_method row = pq_method req2 \<and>
    trr_url row = redact_url parse_url (pq_uri req2) (tl_redact t)"
  using assms by (simp add: handle_request_def handle_response_def write_record_def insert_traffic_def replace_rows_def Let_def)

lemma shared_slot_mixes_exchanges_witness:
  "\<exists>row. d_traffic (tl_store (snd (handle_response 4 ''v'' \<lparr>px_status = 500, px_headers = []\<rparr> (snd (handle_response 3 ''u''
      \<lparr>px_status = 200, px_headers = []\<rparr> (snd (handle_request (\<lambda>u. None) 2 ''n'' \<lparr>pq_method = ''POST'', pq_uri = ''b'', pq_headers = []\<rparr>
      (snd (handle_request (\<lambda>u. None) 1 ''n'' \<lparr>pq_method = ''GET'', pq_uri = ''a'', pq_headers = []\<rparr> (traffic_logger_new duck_open [])))))))))) =
      [row] \<and> trr_status_code row = 200 \<and> trr_url row = ''b''"
  using shared_slot_mixes_exchanges [of "\<lparr>px_status = 200, px_headers = []\<rparr>" "''u''" "traffic_logger_new duck_open []" 4 "''v''"
      "\<lparr>px_status = 500, px_headers = []\<rparr>" 3 "\<lambda>u. None" 2 "''n''" "\<lparr>pq_method = ''POST'', pq_uri = ''b'', pq_headers = []\<rparr>" 1 "''n''"
      "\<lparr>pq_method = ''GET'', pq_uri = ''a'', pq_headers = []\<rparr>"]
  by (auto simp: traffic_logger_new_def duck_open_def redact_url_def)

text \<open>An exchange alone is stored as it was, with the values of the redacted parameters hidden.\<close>
lemma lone_exchange_stored:
  assumes "uint (px_status res) < 2 ^ 15" and "\<not> list_ex (\<lambda>r. trr_id r = uuid) (d_traffic (tl_store t))"
  shows "\<exists>row. d_traffic (tl_store (snd (handle_response i2 uuid res (snd (handle_request parse_url i1 now req t))))) = d_traffic (tl_store t) @ [row] \<and>
    trr_status_code row = uint (px_status res) \<and> trr_url row = redact_url parse_url (pq_uri req) (tl_redact t)"
  using assms by (simp add: handle_request_def handle_response_def write_record_def insert_traffic_def replace_rows_def Let_def)

end
