(* ===== verification/Mac_Platform.thy ===== *)
theory Mac_Platform
  imports Store_Telemetry Mac_Comm
begin

text \<open>
  The macOS driver (gctrl-driver-macos, gctrl-core/src/platform.rs, the label table of gctrl-storage/src/duckdb\_store.rs): the
  assertion that keeps the host awake, the names of Mission Control spaces and how they are found again, the layout of the
  thumbnails, and the routes. IOKit's answers, the live spaces read from the window server, the host's name and the clock are
  arguments; the windows of the overlay are the list of the commands they are sent.
\<close>

section \<open>The platform port\<close>

datatype os = Os_MacOS | Os_Linux | Os_Windows | Os_Unknown

record capability_set =
  cp_spaces :: bool
  cp_notifications :: bool
  cp_login_items :: bool
  cp_power :: bool
  cp_screen_capture :: bool

definition no_capabilities :: capability_set where
  "no_capabilities = \<lparr>cp_spaces = False, cp_notifications = False, cp_login_items = False, cp_power = False, cp_screen_capture = False\<rparr>"

definition capability_strings :: "capability_set \<Rightarrow> string list" where
  "capability_strings c =
     (if cp_spaces c then [''spaces''] else []) @ (if cp_notifications c then [''notifications''] else []) @
     (if cp_login_items c then [''login_items''] else []) @ (if cp_power c then [''power''] else []) @
     (if cp_screen_capture c then [''screen_capture''] else [])"

datatype permission_status = Perm_Granted | Perm_Denied | Perm_Not_Requested | Perm_Not_Promptable

record permission_states =
  pm_accessibility :: "permission_status option"
  pm_notifications :: "permission_status option"
  pm_screen_recording :: "permission_status option"

record platform_health =
  phl_os :: os
  phl_version :: "string option"
  phl_capabilities :: "string list"
  phl_permissions :: permission_states
  phl_version_skew :: bool

datatype platform_error = Permission_Denied string | Unsupported string | Display_Gone | Version_Skew string | Underlying string

definition platform_error_text :: "platform_error \<Rightarrow> string" where
  "platform_error_text e =
     (case e of
        Permission_Denied what \<Rightarrow> ''permission denied: '' @ what
      | Unsupported what \<Rightarrow> ''unsupported on this platform / version: '' @ what
      | Display_Gone \<Rightarrow> ''display went away mid-call''
      | Version_Skew detail \<Rightarrow> ''macOS version moved private symbols / layout: '' @ detail
      | Underlying t \<Rightarrow> ''underlying error: '' @ t)"

definition show_i32 :: "32 word \<Rightarrow> string" where
  "show_i32 w = show_int (sint w)"

section \<open>Power\<close>

datatype sleep_kind = Sleep_Display | Sleep_System

record power_status =
  pws_supported :: bool
  pws_active :: bool
  pws_kind :: sleep_kind
  pws_reason :: string

definition DEFAULT_REASON :: string where
  "DEFAULT_REASON = ''gctrl kernel is running''"

definition default_from_env :: "string option \<Rightarrow> sleep_kind option" where
  "default_from_env raw =
     (case map_option (\<lambda>s. map to_ascii_lower (trim s)) raw of
        None \<Rightarrow> Some Sleep_Display
      | Some s \<Rightarrow>
          if s \<in> {[], ''1'', ''on'', ''true'', ''yes'', ''display''} then Some Sleep_Display
          else if s = ''system'' then Some Sleep_System
          else if s \<in> {''0'', ''off'', ''false'', ''no''} then None
          else Some Sleep_Display)"

record held =
  hld_id :: u32
  hld_kind :: sleep_kind

text \<open>The port and, with it, the assertions the system holds for this process: id, type and name.\<close>
record mac_power =
  mp_held :: "held option"
  mp_last_kind :: sleep_kind
  mp_reason :: string
  mp_live :: "(u32 \<times> string \<times> string) list"

definition mac_power_new :: mac_power where
  "mac_power_new = \<lparr>mp_held = None, mp_last_kind = Sleep_Display, mp_reason = DEFAULT_REASON, mp_live = []\<rparr>"

definition assertion_type :: "sleep_kind \<Rightarrow> string" where
  "assertion_type k = (case k of Sleep_Display \<Rightarrow> ''PreventUserIdleDisplaySleep'' | Sleep_System \<Rightarrow> ''PreventUserIdleSystemSleep'')"

definition snapshot :: "mac_power \<Rightarrow> power_status" where
  "snapshot p =
     \<lparr>pws_supported = True, pws_active = (mp_held p \<noteq> None),
      pws_kind = (case mp_held p of None \<Rightarrow> mp_last_kind p | Some h \<Rightarrow> hld_kind h), pws_reason = mp_reason p\<rparr>"

text \<open>IOKit's answers: a release fails with a code or takes the assertion away; a creation fails or gives an id.\<close>
record iokit =
  iok_release :: "u32 \<Rightarrow> 32 word option"
  iok_create :: "string \<Rightarrow> string \<Rightarrow> 32 word + u32"

definition release_held :: "iokit \<Rightarrow> mac_power \<Rightarrow> (platform_error + unit) \<times> mac_power" where
  "release_held io p =
     (case mp_held p of
        None \<Rightarrow> (Inr (), p)
      | Some h \<Rightarrow>
          (case iok_release io (hld_id h) of
             Some code \<Rightarrow> (Inl (Underlying (''IOPMAssertionRelease failed (code '' @ show_i32 code @ '')'')), p)
           | None \<Rightarrow> (Inr (), p\<lparr>mp_held := None, mp_live := filter (\<lambda>a. fst a \<noteq> hld_id h) (mp_live p)\<rparr>)))"

definition set_prevent_sleep ::
  "iokit \<Rightarrow> bool \<Rightarrow> sleep_kind \<Rightarrow> string \<Rightarrow> mac_power \<Rightarrow> (platform_error + power_status) \<times> mac_power" where
  "set_prevent_sleep io enable kind reason p =
     (let p = p\<lparr>mp_last_kind := kind, mp_reason := (if reason = [] then mp_reason p else reason)\<rparr>
      in case release_held io p of
           (Inl e, p) \<Rightarrow> (Inl e, p)
         | (Inr _, p) \<Rightarrow>
             if \<not> enable then (Inr (snapshot p), p)
             else case iok_create io (assertion_type kind) (mp_reason p) of
                 Inl code \<Rightarrow> (Inl (Underlying (''IOPMAssertionCreateWithName failed (code '' @ show_i32 code @ '')'')), p)
               | Inr i \<Rightarrow>
                   (let p = p\<lparr>mp_held := Some \<lparr>hld_id = i, hld_kind = kind\<rparr>, mp_live := (i, assertion_type kind, mp_reason p) # mp_live p\<rparr>
                    in (Inr (snapshot p), p)))"

text \<open>Drop: a failed release is ignored.\<close>
definition drop_power :: "iokit \<Rightarrow> mac_power \<Rightarrow> mac_power" where
  "drop_power io p =
     (case mp_held p of
        None \<Rightarrow> p
      | Some h \<Rightarrow>
          p\<lparr>mp_held := None,
            mp_live := (if iok_release io (hld_id h) = None then filter (\<lambda>a. fst a \<noteq> hld_id h) (mp_live p) else mp_live p)\<rparr>)"

text \<open>The ports a driver may have: none, the stub, and the one above.\<close>
datatype power_port = No_Power | Noop_Power | Mac_Power mac_power

definition unsupported_status :: power_status where
  "unsupported_status = \<lparr>pws_supported = False, pws_active = False, pws_kind = Sleep_Display, pws_reason = []\<rparr>"

fun port_status :: "power_port \<Rightarrow> power_status option" where
  "port_status No_Power = None"
| "port_status Noop_Power = Some unsupported_status"
| "port_status (Mac_Power p) = Some (snapshot p)"

fun port_set_prevent_sleep ::
  "iokit \<Rightarrow> bool \<Rightarrow> sleep_kind \<Rightarrow> string \<Rightarrow> power_port \<Rightarrow> (platform_error + power_status) \<times> power_port" where
  "port_set_prevent_sleep io enable kind reason No_Power = (Inl (Unsupported ''power capability unavailable''), No_Power)"
| "port_set_prevent_sleep io enable kind reason Noop_Power =
     (Inl (Unsupported ''power.prevent_sleep (driver-macos ffi feature not enabled)''), Noop_Power)"
| "port_set_prevent_sleep io enable kind reason (Mac_Power p) =
     (case set_prevent_sleep io enable kind reason p of (r, p) \<Rightarrow> (r, Mac_Power p))"

text \<open>The boot of a driver with FFI: the assertion is taken unless the environment says not to.\<close>
definition boot_power :: "iokit \<Rightarrow> string option \<Rightarrow> mac_power" where
  "boot_power io raw =
     (case default_from_env raw of
        None \<Rightarrow> mac_power_new
      | Some kind \<Rightarrow> snd (set_prevent_sleep io True kind DEFAULT_REASON mac_power_new))"

section \<open>The table of labels\<close>

record space_label =
  mlb_machine_id :: string
  mlb_display_uuid :: string
  mlb_space_index :: "32 word"
  mlb_space_kind :: string
  mlb_label :: string
  mlb_cgs_id_hint :: "64 word option"
  mlb_created_at :: timestamp
  mlb_updated_at :: timestamp

definition label_key :: "space_label \<Rightarrow> string \<times> string \<times> 32 word \<times> string" where
  "label_key l = (mlb_machine_id l, mlb_display_uuid l, mlb_space_index l, mlb_space_kind l)"

definition upsert_macos_label :: "timestamp \<Rightarrow> space_label \<Rightarrow> space_label list \<Rightarrow> space_label list" where
  "upsert_macos_label now l rows =
     replace_rows label_key (\<lambda>old new. old\<lparr>mlb_label := mlb_label new, mlb_cgs_id_hint := mlb_cgs_id_hint new, mlb_updated_at := now\<rparr>)
       (l\<lparr>mlb_created_at := now, mlb_updated_at := now\<rparr>) rows"

definition delete_macos_label :: "string \<times> string \<times> 32 word \<times> string \<Rightarrow> space_label list \<Rightarrow> bool \<times> space_label list" where
  "delete_macos_label k rows = (list_ex (\<lambda>r. label_key r = k) rows, filter (\<lambda>r. label_key r \<noteq> k) rows)"

definition list_macos_labels :: "string \<Rightarrow> string option \<Rightarrow> space_label list \<Rightarrow> space_label list" where
  "list_macos_labels machine display rows =
     order_asc mlb_display_uuid (order_asc (\<lambda>r. sint (mlb_space_index r)) (filter (\<lambda>r. mlb_machine_id r = machine \<and>
       (case display of None \<Rightarrow> True | Some u \<Rightarrow> mlb_display_uuid r = u)) rows))"

definition get_macos_label :: "string \<times> string \<times> 32 word \<times> string \<Rightarrow> space_label list \<Rightarrow> space_label option" where
  "get_macos_label k rows = find (\<lambda>r. label_key r = k) rows"

section \<open>Thumbnails\<close>

record thumb_rect =
  tr_x :: f64
  tr_y :: f64
  tr_width :: f64
  tr_height :: f64

record display_box =
  db_width :: f64
  db_height :: f64
  db_has_menu_bar :: bool

definition BAR_TOP_INSET :: f64 where "BAR_TOP_INSET = 12"
definition MENU_BAR :: f64 where "MENU_BAR = 24"
definition THUMB_HEIGHT :: f64 where "THUMB_HEIGHT = 96"
definition GUTTER :: f64 where "GUTTER = 16"
definition SIDE_INSET :: f64 where "SIDE_INSET = 24"

text \<open>The width and height of each of n thumbnails.\<close>
definition thumb_size :: "display_box \<Rightarrow> nat \<Rightarrow> f64 \<times> f64" where
  "thumb_size d n =
     (let aspect = db_width d / db_height d; thumb_w = THUMB_HEIGHT * aspect;
          available = db_width d - 2 * SIDE_INSET; gutter_total = of_nat (n - 1) * GUTTER
      in if of_nat n * thumb_w + gutter_total > available
         then (let w = (available - gutter_total) / of_nat n in (w, w / aspect))
         else (thumb_w, THUMB_HEIGHT))"

definition compute_thumbnail_frames :: "display_box \<Rightarrow> nat \<Rightarrow> thumb_rect list" where
  "compute_thumbnail_frames d n =
     (if n = 0 then []
      else case thumb_size d n of (w, h) \<Rightarrow>
        (let total = of_nat n * w + of_nat (n - 1) * GUTTER; start_x = (db_width d - total) / 2;
             bar_top = (if db_has_menu_bar d then MENU_BAR + BAR_TOP_INSET else BAR_TOP_INSET)
         in map (\<lambda>i. \<lparr>tr_x = start_x + of_nat i * (w + GUTTER), tr_y = bar_top, tr_width = w, tr_height = h\<rparr>) [0..<n]))"

definition verify_layout_matches_live :: "display_box \<Rightarrow> nat \<Rightarrow> string option" where
  "verify_layout_matches_live d live_count =
     (let frames = compute_thumbnail_frames d live_count
      in if length frames \<noteq> live_count
         then Some (''layout function produced '' @ show_nat (length frames) @ '' frames for '' @ show_nat live_count @ '' live spaces'')
         else if frames \<noteq> [] \<and> (tr_x (last frames) + tr_width (last frames) > db_width d \<or>
                 tr_y (last frames) + tr_height (last frames) > db_height d)
         then Some ''computed bar overflows display'' else None)"

section \<open>Spaces\<close>

datatype space_kind = Space_User | Space_Fullscreen | Space_Tiled

definition kind_to_str :: "space_kind \<Rightarrow> string" where
  "kind_to_str k = (case k of Space_User \<Rightarrow> ''user'' | Space_Fullscreen \<Rightarrow> ''fullscreen'' | Space_Tiled \<Rightarrow> ''tiled'')"

definition kind_from_str :: "string \<Rightarrow> space_kind" where
  "kind_from_str s = (if s = ''fullscreen'' then Space_Fullscreen else if s = ''tiled'' then Space_Tiled else Space_User)"

record space =
  spc_id :: u64
  spc_display_id :: u32
  spc_display_uuid :: string
  spc_index :: u32
  spc_kind :: space_kind
  spc_name :: "string option"
  spc_system_label :: string
  spc_is_current :: bool

datatype space_event =
    Space_Switched u64 | Space_Renamed u64 "string option" | Space_Added u64 | Space_Removed u64

text \<open>One row of the live reader, and one joined with its label.\<close>
record live_space =
  lsp_id :: u64
  lsp_display_uuid :: string
  lsp_index :: u32
  lsp_kind :: space_kind

record resolved_space = live_space +
  rsp_label :: "string option"

definition pick_label :: "live_space \<Rightarrow> space_label list \<Rightarrow> string option" where
  "pick_label l stored =
     (case find (\<lambda>r. mlb_cgs_id_hint r = Some (lsp_id l) \<and> mlb_display_uuid r = lsp_display_uuid l \<and>
                   mlb_space_kind r = kind_to_str (lsp_kind l)) stored of
        Some r \<Rightarrow> Some (mlb_label r)
      | None \<Rightarrow> map_option mlb_label (find (\<lambda>r. mlb_display_uuid r = lsp_display_uuid l \<and> mlb_space_index r = lsp_index l \<and>
                   mlb_space_kind r = kind_to_str (lsp_kind l)) stored))"

definition resolve :: "live_space list \<Rightarrow> space_label list \<Rightarrow> resolved_space list" where
  "resolve live stored =
     map (\<lambda>l. \<lparr>lsp_id = lsp_id l, lsp_display_uuid = lsp_display_uuid l, lsp_index = lsp_index l, lsp_kind = lsp_kind l,
               rsp_label = pick_label l stored\<rparr>) live"

definition stub_space_for_label :: "space_label \<Rightarrow> bool \<Rightarrow> space" where
  "stub_space_for_label l is_current =
     \<lparr>spc_id = scast (mlb_space_index l), spc_display_id = 0, spc_display_uuid = mlb_display_uuid l, spc_index = mlb_space_index l,
      spc_kind = kind_from_str (mlb_space_kind l), spc_name = Some (mlb_label l),
      spc_system_label = ''Desktop '' @ show_i32 (mlb_space_index l), spc_is_current = is_current\<rparr>"

definition PLACEHOLDER_SPACE_KIND :: string where "PLACEHOLDER_SPACE_KIND = ''user''"

definition space_id_to_index :: "u64 \<Rightarrow> 32 word" where
  "space_id_to_index i = ucast i"

datatype overlay_command = Set_Labels "(thumb_rect \<times> string) list" | Overlay_Show | Overlay_Hide

text \<open>The window server's spaces of a display and its current one; None where the private call gives nothing.\<close>
record mac_host =
  mh_machine_id :: string
  mh_display :: string
  mh_now :: timestamp
  mh_live :: "string \<Rightarrow> live_space list option"
  mh_current :: "string \<Rightarrow> u64 option"

text \<open>The driver's port for spaces, if it has one, and what the routes and the port share.\<close>
datatype spaces_port = No_Spaces | Storage_Spaces | Ffi_Spaces

record mac_state =
  mac_port :: spaces_port
  mac_power :: power_port
  mac_labels :: "space_label list"
  mac_events :: "space_event list"
  mac_overlay :: "overlay_command list"

definition send_event :: "space_event \<Rightarrow> mac_state \<Rightarrow> mac_state" where
  "send_event e st = st\<lparr>mac_events := mac_events st @ [e]\<rparr>"

definition repaint_overlay :: "mac_host \<Rightarrow> mac_state \<Rightarrow> mac_state" where
  "repaint_overlay h st =
     (let labels = list_macos_labels (mh_machine_id h) None (mac_labels st)
      in if labels = [] then st\<lparr>mac_overlay := mac_overlay st @ [Overlay_Hide]\<rparr>
         else (let frames = compute_thumbnail_frames \<lparr>db_width = 2560, db_height = 1440, db_has_menu_bar = True\<rparr> (length labels)
               in st\<lparr>mac_overlay := mac_overlay st @ [Set_Labels (zip frames (map mlb_label labels)), Overlay_Show]\<rparr>))"

definition label_row :: "mac_host \<Rightarrow> u64 \<Rightarrow> string \<Rightarrow> space_label" where
  "label_row h i label =
     \<lparr>mlb_machine_id = mh_machine_id h, mlb_display_uuid = mh_display h, mlb_space_index = space_id_to_index i,
      mlb_space_kind = PLACEHOLDER_SPACE_KIND, mlb_label = label, mlb_cgs_id_hint = Some i, mlb_created_at = [], mlb_updated_at = []\<rparr>"

definition persist_label :: "mac_host \<Rightarrow> u64 \<Rightarrow> string \<Rightarrow> mac_state \<Rightarrow> (platform_error + unit) \<times> mac_state" where
  "persist_label h i name st =
     (if trim name = [] then (Inl (Underlying ''label is empty''), st)
      else (Inr (), repaint_overlay h
        (st\<lparr>mac_labels := upsert_macos_label (mh_now h) (label_row h i (trim name)) (mac_labels st)\<rparr>)))"

text \<open>SpacesPort::name and unname, the same for both ports.\<close>
definition port_name :: "mac_host \<Rightarrow> u64 \<Rightarrow> string \<Rightarrow> mac_state \<Rightarrow> (platform_error + unit) \<times> mac_state" where
  "port_name h i name st =
     (case persist_label h i name st of
        (Inl e, st) \<Rightarrow> (Inl e, st) | (Inr _, st) \<Rightarrow> (Inr (), send_event (Space_Renamed i (Some name)) st))"

definition label_key_of :: "mac_host \<Rightarrow> u64 \<Rightarrow> string \<times> string \<times> 32 word \<times> string" where
  "label_key_of h i = (mh_machine_id h, mh_display h, space_id_to_index i, PLACEHOLDER_SPACE_KIND)"

definition port_unname :: "mac_host \<Rightarrow> u64 \<Rightarrow> mac_state \<Rightarrow> (platform_error + unit) \<times> mac_state" where
  "port_unname h i st =
     (case delete_macos_label (label_key_of h i) (mac_labels st) of
        (False, _) \<Rightarrow> (Inl (Underlying ''label not found''), st)
      | (True, rows) \<Rightarrow> (Inr (), send_event (Space_Renamed i None) (st\<lparr>mac_labels := rows\<rparr>)))"

definition space_of_live :: "live_space \<Rightarrow> string option \<Rightarrow> bool \<Rightarrow> space" where
  "space_of_live l name is_current =
     \<lparr>spc_id = lsp_id l, spc_display_id = 0, spc_display_uuid = lsp_display_uuid l, spc_index = lsp_index l, spc_kind = lsp_kind l,
      spc_name = name, spc_system_label = ''Desktop '' @ show_nat (unat (lsp_index l)), spc_is_current = is_current\<rparr>"

definition live_of :: "mac_host \<Rightarrow> platform_error + live_space list" where
  "live_of h =
     (case mh_live h (mh_display h) of
        None \<Rightarrow> Inl (Version_Skew (''CGS returned no Space list '' @ [CHR 0xE2, CHR 0x80, CHR 0x94] @ '' private symbol shape may have moved'')) | Some ls \<Rightarrow> Inr ls)"

definition ffi_list :: "mac_host \<Rightarrow> mac_state \<Rightarrow> platform_error + space list" where
  "ffi_list h st =
     (case live_of h of
        Inl e \<Rightarrow> Inl e
      | Inr live \<Rightarrow>
          (let stored = list_macos_labels (mh_machine_id h) (Some (mh_display h)) (mac_labels st);
               current_id = mh_current h (mh_display h)
           in Inr (map (\<lambda>r. space_of_live (live_space.truncate r) (rsp_label r) (current_id = Some (lsp_id r))) (resolve live stored))))"

definition ffi_current :: "mac_host \<Rightarrow> mac_state \<Rightarrow> platform_error + space" where
  "ffi_current h st =
     (case live_of h of
        Inl e \<Rightarrow> Inl e
      | Inr live \<Rightarrow>
          (case mh_current h (mh_display h) of
             None \<Rightarrow> Inl Display_Gone
           | Some current \<Rightarrow>
               (case find (\<lambda>l. lsp_id l = current) live of
                  None \<Rightarrow> Inl Display_Gone
                | Some l \<Rightarrow>
                    (let stored = list_macos_labels (mh_machine_id h) (Some (mh_display h)) (mac_labels st)
                     in Inr (space_of_live l (map_option mlb_label (find (\<lambda>s. mlb_display_uuid s = lsp_display_uuid l \<and>
                          mlb_space_index s = lsp_index l \<and> mlb_space_kind s = kind_to_str (lsp_kind l)) stored)) True)))))"

definition storage_list :: "mac_host \<Rightarrow> mac_state \<Rightarrow> space list" where
  "storage_list h st = map (\<lambda>l. stub_space_for_label l False) (list_macos_labels (mh_machine_id h) None (mac_labels st))"

section \<open>Routes\<close>

definition map_error_code :: "platform_error \<Rightarrow> nat" where
  "map_error_code e =
     (case e of Permission_Denied _ \<Rightarrow> 403 | Unsupported _ \<Rightarrow> 501 | Display_Gone \<Rightarrow> 410 | Version_Skew _ \<Rightarrow> 503 | Underlying _ \<Rightarrow> 500)"

text \<open>An answer: its status with an error text or a value.\<close>
type_synonym 'a mac_answer = "nat \<times> (string + 'a)"

definition map_error :: "platform_error \<Rightarrow> 'a mac_answer" where
  "map_error e = (map_error_code e, Inl (platform_error_text e))"

definition map_result :: "platform_error + 'a \<Rightarrow> 'a mac_answer" where
  "map_result r = (case r of Inl e \<Rightarrow> map_error e | Inr x \<Rightarrow> (200, Inr x))"

definition power_status_handler :: "mac_state \<Rightarrow> power_status" where
  "power_status_handler st = (case port_status (mac_power st) of None \<Rightarrow> unsupported_status | Some s \<Rightarrow> s)"

record set_power_body =
  spb_enable :: bool
  spb_kind :: "sleep_kind option"
  spb_reason :: "string option"

definition set_power_handler :: "iokit \<Rightarrow> set_power_body \<Rightarrow> mac_state \<Rightarrow> power_status mac_answer \<times> mac_state" where
  "set_power_handler io body st =
     (let kind = (case spb_kind body of None \<Rightarrow> Sleep_Display | Some k \<Rightarrow> k);
          reason = (case spb_reason body of None \<Rightarrow> [] | Some r \<Rightarrow> r)
      in case port_set_prevent_sleep io (spb_enable body) kind reason (mac_power st) of
           (r, p) \<Rightarrow> (map_result r, st\<lparr>mac_power := p\<rparr>))"

definition list_spaces_handler :: "mac_host \<Rightarrow> mac_state \<Rightarrow> space list mac_answer" where
  "list_spaces_handler h st =
     (case mac_port st of
        Ffi_Spaces \<Rightarrow> map_result (ffi_list h st)
      | _ \<Rightarrow> (200, Inr (storage_list h st)))"

definition current_space_handler :: "mac_host \<Rightarrow> mac_state \<Rightarrow> space mac_answer" where
  "current_space_handler h st =
     (case mac_port st of
        Ffi_Spaces \<Rightarrow> map_result (ffi_current h st)
      | Storage_Spaces \<Rightarrow> map_error (Unsupported ''spaces.current (FFI feature not enabled)'')
      | No_Spaces \<Rightarrow> (503, Inl ''spaces capability unavailable''))"

text \<open>An event is sent only where the spaces' state is there, that is with a port.\<close>
definition name_handler :: "mac_host \<Rightarrow> u64 \<Rightarrow> string \<Rightarrow> mac_state \<Rightarrow> unit mac_answer \<times> mac_state" where
  "name_handler h i name st =
     (if trim name = [] then ((400, Inl ''label cannot be empty''), st)
      else (let st = st\<lparr>mac_labels := upsert_macos_label (mh_now h) (label_row h i (trim name)) (mac_labels st)\<rparr>
            in ((204, Inr ()), if mac_port st = No_Spaces then st else send_event (Space_Renamed i (Some (trim name))) st)))"

definition unname_handler :: "mac_host \<Rightarrow> u64 \<Rightarrow> mac_state \<Rightarrow> unit mac_answer \<times> mac_state" where
  "unname_handler h i st =
     (case delete_macos_label (label_key_of h i) (mac_labels st) of
        (False, _) \<Rightarrow> ((404, Inl []), st)
      | (True, rows) \<Rightarrow>
          (let st = st\<lparr>mac_labels := rows\<rparr>
           in ((204, Inr ()), if mac_port st = No_Spaces then st else send_event (Space_Renamed i None) st)))"

definition switch_handler :: "u64 \<Rightarrow> mac_state \<Rightarrow> unit mac_answer" where
  "switch_handler i st =
     map_error (Unsupported (if mac_port st = Ffi_Spaces then ''spaces.switch_to deferred to follow-up''
                             else ''spaces.switch_to (FFI feature not enabled)''))"

text \<open>The kernel's driver decides on the capability of spaces when it is built; the stub advertises nothing.\<close>
definition spaces_capable :: "permission_status \<Rightarrow> spaces_port \<Rightarrow> bool" where
  "spaces_capable ax_at_boot port \<longleftrightarrow> ax_at_boot = Perm_Granted \<and> port \<noteq> No_Spaces"

definition health_handler :: "os \<Rightarrow> string option \<Rightarrow> permission_status \<Rightarrow> permission_status \<Rightarrow> bool \<Rightarrow> mac_state \<Rightarrow> platform_health" where
  "health_handler stub_os version ax_at_boot ax_now power_supported st =
     (let caps = (if mac_port st = No_Spaces then no_capabilities
                  else no_capabilities\<lparr>cp_spaces := spaces_capable ax_at_boot (mac_port st), cp_power := power_supported\<rparr>)
      in \<lparr>phl_os = (if mac_port st = No_Spaces then stub_os else Os_MacOS), phl_version = version,
          phl_capabilities = capability_strings caps,
          phl_permissions = \<lparr>pm_accessibility = Some ax_now, pm_notifications = None, pm_screen_recording = None\<rparr>,
          phl_version_skew = False\<rparr>)"

text \<open>The port of a build: without FFI the storage port, with it the live one if the window server can be opened.\<close>
definition make_port :: "bool \<Rightarrow> bool \<Rightarrow> spaces_port" where
  "make_port ffi cgs_opens = (if ffi \<and> cgs_opens then Ffi_Spaces else Storage_Spaces)"

section \<open>The assertion\<close>

text \<open>Any calls of the port, whatever IOKit answers; a created id is not one of the live ones.\<close>
inductive power_reach :: "mac_power \<Rightarrow> bool" where
  power_start: "power_reach mac_power_new"
| power_call: "power_reach p \<Longrightarrow> \<forall>t n i. iok_create io t n = Inr i \<longrightarrow> i \<notin> fst ` set (mp_live p) \<Longrightarrow>
    power_reach (snd (set_prevent_sleep io enable kind reason p))"

text \<open>The process holds exactly the assertion the port knows of.\<close>
definition no_leak :: "mac_power \<Rightarrow> bool" where
  "no_leak p \<longleftrightarrow> (case mp_held p of
      None \<Rightarrow> mp_live p = [] | Some h \<Rightarrow> \<exists>n. mp_live p = [(hld_id h, assertion_type (hld_kind h), n)])"

lemma set_prevent_sleep_no_leak:
  assumes "no_leak p"
  shows "no_leak (snd (set_prevent_sleep io enable kind reason p))"
  using assms
  by (cases "mp_held p")
    (auto simp: set_prevent_sleep_def release_held_def no_leak_def Let_def split: option.splits sum.splits)

lemma power_reach_no_leak: "power_reach p \<Longrightarrow> no_leak p"
  by (induction rule: power_reach.induct) (auto simp: set_prevent_sleep_no_leak, simp add: no_leak_def mac_power_new_def)

text \<open>C31: 
  Whatever toggles come in and however IOKit answers them, the process never holds an assertion the port has lost: at most one is
  live, it is of the kind the status route names, and the route says the host is kept awake exactly when there is one.
\<close>
theorem assertions_accounted:
  assumes "power_reach p"
  shows "length (mp_live p) \<le> 1 \<and> (pws_active (snapshot p) \<longleftrightarrow> mp_live p \<noteq> []) \<and>
    (\<forall>a \<in> set (mp_live p). fst (snd a) = assertion_type (pws_kind (snapshot p)))"
  using power_reach_no_leak [OF assms] by (auto simp: no_leak_def snapshot_def split: option.splits)

definition sample_iokit :: iokit where
  "sample_iokit = \<lparr>iok_release = (\<lambda>i. None), iok_create = (\<lambda>t n. Inr 7)\<rparr>"

lemma assertions_accounted_witness:
  "length (mp_live (snd (set_prevent_sleep sample_iokit True Sleep_System ''r'' mac_power_new))) \<le> 1 \<and>
   pws_active (snapshot (snd (set_prevent_sleep sample_iokit True Sleep_System ''r'' mac_power_new)))"
proof -
  have "power_reach (snd (set_prevent_sleep sample_iokit True Sleep_System ''r'' mac_power_new))"
    by (intro power_call power_start) (simp add: mac_power_new_def)
  from assertions_accounted [OF this] show ?thesis
    by (simp add: set_prevent_sleep_def sample_iokit_def release_held_def mac_power_new_def Let_def snapshot_def)
qed

text \<open>A change of kind whose new assertion is refused leaves the host free to sleep, the old assertion gone.\<close>
lemma refused_switch_releases:
  assumes "no_leak p" and "mp_held p = Some h" and "iok_release io (hld_id h) = None" and "iok_create io = (\<lambda>t n. Inl code)"
  shows "\<exists>e. fst (set_prevent_sleep io True kind reason p) = Inl e" and "mp_live (snd (set_prevent_sleep io True kind reason p)) = []"
  using assms by (auto simp: set_prevent_sleep_def release_held_def no_leak_def Let_def)

section \<open>The layout\<close>

definition natural_width :: "display_box \<Rightarrow> nat \<Rightarrow> f64" where
  "natural_width d n = of_nat n * (THUMB_HEIGHT * (db_width d / db_height d)) + of_nat (n - 1) * GUTTER"

text \<open>The bar is never wider than the display less its insets.\<close>
lemma thumb_size_facts:
  assumes "0 < db_width d" and "0 < db_height d" and "0 < n" and room: "2 * SIDE_INSET + of_nat (n - 1) * GUTTER < db_width d"
  shows "0 < fst (thumb_size d n)" and "0 < snd (thumb_size d n)" and "snd (thumb_size d n) \<le> THUMB_HEIGHT"
    and "of_nat n * fst (thumb_size d n) + of_nat (n - 1) * GUTTER \<le> db_width d - 2 * SIDE_INSET"
    and "fst (thumb_size d n) = snd (thumb_size d n) * (db_width d / db_height d)"
proof -
  define a where "a = db_width d / db_height d"
  define g where "g = of_nat (n - 1) * GUTTER"
  define w where "w = (db_width d - 2 * SIDE_INSET - g) / of_nat n"
  have pos: "0 < a" "0 < w" "0 < (of_nat n :: f64)" using assms(1,2,3) room by (simp_all add: a_def w_def g_def)
  have size: "thumb_size d n = (if of_nat n * (THUMB_HEIGHT * a) + g > db_width d - 2 * SIDE_INSET then (w, w / a) else (THUMB_HEIGHT * a, THUMB_HEIGHT))"
    unfolding thumb_size_def Let_def a_def [symmetric] g_def [symmetric] w_def [symmetric] by (rule refl)
  have "0 < fst (thumb_size d n) \<and> 0 < snd (thumb_size d n) \<and> snd (thumb_size d n) \<le> THUMB_HEIGHT \<and>
    of_nat n * fst (thumb_size d n) + g \<le> db_width d - 2 * SIDE_INSET \<and> fst (thumb_size d n) = snd (thumb_size d n) * a"
  proof (cases "of_nat n * (THUMB_HEIGHT * a) + g > db_width d - 2 * SIDE_INSET")
    case True
    have eq: "of_nat n * w + g = db_width d - 2 * SIDE_INSET" using pos(3) by (simp add: w_def)
    with True have "of_nat n * w < of_nat n * (THUMB_HEIGHT * a)" by linarith
    then have "w < THUMB_HEIGHT * a" using pos(3) by (simp only: mult_less_cancel_left_pos)
    then have "w / a \<le> THUMB_HEIGHT" using pos(1) by (simp only: pos_divide_le_eq less_imp_le)
    moreover have "0 < w / a" "w / a * a = w" using pos by simp_all
    ultimately show ?thesis using True pos eq by (simp only: size if_True fst_conv snd_conv) simp
  next
    case False
    with pos show ?thesis by (simp add: size THUMB_HEIGHT_def)
  qed
  then show "0 < fst (thumb_size d n)" "0 < snd (thumb_size d n)" "snd (thumb_size d n) \<le> THUMB_HEIGHT"
    "of_nat n * fst (thumb_size d n) + of_nat (n - 1) * GUTTER \<le> db_width d - 2 * SIDE_INSET"
    "fst (thumb_size d n) = snd (thumb_size d n) * (db_width d / db_height d)" unfolding a_def g_def by blast+
qed

text \<open>C33: 
  As long as the gutters leave any room on the display, there is a thumbnail for every space, all of one size with the display's
  proportions and at most 96 points high; each lies within the display's side insets and ends a gutter before the next begins; and
  the start-up check of the layout passes on every display high enough for the bar.
\<close>
theorem thumbnails_fit:
  assumes "0 < db_width d" and "132 \<le> db_height d" and "0 < n" and "2 * SIDE_INSET + of_nat (n - 1) * GUTTER < db_width d"
  shows "length (compute_thumbnail_frames d n) = n \<and>
    (\<forall>r \<in> set (compute_thumbnail_frames d n). 0 < tr_width r \<and> 0 < tr_height r \<and> tr_height r \<le> 96 \<and>
      tr_width r = tr_height r * (db_width d / db_height d) \<and>
      SIDE_INSET \<le> tr_x r \<and> tr_x r + tr_width r \<le> db_width d - SIDE_INSET \<and> tr_y r + tr_height r \<le> db_height d) \<and>
    (\<forall>i. Suc i < n \<longrightarrow> tr_x (compute_thumbnail_frames d n ! Suc i) =
       tr_x (compute_thumbnail_frames d n ! i) + tr_width (compute_thumbnail_frames d n ! i) + GUTTER) \<and>
    verify_layout_matches_live d n = None"
proof -
  obtain w h where size: "thumb_size d n = (w, h)" by (cases "thumb_size d n")
  have "0 < db_height d" using assms(2) by linarith
  note facts = thumb_size_facts [OF assms(1) this assms(3,4), unfolded size fst_conv snd_conv]
  define x0 where "x0 = (db_width d - (of_nat n * w + of_nat (n - 1) * GUTTER)) / 2"
  define y where "y = (if db_has_menu_bar d then MENU_BAR + BAR_TOP_INSET else BAR_TOP_INSET)"
  let ?r = "\<lambda>i. \<lparr>tr_x = x0 + of_nat i * (w + GUTTER), tr_y = y, tr_width = w, tr_height = h\<rparr>"
  have frames: "compute_thumbnail_frames d n = map ?r [0..<n]"
    using assms(3) by (simp add: compute_thumbnail_frames_def size Let_def x0_def y_def)
  have y: "y + h \<le> db_height d" using facts(3) assms(2) by (auto simp: y_def MENU_BAR_def BAR_TOP_INSET_def THUMB_HEIGHT_def)
  have x0: "SIDE_INSET \<le> x0" using facts(4) by (simp add: x0_def)
  have fits: "SIDE_INSET \<le> tr_x (?r i)" "tr_x (?r i) + w \<le> db_width d - SIDE_INSET" if i: "i < n" for i
  proof -
    have "0 \<le> of_nat i * (w + GUTTER)" using facts(1) by (simp add: GUTTER_def)
    then show "SIDE_INSET \<le> tr_x (?r i)" using x0 by simp
    have "of_nat i * (w + GUTTER) \<le> of_nat (n - 1) * (w + GUTTER)"
      using i facts(1) by (intro mult_right_mono) (simp_all add: GUTTER_def)
    moreover have "of_nat n * w = of_nat (n - 1) * w + w" using assms(3) by (cases n) (simp_all add: algebra_simps)
    ultimately have "x0 + of_nat i * (w + GUTTER) + w \<le> x0 + (of_nat n * w + of_nat (n - 1) * GUTTER)" by (simp add: algebra_simps)
    also have "\<dots> = db_width d - x0" by (simp add: x0_def field_simps)
    finally show "tr_x (?r i) + w \<le> db_width d - SIDE_INSET" using x0 by simp
  qed
  have "last (map ?r [0..<n]) = ?r (n - 1)" using assms(3) by (simp add: last_map)
  moreover have "SIDE_INSET > 0" by (simp add: SIDE_INSET_def)
  ultimately have "verify_layout_matches_live d n = None"
    using fits(2) [of "n - 1"] y assms(3) by (simp add: verify_layout_matches_live_def frames Let_def)
  moreover have "tr_x (map ?r [0..<n] ! Suc i) = tr_x (map ?r [0..<n] ! i) + tr_width (map ?r [0..<n] ! i) + GUTTER" if "Suc i < n" for i
    using that by (simp add: algebra_simps)
  moreover have "\<forall>r \<in> set (map ?r [0..<n]). 0 < tr_width r \<and> 0 < tr_height r \<and> tr_height r \<le> 96 \<and>
      tr_width r = tr_height r * (db_width d / db_height d) \<and>
      SIDE_INSET \<le> tr_x r \<and> tr_x r + tr_width r \<le> db_width d - SIDE_INSET \<and> tr_y r + tr_height r \<le> db_height d"
    using fits facts(1,2,3,5) y by (auto simp: THUMB_HEIGHT_def)
  ultimately show ?thesis unfolding frames by (simp only: length_map length_upt diff_zero simp_thms) blast
qed

lemma thumbnails_fit_witness:
  "length (compute_thumbnail_frames \<lparr>db_width = 2560, db_height = 1440, db_has_menu_bar = True\<rparr> 30) = 30 \<and>
   verify_layout_matches_live \<lparr>db_width = 2560, db_height = 1440, db_has_menu_bar = True\<rparr> 30 = None"
  using thumbnails_fit [of "\<lparr>db_width = 2560, db_height = 1440, db_has_menu_bar = True\<rparr>" 30] by (simp add: SIDE_INSET_def GUTTER_def)

section \<open>Names of spaces\<close>

definition label_wf :: "space_label \<Rightarrow> bool" where
  "label_wf r \<longleftrightarrow> mlb_space_kind r = PLACEHOLDER_SPACE_KIND \<and>
     (\<exists>i. mlb_cgs_id_hint r = Some i \<and> mlb_space_index r = space_id_to_index i)"

definition labels_ok :: "space_label list \<Rightarrow> bool" where
  "labels_ok rows \<longleftrightarrow> distinct (map label_key rows) \<and> list_all label_wf rows"

text \<open>Any requests to name and to forget spaces, on any display.\<close>
inductive labels_reach :: "mac_state \<Rightarrow> bool" where
  labels_start: "mac_labels st = [] \<Longrightarrow> labels_reach st"
| labels_name: "labels_reach st \<Longrightarrow> labels_reach (snd (name_handler h i name st))"
| labels_unname: "labels_reach st \<Longrightarrow> labels_reach (snd (unname_handler h i st))"

lemma name_handler_labels:
  "trim name \<noteq> [] \<Longrightarrow>
     mac_labels (snd (name_handler h i name st)) = upsert_macos_label (mh_now h) (label_row h i (trim name)) (mac_labels st)"
  "trim name = [] \<Longrightarrow> snd (name_handler h i name st) = st"
  "mac_port (snd (name_handler h i name st)) = mac_port st"
  "mac_overlay (snd (name_handler h i name st)) = mac_overlay st"
  by (simp_all add: name_handler_def send_event_def Let_def)

lemma unname_handler_labels:
  "mac_labels (snd (unname_handler h i st)) = filter (\<lambda>r. label_key r \<noteq> label_key_of h i) (mac_labels st)"
  "mac_overlay (snd (unname_handler h i st)) = mac_overlay st"
proof -
  have "filter (\<lambda>r. label_key r \<noteq> k) rows = rows" if "\<not> list_ex (\<lambda>r. label_key r = k) rows" for k rows
    using that by (simp add: filter_id_conv list_ex_iff)
  then show "mac_labels (snd (unname_handler h i st)) = filter (\<lambda>r. label_key r \<noteq> label_key_of h i) (mac_labels st)"
    by (auto simp: unname_handler_def delete_macos_label_def send_event_def Let_def split: bool.splits)
  show "mac_overlay (snd (unname_handler h i st)) = mac_overlay st"
    by (auto simp: unname_handler_def delete_macos_label_def send_event_def Let_def split: bool.splits)
qed

lemma label_row_key: "label_key (label_row h i t) = label_key_of h i"
  by (simp add: label_key_def label_row_def label_key_of_def)

text \<open>The row of a key after an upsert, and the others.\<close>
lemma upsert_label_rows:
  assumes "r \<in> set (upsert_macos_label now l rows)"
  shows "label_key r \<noteq> label_key l \<and> r \<in> set rows \<or>
    label_key r = label_key l \<and> mlb_label r = mlb_label l \<and> mlb_cgs_id_hint r = mlb_cgs_id_hint l"
proof -
  let ?new = "l\<lparr>mlb_created_at := now, mlb_updated_at := now\<rparr>"
  have key: "label_key ?new = label_key l" by (simp add: label_key_def)
  consider (fresh) "\<not> list_ex (\<lambda>x. label_key x = label_key l) rows" "r \<in> set rows \<or> r = ?new"
    | (old) x where "x \<in> set rows" "r = (if label_key x = label_key l
        then x\<lparr>mlb_label := mlb_label l, mlb_cgs_id_hint := mlb_cgs_id_hint l, mlb_updated_at := now\<rparr> else x)"
    using assms by (auto simp: upsert_macos_label_def replace_rows_def key update_where_def split: if_splits)
  then show ?thesis
  proof cases
    case fresh then show ?thesis using key by (auto simp: list_ex_iff)
  next
    case old then show ?thesis by (cases "label_key x = label_key l") (simp_all add: label_key_def)
  qed
qed

lemma upsert_label_keys:
  "map label_key (upsert_macos_label now l rows) =
     (if list_ex (\<lambda>r. label_key r = label_key l) rows then map label_key rows else map label_key rows @ [label_key l])"
proof -
  have "label_key (x\<lparr>mlb_label := a, mlb_cgs_id_hint := b, mlb_updated_at := c\<rparr>) = label_key x" for x a b c by (simp add: label_key_def)
  moreover have "label_key (l\<lparr>mlb_created_at := now, mlb_updated_at := now\<rparr>) = label_key l" by (simp add: label_key_def)
  ultimately show ?thesis by (simp add: upsert_macos_label_def replace_rows_def update_where_def)
qed

lemma upsert_label_has: "\<exists>r \<in> set (upsert_macos_label now l rows). label_key r = label_key l"
proof -
  have "label_key l \<in> set (map label_key (upsert_macos_label now l rows))" unfolding upsert_label_keys
    by (auto simp: list_ex_iff) (metis image_eqI)
  then show ?thesis by force
qed

lemma upsert_label_ok:
  assumes "labels_ok rows"
  shows "labels_ok (upsert_macos_label now (label_row h i t) rows)"
proof -
  let ?l = "label_row h i t"
  have "label_wf r" if "r \<in> set (upsert_macos_label now ?l rows)" for r
    using upsert_label_rows [OF that] assms
    by (auto simp: labels_ok_def list_all_iff label_wf_def label_key_def label_row_def)
  moreover have "distinct (map label_key (upsert_macos_label now ?l rows))"
    using assms upsert_label_keys [of now ?l rows] by (auto simp: labels_ok_def list_ex_iff)
  ultimately show ?thesis by (simp add: labels_ok_def list_all_iff)
qed

lemma labels_reach_ok: "labels_reach st \<Longrightarrow> labels_ok (mac_labels st)"
proof (induction rule: labels_reach.induct)
  case (labels_start st)
  then show ?case by (simp add: labels_ok_def)
next
  case (labels_name st h i name)
  then show ?case by (cases "trim name = []") (simp_all add: name_handler_labels upsert_label_ok)
next
  case (labels_unname st h i)
  then show ?case by (auto simp: unname_handler_labels labels_ok_def list_all_iff distinct_map_filter)
qed

lemma find_all_same: "x \<in> set xs \<Longrightarrow> P x \<Longrightarrow> (\<And>y. y \<in> set xs \<Longrightarrow> P y \<Longrightarrow> f y = t) \<Longrightarrow> \<exists>y. find P xs = Some y \<and> f y = t"
  by (induction xs) auto

text \<open>C32: 
  A space that is named over HTTP is listed under its name: after any earlier namings, the list of the live spaces shows the
  trimmed name for a desktop of the main display whose id the request gave.
\<close>
theorem named_space_listed:
  assumes "labels_reach st" and "mac_port st = Ffi_Spaces" and "mh_live h (mh_display h) = Some live" and "trim name \<noteq> []"
    and "l \<in> set live" and "lsp_kind l = Space_User" and "lsp_display_uuid l = mh_display h"
  shows "\<exists>spaces. list_spaces_handler h (snd (name_handler h (lsp_id l) name st)) = (200, Inr spaces) \<and>
    map spc_id spaces = map lsp_id live \<and> (\<forall>j < length live. live ! j = l \<longrightarrow> spc_name (spaces ! j) = Some (trim name))"
proof -
  let ?st = "snd (name_handler h (lsp_id l) name st)" and ?row = "label_row h (lsp_id l) (trim name)"
  let ?stored = "list_macos_labels (mh_machine_id h) (Some (mh_display h)) (mac_labels ?st)"
  have rows: "mac_labels ?st = upsert_macos_label (mh_now h) ?row (mac_labels st)" by (rule name_handler_labels(1) [OF assms(4)])
  have "labels_ok (mac_labels ?st)" unfolding rows by (rule upsert_label_ok [OF labels_reach_ok [OF assms(1)]])
  then have wf: "\<forall>r \<in> set (mac_labels ?st). label_wf r" by (simp add: labels_ok_def list_all_iff)
  obtain r where r: "r \<in> set (mac_labels ?st)" "label_key r = label_key ?row" using upsert_label_has unfolding rows by blast
  have fields: "mlb_machine_id r = mh_machine_id h" "mlb_display_uuid r = mh_display h" "mlb_space_kind r = ''user''"
    using r(2) by (simp_all add: label_key_def label_row_def PLACEHOLDER_SPACE_KIND_def)
  have hint: "mlb_cgs_id_hint r = Some (lsp_id l)" using upsert_label_rows [OF r(1) [unfolded rows]] r(2) by (simp add: label_row_def)
  have stored: "set ?stored = {x \<in> set (mac_labels ?st). mlb_machine_id x = mh_machine_id h \<and> mlb_display_uuid x = mh_display h}"
    by (auto simp: list_macos_labels_def)
  let ?P = "\<lambda>x. mlb_cgs_id_hint x = Some (lsp_id l) \<and> mlb_display_uuid x = lsp_display_uuid l \<and> mlb_space_kind x = kind_to_str (lsp_kind l)"
  have same: "mlb_label y = trim name" if y: "y \<in> set ?stored" "?P y" for y
  proof -
    have "y \<in> set (mac_labels ?st)" "mlb_machine_id y = mh_machine_id h" using y(1) by (auto simp: stored)
    moreover from this(1) wf y(2) have "mlb_space_index y = space_id_to_index (lsp_id l)" by (auto simp: label_wf_def)
    ultimately have "label_key y = label_key ?row"
      using y(2) assms(6,7) by (simp add: label_key_def label_row_def PLACEHOLDER_SPACE_KIND_def kind_to_str_def)
    with upsert_label_rows [of y "mh_now h" ?row "mac_labels st"] \<open>y \<in> set (mac_labels ?st)\<close> show ?thesis
      unfolding rows by (simp add: label_row_def)
  qed
  have "r \<in> set ?stored" "?P r" using r(1) fields hint assms(6,7) by (auto simp: stored kind_to_str_def)
  from find_all_same [where P = ?P and f = mlb_label, OF this same] obtain y where "find ?P ?stored = Some y" "mlb_label y = trim name" by blast
  then have "pick_label l ?stored = Some (trim name)" by (simp add: pick_label_def)
  then have "map spc_name spaces ! j = Some (trim name)"
    if "spaces = map (\<lambda>x. space_of_live x (pick_label x ?stored) (mh_current h (mh_display h) = Some (lsp_id x))) live" "j < length live" "live ! j = l"
    for spaces j using that by (simp add: space_of_live_def)
  moreover have "list_spaces_handler h ?st = (200, Inr (map (\<lambda>x. space_of_live x (pick_label x ?stored)
      (mh_current h (mh_display h) = Some (lsp_id x))) live))"
    using assms(2,3)
    by (simp add: list_spaces_handler_def name_handler_labels(3) ffi_list_def live_of_def map_result_def Let_def resolve_def
        live_space.defs comp_def space_of_live_def)
  ultimately show ?thesis by (auto simp: space_of_live_def comp_def)
qed

definition sample_desktop :: "u64 \<Rightarrow> u32 \<Rightarrow> live_space" where
  "sample_desktop i n = \<lparr>lsp_id = i, lsp_display_uuid = ''D'', lsp_index = n, lsp_kind = Space_User\<rparr>"

definition sample_host :: "live_space list \<Rightarrow> u64 \<Rightarrow> mac_host" where
  "sample_host live current = \<lparr>mh_machine_id = ''m'', mh_display = ''D'', mh_now = ''n'', mh_live = (\<lambda>d. Some live),
     mh_current = (\<lambda>d. Some current)\<rparr>"

definition sample_mac :: mac_state where
  "sample_mac = \<lparr>mac_port = Ffi_Spaces, mac_power = No_Power, mac_labels = [], mac_events = [], mac_overlay = []\<rparr>"

lemma sample_name: "trim ''inbox'' = ''inbox''"
  by code_simp

lemma named_space_listed_witness:
  "\<exists>spaces. list_spaces_handler (sample_host [sample_desktop 1001 1] 1001)
      (snd (name_handler (sample_host [sample_desktop 1001 1] 1001) 1001 ''inbox'' sample_mac)) = (200, Inr spaces) \<and>
    spc_name (spaces ! 0) = Some ''inbox''"
proof -
  have "labels_reach sample_mac" by (rule labels_start) (simp add: sample_mac_def)
  with named_space_listed [of sample_mac "sample_host [sample_desktop 1001 1] 1001" "[sample_desktop 1001 1]" "''inbox''" "sample_desktop 1001 1"]
  show ?thesis unfolding sample_name by (auto simp: sample_mac_def sample_host_def sample_desktop_def)
qed

text \<open>The current space does not know its name: its query looks labels up by desktop number, and they are stored under the id.\<close>
lemma current_misses_name:
  "let h = sample_host [sample_desktop 1001 1] 1001; st = snd (name_handler h 1001 ''inbox'' sample_mac)
   in \<exists>s. current_space_handler h st = (200, Inr s) \<and> spc_name s = None"
  by (simp add: Let_def sample_name name_handler_def sample_host_def sample_desktop_def sample_mac_def send_event_def current_space_handler_def
      ffi_current_def live_of_def list_macos_labels_def upsert_macos_label_def replace_rows_def label_row_def space_id_to_index_def
      PLACEHOLDER_SPACE_KIND_def order_asc_def kind_to_str_def map_result_def space_of_live_def)

text \<open>When the ids have changed, a name sticks to the desktop whose number is the old id: here desktop 1 was named.\<close>
lemma stale_name_moves:
  "let st = snd (name_handler (sample_host [sample_desktop 2 1, sample_desktop 3 2] 2) 2 ''inbox'' sample_mac);
       h = sample_host [sample_desktop 11 1, sample_desktop 12 2] 11
   in \<exists>s t. list_spaces_handler h st = (200, Inr [s, t]) \<and> spc_name s = None \<and> spc_name t = Some ''inbox''"
  by (simp add: Let_def sample_name name_handler_def sample_host_def sample_desktop_def sample_mac_def send_event_def list_spaces_handler_def
      ffi_list_def live_of_def list_macos_labels_def upsert_macos_label_def replace_rows_def label_row_def space_id_to_index_def
      PLACEHOLDER_SPACE_KIND_def order_asc_def kind_to_str_def map_result_def space_of_live_def resolve_def pick_label_def live_space.defs)

text \<open>Ids that agree in their low 32 bits share one row: naming the second space takes the name of the first.\<close>
lemma truncated_ids_collide: "label_key (label_row h (2 ^ 32 + 5) a) = label_key (label_row h 5 b)"
  by (simp add: label_key_def label_row_def space_id_to_index_def)

text \<open>The routes never repaint the overlay: no window is ever given a label by naming a space.\<close>
lemma renames_never_reach_overlay: "labels_reach st \<Longrightarrow> mac_overlay (snd (name_handler h i name st)) = mac_overlay st"
  by (rule name_handler_labels(4))

text \<open>The fallback to the storage port still advertises the capability.\<close>
lemma storage_fallback_advertised: "spaces_capable Perm_Granted (make_port True False)"
  by (simp add: spaces_capable_def make_port_def)

end
