(* ===== verification/Spec2Isabelle.thy ===== *)
theory Spec2Isabelle
  imports Prelude Core_Types Acceptance Store_Schema Store_Board Store_Acceptance Store_Tasks Orch_Prompt
    Orch_Agent Orch_Worker Guardrails Store_Inbox Store_Memory Store_Schedule Scheduler_Runner Scheduler_Routes
    Browser_Pool Mac_Comm Sync_Engine App_Manifest App_Install Schedule_History Otel_Spans Store_Telemetry
    Event_Bus Otel_Routes Web_Crawl Board_Markdown Context_Store Store_Registry Board_Routes Vault_Sync
    Llm_Capture Llm_Relay Mac_Platform
begin

text \<open>
  A verification development for the GroundCtrl kernel, the daemon under \<^verbatim>\<open>src/kernel/crates\<close> that keeps a
  project board, dispatches coding agents on its issues, keeps an inbox of requests to a human, a memory of notes
  and a table of schedules that it fires over HTTP or as processes.

  \<^bold>\<open>How the parts interact.\<close> Everything durable is in one SQLite database, \<^verbatim>\<open>SqliteStore\<close>. HTTP handlers,
  the orchestrator and the scheduler's tick are its clients; each store call holds the connection's lock, so calls are
  atomic and the hard behaviours come from sequences of calls. Moving an issue to in\_progress promotes it to a task;
  a worker claims an unclaimed task by a compare-and-swap, renders its brief, runs an agent, posts the report as a
  comment and releases the task. The scheduler lists due rows, fires each, and records the run with the next firing.

  \<^bold>\<open>The theories.\<close>
  \<^item> \<^theory_text>\<open>Prelude\<close>: the state-and-error monad \<^verbatim>\<open>db\<close> (a call returns an error or a value, and the store), table operations on
    lists of rows, byte-string routines of Rust's \<^verbatim>\<open>str\<close> (trim, split, contains, char boundaries), decimal printing, and
    the interfaces \<^verbatim>\<open>str_codec\<close> (an enum and its text) and \<^verbatim>\<open>sync_table\<close> (a table with a synced flag).
  \<^item> \<^theory_text>\<open>Core_Types\<close> (\<^verbatim>\<open>gctrl-core/src/types.rs\<close>): enums, the issue status machine, the claim states.
  \<^item> \<^theory_text>\<open>Acceptance\<close> (\<^verbatim>\<open>acceptance.rs\<close>): the checklist parser.
  \<^item> \<^theory_text>\<open>Store_Schema\<close>: the store as a record of tables, row types, statement combinators (\<^verbatim>\<open>sql_insert\<close>, \<^verbatim>\<open>sql_update\<close>,
    \<^verbatim>\<open>query_row\<close>), JSON values, row decoders.
  \<^item> \<^theory_text>\<open>Store_Board\<close>, \<^theory_text>\<open>Store_Acceptance\<close>, \<^theory_text>\<open>Store_Tasks\<close>, \<^theory_text>\<open>Store_Inbox\<close>, \<^theory_text>\<open>Store_Memory\<close>, \<^theory_text>\<open>Store_Schedule\<close>
    (\<^verbatim>\<open>gctrl-storage/src/sqlite_store.rs\<close>): one theory per group of tables, one definition per method, under the method's
    name. \<^theory_text>\<open>Store_Inbox\<close> adds the inbox handlers of \<^verbatim>\<open>gctrl-otel/src/receiver.rs\<close> as interleaved requests.
  \<^item> \<^theory_text>\<open>Orch_Prompt\<close>, \<^theory_text>\<open>Orch_Agent\<close>, \<^theory_text>\<open>Orch_Worker\<close> (\<^verbatim>\<open>gctrl-orch\<close>): brief, agent process, one dispatch, and workers that
    interleave store call by store call with each other and with other clients (\<^verbatim>\<open>orch_step\<close>).
  \<^item> \<^theory_text>\<open>Guardrails\<close> (\<^verbatim>\<open>gctrl-guardrails\<close>): the policies and the engine that asks them in order.
  \<^item> \<^theory_text>\<open>Scheduler_Runner\<close> (\<^verbatim>\<open>gctrl-scheduler\<close>: cron.rs, redact.rs, exec.rs, runner.rs): a tick, one fire, the spawn
    gates, capped reads. \<^theory_text>\<open>Scheduler_Routes\<close> (http.rs, bootstrap.rs): the handlers that write schedules, and all of the
    scheduler's clients as one step relation (\<^verbatim>\<open>route_step\<close>), each step under a configuration of its own. \<^theory_text>\<open>Schedule_History\<close>
    (gctrl-cli: commands/scheduler.rs): the schedule commands of the command line, and the history of runs under every writer
    of schedules (\<^verbatim>\<open>history_step\<close>: the scheduler, app installs, the commands).
  \<^item> \<^theory_text>\<open>Browser_Pool\<close> (\<^verbatim>\<open>gctrl-browser\<close>, \<^verbatim>\<open>browser_routes.rs\<close>): the pool of Chromium processes and its sessions; the critical
    sections of requests and of the recycle sweep interleave (\<^verbatim>\<open>browser_step\<close>). The locale \<^verbatim>\<open>session_source\<close> is what the routes
    rely on.
  \<^item> \<^theory_text>\<open>Mac_Comm\<close> (\<^verbatim>\<open>gctrl-mac-comm\<close>, \<^verbatim>\<open>comm_routes.rs\<close>, \<^verbatim>\<open>host_allowlist_middleware.rs\<close>): rate limiter, validators, focus
    adapters and the Host check.
  \<^item> \<^theory_text>\<open>Sync_Engine\<close> (\<^verbatim>\<open>gctrl-sync\<close>: engine.rs, d1.rs, parquet\_export.rs, manifest.rs): push and pull of the store's rows to
    Cloudflare D1 and of DuckDB's rows to R2, with the network's answers as a stream.
  \<^item> \<^theory_text>\<open>App_Manifest\<close> (\<^verbatim>\<open>gctrl-core\<close>: app\_manifest.rs, capabilities.rs) and \<^theory_text>\<open>App_Install\<close> (install, reload, uninstall, vault
    mounts and pages of \<^verbatim>\<open>receiver.rs\<close>).
  \<^item> \<^theory_text>\<open>Otel_Spans\<close> (span\_processor.rs), \<^theory_text>\<open>Store_Telemetry\<close> (the telemetry tables of duckdb\_store.rs), \<^theory_text>\<open>Event_Bus\<close>
    (event\_bus.rs and the SSE handler; publishers interleave step by step, and a client's stream with publishes) and \<^theory_text>\<open>Otel_Routes\<close> (the telemetry handlers of receiver.rs, and a kernel that serves any
    requests, \<^verbatim>\<open>otel_handle\<close>).
  \<^item> \<^theory_text>\<open>Web_Crawl\<close> (\<^verbatim>\<open>gctrl-net\<close>: crawl.rs, fetch.rs, storage.rs, compact.rs): page fetch, crawler, page store, compaction. The
    crawl loop is a \<^verbatim>\<open>while_option\<close> that is proved to end; \<^verbatim>\<open>crawl_visits\<close> are the addresses it visits.
  \<^item> \<^theory_text>\<open>Board_Markdown\<close> (board\_markdown.rs and its routes): issues as Markdown files with front matter, exported and imported.
  \<^item> \<^theory_text>\<open>Context_Store\<close> (\<^verbatim>\<open>gctrl-context\<close>, context.rs, the context routes): rows in a table, contents in files below a base
    directory; paths are walked as the operating system does.
  \<^item> \<^theory_text>\<open>Store_Registry\<close> (personas, review rules and context entries of sqlite\_store.rs, persona\_markdown.rs, the persona and
    team routes): the locale \<^verbatim>\<open>upsert_table\<close> is what an import relies on.
  \<^item> \<^theory_text>\<open>Board_Routes\<close> (the board and memory handlers of receiver.rs): what each answers, errors classified by their texts
    included.
  \<^item> \<^theory_text>\<open>Vault_Sync\<close> (vault.rs and the vault sync routes): a project's files are hashed, compared with its manifest and
    uploaded; a failed upload is one of the outcomes. \<^verbatim>\<open>pushed\<close> are the states pushes reach, \<^verbatim>\<open>clean_push\<close> the pushes without
    interference.
  \<^item> \<^theory_text>\<open>Llm_Capture\<close> and \<^theory_text>\<open>Llm_Relay\<close> (\<^verbatim>\<open>gctrl-proxy\<close>, the LLM and messaging routes of receiver.rs): exchanges with language models
    are passed on and captured as prompt rows and a span of the telemetry store; the proxy's traffic rows.
  \<^item> \<^theory_text>\<open>Mac_Platform\<close> (\<^verbatim>\<open>gctrl-driver-macos\<close>, platform.rs): the assertion that keeps the host awake, the named spaces and
    their label table, the thumbnail layout and the routes.

  \<^bold>\<open>What the lemmas show.\<close> Each store theory has a well-formedness invariant (unique keys, references, counters) that
  every call of its tables keeps (a step relation, rule induction), the effect of each write on every branch, and the
  properties drawn from them. The interleaving theories show what holds whatever the schedule of calls: one holder per
  task, one live attempt per issue, one action per message, no spawn past the gates. A dispatch refines its
  specification (\<^verbatim>\<open>dispatch_outcome\<close>) and is a run of the interleaved system (\<^verbatim>\<open>dispatch_is_a_run\<close>). The contract between the
  orchestrator and the store is the locale \<^verbatim>\<open>claim_store\<close>, interpreted on the store's own calls. The code's own claims
  that fail are theorems too: a failed callback keeps a schedule green, a report becomes the next brief, an error after
  the claim leaves the task claimed, a streamed request that is answered whole is not captured, a PUT that was stored but answered
  with an error leaves a stale hash. Where a property needs conditions the code does not check (files that hold still during a
  push, one publisher at a time, single-line titles), its text names them.

  \<^bold>\<open>Conventions.\<close> Strings are their UTF-8 bytes (Isabelle's 8-bit \<^verbatim>\<open>char\<close>). Clock readings and fresh UUIDs are arguments,
  a function of the call's index where there are several. A table is the list of its rows in insertion order; ORDER BY is a
  stable sort, so ties keep insertion order. Costs (f64) are rationals. Third-party code is a parameter: the cron
  library, the regular expressions of the redactor, lossy UTF-8, Debug printing, HTTP and processes are fields of a record
  or arguments. Every loop of the modelled code is structural or has a termination proof, so no fuel is used; endless service
  loops are step relations. Handlers of the scheduler, of app installs and of vault pushes are single steps; the board, inbox,
  orchestrator, browser and event bus theories interleave below that level.

  \<^bold>\<open>Not modelled.\<close> SQLite I/O failures and ALTER migrations of old databases; JSON decoding of requests by the web
  framework; DuckDbStore's older copies of the board, inbox and persona tables; routes that only pass a request to a store;
  TLS interception, browser automation, AppKit windows, recording, calendar, feed and object-store clients (remote or third-party I/O); the
  command-line client apart from its schedule commands and persona import. The limiter's bound is for calls in the order of
  their instants; files of the context store are a flat map, so a file where a directory is needed is an error of the file system.
\<close>

end
